(* ===== verification/Prelude.thy ===== *)
theory Prelude
  imports Main "HOL-Library.Multiset" "HOL-Library.List_Lexorder" "HOL-Library.Char_ord"
    "HOL-Library.AList"
begin

text \<open>
  Shared vocabulary of the development: instants and durations, results that may be an error, Go
  maps as association lists, and the functions of Go's \<open>strings\<close> package that the program calls.
  A Go string is a byte sequence, so it is an Isabelle \<open>string\<close> (a list of 8 bit characters), and
  Go's \<open><\<close> on strings is the lexicographic order of HOL-Library.List_Lexorder over Char_ord.
\<close>

section \<open>Proof hint collections\<close>

named_theorems gomap_simps \<open>rewriting of Go map operations to the lookup function\<close>
named_theorems keep_inv \<open>operations preserve the invariant of their component\<close>

section \<open>Results that may be an error\<close>

definition sum_bind :: "'e + 'a \<Rightarrow> ('a \<Rightarrow> 'e + 'b) \<Rightarrow> 'e + 'b" where
  "sum_bind r f = (case r of Inl e \<Rightarrow> Inl e | Inr x \<Rightarrow> f x)"

lemma sum_bind_simps [simp]: "sum_bind (Inl e) f = Inl e" "sum_bind (Inr x) f = f x"
  by (simp_all add: sum_bind_def)

lemma sum_bind_Inr [simp]: "sum_bind r f = Inr y \<longleftrightarrow> (\<exists>x. r = Inr x \<and> f x = Inr y)"
  by (cases r) auto

text \<open>A loop whose body may return an error.\<close>

fun fold_sum :: "('s \<Rightarrow> 'x \<Rightarrow> 'e + 's) \<Rightarrow> 's \<Rightarrow> 'x list \<Rightarrow> 'e + 's" where
  "fold_sum f s [] = Inr s"
| "fold_sum f s (x # xs) = sum_bind (f s x) (\<lambda>t. fold_sum f t xs)"

text \<open>What every iteration keeps, of the elements done so far and the state.\<close>

lemma fold_sum_so_far:
  assumes step: "\<And>pre s x t. P pre s \<Longrightarrow> f s x = Inr t \<Longrightarrow> P (pre @ [x]) t"
  shows "P pre s \<Longrightarrow> fold_sum f s xs = Inr t \<Longrightarrow> P (pre @ xs) t"
proof (induction xs arbitrary: pre s)
  case (Cons x xs)
  then obtain u where "f s x = Inr u" "fold_sum f u xs = Inr t" by auto
  with Cons.IH [OF step [OF Cons.prems(1)]] show ?case by simp
qed simp

section \<open>Time\<close>

text \<open>
  \<open>time.Time\<close> and \<open>time.Duration\<close> are integers counting nanoseconds. \<open>Before\<close>, \<open>After\<close> and
  \<open>Add\<close> are \<open><\<close>, \<open>>\<close> and \<open>+\<close>.
\<close>

type_synonym time = int

definition second :: time where "second = 1000000000"
definition minute :: time where "minute = 60 * second"

section \<open>Go maps\<close>

text \<open>
  A Go map is an association list with distinct keys: \<open>map_of m k\<close> looks a key up,
  \<open>AList.update\<close> stores, \<open>AList.delete\<close> removes and \<open>length\<close> is \<open>len\<close>. The order of the list is
  never observed by the model where Go leaves the iteration order open.
\<close>

type_synonym ('k, 'v) gomap = "('k \<times> 'v) list"

abbreviation wf_map :: "('k, 'v) gomap \<Rightarrow> bool" where
  "wf_map m \<equiv> distinct (map fst m)"

abbreviation map_set :: "'k \<Rightarrow> 'v \<Rightarrow> ('k, 'v) gomap \<Rightarrow> ('k, 'v) gomap" where
  "map_set \<equiv> AList.update"

abbreviation map_del :: "'k \<Rightarrow> ('k, 'v) gomap \<Rightarrow> ('k, 'v) gomap" where
  "map_del \<equiv> AList.delete"

lemma map_of_set [simp, gomap_simps]: "map_of (map_set k v m) = (map_of m)(k \<mapsto> v)"
  by (rule update_conv')

lemma map_of_del [simp, gomap_simps]: "map_of (map_del k m) = (map_of m)(k := None)"
  by (rule delete_conv')

lemma wf_map_set [intro, simp]: "wf_map m \<Longrightarrow> wf_map (map_set k v m)"
  by (rule distinct_update)

lemma wf_map_del [intro, simp]: "wf_map m \<Longrightarrow> wf_map (map_del k m)"
  by (rule distinct_delete)

lemma length_map_card: "wf_map m \<Longrightarrow> length m = card (dom (map_of m))"
  by (metis dom_map_of_conv_image_fst distinct_card length_map list.set_map)

lemma length_map_set:
  assumes "wf_map m"
  shows "length (map_set k v m) = (if k \<in> dom (map_of m) then length m else Suc (length m))"
  using assms by (simp add: length_map_card finite_dom_map_of insert_absorb)

lemma length_map_del:
  assumes "wf_map m"
  shows "length (map_del k m) = (if k \<in> dom (map_of m) then length m - 1 else length m)"
  using assms by (simp add: length_map_card finite_dom_map_of del: map_of_eq_None_iff)

section \<open>Strings\<close>

definition has_prefix :: "string \<Rightarrow> string \<Rightarrow> bool" where
  "has_prefix s p = (take (length p) s = p)"

definition has_suffix :: "string \<Rightarrow> string \<Rightarrow> bool" where
  "has_suffix s p = (length p \<le> length s \<and> drop (length s - length p) s = p)"

definition trim_prefix :: "string \<Rightarrow> string \<Rightarrow> string" where
  "trim_prefix s p = (if has_prefix s p then drop (length p) s else s)"

definition trim_suffix :: "string \<Rightarrow> string \<Rightarrow> string" where
  "trim_suffix s p = (if has_suffix s p then take (length s - length p) s else s)"

lemma has_prefix_append [simp]: "has_prefix (p @ s) p"
  by (simp add: has_prefix_def)

lemma has_prefixE: "has_prefix s p \<Longrightarrow> \<exists>t. s = p @ t"
  unfolding has_prefix_def by (metis append_take_drop_id)

lemma has_suffix_append [simp]: "has_suffix (s @ p) p"
  by (simp add: has_suffix_def)

lemma trim_prefix_append [simp]: "trim_prefix (p @ s) p = s"
  by (simp add: trim_prefix_def)

lemma trim_suffix_append [simp]: "trim_suffix (s @ p) p = s"
  by (simp add: trim_suffix_def)

subsection \<open>Three-way comparison\<close>

text \<open>\<open>strings.Compare\<close> and \<open>cmp.Compare\<close>: -1, 0 or 1. \<open>cmp_then\<close> breaks ties.\<close>

definition string_Compare :: "string \<Rightarrow> string \<Rightarrow> int" where
  "string_Compare a b = (if a = b then 0 else if a < b then -1 else 1)"

definition nat_Compare :: "nat \<Rightarrow> nat \<Rightarrow> int" where
  "nat_Compare a b = (if a = b then 0 else if a < b then -1 else 1)"

definition cmp_then :: "int \<Rightarrow> int \<Rightarrow> int" where
  "cmp_then a b = (if a \<noteq> 0 then a else b)"

lemma cmp_then_simps [simp]: "cmp_then 0 b = b" "cmp_then (- 1) b = - 1" "cmp_then 1 b = 1" "cmp_then a 0 = a"
  by (simp_all add: cmp_then_def)

lemma cmp_then_assoc: "cmp_then (cmp_then a b) c = cmp_then a (cmp_then b c)"
  by (simp add: cmp_then_def)

lemma string_Compare_simps [simp]:
  "string_Compare [] [] = 0" "string_Compare [] (y # ys) = -1" "string_Compare (x # xs) [] = 1"
  "string_Compare (x # xs) (y # ys) =
     (if x = y then string_Compare xs ys else if x < y then -1 else 1)"
  by (auto simp: string_Compare_def)

lemma string_Compare_same_length:
  "length u = length w \<Longrightarrow> string_Compare (u @ r) (w @ s) = cmp_then (string_Compare u w) (string_Compare r s)"
  by (induction u w rule: list_induct2) auto

lemma string_Compare_prefix [simp]: "string_Compare (u @ r) (u @ s) = string_Compare r s"
  by (induction u) auto

text \<open>A terminator below every character of the fields makes them self-delimiting.\<close>

lemma string_Compare_delimited:
  "\<forall>c \<in> set p \<union> set q. e < c \<Longrightarrow>
   string_Compare (p @ e # r) (q @ e # s) = cmp_then (string_Compare p q) (string_Compare r s)"
proof (induction p arbitrary: q)
  case Nil
  then show ?case by (cases q) auto
next
  case (Cons x p)
  then show ?case by (cases q) (auto simp: not_less_iff_gr_or_eq)
qed

lemma string_Compare_linear:
  "string_Compare a b = 0 \<longleftrightarrow> a = b" "string_Compare a b = -1 \<longleftrightarrow> a < b" "string_Compare a b = 1 \<longleftrightarrow> b < a"
  "0 < string_Compare a b \<longleftrightarrow> b < a" "string_Compare a b < 0 \<longleftrightarrow> a < b" "string_Compare b a = - string_Compare a b"
  by (auto simp: string_Compare_def)

lemma string_Compare_range: "string_Compare a b \<in> {-1, 0, 1}"
  by (simp add: string_Compare_def)

subsection \<open>Decimal numbers\<close>

definition is_digit :: "char \<Rightarrow> bool" where
  "is_digit c = (CHR ''0'' \<le> c \<and> c \<le> CHR ''9'')"

definition digit_val :: "char \<Rightarrow> nat" where
  "digit_val c = of_char c - 48"

fun digits_val :: "string \<Rightarrow> nat" where
  "digits_val [] = 0"
| "digits_val (c # s) = digit_val c * 10 ^ length s + digits_val s"

abbreviation digits :: "string \<Rightarrow> bool" where
  "digits s \<equiv> (\<forall>c \<in> set s. is_digit c)"

lemma is_digit_bounds: "is_digit c \<longleftrightarrow> 48 \<le> (of_char c :: nat) \<and> (of_char c :: nat) \<le> 57"
  by (simp add: is_digit_def less_eq_char_def)

lemma digit_val_less: "is_digit c \<Longrightarrow> digit_val c < 10"
  unfolding is_digit_bounds digit_val_def by linarith

lemma digit_val_compare: "is_digit c \<Longrightarrow> is_digit d \<Longrightarrow> c < d \<longleftrightarrow> digit_val c < digit_val d"
  by (auto simp: is_digit_bounds digit_val_def less_char_def)

lemma digit_val_inj: "is_digit c \<Longrightarrow> is_digit d \<Longrightarrow> digit_val c = digit_val d \<longleftrightarrow> c = d"
  by (metis digit_val_compare less_irrefl not_less_iff_gr_or_eq)

lemma digits_val_bound: "digits s \<Longrightarrow> digits_val s < 10 ^ length s"
proof (induction s)
  case (Cons c s)
  have "digit_val c \<le> 9" using digit_val_less [of c] Cons.prems by simp
  then have "digit_val c * 10 ^ length s \<le> 9 * 10 ^ length s" by (rule mult_le_mono1)
  moreover have "digits_val s < 10 ^ length s" using Cons by simp
  ultimately show ?case unfolding digits_val.simps list.size(4) add_0_right add_Suc_right power_Suc by linarith
qed simp

lemma digits_val_append: "digits_val (s @ t) = digits_val s * 10 ^ length t + digits_val t"
  by (induction s) (auto simp: algebra_simps power_add)

text \<open>On digit strings of one length the byte order is the numeric order.\<close>

lemma digits_Compare:
  "length s = length t \<Longrightarrow> digits s \<Longrightarrow> digits t \<Longrightarrow>
   string_Compare s t = nat_Compare (digits_val s) (digits_val t)"
proof (induction s t rule: list_induct2)
  case Nil
  then show ?case by (simp add: nat_Compare_def)
next
  case (Cons x xs y ys)
  have bx: "digits_val xs < 10 ^ length ys" and by': "digits_val ys < 10 ^ length ys"
    using digits_val_bound [of xs] digits_val_bound [of ys] Cons by auto
  consider (lt) "digit_val x < digit_val y" | (eq) "x = y" | (gt) "digit_val y < digit_val x"
    using Cons.prems digit_val_inj by fastforce
  then show ?case
  proof cases
    case lt
    then have "Suc (digit_val x) * 10 ^ length ys \<le> digit_val y * 10 ^ length ys" by (intro mult_le_mono1) simp
    with lt bx Cons.hyps show ?thesis using digit_val_compare [of x y] Cons.prems by (auto simp: nat_Compare_def)
  next
    case eq
    then show ?thesis using Cons by (simp add: nat_Compare_def)
  next
    case gt
    then have "Suc (digit_val y) * 10 ^ length ys \<le> digit_val x * 10 ^ length ys" by (intro mult_le_mono1) simp
    with gt by' Cons.hyps show ?thesis using digit_val_compare [of y x] Cons.prems by (auto simp: nat_Compare_def)
  qed
qed

text \<open>The verbs \<open>%d\<close> and \<open>%010d\<close> of \<open>fmt\<close>.\<close>

fun decimal :: "nat \<Rightarrow> string" where
  "decimal n = (if n < 10 then [char_of (48 + n)] else decimal (n div 10) @ [char_of (48 + n mod 10)])"

declare decimal.simps [simp del]

definition decimal_padded :: "nat \<Rightarrow> nat \<Rightarrow> string" where
  "decimal_padded w n = replicate (w - length (decimal n)) CHR ''0'' @ decimal n"

lemma digit_char: "n < 10 \<Longrightarrow> is_digit (char_of (48 + n)) \<and> digit_val (char_of (48 + n :: nat)) = n"
  by (simp add: is_digit_bounds digit_val_def)

lemma decimal_ok: "digits (decimal n) \<and> digits_val (decimal n) = n \<and> decimal n \<noteq> []"
proof (induction n rule: decimal.induct)
  case (1 n)
  show ?case
  proof (cases "n < 10")
    case True
    then show ?thesis using digit_char [of n] by (simp add: decimal.simps [of n])
  next
    case False
    with "1.IH" have "digits (decimal (n div 10))" "digits_val (decimal (n div 10)) = n div 10" by simp_all
    with False digit_char [of "n mod 10"] show ?thesis
      by (simp add: decimal.simps [of n] digits_val_append)
  qed
qed

lemma decimal_length: "n < 10 ^ w \<Longrightarrow> 0 < w \<Longrightarrow> length (decimal n) \<le> w"
proof (induction n arbitrary: w rule: decimal.induct)
  case (1 n)
  show ?case
  proof (cases "n < 10")
    case True
    then show ?thesis using "1.prems" by (simp add: decimal.simps [of n])
  next
    case False
    then obtain v where v: "w = Suc v" "0 < v"
      using "1.prems" by (cases w; cases "w = 1") auto
    then have "n div 10 < 10 ^ v" using "1.prems" by (simp add: less_mult_imp_div_less mult.commute)
    with "1.IH" [OF False this v(2)] False v show ?thesis by (simp add: decimal.simps [of n])
  qed
qed

lemma decimal_padded_ok:
  assumes "n < 10 ^ w" "0 < w"
  shows "length (decimal_padded w n) = w" "digits (decimal_padded w n)" "digits_val (decimal_padded w n) = n"
proof -
  have "digits_val (replicate k CHR ''0'' @ s) = digits_val s" for k s
    by (induction k) (auto simp: digit_val_def)
  then show "length (decimal_padded w n) = w" "digits (decimal_padded w n)" "digits_val (decimal_padded w n) = n"
    using decimal_ok [of n] decimal_length [OF assms]
    by (auto simp: decimal_padded_def is_digit_def)
qed

subsection \<open>Cutting and splitting\<close>

text \<open>\<open>strings.Cut(s, sep)\<close> for a separator of one byte.\<close>

fun cut :: "char \<Rightarrow> string \<Rightarrow> string \<times> string \<times> bool" where
  "cut c [] = ([], [], False)"
| "cut c (x # xs) =
     (if x = c then ([], xs, True) else (case cut c xs of (a, b, f) \<Rightarrow> (x # a, b, f)))"

lemma cut_notin: "c \<notin> set s \<Longrightarrow> cut c s = (s, [], False)"
  by (induction s) auto

lemma cut_append: "c \<notin> set a \<Longrightarrow> cut c (a @ c # b) = (a, b, True)"
  by (induction a) auto

lemma cut_found: "cut c s = (a, b, True) \<Longrightarrow> s = a @ c # b \<and> c \<notin> set a"
  by (induction s arbitrary: a b) (auto split: if_splits prod.splits)

lemma cut_not_found: "cut c s = (a, b, False) \<Longrightarrow> a = s \<and> b = [] \<and> c \<notin> set s"
  by (induction s arbitrary: a b) (auto split: if_splits prod.splits)

lemma cut_found_iff: "snd (snd (cut c s)) = (c \<in> set s)"
  by (induction s) (auto split: prod.splits)

text \<open>\<open>strings.Split(s, sep)\<close> for a separator of one byte: never empty.\<close>

fun split_on :: "char \<Rightarrow> string \<Rightarrow> string list" where
  "split_on c [] = [[]]"
| "split_on c (x # xs) =
     (if x = c then [] # split_on c xs
      else (case split_on c xs of [] \<Rightarrow> [[x]] | p # ps \<Rightarrow> (x # p) # ps))"

lemma split_on_nonempty [simp]: "split_on c s \<noteq> []"
  by (induction s) (auto split: list.splits)

lemma split_on_notin: "c \<notin> set s \<Longrightarrow> split_on c s = [s]"
  by (induction s) auto

lemma split_on_append: "c \<notin> set a \<Longrightarrow> split_on c (a @ c # b) = a # split_on c b"
  by (induction a) auto

lemma split_on_append_any: "split_on c (a @ c # b) = split_on c a @ split_on c b"
proof (induction a)
  case (Cons x a)
  obtain q qs where "split_on c a = q # qs" by (meson neq_Nil_conv split_on_nonempty)
  with Cons show ?case by simp
qed simp

lemma split_on_parts: "p \<in> set (split_on c s) \<Longrightarrow> c \<notin> set p"
proof (induction s arbitrary: p)
  case Nil
  then show ?case by simp
next
  case (Cons x xs)
  then show ?case by (cases "split_on c xs") (auto split: if_splits)
qed

fun join_on :: "char \<Rightarrow> string list \<Rightarrow> string" where
  "join_on c [] = []"
| "join_on c [p] = p"
| "join_on c (p # q # ps) = p @ c # join_on c (q # ps)"

lemma join_split [simp]: "join_on c (split_on c s) = s"
proof (induction s)
  case Nil
  then show ?case by simp
next
  case (Cons x xs)
  obtain p ps where sp: "split_on c xs = p # ps"
    by (cases "split_on c xs") auto
  with Cons show ?case by (cases ps) auto
qed

lemma split_join:
  "ps \<noteq> [] \<Longrightarrow> \<forall>p \<in> set ps. c \<notin> set p \<Longrightarrow> split_on c (join_on c ps) = ps"
  by (induction c ps rule: join_on.induct) (simp_all add: split_on_notin split_on_append)

lemma set_join: "set (join_on c ps) \<subseteq> insert c (\<Union> (set ` set ps))"
  by (induction c ps rule: join_on.induct) auto

lemma join_on_Nil_iff: "\<forall>p \<in> set ps. p \<noteq> [] \<Longrightarrow> join_on c ps = [] \<longleftrightarrow> ps = []"
  by (cases "(c, ps)" rule: join_on.cases) auto

lemma split_on_length: "p \<in> set (split_on c s) \<Longrightarrow> length p \<le> length s"
proof (induction s arbitrary: p)
  case (Cons x xs)
  then show ?case by (cases "split_on c xs") (auto split: if_splits intro: le_SucI)
qed simp

lemma cut_length: "cut c s = (a, b, f) \<Longrightarrow> length a \<le> length s \<and> length b \<le> length s"
  by (induction s arbitrary: a b f) (fastforce split: if_splits prod.splits)+

lemma cut_set: "cut c s = (a, b, f) \<Longrightarrow> set a \<subseteq> set s \<and> set b \<subseteq> set s \<and> c \<notin> set a"
  by (induction s arbitrary: a b f) (fastforce split: if_splits prod.splits)+

lemma split_on_set: "p \<in> set (split_on c s) \<Longrightarrow> set p \<subseteq> set s"
proof (induction s arbitrary: p)
  case (Cons x xs)
  obtain q qs where sp: "split_on c xs = q # qs" by (cases "split_on c xs") auto
  then have "set q \<subseteq> set xs" "\<forall>r \<in> set qs. set r \<subseteq> set xs" using Cons.IH by auto
  with Cons.prems sp show ?case by (auto split: if_splits)
qed simp

lemma length_split_on: "length (split_on c s) = Suc (length (filter (\<lambda>d. d = c) s))"
proof (induction s)
  case (Cons x xs)
  obtain q qs where "split_on c xs = q # qs" by (cases "split_on c xs") auto
  with Cons show ?case by auto
qed simp

subsection \<open>Trimming white space\<close>

text \<open>
  \<open>strings.TrimSpace\<close> removes leading and trailing white space as Unicode defines it. The white
  space runes and their UTF-8 encodings are the following; a rune is recognised at the start or
  the end of a byte string exactly when its encoding is there.
\<close>

definition space_runes :: "string list" where
  "space_runes =
     [[CHR 0x09], [CHR 0x0A], [CHR 0x0B], [CHR 0x0C], [CHR 0x0D], [CHR 0x20],
      [CHR 0xC2, CHR 0x85], [CHR 0xC2, CHR 0xA0], [CHR 0xE1, CHR 0x9A, CHR 0x80],
      [CHR 0xE2, CHR 0x80, CHR 0x80], [CHR 0xE2, CHR 0x80, CHR 0x81],
      [CHR 0xE2, CHR 0x80, CHR 0x82], [CHR 0xE2, CHR 0x80, CHR 0x83],
      [CHR 0xE2, CHR 0x80, CHR 0x84], [CHR 0xE2, CHR 0x80, CHR 0x85],
      [CHR 0xE2, CHR 0x80, CHR 0x86], [CHR 0xE2, CHR 0x80, CHR 0x87],
      [CHR 0xE2, CHR 0x80, CHR 0x88], [CHR 0xE2, CHR 0x80, CHR 0x89],
      [CHR 0xE2, CHR 0x80, CHR 0x8A], [CHR 0xE2, CHR 0x80, CHR 0xA8],
      [CHR 0xE2, CHR 0x80, CHR 0xA9], [CHR 0xE2, CHR 0x80, CHR 0xAF],
      [CHR 0xE2, CHR 0x81, CHR 0x9F], [CHR 0xE3, CHR 0x80, CHR 0x80]]"

lemma space_runes_nonempty: "r \<in> set space_runes \<Longrightarrow> r \<noteq> []"
  by (auto simp: space_runes_def)

definition leading_space :: "string \<Rightarrow> nat" where
  "leading_space s = (case find (\<lambda>r. has_prefix s r) space_runes of None \<Rightarrow> 0 | Some r \<Rightarrow> length r)"

definition trailing_space :: "string \<Rightarrow> nat" where
  "trailing_space s = (case find (\<lambda>r. has_suffix s r) space_runes of None \<Rightarrow> 0 | Some r \<Rightarrow> length r)"

function trim_left :: "string \<Rightarrow> string" where
  "trim_left s =
     (if leading_space s = 0 \<or> s = [] then s else trim_left (drop (leading_space s) s))"
  by pat_completeness auto
termination
  by (relation "measure length") auto

function trim_right :: "string \<Rightarrow> string" where
  "trim_right s =
     (if trailing_space s = 0 \<or> s = [] then s else trim_right (take (length s - trailing_space s) s))"
  by pat_completeness auto
termination
  by (relation "measure length") auto

declare trim_left.simps [simp del] trim_right.simps [simp del]

definition trim_space :: "string \<Rightarrow> string" where
  "trim_space s = trim_right (trim_left s)"

lemma leading_space_Nil [simp]: "leading_space [] = 0"
  by (simp add: leading_space_def space_runes_def has_prefix_def)

lemma trailing_space_Nil [simp]: "trailing_space [] = 0"
  by (simp add: trailing_space_def space_runes_def has_suffix_def)

lemma trim_left_id: "leading_space s = 0 \<Longrightarrow> trim_left s = s"
  by (simp add: trim_left.simps)

lemma trim_right_id: "trailing_space s = 0 \<Longrightarrow> trim_right s = s"
  by (simp add: trim_right.simps)

lemma trim_space_Nil [simp]: "trim_space [] = []"
  by (simp add: trim_space_def trim_left_id trim_right_id)

lemma trim_right_no_trailing: "trailing_space (trim_right s) = 0"
proof (induction s rule: trim_right.induct)
  case (1 s)
  then show ?case by (cases "trailing_space s = 0 \<or> s = []") (auto simp: trim_right.simps [of s])
qed

lemma trim_left_no_leading: "leading_space (trim_left s) = 0"
proof (induction s rule: trim_left.induct)
  case (1 s)
  then show ?case by (cases "leading_space s = 0 \<or> s = []") (auto simp: trim_left.simps [of s])
qed

lemma leading_space_0: "leading_space s = 0 \<longleftrightarrow> (\<forall>r \<in> set space_runes. \<not> has_prefix s r)"
proof (cases "find (\<lambda>r. has_prefix s r) space_runes")
  case None
  then have "leading_space s = 0" unfolding leading_space_def by simp
  moreover have "\<forall>r \<in> set space_runes. \<not> has_prefix s r" using None by (simp add: find_None_iff)
  ultimately show ?thesis by blast
next
  case (Some r)
  then have r: "r \<in> set space_runes" "has_prefix s r" by (auto simp: find_Some_iff)
  then have "leading_space s \<noteq> 0" using Some space_runes_nonempty by (simp add: leading_space_def)
  with r show ?thesis by blast
qed

lemma trim_right_prefix: "\<exists>u. s = trim_right s @ u"
proof (induction s rule: trim_right.induct)
  case (1 s)
  show ?case
  proof (cases "trailing_space s = 0 \<or> s = []")
    case True
    then show ?thesis by (simp add: trim_right.simps [of s])
  next
    case False
    let ?t = "take (length s - trailing_space s) s"
    obtain u where "?t = trim_right ?t @ u" using 1 False by blast
    then have "s = trim_right ?t @ u @ drop (length s - trailing_space s) s"
      by (metis append.assoc append_take_drop_id)
    moreover have "trim_right s = trim_right ?t" using False by (simp add: trim_right.simps [of s])
    ultimately show ?thesis by metis
  qed
qed

lemma trim_space_idem [simp]: "trim_space (trim_space s) = trim_space s"
proof -
  let ?t = "trim_left s"
  obtain u where u: "?t = trim_right ?t @ u" using trim_right_prefix by blast
  have "\<not> has_prefix ?t r" if "r \<in> set space_runes" for r
    using trim_left_no_leading [of s] that by (simp add: leading_space_0)
  then have "\<not> has_prefix (trim_right ?t) r" if "r \<in> set space_runes" for r
    using that u by (metis has_prefixE has_prefix_append append.assoc)
  then have "trim_left (trim_right ?t) = trim_right ?t" by (intro trim_left_id) (simp add: leading_space_0)
  then show ?thesis by (simp add: trim_space_def trim_right_id trim_right_no_trailing)
qed

text \<open>A printable ASCII byte is no part of a white space rune.\<close>

definition graphic :: "char \<Rightarrow> bool" where
  "graphic c = (0x21 \<le> (of_char c :: nat) \<and> (of_char c :: nat) \<le> 0x7E)"

lemma graphic_not_space: "graphic c \<Longrightarrow> r \<in> set space_runes \<Longrightarrow> c \<notin> set r"
  unfolding space_runes_def graphic_def by auto

lemma leading_graphic: "graphic c \<Longrightarrow> leading_space (c # s) = 0"
proof -
  assume g: "graphic c"
  have "\<not> has_prefix (c # s) r" if r: "r \<in> set space_runes" for r
  proof
    assume h: "has_prefix (c # s) r"
    obtain d t where "r = d # t"
      using space_runes_nonempty [OF r] by (cases r) auto
    with h have "c \<in> set r" by (simp add: has_prefix_def)
    with graphic_not_space [OF g r] show False ..
  qed
  then have "find (\<lambda>r. has_prefix (c # s) r) space_runes = None"
    by (simp add: find_None_iff)
  then show ?thesis by (simp add: leading_space_def)
qed

lemma trailing_graphic: "graphic c \<Longrightarrow> trailing_space (s @ [c]) = 0"
proof -
  assume g: "graphic c"
  have "\<not> has_suffix (s @ [c]) r" if r: "r \<in> set space_runes" for r
  proof
    assume h: "has_suffix (s @ [c]) r"
    have "r \<noteq> []" by (rule space_runes_nonempty [OF r])
    with h have "last r = c"
      unfolding has_suffix_def by (metis last_drop last_snoc length_greater_0_conv diff_less
          length_append_singleton zero_less_Suc)
    with \<open>r \<noteq> []\<close> graphic_not_space [OF g r] show False by (metis last_in_set)
  qed
  then have "find (\<lambda>r. has_suffix (s @ [c]) r) space_runes = None"
    by (simp add: find_None_iff)
  then show ?thesis by (simp add: trailing_space_def)
qed

lemma trim_space_graphic: "\<forall>c \<in> set s. graphic c \<Longrightarrow> trim_space s = s"
proof -
  assume g: "\<forall>c \<in> set s. graphic c"
  show ?thesis
  proof (cases s)
    case Nil
    then show ?thesis by simp
  next
    case (Cons c t)
    with g have l: "trim_left s = s" by (simp add: trim_left_id leading_graphic)
    from Cons obtain u d where "s = u @ [d]" by (metis rev_exhaust list.distinct(1))
    with g have "trim_right s = s" by (simp add: trim_right_id trailing_graphic)
    with l show ?thesis by (simp add: trim_space_def)
  qed
qed

end
