(* ===== verification/GoHeap.thy ===== *)
theory GoHeap
  imports Prelude
begin

text \<open>
  The binary heap of Go's \<open>container/heap\<close>, which the expiry set and the in-process rate limiter
  drive through their \<open>heap.Interface\<close>. The operations are parameterised by the client's
  \<open>Less\<close>, \<open>Swap\<close>, \<open>Len\<close>, \<open>Push\<close> and \<open>Pop\<close>, as in Go. The locales state what a client must
  provide and prove, once, that the operations keep the heap order, lose no element and pop the
  least one.
\<close>

section \<open>The operations of container/heap\<close>

definition parent :: "nat \<Rightarrow> nat" where
  "parent j = (j - 1) div 2"

function heap_up ::
  "('h \<Rightarrow> nat \<Rightarrow> nat \<Rightarrow> bool) \<Rightarrow> ('h \<Rightarrow> nat \<Rightarrow> nat \<Rightarrow> 'h) \<Rightarrow> 'h \<Rightarrow> nat \<Rightarrow> 'h" where
  "heap_up lt sw h j =
     (let i = parent j in
      if i = j \<or> \<not> lt h j i then h else heap_up lt sw (sw h i j) i)"
  by pat_completeness auto
termination
  by (relation "measure (\<lambda>(_, _, _, j). j)") (auto simp: parent_def)

text \<open>Go's \<open>down\<close> reports whether the element moved; the loop returns where it ended.\<close>

function heap_down_from ::
  "('h \<Rightarrow> nat \<Rightarrow> nat \<Rightarrow> bool) \<Rightarrow> ('h \<Rightarrow> nat \<Rightarrow> nat \<Rightarrow> 'h) \<Rightarrow> 'h \<Rightarrow> nat \<Rightarrow> nat \<Rightarrow> 'h \<times> nat" where
  "heap_down_from lt sw h i n =
     (let j1 = 2 * i + 1 in
      if n \<le> j1 then (h, i)
      else let j = (if j1 + 1 < n \<and> lt h (j1 + 1) j1 then j1 + 1 else j1) in
           if \<not> lt h j i then (h, i) else heap_down_from lt sw (sw h i j) j n)"
  by pat_completeness auto
termination
  by (relation "measure (\<lambda>(_, _, _, i, n). n - i)") (auto simp: Let_def split: if_splits)

declare heap_up.simps [simp del] heap_down_from.simps [simp del]

definition heap_down ::
  "('h \<Rightarrow> nat \<Rightarrow> nat \<Rightarrow> bool) \<Rightarrow> ('h \<Rightarrow> nat \<Rightarrow> nat \<Rightarrow> 'h) \<Rightarrow> 'h \<Rightarrow> nat \<Rightarrow> nat \<Rightarrow> 'h \<times> bool" where
  "heap_down lt sw h i n =
     (case heap_down_from lt sw h i n of (h', i') \<Rightarrow> (h', i < i'))"

definition heap_push where
  "heap_push lt sw len psh h x = (let h1 = psh h x in heap_up lt sw h1 (len h1 - 1))"

text \<open>What \<open>Pop\<close> and \<open>Remove\<close> do before the client's own \<open>Pop\<close> takes the last element.\<close>

definition heap_pop_sift where
  "heap_pop_sift lt sw len h = (let n = len h - 1 in fst (heap_down lt sw (sw h 0 n) 0 n))"

definition heap_remove_sift where
  "heap_remove_sift lt sw len h i =
     (let n = len h - 1 in
      if n \<noteq> i
      then (case heap_down lt sw (sw h i n) i n of
              (h1, moved) \<Rightarrow> if moved then h1 else heap_up lt sw h1 i)
      else h)"

definition heap_pop where
  "heap_pop lt sw len pp h = pp (heap_pop_sift lt sw len h)"

definition heap_remove where
  "heap_remove lt sw len pp h i = pp (heap_remove_sift lt sw len h i)"

text \<open>Whatever every swap preserves, the sift functions preserve.\<close>

lemma heap_down_from_frame:
  "(\<And>h i j. f (sw h i j) = f h) \<Longrightarrow> f (fst (heap_down_from lt sw h i n)) = f h"
proof (induction "n - i" arbitrary: h i rule: less_induct)
  case less
  let ?j = "if 2 * i + 2 < n \<and> lt h (2 * i + 2) (2 * i + 1) then 2 * i + 2 else 2 * i + 1"
  show ?case
  proof (cases "2 * i + 1 < n \<and> lt h ?j i")
    case True
    then have "heap_down_from lt sw h i n = heap_down_from lt sw (sw h i ?j) ?j n"
      using heap_down_from.simps [of lt sw h i n] by (auto simp: Let_def)
    moreover have "n - ?j < n - i" using True by auto
    ultimately show ?thesis using less by simp
  next
    case False
    then show ?thesis
      using heap_down_from.simps [of lt sw h i n] by (auto simp: Let_def)
  qed
qed

lemma heap_pop_sift_frame:
  "(\<And>h i j. f (sw h i j) = f h) \<Longrightarrow> f (heap_pop_sift lt sw len h) = f h"
  using heap_down_from_frame [of f sw]
  by (simp add: heap_pop_sift_def heap_down_def Let_def split: prod.split) (metis fst_conv)

section \<open>Heap order on a list of keys\<close>

definition heap_on :: "nat \<Rightarrow> 'k::linorder list \<Rightarrow> bool" where
  "heap_on n ks = (\<forall>x < n. 0 < x \<longrightarrow> ks ! parent x \<le> ks ! x)"

text \<open>
  The order may fail between \<open>i\<close> and its parent, between \<open>i\<close> and its children, or both, while
  the children of \<open>i\<close> stay above its parent.
\<close>

definition over_gap :: "nat \<Rightarrow> nat \<Rightarrow> 'k::linorder list \<Rightarrow> bool" where
  "over_gap n i ks = (\<forall>x < n. 0 < x \<longrightarrow> parent x = i \<longrightarrow> 0 < i \<longrightarrow> ks ! parent i \<le> ks ! x)"

definition heap_but_up :: "nat \<Rightarrow> nat \<Rightarrow> 'k::linorder list \<Rightarrow> bool" where
  "heap_but_up n i ks =
     (over_gap n i ks \<and> (\<forall>x < n. 0 < x \<longrightarrow> x \<noteq> i \<longrightarrow> ks ! parent x \<le> ks ! x))"

definition heap_but_down :: "nat \<Rightarrow> nat \<Rightarrow> 'k::linorder list \<Rightarrow> bool" where
  "heap_but_down n i ks =
     (over_gap n i ks \<and> (\<forall>x < n. 0 < x \<longrightarrow> parent x \<noteq> i \<longrightarrow> ks ! parent x \<le> ks ! x))"

definition heap_but_at :: "nat \<Rightarrow> nat \<Rightarrow> 'k::linorder list \<Rightarrow> bool" where
  "heap_but_at n i ks =
     (over_gap n i ks \<and>
      (\<forall>x < n. 0 < x \<longrightarrow> x \<noteq> i \<longrightarrow> parent x \<noteq> i \<longrightarrow> ks ! parent x \<le> ks ! x))"

lemmas heap_but_defs = over_gap_def heap_but_up_def heap_but_down_def heap_but_at_def

lemma parent_less: "0 < x \<Longrightarrow> parent x < x"
  by (simp add: parent_def)

lemma heap_on_root:
  assumes "heap_on n ks" "x < n"
  shows "ks ! 0 \<le> ks ! x"
  using assms(2)
proof (induction x rule: less_induct)
  case (less x)
  show ?case
  proof (cases "x = 0")
    case False
    with less parent_less [of x] have "ks ! 0 \<le> ks ! parent x" by simp
    also have "\<dots> \<le> ks ! x" using assms(1) less.prems False by (simp add: heap_on_def)
    finally show ?thesis .
  qed simp
qed

lemma heap_on_append: "heap_on (length ks) (ks @ ls) = heap_on (length ks) ks"
proof -
  have "parent x < length ks" if "x < length ks" "0 < x" for x
    using that parent_less [of x] by simp
  then show ?thesis by (auto simp: heap_on_def nth_append)
qed

definition swapped :: "'k list \<Rightarrow> nat \<Rightarrow> nat \<Rightarrow> 'k list" where
  "swapped ks i j = ks[i := ks ! j, j := ks ! i]"

lemma nth_swapped:
  "i < length ks \<Longrightarrow> j < length ks \<Longrightarrow>
   swapped ks i j ! x = (if x = j then ks ! i else if x = i then ks ! j else ks ! x)"
  by (simp add: swapped_def nth_list_update)

lemma length_swapped [simp]: "length (swapped ks i j) = length ks"
  by (simp add: swapped_def)

lemma mset_swapped:
  "i < length ks \<Longrightarrow> j < length ks \<Longrightarrow> mset (swapped ks i j) = mset ks"
  unfolding swapped_def by (metis list_update_swap mset_swap nth_list_update_eq list_update_id)

lemma map_swapped:
  "i < length xs \<Longrightarrow> j < length xs \<Longrightarrow> map f (swapped xs i j) = swapped (map f xs) i j"
  by (simp add: swapped_def map_update)

lemma set_swapped: "i < length xs \<Longrightarrow> j < length xs \<Longrightarrow> set (swapped xs i j) = set xs"
  by (metis mset_swapped set_mset_mset)

lemma distinct_swapped:
  "i < length xs \<Longrightarrow> j < length xs \<Longrightarrow> distinct (swapped xs i j) = distinct xs"
  by (metis mset_swapped mset_eq_imp_distinct_iff)

lemma up_step:
  assumes but: "heap_but_up n j ks" and bnd: "0 < j" "j < n" "n \<le> length ks"
    and lt: "ks ! j < ks ! parent j"
  shows "heap_but_up n (parent j) (swapped ks (parent j) j)"
proof -
  have pj: "parent j < j" by (rule parent_less [OF bnd(1)])
  have sw: "swapped ks (parent j) j ! x =
      (if x = j then ks ! parent j else if x = parent j then ks ! j else ks ! x)" for x
    using pj bnd by (intro nth_swapped) auto
  have 1: "swapped ks (parent j) j ! parent x \<le> swapped ks (parent j) j ! x"
    if x: "x < n" "0 < x" "x \<noteq> parent j" for x
  proof -
    have up: "x \<noteq> j \<Longrightarrow> ks ! parent x \<le> ks ! x"
      and gap: "parent x = j \<Longrightarrow> ks ! parent j \<le> ks ! x"
      using but x bnd by (auto simp: heap_but_defs)
    show ?thesis using up gap lt x pj parent_less [OF x(2)] by (auto simp: sw)
  qed
  have 2: "swapped ks (parent j) j ! parent (parent j) \<le> swapped ks (parent j) j ! x"
    if x: "x < n" "0 < x" "parent x = parent j" "0 < parent j" for x
  proof -
    have pp: "parent (parent j) < parent j" by (rule parent_less [OF x(4)])
    have a: "ks ! parent (parent j) \<le> ks ! parent j"
      using but x pj bnd by (simp add: heap_but_up_def)
    have b: "x \<noteq> j \<Longrightarrow> ks ! parent j \<le> ks ! x"
      using but x by (metis heap_but_up_def)
    show ?thesis using a b x pj pp parent_less [OF x(2)] by (auto simp: sw)
  qed
  from 1 2 show ?thesis unfolding heap_but_up_def over_gap_def by blast
qed

lemma up_done: "heap_but_up n j ks \<Longrightarrow> j = 0 \<or> ks ! parent j \<le> ks ! j \<Longrightarrow> heap_on n ks"
  unfolding heap_but_up_def heap_on_def by (metis less_irrefl)

lemma down_step:
  assumes but: "heap_but_at n i ks" and bnd: "j < n" "n \<le> length ks"
    and ch: "0 < j" "parent j = i" and lt: "ks ! j < ks ! i"
    and least: "\<And>x. x < n \<Longrightarrow> 0 < x \<Longrightarrow> parent x = i \<Longrightarrow> ks ! j \<le> ks ! x"
  shows "heap_but_down n j (swapped ks i j)"
proof -
  have ij: "i < j" using parent_less [OF ch(1)] ch(2) by simp
  have sw: "swapped ks i j ! x = (if x = j then ks ! i else if x = i then ks ! j else ks ! x)" for x
    using ij bnd by (intro nth_swapped) auto
  have 1: "swapped ks i j ! parent x \<le> swapped ks i j ! x"
    if x: "x < n" "0 < x" "parent x \<noteq> j" for x
  proof -
    have rest: "x \<noteq> i \<Longrightarrow> parent x \<noteq> i \<Longrightarrow> ks ! parent x \<le> ks ! x"
      using but x by (simp add: heap_but_at_def)
    have gap: "x = i \<Longrightarrow> ks ! parent i \<le> ks ! j"
      using but x bnd ch by (auto simp: heap_but_at_def over_gap_def)
    show ?thesis
      using rest gap lt least [OF x(1,2)] x ij ch parent_less [OF x(2)] by (auto simp: sw)
  qed
  have 2: "swapped ks i j ! parent j \<le> swapped ks i j ! x"
    if x: "x < n" "0 < x" "parent x = j" for x
  proof -
    have "ks ! parent x \<le> ks ! x"
      using but x ij parent_less [OF x(2)] unfolding heap_but_at_def
      by (metis less_irrefl less_trans)
    then show ?thesis using x ij ch parent_less [OF x(2)] by (auto simp: sw)
  qed
  from 1 2 show ?thesis unfolding heap_but_down_def over_gap_def by blast
qed

lemma but_down_at: "heap_but_down n i ks \<Longrightarrow> heap_but_at n i ks"
  unfolding heap_but_down_def heap_but_at_def by blast

lemma down_done:
  "heap_but_down n i ks \<Longrightarrow> (\<And>x. x < n \<Longrightarrow> 0 < x \<Longrightarrow> parent x = i \<Longrightarrow> ks ! i \<le> ks ! x) \<Longrightarrow> heap_on n ks"
  unfolding heap_but_down_def heap_on_def by metis

lemma at_children_up:
  "heap_but_at n i ks \<Longrightarrow> (\<And>x. x < n \<Longrightarrow> 0 < x \<Longrightarrow> parent x = i \<Longrightarrow> ks ! i \<le> ks ! x)
   \<Longrightarrow> heap_but_up n i ks"
  unfolding heap_but_at_def heap_but_up_def by metis

lemma child_cases: "0 < x \<Longrightarrow> parent x = i \<Longrightarrow> x = 2 * i + 1 \<or> x = 2 * i + 2"
  unfolding parent_def by linarith

lemma heap_on_but_at: 
  assumes "heap_on (Suc n) ks" "length ks = Suc n" "i < n"
  shows "heap_but_at n i (swapped ks i n)"
proof -
  have sw: "swapped ks i n ! x = (if x = n then ks ! i else if x = i then ks ! n else ks ! x)" for x
    using assms by (intro nth_swapped) auto
  have h: "ks ! parent x \<le> ks ! x" if "x < Suc n" "0 < x" for x
    using assms(1) that by (simp add: heap_on_def)
  have 1: "swapped ks i n ! parent x \<le> swapped ks i n ! x"
    if x: "x < n" "0 < x" "x \<noteq> i" "parent x \<noteq> i" for x
    using h [of x] x parent_less [OF x(2)] by (auto simp: sw)
  have 2: "swapped ks i n ! parent i \<le> swapped ks i n ! x"
    if x: "x < n" "0 < x" "parent x = i" "0 < i" for x
  proof -
    have "ks ! parent i \<le> ks ! i" "ks ! i \<le> ks ! x" using h [of i] h [of x] x assms by auto
    then show ?thesis using x assms parent_less [OF x(2)] parent_less [OF x(4)] by (auto simp: sw)
  qed
  from 1 2 show ?thesis unfolding heap_but_at_def over_gap_def by blast
qed

section \<open>The contract of a heap client\<close>

text \<open>
  \<open>keys h\<close> is the array as the list of its keys, \<open>ok\<close> the client's own invariant (positions
  recorded in the elements, for instance) and \<open>same\<close> the part of the client's state that a
  swap may not change. \<open>Less\<close> and \<open>Swap\<close> are only required to behave on valid indices.
\<close>

locale heap_client =
  fixes lt :: "'h \<Rightarrow> nat \<Rightarrow> nat \<Rightarrow> bool"
    and sw :: "'h \<Rightarrow> nat \<Rightarrow> nat \<Rightarrow> 'h"
    and keys :: "'h \<Rightarrow> 'k::linorder list"
    and ok :: "'h \<Rightarrow> bool"
    and same :: "'h \<Rightarrow> 'h \<Rightarrow> bool"
  assumes lt_keys: "ok h \<Longrightarrow> i < length (keys h) \<Longrightarrow> j < length (keys h) \<Longrightarrow>
      lt h i j = (keys h ! i < keys h ! j)"
    and keys_sw: "ok h \<Longrightarrow> i < length (keys h) \<Longrightarrow> j < length (keys h) \<Longrightarrow>
      keys (sw h i j) = swapped (keys h) i j"
    and ok_sw: "ok h \<Longrightarrow> i < length (keys h) \<Longrightarrow> j < length (keys h) \<Longrightarrow> ok (sw h i j)"
    and same_sw: "ok h \<Longrightarrow> i < length (keys h) \<Longrightarrow> j < length (keys h) \<Longrightarrow> same h (sw h i j)"
    and same_refl: "same h h"
    and same_trans: "same h1 h2 \<Longrightarrow> same h2 h3 \<Longrightarrow> same h1 h3"
begin

text \<open>The elements below \<open>n\<close> may have been permuted; all else is as before.\<close>

definition permuted :: "nat \<Rightarrow> 'h \<Rightarrow> 'h \<Rightarrow> bool" where
  "permuted n h h' =
     (ok h' \<and> same h h' \<and> mset (keys h') = mset (keys h) \<and>
      (\<forall>k. n \<le> k \<longrightarrow> k < length (keys h) \<longrightarrow> keys h' ! k = keys h ! k))"

lemma permuted_length: "permuted n h h' \<Longrightarrow> length (keys h') = length (keys h)"
  unfolding permuted_def by (metis mset_eq_length)

lemma permuted_refl: "ok h \<Longrightarrow> permuted n h h"
  by (simp add: permuted_def same_refl)

lemma permuted_trans: "permuted n h1 h2 \<Longrightarrow> permuted n h2 h3 \<Longrightarrow> permuted n h1 h3"
  unfolding permuted_def by (metis mset_eq_length same_trans)

lemma permuted_sw:
  "ok h \<Longrightarrow> i < n \<Longrightarrow> j < n \<Longrightarrow> n \<le> length (keys h) \<Longrightarrow> permuted n h (sw h i j)"
  by (simp add: permuted_def ok_sw same_sw keys_sw mset_swapped nth_swapped)

lemma heap_up_ok:
  assumes "ok h" "j < n" "n \<le> length (keys h)" "heap_but_up n j (keys h)"
  shows "permuted n h (heap_up lt sw h j) \<and> heap_on n (keys (heap_up lt sw h j))"
  using assms
proof (induction j arbitrary: h rule: less_induct)
  case (less j)
  note [simp] = heap_up.simps [of lt sw h j]
  show ?case
  proof (cases "parent j = j \<or> \<not> lt h j (parent j)")
    case True
    then have stop: "j = 0 \<or> keys h ! parent j \<le> keys h ! j"
      using less.prems parent_less [of j] by (cases "j = 0") (auto simp: lt_keys)
    have "heap_on n (keys h)" by (rule up_done [OF less.prems(4) stop])
    with True less.prems(1) show ?thesis by (simp add: Let_def permuted_refl)
  next
    case False
    then have j: "0 < j" by (cases j) (auto simp: parent_def)
    with parent_less have pj: "parent j < j" by simp
    let ?h = "sw h (parent j) j"
    have perm: "permuted n h ?h" using less.prems pj by (intro permuted_sw) auto
    have lt: "keys h ! j < keys h ! parent j"
      using False less.prems pj by (simp add: lt_keys)
    have k: "keys ?h = swapped (keys h) (parent j) j"
      using less.prems pj by (simp add: keys_sw)
    have "permuted n ?h (heap_up lt sw ?h (parent j)) \<and> heap_on n (keys (heap_up lt sw ?h (parent j)))"
    proof (rule less.IH [OF pj])
      show "ok ?h" using perm by (simp add: permuted_def)
      show "parent j < n" using pj less.prems by simp
      show "n \<le> length (keys ?h)" using less.prems by (simp add: k)
      show "heap_but_up n (parent j) (keys ?h)"
        unfolding k by (rule up_step [OF less.prems(4) j less.prems(2,3) lt])
    qed
    with perm False show ?thesis by (auto simp: Let_def intro: permuted_trans)
  qed
qed

lemma heap_down_from_ok:
  assumes "ok h" "i < n" "n \<le> length (keys h)" "heap_but_at n i (keys h)"
    and "heap_down_from lt sw h i n = (h', i')"
  shows "permuted n h h' \<and> i \<le> i' \<and>
    (i' = i \<longrightarrow> h' = h \<and> (\<forall>x < n. 0 < x \<longrightarrow> parent x = i \<longrightarrow> keys h ! i \<le> keys h ! x)) \<and>
    (i' \<noteq> i \<or> heap_but_down n i (keys h) \<longrightarrow> heap_on n (keys h'))"
  using assms
proof (induction "n - i" arbitrary: h i rule: less_induct)
  case less
  let ?j = "if 2 * i + 2 < n \<and> lt h (2 * i + 2) (2 * i + 1) then 2 * i + 2 else 2 * i + 1"
  show ?case
  proof (cases "2 * i + 1 < n \<and> lt h ?j i")
    case False
    have stop: "keys h ! i \<le> keys h ! x" if x: "x < n" "0 < x" "parent x = i" for x
      using False child_cases [OF x(2,3)] x less.prems
      by (auto simp: lt_keys not_less split: if_splits)
    have "h' = h" "i' = i"
      using False less.prems(5) heap_down_from.simps [of lt sw h i n] by (auto simp: Let_def split: if_splits)
    with stop less.prems show ?thesis
      using down_done [of n i "keys h"] by (auto simp: permuted_refl)
  next
    case True
    define j where "j = ?j"
    have j: "j < n" "0 < j" "parent j = i" "i < j"
      using True by (auto simp: j_def parent_def)
    have ltj: "keys h ! j < keys h ! i"
      using True j less.prems unfolding j_def [symmetric] by (simp add: lt_keys)
    have least: "keys h ! j \<le> keys h ! x" if x: "x < n" "0 < x" "parent x = i" for x
      using child_cases [OF x(2,3)] x less.prems True
      by (auto simp: j_def lt_keys not_less split: if_splits)
    let ?h = "sw h i j"
    have rec: "heap_down_from lt sw ?h j n = (h', i')"
      using less.prems(5) True heap_down_from.simps [of lt sw h i n]
      by (auto simp: Let_def j_def split: if_splits)
    have perm: "permuted n h ?h" using less.prems j by (intro permuted_sw) auto
    have k: "keys ?h = swapped (keys h) i j" using less.prems j by (simp add: keys_sw)
    have but: "heap_but_down n j (keys ?h)"
      unfolding k by (rule down_step [OF less.prems(4) j(1) less.prems(3) j(2,3) ltj least])
    have "permuted n ?h h' \<and> j \<le> i' \<and>
      (i' = j \<longrightarrow> h' = ?h \<and> (\<forall>x < n. 0 < x \<longrightarrow> parent x = j \<longrightarrow> keys ?h ! j \<le> keys ?h ! x)) \<and>
      (i' \<noteq> j \<or> heap_but_down n j (keys ?h) \<longrightarrow> heap_on n (keys h'))"
    proof (rule less.hyps [OF _ _ j(1) _ but_down_at [OF but] rec])
      show "n - j < n - i" using j less.prems by simp
      show "ok ?h" using perm by (simp add: permuted_def)
      show "n \<le> length (keys ?h)" using less.prems by (simp add: k)
    qed
    with perm but j show ?thesis by (auto intro: permuted_trans)
  qed
qed

lemma heap_down_root:
  assumes "ok h" "n \<le> length (keys h)" "heap_but_at n 0 (keys h)"
  shows "permuted n h (fst (heap_down lt sw h 0 n)) \<and> heap_on n (keys (fst (heap_down lt sw h 0 n)))"
proof (cases "n = 0")
  case True
  then show ?thesis
    using assms(1) by (simp add: heap_down_def heap_down_from.simps permuted_refl heap_on_def)
next
  case False
  obtain h' i' where d: "heap_down_from lt sw h 0 n = (h', i')" by fastforce
  have but: "heap_but_down n 0 (keys h)"
    using assms(3) unfolding heap_but_at_def heap_but_down_def by (metis less_irrefl)
  have "permuted n h h'" "i' \<noteq> 0 \<or> heap_but_down n 0 (keys h) \<longrightarrow> heap_on n (keys h')"
    using heap_down_from_ok [OF assms(1) _ assms(2,3) d] False by simp_all
  with but show ?thesis by (simp add: heap_down_def d)
qed

text \<open>Repairing the order after the element at \<open>i\<close> was replaced, as \<open>Remove\<close> does.\<close>

lemma heap_repair_ok:
  assumes "ok h" "i < n" "n \<le> length (keys h)" "heap_but_at n i (keys h)"
    and d: "heap_down lt sw h i n = (h1, moved)"
    and h2: "h2 = (if moved then h1 else heap_up lt sw h1 i)"
  shows "permuted n h h2 \<and> heap_on n (keys h2)"
proof -
  obtain i' where df: "heap_down_from lt sw h i n = (h1, i')" and m: "moved = (i < i')"
    using d by (auto simp: heap_down_def split: prod.splits)
  note ok1 = heap_down_from_ok [OF assms(1-4) df]
  show ?thesis
  proof (cases moved)
    case True
    with ok1 m h2 show ?thesis by simp
  next
    case False
    with ok1 m have "h1 = h" "\<And>x. x < n \<Longrightarrow> 0 < x \<Longrightarrow> parent x = i \<Longrightarrow> keys h ! i \<le> keys h ! x"
      by auto
    then have "heap_but_up n i (keys h1)"
      using at_children_up [OF assms(4)] by simp
    with \<open>h1 = h\<close> False h2 assms heap_up_ok [of h i n] show ?thesis by simp
  qed
qed

end

text \<open>A client with \<open>Len\<close> and the client-side \<open>Push\<close> and \<open>Pop\<close>.\<close>

locale heap_interface = heap_client lt sw keys ok same
  for lt :: "'h \<Rightarrow> nat \<Rightarrow> nat \<Rightarrow> bool"
    and sw :: "'h \<Rightarrow> nat \<Rightarrow> nat \<Rightarrow> 'h"
    and keys :: "'h \<Rightarrow> 'k::linorder list"
    and ok :: "'h \<Rightarrow> bool"
    and same :: "'h \<Rightarrow> 'h \<Rightarrow> bool" +
  fixes len :: "'h \<Rightarrow> nat"
  assumes len_keys: "len h = length (keys h)"
begin

lemma pop_sift_ok:
  assumes "ok h" "keys h \<noteq> []" "heap_on (length (keys h)) (keys h)"
  defines "h' \<equiv> heap_pop_sift lt sw len h"
  shows "ok h' \<and> same h h' \<and> mset (keys h') = mset (keys h) \<and>
    last (keys h') = keys h ! 0 \<and> heap_on (length (keys h) - 1) (keys h')"
proof -
  obtain n where n: "length (keys h) = Suc n" using assms(2) by (cases "keys h") auto
  let ?h = "sw h 0 n"
  have perm: "permuted (Suc n) h ?h" using assms n by (intro permuted_sw) auto
  then have ok1: "ok ?h" by (simp add: permuted_def)
  have k: "keys ?h = swapped (keys h) 0 n" using assms n by (simp add: keys_sw)
  have but: "heap_but_at n 0 (keys ?h)"
  proof (cases "n = 0")
    case True
    then show ?thesis by (simp add: heap_but_defs)
  next
    case False
    then show ?thesis unfolding k using assms n by (intro heap_on_but_at) auto
  qed
  have down: "permuted n ?h h'" "heap_on n (keys h')"
    using heap_down_root [OF ok1 _ but] n
    by (simp_all add: h'_def heap_pop_sift_def len_keys k Let_def)
  have "keys h' \<noteq> []" using permuted_length [OF down(1)] n by (auto simp: k)
  then have "last (keys h') = keys h' ! n"
    using permuted_length [OF down(1)] n by (simp add: last_conv_nth k)
  also have "\<dots> = keys h ! 0" using down(1) n by (simp add: permuted_def k nth_swapped)
  finally show ?thesis
    using perm down n by (auto simp: permuted_def intro: same_trans)
qed

lemma remove_sift_ok:
  assumes "ok h" "i < length (keys h)" "heap_on (length (keys h)) (keys h)"
  defines "h' \<equiv> heap_remove_sift lt sw len h i"
  shows "ok h' \<and> same h h' \<and> mset (keys h') = mset (keys h) \<and>
    last (keys h') = keys h ! i \<and> heap_on (length (keys h) - 1) (keys h')"
proof -
  obtain n where n: "length (keys h) = Suc n" using assms(2) by (cases "keys h") auto
  show ?thesis
  proof (cases "n = i")
    case True
    then have "h' = h" using n by (simp add: h'_def heap_remove_sift_def len_keys)
    moreover have "last (keys h) = keys h ! i"
      using True n by (metis diff_Suc_1 last_conv_nth length_0_conv nat.distinct(1))
    ultimately show ?thesis using assms n by (simp add: same_refl heap_on_def)
  next
    case False
    then have i: "i < n" using assms n by simp
    let ?h = "sw h i n"
    have perm: "permuted (Suc n) h ?h" using assms n by (intro permuted_sw) auto
    then have ok1: "ok ?h" by (simp add: permuted_def)
    have k: "keys ?h = swapped (keys h) i n" using assms n by (simp add: keys_sw)
    have but: "heap_but_at n i (keys ?h)"
      unfolding k using assms n i by (intro heap_on_but_at) auto
    obtain h1 moved where d: "heap_down lt sw ?h i n = (h1, moved)" by fastforce
    have h': "h' = (if moved then h1 else heap_up lt sw h1 i)"
      using False n by (simp add: h'_def heap_remove_sift_def len_keys Let_def d)
    have down: "permuted n ?h h'" "heap_on n (keys h')"
      using heap_repair_ok [OF ok1 i _ but d h'] n by (simp_all add: k)
    have "keys h' \<noteq> []" using permuted_length [OF down(1)] n by (auto simp: k)
    then have "last (keys h') = keys h' ! n"
      using permuted_length [OF down(1)] n by (simp add: last_conv_nth k)
    also have "\<dots> = keys h ! i" using down(1) n i by (simp add: permuted_def k nth_swapped)
    finally show ?thesis
      using perm down n by (auto simp: permuted_def intro: same_trans)
  qed
qed

lemma push_ok:
  assumes "ok h1" "keys h1 = ks @ [k]" "heap_on (length ks) ks"
  defines "h' \<equiv> heap_up lt sw h1 (len h1 - 1)"
  shows "ok h' \<and> same h1 h' \<and> mset (keys h') = mset (keys h1) \<and> heap_on (length (keys h')) (keys h')"
proof -
  let ?n = "length ks"
  have but: "heap_but_up (Suc ?n) ?n (keys h1)"
    unfolding heap_but_up_def over_gap_def
  proof (intro conjI allI impI)
    fix x assume "x < Suc ?n" "0 < x" "parent x = ?n"
    then show "keys h1 ! parent ?n \<le> keys h1 ! x" using parent_less [of x] by simp
  next
    fix x assume "x < Suc ?n" "0 < x" "x \<noteq> ?n"
    then show "keys h1 ! parent x \<le> keys h1 ! x"
      using assms(2,3) parent_less [of x] by (simp add: heap_on_def nth_append)
  qed
  have "permuted (Suc ?n) h1 h' \<and> heap_on (Suc ?n) (keys h')"
    unfolding h'_def len_keys using heap_up_ok [OF assms(1) _ _ but] assms(2) by simp
  then show ?thesis
    using assms(2) permuted_length [of "Suc ?n" h1 h'] by (simp add: permuted_def)
qed

end

section \<open>The key of both heaps of the program\<close>

text \<open>
  Both \<open>Less\<close> functions compare an expiry instant first and the entry's key where the instants
  are equal: a linear order on pairs.
\<close>

datatype heap_key = HeapKey (hk_at: time) (hk_key: string)

instantiation heap_key :: linorder
begin

definition less_heap_key :: "heap_key \<Rightarrow> heap_key \<Rightarrow> bool" where
  "less_heap_key a b = (hk_at a < hk_at b \<or> hk_at a = hk_at b \<and> hk_key a < hk_key b)"

definition less_eq_heap_key :: "heap_key \<Rightarrow> heap_key \<Rightarrow> bool" where
  "less_eq_heap_key a b = (hk_at a < hk_at b \<or> hk_at a = hk_at b \<and> hk_key a \<le> hk_key b)"

instance
proof
  fix a b c :: heap_key
  show "(a < b) = (a \<le> b \<and> \<not> b \<le> a)"
    by (auto simp: less_heap_key_def less_eq_heap_key_def)
  show "a \<le> a" by (simp add: less_eq_heap_key_def)
  show "a \<le> b \<Longrightarrow> b \<le> c \<Longrightarrow> a \<le> c"
    by (auto simp: less_eq_heap_key_def)
  show "a \<le> b \<Longrightarrow> b \<le> a \<Longrightarrow> a = b"
    by (cases a; cases b) (auto simp: less_eq_heap_key_def)
  show "a \<le> b \<or> b \<le> a"
    by (auto simp: less_eq_heap_key_def)
qed

end

lemma heap_key_leD: "a \<le> b \<Longrightarrow> hk_at a \<le> hk_at b"
  by (auto simp: less_eq_heap_key_def)

section \<open>Sorting without the least element\<close>

lemma sort_remove_least:
  assumes "m \<in> set xs" "\<forall>x \<in> set xs. m \<le> x"
  shows "sort xs = m # sort (remove1 m xs)"
proof (rule properties_for_sort)
  show "mset (m # sort (remove1 m xs)) = mset xs" using assms(1) by simp
  show "sorted (m # sort (remove1 m xs))"
    using assms(2) notin_set_remove1 [of _ xs m] by (auto dest: in_set_remove1 [THEN iffD1] set_remove1_subset [THEN subsetD])
qed

lemma sort_eq_mset: "mset xs = mset ys \<Longrightarrow> sort xs = sort ys"
  by (metis mset_sort properties_for_sort sorted_sort)

lemma dropWhile_sorted_filter:
  "sorted xs \<Longrightarrow> dropWhile (\<lambda>k. hk_at k \<le> now) xs = filter (\<lambda>k. now < hk_at k) xs"
proof (induction xs)
  case (Cons x xs)
  then have "now < hk_at x \<Longrightarrow> filter (\<lambda>k. now < hk_at k) xs = xs"
    using heap_key_leD by (fastforce simp: filter_id_conv)
  with Cons show ?case by auto
qed simp

end
