(* ===== verification/Throttle.thy ===== *)
theory Throttle
  imports GoHeap
begin

text \<open>
  The expiry set of \<open>internal/throttle/expiry_set.go\<close>: a bounded set of keys, each of which
  suppresses repetitions for a fixed interval. The entries live at addresses, because the heap
  and the map \<open>recorded\<close> share them and \<open>Swap\<close> updates the position stored in them.
  The specification is a sorted list of (expiry, key) pairs; the last section shows that every
  operation of the code implements it.
\<close>

section \<open>State\<close>

record expiry_entry =
  ee_key :: string
  ee_expiresAt :: time
  ee_index :: int

record expiry_set =
  es_maxEntries :: int
  es_interval :: time
  es_recorded :: "(string, nat) gomap"
  es_expiry :: "nat list"
  es_entries :: "nat \<Rightarrow> expiry_entry"
  es_next :: nat

definition NewExpirySet :: "int \<Rightarrow> time \<Rightarrow> expiry_set" where
  "NewExpirySet maxEntries interval =
     \<lparr>es_maxEntries = maxEntries, es_interval = interval, es_recorded = [], es_expiry = [],
      es_entries = (\<lambda>_. \<lparr>ee_key = [], ee_expiresAt = 0, ee_index = 0\<rparr>), es_next = 0\<rparr>"

section \<open>The heap interface of the set\<close>

definition es_heap_len :: "expiry_set \<Rightarrow> nat" where
  "es_heap_len s = length (es_expiry s)"

definition es_heap_less :: "expiry_set \<Rightarrow> nat \<Rightarrow> nat \<Rightarrow> bool" where
  "es_heap_less s i j =
     (let a = es_entries s (es_expiry s ! i); b = es_entries s (es_expiry s ! j) in
      if ee_expiresAt a = ee_expiresAt b then ee_key a < ee_key b
      else ee_expiresAt a < ee_expiresAt b)"

definition set_index :: "nat \<Rightarrow> int \<Rightarrow> (nat \<Rightarrow> expiry_entry) \<Rightarrow> nat \<Rightarrow> expiry_entry" where
  "set_index r i m = m(r := (m r)\<lparr>ee_index := i\<rparr>)"

definition es_heap_swap :: "expiry_set \<Rightarrow> nat \<Rightarrow> nat \<Rightarrow> expiry_set" where
  "es_heap_swap s i j =
     (let h = swapped (es_expiry s) i j in
      s\<lparr>es_expiry := h,
        es_entries := set_index (h ! j) (int j) (set_index (h ! i) (int i) (es_entries s))\<rparr>)"

definition es_heap_push :: "expiry_set \<Rightarrow> nat \<Rightarrow> expiry_set" where
  "es_heap_push s r =
     s\<lparr>es_entries := set_index r (int (length (es_expiry s))) (es_entries s),
       es_expiry := es_expiry s @ [r]\<rparr>"

definition es_heap_pop :: "expiry_set \<Rightarrow> expiry_set \<times> nat" where
  "es_heap_pop s =
     (let r = last (es_expiry s) in
      (s\<lparr>es_entries := set_index r (-1) (es_entries s), es_expiry := butlast (es_expiry s)\<rparr>, r))"

section \<open>The operations of the set\<close>

definition removeNextExpiryLocked :: "expiry_set \<Rightarrow> expiry_set" where
  "removeNextExpiryLocked s =
     (if es_expiry s = [] then s
      else case heap_pop es_heap_less es_heap_swap es_heap_len es_heap_pop s of
        (s1, r) \<Rightarrow> s1\<lparr>es_recorded := map_del (ee_key (es_entries s1 r)) (es_recorded s1)\<rparr>)"

lemma length_expiry_swap [simp]: "length (es_expiry (es_heap_swap s i j)) = length (es_expiry s)"
  by (simp add: es_heap_swap_def Let_def)

lemma length_expiry_removeNext:
  "length (es_expiry (removeNextExpiryLocked s)) = length (es_expiry s) - 1"
  using heap_pop_sift_frame [of "\<lambda>s. length (es_expiry s)" es_heap_swap es_heap_less es_heap_len s]
  by (simp add: removeNextExpiryLocked_def heap_pop_def es_heap_pop_def Let_def)

function removeExpiredLocked :: "expiry_set \<Rightarrow> time \<Rightarrow> expiry_set" where
  "removeExpiredLocked s now =
     (if es_expiry s \<noteq> [] \<and> \<not> now < ee_expiresAt (es_entries s (es_expiry s ! 0))
      then removeExpiredLocked (removeNextExpiryLocked s) now else s)"
  by pat_completeness auto
termination
  by (relation "measure (\<lambda>(s, _). length (es_expiry s))") (auto simp: length_expiry_removeNext)

declare removeExpiredLocked.simps [simp del]

definition es_Record :: "expiry_set \<Rightarrow> string \<Rightarrow> time \<Rightarrow> expiry_set \<times> bool" where
  "es_Record s0 key now =
     (let s = removeExpiredLocked s0 now in
      if map_of (es_recorded s) key \<noteq> None then (s, False)
      else
        let s1 = (if 0 < es_maxEntries s \<and> es_maxEntries s \<le> int (length (es_recorded s))
                  then removeNextExpiryLocked s else s);
            r = es_next s1;
            s2 = s1\<lparr>es_next := Suc r,
                    es_entries := (es_entries s1)(r :=
                      \<lparr>ee_key = key, ee_expiresAt = now + es_interval s1, ee_index = 0\<rparr>),
                    es_recorded := map_set key r (es_recorded s1)\<rparr>
        in (heap_push es_heap_less es_heap_swap es_heap_len es_heap_push s2 r, True))"

definition es_Forget :: "expiry_set \<Rightarrow> string \<Rightarrow> expiry_set" where
  "es_Forget s key =
     (case map_of (es_recorded s) key of
        None \<Rightarrow> s
      | Some r \<Rightarrow>
          let s1 = fst (heap_remove es_heap_less es_heap_swap es_heap_len es_heap_pop s
                         (nat (ee_index (es_entries s r))))
          in s1\<lparr>es_recorded := map_del key (es_recorded s1)\<rparr>)"

definition es_Len :: "expiry_set \<Rightarrow> nat" where
  "es_Len s = length (es_recorded s)"

definition es_Contains :: "expiry_set \<Rightarrow> string \<Rightarrow> bool" where
  "es_Contains s key = (map_of (es_recorded s) key \<noteq> None)"

section \<open>The heap client contract holds\<close>

definition es_key :: "expiry_set \<Rightarrow> nat \<Rightarrow> heap_key" where
  "es_key s r = HeapKey (ee_expiresAt (es_entries s r)) (ee_key (es_entries s r))"

definition es_keys :: "expiry_set \<Rightarrow> heap_key list" where
  "es_keys s = map (es_key s) (es_expiry s)"

definition es_ok :: "expiry_set \<Rightarrow> bool" where
  "es_ok s = (distinct (es_expiry s) \<and> (\<forall>r \<in> set (es_expiry s). r < es_next s) \<and>
     (\<forall>i < length (es_expiry s). ee_index (es_entries s (es_expiry s ! i)) = int i))"

definition es_same :: "expiry_set \<Rightarrow> expiry_set \<Rightarrow> bool" where
  "es_same s t =
     (es_maxEntries t = es_maxEntries s \<and> es_interval t = es_interval s \<and>
      es_recorded t = es_recorded s \<and> es_next t = es_next s \<and>
      set (es_expiry t) = set (es_expiry s) \<and> es_key t = es_key s)"

lemma length_es_keys [simp]: "length (es_keys s) = length (es_expiry s)"
  by (simp add: es_keys_def)

lemma es_key_swap [simp]: "es_key (es_heap_swap s i j) = es_key s"
  by (rule ext) (simp add: es_key_def es_heap_swap_def set_index_def Let_def)

lemma es_keys_swap:
  "i < length (es_expiry s) \<Longrightarrow> j < length (es_expiry s) \<Longrightarrow>
   es_keys (es_heap_swap s i j) = swapped (es_keys s) i j"
  unfolding es_keys_def es_key_swap
  by (simp add: es_heap_swap_def Let_def map_swapped)

lemma es_less_keys:
  "i < length (es_expiry s) \<Longrightarrow> j < length (es_expiry s) \<Longrightarrow>
   es_heap_less s i j = (es_keys s ! i < es_keys s ! j)"
  by (auto simp: es_heap_less_def Let_def es_keys_def es_key_def less_heap_key_def)

lemma es_ok_swap:
  assumes "es_ok s" "i < length (es_expiry s)" "j < length (es_expiry s)"
  shows "es_ok (es_heap_swap s i j)"
proof -
  let ?h = "swapped (es_expiry s) i j"
  have d: "distinct ?h" using assms by (simp add: distinct_swapped es_ok_def)
  have idx: "ee_index (es_entries (es_heap_swap s i j) (?h ! x)) = int x"
    if x: "x < length (es_expiry s)" for x
  proof -
    have "?h ! x = ?h ! j \<longleftrightarrow> x = j" "?h ! x = ?h ! i \<longleftrightarrow> x = i"
      using d x assms by (simp_all add: nth_eq_iff_index_eq)
    moreover have "x \<noteq> i \<Longrightarrow> x \<noteq> j \<Longrightarrow> ?h ! x = es_expiry s ! x"
      using assms x by (simp add: nth_swapped)
    ultimately show ?thesis
      using assms x by (auto simp: es_heap_swap_def Let_def set_index_def es_ok_def)
  qed
  have "set ?h = set (es_expiry s)" using assms by (simp add: set_swapped)
  with d idx assms show ?thesis
    by (simp add: es_ok_def es_heap_swap_def Let_def)
qed

lemma es_same_swap:
  "i < length (es_expiry s) \<Longrightarrow> j < length (es_expiry s) \<Longrightarrow> es_same s (es_heap_swap s i j)"
  by (simp add: es_same_def) (simp add: es_heap_swap_def Let_def set_swapped)

interpretation es_heap: heap_interface es_heap_less es_heap_swap es_keys es_ok es_same es_heap_len
  by unfold_locales
    (auto simp: es_less_keys es_keys_swap es_ok_swap es_same_swap es_heap_len_def,
     auto simp: es_same_def)

section \<open>Specification: a sorted list of expiry instants\<close>

text \<open>The live keys, sorted by the instant at which they expire, and what each operation does.\<close>

definition spec_expire :: "time \<Rightarrow> heap_key list \<Rightarrow> heap_key list" where
  "spec_expire now xs = dropWhile (\<lambda>k. hk_at k \<le> now) xs"

definition spec_record ::
  "int \<Rightarrow> time \<Rightarrow> string \<Rightarrow> time \<Rightarrow> heap_key list \<Rightarrow> heap_key list \<times> bool" where
  "spec_record maxEntries interval key now xs =
     (let live = spec_expire now xs in
      if key \<in> hk_key ` set live then (live, False)
      else
        let kept = (if 0 < maxEntries \<and> maxEntries \<le> int (length live) then tl live else live)
        in (insort (HeapKey (now + interval) key) kept, True))"

definition spec_forget :: "string \<Rightarrow> heap_key list \<Rightarrow> heap_key list" where
  "spec_forget key xs = filter (\<lambda>k. hk_key k \<noteq> key) xs"

section \<open>Invariant\<close>

definition es_inv :: "expiry_set \<Rightarrow> bool" where
  "es_inv s =
     (es_ok s \<and> heap_on (length (es_expiry s)) (es_keys s) \<and> wf_map (es_recorded s) \<and>
      (\<forall>k r. map_of (es_recorded s) k = Some r \<longleftrightarrow>
             r \<in> set (es_expiry s) \<and> hk_key (es_key s r) = k))"

definition es_abs :: "expiry_set \<Rightarrow> heap_key list" where
  "es_abs s = sort (es_keys s)"

definition es_config :: "expiry_set \<Rightarrow> int \<times> time" where
  "es_config s = (es_maxEntries s, es_interval s)"

lemma hk_key_es_key [simp]: "hk_key (es_key s r) = ee_key (es_entries s r)"
  by (simp add: es_key_def)

lemma es_invD:
  assumes "es_inv s"
  shows "es_ok s" "heap_on (length (es_expiry s)) (es_keys s)" "wf_map (es_recorded s)"
    "map_of (es_recorded s) k = Some r \<longleftrightarrow> r \<in> set (es_expiry s) \<and> hk_key (es_key s r) = k"
  using assms unfolding es_inv_def by blast+

lemma es_inv_keys:
  assumes "es_inv s"
  shows "dom (map_of (es_recorded s)) = hk_key ` set (es_keys s)"
    and "inj_on (hk_key \<circ> es_key s) (set (es_expiry s))"
proof -
  show "dom (map_of (es_recorded s)) = hk_key ` set (es_keys s)"
    using es_invD(4) [OF assms] by (auto simp: dom_def es_keys_def image_image simp del: hk_key_es_key)
  show "inj_on (hk_key \<circ> es_key s) (set (es_expiry s))"
    using es_invD(4) [OF assms] by (intro inj_onI) (metis comp_apply option.inject)
qed

lemma es_inv_length:
  assumes "es_inv s"
  shows "length (es_recorded s) = length (es_expiry s)"
proof -
  have "length (es_recorded s) = card (hk_key ` set (es_keys s))"
    using es_inv_keys(1) [OF assms] es_invD(3) [OF assms] by (simp add: length_map_card)
  also have "\<dots> = card ((hk_key \<circ> es_key s) ` set (es_expiry s))"
    by (simp add: es_keys_def image_image comp_def)
  also have "\<dots> = length (es_expiry s)"
    using es_invD(1) [OF assms] card_image [OF es_inv_keys(2) [OF assms]]
    by (simp add: distinct_card es_ok_def del: hk_key_es_key)
  finally show ?thesis .
qed

lemma es_inv_New: "es_inv (NewExpirySet m i)"
  by (simp add: es_inv_def NewExpirySet_def es_ok_def heap_on_def es_keys_def)

lemma length_es_abs [simp]: "length (es_abs s) = length (es_expiry s)"
  by (simp add: es_abs_def)

lemma set_es_abs [simp]: "set (es_abs s) = set (es_keys s)"
  by (simp add: es_abs_def)

lemma sorted_es_abs [simp]: "sorted (es_abs s)"
  by (simp add: es_abs_def)

section \<open>Removing an element\<close>

text \<open>The last step of \<open>heap.Pop\<close> and \<open>heap.Remove\<close>, and the map update that follows.\<close>

definition es_drop_last :: "expiry_set \<Rightarrow> expiry_set" where
  "es_drop_last h =
     (let r = last (es_expiry h); s1 = fst (es_heap_pop h) in
      s1\<lparr>es_recorded := map_del (ee_key (es_entries h r)) (es_recorded s1)\<rparr>)"

lemma es_key_drop_last [simp]: "es_key (es_drop_last h) = es_key h"
  by (rule ext) (simp add: es_drop_last_def es_heap_pop_def es_key_def set_index_def Let_def)

lemma es_keys_drop_last: "es_keys (es_drop_last h) = butlast (es_keys h)"
  unfolding es_keys_def es_key_drop_last
  by (simp add: es_drop_last_def es_heap_pop_def Let_def map_butlast)

lemma es_ok_drop_last:
  assumes "es_ok h" "es_expiry h \<noteq> []"
  shows "es_ok (es_drop_last h)"
proof -
  obtain xs r where x: "es_expiry h = xs @ [r]" using assms(2) by (metis append_butlast_last_id)
  have "ee_index (es_entries h (xs ! i)) = int i" if "i < length xs" for i
    using assms(1) that unfolding es_ok_def x
    by (metis length_append_singleton less_Suc_eq nth_append)
  with assms(1) show ?thesis
    by (auto simp: es_ok_def es_drop_last_def es_heap_pop_def set_index_def Let_def x)
qed

lemma es_drop_last_inv:
  assumes inv: "es_inv s" and ok: "es_ok h" and same: "es_same s h" and ne: "es_expiry h \<noteq> []"
    and ms: "mset (es_keys h) = mset (es_keys s)"
    and ho: "heap_on (length (es_keys s) - 1) (es_keys h)"
  defines "t \<equiv> es_drop_last h"
  shows "es_inv t \<and> es_config t = es_config s \<and>
    mset (es_keys t) = mset (es_keys s) - {#last (es_keys h)#}"
proof -
  obtain xs r where x: "es_expiry h = xs @ [r]" using ne by (metis append_butlast_last_id)
  have ks: "es_keys h = map (es_key h) xs @ [es_key h r]" by (simp add: es_keys_def x)
  have k: "es_keys t = map (es_key h) xs" by (simp add: t_def es_keys_drop_last ks)
  have len: "length (es_keys s) = Suc (length xs)"
    using ms ks by (metis length_append_singleton length_map mset_eq_length)
  have exp: "es_expiry t = xs" by (simp add: t_def es_drop_last_def es_heap_pop_def Let_def x)
  have rec: "es_recorded t = map_del (hk_key (es_key s r)) (es_recorded s)"
    using same by (simp add: t_def es_drop_last_def es_heap_pop_def Let_def x es_same_def
      del: hk_key_es_key) (simp add: es_key_def fun_eq_iff)
  have key: "es_key t = es_key s" using same by (simp add: t_def es_same_def)
  have set: "set (es_expiry s) = insert r (set xs)" "r \<notin> set xs"
    using same ok x by (auto simp: es_same_def es_ok_def)
  have "map_of (es_recorded t) k = Some q \<longleftrightarrow> q \<in> set xs \<and> hk_key (es_key t q) = k" for k q
  proof (cases "k = hk_key (es_key s r)")
    case True
    have "map_of (es_recorded t) k = None" by (simp add: rec True del: hk_key_es_key)
    moreover have "map_of (es_recorded s) k = Some r"
      using es_invD(4) [OF inv, of k r] set(1) True by blast
    moreover have "\<not> (q \<in> set xs \<and> hk_key (es_key s q) = k)"
      using es_invD(4) [OF inv, of k q] set calculation(2) by (metis insertCI option.inject)
    ultimately show ?thesis by (simp add: key del: hk_key_es_key)
  next
    case False
    then have "map_of (es_recorded t) k = map_of (es_recorded s) k"
      by (simp add: rec del: hk_key_es_key)
    then show ?thesis
      using es_invD(4) [OF inv, of k q] set(1) False unfolding key by (metis insert_iff)
  qed
  moreover have "heap_on (length xs) (es_keys t)"
    using ho len heap_on_append [of "map (es_key h) xs"] by (simp add: k ks)
  ultimately have "es_inv t"
    unfolding es_inv_def exp
    using es_ok_drop_last [OF ok ne] es_invD(3) [OF inv]
    by (simp add: t_def [symmetric]) (simp add: rec)
  moreover have "mset (es_keys t) = mset (es_keys s) - {#last (es_keys h)#}"
    using ms [symmetric] by (simp add: k ks)
  moreover have "es_config t = es_config s"
    using same by (simp add: t_def es_config_def es_drop_last_def es_heap_pop_def Let_def es_same_def)
  ultimately show ?thesis by blast
qed

lemma es_abs_root:
  assumes "es_inv s" "es_expiry s \<noteq> []"
  shows "es_abs s = es_keys s ! 0 # sort (remove1 (es_keys s ! 0) (es_keys s))"
  unfolding es_abs_def
proof (rule sort_remove_least)
  show "es_keys s ! 0 \<in> set (es_keys s)" using assms(2) by (intro nth_mem) simp
  show "\<forall>x \<in> set (es_keys s). es_keys s ! 0 \<le> x"
    using es_invD(2) [OF assms(1)] heap_on_root [of "length (es_expiry s)" "es_keys s"]
    by (auto simp: in_set_conv_nth)
qed

lemma removeNext_ok:
  assumes "es_inv s"
  shows "es_inv (removeNextExpiryLocked s) \<and> es_config (removeNextExpiryLocked s) = es_config s \<and>
    es_abs (removeNextExpiryLocked s) = tl (es_abs s)"
proof (cases "es_expiry s = []")
  case True
  then show ?thesis using assms by (simp add: removeNextExpiryLocked_def es_abs_def es_keys_def)
next
  case False
  let ?h = "heap_pop_sift es_heap_less es_heap_swap es_heap_len s"
  have t: "removeNextExpiryLocked s = es_drop_last ?h"
    using False by (simp add: removeNextExpiryLocked_def heap_pop_def es_drop_last_def es_heap_pop_def
      Let_def set_index_def)
  have h: "es_ok ?h" "es_same s ?h" "mset (es_keys ?h) = mset (es_keys s)"
      "last (es_keys ?h) = es_keys s ! 0" "heap_on (length (es_keys s) - 1) (es_keys ?h)"
    using es_heap.pop_sift_ok [of s] es_invD(1,2) [OF assms] False by (simp_all add: es_keys_def)
  have ne: "es_expiry ?h \<noteq> []" using h(2) False by (auto simp: es_same_def)
  note d = es_drop_last_inv [OF assms h(1,2) ne h(3,5)]
  have "mset (es_keys (es_drop_last ?h)) = mset (remove1 (es_keys s ! 0) (es_keys s))"
    using d h(4) by simp
  then have "es_abs (es_drop_last ?h) = sort (remove1 (es_keys s ! 0) (es_keys s))"
    unfolding es_abs_def by (rule sort_eq_mset)
  with d es_abs_root [OF assms False] show ?thesis by (simp add: t)
qed

lemma removeExpired_ok:
  assumes "es_inv s"
  shows "es_inv (removeExpiredLocked s now) \<and> es_config (removeExpiredLocked s now) = es_config s \<and>
    es_abs (removeExpiredLocked s now) = spec_expire now (es_abs s)"
  using assms
proof (induction s now rule: removeExpiredLocked.induct)
  case (1 s now)
  let ?go = "es_expiry s \<noteq> [] \<and> \<not> now < ee_expiresAt (es_entries s (es_expiry s ! 0))"
  have at: "es_expiry s \<noteq> [] \<Longrightarrow>
      hk_at (es_keys s ! 0) = ee_expiresAt (es_entries s (es_expiry s ! 0))"
    by (simp add: es_keys_def es_key_def)
  show ?case
  proof (cases ?go)
    case True
    have IH: "es_inv (removeExpiredLocked (removeNextExpiryLocked s) now) \<and>
        es_config (removeExpiredLocked (removeNextExpiryLocked s) now) = es_config (removeNextExpiryLocked s) \<and>
        es_abs (removeExpiredLocked (removeNextExpiryLocked s) now) =
          spec_expire now (es_abs (removeNextExpiryLocked s))"
      by (rule "1.IH" [OF True]) (use removeNext_ok [OF "1.prems"] in blast)
    then show ?thesis
      using True at removeNext_ok [OF "1.prems"] es_abs_root [OF "1.prems"]
      by (simp add: removeExpiredLocked.simps [of s now] spec_expire_def)
  next
    case False
    then show ?thesis
      using "1.prems" at es_abs_root [OF "1.prems"]
      by (cases "es_expiry s = []")
        (auto simp: removeExpiredLocked.simps [of s now] spec_expire_def es_abs_def es_keys_def)
  qed
qed

lemma es_recorded_iff:
  assumes "es_inv s"
  shows "map_of (es_recorded s) key \<noteq> None \<longleftrightarrow> key \<in> hk_key ` set (es_abs s)"
  using es_inv_keys(1) [OF assms] by (auto simp: dom_def)

text \<open>Adding an element: the state right before \<open>heap.Push\<close> and the sift that follows.\<close>

lemma es_push_ok:
  fixes at :: time
  assumes inv: "es_inv s" and key: "map_of (es_recorded s) key = None"
  defines "r \<equiv> es_next s"
  defines "s2 \<equiv> s\<lparr>es_next := Suc r,
                  es_entries := (es_entries s)(r :=
                    \<lparr>ee_key = key, ee_expiresAt = at, ee_index = 0\<rparr>),
                  es_recorded := map_set key r (es_recorded s)\<rparr>"
  defines "t \<equiv> heap_push es_heap_less es_heap_swap es_heap_len es_heap_push s2 r"
  shows "es_inv t \<and> es_config t = es_config s \<and> es_abs t = insort (HeapKey at key) (es_abs s)"
proof -
  let ?s3 = "es_heap_push s2 r"
  have fresh: "q \<in> set (es_expiry s) \<Longrightarrow> q < r" for q
    using es_invD(1) [OF inv] by (auto simp: es_ok_def r_def)
  have exp: "es_expiry ?s3 = es_expiry s @ [r]" by (simp add: es_heap_push_def s2_def)
  have key3: "es_key ?s3 q = (if q = r then HeapKey at key else es_key s q)" for q
    by (simp add: es_key_def es_heap_push_def s2_def set_index_def)
  have "map (es_key ?s3) (es_expiry s) = es_keys s"
    unfolding es_keys_def using fresh by (intro map_cong) (auto simp: key3)
  then have k: "es_keys ?s3 = es_keys s @ [HeapKey at key]"
    by (simp add: es_keys_def exp key3)
  have "ee_index (es_entries ?s3 ((es_expiry s @ [r]) ! i)) = int i" if "i < Suc (length (es_expiry s))" for i
    using that es_invD(1) [OF inv] fresh [of "es_expiry s ! i"]
    by (auto simp: es_ok_def es_heap_push_def s2_def set_index_def nth_append less_Suc_eq)
  then have ok: "es_ok ?s3"
    using es_invD(1) [OF inv] fresh unfolding es_ok_def exp
    by (auto simp: es_heap_push_def s2_def less_Suc_eq)
  have t: "t = heap_up es_heap_less es_heap_swap ?s3 (es_heap_len ?s3 - 1)"
    by (simp add: t_def heap_push_def Let_def)
  have p: "es_ok t" "es_same ?s3 t" "mset (es_keys t) = mset (es_keys ?s3)"
      "heap_on (length (es_keys t)) (es_keys t)"
    using es_heap.push_ok [OF ok k] es_invD(2) [OF inv] unfolding t by simp_all
  have same: "es_recorded t = map_set key r (es_recorded s)" "es_key t = es_key ?s3"
      "set (es_expiry t) = insert r (set (es_expiry s))" "es_config t = es_config s"
    using p(2) by (auto simp: es_same_def exp es_config_def) (auto simp: es_heap_push_def s2_def)
  have none: "hk_key (es_key s q) \<noteq> key" if "q \<in> set (es_expiry s)" for q
    using es_invD(4) [OF inv] key that by (metis option.distinct(1))
  have "map_of (es_recorded t) k = Some q \<longleftrightarrow> q \<in> set (es_expiry t) \<and> hk_key (es_key t q) = k" for k q
    using es_invD(4) [OF inv, of k q] none fresh [of q] unfolding same key3
    by (auto simp del: hk_key_es_key)
  then have "es_inv t"
    using p es_invD(3) [OF inv] unfolding es_inv_def by (simp add: same(1) del: hk_key_es_key)
  moreover have "es_abs t = insort (HeapKey at key) (es_abs s)"
    unfolding es_abs_def using p(3) k
    by (intro properties_for_sort) (simp_all add: sorted_insort)
  ultimately show ?thesis using same(4) by blast
qed

lemma es_Record_refines:
  assumes "es_inv s" "es_Record s key now = (t, b)"
  shows "es_inv t \<and> es_config t = es_config s \<and>
    (es_abs t, b) = spec_record (es_maxEntries s) (es_interval s) key now (es_abs s)"
proof -
  define s1 where "s1 = removeExpiredLocked s now"
  have s1: "es_inv s1" "es_config s1 = es_config s" "es_abs s1 = spec_expire now (es_abs s)"
    using removeExpired_ok [OF assms(1)] by (simp_all add: s1_def)
  show ?thesis
  proof (cases "map_of (es_recorded s1) key = None")
    case False
    with assms(2) s1 es_recorded_iff [OF s1(1), of key] show ?thesis
      by (auto simp: es_Record_def s1_def [symmetric] Let_def spec_record_def)
  next
    case True
    define s2 where "s2 = (if 0 < es_maxEntries s1 \<and> es_maxEntries s1 \<le> int (length (es_recorded s1))
                  then removeNextExpiryLocked s1 else s1)"
    have s2: "es_inv s2" "es_config s2 = es_config s"
      "es_abs s2 = (if 0 < es_maxEntries s \<and> es_maxEntries s \<le> int (length (es_abs s1))
                    then tl (es_abs s1) else es_abs s1)"
    proof -
      have len: "length (es_recorded s1) = length (es_abs s1)"
        using es_inv_length [OF s1(1)] by simp
      have cfg: "es_maxEntries s1 = es_maxEntries s" using s1(2) by (simp add: es_config_def)
      show "es_inv s2" "es_config s2 = es_config s"
        using s1 removeNext_ok [OF s1(1)] by (simp_all add: s2_def)
      show "es_abs s2 = (if 0 < es_maxEntries s \<and> es_maxEntries s \<le> int (length (es_abs s1))
                    then tl (es_abs s1) else es_abs s1)"
        using removeNext_ok [OF s1(1)] by (auto simp: s2_def len cfg)
    qed
    have "set (es_abs s2) \<subseteq> set (es_abs s1)"
      unfolding s2(3) by (cases "es_abs s1") auto
    then have none: "map_of (es_recorded s2) key = None"
      using True es_recorded_iff [OF s1(1)] es_recorded_iff [OF s2(1)] by blast
    note p = es_push_ok [OF s2(1) none, of "now + es_interval s2"]
    have t: "b" "t = heap_push es_heap_less es_heap_swap es_heap_len es_heap_push
        (s2\<lparr>es_next := Suc (es_next s2),
           es_entries := (es_entries s2)(es_next s2 :=
             \<lparr>ee_key = key, ee_expiresAt = now + es_interval s2, ee_index = 0\<rparr>),
           es_recorded := map_set key (es_next s2) (es_recorded s2)\<rparr>) (es_next s2)"
      using assms(2) True by (auto simp: es_Record_def s1_def [symmetric] Let_def s2_def)
    have "key \<notin> hk_key ` set (es_abs s1)" using True es_recorded_iff [OF s1(1)] by blast
    with p t s1 s2 show ?thesis
      by (simp add: spec_record_def Let_def es_config_def)
  qed
qed

lemma es_Forget_refines:
  assumes inv: "es_inv s"
  shows "es_inv (es_Forget s key) \<and> es_config (es_Forget s key) = es_config s \<and>
    es_abs (es_Forget s key) = spec_forget key (es_abs s)"
proof (cases "map_of (es_recorded s) key")
  case None
  then have "\<forall>k \<in> set (es_abs s). hk_key k \<noteq> key" using es_recorded_iff [OF inv, of key] by auto
  then have "spec_forget key (es_abs s) = es_abs s" by (simp add: spec_forget_def)
  with None inv show ?thesis by (simp add: es_Forget_def)
next
  case (Some r)
  have r: "r \<in> set (es_expiry s)" "hk_key (es_key s r) = key"
    using Some es_invD(4) [OF inv] by auto
  then obtain i where i: "i < length (es_expiry s)" "es_expiry s ! i = r"
    by (auto simp: in_set_conv_nth)
  then have idx: "nat (ee_index (es_entries s r)) = i"
    using es_invD(1) [OF inv] by (auto simp: es_ok_def)
  let ?h = "heap_remove_sift es_heap_less es_heap_swap es_heap_len s i"
  have h: "es_ok ?h" "es_same s ?h" "mset (es_keys ?h) = mset (es_keys s)"
      "last (es_keys ?h) = es_keys s ! i" "heap_on (length (es_keys s) - 1) (es_keys ?h)"
    using es_heap.remove_sift_ok [of s i] es_invD(1,2) [OF inv] i(1) by simp_all
  have ne: "es_expiry ?h \<noteq> []" using h(2) i by (auto simp: es_same_def)
  have "last (es_keys ?h) = es_key s (last (es_expiry ?h))"
    using ne h(2) by (simp add: es_keys_def last_map es_same_def)
  then have kl: "hk_key (es_key s (last (es_expiry ?h))) = key"
    using h(4) i r by (simp add: es_keys_def)
  have "ee_key (es_entries ?h (last (es_expiry ?h))) = key"
    using kl h(2) unfolding es_same_def by (metis hk_key_es_key)
  then have t: "es_Forget s key = es_drop_last ?h"
    using Some idx by (simp add: es_Forget_def heap_remove_def es_drop_last_def Let_def)
  note d = es_drop_last_inv [OF inv h(1,2) ne h(3,5)]
  have uniq: "x \<in> set (es_keys s) \<Longrightarrow> hk_key x = key \<Longrightarrow> x = es_keys s ! i" for x
    using es_inv_keys(2) [OF inv] r i by (auto simp: es_keys_def inj_on_def simp del: hk_key_es_key)
  have dist: "distinct (es_keys s)"
    using es_invD(1) [OF inv] es_inv_keys(2) [OF inv]
    by (auto simp: es_keys_def distinct_map es_ok_def intro: inj_on_imageI2)
  have "mset (es_keys (es_drop_last ?h)) = mset (remove1 (es_keys s ! i) (es_keys s))"
    using d h(4) by simp
  then have "es_abs (es_drop_last ?h) = sort (remove1 (es_keys s ! i) (es_keys s))"
    unfolding es_abs_def by (rule sort_eq_mset)
  also have "remove1 (es_keys s ! i) (es_keys s) = filter (\<lambda>k. hk_key k \<noteq> key) (es_keys s)"
    using dist uniq r i by (auto simp: distinct_remove1_removeAll removeAll_filter_not_eq es_keys_def
      intro!: filter_cong)
  also have "sort \<dots> = spec_forget key (es_abs s)"
    by (simp add: spec_forget_def es_abs_def filter_sort)
  finally show ?thesis using d t by simp
qed

section \<open>Runs of operations\<close>

datatype es_op = ERecord string time | EForget string

fun es_run :: "expiry_set \<Rightarrow> es_op list \<Rightarrow> expiry_set \<times> bool list" where
  "es_run s [] = (s, [])"
| "es_run s (ERecord key now # ops) =
     (case es_Record s key now of (s1, b) \<Rightarrow> case es_run s1 ops of (s2, bs) \<Rightarrow> (s2, b # bs))"
| "es_run s (EForget key # ops) = es_run (es_Forget s key) ops"

fun spec_run :: "int \<Rightarrow> time \<Rightarrow> heap_key list \<Rightarrow> es_op list \<Rightarrow> heap_key list \<times> bool list" where
  "spec_run m iv xs [] = (xs, [])"
| "spec_run m iv xs (ERecord key now # ops) =
     (case spec_record m iv key now xs of (xs1, b) \<Rightarrow>
        case spec_run m iv xs1 ops of (xs2, bs) \<Rightarrow> (xs2, b # bs))"
| "spec_run m iv xs (EForget key # ops) = spec_run m iv (spec_forget key xs) ops"

lemma es_run_refines:
  "es_inv s \<Longrightarrow> es_config s = (m, iv) \<Longrightarrow> es_run s ops = (t, bs) \<Longrightarrow>
   es_inv t \<and> es_config t = (m, iv) \<and> spec_run m iv (es_abs s) ops = (es_abs t, bs)"
proof (induction ops arbitrary: s t bs)
  case Nil
  then show ?case by simp
next
  case (Cons op ops)
  show ?case
  proof (cases op)
    case (ERecord key now)
    obtain s1 b where r: "es_Record s key now = (s1, b)" by fastforce
    note ref = es_Record_refines [OF Cons.prems(1) r]
    obtain bs1 where run: "es_run s1 ops = (t, bs1)" "bs = b # bs1"
      using Cons.prems(3) by (auto simp: ERecord r split: prod.splits)
    have "es_inv t \<and> es_config t = (m, iv) \<and> spec_run m iv (es_abs s1) ops = (es_abs t, bs1)"
      using Cons.IH [OF _ _ run(1)] ref Cons.prems(2) by simp
    moreover have "spec_record m iv key now (es_abs s) = (es_abs s1, b)"
      using ref Cons.prems(2) by (simp add: es_config_def)
    ultimately show ?thesis by (simp add: ERecord run(2))
  next
    case (EForget key)
    then show ?thesis
      using Cons.IH [of "es_Forget s key" t bs] Cons.prems es_Forget_refines [OF Cons.prems(1), of key]
      by simp
  qed
qed

lemma es_run_New:
  assumes "es_run (NewExpirySet m iv) ops = (t, bs)"
  shows "es_inv t \<and> es_config t = (m, iv) \<and> spec_run m iv [] ops = (es_abs t, bs)"
proof -
  have "es_abs (NewExpirySet m iv) = []" by (simp add: es_abs_def es_keys_def NewExpirySet_def)
  then show ?thesis
    using es_run_refines [OF es_inv_New _ assms] by (simp add: es_config_def NewExpirySet_def)
qed

section \<open>Facts about the specification\<close>

lemma spec_expire_length: "length (spec_expire now xs) \<le> length xs"
  by (simp add: spec_expire_def length_dropWhile_le)

lemma spec_record_length:
  assumes "0 < m" "int (length xs) \<le> m" "spec_record m iv key now xs = (ys, b)"
  shows "int (length ys) \<le> m"
proof -
  have "int (length (spec_expire now xs)) \<le> m"
    using assms(2) spec_expire_length [of now xs] by linarith
  then show ?thesis using assms(1,3) by (auto simp: spec_record_def Let_def split: if_splits)
qed

lemma spec_run_length:
  "0 < m \<Longrightarrow> int (length xs) \<le> m \<Longrightarrow> spec_run m iv xs ops = (ys, bs) \<Longrightarrow> int (length ys) \<le> m"
proof (induction ops arbitrary: xs bs)
  case Nil
  then show ?case by simp
next
  case (Cons op ops)
  show ?case
  proof (cases op)
    case (ERecord key now)
    obtain xs1 b where r: "spec_record m iv key now xs = (xs1, b)" by fastforce
    obtain bs1 where run: "spec_run m iv xs1 ops = (ys, bs1)"
      using Cons.prems(3) by (auto simp: ERecord r split: prod.splits)
    show ?thesis
      by (rule Cons.IH [OF Cons.prems(1) spec_record_length [OF Cons.prems(1,2) r] run])
  next
    case (EForget key)
    have "length (spec_forget key xs) \<le> length xs" by (simp add: spec_forget_def)
    with Cons.prems(2) have "int (length (spec_forget key xs)) \<le> m" by linarith
    from Cons.IH [OF Cons.prems(1) this] EForget Cons.prems(3) show ?thesis by simp
  qed
qed

lemma sorted_spec_record:
  assumes "sorted xs" "spec_record m iv key now xs = (ys, b)"
  shows "sorted ys"
proof -
  have "sorted (spec_expire now xs)" using assms(1) by (simp add: spec_expire_def sorted_dropWhile)
  then show ?thesis using assms(2)
    by (auto simp: spec_record_def Let_def sorted_insort sorted_tl split: if_splits)
qed

lemma in_spec_expire:
  assumes "sorted xs" "k \<in> set xs" "now < hk_at k"
  shows "k \<in> set (spec_expire now xs)"
  using assms unfolding spec_expire_def
proof (induction xs)
  case (Cons x xs)
  then show ?case using heap_key_leD [of x k] by auto
qed simp

text \<open>Without a capacity bound a live key stays and keeps suppressing its repetitions.\<close>

lemma spec_record_live:
  assumes "sorted xs" "HeapKey at key \<in> set xs" "now < at" "m \<le> 0"
    and "spec_record m iv key' now xs = (ys, b)"
  shows "HeapKey at key \<in> set ys \<and> (key' = key \<longrightarrow> \<not> b)"
proof -
  have "HeapKey at key \<in> set (spec_expire now xs)"
    using in_spec_expire [OF assms(1,2)] assms(3) by simp
  then have "HeapKey at key \<in> set (spec_expire now xs)" "key \<in> hk_key ` set (spec_expire now xs)"
    by force+
  then show ?thesis
    using assms(4,5) by (auto simp: spec_record_def Let_def set_insort_key split: if_splits)
qed

lemma spec_record_accepts:
  "spec_record m iv key now xs = (ys, True) \<Longrightarrow> HeapKey (now + iv) key \<in> set ys"
  by (auto simp: spec_record_def Let_def set_insort_key split: if_splits)

definition records :: "(string \<times> time) list \<Rightarrow> es_op list" where
  "records calls = map (\<lambda>(key, now). ERecord key now) calls"

lemma spec_run_live:
  assumes "sorted xs" "HeapKey at key \<in> set xs" "m \<le> 0"
    and "spec_run m iv xs (records calls) = (ys, bs)"
    and "j < length calls" "fst (calls ! j) = key" "bs ! j"
    and "sorted (map snd calls)"
  shows "at \<le> snd (calls ! j)"
  using assms
proof (induction calls arbitrary: xs bs j)
  case Nil
  then show ?case by simp
next
  case (Cons c calls)
  obtain key' now where c: "c = (key', now)" by fastforce
  obtain xs1 b where r: "spec_record m iv key' now xs = (xs1, b)" by fastforce
  obtain bs1 where run: "spec_run m iv xs1 (records calls) = (ys, bs1)" "bs = b # bs1"
    using Cons.prems(4) by (auto simp: c r records_def split: prod.splits)
  show ?case
  proof (cases "now < at")
    case False
    have "now \<le> snd ((c # calls) ! j)"
      using Cons.prems(5,8) by (cases j) (auto simp: c)
    with False show ?thesis by simp
  next
    case True
    note live = spec_record_live [OF Cons.prems(1,2) True Cons.prems(3) r]
    show ?thesis
    proof (cases j)
      case 0
      with live Cons.prems(6,7) run(2) c show ?thesis by simp
    next
      case (Suc j')
      then show ?thesis
        using Cons.IH [OF sorted_spec_record [OF Cons.prems(1) r] _ Cons.prems(3) run(1)]
          live Cons.prems run(2) by simp
    qed
  qed
qed

lemma spec_run_spaced:
  assumes "sorted xs" "m \<le> 0" "spec_run m iv xs (records calls) = (ys, bs)"
    and "i < j" "j < length calls" "fst (calls ! i) = fst (calls ! j)" "bs ! i" "bs ! j"
    and "sorted (map snd calls)"
  shows "snd (calls ! i) + iv \<le> snd (calls ! j)"
  using assms
proof (induction calls arbitrary: xs bs i j)
  case Nil
  then show ?case by simp
next
  case (Cons c calls)
  obtain key now where c: "c = (key, now)" by fastforce
  obtain xs1 b where r: "spec_record m iv key now xs = (xs1, b)" by fastforce
  obtain bs1 where run: "spec_run m iv xs1 (records calls) = (ys, bs1)" "bs = b # bs1"
    using Cons.prems(3) by (auto simp: c r records_def split: prod.splits)
  obtain j' where j: "j = Suc j'" using Cons.prems(4) by (cases j) auto
  note s1 = sorted_spec_record [OF Cons.prems(1) r]
  show ?case
  proof (cases i)
    case 0
    with Cons.prems run(2) have b by simp
    then have "HeapKey (now + iv) key \<in> set xs1" using r spec_record_accepts by simp
    from spec_run_live [OF s1 this Cons.prems(2) run(1), of j'] show ?thesis
      using Cons.prems run(2) by (simp add: 0 j c)
  next
    case (Suc i')
    then show ?thesis using Cons.IH [OF s1 Cons.prems(2) run(1), of i' j'] Cons.prems run(2) j by simp
  qed
qed

section \<open>Properties\<close>

text \<open>
  C13: Every run of \<open>Record\<close> and \<open>Forget\<close> calls on a new expiry set gives the answers of the
  specification (a sorted list of expiry instants, from which expired keys are dropped and, at
  capacity, the one nearest to expiry), ends in a state that represents the specification's, and
  keeps the heap order, the positions stored in the entries and the map in step.
\<close>

theorem expiry_set_runs_refine:
  "case es_run (NewExpirySet maxEntries interval) ops of (s, answers) \<Rightarrow>
     es_inv s \<and> spec_run maxEntries interval [] ops = (es_abs s, answers)"
  by (simp split: prod.split) (metis es_run_New)

text \<open>
  With a positive \<open>maxEntries\<close> an expiry set never records more than \<open>maxEntries\<close> keys,
  whatever calls it has served.
\<close>

theorem expiry_set_bounded:
  assumes "0 < maxEntries"
  shows "int (es_Len (fst (es_run (NewExpirySet maxEntries interval) ops))) \<le> maxEntries"
proof -
  obtain s bs where run: "es_run (NewExpirySet maxEntries interval) ops = (s, bs)" by fastforce
  note ref = es_run_New [OF run]
  have "int (length (es_abs s)) \<le> maxEntries"
    using ref assms by (intro spec_run_length [of maxEntries "[]" interval ops "es_abs s" bs]) auto
  with ref run show ?thesis by (simp add: es_Len_def es_inv_length)
qed

theorem expiry_set_bounded_witness:
  "int (es_Len (fst (es_run (NewExpirySet 2 60)
     [ERecord ''a'' 0, ERecord ''b'' 1, ERecord ''c'' 2]))) \<le> 2"
  by (rule expiry_set_bounded) simp

text \<open>
  In an unbounded expiry set whose calls come in the order of time, two accepted calls of
  \<open>Record\<close> with the same key are at least the interval apart.
\<close>

theorem expiry_set_spacing:
  assumes "maxEntries \<le> 0" and "sorted (map snd calls)"
    and "es_run (NewExpirySet maxEntries interval) (records calls) = (s, accepted)"
    and "i < j" and "j < length calls" and "fst (calls ! i) = fst (calls ! j)"
    and "accepted ! i" and "accepted ! j"
  shows "snd (calls ! i) + interval \<le> snd (calls ! j)"
  using es_run_New [OF assms(3)] spec_run_spaced [of "[]"] assms by simp

theorem expiry_set_spacing_witness:
  "\<exists>s. es_run (NewExpirySet 0 60) (records [(''a'', 0), (''a'', 59), (''a'', 60)]) = (s, [True, False, True])
     \<and> (0::int) + 60 \<le> 60"
proof -
  let ?calls = "[(''a'', 0), (''a'', 59), (''a'', 60)] :: (string \<times> time) list"
  have "snd (es_run (NewExpirySet 0 60) (records ?calls)) = [True, False, True]"
    by code_simp
  then obtain s where run: "es_run (NewExpirySet 0 60) (records ?calls) = (s, [True, False, True])"
    by (metis prod.collapse)
  have "snd (?calls ! 0) + 60 \<le> snd (?calls ! 2)"
    by (rule expiry_set_spacing [OF _ _ run]) simp_all
  with run show ?thesis by auto
qed

end
