(* ===== verification/FixedWindow.thy ===== *)
theory FixedWindow
  imports Prelude
begin

text \<open>
  The contract of a fixed-window rate limiter, which both the in-process limiter
  (\<open>internal/httpapi/rate_limiter.go\<close>) and the SQL limiter shared by all replicas
  (\<open>ConsumeRateLimit\<close> of \<open>internal/store\<close>) promise: per key, a bucket that counts the accepted
  calls until it is reset. The locale derives from the contract of one call what a client may
  rely on over a whole run: the quota of a window.
\<close>

section \<open>One bucket\<close>

type_synonym bucket = "(time \<times> int) option"

text \<open>A bucket is live until its reset instant; an expired one is as good as none.\<close>

definition live :: "time \<Rightarrow> bucket \<Rightarrow> bucket" where
  "live now b = (case b of None \<Rightarrow> None | Some (reset, n) \<Rightarrow> if now < reset then Some (reset, n) else None)"

definition window_allow :: "int \<Rightarrow> time \<Rightarrow> time \<Rightarrow> bucket \<Rightarrow> bucket \<times> bool" where
  "window_allow limit window now b =
     (case live now b of
        None \<Rightarrow> (Some (now + window, 1), True)
      | Some (reset, n) \<Rightarrow> if n < limit then (Some (reset, n + 1), True) else (Some (reset, n), False))"

fun window_run :: "int \<Rightarrow> time \<Rightarrow> bucket \<Rightarrow> time list \<Rightarrow> bool list" where
  "window_run limit window b [] = []"
| "window_run limit window b (now # ts) =
     (case window_allow limit window now b of (b1, a) \<Rightarrow> a # window_run limit window b1 ts)"

definition accepted :: "bool list \<Rightarrow> nat" where
  "accepted bs = length (filter id bs)"

lemma accepted_simps [simp]:
  "accepted [] = 0" "accepted (b # bs) = (if b then Suc (accepted bs) else accepted bs)"
  by (simp_all add: accepted_def)

lemma live_live [simp]: "now \<le> t \<Longrightarrow> live t (live now b) = live t b"
  by (auto simp: live_def split: option.splits)

lemma window_allow_live: "window_allow limit window now (live now b) = window_allow limit window now b"
  by (simp add: window_allow_def)

lemma window_run_cong:
  "live t0 b = live t0 b' \<Longrightarrow> \<forall>t \<in> set ts. t0 \<le> t \<Longrightarrow>
   window_run limit window b ts = window_run limit window b' ts"
proof (cases ts)
  case (Cons t ts')
  assume "live t0 b = live t0 b'" "\<forall>t \<in> set ts. t0 \<le> t"
  then have "live t b = live t b'" using live_live [of t0 t] Cons by (metis list.set_intros(1))
  then show ?thesis by (simp add: Cons window_allow_def)
qed simp

text \<open>Within the life of a bucket at most the rest of its quota is accepted.\<close>

lemma window_run_rest:
  "\<forall>t \<in> set ts. t < reset \<Longrightarrow> n \<le> limit \<Longrightarrow>
   int (accepted (window_run limit window (Some (reset, n)) ts)) \<le> limit - n"
proof (induction ts arbitrary: n)
  case (Cons t ts)
  have l: "live t (Some (reset, n)) = Some (reset, n)" using Cons.prems by (simp add: live_def)
  show ?case
  proof (cases "n < limit")
    case True
    then have "int (accepted (window_run limit window (Some (reset, n + 1)) ts)) \<le> limit - (n + 1)"
      using Cons.prems by (intro Cons.IH) auto
    with True show ?thesis by (simp add: window_allow_def l)
  next
    case False
    have "int (accepted (window_run limit window (Some (reset, n)) ts)) \<le> limit - n"
      using Cons.prems by (intro Cons.IH) auto
    with False show ?thesis by (simp add: window_allow_def l)
  qed
qed simp

lemma window_run_fresh:
  assumes "\<forall>t \<in> set ts. t0 \<le> t \<and> t < t0 + window" "sorted ts" "0 < limit"
    "live (hd ts) b = None" "ts \<noteq> []"
  shows "int (accepted (window_run limit window b ts)) \<le> limit"
proof -
  obtain t ts' where ts: "ts = t # ts'" using assms(5) by (cases ts) auto
  then have "\<forall>u \<in> set ts'. u < t + window" using assms(1) by fastforce
  then have "int (accepted (window_run limit window (Some (t + window, 1)) ts')) \<le> limit - 1"
    using assms(3) by (intro window_run_rest) auto
  then show ?thesis using assms(4) by (simp add: ts window_allow_def)
qed

text \<open>
  In any span shorter than the window at most twice the limit is accepted: what the bucket open
  at the start has left, and one bucket opened in the span.
\<close>

definition counted :: "bucket \<Rightarrow> bool" where
  "counted b = (case b of None \<Rightarrow> True | Some (_, n) \<Rightarrow> 1 \<le> n)"

lemma counted_allow: "counted b \<Longrightarrow> counted (fst (window_allow limit window now b))"
  by (auto simp: window_allow_def counted_def live_def split: option.splits if_splits)

lemma window_run_open:
  assumes "\<forall>t \<in> set ts. t0 \<le> t \<and> t < t0 + window" "sorted ts" "0 < limit" "1 \<le> n"
  shows "int (accepted (window_run limit window (Some (reset, n)) ts)) \<le> limit + max 0 (limit - n)"
  using assms
proof (induction ts arbitrary: n)
  case Nil
  then show ?case by simp
next
  case (Cons t ts)
  show ?case
  proof (cases "t < reset")
    case False
    then have "int (accepted (window_run limit window (Some (reset, n)) (t # ts))) \<le> limit"
      using Cons.prems by (intro window_run_fresh) (auto simp: live_def)
    then show ?thesis by simp
  next
    case True
    then have l: "live t (Some (reset, n)) = Some (reset, n)" by (simp add: live_def)
    have IH: "1 \<le> m \<Longrightarrow> int (accepted (window_run limit window (Some (reset, m)) ts)) \<le>
        limit + max 0 (limit - m)" for m
      using Cons.prems by (intro Cons.IH) auto
    show ?thesis
    proof (cases "n < limit")
      case True
      with IH [of "n + 1"] Cons.prems(4) show ?thesis by (simp add: window_allow_def l max_def)
    next
      case False
      with IH [of n] Cons.prems(4) show ?thesis by (simp add: window_allow_def l)
    qed
  qed
qed

lemma window_run_quota:
  assumes "\<forall>t \<in> set ts. t0 \<le> t \<and> t < t0 + window" "sorted ts" "0 < limit" "counted b"
  shows "int (accepted (window_run limit window b ts)) \<le> 2 * limit"
proof (cases b)
  case None
  then have "ts \<noteq> [] \<Longrightarrow> int (accepted (window_run limit window b ts)) \<le> limit"
    using assms by (intro window_run_fresh) (auto simp: live_def)
  then show ?thesis using assms(3) by (cases "ts = []") auto
next
  case (Some p)
  obtain reset n where p: "p = (reset, n)" by fastforce
  then have "1 \<le> n" using Some assms(4) by (simp add: counted_def)
  from window_run_open [OF assms(1-3) this, of reset] this show ?thesis
    using assms(3) by (simp add: Some p max_def split: if_splits)
qed

lemma window_run_quota_new:
  assumes "\<forall>t \<in> set ts. t0 \<le> t \<and> t < t0 + window" "sorted ts" "0 < limit" "live t0 b = None"
  shows "int (accepted (window_run limit window b ts)) \<le> limit"
proof (cases "ts = []")
  case True
  then show ?thesis using assms(3) by simp
next
  case False
  then have "live (hd ts) b = live (hd ts) (live t0 b)" using assms(1) by simp
  also have "\<dots> = None" by (simp add: assms(4)) (simp add: live_def)
  finally show ?thesis using assms False by (intro window_run_fresh) auto
qed

section \<open>The contract\<close>

record limit_call =
  lc_key :: string
  lc_limit :: int
  lc_window :: time
  lc_now :: time

text \<open>A run of calls of a limiter \<open>allow\<close>, with its answers.\<close>

fun limit_run :: "('s \<Rightarrow> limit_call \<Rightarrow> 's \<times> bool) \<Rightarrow> 's \<Rightarrow> limit_call list \<Rightarrow> 's \<times> bool list" where
  "limit_run allow s [] = (s, [])"
| "limit_run allow s (c # cs) =
     (case allow s c of (s1, b) \<Rightarrow> case limit_run allow s1 cs of (s2, bs) \<Rightarrow> (s2, b # bs))"

lemma fst_limit_run_Cons: "fst (limit_run allow s (c # cs)) = fst (limit_run allow (fst (allow s c)) cs)"
  by (simp split: prod.split)

text \<open>\<open>room s c\<close> holds at every call of the run.\<close>

fun roomy :: "('s \<Rightarrow> limit_call \<Rightarrow> 's \<times> bool) \<Rightarrow> ('s \<Rightarrow> limit_call \<Rightarrow> bool) \<Rightarrow> 's \<Rightarrow> limit_call list \<Rightarrow> bool" where
  "roomy allow room s [] = True"
| "roomy allow room s (c # cs) = (room s c \<and> roomy allow room (fst (allow s c)) cs)"

lemma roomy_True: "roomy allow (\<lambda>s c. True) s cs"
  by (induction cs arbitrary: s) simp_all

text \<open>The answers to the calls with key \<open>k\<close>.\<close>

definition answers :: "string \<Rightarrow> limit_call list \<Rightarrow> bool list \<Rightarrow> bool list" where
  "answers k cs bs = map snd (filter (\<lambda>(c, b). lc_key c = k) (zip cs bs))"

definition times :: "string \<Rightarrow> limit_call list \<Rightarrow> time list" where
  "times k cs = map lc_now (filter (\<lambda>c. lc_key c = k) cs)"

definition served :: "limit_call list \<Rightarrow> bool" where
  "served cs = (\<forall>c \<in> set cs. 0 < lc_limit c \<and> 0 < lc_window c)"

lemma sorted_times: "sorted (map lc_now cs) \<Longrightarrow> sorted (times k cs)"
  unfolding times_def by (induction cs) auto

text \<open>All calls with key \<open>k\<close> have one limit and one window, and come in the order of time.\<close>

definition uniform :: "string \<Rightarrow> int \<Rightarrow> time \<Rightarrow> limit_call list \<Rightarrow> bool" where
  "uniform k limit window cs =
     (served cs \<and> sorted (map lc_now cs) \<and>
      (\<forall>c \<in> set cs. lc_key c = k \<longrightarrow> lc_limit c = limit \<and> lc_window c = window))"

lemma uniform_Cons:
  "uniform k limit window (c # cs) \<Longrightarrow> uniform k limit window cs \<and> 0 < lc_limit c \<and> 0 < lc_window c \<and>
     (\<forall>d \<in> set cs. lc_now c \<le> lc_now d)"
  by (auto simp: uniform_def served_def)

lemma uniform_served: "uniform k limit window cs \<Longrightarrow> \<forall>c \<in> set cs. 0 < lc_limit c \<and> 0 < lc_window c"
  by (simp add: uniform_def served_def)

definition within :: "time \<Rightarrow> time \<Rightarrow> limit_call list \<Rightarrow> bool" where
  "within t0 window cs = (\<forall>c \<in> set cs. t0 \<le> lc_now c \<and> lc_now c < t0 + window)"

text \<open>
  \<open>bucket_of s k\<close> is the bucket a limiter state holds for \<open>k\<close>. \<open>room s c\<close> says that the limiter
  serves the call \<open>c\<close> without dropping the live bucket of another key, and \<open>ok c\<close> that the call is
  one the limiter accepts.
\<close>

locale fixed_window =
  fixes allow :: "'s \<Rightarrow> limit_call \<Rightarrow> 's \<times> bool"
    and bucket_of :: "'s \<Rightarrow> string \<Rightarrow> bucket"
    and inv :: "'s \<Rightarrow> bool"
    and room :: "'s \<Rightarrow> limit_call \<Rightarrow> bool"
    and ok :: "limit_call \<Rightarrow> bool"
  assumes allow_inv: "inv s \<Longrightarrow> ok c \<Longrightarrow> inv (fst (allow s c))"
    and allow_key: "inv s \<Longrightarrow> ok c \<Longrightarrow> allow s c = (t, b) \<Longrightarrow>
      window_allow (lc_limit c) (lc_window c) (lc_now c) (bucket_of s (lc_key c)) =
        (bucket_of t (lc_key c), b)"
    and allow_other: "inv s \<Longrightarrow> ok c \<Longrightarrow> room s c \<Longrightarrow>
      allow s c = (t, b) \<Longrightarrow> k \<noteq> lc_key c \<Longrightarrow>
      live (lc_now c) (bucket_of t k) = live (lc_now c) (bucket_of s k)"
    and counted_bucket: "inv s \<Longrightarrow> counted (bucket_of s k)"
begin

lemma inv_run: "inv s \<Longrightarrow> \<forall>c \<in> set cs. ok c \<Longrightarrow> inv (fst (limit_run allow s cs))"
  by (induction cs arbitrary: s) (simp_all add: fst_limit_run_Cons allow_inv del: limit_run.simps(2))

text \<open>Seen from one key, the limiter is the fixed window of that key.\<close>

lemma run_is_window_run:
  assumes "inv s" "roomy allow room s cs" "uniform k limit window cs"
    and "limit_run allow s cs = (t, bs)" and "\<forall>c \<in> set cs. ok c"
  shows "answers k cs bs = window_run limit window (bucket_of s k) (times k cs)"
  using assms
proof (induction cs arbitrary: s bs)
  case Nil
  then show ?case by (simp add: answers_def times_def)
next
  case (Cons c cs)
  obtain s1 b where a: "allow s c = (s1, b)" by fastforce
  obtain bs1 where r: "limit_run allow s1 cs = (t, bs1)" "bs = b # bs1"
    using Cons.prems(4) by (auto simp: a split: prod.splits)
  note u = uniform_Cons [OF Cons.prems(3)]
  have okc: "ok c" "\<forall>d \<in> set cs. ok d" using Cons.prems(5) by auto
  have "inv s1" using allow_inv [OF Cons.prems(1) okc(1)] a by (metis fst_conv)
  then have IH: "answers k cs bs1 = window_run limit window (bucket_of s1 k) (times k cs)"
    using Cons.IH [of s1 bs1] Cons.prems(2) r a u okc by simp
  show ?case
  proof (cases "lc_key c = k")
    case True
    then have "window_allow limit window (lc_now c) (bucket_of s k) = (bucket_of s1 k, b)"
      using allow_key [OF Cons.prems(1) okc(1) a] Cons.prems(3) u by (simp add: uniform_def)
    with IH True r show ?thesis by (simp add: answers_def times_def)
  next
    case False
    then have "live (lc_now c) (bucket_of s1 k) = live (lc_now c) (bucket_of s k)"
      using allow_other [OF Cons.prems(1) okc(1) _ a] Cons.prems(2) u by simp
    then have "window_run limit window (bucket_of s1 k) (times k cs) =
        window_run limit window (bucket_of s k) (times k cs)"
      using u by (intro window_run_cong) (auto simp: times_def)
    with IH False r show ?thesis by (simp add: answers_def times_def)
  qed
qed

lemma quota:
  assumes "inv s" "roomy allow room s cs" "uniform k limit window cs" "within t0 window cs"
    and "0 < limit" "limit_run allow s cs = (t, bs)" and "\<forall>c \<in> set cs. ok c"
  shows "int (accepted (answers k cs bs)) \<le> 2 * limit"
    and "live t0 (bucket_of s k) = None \<Longrightarrow> int (accepted (answers k cs bs)) \<le> limit"
proof -
  have ts: "\<forall>u \<in> set (times k cs). t0 \<le> u \<and> u < t0 + window" and s: "sorted (times k cs)"
    using assms(3,4) by (auto simp: times_def within_def uniform_def sorted_times [unfolded times_def])
  note eq = run_is_window_run [OF assms(1-3,6,7)]
  show "int (accepted (answers k cs bs)) \<le> 2 * limit"
    unfolding eq by (rule window_run_quota [OF ts s assms(5) counted_bucket [OF assms(1)]])
  show "live t0 (bucket_of s k) = None \<Longrightarrow> int (accepted (answers k cs bs)) \<le> limit"
    unfolding eq by (rule window_run_quota_new [OF ts s assms(5)])
qed

end

end
