(* ===== verification/RateLimiter.thy ===== *)
theory RateLimiter
  imports GoHeap FixedWindow
begin

text \<open>
  The in-process rate limiter of \<open>internal/httpapi/rate_limiter.go\<close>: buckets by key, and a heap
  of the same buckets by reset instant. The clock is the argument \<open>now\<close> of \<open>rl_Allow\<close>.
\<close>

section \<open>State and heap interface\<close>

record rate_bucket =
  rb_key :: string
  rb_count :: int
  rb_resetAt :: time

record rate_limiter =
  rl_maxKeys :: int
  rl_buckets :: "(string, nat) gomap"
  rl_expiry :: "nat list"
  rl_mem :: "nat \<Rightarrow> rate_bucket"
  rl_next :: nat

definition defaultRateLimiterMaxEntries :: int where
  "defaultRateLimiterMaxEntries = 10000"

definition newRateLimiter :: "rate_limiter" where
  "newRateLimiter =
     \<lparr>rl_maxKeys = defaultRateLimiterMaxEntries, rl_buckets = [], rl_expiry = [],
      rl_mem = (\<lambda>_. \<lparr>rb_key = [], rb_count = 0, rb_resetAt = 0\<rparr>), rl_next = 0\<rparr>"

definition rl_heap_len :: "rate_limiter \<Rightarrow> nat" where
  "rl_heap_len l = length (rl_expiry l)"

definition rl_heap_less :: "rate_limiter \<Rightarrow> nat \<Rightarrow> nat \<Rightarrow> bool" where
  "rl_heap_less l i j =
     (let a = rl_mem l (rl_expiry l ! i); b = rl_mem l (rl_expiry l ! j) in
      if rb_resetAt a = rb_resetAt b then rb_key a < rb_key b else rb_resetAt a < rb_resetAt b)"

definition rl_heap_swap :: "rate_limiter \<Rightarrow> nat \<Rightarrow> nat \<Rightarrow> rate_limiter" where
  "rl_heap_swap l i j = l\<lparr>rl_expiry := swapped (rl_expiry l) i j\<rparr>"

definition rl_heap_push :: "rate_limiter \<Rightarrow> nat \<Rightarrow> rate_limiter" where
  "rl_heap_push l r = l\<lparr>rl_expiry := rl_expiry l @ [r]\<rparr>"

definition rl_heap_pop :: "rate_limiter \<Rightarrow> rate_limiter \<times> nat" where
  "rl_heap_pop l = (l\<lparr>rl_expiry := butlast (rl_expiry l)\<rparr>, last (rl_expiry l))"

section \<open>Operations\<close>

definition rl_removeNextExpiry :: "rate_limiter \<Rightarrow> rate_limiter" where
  "rl_removeNextExpiry l =
     (if rl_expiry l = [] then l
      else case heap_pop rl_heap_less rl_heap_swap rl_heap_len rl_heap_pop l of
        (l1, r) \<Rightarrow> l1\<lparr>rl_buckets := map_del (rb_key (rl_mem l1 r)) (rl_buckets l1)\<rparr>)"

lemma rl_length_removeNext: "length (rl_expiry (rl_removeNextExpiry l)) = length (rl_expiry l) - 1"
  using heap_pop_sift_frame [of "\<lambda>l. length (rl_expiry l)" rl_heap_swap rl_heap_less rl_heap_len l]
  by (simp add: rl_removeNextExpiry_def heap_pop_def rl_heap_pop_def rl_heap_swap_def)

function rl_deleteExpired :: "rate_limiter \<Rightarrow> time \<Rightarrow> rate_limiter" where
  "rl_deleteExpired l now =
     (if rl_expiry l \<noteq> [] \<and> \<not> now < rb_resetAt (rl_mem l (rl_expiry l ! 0))
      then rl_deleteExpired (rl_removeNextExpiry l) now else l)"
  by pat_completeness auto
termination
  by (relation "measure (\<lambda>(l, _). length (rl_expiry l))") (auto simp: rl_length_removeNext)

declare rl_deleteExpired.simps [simp del]

definition rl_Allow :: "rate_limiter \<Rightarrow> string \<Rightarrow> int \<Rightarrow> time \<Rightarrow> time \<Rightarrow> rate_limiter \<times> bool" where
  "rl_Allow l0 key limit window now =
     (if limit \<le> 0 \<or> window \<le> 0 then (l0, True)
      else
        let l = rl_deleteExpired l0 now in
        case map_of (rl_buckets l) key of
          None \<Rightarrow>
            let l1 = (if 0 < rl_maxKeys l \<and> rl_maxKeys l \<le> int (length (rl_buckets l))
                      then rl_removeNextExpiry l else l);
                r = rl_next l1;
                l2 = l1\<lparr>rl_next := Suc r,
                        rl_mem := (rl_mem l1)(r :=
                          \<lparr>rb_key = key, rb_count = 1, rb_resetAt = now + window\<rparr>),
                        rl_buckets := map_set key r (rl_buckets l1)\<rparr>
            in (heap_push rl_heap_less rl_heap_swap rl_heap_len rl_heap_push l2 r, True)
        | Some r \<Rightarrow>
            if limit \<le> rb_count (rl_mem l r) then (l, False)
            else (l\<lparr>rl_mem := (rl_mem l)(r := (rl_mem l r)\<lparr>rb_count := rb_count (rl_mem l r) + 1\<rparr>)\<rparr>,
                  True))"

section \<open>Invariant\<close>

definition rl_key :: "rate_limiter \<Rightarrow> nat \<Rightarrow> heap_key" where
  "rl_key l r = HeapKey (rb_resetAt (rl_mem l r)) (rb_key (rl_mem l r))"

definition rl_keys :: "rate_limiter \<Rightarrow> heap_key list" where
  "rl_keys l = map (rl_key l) (rl_expiry l)"

definition rl_ok :: "rate_limiter \<Rightarrow> bool" where
  "rl_ok l = (distinct (rl_expiry l) \<and> (\<forall>r \<in> set (rl_expiry l). r < rl_next l))"

definition rl_same :: "rate_limiter \<Rightarrow> rate_limiter \<Rightarrow> bool" where
  "rl_same l m =
     (rl_maxKeys m = rl_maxKeys l \<and> rl_buckets m = rl_buckets l \<and> rl_next m = rl_next l \<and>
      rl_mem m = rl_mem l \<and> set (rl_expiry m) = set (rl_expiry l))"

definition rl_inv :: "rate_limiter \<Rightarrow> bool" where
  "rl_inv l =
     (rl_ok l \<and> heap_on (length (rl_expiry l)) (rl_keys l) \<and> wf_map (rl_buckets l) \<and>
      (\<forall>k r. map_of (rl_buckets l) k = Some r \<longleftrightarrow> r \<in> set (rl_expiry l) \<and> rb_key (rl_mem l r) = k) \<and>
      (\<forall>r \<in> set (rl_expiry l). 1 \<le> rb_count (rl_mem l r)))"

definition bucket_of :: "rate_limiter \<Rightarrow> string \<Rightarrow> bucket" where
  "bucket_of l k =
     (case map_of (rl_buckets l) k of
        None \<Rightarrow> None | Some r \<Rightarrow> Some (rb_resetAt (rl_mem l r), rb_count (rl_mem l r)))"

lemma length_rl_keys [simp]: "length (rl_keys l) = length (rl_expiry l)"
  by (simp add: rl_keys_def)

lemma rl_key_cong: "rl_mem m = rl_mem l \<Longrightarrow> rl_key m = rl_key l"
  by (rule ext) (simp add: rl_key_def)

interpretation rl_heap: heap_interface rl_heap_less rl_heap_swap rl_keys rl_ok rl_same rl_heap_len
proof unfold_locales
  fix h i j
  assume ij: "i < length (rl_keys h)" "j < length (rl_keys h)"
  then show "rl_heap_less h i j = (rl_keys h ! i < rl_keys h ! j)"
    by (auto simp: rl_heap_less_def Let_def rl_keys_def rl_key_def less_heap_key_def)
  have "rl_key (rl_heap_swap h i j) = rl_key h"
    by (rule rl_key_cong) (simp add: rl_heap_swap_def)
  then show "rl_keys (rl_heap_swap h i j) = swapped (rl_keys h) i j"
    using ij by (simp add: rl_keys_def) (simp add: rl_heap_swap_def map_swapped)
  show "rl_same h (rl_heap_swap h i j)"
    using ij by (simp add: rl_same_def rl_heap_swap_def set_swapped)
  show "rl_ok h \<Longrightarrow> rl_ok (rl_heap_swap h i j)"
    using ij by (simp add: rl_ok_def rl_heap_swap_def set_swapped distinct_swapped)
qed (auto simp: rl_same_def rl_heap_len_def)

lemma rl_invD:
  assumes "rl_inv l"
  shows "rl_ok l" "heap_on (length (rl_expiry l)) (rl_keys l)" "wf_map (rl_buckets l)"
    "map_of (rl_buckets l) k = Some r \<longleftrightarrow> r \<in> set (rl_expiry l) \<and> rb_key (rl_mem l r) = k"
    "r \<in> set (rl_expiry l) \<Longrightarrow> 1 \<le> rb_count (rl_mem l r)"
  using assms unfolding rl_inv_def by blast+

lemma rl_inv_new: "rl_inv newRateLimiter"
  by (simp add: rl_inv_def newRateLimiter_def rl_ok_def heap_on_def rl_keys_def)

lemma rl_inv_length:
  assumes "rl_inv l"
  shows "length (rl_buckets l) = length (rl_expiry l)"
proof -
  have inj: "inj_on (\<lambda>r. rb_key (rl_mem l r)) (set (rl_expiry l))"
    using rl_invD(4) [OF assms] by (intro inj_onI) (metis option.inject)
  have "dom (map_of (rl_buckets l)) = (\<lambda>r. rb_key (rl_mem l r)) ` set (rl_expiry l)"
    using rl_invD(4) [OF assms] by (auto simp: dom_def)
  then have "length (rl_buckets l) = card ((\<lambda>r. rb_key (rl_mem l r)) ` set (rl_expiry l))"
    using rl_invD(3) [OF assms] by (simp add: length_map_card)
  also have "\<dots> = length (rl_expiry l)"
    using card_image [OF inj] rl_invD(1) [OF assms] by (simp add: rl_ok_def distinct_card)
  finally show ?thesis .
qed

text \<open>What removing the bucket nearest to its reset does.\<close>

lemma rl_removeNext_ok:
  assumes inv: "rl_inv l" and ne: "rl_expiry l \<noteq> []"
  shows "rl_inv (rl_removeNextExpiry l) \<and> rl_maxKeys (rl_removeNextExpiry l) = rl_maxKeys l \<and>
    rl_mem (rl_removeNextExpiry l) = rl_mem l \<and> rl_next (rl_removeNextExpiry l) = rl_next l \<and>
    map_of (rl_buckets (rl_removeNextExpiry l)) =
      (map_of (rl_buckets l))(rb_key (rl_mem l (rl_expiry l ! 0)) := None)"
proof -
  let ?h = "heap_pop_sift rl_heap_less rl_heap_swap rl_heap_len l"
  let ?t = "rl_removeNextExpiry l"
  have h: "rl_ok ?h" "rl_same l ?h" "mset (rl_keys ?h) = mset (rl_keys l)"
      "last (rl_keys ?h) = rl_keys l ! 0" "heap_on (length (rl_keys l) - 1) (rl_keys ?h)"
    using rl_heap.pop_sift_ok [of l] rl_invD(1,2) [OF inv] ne by (simp_all add: rl_keys_def)
  have "rl_expiry ?h \<noteq> []" using h(2) ne by (auto simp: rl_same_def)
  then obtain xs r where x: "rl_expiry ?h = xs @ [r]" by (metis append_butlast_last_id)
  have t: "?t = ?h\<lparr>rl_expiry := xs, rl_buckets := map_del (rb_key (rl_mem l r)) (rl_buckets l)\<rparr>"
    using ne h(2) by (simp add: rl_removeNextExpiry_def heap_pop_def rl_heap_pop_def x rl_same_def)
  have mem: "rl_mem ?t = rl_mem l" "rl_maxKeys ?t = rl_maxKeys l" "rl_next ?t = rl_next l"
    using h(2) by (simp_all add: t rl_same_def)
  have key: "rl_key ?h = rl_key l" "rl_key ?t = rl_key l"
    using h(2) mem by (auto intro!: rl_key_cong simp: rl_same_def)
  have "rl_key l r = rl_key l (rl_expiry l ! 0)"
    using h(4) ne by (simp add: rl_keys_def x key)
  then have kr: "rb_key (rl_mem l r) = rb_key (rl_mem l (rl_expiry l ! 0))"
    by (simp add: rl_key_def)
  have set: "set (rl_expiry l) = insert r (set xs)" "r \<notin> set xs" "distinct xs"
    using h(1,2) x by (auto simp: rl_same_def rl_ok_def)
  have len: "length (rl_keys l) = Suc (length xs)"
    using mset_eq_length [OF h(3)] by (simp add: rl_keys_def x)
  have "map_of (rl_buckets ?t) k = Some q \<longleftrightarrow> q \<in> set xs \<and> rb_key (rl_mem l q) = k" for k q
  proof (cases "k = rb_key (rl_mem l r)")
    case True
    then have "map_of (rl_buckets l) k = Some r" using rl_invD(4) [OF inv] set by blast
    then have "\<not> (q \<in> set xs \<and> rb_key (rl_mem l q) = k)"
      using rl_invD(4) [OF inv, of k q] set by (metis insertCI option.inject)
    then show ?thesis by (simp add: t True)
  next
    case False
    then show ?thesis using rl_invD(4) [OF inv, of k q] set by (auto simp: t)
  qed
  moreover have "heap_on (length xs) (rl_keys ?t)"
    using h(5) len heap_on_append [of "map (rl_key l) xs"] unfolding rl_keys_def key
    by (simp add: x) (simp add: t)
  moreover have "rl_ok ?t" using rl_invD(1) [OF inv] set mem by (auto simp: rl_ok_def t)
  ultimately have "rl_inv ?t"
    unfolding rl_inv_def mem using rl_invD(3,5) [OF inv] set by (simp add: t)
  with mem show ?thesis by (simp add: t kr)
qed

text \<open>After \<open>deleteExpiredLocked\<close> exactly the live buckets are left, unchanged.\<close>

lemma rl_root_least:
  assumes "rl_inv l" "r \<in> set (rl_expiry l)"
  shows "rb_resetAt (rl_mem l (rl_expiry l ! 0)) \<le> rb_resetAt (rl_mem l r)"
proof -
  obtain i where i: "i < length (rl_expiry l)" "rl_expiry l ! i = r"
    using assms(2) by (auto simp: in_set_conv_nth)
  have "rl_keys l ! 0 \<le> rl_keys l ! i"
    using heap_on_root [OF rl_invD(2) [OF assms(1)] i(1)] .
  then have "hk_at (rl_keys l ! 0) \<le> hk_at (rl_keys l ! i)" by (rule heap_key_leD)
  moreover have "0 < length (rl_expiry l)" using i by linarith
  ultimately show ?thesis using i by (simp add: rl_keys_def rl_key_def)
qed

lemma rl_deleteExpired_ok:
  assumes "rl_inv l"
  shows "rl_inv (rl_deleteExpired l now) \<and> rl_maxKeys (rl_deleteExpired l now) = rl_maxKeys l \<and>
    (\<forall>k. bucket_of (rl_deleteExpired l now) k = live now (bucket_of l k))"
  using assms
proof (induction l now rule: rl_deleteExpired.induct)
  case (1 l now)
  let ?r = "rl_expiry l ! 0"
  show ?case
  proof (cases "rl_expiry l \<noteq> [] \<and> \<not> now < rb_resetAt (rl_mem l ?r)")
    case True
    have rem: "rl_inv (rl_removeNextExpiry l)" "rl_maxKeys (rl_removeNextExpiry l) = rl_maxKeys l"
        "rl_mem (rl_removeNextExpiry l) = rl_mem l"
        "map_of (rl_buckets (rl_removeNextExpiry l)) =
           (map_of (rl_buckets l))(rb_key (rl_mem l ?r) := None)"
      using rl_removeNext_ok [OF "1.prems"] True by simp_all
    have step: "rl_deleteExpired l now = rl_deleteExpired (rl_removeNextExpiry l) now"
      using True by (simp add: rl_deleteExpired.simps [of l now])
    have "map_of (rl_buckets l) (rb_key (rl_mem l ?r)) = Some ?r"
      using rl_invD(4) [OF "1.prems"] True by simp
    then have "live now (bucket_of (rl_removeNextExpiry l) k) = live now (bucket_of l k)" for k
      using True by (cases "k = rb_key (rl_mem l ?r)")
        (simp_all add: bucket_of_def rem live_def split: option.split)
    with "1.IH" [OF True] rem True show ?thesis by (simp add: step)
  next
    case False
    have "now < rb_resetAt (rl_mem l r)" if "r \<in> set (rl_expiry l)" for r
      using rl_root_least [OF "1.prems" that] False that by (cases "rl_expiry l") auto
    then have "bucket_of l k = live now (bucket_of l k)" for k
      using rl_invD(4) [OF "1.prems"] by (auto simp: bucket_of_def live_def split: option.splits)
    moreover have "rl_deleteExpired l now = l"
      by (subst rl_deleteExpired.simps) (rule if_not_P [OF False])
    ultimately show ?thesis using "1.prems" by simp
  qed
qed

lemma rl_push_ok:
  fixes at :: time
  assumes inv: "rl_inv l" and none: "map_of (rl_buckets l) key = None"
  defines "r \<equiv> rl_next l"
  defines "l2 \<equiv> l\<lparr>rl_next := Suc r,
                  rl_mem := (rl_mem l)(r := \<lparr>rb_key = key, rb_count = 1, rb_resetAt = at\<rparr>),
                  rl_buckets := map_set key r (rl_buckets l)\<rparr>"
  defines "t \<equiv> heap_push rl_heap_less rl_heap_swap rl_heap_len rl_heap_push l2 r"
  shows "rl_inv t \<and> rl_maxKeys t = rl_maxKeys l \<and> bucket_of t key = Some (at, 1) \<and>
    (\<forall>k. k \<noteq> key \<longrightarrow> bucket_of t k = bucket_of l k)"
proof -
  let ?l3 = "rl_heap_push l2 r"
  have fresh: "q \<in> set (rl_expiry l) \<Longrightarrow> q < r" for q
    using rl_invD(1) [OF inv] by (auto simp: rl_ok_def r_def)
  have exp: "rl_expiry ?l3 = rl_expiry l @ [r]" by (simp add: rl_heap_push_def l2_def)
  have mem3: "rl_mem ?l3 = (rl_mem l)(r := \<lparr>rb_key = key, rb_count = 1, rb_resetAt = at\<rparr>)"
    by (simp add: rl_heap_push_def l2_def)
  have "map (rl_key ?l3) (rl_expiry l) = rl_keys l"
    unfolding rl_keys_def using fresh by (intro map_cong) (auto simp: rl_key_def mem3)
  then have k: "rl_keys ?l3 = rl_keys l @ [HeapKey at key]"
    by (simp add: rl_keys_def exp rl_key_def mem3)
  have ok: "rl_ok ?l3"
    using rl_invD(1) [OF inv] fresh unfolding rl_ok_def exp
    by (auto simp: rl_heap_push_def l2_def less_Suc_eq)
  have t: "t = heap_up rl_heap_less rl_heap_swap ?l3 (rl_heap_len ?l3 - 1)"
    by (simp add: t_def heap_push_def Let_def)
  have p: "rl_ok t" "rl_same ?l3 t" "heap_on (length (rl_keys t)) (rl_keys t)"
    using rl_heap.push_ok [OF ok k] rl_invD(2) [OF inv] unfolding t by simp_all
  have same: "rl_buckets t = map_set key r (rl_buckets l)" "rl_mem t = rl_mem ?l3"
      "set (rl_expiry t) = insert r (set (rl_expiry l))" "rl_maxKeys t = rl_maxKeys l"
    using p(2) by (auto simp: rl_same_def exp) (auto simp: rl_heap_push_def l2_def)
  have nk: "rb_key (rl_mem l q) \<noteq> key" if "q \<in> set (rl_expiry l)" for q
    using rl_invD(4) [OF inv] none that by (metis option.distinct(1))
  have rec: "map_of (rl_buckets t) k = Some q \<longleftrightarrow> q \<in> set (rl_expiry t) \<and> rb_key (rl_mem t q) = k" for k q
    using rl_invD(4) [OF inv, of k q] nk fresh [of q] unfolding same mem3 by auto
  have cnt: "\<forall>q \<in> set (rl_expiry t). 1 \<le> rb_count (rl_mem t q)"
    using rl_invD(5) [OF inv] fresh unfolding same mem3 by auto
  from rec cnt p have "rl_inv t"
    using rl_invD(3) [OF inv] unfolding rl_inv_def by (simp add: same(1))
  moreover have "bucket_of t k = bucket_of l k" if "k \<noteq> key" for k
  proof (cases "map_of (rl_buckets l) k")
    case (Some q)
    then have "q \<noteq> r" using rl_invD(4) [OF inv] fresh by blast
    with Some that show ?thesis by (simp add: bucket_of_def same mem3)
  qed (use that in \<open>simp add: bucket_of_def same\<close>)
  ultimately show ?thesis by (simp add: same(4)) (simp add: bucket_of_def same mem3)
qed

lemma rl_count_ok:
  assumes "rl_inv l"
  shows "rl_inv (l\<lparr>rl_mem := (rl_mem l)(r := (rl_mem l r)\<lparr>rb_count := rb_count (rl_mem l r) + 1\<rparr>)\<rparr>)"
    (is "rl_inv ?t")
proof -
  have "rl_key ?t = rl_key l" by (rule ext) (simp add: rl_key_def)
  then have "rl_keys ?t = rl_keys l" by (simp add: rl_keys_def)
  then show ?thesis
    using assms unfolding rl_inv_def by (auto simp: rl_ok_def)
qed

section \<open>The fixed window contract\<close>

definition rl_call :: "rate_limiter \<Rightarrow> limit_call \<Rightarrow> rate_limiter \<times> bool" where
  "rl_call l c = rl_Allow l (lc_key c) (lc_limit c) (lc_window c) (lc_now c)"

text \<open>A call is served without eviction when its key has a bucket or the table has room.\<close>

definition rl_room :: "rate_limiter \<Rightarrow> limit_call \<Rightarrow> bool" where
  "rl_room l0 c =
     (let l = rl_deleteExpired l0 (lc_now c) in
      map_of (rl_buckets l) (lc_key c) \<noteq> None \<or> rl_maxKeys l \<le> 0 \<or>
      int (length (rl_buckets l)) < rl_maxKeys l)"

definition rl_make_room :: "rate_limiter \<Rightarrow> rate_limiter" where
  "rl_make_room l =
     (if 0 < rl_maxKeys l \<and> rl_maxKeys l \<le> int (length (rl_buckets l))
      then rl_removeNextExpiry l else l)"

lemma rl_make_room_ok:
  assumes "rl_inv l"
  shows "rl_inv (rl_make_room l)" "rl_maxKeys (rl_make_room l) = rl_maxKeys l"
    "map_of (rl_buckets l) k = None \<Longrightarrow> map_of (rl_buckets (rl_make_room l)) k = None"
proof -
  have "0 < rl_maxKeys l \<Longrightarrow> rl_maxKeys l \<le> int (length (rl_buckets l)) \<Longrightarrow> rl_expiry l \<noteq> []"
    using rl_inv_length [OF assms] by auto
  then show "rl_inv (rl_make_room l)" "rl_maxKeys (rl_make_room l) = rl_maxKeys l"
    "map_of (rl_buckets l) k = None \<Longrightarrow> map_of (rl_buckets (rl_make_room l)) k = None"
    using rl_removeNext_ok [OF assms] assms by (auto simp: rl_make_room_def)
qed

text \<open>The three outcomes of a call: a new bucket, a refusal, a counted call.\<close>

lemma rl_call_ok:
  assumes inv: "rl_inv l0" and pos: "0 < lc_limit c" "0 < lc_window c"
    and call: "rl_call l0 c = (t, b)"
  defines "l \<equiv> rl_deleteExpired l0 (lc_now c)"
  shows "rl_inv t" (is ?inv)
    and "rl_maxKeys t = rl_maxKeys l0" (is ?max)
    and "window_allow (lc_limit c) (lc_window c) (lc_now c) (bucket_of l0 (lc_key c)) =
      (bucket_of t (lc_key c), b)" (is ?win)
    and "k \<noteq> lc_key c \<Longrightarrow> bucket_of t k =
      (if map_of (rl_buckets l) (lc_key c) = None then bucket_of (rl_make_room l) k else bucket_of l k)"
    (is "_ \<Longrightarrow> ?other")
proof -
  have l: "rl_inv l" "rl_maxKeys l = rl_maxKeys l0" "\<And>k. bucket_of l k = live (lc_now c) (bucket_of l0 k)"
    using rl_deleteExpired_ok [OF inv, of "lc_now c"] by (simp_all add: l_def)
  have w: "window_allow (lc_limit c) (lc_window c) (lc_now c) (bucket_of l0 (lc_key c)) =
      window_allow (lc_limit c) (lc_window c) (lc_now c) (bucket_of l (lc_key c))"
    by (simp add: l(3) window_allow_live)
  have lv: "live (lc_now c) (bucket_of l (lc_key c)) = bucket_of l (lc_key c)" by (simp add: l(3))
  have "?inv \<and> ?max \<and> ?win \<and> (k \<noteq> lc_key c \<longrightarrow> ?other)"
  proof (cases "map_of (rl_buckets l) (lc_key c)")
    case None
    note room = rl_make_room_ok [OF l(1)]
    note push = rl_push_ok [OF room(1) room(3) [OF None], of "lc_now c + lc_window c"]
    from None have t: "b" "t = heap_push rl_heap_less rl_heap_swap rl_heap_len rl_heap_push
        ((rl_make_room l)\<lparr>rl_next := Suc (rl_next (rl_make_room l)),
          rl_mem := (rl_mem (rl_make_room l))(rl_next (rl_make_room l) :=
            \<lparr>rb_key = lc_key c, rb_count = 1, rb_resetAt = lc_now c + lc_window c\<rparr>),
          rl_buckets := map_set (lc_key c) (rl_next (rl_make_room l)) (rl_buckets (rl_make_room l))\<rparr>)
        (rl_next (rl_make_room l))"
      using call pos by (simp_all add: rl_call_def rl_Allow_def Let_def l_def rl_make_room_def)
    have "live (lc_now c) (bucket_of l (lc_key c)) = None"
      using None by (simp add: bucket_of_def live_def)
    then have "?win" using push t unfolding w unfolding window_allow_def by simp
    with push None show ?thesis by (simp add: t(2) room(2) l(2))
  next
    case (Some r)
    then have b: "bucket_of l (lc_key c) = Some (rb_resetAt (rl_mem l r), rb_count (rl_mem l r))"
      by (simp add: bucket_of_def)
    have r: "r \<in> set (rl_expiry l)" "rb_key (rl_mem l r) = lc_key c"
      using rl_invD(4) [OF l(1)] Some by blast+
    show ?thesis
    proof (cases "lc_limit c \<le> rb_count (rl_mem l r)")
      case True
      with Some have t: "t = l" "\<not> b"
        using call pos by (simp_all add: rl_call_def rl_Allow_def Let_def l_def)
      have "?win" using True lv unfolding w unfolding window_allow_def by (simp add: b t)
      with l Some show ?thesis by (simp add: t)
    next
      case False
      with Some have t: "t = l\<lparr>rl_mem := (rl_mem l)(r := (rl_mem l r)\<lparr>rb_count := rb_count (rl_mem l r) + 1\<rparr>)\<rparr>" "b"
        using call pos by (simp_all add: rl_call_def rl_Allow_def Let_def l_def)
      have "?win" using False lv unfolding w unfolding window_allow_def by (simp add: b t(2)) (simp add: t(1) bucket_of_def Some)
      moreover have "rl_inv t" unfolding t(1) by (rule rl_count_ok [OF l(1)])
      moreover have "k \<noteq> lc_key c \<Longrightarrow> bucket_of t k = bucket_of l k"
      proof (cases "map_of (rl_buckets l) k")
        case (Some q)
        assume "k \<noteq> lc_key c"
        then have "q \<noteq> r" using r(2) rl_invD(4) [OF l(1), of k q] Some by auto
        with Some show ?thesis by (simp add: t(1) bucket_of_def)
      qed (simp add: t(1) bucket_of_def)
      ultimately show ?thesis using Some by (simp add: t(1) l(2))
    qed
  qed
  then show ?inv ?max ?win "k \<noteq> lc_key c \<Longrightarrow> ?other" by simp_all
qed

interpretation rl: fixed_window rl_call bucket_of rl_inv rl_room
  "\<lambda>c. 0 < lc_limit c \<and> 0 < lc_window c"
proof unfold_locales
  fix s t :: rate_limiter and c :: limit_call and b and k :: string
  assume inv: "rl_inv s" and "0 < lc_limit c \<and> 0 < lc_window c"
  then have pos: "0 < lc_limit c" "0 < lc_window c" by simp_all
  show "rl_inv (fst (rl_call s c))"
    using rl_call_ok(1) [OF inv pos] by (metis prod.collapse)
  assume call: "rl_call s c = (t, b)"
  show "window_allow (lc_limit c) (lc_window c) (lc_now c) (bucket_of s (lc_key c)) =
      (bucket_of t (lc_key c), b)"
    by (rule rl_call_ok(3) [OF inv pos call])
  assume room: "rl_room s c" and k: "k \<noteq> lc_key c"
  let ?l = "rl_deleteExpired s (lc_now c)"
  have "map_of (rl_buckets ?l) (lc_key c) = None \<Longrightarrow> rl_make_room ?l = ?l"
    using room by (auto simp: rl_room_def rl_make_room_def Let_def)
  then have "bucket_of t k = bucket_of ?l k"
    using rl_call_ok(4) [OF inv pos call k] by auto
  then show "live (lc_now c) (bucket_of t k) = live (lc_now c) (bucket_of s k)"
    using rl_deleteExpired_ok [OF inv] by simp
next
  fix s :: rate_limiter and k
  assume "rl_inv s"
  then show "counted (bucket_of s k)"
    using rl_invD(4,5) by (fastforce simp: counted_def bucket_of_def split: option.split)
qed

lemma rl_call_pass: "\<not> (0 < lc_limit c \<and> 0 < lc_window c) \<Longrightarrow> rl_call l c = (l, True)"
  by (simp add: rl_call_def rl_Allow_def not_less)

lemma rl_call_length:
  assumes inv: "rl_inv l" and max: "0 < rl_maxKeys l" "int (length (rl_buckets l)) \<le> rl_maxKeys l"
    and call: "rl_call l c = (t, b)"
  shows "rl_inv t \<and> rl_maxKeys t = rl_maxKeys l \<and> int (length (rl_buckets t)) \<le> rl_maxKeys l"
proof (cases "0 < lc_limit c \<and> 0 < lc_window c")
  case False
  then show ?thesis using assms by (simp add: rl_call_pass)
next
  case True
  let ?l = "rl_deleteExpired l (lc_now c)"
  note ok = rl_call_ok [OF inv _ _ call] 
  have l: "rl_inv ?l" "rl_maxKeys ?l = rl_maxKeys l" using rl_deleteExpired_ok [OF inv] by simp_all
  have dom: "dom (map_of (rl_buckets m)) = {k. bucket_of m k \<noteq> None}" for m
    by (auto simp: bucket_of_def split: option.splits)
  have len: "length (rl_buckets m) = card {k. bucket_of m k \<noteq> None}" if "rl_inv m" for m
    using rl_invD(3) [OF that] by (simp add: length_map_card dom)
  have fin: "finite {k. bucket_of m k \<noteq> None}" for m
    using finite_dom_map_of [of "rl_buckets m"] by (simp add: dom)
  have le: "length (rl_buckets ?l) \<le> length (rl_buckets l)"
    unfolding len [OF inv] len [OF l(1)] using rl_deleteExpired_ok [OF inv, of "lc_now c"]
    by (intro card_mono fin) (auto simp: live_def split: option.splits)
  show ?thesis
  proof (cases "map_of (rl_buckets ?l) (lc_key c)")
    case None
    let ?m = "rl_make_room ?l"
    note m = rl_make_room_ok [OF l(1)]
    have "int (length (rl_buckets ?m)) < rl_maxKeys l"
    proof (cases "rl_maxKeys l \<le> int (length (rl_buckets ?l))")
      case False
      then show ?thesis using l by (simp add: rl_make_room_def)
    next
      case True
      then have "?m = rl_removeNextExpiry ?l" using max l by (simp add: rl_make_room_def)
      then show ?thesis
        using rl_inv_length [OF m(1)] rl_inv_length [OF l(1)] rl_length_removeNext [of ?l] le max True
        by simp
    qed
    moreover have "{k. bucket_of t k \<noteq> None} \<subseteq> insert (lc_key c) {k. bucket_of ?m k \<noteq> None}"
      using ok(4) True None by auto
    from card_mono [OF _ this] have "length (rl_buckets t) \<le> Suc (length (rl_buckets ?m))"
      unfolding len [OF m(1)] len [OF ok(1) [OF conjunct1 [OF True] conjunct2 [OF True]]]
      using fin [of ?m] by (simp add: card_insert_if split: if_splits)
    ultimately show ?thesis using ok True by simp
  next
    case (Some r)
    have "{k. bucket_of t k \<noteq> None} \<subseteq> {k. bucket_of ?l k \<noteq> None}"
    proof
      fix k
      assume t: "k \<in> {k. bucket_of t k \<noteq> None}"
      show "k \<in> {k. bucket_of ?l k \<noteq> None}"
      proof (cases "k = lc_key c")
        case False
        with ok(4) [of k] True Some have "bucket_of t k = bucket_of ?l k" by simp
        with t show ?thesis by simp
      qed (simp add: bucket_of_def Some)
    qed
    then have "length (rl_buckets t) \<le> length (rl_buckets ?l)"
      unfolding len [OF l(1)] len [OF ok(1) [OF conjunct1 [OF True] conjunct2 [OF True]]]
      by (intro card_mono fin)
    with ok True le max show ?thesis by simp
  qed
qed

lemma rl_run_length:
  assumes "rl_inv l" "0 < rl_maxKeys l" "int (length (rl_buckets l)) \<le> rl_maxKeys l"
  shows "rl_inv (fst (limit_run rl_call l cs)) \<and>
    int (length (rl_buckets (fst (limit_run rl_call l cs)))) \<le> rl_maxKeys l"
  using assms
proof (induction cs arbitrary: l)
  case (Cons c cs)
  obtain t b where call: "rl_call l c = (t, b)" by fastforce
  note step = rl_call_length [OF Cons.prems call]
  then have "rl_inv (fst (limit_run rl_call t cs)) \<and>
      int (length (rl_buckets (fst (limit_run rl_call t cs)))) \<le> rl_maxKeys t"
    using Cons.prems by (intro Cons.IH) auto
  moreover have "rl_maxKeys t = rl_maxKeys l" using step by blast
  ultimately show ?case by (simp add: call fst_limit_run_Cons del: limit_run.simps)
qed simp

lemma newRateLimiter_simps [simp]:
  "rl_maxKeys newRateLimiter = 10000" "rl_buckets newRateLimiter = []" "bucket_of newRateLimiter k = None"
  by (simp_all add: newRateLimiter_def defaultRateLimiterMaxEntries_def bucket_of_def)

section \<open>Properties\<close>

text \<open>
  Whatever calls it has served, the in-process rate limiter holds at most
  \<open>defaultRateLimiterMaxEntries\<close> buckets: a flood of client addresses cannot grow it.
\<close>

theorem rate_limiter_bounded:
  "int (length (rl_buckets (fst (limit_run rl_call newRateLimiter cs)))) \<le> defaultRateLimiterMaxEntries"
  using rl_run_length [OF rl_inv_new, of cs] by (simp add: defaultRateLimiterMaxEntries_def)

text \<open>
  C14: While the limiter has room for the keys it serves, the answers to one key are exactly those
  of the fixed window of that key alone: buckets of other keys, the heap and the purge of expired
  buckets have no effect on them.
\<close>

theorem rate_limiter_is_fixed_window:
  assumes "roomy rl_call rl_room newRateLimiter cs" and "uniform k limit window cs"
    and "limit_run rl_call newRateLimiter cs = (l, bs)"
  shows "answers k cs bs = window_run limit window None (times k cs)"
  using rl.run_is_window_run [OF rl_inv_new assms uniform_served [OF assms(2)]] by simp

definition flood :: "limit_call list" where
  "flood = [\<lparr>lc_key = ''a'', lc_limit = 1, lc_window = 10, lc_now = 0\<rparr>,
            \<lparr>lc_key = ''b'', lc_limit = 5, lc_window = 20, lc_now = 3\<rparr>,
            \<lparr>lc_key = ''a'', lc_limit = 1, lc_window = 10, lc_now = 9\<rparr>,
            \<lparr>lc_key = ''a'', lc_limit = 1, lc_window = 10, lc_now = 10\<rparr>]"

lemma flood_ok:
  "roomy rl_call rl_room newRateLimiter flood" "snd (limit_run rl_call newRateLimiter flood) = [True, True, False, True]"
  "uniform ''a'' 1 10 flood" 
  by code_simp+

theorem rate_limiter_is_fixed_window_witness:
  "window_run 1 10 None [0, 9, 10] = [True, False, True]"
proof -
  obtain l where run: "limit_run rl_call newRateLimiter flood = (l, [True, True, False, True])"
    using flood_ok(2) by (metis prod.collapse)
  from rate_limiter_is_fixed_window [OF flood_ok(1,3) this] show ?thesis
    by (simp add: flood_def answers_def times_def)
qed

text \<open>
  After any history, the calls of one key within a span shorter than the window are accepted
  at most twice the limit, and at most the limit when no bucket of the key is live at the start of
  the span.
\<close>

theorem rate_limiter_quota:
  assumes "l = fst (limit_run rl_call newRateLimiter before)"
    and "roomy rl_call rl_room l cs" and "uniform k limit window cs" and "within t0 window cs"
    and "0 < limit" and "limit_run rl_call l cs = (l', bs)"
  shows "int (accepted (answers k cs bs)) \<le> (if live t0 (bucket_of l k) = None then limit else 2 * limit)"
  using rl.quota [OF _ assms(2-6) uniform_served [OF assms(3)]] rl_run_length [OF rl_inv_new, of before] assms(1) by simp

theorem rate_limiter_quota_witness:
  "\<exists>l bs. limit_run rl_call newRateLimiter (take 3 flood) = (l, bs) \<and>
     int (accepted (answers ''a'' (take 3 flood) bs)) \<le> 1"
proof -
  obtain l bs where run: "limit_run rl_call newRateLimiter (take 3 flood) = (l, bs)" by fastforce
  have "roomy rl_call rl_room newRateLimiter (take 3 flood)" "uniform ''a'' 1 10 (take 3 flood)"
      "within 0 10 (take 3 flood)" by code_simp+
  from rate_limiter_quota [of _ "[]", OF _ this _ run] run show ?thesis by (simp add: live_def)
qed

end
