(* ===== verification/Version.thy ===== *)
theory Version
  imports Prelude
begin

text \<open>
  Module versions: \<open>internal/domain/version.go\<close>, \<open>internal/store/version.go\<close> and the order key
  of \<open>internal/store/release_pagination.go\<close>. The package \<open>golang.org/x/mod/semver\<close> is not part
  of the repository: it is the parameter \<open>sv\<close> of the definitions, and the locale
  \<open>semver_package\<close> states what its documentation promises.
\<close>

record semver =
  sv_IsValid :: "string \<Rightarrow> bool"
  sv_Canonical :: "string \<Rightarrow> string"
  sv_Compare :: "string \<Rightarrow> string \<Rightarrow> int"

section \<open>The code\<close>

definition normalizeVersionText :: "string \<Rightarrow> string" where
  "normalizeVersionText value = trim_space value"

definition normalizedSemanticVersion :: "semver \<Rightarrow> string \<Rightarrow> string \<times> bool" where
  "normalizedSemanticVersion sv value =
     (let normalized = normalizeVersionText value in
      if normalized = [] then ([], False)
      else
        let normalized' = (if has_prefix normalized ''v'' then normalized else ''v'' @ normalized)
        in (normalized', sv_IsValid sv normalized'))"

definition CompareVersions :: "semver \<Rightarrow> string \<Rightarrow> string \<Rightarrow> int" where
  "CompareVersions sv left right =
     (let (leftNormalized, leftValid) = normalizedSemanticVersion sv left;
          (rightNormalized, rightValid) = normalizedSemanticVersion sv right in
      if leftValid \<and> rightValid then sv_Compare sv leftNormalized rightNormalized
      else if leftValid then 1
      else if rightValid then -1
      else string_Compare (normalizeVersionText left) (normalizeVersionText right))"

definition ValidModuleVersion :: "semver \<Rightarrow> string \<Rightarrow> bool" where
  "ValidModuleVersion sv value =
     (if value = [] \<or> value \<noteq> trim_space value \<or> has_prefix value ''v'' then False
      else
        let core = (case cut CHR ''+'' value of (before, _, found) \<Rightarrow> if found then before else value);
            core' = (case cut CHR ''-'' core of (before, _, found) \<Rightarrow> if found then before else core)
        in length (filter (\<lambda>c. c = CHR ''.'') core') = 2 \<and> sv_IsValid sv (''v'' @ value))"

definition latestVersion :: "semver \<Rightarrow> string list \<Rightarrow> string" where
  "latestVersion sv versions =
     (case versions of
        [] \<Rightarrow> []
      | v # vs \<Rightarrow>
          foldl (\<lambda>latest version. if 0 < CompareVersions sv version latest then version else latest) v vs)"

definition latestVersionWithCandidate :: "semver \<Rightarrow> string \<Rightarrow> string \<Rightarrow> string" where
  "latestVersionWithCandidate sv current candidate =
     (if trim_space current = [] then candidate
      else if 0 < CompareVersions sv candidate current then candidate
      else current)"

definition encode_part :: "nat \<Rightarrow> string \<Rightarrow> string" where
  "encode_part w part = decimal_padded w (length part) @ part @ ''!''"

text \<open>\<open>w\<close> is the width of the length field, 10 in the code.\<close>

definition version_key :: "nat \<Rightarrow> semver \<Rightarrow> string \<Rightarrow> string" where
  "version_key w sv version0 =
     (let version = trim_space version0;
          canonical = sv_Canonical sv (''v'' @ trim_prefix version ''v'') in
      if canonical = [] then ''0'' @ version
      else
        let (core, pre, _) = cut CHR ''-'' (trim_prefix canonical ''v'') in
        ''1'' @ concat (map (encode_part w) (split_on CHR ''.'' core)) @
        (if pre = [] then ''1''
         else ''0'' @ concat (map (\<lambda>part. if digits part then ''0'' @ encode_part w part
                                        else ''1'' @ part @ ''!'') (split_on CHR ''.'' pre))))"

definition releaseVersionOrder :: "semver \<Rightarrow> string \<Rightarrow> string" where
  "releaseVersionOrder sv version = version_key 10 sv version"

section \<open>Semantic versions\<close>

text \<open>
  The grammar \<open>vMAJOR[.MINOR[.PATCH[-PRERELEASE][+BUILD]]]\<close> and the precedence of semver.org,
  as the documentation of the package gives them.
\<close>

datatype sem_version = SemVersion (sv_core: "string list") (sv_pre: "string list")

definition numeric_id :: "string \<Rightarrow> bool" where
  "numeric_id s = (s \<noteq> [] \<and> digits s \<and> (hd s = CHR ''0'' \<longrightarrow> length s = 1))"

definition ident_char :: "char \<Rightarrow> bool" where
  "ident_char c =
     (is_digit c \<or> CHR ''A'' \<le> c \<and> c \<le> CHR ''Z'' \<or> CHR ''a'' \<le> c \<and> c \<le> CHR ''z'' \<or> c = CHR ''-'')"

definition build_ident :: "string \<Rightarrow> bool" where
  "build_ident s = (s \<noteq> [] \<and> (\<forall>c \<in> set s. ident_char c))"

definition pre_ident :: "string \<Rightarrow> bool" where
  "pre_ident s = (build_ident s \<and> (digits s \<longrightarrow> numeric_id s))"

definition wf_sem :: "sem_version \<Rightarrow> bool" where
  "wf_sem x =
     (length (sv_core x) = 3 \<and> (\<forall>p \<in> set (sv_core x). numeric_id p) \<and> (\<forall>p \<in> set (sv_pre x). pre_ident p))"

definition render :: "sem_version \<Rightarrow> string" where
  "render x =
     ''v'' @ join_on CHR ''.'' (sv_core x) @
     (if sv_pre x = [] then [] else ''-'' @ join_on CHR ''.'' (sv_pre x))"

definition sem_of :: "string \<Rightarrow> sem_version option" where
  "sem_of v =
     (case v of
        [] \<Rightarrow> None
      | c # s \<Rightarrow>
          let (s', build, hasBuild) = cut CHR ''+'' s;
              (core, pre, hasPre) = cut CHR ''-'' s';
              parts = split_on CHR ''.'' core;
              pres = (if hasPre then split_on CHR ''.'' pre else [])
          in if c = CHR ''v'' \<and> length parts \<le> 3 \<and> list_all numeric_id parts \<and>
                (hasBuild \<or> hasPre \<longrightarrow> length parts = 3) \<and> list_all pre_ident pres \<and>
                (hasBuild \<longrightarrow> list_all build_ident (split_on CHR ''.'' build))
             then Some (SemVersion (parts @ replicate (3 - length parts) ''0'') pres) else None)"

text \<open>Precedence: numeric fields by value, a prerelease below its release, identifiers in turn.\<close>

definition num_Compare :: "string \<Rightarrow> string \<Rightarrow> int" where
  "num_Compare a b = nat_Compare (digits_val a) (digits_val b)"

definition ident_Compare :: "string \<Rightarrow> string \<Rightarrow> int" where
  "ident_Compare p q =
     (if digits p \<and> digits q then num_Compare p q
      else if digits p then -1 else if digits q then 1 else string_Compare p q)"

fun fields_Compare :: "(string \<Rightarrow> string \<Rightarrow> int) \<Rightarrow> string list \<Rightarrow> string list \<Rightarrow> int" where
  "fields_Compare cmp [] [] = 0"
| "fields_Compare cmp [] (q # qs) = -1"
| "fields_Compare cmp (p # ps) [] = 1"
| "fields_Compare cmp (p # ps) (q # qs) = cmp_then (cmp p q) (fields_Compare cmp ps qs)"

definition pre_Compare :: "string list \<Rightarrow> string list \<Rightarrow> int" where
  "pre_Compare ps qs =
     (if ps = [] \<and> qs = [] then 0 else if ps = [] then 1 else if qs = [] then -1
      else fields_Compare ident_Compare ps qs)"

definition precedence :: "sem_version \<Rightarrow> sem_version \<Rightarrow> int" where
  "precedence x y =
     cmp_then (fields_Compare num_Compare (sv_core x) (sv_core y)) (pre_Compare (sv_pre x) (sv_pre y))"

section \<open>The order key\<close>

lemma numeric_id_lower: "numeric_id s \<Longrightarrow> 1 < length s \<Longrightarrow> 10 ^ (length s - 1) \<le> digits_val s"
proof (cases s)
  case (Cons c t)
  assume "numeric_id s" "1 < length s"
  then have "c \<noteq> CHR ''0''" "is_digit c" by (auto simp: numeric_id_def Cons)
  then have "1 \<le> digit_val c"
    using digit_val_inj [of c "CHR ''0''"] by (cases "digit_val c") (auto simp: digit_val_def is_digit_def)
  from mult_le_mono1 [OF this, of "10 ^ length t"] show ?thesis by (simp add: Cons trans_le_add1)
qed simp

lemma numeric_id_length_less:
  assumes "numeric_id a" "numeric_id b" "length a < length b"
  shows "digits_val a < digits_val b"
proof -
  have "digits_val a < 10 ^ length a" using assms(1) digits_val_bound by (simp add: numeric_id_def)
  also have "\<dots> \<le> 10 ^ (length b - 1)" using assms(3) by (intro power_increasing) auto
  also have "\<dots> \<le> digits_val b"
    using assms numeric_id_lower [of b] by (cases a) (auto simp: numeric_id_def)
  finally show ?thesis .
qed

lemma encode_part_Compare:
  assumes a: "numeric_id a" "length a < 10 ^ w" and b: "numeric_id b" "length b < 10 ^ w" and w: "0 < w"
  shows "string_Compare (encode_part w a @ r) (encode_part w b @ s) =
    cmp_then (num_Compare a b) (string_Compare r s)"
proof -
  note pa = decimal_padded_ok [OF a(2) w] and pb = decimal_padded_ok [OF b(2) w]
  have "string_Compare (decimal_padded w (length a)) (decimal_padded w (length b)) =
      nat_Compare (length a) (length b)"
    using digits_Compare [of "decimal_padded w (length a)" "decimal_padded w (length b)"] pa pb by simp
  then have eq: "string_Compare (encode_part w a @ r) (encode_part w b @ s) =
      cmp_then (nat_Compare (length a) (length b)) (string_Compare (a @ ''!'' @ r) (b @ ''!'' @ s))"
    by (simp add: encode_part_def string_Compare_same_length pa pb)
  show ?thesis
  proof (cases "length a = length b")
    case True
    then have "string_Compare (a @ ''!'' @ r) (b @ ''!'' @ s) = cmp_then (num_Compare a b) (string_Compare r s)"
      using a b digits_Compare [OF True] by (simp add: string_Compare_same_length num_Compare_def numeric_id_def)
    with eq True show ?thesis by (simp add: nat_Compare_def)
  next
    case False
    then have "nat_Compare (length a) (length b) = num_Compare a b"
      using numeric_id_length_less [OF a(1) b(1)] numeric_id_length_less [OF b(1) a(1)]
      by (auto simp: nat_Compare_def num_Compare_def)
    moreover have "nat_Compare (length a) (length b) \<noteq> 0" using False by (simp add: nat_Compare_def)
    ultimately show ?thesis using eq by (simp add: cmp_then_def)
  qed
qed

lemma core_Compare:
  assumes "0 < w"
  shows "length ps = length qs \<Longrightarrow>
    \<forall>p \<in> set ps \<union> set qs. numeric_id p \<and> length p < 10 ^ w \<Longrightarrow>
    string_Compare (concat (map (encode_part w) ps) @ r) (concat (map (encode_part w) qs) @ s) =
      cmp_then (fields_Compare num_Compare ps qs) (string_Compare r s)"
  by (induction ps qs rule: list_induct2) (simp_all add: encode_part_Compare assms cmp_then_assoc)

definition encode_pre :: "nat \<Rightarrow> string \<Rightarrow> string" where
  "encode_pre w part = (if digits part then ''0'' @ encode_part w part else ''1'' @ part @ ''!'')"

lemma ident_char_above: "ident_char c \<Longrightarrow> CHR ''!'' < c \<and> c \<noteq> CHR ''.'' \<and> c \<noteq> CHR ''+'' \<and> graphic c"
  by (auto simp: ident_char_def is_digit_def less_eq_char_def less_char_def graphic_def)

lemma encode_pre_Compare:
  assumes "pre_ident p" "length p < 10 ^ w" "pre_ident q" "length q < 10 ^ w" "0 < w"
  shows "string_Compare (encode_pre w p @ r) (encode_pre w q @ s) =
    cmp_then (ident_Compare p q) (string_Compare r s)"
proof -
  have "\<forall>c \<in> set p \<union> set q. CHR ''!'' < c"
    using assms ident_char_above by (auto simp: pre_ident_def build_ident_def)
  then show ?thesis
    using assms by (auto simp: encode_pre_def ident_Compare_def pre_ident_def encode_part_Compare
        string_Compare_delimited)
qed

lemma encode_pre_nonempty: "\<exists>c t. encode_pre w p = c # t"
  by (simp add: encode_pre_def)

lemma pre_fields_Compare:
  assumes "0 < w"
  shows "\<forall>p \<in> set ps \<union> set qs. pre_ident p \<and> length p < 10 ^ w \<Longrightarrow>
    string_Compare (concat (map (encode_pre w) ps)) (concat (map (encode_pre w) qs)) =
      fields_Compare ident_Compare ps qs"
proof (induction ps arbitrary: qs)
  case Nil
  show ?case
  proof (cases qs)
    case (Cons q qs')
    obtain c t where "encode_pre w q = c # t" using encode_pre_nonempty by metis
    then show ?thesis by (simp add: Cons)
  qed simp
next
  case (Cons p ps)
  show ?case
  proof (cases qs)
    case Nil
    obtain c t where "encode_pre w p = c # t" using encode_pre_nonempty by metis
    then show ?thesis by (simp add: Nil)
  next
    case (Cons q qs')
    then show ?thesis using Cons.prems Cons.IH [of qs'] by (simp add: encode_pre_Compare assms)
  qed
qed

text \<open>The key of a valid version, from its fields.\<close>

definition sem_key :: "nat \<Rightarrow> sem_version \<Rightarrow> string" where
  "sem_key w x =
     ''1'' @ concat (map (encode_part w) (sv_core x)) @
     (if sv_pre x = [] then ''1'' else ''0'' @ concat (map (encode_pre w) (sv_pre x)))"

definition short_fields :: "nat \<Rightarrow> sem_version \<Rightarrow> bool" where
  "short_fields w x = (\<forall>p \<in> set (sv_core x) \<union> set (sv_pre x). length p < 10 ^ w)"

lemma sem_key_Compare:
  assumes "wf_sem x" "wf_sem y" "short_fields w x" "short_fields w y" "0 < w"
  shows "string_Compare (sem_key w x) (sem_key w y) = precedence x y"
proof -
  have "\<forall>p \<in> set (sv_pre x) \<union> set (sv_pre y). pre_ident p \<and> length p < 10 ^ w"
    using assms by (auto simp: wf_sem_def short_fields_def)
  note pre = pre_fields_Compare [OF assms(5) this]
  have "length (sv_core x) = length (sv_core y)"
      "\<forall>p \<in> set (sv_core x) \<union> set (sv_core y). numeric_id p \<and> length p < 10 ^ w"
    using assms by (auto simp: wf_sem_def short_fields_def)
  note core = core_Compare [OF assms(5) this]
  show ?thesis by (auto simp: sem_key_def core precedence_def pre_Compare_def pre)
qed

section \<open>The package\<close>

locale semver_package =
  fixes sv :: semver
  assumes valid: "sv_IsValid sv v \<longleftrightarrow> sem_of v \<noteq> None"
    and canonical: "sv_Canonical sv v = (case sem_of v of None \<Rightarrow> [] | Some x \<Rightarrow> render x)"
    and compare: "sem_of v = Some x \<Longrightarrow> sem_of u = Some y \<Longrightarrow> sv_Compare sv v u = precedence x y"

text \<open>\<open>l\<close> is a highest version of \<open>vs\<close>.\<close>

definition highest :: "semver \<Rightarrow> string \<Rightarrow> string set \<Rightarrow> bool" where
  "highest sv l vs \<longleftrightarrow> l \<in> vs \<and> (\<forall>u \<in> vs. CompareVersions sv u l \<le> 0)"

text \<open>The semantic version a version text stands for.\<close>

definition version_sem :: "string \<Rightarrow> sem_version option" where
  "version_sem v = sem_of (''v'' @ trim_prefix (trim_space v) ''v'')"

lemma numeric_id_chars: "numeric_id p \<Longrightarrow> CHR ''.'' \<notin> set p \<and> CHR ''-'' \<notin> set p \<and> p \<noteq> []"
  by (auto simp: numeric_id_def is_digit_def less_eq_char_def)

lemma pre_ident_chars: "pre_ident p \<Longrightarrow> CHR ''.'' \<notin> set p \<and> p \<noteq> []"
  using ident_char_above by (fastforce simp: pre_ident_def build_ident_def)

lemma sem_of_wf: "sem_of v = Some x \<Longrightarrow> wf_sem x"
  by (auto simp: sem_of_def wf_sem_def Let_def list_all_iff numeric_id_def is_digit_def Suc_le_eq
      split: list.splits prod.splits if_splits)

lemma sem_of_short:
  assumes "sem_of v = Some x" "length v < 10 ^ w" "0 < w"
  shows "short_fields w x"
proof -
  have one: "Suc 0 < 10 ^ w" using assms(3) one_less_power [of "10::nat" w] by simp
  have "length p \<le> length v \<or> p = ''0''" if p: "p \<in> set (sv_core x) \<union> set (sv_pre x)" for p
    using assms(1) p
    by (auto simp: sem_of_def Let_def dest!: split_on_length cut_length
        split: list.splits prod.splits if_splits)
  then show ?thesis using one assms(2) by (fastforce simp: short_fields_def)
qed

lemma version_key_render:
  assumes x: "wf_sem x" and c: "sv_Canonical sv (''v'' @ trim_prefix (trim_space v) ''v'') = render x"
  shows "version_key w sv v = sem_key w x"
proof -
  let ?core = "join_on CHR ''.'' (sv_core x)" and ?pre = "join_on CHR ''.'' (sv_pre x)"
  have core: "\<forall>p \<in> set (sv_core x). CHR ''.'' \<notin> set p \<and> CHR ''-'' \<notin> set p" "sv_core x \<noteq> []"
    using x numeric_id_chars by (auto simp: wf_sem_def)
  then have dash: "CHR ''-'' \<notin> set ?core" using set_join [of "CHR ''.''" "sv_core x"] by auto
  have pre: "\<forall>p \<in> set (sv_pre x). CHR ''.'' \<notin> set p" "?pre = [] \<longleftrightarrow> sv_pre x = []"
    using x pre_ident_chars join_on_Nil_iff by (auto simp: wf_sem_def)
  have "trim_prefix (render x) ''v'' = ?core @ (if sv_pre x = [] then [] else ''-'' @ ?pre)"
    unfolding render_def by (rule trim_prefix_append)
  then have "cut CHR ''-'' (trim_prefix (render x) ''v'') =
      (?core, (if sv_pre x = [] then [] else ?pre), sv_pre x \<noteq> [])"
    using cut_notin [OF dash] cut_append [OF dash, of ?pre] by simp
  moreover have "render x \<noteq> []" by (simp add: render_def)
  moreover have "split_on CHR ''.'' ?core = sv_core x" by (rule split_join) (use core in auto)
  moreover have "sv_pre x \<noteq> [] \<Longrightarrow> split_on CHR ''.'' ?pre = sv_pre x" by (rule split_join) (use pre in auto)
  moreover have "(\<lambda>part. if digits part then ''0'' @ encode_part w part else ''1'' @ part @ ''!'') = encode_pre w"
    by (rule ext) (simp add: encode_pre_def)
  ultimately show ?thesis
    using pre(2) unfolding version_key_def sem_key_def Let_def c by simp
qed

lemma sem_of_v: "sem_of ''v'' = None"
  by (simp add: sem_of_def numeric_id_def)

context semver_package
begin

lemma normalized:
  "normalizedSemanticVersion sv v = (t, ok) \<Longrightarrow> ok = (version_sem v \<noteq> None) \<and>
     (ok \<longrightarrow> t = ''v'' @ trim_prefix (trim_space v) ''v'')"
  using sem_of_v
  by (auto simp: normalizedSemanticVersion_def normalizeVersionText_def Let_def version_sem_def valid
      trim_prefix_def dest: has_prefixE split: if_splits)

lemma CompareVersions_sem:
  "CompareVersions sv l r =
     (case version_sem l of
        Some x \<Rightarrow> (case version_sem r of Some y \<Rightarrow> precedence x y | None \<Rightarrow> 1)
      | None \<Rightarrow> (case version_sem r of Some y \<Rightarrow> -1 | None \<Rightarrow> string_Compare (trim_space l) (trim_space r)))"
proof -
  obtain tl vl where l: "normalizedSemanticVersion sv l = (tl, vl)" by fastforce
  obtain tr vr where r: "normalizedSemanticVersion sv r = (tr, vr)" by fastforce
  show ?thesis
    using normalized [OF l] normalized [OF r] compare [of tl _ tr]
    by (auto simp: CompareVersions_def l r normalizeVersionText_def version_sem_def split: option.split)
qed

lemma version_key_sem:
  "version_key w sv v =
     (case version_sem v of Some x \<Rightarrow> sem_key w x | None \<Rightarrow> ''0'' @ trim_space v)"
proof (cases "version_sem v")
  case None
  then show ?thesis by (simp add: version_key_def canonical version_sem_def)
next
  case (Some x)
  then show ?thesis
    using version_key_render [of x sv v w] sem_of_wf [of _ x] by (simp add: canonical version_sem_def)
qed

lemma version_key_Compare:
  assumes "length (trim_space l) + 1 < 10 ^ w" "length (trim_space r) + 1 < 10 ^ w" "0 < w"
  shows "string_Compare (version_key w sv l) (version_key w sv r) = CompareVersions sv l r"
proof -
  have len: "length (''v'' @ trim_prefix (trim_space v) ''v'') < 10 ^ w" if "length (trim_space v) + 1 < 10 ^ w" for v
    using that by (auto simp: trim_prefix_def)
  have short: "version_sem v = Some x \<Longrightarrow> wf_sem x \<and> short_fields w x" if "length (trim_space v) + 1 < 10 ^ w" for v x
    using sem_of_wf sem_of_short [OF _ len [OF that] assms(3)] by (simp add: version_sem_def)
  have one: "\<exists>t. sem_key w x = CHR ''1'' # t" for x by (simp add: sem_key_def)
  show ?thesis
  proof (cases "version_sem l"; cases "version_sem r")
    fix x y
    assume "version_sem l = Some x" "version_sem r = Some y"
    then show ?thesis
      using short [OF assms(1)] short [OF assms(2)] sem_key_Compare [OF _ _ _ _ assms(3)]
      by (simp add: version_key_sem CompareVersions_sem)
  next
    fix x
    assume "version_sem l = Some x" "version_sem r = None"
    then show ?thesis using one [of x] by (auto simp: version_key_sem CompareVersions_sem)
  next
    fix y
    assume "version_sem l = None" "version_sem r = Some y"
    then show ?thesis using one [of y] by (auto simp: version_key_sem CompareVersions_sem)
  next
    assume "version_sem l = None" "version_sem r = None"
    then show ?thesis by (simp add: version_key_sem CompareVersions_sem)
  qed
qed

text \<open>For any finite set of versions some width is enough, so the comparison is a total preorder.\<close>

lemma width_exists: "\<exists>w > 0. \<forall>v \<in> set vs. length (trim_space v) + 1 < 10 ^ w"
proof -
  let ?m = "Max (insert 0 ((\<lambda>v. length (trim_space v)) ` set vs))"
  have "length (trim_space v) + 1 < 10 ^ (?m + 2)" if "v \<in> set vs" for v
  proof -
    have "length (trim_space v) \<le> ?m" using that by (intro Max_ge) auto
    moreover have "?m + 2 < 10 ^ (?m + 2)" by (rule power_gt_expt) simp
    ultimately show ?thesis by linarith
  qed
  then show ?thesis by (intro exI [of _ "?m + 2"]) auto
qed

lemma compare_by_key:
  "\<exists>w. \<forall>l \<in> set vs. \<forall>r \<in> set vs.
     CompareVersions sv l r = string_Compare (version_key w sv l) (version_key w sv r)"
  using width_exists [of vs] version_key_Compare by metis

lemma CompareVersions_swap: "CompareVersions sv r l = - CompareVersions sv l r"
proof -
  obtain w where w: "\<forall>x \<in> {l, r}. \<forall>y \<in> {l, r}.
      CompareVersions sv x y = string_Compare (version_key w sv x) (version_key w sv y)"
    using compare_by_key [of "[l, r]"] by auto
  show ?thesis
    using w string_Compare_linear(6) [of "version_key w sv r" "version_key w sv l"] by simp
qed

lemma CompareVersions_refl [simp]: "CompareVersions sv v v = 0"
  using compare_by_key [of "[v]"] by (auto simp: string_Compare_def)

lemma CompareVersions_trans:
  assumes "CompareVersions sv a b \<le> 0" "CompareVersions sv b c \<le> 0"
  shows "CompareVersions sv a c \<le> 0"
proof -
  obtain w where "\<forall>l \<in> {a, b, c}. \<forall>r \<in> {a, b, c}.
      CompareVersions sv l r = string_Compare (version_key w sv l) (version_key w sv r)"
    using compare_by_key [of "[a, b, c]"] by auto
  then have k: "CompareVersions sv l r \<le> 0 \<longleftrightarrow> version_key w sv l \<le> version_key w sv r"
    if "l \<in> {a, b, c}" "r \<in> {a, b, c}" for l r
    using that string_Compare_linear(4) by (metis linorder_not_le)
  then show ?thesis using assms k [of a b] k [of b c] k [of a c] by auto
qed

lemma CompareVersions_range: "CompareVersions sv a b \<in> {-1, 0, 1}"
  using compare_by_key [of "[a, b]"] string_Compare_range
  by (metis list.set_intros(1) list.set_intros(2))

text \<open>\<open>latestVersion\<close> is one of the versions, none is higher, and it is the first such.\<close>

lemma latest_foldl:
  defines "step \<equiv> \<lambda>latest version. if 0 < CompareVersions sv version latest then version else latest"
  shows "CompareVersions sv v (foldl step v vs) \<le> 0 \<and> foldl step v vs \<in> set (v # vs) \<and>
    (\<forall>u \<in> set vs. CompareVersions sv u (foldl step v vs) \<le> 0)"
proof (induction vs arbitrary: v)
  case (Cons u vs)
  let ?l = "foldl step (step v u) vs"
  note IH = Cons.IH [of "step v u"]
  have vu: "CompareVersions sv v (step v u) \<le> 0" "CompareVersions sv u (step v u) \<le> 0"
    using CompareVersions_swap [of u v] by (auto simp: step_def)
  have "CompareVersions sv v ?l \<le> 0" "CompareVersions sv u ?l \<le> 0"
    using CompareVersions_trans [OF vu(1)] CompareVersions_trans [OF vu(2)] IH by blast+
  moreover have "step v u \<in> {v, u}" by (simp add: step_def)
  ultimately show ?case using IH by auto
qed simp

lemma latestVersion_max:
  "vs \<noteq> [] \<Longrightarrow> latestVersion sv vs \<in> set vs \<and> (\<forall>u \<in> set vs. CompareVersions sv u (latestVersion sv vs) \<le> 0)"
  using latest_foldl by (cases vs) (auto simp: latestVersion_def)

lemma latestVersionWithCandidate_max:
  "trim_space current \<noteq> [] \<Longrightarrow>
     CompareVersions sv current (latestVersionWithCandidate sv current candidate) \<le> 0 \<and>
     CompareVersions sv candidate (latestVersionWithCandidate sv current candidate) \<le> 0"
  using CompareVersions_swap [of current candidate]
  by (auto simp: latestVersionWithCandidate_def)

text \<open>A blank text is an invalid version and below every other.\<close>

lemma blank_lowest: "trim_space l = [] \<Longrightarrow> CompareVersions sv l v \<le> 0"
proof -
  assume l: "trim_space l = []"
  then have "version_sem l = None" using sem_of_v by (simp add: version_sem_def trim_prefix_def has_prefix_def)
  moreover have "string_Compare [] t \<le> 0" for t by (cases t) auto
  ultimately show ?thesis by (simp add: CompareVersions_sem l split: option.split)
qed

lemma candidate_max:
  "CompareVersions sv current (latestVersionWithCandidate sv current candidate) \<le> 0 \<and>
   CompareVersions sv candidate (latestVersionWithCandidate sv current candidate) \<le> 0 \<and>
   latestVersionWithCandidate sv current candidate \<in> {current, candidate}"
  using CompareVersions_swap [of current candidate] blank_lowest [of current candidate]
  by (auto simp: latestVersionWithCandidate_def)

lemma candidate_Nil [simp]: "latestVersionWithCandidate sv [] candidate = candidate"
  by (simp add: latestVersionWithCandidate_def)

lemma highest_single: "highest sv v {v}"
  by (simp add: highest_def)

lemma highest_candidate:
  assumes "highest sv l vs"
  shows "highest sv (latestVersionWithCandidate sv l v) (insert v vs)"
proof -
  let ?l = "latestVersionWithCandidate sv l v"
  have "CompareVersions sv u ?l \<le> 0" if "u \<in> vs" for u
    using assms that CompareVersions_trans [of u l ?l] candidate_max [of l v] by (simp add: highest_def)
  then show ?thesis using assms candidate_max [of l v] by (auto simp: highest_def)
qed

lemma highest_foldl:
  "highest sv l ws \<Longrightarrow> highest sv (foldl (latestVersionWithCandidate sv) l vs) (ws \<union> set vs)"
proof (induction vs arbitrary: l ws)
  case (Cons v vs)
  have "highest sv (foldl (latestVersionWithCandidate sv) (latestVersionWithCandidate sv l v) vs) (insert v ws \<union> set vs)"
    by (rule Cons.IH [OF highest_candidate [OF Cons.prems]])
  then show ?case by simp
qed simp

lemma highest_foldl_Nil:
  "vs \<noteq> [] \<Longrightarrow> highest sv (foldl (latestVersionWithCandidate sv) [] vs) (set vs)"
  using highest_foldl [OF highest_single] by (cases vs) auto

lemma latestVersion_snoc:
  "vs \<noteq> [] \<Longrightarrow> trim_space (latestVersion sv vs) \<noteq> [] \<Longrightarrow>
     latestVersion sv (vs @ [v]) = latestVersionWithCandidate sv (latestVersion sv vs) v"
  by (cases vs) (auto simp: latestVersion_def latestVersionWithCandidate_def)

end

section \<open>The documented package\<close>

text \<open>A package that does exactly what the documentation says.\<close>

definition documented_semver :: semver where
  "documented_semver =
     \<lparr>sv_IsValid = (\<lambda>v. sem_of v \<noteq> None),
      sv_Canonical = (\<lambda>v. case sem_of v of None \<Rightarrow> [] | Some x \<Rightarrow> render x),
      sv_Compare = (\<lambda>v u. case (sem_of v, sem_of u) of
         (Some x, Some y) \<Rightarrow> precedence x y | (Some x, None) \<Rightarrow> 1 | (None, Some y) \<Rightarrow> -1 | _ \<Rightarrow> 0)\<rparr>"

lemma documented_semver_ok: "semver_package documented_semver"
  by unfold_locales (simp_all add: documented_semver_def)

interpretation documented: semver_package documented_semver
  by (rule documented_semver_ok)

section \<open>Full version texts\<close>

text \<open>\<open>MAJOR.MINOR.PATCH[-PRERELEASE][+BUILD]\<close>.\<close>

definition version_text :: "string list \<Rightarrow> string list \<Rightarrow> string list \<Rightarrow> string" where
  "version_text core pre build =
     join_on CHR ''.'' core @ (if pre = [] then [] else ''-'' @ join_on CHR ''.'' pre) @
     (if build = [] then [] else ''+'' @ join_on CHR ''.'' build)"

definition wf_text :: "string list \<Rightarrow> string list \<Rightarrow> string list \<Rightarrow> bool" where
  "wf_text core pre build = (wf_sem (SemVersion core pre) \<and> list_all build_ident build)"

lemma idents_chars:
  "\<forall>p \<in> set ps. build_ident p \<Longrightarrow> c \<in> set (join_on CHR ''.'' ps) \<Longrightarrow> ident_char c \<or> c = CHR ''.''"
  using set_join [of "CHR ''.''" ps] by (fastforce simp: build_ident_def)

lemma numeric_ids_chars:
  "\<forall>p \<in> set ps. numeric_id p \<Longrightarrow> c \<in> set (join_on CHR ''.'' ps) \<Longrightarrow> is_digit c \<or> c = CHR ''.''"
  using set_join [of "CHR ''.''" ps] by (fastforce simp: numeric_id_def)

lemma is_digit_not: "is_digit c \<Longrightarrow> c \<noteq> CHR ''-'' \<and> c \<noteq> CHR ''+'' \<and> c \<noteq> CHR ''.'' \<and> c \<noteq> CHR ''v''"
  by (auto simp: is_digit_def less_eq_char_def)

lemma split_idents: "ps \<noteq> [] \<Longrightarrow> \<forall>p \<in> set ps. build_ident p \<Longrightarrow> split_on CHR ''.'' (join_on CHR ''.'' ps) = ps"
  using ident_char_above by (intro split_join) (fastforce simp: build_ident_def)+

lemma version_text_cuts:
  assumes "wf_text core pre build"
  defines "c \<equiv> join_on CHR ''.'' core"
    and "p \<equiv> (if pre = [] then [] else join_on CHR ''.'' pre)"
  shows "cut CHR ''+'' (version_text core pre build) =
      (c @ (if pre = [] then [] else ''-'' @ p), (if build = [] then [] else join_on CHR ''.'' build), build \<noteq> [])"
    and "cut CHR ''-'' (c @ (if pre = [] then [] else ''-'' @ p)) = (c, p, pre \<noteq> [])"
    and "split_on CHR ''.'' c = core"
    and "x \<in> set (version_text core pre build) \<Longrightarrow> graphic x"
    and "\<exists>d t. version_text core pre build = d # t \<and> is_digit d"
proof -
  have core: "\<forall>q \<in> set core. numeric_id q" "length core = 3" and pre: "\<forall>q \<in> set pre. build_ident q"
    and build: "\<forall>q \<in> set build. build_ident q"
    using assms(1) by (auto simp: wf_text_def wf_sem_def pre_ident_def list_all_iff)
  have cs: "x \<in> set c \<Longrightarrow> is_digit x \<or> x = CHR ''.''" for x
    unfolding c_def by (rule numeric_ids_chars [OF core(1)])
  have ps: "x \<in> set p \<Longrightarrow> ident_char x \<or> x = CHR ''.''" for x
    using idents_chars [OF pre] by (auto simp: p_def split: if_splits)
  have bs: "x \<in> set (join_on CHR ''.'' build) \<Longrightarrow> ident_char x \<or> x = CHR ''.''" for x
    by (rule idents_chars [OF build])
  have plus: "CHR ''+'' \<notin> set (c @ (if pre = [] then [] else ''-'' @ p))"
    using cs ps is_digit_not ident_char_above by (auto split: if_splits)
  have dash: "CHR ''-'' \<notin> set c" using cs is_digit_not by fastforce
  have v: "version_text core pre build = (c @ (if pre = [] then [] else ''-'' @ p)) @
      (if build = [] then [] else CHR ''+'' # join_on CHR ''.'' build)"
    by (simp add: version_text_def c_def p_def)
  show "cut CHR ''+'' (version_text core pre build) =
      (c @ (if pre = [] then [] else ''-'' @ p), (if build = [] then [] else join_on CHR ''.'' build), build \<noteq> [])"
    unfolding v using cut_notin [OF plus] cut_append [OF plus] by (auto split: if_splits)
  show "cut CHR ''-'' (c @ (if pre = [] then [] else ''-'' @ p)) = (c, p, pre \<noteq> [])"
    using cut_notin [OF dash] cut_append [OF dash] by (simp add: p_def)
  show "split_on CHR ''.'' c = core"
    unfolding c_def using core numeric_id_chars by (intro split_join) auto
  have dg: "is_digit y \<Longrightarrow> graphic y" for y using ident_char_above [of y] by (simp add: ident_char_def)
  have "graphic CHR ''.''" and "graphic CHR ''+''" and "graphic CHR ''-''" by (simp_all add: graphic_def)
  then have "y \<in> set c \<union> set p \<union> set (join_on CHR ''.'' build) \<Longrightarrow> graphic y" for y
    using cs [of y] ps [of y] bs [of y] dg ident_char_above by blast
  with \<open>graphic CHR ''+''\<close> \<open>graphic CHR ''-''\<close>
  show "x \<in> set (version_text core pre build) \<Longrightarrow> graphic x"
    unfolding v by (auto split: if_splits)
  obtain q qs where q: "core = q # qs" using core(2) by (cases core) auto
  then obtain d t where "q = d # t" "is_digit d" using core(1) by (cases q) (auto simp: numeric_id_def)
  then show "\<exists>d t. version_text core pre build = d # t \<and> is_digit d"
    using q by (cases qs) (auto simp: version_text_def)
qed

lemma sem_of_version_text:
  assumes "wf_text core pre build"
  shows "sem_of (''v'' @ version_text core pre build) = Some (SemVersion core pre)"
proof -
  note cuts = version_text_cuts(1-3) [OF assms]
  have "pre \<noteq> [] \<Longrightarrow> split_on CHR ''.'' (join_on CHR ''.'' pre) = pre"
    "build \<noteq> [] \<Longrightarrow> split_on CHR ''.'' (join_on CHR ''.'' build) = build"
    using assms by (auto intro!: split_idents simp: wf_text_def wf_sem_def pre_ident_def list_all_iff)
  with assms show ?thesis
    by (auto simp: sem_of_def cuts Let_def wf_text_def wf_sem_def list_all_iff)
qed

lemma cut_before: "(case cut c s of (before, _, found) \<Rightarrow> if found then before else s) = fst (cut c s)"
  using cut_not_found [of c s] by (auto split: prod.split)

lemma cut_rejoin: "cut c s = (a, b, f) \<Longrightarrow> s = a @ (if f then c # b else [])"
  using cut_found [of c s] cut_not_found [of c s] by (cases f) auto

lemma sem_of_full_text:
  assumes "sem_of (''v'' @ s) \<noteq> None"
    and "length (split_on CHR ''.'' (fst (cut CHR ''-'' (fst (cut CHR ''+'' s))))) = 3"
  shows "\<exists>core pre build. wf_text core pre build \<and> s = version_text core pre build"
proof -
  obtain s' b fb where plus: "cut CHR ''+'' s = (s', b, fb)" by (metis prod_cases3)
  obtain c p fp where dash: "cut CHR ''-'' s' = (c, p, fp)" by (metis prod_cases3)
  let ?core = "split_on CHR ''.'' c" and ?pre = "if fp then split_on CHR ''.'' p else []"
  let ?build = "if fb then split_on CHR ''.'' b else []"
  have "wf_text ?core ?pre ?build"
    using assms by (auto simp: sem_of_def plus dash Let_def wf_text_def wf_sem_def list_all_iff split: if_splits)
  moreover have "s = version_text ?core ?pre ?build"
    using cut_rejoin [OF plus] cut_rejoin [OF dash] by (simp add: version_text_def)
  ultimately show ?thesis by blast
qed

context semver_package
begin

lemma ValidModuleVersion_text:
  "ValidModuleVersion sv s \<longleftrightarrow> (\<exists>core pre build. wf_text core pre build \<and> s = version_text core pre build)"
proof
  assume "ValidModuleVersion sv s"
  then have "sem_of (''v'' @ s) \<noteq> None"
    "length (filter (\<lambda>c. c = CHR ''.'') (fst (cut CHR ''-'' (fst (cut CHR ''+'' s))))) = 2"
    by (auto simp: ValidModuleVersion_def cut_before Let_def valid split: if_splits)
  then show "\<exists>core pre build. wf_text core pre build \<and> s = version_text core pre build"
    by (intro sem_of_full_text) (simp_all add: length_split_on)
next
  assume "\<exists>core pre build. wf_text core pre build \<and> s = version_text core pre build"
  then obtain core pre build where wf: "wf_text core pre build" and s: "s = version_text core pre build" by blast
  note cuts = version_text_cuts [OF wf]
  obtain d t where d: "version_text core pre build = d # t" "is_digit d" using cuts(5) by blast
  have "trim_space s = s" using cuts(4) by (intro trim_space_graphic) (simp add: s)
  moreover have "\<not> has_prefix s ''v''" "s \<noteq> []" using d is_digit_not by (auto simp: s has_prefix_def)
  moreover have "length core = 3" using wf by (simp add: wf_text_def wf_sem_def)
  then have "length (filter (\<lambda>c. c = CHR ''.'') (fst (cut CHR ''-'' (fst (cut CHR ''+'' s))))) = 2"
    using length_split_on [of "CHR ''.''" "join_on CHR ''.'' core"] by (simp add: s cuts(1-3))
  ultimately show "ValidModuleVersion sv s"
    using sem_of_version_text [OF wf] by (simp add: ValidModuleVersion_def cut_before valid s)
qed

end

section \<open>Properties\<close>

text \<open>
  C15: The stored order key is faithful: comparing the keys of two releases byte by byte, as
  \<open>order by version_order\<close> does in both databases, gives exactly \<open>CompareVersions\<close> of their
  versions, for valid and invalid version texts of fewer than ten thousand million characters.
\<close>

theorem version_order_is_CompareVersions:
  assumes "semver_package sv" and "length (trim_space l) < 9999999999" and "length (trim_space r) < 9999999999"
  shows "string_Compare (releaseVersionOrder sv l) (releaseVersionOrder sv r) = CompareVersions sv l r"
  using semver_package.version_key_Compare [OF assms(1), of l 10 r] assms(2,3)
  by (simp add: releaseVersionOrder_def)

theorem version_order_is_CompareVersions_witness:
  "string_Compare (releaseVersionOrder documented_semver ''1.0.0-rc.2'')
     (releaseVersionOrder documented_semver ''v1.0.0-rc.10+b'') =
   CompareVersions documented_semver ''1.0.0-rc.2'' ''v1.0.0-rc.10+b'' \<and>
   CompareVersions documented_semver ''1.0.0-rc.2'' ''v1.0.0-rc.10+b'' = -1"
proof -
  have "trim_space ''1.0.0-rc.2'' = ''1.0.0-rc.2''" "trim_space ''v1.0.0-rc.10+b'' = ''v1.0.0-rc.10+b''"
    by (simp_all add: trim_space_graphic graphic_def)
  then have "length (trim_space ''1.0.0-rc.2'') < 9999999999" "length (trim_space ''v1.0.0-rc.10+b'') < 9999999999"
    by simp_all
  moreover have "CompareVersions documented_semver ''1.0.0-rc.2'' ''v1.0.0-rc.10+b'' = -1" by code_simp
  ultimately show ?thesis
    using version_order_is_CompareVersions [OF documented_semver_ok] by simp
qed

text \<open>
  \<open>CompareVersions\<close> is a total preorder on all texts: antisymmetric in sign, transitive, zero
  on equal texts, with values -1, 0 and 1, and every valid version above every invalid one.
\<close>

theorem CompareVersions_total_preorder:
  assumes "semver_package sv"
  shows "CompareVersions sv v v = 0 \<and> CompareVersions sv u v = - CompareVersions sv v u \<and>
    CompareVersions sv v u \<in> {-1, 0, 1} \<and>
    (CompareVersions sv t u \<le> 0 \<and> CompareVersions sv u v \<le> 0 \<longrightarrow> CompareVersions sv t v \<le> 0) \<and>
    (snd (normalizedSemanticVersion sv v) \<and> \<not> snd (normalizedSemanticVersion sv u) \<longrightarrow> CompareVersions sv v u = 1)"
  using semver_package.CompareVersions_refl [OF assms] semver_package.CompareVersions_swap [OF assms, of u v]
    semver_package.CompareVersions_range [OF assms] semver_package.CompareVersions_trans [OF assms, of t u v]
  by (simp add: CompareVersions_def split: prod.split)

theorem CompareVersions_total_preorder_witness:
  "CompareVersions documented_semver ''2.0.0'' ''1.a.0'' = 1"
proof -
  have "snd (normalizedSemanticVersion documented_semver ''2.0.0'')"
       "\<not> snd (normalizedSemanticVersion documented_semver ''1.a.0'')" by code_simp+
  with CompareVersions_total_preorder [OF documented_semver_ok, of "''2.0.0''" "''1.a.0''"]
  show ?thesis by blast
qed

text \<open>
  A published version is accepted exactly when it is a full semantic version
  \<open>MAJOR.MINOR.PATCH[-PRERELEASE][+BUILD]\<close> without a leading \<open>v\<close>, white space or leading zeros.
\<close>

theorem ValidModuleVersion_grammar:
  assumes "semver_package sv"
  shows "ValidModuleVersion sv s \<longleftrightarrow>
    (\<exists>core pre build. wf_text core pre build \<and> s = version_text core pre build)"
  by (rule semver_package.ValidModuleVersion_text [OF assms])

theorem ValidModuleVersion_grammar_witness:
  "\<exists>core pre build. wf_text core pre build \<and> ''1.2.3-rc.1+build.4'' = version_text core pre build"
  using ValidModuleVersion_grammar [OF documented_semver_ok, of "''1.2.3-rc.1+build.4''"]
  by (rule iffD1) code_simp

text \<open>
  \<open>latestVersion\<close> of a non-empty list is one of its versions and no version of the list is
  higher; \<open>latestVersionWithCandidate\<close> never returns less than either of its arguments, and
  extends \<open>latestVersion\<close> by one version.
\<close>

theorem latestVersion_is_maximal:
  assumes "semver_package sv" and "vs \<noteq> []" and "\<forall>v \<in> set vs. trim_space v \<noteq> []"
  shows "latestVersion sv vs \<in> set vs \<and>
    (\<forall>u \<in> set vs. CompareVersions sv u (latestVersion sv vs) \<le> 0) \<and>
    latestVersion sv (vs @ [v]) = latestVersionWithCandidate sv (latestVersion sv vs) v"
  using semver_package.latestVersion_max [OF assms(1,2)]
    semver_package.latestVersion_snoc [OF assms(1,2)] assms(3) by blast

theorem latestVersion_is_maximal_witness:
  "latestVersion documented_semver [''2.0.0-rc1'', ''1.10.0'', ''2.0.0''] = ''2.0.0'' \<and>
   CompareVersions documented_semver ''1.10.0'' (latestVersion documented_semver [''2.0.0-rc1'', ''1.10.0'', ''2.0.0'']) \<le> 0"
proof -
  have "\<forall>v \<in> set [''2.0.0-rc1'', ''1.10.0'', ''2.0.0'']. trim_space v \<noteq> []" by code_simp
  moreover have "latestVersion documented_semver [''2.0.0-rc1'', ''1.10.0'', ''2.0.0''] = ''2.0.0''" by code_simp
  ultimately show ?thesis
    using latestVersion_is_maximal [OF documented_semver_ok, of "[''2.0.0-rc1'', ''1.10.0'', ''2.0.0'']"] by simp
qed

end
