(* ===== verification/StoreTypes.thy ===== *)
theory StoreTypes
  imports Version
begin

text \<open>
  The data of the store: the domain types (\<open>internal/domain/module.go\<close>), the types of
  \<open>internal/store/store.go\<close>, the tables of the SQL schema (\<open>internal/store/sqlite.go\<close>) as lists
  of rows, and the errors. Column order and text encodings of times are abstracted: a time column
  holds the instant. \<open>current_timestamp\<close> of SQLite has whole seconds (\<open>sql_now\<close>).
\<close>

section \<open>Errors\<close>

datatype store_error = ErrNotFound | ErrConflict | StoreError string

text \<open>An operation returns the new database and its result.\<close>

type_synonym 'a result = "store_error + 'a"

section \<open>Domain types\<close>

record domain_module =
  m_ID :: string
  m_Owner :: string
  m_Name :: string
  m_LatestVersion :: string
  m_CreatedAt :: time
  m_UpdatedAt :: time

record module_version =
  mv_Version :: string
  mv_CreatedAt :: time

record release_metric_summary =
  ms_Source :: string
  ms_Releases :: nat
  ms_LatestReleases :: nat

text \<open>
  \<open>Metadata\<close> is the JSON text of the map: \<open>null\<close> is the nil map, \<open>{}\<close> the empty one.
\<close>

record release =
  r_ID :: string
  r_ModuleID :: string
  r_Owner :: string
  r_Name :: string
  r_Source :: string
  r_Version :: string
  r_Description :: string
  r_Readme :: string
  r_FileName :: string
  r_ContentType :: string
  r_SizeBytes :: int
  r_MD5 :: string
  r_SHA256 :: string
  r_StoragePath :: string
  r_UpstreamSlug :: string
  r_UpstreamFileURI :: string
  r_DownloadURL :: string
  r_Metadata :: string
  r_CreatedAt :: time

section \<open>Store types\<close>

record release_summary =
  s_Owner :: string
  s_Name :: string
  s_Version :: string
  s_CreatedAt :: time

record release_consumer =
  c_ConsumerTeam :: string
  c_ConsumerName :: string
  c_ConsumerRole :: string
  c_Owner :: string
  c_Name :: string
  c_Version :: string
  c_LatestVersion :: string
  c_FirstSeenAt :: time
  c_LastSeenAt :: time
  c_Observations :: int

record consumer_observation =
  o_ConsumerTeam :: string
  o_ConsumerName :: string
  o_ConsumerRole :: string
  o_Owner :: string
  o_Name :: string
  o_Version :: string
  o_ObservedAt :: time

record audit_event =
  a_ID :: string
  a_OccurredAt :: time
  a_RequestID :: string
  a_Actor :: string
  a_AuthMethod :: string
  a_Action :: string
  a_Result :: string
  a_Reason :: string
  a_SourceIP :: string
  a_Attributes :: "(string, string) gomap"

record artifact_release_record =
  ar_Owner :: string
  ar_Name :: string
  ar_Version :: string
  ar_StoragePath :: string
  ar_SHA256 :: string
  ar_SizeBytes :: int

record manage_session =
  n_SessionHash :: string
  n_CredentialHash :: string
  n_CredentialID :: string
  n_AuthMethod :: string
  n_CSRFSecret :: string
  n_CreatedAt :: time
  n_ExpiresAt :: time
  n_LastSeenAt :: time
  n_RevokedAt :: "time option"

record oidc_state =
  t_StateHash :: string
  t_Nonce :: string
  t_PKCEVerifier :: string
  t_NextPath :: string
  t_CreatedAt :: time
  t_ExpiresAt :: time

record oidc_session =
  e_SessionHash :: string
  e_Subject :: string
  e_Email :: string
  e_EmailVerified :: bool
  e_Name :: string
  e_Groups :: "string list"
  e_CSRFSecret :: string
  e_CreatedAt :: time
  e_ExpiresAt :: time
  e_LastSeenAt :: time
  e_RevokedAt :: "time option"

record cleanup_result =
  cr_ManageSessions :: nat
  cr_OIDCStates :: nat
  cr_OIDCSessions :: nat

record module_release_count =
  mc_Owner :: string
  mc_Name :: string
  mc_Count :: nat

record artifact_deletion =
  d_StoragePath :: string
  d_Owner :: string
  d_Name :: string
  d_CreatedAt :: time

section \<open>Tables\<close>

record module_row =
  mr_id :: string
  mr_owner :: string
  mr_name :: string
  mr_slug :: string
  mr_latest_version :: "string option"
  mr_upstream_refreshed_at :: "time option"
  mr_created_at :: time
  mr_updated_at :: time

record release_row =
  rr_id :: string
  rr_module_id :: string
  rr_slug :: string
  rr_source :: string
  rr_version :: string
  rr_description :: string
  rr_readme :: string
  rr_file_name :: string
  rr_content_type :: string
  rr_size_bytes :: int
  rr_md5 :: string
  rr_sha256 :: string
  rr_storage_path :: string
  rr_upstream_slug :: string
  rr_upstream_file_uri :: string
  rr_metadata :: string
  rr_version_order :: string
  rr_created_at :: time

record deletion_row =
  dr_storage_path :: string
  dr_owner :: string
  dr_name :: string
  dr_created_at :: time
  dr_next_attempt_at :: time

record tombstone_row =
  tr_owner :: string
  tr_name :: string
  tr_version :: string
  tr_source :: string
  tr_deleted_at :: time

record usage_row =
  ur_owner :: string
  ur_name :: string
  ur_version :: string
  ur_last_used_at :: time

record lease_row =
  lr_name :: string
  lr_holder :: string
  lr_lease_until :: time

record rate_row =
  xr_limiter_key :: string
  xr_request_count :: int
  xr_reset_at :: time
  xr_updated_at :: time

record token_row =
  kr_token_id :: string
  kr_team :: string
  kr_token_type :: string
  kr_token_prefix :: string
  kr_token_hash :: string
  kr_description :: string
  kr_created_at :: time
  kr_expires_at :: "time option"
  kr_revoked_at :: "time option"
  kr_last_used_at :: "time option"

record state_row =
  sr_state :: oidc_state
  sr_consumed_at :: "time option"

record db =
  db_modules :: "module_row list"
  db_releases :: "release_row list"
  db_deletions :: "deletion_row list"
  db_tombstones :: "tombstone_row list"
  db_usage :: "usage_row list"
  db_consumers :: "release_consumer list"
  db_audit :: "audit_event list"
  db_leases :: "lease_row list"
  db_rates :: "rate_row list"
  db_teams :: "string list"
  db_tokens :: "token_row list"
  db_owners :: "(string \<times> string) list"
  db_oidc :: "(string \<times> string \<times> string) list"
  db_manage :: "manage_session list"
  db_states :: "state_row list"
  db_sessions :: "oidc_session list"

definition empty_db :: db where
  "empty_db =
     \<lparr>db_modules = [], db_releases = [], db_deletions = [], db_tombstones = [], db_usage = [],
      db_consumers = [], db_audit = [], db_leases = [], db_rates = [], db_teams = [], db_tokens = [],
      db_owners = [], db_oidc = [], db_manage = [], db_states = [], db_sessions = []\<rparr>"

section \<open>SQL\<close>

definition sql_now :: "time \<Rightarrow> time" where
  "sql_now now = now - now mod second"

text \<open>\<open>trim(x) = ''\<close>: SQL trims spaces only.\<close>

definition sql_blank :: "string \<Rightarrow> bool" where
  "sql_blank s = (\<forall>c \<in> set s. c = CHR '' '')"

text \<open>
  \<open>insert \<dots> on conflict (key) do nothing\<close>, and \<open>\<dots> do update set\<close> with the update of the row.
\<close>

definition insert_or_ignore :: "('a \<Rightarrow> 'k) \<Rightarrow> 'a \<Rightarrow> 'a list \<Rightarrow> 'a list" where
  "insert_or_ignore key r rs = (if key r \<in> key ` set rs then rs else rs @ [r])"

definition insert_or_update :: "('a \<Rightarrow> 'k) \<Rightarrow> ('a \<Rightarrow> 'a) \<Rightarrow> 'a \<Rightarrow> 'a list \<Rightarrow> 'a list" where
  "insert_or_update key upd r rs =
     (if key r \<in> key ` set rs then map (\<lambda>x. if key x = key r then upd x else x) rs else rs @ [r])"

definition update_where :: "('a \<Rightarrow> bool) \<Rightarrow> ('a \<Rightarrow> 'a) \<Rightarrow> 'a list \<Rightarrow> 'a list" where
  "update_where p upd rs = map (\<lambda>x. if p x then upd x else x) rs"

definition delete_where :: "('a \<Rightarrow> bool) \<Rightarrow> 'a list \<Rightarrow> 'a list" where
  "delete_where p rs = filter (\<lambda>x. \<not> p x) rs"

abbreviation unique_by :: "('a \<Rightarrow> 'k) \<Rightarrow> 'a list \<Rightarrow> bool" where
  "unique_by key rs \<equiv> distinct (map key rs)"

lemma map_update_where: "\<forall>x. key (upd x) = key x \<Longrightarrow> map key (update_where p upd rs) = map key rs"
  by (simp add: update_where_def)

lemma unique_by_delete [intro, simp]: "unique_by key rs \<Longrightarrow> unique_by key (delete_where p rs)"
  unfolding delete_where_def by (rule distinct_map_filter)

lemma set_delete_where [simp]: "set (delete_where p rs) = {x \<in> set rs. \<not> p x}"
  by (simp add: delete_where_def)

lemma set_update_where [simp]: "set (update_where p upd rs) = (\<lambda>x. if p x then upd x else x) ` set rs"
  by (simp add: update_where_def)

lemma update_whereI: "x \<in> set rs \<Longrightarrow> p x \<Longrightarrow> upd x \<in> set (update_where p upd rs)"
  unfolding set_update_where by (rule image_eqI [of _ _ x]) auto

lemma update_where_keep: "x \<in> set rs \<Longrightarrow> \<not> p x \<Longrightarrow> x \<in> set (update_where p upd rs)"
  unfolding set_update_where by (rule image_eqI [of _ _ x]) auto

lemma unique_by_insert_or_ignore [intro, simp]: "unique_by key rs \<Longrightarrow> unique_by key (insert_or_ignore key r rs)"
  by (simp add: insert_or_ignore_def)

lemma set_insert_or_ignore:
  "set (insert_or_ignore key r rs) = (if key r \<in> key ` set rs then set rs else insert r (set rs))"
  by (simp add: insert_or_ignore_def)

lemma unique_by_insert_or_update [intro, simp]:
  "unique_by key rs \<Longrightarrow> \<forall>x. key (upd x) = key x \<Longrightarrow> unique_by key (insert_or_update key upd r rs)"
proof -
  assume a: "unique_by key rs" "\<forall>x. key (upd x) = key x"
  then have "map key (map (\<lambda>x. if key x = key r then upd x else x) rs) = map key rs" by simp
  then have "unique_by key (map (\<lambda>x. if key x = key r then upd x else x) rs)" using a(1) by (simp only:)
  with a(1) show ?thesis unfolding insert_or_update_def by (simp del: map_map)
qed

lemma unique_byD: "unique_by key rs \<Longrightarrow> x \<in> set rs \<Longrightarrow> y \<in> set rs \<Longrightarrow> key x = key y \<Longrightarrow> x = y"
  by (metis distinct_map inj_onD)

lemma find_SomeD: "find p xs = Some x \<Longrightarrow> x \<in> set xs \<and> p x"
  by (auto simp: find_Some_iff)

section \<open>Stable sorting\<close>

text \<open>\<open>sort.SliceStable\<close> by a \<open>less\<close> function.\<close>

fun insert_stable :: "('a \<Rightarrow> 'a \<Rightarrow> bool) \<Rightarrow> 'a \<Rightarrow> 'a list \<Rightarrow> 'a list" where
  "insert_stable lt x [] = [x]"
| "insert_stable lt x (y # ys) = (if lt y x then y # insert_stable lt x ys else x # y # ys)"

definition sort_stable :: "('a \<Rightarrow> 'a \<Rightarrow> bool) \<Rightarrow> 'a list \<Rightarrow> 'a list" where
  "sort_stable lt xs = foldr (insert_stable lt) xs []"

lemma mset_insert_stable [simp]: "mset (insert_stable lt x xs) = add_mset x (mset xs)"
  by (induction xs) auto

lemma mset_sort_stable [simp]: "mset (sort_stable lt xs) = mset xs"
  unfolding sort_stable_def by (induction xs) auto

lemma set_sort_stable [simp]: "set (sort_stable lt xs) = set xs"
  by (metis mset_sort_stable set_mset_mset)

lemma length_sort_stable [simp]: "length (sort_stable lt xs) = length xs"
  by (metis mset_sort_stable size_mset)

text \<open>A strict weak order: the converse of \<open>less\<close> is a total preorder.\<close>

definition weak_order :: "('a \<Rightarrow> 'a \<Rightarrow> bool) \<Rightarrow> bool" where
  "weak_order lt =
     ((\<forall>x y. lt x y \<longrightarrow> \<not> lt y x) \<and> (\<forall>x y z. \<not> lt y x \<and> \<not> lt z y \<longrightarrow> \<not> lt z x))"

lemma weak_orderD:
  assumes "weak_order lt"
  shows "lt x y \<Longrightarrow> \<not> lt y x" "\<not> lt y x \<Longrightarrow> \<not> lt z y \<Longrightarrow> \<not> lt z x"
  using assms unfolding weak_order_def by metis+

lemma sorted_insert_stable:
  assumes "weak_order lt" "sorted_wrt (\<lambda>a b. \<not> lt b a) xs"
  shows "sorted_wrt (\<lambda>a b. \<not> lt b a) (insert_stable lt x xs)"
  using assms(2)
proof (induction xs)
  case (Cons y ys)
  have set: "set (insert_stable lt x ys) = insert x (set ys)"
    by (metis mset_insert_stable set_mset_add_mset_insert set_mset_mset)
  show ?case
  proof (cases "lt y x")
    case True
    then have "\<not> lt x y" by (rule weak_orderD [OF assms(1)])
    with True Cons show ?thesis by (simp add: set)
  next
    case False
    have "\<forall>z \<in> set ys. \<not> lt z x"
    proof
      fix z
      assume "z \<in> set ys"
      then have "\<not> lt z y" using Cons.prems by simp
      with False show "\<not> lt z x" by (rule weak_orderD [OF assms(1)])
    qed
    with False Cons.prems show ?thesis by simp
  qed
qed simp

lemma sorted_sort_stable: "weak_order lt \<Longrightarrow> sorted_wrt (\<lambda>a b. \<not> lt b a) (sort_stable lt xs)"
  unfolding sort_stable_def by (induction xs) (auto intro: sorted_insert_stable)

section \<open>Sorting of versions\<close>

definition compareVersions :: "semver \<Rightarrow> string \<Rightarrow> string \<Rightarrow> int" where
  "compareVersions sv left right = CompareVersions sv left right"

definition sortReleaseSummaries :: "semver \<Rightarrow> release_summary list \<Rightarrow> release_summary list" where
  "sortReleaseSummaries sv =
     sort_stable (\<lambda>x y. let cmp = compareVersions sv (s_Version x) (s_Version y) in
       if cmp \<noteq> 0 then 0 < cmp else s_CreatedAt y < s_CreatedAt x)"

definition sortModuleVersions :: "semver \<Rightarrow> module_version list \<Rightarrow> module_version list" where
  "sortModuleVersions sv =
     sort_stable (\<lambda>x y. let cmp = compareVersions sv (mv_Version x) (mv_Version y) in
       if cmp \<noteq> 0 then 0 < cmp else mv_CreatedAt y < mv_CreatedAt x)"

definition sortModuleReleaseSummaries :: "semver \<Rightarrow> release_summary list \<Rightarrow> release_summary list" where
  "sortModuleReleaseSummaries sv =
     sort_stable (\<lambda>x y.
       if s_Owner x \<noteq> s_Owner y then s_Owner x < s_Owner y
       else if s_Name x \<noteq> s_Name y then s_Name x < s_Name y
       else let cmp = compareVersions sv (s_Version x) (s_Version y) in
         if cmp \<noteq> 0 then 0 < cmp else s_CreatedAt y < s_CreatedAt x)"

text \<open>Descending by version, then by time: a weak order.\<close>

definition version_desc :: "semver \<Rightarrow> ('a \<Rightarrow> string) \<Rightarrow> ('a \<Rightarrow> time) \<Rightarrow> 'a \<Rightarrow> 'a \<Rightarrow> bool" where
  "version_desc sv ver at x y =
     (let cmp = compareVersions sv (ver x) (ver y) in if cmp \<noteq> 0 then 0 < cmp else at y < at x)"

lemma weak_version_desc:
  assumes "semver_package sv"
  shows "weak_order (version_desc sv ver at)"
proof -
  note swap = semver_package.CompareVersions_swap [OF assms]
  note trans = semver_package.CompareVersions_trans [OF assms]
  have anti: "version_desc sv ver at x y \<Longrightarrow> \<not> version_desc sv ver at y x" for x y
    using swap [of "ver y" "ver x"] by (auto simp: version_desc_def compareVersions_def Let_def split: if_splits)
  have "\<not> version_desc sv ver at z x" if "\<not> version_desc sv ver at y x" "\<not> version_desc sv ver at z y" for x y z
  proof -
    have yx: "CompareVersions sv (ver y) (ver x) \<le> 0" and zy: "CompareVersions sv (ver z) (ver y) \<le> 0"
      using that by (auto simp: version_desc_def compareVersions_def Let_def split: if_splits)
    have "CompareVersions sv (ver z) (ver x) \<le> 0" by (rule trans [OF zy yx])
    moreover have "at z \<le> at x" if zx: "CompareVersions sv (ver z) (ver x) = 0"
    proof -
      have "CompareVersions sv (ver x) (ver z) \<le> 0" using zx swap [of "ver x" "ver z"] by simp
      then have "CompareVersions sv (ver x) (ver y) \<le> 0" "CompareVersions sv (ver y) (ver z) \<le> 0"
        using trans zy yx by blast+
      then have "CompareVersions sv (ver y) (ver x) = 0" "CompareVersions sv (ver z) (ver y) = 0"
        using yx zy swap [of "ver x" "ver y"] swap [of "ver y" "ver z"] by linarith+
      with that show ?thesis
        using \<open>\<not> version_desc sv ver at y x\<close> \<open>\<not> version_desc sv ver at z y\<close>
        by (simp add: version_desc_def compareVersions_def)
    qed
    ultimately show ?thesis by (auto simp: version_desc_def compareVersions_def Let_def)
  qed
  with anti show ?thesis unfolding weak_order_def by blast
qed

lemma sortReleaseSummaries_desc: "sortReleaseSummaries sv = sort_stable (version_desc sv s_Version s_CreatedAt)"
  by (simp add: sortReleaseSummaries_def version_desc_def [abs_def])

lemma sortModuleVersions_desc: "sortModuleVersions sv = sort_stable (version_desc sv mv_Version mv_CreatedAt)"
  by (simp add: sortModuleVersions_def version_desc_def [abs_def])

end
