(* ===== verification/SqliteModules.thy ===== *)
theory SqliteModules
  imports StoreTypes "HOL-Library.Product_Lexorder"
begin

text \<open>
  Modules, releases, tombstones, usage and the outbox of artifact deletions in the SQLite store
  (\<open>internal/store/sqlite.go\<close>, \<open>sqlite_artifact_deletions.go\<close>, \<open>mutation_audit.go\<close>,
  \<open>audit_events.go\<close>, \<open>release_pagination.go\<close>). A transaction works on a copy of the database that
  the commit makes the new state; an operation that fails returns the old state. The connection
  enforces foreign keys, as the schema asks for.
\<close>

section \<open>Environment\<close>

text \<open>
  What an operation reads from outside: the clock, the fresh identifiers of \<open>uuid.NewString\<close> and
  the semantic version package.
\<close>

record env =
  v_sv :: semver
  v_now :: time
  v_uuid :: string
  v_audit_uuid :: string

text \<open>The audit event a context carries, and whether it has been recorded.\<close>

record mutation_audit =
  ma_event :: audit_event
  ma_recorded :: bool

type_synonym audit_ctx = "mutation_audit option"

section \<open>Audit events\<close>

definition zero_time :: time where
  "zero_time = - (62135596800 * second)"

definition recordSQLiteAuditEvent :: "env \<Rightarrow> db \<Rightarrow> audit_event \<Rightarrow> db result" where
  "recordSQLiteAuditEvent v s event0 =
     (let event1 = (if a_ID event0 = [] then event0\<lparr>a_ID := v_audit_uuid v\<rparr> else event0);
          event = (if a_OccurredAt event1 = zero_time then event1\<lparr>a_OccurredAt := v_now v\<rparr> else event1)
      in if a_ID event \<in> a_ID ` set (db_audit s) then Inl (StoreError ''record audit event'')
         else Inr (s\<lparr>db_audit := db_audit s @ [event]\<rparr>))"

definition ContextWithMutationAudit :: "env \<Rightarrow> audit_event \<Rightarrow> audit_ctx" where
  "ContextWithMutationAudit v event =
     Some \<lparr>ma_event = (if a_ID event = [] then event\<lparr>a_ID := v_audit_uuid v\<rparr> else event),
           ma_recorded = False\<rparr>"

definition EnrichMutationAudit :: "audit_ctx \<Rightarrow> (string, string) gomap \<Rightarrow> audit_ctx" where
  "EnrichMutationAudit c attrs =
     map_option (\<lambda>a. a\<lparr>ma_event := (ma_event a)\<lparr>a_Attributes :=
       fold (\<lambda>(k, x). map_set k x) attrs (a_Attributes (ma_event a))\<rparr>\<rparr>) c"

definition PendingMutationAudit :: "audit_ctx \<Rightarrow> audit_event option" where
  "PendingMutationAudit c =
     (case c of None \<Rightarrow> None | Some a \<Rightarrow> if ma_recorded a then None else Some (ma_event a))"

definition MutationAuditRecorded :: "audit_ctx \<Rightarrow> bool" where
  "MutationAuditRecorded c = (case c of None \<Rightarrow> False | Some a \<Rightarrow> ma_recorded a)"

definition MarkMutationAuditRecorded :: "audit_ctx \<Rightarrow> audit_ctx" where
  "MarkMutationAuditRecorded c = map_option (\<lambda>a. a\<lparr>ma_recorded := True\<rparr>) c"

text \<open>The transaction \<open>tx\<close> becomes the state together with its audit event, or not at all.\<close>

definition commitSQLiteMutation :: "env \<Rightarrow> audit_ctx \<Rightarrow> db \<Rightarrow> (audit_ctx \<times> db) result" where
  "commitSQLiteMutation v c tx =
     (case PendingMutationAudit c of
        Some event \<Rightarrow>
          (case recordSQLiteAuditEvent v tx event of
             Inl e \<Rightarrow> Inl e
           | Inr tx1 \<Rightarrow> Inr (MarkMutationAuditRecorded c, tx1))
      | None \<Rightarrow> Inr (MarkMutationAuditRecorded c, tx))"

text \<open>An operation that fails leaves the state it found.\<close>

type_synonym 'a op_result = "(audit_ctx \<times> db) \<times> 'a result"

definition rolled_back :: "audit_ctx \<Rightarrow> db \<Rightarrow> store_error \<Rightarrow> 'a op_result" where
  "rolled_back c s e = ((c, s), Inl e)"

section \<open>Reading modules and releases\<close>

definition moduleSlug :: "string \<Rightarrow> string \<Rightarrow> string" where
  "moduleSlug owner name = owner @ ''-'' @ name"

definition releaseSlug :: "string \<Rightarrow> string \<Rightarrow> string \<Rightarrow> string" where
  "releaseSlug owner name version = moduleSlug owner name @ ''-'' @ version"

definition normalizeReleaseMetadata :: "string \<Rightarrow> string" where
  "normalizeReleaseMetadata metadata = (if metadata = ''null'' \<or> metadata = [] then ''{}'' else metadata)"

definition scanModule :: "module_row \<Rightarrow> domain_module" where
  "scanModule m =
     \<lparr>m_ID = mr_id m, m_Owner = mr_owner m, m_Name = mr_name m,
      m_LatestVersion = (case mr_latest_version m of None \<Rightarrow> [] | Some v \<Rightarrow> v),
      m_CreatedAt = mr_created_at m, m_UpdatedAt = mr_updated_at m\<rparr>"

definition scanRelease :: "module_row \<Rightarrow> release_row \<Rightarrow> release" where
  "scanRelease m r =
     \<lparr>r_ID = rr_id r, r_ModuleID = rr_module_id r, r_Owner = mr_owner m, r_Name = mr_name m,
      r_Source = rr_source r, r_Version = rr_version r, r_Description = rr_description r,
      r_Readme = rr_readme r, r_FileName = rr_file_name r, r_ContentType = rr_content_type r,
      r_SizeBytes = rr_size_bytes r, r_MD5 = rr_md5 r, r_SHA256 = rr_sha256 r,
      r_StoragePath = rr_storage_path r, r_UpstreamSlug = rr_upstream_slug r,
      r_UpstreamFileURI = rr_upstream_file_uri r, r_DownloadURL = [],
      r_Metadata = normalizeReleaseMetadata (rr_metadata r), r_CreatedAt = rr_created_at r\<rparr>"

definition module_of :: "db \<Rightarrow> string \<Rightarrow> string \<Rightarrow> module_row option" where
  "module_of s owner name = find (\<lambda>m. mr_owner m = owner \<and> mr_name m = name) (db_modules s)"

definition release_of :: "db \<Rightarrow> string \<Rightarrow> string \<Rightarrow> release_row option" where
  "release_of s module_id version =
     find (\<lambda>r. rr_module_id r = module_id \<and> rr_version r = version) (db_releases s)"

text \<open>\<open>releases r join modules m on m.id = r.module_id\<close>, in the order of the releases.\<close>

definition joined :: "db \<Rightarrow> (module_row \<times> release_row) list" where
  "joined s =
     concat (map (\<lambda>r. map (\<lambda>m. (m, r)) (filter (\<lambda>m. mr_id m = rr_module_id r) (db_modules s))) (db_releases s))"

definition has_releases :: "db \<Rightarrow> module_row \<Rightarrow> bool" where
  "has_releases s m = (\<exists>r \<in> set (db_releases s). rr_module_id r = mr_id m)"

definition GetModule :: "db \<Rightarrow> string \<Rightarrow> string \<Rightarrow> domain_module result" where
  "GetModule s owner name =
     (case module_of s owner name of None \<Rightarrow> Inl ErrNotFound | Some m \<Rightarrow> Inr (scanModule m))"

definition GetModuleBySlug :: "db \<Rightarrow> string \<Rightarrow> domain_module result" where
  "GetModuleBySlug s slug =
     (case find (\<lambda>m. mr_slug m = slug) (db_modules s) of
        None \<Rightarrow> Inl ErrNotFound | Some m \<Rightarrow> Inr (scanModule m))"

text \<open>
  \<open>LIKE\<close> of SQLite: \<open>%\<close> matches any text, \<open>_\<close> one character, and other characters match
  regardless of the case of ASCII letters.
\<close>

definition ascii_lower :: "char \<Rightarrow> char" where
  "ascii_lower c = (if CHR ''A'' \<le> c \<and> c \<le> CHR ''Z'' then char_of ((of_char c :: nat) + 32) else c)"

function sql_like :: "string \<Rightarrow> string \<Rightarrow> bool" where
  "sql_like [] s = (s = [])"
| "sql_like (p # ps) s =
     (if p = CHR ''%'' then sql_like ps s \<or> (case s of [] \<Rightarrow> False | _ # t \<Rightarrow> sql_like (p # ps) t)
      else case s of
        [] \<Rightarrow> False
      | c # t \<Rightarrow> (p = CHR ''_'' \<or> ascii_lower p = ascii_lower c) \<and> sql_like ps t)"
  by pat_completeness auto
termination by (relation "measure (\<lambda>(p, s). length p + length s)") auto

text \<open>Of several modules with the longest matching slug, SQL leaves open which is returned.\<close>

definition GetModuleForReleaseSlug :: "db \<Rightarrow> string \<Rightarrow> domain_module result" where
  "GetModuleForReleaseSlug s slug =
     (case sort_key (\<lambda>m. - int (length (mr_slug m)))
             (filter (\<lambda>m. sql_like (mr_slug m @ ''-%'') slug) (db_modules s)) of
        [] \<Rightarrow> Inl ErrNotFound | m # _ \<Rightarrow> Inr (scanModule m))"

definition GetRelease :: "db \<Rightarrow> string \<Rightarrow> string \<Rightarrow> string \<Rightarrow> release result" where
  "GetRelease s owner name version =
     (case find (\<lambda>(m, r). mr_owner m = owner \<and> mr_name m = name \<and> rr_version r = version) (joined s) of
        None \<Rightarrow> Inl ErrNotFound | Some (m, r) \<Rightarrow> Inr (scanRelease m r))"

definition GetReleaseBySlug :: "db \<Rightarrow> string \<Rightarrow> release result" where
  "GetReleaseBySlug s slug =
     (case find (\<lambda>(m, r). rr_slug r = slug) (joined s) of
        None \<Rightarrow> Inl ErrNotFound | Some (m, r) \<Rightarrow> Inr (scanRelease m r))"

section \<open>Modules\<close>

definition UpsertModule :: "env \<Rightarrow> db \<Rightarrow> string \<Rightarrow> string \<Rightarrow> db \<times> domain_module result" where
  "UpsertModule v s owner name =
     (let slug = moduleSlug owner name in
      if sql_blank owner \<or> sql_blank name \<or> sql_blank slug then (s, Inl (StoreError ''upsert module''))
      else case module_of s owner name of
        Some m \<Rightarrow>
          if \<exists>x \<in> set (db_modules s). mr_slug x = slug \<and> mr_id x \<noteq> mr_id m
          then (s, Inl (StoreError ''upsert module''))
          else let s1 = s\<lparr>db_modules := update_where (\<lambda>x. mr_owner x = owner \<and> mr_name x = name)
                           (\<lambda>x. x\<lparr>mr_slug := slug\<rparr>) (db_modules s)\<rparr>
               in (s1, GetModule s1 owner name)
      | None \<Rightarrow>
          if v_uuid v \<in> mr_id ` set (db_modules s) \<or> slug \<in> mr_slug ` set (db_modules s)
          then (s, Inl (StoreError ''upsert module''))
          else let s1 = s\<lparr>db_modules := db_modules s @
                           [\<lparr>mr_id = v_uuid v, mr_owner = owner, mr_name = name, mr_slug = slug,
                             mr_latest_version = None, mr_upstream_refreshed_at = None,
                             mr_created_at = sql_now (v_now v), mr_updated_at = sql_now (v_now v)\<rparr>]\<rparr>
               in (s1, GetModule s1 owner name))"

definition MarkUpstreamModuleRefreshAttempt :: "db \<Rightarrow> string \<Rightarrow> string \<Rightarrow> time \<Rightarrow> db \<times> unit result" where
  "MarkUpstreamModuleRefreshAttempt s owner name attemptedAt =
     (if module_of s owner name = None then (s, Inl ErrNotFound)
      else (s\<lparr>db_modules := update_where (\<lambda>m. mr_owner m = owner \<and> mr_name m = name)
               (\<lambda>m. m\<lparr>mr_upstream_refreshed_at := Some attemptedAt\<rparr>) (db_modules s)\<rparr>, Inr ()))"

section \<open>Creating releases\<close>

definition release_row_of :: "env \<Rightarrow> release \<Rightarrow> release_row" where
  "release_row_of v r =
     \<lparr>rr_id = r_ID r, rr_module_id = r_ModuleID r,
      rr_slug = releaseSlug (r_Owner r) (r_Name r) (r_Version r), rr_source = r_Source r,
      rr_version = r_Version r, rr_description = r_Description r, rr_readme = r_Readme r,
      rr_file_name = r_FileName r, rr_content_type = r_ContentType r, rr_size_bytes = r_SizeBytes r,
      rr_md5 = r_MD5 r, rr_sha256 = r_SHA256 r, rr_storage_path = r_StoragePath r,
      rr_upstream_slug = r_UpstreamSlug r, rr_upstream_file_uri = r_UpstreamFileURI r,
      rr_metadata = r_Metadata r, rr_version_order = releaseVersionOrder (v_sv v) (r_Version r),
      rr_created_at = sql_now (v_now v)\<rparr>"

text \<open>The columns \<open>on conflict (module_id, version) do update\<close> sets.\<close>

definition replace_row :: "release \<Rightarrow> release_row \<Rightarrow> release_row" where
  "replace_row r x =
     x\<lparr>rr_source := r_Source r, rr_description := r_Description r, rr_readme := r_Readme r,
       rr_file_name := r_FileName r, rr_content_type := r_ContentType r, rr_size_bytes := r_SizeBytes r,
       rr_md5 := r_MD5 r, rr_sha256 := r_SHA256 r, rr_storage_path := r_StoragePath r,
       rr_upstream_slug := r_UpstreamSlug r, rr_upstream_file_uri := r_UpstreamFileURI r,
       rr_metadata := r_Metadata r\<rparr>"

text \<open>The triggers and constraints of the table.\<close>

definition valid_row :: "release_row \<Rightarrow> bool" where
  "valid_row x =
     (\<not> sql_blank (rr_version x) \<and> \<not> sql_blank (rr_slug x) \<and> 0 \<le> rr_size_bytes x \<and>
      rr_source x \<in> {''local'', ''upstream''})"

definition insert_release_row :: "env \<Rightarrow> db \<Rightarrow> release \<Rightarrow> bool \<Rightarrow> (db \<times> nat) result" where
  "insert_release_row v s release createOnly =
     (let row = release_row_of v release in
      if \<not> valid_row row then Inl (StoreError ''insert release'')
      else case release_of s (rr_module_id row) (rr_version row) of
        Some x \<Rightarrow>
          if createOnly then Inr (s, 0)
          else Inr (s\<lparr>db_releases := update_where
                       (\<lambda>y. rr_module_id y = rr_module_id row \<and> rr_version y = rr_version row)
                       (replace_row release) (db_releases s)\<rparr>, 1)
      | None \<Rightarrow>
          if rr_id row \<in> rr_id ` set (db_releases s) \<or> rr_slug row \<in> rr_slug ` set (db_releases s) \<or>
             rr_module_id row \<notin> mr_id ` set (db_modules s)
          then Inl (StoreError ''insert release'')
          else Inr (s\<lparr>db_releases := db_releases s @ [row]\<rparr>, 1))"

definition currentLatestVersion :: "db \<Rightarrow> string \<Rightarrow> string result" where
  "currentLatestVersion s moduleID =
     (case find (\<lambda>m. mr_id m = moduleID) (db_modules s) of
        None \<Rightarrow> Inl (StoreError ''get current latest version'')
      | Some m \<Rightarrow> Inr (case mr_latest_version m of None \<Rightarrow> [] | Some l \<Rightarrow> l))"

definition updateLatestVersion :: "env \<Rightarrow> db \<Rightarrow> string \<Rightarrow> string \<Rightarrow> db" where
  "updateLatestVersion v s moduleID latest =
     s\<lparr>db_modules := update_where (\<lambda>m. mr_id m = moduleID)
        (\<lambda>m. m\<lparr>mr_latest_version := Some latest, mr_updated_at := sql_now (v_now v)\<rparr>) (db_modules s)\<rparr>"

definition finishReleaseMutation :: "env \<Rightarrow> audit_ctx \<Rightarrow> db \<Rightarrow> release \<Rightarrow> (audit_ctx \<times> db) result" where
  "finishReleaseMutation v c tx release =
     (case currentLatestVersion tx (r_ModuleID release) of
        Inl e \<Rightarrow> Inl e
      | Inr current \<Rightarrow>
          commitSQLiteMutation v c
            (updateLatestVersion v tx (r_ModuleID release)
              (latestVersionWithCandidate (v_sv v) current (r_Version release))))"

definition queue_deletion :: "env \<Rightarrow> db \<Rightarrow> string \<Rightarrow> string \<Rightarrow> string \<Rightarrow> db" where
  "queue_deletion v s path owner name =
     s\<lparr>db_deletions := insert_or_ignore dr_storage_path
        \<lparr>dr_storage_path = path, dr_owner = owner, dr_name = name,
         dr_created_at = sql_now (v_now v), dr_next_attempt_at = sql_now (v_now v)\<rparr> (db_deletions s)\<rparr>"

text \<open>
  The outbox after the row is written: the new local artifact is no longer pending, and the local
  artifact it replaces (read in \<open>s\<close>, before the row was written) is queued.
\<close>

definition create_outbox :: "env \<Rightarrow> db \<Rightarrow> release \<Rightarrow> bool \<Rightarrow> db \<Rightarrow> db" where
  "create_outbox v s release createOnly tx =
     (let (previousSource, previousStoragePath) =
            (if createOnly then ([], [])
             else case release_of s (r_ModuleID release) (r_Version release) of
               None \<Rightarrow> ([], []) | Some x \<Rightarrow> (rr_source x, rr_storage_path x));
          tx1 = (if r_Source release = ''local'' \<and> r_StoragePath release \<noteq> []
                 then tx\<lparr>db_deletions := delete_where
                        (\<lambda>d. dr_storage_path d = r_StoragePath release) (db_deletions tx)\<rparr>
                 else tx)
      in if previousSource = ''local'' \<and> previousStoragePath \<noteq> [] \<and>
            previousStoragePath \<noteq> r_StoragePath release
         then queue_deletion v tx1 previousStoragePath (r_Owner release) (r_Name release) else tx1)"

definition createRelease :: "env \<Rightarrow> audit_ctx \<Rightarrow> db \<Rightarrow> release \<Rightarrow> bool \<Rightarrow> release op_result" where
  "createRelease v c s release createOnly =
     (case insert_release_row v s release createOnly of
        Inl e \<Rightarrow> rolled_back c s e
      | Inr (tx, rows) \<Rightarrow>
          if createOnly \<and> rows = 0 then rolled_back c s ErrConflict
          else case finishReleaseMutation v c (create_outbox v s release createOnly tx) release of
                 Inl e \<Rightarrow> rolled_back c s e
               | Inr (c1, s1) \<Rightarrow>
                   ((c1, s1), GetRelease s1 (r_Owner release) (r_Name release) (r_Version release)))"

definition CreateRelease :: "env \<Rightarrow> audit_ctx \<Rightarrow> db \<Rightarrow> release \<Rightarrow> release op_result" where
  "CreateRelease v c s release = createRelease v c s release False"

definition CreateReleaseIfAbsent :: "env \<Rightarrow> audit_ctx \<Rightarrow> db \<Rightarrow> release \<Rightarrow> release op_result" where
  "CreateReleaseIfAbsent v c s release = createRelease v c s release True"

definition UpdateReleaseChecksums ::
  "db \<Rightarrow> string \<Rightarrow> string \<Rightarrow> string \<Rightarrow> string \<Rightarrow> string \<Rightarrow> string \<Rightarrow> int \<Rightarrow> db \<times> unit result" where
  "UpdateReleaseChecksums s owner name version md5 sha256 storagePath sizeBytes =
     (case module_of s owner name of
        None \<Rightarrow> (s, Inl ErrNotFound)
      | Some m \<Rightarrow>
          if release_of s (mr_id m) version = None then (s, Inl ErrNotFound)
          else if sizeBytes < 0 then (s, Inl (StoreError ''update release checksums''))
          else (s\<lparr>db_releases := update_where (\<lambda>r. rr_module_id r = mr_id m \<and> rr_version r = version)
                   (\<lambda>r. r\<lparr>rr_md5 := md5, rr_sha256 := sha256, rr_storage_path := storagePath,
                          rr_size_bytes := sizeBytes\<rparr>) (db_releases s)\<rparr>, Inr ()))"

section \<open>Deleting\<close>

text \<open>\<open>on delete cascade\<close>.\<close>

definition delete_modules :: "(module_row \<Rightarrow> bool) \<Rightarrow> db \<Rightarrow> db" where
  "delete_modules p s =
     s\<lparr>db_modules := delete_where p (db_modules s),
       db_releases := delete_where
         (\<lambda>r. \<exists>m \<in> set (db_modules s). p m \<and> mr_id m = rr_module_id r) (db_releases s)\<rparr>"

text \<open>The statements of the transaction of \<open>DeleteModule\<close>, before the check for a deleted row.\<close>

definition delete_module_tx :: "env \<Rightarrow> db \<Rightarrow> string \<Rightarrow> string \<Rightarrow> db" where
  "delete_module_tx v s owner name =
     (let paths = map (\<lambda>(m, r). rr_storage_path r)
            (filter (\<lambda>(m, r). mr_owner m = owner \<and> mr_name m = name \<and> rr_source r = ''local'' \<and>
                              rr_storage_path r \<noteq> []) (joined s));
          tx1 = fold (\<lambda>path t. queue_deletion v t path owner name) paths s
      in delete_modules (\<lambda>m. mr_owner m = owner \<and> mr_name m = name) tx1)"

definition DeleteModule :: "env \<Rightarrow> audit_ctx \<Rightarrow> db \<Rightarrow> string \<Rightarrow> string \<Rightarrow> unit op_result" where
  "DeleteModule v c s owner name =
     (if module_of s owner name = None then rolled_back c s ErrNotFound
      else
        let tx = delete_module_tx v s owner name;
            tx1 = tx\<lparr>db_tombstones := delete_where (\<lambda>t. tr_owner t = owner \<and> tr_name t = name) (db_tombstones tx),
                     db_usage := delete_where (\<lambda>u. ur_owner u = owner \<and> ur_name u = name) (db_usage tx)\<rparr>
        in case commitSQLiteMutation v c tx1 of
             Inl e \<Rightarrow> rolled_back c s e
           | Inr cs \<Rightarrow> (cs, Inr ()))"

definition delete_empty_module :: "string \<Rightarrow> string \<Rightarrow> db \<Rightarrow> db" where
  "delete_empty_module owner name s =
     delete_modules (\<lambda>m. mr_owner m = owner \<and> mr_name m = name \<and> \<not> has_releases s m) s"

definition DeleteModuleIfEmpty :: "db \<Rightarrow> string \<Rightarrow> string \<Rightarrow> db \<times> unit result" where
  "DeleteModuleIfEmpty s owner name = (delete_empty_module owner name s, Inr ())"

definition sqliteLatestVersion :: "semver \<Rightarrow> db \<Rightarrow> string \<Rightarrow> string" where
  "sqliteLatestVersion sv s moduleID =
     foldl (\<lambda>latest version. latestVersionWithCandidate sv latest version) []
       (map rr_version (filter (\<lambda>r. rr_module_id r = moduleID) (db_releases s)))"

text \<open>The statements of the transaction of \<open>DeleteRelease\<close>, once the release has been found.\<close>

definition delete_release_tx ::
  "env \<Rightarrow> db \<Rightarrow> module_row \<Rightarrow> release_row \<Rightarrow> string \<Rightarrow> string \<Rightarrow> string \<Rightarrow> db" where
  "delete_release_tx v s m r owner name version =
     (let tx1 = (if rr_source r = ''local'' \<and> rr_storage_path r \<noteq> []
                 then queue_deletion v s (rr_storage_path r) owner name else s);
          tx2 = tx1\<lparr>db_releases := delete_where
                  (\<lambda>x. rr_module_id x = mr_id m \<and> rr_version x = version) (db_releases tx1)\<rparr>;
          tx3 = (if rr_source r = ''upstream''
                 then tx2\<lparr>db_tombstones := insert_or_update
                        (\<lambda>t. (tr_owner t, tr_name t, tr_version t, tr_source t))
                        (\<lambda>t. t\<lparr>tr_deleted_at := sql_now (v_now v)\<rparr>)
                        \<lparr>tr_owner = owner, tr_name = name, tr_version = version, tr_source = rr_source r,
                         tr_deleted_at = sql_now (v_now v)\<rparr> (db_tombstones tx2)\<rparr>
                 else tx2);
          tx4 = updateLatestVersion v tx3 (mr_id m) (sqliteLatestVersion (v_sv v) tx3 (mr_id m))
      in delete_empty_module owner name tx4)"

definition DeleteRelease :: "env \<Rightarrow> audit_ctx \<Rightarrow> db \<Rightarrow> string \<Rightarrow> string \<Rightarrow> string \<Rightarrow> unit op_result" where
  "DeleteRelease v c s owner name version =
     (case find (\<lambda>(m, r). mr_owner m = owner \<and> mr_name m = name \<and> rr_version r = version) (joined s) of
        None \<Rightarrow> rolled_back c s ErrNotFound
      | Some (m, r) \<Rightarrow>
          (case commitSQLiteMutation v c (delete_release_tx v s m r owner name version) of
             Inl e \<Rightarrow> rolled_back c s e
           | Inr cs \<Rightarrow> (cs, Inr ())))"

end
