(* ===== verification/SqliteInvariant.thy ===== *)
theory SqliteInvariant
  imports SqliteModules
begin

text \<open>
  The invariant of the module tables and its preservation by every operation that changes them:
  keys, foreign keys and constraints, order keys, and \<open>latest_version\<close> a highest version of the
  module's releases.
\<close>

section \<open>The invariant\<close>

definition modules_inv :: "module_row list \<Rightarrow> bool" where
  "modules_inv ms =
     (unique_by mr_id ms \<and> unique_by (\<lambda>m. (mr_owner m, mr_name m)) ms \<and> unique_by mr_slug ms \<and>
      (\<forall>m \<in> set ms. mr_slug m = moduleSlug (mr_owner m) (mr_name m)))"

definition releases_inv :: "semver \<Rightarrow> string set \<Rightarrow> release_row list \<Rightarrow> bool" where
  "releases_inv sv ids rs =
     (unique_by rr_id rs \<and> unique_by (\<lambda>r. (rr_module_id r, rr_version r)) rs \<and> unique_by rr_slug rs \<and>
      (\<forall>r \<in> set rs. valid_row r \<and> rr_version_order r = releaseVersionOrder sv (rr_version r) \<and>
                     rr_module_id r \<in> ids))"

definition versions_of :: "release_row list \<Rightarrow> string \<Rightarrow> string set" where
  "versions_of rs module_id = rr_version ` {r \<in> set rs. rr_module_id r = module_id}"

definition latest_ok :: "semver \<Rightarrow> string set \<Rightarrow> string option \<Rightarrow> bool" where
  "latest_ok sv vs latest = (case latest of None \<Rightarrow> vs = {} | Some l \<Rightarrow> highest sv l vs)"

definition latest_inv :: "semver \<Rightarrow> module_row list \<Rightarrow> release_row list \<Rightarrow> bool" where
  "latest_inv sv ms rs = (\<forall>m \<in> set ms. latest_ok sv (versions_of rs (mr_id m)) (mr_latest_version m))"

definition db_inv :: "semver \<Rightarrow> db \<Rightarrow> bool" where
  "db_inv sv s =
     (modules_inv (db_modules s) \<and> releases_inv sv (mr_id ` set (db_modules s)) (db_releases s) \<and>
      latest_inv sv (db_modules s) (db_releases s) \<and> unique_by dr_storage_path (db_deletions s))"

lemma db_inv_empty: "db_inv sv empty_db"
  by (simp add: db_inv_def empty_db_def modules_inv_def releases_inv_def latest_inv_def)

section \<open>Lookups\<close>

lemma module_of_Some:
  "module_of s owner name = Some m \<Longrightarrow> m \<in> set (db_modules s) \<and> mr_owner m = owner \<and> mr_name m = name"
  unfolding module_of_def by (drule find_SomeD) simp

lemma module_of_None:
  "module_of s owner name = None \<longleftrightarrow> (\<forall>m \<in> set (db_modules s). \<not> (mr_owner m = owner \<and> mr_name m = name))"
  by (auto simp: module_of_def find_None_iff)

lemma release_of_Some:
  "release_of s i v = Some r \<Longrightarrow> r \<in> set (db_releases s) \<and> rr_module_id r = i \<and> rr_version r = v"
  unfolding release_of_def by (drule find_SomeD) simp

lemma release_of_None:
  "release_of s i v = None \<longleftrightarrow> (\<forall>r \<in> set (db_releases s). \<not> (rr_module_id r = i \<and> rr_version r = v))"
  by (auto simp: release_of_def find_None_iff)

lemma set_joined:
  "set (joined s) = {(m, r). m \<in> set (db_modules s) \<and> r \<in> set (db_releases s) \<and> mr_id m = rr_module_id r}"
  by (auto simp: joined_def)

lemma modules_invD:
  assumes "modules_inv ms" "m \<in> set ms" "m' \<in> set ms"
  shows "mr_id m = mr_id m' \<Longrightarrow> m = m'"
    "mr_owner m = mr_owner m' \<Longrightarrow> mr_name m = mr_name m' \<Longrightarrow> m = m'"
    "mr_slug m = mr_slug m' \<Longrightarrow> m = m'"
  using assms unfolding modules_inv_def by (auto dest: unique_byD)

lemma releases_invD:
  assumes "releases_inv sv ids rs" "r \<in> set rs" "r' \<in> set rs"
  shows "rr_id r = rr_id r' \<Longrightarrow> r = r'"
    "rr_module_id r = rr_module_id r' \<Longrightarrow> rr_version r = rr_version r' \<Longrightarrow> r = r'"
    "rr_slug r = rr_slug r' \<Longrightarrow> r = r'"
  using assms unfolding releases_inv_def by (auto dest: unique_byD)

lemma releases_inv_row:
  assumes "releases_inv sv ids rs" "r \<in> set rs"
  shows "valid_row r" "rr_version_order r = releaseVersionOrder sv (rr_version r)" "rr_module_id r \<in> ids"
  using assms by (auto simp: releases_inv_def)

section \<open>Elementary changes\<close>

lemma releases_inv_mono: "releases_inv sv ids rs \<Longrightarrow> ids \<subseteq> ids' \<Longrightarrow> releases_inv sv ids' rs"
  by (auto simp: releases_inv_def)

text \<open>Changing columns that no key uses.\<close>

lemma modules_inv_update:
  assumes "modules_inv ms"
    and "\<forall>m. mr_id (f m) = mr_id m \<and> mr_owner (f m) = mr_owner m \<and> mr_name (f m) = mr_name m"
    and "\<forall>m \<in> set ms. p m \<longrightarrow> mr_slug (f m) = mr_slug m"
  shows "modules_inv (update_where p f ms) \<and> mr_id ` set (update_where p f ms) = mr_id ` set ms"
proof -
  have k: "map mr_id (update_where p f ms) = map mr_id ms"
    "map (\<lambda>m. (mr_owner m, mr_name m)) (update_where p f ms) = map (\<lambda>m. (mr_owner m, mr_name m)) ms"
    using assms(2) by (simp_all add: update_where_def)
  have s: "map mr_slug (update_where p f ms) = map mr_slug ms"
    using assms(3) by (simp add: update_where_def)
  have "\<forall>m \<in> set (update_where p f ms). mr_slug m = moduleSlug (mr_owner m) (mr_name m)"
    using assms by (auto simp: modules_inv_def)
  with assms(1) show ?thesis unfolding modules_inv_def k s using k(1) by (metis list.set_map)
qed

lemma releases_inv_update:
  assumes "releases_inv sv ids rs"
    and "\<forall>r. rr_id (f r) = rr_id r \<and> rr_module_id (f r) = rr_module_id r \<and> rr_version (f r) = rr_version r \<and>
             rr_slug (f r) = rr_slug r \<and> rr_version_order (f r) = rr_version_order r"
    and "\<forall>r \<in> set rs. p r \<longrightarrow> valid_row (f r)"
  shows "releases_inv sv ids (update_where p f rs) \<and> versions_of (update_where p f rs) = versions_of rs"
proof -
  have k: "map rr_id (update_where p f rs) = map rr_id rs" "map rr_slug (update_where p f rs) = map rr_slug rs"
    "map (\<lambda>r. (rr_module_id r, rr_version r)) (update_where p f rs) = map (\<lambda>r. (rr_module_id r, rr_version r)) rs"
    using assms(2) by (simp_all add: update_where_def)
  have "versions_of (update_where p f rs) i = versions_of rs i" for i
  proof -
    have "versions_of qs i = snd ` {x \<in> set (map (\<lambda>r. (rr_module_id r, rr_version r)) qs). fst x = i}" for qs
      by (force simp: versions_of_def)
    then show ?thesis by (simp only: k)
  qed
  moreover have "\<forall>r \<in> set (update_where p f rs). valid_row r \<and>
      rr_version_order r = releaseVersionOrder sv (rr_version r) \<and> rr_module_id r \<in> ids"
    using assms by (auto simp: releases_inv_def)
  ultimately show ?thesis using assms(1) unfolding releases_inv_def k by auto
qed

lemma releases_inv_delete: "releases_inv sv ids rs \<Longrightarrow> releases_inv sv ids (delete_where p rs)"
  by (simp add: releases_inv_def unique_by_delete del: distinct_map)

lemma modules_inv_delete: "modules_inv ms \<Longrightarrow> modules_inv (delete_where p ms)"
  by (simp add: modules_inv_def unique_by_delete del: distinct_map)

lemma latest_inv_update_modules:
  assumes "latest_inv sv ms rs" "\<forall>m. mr_id (f m) = mr_id m"
    and "\<forall>m \<in> set ms. p m \<longrightarrow> latest_ok sv (versions_of rs (mr_id m)) (mr_latest_version (f m))"
  shows "latest_inv sv (update_where p f ms) rs"
  using assms by (auto simp: latest_inv_def)

lemma delete_modules_inv:
  assumes "modules_inv (db_modules s)" "releases_inv sv (mr_id ` set (db_modules s)) (db_releases s)"
    and "\<forall>m \<in> set (db_modules s). \<not> p m \<longrightarrow> latest_ok sv (versions_of (db_releases s) (mr_id m)) (mr_latest_version m)"
    and "unique_by dr_storage_path (db_deletions s)"
  shows "db_inv sv (delete_modules p s)"
proof -
  let ?t = "delete_modules p s"
  have mods: "db_modules ?t = delete_where p (db_modules s)"
    and rels: "db_releases ?t = delete_where (\<lambda>r. \<exists>m \<in> set (db_modules s). p m \<and> mr_id m = rr_module_id r) (db_releases s)"
    and dels: "db_deletions ?t = db_deletions s"
    by (simp_all add: delete_modules_def)
  have "rr_module_id r \<in> mr_id ` set (db_modules ?t)" if "r \<in> set (db_releases ?t)" for r
    using that assms(2) unfolding mods rels by (fastforce simp: releases_inv_def)
  moreover have "releases_inv sv (mr_id ` set (db_modules s)) (db_releases ?t)"
    unfolding rels by (rule releases_inv_delete [OF assms(2)])
  ultimately have "releases_inv sv (mr_id ` set (db_modules ?t)) (db_releases ?t)"
    by (simp add: releases_inv_def)
  moreover have "versions_of (db_releases ?t) (mr_id m) = versions_of (db_releases s) (mr_id m)"
    if m: "m \<in> set (db_modules ?t)" for m
  proof -
    have "\<not> (\<exists>m' \<in> set (db_modules s). p m' \<and> mr_id m' = mr_id m)"
      using m modules_invD(1) [OF assms(1)] unfolding mods by auto
    then show ?thesis unfolding versions_of_def rels by auto
  qed
  then have "latest_inv sv (db_modules ?t) (db_releases ?t)"
    using assms(3) unfolding latest_inv_def by (simp add: mods)
  ultimately show ?thesis
    unfolding db_inv_def using modules_inv_delete [OF assms(1)] assms(4) by (simp add: mods dels)
qed

section \<open>Commit\<close>

lemma commit_cases:
  assumes "commitSQLiteMutation v c tx = Inr (c1, s1)"
  shows "\<exists>audit. s1 = tx\<lparr>db_audit := audit\<rparr>"
  using assms
  by (intro exI [of _ "db_audit s1"])
    (auto simp: commitSQLiteMutation_def recordSQLiteAuditEvent_def Let_def split: option.splits if_splits)

lemma db_inv_audit: "db_inv sv (s\<lparr>db_audit := a\<rparr>) = db_inv sv s"
  by (simp add: db_inv_def)

lemma commit_inv: "commitSQLiteMutation v c tx = Inr (c1, s1) \<Longrightarrow> db_inv sv s1 = db_inv sv tx"
  by (drule commit_cases) (auto simp: db_inv_audit)

section \<open>The operations\<close>

lemma db_invD:
  assumes "db_inv sv s"
  shows "modules_inv (db_modules s)" "releases_inv sv (mr_id ` set (db_modules s)) (db_releases s)"
    "latest_inv sv (db_modules s) (db_releases s)" "unique_by dr_storage_path (db_deletions s)"
  using assms by (simp_all add: db_inv_def)

lemma queue_deletion_simps [simp]:
  "db_modules (queue_deletion v s path owner name) = db_modules s"
  "db_releases (queue_deletion v s path owner name) = db_releases s"
  "db_tombstones (queue_deletion v s path owner name) = db_tombstones s"
  "db_usage (queue_deletion v s path owner name) = db_usage s"
  "db_audit (queue_deletion v s path owner name) = db_audit s"
  by (simp_all add: queue_deletion_def)

lemma queue_deletion_inv [keep_inv]: "db_inv sv s \<Longrightarrow> db_inv sv (queue_deletion v s path owner name)"
  by (simp add: db_inv_def) (simp add: queue_deletion_def)

lemma pending_queue_deletion:
  "dr_storage_path ` set (db_deletions (queue_deletion v s path owner name)) =
     insert path (dr_storage_path ` set (db_deletions s))"
  by (auto simp: queue_deletion_def set_insert_or_ignore)

lemma cancel_deletion_inv [keep_inv]: "db_inv sv s \<Longrightarrow> db_inv sv (s\<lparr>db_deletions := delete_where p (db_deletions s)\<rparr>)"
  by (simp add: db_inv_def unique_by_delete del: distinct_map)

lemma db_inv_others [simp]:
  "db_inv sv (s\<lparr>db_tombstones := t\<rparr>) = db_inv sv s" "db_inv sv (s\<lparr>db_usage := u\<rparr>) = db_inv sv s"
  by (simp_all add: db_inv_def)

lemma UpsertModule_inv [keep_inv]:
  assumes inv: "db_inv sv s"
  shows "db_inv sv (fst (UpsertModule v s owner name))"
proof -
  let ?slug = "moduleSlug owner name"
  show ?thesis
  proof (cases "module_of s owner name")
    case (Some m)
    let ?ms = "update_where (\<lambda>x. mr_owner x = owner \<and> mr_name x = name) (\<lambda>x. x\<lparr>mr_slug := ?slug\<rparr>) (db_modules s)"
    have f: "\<forall>x \<in> set (db_modules s). mr_owner x = owner \<and> mr_name x = name \<longrightarrow> ?slug = mr_slug x"
      using db_invD(1) [OF inv] by (auto simp: modules_inv_def)
    have ok: "modules_inv ?ms \<and> mr_id ` set ?ms = mr_id ` set (db_modules s)"
      using f by (intro modules_inv_update [OF db_invD(1) [OF inv]]) auto
    have "latest_inv sv ?ms (db_releases s)"
      using db_invD(3) [OF inv] by (intro latest_inv_update_modules) (auto simp: latest_inv_def)
    then have "db_inv sv (s\<lparr>db_modules := ?ms\<rparr>)" using ok db_invD [OF inv] unfolding db_inv_def by simp
    with inv show ?thesis by (simp add: UpsertModule_def Let_def Some)
  next
    case None
    let ?m = "\<lparr>mr_id = v_uuid v, mr_owner = owner, mr_name = name, mr_slug = ?slug,
         mr_latest_version = None, mr_upstream_refreshed_at = None,
         mr_created_at = sql_now (v_now v), mr_updated_at = sql_now (v_now v)\<rparr>"
    have "db_inv sv (s\<lparr>db_modules := db_modules s @ [?m]\<rparr>)"
      if fresh: "v_uuid v \<notin> mr_id ` set (db_modules s)" "?slug \<notin> mr_slug ` set (db_modules s)"
    proof -
      have "(owner, name) \<notin> (\<lambda>m. (mr_owner m, mr_name m)) ` set (db_modules s)"
        using None by (auto simp: module_of_None)
      then have "modules_inv (db_modules s @ [?m])"
        using db_invD(1) [OF inv] fresh by (auto simp: modules_inv_def)
      moreover have "versions_of (db_releases s) (v_uuid v) = {}"
        using fresh(1) by (auto simp: versions_of_def dest!: releases_inv_row(3) [OF db_invD(2) [OF inv]])
      then have "latest_inv sv (db_modules s @ [?m]) (db_releases s)"
        using db_invD(3) [OF inv] by (auto simp: latest_inv_def latest_ok_def)
      moreover have "releases_inv sv (mr_id ` set (db_modules s @ [?m])) (db_releases s)"
        by (rule releases_inv_mono [OF db_invD(2) [OF inv]]) auto
      ultimately show ?thesis using db_invD(4) [OF inv] unfolding db_inv_def by simp
    qed
    with inv show ?thesis by (simp add: UpsertModule_def Let_def None)
  qed
qed

lemma MarkUpstream_inv [keep_inv]:
  assumes inv: "db_inv sv s"
  shows "db_inv sv (fst (MarkUpstreamModuleRefreshAttempt s owner name at))"
proof -
  let ?ms = "update_where (\<lambda>m. mr_owner m = owner \<and> mr_name m = name)
      (\<lambda>m. m\<lparr>mr_upstream_refreshed_at := Some at\<rparr>) (db_modules s)"
  have ok: "modules_inv ?ms \<and> mr_id ` set ?ms = mr_id ` set (db_modules s)"
    by (intro modules_inv_update [OF db_invD(1) [OF inv]]) auto
  have "latest_inv sv ?ms (db_releases s)"
    using db_invD(3) [OF inv] by (intro latest_inv_update_modules) (auto simp: latest_inv_def)
  with ok db_invD [OF inv] have "db_inv sv (s\<lparr>db_modules := ?ms\<rparr>)" unfolding db_inv_def by simp
  with inv show ?thesis by (simp add: MarkUpstreamModuleRefreshAttempt_def)
qed

lemma UpdateReleaseChecksums_inv [keep_inv]:
  assumes inv: "db_inv sv s"
  shows "db_inv sv (fst (UpdateReleaseChecksums s owner name version md5 sha path sz))"
proof -
  have "db_inv sv (s\<lparr>db_releases := update_where (\<lambda>r. rr_module_id r = i \<and> rr_version r = version)
      (\<lambda>r. r\<lparr>rr_md5 := md5, rr_sha256 := sha, rr_storage_path := path, rr_size_bytes := sz\<rparr>) (db_releases s)\<rparr>)"
    (is "db_inv sv (s\<lparr>db_releases := ?rs\<rparr>)") if "0 \<le> sz" for i
  proof -
    have "releases_inv sv (mr_id ` set (db_modules s)) ?rs \<and> versions_of ?rs = versions_of (db_releases s)"
      using db_invD(2) [OF inv] that
      by (intro releases_inv_update) (auto simp: releases_inv_def valid_row_def)
    with db_invD [OF inv] show ?thesis unfolding db_inv_def by (simp add: latest_inv_def)
  qed
  with inv show ?thesis by (auto simp: UpdateReleaseChecksums_def split: option.split)
qed

text \<open>Inserting a release adds its version to its module and keeps everything but \<open>latest_version\<close>.\<close>

lemma insert_release_row_ok:
  assumes inv: "db_inv (v_sv v) s" and ins: "insert_release_row v s r createOnly = Inr (t, n)" and n: "n \<noteq> 0 \<or> \<not> createOnly"
  shows "releases_inv (v_sv v) (mr_id ` set (db_modules t)) (db_releases t)" "db_modules t = db_modules s"
    "db_deletions t = db_deletions s" "db_audit t = db_audit s"
    "versions_of (db_releases t) i =
       (if i = r_ModuleID r then insert (r_Version r) (versions_of (db_releases s) i) else versions_of (db_releases s) i)"
    "r_ModuleID r \<in> mr_id ` set (db_modules s)"
proof -
  let ?row = "release_row_of v r"
  have row: "valid_row ?row" "rr_module_id ?row = r_ModuleID r" "rr_version ?row = r_Version r"
      "rr_version_order ?row = releaseVersionOrder (v_sv v) (r_Version r)"
    using ins by (auto simp: insert_release_row_def Let_def release_row_of_def split: if_splits)
  let ?p = "\<lambda>y. rr_module_id y = r_ModuleID r \<and> rr_version y = r_Version r"
  consider (update) x where "release_of s (r_ModuleID r) (r_Version r) = Some x"
      "t = s\<lparr>db_releases := update_where ?p (replace_row r) (db_releases s)\<rparr>"
    | (insert) "release_of s (r_ModuleID r) (r_Version r) = None" "t = s\<lparr>db_releases := db_releases s @ [?row]\<rparr>"
      "rr_id ?row \<notin> rr_id ` set (db_releases s)" "rr_slug ?row \<notin> rr_slug ` set (db_releases s)"
      "r_ModuleID r \<in> mr_id ` set (db_modules s)"
    using ins n row(2,3) by (auto simp: insert_release_row_def Let_def split: if_splits option.splits)
  then have all: "releases_inv (v_sv v) (mr_id ` set (db_modules t)) (db_releases t) \<and> db_modules t = db_modules s \<and>
    db_deletions t = db_deletions s \<and> db_audit t = db_audit s \<and> r_ModuleID r \<in> mr_id ` set (db_modules s) \<and>
    (\<forall>i. versions_of (db_releases t) i =
       (if i = r_ModuleID r then insert (r_Version r) (versions_of (db_releases s) i) else versions_of (db_releases s) i))"
  proof cases
    case (update x)
    have x: "x \<in> set (db_releases s)" "?p x" using release_of_Some [OF update(1)] by auto
    have "releases_inv (v_sv v) (mr_id ` set (db_modules s)) (update_where ?p (replace_row r) (db_releases s)) \<and>
        versions_of (update_where ?p (replace_row r) (db_releases s)) = versions_of (db_releases s)"
      using db_invD(2) [OF inv] row(1)
      by (intro releases_inv_update) (auto simp: releases_inv_def valid_row_def replace_row_def release_row_of_def)
    moreover have "r_Version r \<in> versions_of (db_releases s) (r_ModuleID r)" using x by (force simp: versions_of_def)
    moreover have "r_ModuleID r \<in> mr_id ` set (db_modules s)"
      using releases_inv_row(3) [OF db_invD(2) [OF inv] x(1)] x(2) by simp
    ultimately show ?thesis by (auto simp: update(2) insert_absorb)
  next
    case insert
    have ver: "versions_of (rs @ [q]) i =
        (if i = rr_module_id q then insert (rr_version q) (versions_of rs i) else versions_of rs i)" for rs q i
      by (force simp: versions_of_def)
    have "(rr_module_id ?row, rr_version ?row) \<notin> (\<lambda>r. (rr_module_id r, rr_version r)) ` set (db_releases s)"
      using insert(1) row(2,3) by (auto simp: release_of_None)
    then have "releases_inv (v_sv v) (mr_id ` set (db_modules s)) (db_releases s @ [?row])"
      using db_invD(2) [OF inv] insert row by (auto simp: releases_inv_def)
    then show ?thesis using insert row by (simp add: ver)
  qed
  then show "releases_inv (v_sv v) (mr_id ` set (db_modules t)) (db_releases t)" "db_modules t = db_modules s"
    "db_deletions t = db_deletions s" "db_audit t = db_audit s"
    "versions_of (db_releases t) i =
       (if i = r_ModuleID r then insert (r_Version r) (versions_of (db_releases s) i) else versions_of (db_releases s) i)"
    "r_ModuleID r \<in> mr_id ` set (db_modules s)"
    by blast+
qed

lemma latest_inv_candidate:
  assumes sv: "semver_package sv" and ms: "modules_inv ms" and lat: "latest_inv sv ms rs"
    and vs: "\<And>i. versions_of rs' i = (if i = mid then insert ver (versions_of rs i) else versions_of rs i)"
    and cur: "\<forall>m \<in> set ms. mr_id m = mid \<longrightarrow> current = (case mr_latest_version m of None \<Rightarrow> [] | Some l \<Rightarrow> l)"
  shows "latest_inv sv (update_where (\<lambda>m. mr_id m = mid)
    (\<lambda>m. m\<lparr>mr_latest_version := Some (latestVersionWithCandidate sv current ver), mr_updated_at := at\<rparr>) ms) rs'"
proof -
  have "highest sv (latestVersionWithCandidate sv current ver) (versions_of rs' mid)"
    if m: "m \<in> set ms" "mr_id m = mid" for m
  proof (cases "mr_latest_version m")
    case None
    then have "versions_of rs mid = {}" using lat m by (auto simp: latest_inv_def latest_ok_def)
    moreover have "current = []" using cur m None by simp
    ultimately show ?thesis
      using semver_package.highest_single [OF sv] semver_package.candidate_Nil [OF sv] by (simp add: vs)
  next
    case (Some l)
    then have "highest sv l (versions_of rs mid)" using lat m by (auto simp: latest_inv_def latest_ok_def)
    moreover have "current = l" using cur m Some by simp
    ultimately show ?thesis using semver_package.highest_candidate [OF sv] by (simp add: vs)
  qed
  with lat show ?thesis by (auto simp: latest_inv_def latest_ok_def vs)
qed

lemma update_modules_inv:
  assumes "modules_inv ms"
  shows "modules_inv (update_where p (\<lambda>m. m\<lparr>mr_latest_version := l, mr_updated_at := at\<rparr>) ms)"
    "mr_id ` set (update_where p (\<lambda>m. m\<lparr>mr_latest_version := l, mr_updated_at := at\<rparr>) ms) = mr_id ` set ms"
  using modules_inv_update [OF assms, of "\<lambda>m. m\<lparr>mr_latest_version := l, mr_updated_at := at\<rparr>" p] by auto

lemma currentLatest_all:
  assumes "modules_inv (db_modules s)" "currentLatestVersion s mid = Inr current" "m \<in> set (db_modules s)" "mr_id m = mid"
  shows "current = (case mr_latest_version m of None \<Rightarrow> [] | Some l \<Rightarrow> l)"
proof -
  obtain m' where f: "find (\<lambda>m. mr_id m = mid) (db_modules s) = Some m'"
    using assms(2) by (auto simp: currentLatestVersion_def split: option.splits)
  then have "m = m'" using modules_invD(1) [OF assms(1,3)] assms(4) find_SomeD [OF f] by simp
  with f assms(2) show ?thesis by (simp add: currentLatestVersion_def)
qed

lemma create_outbox_simps [simp]:
  "db_modules (create_outbox v s r co tx) = db_modules tx" "db_releases (create_outbox v s r co tx) = db_releases tx"
  "db_audit (create_outbox v s r co tx) = db_audit tx"
  by (simp_all add: create_outbox_def Let_def split: prod.split)

lemma create_outbox_unique:
  "unique_by dr_storage_path (db_deletions tx) \<Longrightarrow> unique_by dr_storage_path (db_deletions (create_outbox v s r co tx))"
  unfolding create_outbox_def Let_def queue_deletion_def
  by (simp add: unique_by_delete unique_by_insert_or_ignore del: distinct_map split: prod.split)

lemma createRelease_cases:
  obtains (failed) e where "createRelease v c s r co = ((c, s), Inl e)"
  | (finished) tx n current c1 s1 where
      "insert_release_row v s r co = Inr (tx, n)" "n \<noteq> 0 \<or> \<not> co"
      "currentLatestVersion tx (r_ModuleID r) = Inr current"
      "commitSQLiteMutation v c (updateLatestVersion v (create_outbox v s r co tx) (r_ModuleID r)
         (latestVersionWithCandidate (v_sv v) current (r_Version r))) = Inr (c1, s1)"
      "createRelease v c s r co = ((c1, s1), GetRelease s1 (r_Owner r) (r_Name r) (r_Version r))"
proof -
  have eq: "currentLatestVersion (create_outbox v s r co tx) i = currentLatestVersion tx i" for tx i
    by (simp add: currentLatestVersion_def)
  show ?thesis
  proof (cases "insert_release_row v s r co")
    case (Inl e)
    then show ?thesis by (intro failed) (simp add: createRelease_def rolled_back_def)
  next
    case (Inr p)
    obtain tx n where p: "p = (tx, n)" by fastforce
    show ?thesis
    proof (cases "co \<and> n = 0")
      case True
      with Inr show ?thesis by (intro failed) (simp add: createRelease_def rolled_back_def p)
    next
      case co: False
      show ?thesis
      proof (cases "finishReleaseMutation v c (create_outbox v s r co tx) r")
        case (Inl e)
        with Inr co show ?thesis by (intro failed [of e]) (auto simp: createRelease_def rolled_back_def p)
      next
        case fin: (Inr q)
        obtain c1 s1 where q: "q = (c1, s1)" by fastforce
        obtain current where cur: "currentLatestVersion tx (r_ModuleID r) = Inr current"
          using fin by (auto simp: finishReleaseMutation_def eq split: sum.splits)
        from fin cur have "commitSQLiteMutation v c (updateLatestVersion v (create_outbox v s r co tx) (r_ModuleID r)
            (latestVersionWithCandidate (v_sv v) current (r_Version r))) = Inr (c1, s1)"
          by (simp add: finishReleaseMutation_def eq q)
        with Inr co cur fin show ?thesis by (intro finished) (auto simp: createRelease_def p q)
      qed
    qed
  qed
qed

lemma createRelease_inv:
  assumes sv: "semver_package (v_sv v)" and inv: "db_inv (v_sv v) s"
  shows "db_inv (v_sv v) (snd (fst (createRelease v c s r co)))"
proof (cases rule: createRelease_cases [of v c s r co])
  case (failed e)
  with inv show ?thesis by simp
next
  case (finished tx n current c1 s1)
  note ins = insert_release_row_ok [OF inv finished(1,2)]
  let ?t = "updateLatestVersion v (create_outbox v s r co tx) (r_ModuleID r)
      (latestVersionWithCandidate (v_sv v) current (r_Version r))"
  have mods: "modules_inv (db_modules s)" by (rule db_invD(1) [OF inv])
  have "latest_inv (v_sv v) (db_modules ?t) (db_releases ?t)"
    unfolding updateLatestVersion_def
    using latest_inv_candidate [OF sv mods db_invD(3) [OF inv] ins(5)] currentLatest_all [OF _ finished(3)] mods
    by (simp add: ins(2))
  moreover have "unique_by dr_storage_path (db_deletions ?t)"
    using create_outbox_unique [of tx] db_invD(4) [OF inv] ins(3) by (simp add: updateLatestVersion_def)
  ultimately have "db_inv (v_sv v) ?t"
    using update_modules_inv [OF mods] ins(1,2) by (simp add: db_inv_def updateLatestVersion_def)
  then show ?thesis using commit_inv [OF finished(4)] by (simp add: finished(5))
qed

lemma delete_empty_inv [keep_inv]: "db_inv sv s \<Longrightarrow> db_inv sv (delete_empty_module owner name s)"
  unfolding delete_empty_module_def
  by (rule delete_modules_inv) (auto simp: db_inv_def latest_inv_def)

lemma DeleteModuleIfEmpty_inv [keep_inv]: "db_inv sv s \<Longrightarrow> db_inv sv (fst (DeleteModuleIfEmpty s owner name))"
  by (simp add: DeleteModuleIfEmpty_def delete_empty_inv)

lemma fold_queue_inv:
  "db_inv sv s \<Longrightarrow> db_inv sv (fold (\<lambda>path t. queue_deletion v t path owner name) paths s)"
  by (induction paths arbitrary: s) (auto intro: queue_deletion_inv)

lemma delete_module_tx_inv: "db_inv sv s \<Longrightarrow> db_inv sv (delete_module_tx v s owner name)"
  unfolding delete_module_tx_def Let_def using fold_queue_inv [of sv s]
  by (intro delete_modules_inv) (auto simp: db_inv_def latest_inv_def)

lemma DeleteModule_inv [keep_inv]:
  assumes inv: "db_inv sv s"
  shows "db_inv sv (snd (fst (DeleteModule v c s owner name)))"
  unfolding DeleteModule_def Let_def using inv delete_module_tx_inv [OF inv] commit_inv
  by (force simp: rolled_back_def split: sum.split)

lemma sqliteLatestVersion_highest:
  assumes "semver_package sv" "versions_of (db_releases s) i \<noteq> {}"
  shows "highest sv (sqliteLatestVersion sv s i) (versions_of (db_releases s) i)"
proof -
  let ?vs = "map rr_version (filter (\<lambda>r. rr_module_id r = i) (db_releases s))"
  have set: "versions_of (db_releases s) i = set ?vs" by (auto simp: versions_of_def)
  then have "?vs \<noteq> []" using assms(2) by force
  then show ?thesis
    using semver_package.highest_foldl_Nil [OF assms(1)] unfolding sqliteLatestVersion_def set by blast
qed

lemma versions_of_delete:
  "i \<noteq> j \<Longrightarrow> versions_of (delete_where (\<lambda>x. rr_module_id x = i \<and> rr_version x = ver) rs) j = versions_of rs j"
  by (auto simp: versions_of_def)

lemma delete_release_tx_inv:
  assumes sv: "semver_package (v_sv v)" and inv: "db_inv (v_sv v) s"
    and m: "m \<in> set (db_modules s)" "mr_owner m = owner" "mr_name m = name"
  shows "db_inv (v_sv v) (delete_release_tx v s m r owner name version)"
proof -
  define tx1 where "tx1 = (if rr_source r = ''local'' \<and> rr_storage_path r \<noteq> []
      then queue_deletion v s (rr_storage_path r) owner name else s)"
  define rs where "rs = delete_where (\<lambda>x. rr_module_id x = mr_id m \<and> rr_version x = version) (db_releases tx1)"
  define tx2 where "tx2 = tx1\<lparr>db_releases := rs\<rparr>"
  define tx3 where "tx3 = (if rr_source r = ''upstream''
      then tx2\<lparr>db_tombstones := insert_or_update
            (\<lambda>t. (tr_owner t, tr_name t, tr_version t, tr_source t))
            (\<lambda>t. t\<lparr>tr_deleted_at := sql_now (v_now v)\<rparr>)
            \<lparr>tr_owner = owner, tr_name = name, tr_version = version, tr_source = rr_source r,
             tr_deleted_at = sql_now (v_now v)\<rparr> (db_tombstones tx2)\<rparr>
      else tx2)"
  define latest where "latest = sqliteLatestVersion (v_sv v) tx3 (mr_id m)"
  define tx4 where "tx4 = updateLatestVersion v tx3 (mr_id m) latest"
  have eq: "delete_release_tx v s m r owner name version = delete_empty_module owner name tx4"
    by (simp only: delete_release_tx_def Let_def tx4_def latest_def tx3_def tx2_def rs_def tx1_def)
  have tx1: "db_inv (v_sv v) tx1" "db_modules tx1 = db_modules s" "db_releases tx1 = db_releases s"
    using queue_deletion_inv [OF inv] inv by (simp_all add: tx1_def)
  have tx3: "db_modules tx3 = db_modules s" "db_releases tx3 = rs" "db_deletions tx3 = db_deletions tx1"
    by (simp_all add: tx3_def tx2_def tx1(2))
  note ms = db_invD(1) [OF inv]
  let ?ms = "update_where (\<lambda>x. mr_id x = mr_id m) (\<lambda>x. x\<lparr>mr_latest_version := Some latest, mr_updated_at := sql_now (v_now v)\<rparr>) (db_modules s)"
  have tx4: "db_modules tx4 = ?ms" "db_releases tx4 = rs" "db_deletions tx4 = db_deletions tx1"
    by (simp_all add: tx4_def updateLatestVersion_def tx3)
  have rel: "releases_inv (v_sv v) (mr_id ` set (db_modules s)) rs"
    using releases_inv_delete [OF db_invD(2) [OF inv]] by (simp add: rs_def tx1(3))
  have lat: "versions_of rs (mr_id x) = {} \<or> latest_ok (v_sv v) (versions_of rs (mr_id x)) (mr_latest_version x)"
    if "x \<in> set ?ms" for x
  proof (cases "mr_id x = mr_id m")
    case True
    then have "mr_latest_version x = Some latest" using that by (auto split: if_splits)
    then show ?thesis
      using True sqliteLatestVersion_highest [OF sv, of tx3 "mr_id m"] by (auto simp: latest_def tx3(2) latest_ok_def)
  next
    case False
    then have "x \<in> set (db_modules s)" using that by (auto split: if_splits)
    then show ?thesis
      using False db_invD(3) [OF inv] versions_of_delete [of "mr_id m" "mr_id x"]
      by (auto simp: latest_inv_def rs_def tx1(3))
  qed
  show "db_inv (v_sv v) (delete_release_tx v s m r owner name version)"
    unfolding eq delete_empty_module_def
  proof (rule delete_modules_inv)
    show "modules_inv (db_modules tx4)" using update_modules_inv [OF ms] by (simp add: tx4)
    show "releases_inv (v_sv v) (mr_id ` set (db_modules tx4)) (db_releases tx4)"
      using update_modules_inv [OF ms] rel by (simp add: tx4)
    show "unique_by dr_storage_path (db_deletions tx4)" using db_invD(4) [OF tx1(1)] by (simp add: tx4)
    show "\<forall>x \<in> set (db_modules tx4). \<not> (mr_owner x = owner \<and> mr_name x = name \<and> \<not> has_releases tx4 x) \<longrightarrow>
        latest_ok (v_sv v) (versions_of (db_releases tx4) (mr_id x)) (mr_latest_version x)"
    proof (intro ballI impI)
      fix x
      assume x: "x \<in> set (db_modules tx4)" "\<not> (mr_owner x = owner \<and> mr_name x = name \<and> \<not> has_releases tx4 x)"
      show "latest_ok (v_sv v) (versions_of (db_releases tx4) (mr_id x)) (mr_latest_version x)"
      proof (cases "mr_owner x = owner \<and> mr_name x = name")
        case True
        then have "versions_of rs (mr_id x) \<noteq> {}" using x(2) by (auto simp: has_releases_def tx4 versions_of_def)
        then show ?thesis using lat [of x] x(1) by (simp add: tx4)
      next
        case False
        obtain y where y: "y \<in> set (db_modules s)" "mr_owner y = mr_owner x" "mr_name y = mr_name x"
            "mr_id y = mr_id m \<or> y = x" "mr_id y = mr_id x"
          using x(1) by (auto simp: tx4)
        have "mr_id y \<noteq> mr_id m" using modules_invD(1) [OF ms y(1) m(1)] m y(2,3) False by auto
        then have "x \<in> set (db_modules s)" "mr_id x \<noteq> mr_id m" using y by auto
        then show ?thesis
          using db_invD(3) [OF inv] versions_of_delete [of "mr_id m" "mr_id x"]
          by (simp add: tx4 latest_inv_def rs_def tx1(3))
      qed
    qed
  qed
qed

lemma DeleteRelease_inv:
  assumes sv: "semver_package (v_sv v)" and inv: "db_inv (v_sv v) s"
  shows "db_inv (v_sv v) (snd (fst (DeleteRelease v c s owner name version)))"
proof (cases "find (\<lambda>(m, r). mr_owner m = owner \<and> mr_name m = name \<and> rr_version r = version) (joined s)")
  case None
  with inv show ?thesis by (simp add: DeleteRelease_def rolled_back_def)
next
  case (Some mr)
  obtain m r where mr: "mr = (m, r)" by fastforce
  have "m \<in> set (db_modules s)" "mr_owner m = owner" "mr_name m = name"
    using find_SomeD [OF Some] by (auto simp: mr set_joined)
  note tx = delete_release_tx_inv [OF sv inv this]
  show ?thesis
    unfolding DeleteRelease_def Some mr using inv tx commit_inv
    by (force simp: rolled_back_def split: sum.split)
qed

end
