(* ===== verification/SqliteQueries.thy ===== *)
theory SqliteQueries
  imports SqliteInvariant
begin

text \<open>
  The queries of the SQLite store over modules, releases, tombstones, usage and the outbox, and
  the maintenance statements on them. \<open>order by\<close> is a stable sort by the listed columns;
  \<open>strings.ToLower\<close>, which the search uses on arbitrary Unicode text, is the parameter \<open>to_lower\<close>.
\<close>

section \<open>Ordering and paging\<close>

definition page :: "nat \<Rightarrow> nat \<Rightarrow> 'a list \<Rightarrow> 'a list" where
  "page limit offset rows = take limit (drop offset rows)"

definition MaxModulePageSize :: int where "MaxModulePageSize = 100"

definition MaxModulePageOffset :: int where "MaxModulePageOffset = 100000"

definition validateModulePagination :: "int \<Rightarrow> int \<Rightarrow> unit result" where
  "validateModulePagination limit offset =
     (if limit < 1 \<or> limit > MaxModulePageSize then Inl (StoreError ''module page limit'')
      else if offset < 0 \<or> offset > MaxModulePageOffset then Inl (StoreError ''module page offset'')
      else Inr ())"

section \<open>Listing modules\<close>

fun contains_sub :: "string \<Rightarrow> string \<Rightarrow> bool" where
  "contains_sub [] t = (t = [])"
| "contains_sub (c # s) t = (has_prefix (c # s) t \<or> contains_sub s t)"

text \<open>\<open>instr(lower(owner || '/' || name), ?) > 0\<close> and \<open>owner in (\<dots>)\<close>.\<close>

definition sqliteModuleFilter :: "(string \<Rightarrow> string) \<Rightarrow> string list \<Rightarrow> string \<Rightarrow> module_row \<Rightarrow> bool" where
  "sqliteModuleFilter to_lower owners search0 m =
     (let search = trim_space search0 in
      (search = [] \<or> contains_sub (map ascii_lower (mr_owner m @ ''/'' @ mr_name m)) (to_lower search)) \<and>
      (owners = [] \<or> mr_owner m \<in> set owners))"

definition sqliteModulePriorityOrder :: "string list \<Rightarrow> module_row \<Rightarrow> nat" where
  "sqliteModulePriorityOrder owners m =
     (if owners = [] then 1 else if mr_owner m \<in> set owners then 0 else 1)"

definition modules_in_order :: "string list \<Rightarrow> module_row list \<Rightarrow> module_row list" where
  "modules_in_order priorityOwners ms =
     sort_key (\<lambda>m. (sqliteModulePriorityOrder priorityOwners m, - mr_updated_at m, mr_owner m, mr_name m, mr_id m)) ms"

definition filtered_modules :: "(string \<Rightarrow> string) \<Rightarrow> db \<Rightarrow> string list \<Rightarrow> string \<Rightarrow> module_row list" where
  "filtered_modules to_lower s owners search =
     filter (\<lambda>m. has_releases s m \<and> sqliteModuleFilter to_lower owners search m) (db_modules s)"

definition countFilteredModulesWithReleases :: "(string \<Rightarrow> string) \<Rightarrow> db \<Rightarrow> string list \<Rightarrow> string \<Rightarrow> nat" where
  "countFilteredModulesWithReleases to_lower s owners search = length (filtered_modules to_lower s owners search)"

definition ListModulesPagePrioritized ::
  "(string \<Rightarrow> string) \<Rightarrow> db \<Rightarrow> string list \<Rightarrow> string list \<Rightarrow> string \<Rightarrow> int \<Rightarrow> int \<Rightarrow> (domain_module list \<times> nat) result" where
  "ListModulesPagePrioritized to_lower s owners priorityOwners search limit offset =
     (case validateModulePagination limit offset of
        Inl e \<Rightarrow> Inl e
      | Inr _ \<Rightarrow>
          Inr (map scanModule (page (nat limit) (nat offset)
                 (modules_in_order priorityOwners (filtered_modules to_lower s owners search))),
               countFilteredModulesWithReleases to_lower s owners search))"

definition ListModulesPageFiltered ::
  "(string \<Rightarrow> string) \<Rightarrow> db \<Rightarrow> string list \<Rightarrow> string \<Rightarrow> int \<Rightarrow> int \<Rightarrow> (domain_module list \<times> nat) result" where
  "ListModulesPageFiltered to_lower s owners search limit offset =
     ListModulesPagePrioritized to_lower s owners [] search limit offset"

definition ListModulesPage :: "(string \<Rightarrow> string) \<Rightarrow> db \<Rightarrow> int \<Rightarrow> int \<Rightarrow> (domain_module list \<times> nat) result" where
  "ListModulesPage to_lower s limit offset = ListModulesPageFiltered to_lower s [] [] limit offset"

definition ListModules :: "(string \<Rightarrow> string) \<Rightarrow> db \<Rightarrow> int \<Rightarrow> domain_module list result" where
  "ListModules to_lower s limit = map_sum id fst (ListModulesPage to_lower s limit 0)"

definition count_by :: "('a \<Rightarrow> string) \<Rightarrow> 'a list \<Rightarrow> (string, nat) gomap" where
  "count_by key rows =
     map (\<lambda>k. (k, length (filter (\<lambda>r. key r = k) rows))) (remdups (map key rows))"

text \<open>A nil \<open>owners\<close> (\<open>None\<close>) counts every owner, an empty one none.\<close>

definition CountModulesByOwner :: "db \<Rightarrow> string list option \<Rightarrow> (string, nat) gomap" where
  "CountModulesByOwner s owners =
     (if owners = Some [] then []
      else count_by mr_owner (filter (\<lambda>m. has_releases s m \<and>
             (case owners of None \<Rightarrow> True | Some os \<Rightarrow> mr_owner m \<in> set os)) (db_modules s)))"

definition has_upstream :: "db \<Rightarrow> module_row \<Rightarrow> bool" where
  "has_upstream s m = (\<exists>r \<in> set (db_releases s). rr_module_id r = mr_id m \<and> rr_source r = ''upstream'')"

definition CountUpstreamModulesByOwner :: "db \<Rightarrow> (string, nat) gomap" where
  "CountUpstreamModulesByOwner s = count_by mr_owner (filter (has_upstream s) (db_modules s))"

text \<open>\<open>null\<close> timestamps first (\<open>is not null\<close> is 0), then the oldest.\<close>

definition ListUpstreamModules :: "db \<Rightarrow> int \<Rightarrow> domain_module list" where
  "ListUpstreamModules s limit =
     map scanModule ((if limit < 0 then (\<lambda>x. x) else take (nat limit))
       (sort_key (\<lambda>m. (mr_upstream_refreshed_at m \<noteq> None,
                       (case mr_upstream_refreshed_at m of None \<Rightarrow> 0 | Some t \<Rightarrow> t),
                       mr_owner m, mr_name m, mr_id m))
         (filter (has_upstream s) (db_modules s))))"

section \<open>Listing releases\<close>

definition ListReleases :: "semver \<Rightarrow> db \<Rightarrow> string \<Rightarrow> string \<Rightarrow> module_version list" where
  "ListReleases sv s owner name =
     sortModuleVersions sv
       (map (\<lambda>(m, r). \<lparr>mv_Version = rr_version r, mv_CreatedAt = rr_created_at r\<rparr>)
         (filter (\<lambda>(m, r). mr_owner m = owner \<and> mr_name m = name) (joined s)))"

definition summary_of :: "module_row \<times> release_row \<Rightarrow> release_summary" where
  "summary_of mr =
     \<lparr>s_Owner = mr_owner (fst mr), s_Name = mr_name (fst mr), s_Version = rr_version (snd mr),
      s_CreatedAt = rr_created_at (snd mr)\<rparr>"

definition ListReleasesForModules :: "semver \<Rightarrow> db \<Rightarrow> domain_module list \<Rightarrow> release_summary list" where
  "ListReleasesForModules sv s modules =
     (if modules = [] then []
      else sortModuleReleaseSummaries sv
             (map summary_of
               (sort_stable (\<lambda>(m, r) (m', r').
                   (mr_owner m, mr_name m, - rr_created_at r) < (mr_owner m', mr_name m', - rr_created_at r') \<or>
                   (mr_owner m, mr_name m, - rr_created_at r) = (mr_owner m', mr_name m', - rr_created_at r') \<and>
                   rr_version r' < rr_version r)
                 (filter (\<lambda>(m, r). \<exists>d \<in> set modules. m_Owner d = mr_owner m \<and> m_Name d = mr_name m) (joined s)))))"

text \<open>Repeated modules count once per selected row, as \<open>union all\<close> and \<open>group by\<close> do.\<close>

definition CountReleasesForModules :: "db \<Rightarrow> domain_module list \<Rightarrow> module_release_count list" where
  "CountReleasesForModules s modules =
     map (\<lambda>(owner, name).
            \<lparr>mc_Owner = owner, mc_Name = name,
             mc_Count = length (filter (\<lambda>d. m_Owner d = owner \<and> m_Name d = name) modules) *
               length (filter (\<lambda>(m, r). mr_owner m = owner \<and> mr_name m = name) (joined s))\<rparr>)
       (sort (remdups (map (\<lambda>d. (m_Owner d, m_Name d)) modules)))"

definition ListAllReleases :: "semver \<Rightarrow> db \<Rightarrow> release_summary list" where
  "ListAllReleases sv s = sortReleaseSummaries sv (map summary_of (joined s))"

definition ListArtifactReleases :: "db \<Rightarrow> artifact_release_record list" where
  "ListArtifactReleases s =
     map (\<lambda>(m, r). \<lparr>ar_Owner = mr_owner m, ar_Name = mr_name m, ar_Version = rr_version r,
                    ar_StoragePath = rr_storage_path r, ar_SHA256 = rr_sha256 r, ar_SizeBytes = rr_size_bytes r\<rparr>)
       (sort_key (\<lambda>(m, r). rr_storage_path r) (filter (\<lambda>(m, r). rr_storage_path r \<noteq> []) (joined s)))"

definition ListReleaseMetricSummaries :: "db \<Rightarrow> release_metric_summary list" where
  "ListReleaseMetricSummaries s =
     map (\<lambda>source.
            let rows = filter (\<lambda>(m, r). rr_source r = source) (joined s) in
            \<lparr>ms_Source = source, ms_Releases = length rows,
             ms_LatestReleases = length (filter (\<lambda>(m, r). rr_version r = m_LatestVersion (scanModule m)) rows)\<rparr>)
       (sort (remdups (map (\<lambda>(m, r). rr_source r) (joined s))))"

definition releases_in_order :: "(module_row \<times> release_row) list \<Rightarrow> (module_row \<times> release_row) list" where
  "releases_in_order =
     sort_stable (\<lambda>(m, r) (m', r').
       if rr_version_order r \<noteq> rr_version_order r' then rr_version_order r' < rr_version_order r
       else if rr_created_at r \<noteq> rr_created_at r' then rr_created_at r' < rr_created_at r
       else rr_id r < rr_id r')"

definition filtered_releases :: "db \<Rightarrow> string \<Rightarrow> string \<Rightarrow> (module_row \<times> release_row) list" where
  "filtered_releases s module version =
     filter (\<lambda>(m, r). (module = [] \<or> mr_slug m = module) \<and> (version = [] \<or> rr_version r = version)) (joined s)"

definition ListReleasesPageFiltered :: "db \<Rightarrow> string \<Rightarrow> string \<Rightarrow> int \<Rightarrow> int \<Rightarrow> (release list \<times> nat) result" where
  "ListReleasesPageFiltered s module version limit offset =
     (case validateModulePagination limit offset of
        Inl e \<Rightarrow> Inl e
      | Inr _ \<Rightarrow>
          Inr (map (\<lambda>(m, r). scanRelease m r) (page (nat limit) (nat offset)
                 (releases_in_order (filtered_releases s module version))),
               length (filtered_releases s module version)))"

section \<open>Tombstones and usage\<close>

definition IsReleaseDeleted :: "db \<Rightarrow> string \<Rightarrow> string \<Rightarrow> string \<Rightarrow> string \<Rightarrow> bool" where
  "IsReleaseDeleted s owner name version source =
     ((owner, name, version, source) \<in>
        (\<lambda>t. (tr_owner t, tr_name t, tr_version t, tr_source t)) ` set (db_tombstones s))"

definition PurgeDeletedReleases :: "db \<Rightarrow> time \<Rightarrow> db \<times> nat" where
  "PurgeDeletedReleases s cutoff =
     (s\<lparr>db_tombstones := delete_where (\<lambda>t. tr_deleted_at t < cutoff) (db_tombstones s)\<rparr>,
      length (filter (\<lambda>t. tr_deleted_at t < cutoff) (db_tombstones s)))"

definition MarkReleaseUsed :: "env \<Rightarrow> db \<Rightarrow> string \<Rightarrow> string \<Rightarrow> string \<Rightarrow> db" where
  "MarkReleaseUsed v s owner name version =
     s\<lparr>db_usage := insert_or_update (\<lambda>u. (ur_owner u, ur_name u, ur_version u))
        (\<lambda>u. u\<lparr>ur_last_used_at := sql_now (v_now v)\<rparr>)
        \<lparr>ur_owner = owner, ur_name = name, ur_version = version, ur_last_used_at = sql_now (v_now v)\<rparr> (db_usage s)\<rparr>"

definition IsReleaseActive :: "db \<Rightarrow> string \<Rightarrow> string \<Rightarrow> string \<Rightarrow> time \<Rightarrow> bool" where
  "IsReleaseActive s owner name version since =
     (\<exists>u \<in> set (db_usage s). ur_owner u = owner \<and> ur_name u = name \<and> ur_version u = version \<and>
        since \<le> ur_last_used_at u)"

definition usage_summaries :: "usage_row list \<Rightarrow> release_summary list" where
  "usage_summaries us =
     map (\<lambda>u. \<lparr>s_Owner = ur_owner u, s_Name = ur_name u, s_Version = ur_version u, s_CreatedAt = ur_last_used_at u\<rparr>)
       (sort_key (\<lambda>u. (ur_owner u, ur_name u, ur_version u)) us)"

definition ListActiveReleases :: "db \<Rightarrow> time \<Rightarrow> release_summary list" where
  "ListActiveReleases s since = usage_summaries (filter (\<lambda>u. since \<le> ur_last_used_at u) (db_usage s))"

definition ListActiveReleasesForModules :: "db \<Rightarrow> time \<Rightarrow> domain_module list \<Rightarrow> release_summary list" where
  "ListActiveReleasesForModules s since modules =
     (if modules = [] then []
      else usage_summaries (filter (\<lambda>u. since \<le> ur_last_used_at u \<and>
             (\<exists>d \<in> set modules. m_Owner d = ur_owner u \<and> m_Name d = ur_name u)) (db_usage s)))"

definition PruneReleaseUsageBefore :: "db \<Rightarrow> time \<Rightarrow> db" where
  "PruneReleaseUsageBefore s before =
     s\<lparr>db_usage := delete_where (\<lambda>u. ur_last_used_at u < before) (db_usage s)\<rparr>"

section \<open>The outbox of artifact deletions\<close>

definition ListArtifactDeletions :: "env \<Rightarrow> db \<Rightarrow> int \<Rightarrow> artifact_deletion list" where
  "ListArtifactDeletions v s limit =
     map (\<lambda>d. \<lparr>d_StoragePath = dr_storage_path d, d_Owner = dr_owner d, d_Name = dr_name d,
               d_CreatedAt = dr_created_at d\<rparr>)
       ((if limit < 0 then (\<lambda>x. x) else take (nat limit))
         (sort_key (\<lambda>d. (dr_next_attempt_at d, dr_created_at d, dr_storage_path d))
           (filter (\<lambda>d. dr_next_attempt_at d \<le> sql_now (v_now v)) (db_deletions s))))"

definition IsArtifactReferenced :: "db \<Rightarrow> string \<Rightarrow> bool" where
  "IsArtifactReferenced s storagePath = (\<exists>r \<in> set (db_releases s). rr_storage_path r = storagePath)"

definition CountArtifactDeletions :: "db \<Rightarrow> nat" where
  "CountArtifactDeletions s = length (db_deletions s)"

definition DeferArtifactDeletion :: "db \<Rightarrow> string \<Rightarrow> time \<Rightarrow> db" where
  "DeferArtifactDeletion s storagePath retryAt =
     s\<lparr>db_deletions := update_where (\<lambda>d. dr_storage_path d = storagePath)
        (\<lambda>d. d\<lparr>dr_next_attempt_at := retryAt\<rparr>) (db_deletions s)\<rparr>"

definition CompleteArtifactDeletion :: "db \<Rightarrow> string \<Rightarrow> db" where
  "CompleteArtifactDeletion s storagePath =
     s\<lparr>db_deletions := delete_where (\<lambda>d. dr_storage_path d = storagePath) (db_deletions s)\<rparr>"

end
