(* ===== verification/SqliteStore.thy ===== *)
theory SqliteStore
  imports SqliteQueries
begin

text \<open>
  The SQLite store as a state machine over its module tables: every operation that changes them is
  a step, and a history is a list of steps. The properties hold after every history.
\<close>

section \<open>Steps\<close>

datatype store_op =
    OUpsertModule string string
  | OMarkRefresh string string time
  | OCreateRelease release bool
  | OUpdateChecksums string string string string string string int
  | ODeleteModule string string
  | ODeleteModuleIfEmpty string string
  | ODeleteRelease string string string
  | OPurgeTombstones time
  | OMarkUsed string string string
  | OPruneUsage time
  | ODeferDeletion string time
  | OCompleteDeletion string

text \<open>
  A step: the operation, the audit event its context carries, the clock and the fresh identifiers.
\<close>

record store_step =
  st_op :: store_op
  st_audit :: audit_ctx
  st_now :: time
  st_uuid :: string
  st_audit_uuid :: string

definition step_env :: "semver \<Rightarrow> store_step \<Rightarrow> env" where
  "step_env sv st = \<lparr>v_sv = sv, v_now = st_now st, v_uuid = st_uuid st, v_audit_uuid = st_audit_uuid st\<rparr>"

definition store_exec :: "semver \<Rightarrow> store_step \<Rightarrow> db \<Rightarrow> db" where
  "store_exec sv st s =
     (let v = step_env sv st; c = st_audit st in
      case st_op st of
        OUpsertModule owner name \<Rightarrow> fst (UpsertModule v s owner name)
      | OMarkRefresh owner name at \<Rightarrow> fst (MarkUpstreamModuleRefreshAttempt s owner name at)
      | OCreateRelease release createOnly \<Rightarrow> snd (fst (createRelease v c s release createOnly))
      | OUpdateChecksums owner name version md5 sha256 path bytes \<Rightarrow>
          fst (UpdateReleaseChecksums s owner name version md5 sha256 path bytes)
      | ODeleteModule owner name \<Rightarrow> snd (fst (DeleteModule v c s owner name))
      | ODeleteModuleIfEmpty owner name \<Rightarrow> fst (DeleteModuleIfEmpty s owner name)
      | ODeleteRelease owner name version \<Rightarrow> snd (fst (DeleteRelease v c s owner name version))
      | OPurgeTombstones cutoff \<Rightarrow> fst (PurgeDeletedReleases s cutoff)
      | OMarkUsed owner name version \<Rightarrow> MarkReleaseUsed v s owner name version
      | OPruneUsage before \<Rightarrow> PruneReleaseUsageBefore s before
      | ODeferDeletion path retryAt \<Rightarrow> DeferArtifactDeletion s path retryAt
      | OCompleteDeletion path \<Rightarrow> CompleteArtifactDeletion s path)"

definition store_run :: "semver \<Rightarrow> store_step list \<Rightarrow> db \<Rightarrow> db" where
  "store_run sv sts s = fold (store_exec sv) sts s"

lemma step_env_sv [simp]: "v_sv (step_env sv st) = sv"
  by (simp add: step_env_def)

lemma deletions_inv [keep_inv]:
  assumes "db_inv sv s"
  shows "db_inv sv (DeferArtifactDeletion s path at)" "db_inv sv (CompleteArtifactDeletion s path)"
    "db_inv sv (PruneReleaseUsageBefore s t)" "db_inv sv (MarkReleaseUsed v s owner name version)"
    "db_inv sv (fst (PurgeDeletedReleases s t))"
proof -
  have "map dr_storage_path (update_where p (\<lambda>d. d\<lparr>dr_next_attempt_at := at\<rparr>) ds) = map dr_storage_path ds"
    for p and ds :: "deletion_row list"
    by (rule map_update_where) simp
  with assms show "db_inv sv (DeferArtifactDeletion s path at)"
    unfolding db_inv_def DeferArtifactDeletion_def by (simp del: distinct_map)
  show "db_inv sv (CompleteArtifactDeletion s path)"
    unfolding CompleteArtifactDeletion_def by (rule cancel_deletion_inv [OF assms])
  show "db_inv sv (PruneReleaseUsageBefore s t)" "db_inv sv (MarkReleaseUsed v s owner name version)"
    "db_inv sv (fst (PurgeDeletedReleases s t))"
    using assms by (simp_all add: PruneReleaseUsageBefore_def MarkReleaseUsed_def PurgeDeletedReleases_def)
qed

lemma store_exec_inv:
  assumes sv: "semver_package sv" and inv: "db_inv sv s"
  shows "db_inv sv (store_exec sv st s)"
proof -
  have "semver_package (v_sv (step_env sv st))" "db_inv (v_sv (step_env sv st)) s"
    using assms by simp_all
  note rel = createRelease_inv [OF this] DeleteRelease_inv [OF this]
  show ?thesis
    unfolding store_exec_def Let_def
    using rel inv keep_inv [OF inv] by (cases "st_op st") simp_all
qed

lemma store_run_inv: "semver_package sv \<Longrightarrow> db_inv sv s \<Longrightarrow> db_inv sv (store_run sv sts s)"
  unfolding store_run_def by (induction sts arbitrary: s) (auto intro: store_exec_inv)

section \<open>Tracked artifacts\<close>

text \<open>The paths of local artifacts the store knows of: stored for a release or pending deletion.\<close>

definition local_paths :: "release_row list \<Rightarrow> string set" where
  "local_paths rs = rr_storage_path ` {r \<in> set rs. rr_source r = ''local'' \<and> rr_storage_path r \<noteq> []}"

definition pending_paths :: "db \<Rightarrow> string set" where
  "pending_paths s = dr_storage_path ` set (db_deletions s)"

definition tracked_paths :: "db \<Rightarrow> string set" where
  "tracked_paths s = local_paths (db_releases s) \<union> pending_paths s"

lemma tracked_simps [simp]:
  "tracked_paths (s\<lparr>db_modules := ms\<rparr>) = tracked_paths s" "tracked_paths (s\<lparr>db_audit := a\<rparr>) = tracked_paths s"
  "tracked_paths (s\<lparr>db_tombstones := t\<rparr>) = tracked_paths s" "tracked_paths (s\<lparr>db_usage := u\<rparr>) = tracked_paths s"
  "tracked_paths (updateLatestVersion v s i l) = tracked_paths s"
  by (simp_all add: tracked_paths_def pending_paths_def updateLatestVersion_def)

lemma tracked_queue: "tracked_paths (queue_deletion v s path owner name) = insert path (tracked_paths s)"
  unfolding tracked_paths_def pending_paths_def pending_queue_deletion by auto

lemma tracked_commit: "commitSQLiteMutation v c tx = Inr (c1, s1) \<Longrightarrow> tracked_paths s1 = tracked_paths tx"
  by (drule commit_cases) auto

lemma tracked_fold_queue:
  "tracked_paths (fold (\<lambda>path t. queue_deletion v t path owner name) paths s) = set paths \<union> tracked_paths s"
  by (induction paths arbitrary: s) (auto simp: tracked_queue)

lemma fold_queue_simps [simp]:
  "db_releases (fold (\<lambda>path t. queue_deletion v t path owner name) paths s) = db_releases s"
  "db_modules (fold (\<lambda>path t. queue_deletion v t path owner name) paths s) = db_modules s"
  by (induction paths arbitrary: s) auto

text \<open>Rows that are removed or whose local path changes must have their path pending.\<close>

lemma tracked_upto:
  assumes "pending_paths s \<subseteq> tracked_paths t"
    and "\<And>r. r \<in> set (db_releases s) \<Longrightarrow> rr_source r = ''local'' \<Longrightarrow> rr_storage_path r \<noteq> [] \<Longrightarrow>
      rr_storage_path r \<in> tracked_paths t \<union> lost"
  shows "tracked_paths s \<subseteq> tracked_paths t \<union> lost"
  using assms unfolding tracked_paths_def [of s] local_paths_def by auto

lemmas tracked_mono = tracked_upto [where lost = "{}", simplified]

lemma tracked_row:
  "x \<in> set (db_releases t) \<Longrightarrow> rr_source x = ''local'' \<Longrightarrow> rr_storage_path x \<noteq> [] \<Longrightarrow>
     rr_storage_path x \<in> tracked_paths t"
  by (auto simp: tracked_paths_def local_paths_def)

lemma delete_module_tracked:
  assumes inv: "db_inv sv s"
  shows "tracked_paths s \<subseteq> tracked_paths (delete_module_tx v s owner name)"
proof -
  define paths where "paths = map (\<lambda>(m, r). rr_storage_path r)
            (filter (\<lambda>(m, r). mr_owner m = owner \<and> mr_name m = name \<and> rr_source r = ''local'' \<and>
                              rr_storage_path r \<noteq> []) (joined s))"
  let ?q = "fold (\<lambda>path t. queue_deletion v t path owner name) paths s"
  let ?t = "delete_module_tx v s owner name"
  have t: "?t = delete_modules (\<lambda>m. mr_owner m = owner \<and> mr_name m = name) ?q"
    by (simp add: delete_module_tx_def paths_def Let_def)
  have pend: "pending_paths ?t = set paths \<union> pending_paths s"
  proof -
    have "pending_paths (fold (\<lambda>path t. queue_deletion v t path owner name) ps u) = set ps \<union> pending_paths u" for ps u
      by (induction ps arbitrary: u) (auto simp: pending_paths_def pending_queue_deletion)
    then show ?thesis by (simp add: t delete_modules_def pending_paths_def)
  qed
  show ?thesis
  proof (rule tracked_mono)
    show "pending_paths s \<subseteq> tracked_paths ?t" using pend by (simp add: tracked_paths_def le_supI2)
    fix r
    assume r: "r \<in> set (db_releases s)" "rr_source r = ''local''" "rr_storage_path r \<noteq> []"
    obtain m where m: "m \<in> set (db_modules s)" "mr_id m = rr_module_id r"
      using releases_inv_row(3) [OF db_invD(2) [OF inv] r(1)] by auto
    show "rr_storage_path r \<in> tracked_paths ?t"
    proof (cases "mr_owner m = owner \<and> mr_name m = name")
      case True
      then have "rr_storage_path r \<in> set paths" using r m by (force simp: paths_def set_joined)
      then show ?thesis using pend by (simp add: tracked_paths_def)
    next
      case False
      have "\<not> (mr_owner x = owner \<and> mr_name x = name \<and> mr_id x = rr_module_id r)"
        if x: "x \<in> set (db_modules s)" for x
        using modules_invD(1) [OF db_invD(1) [OF inv] m(1) x] m(2) False by auto
      then have "r \<in> set (db_releases ?t)" using r(1) by (auto simp: t delete_modules_def)
      then show ?thesis using r(2,3) by (rule tracked_row)
    qed
  qed
qed

lemma delete_empty_tracked: "tracked_paths (delete_empty_module owner name s) = tracked_paths s"
proof -
  have "db_releases (delete_empty_module owner name s) = db_releases s"
    unfolding delete_empty_module_def delete_modules_def has_releases_def 
    by (simp add: delete_where_def) (rule filter_True, metis)
  then show ?thesis
    by (simp add: tracked_paths_def pending_paths_def) (simp add: delete_empty_module_def delete_modules_def)
qed

lemma delete_release_tracked:
  assumes inv: "db_inv sv s" and r: "r \<in> set (db_releases s)" "rr_module_id r = mr_id m" "rr_version r = version"
  shows "tracked_paths s \<subseteq> tracked_paths (delete_release_tx v s m r owner name version)"
proof -
  define tx1 where "tx1 = (if rr_source r = ''local'' \<and> rr_storage_path r \<noteq> []
      then queue_deletion v s (rr_storage_path r) owner name else s)"
  define tx2 where "tx2 = tx1\<lparr>db_releases := delete_where
      (\<lambda>x. rr_module_id x = mr_id m \<and> rr_version x = version) (db_releases tx1)\<rparr>"
  have t: "tracked_paths (delete_release_tx v s m r owner name version) = tracked_paths tx2"
    unfolding delete_release_tx_def Let_def delete_empty_tracked tx1_def [symmetric] tx2_def [symmetric] by simp
  have p: "pending_paths tx2 = (if rr_source r = ''local'' \<and> rr_storage_path r \<noteq> []
      then insert (rr_storage_path r) (pending_paths s) else pending_paths s)"
    by (simp add: tx2_def tx1_def pending_paths_def pending_queue_deletion)
  have "tracked_paths s \<subseteq> tracked_paths tx2"
  proof (rule tracked_mono)
    show "pending_paths s \<subseteq> tracked_paths tx2" using p by (auto simp: tracked_paths_def)
    fix x
    assume x: "x \<in> set (db_releases s)" "rr_source x = ''local''" "rr_storage_path x \<noteq> []"
    show "rr_storage_path x \<in> tracked_paths tx2"
    proof (cases "rr_module_id x = mr_id m \<and> rr_version x = version")
      case True
      then have "x = r" using releases_invD(2) [OF db_invD(2) [OF inv] x(1) r(1)] r(2,3) by simp
      with x p show ?thesis by (simp add: tracked_paths_def)
    next
      case False
      then have "x \<in> set (db_releases tx2)" using x(1) by (simp add: tx2_def tx1_def)
      then show ?thesis using x(2,3) by (rule tracked_row)
    qed
  qed
  with t show ?thesis by simp
qed

text \<open>What a written release leaves: its own row, and every row of another release.\<close>

lemma insert_release_rows:
  assumes ins: "insert_release_row v s r co = Inr (t, n)" and n: "n \<noteq> 0 \<or> \<not> co"
  shows "\<exists>x \<in> set (db_releases t). rr_module_id x = r_ModuleID r \<and> rr_version x = r_Version r \<and>
      rr_source x = r_Source r \<and> rr_storage_path x = r_StoragePath r"
    and "y \<in> set (db_releases s) \<Longrightarrow> \<not> (rr_module_id y = r_ModuleID r \<and> rr_version y = r_Version r) \<Longrightarrow>
      y \<in> set (db_releases t)"
    and "co \<Longrightarrow> release_of s (r_ModuleID r) (r_Version r) = None"
    and "db_deletions t = db_deletions s"
proof -
  let ?row = "release_row_of v r"
  have row: "rr_module_id ?row = r_ModuleID r" "rr_version ?row = r_Version r" "rr_source ?row = r_Source r"
      "rr_storage_path ?row = r_StoragePath r"
    by (simp_all add: release_row_of_def)
  let ?p = "\<lambda>y. rr_module_id y = r_ModuleID r \<and> rr_version y = r_Version r"
  have "(\<exists>x \<in> set (db_releases t). ?p x \<and> rr_source x = r_Source r \<and> rr_storage_path x = r_StoragePath r) \<and>
      (\<forall>y \<in> set (db_releases s). \<not> ?p y \<longrightarrow> y \<in> set (db_releases t)) \<and>
      (co \<longrightarrow> release_of s (r_ModuleID r) (r_Version r) = None) \<and> db_deletions t = db_deletions s"
  proof (cases "release_of s (r_ModuleID r) (r_Version r)")
    case None
    then have "t = s\<lparr>db_releases := db_releases s @ [?row]\<rparr>"
      using ins by (auto simp: insert_release_row_def Let_def row split: if_splits)
    with None show ?thesis by (auto simp: row)
  next
    case (Some x)
    then have t: "t = s\<lparr>db_releases := update_where ?p (replace_row r) (db_releases s)\<rparr>" "\<not> co"
      using ins n by (auto simp: insert_release_row_def Let_def row split: if_splits)
    have x: "x \<in> set (db_releases s)" "?p x" using release_of_Some [OF Some] by auto
    then have "replace_row r x \<in> set (db_releases t)" by (simp add: t update_whereI)
    moreover have "?p (replace_row r x) \<and> rr_source (replace_row r x) = r_Source r \<and>
        rr_storage_path (replace_row r x) = r_StoragePath r"
      using x by (simp add: replace_row_def)
    moreover have "y \<in> set (db_releases t)" if "y \<in> set (db_releases s)" "\<not> ?p y" for y
      unfolding t using update_where_keep [of y "db_releases s" ?p "replace_row r"] that by simp
    ultimately show ?thesis using t by auto
  qed
  then show "\<exists>x \<in> set (db_releases t). rr_module_id x = r_ModuleID r \<and> rr_version x = r_Version r \<and>
      rr_source x = r_Source r \<and> rr_storage_path x = r_StoragePath r"
    "y \<in> set (db_releases s) \<Longrightarrow> \<not> (rr_module_id y = r_ModuleID r \<and> rr_version y = r_Version r) \<Longrightarrow>
      y \<in> set (db_releases t)"
    "co \<Longrightarrow> release_of s (r_ModuleID r) (r_Version r) = None" "db_deletions t = db_deletions s"
    by blast+
qed

definition replaced_path :: "db \<Rightarrow> release \<Rightarrow> bool \<Rightarrow> string set" where
  "replaced_path s r co =
     (if co then {} else case release_of s (r_ModuleID r) (r_Version r) of
        None \<Rightarrow> {}
      | Some x \<Rightarrow> if rr_source x = ''local'' \<and> rr_storage_path x \<noteq> [] \<and> rr_storage_path x \<noteq> r_StoragePath r
                  then {rr_storage_path x} else {})"

lemma pending_create_outbox:
  "pending_paths (create_outbox v s r co tx) =
     (if r_Source r = ''local'' \<and> r_StoragePath r \<noteq> [] then pending_paths tx - {r_StoragePath r}
      else pending_paths tx) \<union> replaced_path s r co"
proof -
  have cancel: "pending_paths (tx\<lparr>db_deletions := delete_where (\<lambda>d. dr_storage_path d = p) (db_deletions tx)\<rparr>) =
      pending_paths tx - {p}" for p
    by (auto simp: pending_paths_def)
  have queue: "pending_paths (queue_deletion v u p o' n) = insert p (pending_paths u)" for u p o' n
    by (simp add: pending_paths_def pending_queue_deletion)
  show ?thesis
    unfolding create_outbox_def replaced_path_def Let_def
    by (auto simp: cancel queue split: option.split)
qed

text \<open>
  A step gives up a local path where it writes an upstream release over a local one with the same
  path, or new checksums with another path for a local release: neither queues the old path.
\<close>

definition given_up :: "db \<Rightarrow> store_op \<Rightarrow> string set" where
  "given_up s op =
     (case op of
        OCreateRelease r co \<Rightarrow>
          (case release_of s (r_ModuleID r) (r_Version r) of
             None \<Rightarrow> {}
           | Some x \<Rightarrow> if \<not> co \<and> r_Source r \<noteq> ''local'' \<and> rr_source x = ''local'' \<and> rr_storage_path x = r_StoragePath r \<and> r_StoragePath r \<noteq> []
                       then {r_StoragePath r} else {})
      | OUpdateChecksums owner name version md5 sha256 path bytes \<Rightarrow>
          (case GetRelease s owner name version of
             Inl _ \<Rightarrow> {}
           | Inr r \<Rightarrow> if r_Source r = ''local'' \<and> r_StoragePath r \<notin> {[], path} then {r_StoragePath r} else {})
      | _ \<Rightarrow> {})"

fun given_up_paths :: "semver \<Rightarrow> store_step list \<Rightarrow> db \<Rightarrow> string set" where
  "given_up_paths sv [] s = {}"
| "given_up_paths sv (st # sts) s = given_up s (st_op st) \<union> given_up_paths sv sts (store_exec sv st s)"

lemma createRelease_tracked:
  assumes inv: "db_inv sv s"
  shows "tracked_paths s \<subseteq> tracked_paths (snd (fst (createRelease v c s r co))) \<union> given_up s (OCreateRelease r co)"
proof (cases rule: createRelease_cases [of v c s r co])
  case (failed e)
  then show ?thesis by simp
next
  case (finished tx n current c1 s1)
  note rows = insert_release_rows [OF finished(1,2)]
  let ?t = "create_outbox v s r co tx"
  have t: "tracked_paths s1 = tracked_paths ?t" using tracked_commit [OF finished(4)] by simp
  have pend: "pending_paths ?t = (if r_Source r = ''local'' \<and> r_StoragePath r \<noteq> [] then pending_paths s - {r_StoragePath r}
      else pending_paths s) \<union> replaced_path s r co"
    unfolding pending_create_outbox using rows(4) by (simp add: pending_paths_def)
  have own: "r_Source r = ''local'' \<Longrightarrow> r_StoragePath r \<noteq> [] \<Longrightarrow> r_StoragePath r \<in> tracked_paths ?t"
    using rows(1) by (force simp: tracked_paths_def local_paths_def)
  let ?lost = "given_up s (OCreateRelease r co)"
  have "tracked_paths s \<subseteq> tracked_paths ?t \<union> ?lost"
  proof (rule tracked_upto)
    show "pending_paths s \<subseteq> tracked_paths ?t" using pend own by (auto simp: tracked_paths_def split: if_splits)
    fix x
    assume x: "x \<in> set (db_releases s)" "rr_source x = ''local''" "rr_storage_path x \<noteq> []"
    show "rr_storage_path x \<in> tracked_paths ?t \<union> ?lost"
    proof (cases "rr_module_id x = r_ModuleID r \<and> rr_version x = r_Version r")
      case False
      then have "x \<in> set (db_releases ?t)" using rows(2) [OF x(1)] by simp
      then show ?thesis using x(2,3) tracked_row by blast
    next
      case True
      then have none: "release_of s (r_ModuleID r) (r_Version r) \<noteq> None" using x(1) by (auto simp: release_of_None)
      then obtain y where y: "release_of s (r_ModuleID r) (r_Version r) = Some y" by blast
      have "y = x" using release_of_Some [OF y] releases_invD(2) [OF db_invD(2) [OF inv] _ x(1)] True by simp
      have co: "\<not> co" using rows(3) none by blast
      show ?thesis
      proof (cases "rr_storage_path x = r_StoragePath r")
        case True
        then show ?thesis using own y \<open>y = x\<close> co x(2,3) by (cases "r_Source r = ''local''") (auto simp: given_up_def)
      next
        case False
        then have "rr_storage_path x \<in> replaced_path s r co"
          using y \<open>y = x\<close> co x by (simp add: replaced_path_def)
        then show ?thesis using pend by (simp add: tracked_paths_def)
      qed
    qed
  qed
  then show ?thesis using t by (simp add: finished(5))
qed

fun completed_path :: "store_op \<Rightarrow> string set" where
  "completed_path (OCompleteDeletion path) = {path}"
| "completed_path _ = {}"

definition completed_paths :: "store_step list \<Rightarrow> string set" where
  "completed_paths sts = (\<Union>st \<in> set sts. completed_path (st_op st))"

lemma GetRelease_row:
  assumes inv: "db_inv sv s" and m: "module_of s owner name = Some m" and r: "release_of s (mr_id m) version = Some r"
  shows "GetRelease s owner name version = Inr (scanRelease m r)"
proof -
  note m' = module_of_Some [OF m] and r' = release_of_Some [OF r]
  have in_join: "(m, r) \<in> set (joined s)" using m' r' by (simp add: set_joined)
  have uniq: "x = (m, r)" if "x \<in> set (joined s)"
      "(case x of (m, r) \<Rightarrow> mr_owner m = owner \<and> mr_name m = name \<and> rr_version r = version)" for x
  proof -
    obtain m2 r2 where x: "x = (m2, r2)" by fastforce
    have "m2 = m" using that m' modules_invD(2) [OF db_invD(1) [OF inv]] by (auto simp: x set_joined)
    moreover have "r2 = r" using that r' calculation releases_invD(2) [OF db_invD(2) [OF inv]] by (auto simp: x set_joined)
    ultimately show ?thesis by (simp add: x)
  qed
  obtain x where f: "find (\<lambda>(m, r). mr_owner m = owner \<and> mr_name m = name \<and> rr_version r = version) (joined s) = Some x"
  proof (cases "find (\<lambda>(m, r). mr_owner m = owner \<and> mr_name m = name \<and> rr_version r = version) (joined s)")
    case None
    with in_join m' r' show ?thesis by (auto simp: find_None_iff)
  qed
  then have "x = (m, r)" using uniq find_SomeD [OF f] by blast
  with f show ?thesis by (simp add: GetRelease_def)
qed

lemma UpdateChecksums_tracked:
  assumes inv: "db_inv sv s"
  shows "tracked_paths s \<subseteq> tracked_paths (fst (UpdateReleaseChecksums s owner name version md5 sha path sz)) \<union>
    given_up s (OUpdateChecksums owner name version md5 sha path sz)"
proof (cases "module_of s owner name")
  case None
  then show ?thesis by (simp add: UpdateReleaseChecksums_def)
next
  case m: (Some m)
  show ?thesis
  proof (cases "release_of s (mr_id m) version")
    case None
    with m show ?thesis by (simp add: UpdateReleaseChecksums_def)
  next
    case (Some r)
    let ?p = "\<lambda>r. rr_module_id r = mr_id m \<and> rr_version r = version"
    let ?f = "\<lambda>r. r\<lparr>rr_md5 := md5, rr_sha256 := sha, rr_storage_path := path, rr_size_bytes := sz\<rparr>"
    let ?t = "s\<lparr>db_releases := update_where ?p ?f (db_releases s)\<rparr>"
    let ?lost = "given_up s (OUpdateChecksums owner name version md5 sha path sz)"
    have "tracked_paths s \<subseteq> tracked_paths ?t \<union> ?lost"
    proof (rule tracked_upto)
      show "pending_paths s \<subseteq> tracked_paths ?t" by (auto simp: tracked_paths_def pending_paths_def)
      fix x
      assume x: "x \<in> set (db_releases s)" "rr_source x = ''local''" "rr_storage_path x \<noteq> []"
      show "rr_storage_path x \<in> tracked_paths ?t \<union> ?lost"
      proof (cases "?p x")
        case True
        then have "x = r" using release_of_Some [OF Some] releases_invD(2) [OF db_invD(2) [OF inv] x(1)] by simp
        show ?thesis
        proof (cases "rr_storage_path x = path")
          case False
          then show ?thesis using \<open>x = r\<close> x(2,3) GetRelease_row [OF inv m Some] by (simp add: given_up_def scanRelease_def)
        next
        case samePath: True
        have "?f x \<in> set (db_releases ?t)" using x(1) True by (simp add: update_whereI)
        then have "rr_storage_path (?f x) \<in> local_paths (db_releases ?t)"
          unfolding local_paths_def using x(2,3) samePath by (intro imageI) simp
        then show ?thesis using samePath by (simp add: tracked_paths_def)
        qed
      next
        case False
        then have "x \<in> set (db_releases ?t)" using update_where_keep [of x "db_releases s" ?p ?f] x(1) by (simp del: set_update_where)
        then show ?thesis using x(2,3) tracked_row by blast
      qed
    qed
    with m Some show ?thesis by (simp add: UpdateReleaseChecksums_def)
  qed
qed

lemma store_exec_tracked:
  assumes inv: "db_inv sv s"
  shows "tracked_paths s \<subseteq> tracked_paths (store_exec sv st s) \<union> completed_path (st_op st) \<union> given_up s (st_op st)"
proof -
  let ?v = "step_env sv st" and ?c = "st_audit st"
  have del: "tracked_paths s \<subseteq> tracked_paths (snd (fst (DeleteRelease ?v ?c s owner name version)))" for owner name version
  proof (cases "find (\<lambda>(m, r). mr_owner m = owner \<and> mr_name m = name \<and> rr_version r = version) (joined s)")
    case None
    then show ?thesis by (simp add: DeleteRelease_def rolled_back_def)
  next
    case (Some x)
    obtain m r where x: "x = (m, r)" by fastforce
    have "tracked_paths s \<subseteq> tracked_paths (delete_release_tx ?v s m r owner name version)"
      using find_SomeD [OF Some] by (intro delete_release_tracked [OF inv]) (auto simp: x set_joined)
    then show ?thesis
      using tracked_commit by (force simp: DeleteRelease_def Some x rolled_back_def split: sum.split)
  qed
  have delm: "tracked_paths s \<subseteq> tracked_paths (snd (fst (DeleteModule ?v ?c s owner name)))" for owner name
    using delete_module_tracked [OF inv, of ?v owner name] tracked_commit
    by (force simp: DeleteModule_def Let_def rolled_back_def split: sum.split)
  have "set (map dr_storage_path (update_where p (\<lambda>d. d\<lparr>dr_next_attempt_at := a\<rparr>) ds)) = set (map dr_storage_path ds)"
    for p a and ds :: "deletion_row list"
    by (rule arg_cong [OF map_update_where]) simp
  then have later: "tracked_paths (DeferArtifactDeletion s path a) = tracked_paths s" for path a
    unfolding list.set_map by (simp add: DeferArtifactDeletion_def tracked_paths_def pending_paths_def del: set_update_where)
  show ?thesis
  proof (cases "st_op st")
    case (OCreateRelease r co)
    with createRelease_tracked [OF inv, of ?v ?c r co] show ?thesis by (simp add: store_exec_def)
  next
    case (OUpdateChecksums owner name version md5 sha path sz)
    with UpdateChecksums_tracked [OF inv] show ?thesis by (simp add: store_exec_def Let_def)
  next
    case (OUpsertModule owner name)
    then show ?thesis by (simp add: store_exec_def Let_def UpsertModule_def split: option.split)
  next
    case (OMarkRefresh owner name at)
    then show ?thesis by (simp add: store_exec_def Let_def MarkUpstreamModuleRefreshAttempt_def)
  next
    case (OCompleteDeletion path)
    then show ?thesis
      by (auto simp: store_exec_def CompleteArtifactDeletion_def tracked_paths_def pending_paths_def)
  qed (use del delm later in \<open>simp_all add: given_up_def store_exec_def Let_def DeleteModuleIfEmpty_def delete_empty_tracked
      PurgeDeletedReleases_def MarkReleaseUsed_def PruneReleaseUsageBefore_def\<close>)
qed

lemma store_run_tracked:
  assumes sv: "semver_package sv"
  shows "db_inv sv s \<Longrightarrow>
    tracked_paths s \<subseteq> tracked_paths (store_run sv sts s) \<union> completed_paths sts \<union> given_up_paths sv sts s"
proof (induction sts arbitrary: s)
  case Nil
  then show ?case by (simp add: store_run_def)
next
  case (Cons st sts)
  have "tracked_paths (store_exec sv st s) \<subseteq> tracked_paths (store_run sv sts (store_exec sv st s)) \<union> completed_paths sts \<union>
      given_up_paths sv sts (store_exec sv st s)"
    using Cons store_exec_inv [OF sv] by simp
  with store_exec_tracked [OF Cons.prems, of st] show ?case
    by (fastforce simp: store_run_def completed_paths_def)
qed

end
