(* ===== verification/SqliteCatalog.thy ===== *)
theory SqliteCatalog
  imports SqliteStore
begin

text \<open>
  The abstract view of the store: the catalog, the set of releases the API can return. The
  operations on tables refine set operations on the catalog, whatever the tables hold beside it.
\<close>

section \<open>The catalog\<close>

definition scan_as :: "string \<Rightarrow> string \<Rightarrow> release_row \<Rightarrow> release" where
  "scan_as owner name r =
     \<lparr>r_ID = rr_id r, r_ModuleID = rr_module_id r, r_Owner = owner, r_Name = name,
      r_Source = rr_source r, r_Version = rr_version r, r_Description = rr_description r,
      r_Readme = rr_readme r, r_FileName = rr_file_name r, r_ContentType = rr_content_type r,
      r_SizeBytes = rr_size_bytes r, r_MD5 = rr_md5 r, r_SHA256 = rr_sha256 r,
      r_StoragePath = rr_storage_path r, r_UpstreamSlug = rr_upstream_slug r,
      r_UpstreamFileURI = rr_upstream_file_uri r, r_DownloadURL = [],
      r_Metadata = normalizeReleaseMetadata (rr_metadata r), r_CreatedAt = rr_created_at r\<rparr>"

lemma scanRelease_as: "scanRelease m r = scan_as (mr_owner m) (mr_name m) r"
  by (simp add: scanRelease_def scan_as_def)

lemma scan_as_simps [simp]:
  "r_Owner (scan_as ow n r) = ow" "r_Name (scan_as ow n r) = n" "r_Version (scan_as ow n r) = rr_version r"
  "r_ModuleID (scan_as ow n r) = rr_module_id r" "r_Source (scan_as ow n r) = rr_source r"
  "r_StoragePath (scan_as ow n r) = rr_storage_path r" "r_CreatedAt (scan_as ow n r) = rr_created_at r"
  by (simp_all add: scan_as_def)

definition identities :: "module_row list \<Rightarrow> (string \<times> string \<times> string) set" where
  "identities ms = (\<lambda>m. (mr_id m, mr_owner m, mr_name m)) ` set ms"

definition catalog_of :: "(string \<times> string \<times> string) set \<Rightarrow> release_row set \<Rightarrow> release set" where
  "catalog_of ids rs = {scan_as ow n r | i ow n r. (i, ow, n) \<in> ids \<and> r \<in> rs \<and> rr_module_id r = i}"

definition catalog :: "db \<Rightarrow> release set" where
  "catalog s = catalog_of (identities (db_modules s)) (set (db_releases s))"

type_synonym release_key = "string \<times> string \<times> string"

definition key_of :: "release \<Rightarrow> release_key" where
  "key_of q = (r_Owner q, r_Name q, r_Version q)"

lemma catalog_joined: "catalog s = (\<lambda>(m, r). scanRelease m r) ` set (joined s)"
proof (rule set_eqI)
  fix x
  have "x \<in> catalog s \<longleftrightarrow> (\<exists>i ow n. (\<exists>m \<in> set (db_modules s). (i, ow, n) = (mr_id m, mr_owner m, mr_name m)) \<and>
      (\<exists>r \<in> set (db_releases s). x = scan_as ow n r \<and> rr_module_id r = i))"
    unfolding catalog_def catalog_of_def identities_def image_iff mem_Collect_eq by blast
  also have "\<dots> \<longleftrightarrow> (\<exists>m \<in> set (db_modules s). \<exists>r \<in> set (db_releases s). x = scanRelease m r \<and> mr_id m = rr_module_id r)"
    unfolding scanRelease_as prod.inject by metis
  also have "\<dots> \<longleftrightarrow> x \<in> (\<lambda>(m, r). scanRelease m r) ` set (joined s)"
    unfolding set_joined image_def mem_Collect_eq Bex_def split_paired_Ex prod.case by metis
  finally show "x \<in> catalog s \<longleftrightarrow> x \<in> (\<lambda>(m, r). scanRelease m r) ` set (joined s)" .
qed

lemma identities_update:
  "\<forall>m. mr_id (f m) = mr_id m \<and> mr_owner (f m) = mr_owner m \<and> mr_name (f m) = mr_name m \<Longrightarrow>
   identities (update_where p f ms) = identities ms"
proof -
  assume f: "\<forall>m. mr_id (f m) = mr_id m \<and> mr_owner (f m) = mr_owner m \<and> mr_name (f m) = mr_name m"
  have "map (\<lambda>m. (mr_id m, mr_owner m, mr_name m)) (update_where p f ms) = map (\<lambda>m. (mr_id m, mr_owner m, mr_name m)) ms"
    by (rule map_update_where) (use f in simp)
  from arg_cong [OF this, of set] show ?thesis unfolding identities_def list.set_map .
qed

text \<open>Under the invariant the catalog is a map from owner, name and version.\<close>

lemma catalog_unique:
  assumes inv: "db_inv sv s" and "p \<in> catalog s" "q \<in> catalog s" "key_of p = key_of q"
  shows "p = q"
proof -
  obtain mp rp mq rq where p: "p = scanRelease mp rp" "(mp, rp) \<in> set (joined s)"
    and q: "q = scanRelease mq rq" "(mq, rq) \<in> set (joined s)"
    using assms(2,3) by (auto simp: catalog_joined)
  have "mp = mq" using p q assms(4) modules_invD(2) [OF db_invD(1) [OF inv]]
    by (auto simp: set_joined key_of_def scanRelease_as)
  moreover have "rp = rq"
    using p q assms(4) calculation releases_invD(2) [OF db_invD(2) [OF inv]]
    by (auto simp: set_joined key_of_def scanRelease_as)
  ultimately show ?thesis using p q by simp
qed

lemma GetRelease_catalog:
  assumes inv: "db_inv sv s"
  shows "GetRelease s owner name version = Inr q \<longleftrightarrow> q \<in> catalog s \<and> key_of q = (owner, name, version)"
    and "GetRelease s owner name version = Inl e \<longleftrightarrow>
      e = ErrNotFound \<and> (\<forall>q \<in> catalog s. key_of q \<noteq> (owner, name, version))"
proof -
  let ?p = "\<lambda>(m, r). mr_owner m = owner \<and> mr_name m = name \<and> rr_version r = version"
  have key: "key_of (scanRelease m r) = (owner, name, version) \<longleftrightarrow> ?p (m, r)" for m r
    by (simp add: key_of_def scanRelease_as)
  have "(GetRelease s owner name version = Inr q \<longleftrightarrow> q \<in> catalog s \<and> key_of q = (owner, name, version)) \<and>
    (GetRelease s owner name version = Inl e \<longleftrightarrow>
      e = ErrNotFound \<and> (\<forall>q \<in> catalog s. key_of q \<noteq> (owner, name, version)))"
  proof (cases "find ?p (joined s)")
    case None
    then have "\<forall>q \<in> catalog s. key_of q \<noteq> (owner, name, version)"
      using key by (auto simp: catalog_joined find_None_iff)
    with None show ?thesis by (auto simp: GetRelease_def)
  next
    case (Some x)
    obtain m r where x: "x = (m, r)" by fastforce
    have "(m, r) \<in> set (joined s)" "?p (m, r)" using find_SomeD [OF Some] by (auto simp: x)
    then have cat: "scanRelease m r \<in> catalog s" "key_of (scanRelease m r) = (owner, name, version)"
      using key by (auto simp: catalog_joined)
    have eq: "GetRelease s owner name version = Inr (scanRelease m r)" by (simp add: GetRelease_def Some x)
    have "scanRelease m r = q \<longleftrightarrow> q \<in> catalog s \<and> key_of q = (owner, name, version)"
      using cat catalog_unique [OF inv _ cat(1), of q] by metis
    moreover have "\<not> (\<forall>q \<in> catalog s. key_of q \<noteq> (owner, name, version))" using cat by blast
    ultimately show ?thesis unfolding eq by simp
  qed
  then show "GetRelease s owner name version = Inr q \<longleftrightarrow> q \<in> catalog s \<and> key_of q = (owner, name, version)"
    "GetRelease s owner name version = Inl e \<longleftrightarrow>
      e = ErrNotFound \<and> (\<forall>q \<in> catalog s. key_of q \<noteq> (owner, name, version))"
    by blast+
qed

section \<open>Operations on the catalog\<close>

definition put_release :: "release \<Rightarrow> release set \<Rightarrow> release set" where
  "put_release q cat = insert q {p \<in> cat. key_of p \<noteq> key_of q}"

definition drop_release :: "release_key \<Rightarrow> release set \<Rightarrow> release set" where
  "drop_release k cat = {p \<in> cat. key_of p \<noteq> k}"

definition drop_module :: "string \<Rightarrow> string \<Rightarrow> release set \<Rightarrow> release set" where
  "drop_module owner name cat = {p \<in> cat. (r_Owner p, r_Name p) \<noteq> (owner, name)}"

text \<open>A stored release has the content it was given; id and creation time of an older row stay.\<close>

definition stored_as :: "release \<Rightarrow> release \<Rightarrow> bool" where
  "stored_as r q \<longleftrightarrow>
     q = r\<lparr>r_ID := r_ID q, r_CreatedAt := r_CreatedAt q, r_DownloadURL := [],
           r_Metadata := normalizeReleaseMetadata (r_Metadata r)\<rparr>"

lemma catalog_commit: "commitSQLiteMutation v c tx = Inr (c1, s1) \<Longrightarrow> catalog s1 = catalog tx"
  by (drule commit_cases) (auto simp: catalog_def)

lemma insert_release_set:
  assumes inv: "db_inv (v_sv v) s" and ins: "insert_release_row v s r co = Inr (t, n)" and n: "n \<noteq> 0 \<or> \<not> co"
  obtains row where
    "set (db_releases t) = insert row {y \<in> set (db_releases s). \<not> (rr_module_id y = r_ModuleID r \<and> rr_version y = r_Version r)}"
    "rr_module_id row = r_ModuleID r" "stored_as r (scan_as (r_Owner r) (r_Name r) row)"
    "db_modules t = db_modules s"
proof -
  let ?p = "\<lambda>y. rr_module_id y = r_ModuleID r \<and> rr_version y = r_Version r"
  let ?row = "release_row_of v r"
  have row: "rr_module_id ?row = r_ModuleID r" "rr_version ?row = r_Version r"
    by (simp_all add: release_row_of_def)
  show ?thesis
  proof (cases "release_of s (r_ModuleID r) (r_Version r)")
    case None
    then have "t = s\<lparr>db_releases := db_releases s @ [?row]\<rparr>"
      using ins by (auto simp: insert_release_row_def Let_def row split: if_splits)
    moreover have "{y \<in> set (db_releases s). \<not> ?p y} = set (db_releases s)"
      using None by (auto simp: release_of_None)
    moreover have "stored_as r (scan_as (r_Owner r) (r_Name r) ?row)"
      by (simp add: stored_as_def scan_as_def release_row_of_def)
    ultimately show ?thesis using row by (intro that [of ?row]) auto
  next
    case (Some x)
    then have t: "t = s\<lparr>db_releases := update_where ?p (replace_row r) (db_releases s)\<rparr>"
      using ins n by (auto simp: insert_release_row_def Let_def row split: if_splits)
    have x: "x \<in> set (db_releases s)" "?p x" using release_of_Some [OF Some] by auto
    have only: "y = x" if "y \<in> set (db_releases s)" "?p y" for y
      using releases_invD(2) [OF db_invD(2) [OF inv] that(1) x(1)] that(2) x(2) by simp
    have "set (db_releases t) = insert (replace_row r x) {y \<in> set (db_releases s). \<not> ?p y}" (is "?l = ?r")
    proof
      show "?l \<subseteq> ?r" using only by (auto simp: t)
      show "?r \<subseteq> ?l"
        using update_whereI [of x "db_releases s" ?p "replace_row r"] x
          update_where_keep [of _ "db_releases s" ?p "replace_row r"]
        by (auto simp: t simp del: set_update_where)
    qed
    moreover have "stored_as r (scan_as (r_Owner r) (r_Name r) (replace_row r x))"
      using x by (simp add: stored_as_def scan_as_def replace_row_def)
    ultimately show ?thesis using x by (intro that [of "replace_row r x"]) (auto simp: t replace_row_def)
  qed
qed

text \<open>In the catalog the module id and the owner and name determine each other.\<close>

lemma in_catalog:
  "q \<in> catalog s \<longleftrightarrow> (\<exists>m \<in> set (db_modules s). \<exists>r \<in> set (db_releases s).
     rr_module_id r = mr_id m \<and> q = scan_as (mr_owner m) (mr_name m) r)"
  unfolding catalog_joined image_def set_joined mem_Collect_eq Bex_def split_paired_Ex prod.case scanRelease_as
  by metis

lemma catalog_module:
  assumes inv: "db_inv sv s" and m: "m \<in> set (db_modules s)" and q: "q \<in> catalog s"
  shows "r_ModuleID q = mr_id m \<longleftrightarrow> r_Owner q = mr_owner m \<and> r_Name q = mr_name m"
proof -
  obtain m' r where m': "m' \<in> set (db_modules s)" "rr_module_id r = mr_id m'" "q = scan_as (mr_owner m') (mr_name m') r"
    using q by (auto simp: in_catalog)
  note mods = db_invD(1) [OF inv]
  show ?thesis using m' modules_invD(1) [OF mods m m'(1)] modules_invD(2) [OF mods m m'(1)] by auto
qed

lemma catalog_rows:
  assumes "identities (db_modules t) = identities (db_modules s)"
    and "set (db_releases t) = {r \<in> set (db_releases s). P (rr_module_id r) (rr_version r)}"
  shows "catalog t = {q \<in> catalog s. P (r_ModuleID q) (r_Version q)}"
proof -
  let ?u = "s\<lparr>db_releases := db_releases t\<rparr>"
  have "catalog t = catalog ?u" by (simp add: catalog_def assms(1))
  also have "set (joined ?u) = {(m, r) \<in> set (joined s). P (rr_module_id r) (rr_version r)}"
    by (auto simp: set_joined assms(2))
  then have "catalog ?u = {q \<in> catalog s. P (r_ModuleID q) (r_Version q)}"
    unfolding catalog_joined by (auto simp: scanRelease_as)
  finally show ?thesis .
qed

lemma catalog_replace:
  assumes inv: "db_inv sv s" and m: "m \<in> set (db_modules s)" "rr_module_id row = mr_id m"
    and ids: "identities (db_modules t) = identities (db_modules s)"
    and rows: "set (db_releases t) = insert row {y \<in> set (db_releases s). \<not> (rr_module_id y = mr_id m \<and> rr_version y = rr_version row)}"
  shows "catalog t = put_release (scan_as (mr_owner m) (mr_name m) row) (catalog s)"
proof (rule set_eqI)
  fix q
  have own: "m' = m" if "m' \<in> set (db_modules s)" "mr_id m' = mr_id m" for m'
    using modules_invD(1) [OF db_invD(1) [OF inv] that(1) m(1)] that(2) by simp
  have t: "catalog t = catalog_of (identities (db_modules s)) (set (db_releases t))"
    by (simp add: catalog_def ids)
  let ?u = "s\<lparr>db_releases := filter (\<lambda>y. \<not> (rr_module_id y = mr_id m \<and> rr_version y = rr_version row)) (db_releases s)\<rparr>"
  have us: "db_modules ?u = db_modules s"
      "set (db_releases ?u) = {y \<in> set (db_releases s). \<not> (rr_module_id y = mr_id m \<and> rr_version y = rr_version row)}"
    by auto
  have u: "catalog ?u = {q \<in> catalog s. \<not> (r_ModuleID q = mr_id m \<and> r_Version q = rr_version row)}"
    by (rule catalog_rows) auto
  have "q \<in> catalog t \<longleftrightarrow> (\<exists>m' \<in> set (db_modules s). \<exists>r \<in> set (db_releases t).
      rr_module_id r = mr_id m' \<and> q = scan_as (mr_owner m') (mr_name m') r)"
    using in_catalog [of q "s\<lparr>db_releases := db_releases t\<rparr>"] unfolding t by (simp add: catalog_def)
  also have "\<dots> \<longleftrightarrow> (\<exists>m' \<in> set (db_modules s). rr_module_id row = mr_id m' \<and> q = scan_as (mr_owner m') (mr_name m') row) \<or>
      (\<exists>m' \<in> set (db_modules ?u). \<exists>r \<in> set (db_releases ?u).
        rr_module_id r = mr_id m' \<and> q = scan_as (mr_owner m') (mr_name m') r)"
    unfolding rows us by blast
  also have "\<dots> \<longleftrightarrow> (\<exists>m' \<in> set (db_modules s). rr_module_id row = mr_id m' \<and> q = scan_as (mr_owner m') (mr_name m') row) \<or>
      q \<in> catalog ?u"
    unfolding in_catalog ..
  also have "\<dots> \<longleftrightarrow> q = scan_as (mr_owner m) (mr_name m) row \<or>
      (q \<in> catalog s \<and> \<not> (r_ModuleID q = mr_id m \<and> r_Version q = rr_version row))"
    unfolding u mem_Collect_eq using m own by metis
  also have "\<dots> \<longleftrightarrow> q \<in> put_release (scan_as (mr_owner m) (mr_name m) row) (catalog s)"
    using catalog_module [OF inv m(1), of q] by (auto simp: put_release_def key_of_def)
  finally show "q \<in> catalog t \<longleftrightarrow> q \<in> put_release (scan_as (mr_owner m) (mr_name m) row) (catalog s)" .
qed

lemma createRelease_catalog:
  assumes inv: "db_inv (v_sv v) s"
    and m: "m \<in> set (db_modules s)" "mr_id m = r_ModuleID r" "mr_owner m = r_Owner r" "mr_name m = r_Name r"
    and ok: "createRelease v c s r co = ((c1, s1), Inr q)"
  shows "catalog s1 = put_release q (catalog s)" "stored_as r q" "key_of q = key_of r"
    "co \<Longrightarrow> \<forall>p \<in> catalog s. key_of p \<noteq> key_of r"
proof -
  from ok obtain tx n current c1' s1' where fin:
      "insert_release_row v s r co = Inr (tx, n)" "n \<noteq> 0 \<or> \<not> co"
      "commitSQLiteMutation v c (updateLatestVersion v (create_outbox v s r co tx) (r_ModuleID r)
         (latestVersionWithCandidate (v_sv v) current (r_Version r))) = Inr (c1', s1')"
      "createRelease v c s r co = ((c1', s1'), GetRelease s1' (r_Owner r) (r_Name r) (r_Version r))"
    by (cases rule: createRelease_cases [of v c s r co]) auto
  then have s1: "s1' = s1" "GetRelease s1 (r_Owner r) (r_Name r) (r_Version r) = Inr q" using ok by auto
  obtain row where row:
      "set (db_releases tx) = insert row {y \<in> set (db_releases s). \<not> (rr_module_id y = r_ModuleID r \<and> rr_version y = r_Version r)}"
      "rr_module_id row = r_ModuleID r" "stored_as r (scan_as (r_Owner r) (r_Name r) row)" "db_modules tx = db_modules s"
    using insert_release_set [OF inv fin(1,2)] by blast
  define t where "t = updateLatestVersion v (create_outbox v s r co tx) (r_ModuleID r)
         (latestVersionWithCandidate (v_sv v) current (r_Version r))"
  let ?q = "scan_as (r_Owner r) (r_Name r) row"
  have ver: "rr_version row = r_Version r"
    using arg_cong [OF row(3) [unfolded stored_as_def], of r_Version] by simp
  have ids: "identities (db_modules t) = identities (db_modules s)"
    unfolding t_def updateLatestVersion_def by (simp add: identities_update row(4))
  have "catalog t = put_release ?q (catalog s)"
    using catalog_replace [OF inv m(1) _ ids, of row] row(1,2) m ver
    by (simp add: t_def updateLatestVersion_def)
  then have cat: "catalog s1 = put_release ?q (catalog s)"
    using catalog_commit [OF fin(3)] s1(1) by (simp add: t_def)
  have "q = ?q"
  proof -
    have f: "(case find (\<lambda>(m, r'). mr_owner m = r_Owner r \<and> mr_name m = r_Name r \<and> rr_version r' = r_Version r) (joined s1) of
        None \<Rightarrow> Inl ErrNotFound | Some (m, r') \<Rightarrow> Inr (scanRelease m r')) = Inr q"
      using s1(2) by (simp add: GetRelease_def)
    then obtain m' r' where "find (\<lambda>(m, r'). mr_owner m = r_Owner r \<and> mr_name m = r_Name r \<and> rr_version r' = r_Version r) (joined s1) = Some (m', r')"
        "q = scanRelease m' r'"
      by (auto split: option.splits)
    then have "q \<in> catalog s1" "key_of q = key_of r"
      using find_SomeD by (fastforce simp: catalog_joined, auto simp: key_of_def scanRelease_as dest!: find_SomeD)
    then show ?thesis using cat ver by (auto simp: put_release_def key_of_def)
  qed
  with cat show "catalog s1 = put_release q (catalog s)" by simp
  from row(3) \<open>q = ?q\<close> show "stored_as r q" by simp
  show "key_of q = key_of r" using \<open>q = ?q\<close> ver by (simp add: key_of_def)
  assume co
  then have none: "release_of s (r_ModuleID r) (r_Version r) = None" by (rule insert_release_rows(3) [OF fin(1,2)])
  show "\<forall>p \<in> catalog s. key_of p \<noteq> key_of r"
  proof
    fix p
    assume p: "p \<in> catalog s"
    show "key_of p \<noteq> key_of r"
    proof
      assume k: "key_of p = key_of r"
      then have "r_ModuleID p = r_ModuleID r" "r_Version p = r_Version r"
        using catalog_module [OF inv m(1) p] m by (auto simp: key_of_def)
      then show False using p none by (auto simp: in_catalog release_of_None)
    qed
  qed
qed

lemma joined_delete_modules:
  assumes "modules_inv (db_modules s)"
  shows "set (joined (delete_modules p s)) = {(m, r) \<in> set (joined s). \<not> p m}"
proof -
  have "(\<exists>m' \<in> set (db_modules s). p m' \<and> mr_id m' = rr_module_id r) \<longleftrightarrow> p m"
    if "m \<in> set (db_modules s)" "mr_id m = rr_module_id r" for m r
    using that modules_invD(1) [OF assms _ that(1)] by metis
  then show ?thesis by (auto simp: set_joined delete_modules_def)
qed

lemma catalog_delete_modules:
  assumes "modules_inv (db_modules s)" "\<And>m. p m \<longleftrightarrow> P (mr_owner m) (mr_name m)"
  shows "catalog (delete_modules p s) = {q \<in> catalog s. \<not> P (r_Owner q) (r_Name q)}"
  unfolding catalog_joined joined_delete_modules [OF assms(1)] using assms(2)
  by (auto simp: scanRelease_as)

lemma catalog_delete_empty: "modules_inv (db_modules s) \<Longrightarrow> catalog (delete_empty_module owner name s) = catalog s"
proof -
  assume m: "modules_inv (db_modules s)"
  have "set (joined (delete_empty_module owner name s)) = set (joined s)"
    unfolding delete_empty_module_def joined_delete_modules [OF m] by (auto simp: set_joined has_releases_def)
  then show ?thesis unfolding catalog_joined by simp
qed

lemma catalog_queue [simp]: "catalog (queue_deletion v s path owner name) = catalog s"
  by (simp add: catalog_def)

lemma catalog_others [simp]:
  "catalog (s\<lparr>db_tombstones := t\<rparr>) = catalog s" "catalog (s\<lparr>db_usage := u\<rparr>) = catalog s"
  "catalog (s\<lparr>db_deletions := d\<rparr>) = catalog s"
  by (simp_all add: catalog_def)

lemma DeleteModule_catalog:
  assumes inv: "db_inv sv s" and ok: "DeleteModule v c s owner name = ((c1, s1), Inr ())"
  shows "catalog s1 = drop_module owner name (catalog s)"
proof -
  have tx: "catalog (delete_module_tx v s owner name) = drop_module owner name (catalog s)"
    unfolding delete_module_tx_def Let_def drop_module_def
    using db_invD(1) [OF inv]
    by (subst catalog_delete_modules [of _ _ "\<lambda>ow n. ow = owner \<and> n = name"]) (auto simp: catalog_def)
  let ?tx = "delete_module_tx v s owner name"
  have "commitSQLiteMutation v c
      (?tx\<lparr>db_tombstones := delete_where (\<lambda>t. tr_owner t = owner \<and> tr_name t = name) (db_tombstones ?tx),
           db_usage := delete_where (\<lambda>u. ur_owner u = owner \<and> ur_name u = name) (db_usage ?tx)\<rparr>) = Inr (c1, s1)"
    using ok by (auto simp: DeleteModule_def Let_def rolled_back_def split: if_splits sum.splits)
  from catalog_commit [OF this] tx show ?thesis by simp
qed

lemma delete_release_catalog:
  assumes inv: "db_inv sv s" and m: "m \<in> set (db_modules s)" "mr_owner m = owner" "mr_name m = name"
  shows "catalog (delete_release_tx v s m r owner name version) = drop_release (owner, name, version) (catalog s)"
proof -
  define tx1 where "tx1 = (if rr_source r = ''local'' \<and> rr_storage_path r \<noteq> []
      then queue_deletion v s (rr_storage_path r) owner name else s)"
  define tx2 where "tx2 = tx1\<lparr>db_releases := delete_where
      (\<lambda>x. rr_module_id x = mr_id m \<and> rr_version x = version) (db_releases tx1)\<rparr>"
  obtain tx4 where tx4: "delete_release_tx v s m r owner name version = delete_empty_module owner name tx4"
      "identities (db_modules tx4) = identities (db_modules tx2)" "db_releases tx4 = db_releases tx2"
      "modules_inv (db_modules tx4)"
    using update_modules_inv [OF db_invD(1) [OF inv]] unfolding delete_release_tx_def Let_def tx1_def [symmetric] tx2_def [symmetric]
    by (auto simp: updateLatestVersion_def identities_update tx2_def tx1_def)
  have "catalog tx2 = drop_release (owner, name, version) (catalog s)"
  proof (rule set_eqI)
    fix q
    have "catalog tx2 = {q \<in> catalog s. \<not> (r_ModuleID q = mr_id m \<and> r_Version q = version)}"
      by (rule catalog_rows) (auto simp: tx2_def tx1_def)
    then have "q \<in> catalog tx2 \<longleftrightarrow> q \<in> catalog s \<and> \<not> (r_ModuleID q = mr_id m \<and> r_Version q = version)"
      by simp
    also have "\<dots> \<longleftrightarrow> q \<in> drop_release (owner, name, version) (catalog s)"
      using catalog_module [OF inv m(1), of q] m by (auto simp: drop_release_def key_of_def)
    finally show "q \<in> catalog tx2 \<longleftrightarrow> q \<in> drop_release (owner, name, version) (catalog s)" .
  qed
  then show ?thesis using catalog_delete_empty [OF tx4(4)] tx4 by (simp add: catalog_def)
qed

lemma DeleteRelease_catalog:
  assumes inv: "db_inv sv s" and ok: "DeleteRelease v c s owner name version = ((c1, s1), Inr ())"
  shows "catalog s1 = drop_release (owner, name, version) (catalog s)"
    and "\<exists>q \<in> catalog s. key_of q = (owner, name, version)"
proof -
  obtain m r where f: "find (\<lambda>(m, r). mr_owner m = owner \<and> mr_name m = name \<and> rr_version r = version) (joined s) = Some (m, r)"
    and com: "commitSQLiteMutation v c (delete_release_tx v s m r owner name version) = Inr (c1, s1)"
    using ok by (auto simp: DeleteRelease_def rolled_back_def split: option.splits sum.splits)
  have mr: "m \<in> set (db_modules s)" "mr_owner m = owner" "mr_name m = name" "(m, r) \<in> set (joined s)" "rr_version r = version"
    using find_SomeD [OF f] by (auto simp: set_joined)
  show "catalog s1 = drop_release (owner, name, version) (catalog s)"
    using delete_release_catalog [OF inv mr(1-3)] catalog_commit [OF com] by simp
  show "\<exists>q \<in> catalog s. key_of q = (owner, name, version)"
    using mr by (force simp: catalog_joined key_of_def scanRelease_as)
qed

end
