(* ===== verification/StoreEffects.thy ===== *)
theory StoreEffects
  imports SqliteCatalog
begin

text \<open>
  What each operation of the store does to the catalog and to the pending deletions: it stores one
  release, changes the checksums of one, or only removes releases and queues their artifacts.
\<close>

section \<open>Local artifacts of a catalog\<close>

definition local_storage :: "release set \<Rightarrow> string set" where
  "local_storage cat = r_StoragePath ` {r \<in> cat. r_Source r = ''local'' \<and> r_StoragePath r \<noteq> []}"

lemma catalog_row:
  assumes inv: "db_inv sv s" and r: "r \<in> set (db_releases s)"
  shows "\<exists>q \<in> catalog s. r_Source q = rr_source r \<and> r_StoragePath q = rr_storage_path r \<and>
    r_Version q = rr_version r \<and> r_ModuleID q = rr_module_id r"
proof -
  obtain m where m: "m \<in> set (db_modules s)" "mr_id m = rr_module_id r"
    using releases_inv_row(3) [OF db_invD(2) [OF inv] r] by auto
  then have "scan_as (mr_owner m) (mr_name m) r \<in> catalog s" using r unfolding in_catalog by metis
  then show ?thesis by (intro bexI) (auto simp: scan_as_def)
qed

lemma local_paths_catalog:
  assumes "db_inv sv s"
  shows "local_paths (db_releases s) \<subseteq> local_storage (catalog s)"
proof
  fix p
  assume "p \<in> local_paths (db_releases s)"
  then obtain r where r: "r \<in> set (db_releases s)" "rr_source r = ''local''" "rr_storage_path r \<noteq> []"
      "p = rr_storage_path r"
    by (auto simp: local_paths_def)
  obtain q where "q \<in> catalog s" "r_Source q = rr_source r" "r_StoragePath q = rr_storage_path r"
    using catalog_row [OF assms r(1)] by auto
  with r show "p \<in> local_storage (catalog s)" unfolding local_storage_def by force
qed

lemma catalog_referenced: "q \<in> catalog s \<Longrightarrow> IsArtifactReferenced s (r_StoragePath q)"
  by (auto simp: IsArtifactReferenced_def in_catalog)

section \<open>Operations that only remove\<close>

definition removes :: "db \<Rightarrow> db \<Rightarrow> bool" where
  "removes s t \<longleftrightarrow> catalog t \<subseteq> catalog s \<and> pending_paths t \<subseteq> pending_paths s \<union> local_storage (catalog s)"

named_theorems only_removes \<open>operations that only remove releases and queue their artifacts\<close>

lemma removes_same [only_removes, simp]: "removes s s"
  by (simp add: removes_def)

lemma removes_fields:
  "db_modules t = db_modules s \<Longrightarrow> db_releases t = db_releases s \<Longrightarrow> pending_paths t \<subseteq> pending_paths s \<Longrightarrow> removes s t"
  by (auto simp: removes_def catalog_def)

lemma pending_commit: "commitSQLiteMutation v c tx = Inr (c1, s1) \<Longrightarrow> pending_paths s1 = pending_paths tx"
  by (drule commit_cases) (auto simp: pending_paths_def)

lemma removes_commit: "commitSQLiteMutation v c tx = Inr (c1, s1) \<Longrightarrow> removes s tx \<Longrightarrow> removes s s1"
  using catalog_commit pending_commit by (auto simp: removes_def)

lemma pending_fold_queue:
  "pending_paths (fold (\<lambda>path t. queue_deletion v t path owner name) paths s) = set paths \<union> pending_paths s"
  by (induction paths arbitrary: s) (auto simp: pending_paths_def pending_queue_deletion)

lemma DeleteModule_removes [only_removes]:
  assumes inv: "db_inv sv s"
  shows "removes s (snd (fst (DeleteModule v c s owner name)))"
proof -
  let ?tx = "delete_module_tx v s owner name"
  let ?paths = "map (\<lambda>(m, r). rr_storage_path r)
      (filter (\<lambda>(m, r). mr_owner m = owner \<and> mr_name m = name \<and> rr_source r = ''local'' \<and> rr_storage_path r \<noteq> []) (joined s))"
  have "pending_paths ?tx = set ?paths \<union> pending_paths s"
    unfolding delete_module_tx_def Let_def using pending_fold_queue [of v owner name ?paths s]
    by (simp add: delete_modules_def pending_paths_def)
  moreover have "set ?paths \<subseteq> local_paths (db_releases s)" by (auto simp: local_paths_def set_joined)
  moreover have "catalog ?tx \<subseteq> catalog s"
    unfolding delete_module_tx_def Let_def using db_invD(1) [OF inv]
    by (subst catalog_delete_modules [of _ _ "\<lambda>ow n. ow = owner \<and> n = name"]) (auto simp: catalog_def)
  ultimately have "removes s ?tx" using local_paths_catalog [OF inv] by (auto simp: removes_def)
  then have "removes s (?tx\<lparr>db_tombstones := t, db_usage := u\<rparr>)" for t u
    by (simp add: removes_def catalog_def pending_paths_def)
  then show ?thesis
    using removes_commit by (auto simp: DeleteModule_def Let_def rolled_back_def split: sum.split)
qed

lemma delete_empty_removes:
  assumes "db_inv sv s"
  shows "catalog (delete_empty_module owner name s) = catalog s"
    "pending_paths (delete_empty_module owner name s) = pending_paths s"
  using catalog_delete_empty [OF db_invD(1) [OF assms]]
  by (simp_all add: delete_empty_module_def delete_modules_def pending_paths_def)

lemma DeleteModuleIfEmpty_removes [only_removes]:
  "db_inv sv s \<Longrightarrow> removes s (fst (DeleteModuleIfEmpty s owner name))"
  by (simp add: DeleteModuleIfEmpty_def removes_def delete_empty_removes)

lemma DeleteRelease_removes [only_removes]:
  assumes inv: "db_inv sv s"
  shows "removes s (snd (fst (DeleteRelease v c s owner name version)))"
proof (cases "find (\<lambda>(m, r). mr_owner m = owner \<and> mr_name m = name \<and> rr_version r = version) (joined s)")
  case None
  then show ?thesis by (simp add: DeleteRelease_def rolled_back_def)
next
  case (Some x)
  obtain m r where x: "x = (m, r)" by fastforce
  have mr: "m \<in> set (db_modules s)" "mr_owner m = owner" "mr_name m = name" "r \<in> set (db_releases s)"
    using find_SomeD [OF Some] by (auto simp: x set_joined)
  let ?tx = "delete_release_tx v s m r owner name version"
  have "catalog ?tx \<subseteq> catalog s" using delete_release_catalog [OF inv mr(1-3)] by (auto simp: drop_release_def)
  moreover have "pending_paths ?tx \<subseteq> pending_paths s \<union> local_paths (db_releases s)"
    using mr(4) unfolding delete_release_tx_def Let_def delete_empty_module_def delete_modules_def updateLatestVersion_def
    by (auto simp: pending_paths_def pending_queue_deletion local_paths_def)
  ultimately have "removes s ?tx" using local_paths_catalog [OF inv] by (auto simp: removes_def)
  then show ?thesis
    using removes_commit by (auto simp: DeleteRelease_def Some x rolled_back_def split: sum.split)
qed

lemma queue_removes [only_removes]:
  "removes s (DeferArtifactDeletion s path at)" "removes s (CompleteArtifactDeletion s path)"
proof -
  have "set (map dr_storage_path (update_where p (\<lambda>d. d\<lparr>dr_next_attempt_at := at\<rparr>) ds)) = set (map dr_storage_path ds)"
    for p and ds :: "deletion_row list"
    by (rule arg_cong [OF map_update_where]) simp
  then show "removes s (DeferArtifactDeletion s path at)"
    unfolding list.set_map
    by (intro removes_fields) (simp_all add: DeferArtifactDeletion_def pending_paths_def del: set_update_where)
  show "removes s (CompleteArtifactDeletion s path)"
    by (rule removes_fields) (auto simp: CompleteArtifactDeletion_def pending_paths_def)
qed

lemma others_removes [only_removes]:
  "removes s (PruneReleaseUsageBefore s t)" "removes s (MarkReleaseUsed v s owner name version)"
  "removes s (fst (PurgeDeletedReleases s t))"
  by (rule removes_fields;
      simp add: PruneReleaseUsageBefore_def MarkReleaseUsed_def PurgeDeletedReleases_def pending_paths_def)+

lemma identities_refresh: "identities (update_where p (\<lambda>m. m\<lparr>mr_upstream_refreshed_at := t\<rparr>) ms) = identities ms"
  by (rule identities_update) simp

lemma MarkUpstream_removes [only_removes]: "removes s (fst (MarkUpstreamModuleRefreshAttempt s owner name at))"
  by (simp add: MarkUpstreamModuleRefreshAttempt_def removes_def catalog_def pending_paths_def identities_refresh)

lemma record_audit_removes [only_removes]:
  "recordSQLiteAuditEvent v s e = Inr s1 \<Longrightarrow> removes s s1 \<and> (db_inv sv s1 = db_inv sv s)"
  by (auto simp: recordSQLiteAuditEvent_def Let_def removes_def catalog_def pending_paths_def db_inv_audit split: if_splits)

section \<open>Modules\<close>

lemma identities_append: "identities (ms @ ms') = identities ms \<union> identities ms'"
  by (auto simp: identities_def)

lemma catalog_new_module:
  assumes inv: "db_inv sv s" and new: "mr_id x \<notin> mr_id ` set (db_modules s)"
  shows "catalog (s\<lparr>db_modules := db_modules s @ [x]\<rparr>) = catalog s"
proof -
  have "rr_module_id r \<noteq> mr_id x" if "r \<in> set (db_releases s)" for r
    using releases_inv_row(3) [OF db_invD(2) [OF inv] that] new by auto
  then have "set (joined (s\<lparr>db_modules := db_modules s @ [x]\<rparr>)) = set (joined s)"
    by (auto simp: set_joined) metis
  then show ?thesis unfolding catalog_joined by simp
qed

lemma UpsertModule_effect:
  assumes inv: "db_inv sv s"
  shows "catalog (fst (UpsertModule v s owner name)) = catalog s"
    and "db_deletions (fst (UpsertModule v s owner name)) = db_deletions s"
    and "db_releases (fst (UpsertModule v s owner name)) = db_releases s"
    and "identities (db_modules s) \<subseteq> identities (db_modules (fst (UpsertModule v s owner name)))"
    and "snd (UpsertModule v s owner name) = Inr m \<Longrightarrow>
      m_Owner m = owner \<and> m_Name m = name \<and>
      (m_ID m, owner, name) \<in> identities (db_modules (fst (UpsertModule v s owner name)))"
proof -
  have slug: "identities (update_where p (\<lambda>m. m\<lparr>mr_slug := t\<rparr>) ms) = identities ms" for p t ms
    by (rule identities_update) simp
  have got: "m_Owner m = owner \<and> m_Name m = name \<and> (m_ID m, owner, name) \<in> identities (db_modules t)"
    if "GetModule t owner name = Inr m" for t
    using that module_of_Some [of t owner name] unfolding GetModule_def identities_def
    by (auto simp: scanModule_def image_iff split: option.splits)
  show "catalog (fst (UpsertModule v s owner name)) = catalog s"
    using catalog_new_module [OF inv]
    by (auto simp: UpsertModule_def Let_def catalog_def slug split: option.split)
  show "db_deletions (fst (UpsertModule v s owner name)) = db_deletions s"
    "db_releases (fst (UpsertModule v s owner name)) = db_releases s"
    by (auto simp: UpsertModule_def Let_def split: option.split)
  show "identities (db_modules s) \<subseteq> identities (db_modules (fst (UpsertModule v s owner name)))"
    by (auto simp: UpsertModule_def Let_def slug identities_append split: option.split)
  assume "snd (UpsertModule v s owner name) = Inr m"
  moreover have "snd (UpsertModule v s owner name) = Inl (StoreError ''upsert module'') \<or>
      snd (UpsertModule v s owner name) = GetModule (fst (UpsertModule v s owner name)) owner name"
    unfolding UpsertModule_def Let_def by (cases "module_of s owner name") auto
  ultimately show "m_Owner m = owner \<and> m_Name m = name \<and>
      (m_ID m, owner, name) \<in> identities (db_modules (fst (UpsertModule v s owner name)))"
    using got by auto
qed

lemma UpsertModule_removes [only_removes]: "db_inv sv s \<Longrightarrow> removes s (fst (UpsertModule v s owner name))"
  by (simp add: removes_def UpsertModule_effect pending_paths_def)

section \<open>Writing a release\<close>

lemma createRelease_effect:
  assumes sv: "semver_package (v_sv v)" and inv: "db_inv (v_sv v) s"
    and m: "(r_ModuleID r, r_Owner r, r_Name r) \<in> identities (db_modules s)"
  obtains (failed) e where "createRelease v c s r co = ((c, s), Inl e)"
  | (stored) c1 s1 q where "createRelease v c s r co = ((c1, s1), Inr q)"
      "catalog s1 = put_release q (catalog s)" "stored_as r q" "key_of q = key_of r"
      "pending_paths s1 \<subseteq> pending_paths s \<union> local_storage (catalog s)"
      "identities (db_modules s1) = identities (db_modules s)"
      "co \<longrightarrow> (\<forall>p \<in> catalog s. key_of p \<noteq> key_of r)"
proof (cases rule: createRelease_cases [of v c s r co])
  case (failed e)
  then show ?thesis by (rule that(1))
next
  case (finished tx n current c1 s1)
  obtain x where x: "x \<in> set (db_modules s)" "mr_id x = r_ModuleID r" "mr_owner x = r_Owner r" "mr_name x = r_Name r"
    using m by (auto simp: identities_def)
  note ins = insert_release_row_ok [OF inv finished(1,2)] and rows = insert_release_rows [OF finished(1,2)]
  let ?t = "updateLatestVersion v (create_outbox v s r co tx) (r_ModuleID r)
      (latestVersionWithCandidate (v_sv v) current (r_Version r))"
  have s1: "db_modules s1 = db_modules ?t" "db_releases s1 = db_releases ?t"
    using commit_cases [OF finished(4)] by auto
  have ids: "identities (db_modules s1) = identities (db_modules s)"
    unfolding s1 updateLatestVersion_def by (simp add: identities_update ins(2))
  have inv1: "db_inv (v_sv v) s1" using createRelease_inv [OF sv inv, of c r co] by (simp add: finished(5))
  obtain row where row: "row \<in> set (db_releases s1)" "rr_module_id row = r_ModuleID r" "rr_version row = r_Version r"
    using rows(1) by (auto simp: s1 updateLatestVersion_def)
  have m1: "(r_ModuleID r, r_Owner r, r_Name r) \<in> identities (db_modules s1)" using m ids by simp
  then obtain y where y: "y \<in> set (db_modules s1)" "mr_id y = r_ModuleID r" "mr_owner y = r_Owner r" "mr_name y = r_Name r"
    by (auto simp: identities_def)
  have "scan_as (mr_owner y) (mr_name y) row \<in> catalog s1" using row y unfolding in_catalog by metis
  then have "\<exists>q \<in> catalog s1. key_of q = (r_Owner r, r_Name r, r_Version r)"
    using y row by (intro bexI) (auto simp: key_of_def)
  then obtain q where q: "GetRelease s1 (r_Owner r) (r_Name r) (r_Version r) = Inr q"
    using GetRelease_catalog(2) [OF inv1] by (cases "GetRelease s1 (r_Owner r) (r_Name r) (r_Version r)") auto
  then have eq: "createRelease v c s r co = ((c1, s1), Inr q)" using finished(5) by simp
  note cat = createRelease_catalog [OF inv x eq]
  have "replaced_path s r co \<subseteq> local_paths (db_releases s)"
    by (auto simp: replaced_path_def local_paths_def release_of_Some split: option.splits if_splits)
  then have "pending_paths s1 \<subseteq> pending_paths s \<union> local_storage (catalog s)"
    using pending_commit [OF finished(4)] pending_create_outbox [of v s r co tx] local_paths_catalog [OF inv] rows(4)
    by (auto simp: pending_paths_def updateLatestVersion_def split: if_splits)
  moreover have "co \<longrightarrow> (\<forall>p \<in> catalog s. key_of p \<noteq> key_of r)" using cat(4) by blast
  ultimately show ?thesis using that(2) [OF eq cat(1-3) _ ids] by blast
qed

section \<open>Changing checksums\<close>

lemma UpdateReleaseChecksums_effect:
  assumes inv: "db_inv sv s"
  shows "fst (UpdateReleaseChecksums s owner name version md5 sha path sz) = s \<or>
    (\<exists>q \<in> catalog s. key_of q = (owner, name, version) \<and>
       catalog (fst (UpdateReleaseChecksums s owner name version md5 sha path sz)) =
         put_release (q\<lparr>r_MD5 := md5, r_SHA256 := sha, r_StoragePath := path, r_SizeBytes := sz\<rparr>) (catalog s))"
    and "pending_paths (fst (UpdateReleaseChecksums s owner name version md5 sha path sz)) = pending_paths s"
proof -
  let ?t = "fst (UpdateReleaseChecksums s owner name version md5 sha path sz)"
  show "pending_paths ?t = pending_paths s"
    by (auto simp: UpdateReleaseChecksums_def pending_paths_def split: option.split)
  show "?t = s \<or> (\<exists>q \<in> catalog s. key_of q = (owner, name, version) \<and>
       catalog ?t = put_release (q\<lparr>r_MD5 := md5, r_SHA256 := sha, r_StoragePath := path, r_SizeBytes := sz\<rparr>) (catalog s))"
  proof (cases "module_of s owner name")
    case None
    then show ?thesis by (simp add: UpdateReleaseChecksums_def)
  next
    case m: (Some m)
    show ?thesis
    proof (cases "release_of s (mr_id m) version = None \<or> sz < 0")
      case True
      with m show ?thesis by (auto simp: UpdateReleaseChecksums_def)
    next
      case False
      then obtain r where r: "release_of s (mr_id m) version = Some r" "\<not> sz < 0" by auto
      let ?p = "\<lambda>r. rr_module_id r = mr_id m \<and> rr_version r = version"
      let ?f = "\<lambda>r. r\<lparr>rr_md5 := md5, rr_sha256 := sha, rr_storage_path := path, rr_size_bytes := sz\<rparr>"
      have t: "?t = s\<lparr>db_releases := update_where ?p ?f (db_releases s)\<rparr>"
        using m r by (simp add: UpdateReleaseChecksums_def)
      note m' = module_of_Some [OF m] and r' = release_of_Some [OF r(1)]
      have only: "y = r" if "y \<in> set (db_releases s)" "?p y" for y
        using releases_invD(2) [OF db_invD(2) [OF inv] that(1)] r' that(2) by simp
      have rows: "set (db_releases ?t) = insert (?f r) {y \<in> set (db_releases s). \<not> ?p y}" (is "?l = ?r")
      proof
        show "?l \<subseteq> ?r" using only by (auto simp: t)
        show "?r \<subseteq> ?l"
          using update_whereI [of r "db_releases s" ?p ?f] r' update_where_keep [of _ "db_releases s" ?p ?f]
          by (auto simp: t simp del: set_update_where)
      qed
      have "catalog ?t = put_release (scan_as (mr_owner m) (mr_name m) (?f r)) (catalog s)"
        using m' r' rows by (intro catalog_replace [OF inv]) (auto simp: t simp del: set_update_where)
      moreover have "scan_as (mr_owner m) (mr_name m) r \<in> catalog s" using m' r' unfolding in_catalog by metis
      ultimately show ?thesis using m' r' by (intro disjI2 bexI) (auto simp: key_of_def scan_as_def)
    qed
  qed
qed

end
