(* ===== verification/StoreTables.thy ===== *)
theory StoreTables
  imports SqliteStore
begin

text \<open>
  The constraints of the tables beside \<open>db_inv\<close>: the checks and keys of \<open>modules\<close>,
  \<open>deleted_releases\<close>, \<open>release_usage\<close> and \<open>audit_events\<close>, and the slugs of the releases. Every
  operation on the module tables keeps them.
\<close>

section \<open>Keys and checks\<close>

definition table_keys :: "db \<Rightarrow> bool" where
  "table_keys s \<longleftrightarrow>
     (\<forall>m \<in> set (db_modules s). \<not> sql_blank (mr_owner m) \<and> \<not> sql_blank (mr_name m) \<and> \<not> sql_blank (mr_slug m)) \<and>
     unique_by (\<lambda>t. (tr_owner t, tr_name t, tr_version t, tr_source t)) (db_tombstones s) \<and>
     unique_by (\<lambda>u. (ur_owner u, ur_name u, ur_version u)) (db_usage s) \<and>
     unique_by a_ID (db_audit s)"

lemma table_keys_empty: "table_keys empty_db"
  by (simp add: table_keys_def empty_db_def)

lemma table_keys_others [simp]:
  "table_keys (s\<lparr>db_releases := rs\<rparr>) = table_keys s" "table_keys (s\<lparr>db_deletions := ds\<rparr>) = table_keys s"
  "table_keys (queue_deletion v s path owner name) = table_keys s"
  by (simp_all add: table_keys_def queue_deletion_def)

lemma table_keys_fold_queue [simp]:
  "table_keys (fold (\<lambda>path t. queue_deletion v t path owner name) paths s) = table_keys s"
  by (induction paths arbitrary: s) auto

lemma table_keys_modules:
  assumes "table_keys s" "\<forall>m \<in> set ms. \<not> sql_blank (mr_owner m) \<and> \<not> sql_blank (mr_name m) \<and> \<not> sql_blank (mr_slug m)"
  shows "table_keys (s\<lparr>db_modules := ms\<rparr>)"
  using assms by (simp add: table_keys_def)

lemma table_keys_update:
  assumes "table_keys s" "\<And>m. mr_owner (f m) = mr_owner m" "\<And>m. mr_name (f m) = mr_name m"
    and "\<And>m. \<not> sql_blank (mr_slug m) \<Longrightarrow> p m \<Longrightarrow> \<not> sql_blank (mr_slug (f m))"
  shows "table_keys (s\<lparr>db_modules := update_where p f (db_modules s)\<rparr>)"
  using assms by (intro table_keys_modules) (auto simp: table_keys_def update_where_def)

lemma table_keys_delete_modules: "table_keys s \<Longrightarrow> table_keys (delete_modules p s)"
  unfolding delete_modules_def by (auto simp: table_keys_def)

lemma table_keys_audit:
  "recordSQLiteAuditEvent v s event = Inr s1 \<Longrightarrow> table_keys s \<Longrightarrow> table_keys s1"
  by (auto simp: recordSQLiteAuditEvent_def Let_def table_keys_def split: if_splits)

lemma table_keys_commit: "commitSQLiteMutation v c tx = Inr (c1, s1) \<Longrightarrow> table_keys tx \<Longrightarrow> table_keys s1"
  using table_keys_audit by (auto simp: commitSQLiteMutation_def split: option.splits sum.splits)

lemma table_keys_upsert:
  assumes "table_keys s"
  shows "table_keys (fst (UpsertModule v s owner name))"
  unfolding UpsertModule_def Let_def
  by (auto split: option.split intro!: assms table_keys_update table_keys_modules)
    (use assms in \<open>auto simp: table_keys_def\<close>)

lemma table_keys_latest: "table_keys s \<Longrightarrow> table_keys (updateLatestVersion v s i l)"
  unfolding updateLatestVersion_def by (rule table_keys_update) simp_all

lemma table_keys_outbox: "table_keys tx \<Longrightarrow> table_keys (create_outbox v s r co tx)"
  by (auto simp: create_outbox_def Let_def split: prod.split)

lemma table_keys_create:
  assumes "table_keys s"
  shows "table_keys (snd (fst (createRelease v c s r co)))"
proof (cases rule: createRelease_cases [of v c s r co])
  case (failed e)
  with assms show ?thesis by simp
next
  case (finished tx n current c1 s1)
  have "table_keys tx"
    using finished(1) assms by (auto simp: insert_release_row_def Let_def split: if_splits option.splits)
  then show ?thesis using table_keys_commit [OF finished(4)] finished(5) by (simp add: table_keys_latest table_keys_outbox)
qed

lemma table_keys_delete_module: "table_keys s \<Longrightarrow> table_keys (snd (fst (DeleteModule v c s owner name)))"
proof -
  assume s: "table_keys s"
  let ?tx = "delete_module_tx v s owner name"
  have tx: "table_keys ?tx" unfolding delete_module_tx_def Let_def by (intro table_keys_delete_modules) (simp add: s)
  have "table_keys (?tx\<lparr>db_tombstones := delete_where p (db_tombstones ?tx), db_usage := delete_where q (db_usage ?tx)\<rparr>)" for p q
    using tx by (simp add: table_keys_def)
  with s show ?thesis
    by (auto simp: DeleteModule_def Let_def rolled_back_def split: sum.split intro: table_keys_commit)
qed

lemma table_keys_delete_release: "table_keys s \<Longrightarrow> table_keys (snd (fst (DeleteRelease v c s owner name version)))"
proof -
  assume s: "table_keys s"
  let ?key = "\<lambda>t. (tr_owner t, tr_name t, tr_version t, tr_source t)"
  have "unique_by ?key (insert_or_update ?key (\<lambda>t. t\<lparr>tr_deleted_at := x\<rparr>) row (db_tombstones s))" for x row
    using s by (intro unique_by_insert_or_update) (simp_all add: table_keys_def del: distinct_map)
  then have tombstone: "table_keys (t\<lparr>db_tombstones := insert_or_update ?key (\<lambda>t. t\<lparr>tr_deleted_at := x\<rparr>) row (db_tombstones s)\<rparr>)"
    if "table_keys t" for t x row
    using that by (simp add: table_keys_def del: distinct_map)
  have "table_keys (delete_release_tx v s m r owner name version)" for m r
    unfolding delete_release_tx_def Let_def delete_empty_module_def
    by (intro table_keys_delete_modules table_keys_latest) (simp add: s tombstone)
  with s show ?thesis
    by (auto simp: DeleteRelease_def rolled_back_def split: sum.split option.split intro: table_keys_commit)
qed

lemma table_keys_exec: "table_keys s \<Longrightarrow> table_keys (store_exec sv st s)"
proof -
  assume s: "table_keys s"
  have mark: "table_keys (MarkReleaseUsed v s owner name version)" for v owner name version
    using s by (auto simp: MarkReleaseUsed_def table_keys_def intro: unique_by_insert_or_update simp del: distinct_map)
  have prune: "table_keys (PruneReleaseUsageBefore s t)" "table_keys (fst (PurgeDeletedReleases s t))" for t
    using s by (auto simp: PruneReleaseUsageBefore_def PurgeDeletedReleases_def table_keys_def simp del: distinct_map)
  have refresh: "table_keys (fst (MarkUpstreamModuleRefreshAttempt s owner name at))" for owner name at
    using s by (auto simp: MarkUpstreamModuleRefreshAttempt_def intro: table_keys_update)
  show ?thesis
    unfolding store_exec_def Let_def
    using s mark prune refresh table_keys_upsert [OF s] table_keys_create [OF s] table_keys_delete_module [OF s]
      table_keys_delete_release [OF s]
    by (cases "st_op st") (auto simp: UpdateReleaseChecksums_def DeleteModuleIfEmpty_def delete_empty_module_def
        DeferArtifactDeletion_def CompleteArtifactDeletion_def split: option.split intro: table_keys_delete_modules)
qed

lemma store_run_keys: "table_keys s \<Longrightarrow> table_keys (store_run sv sts s)"
  unfolding store_run_def by (induction sts arbitrary: s) (auto intro: table_keys_exec)

section \<open>Slugs of releases\<close>

definition release_slugs :: "db \<Rightarrow> bool" where
  "release_slugs s \<longleftrightarrow>
     (\<forall>(m, r) \<in> set (joined s). rr_slug r = releaseSlug (mr_owner m) (mr_name m) (rr_version r))"

text \<open>A release that is written names the module it refers to.\<close>

definition addressed :: "db \<Rightarrow> store_op \<Rightarrow> bool" where
  "addressed s op =
     (case op of
        OCreateRelease r co \<Rightarrow>
          list_all (\<lambda>m. mr_id m = r_ModuleID r \<longrightarrow> mr_owner m = r_Owner r \<and> mr_name m = r_Name r) (db_modules s)
      | _ \<Rightarrow> True)"

fun addressed_run :: "semver \<Rightarrow> store_step list \<Rightarrow> db \<Rightarrow> bool" where
  "addressed_run sv [] s = True"
| "addressed_run sv (st # sts) s = (addressed s (st_op st) \<and> addressed_run sv sts (store_exec sv st s))"

text \<open>Rows that come from rows with the same slug, in modules with the same names.\<close>

lemma release_slugs_from:
  assumes "release_slugs s"
    and "\<And>m r. m \<in> set (db_modules t) \<Longrightarrow> r \<in> set (db_releases t) \<Longrightarrow> mr_id m = rr_module_id r \<Longrightarrow>
      rr_slug r = releaseSlug (mr_owner m) (mr_name m) (rr_version r) \<or>
      (\<exists>m0 \<in> set (db_modules s). \<exists>r0 \<in> set (db_releases s). mr_id m0 = mr_id m \<and> mr_owner m0 = mr_owner m \<and>
        mr_name m0 = mr_name m \<and> rr_module_id r0 = rr_module_id r \<and> rr_version r0 = rr_version r \<and> rr_slug r0 = rr_slug r)"
  shows "release_slugs t"
  using assms unfolding release_slugs_def set_joined by fastforce

lemma release_slugs_same:
  "db_modules t = db_modules s \<Longrightarrow> db_releases t = db_releases s \<Longrightarrow> release_slugs t = release_slugs s"
  by (simp add: release_slugs_def joined_def)

lemma release_slugs_commit: "commitSQLiteMutation v c tx = Inr (c1, s1) \<Longrightarrow> release_slugs s1 = release_slugs tx"
  by (drule commit_cases) (auto simp: release_slugs_def joined_def)

lemma release_slugs_fewer:
  assumes "release_slugs s" "set (db_releases t) \<subseteq> set (db_releases s)"
    and "map (\<lambda>m. (mr_id m, mr_owner m, mr_name m)) (db_modules t) = map (\<lambda>m. (mr_id m, mr_owner m, mr_name m)) ms"
    and "set ms \<subseteq> set (db_modules s)"
  shows "release_slugs t"
proof (rule release_slugs_from [OF assms(1)])
  fix m r
  assume mr: "m \<in> set (db_modules t)" "r \<in> set (db_releases t)" "mr_id m = rr_module_id r"
  have "(mr_id m, mr_owner m, mr_name m) \<in> set (map (\<lambda>m. (mr_id m, mr_owner m, mr_name m)) ms)"
    unfolding assms(3) [symmetric] using mr(1) by simp
  then obtain m0 where "m0 \<in> set (db_modules s)" "mr_id m0 = mr_id m" "mr_owner m0 = mr_owner m" "mr_name m0 = mr_name m"
    using assms(4) by auto
  then show "rr_slug r = releaseSlug (mr_owner m) (mr_name m) (rr_version r) \<or>
      (\<exists>m0 \<in> set (db_modules s). \<exists>r0 \<in> set (db_releases s). mr_id m0 = mr_id m \<and> mr_owner m0 = mr_owner m \<and>
        mr_name m0 = mr_name m \<and> rr_module_id r0 = rr_module_id r \<and> rr_version r0 = rr_version r \<and> rr_slug r0 = rr_slug r)"
    using mr(2) assms(2) by blast
qed

text \<open>Operations that change columns of modules, or remove rows.\<close>

lemma release_slugs_columns:
  assumes "release_slugs s" "\<And>m. mr_id (f m) = mr_id m" "\<And>m. mr_owner (f m) = mr_owner m" "\<And>m. mr_name (f m) = mr_name m"
  shows "release_slugs (s\<lparr>db_modules := update_where p f (db_modules s)\<rparr>)"
  by (rule release_slugs_fewer [OF assms(1), of _ "db_modules s"]) (use assms(2-) in \<open>auto simp: update_where_def\<close>)

lemma release_slugs_latest: "release_slugs s \<Longrightarrow> release_slugs (updateLatestVersion v s i l)"
  unfolding updateLatestVersion_def by (rule release_slugs_columns) simp_all

lemma release_slugs_delete_modules: "release_slugs s \<Longrightarrow> release_slugs (delete_modules p s)"
  by (rule release_slugs_fewer [of s _ "delete_where p (db_modules s)"]) (auto simp: delete_modules_def)

lemma release_slugs_upsert:
  assumes inv: "db_inv sv s" and s: "release_slugs s"
  shows "release_slugs (fst (UpsertModule v s owner name))"
proof -
  have "release_slugs (s\<lparr>db_modules := db_modules s @ [m]\<rparr>)" if "mr_id m \<notin> mr_id ` set (db_modules s)" for m
  proof (rule release_slugs_from [OF s])
    fix x r
    assume xr: "x \<in> set (db_modules (s\<lparr>db_modules := db_modules s @ [m]\<rparr>))" "r \<in> set (db_releases (s\<lparr>db_modules := db_modules s @ [m]\<rparr>))"
      "mr_id x = rr_module_id r"
    then have "rr_module_id r \<in> mr_id ` set (db_modules s)" using releases_inv_row(3) [OF db_invD(2) [OF inv]] by simp
    then have "x \<in> set (db_modules s)" using xr that by auto
    with xr show "rr_slug r = releaseSlug (mr_owner x) (mr_name x) (rr_version r) \<or>
      (\<exists>m0 \<in> set (db_modules s). \<exists>r0 \<in> set (db_releases s). mr_id m0 = mr_id x \<and> mr_owner m0 = mr_owner x \<and>
        mr_name m0 = mr_name x \<and> rr_module_id r0 = rr_module_id r \<and> rr_version r0 = rr_version r \<and> rr_slug r0 = rr_slug r)"
      by auto
  qed
  with s show ?thesis
    unfolding UpsertModule_def Let_def by (auto split: option.split intro!: release_slugs_columns)
qed

lemma update_where_from: "x \<in> set (update_where p f rs) \<Longrightarrow> x \<in> set rs \<or> (\<exists>r0 \<in> set rs. x = f r0)"
  by (auto simp: update_where_def split: if_splits)

lemma inserted_slug:
  assumes "insert_release_row v s r co = Inr (tx, n)" "x \<in> set (db_releases tx)"
  shows "x = release_row_of v r \<or> (\<exists>r0 \<in> set (db_releases s). rr_module_id r0 = rr_module_id x \<and>
        rr_version r0 = rr_version x \<and> rr_slug r0 = rr_slug x)"
proof -
  have kept: "rr_module_id (replace_row r r0) = rr_module_id r0" "rr_version (replace_row r r0) = rr_version r0"
    "rr_slug (replace_row r r0) = rr_slug r0" for r0
    by (simp_all add: replace_row_def)
  have "x \<in> set (db_releases s) \<or> (\<exists>r0 \<in> set (db_releases s). x = replace_row r r0) \<or> x = release_row_of v r"
    using assms
    by (auto simp: insert_release_row_def Let_def split: if_splits option.splits simp del: set_update_where dest!: update_where_from)
  then show ?thesis using kept by fastforce
qed

lemma release_slugs_create:
  assumes s: "release_slugs s" and names: "addressed s (OCreateRelease r co)"
  shows "release_slugs (snd (fst (createRelease v c s r co)))"
proof (cases rule: createRelease_cases [of v c s r co])
  case (failed e)
  with s show ?thesis by simp
next
  case (finished tx n current c1 s1)
  have tx: "release_slugs tx"
  proof (rule release_slugs_from [OF s])
    fix m x
    assume mx: "m \<in> set (db_modules tx)" "x \<in> set (db_releases tx)" "mr_id m = rr_module_id x"
    have "db_modules tx = db_modules s"
      using finished(1) by (auto simp: insert_release_row_def Let_def split: if_splits option.splits)
    moreover have "x = release_row_of v r \<or> (\<exists>r0 \<in> set (db_releases s). rr_module_id r0 = rr_module_id x \<and>
        rr_version r0 = rr_version x \<and> rr_slug r0 = rr_slug x)"
      using inserted_slug [OF finished(1) mx(2)] .
    ultimately show "rr_slug x = releaseSlug (mr_owner m) (mr_name m) (rr_version x) \<or>
      (\<exists>m0 \<in> set (db_modules s). \<exists>r0 \<in> set (db_releases s). mr_id m0 = mr_id m \<and> mr_owner m0 = mr_owner m \<and>
        mr_name m0 = mr_name m \<and> rr_module_id r0 = rr_module_id x \<and> rr_version r0 = rr_version x \<and> rr_slug r0 = rr_slug x)"
      using mx names by (auto simp: release_row_of_def addressed_def list_all_iff)
  qed
  have "release_slugs (create_outbox v s r co tx)"
    using release_slugs_same [of "create_outbox v s r co tx" tx] tx by simp
  then show ?thesis using release_slugs_commit [OF finished(4)] finished(5) by (simp add: release_slugs_latest)
qed

lemma release_slugs_delete_release:
  assumes "release_slugs s"
  shows "release_slugs (snd (fst (DeleteRelease v c s owner name version)))"
proof -
  have less: "release_slugs t" if "db_modules t = db_modules s" "set (db_releases t) \<subseteq> set (db_releases s)" for t
    by (rule release_slugs_fewer [OF assms that(2), of "db_modules s"]) (simp_all add: that(1))
  have "release_slugs (delete_release_tx v s m r owner name version)" for m r
    unfolding delete_release_tx_def Let_def delete_empty_module_def
    by (intro release_slugs_delete_modules release_slugs_latest less) auto
  with assms show ?thesis
    by (auto simp: DeleteRelease_def rolled_back_def release_slugs_commit split: sum.split option.split)
qed

lemma release_slugs_exec:
  assumes inv: "db_inv sv s" and s: "release_slugs s" and names: "addressed s (st_op st)"
  shows "release_slugs (store_exec sv st s)"
proof -
  have same: "release_slugs (s\<lparr>db_deletions := ds\<rparr>)" "release_slugs (s\<lparr>db_usage := us\<rparr>)" "release_slugs (s\<lparr>db_tombstones := ts\<rparr>)"
    for ds us ts
    using release_slugs_same [of "s\<lparr>db_deletions := ds\<rparr>" s] release_slugs_same [of "s\<lparr>db_usage := us\<rparr>" s]
      release_slugs_same [of "s\<lparr>db_tombstones := ts\<rparr>" s] s by simp_all
  have refresh: "release_slugs (fst (MarkUpstreamModuleRefreshAttempt s owner name at))" for owner name at
    using s by (auto simp: MarkUpstreamModuleRefreshAttempt_def intro: release_slugs_columns)
  have sums: "release_slugs (fst (UpdateReleaseChecksums s owner name version md5 sha path sz))"
    for owner name version md5 sha path sz
  proof -
    have "release_slugs (s\<lparr>db_releases := update_where p (\<lambda>r. r\<lparr>rr_md5 := md5, rr_sha256 := sha, rr_storage_path := path,
        rr_size_bytes := sz\<rparr>) (db_releases s)\<rparr>)" for p
      by (rule release_slugs_from [OF s]) (auto simp: update_where_def, blast+)
    with s show ?thesis by (auto simp: UpdateReleaseChecksums_def split: option.split)
  qed
  have del: "release_slugs (snd (fst (DeleteModule v c s owner name)))" for v c owner name
  proof -
    let ?q = "\<lambda>paths. fold (\<lambda>path t. queue_deletion v t path owner name) paths s"
    have "release_slugs (?q paths)" for paths using release_slugs_same [of "?q paths" s] s by simp
    then have tx: "release_slugs (delete_module_tx v s owner name)"
      unfolding delete_module_tx_def Let_def by (rule release_slugs_delete_modules)
    then have "release_slugs (delete_module_tx v s owner name\<lparr>db_tombstones := ts, db_usage := us\<rparr>)" for ts us
      using release_slugs_same [of "delete_module_tx v s owner name\<lparr>db_tombstones := ts, db_usage := us\<rparr>"] by simp
    with s show ?thesis by (auto simp: DeleteModule_def Let_def rolled_back_def release_slugs_commit split: sum.split)
  qed
  show ?thesis
    unfolding store_exec_def Let_def
    using s same refresh sums del release_slugs_upsert [OF inv s] release_slugs_delete_release [OF s] release_slugs_create [OF s] names
    by (cases "st_op st") (auto simp: DeleteModuleIfEmpty_def delete_empty_module_def PurgeDeletedReleases_def
        MarkReleaseUsed_def PruneReleaseUsageBefore_def DeferArtifactDeletion_def CompleteArtifactDeletion_def
        intro: release_slugs_delete_modules)
qed

lemma store_run_slugs:
  assumes "semver_package sv"
  shows "db_inv sv s \<Longrightarrow> release_slugs s \<Longrightarrow> addressed_run sv sts s \<Longrightarrow> release_slugs (store_run sv sts s)"
  unfolding store_run_def
  by (induction sts arbitrary: s) (auto intro: release_slugs_exec store_exec_inv [OF assms])

end
