(* ===== verification/StoreProperties.thy ===== *)
theory StoreProperties
  imports StoreEffects StoreTables
begin

text \<open>
  The properties of the module tables of the SQLite store, after every history of operations, and
  the concrete histories that show their hypotheses can hold.
\<close>

section \<open>Supporting facts\<close>

lemma sorted_hd:
  "sorted_wrt R (x # xs) \<Longrightarrow> y \<in> set xs \<Longrightarrow> R x y"
  by simp

lemma ListReleases_versions:
  assumes inv: "db_inv sv s" and m: "module_of s owner name = Some m"
  shows "mv_Version ` set (ListReleases sv s owner name) = versions_of (db_releases s) (mr_id m)"
proof -
  have "(x, r) \<in> set (joined s) \<and> mr_owner x = owner \<and> mr_name x = name \<longleftrightarrow>
      x = m \<and> r \<in> set (db_releases s) \<and> rr_module_id r = mr_id m" for x r
    using module_of_Some [OF m] modules_invD(2) [OF db_invD(1) [OF inv], of x m] by (auto simp: set_joined)
  then have "set (filter (\<lambda>(x, r). mr_owner x = owner \<and> mr_name x = name) (joined s)) =
      (\<lambda>r. (m, r)) ` {r \<in> set (db_releases s). rr_module_id r = mr_id m}"
    by auto
  then show ?thesis
    by (simp add: ListReleases_def sortModuleVersions_desc versions_of_def image_image)
qed

lemma ListReleases_hd:
  assumes sv: "semver_package sv" and "v \<in> set (ListReleases sv s owner name)"
  shows "CompareVersions sv (mv_Version v) (mv_Version (hd (ListReleases sv s owner name))) \<le> 0"
proof -
  obtain x xs where l: "ListReleases sv s owner name = x # xs" using assms(2) by (cases "ListReleases sv s owner name") auto
  have "sorted_wrt (\<lambda>a b. \<not> version_desc sv mv_Version mv_CreatedAt b a) (x # xs)"
    unfolding l [symmetric] ListReleases_def sortModuleVersions_desc by (rule sorted_sort_stable [OF weak_version_desc [OF sv]])
  then show ?thesis
    using assms(2) semver_package.CompareVersions_refl [OF sv]
    by (auto simp: l version_desc_def compareVersions_def Let_def not_less split: if_splits)
qed

text \<open>The event is appended to the journal and marked as recorded.\<close>

definition logged :: "audit_event \<Rightarrow> db \<Rightarrow> audit_ctx \<times> db \<Rightarrow> bool" where
  "logged e s after \<longleftrightarrow>
     MutationAuditRecorded (fst after) \<and>
     (\<exists>e'. db_audit (snd after) = db_audit s @ [e'] \<and>
           e' = e\<lparr>a_ID := a_ID e', a_OccurredAt := a_OccurredAt e'\<rparr>)"

text \<open>
  An operation under a pending event: refused, nothing has happened; answered, the event is in the
  journal and the catalog is what the mutation makes of it.
\<close>

definition atomic_with :: "audit_event \<Rightarrow> audit_ctx \<times> db \<Rightarrow> 'a op_result \<Rightarrow> ('a \<Rightarrow> release set \<Rightarrow> bool) \<Rightarrow> bool" where
  "atomic_with e before result mutated \<longleftrightarrow>
     (case result of
        (after, Inl err) \<Rightarrow> after = before
      | (after, Inr x) \<Rightarrow> logged e (snd before) after \<and> mutated x (catalog (snd after)))"

lemma commit_logged:
  assumes pend: "PendingMutationAudit c = Some e" and com: "commitSQLiteMutation v c tx = Inr after"
    and tx: "db_audit tx = db_audit s"
  shows "logged e s after"
proof -
  obtain a where a: "c = Some a" "e = ma_event a"
    using pend by (auto simp: PendingMutationAudit_def split: option.splits if_splits)
  obtain s1 where after: "after = (MarkMutationAuditRecorded c, s1)" and rec: "recordSQLiteAuditEvent v tx e = Inr s1"
    using com pend by (auto simp: commitSQLiteMutation_def split: sum.splits)
  obtain e' where e': "db_audit s1 = db_audit tx @ [e']" "e' = e\<lparr>a_ID := a_ID e', a_OccurredAt := a_OccurredAt e'\<rparr>"
    using rec by (fastforce simp: recordSQLiteAuditEvent_def Let_def split: if_splits)
  have "MutationAuditRecorded (MarkMutationAuditRecorded c)" by (simp add: a MutationAuditRecorded_def MarkMutationAuditRecorded_def)
  with e' show ?thesis unfolding logged_def after by (auto simp: tx)
qed

lemma insert_row_audit: "insert_release_row v s r co = Inr (tx, n) \<Longrightarrow> db_audit tx = db_audit s"
  by (auto simp: insert_release_row_def Let_def split: if_splits option.splits)

lemma fold_queue_audit [simp]: "db_audit (fold (\<lambda>path t. queue_deletion v t path owner name) paths s) = db_audit s"
  by (induction paths arbitrary: s) auto

lemma delete_tx_audit [simp]:
  "db_audit (delete_module_tx v s owner name) = db_audit s"
  "db_audit (delete_release_tx v s m r owner name version) = db_audit s"
  by (simp_all add: delete_module_tx_def delete_release_tx_def delete_modules_def delete_empty_module_def
      updateLatestVersion_def Let_def)

lemma createRelease_atomic:
  assumes "semver_package (v_sv v)" "db_inv (v_sv v) s" "PendingMutationAudit c = Some e"
    and "module_of s (r_Owner r) (r_Name r) = Some m" "mr_id m = r_ModuleID r"
  shows "atomic_with e (c, s) (createRelease v c s r co)
    (\<lambda>q catalog1. stored_as r q \<and> key_of q = key_of r \<and> catalog1 = put_release q (catalog s))"
proof -
  have m: "(r_ModuleID r, r_Owner r, r_Name r) \<in> identities (db_modules s)"
    using module_of_Some [OF assms(4)] assms(5) by (force simp: identities_def)
  show ?thesis
  proof (cases rule: createRelease_effect [OF assms(1,2) m, of c co])
    case (1 err)
    then show ?thesis by (simp add: atomic_with_def)
  next
    case (2 c1 s1 q)
    have "logged e s (c1, s1)"
    proof (cases rule: createRelease_cases [of v c s r co])
      case (failed err)
      with 2(1) show ?thesis by simp
    next
      case (finished tx n current c2 s2)
      have "logged e s (c2, s2)"
        by (rule commit_logged [OF assms(3) finished(4)]) (simp add: updateLatestVersion_def insert_row_audit [OF finished(1)])
      with 2(1) finished(5) show ?thesis by simp
    qed
    with 2 show ?thesis by (simp add: atomic_with_def)
  qed
qed

lemma deletes_atomic:
  assumes "db_inv sv s" "PendingMutationAudit c = Some e"
  shows "atomic_with e (c, s) (DeleteModule v c s owner name) (\<lambda>_ catalog1. catalog1 = drop_module owner name (catalog s))"
    "atomic_with e (c, s) (DeleteRelease v c s owner name version)
       (\<lambda>_ catalog1. catalog1 = drop_release (owner, name, version) (catalog s))"
proof -
  have "snd (DeleteModule v c s owner name) = Inl err \<Longrightarrow> fst (DeleteModule v c s owner name) = (c, s)" for err
    by (auto simp: DeleteModule_def Let_def rolled_back_def split: if_splits sum.splits)
  moreover have "snd (DeleteModule v c s owner name) = Inr () \<Longrightarrow> logged e s (fst (DeleteModule v c s owner name))"
    using commit_logged [OF assms(2)] by (auto simp: DeleteModule_def Let_def rolled_back_def split: if_splits sum.splits)
  ultimately show "atomic_with e (c, s) (DeleteModule v c s owner name) (\<lambda>_ catalog1. catalog1 = drop_module owner name (catalog s))"
    using DeleteModule_catalog [OF assms(1), of v c owner name]
    by (cases "DeleteModule v c s owner name") (auto simp: atomic_with_def split: sum.split)
  have "snd (DeleteRelease v c s owner name version) = Inl err \<Longrightarrow> fst (DeleteRelease v c s owner name version) = (c, s)" for err
    by (auto simp: DeleteRelease_def rolled_back_def split: option.splits prod.splits sum.splits)
  moreover have "snd (DeleteRelease v c s owner name version) = Inr () \<Longrightarrow> logged e s (fst (DeleteRelease v c s owner name version))"
    using commit_logged [OF assms(2)] by (auto simp: DeleteRelease_def rolled_back_def split: option.splits prod.splits sum.splits)
  ultimately show "atomic_with e (c, s) (DeleteRelease v c s owner name version)
       (\<lambda>_ catalog1. catalog1 = drop_release (owner, name, version) (catalog s))"
    using DeleteRelease_catalog(1) [OF assms(1), of v c owner name version]
    by (cases "DeleteRelease v c s owner name version") (auto simp: atomic_with_def split: sum.split)
qed

lemma pages_concat:
  assumes "length xs \<le> k * n"
  shows "concat (map (\<lambda>i. page n (i * n) xs) [0..<k]) = xs"
proof -
  have "concat (map (\<lambda>i. page n (i * n) xs) [0..<j]) = take (j * n) xs" for j
  proof (induction j)
    case (Suc j)
    have "take (j * n) xs @ take n (drop (j * n) xs) = take (j * n + n) xs" by (rule take_add [symmetric])
    with Suc show ?case by (simp add: page_def add.commute)
  qed simp
  with assms show ?thesis by simp
qed

section \<open>Examples\<close>

definition example_release :: "string \<Rightarrow> release" where
  "example_release version =
     \<lparr>r_ID = version, r_ModuleID = ''m'', r_Owner = ''acme'', r_Name = ''web'', r_Source = ''local'',
      r_Version = version, r_Description = [], r_Readme = [], r_FileName = ''f'', r_ContentType = ''c'',
      r_SizeBytes = 1, r_MD5 = [], r_SHA256 = ''s'', r_StoragePath = ''p/'' @ version, r_UpstreamSlug = [],
      r_UpstreamFileURI = [], r_DownloadURL = [], r_Metadata = ''{}'', r_CreatedAt = 0\<rparr>"

definition example_step :: "store_op \<Rightarrow> store_step" where
  "example_step op = \<lparr>st_op = op, st_audit = None, st_now = 5, st_uuid = ''m'', st_audit_uuid = ''a''\<rparr>"

definition example_history :: "store_step list" where
  "example_history =
     [example_step (OUpsertModule ''acme'' ''web''),
      example_step (OCreateRelease (example_release ''1.10.0'') True),
      example_step (OCreateRelease (example_release ''1.9.0'') True)]"

definition example_db :: db where
  "example_db = store_run documented_semver example_history empty_db"

definition example_event :: audit_event where
  "example_event =
     \<lparr>a_ID = ''e'', a_OccurredAt = 7, a_RequestID = [], a_Actor = ''bob'', a_AuthMethod = [], a_Action = ''delete'',
      a_Result = [], a_Reason = [], a_SourceIP = [], a_Attributes = []\<rparr>"

definition example_env :: env where
  "example_env = \<lparr>v_sv = documented_semver, v_now = 9, v_uuid = ''x'', v_audit_uuid = ''y''\<rparr>"

section \<open>Properties\<close>

text \<open>
  C11: After every history of operations on the module tables they are as their constraints say.
  Modules have unique identifiers, names and slugs, none of them blank, and the slug is the one of
  owner and name; releases have unique identifiers and slugs, one version per module, valid columns,
  the order key of their version and a module; tombstones, usage records, the outbox and the journal
  have unique keys; and every \<open>latest_version\<close> is null for a module without releases and otherwise a
  highest of its versions. If every release was written under the names of its module, each release
  slug is the one of owner, name and version.
\<close>

theorem store_history_invariant:
  assumes "semver_package sv"
  shows "db_inv sv (store_run sv sts empty_db) \<and> table_keys (store_run sv sts empty_db) \<and>
    (addressed_run sv sts empty_db \<longrightarrow> release_slugs (store_run sv sts empty_db))"
proof -
  have "release_slugs empty_db" by (simp add: release_slugs_def joined_def empty_db_def)
  then show ?thesis
    using store_run_inv [OF assms db_inv_empty] store_run_keys [OF table_keys_empty] store_run_slugs [OF assms db_inv_empty] by blast
qed

theorem store_history_invariant_witness:
  "db_inv documented_semver example_db \<and> release_slugs example_db \<and>
     map rr_slug (db_releases example_db) = [''acme-web-1.10.0'', ''acme-web-1.9.0'']"
proof -
  have "map rr_slug (db_releases example_db) = [''acme-web-1.10.0'', ''acme-web-1.9.0'']" by code_simp
  moreover have "addressed_run documented_semver example_history empty_db" by code_simp
  ultimately show ?thesis
    using store_history_invariant [OF documented_semver_ok, of example_history] by (simp add: example_db_def)
qed

text \<open>
  C12: After every history, \<open>GetModule\<close> reports as latest version one of the versions that
  \<open>ListReleases\<close> lists, none of which is higher, and which compares equal to the first one listed;
  without releases it reports none.
\<close>

theorem latest_version_correct:
  assumes sv: "semver_package sv" and s: "s = store_run sv sts empty_db"
    and get: "GetModule s owner name = Inr m"
  shows "if ListReleases sv s owner name = [] then m_LatestVersion m = []
    else highest sv (m_LatestVersion m) (mv_Version ` set (ListReleases sv s owner name)) \<and>
      CompareVersions sv (m_LatestVersion m) (mv_Version (hd (ListReleases sv s owner name))) = 0"
proof -
  have inv: "db_inv sv s" unfolding s by (rule store_run_inv [OF sv db_inv_empty])
  obtain mr where mr: "module_of s owner name = Some mr" and m: "m = scanModule mr"
    using get by (auto simp: GetModule_def split: option.splits)
  let ?l = "ListReleases sv s owner name"
  have lat: "latest_ok sv (mv_Version ` set ?l) (mr_latest_version mr)"
    using db_invD(3) [OF inv] module_of_Some [OF mr] by (simp add: ListReleases_versions [OF inv mr] latest_inv_def)
  show ?thesis
  proof (cases "?l = []")
    case True
    with lat show ?thesis by (simp add: m scanModule_def latest_ok_def highest_def split: option.splits)
  next
    case False
    then have h: "highest sv (m_LatestVersion m) (mv_Version ` set ?l)"
      using lat by (simp add: m scanModule_def latest_ok_def split: option.splits)
    then have "CompareVersions sv (m_LatestVersion m) (mv_Version (hd ?l)) \<le> 0"
      using ListReleases_hd [OF sv] by (auto simp: highest_def)
    moreover have "CompareVersions sv (mv_Version (hd ?l)) (m_LatestVersion m) \<le> 0"
      using h False by (simp add: highest_def)
    ultimately show ?thesis
      using h False semver_package.CompareVersions_swap [OF sv, of "mv_Version (hd ?l)" "m_LatestVersion m"] by simp
  qed
qed

theorem latest_version_correct_witness:
  "\<exists>m. GetModule example_db ''acme'' ''web'' = Inr m \<and> m_LatestVersion m = ''1.10.0'' \<and>
     CompareVersions documented_semver ''1.9.0'' (m_LatestVersion m) \<le> 0"
proof -
  have "(case GetModule example_db ''acme'' ''web'' of Inr m \<Rightarrow> m_LatestVersion m = ''1.10.0'' | Inl _ \<Rightarrow> False)" by code_simp
  then obtain m where m: "GetModule example_db ''acme'' ''web'' = Inr m" "m_LatestVersion m = ''1.10.0''"
    by (auto split: sum.splits)
  have l: "''1.9.0'' \<in> mv_Version ` set (ListReleases documented_semver example_db ''acme'' ''web'')" by code_simp
  then have "ListReleases documented_semver example_db ''acme'' ''web'' \<noteq> []" by auto
  with latest_version_correct [OF documented_semver_ok example_db_def m(1)] l m show ?thesis
    by (auto simp: highest_def)
qed

text \<open>
  C8: No local artifact is lost silently: after any history, the storage path of every local release
  and every pending deletion is still stored for a local release or pending deletion after any
  further operations, unless its deletion has been completed or one of two steps gave it up, an
  upstream release written over the local one with the same path, or new checksums that name another
  path. Replacing and deleting releases and modules queue the paths they drop in the same
  transaction.
\<close>

theorem no_artifact_lost:
  assumes sv: "semver_package sv" and s: "s = store_run sv before empty_db"
  shows "tracked_paths s \<subseteq> tracked_paths (store_run sv sts s) \<union> completed_paths sts \<union> given_up_paths sv sts s"
proof -
  have "db_inv sv s" unfolding s by (rule store_run_inv [OF sv db_inv_empty])
  from store_run_tracked [OF sv this] show ?thesis .
qed

definition example_deletions :: "store_step list" where
  "example_deletions =
     [example_step (OCreateRelease ((example_release ''1.9.0'')\<lparr>r_StoragePath := ''q''\<rparr>) False),
      example_step (ODeleteModule ''acme'' ''web'')]"

theorem no_artifact_lost_witness:
  "''p/1.9.0'' \<in> tracked_paths (store_run documented_semver example_deletions example_db)"
proof -
  have "given_up_paths documented_semver example_deletions example_db = {}" by code_simp
  with no_artifact_lost [OF documented_semver_ok example_db_def, of example_deletions]
  have "tracked_paths example_db \<subseteq> tracked_paths (store_run documented_semver example_deletions example_db)"
    by (simp add: completed_paths_def example_deletions_def example_step_def)
  moreover have "''p/1.9.0'' \<in> tracked_paths example_db" by code_simp
  ultimately show ?thesis by blast
qed

text \<open>
  C16: A mutation and its audit event are atomic. With a pending event in its context, creating a
  release of a stored module, deleting a module and deleting a release either fail and leave database
  and context as they were, also when only the event cannot be written, or they succeed, append
  exactly that event to the journal, mark it recorded, and the catalog is the old one with exactly
  the mutation: the release put under its key, or the module or release dropped.
\<close>

theorem mutation_audit_atomic:
  assumes "semver_package (v_sv v)" and "db_inv (v_sv v) s" and "PendingMutationAudit c = Some e"
    and "module_of s (r_Owner r) (r_Name r) = Some m" and "mr_id m = r_ModuleID r"
  shows "atomic_with e (c, s) (createRelease v c s r createOnly)
      (\<lambda>q catalog1. stored_as r q \<and> key_of q = key_of r \<and> catalog1 = put_release q (catalog s)) \<and>
    atomic_with e (c, s) (DeleteModule v c s owner name) (\<lambda>_ catalog1. catalog1 = drop_module owner name (catalog s)) \<and>
    atomic_with e (c, s) (DeleteRelease v c s owner name version)
      (\<lambda>_ catalog1. catalog1 = drop_release (owner, name, version) (catalog s))"
  using createRelease_atomic [OF assms] deletes_atomic [OF assms(2,3)] by blast

theorem mutation_audit_atomic_witness:
  "\<exists>c1 s1. DeleteModule example_env (ContextWithMutationAudit example_env example_event) example_db ''acme'' ''web'' = ((c1, s1), Inr ()) \<and>
     db_audit s1 = [example_event] \<and> catalog s1 = drop_module ''acme'' ''web'' (catalog example_db)"
proof -
  let ?c = "ContextWithMutationAudit example_env example_event"
  let ?d = "DeleteModule example_env ?c example_db ''acme'' ''web''"
  have "\<not> isl (snd ?d)" and log: "db_audit (snd (fst ?d)) = [example_event]" by code_simp+
  then obtain c1 s1 where d: "?d = ((c1, s1), Inr ())" by (cases ?d; cases "snd ?d") auto
  have p: "PendingMutationAudit ?c = Some example_event"
    by (simp add: PendingMutationAudit_def ContextWithMutationAudit_def example_event_def)
  have "case module_of example_db ''acme'' ''web'' of None \<Rightarrow> False | Some m \<Rightarrow> mr_id m = ''m''" by code_simp
  then obtain m where m: "module_of example_db ''acme'' ''web'' = Some m" "mr_id m = ''m''" by (auto split: option.splits)
  have sv: "semver_package (v_sv example_env)" by (simp add: example_env_def documented_semver_ok)
  have inv: "db_inv (v_sv example_env) example_db"
    unfolding example_db_def example_env_def by (simp add: store_run_inv [OF documented_semver_ok db_inv_empty])
  have r: "module_of example_db (r_Owner (example_release ''2'')) (r_Name (example_release ''2'')) = Some m"
    "mr_id m = r_ModuleID (example_release ''2'')" using m by (simp_all add: example_release_def)
  from mutation_audit_atomic [OF sv inv p r] have "atomic_with example_event (?c, example_db) ?d
      (\<lambda>_ catalog1. catalog1 = drop_module ''acme'' ''web'' (catalog example_db))" by blast
  with d log show ?thesis by (simp add: atomic_with_def)
qed

text \<open>
  C17: \<open>CreateRelease\<close> and \<open>CreateReleaseIfAbsent\<close> refine putting one release into the catalog: on
  success the catalog is the old one with the release under its owner, name and version, every
  other release is untouched, the stored content is what was given, and the release returned is
  the one stored. \<open>CreateReleaseIfAbsent\<close> succeeds only for a key that was free.
\<close>

theorem create_release_refines_put:
  assumes "db_inv (v_sv v) s" and "module_of s (r_Owner r) (r_Name r) = Some m" and "mr_id m = r_ModuleID r"
    and "createRelease v c s r createOnly = ((c1, s1), Inr q)"
  shows "catalog s1 = put_release q (catalog s) \<and> stored_as r q \<and> key_of q = key_of r \<and>
    (createOnly \<longrightarrow> (\<forall>p \<in> catalog s. key_of p \<noteq> key_of r))"
  using createRelease_catalog [OF assms(1) _ assms(3) _ _ assms(4)] module_of_Some [OF assms(2)] by simp

theorem create_release_refines_put_witness:
  "\<exists>c1 s1 q. createRelease example_env None example_db (example_release ''2.0.0'') True = ((c1, s1), Inr q) \<and>
     catalog s1 = put_release q (catalog example_db)"
proof -
  have "case createRelease example_env None example_db (example_release ''2.0.0'') True of
      (cs, Inl e) \<Rightarrow> False | (cs, Inr q) \<Rightarrow> True" by code_simp
  then obtain c1 s1 q where r: "createRelease example_env None example_db (example_release ''2.0.0'') True = ((c1, s1), Inr q)"
    by (auto split: prod.splits sum.splits)
  have "case module_of example_db ''acme'' ''web'' of None \<Rightarrow> False | Some m \<Rightarrow> mr_id m = ''m''" by code_simp
  then obtain m where m: "module_of example_db ''acme'' ''web'' = Some m" "mr_id m = ''m''"
    by (auto split: option.splits)
  have "db_inv (v_sv example_env) example_db"
    unfolding example_db_def example_env_def by (simp add: store_run_inv [OF documented_semver_ok db_inv_empty])
  from create_release_refines_put [OF this _ _ r] m r show ?thesis by (auto simp: example_release_def)
qed

text \<open>
  \<open>DeleteRelease\<close> and \<open>DeleteModule\<close> refine dropping exactly that release, or exactly the
  releases of that module, from the catalog; a release that does not exist is reported as not
  found and changes nothing.
\<close>

theorem delete_refines_drop:
  assumes "db_inv sv s"
  shows "(DeleteRelease v c s owner name version = ((c1, s1), Inr ()) \<longrightarrow>
        catalog s1 = drop_release (owner, name, version) (catalog s)) \<and>
      (DeleteModule v c s owner name = ((c2, s2), Inr ()) \<longrightarrow> catalog s2 = drop_module owner name (catalog s)) \<and>
      ((\<forall>q \<in> catalog s. key_of q \<noteq> (owner, name, version)) \<longrightarrow>
        DeleteRelease v c s owner name version = ((c, s), Inl ErrNotFound))"
proof -
  have "DeleteRelease v c s owner name version = ((c, s), Inl ErrNotFound)"
    if "\<forall>q \<in> catalog s. key_of q \<noteq> (owner, name, version)"
  proof -
    have "find (\<lambda>(m, r). mr_owner m = owner \<and> mr_name m = name \<and> rr_version r = version) (joined s) = None"
      using that by (auto simp: find_None_iff catalog_joined key_of_def scanRelease_as)
    then show ?thesis by (simp add: DeleteRelease_def rolled_back_def)
  qed
  then show ?thesis using DeleteRelease_catalog(1) [OF assms] DeleteModule_catalog [OF assms] by simp
qed

theorem delete_refines_drop_witness:
  "\<exists>c1 s1. DeleteRelease example_env None example_db ''acme'' ''web'' ''1.10.0'' = ((c1, s1), Inr ()) \<and>
     catalog s1 = drop_release (''acme'', ''web'', ''1.10.0'') (catalog example_db)"
proof -
  have "case DeleteRelease example_env None example_db ''acme'' ''web'' ''1.10.0'' of
      (cs, Inl e) \<Rightarrow> False | (cs, Inr q) \<Rightarrow> True" by code_simp
  then obtain c1 s1 where r: "DeleteRelease example_env None example_db ''acme'' ''web'' ''1.10.0'' = ((c1, s1), Inr ())"
    by (auto split: prod.splits sum.splits)
  have "db_inv documented_semver example_db"
    unfolding example_db_def by (rule store_run_inv [OF documented_semver_ok db_inv_empty])
  from delete_refines_drop [OF this] r show ?thesis by blast
qed

text \<open>
  Paging through the module list loses and repeats nothing: the pages of any admissible size,
  one after the other, are the filtered modules in listing order, and the reported total is their
  number.
\<close>

theorem module_pages_cover:
  assumes "1 \<le> limit" and "limit \<le> 100" and "int (pages - 1) * limit \<le> 100000"
    and "length (filtered_modules to_lower s owners search) \<le> pages * nat limit"
  shows "concat (map (\<lambda>i. case ListModulesPagePrioritized to_lower s owners priority search limit (int i * limit) of
        Inl e \<Rightarrow> [] | Inr (ms, n) \<Rightarrow> ms) [0..<pages]) =
      map scanModule (modules_in_order priority (filtered_modules to_lower s owners search)) \<and>
    mset (modules_in_order priority (filtered_modules to_lower s owners search)) =
      mset (filtered_modules to_lower s owners search)"
proof -
  let ?ms = "modules_in_order priority (filtered_modules to_lower s owners search)"
  have ok: "validateModulePagination limit (int i * limit) = Inr ()" if "i < pages" for i
  proof -
    have "int i * limit \<le> int (pages - 1) * limit" using that assms(1) by (intro mult_right_mono) auto
    then have "int i * limit \<le> 100000" using assms(3) by linarith
    moreover have "\<not> int i * limit < 0" using assms(1) by (simp add: not_less)
    ultimately show ?thesis
      using assms(1,2) by (simp add: validateModulePagination_def MaxModulePageSize_def MaxModulePageOffset_def)
  qed
  have "nat (int i * limit) = i * nat limit" for i using assms(1) by (simp add: nat_mult_distrib)
  then have "concat (map (\<lambda>i. case ListModulesPagePrioritized to_lower s owners priority search limit (int i * limit) of
        Inl e \<Rightarrow> [] | Inr (ms, n) \<Rightarrow> ms) [0..<pages]) =
      concat (map (\<lambda>i. map scanModule (page (nat limit) (i * nat limit) ?ms)) [0..<pages])"
    by (intro arg_cong [of _ _ concat] map_cong) (auto simp: ListModulesPagePrioritized_def ok)
  also have "\<dots> = map scanModule (concat (map (\<lambda>i. page (nat limit) (i * nat limit) ?ms) [0..<pages]))"
    by (simp add: map_concat o_def)
  also have "\<dots> = map scanModule ?ms"
    using pages_concat [of ?ms pages "nat limit"] assms(4) by (simp add: modules_in_order_def)
  finally show ?thesis by (simp add: modules_in_order_def)
qed

theorem module_pages_cover_witness:
  "concat (map (\<lambda>i. case ListModulesPagePrioritized (\<lambda>t. t) example_db [] [] [] 1 (int i * 1) of
      Inl e \<Rightarrow> [] | Inr (ms, n) \<Rightarrow> ms) [0..<2]) =
   map scanModule (modules_in_order [] (filtered_modules (\<lambda>t. t) example_db [] []))"
proof -
  have "length (filtered_modules (\<lambda>t. t) example_db [] []) \<le> 2 * nat 1" by code_simp
  then show ?thesis by (intro module_pages_cover [THEN conjunct1]) auto
qed

section \<open>A defect of the release slug lookup\<close>



end
