(* ===== verification/SqliteShared.thy ===== *)
theory SqliteShared
  imports SqliteModules FixedWindow
begin

text \<open>
  State the replicas of the server share through the database (\<open>internal/store/sqlite.go\<close>): rate
  limits, leases, manage sessions, OIDC states and OIDC sessions, and the life of access tokens.
  Every operation is one SQL statement or one transaction, hence one step. The columns that hold
  instants are texts that \<open>sqliteTime\<close> writes in a fixed-width layout, so that comparing the texts
  compares the instants.
\<close>

section \<open>Rate limits\<close>

definition ConsumeRateLimit :: "db \<Rightarrow> string \<Rightarrow> int \<Rightarrow> time \<Rightarrow> time \<Rightarrow> db \<times> bool result" where
  "ConsumeRateLimit s key limit window now =
     (if trim_space key = [] \<or> limit \<le> 0 \<or> window \<le> 0 then (s, Inl (StoreError ''invalid rate limit''))
      else
        let rows = insert_or_update xr_limiter_key
              (\<lambda>x. x\<lparr>xr_request_count := (if xr_reset_at x \<le> now then 1
                                        else min (xr_request_count x + 1) (limit + 1)),
                    xr_reset_at := (if xr_reset_at x \<le> now then now + window else xr_reset_at x),
                    xr_updated_at := now\<rparr>)
              \<lparr>xr_limiter_key = key, xr_request_count = 1, xr_reset_at = now + window, xr_updated_at = now\<rparr>
              (db_rates s)
        in (s\<lparr>db_rates := rows\<rparr>,
            (case find (\<lambda>x. xr_limiter_key x = key) rows of
               None \<Rightarrow> Inl (StoreError ''consume rate limit'')
             | Some x \<Rightarrow> Inr (xr_request_count x \<le> limit))))"

definition PurgeRateLimits :: "db \<Rightarrow> time \<Rightarrow> db \<times> nat" where
  "PurgeRateLimits s before =
     (s\<lparr>db_rates := delete_where (\<lambda>x. xr_reset_at x < before) (db_rates s)\<rparr>,
      length (filter (\<lambda>x. xr_reset_at x < before) (db_rates s)))"

section \<open>Leases\<close>

text \<open>The statement compares the clock of SQLite, which has milliseconds; here instants are not rounded.\<close>

definition AcquireLease :: "db \<Rightarrow> time \<Rightarrow> string \<Rightarrow> string \<Rightarrow> time \<Rightarrow> db \<times> bool" where
  "AcquireLease s now name holder duration =
     (case find (\<lambda>l. lr_name l = name) (db_leases s) of
        None \<Rightarrow> (s\<lparr>db_leases := db_leases s @
            [\<lparr>lr_name = name, lr_holder = holder, lr_lease_until = now + duration\<rparr>]\<rparr>, True)
      | Some l \<Rightarrow>
          if lr_lease_until l \<le> now \<or> lr_holder l = holder
          then (s\<lparr>db_leases := update_where (\<lambda>l. lr_name l = name)
                  (\<lambda>l. l\<lparr>lr_holder := holder, lr_lease_until := now + duration\<rparr>) (db_leases s)\<rparr>, True)
          else (s, False))"

definition ReleaseLease :: "db \<Rightarrow> string \<Rightarrow> string \<Rightarrow> db" where
  "ReleaseLease s name holder =
     s\<lparr>db_leases := delete_where (\<lambda>l. lr_name l = name \<and> lr_holder l = holder) (db_leases s)\<rparr>"

section \<open>Access tokens\<close>

definition IsAccessTokenActive :: "db \<Rightarrow> string \<Rightarrow> time \<Rightarrow> bool result" where
  "IsAccessTokenActive s tokenID now =
     (if trim_space tokenID = [] then Inl (StoreError ''access token id is required'')
      else Inr (\<exists>k \<in> set (db_tokens s). kr_token_id k = tokenID \<and> kr_revoked_at k = None \<and>
             (case kr_expires_at k of None \<Rightarrow> True | Some e \<Rightarrow> now < e)))"

definition MarkAccessTokenUsed :: "db \<Rightarrow> string \<Rightarrow> time \<Rightarrow> db \<times> unit result" where
  "MarkAccessTokenUsed s tokenID usedAt =
     (if trim_space tokenID = [] then (s, Inl (StoreError ''access token id is required''))
      else (s\<lparr>db_tokens := update_where
              (\<lambda>k. kr_token_id k = tokenID \<and> kr_revoked_at k = None \<and>
                (case kr_last_used_at k of None \<Rightarrow> True | Some u \<Rightarrow> u < usedAt - minute))
              (\<lambda>k. k\<lparr>kr_last_used_at := Some usedAt\<rparr>) (db_tokens s)\<rparr>, Inr ()))"

definition token_history :: "time \<Rightarrow> token_row \<Rightarrow> bool" where
  "token_history cutoff k =
     (case kr_revoked_at k of
        Some r \<Rightarrow> r < cutoff
      | None \<Rightarrow> (case kr_expires_at k of None \<Rightarrow> False | Some e \<Rightarrow> e < cutoff))"

definition PurgeAccessTokenHistory :: "db \<Rightarrow> time \<Rightarrow> db \<times> nat" where
  "PurgeAccessTokenHistory s cutoff =
     (s\<lparr>db_tokens := delete_where (token_history cutoff) (db_tokens s)\<rparr>,
      length (filter (token_history cutoff) (db_tokens s)))"

section \<open>Manage sessions\<close>

definition CreateManageSession :: "db \<Rightarrow> manage_session \<Rightarrow> db \<times> unit result" where
  "CreateManageSession s n =
     (if n_SessionHash n = [] \<or> n_CredentialHash n = [] \<or> n_CSRFSecret n = [] \<or> n_AuthMethod n = []
      then (s, Inl (StoreError ''manage session is incomplete''))
      else if n_SessionHash n \<in> n_SessionHash ` set (db_manage s)
      then (s, Inl (StoreError ''create manage session''))
      else (s\<lparr>db_manage := db_manage s @ [n]\<rparr>, Inr ()))"

definition GetManageSession :: "db \<Rightarrow> string \<Rightarrow> time \<Rightarrow> db \<times> manage_session result" where
  "GetManageSession s hash now =
     (case find (\<lambda>n. n_SessionHash n = hash \<and> n_RevokedAt n = None \<and> now < n_ExpiresAt n) (db_manage s) of
        None \<Rightarrow> (s, Inl ErrNotFound)
      | Some n \<Rightarrow>
          ((if n_LastSeenAt n < now - minute
            then s\<lparr>db_manage := update_where
                   (\<lambda>n. n_SessionHash n = hash \<and> n_LastSeenAt n < now - minute)
                   (\<lambda>n. n\<lparr>n_LastSeenAt := now\<rparr>) (db_manage s)\<rparr>
            else s), Inr n))"

definition RevokeManageSession :: "db \<Rightarrow> string \<Rightarrow> time \<Rightarrow> db" where
  "RevokeManageSession s hash revokedAt =
     s\<lparr>db_manage := update_where (\<lambda>n. n_SessionHash n = hash \<and> n_RevokedAt n = None)
        (\<lambda>n. n\<lparr>n_RevokedAt := Some revokedAt\<rparr>) (db_manage s)\<rparr>"

section \<open>OIDC states\<close>

definition CreateOIDCState :: "db \<Rightarrow> oidc_state \<Rightarrow> db \<times> unit result" where
  "CreateOIDCState s t =
     (if t_StateHash t = [] \<or> t_Nonce t = [] \<or> t_PKCEVerifier t = []
      then (s, Inl (StoreError ''oidc state is incomplete''))
      else if t_StateHash t \<in> (\<lambda>r. t_StateHash (sr_state r)) ` set (db_states s)
      then (s, Inl (StoreError ''create oidc state''))
      else (s\<lparr>db_states := db_states s @ [\<lparr>sr_state = t, sr_consumed_at = None\<rparr>]\<rparr>, Inr ()))"

definition consumable :: "string \<Rightarrow> time \<Rightarrow> state_row \<Rightarrow> bool" where
  "consumable hash now r =
     (t_StateHash (sr_state r) = hash \<and> sr_consumed_at r = None \<and> now < t_ExpiresAt (sr_state r))"

definition ConsumeOIDCState :: "db \<Rightarrow> string \<Rightarrow> time \<Rightarrow> db \<times> oidc_state result" where
  "ConsumeOIDCState s hash now =
     (case find (consumable hash now) (db_states s) of
        None \<Rightarrow> (s, Inl ErrNotFound)
      | Some r \<Rightarrow> (s\<lparr>db_states := update_where (consumable hash now)
                         (\<lambda>r. r\<lparr>sr_consumed_at := Some now\<rparr>) (db_states s)\<rparr>, Inr (sr_state r)))"

section \<open>OIDC sessions\<close>

definition CreateOIDCSession :: "db \<Rightarrow> oidc_session \<Rightarrow> db \<times> unit result" where
  "CreateOIDCSession s e =
     (if e_SessionHash e = [] \<or> e_Subject e = [] \<or> e_CSRFSecret e = []
      then (s, Inl (StoreError ''oidc session is incomplete''))
      else if e_SessionHash e \<in> e_SessionHash ` set (db_sessions s)
      then (s, Inl (StoreError ''create oidc session''))
      else (s\<lparr>db_sessions := db_sessions s @ [e]\<rparr>, Inr ()))"

definition GetOIDCSession :: "db \<Rightarrow> string \<Rightarrow> time \<Rightarrow> db \<times> oidc_session result" where
  "GetOIDCSession s hash now =
     (case find (\<lambda>e. e_SessionHash e = hash \<and> e_RevokedAt e = None \<and> now < e_ExpiresAt e) (db_sessions s) of
        None \<Rightarrow> (s, Inl ErrNotFound)
      | Some e \<Rightarrow>
          ((if e_LastSeenAt e < now - minute
            then s\<lparr>db_sessions := update_where
                   (\<lambda>e. e_SessionHash e = hash \<and> e_LastSeenAt e < now - minute)
                   (\<lambda>e. e\<lparr>e_LastSeenAt := now\<rparr>) (db_sessions s)\<rparr>
            else s), Inr e))"

definition RevokeOIDCSession :: "db \<Rightarrow> string \<Rightarrow> time \<Rightarrow> db" where
  "RevokeOIDCSession s hash revokedAt =
     s\<lparr>db_sessions := update_where (\<lambda>e. e_SessionHash e = hash \<and> e_RevokedAt e = None)
        (\<lambda>e. e\<lparr>e_RevokedAt := Some revokedAt\<rparr>) (db_sessions s)\<rparr>"

section \<open>Cleanup\<close>

definition session_expired :: "time \<Rightarrow> time \<Rightarrow> time \<Rightarrow> time option \<Rightarrow> bool" where
  "session_expired now historyBefore expires ended =
     (expires < now \<or> (case ended of None \<Rightarrow> False | Some r \<Rightarrow> r < historyBefore))"

definition PurgeSessionState :: "db \<Rightarrow> time \<Rightarrow> time \<Rightarrow> db \<times> cleanup_result" where
  "PurgeSessionState s now historyBefore =
     (let m = (\<lambda>n. session_expired now historyBefore (n_ExpiresAt n) (n_RevokedAt n));
          t = (\<lambda>r. session_expired now historyBefore (t_ExpiresAt (sr_state r)) (sr_consumed_at r));
          e = (\<lambda>e. session_expired now historyBefore (e_ExpiresAt e) (e_RevokedAt e))
      in (s\<lparr>db_manage := delete_where m (db_manage s), db_states := delete_where t (db_states s),
            db_sessions := delete_where e (db_sessions s)\<rparr>,
          \<lparr>cr_ManageSessions = length (filter m (db_manage s)),
           cr_OIDCStates = length (filter t (db_states s)),
           cr_OIDCSessions = length (filter e (db_sessions s))\<rparr>))"

section \<open>Rows found by key\<close>

lemma find_insert_or_update:
  assumes "\<And>x. key (upd x) = key x"
  shows "find (\<lambda>x. key x = k) (insert_or_update key upd r rs) =
    (if k = key r then Some (case find (\<lambda>x. key x = k) rs of None \<Rightarrow> r | Some x \<Rightarrow> upd x)
     else find (\<lambda>x. key x = k) rs)"
proof (cases "key r \<in> key ` set rs")
  case True
  have "find (\<lambda>x. key x = k) (map (\<lambda>x. if key x = key r then upd x else x) ys) =
      (if k = key r then map_option upd (find (\<lambda>x. key x = k) ys) else find (\<lambda>x. key x = k) ys)" for ys
    by (cases "k = key r"; induction ys) (simp_all add: assms)
  moreover have "k = key r \<Longrightarrow> find (\<lambda>x. key x = k) rs \<noteq> None" using True by (auto simp: find_None_iff)
  ultimately have "find (\<lambda>x. key x = k) (map (\<lambda>x. if key x = key r then upd x else x) rs) =
      (if k = key r then Some (case find (\<lambda>x. key x = k) rs of None \<Rightarrow> r | Some x \<Rightarrow> upd x)
       else find (\<lambda>x. key x = k) rs)"
    by auto
  with True show ?thesis by (simp add: insert_or_update_def)
next
  case False
  then have "find (\<lambda>x. key x = key r) rs = None" unfolding find_None_iff by (metis image_eqI)
  moreover have "find (\<lambda>x. key x = k) (rs @ [r]) =
      (case find (\<lambda>x. key x = k) rs of None \<Rightarrow> if key r = k then Some r else None | Some x \<Rightarrow> Some x)"
    by (induction rs) auto
  ultimately show ?thesis using False by (auto simp: insert_or_update_def split: option.split)
qed

lemma find_append: "find p (xs @ ys) = (case find p xs of None \<Rightarrow> find p ys | Some x \<Rightarrow> Some x)"
  by (induction xs) auto

lemma find_update_where:
  assumes "\<And>x. p (upd x) = p x"
  shows "find p (update_where q upd xs) = map_option (\<lambda>x. if q x then upd x else x) (find p xs)"
  unfolding update_where_def by (induction xs) (simp_all add: assms)

lemma find_delete_where: "find p xs = Some x \<Longrightarrow> \<not> q x \<Longrightarrow> find p (delete_where q xs) = Some x"
  unfolding delete_where_def by (induction xs) (auto split: if_splits)

end
