(* ===== verification/Lifecycle.thy ===== *)
theory Lifecycle
  imports Prelude
begin

text \<open>
  Runs of a component as traces of operations and answers, and the contract of a table whose rows
  are created by one kind of operation and ended by another (a session and its revocation, a login
  state and its consumption): the locale derives that a row in force goes back to its creation
  with no ending in between.
\<close>

fun trace :: "('s \<Rightarrow> 'op \<Rightarrow> 's \<times> 'a) \<Rightarrow> 's \<Rightarrow> 'op list \<Rightarrow> ('op \<times> 'a) list" where
  "trace step s [] = []"
| "trace step s (c # cs) = (case step s c of (t, a) \<Rightarrow> (c, a) # trace step t cs)"

fun after :: "('s \<Rightarrow> 'op \<Rightarrow> 's \<times> 'a) \<Rightarrow> 's \<Rightarrow> 'op list \<Rightarrow> 's" where
  "after step s [] = s"
| "after step s (c # cs) = after step (fst (step s c)) cs"

lemma after_append: "after step s (cs @ ds) = after step (after step s cs) ds"
  by (induction cs arbitrary: s) auto

lemma trace_append: "trace step s (cs @ ds) = trace step s cs @ trace step (after step s cs) ds"
  by (induction cs arbitrary: s) (auto split: prod.split)

lemma length_trace [simp]: "length (trace step s cs) = length cs"
  by (induction cs arbitrary: s) (auto split: prod.split)

lemma trace_snoc: "trace step s (cs @ [c]) = trace step s cs @ [(c, snd (step (after step s cs) c))]"
  by (simp add: trace_append split: prod.split)

lemma after_snoc: "after step s (cs @ [c]) = fst (step (after step s cs) c)"
  by (simp add: after_append)

text \<open>An entry of a trace is the answer of the step in the state its predecessors lead to.\<close>

lemma trace_split:
  assumes "trace step s cs = pre @ (c, a) # post"
  shows "\<exists>bs ds. cs = bs @ c # ds \<and> trace step s bs = pre \<and> snd (step (after step s bs) c) = a"
proof -
  let ?n = "length pre"
  have n: "?n < length cs" using arg_cong [OF assms, of length] by simp
  let ?bs = "take ?n cs"
  have cs: "cs = ?bs @ cs ! ?n # drop (Suc ?n) cs" by (rule id_take_nth_drop [OF n])
  have "trace step s cs = trace step s ?bs @ (cs ! ?n, snd (step (after step s ?bs) (cs ! ?n))) #
      trace step (fst (step (after step s ?bs) (cs ! ?n))) (drop (Suc ?n) cs)"
    by (subst cs) (simp add: trace_append split: prod.split)
  moreover have "length (trace step s ?bs) = ?n" using n by simp
  ultimately have "trace step s ?bs = pre \<and> cs ! ?n = c \<and> snd (step (after step s ?bs) (cs ! ?n)) = a"
    using assms by simp
  with cs show ?thesis by metis
qed

locale ended_rows =
  fixes step :: "'s \<Rightarrow> 'op \<Rightarrow> 's \<times> 'a"
    and inv :: "'s \<Rightarrow> bool"
    and live :: "'s \<Rightarrow> 'r set"
    and name :: "'r \<Rightarrow> string"
    and same :: "'r \<Rightarrow> 'r \<Rightarrow> bool"
    and creates :: "'op \<times> 'a \<Rightarrow> 'r option"
    and ends :: "'op \<times> 'a \<Rightarrow> string option"
  assumes step_inv: "inv s \<Longrightarrow> inv (fst (step s c))"
    and step_live: "inv s \<Longrightarrow> step s c = (t, a) \<Longrightarrow> r \<in> live t \<Longrightarrow>
      creates (c, a) = Some r \<or> (\<exists>r0 \<in> live s. same r0 r \<and> ends (c, a) \<noteq> Some (name r))"
    and same_refl: "same r r"
    and same_trans: "same p q \<Longrightarrow> same q r \<Longrightarrow> same p r"
    and same_name: "same p q \<Longrightarrow> name p = name q"
begin

lemma inv_after: "inv s \<Longrightarrow> inv (after step s cs)"
  by (induction cs arbitrary: s) (auto intro: step_inv)

lemma live_origin:
  assumes "inv s" "live s = {}" "r \<in> live (after step s cs)"
  shows "\<exists>pre e post r0. trace step s cs = pre @ e # post \<and> creates e = Some r0 \<and> same r0 r \<and>
    (\<forall>d \<in> set post. ends d \<noteq> Some (name r))"
  using assms(3)
proof (induction cs arbitrary: r rule: rev_induct)
  case Nil
  then show ?case using assms(2) by simp
next
  case (snoc c cs)
  obtain t a where st: "step (after step s cs) c = (t, a)" by fastforce
  have tr: "trace step s (cs @ [c]) = trace step s cs @ [(c, a)]" by (simp add: trace_snoc st)
  have "r \<in> live t" using snoc.prems st by (simp add: after_snoc)
  from step_live [OF inv_after [OF assms(1)] st this] show ?case
  proof
    assume "creates (c, a) = Some r"
    then show ?thesis using tr same_refl by fastforce
  next
    assume "\<exists>r0 \<in> live (after step s cs). same r0 r \<and> ends (c, a) \<noteq> Some (name r)"
    then obtain q where q: "q \<in> live (after step s cs)" "same q r" "ends (c, a) \<noteq> Some (name r)" by blast
    obtain pre e post r0 where o: "trace step s cs = pre @ e # post" "creates e = Some r0" "same r0 q"
        "\<forall>d \<in> set post. ends d \<noteq> Some (name q)"
      using snoc.IH [OF q(1)] by blast
    have "trace step s (cs @ [c]) = pre @ e # (post @ [(c, a)])" using tr o(1) by simp
    moreover have "\<forall>d \<in> set (post @ [(c, a)]). ends d \<noteq> Some (name r)"
      using o(4) q(3) same_name [OF q(2)] by auto
    ultimately show ?thesis using o(2) same_trans [OF o(3) q(2)] by blast
  qed
qed

lemma answered_origin:
  assumes "inv s" "live s = {}" "trace step s cs = pre @ (c, a) # post"
    and "\<And>u. snd (step u c) = a \<Longrightarrow> r \<in> live u"
  shows "\<exists>xs e ys r0. pre = xs @ e # ys \<and> creates e = Some r0 \<and> same r0 r \<and>
    (\<forall>d \<in> set ys. ends d \<noteq> Some (name r))"
proof -
  obtain bs where bs: "trace step s bs = pre" "snd (step (after step s bs) c) = a"
    using trace_split [OF assms(3)] by blast
  then have "r \<in> live (after step s bs)" using assms(4) by blast
  from live_origin [OF assms(1,2) this] show ?thesis by (simp add: bs(1))
qed

end

end
