(* ===== verification/SqliteSessions.thy ===== *)
theory SqliteSessions
  imports SqliteShared Lifecycle
begin

text \<open>
  Histories of the shared state of \<open>SqliteShared\<close>: sessions that a browser may use, login states
  that may be consumed once, leases that one replica holds at a time, and the rate limits of all
  replicas together.
\<close>

section \<open>Sessions and login states\<close>

datatype session_op =
    SCreateManage manage_session
  | SGetManage string time
  | SRevokeManage string time
  | SCreateState oidc_state
  | SConsumeState string time
  | SCreateSession oidc_session
  | SGetSession string time
  | SRevokeSession string time
  | SPurge time time

datatype session_answer =
    AOk
  | AFailed
  | AManage manage_session
  | AState oidc_state
  | ASession oidc_session

fun session_step :: "db \<Rightarrow> session_op \<Rightarrow> db \<times> session_answer" where
  "session_step s (SCreateManage n) =
     map_prod (\<lambda>t. t) (case_sum (\<lambda>_. AFailed) (\<lambda>_. AOk)) (CreateManageSession s n)"
| "session_step s (SGetManage h now) =
     map_prod (\<lambda>t. t) (case_sum (\<lambda>_. AFailed) AManage) (GetManageSession s h now)"
| "session_step s (SRevokeManage h at) = (RevokeManageSession s h at, AOk)"
| "session_step s (SCreateState t) =
     map_prod (\<lambda>t. t) (case_sum (\<lambda>_. AFailed) (\<lambda>_. AOk)) (CreateOIDCState s t)"
| "session_step s (SConsumeState h now) =
     map_prod (\<lambda>t. t) (case_sum (\<lambda>_. AFailed) AState) (ConsumeOIDCState s h now)"
| "session_step s (SCreateSession e) =
     map_prod (\<lambda>t. t) (case_sum (\<lambda>_. AFailed) (\<lambda>_. AOk)) (CreateOIDCSession s e)"
| "session_step s (SGetSession h now) =
     map_prod (\<lambda>t. t) (case_sum (\<lambda>_. AFailed) ASession) (GetOIDCSession s h now)"
| "session_step s (SRevokeSession h at) = (RevokeOIDCSession s h at, AOk)"
| "session_step s (SPurge now before) = (fst (PurgeSessionState s now before), AOk)"

lemmas session_defs =
  CreateManageSession_def GetManageSession_def RevokeManageSession_def CreateOIDCState_def
  ConsumeOIDCState_def CreateOIDCSession_def GetOIDCSession_def RevokeOIDCSession_def
  PurgeSessionState_def

definition session_trace :: "session_op list \<Rightarrow> (session_op \<times> session_answer) list" where
  "session_trace = trace session_step empty_db"

text \<open>Rows in force: not revoked, not consumed. \<open>GetManageSession\<close> only moves \<open>LastSeenAt\<close>.\<close>

definition live_manage :: "db \<Rightarrow> manage_session set" where
  "live_manage s = {n \<in> set (db_manage s). n_RevokedAt n = None}"

definition same_manage :: "manage_session \<Rightarrow> manage_session \<Rightarrow> bool" where
  "same_manage m n = (\<exists>t. n = m\<lparr>n_LastSeenAt := t\<rparr>)"

definition live_sessions :: "db \<Rightarrow> oidc_session set" where
  "live_sessions s = {e \<in> set (db_sessions s). e_RevokedAt e = None}"

definition same_session :: "oidc_session \<Rightarrow> oidc_session \<Rightarrow> bool" where
  "same_session d e = (\<exists>t. e = d\<lparr>e_LastSeenAt := t\<rparr>)"

definition live_states :: "db \<Rightarrow> oidc_state set" where
  "live_states s = sr_state ` {r \<in> set (db_states s). sr_consumed_at r = None}"

fun creates_manage :: "session_op \<times> session_answer \<Rightarrow> manage_session option" where
  "creates_manage (SCreateManage n, AOk) = Some n"
| "creates_manage _ = None"

fun ends_manage :: "session_op \<times> session_answer \<Rightarrow> string option" where
  "ends_manage (SRevokeManage h at, a) = Some h"
| "ends_manage _ = None"

fun creates_session :: "session_op \<times> session_answer \<Rightarrow> oidc_session option" where
  "creates_session (SCreateSession e, AOk) = Some e"
| "creates_session _ = None"

fun ends_session :: "session_op \<times> session_answer \<Rightarrow> string option" where
  "ends_session (SRevokeSession h at, a) = Some h"
| "ends_session _ = None"

fun creates_state :: "session_op \<times> session_answer \<Rightarrow> oidc_state option" where
  "creates_state (SCreateState t, AOk) = Some t"
| "creates_state _ = None"

fun ends_state :: "session_op \<times> session_answer \<Rightarrow> string option" where
  "ends_state (SConsumeState h now, AState t) = Some h"
| "ends_state _ = None"


lemma same_manageI [simp]: "same_manage n n" "same_manage n (n\<lparr>n_LastSeenAt := t\<rparr>)"
  unfolding same_manage_def by (metis manage_session.surjective manage_session.update_convs(8)) blast

lemma same_sessionI [simp]: "same_session e e" "same_session e (e\<lparr>e_LastSeenAt := t\<rparr>)"
  unfolding same_session_def by (metis oidc_session.surjective oidc_session.update_convs(10)) blast

lemma same_manageD: "same_manage m n \<Longrightarrow> n_SessionHash m = n_SessionHash n \<and> n_ExpiresAt m = n_ExpiresAt n"
  by (auto simp: same_manage_def)

lemma same_sessionD: "same_session d e \<Longrightarrow> e_SessionHash d = e_SessionHash e \<and> e_ExpiresAt d = e_ExpiresAt e"
  by (auto simp: same_session_def)

text \<open>An operation of another table keeps the rows, and it ends none of them.\<close>

fun manage_op :: "session_op \<Rightarrow> bool" where
  "manage_op (SCreateManage n) = True"
| "manage_op (SGetManage h now) = True"
| "manage_op (SRevokeManage h at) = True"
| "manage_op (SPurge now before) = True"
| "manage_op _ = False"

fun oidc_session_op :: "session_op \<Rightarrow> bool" where
  "oidc_session_op (SCreateSession e) = True"
| "oidc_session_op (SGetSession h now) = True"
| "oidc_session_op (SRevokeSession h at) = True"
| "oidc_session_op (SPurge now before) = True"
| "oidc_session_op _ = False"

fun oidc_state_op :: "session_op \<Rightarrow> bool" where
  "oidc_state_op (SCreateState t) = True"
| "oidc_state_op (SConsumeState h now) = True"
| "oidc_state_op (SPurge now before) = True"
| "oidc_state_op _ = False"

lemma untouched:
  "\<not> manage_op c \<Longrightarrow> live_manage (fst (session_step s c)) = live_manage s \<and> ends_manage (c, a) = None"
  "\<not> oidc_session_op c \<Longrightarrow> live_sessions (fst (session_step s c)) = live_sessions s \<and> ends_session (c, a) = None"
  "\<not> oidc_state_op c \<Longrightarrow> live_states (fst (session_step s c)) = live_states s \<and> ends_state (c, a) = None"
  by (cases c; simp add: session_defs live_manage_def live_sessions_def live_states_def split: option.split)+

lemma live_revoked:
  "live_manage (RevokeManageSession s h at) = {n \<in> live_manage s. n_SessionHash n \<noteq> h}"
  "live_sessions (RevokeOIDCSession s h at) = {e \<in> live_sessions s. e_SessionHash e \<noteq> h}"
  by (auto simp: session_defs live_manage_def live_sessions_def image_iff split: if_splits)

text \<open>The primary key of the login states.\<close>

definition states_ok :: "db \<Rightarrow> bool" where
  "states_ok s = unique_by (\<lambda>r. t_StateHash (sr_state r)) (db_states s)"

lemma states_ok_step: "states_ok s \<Longrightarrow> states_ok (fst (session_step s c))"
  by (cases c) (auto simp: session_defs states_ok_def map_update_where Let_def split: option.split)

lemma live_consumed:
  assumes "states_ok s" "find (consumable h now) (db_states s) = Some r"
  shows "live_states (fst (ConsumeOIDCState s h now)) = {t \<in> live_states s. t_StateHash t \<noteq> h}"
proof -
  have r: "r \<in> set (db_states s)" "consumable h now r"
    using assms(2) by (auto simp: find_Some_iff)
  have "q \<in> set (db_states s) \<Longrightarrow> sr_consumed_at q = None \<Longrightarrow> consumable h now q \<longleftrightarrow> t_StateHash (sr_state q) = h" for q
    using unique_byD [OF assms(1) [unfolded states_ok_def], of q r] r by (auto simp: consumable_def)
  then show ?thesis
    by (auto simp: ConsumeOIDCState_def assms(2) live_states_def image_iff split: if_splits)
qed

lemma session_step_manage:
  assumes "session_step s c = (t, a)" "r \<in> live_manage t"
  shows "creates_manage (c, a) = Some r \<or>
    (\<exists>r0 \<in> live_manage s. same_manage r0 r \<and> ends_manage (c, a) \<noteq> Some (n_SessionHash r))"
proof -
  have keep: "r \<in> live_manage s \<Longrightarrow> ends_manage (c, a) \<noteq> Some (n_SessionHash r) \<Longrightarrow> ?thesis"
    using same_manageI(1) by blast
  show ?thesis
  proof (cases c)
    case (SCreateManage n)
    then show ?thesis using assms keep
      by (auto simp: CreateManageSession_def live_manage_def split: if_splits)
  next
    case (SGetManage h now)
    obtain r0 where "r0 \<in> live_manage s" "same_manage r0 r"
      using assms SGetManage
      by (auto simp: GetManageSession_def live_manage_def split: option.splits if_splits intro: that)
    then show ?thesis using SGetManage by auto
  next
    case (SRevokeManage h at)
    then show ?thesis using assms keep by (auto simp: live_revoked)
  next
    case (SPurge now before)
    then show ?thesis using assms keep by (auto simp: PurgeSessionState_def live_manage_def Let_def)
  qed (use assms keep untouched(1) [of c s a] in \<open>simp_all del: session_step.simps\<close>)
qed

lemma session_step_session:
  assumes "session_step s c = (t, a)" "r \<in> live_sessions t"
  shows "creates_session (c, a) = Some r \<or>
    (\<exists>r0 \<in> live_sessions s. same_session r0 r \<and> ends_session (c, a) \<noteq> Some (e_SessionHash r))"
proof -
  have keep: "r \<in> live_sessions s \<Longrightarrow> ends_session (c, a) \<noteq> Some (e_SessionHash r) \<Longrightarrow> ?thesis"
    using same_sessionI(1) by blast
  show ?thesis
  proof (cases c)
    case (SCreateSession e)
    then show ?thesis using assms keep
      by (auto simp: CreateOIDCSession_def live_sessions_def split: if_splits)
  next
    case (SGetSession h now)
    obtain r0 where "r0 \<in> live_sessions s" "same_session r0 r"
      using assms SGetSession
      by (auto simp: GetOIDCSession_def live_sessions_def split: option.splits if_splits intro: that)
    then show ?thesis using SGetSession by auto
  next
    case (SRevokeSession h at)
    then show ?thesis using assms keep by (auto simp: live_revoked)
  next
    case (SPurge now before)
    then show ?thesis using assms keep by (auto simp: PurgeSessionState_def live_sessions_def Let_def)
  qed (use assms keep untouched(2) [of c s a] in \<open>simp_all del: session_step.simps\<close>)
qed

lemma session_step_state:
  assumes "states_ok s" "session_step s c = (t, a)" "r \<in> live_states t"
  shows "creates_state (c, a) = Some r \<or>
    (\<exists>r0 \<in> live_states s. r0 = r \<and> ends_state (c, a) \<noteq> Some (t_StateHash r))"
proof -
  have keep: "r \<in> live_states s \<Longrightarrow> ends_state (c, a) \<noteq> Some (t_StateHash r) \<Longrightarrow> ?thesis" by blast
  show ?thesis
  proof (cases c)
    case (SCreateState t)
    then show ?thesis using assms keep
      by (auto simp: CreateOIDCState_def live_states_def split: if_splits)
  next
    case (SConsumeState h now)
    show ?thesis
    proof (cases "find (consumable h now) (db_states s)")
      case None
      then show ?thesis using assms keep SConsumeState by (auto simp: ConsumeOIDCState_def)
    next
      case (Some q)
      then have "a = AState (sr_state q)" "t = fst (ConsumeOIDCState s h now)"
        using assms(2) SConsumeState by (auto simp: ConsumeOIDCState_def)
      then show ?thesis using live_consumed [OF assms(1) Some] assms(3) keep SConsumeState by auto
    qed
  next
    case (SPurge now before)
    then show ?thesis using assms keep by (auto simp: PurgeSessionState_def live_states_def Let_def)
  qed (use assms keep untouched(3) [of c s a] in \<open>simp_all del: session_step.simps\<close>)
qed


interpretation manage: ended_rows session_step "\<lambda>s. True" live_manage n_SessionHash same_manage
  creates_manage ends_manage
  using session_step_manage by unfold_locales (auto simp: same_manage_def)

interpretation sessions: ended_rows session_step "\<lambda>s. True" live_sessions e_SessionHash same_session
  creates_session ends_session
  using session_step_session by unfold_locales (auto simp: same_session_def)

interpretation states: ended_rows session_step states_ok live_states t_StateHash "(=)"
  creates_state ends_state
  using session_step_state states_ok_step by unfold_locales auto


section \<open>Properties of sessions\<close>

lemma empty_live:
  "live_manage empty_db = {}" "live_sessions empty_db = {}" "live_states empty_db = {}" "states_ok empty_db"
  by (simp_all add: empty_db_def live_manage_def live_sessions_def live_states_def states_ok_def)

lemma creates_manage_SomeD: "creates_manage e = Some n \<Longrightarrow> e = (SCreateManage n, AOk)"
  by (cases e rule: creates_manage.cases) simp_all

lemma creates_state_SomeD: "creates_state e = Some t \<Longrightarrow> e = (SCreateState t, AOk)"
  by (cases e rule: creates_state.cases) simp_all

lemma answered_live:
  "snd (session_step s (SGetManage h now)) = AManage n \<Longrightarrow>
     n \<in> live_manage s \<and> n_SessionHash n = h \<and> now < n_ExpiresAt n"
  "snd (session_step s (SGetSession h now)) = ASession e \<Longrightarrow>
     e \<in> live_sessions s \<and> e_SessionHash e = h \<and> now < e_ExpiresAt e"
  "snd (session_step s (SConsumeState h now)) = AState t \<Longrightarrow>
     t \<in> live_states s \<and> t_StateHash t = h \<and> now < t_ExpiresAt t"
  by (auto simp: session_defs live_manage_def live_sessions_def live_states_def consumable_def find_Some_iff
      split: option.splits)

text \<open>
  C22: A manage session is only ever handed out for the life it was created with. In every history
  of the session tables, a successful \<open>GetManageSession\<close> returns a session that was stored under
  this hash with the same credential, secret and expiry, that has not expired, and whose hash has
  not been revoked since it was stored.
\<close>

theorem manage_session_authentic:
  assumes "session_trace ops = pre @ (SGetManage h now, AManage n) # post"
  shows "n_SessionHash n = h \<and> now < n_ExpiresAt n \<and>
    (\<exists>xs n0 ys. pre = xs @ (SCreateManage n0, AOk) # ys \<and> same_manage n0 n \<and>
       (\<forall>at a. (SRevokeManage h at, a) \<notin> set ys))"
proof -
  note tr = assms [unfolded session_trace_def]
  obtain bs where bs: "snd (session_step (after session_step empty_db bs) (SGetManage h now)) = AManage n"
    using trace_split [OF tr] by blast
  obtain xs e ys n0 where o: "pre = xs @ e # ys" "creates_manage e = Some n0" "same_manage n0 n"
      "\<forall>d \<in> set ys. ends_manage d \<noteq> Some (n_SessionHash n)"
    using manage.answered_origin [OF _ empty_live(1) tr] answered_live(1) by blast
  moreover have "e = (SCreateManage n0, AOk)" using o(2) by (rule creates_manage_SomeD)
  moreover have "(SRevokeManage h at, a) \<notin> set ys" for at a
    using o(4) answered_live(1) [OF bs] by fastforce
  ultimately show ?thesis using answered_live(1) [OF bs] by blast
qed

definition example_session :: manage_session where
  "example_session = \<lparr>n_SessionHash = ''h'', n_CredentialHash = ''c'', n_CredentialID = ''t1'',
     n_AuthMethod = ''token'', n_CSRFSecret = ''x'', n_CreatedAt = 0, n_ExpiresAt = 100 * minute,
     n_LastSeenAt = 0, n_RevokedAt = None\<rparr>"

theorem manage_session_authentic_witness:
  "\<exists>xs n0 ys. session_trace [SCreateManage example_session, SGetManage ''h'' (2 * minute), SRevokeManage ''h'' 9] !
     1 = (SGetManage ''h'' (2 * minute), AManage example_session) \<and>
     [(SCreateManage example_session, AOk)] = xs @ (SCreateManage n0, AOk) # ys \<and> same_manage n0 example_session"
proof -
  have t: "session_trace [SCreateManage example_session, SGetManage ''h'' (2 * minute), SRevokeManage ''h'' 9] =
      [(SCreateManage example_session, AOk)] @ (SGetManage ''h'' (2 * minute), AManage example_session) #
      [(SRevokeManage ''h'' 9, AOk)]"
    by code_simp
  show ?thesis using manage_session_authentic [OF t] unfolding t by auto
qed

text \<open>
  C21: A login state is used at most once. In every history, a successful \<open>ConsumeOIDCState\<close>
  returns exactly the state that was stored under this hash, before it expired, and no other
  consumption of the hash succeeded since it was stored.
\<close>

theorem oidc_state_single_use:
  assumes "session_trace ops = pre @ (SConsumeState h now, AState t) # post"
  shows "t_StateHash t = h \<and> now < t_ExpiresAt t \<and>
    (\<exists>xs ys. pre = xs @ (SCreateState t, AOk) # ys \<and>
       (\<forall>now' t'. (SConsumeState h now', AState t') \<notin> set ys))"
proof -
  note tr = assms [unfolded session_trace_def]
  obtain bs where bs: "snd (session_step (after session_step empty_db bs) (SConsumeState h now)) = AState t"
    using trace_split [OF tr] by blast
  obtain xs e ys where o: "pre = xs @ e # ys" "creates_state e = Some t"
      "\<forall>d \<in> set ys. ends_state d \<noteq> Some (t_StateHash t)"
    using states.answered_origin [OF empty_live(4,3) tr] answered_live(3) by blast
  moreover have "e = (SCreateState t, AOk)" using o(2) by (rule creates_state_SomeD)
  moreover have "(SConsumeState h now', AState t') \<notin> set ys" for now' t'
    using o(3) answered_live(3) [OF bs] by fastforce
  ultimately show ?thesis using answered_live(3) [OF bs] by blast
qed

definition example_state :: oidc_state where
  "example_state = \<lparr>t_StateHash = ''s'', t_Nonce = ''n'', t_PKCEVerifier = ''v'', t_NextPath = ''/'',
     t_CreatedAt = 0, t_ExpiresAt = 100\<rparr>"

theorem oidc_state_single_use_witness:
  "\<exists>xs ys. [(SCreateState example_state, AOk)] = xs @ (SCreateState example_state, AOk) # ys \<and>
     (\<forall>now t. (SConsumeState ''s'' now, AState t) \<notin> set ys)"
proof -
  have "session_trace [SCreateState example_state, SConsumeState ''s'' 5, SConsumeState ''s'' 6] =
      [(SCreateState example_state, AOk)] @ (SConsumeState ''s'' 5, AState example_state) #
      [(SConsumeState ''s'' 6, AFailed)]"
    by code_simp
  from oidc_state_single_use [OF this] show ?thesis by blast
qed


section \<open>Leases\<close>

datatype lease_op =
    LAcquire time string string time
  | LRelease string string

fun lease_step :: "db \<Rightarrow> lease_op \<Rightarrow> db \<times> bool" where
  "lease_step s (LAcquire now name holder duration) = AcquireLease s now name holder duration"
| "lease_step s (LRelease name holder) = (ReleaseLease s name holder, True)"

fun lease_actor :: "lease_op \<Rightarrow> string \<times> string" where
  "lease_actor (LAcquire now name holder duration) = (name, holder)"
| "lease_actor (LRelease name holder) = (name, holder)"

fun lease_time :: "lease_op \<Rightarrow> time option" where
  "lease_time (LAcquire now name holder duration) = Some now"
| "lease_time (LRelease name holder) = None"

text \<open>The holder of a lease and the end of the lease.\<close>

definition lease_of :: "db \<Rightarrow> string \<Rightarrow> (string \<times> time) option" where
  "lease_of s name = map_option (\<lambda>l. (lr_holder l, lr_lease_until l)) (find (\<lambda>l. lr_name l = name) (db_leases s))"

lemma lease_of_acquire:
  "snd (AcquireLease s now name holder d) =
     (case lease_of s name of None \<Rightarrow> True | Some (h, u) \<Rightarrow> u \<le> now \<or> h = holder)"
  "lease_of (fst (AcquireLease s now name holder d)) n =
     (if n = name \<and> snd (AcquireLease s now name holder d) then Some (holder, now + d) else lease_of s n)"
  by (auto simp: AcquireLease_def lease_of_def find_append find_update_where
      dest!: find_SomeD split: option.split)

lemma lease_of_release:
  "lease_of s n = Some (h, u) \<Longrightarrow> (n, h) \<noteq> (name, holder) \<Longrightarrow> lease_of (ReleaseLease s name holder) n = Some (h, u)"
  by (auto simp: ReleaseLease_def lease_of_def dest: find_SomeD find_delete_where
        [of _ _ _ "\<lambda>l. lr_name l = name \<and> lr_holder l = holder"])

text \<open>A lease in force survives every operation of others before its end.\<close>

lemma lease_step_held:
  assumes "lease_of s n = Some (h, u)" "lease_actor c \<noteq> (n, h)" "\<forall>t. lease_time c = Some t \<longrightarrow> t < u"
  shows "lease_of (fst (lease_step s c)) n = Some (h, u)"
  using assms by (cases c) (auto simp: lease_of_acquire lease_of_release)

lemma lease_held:
  assumes "lease_of s n = Some (h, u)" "\<forall>c \<in> set cs. lease_actor c \<noteq> (n, h) \<and> (\<forall>t. lease_time c = Some t \<longrightarrow> t < u)"
  shows "lease_of (after lease_step s cs) n = Some (h, u)"
  using assms by (induction cs arbitrary: s) (auto intro: lease_step_held)

text \<open>
  C23: One replica at a time holds a lease. In every history of the lease table, a replica that has
  acquired a lease for a duration and has not touched it since keeps it: while the clock has not
  reached the end, every attempt of another holder is refused.
\<close>

theorem lease_exclusive:
  assumes "ops = pre @ LAcquire t n h d # mid @ LAcquire t' n h' d' # post"
    and "map snd (trace lease_step empty_db ops) ! length pre"
    and "\<forall>c \<in> set mid. lease_actor c \<noteq> (n, h) \<and> (\<forall>x. lease_time c = Some x \<longrightarrow> x < t + d)"
    and "h' \<noteq> h" and "t' < t + d"
  shows "\<not> map snd (trace lease_step empty_db ops) ! (length pre + 1 + length mid)"
proof -
  let ?s = "after lease_step empty_db pre"
  let ?s1 = "fst (AcquireLease ?s t n h d)"
  have got: "snd (AcquireLease ?s t n h d)"
    using assms(2) unfolding assms(1) by (simp add: trace_append nth_append split: prod.splits)
  have "lease_of (after lease_step ?s1 mid) n = Some (h, t + d)"
    by (rule lease_held) (simp_all add: lease_of_acquire(2) got assms(3))
  then have "\<not> snd (AcquireLease (after lease_step ?s1 mid) t' n h' d')"
    using assms(4,5) by (simp add: lease_of_acquire(1))
  moreover have "trace lease_step empty_db ops ! (length pre + 1 + length mid) =
      (LAcquire t' n h' d', snd (AcquireLease (after lease_step ?s1 mid) t' n h' d'))"
    unfolding assms(1) by (simp add: trace_append nth_append split: prod.splits)
  ultimately show ?thesis using assms(1) by simp
qed

theorem lease_exclusive_witness:
  "\<not> map snd (trace lease_step empty_db
        ([LAcquire 0 ''cleanup'' ''a'' 5, LAcquire 1 ''cleanup'' ''b'' 9, LRelease ''cleanup'' ''b''] @
         [LAcquire 4 ''cleanup'' ''b'' 9])) ! 3"
  using lease_exclusive [of _ "[]" 0 "''cleanup''" "''a''" 5
      "[LAcquire 1 ''cleanup'' ''b'' 9, LRelease ''cleanup'' ''b'']" 4 "''b''" 9 "[]", OF refl]
  by (simp add: AcquireLease_def empty_db_def)

section \<open>Rate limits of all replicas\<close>

definition sql_call :: "db \<Rightarrow> limit_call \<Rightarrow> db \<times> bool" where
  "sql_call s c =
     map_prod (\<lambda>t. t) (\<lambda>r. r = Inr True) (ConsumeRateLimit s (lc_key c) (lc_limit c) (lc_window c) (lc_now c))"

text \<open>
  Each key has one limit, given by \<open>lim\<close>: a row counts attempts up to one more than the limit, a
  bucket the accepted calls.
\<close>

definition sql_bucket :: "(string \<Rightarrow> int) \<Rightarrow> db \<Rightarrow> string \<Rightarrow> bucket" where
  "sql_bucket lim s k =
     map_option (\<lambda>x. (xr_reset_at x, min (xr_request_count x) (max 1 (lim k))))
       (find (\<lambda>x. xr_limiter_key x = k) (db_rates s))"

definition rates_ok :: "db \<Rightarrow> bool" where
  "rates_ok s = (\<forall>x \<in> set (db_rates s). 1 \<le> xr_request_count x)"

definition sql_served :: "(string \<Rightarrow> int) \<Rightarrow> limit_call \<Rightarrow> bool" where
  "sql_served lim c =
     (trim_space (lc_key c) \<noteq> [] \<and> 0 < lc_limit c \<and> 0 < lc_window c \<and> lc_limit c = lim (lc_key c))"

interpretation sql_limit: fixed_window sql_call "sql_bucket lim" rates_ok "\<lambda>s c. True" "sql_served lim"
  for lim
proof unfold_locales
  fix s t :: db and c :: limit_call and b and k :: string
  assume inv: "rates_ok s" and "sql_served lim c"
  then have ok: "trim_space (lc_key c) \<noteq> []" "0 < lc_limit c" "0 < lc_window c" "lim (lc_key c) = lc_limit c"
    by (simp_all add: sql_served_def)
  show "rates_ok (fst (sql_call s c))"
    using inv ok by (auto simp: sql_call_def ConsumeRateLimit_def rates_ok_def insert_or_update_def Let_def)
  assume call: "sql_call s c = (t, b)"
  show "window_allow (lc_limit c) (lc_window c) (lc_now c) (sql_bucket lim s (lc_key c)) =
      (sql_bucket lim t (lc_key c), b)"
    using call ok
    by (auto simp: sql_call_def ConsumeRateLimit_def sql_bucket_def find_insert_or_update window_allow_def live_def
        Let_def split: option.splits)
  show "live (lc_now c) (sql_bucket lim t k) = live (lc_now c) (sql_bucket lim s k)" if "k \<noteq> lc_key c"
    using call ok that
    by (auto simp: sql_call_def ConsumeRateLimit_def sql_bucket_def find_insert_or_update Let_def)
next
  fix s :: db and k
  assume "rates_ok s"
  then show "counted (sql_bucket lim s k)"
    by (auto simp: counted_def sql_bucket_def rates_ok_def dest!: find_SomeD split: option.split)
qed


text \<open>
  C24: The quota of the shared limiter. Let any replicas make any calls, each key with its own
  limit. The calls of one key within a span shorter than the window are accepted at most twice the
  limit, and at most the limit when the key has no live row at the start of the span.
\<close>

theorem shared_rate_limit_quota:
  assumes "s = fst (limit_run sql_call empty_db before)" and "\<forall>c \<in> set (before @ cs). sql_served lim c"
    and "uniform k limit window cs" and "within t0 window cs" and "limit = lim k" and "0 < limit"
    and "limit_run sql_call s cs = (t, bs)"
  shows "int (accepted (answers k cs bs)) \<le> (if live t0 (sql_bucket lim s k) = None then limit else 2 * limit)"
proof -
  have "rates_ok s"
    unfolding assms(1) using assms(2) by (intro sql_limit.inv_run [of _ _ lim]) (simp_all add: rates_ok_def empty_db_def)
  moreover have "roomy sql_call (\<lambda>s c. True) s cs" by (rule roomy_True)
  ultimately show ?thesis
    using sql_limit.quota [OF _ _ assms(3,4,6,7), of lim] assms(2,5) by auto
qed

definition sql_flood :: "limit_call list" where
  "sql_flood = [\<lparr>lc_key = ''a'', lc_limit = 1, lc_window = 10, lc_now = 0\<rparr>,
                \<lparr>lc_key = ''a'', lc_limit = 1, lc_window = 10, lc_now = 9\<rparr>]"

theorem shared_rate_limit_quota_witness:
  "snd (limit_run sql_call empty_db sql_flood) = [True, False] \<and>
   int (accepted (answers ''a'' sql_flood [True, False])) \<le> 1"
proof -
  have run: "limit_run sql_call empty_db sql_flood =
      (fst (limit_run sql_call empty_db sql_flood), [True, False])" by code_simp
  have "int (accepted (answers ''a'' sql_flood [True, False])) \<le>
      (if live 0 (sql_bucket (\<lambda>_. 1) empty_db ''a'') = None then 1 else 2 * 1)"
  proof (rule shared_rate_limit_quota [OF _ _ _ _ _ _ run])
    show "empty_db = fst (limit_run sql_call empty_db [])" by simp
    show "\<forall>c \<in> set ([] @ sql_flood). sql_served (\<lambda>_. 1) c" by code_simp
    show "uniform ''a'' 1 10 sql_flood" "within 0 10 sql_flood" by code_simp+
  qed simp_all
  moreover have "sql_bucket (\<lambda>_. 1) empty_db ''a'' = None" by (simp add: sql_bucket_def empty_db_def)
  ultimately have "int (accepted (answers ''a'' sql_flood [True, False])) \<le> 1" by (simp add: live_def)
  moreover have "snd (limit_run sql_call empty_db sql_flood) = [True, False]" by (subst run) simp
  ultimately show ?thesis by blast
qed

end
