(* ===== verification/ModuleLock.thy ===== *)
theory ModuleLock
  imports Prelude
begin

text \<open>
  The per-module locks of the SQLite store (\<open>LockModule\<close> and \<open>releaseModuleLockReference\<close> of
  \<open>internal/store/sqlite.go\<close>) under concurrency. A goroutine runs in steps that the other goroutines
  may interleave: the sections under \<open>moduleLocksMu\<close>, the receive from and the send to the
  semaphore channel, and the cancellation of its context. Entries are pointers into a memory, since
  a goroutine keeps using the entry it has found while the map may change.
\<close>

section \<open>State\<close>

text \<open>The semaphore is a channel of capacity one: \<open>ml_semaphore\<close> says that it holds its token.\<close>

record module_lock =
  ml_semaphore :: bool
  ml_references :: int

record lock_store =
  ls_locks :: "(string, nat) gomap"
  ls_mem :: "nat \<Rightarrow> module_lock"
  ls_next :: nat

datatype lock_thread =
    Idle
  | Waiting string nat
  | Holding string nat
  | Leaving string nat

type_synonym lock_state = "lock_store \<times> (nat \<Rightarrow> lock_thread)"

definition lock_init :: lock_state where
  "lock_init = (\<lparr>ls_locks = [], ls_mem = (\<lambda>_. \<lparr>ml_semaphore = False, ml_references = 0\<rparr>), ls_next = 0\<rparr>,
     \<lambda>_. Idle)"

section \<open>Operations\<close>

definition module_lock_key :: "string \<Rightarrow> string \<Rightarrow> string" where
  "module_lock_key owner name = owner @ CHR 0x00 # name"

text \<open>The first section of \<open>LockModule\<close>: find or make the entry and count the reference.\<close>

definition enterModuleLock :: "lock_store \<Rightarrow> string \<Rightarrow> lock_store \<times> nat" where
  "enterModuleLock s key =
     (let (s1, e) =
        (case map_of (ls_locks s) key of
           Some e \<Rightarrow> (s, e)
         | None \<Rightarrow>
             (s\<lparr>ls_next := Suc (ls_next s),
                ls_mem := (ls_mem s)(ls_next s := \<lparr>ml_semaphore = True, ml_references = 0\<rparr>),
                ls_locks := map_set key (ls_next s) (ls_locks s)\<rparr>, ls_next s))
      in (s1\<lparr>ls_mem := (ls_mem s1)(e := (ls_mem s1 e)\<lparr>ml_references := ml_references (ls_mem s1 e) + 1\<rparr>)\<rparr>, e))"

definition releaseModuleLockReference :: "lock_store \<Rightarrow> string \<Rightarrow> nat \<Rightarrow> lock_store" where
  "releaseModuleLockReference s key e =
     (let s1 = s\<lparr>ls_mem := (ls_mem s)(e := (ls_mem s e)\<lparr>ml_references := ml_references (ls_mem s e) - 1\<rparr>)\<rparr>
      in if ml_references (ls_mem s1 e) = 0 then s1\<lparr>ls_locks := map_del key (ls_locks s1)\<rparr> else s1)"

definition set_semaphore :: "lock_store \<Rightarrow> nat \<Rightarrow> bool \<Rightarrow> lock_store" where
  "set_semaphore s e b = s\<lparr>ls_mem := (ls_mem s)(e := (ls_mem s e)\<lparr>ml_semaphore := b\<rparr>)\<rparr>"

text \<open>
  The steps of one goroutine; \<open>None\<close> is a step it cannot take now. \<open>Enter\<close> calls \<open>LockModule\<close>, \<open>Take\<close>
  receives the token, \<open>Cancel\<close> takes the branch of the cancelled context, \<open>Unlock\<close> sends the
  token back (the send would block on a full channel), and \<open>Leave\<close> drops the reference. A second
  call of the unlock function does nothing because of its \<open>sync.Once\<close>.
\<close>

datatype lock_action = Enter string string | Take | Cancel | Unlock | Leave

fun LockModule_step :: "lock_state \<Rightarrow> nat \<Rightarrow> lock_action \<Rightarrow> lock_state option" where
  "LockModule_step (s, th) g (Enter owner name) =
     (case th g of
        Idle \<Rightarrow> (case enterModuleLock s (module_lock_key owner name) of
                  (s1, e) \<Rightarrow> Some (s1, th(g := Waiting (module_lock_key owner name) e)))
      | _ \<Rightarrow> None)"
| "LockModule_step (s, th) g Take =
     (case th g of
        Waiting k e \<Rightarrow> if ml_semaphore (ls_mem s e)
                      then Some (set_semaphore s e False, th(g := Holding k e)) else None
      | _ \<Rightarrow> None)"
| "LockModule_step (s, th) g Cancel =
     (case th g of Waiting k e \<Rightarrow> Some (s, th(g := Leaving k e)) | _ \<Rightarrow> None)"
| "LockModule_step (s, th) g Unlock =
     (case th g of
        Holding k e \<Rightarrow> if ml_semaphore (ls_mem s e) then None
                      else Some (set_semaphore s e True, th(g := Leaving k e))
      | _ \<Rightarrow> None)"
| "LockModule_step (s, th) g Leave =
     (case th g of
        Leaving k e \<Rightarrow> Some (releaseModuleLockReference s k e, th(g := Idle))
      | _ \<Rightarrow> None)"

inductive lock_reachable :: "lock_state \<Rightarrow> bool" where
  init: "lock_reachable lock_init"
| step: "lock_reachable st \<Longrightarrow> LockModule_step st g a = Some st' \<Longrightarrow> lock_reachable st'"

section \<open>Invariant\<close>

text \<open>A goroutine uses entry \<open>e\<close> for key \<open>k\<close> from \<open>Enter\<close> to \<open>Leave\<close>.\<close>

fun uses :: "lock_thread \<Rightarrow> string \<Rightarrow> nat \<Rightarrow> bool" where
  "uses Idle k e = False"
| "uses (Waiting k' e') k e = (k = k' \<and> e = e')"
| "uses (Holding k' e') k e = (k = k' \<and> e = e')"
| "uses (Leaving k' e') k e = (k = k' \<and> e = e')"

definition users :: "(nat \<Rightarrow> lock_thread) \<Rightarrow> nat \<Rightarrow> nat set" where
  "users th e = {g. \<exists>k. uses (th g) k e}"

definition holders :: "(nat \<Rightarrow> lock_thread) \<Rightarrow> nat \<Rightarrow> nat set" where
  "holders th e = {g. \<exists>k. th g = Holding k e}"

definition lock_inv :: "lock_state \<Rightarrow> bool" where
  "lock_inv = (\<lambda>(s, th).
     (\<forall>e. finite (users th e)) \<and>
     (\<forall>g k e. uses (th g) k e \<longrightarrow> map_of (ls_locks s) k = Some e) \<and>
     (\<forall>k e. map_of (ls_locks s) k = Some e \<longrightarrow>
        e < ls_next s \<and> ml_references (ls_mem s e) = int (card (users th e)) \<and> users th e \<noteq> {} \<and>
        card (holders th e) = (if ml_semaphore (ls_mem s e) then 0 else 1)) \<and>
     (\<forall>k k' e. map_of (ls_locks s) k = Some e \<longrightarrow> map_of (ls_locks s) k' = Some e \<longrightarrow> k = k'))"

lemma users_upd: "users (th(g := t)) e = (if \<exists>k. uses t k e then insert g (users th e) else users th e - {g})"
  by (auto simp: users_def)

lemma holders_upd: "holders (th(g := t)) e = (if \<exists>k. t = Holding k e then insert g (holders th e) else holders th e - {g})"
  by (auto simp: holders_def)

lemma uses_upd: "uses ((th(g := t)) h) k e = (if h = g then uses t k e else uses (th h) k e)"
  by simp

lemma holders_users: "holders th e \<subseteq> users th e"
  by (auto simp: holders_def users_def)

lemma in_users: "uses (th g) k e \<Longrightarrow> g \<in> users th e"
  by (auto simp: users_def)

lemma not_holding: "th g \<noteq> Holding k e \<Longrightarrow> uses (th g) k e \<Longrightarrow> g \<notin> holders th e"
  by (cases "th g") (auto simp: holders_def)

lemma lock_invD:
  assumes "lock_inv (s, th)"
  shows "finite (users th e)" "finite (holders th e)"
    and "uses (th g) k e \<Longrightarrow> map_of (ls_locks s) k = Some e"
    and "map_of (ls_locks s) k = Some e \<Longrightarrow> e < ls_next s"
    and "map_of (ls_locks s) k = Some e \<Longrightarrow> ml_references (ls_mem s e) = int (card (users th e))"
    and "map_of (ls_locks s) k = Some e \<Longrightarrow> users th e \<noteq> {}"
    and "map_of (ls_locks s) k = Some e \<Longrightarrow> card (holders th e) = (if ml_semaphore (ls_mem s e) then 0 else 1)"
    and "map_of (ls_locks s) k = Some e \<Longrightarrow> map_of (ls_locks s) k' = Some e \<Longrightarrow> k = k'"
  using assms finite_subset [OF holders_users] unfolding lock_inv_def by simp_all

lemma user_entry:
  assumes "lock_inv (s, th)" "uses (th g) k e"
  shows "card (holders th e) = (if ml_semaphore (ls_mem s e) then 0 else 1)"
  by (rule lock_invD(7) [OF assms(1) lock_invD(3) [OF assms]])

lemma lock_inv_init: "lock_inv lock_init"
  by (simp add: lock_inv_def lock_init_def users_def)

text \<open>
  A move of one goroutine that keeps its key and entry: \<open>Take\<close>, \<open>Cancel\<close> and \<open>Unlock\<close>. What remains is
  that the token and the holders of that entry agree.
\<close>

lemma lock_inv_move:
  assumes inv: "lock_inv (s, th)" and use: "uses (th g) k e" "uses t k e"
    and sem: "card (holders (th(g := t)) e) = (if b then 0 else 1)"
  shows "lock_inv (set_semaphore s e b, th(g := t))"
proof -
  note I = lock_invD [OF inv]
  have u: "uses ((th(g := t)) h) k' e' = uses (th h) k' e'" for h k' e'
    using use by (cases t; cases "th g"; auto)
  then have us: "users (th(g := t)) e' = users th e'" for e' by (simp add: users_def)
  have h: "e' \<noteq> e \<Longrightarrow> holders (th(g := t)) e' = holders th e'" for e'
    using use by (cases t; cases "th g"; auto simp: holders_def)
  show ?thesis
    unfolding lock_inv_def split_paired_All prod.case u us
    using I sem by (auto simp: set_semaphore_def h)
qed

lemma set_semaphore_same: "ml_semaphore (ls_mem s e) = b \<Longrightarrow> set_semaphore s e b = s"
  by (cases "ls_mem s e") (auto simp: set_semaphore_def fun_upd_idem)


lemma lock_inv_take:
  assumes inv: "lock_inv (s, th)" and w: "th g = Waiting k e" and tok: "ml_semaphore (ls_mem s e)"
  shows "lock_inv (set_semaphore s e False, th(g := Holding k e))"
proof (rule lock_inv_move [OF inv, of _ k])
  note I = lock_invD [OF inv]
  have "card (holders th e) = 0" using user_entry [OF inv, of g k e] w tok by simp
  then have "holders th e = {}" using I(2) by simp
  then show "card (holders (th(g := Holding k e)) e) = (if False then 0 else 1)"
    by (simp add: holders_upd)
qed (simp_all add: w)

lemma lock_inv_cancel:
  assumes inv: "lock_inv (s, th)" and w: "th g = Waiting k e"
  shows "lock_inv (s, th(g := Leaving k e))"
proof -
  note I = lock_invD [OF inv]
  have "g \<notin> holders th e" by (rule not_holding [of _ _ k]) (simp_all add: w)
  then have "lock_inv (set_semaphore s e (ml_semaphore (ls_mem s e)), th(g := Leaving k e))"
    using user_entry [OF inv, of g k e] w by (intro lock_inv_move [OF inv, of _ k]) (simp_all add: holders_upd)
  then show ?thesis by (simp add: set_semaphore_same)
qed

text \<open>A holder finds the channel empty, so its send does not block.\<close>

lemma holder_no_token:
  assumes inv: "lock_inv (s, th)" and h: "th g = Holding k e"
  shows "\<not> ml_semaphore (ls_mem s e) \<and> holders th e = {g}"
proof -
  note I = lock_invD [OF inv]
  have g: "g \<in> holders th e" using h by (simp add: holders_def)
  moreover have c: "card (holders th e) = (if ml_semaphore (ls_mem s e) then 0 else 1)"
    by (rule user_entry [OF inv, of g k]) (simp add: h)
  moreover have "card (holders th e) \<noteq> 0" using g I(2) [of e] by auto
  ultimately have "\<not> ml_semaphore (ls_mem s e)" "card (holders th e) = 1" by (auto split: if_splits)
  with g show ?thesis by (auto simp: card_1_singleton_iff)
qed

lemma lock_inv_unlock:
  assumes inv: "lock_inv (s, th)" and h: "th g = Holding k e"
  shows "lock_inv (set_semaphore s e True, th(g := Leaving k e))"
proof (rule lock_inv_move [OF inv, of _ k])
  show "card (holders (th(g := Leaving k e)) e) = (if True then 0 else 1)"
    using holder_no_token [OF inv h] by (simp add: holders_upd)
qed (simp_all add: h)

lemma lock_inv_leave:
  assumes inv: "lock_inv (s, th)" and l: "th g = Leaving k e"
  shows "lock_inv (releaseModuleLockReference s k e, th(g := Idle))"
proof -
  note I = lock_invD [OF inv]
  let ?s = "releaseModuleLockReference s k e" and ?th = "th(g := Idle)"
  have k: "map_of (ls_locks s) k = Some e" using I(3) [of g k e] l by simp
  have g: "g \<in> users th e" by (rule in_users [of _ _ k]) (simp add: l)
  have us: "users ?th e' = (if e' = e then users th e - {g} else users th e')" for e'
    using l by (auto simp: users_def)
  have hs: "holders ?th e' = holders th e'" for e' using l by (auto simp: holders_def)
  have card: "int (card (users th e - {g})) = ml_references (ls_mem s e) - 1"
    using card.remove [OF I(1) g] I(5) [OF k] by simp
  have refs: "ml_references (ls_mem ?s e') = (if e' = e then ml_references (ls_mem s e) - 1 else ml_references (ls_mem s e'))"
      "ml_semaphore (ls_mem ?s e') = ml_semaphore (ls_mem s e')" "ls_next ?s = ls_next s" for e'
    by (simp_all add: releaseModuleLockReference_def Let_def)
  have empty: "ml_references (ls_mem s e) = 1 \<longleftrightarrow> users th e - {g} = {}"
  proof -
    have "ml_references (ls_mem s e) = 1 \<longleftrightarrow> card (users th e - {g}) = 0" using card by linarith
    then show ?thesis using I(1) [of e] by simp
  qed
  have map: "map_of (ls_locks ?s) k' = (if k' = k \<and> users th e - {g} = {} then None else map_of (ls_locks s) k')" for k'
    using empty by (simp add: releaseModuleLockReference_def Let_def)
  have uses: "uses (?th h) k' e' \<longleftrightarrow> h \<noteq> g \<and> uses (th h) k' e'" for h k' e' by simp
  show ?thesis
    unfolding lock_inv_def prod.case
  proof (intro conjI allI impI)
    fix e' show "finite (users ?th e')" using I(1) by (simp add: us)
  next
    fix h k' e'
    assume u: "uses (?th h) k' e'"
    then have "map_of (ls_locks s) k' = Some e'" "h \<noteq> g" using I(3) uses by blast+
    moreover have "k' = k \<Longrightarrow> h \<in> users th e - {g}"
      using u k \<open>h \<noteq> g\<close> calculation(1) by (auto simp: users_def)
    ultimately show "map_of (ls_locks ?s) k' = Some e'" by (auto simp: map)
  next
    fix k' e'
    assume "map_of (ls_locks ?s) k' = Some e'"
    then have m: "map_of (ls_locks s) k' = Some e'" "k' = k \<Longrightarrow> users th e - {g} \<noteq> {}"
      by (auto simp: map split: if_splits)
    then have ne: "users ?th e' \<noteq> {}" using I(6) [OF m(1)] I(8) [OF m(1), of k] k by (auto simp: us)
    then show "users ?th e' \<noteq> {}" .
    show "e' < ls_next ?s" "ml_references (ls_mem ?s e') = int (card (users ?th e'))"
        "card (holders ?th e') = (if ml_semaphore (ls_mem ?s e') then 0 else 1)"
      using I(4,5,7) [OF m(1)] card by (simp_all add: refs us hs)
  next
    fix k1 k2 e'
    assume "map_of (ls_locks ?s) k1 = Some e'" "map_of (ls_locks ?s) k2 = Some e'"
    then show "k1 = k2" using I(8) by (auto simp: map split: if_splits)
  qed
qed


text \<open>\<open>Enter\<close> on an entry of the map, the one it finds or the one it has just made.\<close>

lemma lock_inv_join:
  assumes fin: "\<And>e. finite (users th e)" and idle: "th g = Idle"
    and k: "map_of (ls_locks s) k = Some e"
    and uses: "\<And>h k e. uses (th h) k e \<Longrightarrow> map_of (ls_locks s) k = Some e"
    and entry: "\<And>k e. map_of (ls_locks s) k = Some e \<Longrightarrow> e < ls_next s \<and>
      ml_references (ls_mem s e) = int (card (users th e)) \<and>
      card (holders th e) = (if ml_semaphore (ls_mem s e) then 0 else 1)"
    and other: "\<And>k' e'. map_of (ls_locks s) k' = Some e' \<Longrightarrow> e' \<noteq> e \<Longrightarrow> users th e' \<noteq> {}"
    and inj: "\<And>k k' e. map_of (ls_locks s) k = Some e \<Longrightarrow> map_of (ls_locks s) k' = Some e \<Longrightarrow> k = k'"
  shows "lock_inv (s\<lparr>ls_mem := (ls_mem s)(e := (ls_mem s e)\<lparr>ml_references := ml_references (ls_mem s e) + 1\<rparr>)\<rparr>,
    th(g := Waiting k e))"
proof -
  let ?th = "th(g := Waiting k e)"
  have g: "g \<notin> users th e" by (simp add: users_def idle)
  have us: "users ?th e' = (if e' = e then insert g (users th e) else users th e')" for e'
    using idle by (auto simp: users_def)
  have hs: "holders ?th e' = holders th e'" for e' using idle by (auto simp: holders_def)
  show ?thesis
    unfolding lock_inv_def prod.case
  proof (intro conjI allI impI)
    fix e' show "finite (users ?th e')" using fin by (simp add: us)
  next
    fix h k' e'
    assume "uses (?th h) k' e'"
    then show "map_of (ls_locks (s\<lparr>ls_mem := (ls_mem s)(e := (ls_mem s e)\<lparr>ml_references := ml_references (ls_mem s e) + 1\<rparr>)\<rparr>)) k' = Some e'"
      using uses [of h k' e'] k by (auto split: if_splits)
  next
    fix k1 k2 e'
    assume "map_of (ls_locks (s\<lparr>ls_mem := (ls_mem s)(e := (ls_mem s e)\<lparr>ml_references := ml_references (ls_mem s e) + 1\<rparr>)\<rparr>)) k1 = Some e'"
      "map_of (ls_locks (s\<lparr>ls_mem := (ls_mem s)(e := (ls_mem s e)\<lparr>ml_references := ml_references (ls_mem s e) + 1\<rparr>)\<rparr>)) k2 = Some e'"
    then show "k1 = k2" using inj by simp
  qed (use entry other fin g in \<open>auto simp: us hs\<close>)
qed

lemma lock_inv_enter:
  assumes inv: "lock_inv (s, th)" and idle: "th g = Idle" and en: "enterModuleLock s k = (s', e)"
  shows "lock_inv (s', th(g := Waiting k e))"
proof (cases "map_of (ls_locks s) k")
  case (Some e')
  note I = lock_invD [OF inv]
  have "lock_inv (s\<lparr>ls_mem := (ls_mem s)(e' := (ls_mem s e')\<lparr>ml_references := ml_references (ls_mem s e') + 1\<rparr>)\<rparr>,
      th(g := Waiting k e'))"
    using I(4,5,7) by (intro lock_inv_join) (use I(1) I(3) I(6) I(8) idle Some in \<open>blast+\<close>)
  then show ?thesis using en Some by (auto simp: enterModuleLock_def)
next
  case None
  note I = lock_invD [OF inv]
  let ?n = "ls_next s"
  let ?s = "s\<lparr>ls_next := Suc ?n, ls_mem := (ls_mem s)(?n := \<lparr>ml_semaphore = True, ml_references = 0\<rparr>),
      ls_locks := map_set k ?n (ls_locks s)\<rparr>"
  have fresh: "map_of (ls_locks s) k' \<noteq> Some ?n" for k' using I(4) by blast
  then have u: "users th ?n = {}" using I(3) by (auto simp: users_def)
  then have h: "holders th ?n = {}" using holders_users [of th ?n] by simp
  have m: "map_of (ls_locks ?s) k' = Some e' \<longleftrightarrow> (if k' = k then e' = ?n else map_of (ls_locks s) k' = Some e')" for k' e'
    by auto
  have "lock_inv (?s\<lparr>ls_mem := (ls_mem ?s)(?n := (ls_mem ?s ?n)\<lparr>ml_references := ml_references (ls_mem ?s ?n) + 1\<rparr>)\<rparr>,
      th(g := Waiting k ?n))"
  proof (rule lock_inv_join)
    show "finite (users th e)" "th g = Idle" for e using I(1) idle by simp_all
    show "map_of (ls_locks ?s) k = Some ?n" by simp
    show "map_of (ls_locks ?s) k' = Some e'" if "uses (th h) k' e'" for h k' e'
      using I(3) [OF that] None unfolding m by auto
    show "e' < ls_next ?s \<and> ml_references (ls_mem ?s e') = int (card (users th e')) \<and>
        card (holders th e') = (if ml_semaphore (ls_mem ?s e') then 0 else 1)"
      if "map_of (ls_locks ?s) k' = Some e'" for k' e'
      using that fresh [of k'] I(4,5,7) [of k' e'] unfolding m by (auto simp: u h split: if_splits)
    show "users th e' \<noteq> {}" if "map_of (ls_locks ?s) k' = Some e'" "e' \<noteq> ?n" for k' e'
      using that I(6) unfolding m by (auto split: if_splits)
    show "k1 = k2" if "map_of (ls_locks ?s) k1 = Some e'" "map_of (ls_locks ?s) k2 = Some e'" for k1 k2 e'
      using that fresh I(8) unfolding m by (auto split: if_splits)
  qed
  then show ?thesis using en None by (auto simp: enterModuleLock_def Let_def)
qed

lemma lock_inv_step: "lock_inv st \<Longrightarrow> LockModule_step st g a = Some st' \<Longrightarrow> lock_inv st'"
  by (cases st; cases a)
     (auto split: lock_thread.splits prod.splits if_splits
       intro: lock_inv_enter lock_inv_take lock_inv_cancel lock_inv_unlock lock_inv_leave)

lemma lock_reachable_inv: "lock_reachable st \<Longrightarrow> lock_inv st"
  by (induction rule: lock_reachable.induct) (auto intro: lock_inv_init lock_inv_step)

section \<open>Properties\<close>

lemma module_lock_key_inj:
  assumes "CHR 0x00 \<notin> set o1" "CHR 0x00 \<notin> set o2"
  shows "module_lock_key o1 n1 = module_lock_key o2 n2 \<longleftrightarrow> o1 = o2 \<and> n1 = n2"
  using assms by (induction o1 arbitrary: o2) (force simp: module_lock_key_def Cons_eq_append_conv append_eq_Cons_conv)+

fun lock_run :: "lock_state \<Rightarrow> (nat \<times> lock_action) list \<Rightarrow> lock_state option" where
  "lock_run st [] = Some st"
| "lock_run st ((g, a) # as) = (case LockModule_step st g a of None \<Rightarrow> None | Some st' \<Rightarrow> lock_run st' as)"

lemma lock_run_reachable: "lock_reachable st \<Longrightarrow> lock_run st as = Some st' \<Longrightarrow> lock_reachable st'"
  by (induction st as rule: lock_run.induct) (auto split: option.splits intro: lock_reachable.step)

text \<open>
  C19: At most one goroutine holds the lock of a module, however the calls of \<open>LockModule\<close>, their
  cancellations and the unlocks of all goroutines interleave, even though entries are removed from
  the map and made anew.
\<close>

theorem module_lock_mutual_exclusion:
  assumes "lock_reachable (s, th)" and "CHR 0x00 \<notin> set owner" and "CHR 0x00 \<notin> set owner'"
    and "th g1 = Holding (module_lock_key owner name) e1" and "th g2 = Holding (module_lock_key owner' name') e2"
    and "g1 \<noteq> g2"
  shows "(owner, name) \<noteq> (owner', name')"
proof
  assume "(owner, name) = (owner', name')"
  then obtain k where k: "th g1 = Holding k e1" "th g2 = Holding k e2" using assms(4,5) by blast
  note inv = lock_reachable_inv [OF assms(1)]
  have "e1 = e2" using lock_invD(3) [OF inv, of g1 k e1] lock_invD(3) [OF inv, of g2 k e2] k by simp
  then show False using holder_no_token [OF inv k(1)] k(2) assms(6) by (auto simp: holders_def)
qed

definition lock_example :: "(nat \<times> lock_action) list" where
  "lock_example = [(1, Enter ''a'' ''x''), (2, Enter ''a'' ''x''), (3, Enter ''a'' ''y''), (1, Take), (3, Take)]"

lemma lock_example_state:
  "\<exists>s th. lock_run lock_init lock_example = Some (s, th) \<and> th 1 = Holding (module_lock_key ''a'' ''x'') 0 \<and>
     th 2 = Waiting (module_lock_key ''a'' ''x'') 0 \<and> th 3 = Holding (module_lock_key ''a'' ''y'') 1"
  by (simp add: lock_example_def lock_init_def enterModuleLock_def set_semaphore_def module_lock_key_def)

theorem module_lock_mutual_exclusion_witness:
  "\<exists>s th. lock_run lock_init lock_example = Some (s, th) \<and> th 1 = Holding (module_lock_key ''a'' ''x'') 0 \<and>
     th 3 = Holding (module_lock_key ''a'' ''y'') 1 \<and> (''a'', ''x'') \<noteq> (''a'', ''y'')"
proof -
  obtain s th where r: "lock_run lock_init lock_example = Some (s, th)"
      "th 1 = Holding (module_lock_key ''a'' ''x'') 0" "th 3 = Holding (module_lock_key ''a'' ''y'') 1"
    using lock_example_state by blast
  have reach: "lock_reachable (s, th)" by (rule lock_run_reachable [OF lock_reachable.init r(1)])
  have "(''a'', ''x'') \<noteq> (''a'', ''y'')"
    by (rule module_lock_mutual_exclusion [OF reach _ _ r(2,3)]) simp_all
  with r show ?thesis by blast
qed

text \<open>
  C20: The locks are live and leave nothing behind. In every reachable state a goroutine that waits
  for a module nobody holds can take its lock at once; a holder can always unlock, that is, its send
  to the channel does not block; and when no goroutine is inside, the map of locks is empty.
\<close>

theorem module_lock_progress:
  assumes "lock_reachable (s, th)"
  shows "(\<forall>g k e. th g = Waiting k e \<longrightarrow> (\<forall>h e'. th h \<noteq> Holding k e') \<longrightarrow> LockModule_step (s, th) g Take \<noteq> None) \<and>
    (\<forall>g k e. th g = Holding k e \<longrightarrow> LockModule_step (s, th) g Unlock \<noteq> None) \<and>
    ((\<forall>g. th g = Idle) \<longrightarrow> ls_locks s = [])"
proof (intro conjI allI impI)
  note inv = lock_reachable_inv [OF assms]
  fix g k e
  assume w: "th g = Waiting k e" and free: "\<forall>h e'. th h \<noteq> Holding k e'"
  have k: "map_of (ls_locks s) k = Some e" using lock_invD(3) [OF inv, of g k e] w by simp
  have "holders th e = {}"
  proof (rule ccontr)
    assume "holders th e \<noteq> {}"
    then obtain h k' where h: "th h = Holding k' e" by (auto simp: holders_def)
    then have "map_of (ls_locks s) k' = Some e" using lock_invD(3) [OF inv, of h k' e] by simp
    then have "k' = k" using lock_invD(8) [OF inv _ k] by blast
    with h free show False by blast
  qed
  then have "ml_semaphore (ls_mem s e)" using lock_invD(7) [OF inv k] by (auto split: if_splits)
  then show "LockModule_step (s, th) g Take \<noteq> None" by (simp add: w)
next
  fix g k e
  assume "th g = Holding k e"
  then show "LockModule_step (s, th) g Unlock \<noteq> None"
    using holder_no_token [OF lock_reachable_inv [OF assms]] by simp
next
  assume idle: "\<forall>g. th g = Idle"
  have "map_of (ls_locks s) k = None" for k
  proof (rule ccontr)
    assume "map_of (ls_locks s) k \<noteq> None"
    then obtain e where "map_of (ls_locks s) k = Some e" by blast
    then have "users th e \<noteq> {}" by (rule lock_invD(6) [OF lock_reachable_inv [OF assms]])
    then show False by (simp add: users_def idle)
  qed
  then show "ls_locks s = []" by (metis map_of_eq_empty_iff ext)
qed

theorem module_lock_progress_witness:
  "\<exists>s th. lock_run lock_init (lock_example @ [(1, Unlock)]) = Some (s, th) \<and> LockModule_step (s, th) 2 Take \<noteq> None"
proof -
  let ?as = "lock_example @ [(1, Unlock)]"
  have "\<exists>s th. lock_run lock_init ?as = Some (s, th) \<and> th 2 = Waiting (module_lock_key ''a'' ''x'') 0 \<and>
      (\<forall>h e'. th h \<noteq> Holding (module_lock_key ''a'' ''x'') e')"
    by (simp add: lock_example_def lock_init_def enterModuleLock_def set_semaphore_def module_lock_key_def)
  then obtain s th where r: "lock_run lock_init ?as = Some (s, th)" "th 2 = Waiting (module_lock_key ''a'' ''x'') 0"
      "\<forall>h e'. th h \<noteq> Holding (module_lock_key ''a'' ''x'') e'"
    by blast
  have "lock_reachable (s, th)" by (rule lock_run_reachable [OF lock_reachable.init r(1)])
  from module_lock_progress [OF this] r show ?thesis by blast
qed

end
