(* ===== verification/Identity.thy ===== *)
theory Identity
  imports Prelude
begin

text \<open>
  Names of owners and modules (\<open>internal/domain/module_identity.go\<close>). Go's regular expressions match
  bytes here: both patterns are anchored, non-empty repetitions of an ASCII class.
\<close>

definition is_lower :: "char \<Rightarrow> bool" where
  "is_lower c = (CHR ''a'' \<le> c \<and> c \<le> CHR ''z'')"

definition is_upper :: "char \<Rightarrow> bool" where
  "is_upper c = (CHR ''A'' \<le> c \<and> c \<le> CHR ''Z'')"

definition ValidModuleOwner :: "string \<Rightarrow> bool" where
  "ValidModuleOwner value = (value \<noteq> [] \<and> (\<forall>c \<in> set value. is_upper c \<or> is_lower c \<or> is_digit c))"

definition ValidModuleName :: "string \<Rightarrow> bool" where
  "ValidModuleName value = (value \<noteq> [] \<and> (\<forall>c \<in> set value. is_lower c \<or> is_digit c \<or> c = CHR ''_''))"

lemma class_chars:
  "is_lower c \<Longrightarrow> graphic c" "is_upper c \<Longrightarrow> graphic c" "is_digit c \<Longrightarrow> graphic c"
  by (auto simp: is_lower_def is_upper_def is_digit_bounds graphic_def less_eq_char_def)

lemma owner_trimmed: "ValidModuleOwner v \<Longrightarrow> trim_space v = v"
  by (rule trim_space_graphic) (auto simp: ValidModuleOwner_def intro: class_chars)

text \<open>Lower case of the ASCII letters, the instance of \<open>strings.ToLower\<close> on ASCII text.\<close>

definition lower_char :: "char \<Rightarrow> char" where
  "lower_char c = (if is_upper c then char_of (of_char c + 32 :: nat) else c)"

definition ascii_to_lower :: "string \<Rightarrow> string" where
  "ascii_to_lower = map lower_char"

end
