(* ===== verification/Auth.thy ===== *)
theory Auth
  imports Identity
begin

text \<open>
  Access control (\<open>internal/auth/auth.go\<close>, \<open>internal/auth/tokens.go\<close>): the authorizer that is built
  from the team configurations, and the principals it recognises. A Go set \<open>map[string]struct{}\<close> is a
  set of strings. \<open>strings.ToLower\<close> (the tables of Unicode), the keyed digest of a token
  (HMAC-SHA256) and the clock are the fields of \<open>auth_env\<close>.
\<close>

record auth_env =
  ae_lower :: "string \<Rightarrow> string"
  ae_now :: time

section \<open>Access tokens\<close>

record access_token =
  at_ID :: string
  at_Prefix :: string
  at_Digest :: string
  at_Description :: string
  at_CreatedAt :: time
  at_ExpiresAt :: "time option"
  at_RevokedAt :: "time option"
  at_LastUsedAt :: "time option"

definition Active :: "access_token \<Rightarrow> time \<Rightarrow> bool" where
  "Active t now =
     (at_Digest t \<noteq> [] \<and> at_RevokedAt t = None \<and>
      (case at_ExpiresAt t of None \<Rightarrow> True | Some e \<Rightarrow> now < e))"

definition minAccessTokenPepperBytes :: nat where "minAccessTokenPepperBytes = 32"

text \<open>A hasher is the digest function of its key; \<open>None\<close> is the nil hasher.\<close>

type_synonym token_hasher = "(string \<Rightarrow> string) option"

definition NewTokenHasher :: "(string \<Rightarrow> string \<Rightarrow> string) \<Rightarrow> string \<Rightarrow> string + token_hasher" where
  "NewTokenHasher hmac pepper =
     (if length (trim_space pepper) < minAccessTokenPepperBytes
      then Inl ''access token pepper must contain at least 32 bytes''
      else Inr (Some (hmac (trim_space pepper))))"

definition Digest :: "token_hasher \<Rightarrow> string \<Rightarrow> string" where
  "Digest h token = (case h of None \<Rightarrow> [] | Some f \<Rightarrow> f token)"

definition RecordToken :: "token_hasher \<Rightarrow> string \<Rightarrow> access_token \<Rightarrow> string + access_token" where
  "RecordToken h raw record =
     (case h of
        None \<Rightarrow> Inl ''access token hasher is not configured''
      | Some _ \<Rightarrow>
          if trim_space raw = [] then Inl ''access token is required''
          else Inr (record\<lparr>at_Digest := Digest h (trim_space raw)\<rparr>))"

section \<open>Configurations and principals\<close>

record team_config =
  tc_Team :: string
  tc_ReadTokens :: "string list"
  tc_PublishTokens :: "string list"
  tc_AdminTokens :: "string list"
  tc_PublishOwners :: "string list"
  tc_OIDCEmails :: "string list"
  tc_OIDCSubjects :: "string list"
  tc_OIDCDomains :: "string list"
  tc_OIDCGroups :: "string list"
  tc_OIDCTeamAdminEmails :: "string list"
  tc_OIDCTeamAdminGroups :: "string list"
  tc_OIDCAdminEmails :: "string list"
  tc_OIDCAdminSubjects :: "string list"
  tc_OIDCAdminGroups :: "string list"
  tc_ReadTokenRecords :: "access_token list"
  tc_PublishTokenRecords :: "access_token list"

definition empty_config :: team_config where
  "empty_config = \<lparr>tc_Team = [], tc_ReadTokens = [], tc_PublishTokens = [], tc_AdminTokens = [],
     tc_PublishOwners = [], tc_OIDCEmails = [], tc_OIDCSubjects = [], tc_OIDCDomains = [],
     tc_OIDCGroups = [], tc_OIDCTeamAdminEmails = [], tc_OIDCTeamAdminGroups = [],
     tc_OIDCAdminEmails = [], tc_OIDCAdminSubjects = [], tc_OIDCAdminGroups = [],
     tc_ReadTokenRecords = [], tc_PublishTokenRecords = []\<rparr>"

definition GlobalAdminTeam :: string where "GlobalAdminTeam = ''platform-admin''"
definition runtimeAdminTeam :: string where "runtimeAdminTeam = ''bootstrap-admin''"

record principal =
  p_TokenID :: string
  p_TokenName :: string
  p_TokenRole :: string
  p_Team :: string
  p_CanRead :: bool
  p_CanPublish :: bool
  p_CanManageTeam :: bool
  p_CanAdmin :: bool
  p_PublishOwners :: "string set"
  p_ManagedTeams :: "string set"

definition no_principal :: principal where
  "no_principal = \<lparr>p_TokenID = [], p_TokenName = [], p_TokenRole = [], p_Team = [], p_CanRead = False,
     p_CanPublish = False, p_CanManageTeam = False, p_CanAdmin = False, p_PublishOwners = {},
     p_ManagedTeams = {}\<rparr>"

definition CanDeleteOwner :: "principal \<Rightarrow> string \<Rightarrow> bool" where
  "CanDeleteOwner p owner =
     (if p_CanAdmin p then True
      else if \<not> p_CanManageTeam p then False
      else if p_ManagedTeams p \<noteq> {} then owner \<in> p_ManagedTeams p
      else p_Team p = owner)"

definition CanPublishOwner :: "principal \<Rightarrow> string \<Rightarrow> bool" where
  "CanPublishOwner p owner = (p_CanPublish p \<and> owner \<in> p_PublishOwners p)"

section \<open>Normal forms of identities\<close>

definition normalizeEmail :: "auth_env \<Rightarrow> string \<Rightarrow> string" where
  "normalizeEmail v email = ae_lower v (trim_space email)"

definition normalizeDomain :: "auth_env \<Rightarrow> string \<Rightarrow> string" where
  "normalizeDomain v value = trim_prefix (ae_lower v (trim_space value)) ''@''"

definition normalizeGroup :: "auth_env \<Rightarrow> string \<Rightarrow> string" where
  "normalizeGroup v value = ae_lower v (trim_space value)"

definition EmailDomain :: "auth_env \<Rightarrow> string \<Rightarrow> string" where
  "EmailDomain v email = (case cut (CHR ''@'') email of (_, d, ok) \<Rightarrow> if ok then normalizeDomain v d else [])"

section \<open>Merging principals\<close>

definition mergeStringSets :: "string set \<Rightarrow> string set \<Rightarrow> string set" where
  "mergeStringSets left right = left \<union> right"

definition mergePrincipals :: "principal \<Rightarrow> principal \<Rightarrow> principal" where
  "mergePrincipals left right =
     left\<lparr>p_CanRead := p_CanRead left \<or> p_CanRead right,
          p_CanPublish := p_CanPublish left \<or> p_CanPublish right,
          p_CanManageTeam := p_CanManageTeam left \<or> p_CanManageTeam right,
          p_CanAdmin := p_CanAdmin left \<or> p_CanAdmin right,
          p_PublishOwners := mergeStringSets (p_PublishOwners left) (p_PublishOwners right),
          p_ManagedTeams := mergeStringSets (p_ManagedTeams left) (p_ManagedTeams right),
          p_Team := (if p_CanAdmin right \<and> \<not> p_CanAdmin left then p_Team right else p_Team left)\<rparr>"

text \<open>The loop over the set; its result does not depend on the order unless the set holds the empty text.\<close>

definition firstSortedSetValue :: "string set \<Rightarrow> string" where
  "firstSortedSetValue values =
     fold (\<lambda>value first. if first = [] \<or> value < first then value else first) (sorted_list_of_set values) []"

definition effectivePrincipalTeam :: "principal \<Rightarrow> string" where
  "effectivePrincipalTeam p =
     (if p_CanAdmin p then GlobalAdminTeam
      else if p_CanManageTeam p then firstSortedSetValue (p_ManagedTeams p)
      else p_Team p)"

section \<open>Checks of a configuration\<close>

datatype auth_error =
    HasherRequired
  | TeamRequired
  | TeamInvalid string
  | TeamCaseConflict string string
  | ReservedForGlobalAdmin
  | AdminMappingsReserved
  | SpaceInvalid string
  | TokenReused string string

definition IsGlobalAdminConfig :: "team_config \<Rightarrow> bool" where
  "IsGlobalAdminConfig cfg = (trim_space (tc_Team cfg) = GlobalAdminTeam)"

definition isRuntimeAdminConfig :: "team_config \<Rightarrow> bool" where
  "isRuntimeAdminConfig cfg = (trim_space (tc_Team cfg) = runtimeAdminTeam \<and> tc_AdminTokens cfg \<noteq> [])"

definition validateTeamConfigRole :: "team_config \<Rightarrow> auth_error option" where
  "validateTeamConfigRole cfg =
     (if IsGlobalAdminConfig cfg then
        if tc_ReadTokens cfg \<noteq> [] \<or> tc_PublishTokens cfg \<noteq> [] \<or> tc_ReadTokenRecords cfg \<noteq> [] \<or>
           tc_PublishTokenRecords cfg \<noteq> [] \<or> tc_PublishOwners cfg \<noteq> [] \<or> tc_OIDCEmails cfg \<noteq> [] \<or>
           tc_OIDCSubjects cfg \<noteq> [] \<or> tc_OIDCDomains cfg \<noteq> [] \<or> tc_OIDCGroups cfg \<noteq> [] \<or>
           tc_OIDCTeamAdminEmails cfg \<noteq> [] \<or> tc_OIDCTeamAdminGroups cfg \<noteq> []
        then Some ReservedForGlobalAdmin else None
      else if tc_OIDCAdminEmails cfg \<noteq> [] \<or> tc_OIDCAdminSubjects cfg \<noteq> [] \<or> tc_OIDCAdminGroups cfg \<noteq> []
      then Some AdminMappingsReserved else None)"

section \<open>The authorizer\<close>

record authorizer =
  az_enabled :: bool
  az_tokenHasher :: token_hasher
  az_tokens :: "(string, principal) gomap"
  az_oidcEmails :: "(string, principal) gomap"
  az_oidcSubjects :: "(string, principal) gomap"
  az_oidcDomains :: "(string, principal) gomap"
  az_oidcGroups :: "(string, principal) gomap"

definition registerOIDCPrincipal :: "(string, principal) gomap \<Rightarrow> string \<Rightarrow> principal \<Rightarrow> (string, principal) gomap" where
  "registerOIDCPrincipal mapping key p =
     map_set key (case map_of mapping key of None \<Rightarrow> p | Some existing \<Rightarrow> mergePrincipals existing p) mapping"

definition registerOIDCValues ::
    "(string \<Rightarrow> string) \<Rightarrow> principal \<Rightarrow> string list \<Rightarrow> (string, principal) gomap \<Rightarrow> (string, principal) gomap" where
  "registerOIDCValues norm p =
     fold (\<lambda>value mapping. if norm value = [] then mapping
                           else registerOIDCPrincipal mapping (norm value) p)"

text \<open>The two token maps: principals, and the source named in the error message.\<close>

type_synonym token_maps = "(string, principal) gomap \<times> (string, string) gomap"

definition registerTokenKey :: "string \<Rightarrow> string \<Rightarrow> principal \<Rightarrow> token_maps \<Rightarrow> auth_error + token_maps" where
  "registerTokenKey tokenKey source p maps =
     (case map_of (snd maps) tokenKey of
        Some existing \<Rightarrow> Inl (TokenReused existing source)
      | None \<Rightarrow> Inr (map_set tokenKey p (fst maps), map_set tokenKey source (snd maps)))"

definition registerToken :: "token_hasher \<Rightarrow> string \<Rightarrow> principal \<Rightarrow> token_maps \<Rightarrow> string \<Rightarrow> auth_error + token_maps" where
  "registerToken h source p maps token0 =
     (let token = trim_space token0 in
      if token = [] then Inr maps
      else registerTokenKey (case h of None \<Rightarrow> token | Some _ \<Rightarrow> Digest h token) source p maps)"

definition registerTokenRecord ::
    "time \<Rightarrow> string \<Rightarrow> string \<Rightarrow> principal \<Rightarrow> token_maps \<Rightarrow> access_token \<Rightarrow> auth_error + token_maps" where
  "registerTokenRecord now role source p maps r =
     (if \<not> Active r now then Inr maps
      else registerTokenKey (at_Digest r) source
             (p\<lparr>p_TokenID := at_ID r, p_TokenName := trim_space (at_Description r), p_TokenRole := role\<rparr>) maps)"

definition ownerSet :: "team_config \<Rightarrow> string set" where
  "ownerSet cfg = insert (tc_Team cfg) {owner \<in> set (tc_PublishOwners cfg). owner \<noteq> []}"

definition read_principal :: "team_config \<Rightarrow> principal" where
  "read_principal cfg = no_principal\<lparr>p_Team := tc_Team cfg, p_CanRead := True, p_PublishOwners := ownerSet cfg\<rparr>"

definition publish_principal :: "team_config \<Rightarrow> principal" where
  "publish_principal cfg = (read_principal cfg)\<lparr>p_CanPublish := True\<rparr>"

definition admin_token_principal :: "team_config \<Rightarrow> principal" where
  "admin_token_principal cfg = (read_principal cfg)\<lparr>p_CanAdmin := True\<rparr>"

definition teamAdminPrincipal :: "team_config \<Rightarrow> principal" where
  "teamAdminPrincipal cfg = (publish_principal cfg)\<lparr>p_CanManageTeam := True, p_ManagedTeams := {tc_Team cfg}\<rparr>"

definition adminPrincipal :: "team_config \<Rightarrow> principal" where
  "adminPrincipal cfg = no_principal\<lparr>p_Team := tc_Team cfg, p_CanRead := True, p_CanAdmin := True\<rparr>"

definition register_tokens :: "auth_env \<Rightarrow> token_hasher \<Rightarrow> team_config \<Rightarrow> token_maps \<Rightarrow> auth_error + token_maps" where
  "register_tokens v h cfg maps0 =
     (let readSource = tc_Team cfg @ '' read access'';
          publishSource = tc_Team cfg @ '' publish access'';
          adminSource = tc_Team cfg @ '' admin access'' in
      sum_bind (fold_sum (registerToken h readSource (read_principal cfg)) maps0 (tc_ReadTokens cfg)) (\<lambda>m1.
      sum_bind (fold_sum (registerTokenRecord (ae_now v) ''read'' readSource (read_principal cfg)) m1
                  (tc_ReadTokenRecords cfg)) (\<lambda>m2.
      sum_bind (fold_sum (registerToken h publishSource (publish_principal cfg)) m2 (tc_PublishTokens cfg)) (\<lambda>m3.
      sum_bind (fold_sum (registerTokenRecord (ae_now v) ''publish'' publishSource (publish_principal cfg)) m3
                  (tc_PublishTokenRecords cfg)) (\<lambda>m4.
      fold_sum (registerToken h adminSource (admin_token_principal cfg)) m4 (tc_AdminTokens cfg))))))"

text \<open>The state of the loop over the configurations.\<close>

record auth_build =
  ab_tokens :: token_maps
  ab_emails :: "(string, principal) gomap"
  ab_subjects :: "(string, principal) gomap"
  ab_domains :: "(string, principal) gomap"
  ab_groups :: "(string, principal) gomap"
  ab_teamNames :: "(string, string) gomap"

definition check_team :: "auth_env \<Rightarrow> auth_build \<Rightarrow> team_config \<Rightarrow> auth_error option" where
  "check_team v b cfg =
     (if tc_Team cfg = [] then Some TeamRequired
      else if \<not> IsGlobalAdminConfig cfg \<and> \<not> isRuntimeAdminConfig cfg \<and> \<not> ValidModuleOwner (tc_Team cfg)
      then Some (TeamInvalid (tc_Team cfg))
      else case map_of (ab_teamNames b) (ae_lower v (tc_Team cfg)) of
             Some existing \<Rightarrow> Some (TeamCaseConflict existing (tc_Team cfg))
           | None \<Rightarrow>
               (case validateTeamConfigRole cfg of
                  Some e \<Rightarrow> Some e
                | None \<Rightarrow> map_option SpaceInvalid
                    (find (\<lambda>owner. owner \<noteq> [] \<and> \<not> ValidModuleOwner owner) (tc_PublishOwners cfg))))"

definition register_config :: "auth_env \<Rightarrow> token_hasher \<Rightarrow> auth_build \<Rightarrow> team_config \<Rightarrow> auth_error + auth_build" where
  "register_config v h b cfg0 =
     (let cfg = cfg0\<lparr>tc_Team := trim_space (tc_Team cfg0)\<rparr> in
      case check_team v b cfg of
        Some e \<Rightarrow> Inl e
      | None \<Rightarrow> sum_bind (register_tokens v h cfg (ab_tokens b)) (\<lambda>maps.
          let web = publish_principal cfg; ta = teamAdminPrincipal cfg; ad = adminPrincipal cfg in
          Inr (b\<lparr>ab_tokens := maps,
                 ab_teamNames := map_set (ae_lower v (tc_Team cfg)) (tc_Team cfg) (ab_teamNames b),
                 ab_emails :=
                   registerOIDCValues (normalizeEmail v) ad (tc_OIDCAdminEmails cfg)
                   (registerOIDCValues (normalizeEmail v) ta (tc_OIDCTeamAdminEmails cfg)
                   (registerOIDCValues (normalizeEmail v) web (tc_OIDCEmails cfg) (ab_emails b))),
                 ab_subjects :=
                   registerOIDCValues trim_space ad (tc_OIDCAdminSubjects cfg)
                   (registerOIDCValues trim_space web (tc_OIDCSubjects cfg) (ab_subjects b)),
                 ab_domains := registerOIDCValues (normalizeDomain v) web (tc_OIDCDomains cfg) (ab_domains b),
                 ab_groups :=
                   registerOIDCValues (normalizeGroup v) ad (tc_OIDCAdminGroups cfg)
                   (registerOIDCValues (normalizeGroup v) ta (tc_OIDCTeamAdminGroups cfg)
                   (registerOIDCValues (normalizeGroup v) web (tc_OIDCGroups cfg) (ab_groups b)))\<rparr>)))"

definition newAuthorizer :: "auth_env \<Rightarrow> team_config list \<Rightarrow> token_hasher \<Rightarrow> auth_error + authorizer" where
  "newAuthorizer v configs h =
     sum_bind (fold_sum (register_config v h)
         \<lparr>ab_tokens = ([], []), ab_emails = [], ab_subjects = [], ab_domains = [], ab_groups = [], ab_teamNames = []\<rparr>
         configs)
       (\<lambda>b. Inr \<lparr>az_enabled = (fst (ab_tokens b) \<noteq> [] \<or> ab_emails b \<noteq> [] \<or> ab_subjects b \<noteq> [] \<or>
                              ab_domains b \<noteq> [] \<or> ab_groups b \<noteq> []),
                az_tokenHasher = h, az_tokens = fst (ab_tokens b), az_oidcEmails = ab_emails b,
                az_oidcSubjects = ab_subjects b, az_oidcDomains = ab_domains b, az_oidcGroups = ab_groups b\<rparr>)"

definition NewAuthorizer :: "auth_env \<Rightarrow> team_config list \<Rightarrow> auth_error + authorizer" where
  "NewAuthorizer v configs = newAuthorizer v configs None"

definition NewAuthorizerWithTokenHasher ::
    "auth_env \<Rightarrow> team_config list \<Rightarrow> token_hasher \<Rightarrow> auth_error + authorizer" where
  "NewAuthorizerWithTokenHasher v configs h =
     (if h = None then Inl HasherRequired else newAuthorizer v configs h)"

definition AccessConfigsWithRuntimeAdmin :: "team_config list \<Rightarrow> string \<Rightarrow> team_config list" where
  "AccessConfigsWithRuntimeAdmin configs adminToken =
     (if adminToken = [] then configs
      else configs @ [empty_config\<lparr>tc_Team := runtimeAdminTeam, tc_AdminTokens := [adminToken]\<rparr>])"

section \<open>Authentication\<close>

text \<open>The receiver of these methods may be nil: \<open>authorizer option\<close>.\<close>

definition Enabled :: "authorizer option \<Rightarrow> bool" where
  "Enabled a = (case a of None \<Rightarrow> False | Some z \<Rightarrow> az_enabled z)"

definition AuthenticateToken :: "authorizer option \<Rightarrow> string \<Rightarrow> principal option" where
  "AuthenticateToken a token =
     (case a of
        None \<Rightarrow> None
      | Some z \<Rightarrow>
          if \<not> az_enabled z \<or> trim_space token = [] then None
          else map_of (az_tokens z) (case az_tokenHasher z of None \<Rightarrow> token | Some f \<Rightarrow> f token))"

definition AuthenticateTokenDigest :: "authorizer option \<Rightarrow> string \<Rightarrow> principal option" where
  "AuthenticateTokenDigest a digest =
     (case a of
        None \<Rightarrow> None
      | Some z \<Rightarrow>
          if \<not> az_enabled z \<or> trim_space digest = [] \<or> az_tokenHasher z = None then None
          else map_of (az_tokens z) digest)"

definition addCandidate :: "principal option \<Rightarrow> principal option \<Rightarrow> principal option" where
  "addCandidate first candidate =
     (case (first, candidate) of
        (_, None) \<Rightarrow> first
      | (None, Some p) \<Rightarrow> Some p
      | (Some f, Some p) \<Rightarrow> Some (mergePrincipals f p))"

text \<open>The lookups in the order of the code: groups, subject, email, domain of the email.\<close>

definition oidc_candidates :: "auth_env \<Rightarrow> authorizer \<Rightarrow> string \<Rightarrow> string \<Rightarrow> string list \<Rightarrow> principal option list" where
  "oidc_candidates v z email subject groups =
     (let subj = trim_space subject; mail = normalizeEmail v email; dom = EmailDomain v mail in
      map (\<lambda>g. map_of (az_oidcGroups z) (normalizeGroup v g)) groups @
      (if subj = [] then [] else [map_of (az_oidcSubjects z) subj]) @
      (if mail = [] then []
       else map_of (az_oidcEmails z) mail #
            (if dom = [] then [] else [map_of (az_oidcDomains z) dom])))"

definition AuthenticateOIDC ::
    "auth_env \<Rightarrow> authorizer option \<Rightarrow> string \<Rightarrow> string \<Rightarrow> string list \<Rightarrow> principal option" where
  "AuthenticateOIDC v a email subject groups =
     (case a of
        None \<Rightarrow> None
      | Some z \<Rightarrow>
          if \<not> az_enabled z then None
          else map_option (\<lambda>p. p\<lparr>p_Team := effectivePrincipalTeam p\<rparr>)
                 (fold (\<lambda>c first. addCandidate first c) (oidc_candidates v z email subject groups) None))"

section \<open>HTTP guards\<close>

definition bearerToken :: "string \<Rightarrow> string" where
  "bearerToken header =
     (case cut (CHR '' '') header of
        (scheme, rest, ok) \<Rightarrow> if ok \<and> ascii_to_lower scheme = ''bearer'' then trim_space rest else [])"

definition AuthenticateRequest :: "authorizer option \<Rightarrow> string \<Rightarrow> principal option" where
  "AuthenticateRequest a header = (if bearerToken header = [] then None else AuthenticateToken a (bearerToken header))"

type_synonym guard = "(nat \<times> string) + principal"

definition RequireRead :: "authorizer option \<Rightarrow> string \<Rightarrow> guard" where
  "RequireRead a header =
     (if \<not> Enabled a then Inl (503, ''access control is not configured'')
      else case AuthenticateRequest a header of
             None \<Rightarrow> Inl (401, ''read access token required'')
           | Some p \<Rightarrow> if p_CanRead p then Inr p else Inl (401, ''read access token required''))"

definition RequirePublishAny :: "authorizer option \<Rightarrow> string \<Rightarrow> guard" where
  "RequirePublishAny a header =
     (if \<not> Enabled a then Inl (503, ''access control is not configured'')
      else case AuthenticateRequest a header of
             None \<Rightarrow> Inl (401, ''publish access token required'')
           | Some p \<Rightarrow> if p_CanPublish p then Inr p else Inl (401, ''publish access token required''))"

definition RequirePublish :: "authorizer option \<Rightarrow> string \<Rightarrow> string \<Rightarrow> guard" where
  "RequirePublish a header owner =
     sum_bind (RequirePublishAny a header) (\<lambda>p.
       if CanPublishOwner p owner then Inr p else Inl (403, ''token is not allowed to publish to this space''))"

definition RequireDelete :: "authorizer option \<Rightarrow> string \<Rightarrow> string \<Rightarrow> guard" where
  "RequireDelete a header owner =
     (if \<not> Enabled a then Inl (503, ''access control is not configured'')
      else case AuthenticateRequest a header of
             None \<Rightarrow> Inl (401, ''admin access token required'')
           | Some p \<Rightarrow>
               if p_CanAdmin p then Inr p
               else if CanDeleteOwner p owner then Inr p
               else if p_CanManageTeam p then Inl (403, ''team admin is not allowed to delete in this publish space'')
               else Inl (403, ''admin or team admin access required''))"

section \<open>What the configurations grant\<close>

text \<open>The tokens of a configuration, with the principals they stand for.\<close>

definition raw_grants :: "token_hasher \<Rightarrow> principal \<Rightarrow> string list \<Rightarrow> (string \<times> principal) list" where
  "raw_grants h p ts =
     map (\<lambda>t. (case h of None \<Rightarrow> trim_space t | Some f \<Rightarrow> f (trim_space t), p)) (filter (\<lambda>t. trim_space t \<noteq> []) ts)"

definition record_grants :: "time \<Rightarrow> string \<Rightarrow> principal \<Rightarrow> access_token list \<Rightarrow> (string \<times> principal) list" where
  "record_grants now role p rs =
     map (\<lambda>r. (at_Digest r, p\<lparr>p_TokenID := at_ID r, p_TokenName := trim_space (at_Description r), p_TokenRole := role\<rparr>))
       (filter (\<lambda>r. Active r now) rs)"

definition token_grants :: "auth_env \<Rightarrow> token_hasher \<Rightarrow> team_config \<Rightarrow> (string \<times> principal) list" where
  "token_grants v h cfg =
     raw_grants h (read_principal cfg) (tc_ReadTokens cfg) @
     record_grants (ae_now v) ''read'' (read_principal cfg) (tc_ReadTokenRecords cfg) @
     raw_grants h (publish_principal cfg) (tc_PublishTokens cfg) @
     record_grants (ae_now v) ''publish'' (publish_principal cfg) (tc_PublishTokenRecords cfg) @
     raw_grants h (admin_token_principal cfg) (tc_AdminTokens cfg)"

definition trimmed :: "team_config \<Rightarrow> team_config" where
  "trimmed cfg = cfg\<lparr>tc_Team := trim_space (tc_Team cfg)\<rparr>"

text \<open>Registering adds exactly the grants, and refuses a key that is taken.\<close>

definition adds :: "token_maps \<Rightarrow> (string \<times> principal) list \<Rightarrow> token_maps \<Rightarrow> bool" where
  "adds m gs m' =
     (dom (map_of (fst m)) = dom (map_of (snd m)) \<longrightarrow>
        dom (map_of (fst m')) = dom (map_of (snd m')) \<and> distinct (map fst gs) \<and>
        fst ` set gs \<inter> dom (map_of (fst m)) = {} \<and> map_of (fst m') = map_of (fst m) ++ map_of gs)"

lemma adds_Nil [simp]: "adds m [] m"
  by (simp add: adds_def)

lemma adds_append:
  assumes "adds m gs m1" "adds m1 hs m2"
  shows "adds m (gs @ hs) m2"
  unfolding adds_def
proof
  assume d: "dom (map_of (fst m)) = dom (map_of (snd m))"
  have 1: "dom (map_of (fst m1)) = dom (map_of (snd m1))" "distinct (map fst gs)"
      "fst ` set gs \<inter> dom (map_of (fst m)) = {}" "map_of (fst m1) = map_of (fst m) ++ map_of gs"
    using assms(1) d unfolding adds_def by blast+
  have 2: "dom (map_of (fst m2)) = dom (map_of (snd m2))" "distinct (map fst hs)"
      "fst ` set hs \<inter> dom (map_of (fst m1)) = {}" "map_of (fst m2) = map_of (fst m1) ++ map_of hs"
    using assms(2) 1(1) unfolding adds_def by blast+
  have dis: "fst ` set hs \<inter> fst ` set gs = {}" "fst ` set hs \<inter> dom (map_of (fst m)) = {}"
    using 1(4) 2(3) by (auto simp: dom_map_of_conv_image_fst)
  have "map_of gs ++ map_of hs = map_of hs ++ map_of gs"
    using dis(1) by (intro map_add_comm) (simp add: dom_map_of_conv_image_fst Int_commute)
  moreover have "map_of (fst m2) = map_of (fst m) ++ (map_of gs ++ map_of hs)"
    by (simp only: 1(4) 2(4) map_add_assoc)
  ultimately have "map_of (fst m2) = map_of (fst m) ++ map_of (gs @ hs)" by (simp only: map_of_append)
  moreover have "distinct (map fst (gs @ hs))" using 1(2) 2(2) dis(1) by (simp add: Int_commute)
  moreover have "fst ` set (gs @ hs) \<inter> dom (map_of (fst m)) = {}"
    using 1(3) dis(2) by (simp only: set_append image_Un Int_Un_distrib2 Un_empty)
  ultimately show "dom (map_of (fst m2)) = dom (map_of (snd m2)) \<and> distinct (map fst (gs @ hs)) \<and>
      fst ` set (gs @ hs) \<inter> dom (map_of (fst m)) = {} \<and> map_of (fst m2) = map_of (fst m) ++ map_of (gs @ hs)"
    using 2(1) by blast
qed

lemma adds_key: 
  assumes "registerTokenKey k src p m = Inr m'"
  shows "adds m [(k, p)] m'"
proof -
  have "k \<notin> dom (map_of (snd m))" "m' = (map_set k p (fst m), map_set k src (snd m))"
    using assms by (auto simp: registerTokenKey_def split: option.splits)
  then show ?thesis by (simp add: adds_def)
qed

lemma adds_fold:
  assumes "\<And>m x m'. f m x = Inr m' \<Longrightarrow> adds m (g x) m'" and "fold_sum f m xs = Inr m'"
  shows "adds m (concat (map g xs)) m'"
  using assms(2) by (induction xs arbitrary: m) (auto intro: adds_append assms(1))

lemma raw_grants_concat: "raw_grants h p ts = concat (map (\<lambda>t. raw_grants h p [t]) ts)"
  by (induction ts) (simp_all add: raw_grants_def)

lemma record_grants_concat: "record_grants now role p rs = concat (map (\<lambda>r. record_grants now role p [r]) rs)"
  by (induction rs) (simp_all add: record_grants_def)

lemma adds_raw: "fold_sum (registerToken h src p) m ts = Inr m' \<Longrightarrow> adds m (raw_grants h p ts) m'"
  by (subst raw_grants_concat, rule adds_fold)
     (auto simp: registerToken_def raw_grants_def Let_def Digest_def split: if_splits option.splits dest!: adds_key)

lemma adds_record:
  "fold_sum (registerTokenRecord now role src p) m rs = Inr m' \<Longrightarrow> adds m (record_grants now role p rs) m'"
  by (subst record_grants_concat, rule adds_fold)
     (auto simp: registerTokenRecord_def record_grants_def split: if_splits dest!: adds_key)

lemma adds_tokens: "register_tokens v h cfg m = Inr m' \<Longrightarrow> adds m (token_grants v h cfg) m'"
  unfolding register_tokens_def token_grants_def Let_def sum_bind_Inr
  by (blast intro: adds_append adds_raw adds_record)

lemma register_config_tokens:
  "register_config v h b cfg = Inr b' \<Longrightarrow> adds (ab_tokens b) (token_grants v h (trimmed cfg)) (ab_tokens b')"
  by (auto simp: register_config_def Let_def trimmed_def split: option.splits intro: adds_tokens)

lemma register_configs_tokens:
  "fold_sum (register_config v h) b configs = Inr b' \<Longrightarrow>
     adds (ab_tokens b) (concat (map (\<lambda>cfg. token_grants v h (trimmed cfg)) configs)) (ab_tokens b')"
  by (induction configs arbitrary: b) (auto intro: adds_append register_config_tokens)

lemma authorizer_tokens:
  assumes "newAuthorizer v configs h = Inr a"
  shows "map_of (az_tokens a) k = Some p \<longleftrightarrow> (\<exists>cfg \<in> set configs. (k, p) \<in> set (token_grants v h (trimmed cfg)))"
proof -
  let ?g = "concat (map (\<lambda>cfg. token_grants v h (trimmed cfg)) configs)"
  obtain b where "fold_sum (register_config v h)
      \<lparr>ab_tokens = ([], []), ab_emails = [], ab_subjects = [], ab_domains = [], ab_groups = [], ab_teamNames = []\<rparr>
      configs = Inr b" and t: "az_tokens a = fst (ab_tokens b)"
    using assms by (auto simp: newAuthorizer_def)
  from register_configs_tokens [OF this(1)] t have "distinct (map fst ?g)" "map_of (az_tokens a) = map_of ?g"
    by (simp_all add: adds_def)
  then show ?thesis by (simp add: map_of_eq_Some_iff)
qed

lemma authorizer_hasher: "newAuthorizer v configs h = Inr a \<Longrightarrow> az_tokenHasher a = h"
  by (auto simp: newAuthorizer_def)

text \<open>
  The principals a configuration maps an identity to: the web principal, the team administrator and
  the global administrator, each with its own lists.
\<close>

definition email_listed :: "auth_env \<Rightarrow> string list \<Rightarrow> string \<Rightarrow> bool" where
  "email_listed v xs email =
     (normalizeEmail v email \<noteq> [] \<and> (\<exists>x \<in> set xs. normalizeEmail v x = normalizeEmail v email))"

definition subject_listed :: "string list \<Rightarrow> string \<Rightarrow> bool" where
  "subject_listed xs subject = (trim_space subject \<noteq> [] \<and> (\<exists>x \<in> set xs. trim_space x = trim_space subject))"

definition domain_listed :: "auth_env \<Rightarrow> string list \<Rightarrow> string \<Rightarrow> bool" where
  "domain_listed v xs email =
     (let d = EmailDomain v (normalizeEmail v email) in
      normalizeEmail v email \<noteq> [] \<and> d \<noteq> [] \<and> (\<exists>x \<in> set xs. normalizeDomain v x = d))"

definition group_listed :: "auth_env \<Rightarrow> string list \<Rightarrow> string list \<Rightarrow> bool" where
  "group_listed v xs groups =
     (\<exists>g \<in> set groups. normalizeGroup v g \<noteq> [] \<and> (\<exists>x \<in> set xs. normalizeGroup v x = normalizeGroup v g))"

definition oidc_grants :: "auth_env \<Rightarrow> team_config \<Rightarrow> string \<Rightarrow> string \<Rightarrow> string list \<Rightarrow> principal set" where
  "oidc_grants v cfg email subject groups =
     {p. p = publish_principal cfg \<and>
           (email_listed v (tc_OIDCEmails cfg) email \<or> subject_listed (tc_OIDCSubjects cfg) subject \<or>
            domain_listed v (tc_OIDCDomains cfg) email \<or> group_listed v (tc_OIDCGroups cfg) groups) \<or>
         p = teamAdminPrincipal cfg \<and>
           (email_listed v (tc_OIDCTeamAdminEmails cfg) email \<or> group_listed v (tc_OIDCTeamAdminGroups cfg) groups) \<or>
         p = adminPrincipal cfg \<and>
           (email_listed v (tc_OIDCAdminEmails cfg) email \<or> subject_listed (tc_OIDCAdminSubjects cfg) subject \<or>
            group_listed v (tc_OIDCAdminGroups cfg) groups)}"

text \<open>A permission is additive: merging two principals gives it when one of them has it.\<close>

definition additive :: "(principal \<Rightarrow> bool) \<Rightarrow> bool" where
  "additive P = (\<forall>p q. P (mergePrincipals p q) = (P p \<or> P q))"

lemma additiveI [simp]:
  "additive p_CanRead" "additive p_CanPublish" "additive p_CanManageTeam" "additive p_CanAdmin"
  "additive (\<lambda>p. x \<in> p_PublishOwners p)" "additive (\<lambda>p. x \<in> p_ManagedTeams p)" "additive (\<lambda>p. True)"
  by (simp_all add: additive_def mergePrincipals_def mergeStringSets_def)

definition has :: "(principal \<Rightarrow> bool) \<Rightarrow> principal option \<Rightarrow> bool" where
  "has P o' = (case o' of None \<Rightarrow> False | Some p \<Rightarrow> P p)"

lemma has_simps [simp]: "has P None = False" "has P (Some p) = P p"
  by (simp_all add: has_def)

lemma has_registered:
  assumes "additive P"
  shows "has P (map_of (registerOIDCValues norm p xs m) k) =
    (has P (map_of m k) \<or> P p \<and> k \<noteq> [] \<and> (\<exists>x \<in> set xs. norm x = k))"
proof (induction xs arbitrary: m)
  case Nil
  then show ?case by (simp add: registerOIDCValues_def)
next
  case (Cons x xs)
  let ?m = "if norm x = [] then m else registerOIDCPrincipal m (norm x) p"
  have "has P (map_of ?m k) = (has P (map_of m k) \<or> P p \<and> k \<noteq> [] \<and> norm x = k)"
    using assms by (auto simp: registerOIDCPrincipal_def additive_def split: option.split)
  moreover have "registerOIDCValues norm p (x # xs) m = registerOIDCValues norm p xs ?m"
    by (simp add: registerOIDCValues_def)
  ultimately show ?case using Cons.IH [of ?m] by auto
qed

lemma has_candidates:
  assumes "additive P"
  shows "has P (fold (\<lambda>c first. addCandidate first c) cs first) = (has P first \<or> (\<exists>c \<in> set cs. has P c))"
proof (induction cs arbitrary: first)
  case (Cons c cs)
  have "has P (addCandidate first c) = (has P first \<or> has P c)"
    using assms by (auto simp: addCandidate_def additive_def split: option.split)
  with Cons.IH show ?case by auto
qed simp

text \<open>The identity maps after registering configurations.\<close>

definition emails_grant :: "auth_env \<Rightarrow> (principal \<Rightarrow> bool) \<Rightarrow> team_config \<Rightarrow> string \<Rightarrow> bool" where
  "emails_grant v P cfg k =
     (k \<noteq> [] \<and>
       (P (publish_principal cfg) \<and> k \<in> normalizeEmail v ` set (tc_OIDCEmails cfg) \<or>
        P (teamAdminPrincipal cfg) \<and> k \<in> normalizeEmail v ` set (tc_OIDCTeamAdminEmails cfg) \<or>
        P (adminPrincipal cfg) \<and> k \<in> normalizeEmail v ` set (tc_OIDCAdminEmails cfg)))"

definition subjects_grant :: "(principal \<Rightarrow> bool) \<Rightarrow> team_config \<Rightarrow> string \<Rightarrow> bool" where
  "subjects_grant P cfg k =
     (k \<noteq> [] \<and>
       (P (publish_principal cfg) \<and> k \<in> trim_space ` set (tc_OIDCSubjects cfg) \<or>
        P (adminPrincipal cfg) \<and> k \<in> trim_space ` set (tc_OIDCAdminSubjects cfg)))"

definition domains_grant :: "auth_env \<Rightarrow> (principal \<Rightarrow> bool) \<Rightarrow> team_config \<Rightarrow> string \<Rightarrow> bool" where
  "domains_grant v P cfg k =
     (k \<noteq> [] \<and> P (publish_principal cfg) \<and> k \<in> normalizeDomain v ` set (tc_OIDCDomains cfg))"

definition groups_grant :: "auth_env \<Rightarrow> (principal \<Rightarrow> bool) \<Rightarrow> team_config \<Rightarrow> string \<Rightarrow> bool" where
  "groups_grant v P cfg k =
     (k \<noteq> [] \<and>
       (P (publish_principal cfg) \<and> k \<in> normalizeGroup v ` set (tc_OIDCGroups cfg) \<or>
        P (teamAdminPrincipal cfg) \<and> k \<in> normalizeGroup v ` set (tc_OIDCTeamAdminGroups cfg) \<or>
        P (adminPrincipal cfg) \<and> k \<in> normalizeGroup v ` set (tc_OIDCAdminGroups cfg)))"

lemma register_config_oidc:
  assumes "register_config v h b cfg = Inr b'" "additive P"
  shows "has P (map_of (ab_emails b') k) = (has P (map_of (ab_emails b) k) \<or> emails_grant v P (trimmed cfg) k)"
    and "has P (map_of (ab_subjects b') k) = (has P (map_of (ab_subjects b) k) \<or> subjects_grant P (trimmed cfg) k)"
    and "has P (map_of (ab_domains b') k) = (has P (map_of (ab_domains b) k) \<or> domains_grant v P (trimmed cfg) k)"
    and "has P (map_of (ab_groups b') k) = (has P (map_of (ab_groups b) k) \<or> groups_grant v P (trimmed cfg) k)"
proof -
  let ?c = "trimmed cfg"
  let ?web = "publish_principal ?c" and ?ta = "teamAdminPrincipal ?c" and ?ad = "adminPrincipal ?c"
  have b': "ab_emails b' = registerOIDCValues (normalizeEmail v) ?ad (tc_OIDCAdminEmails ?c)
        (registerOIDCValues (normalizeEmail v) ?ta (tc_OIDCTeamAdminEmails ?c)
        (registerOIDCValues (normalizeEmail v) ?web (tc_OIDCEmails ?c) (ab_emails b)))"
      "ab_subjects b' = registerOIDCValues trim_space ?ad (tc_OIDCAdminSubjects ?c)
        (registerOIDCValues trim_space ?web (tc_OIDCSubjects ?c) (ab_subjects b))"
      "ab_domains b' = registerOIDCValues (normalizeDomain v) ?web (tc_OIDCDomains ?c) (ab_domains b)"
      "ab_groups b' = registerOIDCValues (normalizeGroup v) ?ad (tc_OIDCAdminGroups ?c)
        (registerOIDCValues (normalizeGroup v) ?ta (tc_OIDCTeamAdminGroups ?c)
        (registerOIDCValues (normalizeGroup v) ?web (tc_OIDCGroups ?c) (ab_groups b)))"
    using assms(1) by (auto simp: register_config_def Let_def trimmed_def split: option.splits)
  note reg = has_registered [OF assms(2)]
  show "has P (map_of (ab_emails b') k) = (has P (map_of (ab_emails b) k) \<or> emails_grant v P ?c k)"
    by (auto simp: b' reg emails_grant_def)
  show "has P (map_of (ab_subjects b') k) = (has P (map_of (ab_subjects b) k) \<or> subjects_grant P ?c k)"
    by (auto simp: b' reg subjects_grant_def)
  show "has P (map_of (ab_domains b') k) = (has P (map_of (ab_domains b) k) \<or> domains_grant v P ?c k)"
    by (auto simp: b' reg domains_grant_def)
  show "has P (map_of (ab_groups b') k) = (has P (map_of (ab_groups b) k) \<or> groups_grant v P ?c k)"
    by (auto simp: b' reg groups_grant_def)
qed

lemma register_configs_oidc:
  assumes "fold_sum (register_config v h) b configs = Inr b'" "additive P"
  shows "has P (map_of (ab_emails b') k) =
      (has P (map_of (ab_emails b) k) \<or> (\<exists>cfg \<in> set configs. emails_grant v P (trimmed cfg) k))"
    and "has P (map_of (ab_subjects b') k) =
      (has P (map_of (ab_subjects b) k) \<or> (\<exists>cfg \<in> set configs. subjects_grant P (trimmed cfg) k))"
    and "has P (map_of (ab_domains b') k) =
      (has P (map_of (ab_domains b) k) \<or> (\<exists>cfg \<in> set configs. domains_grant v P (trimmed cfg) k))"
    and "has P (map_of (ab_groups b') k) =
      (has P (map_of (ab_groups b) k) \<or> (\<exists>cfg \<in> set configs. groups_grant v P (trimmed cfg) k))"
  using assms(1)
proof (induction configs arbitrary: b)
  case (Cons cfg configs)
  {
    case 1
    then obtain b1 where b1: "register_config v h b cfg = Inr b1" "fold_sum (register_config v h) b1 configs = Inr b'"
      by auto
    show ?case using Cons.IH(1) [OF b1(2)] register_config_oidc(1) [OF b1(1) assms(2)] by simp
  next
    case 2
    then obtain b1 where b1: "register_config v h b cfg = Inr b1" "fold_sum (register_config v h) b1 configs = Inr b'"
      by auto
    show ?case using Cons.IH(2) [OF b1(2)] register_config_oidc(2) [OF b1(1) assms(2)] by simp
  next
    case 3
    then obtain b1 where b1: "register_config v h b cfg = Inr b1" "fold_sum (register_config v h) b1 configs = Inr b'"
      by auto
    show ?case using Cons.IH(3) [OF b1(2)] register_config_oidc(3) [OF b1(1) assms(2)] by simp
  next
    case 4
    then obtain b1 where b1: "register_config v h b cfg = Inr b1" "fold_sum (register_config v h) b1 configs = Inr b'"
      by auto
    show ?case using Cons.IH(4) [OF b1(2)] register_config_oidc(4) [OF b1(1) assms(2)] by simp
  }
qed simp_all

lemma authorizer_oidc:
  assumes "newAuthorizer v configs h = Inr a" "additive P"
  shows "has P (map_of (az_oidcEmails a) k) = (\<exists>cfg \<in> set configs. emails_grant v P (trimmed cfg) k)"
    and "has P (map_of (az_oidcSubjects a) k) = (\<exists>cfg \<in> set configs. subjects_grant P (trimmed cfg) k)"
    and "has P (map_of (az_oidcDomains a) k) = (\<exists>cfg \<in> set configs. domains_grant v P (trimmed cfg) k)"
    and "has P (map_of (az_oidcGroups a) k) = (\<exists>cfg \<in> set configs. groups_grant v P (trimmed cfg) k)"
  using assms(1) by (auto simp: newAuthorizer_def register_configs_oidc [OF _ assms(2)])

lemma ex_oidc_grants:
  "(\<exists>p \<in> oidc_grants v cfg email subject groups. P p) \<longleftrightarrow>
     P (publish_principal cfg) \<and>
       (email_listed v (tc_OIDCEmails cfg) email \<or> subject_listed (tc_OIDCSubjects cfg) subject \<or>
        domain_listed v (tc_OIDCDomains cfg) email \<or> group_listed v (tc_OIDCGroups cfg) groups) \<or>
     P (teamAdminPrincipal cfg) \<and>
       (email_listed v (tc_OIDCTeamAdminEmails cfg) email \<or> group_listed v (tc_OIDCTeamAdminGroups cfg) groups) \<or>
     P (adminPrincipal cfg) \<and>
       (email_listed v (tc_OIDCAdminEmails cfg) email \<or> subject_listed (tc_OIDCAdminSubjects cfg) subject \<or>
        group_listed v (tc_OIDCAdminGroups cfg) groups)"
  unfolding oidc_grants_def by blast

text \<open>Every lookup of \<open>AuthenticateOIDC\<close>, and the grants of the configurations.\<close>

lemma has_oidc_candidates:
  assumes "newAuthorizer v configs h = Inr a" "additive P"
  shows "(\<exists>c \<in> set (oidc_candidates v a email subject groups). has P c) \<longleftrightarrow>
    (\<exists>cfg \<in> set configs. \<exists>p \<in> oidc_grants v (trimmed cfg) email subject groups. P p)"
proof -
  let ?e = "normalizeEmail v email"
  let ?d = "EmailDomain v ?e"
  have "(\<exists>c \<in> set (oidc_candidates v a email subject groups). has P c) \<longleftrightarrow>
      (\<exists>g \<in> set groups. has P (map_of (az_oidcGroups a) (normalizeGroup v g))) \<or>
      trim_space subject \<noteq> [] \<and> has P (map_of (az_oidcSubjects a) (trim_space subject)) \<or>
      ?e \<noteq> [] \<and> has P (map_of (az_oidcEmails a) ?e) \<or>
      ?e \<noteq> [] \<and> ?d \<noteq> [] \<and> has P (map_of (az_oidcDomains a) ?d)"
    by (auto simp: oidc_candidates_def Let_def)
  also have "\<dots> \<longleftrightarrow> (\<exists>cfg \<in> set configs.
      (\<exists>g \<in> set groups. groups_grant v P (trimmed cfg) (normalizeGroup v g)) \<or>
      subjects_grant P (trimmed cfg) (trim_space subject) \<or> emails_grant v P (trimmed cfg) ?e \<or>
      ?e \<noteq> [] \<and> domains_grant v P (trimmed cfg) ?d)"
    unfolding authorizer_oidc [OF assms] by (auto simp: subjects_grant_def emails_grant_def domains_grant_def)
  also have "\<dots> \<longleftrightarrow> (\<exists>cfg \<in> set configs. \<exists>p \<in> oidc_grants v (trimmed cfg) email subject groups. P p)"
  proof (rule bex_cong [OF refl])
    fix cfg
    show "((\<exists>g \<in> set groups. groups_grant v P (trimmed cfg) (normalizeGroup v g)) \<or>
        subjects_grant P (trimmed cfg) (trim_space subject) \<or> emails_grant v P (trimmed cfg) ?e \<or>
        ?e \<noteq> [] \<and> domains_grant v P (trimmed cfg) ?d) \<longleftrightarrow>
      (\<exists>p \<in> oidc_grants v (trimmed cfg) email subject groups. P p)"
      unfolding ex_oidc_grants groups_grant_def subjects_grant_def emails_grant_def domains_grant_def
        email_listed_def subject_listed_def domain_listed_def group_listed_def Let_def image_iff
      by (intro iffI; elim disjE bexE conjE; metis)
  qed
  finally show ?thesis .
qed

end
