(* ===== verification/AccessConfig.thy ===== *)
theory AccessConfig
  imports Auth SqliteModules
begin

text \<open>
  The access configuration in the store (\<open>internal/store/access.go\<close> and \<open>LoadTeamConfigs\<close>,
  \<open>ReplaceTeamConfigs\<close> with their helpers of \<open>internal/store/sqlite.go\<close>): teams, access tokens,
  publish owners and OIDC mappings. \<open>uuids n\<close> is the identifier that the \<open>n\<close>-th call of
  \<open>uuid.NewString\<close> in a transaction returns.
\<close>

section \<open>Writing\<close>

definition accessOIDCMappings :: "team_config \<Rightarrow> (string \<times> string) list" where
  "accessOIDCMappings cfg =
     (let values = (\<lambda>kind vs. map (\<lambda>x. (kind, trim_space x)) (filter (\<lambda>x. trim_space x \<noteq> []) vs)) in
      values ''email'' (tc_OIDCEmails cfg) @ values ''subject'' (tc_OIDCSubjects cfg) @
      values ''domain'' (tc_OIDCDomains cfg) @ values ''group'' (tc_OIDCGroups cfg) @
      values ''team_admin_email'' (tc_OIDCTeamAdminEmails cfg) @
      values ''team_admin_group'' (tc_OIDCTeamAdminGroups cfg) @
      values ''admin_email'' (tc_OIDCAdminEmails cfg) @ values ''admin_subject'' (tc_OIDCAdminSubjects cfg) @
      values ''admin_group'' (tc_OIDCAdminGroups cfg))"

definition zero_token :: access_token where
  "zero_token = \<lparr>at_ID = [], at_Prefix = [], at_Digest = [], at_Description = [], at_CreatedAt = zero_time,
     at_ExpiresAt = None, at_RevokedAt = None, at_LastUsedAt = None\<rparr>"

definition accessTokenRecordFromRaw ::
    "time \<Rightarrow> (nat \<Rightarrow> string) \<Rightarrow> token_hasher \<Rightarrow> string \<Rightarrow> nat \<Rightarrow> string \<Rightarrow> store_error + (nat \<times> access_token)" where
  "accessTokenRecordFromRaw now uuids h tokenType n token0 =
     (let token = trim_space token0 in
      if token = [] then Inr (n, zero_token)
      else if h = None then Inl (StoreError ''access token pepper is required to store access tokens'')
      else let digest = Digest h token in
        Inr (Suc n, zero_token\<lparr>at_ID := uuids n, at_Prefix := ''legacy_'' @ tokenType @ ''_'' @ take 8 digest,
                         at_Digest := digest, at_CreatedAt := now\<rparr>))"

type_synonym typed_tokens = "(string \<times> access_token) list"

definition append_raw ::
    "time \<Rightarrow> (nat \<Rightarrow> string) \<Rightarrow> token_hasher \<Rightarrow> string \<Rightarrow> nat \<times> typed_tokens \<Rightarrow> string \<Rightarrow> store_error + (nat \<times> typed_tokens)" where
  "append_raw now uuids h tokenType acc token =
     (if trim_space token = [] then Inr acc
      else sum_bind (accessTokenRecordFromRaw now uuids h tokenType (fst acc) token)
             (\<lambda>(n, r). Inr (n, snd acc @ [(tokenType, r)])))"

definition accessTokenRecords ::
    "time \<Rightarrow> (nat \<Rightarrow> string) \<Rightarrow> token_hasher \<Rightarrow> nat \<Rightarrow> team_config \<Rightarrow> store_error + (nat \<times> typed_tokens)" where
  "accessTokenRecords now uuids h n cfg =
     sum_bind (fold_sum (append_raw now uuids h ''read'') (n, []) (tc_ReadTokens cfg)) (\<lambda>a1.
     sum_bind (fold_sum (append_raw now uuids h ''publish'') a1 (tc_PublishTokens cfg)) (\<lambda>(n2, rs).
       Inr (n2, rs @ map (Pair ''read'') (tc_ReadTokenRecords cfg) @
                     map (Pair ''publish'') (tc_PublishTokenRecords cfg))))"

text \<open>\<open>delete from access_teams\<close>: the foreign keys cascade.\<close>

definition clearTeams :: "db \<Rightarrow> db" where
  "clearTeams s =
     s\<lparr>db_teams := [],
       db_tokens := delete_where (\<lambda>k. kr_team k \<in> set (db_teams s)) (db_tokens s),
       db_owners := delete_where (\<lambda>(t, _). t \<in> set (db_teams s)) (db_owners s),
       db_oidc := delete_where (\<lambda>(t, _). t \<in> set (db_teams s)) (db_oidc s)\<rparr>"

definition insertTeam :: "string \<Rightarrow> db \<Rightarrow> store_error + db" where
  "insertTeam team s =
     (if team \<in> set (db_teams s) then Inl (StoreError ''insert access team'')
      else Inr (s\<lparr>db_teams := db_teams s @ [team]\<rparr>))"

definition token_row_of :: "string \<Rightarrow> string \<Rightarrow> access_token \<Rightarrow> token_row" where
  "token_row_of team tokenType t =
     \<lparr>kr_token_id = at_ID t, kr_team = team, kr_token_type = tokenType, kr_token_prefix = at_Prefix t,
      kr_token_hash = at_Digest t, kr_description = at_Description t, kr_created_at = at_CreatedAt t,
      kr_expires_at = at_ExpiresAt t, kr_revoked_at = at_RevokedAt t, kr_last_used_at = at_LastUsedAt t\<rparr>"

definition insertSQLiteAccessTokenRecord :: "string \<Rightarrow> db \<Rightarrow> string \<times> access_token \<Rightarrow> store_error + db" where
  "insertSQLiteAccessTokenRecord team s = (\<lambda>(tokenType, t).
     if at_ID t = [] \<or> at_Digest t = [] \<or> at_Prefix t = []
     then Inl (StoreError ''access token record is incomplete'')
     else if at_ID t \<in> kr_token_id ` set (db_tokens s) \<or> at_Digest t \<in> kr_token_hash ` set (db_tokens s) \<or>
             team \<notin> set (db_teams s)
     then Inl (StoreError ''insert access token'')
     else Inr (s\<lparr>db_tokens := db_tokens s @ [token_row_of team tokenType t]\<rparr>))"

definition insertOwner :: "string \<Rightarrow> db \<Rightarrow> string \<Rightarrow> store_error + db" where
  "insertOwner team s owner =
     (if (team, owner) \<in> set (db_owners s) \<or> team \<notin> set (db_teams s) then Inl (StoreError ''insert access owner'')
      else Inr (s\<lparr>db_owners := db_owners s @ [(team, owner)]\<rparr>))"

definition insertOIDCMapping :: "string \<Rightarrow> db \<Rightarrow> string \<times> string \<Rightarrow> store_error + db" where
  "insertOIDCMapping team s = (\<lambda>(kind, value).
     if (team, kind, value) \<in> set (db_oidc s) \<or> team \<notin> set (db_teams s) then Inl (StoreError ''insert oidc mapping'')
     else Inr (s\<lparr>db_oidc := db_oidc s @ [(team, kind, value)]\<rparr>))"

definition cleaned :: "string list \<Rightarrow> string list" where
  "cleaned xs = map trim_space (filter (\<lambda>x. trim_space x \<noteq> []) xs)"

definition persist_config ::
    "time \<Rightarrow> (nat \<Rightarrow> string) \<Rightarrow> token_hasher \<Rightarrow> nat \<times> db \<Rightarrow> team_config \<Rightarrow> store_error + (nat \<times> db)" where
  "persist_config now uuids h = (\<lambda>(n, s) cfg.
     if trim_space (tc_Team cfg) = [] then Inl (StoreError ''team is required'')
     else
       sum_bind (insertTeam (tc_Team cfg) s) (\<lambda>s1.
       sum_bind (accessTokenRecords now uuids h n cfg) (\<lambda>(n1, tokens).
       sum_bind (fold_sum (insertSQLiteAccessTokenRecord (tc_Team cfg)) s1 tokens) (\<lambda>s2.
       sum_bind (fold_sum (insertOwner (tc_Team cfg)) s2 (cleaned (tc_PublishOwners cfg))) (\<lambda>s3.
       sum_bind (fold_sum (insertOIDCMapping (tc_Team cfg)) s3 (accessOIDCMappings cfg)) (\<lambda>s4.
         Inr (n1, s4)))))))"

definition persistTeamConfigs ::
    "time \<Rightarrow> (nat \<Rightarrow> string) \<Rightarrow> token_hasher \<Rightarrow> db \<Rightarrow> team_config list \<Rightarrow> store_error + db" where
  "persistTeamConfigs now uuids h s configs =
     sum_bind (fold_sum (persist_config now uuids h) (0, s) configs) (\<lambda>(_, s1). Inr s1)"

definition replaceAccessConfig ::
    "env \<Rightarrow> (nat \<Rightarrow> string) \<Rightarrow> token_hasher \<Rightarrow> audit_ctx \<Rightarrow> db \<Rightarrow> team_config list \<Rightarrow> store_error + (audit_ctx \<times> db)" where
  "replaceAccessConfig v uuids h c s configs =
     sum_bind (persistTeamConfigs (v_now v) uuids h (clearTeams s) configs) (commitSQLiteMutation v c)"

definition ReplaceTeamConfigs ::
    "env \<Rightarrow> auth_env \<Rightarrow> (nat \<Rightarrow> string) \<Rightarrow> token_hasher \<Rightarrow> audit_ctx \<Rightarrow> db \<Rightarrow> team_config list \<Rightarrow> unit op_result" where
  "ReplaceTeamConfigs v av uuids h c s configs =
     (case NewAuthorizer av configs of
        Inl _ \<Rightarrow> rolled_back c s (StoreError ''validate access config'')
      | Inr _ \<Rightarrow>
          (case replaceAccessConfig v uuids h c s configs of
             Inl e \<Rightarrow> rolled_back c s e
           | Inr cs \<Rightarrow> (cs, Inr ())))"

section \<open>Reading\<close>

definition scanTeamRows :: "string list \<Rightarrow> team_config list \<times> (string, nat) gomap" where
  "scanTeamRows teams =
     fold (\<lambda>team (configs, index). (configs @ [empty_config\<lparr>tc_Team := team\<rparr>], map_set team (length configs) index))
       teams ([], [])"

text \<open>\<open>if i, ok := index[team]; ok { \<dots> configs[i] \<dots> }\<close>\<close>

definition at_team ::
    "(string, nat) gomap \<Rightarrow> string \<Rightarrow> (team_config \<Rightarrow> team_config) \<Rightarrow> team_config list \<Rightarrow> team_config list" where
  "at_team index team f configs =
     (case map_of index team of None \<Rightarrow> configs | Some i \<Rightarrow> configs[i := f (configs ! i)])"

definition applyAccessToken :: "string \<Rightarrow> access_token \<Rightarrow> team_config \<Rightarrow> team_config" where
  "applyAccessToken tokenType t cfg =
     (if tokenType = ''read'' then cfg\<lparr>tc_ReadTokenRecords := tc_ReadTokenRecords cfg @ [t]\<rparr>
      else if tokenType = ''publish'' then cfg\<lparr>tc_PublishTokenRecords := tc_PublishTokenRecords cfg @ [t]\<rparr>
      else cfg)"

definition applyAccessOIDCMapping :: "string \<Rightarrow> string \<Rightarrow> team_config \<Rightarrow> team_config" where
  "applyAccessOIDCMapping mappingType x cfg =
     (if mappingType = ''email'' then cfg\<lparr>tc_OIDCEmails := tc_OIDCEmails cfg @ [x]\<rparr>
      else if mappingType = ''subject'' then cfg\<lparr>tc_OIDCSubjects := tc_OIDCSubjects cfg @ [x]\<rparr>
      else if mappingType = ''domain'' then cfg\<lparr>tc_OIDCDomains := tc_OIDCDomains cfg @ [x]\<rparr>
      else if mappingType = ''group'' then cfg\<lparr>tc_OIDCGroups := tc_OIDCGroups cfg @ [x]\<rparr>
      else if mappingType = ''team_admin_email'' then cfg\<lparr>tc_OIDCTeamAdminEmails := tc_OIDCTeamAdminEmails cfg @ [x]\<rparr>
      else if mappingType = ''team_admin_group'' then cfg\<lparr>tc_OIDCTeamAdminGroups := tc_OIDCTeamAdminGroups cfg @ [x]\<rparr>
      else if mappingType = ''admin_email'' then cfg\<lparr>tc_OIDCAdminEmails := tc_OIDCAdminEmails cfg @ [x]\<rparr>
      else if mappingType = ''admin_subject'' then cfg\<lparr>tc_OIDCAdminSubjects := tc_OIDCAdminSubjects cfg @ [x]\<rparr>
      else if mappingType = ''admin_group'' then cfg\<lparr>tc_OIDCAdminGroups := tc_OIDCAdminGroups cfg @ [x]\<rparr>
      else cfg)"

definition token_of_row :: "token_row \<Rightarrow> access_token" where
  "token_of_row k =
     \<lparr>at_ID = kr_token_id k, at_Prefix = kr_token_prefix k, at_Digest = kr_token_hash k,
      at_Description = kr_description k, at_CreatedAt = kr_created_at k, at_ExpiresAt = kr_expires_at k,
      at_RevokedAt = kr_revoked_at k, at_LastUsedAt = kr_last_used_at k\<rparr>"

definition loadAccessTokens :: "db \<Rightarrow> (string, nat) gomap \<Rightarrow> team_config list \<Rightarrow> team_config list" where
  "loadAccessTokens s index =
     fold (\<lambda>k. at_team index (kr_team k) (applyAccessToken (kr_token_type k) (token_of_row k)))
       (sort_key (\<lambda>k. (kr_team k, kr_token_type k, kr_token_prefix k)) (db_tokens s))"

definition loadAccessOwners :: "db \<Rightarrow> (string, nat) gomap \<Rightarrow> team_config list \<Rightarrow> team_config list" where
  "loadAccessOwners s index =
     fold (\<lambda>(team, owner). at_team index team (\<lambda>cfg. cfg\<lparr>tc_PublishOwners := tc_PublishOwners cfg @ [owner]\<rparr>))
       (sort (db_owners s))"

definition loadAccessOIDC :: "db \<Rightarrow> (string, nat) gomap \<Rightarrow> team_config list \<Rightarrow> team_config list" where
  "loadAccessOIDC s index =
     fold (\<lambda>(team, mappingType, x). at_team index team (applyAccessOIDCMapping mappingType x)) (sort (db_oidc s))"

definition loadTeamConfigs :: "db \<Rightarrow> string list \<Rightarrow> team_config list" where
  "loadTeamConfigs s teams =
     (case scanTeamRows teams of
        (configs, index) \<Rightarrow> loadAccessOIDC s index (loadAccessOwners s index (loadAccessTokens s index configs)))"

definition LoadTeamConfigs :: "db \<Rightarrow> team_config list" where
  "LoadTeamConfigs s = loadTeamConfigs s (sort (db_teams s))"

end
