(* ===== verification/AccessRoundtrip.thy ===== *)
theory AccessRoundtrip
  imports AccessConfig
begin

text \<open>
  Storing the access configuration and loading it back: \<open>LoadTeamConfigs\<close> returns what
  \<open>ReplaceTeamConfigs\<close> was given, with the values trimmed and the lists in the order of the
  queries.
\<close>

section \<open>Sorting\<close>

lemma insort_key_map: "insort_key f (g x) (map g ys) = map g (insort_key (\<lambda>z. f (g z)) x ys)"
  by (induction ys) auto

lemma sort_key_map: "sort_key f (map g xs) = map g (sort_key (\<lambda>z. f (g z)) xs)"
  by (induction xs) (simp_all add: insort_key_map)

lemma insort_key_order:
  "(\<And>x y. f x \<le> f y \<longleftrightarrow> g x \<le> g y) \<Longrightarrow> insort_key f x ys = insort_key g x ys"
  by (induction ys) auto

lemma sort_key_order:
  "(\<And>x y. f x \<le> f y \<longleftrightarrow> g x \<le> g y) \<Longrightarrow> sort_key f xs = sort_key g xs"
  by (induction xs) (simp_all add: insort_key_order [of f g])

section \<open>What is written\<close>

lemma insert_owners:
  "fold_sum (insertOwner team) s xs = Inr s' \<Longrightarrow> s' = s\<lparr>db_owners := db_owners s @ map (Pair team) xs\<rparr>"
  by (induction xs arbitrary: s) (fastforce simp: insertOwner_def split: if_splits)+

lemma insert_mappings:
  "fold_sum (insertOIDCMapping team) s xs = Inr s' \<Longrightarrow> s' = s\<lparr>db_oidc := db_oidc s @ map (Pair team) xs\<rparr>"
  by (induction xs arbitrary: s) (fastforce simp: insertOIDCMapping_def split: if_splits prod.splits)+

lemma insert_tokens:
  "fold_sum (insertSQLiteAccessTokenRecord team) s xs = Inr s' \<Longrightarrow>
     s' = s\<lparr>db_tokens := db_tokens s @ map (\<lambda>(ty, t). token_row_of team ty t) xs\<rparr>"
  by (induction xs arbitrary: s) (fastforce simp: insertSQLiteAccessTokenRecord_def split: if_splits prod.splits)+

text \<open>Configurations as the server keeps them: tokens are records, never raw texts.\<close>

definition no_raw_tokens :: "team_config \<Rightarrow> bool" where
  "no_raw_tokens cfg = (tc_ReadTokens cfg = [] \<and> tc_PublishTokens cfg = [])"

definition config_tokens :: "team_config \<Rightarrow> token_row list" where
  "config_tokens cfg =
     map (token_row_of (tc_Team cfg) ''read'') (tc_ReadTokenRecords cfg) @
     map (token_row_of (tc_Team cfg) ''publish'') (tc_PublishTokenRecords cfg)"

definition config_owners :: "team_config \<Rightarrow> (string \<times> string) list" where
  "config_owners cfg = map (Pair (tc_Team cfg)) (cleaned (tc_PublishOwners cfg))"

definition config_oidc :: "team_config \<Rightarrow> (string \<times> string \<times> string) list" where
  "config_oidc cfg = map (Pair (tc_Team cfg)) (accessOIDCMappings cfg)"

lemma persist_config_writes:
  assumes "persist_config now uuids h (n, s) cfg = Inr (n', s')" "no_raw_tokens cfg"
  shows "tc_Team cfg \<notin> set (db_teams s) \<and>
    s' = s\<lparr>db_teams := db_teams s @ [tc_Team cfg], db_tokens := db_tokens s @ config_tokens cfg,
           db_owners := db_owners s @ config_owners cfg, db_oidc := db_oidc s @ config_oidc cfg\<rparr>"
  using assms
  by (auto simp: persist_config_def insertTeam_def accessTokenRecords_def no_raw_tokens_def config_tokens_def
      config_owners_def config_oidc_def split: if_splits dest!: insert_tokens insert_owners insert_mappings)

lemma persist_configs_write:
  assumes "fold_sum (persist_config now uuids h) (n, s) configs = Inr (n', s')" "\<forall>cfg \<in> set configs. no_raw_tokens cfg"
  shows "distinct (map tc_Team configs) \<and> set (map tc_Team configs) \<inter> set (db_teams s) = {} \<and>
    db_teams s' = db_teams s @ map tc_Team configs \<and>
    db_tokens s' = db_tokens s @ concat (map config_tokens configs) \<and>
    db_owners s' = db_owners s @ concat (map config_owners configs) \<and>
    db_oidc s' = db_oidc s @ concat (map config_oidc configs)"
  using assms
proof (induction configs arbitrary: n s)
  case (Cons cfg configs)
  then obtain n1 s1 where s1: "persist_config now uuids h (n, s) cfg = Inr (n1, s1)"
      "fold_sum (persist_config now uuids h) (n1, s1) configs = Inr (n', s')"
    by auto
  note w = persist_config_writes [OF s1(1)]
  from Cons.IH [OF s1(2)] Cons.prems(2) w show ?case by auto
qed simp

section \<open>What is read\<close>

lemma scanTeamRows_ok:
  assumes "distinct teams"
  shows "fst (scanTeamRows teams) = map (\<lambda>t. empty_config\<lparr>tc_Team := t\<rparr>) teams"
    and "map_of (snd (scanTeamRows teams)) t = Some i \<longleftrightarrow> i < length teams \<and> teams ! i = t"
proof -
  have "distinct teams \<Longrightarrow> fst (scanTeamRows teams) = map (\<lambda>t. empty_config\<lparr>tc_Team := t\<rparr>) teams \<and>
      (\<forall>t i. map_of (snd (scanTeamRows teams)) t = Some i \<longleftrightarrow> i < length teams \<and> teams ! i = t)"
  proof (induction teams rule: rev_induct)
    case Nil
    then show ?case by (simp add: scanTeamRows_def)
  next
    case (snoc x xs)
    obtain cs ix where p: "scanTeamRows xs = (cs, ix)" by fastforce
    then have cs: "cs = map (\<lambda>t. empty_config\<lparr>tc_Team := t\<rparr>) xs"
        "\<And>t i. map_of ix t = Some i \<longleftrightarrow> i < length xs \<and> xs ! i = t"
      using snoc by auto
    have q: "scanTeamRows (xs @ [x]) = (cs @ [empty_config\<lparr>tc_Team := x\<rparr>], map_set x (length cs) ix)"
      using p by (simp add: scanTeamRows_def)
    have "\<And>i. i < length xs \<Longrightarrow> xs ! i \<noteq> x" using snoc.prems by auto
    then show ?case unfolding q fst_conv snd_conv map_of_set
      by (auto simp: cs nth_append less_Suc_eq split: if_splits)
  qed
  with assms show "fst (scanTeamRows teams) = map (\<lambda>t. empty_config\<lparr>tc_Team := t\<rparr>) teams"
    "map_of (snd (scanTeamRows teams)) t = Some i \<longleftrightarrow> i < length teams \<and> teams ! i = t"
    by blast+
qed

text \<open>A loop over rows that each change the configuration of their team.\<close>

lemma at_team_map:
  assumes "distinct teams" "\<And>t i. map_of index t = Some i \<longleftrightarrow> i < length teams \<and> teams ! i = t"
  shows "at_team index team f (map g teams) = map (\<lambda>t. if t = team then f (g t) else g t) teams"
proof (cases "map_of index team")
  case None
  then have "team \<notin> set teams" using assms(2) by (metis in_set_conv_nth option.distinct(1))
  with None show ?thesis by (auto simp: at_team_def)
next
  case (Some i)
  then have i: "i < length teams" "teams ! i = team" using assms(2) by blast+
  have "(map g teams)[i := f (map g teams ! i)] = map (\<lambda>t. if t = team then f (g t) else g t) teams"
    by (rule nth_equalityI) (use i assms(1) in \<open>auto simp: nth_list_update nth_eq_iff_index_eq\<close>)
  with Some show ?thesis by (simp add: at_team_def)
qed

lemma fold_at_team:
  assumes "distinct teams" "\<And>t i. map_of index t = Some i \<longleftrightarrow> i < length teams \<and> teams ! i = t"
  shows "fold (\<lambda>r. at_team index (team r) (f r)) rows (map g teams) =
    map (\<lambda>t. fold f (filter (\<lambda>r. team r = t) rows) (g t)) teams"
proof (induction rows arbitrary: g)
  case (Cons r rows)
  show ?case
    by (simp add: at_team_map [OF assms] Cons.IH)
qed simp

definition load_team :: "db \<Rightarrow> string \<Rightarrow> team_config" where
  "load_team s t =
     fold (\<lambda>(_, ty, x). applyAccessOIDCMapping ty x) (filter (\<lambda>r. fst r = t) (sort (db_oidc s)))
     (fold (\<lambda>(_, owner) cfg. cfg\<lparr>tc_PublishOwners := tc_PublishOwners cfg @ [owner]\<rparr>)
       (filter (\<lambda>r. fst r = t) (sort (db_owners s)))
     (fold (\<lambda>k. applyAccessToken (kr_token_type k) (token_of_row k))
       (filter (\<lambda>k. kr_team k = t) (sort_key (\<lambda>k. (kr_team k, kr_token_type k, kr_token_prefix k)) (db_tokens s)))
       (empty_config\<lparr>tc_Team := t\<rparr>)))"

lemma LoadTeamConfigs_teams:
  assumes "distinct (db_teams s)"
  shows "LoadTeamConfigs s = map (load_team s) (sort (db_teams s))"
proof -
  have d: "distinct (sort (db_teams s))" using assms by simp
  note fold = fold_at_team [OF d scanTeamRows_ok(2) [OF d]]
  note o = fold [of fst "\<lambda>r cfg. cfg\<lparr>tc_PublishOwners := tc_PublishOwners cfg @ [snd r]\<rparr>"]
  note m = fold [of fst "\<lambda>r. applyAccessOIDCMapping (fst (snd r)) (snd (snd r))"]
  show ?thesis
    unfolding LoadTeamConfigs_def loadTeamConfigs_def loadAccessTokens_def loadAccessOwners_def loadAccessOIDC_def
      load_team_def
    by (simp add: case_prod_beta' scanTeamRows_ok(1) [OF d] fold o m)
qed

section \<open>The configuration that comes back\<close>

definition stored_config :: "team_config \<Rightarrow> team_config" where
  "stored_config cfg =
     empty_config\<lparr>tc_Team := tc_Team cfg,
       tc_PublishOwners := sort (cleaned (tc_PublishOwners cfg)),
       tc_OIDCEmails := sort (cleaned (tc_OIDCEmails cfg)),
       tc_OIDCSubjects := sort (cleaned (tc_OIDCSubjects cfg)),
       tc_OIDCDomains := sort (cleaned (tc_OIDCDomains cfg)),
       tc_OIDCGroups := sort (cleaned (tc_OIDCGroups cfg)),
       tc_OIDCTeamAdminEmails := sort (cleaned (tc_OIDCTeamAdminEmails cfg)),
       tc_OIDCTeamAdminGroups := sort (cleaned (tc_OIDCTeamAdminGroups cfg)),
       tc_OIDCAdminEmails := sort (cleaned (tc_OIDCAdminEmails cfg)),
       tc_OIDCAdminSubjects := sort (cleaned (tc_OIDCAdminSubjects cfg)),
       tc_OIDCAdminGroups := sort (cleaned (tc_OIDCAdminGroups cfg)),
       tc_ReadTokenRecords := sort_key at_Prefix (tc_ReadTokenRecords cfg),
       tc_PublishTokenRecords := sort_key at_Prefix (tc_PublishTokenRecords cfg)\<rparr>"

lemma fold_tokens:
  "fold (\<lambda>k. applyAccessToken (kr_token_type k) (token_of_row k)) ks cfg =
     cfg\<lparr>tc_ReadTokenRecords := tc_ReadTokenRecords cfg @
           map token_of_row (filter (\<lambda>k. kr_token_type k = ''read'') ks),
         tc_PublishTokenRecords := tc_PublishTokenRecords cfg @
           map token_of_row (filter (\<lambda>k. kr_token_type k = ''publish'') ks)\<rparr>"
  by (induction ks arbitrary: cfg) (simp_all add: applyAccessToken_def)

lemma fold_owners:
  "fold (\<lambda>(_, owner) cfg. cfg\<lparr>tc_PublishOwners := tc_PublishOwners cfg @ [owner]\<rparr>) rs cfg =
     cfg\<lparr>tc_PublishOwners := tc_PublishOwners cfg @ map snd rs\<rparr>"
  by (induction rs arbitrary: cfg) auto

definition of_kind :: "string \<Rightarrow> (string \<times> string \<times> string) list \<Rightarrow> string list" where
  "of_kind kind rs = map (\<lambda>r. snd (snd r)) (filter (\<lambda>r. fst (snd r) = kind) rs)"

definition only :: "bool \<Rightarrow> 'a \<Rightarrow> 'a list" where
  "only b x = (if b then [x] else [])"

lemma applyAccessOIDCMapping_fields:
  "applyAccessOIDCMapping ty x cfg =
     cfg\<lparr>tc_OIDCEmails := tc_OIDCEmails cfg @ only (ty = ''email'') x,
         tc_OIDCSubjects := tc_OIDCSubjects cfg @ only (ty = ''subject'') x,
         tc_OIDCDomains := tc_OIDCDomains cfg @ only (ty = ''domain'') x,
         tc_OIDCGroups := tc_OIDCGroups cfg @ only (ty = ''group'') x,
         tc_OIDCTeamAdminEmails := tc_OIDCTeamAdminEmails cfg @ only (ty = ''team_admin_email'') x,
         tc_OIDCTeamAdminGroups := tc_OIDCTeamAdminGroups cfg @ only (ty = ''team_admin_group'') x,
         tc_OIDCAdminEmails := tc_OIDCAdminEmails cfg @ only (ty = ''admin_email'') x,
         tc_OIDCAdminSubjects := tc_OIDCAdminSubjects cfg @ only (ty = ''admin_subject'') x,
         tc_OIDCAdminGroups := tc_OIDCAdminGroups cfg @ only (ty = ''admin_group'') x\<rparr>"
  by (simp add: applyAccessOIDCMapping_def only_def)

lemma of_kind_Cons: "of_kind kind ((t, ty, x) # rs) = only (ty = kind) x @ of_kind kind rs"
  by (simp add: of_kind_def only_def)

lemma fold_oidc:
  "fold (\<lambda>(_, ty, x). applyAccessOIDCMapping ty x) rs cfg =
     cfg\<lparr>tc_OIDCEmails := tc_OIDCEmails cfg @ of_kind ''email'' rs,
         tc_OIDCSubjects := tc_OIDCSubjects cfg @ of_kind ''subject'' rs,
         tc_OIDCDomains := tc_OIDCDomains cfg @ of_kind ''domain'' rs,
         tc_OIDCGroups := tc_OIDCGroups cfg @ of_kind ''group'' rs,
         tc_OIDCTeamAdminEmails := tc_OIDCTeamAdminEmails cfg @ of_kind ''team_admin_email'' rs,
         tc_OIDCTeamAdminGroups := tc_OIDCTeamAdminGroups cfg @ of_kind ''team_admin_group'' rs,
         tc_OIDCAdminEmails := tc_OIDCAdminEmails cfg @ of_kind ''admin_email'' rs,
         tc_OIDCAdminSubjects := tc_OIDCAdminSubjects cfg @ of_kind ''admin_subject'' rs,
         tc_OIDCAdminGroups := tc_OIDCAdminGroups cfg @ of_kind ''admin_group'' rs\<rparr>"
proof (induction rs arbitrary: cfg)
  case Nil
  then show ?case by (simp add: of_kind_def)
next
  case (Cons r rs)
  obtain t ty x where r: "r = (t, ty, x)" by (cases r)
  have "fold (\<lambda>(_, ty, x). applyAccessOIDCMapping ty x) (r # rs) cfg =
      fold (\<lambda>(_, ty, x). applyAccessOIDCMapping ty x) rs (applyAccessOIDCMapping ty x cfg)"
    by (simp add: r)
  note this [unfolded Cons.IH [of "applyAccessOIDCMapping ty x cfg"]]
  then show ?case by (rule trans) (simp add: r applyAccessOIDCMapping_fields of_kind_Cons)
qed

text \<open>The rows of one team among those of all.\<close>

lemma filter_team:
  assumes "distinct (map team cs)" "c \<in> set cs" "\<And>d r. d \<in> set cs \<Longrightarrow> r \<in> set (rows d) \<Longrightarrow> key r = team d"
  shows "filter (\<lambda>r. key r = team c) (concat (map rows cs)) = rows c"
  using assms
proof (induction cs)
  case (Cons d cs)
  have none: "filter (\<lambda>r. key r = t) (concat (map rows cs)) = []" if "t \<notin> team ` set cs" for t
    using that Cons.prems(3) by (fastforce simp: filter_empty_conv)
  show ?case
  proof (cases "c = d")
    case True
    then have "team c \<notin> team ` set cs" using Cons.prems(1) by (simp del: distinct_map)
    moreover have "filter (\<lambda>r. key r = team c) (rows c) = rows c" using Cons.prems(3) True by (auto simp: filter_id_conv)
    ultimately show ?thesis using True none by simp
  next
    case False
    then have "team c \<noteq> team d" using Cons.prems(1,2) by (metis distinct.simps(2) imageI list.simps(9) set_ConsD list.set_map)
    then have "filter (\<lambda>r. key r = team c) (rows d) = []"
      using Cons.prems(3) [of d] unfolding filter_empty_conv by (metis list.set_intros(1))
    then show ?thesis using Cons False by simp
  qed
qed simp

lemma sort_pairs: "sort (map (Pair t) xs) = map (Pair t) (sort xs)"
  by (simp add: sort_key_map sort_key_order [of "Pair t" "\<lambda>x. x" xs])

lemma of_kind_sorted:
  "of_kind kind (map (Pair t) (sort ys)) = sort (map snd (filter (\<lambda>r. fst r = kind) ys))"
proof -
  have "of_kind kind (map (Pair t) (sort ys)) = map snd (sort (filter (\<lambda>r. fst r = kind) ys))"
    by (simp add: of_kind_def filter_map comp_def filter_sort [symmetric])
  also have "filter (\<lambda>r. fst r = kind) ys = map (Pair kind) (map snd (filter (\<lambda>r. fst r = kind) ys))"
    by (induction ys) auto
  also have "map snd (sort (map (Pair kind) (map snd (filter (\<lambda>r. fst r = kind) ys)))) =
      sort (map snd (filter (\<lambda>r. fst r = kind) ys))"
    unfolding sort_pairs by (simp add: comp_def)
  finally show ?thesis .
qed

lemma sort_key_tuple: "sort_key (\<lambda>z. (a, b, f z)) xs = sort_key f xs"
  by (rule sort_key_order) simp

lemma token_row_fields:
  "token_of_row (token_row_of team ty t) = t" "kr_token_type (token_row_of team ty t) = ty"
  "kr_team (token_row_of team ty t) = team" "kr_token_prefix (token_row_of team ty t) = at_Prefix t"
  by (simp_all add: token_of_row_def token_row_of_def)

lemma mappings_of_kind:
  "map snd (filter (\<lambda>r. fst r = ''email'') (accessOIDCMappings cfg)) = cleaned (tc_OIDCEmails cfg)"
  "map snd (filter (\<lambda>r. fst r = ''subject'') (accessOIDCMappings cfg)) = cleaned (tc_OIDCSubjects cfg)"
  "map snd (filter (\<lambda>r. fst r = ''domain'') (accessOIDCMappings cfg)) = cleaned (tc_OIDCDomains cfg)"
  "map snd (filter (\<lambda>r. fst r = ''group'') (accessOIDCMappings cfg)) = cleaned (tc_OIDCGroups cfg)"
  "map snd (filter (\<lambda>r. fst r = ''team_admin_email'') (accessOIDCMappings cfg)) = cleaned (tc_OIDCTeamAdminEmails cfg)"
  "map snd (filter (\<lambda>r. fst r = ''team_admin_group'') (accessOIDCMappings cfg)) = cleaned (tc_OIDCTeamAdminGroups cfg)"
  "map snd (filter (\<lambda>r. fst r = ''admin_email'') (accessOIDCMappings cfg)) = cleaned (tc_OIDCAdminEmails cfg)"
  "map snd (filter (\<lambda>r. fst r = ''admin_subject'') (accessOIDCMappings cfg)) = cleaned (tc_OIDCAdminSubjects cfg)"
  "map snd (filter (\<lambda>r. fst r = ''admin_group'') (accessOIDCMappings cfg)) = cleaned (tc_OIDCAdminGroups cfg)"
  by (simp_all add: accessOIDCMappings_def Let_def filter_map comp_def cleaned_def)

lemma load_stored:
  assumes "distinct (map tc_Team configs)" "cfg \<in> set configs"
    and "db_tokens s = concat (map config_tokens configs)"
    and "db_owners s = concat (map config_owners configs)"
    and "db_oidc s = concat (map config_oidc configs)"
  shows "load_team s (tc_Team cfg) = stored_config cfg"
proof -
  let ?t = "tc_Team cfg" and ?k = "\<lambda>k. (kr_team k, kr_token_type k, kr_token_prefix k)"
  have tok: "filter (\<lambda>k. kr_team k = ?t) (db_tokens s) = config_tokens cfg"
    unfolding assms(3) by (rule filter_team [OF assms(1,2)]) (auto simp: config_tokens_def token_row_of_def)
  have own: "filter (\<lambda>r. fst r = ?t) (sort (db_owners s)) = map (Pair ?t) (sort (cleaned (tc_PublishOwners cfg)))"
    unfolding filter_sort assms(4)
    by (subst filter_team [OF assms(1,2)]) (auto simp: config_owners_def sort_pairs)
  have oidc: "filter (\<lambda>r. fst r = ?t) (sort (db_oidc s)) = map (Pair ?t) (sort (accessOIDCMappings cfg))"
    unfolding filter_sort assms(5)
    by (subst filter_team [OF assms(1,2)]) (auto simp: config_oidc_def sort_pairs)
  have typed: "map token_of_row (filter (\<lambda>k. kr_token_type k = ty) (sort_key ?k (config_tokens cfg))) =
      sort_key at_Prefix (if ty = ''read'' then tc_ReadTokenRecords cfg
                          else if ty = ''publish'' then tc_PublishTokenRecords cfg else [])" for ty
    by (simp add: filter_sort config_tokens_def filter_map comp_def token_row_fields sort_key_map sort_key_tuple)
  show ?thesis
    unfolding load_team_def fold_tokens fold_owners fold_oidc own oidc of_kind_sorted mappings_of_kind
    unfolding filter_sort tok stored_config_def
    using typed [of "''read''"] typed [of "''publish''"] by (simp add: filter_sort empty_config_def comp_def)
qed

section \<open>Properties\<close>

text \<open>The foreign keys of the access tables.\<close>

definition access_fk :: "db \<Rightarrow> bool" where
  "access_fk s =
     (distinct (db_teams s) \<and> (\<forall>k \<in> set (db_tokens s). kr_team k \<in> set (db_teams s)) \<and>
      (\<forall>r \<in> set (db_owners s). fst r \<in> set (db_teams s)) \<and> (\<forall>r \<in> set (db_oidc s). fst r \<in> set (db_teams s)))"

lemma clearTeams_empty:
  "access_fk s \<Longrightarrow> clearTeams s = s\<lparr>db_teams := [], db_tokens := [], db_owners := [], db_oidc := []\<rparr>"
  by (simp add: clearTeams_def access_fk_def delete_where_def filter_empty_conv case_prod_beta')

lemma commit_access_tables:
  assumes "commitSQLiteMutation v c tx = Inr (c', s')"
  shows "db_teams s' = db_teams tx" "db_tokens s' = db_tokens tx" "db_owners s' = db_owners tx" "db_oidc s' = db_oidc tx"
  using assms
  by (auto simp: commitSQLiteMutation_def recordSQLiteAuditEvent_def Let_def split: option.splits sum.splits if_splits)

lemma replace_writes:
  assumes "access_fk s" "\<forall>cfg \<in> set configs. no_raw_tokens cfg"
    and "ReplaceTeamConfigs v av uuids h c s configs = ((c', s'), Inr ())"
  shows "distinct (map tc_Team configs)" "db_teams s' = map tc_Team configs"
    "db_tokens s' = concat (map config_tokens configs)" "db_owners s' = concat (map config_owners configs)"
    "db_oidc s' = concat (map config_oidc configs)"
proof -
  obtain n1 tx where p: "fold_sum (persist_config (v_now v) uuids h) (0, clearTeams s) configs = Inr (n1, tx)"
      and c: "commitSQLiteMutation v c tx = Inr (c', s')"
    using assms(3)
    by (auto simp: ReplaceTeamConfigs_def replaceAccessConfig_def persistTeamConfigs_def rolled_back_def
        split: sum.splits)
  note w = persist_configs_write [OF p assms(2), unfolded clearTeams_empty [OF assms(1)]]
  then show "distinct (map tc_Team configs)" by blast
  show "db_teams s' = map tc_Team configs"
    "db_tokens s' = concat (map config_tokens configs)" "db_owners s' = concat (map config_owners configs)"
    "db_oidc s' = concat (map config_oidc configs)"
    using w unfolding commit_access_tables [OF c] by simp_all
qed

text \<open>
  C28: Loading the access configuration returns what was stored. After a successful
  \<open>ReplaceTeamConfigs\<close>, \<open>LoadTeamConfigs\<close> yields one configuration for each that was given, in the
  order of the team names, with its token records, spaces and OIDC lists trimmed, without blanks and
  sorted, and nothing of the configuration before; the foreign keys hold again.
\<close>

theorem access_config_roundtrip:
  assumes "access_fk s" and "\<forall>cfg \<in> set configs. no_raw_tokens cfg"
    and "ReplaceTeamConfigs v av uuids h c s configs = ((c', s'), Inr ())"
  shows "LoadTeamConfigs s' = map stored_config (sort_key tc_Team configs) \<and> access_fk s'"
proof -
  note w = replace_writes [OF assms]
  have "LoadTeamConfigs s' = map (load_team s') (sort (map tc_Team configs))"
    using LoadTeamConfigs_teams [of s'] w(1,2) by simp
  also have "\<dots> = map (\<lambda>cfg. load_team s' (tc_Team cfg)) (sort_key tc_Team configs)"
    by (simp add: sort_key_map comp_def)
  also have "\<dots> = map stored_config (sort_key tc_Team configs)"
    by (rule map_cong [OF refl]) (simp add: load_stored [OF w(1) _ w(3-5)])
  finally have "LoadTeamConfigs s' = map stored_config (sort_key tc_Team configs)" .
  moreover have "access_fk s'"
    using w by (auto simp: access_fk_def config_tokens_def config_owners_def config_oidc_def token_row_of_def)
  ultimately show ?thesis by blast
qed

definition example_configs :: "team_config list" where
  "example_configs =
     [empty_config\<lparr>tc_Team := ''ops'', tc_PublishOwners := [''web''], tc_OIDCGroups := [''b'', [], '' a'']\<rparr>,
      empty_config\<lparr>tc_Team := ''dev'', tc_ReadTokenRecords :=
        [zero_token\<lparr>at_ID := ''1'', at_Prefix := ''p'', at_Digest := ''d''\<rparr>]\<rparr>]"

definition example_access :: "unit op_result" where
  "example_access =
     ReplaceTeamConfigs \<lparr>v_sv = documented_semver, v_now = 5, v_uuid = [], v_audit_uuid = []\<rparr>
       \<lparr>ae_lower = ascii_to_lower, ae_now = 5\<rparr> (\<lambda>_. []) None None empty_db example_configs"

theorem access_config_roundtrip_witness:
  "map (\<lambda>cfg. (tc_Team cfg, tc_OIDCGroups cfg)) (LoadTeamConfigs (snd (fst example_access))) =
     [(''dev'', []), (''ops'', [''a'', ''b''])]"
proof -
  have ok: "snd example_access = Inr ()" "fst (fst example_access) = None" by code_simp+
  then have r: "example_access = ((None, snd (fst example_access)), Inr ())" by (metis prod.collapse)
  have raw: "\<forall>cfg \<in> set example_configs. no_raw_tokens cfg" by code_simp
  have fk: "access_fk empty_db" by code_simp
  note rt = access_config_roundtrip [OF fk raw r [unfolded example_access_def]]
  have s: "map (\<lambda>cfg. (tc_Team cfg, tc_OIDCGroups cfg)) (map stored_config (sort_key tc_Team example_configs)) =
      [(''dev'', []), (''ops'', [''a'', ''b''])]"
    by code_simp
  show ?thesis using rt s unfolding example_access_def by simp
qed

end
