(* ===== verification/AuthProperties.thy ===== *)
theory AuthProperties
  imports Auth
begin

text \<open>
  Who gets in, and with which rights: the authorizer against the configurations it was built from.
\<close>

section \<open>Tokens\<close>

lemma lookup_enabled: "newAuthorizer v configs h = Inr a \<Longrightarrow> map_of (az_tokens a) k = Some p \<Longrightarrow> az_enabled a"
  by (auto simp: newAuthorizer_def)

text \<open>
  C27: A bearer token is worth what the configurations say. The authorizer of a configuration
  recognises exactly the tokens that are listed there: the raw tokens and the active token records
  with the digest of the presented token, each with the principal of its team and role.
\<close>

theorem token_access_exact:
  assumes "NewAuthorizerWithTokenHasher v configs (Some digest) = Inr a"
  shows "AuthenticateToken (Some a) token = Some p \<longleftrightarrow>
    trim_space token \<noteq> [] \<and>
    (\<exists>cfg \<in> set configs. (digest token, p) \<in> set (token_grants v (Some digest) (trimmed cfg)))"
proof -
  have n: "newAuthorizer v configs (Some digest) = Inr a"
    using assms by (simp add: NewAuthorizerWithTokenHasher_def)
  note t = authorizer_tokens [OF n] and h = authorizer_hasher [OF n] and e = lookup_enabled [OF n]
  show ?thesis
    using e [of "digest token" p] by (auto simp: AuthenticateToken_def h t split: if_splits)
qed

definition example_team :: team_config where
  "example_team = empty_config\<lparr>tc_Team := '' ops '', tc_PublishOwners := [''web''],
     tc_OIDCDomains := [''@Example.org''], tc_OIDCTeamAdminEmails := [''boss@example.org''],
     tc_ReadTokenRecords :=
       [\<lparr>at_ID = ''1'', at_Prefix = ''p'', at_Digest = ''#secret'', at_Description = ''ci'', at_CreatedAt = 0,
         at_ExpiresAt = Some 100, at_RevokedAt = None, at_LastUsedAt = None\<rparr>]\<rparr>"

definition example_admins :: team_config where
  "example_admins = empty_config\<lparr>tc_Team := ''platform-admin'', tc_OIDCAdminGroups := [''Admins'']\<rparr>"

definition example_env :: auth_env where
  "example_env = \<lparr>ae_lower = ascii_to_lower, ae_now = 50\<rparr>"

definition example_authorizer :: authorizer where
  "example_authorizer =
     (case newAuthorizer example_env [example_team, example_admins] (Some (\<lambda>t. CHR ''#'' # t)) of Inr a \<Rightarrow> a)"

lemma example_authorizer_built:
  "newAuthorizer example_env [example_team, example_admins] (Some (\<lambda>t. CHR ''#'' # t)) = Inr example_authorizer"
proof -
  have "\<not> isl (newAuthorizer example_env [example_team, example_admins] (Some (\<lambda>t. CHR ''#'' # t)))" by code_simp
  then show ?thesis unfolding example_authorizer_def by (cases "newAuthorizer example_env [example_team, example_admins] (Some (\<lambda>t. CHR ''#'' # t))") auto
qed

theorem token_access_exact_witness:
  "AuthenticateToken (Some example_authorizer) ''other'' = None \<and>
   (\<exists>p. AuthenticateToken (Some example_authorizer) ''secret'' = Some p \<and> p_Team p = ''ops'' \<and> \<not> p_CanPublish p)"
proof -
  have "NewAuthorizerWithTokenHasher example_env [example_team, example_admins] (Some (\<lambda>t. CHR ''#'' # t)) =
      Inr example_authorizer"
    by (simp add: NewAuthorizerWithTokenHasher_def example_authorizer_built)
  note ex = token_access_exact [OF this]
  have g: "token_grants example_env (Some (\<lambda>t. CHR ''#'' # t)) (trimmed example_admins) = []" by code_simp
  have g1: "map fst (token_grants example_env (Some (\<lambda>t. CHR ''#'' # t)) (trimmed example_team)) = [''#secret'']"
    "map (\<lambda>g. (p_Team (snd g), p_CanPublish (snd g)))
       (token_grants example_env (Some (\<lambda>t. CHR ''#'' # t)) (trimmed example_team)) = [(''ops'', False)]"
    by code_simp+
  then obtain p where p: "token_grants example_env (Some (\<lambda>t. CHR ''#'' # t)) (trimmed example_team) = [(''#secret'', p)]"
      "p_Team p = ''ops''" "\<not> p_CanPublish p"
    by (auto simp: map_eq_Cons_conv)
  have "AuthenticateToken (Some example_authorizer) ''secret'' = Some p"
    using ex [of "''secret''" p] p(1) by (simp add: trim_space_graphic graphic_def)
  moreover have "AuthenticateToken (Some example_authorizer) ''other'' = None"
    using ex [of "''other''"] p(1) g by (cases "AuthenticateToken (Some example_authorizer) ''other''") auto
  ultimately show ?thesis using p by blast
qed

section \<open>OIDC identities\<close>

definition granted :: "auth_env \<Rightarrow> team_config list \<Rightarrow> string \<Rightarrow> string \<Rightarrow> string list \<Rightarrow> principal set" where
  "granted v configs email subject groups =
     (\<Union>cfg \<in> set configs. oidc_grants v (trimmed cfg) email subject groups)"

lemma has_authenticated:
  assumes "newAuthorizer v configs h = Inr a" "additive P" "\<And>p t. P (p\<lparr>p_Team := t\<rparr>) = P p"
  shows "has P (AuthenticateOIDC v (Some a) email subject groups) =
    (\<exists>p \<in> granted v configs email subject groups. P p)"
proof -
  let ?c = "oidc_candidates v a email subject groups"
  have g: "(\<exists>c \<in> set ?c. has P c) = (\<exists>p \<in> granted v configs email subject groups. P p)"
    using has_oidc_candidates [OF assms(1,2)] by (simp add: granted_def)
  have "has P (AuthenticateOIDC v (Some a) email subject groups) =
      (az_enabled a \<and> has P (fold (\<lambda>c first. addCandidate first c) ?c None))"
    by (auto simp: AuthenticateOIDC_def has_def assms(3) split: option.splits)
  moreover have "(\<exists>c \<in> set ?c. has P c) \<Longrightarrow> az_enabled a"
    using assms(1) by (auto simp: oidc_candidates_def Let_def has_def newAuthorizer_def split: option.splits if_splits)
  ultimately show ?thesis using g by (auto simp: has_candidates [OF assms(2)])
qed

text \<open>
  C26: An OIDC identity gets the union of what the configurations grant it. Whatever the order of
  teams, lists and groups and however often an identity is listed, \<open>AuthenticateOIDC\<close> recognises it
  exactly when some configuration lists it, and each right, each publish space and each managed team
  of the result is one that some configuration grants to that identity, and conversely.
\<close>

theorem oidc_access_exact:
  assumes "newAuthorizer v configs h = Inr a" and "G = granted v configs email subject groups"
  shows "case AuthenticateOIDC v (Some a) email subject groups of
      None \<Rightarrow> G = {}
    | Some p \<Rightarrow> G \<noteq> {} \<and>
        p_CanRead p = (\<exists>q \<in> G. p_CanRead q) \<and> p_CanPublish p = (\<exists>q \<in> G. p_CanPublish q) \<and>
        p_CanManageTeam p = (\<exists>q \<in> G. p_CanManageTeam q) \<and> p_CanAdmin p = (\<exists>q \<in> G. p_CanAdmin q) \<and>
        p_PublishOwners p = \<Union> (p_PublishOwners ` G) \<and> p_ManagedTeams p = \<Union> (p_ManagedTeams ` G)"
proof -
  note h = has_authenticated [OF assms(1), of _ email subject groups, folded assms(2)]
  note all = h [of "\<lambda>_. True"] h [of p_CanRead] h [of p_CanPublish] h [of p_CanManageTeam] h [of p_CanAdmin]
    h [of "\<lambda>p. _ \<in> p_PublishOwners p"] h [of "\<lambda>p. _ \<in> p_ManagedTeams p"]
  show ?thesis
  proof (cases "AuthenticateOIDC v (Some a) email subject groups")
    case None
    then show ?thesis using all(1) by auto
  next
    case (Some p)
    have "p_PublishOwners p = \<Union> (p_PublishOwners ` G)" "p_ManagedTeams p = \<Union> (p_ManagedTeams ` G)"
      using all(6,7) Some by auto
    then show ?thesis using all(1-5) Some by auto
  qed
qed

theorem oidc_access_exact_witness:
  "case AuthenticateOIDC example_env (Some example_authorizer) ''Boss@Example.ORG'' [] [''admins''] of
     None \<Rightarrow> False
   | Some p \<Rightarrow> p_CanAdmin p \<and>
       (\<exists>q \<in> granted example_env [example_team, example_admins] ''Boss@Example.ORG'' [] [''admins'']. p_CanAdmin q)"
proof -
  have "map_option p_CanAdmin (AuthenticateOIDC example_env (Some example_authorizer) ''Boss@Example.ORG'' [] [''admins'']) = Some True"
    by code_simp
  then show ?thesis
    using oidc_access_exact [OF example_authorizer_built refl, of "''Boss@Example.ORG''" "[]" "[''admins'']"]
    by (auto split: option.splits)
qed

text \<open>Building the authorizer checks the roles of every configuration.\<close>

lemma configs_checked:
  assumes "fold_sum (register_config v h) b configs = Inr b'" "cfg \<in> set configs"
  shows "validateTeamConfigRole (trimmed cfg) = None"
  using assms
  by (induction configs arbitrary: b)
     (auto simp: register_config_def check_team_def trimmed_def Let_def split: option.splits if_splits)

text \<open>
  Only the reserved team makes global administrators, and only its own team lets a team
  administrator delete. If an OIDC identity may delete in a publish space, then either it is listed
  among the administrators of a configuration of the team \<open>platform-admin\<close>, or the configuration of
  the team with the name of that space lists it among its team administrators.
\<close>

theorem oidc_delete_rights:
  assumes "newAuthorizer v configs h = Inr a"
    and "AuthenticateOIDC v (Some a) email subject groups = Some p" and "CanDeleteOwner p owner"
  shows "\<exists>cfg \<in> set configs.
    (IsGlobalAdminConfig cfg \<and>
       (email_listed v (tc_OIDCAdminEmails cfg) email \<or> subject_listed (tc_OIDCAdminSubjects cfg) subject \<or>
        group_listed v (tc_OIDCAdminGroups cfg) groups)) \<or>
    (trim_space (tc_Team cfg) = owner \<and>
       (email_listed v (tc_OIDCTeamAdminEmails cfg) email \<or> group_listed v (tc_OIDCTeamAdminGroups cfg) groups))"
proof -
  let ?G = "granted v configs email subject groups"
  obtain b where reg: "\<exists>b0. fold_sum (register_config v h) b0 configs = Inr b"
    using assms(1) by (auto simp: newAuthorizer_def)
  have role: "cfg \<in> set configs \<Longrightarrow> validateTeamConfigRole (trimmed cfg) = None" for cfg
    using reg configs_checked by blast
  note ex = oidc_access_exact [OF assms(1) refl, of email subject groups, unfolded assms(2) option.case]
  have adm: "p_CanAdmin p = (\<exists>q \<in> ?G. p_CanAdmin q)" using ex by (elim conjE)
  have man: "p_CanManageTeam p = (\<exists>q \<in> ?G. p_CanManageTeam q)" using ex by (elim conjE)
  have teams: "p_ManagedTeams p = \<Union> (p_ManagedTeams ` ?G)" using ex by (elim conjE)
  show ?thesis
  proof (cases "p_CanAdmin p")
    case True
    then obtain q where "q \<in> ?G" "p_CanAdmin q" using adm by blast
    then obtain cfg where cfg: "cfg \<in> set configs" "\<exists>q \<in> oidc_grants v (trimmed cfg) email subject groups. p_CanAdmin q"
      unfolding granted_def by blast
    then have listed: "email_listed v (tc_OIDCAdminEmails cfg) email \<or> subject_listed (tc_OIDCAdminSubjects cfg) subject \<or>
        group_listed v (tc_OIDCAdminGroups cfg) groups"
      unfolding ex_oidc_grants
      by (simp add: trimmed_def publish_principal_def read_principal_def teamAdminPrincipal_def no_principal_def)
    then have "tc_OIDCAdminEmails cfg \<noteq> [] \<or> tc_OIDCAdminSubjects cfg \<noteq> [] \<or> tc_OIDCAdminGroups cfg \<noteq> []"
      by (auto simp: email_listed_def subject_listed_def group_listed_def)
    then have "IsGlobalAdminConfig (trimmed cfg)"
      using role [OF cfg(1)] unfolding validateTeamConfigRole_def by (simp add: trimmed_def split: if_splits)
    then have "IsGlobalAdminConfig cfg" by (simp add: IsGlobalAdminConfig_def trimmed_def)
    with cfg(1) listed show ?thesis by blast
  next
    case False
    then have m: "p_CanManageTeam p" "p_ManagedTeams p = {} \<or> owner \<in> p_ManagedTeams p"
      using assms(3) by (auto simp: CanDeleteOwner_def split: if_splits)
    then obtain q where q: "q \<in> ?G" "p_CanManageTeam q" using man by blast
    then have "p_ManagedTeams q \<noteq> {}"
      by (auto simp: granted_def oidc_grants_def publish_principal_def read_principal_def teamAdminPrincipal_def
          adminPrincipal_def no_principal_def)
    then have "owner \<in> p_ManagedTeams p" using m(2) teams q(1) by blast
    then obtain r where "r \<in> ?G" "owner \<in> p_ManagedTeams r" using teams by blast
    then obtain cfg where cfg: "cfg \<in> set configs"
        "\<exists>r \<in> oidc_grants v (trimmed cfg) email subject groups. owner \<in> p_ManagedTeams r"
      unfolding granted_def by blast
    from cfg(2) have "owner = trim_space (tc_Team cfg) \<and>
        (email_listed v (tc_OIDCTeamAdminEmails cfg) email \<or> group_listed v (tc_OIDCTeamAdminGroups cfg) groups)"
      unfolding ex_oidc_grants
      by (simp add: trimmed_def publish_principal_def read_principal_def teamAdminPrincipal_def adminPrincipal_def
          no_principal_def)
    with cfg(1) show ?thesis by blast
  qed
qed

theorem oidc_delete_rights_witness:
  "email_listed example_env [''boss@example.org''] '' BOSS@example.org'' \<and>
   \<not> (\<exists>p. AuthenticateOIDC example_env (Some example_authorizer) ''boss@example.org'' [] [] = Some p \<and>
        CanDeleteOwner p ''web'')"
proof -
  have n: "\<not> email_listed example_env (tc_OIDCAdminEmails example_team) ''boss@example.org''" by code_simp
  have "\<not> CanDeleteOwner p ''web''"
    if "AuthenticateOIDC example_env (Some example_authorizer) ''boss@example.org'' [] [] = Some p" for p
  proof
    assume "CanDeleteOwner p ''web''"
    from oidc_delete_rights [OF example_authorizer_built that this]
    have "IsGlobalAdminConfig example_team \<or> IsGlobalAdminConfig example_admins \<and> 
        email_listed example_env (tc_OIDCAdminEmails example_admins) ''boss@example.org'' \<or>
        trim_space (tc_Team example_team) = ''web'' \<or> trim_space (tc_Team example_admins) = ''web''"
      by (auto simp: subject_listed_def group_listed_def)
    moreover have "\<not> IsGlobalAdminConfig example_team" "trim_space (tc_Team example_team) \<noteq> ''web''"
      "\<not> email_listed example_env (tc_OIDCAdminEmails example_admins) ''boss@example.org''"
      "trim_space (tc_Team example_admins) \<noteq> ''web''"
      by code_simp+
    ultimately show False by blast
  qed
  moreover have "email_listed example_env [''boss@example.org''] '' BOSS@example.org''" by code_simp
  ultimately show ?thesis by blast
qed

end
