(* ===== verification/Authz.thy ===== *)
theory Authz
  imports AuthProperties AccessConfig SqliteShared Throttle
begin

text \<open>
  Read access of an HTTP request (\<open>internal/httpapi/router_authz.go\<close>): the snapshot of the authorizer
  with its refresh and its maximal age, the check that the token is still active in the store, and the
  record of its use. A handler runs at one instant \<open>now\<close>; \<open>outage\<close> says that the store does not
  answer, \<open>busy\<close> that another refresh holds the lock. A rejection is its status and message.
\<close>

section \<open>State\<close>

record authz =
  rt_publicModuleAccess :: bool
  rt_refreshAccessConfig :: bool
  rt_tokenHasher :: token_hasher
  rt_adminToken :: string
  rt_authorizer :: "authorizer option"
  rt_authorizerRefreshed :: time
  rt_tokenUsage :: expiry_set

definition accessConfigRefreshTTL :: time where "accessConfigRefreshTTL = 2 * second"
definition accessConfigMaxStaleTTL :: time where "accessConfigMaxStaleTTL = 30 * second"

type_synonym rejection = "nat \<times> string"

section \<open>The snapshot\<close>

definition setAuthorizer :: "authz \<Rightarrow> authorizer \<Rightarrow> time \<Rightarrow> authz" where
  "setAuthorizer r a refreshedAt = r\<lparr>rt_authorizer := Some a, rt_authorizerRefreshed := refreshedAt\<rparr>"

definition refreshAuthorizer ::
    "(string \<Rightarrow> string) \<Rightarrow> bool \<Rightarrow> db \<Rightarrow> bool \<Rightarrow> time \<Rightarrow> bool \<Rightarrow> authz \<Rightarrow> authz \<times> string option" where
  "refreshAuthorizer lower busy s outage now force r =
     (if \<not> rt_refreshAccessConfig r then (r, None)
      else if \<not> force \<and> busy then (r, None)
      else if \<not> force \<and> rt_authorizerRefreshed r \<noteq> zero_time \<and>
              now - rt_authorizerRefreshed r < accessConfigRefreshTTL then (r, None)
      else if outage then (r, Some ''list access teams'')
      else
        let configs = AccessConfigsWithRuntimeAdmin (LoadTeamConfigs s) (rt_adminToken r);
            av = \<lparr>ae_lower = lower, ae_now = now\<rparr>
        in case (if rt_tokenHasher r \<noteq> None then NewAuthorizerWithTokenHasher av configs (rt_tokenHasher r)
                 else NewAuthorizer av configs) of
             Inl _ \<Rightarrow> (r, Some ''access config'')
           | Inr a \<Rightarrow> (setAuthorizer r a now, None))"

definition currentAuthorizer ::
    "(string \<Rightarrow> string) \<Rightarrow> bool \<Rightarrow> db \<Rightarrow> bool \<Rightarrow> time \<Rightarrow> authz \<Rightarrow> authz \<times> (string + authorizer option)" where
  "currentAuthorizer lower busy s outage now r0 =
     (let r = fst (refreshAuthorizer lower busy s outage now False r0) in
      if rt_refreshAccessConfig r \<and>
         (rt_authorizerRefreshed r = zero_time \<or> accessConfigMaxStaleTTL < now - rt_authorizerRefreshed r)
      then (r, Inl ''access configuration is unavailable'')
      else (r, Inr (rt_authorizer r)))"

definition refreshManageAuthorizer ::
    "(string \<Rightarrow> string) \<Rightarrow> bool \<Rightarrow> db \<Rightarrow> bool \<Rightarrow> time \<Rightarrow> authz \<Rightarrow> authz \<times> string option" where
  "refreshManageAuthorizer lower busy s outage now r =
     (case refreshAuthorizer lower busy s outage now True r of
        (r1, None) \<Rightarrow> (r1, None)
      | (r1, Some _) \<Rightarrow> (r1, Some ''refresh manage access configuration''))"

section \<open>Tokens in use\<close>

definition requireActiveAccessToken :: "db \<Rightarrow> bool \<Rightarrow> time \<Rightarrow> principal \<Rightarrow> rejection option" where
  "requireActiveAccessToken s outage now p =
     (if p_TokenID p = [] then None
      else case (if outage then Inl (StoreError ''check access token activity'')
                 else IsAccessTokenActive s (p_TokenID p) now) of
             Inl _ \<Rightarrow> Some (503, ''access token validation failed'')
           | Inr active \<Rightarrow> if active then None else Some (401, ''access token is inactive''))"

definition recordAccessTokenUsed :: "bool \<Rightarrow> time \<Rightarrow> principal \<Rightarrow> authz \<times> db \<Rightarrow> authz \<times> db" where
  "recordAccessTokenUsed outage now p = (\<lambda>(r, s).
     if p_TokenID p = [] then (r, s)
     else case es_Record (rt_tokenUsage r) (p_TokenID p) now of
            (u, recorded) \<Rightarrow>
              if \<not> recorded then (r\<lparr>rt_tokenUsage := u\<rparr>, s)
              else case (if outage then (s, Inl (StoreError ''mark access token used''))
                         else MarkAccessTokenUsed s (p_TokenID p) now) of
                     (s1, Inl _) \<Rightarrow> (r\<lparr>rt_tokenUsage := es_Forget u (p_TokenID p)\<rparr>, s1)
                   | (s1, Inr _) \<Rightarrow> (r\<lparr>rt_tokenUsage := u\<rparr>, s1))"

section \<open>Read access\<close>

text \<open>With public access a valid token only names the reader; \<open>None\<close> is the anonymous reader.\<close>

definition attachOptionalReadPrincipal ::
    "(string \<Rightarrow> string) \<Rightarrow> bool \<Rightarrow> bool \<Rightarrow> time \<Rightarrow> string \<Rightarrow> authz \<times> db \<Rightarrow> (authz \<times> db) \<times> principal option" where
  "attachOptionalReadPrincipal lower busy outage now header = (\<lambda>(r0, s).
     if header = [] then ((r0, s), None)
     else case currentAuthorizer lower busy s outage now r0 of
            (r, Inr (Some a)) \<Rightarrow>
              (case AuthenticateRequest (Some a) header of
                 None \<Rightarrow> ((r, s), None)
               | Some p \<Rightarrow>
                   if \<not> p_CanRead p then ((r, s), None)
                   else if p_TokenID p \<noteq> [] \<and> (outage \<or> IsAccessTokenActive s (p_TokenID p) now \<noteq> Inr True)
                   then ((r, s), None)
                   else (recordAccessTokenUsed outage now p (r, s), Some p))
          | (r, _) \<Rightarrow> ((r, s), None))"

definition requireReadAccess ::
    "(string \<Rightarrow> string) \<Rightarrow> bool \<Rightarrow> bool \<Rightarrow> time \<Rightarrow> string \<Rightarrow> authz \<times> db \<Rightarrow> (authz \<times> db) \<times> (rejection + principal option)" where
  "requireReadAccess lower busy outage now header = (\<lambda>(r0, s).
     if rt_publicModuleAccess r0
     then map_prod (\<lambda>x. x) Inr (attachOptionalReadPrincipal lower busy outage now header (r0, s))
     else case currentAuthorizer lower busy s outage now r0 of
            (r, Inl e) \<Rightarrow> ((r, s), Inl (503, e))
          | (r, Inr None) \<Rightarrow> ((r, s), Inl (503, ''authorizer is not configured''))
          | (r, Inr (Some a)) \<Rightarrow>
              (case RequireRead (Some a) header of
                 Inl e \<Rightarrow> ((r, s), Inl e)
               | Inr p \<Rightarrow>
                   (case requireActiveAccessToken s outage now p of
                      Some e \<Rightarrow> ((r, s), Inl e)
                    | None \<Rightarrow> (recordAccessTokenUsed outage now p (r, s), Inr (Some p)))))"

section \<open>Properties\<close>

lemma record_keeps:
  "rt_authorizer (fst (recordAccessTokenUsed outage now p (r, s))) = rt_authorizer r"
  "rt_authorizerRefreshed (fst (recordAccessTokenUsed outage now p (r, s))) = rt_authorizerRefreshed r"
  "rt_refreshAccessConfig (fst (recordAccessTokenUsed outage now p (r, s))) = rt_refreshAccessConfig r"
  by (auto simp: recordAccessTokenUsed_def split: prod.splits sum.splits if_splits)

lemma requireActive_None:
  "requireActiveAccessToken s outage now p = None \<Longrightarrow> p_TokenID p \<noteq> [] \<Longrightarrow>
     \<not> outage \<and> IsAccessTokenActive s (p_TokenID p) now = Inr True"
  by (auto simp: requireActiveAccessToken_def split: sum.splits if_splits)

text \<open>
  C25: Read access holds now, not when the snapshot was taken. A request of a private forge that is
  let in is never anonymous: its \<open>Authorization\<close> header carries a token that the snapshot it was
  checked against recognises as one with read access, that snapshot is at most 30 seconds old when the
  configuration is refreshed from the store, and, for a stored token, the store answered and holds
  the token unrevoked and unexpired at this moment. In particular a revoked token is refused at once
  and during an outage no stored token gets in.
\<close>

theorem read_access_is_current:
  assumes "requireReadAccess lower busy outage now header (r, s) = ((r', s'), Inr reader)"
    and "\<not> rt_publicModuleAccess r"
  shows "\<exists>p. reader = Some p \<and> Enabled (rt_authorizer r') \<and> AuthenticateRequest (rt_authorizer r') header = Some p \<and> p_CanRead p \<and>
    (rt_refreshAccessConfig r' \<longrightarrow> now - rt_authorizerRefreshed r' \<le> accessConfigMaxStaleTTL) \<and>
    (p_TokenID p \<noteq> [] \<longrightarrow> \<not> outage \<and>
       (\<exists>k \<in> set (db_tokens s). kr_token_id k = p_TokenID p \<and> kr_revoked_at k = None \<and>
          (case kr_expires_at k of None \<Rightarrow> True | Some e \<Rightarrow> now < e)))"
proof -
  obtain r1 a p where reader: "reader = Some p" and cur: "currentAuthorizer lower busy s outage now r = (r1, Inr (Some a))"
      and guard: "RequireRead (Some a) header = Inr p"
      and act: "requireActiveAccessToken s outage now p = None"
      and rec: "(r', s') = recordAccessTokenUsed outage now p (r1, s)"
    using assms by (auto simp: requireReadAccess_def split: prod.splits sum.splits option.splits)
  have snap: "rt_authorizer r1 = Some a"
      "rt_refreshAccessConfig r1 \<longrightarrow> now - rt_authorizerRefreshed r1 \<le> accessConfigMaxStaleTTL"
    using cur by (auto simp: currentAuthorizer_def Let_def split: if_splits)
  have r': "rt_authorizer r' = Some a" "rt_authorizerRefreshed r' = rt_authorizerRefreshed r1"
      "rt_refreshAccessConfig r' = rt_refreshAccessConfig r1"
    using record_keeps [of outage now p r1 s] snap(1) by (simp_all add: rec [symmetric])
  have "Enabled (Some a)" "p_CanRead p" "AuthenticateRequest (Some a) header = Some p"
    using guard by (auto simp: RequireRead_def split: if_splits option.splits)
  then show ?thesis
    using requireActive_None [OF act] r' snap(2) reader
    by (auto simp: IsAccessTokenActive_def split: if_splits)
qed

definition example_authz :: authz where
  "example_authz = \<lparr>rt_publicModuleAccess = False, rt_refreshAccessConfig = True,
     rt_tokenHasher = Some (\<lambda>t. CHR ''#'' # t), rt_adminToken = [], rt_authorizer = None,
     rt_authorizerRefreshed = zero_time, rt_tokenUsage = NewExpirySet 10000 minute\<rparr>"

definition example_access_db :: db where
  "example_access_db = empty_db\<lparr>db_teams := [''ops''], db_tokens :=
     [\<lparr>kr_token_id = ''1'', kr_team = ''ops'', kr_token_type = ''read'', kr_token_prefix = ''p'',
       kr_token_hash = ''#secret'', kr_description = [], kr_created_at = 0, kr_expires_at = Some 100,
       kr_revoked_at = None, kr_last_used_at = None\<rparr>]\<rparr>"

theorem read_access_is_current_witness:
  "\<exists>r' s' p. requireReadAccess ascii_to_lower False False 50 ''Bearer secret'' (example_authz, example_access_db) =
       ((r', s'), Inr (Some p)) \<and> p_TokenID p = ''1'' \<and> p_CanRead p"
proof -
  let ?x = "requireReadAccess ascii_to_lower False False 50 ''Bearer secret'' (example_authz, example_access_db)"
  have "case snd ?x of Inr (Some p) \<Rightarrow> p_TokenID p = ''1'' | _ \<Rightarrow> False" by code_simp
  then obtain r' s' p where x: "?x = ((r', s'), Inr (Some p))" "p_TokenID p = ''1''"
    by (cases ?x) (auto split: sum.splits option.splits)
  have "p_CanRead p" using read_access_is_current [OF x(1)] by (auto simp: example_authz_def)
  with x show ?thesis by blast
qed

end
