(* ===== verification/GoPath.thy ===== *)
theory GoPath
  imports Prelude
begin

text \<open>
  The functions of Go's \<open>path\<close> package that the program calls: \<open>Clean\<close>, \<open>Join\<close>, \<open>Base\<close> and
  \<open>IsAbs\<close> on slash-separated paths.
\<close>

definition path_IsAbs :: "string \<Rightarrow> bool" where
  "path_IsAbs p = has_prefix p ''/''"

text \<open>
  \<open>Clean\<close>: empty and \<open>.\<close> elements are dropped, \<open>..\<close> removes the element before it or, at the start
  of a rooted path, nothing. The elements kept so far are in reverse order.
\<close>

fun clean_step :: "bool \<Rightarrow> string \<Rightarrow> string list \<Rightarrow> string list" where
  "clean_step rooted e acc =
     (if e = [] \<or> e = ''.'' then acc
      else if e = ''..'' then
        (case acc of
           [] \<Rightarrow> if rooted then [] else [''..'']
         | x # xs \<Rightarrow> if x = ''..'' then ''..'' # acc else xs)
      else e # acc)"

definition clean_elements :: "bool \<Rightarrow> string list \<Rightarrow> string list" where
  "clean_elements rooted es = rev (fold (clean_step rooted) es [])"

definition path_Clean :: "string \<Rightarrow> string" where
  "path_Clean p =
     (let rooted = path_IsAbs p;
          out = (if rooted then ''/'' else []) @ join_on (CHR ''/'') (clean_elements rooted (split_on (CHR ''/'') p))
      in if out = [] then ''.'' else out)"

definition path_Join :: "string list \<Rightarrow> string" where
  "path_Join es = (let xs = filter (\<lambda>e. e \<noteq> []) es in if xs = [] then [] else path_Clean (join_on (CHR ''/'') xs))"

definition path_Base :: "string \<Rightarrow> string" where
  "path_Base p =
     (if p = [] then ''.''
      else let q = rev (dropWhile (\<lambda>c. c = CHR ''/'') (rev p)) in
           if q = [] then ''/'' else last (split_on (CHR ''/'') q))"

text \<open>An element that \<open>Clean\<close> keeps as it is.\<close>

definition plain_element :: "string \<Rightarrow> bool" where
  "plain_element e = (e \<noteq> [] \<and> e \<noteq> ''.'' \<and> e \<noteq> ''..'' \<and> CHR ''/'' \<notin> set e)"

lemma clean_elements_plain: "\<forall>e \<in> set es. plain_element e \<Longrightarrow> clean_elements rooted es = es"
proof -
  assume "\<forall>e \<in> set es. plain_element e"
  then have "fold (clean_step rooted) es acc = rev es @ acc" for acc
    by (induction es arbitrary: acc) (auto simp: plain_element_def)
  then show ?thesis by (simp add: clean_elements_def)
qed

lemma path_Clean_plain:
  assumes "es \<noteq> []" "\<forall>e \<in> set es. plain_element e"
  shows "path_Clean (join_on (CHR ''/'') es) = join_on (CHR ''/'') es"
proof -
  obtain e es' where es: "es = e # es'" using assms(1) by (cases es) auto
  then have e: "e \<noteq> []" "CHR ''/'' \<notin> set e" using assms(2) by (auto simp: plain_element_def)
  have split: "split_on (CHR ''/'') (join_on (CHR ''/'') es) = es"
    using assms by (intro split_join) (auto simp: plain_element_def)
  have hd: "join_on (CHR ''/'') es = hd e # tl (join_on (CHR ''/'') es)"
    using e es by (cases e; cases es') auto
  have "hd e \<noteq> CHR ''/''" using e by (metis hd_in_set)
  then have "\<not> path_IsAbs (join_on (CHR ''/'') es)"
    by (subst hd) (simp add: path_IsAbs_def has_prefix_def)
  then show ?thesis
    using hd by (auto simp: path_Clean_def Let_def split clean_elements_plain [OF assms(2)])
qed

lemma path_Join_plain:
  assumes "es \<noteq> []" "\<forall>e \<in> set es. plain_element e"
  shows "path_Join es = join_on (CHR ''/'') es"
proof -
  have "filter (\<lambda>e. e \<noteq> []) es = es" using assms(2) by (auto simp: plain_element_def filter_id_conv)
  then show ?thesis using assms by (simp add: path_Join_def path_Clean_plain)
qed

end
