(* ===== verification/Archive.thy ===== *)
theory Archive
  imports GoPath Identity
begin

text \<open>
  Reading a module archive (\<open>internal/service/module_service.go\<close>): the inspection of an uploaded
  archive and the extraction of one file. An archive is the sequence of entries that Go's
  \<open>gzip\<close> and \<open>tar\<close> readers yield, each with the result of reading its body, and the way the
  sequence ends. The case mapping of Unicode and the decoder of \<open>metadata.json\<close> are parameters.
\<close>

section \<open>Archives\<close>

record tar_entry =
  th_Name :: string
  th_Typeflag :: nat
  th_Size :: int
  th_Body :: "string option"
  th_Header_end :: int
  th_Body_end :: int

text \<open>
  \<open>None\<close> is a body that cannot be read to its end. The two positions are the numbers of expanded
  bytes that have been read once the header is known, and once the body has been read or failed;
  only a reader with a limit on the stream observes them.
\<close>

record tar_archive =
  ta_entries :: "tar_entry list"
  ta_broken :: bool
  ta_end :: int

definition TypeReg :: nat where "TypeReg = 48"
definition TypeDir :: nat where "TypeDir = 53"

definition maxArchiveEntries :: int where "maxArchiveEntries = 10000"
definition maxArchiveEntrySize :: int where "maxArchiveEntrySize = 128 * 2 ^ 20"
definition maxArchiveExpandedSize :: int where "maxArchiveExpandedSize = 512 * 2 ^ 20"
definition maxArchiveMetadataSize :: int where "maxArchiveMetadataSize = 2 ^ 20"
definition maxArchiveReadmeSize :: int where "maxArchiveReadmeSize = 2 * 2 ^ 20"
definition maxArchiveFileSize :: int where "maxArchiveFileSize = 16 * 2 ^ 20"

datatype archive_error =
    InvalidPath string
  | OutsideRoot string
  | UnsupportedType string nat
  | TooManyEntries int
  | SeveralRoots
  | EntryTooLarge string int
  | ExpandedTooLarge int
  | SeveralReadmes
  | MetadataNotInRoot
  | SeveralMetadata
  | MetadataMissing
  | MetadataInvalid
  | RootMismatch string string
  | BrokenArchive
  | FileNotFound
  | InvalidFilePath

section \<open>Metadata\<close>

text \<open>The decoded fields, and the text of the whole JSON object.\<close>

record archive_metadata =
  am_Name :: string
  am_Version :: string
  am_Summary :: string
  am_Description :: string
  am_Metadata :: string

definition splitModuleIdentity :: "string \<Rightarrow> string \<times> string" where
  "splitModuleIdentity raw =
     (case cut (CHR ''-'') raw of
        (left, right, True) \<Rightarrow> (left, right)
      | _ \<Rightarrow> (case cut (CHR ''/'') raw of
                (left, right, True) \<Rightarrow> (left, right)
              | _ \<Rightarrow> ([], raw)))"

definition archive_Owner :: "archive_metadata \<Rightarrow> string" where
  "archive_Owner m = fst (splitModuleIdentity (am_Name m))"

definition archive_ModuleName :: "archive_metadata \<Rightarrow> string" where
  "archive_ModuleName m = snd (splitModuleIdentity (am_Name m))"

definition EffectiveDescription :: "archive_metadata \<Rightarrow> string" where
  "EffectiveDescription m = (if trim_space (am_Summary m) \<noteq> [] then am_Summary m else am_Description m)"

definition isReadmeFile :: "string \<Rightarrow> bool" where
  "isReadmeFile name = (has_prefix name ''readme.'' \<or> name = ''readme'')"

section \<open>Limits and paths of entries\<close>

definition enforceArchiveEntryLimit :: "int \<Rightarrow> int \<Rightarrow> archive_error option" where
  "enforceArchiveEntryLimit entryCount maxEntries =
     (if maxEntries \<le> 0 \<or> entryCount \<le> maxEntries then None else Some (TooManyEntries maxEntries))"

definition readLimitedArchiveEntry :: "tar_entry \<Rightarrow> int \<Rightarrow> archive_error + string" where
  "readLimitedArchiveEntry e limit =
     (if limit \<le> 0 then (case th_Body e of None \<Rightarrow> Inl BrokenArchive | Some b \<Rightarrow> Inr b)
      else if limit < th_Size e then Inl (EntryTooLarge (th_Name e) limit)
      else case th_Body e of
             None \<Rightarrow> Inl BrokenArchive
           | Some b \<Rightarrow> if limit < int (length b) then Inl (EntryTooLarge (th_Name e) limit) else Inr b)"

definition validateArchiveEntry :: "tar_entry \<Rightarrow> archive_error + (string \<times> string)" where
  "validateArchiveEntry e =
     (let n = th_Name e in
      if n = [] \<or> CHR 0x5C \<in> set n \<or> path_IsAbs n then Inl (InvalidPath n)
      else if \<exists>part \<in> set (split_on (CHR ''/'') (trim_suffix n ''/'')). part = ''.'' \<or> part = ''..''
      then Inl (InvalidPath n)
      else
        let cleanName = path_Clean n; parts = split_on (CHR ''/'') cleanName in
        if cleanName = ''.'' \<or> cleanName = ''..'' \<or> has_prefix cleanName ''../'' then Inl (InvalidPath n)
        else if hd parts = [] then Inl (OutsideRoot n)
        else if length parts = 1 \<and> th_Typeflag e \<noteq> TypeDir then Inl (OutsideRoot n)
        else if th_Typeflag e \<notin> {0, TypeReg, TypeDir} then Inl (UnsupportedType n (th_Typeflag e))
        else Inr (cleanName, hd parts))"

section \<open>Inspection\<close>

record inspected =
  in_Owner :: string
  in_Name :: string
  in_Version :: string
  in_Description :: string
  in_Readme :: string
  in_Metadata :: string

definition no_info :: inspected where
  "no_info = \<lparr>in_Owner = [], in_Name = [], in_Version = [], in_Description = [], in_Readme = [], in_Metadata = ''{}''\<rparr>"

record inspection =
  is_info :: inspected
  is_metadataFound :: bool
  is_readmeFound :: bool
  is_entryCount :: int
  is_expandedSize :: int
  is_root :: string

definition inspect_start :: inspection where
  "inspect_start = \<lparr>is_info = no_info, is_metadataFound = False, is_readmeFound = False, is_entryCount = 0,
     is_expandedSize = 0, is_root = []\<rparr>"

text \<open>The end of the archive.\<close>

definition inspect_end :: "inspection \<Rightarrow> archive_error + inspected" where
  "inspect_end st =
     (let info = is_info st; expectedRoot = in_Owner info @ ''-'' @ in_Name info @ ''-'' @ in_Version info in
      if \<not> is_metadataFound st then Inl MetadataMissing
      else if in_Owner info \<noteq> [] \<and> in_Name info \<noteq> [] \<and> in_Version info \<noteq> [] \<and> is_root st \<noteq> expectedRoot
      then Inl (RootMismatch (is_root st) expectedRoot)
      else Inr info)"

text \<open>The file of an entry: a readme, the metadata, or a file that is only counted.\<close>

definition inspect_file ::
    "(string \<Rightarrow> string) \<Rightarrow> (string \<Rightarrow> archive_metadata option) \<Rightarrow> tar_entry \<Rightarrow> string \<Rightarrow> inspection \<Rightarrow>
       archive_error + inspection" where
  "inspect_file lower decode e relativeName st =
     (let base = lower (path_Base relativeName) in
      if isReadmeFile base then
        (if CHR ''/'' \<in> set relativeName then Inr st
         else if is_readmeFound st then Inl SeveralReadmes
         else sum_bind (readLimitedArchiveEntry e maxArchiveReadmeSize) (\<lambda>body.
           Inr (st\<lparr>is_readmeFound := True, is_info := (is_info st)\<lparr>in_Readme := body\<rparr>\<rparr>)))
      else if base = ''metadata.json'' then
        (if relativeName \<noteq> ''metadata.json'' then Inl MetadataNotInRoot
         else if is_metadataFound st then Inl SeveralMetadata
         else sum_bind (readLimitedArchiveEntry e maxArchiveMetadataSize) (\<lambda>body.
           case decode body of
             None \<Rightarrow> Inl MetadataInvalid
           | Some m \<Rightarrow>
               Inr (st\<lparr>is_metadataFound := True,
                       is_info := (is_info st)\<lparr>in_Owner := archive_Owner m, in_Name := archive_ModuleName m,
                         in_Version := am_Version m, in_Description := EffectiveDescription m,
                         in_Metadata := am_Metadata m\<rparr>\<rparr>)))
      else Inr st)"

definition inspect_entry ::
    "(string \<Rightarrow> string) \<Rightarrow> (string \<Rightarrow> archive_metadata option) \<Rightarrow> int \<Rightarrow> inspection \<Rightarrow> tar_entry \<Rightarrow>
       archive_error + inspection" where
  "inspect_entry lower decode maxExpandedSize st0 e =
     (let st = st0\<lparr>is_entryCount := is_entryCount st0 + 1\<rparr> in
      case enforceArchiveEntryLimit (is_entryCount st) maxArchiveEntries of
        Some err \<Rightarrow> Inl err
      | None \<Rightarrow>
          sum_bind (validateArchiveEntry e) (\<lambda>(cleanName, entryRoot).
            if is_root st \<noteq> [] \<and> entryRoot \<noteq> is_root st then Inl SeveralRoots
            else
              let st1 = (if is_root st = [] then st\<lparr>is_root := entryRoot\<rparr> else st) in
              if th_Typeflag e = TypeDir then Inr st1
              else if maxArchiveEntrySize < th_Size e then Inl (EntryTooLarge (th_Name e) maxArchiveEntrySize)
              else if th_Size e < 0 \<or> maxExpandedSize - th_Size e < is_expandedSize st1
              then Inl (ExpandedTooLarge maxExpandedSize)
              else inspect_file lower decode e (trim_prefix cleanName (is_root st1 @ ''/''))
                     (st1\<lparr>is_expandedSize := is_expandedSize st1 + th_Size e\<rparr>)))"

definition inspectModuleArchiveWithLimit ::
    "(string \<Rightarrow> string) \<Rightarrow> (string \<Rightarrow> archive_metadata option) \<Rightarrow> int \<Rightarrow> tar_archive option \<Rightarrow> archive_error + inspected" where
  "inspectModuleArchiveWithLimit lower decode maxExpandedSize archive =
     (case archive of
        None \<Rightarrow> Inl BrokenArchive
      | Some a \<Rightarrow>
          sum_bind (fold_sum (inspect_entry lower decode maxExpandedSize) inspect_start (ta_entries a)) (\<lambda>st.
            if ta_broken a then Inl BrokenArchive else inspect_end st))"

definition inspectModuleArchive ::
    "(string \<Rightarrow> string) \<Rightarrow> (string \<Rightarrow> archive_metadata option) \<Rightarrow> tar_archive option \<Rightarrow> archive_error + inspected" where
  "inspectModuleArchive lower decode = inspectModuleArchiveWithLimit lower decode maxArchiveExpandedSize"

section \<open>Extraction\<close>

definition normalizeArchivePath :: "string \<Rightarrow> string" where
  "normalizeArchivePath name =
     (let clean = path_Clean (trim_prefix name ''/''); parts = split_on (CHR ''/'') clean in
      if 1 < length parts then path_Join (tl parts) else clean)"

text \<open>
  The reader of the expanded stream stops after \<open>expandedLimit + 1\<close> bytes, so \<open>limited.N = 0\<close> when
  more than \<open>expandedLimit\<close> bytes have been asked for.
\<close>

fun extract_loop :: "string \<Rightarrow> int \<Rightarrow> int \<Rightarrow> int \<Rightarrow> tar_entry list \<Rightarrow> tar_archive \<Rightarrow> archive_error + string" where
  "extract_loop cleanPath expandedLimit n expanded [] a =
     (if expandedLimit < ta_end a then Inl (ExpandedTooLarge expandedLimit)
      else Inl (if ta_broken a then BrokenArchive else FileNotFound))"
| "extract_loop cleanPath expandedLimit n expanded (e # es) a =
     (if expandedLimit < th_Header_end e then Inl (ExpandedTooLarge expandedLimit)
      else case enforceArchiveEntryLimit (n + 1) maxArchiveEntries of
        Some err \<Rightarrow> Inl err
      | None \<Rightarrow>
          if th_Size e < 0 \<or> maxArchiveEntrySize < th_Size e \<or> expandedLimit - th_Size e < expanded
          then Inl (ExpandedTooLarge expandedLimit)
          else if th_Typeflag e = TypeReg \<and> normalizeArchivePath (th_Name e) = cleanPath
          then (if th_Size e \<le> maxArchiveFileSize \<and> expandedLimit < th_Body_end e
                then Inl (ExpandedTooLarge expandedLimit)
                else readLimitedArchiveEntry e maxArchiveFileSize)
          else extract_loop cleanPath expandedLimit (n + 1) (expanded + th_Size e) es a)"

definition extractArchiveFileWithLimit :: "tar_archive option \<Rightarrow> string \<Rightarrow> int \<Rightarrow> archive_error + string" where
  "extractArchiveFileWithLimit archive filePath expandedLimit =
     (let cleanPath = path_Clean (trim_prefix filePath ''/'') in
      if cleanPath = ''.'' \<or> cleanPath = [] \<or> has_prefix cleanPath ''../'' then Inl InvalidFilePath
      else case archive of
             None \<Rightarrow> Inl BrokenArchive
           | Some a \<Rightarrow> extract_loop cleanPath expandedLimit 0 0 (ta_entries a) a)"

definition extractArchiveFile :: "tar_archive option \<Rightarrow> string \<Rightarrow> archive_error + string" where
  "extractArchiveFile archive filePath = extractArchiveFileWithLimit archive filePath maxArchiveExpandedSize"

section \<open>Accepted archives\<close>

definition entry_path :: "string \<Rightarrow> tar_entry \<Rightarrow> string" where
  "entry_path root e = trim_prefix (path_Clean (th_Name e)) (root @ ''/'')"

definition within_root :: "string \<Rightarrow> tar_entry \<Rightarrow> bool" where
  "within_root root e =
     (root \<noteq> [] \<and> \<not> path_IsAbs (th_Name e) \<and> CHR 0x5C \<notin> set (th_Name e) \<and>
      ''.'' \<notin> set (split_on (CHR ''/'') (th_Name e)) \<and> ''..'' \<notin> set (split_on (CHR ''/'') (th_Name e)) \<and>
      hd (split_on (CHR ''/'') (path_Clean (th_Name e))) = root)"

definition archive_files :: "tar_entry list \<Rightarrow> tar_entry list" where
  "archive_files es = filter (\<lambda>e. th_Typeflag e \<noteq> TypeDir) es"

definition metadata_entries :: "string \<Rightarrow> tar_entry list \<Rightarrow> tar_entry list" where
  "metadata_entries root es = filter (\<lambda>e. entry_path root e = ''metadata.json'') (archive_files es)"

definition describes :: "(string \<Rightarrow> archive_metadata option) \<Rightarrow> tar_entry \<Rightarrow> inspected \<Rightarrow> bool" where
  "describes decode e info \<longleftrightarrow>
     (\<exists>body m. th_Body e = Some body \<and> decode body = Some m \<and> in_Owner info = archive_Owner m \<and>
        in_Name info = archive_ModuleName m \<and> in_Version info = am_Version m \<and> in_Metadata info = am_Metadata m)"

text \<open>What holds of the entries read so far.\<close>

definition read_so_far :: "(string \<Rightarrow> archive_metadata option) \<Rightarrow> int \<Rightarrow> tar_entry list \<Rightarrow> inspection \<Rightarrow> bool" where
  "read_so_far decode limit es st \<longleftrightarrow>
     is_entryCount st = int (length es) \<and> int (length es) \<le> maxArchiveEntries \<and>
     (es \<noteq> [] \<longrightarrow> is_root st \<noteq> []) \<and> (es = [] \<longrightarrow> is_root st = []) \<and>
     (\<forall>e \<in> set es. within_root (is_root st) e) \<and>
     (\<forall>e \<in> set (archive_files es). 0 \<le> th_Size e \<and> th_Size e \<le> maxArchiveEntrySize) \<and>
     is_expandedSize st = sum_list (map th_Size (archive_files es)) \<and> is_expandedSize st \<le> limit \<and>
     (if is_metadataFound st then \<exists>e. metadata_entries (is_root st) es = [e] \<and> describes decode e (is_info st)
      else metadata_entries (is_root st) es = [])"


lemma split_trim_slash: "set (split_on (CHR ''/'') n) \<subseteq> insert [] (set (split_on (CHR ''/'') (trim_suffix n ''/'')))"
proof (cases "has_suffix n ''/''")
  case True
  then obtain m where n: "n = m @ ''/''"
    unfolding has_suffix_def by (metis append_take_drop_id)
  show ?thesis using split_on_append_any [of "CHR ''/''" m "[]"] by (simp add: n)
qed (auto simp: trim_suffix_def)

lemma validateArchiveEntry_ok:
  assumes "validateArchiveEntry e = Inr (cleanName, root)"
  shows "cleanName = path_Clean (th_Name e) \<and> within_root root e"
  using assms split_trim_slash [of "th_Name e"]
  by (auto simp: validateArchiveEntry_def within_root_def Let_def split: if_splits)

lemma readLimited_ok:
  "readLimitedArchiveEntry e limit = Inr body \<Longrightarrow> th_Body e = Some body"
  by (auto simp: readLimitedArchiveEntry_def split: if_splits option.splits)

lemma inspect_file_ok:
  assumes "inspect_file lower decode e p st = Inr t" and "lower ''metadata.json'' = ''metadata.json''"
  shows "is_entryCount t = is_entryCount st \<and> is_root t = is_root st \<and> is_expandedSize t = is_expandedSize st \<and>
    (if p = ''metadata.json'' then \<not> is_metadataFound st \<and> is_metadataFound t \<and> describes decode e (is_info t)
     else is_metadataFound t = is_metadataFound st \<and>
       (\<forall>x. describes decode x (is_info t) \<longleftrightarrow> describes decode x (is_info st)))"
proof (cases "p = ''metadata.json''")
  case True
  have b: "path_Base ''metadata.json'' = ''metadata.json''" by code_simp
  have r: "\<not> isReadmeFile ''metadata.json''" by code_simp
  show ?thesis
    using assms(1) unfolding True inspect_file_def b assms(2) Let_def
    by (fastforce simp: r describes_def split: if_splits option.splits dest: readLimited_ok)
next
  case False
  then show ?thesis
    using assms(1)
    by (auto simp: inspect_file_def Let_def describes_def split: if_splits option.splits)
qed

lemma read_so_far_step:
  assumes inv: "read_so_far decode limit es st" and step: "inspect_entry lower decode limit st e = Inr t"
    and low: "lower ''metadata.json'' = ''metadata.json''"
  shows "read_so_far decode limit (es @ [e]) t"
proof -
  obtain cleanName entryRoot where v: "validateArchiveEntry e = Inr (cleanName, entryRoot)"
    and n: "enforceArchiveEntryLimit (is_entryCount st + 1) maxArchiveEntries = None"
    and one: "is_root st \<noteq> [] \<longrightarrow> entryRoot = is_root st"
    using step by (auto simp: inspect_entry_def Let_def split: option.splits if_splits)
  note c = validateArchiveEntry_ok [OF v]
  then have ne: "entryRoot \<noteq> []" by (simp add: within_root_def)
  have n': "int (length es) + 1 \<le> maxArchiveEntries"
    using n inv by (auto simp: enforceArchiveEntryLimit_def read_so_far_def maxArchiveEntries_def split: if_splits)
  have root: "es \<noteq> [] \<longrightarrow> entryRoot = is_root st" using one inv by (auto simp: read_so_far_def)
  then have within: "\<forall>x \<in> set (es @ [e]). within_root entryRoot x"
    using inv c by (auto simp: read_so_far_def)
  define st1 where "st1 = st\<lparr>is_entryCount := is_entryCount st + 1, is_root := entryRoot\<rparr>"
  have meta: "metadata_entries entryRoot es = metadata_entries (is_root st) es"
    using root by (cases "es = []") (auto simp: metadata_entries_def archive_files_def)
  have st1: "(if is_root (st\<lparr>is_entryCount := is_entryCount st + 1\<rparr>) = []
      then st\<lparr>is_entryCount := is_entryCount st + 1, is_root := entryRoot\<rparr>
      else st\<lparr>is_entryCount := is_entryCount st + 1\<rparr>) = st1"
    using one by (auto simp: st1_def)
  show ?thesis
  proof (cases "th_Typeflag e = TypeDir")
    case True
    then have "t = st1"
      using step one by (auto simp: inspect_entry_def Let_def v n st1_def split: if_splits)
    moreover have files: "archive_files (es @ [e]) = archive_files es" using True by (simp add: archive_files_def)
    moreover have "metadata_entries entryRoot (es @ [e]) = metadata_entries (is_root st) es"
      unfolding meta [symmetric] by (simp add: metadata_entries_def files)
    ultimately show ?thesis
      using inv within ne n' by (simp add: read_so_far_def st1_def)
  next
    case False
    then have size: "\<not> maxArchiveEntrySize < th_Size e" "\<not> th_Size e < 0" "\<not> limit - th_Size e < is_expandedSize st"
      and body: "inspect_file lower decode e (entry_path entryRoot e)
        (st1\<lparr>is_expandedSize := is_expandedSize st + th_Size e\<rparr>) = Inr t"
      using step one c by (auto simp: inspect_entry_def Let_def v n st1_def entry_path_def split: if_splits)
    note f = inspect_file_ok [OF body low]
    have files: "archive_files (es @ [e]) = archive_files es @ [e]"
      using False by (simp add: archive_files_def)
    then have m: "metadata_entries entryRoot (es @ [e]) =
        metadata_entries (is_root st) es @ (if entry_path entryRoot e = ''metadata.json'' then [e] else [])"
      unfolding meta [symmetric] by (simp add: metadata_entries_def)
    show ?thesis
      using inv within ne n' size f unfolding read_so_far_def
      by (simp add: files st1_def m split: if_splits)
  qed
qed

lemma inspect_read_all:
  assumes "lower ''metadata.json'' = ''metadata.json''" and "0 \<le> limit"
    and "fold_sum (inspect_entry lower decode limit) inspect_start es = Inr st"
  shows "read_so_far decode limit es st"
proof -
  have "read_so_far decode limit [] inspect_start"
    using assms(2) by (simp add: read_so_far_def inspect_start_def metadata_entries_def archive_files_def maxArchiveEntries_def)
  moreover have "read_so_far decode limit pre u \<Longrightarrow> inspect_entry lower decode limit u e = Inr t \<Longrightarrow>
      read_so_far decode limit (pre @ [e]) t" for pre u e t
    by (rule read_so_far_step [where lower = lower]) (use assms(1) in auto)
  ultimately show ?thesis
    using fold_sum_so_far [of "read_so_far decode limit" "inspect_entry lower decode limit" "[]"] assms(3) by simp
qed

section \<open>Example\<close>

definition example_file :: "string \<Rightarrow> string \<Rightarrow> tar_entry" where
  "example_file name body =
     \<lparr>th_Name = name, th_Typeflag = TypeReg, th_Size = int (length body), th_Body = Some body,
      th_Header_end = 512, th_Body_end = 1024\<rparr>"

definition example_decode :: "string \<Rightarrow> archive_metadata option" where
  "example_decode body =
     Some \<lparr>am_Name = ''acme-web'', am_Version = ''1.0.0'', am_Summary = ''s'', am_Description = [],
           am_Metadata = body\<rparr>"

definition example_archive :: tar_archive where
  "example_archive =
     \<lparr>ta_entries =
        [\<lparr>th_Name = ''acme-web-1.0.0/'', th_Typeflag = TypeDir, th_Size = 0, th_Body = Some [],
          th_Header_end = 512, th_Body_end = 512\<rparr>,
         example_file ''acme-web-1.0.0/metadata.json'' ''{}'',
         example_file ''acme-web-1.0.0/README.md'' ''hello'',
         example_file ''acme-web-1.0.0/manifests/init.pp'' ''class web {}''],
      ta_broken = False, ta_end = 4096\<rparr>"

text \<open>
  C29: An archive that passes the inspection is safe to publish. It has at most 10000 entries, all
  of them relative, without a backslash, \<open>.\<close> or \<open>..\<close>, and below one root directory; its files are
  at most 128 MiB each and 512 MiB together; exactly one of them is \<open>metadata.json\<close> of the root
  directory, the identity reported is decoded from it, and if it is complete the root directory is
  named after it.
\<close>

theorem accepted_archive:
  assumes "inspectModuleArchive lower decode archive = Inr info"
    and "lower ''metadata.json'' = ''metadata.json''"
  shows "\<exists>a root. archive = Some a \<and> \<not> ta_broken a \<and> int (length (ta_entries a)) \<le> maxArchiveEntries \<and>
    (\<forall>e \<in> set (ta_entries a). within_root root e) \<and>
    (\<forall>e \<in> set (archive_files (ta_entries a)). 0 \<le> th_Size e \<and> th_Size e \<le> maxArchiveEntrySize) \<and>
    sum_list (map th_Size (archive_files (ta_entries a))) \<le> maxArchiveExpandedSize \<and>
    (\<exists>e. metadata_entries root (ta_entries a) = [e] \<and> describes decode e info) \<and>
    (in_Owner info \<noteq> [] \<and> in_Name info \<noteq> [] \<and> in_Version info \<noteq> [] \<longrightarrow>
      root = in_Owner info @ ''-'' @ in_Name info @ ''-'' @ in_Version info)"
proof -
  obtain a st where a: "archive = Some a" "\<not> ta_broken a" and e: "inspect_end st = Inr info"
    and st: "fold_sum (inspect_entry lower decode maxArchiveExpandedSize) inspect_start (ta_entries a) = Inr st"
    using assms(1)
    by (auto simp: inspectModuleArchive_def inspectModuleArchiveWithLimit_def split: option.splits if_splits)
  have "read_so_far decode maxArchiveExpandedSize (ta_entries a) st"
    by (rule inspect_read_all [OF assms(2) _ st]) (simp add: maxArchiveExpandedSize_def)
  moreover have "is_metadataFound st" "is_info st = info"
    "in_Owner info \<noteq> [] \<and> in_Name info \<noteq> [] \<and> in_Version info \<noteq> [] \<longrightarrow>
      is_root st = in_Owner info @ ''-'' @ in_Name info @ ''-'' @ in_Version info"
    using e by (auto simp: inspect_end_def Let_def split: if_splits)
  ultimately show ?thesis
    using a by (intro exI [of _ a] exI [of _ "is_root st"]) (simp add: read_so_far_def)
qed

theorem accepted_archive_witness:
  "\<exists>info. inspectModuleArchive ascii_to_lower example_decode (Some example_archive) = Inr info \<and>
     in_Readme info = ''hello'' \<and>
     (\<exists>root. root = ''acme-web-1.0.0'' \<and> (\<forall>e \<in> set (ta_entries example_archive). within_root root e))"
proof -
  let ?r = "inspectModuleArchive ascii_to_lower example_decode (Some example_archive)"
  have "map_sum (\<lambda>_. ()) (\<lambda>i. (in_Owner i, in_Name i, in_Version i, in_Readme i)) ?r =
      Inr (''acme'', ''web'', ''1.0.0'', ''hello'')"
    by code_simp
  then obtain i where i: "?r = Inr i" "in_Owner i = ''acme''" "in_Name i = ''web''" "in_Version i = ''1.0.0''"
      "in_Readme i = ''hello''"
    by (cases ?r) auto
  have "ascii_to_lower ''metadata.json'' = ''metadata.json''" by code_simp
  from accepted_archive [OF i(1) this] i show ?thesis by auto
qed

end
