(* ===== verification/Objects.thy ===== *)
theory Objects
  imports GoPath
begin

text \<open>
  The artifact storage: \<open>internal/storage/path.go\<close>, \<open>s3.go\<close> and \<open>gcs.go\<close>. A bucket is a map from
  object keys to objects. The two implementations differ in the key they use for a path and in the
  prefix they list; the cloud client libraries are the map operations.
\<close>

section \<open>Buckets\<close>

record stored_object =
  ob_Body :: string
  ob_ContentType :: string
  ob_UpdatedAt :: time

type_synonym bucket = "(string, stored_object) gomap"

datatype backend = S3 | GCS

definition cleanObjectPath :: "string \<Rightarrow> string" where
  "cleanObjectPath objectPath =
     (if trim_space objectPath = [] then [] else trim_prefix (path_Clean objectPath) ''/'')"

definition object_key :: "backend \<Rightarrow> string \<Rightarrow> string" where
  "object_key b objectPath = (case b of S3 \<Rightarrow> cleanObjectPath objectPath | GCS \<Rightarrow> objectPath)"

definition UploadReaderIfAbsent ::
    "backend \<Rightarrow> time \<Rightarrow> string \<Rightarrow> string \<Rightarrow> string \<Rightarrow> bucket \<Rightarrow> bucket \<times> bool" where
  "UploadReaderIfAbsent b now objectPath contentType body bk =
     (let key = object_key b objectPath in
      case map_of bk key of
        Some _ \<Rightarrow> (bk, False)
      | None \<Rightarrow>
          (map_set key \<lparr>ob_Body = body, ob_ContentType = contentType, ob_UpdatedAt = now\<rparr> bk, True))"

definition Upload :: "backend \<Rightarrow> time \<Rightarrow> string \<Rightarrow> string \<Rightarrow> string \<Rightarrow> bucket \<Rightarrow> bucket" where
  "Upload b now objectPath contentType body bk =
     map_set (object_key b objectPath) \<lparr>ob_Body = body, ob_ContentType = contentType, ob_UpdatedAt = now\<rparr> bk"

definition DeleteObject :: "backend \<Rightarrow> string \<Rightarrow> bucket \<Rightarrow> bucket" where
  "DeleteObject b objectPath bk = map_del (object_key b objectPath) bk"

definition OpenObject :: "backend \<Rightarrow> string \<Rightarrow> bucket \<Rightarrow> stored_object option" where
  "OpenObject b objectPath bk = map_of bk (object_key b objectPath)"

definition ExistsObject :: "backend \<Rightarrow> string \<Rightarrow> bucket \<Rightarrow> bool" where
  "ExistsObject b objectPath bk = (OpenObject b objectPath bk \<noteq> None)"

text \<open>
  \<open>OpenRange\<close>: S3 reads to the end for a length that is not positive; both services return the part
  of the range that exists.
\<close>

definition OpenRange :: "backend \<Rightarrow> string \<Rightarrow> int \<Rightarrow> int \<Rightarrow> bucket \<Rightarrow> string option" where
  "OpenRange b objectPath offset len bk =
     map_option (\<lambda>ob. let rest = drop (nat offset) (ob_Body ob) in if 0 < len then take (nat len) rest else rest)
       (OpenObject b objectPath bk)"

record listed_object =
  lo_Path :: string
  lo_Size :: int
  lo_UpdatedAt :: time

definition list_prefix :: "backend \<Rightarrow> string \<Rightarrow> string" where
  "list_prefix b prefix = (case b of S3 \<Rightarrow> cleanObjectPath prefix | GCS \<Rightarrow> trim_prefix prefix ''/'')"

text \<open>Both services list in the order of the keys.\<close>

definition ListObjectMetadata :: "backend \<Rightarrow> string \<Rightarrow> bucket \<Rightarrow> listed_object list" where
  "ListObjectMetadata b prefix bk =
     map (\<lambda>(key, ob). \<lparr>lo_Path = key, lo_Size = int (length (ob_Body ob)), lo_UpdatedAt = ob_UpdatedAt ob\<rparr>)
       (sort_key fst (filter (\<lambda>(key, ob). key \<noteq> [] \<and> has_prefix key (list_prefix b prefix)) bk))"

section \<open>The interface\<close>

text \<open>
  What the clients of the storage rely on: an upload never replaces an object and reports whether it
  stored one, a deletion removes at most the object of its own path, and a path can be opened after
  an upload.
\<close>

locale artifact_storage =
  fixes key :: "string \<Rightarrow> string"
    and open_object :: "string \<Rightarrow> 'b \<Rightarrow> 'o option"
    and upload :: "string \<Rightarrow> 'x \<Rightarrow> 'b \<Rightarrow> 'b \<times> bool"
    and remove :: "string \<Rightarrow> 'b \<Rightarrow> 'b"
    and made :: "'x \<Rightarrow> 'o"
  assumes upload_opens:
      "open_object q (fst (upload p x bk)) =
         (if key q = key p \<and> open_object p bk = None then Some (made x) else open_object q bk)"
    and upload_reports: "snd (upload p x bk) \<longleftrightarrow> open_object p bk = None"
    and remove_opens: "open_object q (remove p bk) = (if key q = key p then None else open_object q bk)"
    and same_key: "key p = key q \<Longrightarrow> open_object p bk = open_object q bk"
begin

lemma upload_keeps: "open_object q bk = Some ob \<Longrightarrow> open_object q (fst (upload p x bk)) = Some ob"
  using same_key [of q p bk] by (cases "key q = key p") (simp_all add: upload_opens)

lemma upload_stored:
  "upload p x bk = (bk1, created) \<Longrightarrow>
     (if created then open_object p bk1 = Some (made x)
      else open_object p bk1 = open_object p bk \<and> open_object p bk \<noteq> None)"
  using upload_opens [of p p x bk] upload_reports [of p x bk] by (cases created) auto

lemma remove_keeps: "key q \<noteq> key p \<Longrightarrow> open_object q (remove p bk) = open_object q bk"
  by (simp add: remove_opens)

end

interpretation os: artifact_storage "object_key b" "OpenObject b"
    "\<lambda>p (now, contentType, body). UploadReaderIfAbsent b now p contentType body" "DeleteObject b"
    "\<lambda>(now, contentType, body). \<lparr>ob_Body = body, ob_ContentType = contentType, ob_UpdatedAt = now\<rparr>" for b
  by unfold_locales
    (auto simp: OpenObject_def UploadReaderIfAbsent_def DeleteObject_def Let_def split: option.splits)

text \<open>A listing names exactly the objects whose key begins with the prefix.\<close>

lemma listed_iff:
  assumes "wf_map bk"
  shows "x \<in> set (ListObjectMetadata b prefix bk) \<longleftrightarrow>
    (\<exists>ob. map_of bk (lo_Path x) = Some ob \<and> lo_Path x \<noteq> [] \<and> has_prefix (lo_Path x) (list_prefix b prefix) \<and>
       x = \<lparr>lo_Path = lo_Path x, lo_Size = int (length (ob_Body ob)), lo_UpdatedAt = ob_UpdatedAt ob\<rparr>)"
proof -
  have "map_of bk k = Some ob \<longleftrightarrow> (k, ob) \<in> set bk" for k ob
    using assms by (metis map_of_is_SomeI map_of_SomeD)
  then show ?thesis by (auto simp: ListObjectMetadata_def image_iff)
qed

lemma wf_bucket_ops [intro, simp]:
  assumes "wf_map bk"
  shows "wf_map (fst (UploadReaderIfAbsent b now p c body bk))" "wf_map (DeleteObject b p bk)"
  using assms by (auto simp: UploadReaderIfAbsent_def DeleteObject_def Let_def split: option.split)

text \<open>Paths that are their own key on every backend.\<close>

lemma cleanObjectPath_plain:
  assumes "es \<noteq> []" "\<forall>e \<in> set es. plain_element e" "trim_space (join_on (CHR ''/'') es) \<noteq> []"
  shows "cleanObjectPath (join_on (CHR ''/'') es) = join_on (CHR ''/'') es"
proof -
  have "\<not> has_prefix (join_on (CHR ''/'') es) ''/''"
  proof -
    obtain e es' where es: "es = e # es'" using assms(1) by (cases es) auto
    then have "e \<noteq> []" "CHR ''/'' \<notin> set e" using assms(2) by (auto simp: plain_element_def)
    then show ?thesis unfolding es by (cases e; cases es') (auto simp: has_prefix_def)
  qed
  then show ?thesis using assms by (simp add: cleanObjectPath_def path_Clean_plain trim_prefix_def)
qed

end
