(* ===== verification/ServiceState.thy ===== *)
theory ServiceState
  imports SqliteCatalog SqliteShared Archive Objects
begin

text \<open>
  The state the module service works on: the database, the bucket and the audit context of the
  running request, and the calls that leave the process. A call may fail: the fault list of the
  state says of every call whether it is answered, refused without effect, or takes effect and its
  answer is lost. Operations on one module run under its lock, so an operation is one step; a crash
  is an operation whose remaining calls are all refused.
\<close>

section \<open>State\<close>

datatype fault = Answered | Refused | Lost

record world =
  w_db :: db
  w_bucket :: bucket
  w_ctx :: audit_ctx
  w_faults :: "fault list"

datatype service_error =
    StoreFault store_error
  | Unavailable
  | ObjectNotFound
  | IntegrityMismatch
  | Invalid string
  | ProtectedDelete string
  | UpstreamNotFound
  | UpstreamStatus int
  | UpstreamInvalid string
  | HydrationFailed service_error
  | RestoreFailed service_error
  | Failed string

text \<open>
  An error that wraps others is represented by the one that decides; joined errors by the first.
  \<open>HydrationFailed\<close> and \<open>RestoreFailed\<close> wrap their cause with \<open>ErrUpstreamHydration\<close> and, for the
  second, \<open>ErrUpstreamRestore\<close>.
\<close>

abbreviation NotFound :: service_error where "NotFound \<equiv> StoreFault ErrNotFound"
abbreviation Conflict :: service_error where "Conflict \<equiv> StoreFault ErrConflict"

text \<open>\<open>errors.Is(err, store.ErrNotFound)\<close>.\<close>

fun is_not_found :: "service_error \<Rightarrow> bool" where
  "is_not_found (StoreFault e) = (e = ErrNotFound)"
| "is_not_found (HydrationFailed e) = is_not_found e"
| "is_not_found (RestoreFailed e) = is_not_found e"
| "is_not_found _ = False"

type_synonym 'a outcome = "service_error + 'a"
type_synonym 'a svc = "world \<Rightarrow> world \<times> 'a outcome"

section \<open>Sequencing\<close>

definition svc_return :: "'a \<Rightarrow> 'a svc" where
  "svc_return x w = (w, Inr x)"

definition svc_error :: "service_error \<Rightarrow> 'a svc" where
  "svc_error e w = (w, Inl e)"

text \<open>\<open>svc_try\<close> inspects the result of a call, \<open>svc_then\<close> returns early on an error.\<close>

definition svc_try :: "'a svc \<Rightarrow> ('a outcome \<Rightarrow> 'b svc) \<Rightarrow> 'b svc" where
  "svc_try m k w = (case m w of (w1, r) \<Rightarrow> k r w1)"

definition svc_then :: "'a svc \<Rightarrow> ('a \<Rightarrow> 'b svc) \<Rightarrow> 'b svc" where
  "svc_then m f = svc_try m (\<lambda>r. case r of Inl e \<Rightarrow> svc_error e | Inr x \<Rightarrow> f x)"

text \<open>\<open>if !b { return err }\<close>.\<close>

definition svc_check :: "bool \<Rightarrow> service_error \<Rightarrow> unit svc" where
  "svc_check b e = (if b then svc_return () else svc_error e)"

section \<open>Calls\<close>

definition take_fault :: "world \<Rightarrow> fault \<times> world" where
  "take_fault w = (case w_faults w of [] \<Rightarrow> (Answered, w) | f # fs \<Rightarrow> (f, w\<lparr>w_faults := fs\<rparr>))"

text \<open>A transaction of the store; an audit event is marked as recorded only when the commit is answered.\<close>

definition db_call :: "(audit_ctx \<Rightarrow> db \<Rightarrow> 'a op_result) \<Rightarrow> 'a svc" where
  "db_call f w =
     (case take_fault w of
        (Answered, w1) \<Rightarrow>
          (case f (w_ctx w1) (w_db w1) of
             ((c, s), r) \<Rightarrow> (w1\<lparr>w_ctx := c, w_db := s\<rparr>, map_sum StoreFault (\<lambda>x. x) r))
      | (Refused, w1) \<Rightarrow> (w1, Inl Unavailable)
      | (Lost, w1) \<Rightarrow> (w1\<lparr>w_db := snd (fst (f (w_ctx w1) (w_db w1)))\<rparr>, Inl Unavailable))"

text \<open>The three shapes of store operations.\<close>

definition db_read :: "(db \<Rightarrow> 'a result) \<Rightarrow> 'a svc" where
  "db_read f = db_call (\<lambda>c s. ((c, s), f s))"

definition db_write :: "(db \<Rightarrow> db \<times> 'a result) \<Rightarrow> 'a svc" where
  "db_write f = db_call (\<lambda>c s. case f s of (s1, r) \<Rightarrow> ((c, s1), r))"

definition bucket_call :: "(bucket \<Rightarrow> bucket \<times> 'a outcome) \<Rightarrow> 'a svc" where
  "bucket_call f w =
     (case take_fault w of
        (Answered, w1) \<Rightarrow> (case f (w_bucket w1) of (bk, r) \<Rightarrow> (w1\<lparr>w_bucket := bk\<rparr>, r))
      | (Refused, w1) \<Rightarrow> (w1, Inl Unavailable)
      | (Lost, w1) \<Rightarrow> (w1\<lparr>w_bucket := fst (f (w_bucket w1))\<rparr>, Inl Unavailable))"

text \<open>A call that changes nothing the model keeps: a lock, a read of the uploaded file.\<close>

definition io_call :: "unit svc" where
  "io_call w = (case take_fault w of (f, w1) \<Rightarrow> (w1, if f = Answered then Inr () else Inl Unavailable))"

section \<open>Hoare triples\<close>

text \<open>The result of an operation started in a state that satisfies the precondition.\<close>

definition hoare :: "(world \<Rightarrow> bool) \<Rightarrow> 'a svc \<Rightarrow> ('a outcome \<Rightarrow> world \<Rightarrow> bool) \<Rightarrow> bool" where
  "hoare P m Q \<longleftrightarrow> (\<forall>w. P w \<longrightarrow> Q (snd (m w)) (fst (m w)))"

definition keeps :: "(world \<Rightarrow> bool) \<Rightarrow> 'a svc \<Rightarrow> bool" where
  "keeps I m \<longleftrightarrow> (\<forall>w. I w \<longrightarrow> I (fst (m w)))"

named_theorems svc_keeps \<open>operations keep the invariant of the service\<close>

lemma hoareI: "(\<And>w. P w \<Longrightarrow> Q (snd (m w)) (fst (m w))) \<Longrightarrow> hoare P m Q"
  by (simp add: hoare_def)

lemma hoareD: "hoare P m Q \<Longrightarrow> P w \<Longrightarrow> Q (snd (m w)) (fst (m w))"
  by (simp add: hoare_def)

lemma hoare_weaken: "hoare P' m Q' \<Longrightarrow> (\<And>w. P w \<Longrightarrow> P' w) \<Longrightarrow> (\<And>r w. Q' r w \<Longrightarrow> Q r w) \<Longrightarrow> hoare P m Q"
  by (simp add: hoare_def)

lemma hoare_return: "(\<And>w. P w \<Longrightarrow> Q (Inr x) w) \<Longrightarrow> hoare P (svc_return x) Q"
  by (simp add: hoare_def svc_return_def)

lemma hoare_error: "(\<And>w. P w \<Longrightarrow> Q (Inl e) w) \<Longrightarrow> hoare P (svc_error e) Q"
  by (simp add: hoare_def svc_error_def)

lemma hoare_try: "hoare P m R \<Longrightarrow> (\<And>r. hoare (R r) (k r) Q) \<Longrightarrow> hoare P (svc_try m k) Q"
  by (fastforce simp: hoare_def svc_try_def split: prod.split)

lemma hoare_then:
  assumes "hoare P m R" "\<And>x. hoare (R (Inr x)) (f x) Q" "\<And>e w. R (Inl e) w \<Longrightarrow> Q (Inl e) w"
  shows "hoare P (svc_then m f) Q"
  unfolding svc_then_def
proof (rule hoare_try [OF assms(1)])
  fix r
  show "hoare (R r) (case r of Inl e \<Rightarrow> svc_error e | Inr x \<Rightarrow> f x) Q"
    using assms(2,3) by (cases r) (auto intro: hoare_error)
qed

lemma hoare_check:
  assumes "\<And>w. P w \<Longrightarrow> b \<Longrightarrow> Q (Inr ()) w" "\<And>w. P w \<Longrightarrow> \<not> b \<Longrightarrow> Q (Inl e) w"
  shows "hoare P (svc_check b e) Q"
  using assms by (simp add: hoare_def svc_check_def svc_return_def svc_error_def)

lemma keeps_hoare: "keeps I m \<longleftrightarrow> hoare I m (\<lambda>_. I)"
  by (simp add: keeps_def hoare_def)

lemma keepsD: "keeps I m \<Longrightarrow> I w \<Longrightarrow> I (fst (m w))"
  by (simp add: keeps_def)

lemma keepsI: "(\<And>w. I w \<Longrightarrow> I (fst (m w))) \<Longrightarrow> keeps I m"
  by (simp add: keeps_def)

lemma keeps_simple [svc_keeps]: "keeps I (svc_return x)" "keeps I (svc_error e)" "keeps I (svc_check b e)"
  by (simp_all add: keeps_def svc_return_def svc_error_def svc_check_def)

lemma keeps_try [svc_keeps]: "keeps I m \<Longrightarrow> (\<And>r. keeps I (k r)) \<Longrightarrow> keeps I (svc_try m k)"
  unfolding keeps_hoare by (rule hoare_try)

lemma keeps_then [svc_keeps]: "keeps I m \<Longrightarrow> (\<And>x. keeps I (f x)) \<Longrightarrow> keeps I (svc_then m f)"
  unfolding svc_then_def by (rule keeps_try) (auto split: sum.split intro: svc_keeps)

lemma keeps_if [svc_keeps]: "keeps I m \<Longrightarrow> keeps I n \<Longrightarrow> keeps I (if b then m else n)"
  by simp

text \<open>What a call does to the state, whatever its fault.\<close>

lemma take_fault_simps [simp]:
  "w_db (snd (take_fault w)) = w_db w" "w_bucket (snd (take_fault w)) = w_bucket w"
  "w_ctx (snd (take_fault w)) = w_ctx w"
  by (simp_all add: take_fault_def split: list.split)

lemma io_call_state [simp]:
  "w_db (fst (io_call w)) = w_db w" "w_bucket (fst (io_call w)) = w_bucket w" "w_ctx (fst (io_call w)) = w_ctx w"
  by (simp_all add: io_call_def split: prod.split) (metis snd_conv take_fault_simps)+

lemma db_call_cases:
  obtains (unchanged) "w_db (fst (db_call f w)) = w_db w" "snd (db_call f w) = Inl Unavailable"
  | (answered) c s r where "f (w_ctx w) (w_db w) = ((c, s), r)" "w_db (fst (db_call f w)) = s"
      "snd (db_call f w) = map_sum StoreFault (\<lambda>x. x) r"
  | (lost) c s r where "f (w_ctx w) (w_db w) = ((c, s), r)" "w_db (fst (db_call f w)) = s"
      "snd (db_call f w) = Inl Unavailable"
proof -
  obtain fl w1 where tf: "take_fault w = (fl, w1)" by fastforce
  then have eq: "w_db w1 = w_db w" "w_ctx w1 = w_ctx w" using take_fault_simps [of w] by simp_all
  obtain c s r where f: "f (w_ctx w) (w_db w) = ((c, s), r)" by (metis prod.exhaust)
  show ?thesis
  proof (cases fl)
    case Answered
    then show ?thesis using tf eq f by (intro answered [OF f]) (simp_all add: db_call_def)
  next
    case Refused
    then show ?thesis using tf eq by (intro unchanged) (simp_all add: db_call_def)
  next
    case Lost
    then show ?thesis using tf eq f by (intro lost [OF f]) (simp_all add: db_call_def)
  qed
qed

lemma db_call_bucket [simp]: "w_bucket (fst (db_call f w)) = w_bucket w"
proof -
  obtain fl w1 where tf: "take_fault w = (fl, w1)" by fastforce
  then have "w_bucket w1 = w_bucket w" using take_fault_simps(2) [of w] by simp
  then show ?thesis using tf by (cases fl) (auto simp: db_call_def split: prod.split)
qed

lemma bucket_call_cases:
  obtains (unchanged) "w_bucket (fst (bucket_call f w)) = w_bucket w" "snd (bucket_call f w) = Inl Unavailable"
  | (answered) bk r where "f (w_bucket w) = (bk, r)" "w_bucket (fst (bucket_call f w)) = bk" "snd (bucket_call f w) = r"
  | (lost) bk r where "f (w_bucket w) = (bk, r)" "w_bucket (fst (bucket_call f w)) = bk"
      "snd (bucket_call f w) = Inl Unavailable"
proof -
  obtain fl w1 where tf: "take_fault w = (fl, w1)" by fastforce
  then have eq: "w_bucket w1 = w_bucket w" using take_fault_simps [of w] by simp
  obtain bk r where f: "f (w_bucket w) = (bk, r)" by fastforce
  show ?thesis
  proof (cases fl)
    case Answered
    then show ?thesis using tf eq f by (intro answered [OF f]) (simp_all add: bucket_call_def)
  next
    case Refused
    then show ?thesis using tf eq by (intro unchanged) (simp_all add: bucket_call_def)
  next
    case Lost
    then show ?thesis using tf eq f by (intro lost [OF f]) (simp_all add: bucket_call_def)
  qed
qed

lemma bucket_call_db [simp]: "w_db (fst (bucket_call f w)) = w_db w" "w_ctx (fst (bucket_call f w)) = w_ctx w"
proof -
  obtain fl w1 where tf: "take_fault w = (fl, w1)" by fastforce
  then have "w_db w1 = w_db w" "w_ctx w1 = w_ctx w" using take_fault_simps [of w] by simp_all
  then show "w_db (fst (bucket_call f w)) = w_db w" "w_ctx (fst (bucket_call f w)) = w_ctx w"
    using tf by (cases fl; auto simp: bucket_call_def split: prod.split)+
qed

lemma db_read_state [simp]: "w_db (fst (db_read f w)) = w_db w"
  by (cases rule: db_call_cases [where f = "\<lambda>c s. ((c, s), f s)" and w = w]) (simp_all add: db_read_def)

lemma db_read_bucket [simp]: "w_bucket (fst (db_read f w)) = w_bucket w"
  by (simp add: db_read_def)

lemma db_read_result: "snd (db_read f w) = Inl Unavailable \<or> snd (db_read f w) = map_sum StoreFault (\<lambda>x. x) (f (w_db w))"
  by (cases rule: db_call_cases [where f = "\<lambda>c s. ((c, s), f s)" and w = w]) (simp_all add: db_read_def)

lemma db_read_Inr: "snd (db_read f w) = Inr x \<Longrightarrow> f (w_db w) = Inr x"
  using db_read_result [of f w] by (cases "f (w_db w)") auto

lemma db_read_store_error: "snd (db_read f w) = Inl (StoreFault e) \<Longrightarrow> f (w_db w) = Inl e"
  using db_read_result [of f w] by (cases "f (w_db w)") auto

text \<open>An invariant of database and bucket alone is kept by what keeps the two parts.\<close>

lemma keeps_io: "(\<And>w w'. w_db w' = w_db w \<Longrightarrow> w_bucket w' = w_bucket w \<Longrightarrow> I w' = I w) \<Longrightarrow> keeps I io_call"
  by (rule keepsI) (metis io_call_state(1,2))

lemma keeps_db:
  assumes "\<And>w w'. w_db w' = w_db w \<Longrightarrow> w_bucket w' = w_bucket w \<Longrightarrow> I w' = I w"
    and "\<And>w c. I w \<Longrightarrow> I (w\<lparr>w_db := snd (fst (f c (w_db w)))\<rparr>)"
  shows "keeps I (db_call f)"
proof (rule keepsI)
  fix w
  assume w: "I w"
  show "I (fst (db_call f w))"
  proof (cases rule: db_call_cases [of f w])
    case unchanged
    then show ?thesis using w assms(1) by (metis db_call_bucket)
  next
    case (answered c s r)
    then show ?thesis using assms(2) [OF w, of "w_ctx w"] assms(1) [of "fst (db_call f w)" "w\<lparr>w_db := s\<rparr>"] by simp
  next
    case (lost c s r)
    then show ?thesis using assms(2) [OF w, of "w_ctx w"] assms(1) [of "fst (db_call f w)" "w\<lparr>w_db := s\<rparr>"] by simp
  qed
qed

lemma keeps_bucket:
  assumes "\<And>w w'. w_db w' = w_db w \<Longrightarrow> w_bucket w' = w_bucket w \<Longrightarrow> I w' = I w"
    and "\<And>w. I w \<Longrightarrow> I (w\<lparr>w_bucket := fst (f (w_bucket w))\<rparr>)"
  shows "keeps I (bucket_call f)"
proof (rule keepsI)
  fix w
  assume w: "I w"
  show "I (fst (bucket_call f w))"
  proof (cases rule: bucket_call_cases [of f w])
    case unchanged
    then show ?thesis using w assms(1) by (metis bucket_call_db(1))
  next
    case (answered bk r)
    then show ?thesis using assms(2) [OF w] assms(1) [of "fst (bucket_call f w)" "w\<lparr>w_bucket := bk\<rparr>"] by simp
  next
    case (lost bk r)
    then show ?thesis using assms(2) [OF w] assms(1) [of "fst (bucket_call f w)" "w\<lparr>w_bucket := bk\<rparr>"] by simp
  qed
qed

lemma keeps_read:
  "(\<And>w w'. w_db w' = w_db w \<Longrightarrow> w_bucket w' = w_bucket w \<Longrightarrow> I w' = I w) \<Longrightarrow> keeps I (db_read f)"
  by (rule keepsI) (metis db_read_bucket db_read_state)

end
