(* ===== verification/HttpUtil.thy ===== *)
theory HttpUtil
  imports GoPath
begin

text \<open>
  The helpers of \<open>internal/httputil\<close>: forwarded headers, release slugs and byte ranges, with the part
  of Go's \<open>net/http\<close> and \<open>strconv\<close> they call. A header maps canonical names to lists of values.
  \<open>strings.EqualFold\<close> and \<open>url.Parse\<close> are parameters.
\<close>

section \<open>Headers and numbers\<close>

type_synonym header = "(string, string list) gomap"

definition header_Get :: "header \<Rightarrow> string \<Rightarrow> string" where
  "header_Get h name = (case map_of h name of Some (v # _) \<Rightarrow> v | _ \<Rightarrow> [])"

definition header_Values :: "header \<Rightarrow> string \<Rightarrow> string list" where
  "header_Values h name = (case map_of h name of Some vs \<Rightarrow> vs | None \<Rightarrow> [])"

definition header_Set :: "string \<Rightarrow> string \<Rightarrow> header \<Rightarrow> header" where
  "header_Set name value h = map_set name [value] h"

definition header_Add :: "string \<Rightarrow> string \<Rightarrow> header \<Rightarrow> header" where
  "header_Add name value h = map_set name (header_Values h name @ [value]) h"

definition header_Del :: "string \<Rightarrow> header \<Rightarrow> header" where
  "header_Del name h = map_del name h"

lemma header_Get_simps [simp]:
  "header_Get (header_Set n v h) m = (if m = n then v else header_Get h m)"
  "header_Get (header_Del n h) m = (if m = n then [] else header_Get h m)"
  by (simp_all add: header_Get_def header_Set_def header_Del_def)

text \<open>\<open>strconv.ParseInt(s, 10, 64)\<close>: an optional sign and digits within 64 bits.\<close>

definition max_int64 :: int where "max_int64 = 2 ^ 63 - 1"

definition ParseInt :: "string \<Rightarrow> int option" where
  "ParseInt s =
     (let (neg, ds) = (case s of
            c # t \<Rightarrow> if c = CHR ''-'' then (True, t) else if c = CHR ''+'' then (False, t) else (False, s)
          | [] \<Rightarrow> (False, []));
          n = int (digits_val ds)
      in if ds = [] \<or> \<not> digits ds then None
         else if neg then (if max_int64 + 1 < n then None else Some (- n))
         else (if max_int64 < n then None else Some n))"

text \<open>\<open>strconv.FormatInt\<close>.\<close>

definition FormatInt :: "int \<Rightarrow> string" where
  "FormatInt i = (if i < 0 then ''-'' @ decimal (nat (- i)) else decimal (nat i))"

section \<open>Forwarded headers\<close>

text \<open>\<open>strings.Trim\<close> and \<open>strings.TrimRight\<close> with a set of one character.\<close>

definition trim_char_right :: "char \<Rightarrow> string \<Rightarrow> string" where
  "trim_char_right c s = rev (dropWhile (\<lambda>x. x = c) (rev s))"

definition trim_char :: "char \<Rightarrow> string \<Rightarrow> string" where
  "trim_char c s = trim_char_right c (dropWhile (\<lambda>x. x = c) s)"

definition FirstHeaderValue :: "string \<Rightarrow> string" where
  "FirstHeaderValue value =
     (if value = [] then [] else trim_space (hd (split_on (CHR '','') value)))"

fun forwarded_parts :: "(string \<Rightarrow> string \<Rightarrow> bool) \<Rightarrow> string \<Rightarrow> string list \<Rightarrow> string" where
  "forwarded_parts equal_fold key [] = []"
| "forwarded_parts equal_fold key (part # parts) =
     (case cut (CHR ''='') (trim_space part) of
        (name, raw, ok) \<Rightarrow>
          if \<not> ok \<or> \<not> equal_fold name key then forwarded_parts equal_fold key parts
          else trim_char (CHR 0x22) (trim_space raw))"

definition ForwardedParam :: "(string \<Rightarrow> string \<Rightarrow> bool) \<Rightarrow> string \<Rightarrow> string \<Rightarrow> string" where
  "ForwardedParam equal_fold value key =
     forwarded_parts equal_fold key (split_on (CHR '';'') (FirstHeaderValue value))"

text \<open>The parts of a request that are read; \<open>rq_TLS\<close> says that the connection is encrypted.\<close>

record http_request =
  rq_Method :: string
  rq_Path :: string
  rq_RawQuery :: string
  rq_Host :: string
  rq_RemoteAddr :: string
  rq_TLS :: bool
  rq_Header :: header

definition ForwardedScheme :: "(string \<Rightarrow> string \<Rightarrow> bool) \<Rightarrow> http_request option \<Rightarrow> string" where
  "ForwardedScheme equal_fold request =
     (case request of
        None \<Rightarrow> ''http''
      | Some req \<Rightarrow>
          let xproto = FirstHeaderValue (header_Get (rq_Header req) ''X-Forwarded-Proto'');
              proto = ForwardedParam equal_fold (header_Get (rq_Header req) ''Forwarded'') ''proto''
          in if xproto \<noteq> [] then xproto else if proto \<noteq> [] then proto
             else if rq_TLS req then ''https'' else ''http'')"

text \<open>\<open>parse\<close> gives the scheme and the host of a URL.\<close>

definition ExternalBaseURL ::
    "(string \<Rightarrow> string \<Rightarrow> bool) \<Rightarrow> (string \<Rightarrow> (string \<times> string) option) \<Rightarrow> http_request option \<Rightarrow> string \<Rightarrow> string" where
  "ExternalBaseURL equal_fold parse request fallback0 =
     (let fallback = trim_char_right (CHR ''/'') (trim_space fallback0) in
      case request of
        None \<Rightarrow> fallback
      | Some req \<Rightarrow>
          let scheme = ForwardedScheme equal_fold request;
              xhost = FirstHeaderValue (header_Get (rq_Header req) ''X-Forwarded-Host'');
              fhost = ForwardedParam equal_fold (header_Get (rq_Header req) ''Forwarded'') ''host'';
              host = (if xhost \<noteq> [] then xhost else if fhost \<noteq> [] then fhost else rq_Host req);
              (scheme1, host1) =
                (if host = [] \<and> fallback \<noteq> []
                 then (case parse fallback of
                         None \<Rightarrow> (scheme, host)
                       | Some (s, h) \<Rightarrow> (if s \<noteq> [] then s else scheme, h))
                 else (scheme, host))
          in if host1 = [] then fallback else scheme1 @ ''://'' @ host1)"

definition SingleJoiningSlash :: "string \<Rightarrow> string \<Rightarrow> string" where
  "SingleJoiningSlash a b =
     (let aSlash = has_suffix a ''/''; bSlash = has_prefix b ''/'' in
      if aSlash \<and> bSlash then a @ tl b
      else if \<not> aSlash \<and> \<not> bSlash then a @ ''/'' @ b
      else a @ b)"

section \<open>Release slugs\<close>

definition ReleaseVersionFromSlug :: "string \<Rightarrow> string \<Rightarrow> string" where
  "ReleaseVersionFromSlug moduleSlug releaseSlug =
     (if moduleSlug = [] \<or> releaseSlug = [] then []
      else
        let slug = trim_suffix (path_Base (trim_char_right (CHR ''/'') releaseSlug)) ''.tar.gz'';
            prefix = moduleSlug @ ''-''
        in if \<not> has_prefix slug prefix then [] else trim_prefix slug prefix)"

section \<open>Byte ranges\<close>

record byte_range =
  br_Start :: int
  br_Length :: int

definition no_range :: byte_range where
  "no_range = \<lparr>br_Start = 0, br_Length = 0\<rparr>"

text \<open>A range, whether there is one, or the error message.\<close>

definition ParseSingleByteRange :: "string \<Rightarrow> int \<Rightarrow> string + (byte_range \<times> bool)" where
  "ParseSingleByteRange raw0 objectSize =
     (let raw = trim_space raw0 in
      if raw = [] then Inr (no_range, False)
      else if objectSize < 0 \<or> \<not> has_prefix raw ''bytes='' \<or> CHR '','' \<in> set raw then Inl ''invalid byte range''
      else case cut (CHR ''-'') (trim_space (trim_prefix raw ''bytes='')) of
        (startText, endText, ok) \<Rightarrow>
          if \<not> ok \<or> (startText = [] \<and> endText = []) then Inl ''invalid byte range''
          else if startText = [] then
            (case ParseInt endText of
               None \<Rightarrow> Inl ''invalid suffix byte range''
             | Some suffix \<Rightarrow>
                 if suffix \<le> 0 \<or> objectSize = 0 then Inl ''invalid suffix byte range''
                 else let s = min suffix objectSize in Inr (\<lparr>br_Start = objectSize - s, br_Length = s\<rparr>, True))
          else
            (case ParseInt startText of
               None \<Rightarrow> Inl ''byte range starts beyond object''
             | Some start \<Rightarrow>
                 if start < 0 \<or> objectSize \<le> start then Inl ''byte range starts beyond object''
                 else if endText = [] then Inr (\<lparr>br_Start = start, br_Length = objectSize - 1 - start + 1\<rparr>, True)
                 else (case ParseInt endText of
                         None \<Rightarrow> Inl ''invalid byte range end''
                       | Some e \<Rightarrow>
                           if e < start then Inl ''invalid byte range end''
                           else Inr (\<lparr>br_Start = start, br_Length = min e (objectSize - 1) - start + 1\<rparr>, True))))"

definition ETagMatches :: "string \<Rightarrow> string \<Rightarrow> bool" where
  "ETagMatches raw etag =
     (raw \<noteq> [] \<and> etag \<noteq> [] \<and>
      (\<exists>candidate \<in> set (map trim_space (split_on (CHR '','') raw)).
         candidate = ''*'' \<or> trim_prefix candidate ''W/'' = etag))"

definition IfRangeMatches :: "string \<Rightarrow> string \<Rightarrow> bool" where
  "IfRangeMatches raw0 etag = (let raw = trim_space raw0 in raw = [] \<or> (etag \<noteq> [] \<and> raw = etag))"

record byte_range_response =
  bp_Range :: byte_range
  bp_Partial :: bool
  bp_NotModified :: bool
  bp_Status :: int
  bp_ContentLength :: int

definition PrepareByteRangeResponse ::
    "header \<Rightarrow> header \<Rightarrow> int \<Rightarrow> string \<Rightarrow> string \<Rightarrow> header \<times> (string + byte_range_response)" where
  "PrepareByteRangeResponse response0 request objectSize etag contentType =
     (let response = (if etag \<noteq> [] then header_Set ''ETag'' etag response0 else response0) in
      if etag \<noteq> [] \<and> ETagMatches (header_Get request ''If-None-Match'') etag
      then (response, Inr \<lparr>bp_Range = no_range, bp_Partial = False, bp_NotModified = True, bp_Status = 304,
                          bp_ContentLength = objectSize\<rparr>)
      else
        let response1 = header_Set ''Accept-Ranges'' ''bytes'' response;
            rangeHeader = (if IfRangeMatches (header_Get request ''If-Range'') etag
                           then header_Get request ''Range'' else [])
        in case ParseSingleByteRange rangeHeader objectSize of
             Inl e \<Rightarrow> (header_Set ''Content-Range'' (''bytes */'' @ FormatInt objectSize) response1, Inl e)
           | Inr (byteRange, partial) \<Rightarrow>
               let response2 = (if partial
                     then header_Set ''Content-Range'' (''bytes '' @ FormatInt (br_Start byteRange) @ ''-'' @
                            FormatInt (br_Start byteRange + br_Length byteRange - 1) @ ''/'' @ FormatInt objectSize) response1
                     else response1);
                   len = (if partial then br_Length byteRange else objectSize);
                   response3 = (if contentType \<noteq> [] then header_Set ''Content-Type'' contentType response2 else response2)
               in (header_Set ''Content-Length'' (FormatInt len) response3,
                   Inr \<lparr>bp_Range = byteRange, bp_Partial = partial, bp_NotModified = False,
                        bp_Status = (if partial then 206 else 200), bp_ContentLength = len\<rparr>))"

definition ClearByteRangeResponseHeaders :: "header \<Rightarrow> header" where
  "ClearByteRangeResponseHeaders h =
     fold header_Del [''Accept-Ranges'', ''Content-Length'', ''Content-Range'', ''Content-Type'', ''ETag''] h"

section \<open>Correctness of byte ranges\<close>

text \<open>The syntax of a range request for one range, as numbers.\<close>

datatype range_spec = FromTo int int | FromOn int | Suffix int

definition range_text :: "string \<Rightarrow> string \<Rightarrow> range_spec option" where
  "range_text startText endText =
     (if startText = [] then map_option Suffix (ParseInt endText)
      else if endText = [] then map_option FromOn (ParseInt startText)
      else case (ParseInt startText, ParseInt endText) of
             (Some a, Some b) \<Rightarrow> Some (FromTo a b) | _ \<Rightarrow> None)"

text \<open>The positions a range selects in an object of \<open>n\<close> bytes.\<close>

fun selected :: "range_spec \<Rightarrow> int \<Rightarrow> int set" where
  "selected (FromTo a b) n = {i. a \<le> i \<and> i \<le> b \<and> 0 \<le> i \<and> i < n}"
| "selected (FromOn a) n = {i. a \<le> i \<and> 0 \<le> i \<and> i < n}"
| "selected (Suffix k) n = {i. n - k \<le> i \<and> 0 \<le> i \<and> i < n}"

definition range_positions :: "byte_range \<Rightarrow> int set" where
  "range_positions r = {br_Start r ..< br_Start r + br_Length r}"

lemma range_accepted:
  assumes "ParseSingleByteRange raw n = Inr (r, True)"
  shows "\<exists>startText endText spec.
    cut (CHR ''-'') (trim_space (trim_prefix (trim_space raw) ''bytes='')) = (startText, endText, True) \<and>
    range_text startText endText = Some spec \<and> range_positions r = selected spec n \<and> range_positions r \<noteq> {} \<and>
    0 \<le> br_Start r \<and> 0 < br_Length r \<and> br_Start r + br_Length r \<le> n"
proof -
  obtain startText endText where
    c: "cut (CHR ''-'') (trim_space (trim_prefix (trim_space raw) ''bytes='')) = (startText, endText, True)"
    and ne: "\<not> (startText = [] \<and> endText = [])"
    using assms by (auto simp: ParseSingleByteRange_def Let_def no_range_def split: if_splits prod.splits)
  show ?thesis
  proof (cases "startText = []")
    case True
    then obtain k where "ParseInt endText = Some k" "0 < k" "n \<noteq> 0" "0 \<le> n"
        "r = \<lparr>br_Start = n - min k n, br_Length = min k n\<rparr>"
      using assms c ne by (auto simp: ParseSingleByteRange_def Let_def no_range_def split: if_splits option.splits)
    then show ?thesis
      using c True by (auto simp: range_text_def range_positions_def min_def)
  next
    case start: False
    then obtain a where a: "ParseInt startText = Some a" "0 \<le> a" "a < n"
      using assms c ne by (auto simp: ParseSingleByteRange_def Let_def no_range_def split: if_splits option.splits)
    show ?thesis
    proof (cases "endText = []")
      case True
      then have "r = \<lparr>br_Start = a, br_Length = n - 1 - a + 1\<rparr>"
        using assms c ne a start by (auto simp: ParseSingleByteRange_def Let_def no_range_def split: if_splits)
      then show ?thesis using c a True start by (auto simp: range_text_def range_positions_def)
    next
      case False
      then obtain b where "ParseInt endText = Some b" "a \<le> b" "r = \<lparr>br_Start = a, br_Length = min b (n - 1) - a + 1\<rparr>"
        using assms c ne a start
        by (auto simp: ParseSingleByteRange_def Let_def no_range_def not_less split: if_splits option.splits)
      then show ?thesis using c a False start by (auto simp: range_text_def range_positions_def min_def)
    qed
  qed
qed

end
