(* ===== verification/UpstreamClient.thy ===== *)
theory UpstreamClient
  imports ServiceState HttpUtil
begin

text \<open>
  The requests to the upstream Forge (\<open>internal/proxy/forge_proxy.go\<close>) and what is read out of their
  answers. The network is a function from the request path to the answer; JSON decoding into
  generic values and into the release structure are parameters.
\<close>

section \<open>Answers\<close>

text \<open>
  \<open>hr_ContentLength\<close> is negative when the length is not announced; a broken body ends with an error
  after the bytes given.
\<close>

record http_response =
  hr_Status :: int
  hr_ContentType :: string
  hr_ContentLength :: int
  hr_Body :: string
  hr_Broken :: bool

record upstream_ref =
  rf_Slug :: string
  rf_Version :: string

record upstream_module =
  um_Slug :: string
  um_Owner :: string
  um_Name :: string
  um_CurrentRelease :: upstream_ref
  um_Releases :: "upstream_ref list"

record upstream_release =
  up_Slug :: string
  up_Version :: string
  up_Readme :: string
  up_FileURI :: string
  up_FileName :: string
  up_FileSize :: int
  up_FileMD5 :: string
  up_FileSHA256 :: string
  up_Description :: string

text \<open>\<open>json.Unmarshal\<close> into \<open>any\<close>.\<close>

datatype json =
    JNull
  | JBool bool
  | JNumber string
  | JString string
  | JArray "json list"
  | JObject "(string, json) gomap"

text \<open>
  What the service is configured with and what it does not contain: the hash functions give
  hexadecimal text, \<open>g_url_path\<close> is the path of \<open>url.Parse\<close>, \<open>g_untar\<close> the \<open>gzip\<close> and \<open>tar\<close> readers.
\<close>

record service =
  g_sv :: semver
  g_backend :: backend
  g_prefix :: string
  g_sha256 :: "string \<Rightarrow> string"
  g_md5 :: "string \<Rightarrow> string"
  g_lower :: "string \<Rightarrow> string"
  g_equal_fold :: "string \<Rightarrow> string \<Rightarrow> bool"
  g_untar :: "string \<Rightarrow> tar_archive option"
  g_decode_metadata :: "string \<Rightarrow> archive_metadata option"
  g_decode_release :: "string \<Rightarrow> upstream_release option"
  g_unmarshal :: "string \<Rightarrow> json option"
  g_url_path :: "string \<Rightarrow> string option"
  g_public_url :: "string \<Rightarrow> string"
  g_artifactPrefix :: string
  g_maxBodyBytes :: int
  g_maxArtifactBytes :: int
  g_artifactLeaseTTL :: time

text \<open>
  One request: its instant, the fresh identifiers it draws, and how the upstream answers while it
  runs. Without an upstream \<open>q_net\<close> is \<open>None\<close>; a call that fails is answered by \<open>None\<close>. \<open>q_sent\<close> is the
  number of bytes after which streaming the answer breaks, because the storage or the connection to
  the client fails; \<open>None\<close> is a stream that does not break.
\<close>

record request =
  q_now :: time
  q_uuid :: string
  q_release_uuid :: string
  q_audit_uuid :: string
  q_lease_holder :: string
  q_probe :: string
  q_net :: "(string \<Rightarrow> http_response option) option"
  q_sent :: "nat option"

text \<open>
  \<open>io.Copy\<close> of an opened object to a client: after the status is written a failure can only cut the
  content short.
\<close>

definition copied :: "request \<Rightarrow> string \<Rightarrow> string" where
  "copied q body = (case q_sent q of None \<Rightarrow> body | Some n \<Rightarrow> take n body)"

definition request_env :: "service \<Rightarrow> request \<Rightarrow> env" where
  "request_env g q = \<lparr>v_sv = g_sv g, v_now = q_now q, v_uuid = q_uuid q, v_audit_uuid = q_audit_uuid q\<rparr>"

section \<open>Bodies\<close>

text \<open>\<open>readBoundedBody\<close>: \<open>Inl (error, partial body)\<close>, where the error tells whether the body was too large.\<close>

definition readBoundedBody :: "string \<Rightarrow> bool \<Rightarrow> int \<Rightarrow> bool + string" where
  "readBoundedBody body broken maxBytes =
     (if maxBytes \<le> 0 then (if broken then Inl False else Inr body)
      else if maxBytes < int (length body) then Inl True
      else if broken then Inl False
      else Inr body)"

definition fetchBody :: "service \<Rightarrow> (string \<Rightarrow> http_response option) \<Rightarrow> string \<Rightarrow> string outcome" where
  "fetchBody g net requestPath =
     (case net requestPath of
        None \<Rightarrow> Inl Unavailable
      | Some resp \<Rightarrow>
          if hr_Status resp = 404 then Inl UpstreamNotFound
          else if hr_Status resp < 200 \<or> 300 \<le> hr_Status resp then Inl (UpstreamStatus (hr_Status resp))
          else (case readBoundedBody (hr_Body resp) (hr_Broken resp) (g_maxBodyBytes g) of
                  Inl tooLarge \<Rightarrow> Inl (if tooLarge then UpstreamInvalid ''too large'' else Unavailable)
                | Inr body \<Rightarrow> Inr body))"

section \<open>Modules\<close>

definition stringValue :: "json option \<Rightarrow> string" where
  "stringValue value = (case value of Some (JString s) \<Rightarrow> s | _ \<Rightarrow> [])"

definition upstreamOwner :: "json option \<Rightarrow> string" where
  "upstreamOwner value =
     (if stringValue value \<noteq> [] then stringValue value
      else case value of
             Some (JObject owner) \<Rightarrow>
               (if stringValue (map_of owner ''slug'') \<noteq> [] then stringValue (map_of owner ''slug'')
                else stringValue (map_of owner ''username''))
           | _ \<Rightarrow> [])"

definition normalizeReleaseRef :: "string \<Rightarrow> upstream_ref \<Rightarrow> upstream_ref" where
  "normalizeReleaseRef modSlug ref =
     (if rf_Version ref \<noteq> [] then ref
      else ref\<lparr>rf_Version := ReleaseVersionFromSlug modSlug (rf_Slug ref)\<rparr>)"

definition object_ref :: "string \<Rightarrow> (string, json) gomap \<Rightarrow> upstream_ref" where
  "object_ref modSlug ob =
     normalizeReleaseRef modSlug
       \<lparr>rf_Slug = stringValue (map_of ob ''slug''), rf_Version = stringValue (map_of ob ''version'')\<rparr>"

definition slug_ref :: "string \<Rightarrow> string \<Rightarrow> upstream_ref" where
  "slug_ref modSlug s = normalizeReleaseRef modSlug \<lparr>rf_Slug = s, rf_Version = []\<rparr>"

definition release_refs :: "string \<Rightarrow> json option \<Rightarrow> upstream_ref list" where
  "release_refs modSlug value =
     (case value of
        Some (JArray releases) \<Rightarrow>
          concat (map (\<lambda>item. case item of
              JObject ob \<Rightarrow> [object_ref modSlug ob]
            | JString s \<Rightarrow> [slug_ref modSlug s]
            | _ \<Rightarrow> []) releases)
      | Some (JObject releases) \<Rightarrow>
          (case map_of releases ''results'' of
             Some (JArray results) \<Rightarrow>
               concat (map (\<lambda>item. case item of JObject ob \<Rightarrow> [object_ref modSlug ob] | _ \<Rightarrow> []) results)
           | _ \<Rightarrow> [])
      | _ \<Rightarrow> [])"

definition parseUpstreamModule :: "service \<Rightarrow> string \<Rightarrow> upstream_module outcome" where
  "parseUpstreamModule g body =
     (let parsed = (case g_unmarshal g body of
            Some (JObject raw) \<Rightarrow> Some raw | Some JNull \<Rightarrow> Some [] | _ \<Rightarrow> None) in
      case parsed of
        None \<Rightarrow> Inl (UpstreamInvalid ''decode upstream module'')
      | Some raw \<Rightarrow>
          let slug = stringValue (map_of raw ''slug'') in
          Inr \<lparr>um_Slug = slug, um_Owner = upstreamOwner (map_of raw ''owner''),
               um_Name = stringValue (map_of raw ''name''),
               um_CurrentRelease = (case map_of raw ''current_release'' of
                   Some (JObject current) \<Rightarrow> object_ref slug current
                 | Some (JString current) \<Rightarrow> slug_ref slug current
                 | _ \<Rightarrow> \<lparr>rf_Slug = [], rf_Version = []\<rparr>),
               um_Releases = release_refs slug (map_of raw ''releases'')\<rparr>)"

definition FetchModule :: "service \<Rightarrow> (string \<Rightarrow> http_response option) \<Rightarrow> string \<Rightarrow> upstream_module outcome" where
  "FetchModule g net slug = sum_bind (fetchBody g net (''/v3/modules/'' @ slug)) (parseUpstreamModule g)"

definition FetchRelease :: "service \<Rightarrow> (string \<Rightarrow> http_response option) \<Rightarrow> string \<Rightarrow> upstream_release outcome" where
  "FetchRelease g net slug =
     sum_bind (fetchBody g net (''/v3/releases/'' @ slug)) (\<lambda>body.
       case g_decode_release g body of
         None \<Rightarrow> Inl (UpstreamInvalid ''decode upstream json'')
       | Some release \<Rightarrow> Inr release)"

section \<open>Artifact bodies\<close>

text \<open>
  \<open>newArtifactUploadReader\<close> checks the announced length; the reader then yields the body, or fails
  when it is longer or shorter than announced, longer than the maximum, or broken.
\<close>

definition newArtifactUploadReader :: "int \<Rightarrow> int \<Rightarrow> unit outcome" where
  "newArtifactUploadReader contentLength maxBytes =
     (if maxBytes \<le> 0 then Inl (UpstreamInvalid ''maximum size'')
      else if maxBytes < contentLength then Inl (UpstreamInvalid ''too large'')
      else Inr ())"

text \<open>
  \<open>Read\<close> with a buffer of \<open>n\<close> bytes, on a source that has \<open>rest\<close> left: the bytes it returns, the error
  if any (\<open>io.EOF\<close> is \<open>Some None\<close>), and the bytes left. The source fills the buffer as far as it can
  and reports its end in a read of its own.
\<close>

definition artifactUploadReader_Read ::
    "int \<Rightarrow> int \<Rightarrow> bool \<Rightarrow> nat \<Rightarrow> int \<Rightarrow> string \<Rightarrow> (string \<times> service_error option option \<times> string)" where
  "artifactUploadReader_Read contentLength maxBytes broken n readBytes rest =
     (if n = 0 then ([], None, rest)
      else
        let limit = (if 0 \<le> contentLength then contentLength else maxBytes);
            ended = (if broken then Some (Some Unavailable) else Some None)
        in if readBytes = limit then
             (if rest \<noteq> []
              then ([], Some (Some (UpstreamInvalid (if 0 \<le> contentLength then ''length'' else ''too large''))), tl rest)
              else ([], ended, []))
           else
             let k = min n (nat (limit - readBytes)); got = take k rest; left = drop k rest in
             if got \<noteq> [] then (got, None, left)
             else if broken then ([], ended, [])
             else if 0 \<le> contentLength \<and> readBytes \<noteq> contentLength
             then ([], Some (Some (UpstreamInvalid ''length'')), [])
             else ([], ended, []))"

lemma Read_progress:
  "artifactUploadReader_Read contentLength maxBytes broken n readBytes rest = (got, None, left) \<Longrightarrow> 0 < n \<Longrightarrow>
     rest = got @ left \<and> got \<noteq> []"
  by (auto simp: artifactUploadReader_Read_def Let_def split: if_splits)

text \<open>\<open>io.Copy\<close> from the reader, with a buffer of \<open>n\<close> bytes.\<close>

function upload_all :: "int \<Rightarrow> int \<Rightarrow> bool \<Rightarrow> nat \<Rightarrow> int \<Rightarrow> string \<Rightarrow> string outcome" where
  "upload_all contentLength maxBytes broken n readBytes rest =
     (if n = 0 then Inl Unavailable
      else case artifactUploadReader_Read contentLength maxBytes broken n readBytes rest of
        (got, Some (Some e), left) \<Rightarrow> Inl e
      | (got, Some None, left) \<Rightarrow> Inr got
      | (got, None, left) \<Rightarrow>
          map_sum (\<lambda>e. e) (\<lambda>more. got @ more)
            (upload_all contentLength maxBytes broken n (readBytes + int (length got)) left))"
  by pat_completeness auto

termination
proof (relation "measure (\<lambda>(cl, mb, br, n, rb, rest). length rest)")
  fix cl mb n rb rest got u left and e :: "service_error option option" and br
  assume "n \<noteq> 0" "(got, u) = artifactUploadReader_Read cl mb br n rb rest" "(e, left) = u" "e = None"
  then have "rest = got @ left \<and> got \<noteq> []" using Read_progress [of cl mb br n rb rest got left] by simp
  then show "((cl, mb, br, n, rb + int (length got), left), cl, mb, br, n, rb, rest)
      \<in> measure (\<lambda>(cl, mb, br, n, rb, rest). length rest)" by simp
qed simp

declare upload_all.simps [simp del]

text \<open>
  The outcome does not depend on the buffer: a body of the announced length within the maximum is
  accepted, every other one fails.
\<close>

definition upload_outcome :: "int \<Rightarrow> int \<Rightarrow> bool \<Rightarrow> int \<Rightarrow> string \<Rightarrow> string outcome" where
  "upload_outcome contentLength maxBytes broken readBytes rest =
     (let n = readBytes + int (length rest); limit = (if 0 \<le> contentLength then contentLength else maxBytes) in
      if limit < n then Inl (UpstreamInvalid (if 0 \<le> contentLength then ''length'' else ''too large''))
      else if broken then Inl Unavailable
      else if 0 \<le> contentLength \<and> n \<noteq> contentLength then Inl (UpstreamInvalid ''length'')
      else Inr rest)"

lemma upload_all_outcome:
  assumes "0 < n" "0 \<le> readBytes" "readBytes \<le> (if 0 \<le> contentLength then contentLength else maxBytes)"
  shows "upload_all contentLength maxBytes broken n readBytes rest =
    upload_outcome contentLength maxBytes broken readBytes rest"
  using assms
proof (induction contentLength maxBytes broken n readBytes rest rule: upload_all.induct)
  case (1 cl mb br n rb rest)
  obtain got e left where r: "artifactUploadReader_Read cl mb br n rb rest = (got, e, left)" by (metis prod.exhaust)
  show ?case
  proof (cases e)
    case (Some e')
    then show ?thesis
      using "1.prems" r
      by (subst upload_all.simps)
        (cases rest; auto simp: artifactUploadReader_Read_def upload_outcome_def Let_def min_def split: if_splits option.splits)
  next
    case None
    then have p: "rest = got @ left" "got \<noteq> []" using Read_progress [of cl mb br n rb rest got left] r "1.prems" by auto
    have b: "rb + int (length got) \<le> (if 0 \<le> cl then cl else mb)"
      using r None "1.prems" by (auto simp: artifactUploadReader_Read_def Let_def split: if_splits)
    have ih: "upload_all cl mb br n (rb + int (length got)) left = upload_outcome cl mb br (rb + int (length got)) left"
      using "1.prems" b by (intro "1.IH" [OF _ r [symmetric]]) (auto simp: None)
    have u: "upload_all cl mb br n rb rest =
        map_sum (\<lambda>e. e) (\<lambda>more. got @ more) (upload_all cl mb br n (rb + int (length got)) left)"
      using "1.prems" None by (subst upload_all.simps) (simp add: r)
    show ?thesis
      unfolding u ih by (auto simp: upload_outcome_def Let_def p(1))
  qed
qed

text \<open>The artifact of an answer; \<open>io.Copy\<close> uses a buffer of 32 KiB.\<close>

definition copy_buffer :: nat where "copy_buffer = 32 * 1024"

definition read_artifact :: "service \<Rightarrow> http_response \<Rightarrow> string outcome" where
  "read_artifact g resp =
     upload_all (hr_ContentLength resp) (g_maxArtifactBytes g) (hr_Broken resp) copy_buffer 0 (hr_Body resp)"

lemma read_artifact_code:
  "0 < g_maxArtifactBytes g \<Longrightarrow>
   read_artifact g resp = upload_outcome (hr_ContentLength resp) (g_maxArtifactBytes g) (hr_Broken resp) 0 (hr_Body resp)"
  unfolding read_artifact_def by (rule upload_all_outcome) (auto simp: copy_buffer_def)

end
