(* ===== verification/ArtifactCache.thy ===== *)
theory ArtifactCache
  imports UpstreamClient
begin

text \<open>
  The cache of upstream artifacts in the bucket (\<open>internal/proxy/forge_proxy.go\<close>): the artifact of a
  file URI is fetched once under a lease, checked against its checksum, and replaced when it is
  corrupt. \<open>artifactGroup\<close> merges concurrent loads of one object in a process, so a load is one step.
  Waiting for a lease is its last poll.
\<close>

section \<open>Leases\<close>

definition svc_finally :: "'a svc \<Rightarrow> 'b svc \<Rightarrow> 'a svc" where
  "svc_finally m c = svc_try m (\<lambda>r. svc_try c (\<lambda>_ w. (w, r)))"

definition bucket_read :: "(bucket \<Rightarrow> 'a) \<Rightarrow> 'a svc" where
  "bucket_read f = bucket_call (\<lambda>bk. (bk, Inr (f bk)))"

definition lease_name :: "service \<Rightarrow> string \<Rightarrow> string" where
  "lease_name g objectPath = ''upstream-artifact-'' @ g_sha256 g objectPath"

text \<open>The result tells whether a lease is held that has to be released.\<close>

definition acquireArtifactLeaseWithCacheShortcut :: "service \<Rightarrow> request \<Rightarrow> string \<Rightarrow> bool \<Rightarrow> bool svc" where
  "acquireArtifactLeaseWithCacheShortcut g q objectPath cacheShortcut =
     svc_then
       (db_write (\<lambda>s. case AcquireLease s (q_now q) (lease_name g objectPath) (q_lease_holder q) (g_artifactLeaseTTL g) of
           (s1, acquired) \<Rightarrow> (s1, Inr acquired)))
       (\<lambda>acquired.
         if acquired then svc_return True
         else if cacheShortcut then
           svc_then (bucket_read (ExistsObject (g_backend g) objectPath)) (\<lambda>exists.
             if exists then svc_return False else svc_error Unavailable)
         else svc_error Unavailable)"

definition release_lease :: "service \<Rightarrow> request \<Rightarrow> string \<Rightarrow> bool \<Rightarrow> unit svc" where
  "release_lease g q objectPath held =
     (if held then db_write (\<lambda>s. (ReleaseLease s (lease_name g objectPath) (q_lease_holder q), Inr ()))
      else svc_return ())"

definition with_lease :: "service \<Rightarrow> request \<Rightarrow> string \<Rightarrow> bool \<Rightarrow> 'a svc \<Rightarrow> 'a svc" where
  "with_lease g q objectPath cacheShortcut body =
     svc_then (acquireArtifactLeaseWithCacheShortcut g q objectPath cacheShortcut) (\<lambda>held.
       svc_finally body (release_lease g q objectPath held))"

definition WithCachedArtifactLease :: "service \<Rightarrow> request \<Rightarrow> string \<Rightarrow> 'a svc \<Rightarrow> 'a svc" where
  "WithCachedArtifactLease g q objectPath fn = with_lease g q objectPath False fn"

section \<open>Paths\<close>

definition cachedArtifactPath :: "service \<Rightarrow> string \<Rightarrow> string" where
  "cachedArtifactPath g requestPath = path_Join [g_artifactPrefix g, trim_prefix requestPath ''/'']"

text \<open>The path to request and the object to store it in.\<close>

definition artifactRequest :: "service \<Rightarrow> string \<Rightarrow> (string \<times> string) outcome" where
  "artifactRequest g fileURI =
     (case g_url_path g fileURI of
        None \<Rightarrow> Inl (UpstreamInvalid ''artifact uri'')
      | Some p \<Rightarrow>
          if \<not> has_prefix p ''/v3/files/'' then Inl (UpstreamInvalid ''not a Forge file path'')
          else Inr (p, cachedArtifactPath g p))"

definition svc_lift :: "'a outcome \<Rightarrow> 'a svc" where
  "svc_lift r = (case r of Inl e \<Rightarrow> svc_error e | Inr x \<Rightarrow> svc_return x)"

section \<open>Loading\<close>

record artifact_load =
  al_statusCode :: int
  al_cacheHit :: bool

abbreviation cache_hit :: artifact_load where
  "cache_hit \<equiv> \<lparr>al_statusCode = 200, al_cacheHit = True\<rparr>"

definition cachedArtifactResult :: "service \<Rightarrow> string \<Rightarrow> artifact_load option svc" where
  "cachedArtifactResult g objectPath =
     svc_then (bucket_read (ExistsObject (g_backend g) objectPath)) (\<lambda>exists.
       svc_return (if exists then Some cache_hit else None))"

text \<open>The body is read while it is uploaded, so an upload whose body fails stores nothing.\<close>

definition upload_artifact :: "service \<Rightarrow> request \<Rightarrow> string \<Rightarrow> http_response \<Rightarrow> bool svc" where
  "upload_artifact g q objectPath resp =
     bucket_call (\<lambda>bk.
       case read_artifact g resp of
         Inl e \<Rightarrow> (bk, Inl e)
       | Inr body \<Rightarrow>
           (case UploadReaderIfAbsent (g_backend g) (q_now q) objectPath
                  (if hr_ContentType resp = [] then ''application/octet-stream'' else hr_ContentType resp) body bk of
              (bk1, created) \<Rightarrow> (bk1, Inr created)))"

definition fetchAndCacheArtifact ::
    "service \<Rightarrow> request \<Rightarrow> (string \<Rightarrow> http_response option) \<Rightarrow> string \<Rightarrow> string \<Rightarrow> artifact_load svc" where
  "fetchAndCacheArtifact g q net requestPath objectPath =
     (case net requestPath of
        None \<Rightarrow> svc_error Unavailable
      | Some resp \<Rightarrow>
          if hr_Status resp < 200 \<or> 300 \<le> hr_Status resp
          then svc_return \<lparr>al_statusCode = hr_Status resp, al_cacheHit = False\<rparr>
          else if hr_Status resp \<noteq> 200 then svc_error (UpstreamInvalid ''success status'')
          else
            svc_then (svc_lift (newArtifactUploadReader (hr_ContentLength resp) (g_maxArtifactBytes g))) (\<lambda>_.
            svc_then (upload_artifact g q objectPath resp) (\<lambda>created.
              if created then svc_return \<lparr>al_statusCode = 200, al_cacheHit = False\<rparr>
              else svc_then (cachedArtifactResult g objectPath) (\<lambda>cached.
                case cached of
                  Some hit \<Rightarrow> svc_return hit
                | None \<Rightarrow> svc_error (Failed ''cached upstream artifact disappeared after concurrent upload'')))))"

definition loadArtifact ::
    "service \<Rightarrow> request \<Rightarrow> (string \<Rightarrow> http_response option) \<Rightarrow> string \<Rightarrow> string \<Rightarrow> artifact_load svc" where
  "loadArtifact g q net requestPath objectPath =
     svc_then (cachedArtifactResult g objectPath) (\<lambda>cached.
       case cached of
         Some hit \<Rightarrow> svc_return hit
       | None \<Rightarrow>
           with_lease g q objectPath True
             (svc_then (cachedArtifactResult g objectPath) (\<lambda>cached.
               case cached of
                 Some hit \<Rightarrow> svc_return hit
               | None \<Rightarrow> fetchAndCacheArtifact g q net requestPath objectPath)))"

definition EnsureArtifact :: "service \<Rightarrow> request \<Rightarrow> (string \<Rightarrow> http_response option) \<Rightarrow> string \<Rightarrow> unit svc" where
  "EnsureArtifact g q net fileURI =
     svc_then (svc_lift (artifactRequest g fileURI)) (\<lambda>(requestPath, objectPath).
     svc_then (loadArtifact g q net requestPath objectPath) (\<lambda>loaded.
       if al_statusCode loaded = 404 then svc_error UpstreamNotFound
       else if al_statusCode loaded < 200 \<or> 300 \<le> al_statusCode loaded
       then svc_error (UpstreamStatus (al_statusCode loaded))
       else svc_return ()))"

section \<open>Integrity\<close>

text \<open>Whether the object exists, and whether it matches what is expected of it.\<close>

definition artifact_valid :: "service \<Rightarrow> string \<Rightarrow> int \<Rightarrow> string \<Rightarrow> bool" where
  "artifact_valid g expectedSHA256 expectedSize body =
     ((expectedSize \<le> 0 \<or> int (length body) = expectedSize) \<and>
      (expectedSHA256 = [] \<or> g_equal_fold g (g_sha256 g body) expectedSHA256))"

definition verifyCachedArtifact :: "service \<Rightarrow> string \<Rightarrow> string \<Rightarrow> int \<Rightarrow> (bool \<times> bool) svc" where
  "verifyCachedArtifact g objectPath expectedSHA256 expectedSize =
     bucket_read (\<lambda>bk.
       case OpenObject (g_backend g) objectPath bk of
         None \<Rightarrow> (False, False)
       | Some ob \<Rightarrow> (True, artifact_valid g expectedSHA256 expectedSize (ob_Body ob)))"

definition delete_object :: "service \<Rightarrow> string \<Rightarrow> unit svc" where
  "delete_object g objectPath = bucket_call (\<lambda>bk. (DeleteObject (g_backend g) objectPath bk, Inr ()))"

definition EnsureArtifactIntegrity ::
    "service \<Rightarrow> request \<Rightarrow> (string \<Rightarrow> http_response option) \<Rightarrow> string \<Rightarrow> string \<Rightarrow> int \<Rightarrow> unit svc" where
  "EnsureArtifactIntegrity g q net fileURI expectedSHA256 expectedSize =
     svc_then (svc_lift (artifactRequest g fileURI)) (\<lambda>(requestPath, objectPath).
     with_lease g q objectPath False
       (svc_then (verifyCachedArtifact g objectPath expectedSHA256 expectedSize) (\<lambda>(exists, valid).
         if exists \<and> valid then svc_return ()
         else
           svc_then (if exists then delete_object g objectPath else svc_return ()) (\<lambda>_.
           svc_then (fetchAndCacheArtifact g q net requestPath objectPath) (\<lambda>loaded.
             if al_statusCode loaded < 200 \<or> 300 \<le> al_statusCode loaded
             then svc_error (UpstreamStatus (al_statusCode loaded))
             else
               svc_then (verifyCachedArtifact g objectPath expectedSHA256 expectedSize) (\<lambda>(_, valid).
                 if valid then svc_return ()
                 else svc_try (delete_object g objectPath)
                   (\<lambda>_. svc_error (Failed ''refetched upstream artifact does not match release checksum or size''))))))))"

section \<open>What the cache touches\<close>

text \<open>
  An invariant of database and bucket that does not look at the lease table, and that an upload if
  absent keeps.
\<close>

locale service_invariant =
  fixes I :: "world \<Rightarrow> bool" and b :: backend
  assumes visible: "w_db w' = w_db w \<Longrightarrow> w_bucket w' = w_bucket w \<Longrightarrow> I w' = I w"
    and leases: "I w \<Longrightarrow> I (w\<lparr>w_db := (w_db w)\<lparr>db_leases := ls\<rparr>\<rparr>)"
    and uploads: "I w \<Longrightarrow> I (w\<lparr>w_bucket := fst (UploadReaderIfAbsent b now p c body (w_bucket w))\<rparr>)"
begin

lemma keeps_bucket_read [svc_keeps]: "keeps I (bucket_read f)"
proof -
  have "keeps I (bucket_call (\<lambda>bk. (bk, Inr (f bk))))"
  proof (rule keeps_bucket [OF visible])
    fix w
    assume "I w"
    then show "I (w\<lparr>w_bucket := fst (w_bucket w, Inr (f (w_bucket w)))\<rparr>)"
      using visible [of "w\<lparr>w_bucket := w_bucket w\<rparr>" w] by simp
  qed
  then show ?thesis by (simp add: bucket_read_def)
qed

lemma keeps_lift [svc_keeps]: "keeps I (svc_lift r)"
  by (auto simp: svc_lift_def split: sum.split intro: svc_keeps)

lemma keeps_finally [svc_keeps]: "keeps I m \<Longrightarrow> keeps I c \<Longrightarrow> keeps I (svc_finally m c)"
  by (simp add: svc_finally_def keeps_def svc_try_def case_prod_unfold)

lemma AcquireLease_rows: "\<exists>ls. fst (AcquireLease s now name holder d) = s\<lparr>db_leases := ls\<rparr>"
proof -
  have "\<exists>ls. s = s\<lparr>db_leases := ls\<rparr>" by (rule exI [of _ "db_leases s"]) simp
  then show ?thesis unfolding AcquireLease_def by (auto split: option.split)
qed

lemma keeps_acquire [svc_keeps]: "keeps I (acquireArtifactLeaseWithCacheShortcut g q p c)"
proof -
  have "keeps I (db_write (\<lambda>s. case AcquireLease s (q_now q) n h d of (s1, a) \<Rightarrow> (s1, Inr a)))" for n h d
    unfolding db_write_def
  proof (rule keeps_db [OF visible])
    fix w c
    assume w: "I w"
    obtain ls where "fst (AcquireLease (w_db w) (q_now q) n h d) = (w_db w)\<lparr>db_leases := ls\<rparr>"
      using AcquireLease_rows by blast
    then show "I (w\<lparr>w_db := snd (fst (case case AcquireLease (w_db w) (q_now q) n h d of (s1, a) \<Rightarrow> (s1, Inr a)
        of (s1, r) \<Rightarrow> ((c, s1), r)))\<rparr>)"
      using leases [OF w] by (simp add: case_prod_unfold)
  qed
  then show ?thesis
    unfolding acquireArtifactLeaseWithCacheShortcut_def by (intro svc_keeps) (auto intro: svc_keeps)
qed

lemma keeps_release [svc_keeps]: "keeps I (release_lease g q p held)"
proof -
  have "keeps I (db_write (\<lambda>s. (ReleaseLease s n h, Inr ())))" for n h
    unfolding db_write_def
    by (rule keeps_db [OF visible]) (auto simp: ReleaseLease_def intro: leases)
  then show ?thesis unfolding release_lease_def by (intro svc_keeps)
qed

lemma keeps_with_lease [svc_keeps]: "keeps I m \<Longrightarrow> keeps I (with_lease g q p c m)"
  unfolding with_lease_def by (intro svc_keeps)

lemma keeps_cached [svc_keeps]: "keeps I (cachedArtifactResult g p)"
  unfolding cachedArtifactResult_def by (intro svc_keeps)

lemma keeps_upload [svc_keeps]:
  assumes "g_backend g = b"
  shows "keeps I (upload_artifact g q p resp)"
  unfolding upload_artifact_def
proof (rule keeps_bucket [OF visible])
  fix w
  assume w: "I w"
  then have "I (w\<lparr>w_bucket := w_bucket w\<rparr>)" using visible [of "w\<lparr>w_bucket := w_bucket w\<rparr>" w] by simp
  then show "I (w\<lparr>w_bucket := fst (case read_artifact g resp of Inl e \<Rightarrow> (w_bucket w, Inl e)
      | Inr body \<Rightarrow> (case UploadReaderIfAbsent (g_backend g) (q_now q) p
            (if hr_ContentType resp = [] then ''application/octet-stream'' else hr_ContentType resp) body (w_bucket w) of
          (bk1, created) \<Rightarrow> (bk1, Inr created)))\<rparr>)"
    using uploads [OF w] assms by (simp add: case_prod_unfold split: sum.split)
qed

lemma keeps_fetch [svc_keeps]:
  assumes "g_backend g = b"
  shows "keeps I (fetchAndCacheArtifact g q net r p)"
  unfolding fetchAndCacheArtifact_def using assms
  by (auto split: option.split intro!: svc_keeps)

lemma keeps_EnsureArtifact [svc_keeps]:
  assumes "g_backend g = b"
  shows "keeps I (EnsureArtifact g q net uri)"
  unfolding EnsureArtifact_def loadArtifact_def using assms
  by (auto split: option.split prod.split intro!: svc_keeps)

lemma keeps_integrity:
  assumes "g_backend g = b"
    and del: "\<And>r p. artifactRequest g uri = Inr (r, p) \<Longrightarrow> keeps I (delete_object g p)"
  shows "keeps I (EnsureArtifactIntegrity g q net uri sha sz)"
proof (cases "artifactRequest g uri")
  case (Inl e)
  then show ?thesis
    by (simp add: EnsureArtifactIntegrity_def svc_lift_def keeps_def svc_then_def svc_try_def svc_error_def)
next
  case (Inr rp)
  obtain r p where rp: "rp = (r, p)" by fastforce
  have d: "keeps I (delete_object g p)" using del Inr rp by simp
  have "svc_then (svc_lift (Inr (r, p))) f = f (r, p)" for f :: "string \<times> string \<Rightarrow> unit svc"
    by (rule ext) (simp add: svc_then_def svc_try_def svc_lift_def svc_return_def)
  then show ?thesis
    unfolding EnsureArtifactIntegrity_def Inr rp using assms(1) d
    by (auto simp: verifyCachedArtifact_def split: prod.split intro!: svc_keeps)
qed

end

end
