(* ===== verification/Publishing.thy ===== *)
theory Publishing
  imports ArtifactCache
begin

text \<open>
  Publishing and deleting (\<open>internal/service/module_service.go\<close>): the upload of a release, the
  deletion of modules and releases, and the worker that empties the outbox of artifact deletions.
\<close>

section \<open>Inputs\<close>

text \<open>\<open>pi_File\<close> is the content the reader yields, \<open>None\<close> for no reader.\<close>

record publish_input =
  pi_Owner :: string
  pi_Name :: string
  pi_Version :: string
  pi_Replace :: bool
  pi_Description :: string
  pi_Readme :: string
  pi_FileName :: string
  pi_ContentType :: string
  pi_FileBytes :: string
  pi_File :: "string option"
  pi_SizeBytes :: int
  pi_Metadata :: string

definition releaseArchiveFileName :: "string \<Rightarrow> string \<Rightarrow> string \<Rightarrow> string" where
  "releaseArchiveFileName owner name version = owner @ ''-'' @ name @ ''-'' @ version @ ''.tar.gz''"

definition NewRelease ::
    "string \<Rightarrow> string \<Rightarrow> publish_input \<Rightarrow> string \<Rightarrow> string \<Rightarrow> string \<Rightarrow> release" where
  "NewRelease uuid moduleID input md5 sha256 storagePath =
     \<lparr>r_ID = uuid, r_ModuleID = moduleID, r_Owner = pi_Owner input, r_Name = pi_Name input, r_Source = ''local'',
      r_Version = pi_Version input, r_Description = pi_Description input, r_Readme = pi_Readme input,
      r_FileName = pi_FileName input, r_ContentType = pi_ContentType input, r_SizeBytes = pi_SizeBytes input,
      r_MD5 = md5, r_SHA256 = sha256, r_StoragePath = storagePath, r_UpstreamSlug = [], r_UpstreamFileURI = [],
      r_DownloadURL = [], r_Metadata = pi_Metadata input, r_CreatedAt = zero_time\<rparr>"

text \<open>What the archive says of itself, checked against the space the caller selected.\<close>

definition adopt_archive_info :: "service \<Rightarrow> publish_input \<Rightarrow> inspected \<Rightarrow> publish_input outcome" where
  "adopt_archive_info g input info =
     (if in_Owner info = [] then Inl (Invalid ''metadata.json name must include a module namespace'')
      else if in_Name info = [] then Inl (Invalid ''metadata.json module name is required'')
      else if in_Version info = [] then Inl (Invalid ''metadata.json version is required'')
      else if \<not> ValidModuleVersion (g_sv g) (in_Version info)
      then Inl (Invalid ''metadata.json version must be a valid MAJOR.MINOR.PATCH semantic version'')
      else if pi_Owner input \<noteq> [] \<and> in_Owner info \<noteq> pi_Owner input
      then Inl (Invalid ''module namespace does not match selected space'')
      else Inr (input\<lparr>pi_Owner := (if pi_Owner input = [] then in_Owner info else pi_Owner input),
                      pi_Name := in_Name info, pi_Version := in_Version info,
                      pi_Description := in_Description info, pi_Readme := in_Readme info,
                      pi_Metadata := in_Metadata info\<rparr>))"

definition normalizePublishInput :: "service \<Rightarrow> publish_input \<Rightarrow> publish_input svc" where
  "normalizePublishInput g input0 =
     (let input1 = input0\<lparr>pi_Owner := trim_space (pi_Owner input0)\<rparr>;
          input = (if pi_File input1 = None \<and> pi_FileBytes input1 \<noteq> []
                   then input1\<lparr>pi_File := Some (pi_FileBytes input1), pi_SizeBytes := int (length (pi_FileBytes input1))\<rparr>
                   else input1)
      in case pi_File input of
           None \<Rightarrow> svc_error (Invalid ''artifact file is required'')
         | Some body \<Rightarrow>
             if pi_FileName input = [] then svc_error (Invalid ''file name is required'')
             else
               svc_then io_call (\<lambda>_.
               svc_then io_call (\<lambda>_.
                 case inspectModuleArchive (g_lower g) (g_decode_metadata g) (g_untar g body) of
                   Inl e \<Rightarrow> svc_error (Invalid ''inspect module archive'')
                 | Inr info \<Rightarrow>
                     svc_then io_call (\<lambda>_. svc_lift (adopt_archive_info g input info)))))"

section \<open>Publishing\<close>

definition svc_ctx :: "(audit_ctx \<Rightarrow> audit_ctx) \<Rightarrow> unit svc" where
  "svc_ctx f w = (w\<lparr>w_ctx := f (w_ctx w)\<rparr>, Inr ())"

definition object_path :: "service \<Rightarrow> string \<Rightarrow> string \<Rightarrow> string \<Rightarrow> string \<Rightarrow> string" where
  "object_path g owner name version shaHex = path_Join [g_prefix g, owner, name, version, shaHex @ ''.tar.gz'']"

definition verifyExistingArtifact :: "service \<Rightarrow> string \<Rightarrow> string \<Rightarrow> int \<Rightarrow> unit svc" where
  "verifyExistingArtifact g objectPath expectedSHA256 expectedSize =
     svc_then (bucket_read (OpenObject (g_backend g) objectPath)) (\<lambda>opened.
       case opened of
         None \<Rightarrow> svc_error ObjectNotFound
       | Some ob \<Rightarrow>
           svc_check (int (length (ob_Body ob)) = expectedSize \<and> g_sha256 g (ob_Body ob) = expectedSHA256)
             IntegrityMismatch)"

definition compensatePublishFailure :: "service \<Rightarrow> string \<Rightarrow> string \<Rightarrow> string \<Rightarrow> service_error \<Rightarrow> 'a svc" where
  "compensatePublishFailure g owner name objectPath publishErr =
     svc_try (delete_object g objectPath) (\<lambda>_.
     svc_try (db_write (\<lambda>s. DeleteModuleIfEmpty s owner name)) (\<lambda>_.
       svc_error publishErr))"

definition record_pending :: "service \<Rightarrow> request \<Rightarrow> unit svc" where
  "record_pending g q w =
     (case PendingMutationAudit (w_ctx w) of
        None \<Rightarrow> svc_return () w
      | Some event \<Rightarrow>
          svc_then
            (db_write (\<lambda>s. case recordSQLiteAuditEvent (request_env g q) s event of
                Inl e \<Rightarrow> (s, Inl e) | Inr s1 \<Rightarrow> (s1, Inr ())))
            (\<lambda>_. svc_ctx MarkMutationAuditRecorded) w)"

definition with_url :: "service \<Rightarrow> release \<Rightarrow> release" where
  "with_url g r = r\<lparr>r_DownloadURL := g_public_url g (r_StoragePath r)\<rparr>"

text \<open>The object: uploaded, or found with the same content.\<close>

definition publish_upload :: "service \<Rightarrow> request \<Rightarrow> publish_input \<Rightarrow> string \<Rightarrow> string \<Rightarrow> string \<Rightarrow> unit svc" where
  "publish_upload g q input body shaHex objectPath =
     svc_then io_call (\<lambda>_.
     svc_then (bucket_call (\<lambda>bk.
         case UploadReaderIfAbsent (g_backend g) (q_now q) objectPath (pi_ContentType input) body bk of
           (bk1, created) \<Rightarrow> (bk1, Inr created))) (\<lambda>created.
       if created then svc_return ()
       else verifyExistingArtifact g objectPath shaHex (pi_SizeBytes input)))"

text \<open>The release row; a write whose answer is lost is looked up before the object is given up.\<close>

definition publish_commit ::
    "service \<Rightarrow> request \<Rightarrow> publish_input \<Rightarrow> string \<Rightarrow> string \<Rightarrow> string \<Rightarrow> domain_module \<Rightarrow> release svc" where
  "publish_commit g q input md5Hex shaHex objectPath mdl =
     (let new = NewRelease (q_release_uuid q) (m_ID mdl) input md5Hex shaHex objectPath;
          owner = pi_Owner input; name = pi_Name input
      in svc_try
           (db_call (\<lambda>c s. if pi_Replace input then CreateRelease (request_env g q) c s new
                            else CreateReleaseIfAbsent (request_env g q) c s new))
           (\<lambda>r. case r of
              Inr release \<Rightarrow> svc_return (with_url g release)
            | Inl e \<Rightarrow>
                svc_try (db_read (\<lambda>s. GetRelease s owner name (pi_Version input))) (\<lambda>r2.
                  case r2 of
                    Inr committed \<Rightarrow>
                      if r_Source committed = ''local'' \<and> r_SHA256 committed = shaHex \<and> r_StoragePath committed = objectPath
                      then svc_return (with_url g committed)
                      else compensatePublishFailure g owner name objectPath e
                  | Inl e2 \<Rightarrow>
                      if \<not> is_not_found e2 then svc_error e
                      else compensatePublishFailure g owner name objectPath e)))"

definition publish_new :: "service \<Rightarrow> request \<Rightarrow> publish_input \<Rightarrow> string \<Rightarrow> string \<Rightarrow> string \<Rightarrow> string \<Rightarrow> release svc" where
  "publish_new g q input body md5Hex shaHex objectPath =
     svc_then (publish_upload g q input body shaHex objectPath) (\<lambda>_.
     svc_try (db_write (\<lambda>s. UpsertModule (request_env g q) s (pi_Owner input) (pi_Name input))) (\<lambda>r.
       case r of
         Inl e \<Rightarrow> compensatePublishFailure g (pi_Owner input) (pi_Name input) objectPath e
       | Inr mdl \<Rightarrow> publish_commit g q input md5Hex shaHex objectPath mdl))"

text \<open>The part under the module lock: a release with the same content is left as it is.\<close>

definition publish_locked :: "service \<Rightarrow> request \<Rightarrow> publish_input \<Rightarrow> string \<Rightarrow> string \<Rightarrow> string \<Rightarrow> string \<Rightarrow> release svc" where
  "publish_locked g q input body md5Hex shaHex objectPath =
     svc_try (db_read (\<lambda>s. GetRelease s (pi_Owner input) (pi_Name input) (pi_Version input))) (\<lambda>r.
       case r of
         Inr existing \<Rightarrow>
           if r_Source existing = ''local'' \<and> r_SHA256 existing = shaHex then
             svc_then (verifyExistingArtifact g (r_StoragePath existing) (r_SHA256 existing) (r_SizeBytes existing)) (\<lambda>_.
             svc_then (record_pending g q) (\<lambda>_.
               svc_return (with_url g existing)))
           else if \<not> pi_Replace input then svc_error Conflict
           else publish_new g q input body md5Hex shaHex objectPath
       | Inl e \<Rightarrow>
           if \<not> is_not_found e then svc_error e
           else publish_new g q input body md5Hex shaHex objectPath)"

text \<open>After the input is normalized: the remaining checks, the authorization and the checksums.\<close>

definition publish_checked ::
    "service \<Rightarrow> request \<Rightarrow> publish_input \<Rightarrow> (string \<Rightarrow> service_error option) option \<Rightarrow> release svc" where
  "publish_checked g q input0 authorize =
     (if \<not> ValidModuleOwner (pi_Owner input0) then svc_error (Invalid ''invalid owner'')
      else if \<not> ValidModuleName (pi_Name input0) then svc_error (Invalid ''invalid name'')
      else if pi_Version input0 = [] then svc_error (Failed ''version is required'')
      else case pi_File input0 of
        None \<Rightarrow> svc_error (Failed ''artifact file is required'')
      | Some body \<Rightarrow>
          if pi_FileName input0 = [] then svc_error (Invalid ''file name is required'')
          else
            let input1 = input0\<lparr>pi_FileName :=
                  releaseArchiveFileName (pi_Owner input0) (pi_Name input0) (pi_Version input0)\<rparr> in
            (case (case authorize of None \<Rightarrow> None | Some f \<Rightarrow> f (pi_Owner input1)) of
              Some e \<Rightarrow> svc_error e
            | None \<Rightarrow>
                svc_then io_call (\<lambda>_.
                  let input = input1\<lparr>pi_SizeBytes := int (length body)\<rparr>;
                      md5Hex = g_md5 g body; shaHex = g_sha256 g body;
                      objectPath = object_path g (pi_Owner input) (pi_Name input) (pi_Version input) shaHex
                  in
                  svc_then (svc_ctx (\<lambda>c. EnrichMutationAudit c
                      [(''space'', pi_Owner input), (''module'', pi_Owner input @ ''/'' @ pi_Name input),
                       (''release'', pi_Version input), (''sha256'', shaHex)])) (\<lambda>_.
                  svc_then io_call (\<lambda>_.
                    publish_locked g q input body md5Hex shaHex objectPath)))))"

definition publish ::
    "service \<Rightarrow> request \<Rightarrow> publish_input \<Rightarrow> (string \<Rightarrow> service_error option) option \<Rightarrow> release svc" where
  "publish g q input authorize =
     svc_then (normalizePublishInput g input) (\<lambda>input1. publish_checked g q input1 authorize)"

definition Publish :: "service \<Rightarrow> request \<Rightarrow> publish_input \<Rightarrow> release svc" where
  "Publish g q input = publish g q input None"

definition PublishAuthorized ::
    "service \<Rightarrow> request \<Rightarrow> publish_input \<Rightarrow> (string \<Rightarrow> service_error option) \<Rightarrow> release svc" where
  "PublishAuthorized g q input authorize = publish g q input (Some authorize)"

section \<open>Deleting\<close>

definition isReleaseActive :: "string \<Rightarrow> string \<Rightarrow> string \<Rightarrow> time \<Rightarrow> bool svc" where
  "isReleaseActive owner name version since = db_read (\<lambda>s. Inr (IsReleaseActive s owner name version since))"

definition deleteModuleLocked :: "service \<Rightarrow> request \<Rightarrow> string \<Rightarrow> string \<Rightarrow> unit svc" where
  "deleteModuleLocked g q owner name = db_call (\<lambda>c s. DeleteModule (request_env g q) c s owner name)"

definition deleteReleaseLocked :: "service \<Rightarrow> request \<Rightarrow> string \<Rightarrow> string \<Rightarrow> string \<Rightarrow> unit svc" where
  "deleteReleaseLocked g q owner name version =
     db_call (\<lambda>c s. DeleteRelease (request_env g q) c s owner name version)"

definition svc_DeleteModule :: "service \<Rightarrow> request \<Rightarrow> string \<Rightarrow> string \<Rightarrow> unit svc" where
  "svc_DeleteModule g q owner name = svc_then io_call (\<lambda>_. deleteModuleLocked g q owner name)"

fun reject_active :: "string \<Rightarrow> string \<Rightarrow> time \<Rightarrow> string list \<Rightarrow> unit svc" where
  "reject_active owner name since [] = svc_return ()"
| "reject_active owner name since (version # versions) =
     svc_then (isReleaseActive owner name version since) (\<lambda>active.
       if active then svc_error (ProtectedDelete ''module contains active release'')
       else reject_active owner name since versions)"

definition DeleteModuleIfAllowed :: "service \<Rightarrow> request \<Rightarrow> string \<Rightarrow> string \<Rightarrow> time \<Rightarrow> unit svc" where
  "DeleteModuleIfAllowed g q owner name activeSince =
     svc_then io_call (\<lambda>_.
     svc_then (db_read (\<lambda>s. Inr (ListReleases (g_sv g) s owner name))) (\<lambda>versions.
     svc_then (reject_active owner name activeSince (map mv_Version versions)) (\<lambda>_.
       deleteModuleLocked g q owner name)))"

definition svc_DeleteRelease :: "service \<Rightarrow> request \<Rightarrow> string \<Rightarrow> string \<Rightarrow> string \<Rightarrow> unit svc" where
  "svc_DeleteRelease g q owner name version = svc_then io_call (\<lambda>_. deleteReleaseLocked g q owner name version)"

definition DeleteReleaseIfAllowed :: "service \<Rightarrow> request \<Rightarrow> string \<Rightarrow> string \<Rightarrow> string \<Rightarrow> time \<Rightarrow> unit svc" where
  "DeleteReleaseIfAllowed g q owner name version activeSince =
     svc_then io_call (\<lambda>_.
     svc_then (db_read (\<lambda>s. GetModule s owner name)) (\<lambda>mdl.
       if m_LatestVersion mdl = version then svc_error (ProtectedDelete ''latest release cannot be deleted'')
       else
         svc_then (isReleaseActive owner name version activeSince) (\<lambda>active.
           if active then svc_error (ProtectedDelete ''active release cannot be deleted'')
           else deleteReleaseLocked g q owner name version)))"

section \<open>The outbox worker\<close>

record artifact_deletion_result =
  dl_Attempted :: nat
  dl_Deleted :: nat
  dl_Canceled :: nat
  dl_Failed :: nat
  dl_Pending :: nat

definition artifactDeletionRetryDelay :: time where "artifactDeletionRetryDelay = minute"

text \<open>Whether the deletion was canceled because the artifact is referenced.\<close>

definition processArtifactDeletion :: "service \<Rightarrow> artifact_deletion \<Rightarrow> bool svc" where
  "processArtifactDeletion g deletion =
     svc_then io_call (\<lambda>_.
     svc_then (db_read (\<lambda>s. Inr (IsArtifactReferenced s (d_StoragePath deletion)))) (\<lambda>referenced.
     svc_then (if referenced then svc_return () else delete_object g (d_StoragePath deletion)) (\<lambda>_.
     svc_then (db_write (\<lambda>s. (CompleteArtifactDeletion s (d_StoragePath deletion), Inr ()))) (\<lambda>_.
       svc_return referenced))))"

fun process_all ::
    "service \<Rightarrow> request \<Rightarrow> artifact_deletion_result \<times> service_error list \<Rightarrow> artifact_deletion list \<Rightarrow>
       (artifact_deletion_result \<times> service_error list) svc" where
  "process_all g q acc [] = svc_return acc"
| "process_all g q (res, errs) (d # ds) =
     svc_try (processArtifactDeletion g d) (\<lambda>r.
       case r of
         Inl e \<Rightarrow>
           svc_try (db_write (\<lambda>s. (DeferArtifactDeletion s (d_StoragePath d) (q_now q + artifactDeletionRetryDelay), Inr ())))
             (\<lambda>r2. process_all g q
                (res\<lparr>dl_Failed := Suc (dl_Failed res)\<rparr>,
                 errs @ [e] @ (case r2 of Inl e2 \<Rightarrow> [e2] | Inr _ \<Rightarrow> [])) ds)
       | Inr canceled \<Rightarrow>
           process_all g q
             (if canceled then res\<lparr>dl_Canceled := Suc (dl_Canceled res)\<rparr>
              else res\<lparr>dl_Deleted := Suc (dl_Deleted res)\<rparr>, errs) ds)"

definition ProcessArtifactDeletions ::
    "service \<Rightarrow> request \<Rightarrow> int \<Rightarrow> (artifact_deletion_result \<times> service_error list) svc" where
  "ProcessArtifactDeletions g q limit =
     (if limit \<le> 0 then svc_error (Failed ''artifact deletion limit must be greater than zero'')
      else
        svc_then (db_read (\<lambda>s. Inr (ListArtifactDeletions (request_env g q) s limit))) (\<lambda>deletions.
        svc_then (process_all g q
            (\<lparr>dl_Attempted = length deletions, dl_Deleted = 0, dl_Canceled = 0, dl_Failed = 0, dl_Pending = 0\<rparr>, [])
            deletions) (\<lambda>(res, errs).
        svc_try (db_read (\<lambda>s. Inr (CountArtifactDeletions s))) (\<lambda>r.
          case r of
            Inl e \<Rightarrow> svc_return (res, errs @ [e])
          | Inr pending \<Rightarrow> svc_return (res\<lparr>dl_Pending := pending\<rparr>, errs)))))"

definition svc_CountArtifactDeletions :: "nat svc" where
  "svc_CountArtifactDeletions = db_read (\<lambda>s. Inr (CountArtifactDeletions s))"

end
