(* ===== verification/UpstreamReleases.thy ===== *)
theory UpstreamReleases
  imports Publishing
begin

text \<open>
  Releases of the upstream Forge in the catalog (\<open>internal/service/module_service.go\<close>): indexing a
  module, restoring and completing a release on demand, its checksums and its archive.
\<close>

section \<open>Releases\<close>

definition fallbackString :: "string \<Rightarrow> string \<Rightarrow> string" where
  "fallbackString value fallback = (if value \<noteq> [] then value else fallback)"

text \<open>\<open>strings.Index\<close>.\<close>

fun find_sub :: "string \<Rightarrow> string \<Rightarrow> nat option" where
  "find_sub t [] = (if t = [] then Some 0 else None)"
| "find_sub t (c # s) = (if has_prefix (c # s) t then Some 0 else map_option Suc (find_sub t s))"

definition cachedUpstreamArtifactPath :: "string \<Rightarrow> string" where
  "cachedUpstreamArtifactPath fileURI =
     (if fileURI = [] then []
      else
        let trimmed = (case find_sub ''/v3/files/'' fileURI of None \<Rightarrow> fileURI | Some i \<Rightarrow> drop i fileURI);
            rest = trim_prefix trimmed ''/''
        in if rest = [] then [] else path_Join [''upstream-cache'', rest])"

definition releaseArchivePath :: "release \<Rightarrow> string" where
  "releaseArchivePath r =
     (if r_StoragePath r \<noteq> [] then r_StoragePath r
      else if r_Source r = ''upstream'' then cachedUpstreamArtifactPath (r_UpstreamFileURI r)
      else [])"

definition sameReleaseArtifact :: "release \<Rightarrow> release \<Rightarrow> bool" where
  "sameReleaseArtifact l r =
     (r_ID l = r_ID r \<and> r_Source l = r_Source r \<and> r_StoragePath l = r_StoragePath r \<and>
      r_UpstreamFileURI l = r_UpstreamFileURI r \<and> r_SHA256 l = r_SHA256 r \<and> r_MD5 l = r_MD5 r \<and>
      r_SizeBytes l = r_SizeBytes r)"

definition upstreamDomainRelease :: "domain_module \<Rightarrow> upstream_release \<Rightarrow> release" where
  "upstreamDomainRelease m u =
     \<lparr>r_ID = m_ID m @ '':'' @ up_Version u, r_ModuleID = m_ID m, r_Owner = m_Owner m, r_Name = m_Name m,
      r_Source = ''upstream'', r_Version = up_Version u, r_Description = up_Description u, r_Readme = up_Readme u,
      r_FileName = fallbackString (up_FileName u) (m_Name m @ ''-'' @ up_Version u @ ''.tar.gz''),
      r_ContentType = ''application/gzip'', r_SizeBytes = up_FileSize u, r_MD5 = up_FileMD5 u,
      r_SHA256 = up_FileSHA256 u, r_StoragePath = [],
      r_UpstreamSlug = fallbackString (up_Slug u) (m_Owner m @ ''-'' @ m_Name m @ ''-'' @ up_Version u),
      r_UpstreamFileURI = up_FileURI u, r_DownloadURL = [], r_Metadata = ''{}'', r_CreatedAt = zero_time\<rparr>"

definition no_upstream_release :: upstream_release where
  "no_upstream_release =
     \<lparr>up_Slug = [], up_Version = [], up_Readme = [], up_FileURI = [], up_FileName = [], up_FileSize = 0,
      up_FileMD5 = [], up_FileSHA256 = [], up_Description = []\<rparr>"

section \<open>Restoring and completing\<close>

text \<open>The metadata of the upstream, or what the artifact alone tells.\<close>

definition fetch_for_restore ::
    "service \<Rightarrow> request \<Rightarrow> (string \<Rightarrow> http_response option) \<Rightarrow> string \<Rightarrow> string \<Rightarrow> upstream_release svc" where
  "fetch_for_restore g q net slug version =
     svc_try (svc_lift (FetchRelease g net slug)) (\<lambda>r.
       case r of
         Inr u \<Rightarrow> svc_return u
       | Inl e \<Rightarrow>
           if e \<noteq> UpstreamNotFound then svc_error (HydrationFailed (RestoreFailed e))
           else
             let fileName = slug @ ''.tar.gz''; fileURI = ''/v3/files/'' @ fileName in
             svc_try (EnsureArtifact g q net fileURI) (\<lambda>r2.
               case r2 of
                 Inl e2 \<Rightarrow>
                   if e2 = UpstreamNotFound then svc_error NotFound
                   else svc_error (HydrationFailed (RestoreFailed e2))
               | Inr _ \<Rightarrow>
                   svc_return (no_upstream_release\<lparr>up_Slug := slug, up_Version := version, up_FileURI := fileURI,
                                                   up_FileName := fileName\<rparr>)))"

definition restoreUpstreamRelease ::
    "service \<Rightarrow> request \<Rightarrow> (string \<Rightarrow> http_response option) \<Rightarrow> string \<Rightarrow> string \<Rightarrow> string \<Rightarrow> release svc" where
  "restoreUpstreamRelease g q net owner name version =
     (let slug = owner @ ''-'' @ name @ ''-'' @ version in
      svc_then (fetch_for_restore g q net slug version) (\<lambda>u0.
        let u1 = (if up_Version u0 = [] then u0\<lparr>up_Version := version\<rparr> else u0);
            u = (if up_Slug u1 = [] then u1\<lparr>up_Slug := slug\<rparr> else u1)
        in if up_Version u1 \<noteq> version then svc_error NotFound
           else
             svc_then io_call (\<lambda>_.
             svc_then (db_write (\<lambda>s. UpsertModule (request_env g q) s owner name)) (\<lambda>m.
             svc_then
               (svc_try (db_call (\<lambda>c s. CreateReleaseIfAbsent (request_env g q) c s (upstreamDomainRelease m u))) (\<lambda>r.
                  case r of
                    Inl e \<Rightarrow>
                      if e = Conflict then db_read (\<lambda>s. GetRelease s owner name version) else svc_error e
                  | Inr saved \<Rightarrow> svc_return saved))
               (\<lambda>saved. svc_return (saved\<lparr>r_DownloadURL := r_UpstreamFileURI saved\<rparr>))))))"

definition hydrated :: "release \<Rightarrow> upstream_release \<Rightarrow> release" where
  "hydrated release u =
     release\<lparr>r_Description := fallbackString (up_Description u) (r_Description release),
             r_Readme := fallbackString (up_Readme u) (r_Readme release),
             r_UpstreamSlug := fallbackString (up_Slug u) (r_UpstreamSlug release),
             r_UpstreamFileURI := fallbackString (up_FileURI u) (r_UpstreamFileURI release),
             r_FileName := fallbackString (up_FileName u) (r_FileName release),
             r_SizeBytes := (if 0 < up_FileSize u then up_FileSize u else r_SizeBytes release),
             r_MD5 := fallbackString (up_FileMD5 u) (r_MD5 release),
             r_SHA256 := fallbackString (up_FileSHA256 u) (r_SHA256 release)\<rparr>"

definition hydrateUpstreamRelease ::
    "service \<Rightarrow> request \<Rightarrow> (string \<Rightarrow> http_response option) \<Rightarrow> release \<Rightarrow> release svc" where
  "hydrateUpstreamRelease g q net snapshot =
     (let slug = fallbackString (r_UpstreamSlug snapshot)
            (r_Owner snapshot @ ''-'' @ r_Name snapshot @ ''-'' @ r_Version snapshot) in
      svc_try (svc_lift (FetchRelease g net slug)) (\<lambda>r.
        case r of
          Inl e \<Rightarrow> svc_error (HydrationFailed e)
        | Inr u \<Rightarrow>
            svc_then io_call (\<lambda>_.
            svc_then (db_read (\<lambda>s. GetRelease s (r_Owner snapshot) (r_Name snapshot) (r_Version snapshot))) (\<lambda>release.
              if \<not> sameReleaseArtifact snapshot release \<or> r_UpstreamFileURI release \<noteq> [] then svc_return release
              else
                svc_try (db_call (\<lambda>c s. CreateRelease (request_env g q) c s (hydrated release u))) (\<lambda>r2.
                  case r2 of
                    Inr saved \<Rightarrow> svc_return saved
                  | Inl e \<Rightarrow> svc_return (hydrated release u))))))"

definition complete_release :: "service \<Rightarrow> request \<Rightarrow> release \<Rightarrow> release svc" where
  "complete_release g q release0 =
     svc_then
       (case q_net q of
          Some net \<Rightarrow>
            if r_Source release0 = ''upstream'' \<and> r_UpstreamFileURI release0 = []
            then hydrateUpstreamRelease g q net release0 else svc_return release0
        | None \<Rightarrow> svc_return release0)
       (\<lambda>release. svc_return
          (if r_Source release = ''upstream'' then release\<lparr>r_DownloadURL := r_UpstreamFileURI release\<rparr>
           else with_url g release))"

definition svc_GetRelease :: "service \<Rightarrow> request \<Rightarrow> string \<Rightarrow> string \<Rightarrow> string \<Rightarrow> release svc" where
  "svc_GetRelease g q owner name version =
     svc_then
       (svc_try (db_read (\<lambda>s. GetRelease s owner name version)) (\<lambda>r.
          case r of
            Inr release \<Rightarrow> svc_return release
          | Inl e \<Rightarrow>
              (case q_net q of
                 Some net \<Rightarrow>
                   if \<not> is_not_found e then svc_error e else restoreUpstreamRelease g q net owner name version
               | None \<Rightarrow> svc_error e)))
       (complete_release g q)"

definition svc_GetReleaseBySlug :: "service \<Rightarrow> request \<Rightarrow> string \<Rightarrow> release svc" where
  "svc_GetReleaseBySlug g q slug =
     svc_try (db_read (\<lambda>s. GetReleaseBySlug s slug)) (\<lambda>r.
       case r of
         Inr release \<Rightarrow> svc_GetRelease g q (r_Owner release) (r_Name release) (r_Version release)
       | Inl e \<Rightarrow>
           (case q_net q of
              Some net \<Rightarrow>
                if \<not> is_not_found e then svc_error e
                else
                  svc_then (db_read (\<lambda>s. GetModuleForReleaseSlug s slug)) (\<lambda>m.
                    let prefix = m_Owner m @ ''-'' @ m_Name m @ ''-''; version = trim_prefix slug prefix in
                    if version = [] \<or> version = slug then svc_error NotFound
                    else restoreUpstreamRelease g q net (m_Owner m) (m_Name m) version)
            | None \<Rightarrow> svc_error e))"

section \<open>Archives\<close>

definition openReleaseArchive :: "service \<Rightarrow> release \<Rightarrow> stored_object svc" where
  "openReleaseArchive g release =
     (let archivePath = releaseArchivePath release in
      if archivePath = [] then svc_error NotFound
      else svc_then (bucket_read (OpenObject (g_backend g) archivePath)) (\<lambda>opened.
        case opened of None \<Rightarrow> svc_error NotFound | Some ob \<Rightarrow> svc_return ob))"

definition OpenReleaseArchive :: "service \<Rightarrow> request \<Rightarrow> string \<Rightarrow> string \<Rightarrow> string \<Rightarrow> stored_object svc" where
  "OpenReleaseArchive g q owner name version =
     svc_then (svc_GetRelease g q owner name version) (openReleaseArchive g)"

definition OpenReleaseArchiveRange :: "service \<Rightarrow> release \<Rightarrow> int \<Rightarrow> int \<Rightarrow> string svc" where
  "OpenReleaseArchiveRange g release offset len =
     (let archivePath = releaseArchivePath release in
      if archivePath = [] then svc_error NotFound
      else svc_then (bucket_read (OpenRange (g_backend g) archivePath offset len)) (\<lambda>opened.
        case opened of None \<Rightarrow> svc_error NotFound | Some body \<Rightarrow> svc_return body))"

section \<open>Checksums\<close>

definition calculateReleaseChecksums :: "service \<Rightarrow> request \<Rightarrow> release \<Rightarrow> release svc" where
  "calculateReleaseChecksums g q snapshot =
     svc_then (openReleaseArchive g snapshot) (\<lambda>ob.
       let body = ob_Body ob;
           release = snapshot\<lparr>r_MD5 := g_md5 g body, r_SHA256 := g_sha256 g body,
             r_SizeBytes := int (length body), r_StoragePath := releaseArchivePath snapshot\<rparr>
       in if r_Source release = ''upstream'' \<and>
             ((r_SHA256 snapshot \<noteq> [] \<and> \<not> g_equal_fold g (r_SHA256 snapshot) (r_SHA256 release)) \<or>
              (0 < r_SizeBytes snapshot \<and> r_SizeBytes snapshot \<noteq> r_SizeBytes release))
          then svc_error (HydrationFailed IntegrityMismatch)
          else
            svc_then io_call (\<lambda>_.
            svc_then (db_read (\<lambda>s. GetRelease s (r_Owner release) (r_Name release) (r_Version release))) (\<lambda>current.
              if \<not> sameReleaseArtifact snapshot current then svc_return current
              else
                svc_then (db_write (\<lambda>s. UpdateReleaseChecksums s (r_Owner release) (r_Name release) (r_Version release)
                    (r_MD5 release) (r_SHA256 release) (r_StoragePath release) (r_SizeBytes release))) (\<lambda>_.
                  svc_return release))))"

text \<open>The artifact is cached, then read under its lease; it may disappear in between, once.\<close>

fun ensure_rounds :: "nat \<Rightarrow> service \<Rightarrow> request \<Rightarrow> (string \<Rightarrow> http_response option) \<Rightarrow> release \<Rightarrow> release svc" where
  "ensure_rounds 0 g q net release = svc_error (HydrationFailed (Failed ''cached upstream artifact disappeared during verification''))"
| "ensure_rounds (Suc n) g q net release =
     svc_try
       (if r_SHA256 release \<noteq> [] \<and> 0 < r_SizeBytes release
        then EnsureArtifactIntegrity g q net (r_UpstreamFileURI release) (r_SHA256 release) (r_SizeBytes release)
        else EnsureArtifact g q net (r_UpstreamFileURI release))
       (\<lambda>r. case r of
          Inl e \<Rightarrow> svc_error (HydrationFailed e)
        | Inr _ \<Rightarrow>
            svc_try (WithCachedArtifactLease g q (releaseArchivePath release) (calculateReleaseChecksums g q release)) (\<lambda>r2.
              case r2 of
                Inl e \<Rightarrow> if is_not_found e then ensure_rounds n g q net release else svc_error e
              | Inr verified \<Rightarrow> svc_return verified))"

definition ensure_upstream :: "service \<Rightarrow> request \<Rightarrow> release \<Rightarrow> release svc" where
  "ensure_upstream g q release =
     (case q_net q of
        None \<Rightarrow> svc_error NotFound
      | Some net \<Rightarrow>
          if r_UpstreamFileURI release = [] then svc_error NotFound
          else ensure_rounds 2 g q net release)"

definition EnsureReleaseChecksums :: "service \<Rightarrow> request \<Rightarrow> release \<Rightarrow> release svc" where
  "EnsureReleaseChecksums g q release =
     (if r_MD5 release \<noteq> [] \<and> r_SHA256 release \<noteq> [] \<and> 0 < r_SizeBytes release then
        (if r_Source release \<noteq> ''upstream'' then svc_return release
         else if r_StoragePath release \<noteq> [] then
           svc_try (bucket_read (ExistsObject (g_backend g) (r_StoragePath release))) (\<lambda>r.
             case r of
               Inl e \<Rightarrow> svc_error (HydrationFailed e)
             | Inr exists \<Rightarrow>
                 if exists then svc_return release else ensure_upstream g q (release\<lparr>r_StoragePath := []\<rparr>))
         else ensure_upstream g q release)
      else if r_Source release = ''upstream'' then ensure_upstream g q release
      else calculateReleaseChecksums g q release)"

definition ReadReleaseFile :: "service \<Rightarrow> request \<Rightarrow> string \<Rightarrow> string \<Rightarrow> string \<Rightarrow> string \<Rightarrow> string svc" where
  "ReadReleaseFile g q owner name version filePath =
     svc_then (svc_GetRelease g q owner name version) (\<lambda>release0.
     svc_then (if r_Source release0 = ''upstream'' then EnsureReleaseChecksums g q release0 else svc_return release0) (\<lambda>release.
     svc_then (openReleaseArchive g release) (\<lambda>ob.
       case extractArchiveFile (g_untar g (ob_Body ob)) filePath of
         Inl FileNotFound \<Rightarrow> svc_error NotFound
       | Inl e \<Rightarrow> svc_error (Failed ''read archive'')
       | Inr body \<Rightarrow> svc_return body)))"

section \<open>Indexing\<close>

definition createUpstreamReleaseIfAbsent :: "service \<Rightarrow> request \<Rightarrow> release \<Rightarrow> unit svc" where
  "createUpstreamReleaseIfAbsent g q release =
     svc_try (db_call (\<lambda>c s. CreateReleaseIfAbsent (request_env g q) c s release)) (\<lambda>r.
       case r of
         Inl e \<Rightarrow> if e = Conflict then svc_return () else svc_error e
       | Inr _ \<Rightarrow> svc_return ())"

definition isDeletedUpstreamRelease :: "string \<Rightarrow> string \<Rightarrow> string \<Rightarrow> bool svc" where
  "isDeletedUpstreamRelease owner name version =
     db_read (\<lambda>s. Inr (IsReleaseDeleted s owner name version ''upstream''))"

text \<open>One version of an indexed module, unless it is suppressed by a tombstone.\<close>

definition index_version :: "service \<Rightarrow> request \<Rightarrow> domain_module \<Rightarrow> upstream_ref \<Rightarrow> bool svc" where
  "index_version g q m ref =
     svc_then (isDeletedUpstreamRelease (m_Owner m) (m_Name m) (rf_Version ref)) (\<lambda>deleted.
       if deleted then svc_return False
       else
         svc_then (createUpstreamReleaseIfAbsent g q (upstreamDomainRelease m (no_upstream_release\<lparr>
             up_Slug := fallbackString (rf_Slug ref) (m_Owner m @ ''-'' @ m_Name m @ ''-'' @ rf_Version ref),
             up_Version := rf_Version ref\<rparr>))) (\<lambda>_. svc_return True))"

fun index_refs :: "service \<Rightarrow> request \<Rightarrow> domain_module \<Rightarrow> string \<Rightarrow> upstream_ref list \<Rightarrow> unit svc" where
  "index_refs g q m modSlug [] = svc_return ()"
| "index_refs g q m modSlug (ref0 # refs) =
     (let ref = (if rf_Version ref0 = []
                 then ref0\<lparr>rf_Version := ReleaseVersionFromSlug modSlug (rf_Slug ref0)\<rparr> else ref0)
      in if rf_Version ref = [] then index_refs g q m modSlug refs
         else svc_then (index_version g q m ref) (\<lambda>_. index_refs g q m modSlug refs))"

definition IndexUpstreamModule :: "service \<Rightarrow> request \<Rightarrow> upstream_module \<Rightarrow> unit svc" where
  "IndexUpstreamModule g q u =
     (let owner = um_Owner u; name = um_Name u in
      if \<not> ValidModuleOwner owner then svc_error (Failed ''invalid upstream module owner'')
      else if \<not> ValidModuleName name then svc_error (Failed ''invalid upstream module name'')
      else
        svc_then io_call (\<lambda>_.
        svc_then (db_write (\<lambda>s. UpsertModule (request_env g q) s owner name)) (\<lambda>m.
          let current = um_CurrentRelease u;
              currentVersion = (if rf_Version current = [] then ReleaseVersionFromSlug (um_Slug u) (rf_Slug current)
                                else rf_Version current)
          in svc_then (index_refs g q m (um_Slug u) (um_Releases u)) (\<lambda>_.
               if currentVersion = [] then svc_return ()
               else svc_then (index_version g q m (current\<lparr>rf_Version := currentVersion\<rparr>)) (\<lambda>_. svc_return ())))))"

definition SyncUpstreamModule :: "service \<Rightarrow> request \<Rightarrow> string \<Rightarrow> string \<Rightarrow> unit svc" where
  "SyncUpstreamModule g q owner name =
     (case q_net q of
        None \<Rightarrow> svc_error NotFound
      | Some net \<Rightarrow>
          svc_then (svc_lift (FetchModule g net (owner @ ''-'' @ name))) (IndexUpstreamModule g q))"

text \<open>
  The refresh of the least recently refreshed modules: each attempt is marked whether it succeeds or
  not. The workers take the modules in the order of the list and each works on its own module; the
  steps of one module follow each other. The result lists the errors.
\<close>

fun refresh_modules :: "service \<Rightarrow> request \<Rightarrow> service_error list \<Rightarrow> domain_module list \<Rightarrow> (service_error list) svc" where
  "refresh_modules g q errs [] = svc_return errs"
| "refresh_modules g q errs (m # ms) =
     svc_try (SyncUpstreamModule g q (m_Owner m) (m_Name m)) (\<lambda>r.
     svc_try (db_write (\<lambda>s. MarkUpstreamModuleRefreshAttempt s (m_Owner m) (m_Name m) (q_now q))) (\<lambda>r2.
       refresh_modules g q
         (errs @ (case r of Inl e \<Rightarrow> [e] | Inr _ \<Rightarrow> []) @ (case r2 of Inl e \<Rightarrow> [e] | Inr _ \<Rightarrow> [])) ms))"

definition RefreshCachedUpstreamModules :: "service \<Rightarrow> request \<Rightarrow> int \<Rightarrow> unit svc" where
  "RefreshCachedUpstreamModules g q limit =
     (if q_net q = None then svc_return ()
      else
        svc_then (db_read (\<lambda>s. Inr (ListUpstreamModules s limit))) (\<lambda>modules.
        svc_then (refresh_modules g q [] modules) (\<lambda>errs.
          case errs of [] \<Rightarrow> svc_return () | e # _ \<Rightarrow> svc_error e)))"

end
