(* ===== verification/Reconcile.thy ===== *)
theory Reconcile
  imports UpstreamReleases
begin

text \<open>
  Jobs that compare the bucket with the catalog: \<open>internal/service/reconcile.go\<close>,
  \<open>internal/service/upstream_cache.go\<close> and the readiness probe of \<open>module_service.go\<close>. A job runs at
  one instant, so an object changed while it runs has a later time of change.
\<close>

section \<open>Reconciliation\<close>

record reconciliation_report =
  rn_Checked :: nat
  rn_MissingObjects :: "string list"
  rn_CorruptObjects :: "string list"
  rn_OrphanObjects :: "string list"
  rn_DeletedOrphans :: "string list"

definition reconciliationObjectIdentity :: "string \<Rightarrow> string \<Rightarrow> (string \<times> string) option" where
  "reconciliationObjectIdentity prefix objectPath =
     (let relative = trim_prefix objectPath prefix in
      if relative = objectPath \<or> relative = [] then None
      else case split_on (CHR ''/'') relative of
             a # b # _ \<Rightarrow> if a = [] \<or> b = [] then None else Some (a, b)
           | _ \<Rightarrow> None)"

text \<open>Deleted, and referenced after all.\<close>

definition repairOrphanArtifact ::
    "service \<Rightarrow> string \<Rightarrow> string \<Rightarrow> listed_object \<Rightarrow> time \<Rightarrow> (bool \<times> bool) svc" where
  "repairOrphanArtifact g prefix objectPath ob startedAt =
     (case reconciliationObjectIdentity prefix objectPath of
        None \<Rightarrow> svc_return (False, False)
      | Some (owner, name) \<Rightarrow>
          svc_then io_call (\<lambda>_.
          svc_then (db_read (\<lambda>s. Inr (IsArtifactReferenced s objectPath))) (\<lambda>referenced.
            if referenced then svc_return (False, True)
            else if lo_UpdatedAt ob = zero_time \<or> \<not> lo_UpdatedAt ob < startedAt then svc_return (False, False)
            else svc_then (delete_object g objectPath) (\<lambda>_. svc_return (True, False)))))"

text \<open>The check of one release: \<open>None\<close> is a missing object, otherwise whether it is corrupt.\<close>

definition check_artifact :: "service \<Rightarrow> artifact_release_record \<Rightarrow> bool option svc" where
  "check_artifact g r =
     svc_then (bucket_read (OpenObject (g_backend g) (ar_StoragePath r))) (\<lambda>opened.
       svc_return (map_option (\<lambda>ob.
         int (length (ob_Body ob)) \<noteq> ar_SizeBytes r \<or>
         (ar_SHA256 r \<noteq> [] \<and> \<not> g_equal_fold g (g_sha256 g (ob_Body ob)) (ar_SHA256 r))) opened))"

fun check_artifacts ::
    "service \<Rightarrow> string list \<times> string list \<Rightarrow> artifact_release_record list \<Rightarrow> (string list \<times> string list) svc" where
  "check_artifacts g acc [] = svc_return acc"
| "check_artifacts g (missing, corrupt) (r # rs) =
     svc_then (check_artifact g r) (\<lambda>result.
       check_artifacts g
         (case result of
            None \<Rightarrow> (missing @ [ar_StoragePath r], corrupt)
          | Some bad \<Rightarrow> (missing, if bad then corrupt @ [ar_StoragePath r] else corrupt)) rs)"

text \<open>The orphans that stay in the report, and the deleted ones.\<close>

fun repair_orphans ::
    "service \<Rightarrow> string \<Rightarrow> time \<Rightarrow> string list \<times> string list \<Rightarrow> listed_object list \<Rightarrow> (string list \<times> string list) svc" where
  "repair_orphans g prefix startedAt acc [] = svc_return acc"
| "repair_orphans g prefix startedAt (remaining, deleted) (ob # obs) =
     svc_then (repairOrphanArtifact g prefix (lo_Path ob) ob startedAt) (\<lambda>(gone, referenced).
       repair_orphans g prefix startedAt
         (if referenced then (remaining, deleted)
          else (remaining @ [lo_Path ob], if gone then deleted @ [lo_Path ob] else deleted)) obs)"

definition reconcile_prefix :: "service \<Rightarrow> string" where
  "reconcile_prefix g =
     (let prefix = trim_char (CHR ''/'') (g_prefix g) in if prefix \<noteq> [] then prefix @ ''/'' else prefix)"

definition ReconcileArtifacts :: "service \<Rightarrow> request \<Rightarrow> bool \<Rightarrow> reconciliation_report svc" where
  "ReconcileArtifacts g q repair =
     svc_then (db_read (\<lambda>s. Inr (ListArtifactReleases s))) (\<lambda>releases.
     svc_then (bucket_read (ListObjectMetadata (g_backend g) (reconcile_prefix g))) (\<lambda>objects.
     svc_then (check_artifacts g ([], []) releases) (\<lambda>(missing, corrupt).
       let orphans = filter (\<lambda>ob. lo_Path ob \<notin> ar_StoragePath ` set releases) objects;
           report = \<lparr>rn_Checked = length releases, rn_MissingObjects = sort missing, rn_CorruptObjects = sort corrupt,
             rn_OrphanObjects = sort (map lo_Path orphans), rn_DeletedOrphans = []\<rparr>
       in if \<not> repair then svc_return report
          else svc_then (repair_orphans g (reconcile_prefix g) (q_now q) ([], []) (sort_key lo_Path orphans))
            (\<lambda>(remaining, deleted).
              svc_return (report\<lparr>rn_OrphanObjects := remaining, rn_DeletedOrphans := deleted\<rparr>)))))"

section \<open>Pruning the upstream cache\<close>

definition upstreamArtifactCachePrefix :: string where "upstreamArtifactCachePrefix = ''upstream-cache/''"

record upstream_cache_prune_result =
  pr_Scanned :: nat
  pr_Deleted :: nat
  pr_Failed :: nat

definition prune_object :: "service \<Rightarrow> string \<Rightarrow> bool svc" where
  "prune_object g objectPath =
     svc_then (db_read (\<lambda>s. Inr (IsArtifactReferenced s objectPath))) (\<lambda>referenced.
       if referenced then svc_return False
       else svc_then (delete_object g objectPath) (\<lambda>_. svc_return True))"

text \<open>The errors are kept up to \<open>upstreamCacheCleanupErrorLimit\<close> in the code; here all of them are.\<close>

fun prune_all ::
    "service \<Rightarrow> request \<Rightarrow> time \<Rightarrow> upstream_cache_prune_result \<times> service_error list \<Rightarrow> listed_object list \<Rightarrow>
       (upstream_cache_prune_result \<times> service_error list) svc" where
  "prune_all g q cutoff acc [] = svc_return acc"
| "prune_all g q cutoff (res0, errs) (ob # obs) =
     (let res = res0\<lparr>pr_Scanned := Suc (pr_Scanned res0)\<rparr> in
      if lo_UpdatedAt ob = zero_time \<or> \<not> lo_UpdatedAt ob < cutoff then prune_all g q cutoff (res, errs) obs
      else
        svc_try
          (case q_net q of
             Some _ \<Rightarrow> WithCachedArtifactLease g q (lo_Path ob) (prune_object g (lo_Path ob))
           | None \<Rightarrow> prune_object g (lo_Path ob))
          (\<lambda>r. case r of
             Inl e \<Rightarrow> prune_all g q cutoff (res\<lparr>pr_Failed := Suc (pr_Failed res)\<rparr>, errs @ [e]) obs
           | Inr deleted \<Rightarrow>
               prune_all g q cutoff
                 (if deleted then res\<lparr>pr_Deleted := Suc (pr_Deleted res)\<rparr> else res, errs) obs))"

definition PruneUpstreamArtifactCache ::
    "service \<Rightarrow> request \<Rightarrow> time \<Rightarrow> (upstream_cache_prune_result \<times> service_error list) svc" where
  "PruneUpstreamArtifactCache g q cutoff =
     svc_try (bucket_read (ListObjectMetadata (g_backend g) upstreamArtifactCachePrefix)) (\<lambda>r.
       case r of
         Inl e \<Rightarrow> svc_return (\<lparr>pr_Scanned = 0, pr_Deleted = 0, pr_Failed = 0\<rparr>, [e])
       | Inr objects \<Rightarrow> prune_all g q cutoff (\<lparr>pr_Scanned = 0, pr_Deleted = 0, pr_Failed = 0\<rparr>, []) objects)"

section \<open>Readiness\<close>

text \<open>The probe of the storage; its result is remembered for \<open>readinessCapabilityTTL\<close>.\<close>

definition readinessCapabilityTTL :: time where "readinessCapabilityTTL = 5 * minute"

definition probe_path :: "service \<Rightarrow> request \<Rightarrow> string" where
  "probe_path g q = path_Join [g_prefix g, ''.readiness-probes'', q_probe q]"

definition probe_storage :: "service \<Rightarrow> request \<Rightarrow> unit svc" where
  "probe_storage g q =
     svc_then (bucket_call (\<lambda>bk.
         case UploadReaderIfAbsent (g_backend g) (q_now q) (probe_path g q) ''application/octet-stream'' ''ready'' bk of
           (bk1, created) \<Rightarrow> (bk1, Inr created))) (\<lambda>created.
       if \<not> created then svc_error (Failed ''artifact storage readiness probe path already exists'')
       else
         svc_try (bucket_read (OpenObject (g_backend g) (probe_path g q))) (\<lambda>opened.
         svc_try (delete_object g (probe_path g q)) (\<lambda>removed.
           case opened of
             Inl e \<Rightarrow> svc_error e
           | Inr None \<Rightarrow> svc_error ObjectNotFound
           | Inr (Some _) \<Rightarrow> svc_lift removed)))"

definition Ready :: "service \<Rightarrow> request \<Rightarrow> time option \<Rightarrow> (time option) svc" where
  "Ready g q checkedAt =
     svc_then io_call (\<lambda>_.
       case checkedAt of
         Some t \<Rightarrow>
           if q_now q - t < readinessCapabilityTTL then svc_return checkedAt
           else svc_then (probe_storage g q) (\<lambda>_. svc_return (Some (q_now q)))
       | None \<Rightarrow> svc_then (probe_storage g q) (\<lambda>_. svc_return (Some (q_now q))))"

end
