(* ===== verification/ObjectPaths.thy ===== *)
theory ObjectPaths
  imports Reconcile
begin

text \<open>
  The paths of published artifacts: a path names its owner, module, version and checksum, and is its
  own key on both backends; cleaning a key again leaves it as it is or makes it empty.
\<close>

section \<open>Cleaning twice\<close>

lemma join_on_append: "as \<noteq> [] \<Longrightarrow> join_on c (as @ b # bs) = join_on c as @ c # join_on c (b # bs)"
  by (induction c as rule: join_on.induct) simp_all

lemma clean_fold_form:
  assumes "\<forall>e \<in> set es. CHR ''/'' \<notin> set e"
  shows "\<exists>k xs. clean_elements rooted es = replicate k ''..'' @ xs \<and> (\<forall>x \<in> set xs. plain_element x) \<and> (rooted \<longrightarrow> k = 0)"
proof -
  have "\<exists>k' xs'. fold (clean_step rooted) es (xs @ replicate k ''..'') = xs' @ replicate k' ''..'' \<and>
      (\<forall>x \<in> set xs'. plain_element x) \<and> (rooted \<longrightarrow> k' = 0)"
    if "\<forall>e \<in> set es. CHR ''/'' \<notin> set e" "\<forall>x \<in> set xs. plain_element x" "rooted \<longrightarrow> k = 0" for xs k
    using that
  proof (induction es arbitrary: xs k)
    case Nil
    then show ?case by auto
  next
    case (Cons e es)
    have "\<exists>k1 xs1. clean_step rooted e (xs @ replicate k ''..'') = xs1 @ replicate k1 ''..'' \<and>
        (\<forall>x \<in> set xs1. plain_element x) \<and> (rooted \<longrightarrow> k1 = 0)"
    proof (cases "e = ''..''")
      case dots: True
      show ?thesis
      proof (cases xs)
        case Nil
        then have "clean_step rooted e (xs @ replicate k ''..'') = (if rooted then [] else replicate (Suc k) ''..'')"
          using Cons.prems dots by (cases k) auto
        then show ?thesis by (cases rooted) (force intro: exI [of _ "Suc k"], auto intro!: exI [of _ "Suc k"] exI [of _ "[]"])
      next
        case (Cons y ys)
        with dots Cons.prems(2) show ?thesis
          by (intro exI [of _ k] exI [of _ ys]) (use \<open>rooted \<longrightarrow> k = 0\<close> in \<open>auto simp: plain_element_def\<close>)
      qed
    next
      case False
      show ?thesis
      proof (cases "e = [] \<or> e = ''.''")
        case True
        with Cons.prems show ?thesis by (intro exI [of _ k] exI [of _ xs]) auto
      next
        case keep: False
        with False Cons.prems show ?thesis
          by (intro exI [of _ k] exI [of _ "e # xs"]) (auto simp: plain_element_def)
      qed
    qed
    then obtain k1 xs1 where step: "clean_step rooted e (xs @ replicate k ''..'') = xs1 @ replicate k1 ''..''"
      "\<forall>x \<in> set xs1. plain_element x" "rooted \<longrightarrow> k1 = 0" by blast
    have "\<forall>e \<in> set es. CHR ''/'' \<notin> set e" using Cons.prems(1) by simp
    from Cons.IH [OF this step(2,3)] show ?case unfolding fold_Cons comp_apply step(1) .
  qed
  from this [of "[]" 0] obtain k' xs' where "fold (clean_step rooted) es [] = xs' @ replicate k' ''..''"
      "\<forall>x \<in> set xs'. plain_element x" "rooted \<longrightarrow> k' = 0"
    using assms by auto
  then show ?thesis by (intro exI [of _ k'] exI [of _ "rev xs'"]) (simp add: clean_elements_def)
qed

lemma clean_form_again:
  assumes "\<forall>x \<in> set xs. plain_element x"
  shows "clean_elements False (replicate k ''..'' @ xs) = replicate k ''..'' @ xs"
proof -
  have dots: "fold (clean_step False) (replicate k ''..'') (replicate j ''..'') = replicate (k + j) ''..''" for j
  proof (induction k arbitrary: j)
    case (Suc k)
    have "clean_step False ''..'' (replicate j ''..'') = replicate (Suc j) ''..''" by (cases j) auto
    then show ?case using Suc [of "Suc j"] by simp
  qed simp
  have "fold (clean_step False) xs acc = rev xs @ acc" for acc
    using assms by (induction xs arbitrary: acc) (auto simp: plain_element_def)
  then show ?thesis using dots [of 0] by (simp add: clean_elements_def)
qed

lemma cleanObjectPath_again:
  "cleanObjectPath (cleanObjectPath p) = cleanObjectPath p \<or> cleanObjectPath (cleanObjectPath p) = []"
proof (cases "cleanObjectPath p = []")
  case True
  then show ?thesis by (simp add: cleanObjectPath_def)
next
  case ne: False
  let ?q = "cleanObjectPath p"
  obtain k xs where es: "clean_elements (path_IsAbs p) (split_on (CHR ''/'') p) = replicate k ''..'' @ xs"
      "\<forall>x \<in> set xs. plain_element x"
    using clean_fold_form [of "split_on (CHR ''/'') p"] split_on_parts by blast
  let ?es = "replicate k ''..'' @ xs"
  have elems: "\<forall>e \<in> set ?es. e \<noteq> [] \<and> CHR ''/'' \<notin> set e"
    using es(2) unfolding set_append plain_element_def by (simp add: ball_Un)
  have first: "\<not> has_prefix (join_on (CHR ''/'') ?es) ''/''"
  proof (cases ?es)
    case (Cons e es')
    then have "e \<noteq> []" "CHR ''/'' \<notin> set e" using elems by auto
    then show ?thesis unfolding Cons by (cases e; cases es') (auto simp: has_prefix_def)
  qed (simp add: has_prefix_def)
  have q: "?q = (if ?es = [] then ''.'' else join_on (CHR ''/'') ?es)"
  proof -
    have out: "?q = trim_prefix (path_Clean p) ''/''" using ne by (auto simp: cleanObjectPath_def split: if_splits)
    have nil: "join_on (CHR ''/'') ?es = [] \<longleftrightarrow> ?es = []" using elems by (intro join_on_Nil_iff) blast
    have one: "trim_prefix (CHR ''/'' # t) ''/'' = t" for t by (simp add: trim_prefix_def has_prefix_def)
    have none: "\<not> has_prefix t ''/'' \<Longrightarrow> trim_prefix t ''/'' = t" for t by (simp add: trim_prefix_def)
    have dot: "trim_prefix ''.'' ''/'' = ''.''" by (simp add: trim_prefix_def has_prefix_def)
    show ?thesis
    proof (cases "path_IsAbs p")
      case True
      then have "?q = join_on (CHR ''/'') ?es" unfolding out path_Clean_def Let_def es(1) [unfolded True] by (simp add: one)
      with ne nil show ?thesis by auto
    next
      case False
      then show ?thesis
        unfolding out path_Clean_def Let_def es(1) [unfolded False] using nil none [OF first] dot by auto
    qed
  qed
  have "path_Clean ?q = ?q"
  proof (cases "?es = []")
    case True
    then have "?q = ''.''" using q by simp
    then show ?thesis by (simp add: path_Clean_def path_IsAbs_def has_prefix_def clean_elements_def)
  next
    case False
    then have eq: "?q = join_on (CHR ''/'') ?es" using q by simp
    have "split_on (CHR ''/'') ?q = ?es" unfolding eq using False elems by (intro split_join) auto
    moreover have "\<not> path_IsAbs ?q" using first eq by (simp add: path_IsAbs_def)
    ultimately show ?thesis
      using clean_form_again [OF es(2), of k] ne eq by (simp add: path_Clean_def)
  qed
  moreover have "trim_prefix ?q ''/'' = ?q"
    using q first by (auto simp: trim_prefix_def has_prefix_def)
  ultimately show ?thesis by (auto simp: cleanObjectPath_def [of ?q])
qed

lemma object_key_again: "object_key b (object_key b p) = object_key b p \<or> object_key b (object_key b p) = []"
  using cleanObjectPath_again by (cases b) (auto simp: object_key_def)

section \<open>White space\<close>

lemma trim_left_snoc:
  assumes "graphic c"
  shows "\<exists>t. trim_left (s @ [c]) = t @ [c]"
proof (induction "length s" arbitrary: s rule: less_induct)
  case less
  show ?case
  proof (cases "leading_space (s @ [c]) = 0")
    case True
    then show ?thesis by (auto simp: trim_left_id)
  next
    case False
    then obtain r where r: "find (\<lambda>r. has_prefix (s @ [c]) r) space_runes = Some r"
        "leading_space (s @ [c]) = length r"
      by (auto simp: leading_space_def split: option.splits)
    have in_runes: "r \<in> set space_runes" "has_prefix (s @ [c]) r" using find_SomeD [OF r(1)] by auto
    obtain u where u: "s @ [c] = r @ u" using in_runes(2) has_prefixE by metis
    have "u \<noteq> []"
    proof
      assume "u = []"
      then have "c \<in> set r" using u by (metis append_Nil2 in_set_conv_decomp)
      with graphic_not_space [OF assms in_runes(1)] show False ..
    qed
    then obtain u' where u': "u = u' @ [c]" using u by (metis append_butlast_last_id last_appendR last_snoc)
    have "length u' < length s" using u u' space_runes_nonempty [OF in_runes(1)] by (cases r) auto
    from less [OF this] obtain t where t: "trim_left (u' @ [c]) = t @ [c]" by blast
    have "trim_left (s @ [c]) = trim_left (drop (length r) (s @ [c]))"
      using False r(2) by (subst trim_left.simps) simp
    also have "drop (length r) (s @ [c]) = u' @ [c]" using u u' by simp
    finally show ?thesis using t by auto
  qed
qed

lemma trim_space_snoc: "graphic c \<Longrightarrow> trim_space (s @ [c]) \<noteq> []"
  using trim_left_snoc [of c s] by (auto simp: trim_space_def trim_right_id trailing_graphic)

section \<open>Paths of published artifacts\<close>

definition plain_prefix :: "service \<Rightarrow> bool" where
  "plain_prefix g =
     ((\<forall>e \<in> set (split_on (CHR ''/'') (g_prefix g)). plain_element e) \<and>
      hd (split_on (CHR ''/'') (g_prefix g)) \<noteq> ''upstream-cache'')"

text \<open>
  What the library code is relied on for: the semantic version package and hexadecimal checksums. The
  configured prefix is a plain path that is not the one of the cache.
\<close>

definition service_ok :: "service \<Rightarrow> bool" where
  "service_ok g \<longleftrightarrow> semver_package (g_sv g) \<and> (\<forall>x. CHR ''/'' \<notin> set (g_sha256 g x)) \<and> plain_prefix g"

definition valid_identity :: "service \<Rightarrow> string \<Rightarrow> string \<Rightarrow> string \<Rightarrow> bool" where
  "valid_identity g owner name version =
     (ValidModuleOwner owner \<and> ValidModuleName name \<and> ValidModuleVersion (g_sv g) version)"

lemma class_no_slash: "is_upper c \<or> is_lower c \<or> is_digit c \<or> c = CHR ''_'' \<Longrightarrow> c \<noteq> CHR ''/'' \<and> c \<noteq> CHR ''.''"
  by (auto simp: is_lower_def is_upper_def is_digit_bounds less_eq_char_def)

lemma plain_owner: "ValidModuleOwner v \<Longrightarrow> plain_element v"
  using class_no_slash unfolding ValidModuleOwner_def plain_element_def by fastforce

lemma plain_name: "ValidModuleName v \<Longrightarrow> plain_element v"
  using class_no_slash unfolding ValidModuleName_def plain_element_def by fastforce

lemma version_text_no_slash:
  assumes "wf_text core pre build"
  shows "CHR ''/'' \<notin> set (version_text core pre build)"
proof -
  have parts: "\<forall>q \<in> set core. numeric_id q" "\<forall>q \<in> set pre. build_ident q" "\<forall>q \<in> set build. build_ident q"
    using assms by (auto simp: wf_text_def wf_sem_def pre_ident_def list_all_iff)
  have "\<not> is_digit CHR ''/''" "\<not> ident_char CHR ''/''"
    by (auto simp: is_digit_def ident_char_def less_eq_char_def)
  then have "CHR ''/'' \<notin> set (join_on CHR ''.'' core)" "CHR ''/'' \<notin> set (join_on CHR ''.'' pre)"
    "CHR ''/'' \<notin> set (join_on CHR ''.'' build)"
    using numeric_ids_chars [OF parts(1)] idents_chars [OF parts(2)] idents_chars [OF parts(3)] by fastforce+
  then show ?thesis by (simp add: version_text_def)
qed

lemma plain_version:
  assumes "semver_package sv" "ValidModuleVersion sv v"
  shows "plain_element v"
proof -
  obtain core pre build where v: "wf_text core pre build" "v = version_text core pre build"
    using semver_package.ValidModuleVersion_text [OF assms(1)] assms(2) by blast
  obtain d t where "v = d # t" "is_digit d" using version_text_cuts(5) [OF v(1)] v(2) by auto
  moreover have "CHR ''/'' \<notin> set v" using version_text_no_slash [OF v(1)] v(2) by simp
  ultimately show ?thesis using is_digit_not [of d] by (auto simp: plain_element_def)
qed

definition path_elements :: "service \<Rightarrow> string \<Rightarrow> string \<Rightarrow> string \<Rightarrow> string \<Rightarrow> string list" where
  "path_elements g owner name version shaHex =
     split_on (CHR ''/'') (g_prefix g) @ [owner, name, version, shaHex @ ''.tar.gz'']"

lemma path_elements_plain:
  assumes "service_ok g" "valid_identity g owner name version"
  shows "\<forall>e \<in> set (path_elements g owner name version (g_sha256 g x)). plain_element e"
proof -
  have "plain_element (g_sha256 g x @ ''.tar.gz'')"
    using assms(1) by (auto simp: plain_element_def service_ok_def append_eq_Cons_conv)
  then show ?thesis
    using assms plain_owner plain_name plain_version
    by (auto simp: path_elements_def service_ok_def plain_prefix_def valid_identity_def)
qed

lemma object_path_join:
  assumes "service_ok g" "valid_identity g owner name version"
  shows "object_path g owner name version (g_sha256 g x) =
    join_on (CHR ''/'') (path_elements g owner name version (g_sha256 g x))"
proof -
  note plain = path_elements_plain [OF assms, of x]
  let ?ps = "split_on (CHR ''/'') (g_prefix g)"
  have els: "\<forall>e \<in> set (?ps @ [owner, name, version, g_sha256 g x @ ''.tar.gz'']). e \<noteq> []"
    using plain unfolding path_elements_def plain_element_def by blast
  have ne: "g_prefix g \<noteq> []"
  proof
    assume "g_prefix g = []"
    then have "[] \<in> set ?ps" by simp
    with els show False by (metis UnI1 set_append)
  qed
  have "join_on (CHR ''/'') [g_prefix g, owner, name, version, g_sha256 g x @ ''.tar.gz''] =
      join_on (CHR ''/'') (path_elements g owner name version (g_sha256 g x))"
    unfolding path_elements_def by (subst join_on_append) (simp_all only: split_on_nonempty join_split join_on.simps not_False_eq_True)
  moreover have "path_Clean (join_on (CHR ''/'') (path_elements g owner name version (g_sha256 g x))) =
      join_on (CHR ''/'') (path_elements g owner name version (g_sha256 g x))"
    using plain by (intro path_Clean_plain) (simp_all add: path_elements_def)
  moreover have "filter (\<lambda>e. e \<noteq> []) [g_prefix g, owner, name, version, g_sha256 g x @ ''.tar.gz''] =
      [g_prefix g, owner, name, version, g_sha256 g x @ ''.tar.gz'']"
    using ne els by simp
  ultimately show ?thesis unfolding object_path_def path_Join_def Let_def by simp
qed

lemma object_path_own_key:
  assumes "service_ok g" "valid_identity g owner name version"
  shows "object_key b (object_path g owner name version (g_sha256 g x)) = object_path g owner name version (g_sha256 g x)"
    and "object_path g owner name version (g_sha256 g x) \<noteq> []"
proof -
  let ?es = "path_elements g owner name version (g_sha256 g x)"
  note plain = path_elements_plain [OF assms, of x]
  have "join_on (CHR ''/'') ?es =
      join_on (CHR ''/'') (split_on (CHR ''/'') (g_prefix g)) @ CHR ''/'' #
        join_on (CHR ''/'') [owner, name, version, g_sha256 g x @ ''.tar.gz'']"
    unfolding path_elements_def by (rule join_on_append) simp
  moreover have "a @ CHR ''/'' # join_on (CHR ''/'') [b, c, d, e @ ''.tar.gz''] =
      (a @ CHR ''/'' # b @ CHR ''/'' # c @ CHR ''/'' # d @ CHR ''/'' # e @ ''.tar.g'') @ [CHR ''z'']" for a b c d e
    by simp
  ultimately obtain t where t: "join_on (CHR ''/'') ?es = t @ [CHR ''z'']" by metis
  have "trim_space (join_on (CHR ''/'') ?es) \<noteq> []" unfolding t by (rule trim_space_snoc) (simp add: graphic_def)
  then have "cleanObjectPath (join_on (CHR ''/'') ?es) = join_on (CHR ''/'') ?es"
    using plain by (intro cleanObjectPath_plain) (simp_all add: path_elements_def)
  then show "object_key b (object_path g owner name version (g_sha256 g x)) = object_path g owner name version (g_sha256 g x)"
    unfolding object_path_join [OF assms] by (cases b) (simp_all add: object_key_def)
  show "object_path g owner name version (g_sha256 g x) \<noteq> []" unfolding object_path_join [OF assms] t by simp
qed

lemma object_path_elements:
  assumes "service_ok g" "valid_identity g owner name version"
  shows "split_on (CHR ''/'') (object_path g owner name version (g_sha256 g x)) =
    path_elements g owner name version (g_sha256 g x)"
  unfolding object_path_join [OF assms]
proof (rule split_join)
  show "path_elements g owner name version (g_sha256 g x) \<noteq> []" by (simp add: path_elements_def)
  show "\<forall>e \<in> set (path_elements g owner name version (g_sha256 g x)). CHR ''/'' \<notin> set e"
    using path_elements_plain [OF assms, of x] unfolding plain_element_def by blast
qed

lemma object_path_inject:
  assumes "service_ok g" "valid_identity g o1 n1 v1" "valid_identity g o2 n2 v2"
    and "object_path g o1 n1 v1 (g_sha256 g x) = object_path g o2 n2 v2 (g_sha256 g y)"
  shows "o1 = o2 \<and> n1 = n2 \<and> v1 = v2 \<and> g_sha256 g x = g_sha256 g y"
proof -
  have "path_elements g o1 n1 v1 (g_sha256 g x) = path_elements g o2 n2 v2 (g_sha256 g y)"
    using object_path_elements [OF assms(1,2), of x] object_path_elements [OF assms(1,3), of y] assms(4) by simp
  then show ?thesis by (simp add: path_elements_def)
qed

lemma object_path_not_cached:
  assumes "service_ok g" "valid_identity g owner name version"
  shows "\<not> has_prefix (object_path g owner name version (g_sha256 g x)) ''upstream-cache/''"
proof
  assume "has_prefix (object_path g owner name version (g_sha256 g x)) ''upstream-cache/''"
  then obtain t where "object_path g owner name version (g_sha256 g x) = ''upstream-cache/'' @ t"
    using has_prefixE by blast
  also have "\<dots> = ''upstream-cache'' @ CHR ''/'' # t" by simp
  finally have t: "object_path g owner name version (g_sha256 g x) = ''upstream-cache'' @ CHR ''/'' # t" .
  have "hd (split_on (CHR ''/'') (object_path g owner name version (g_sha256 g x))) = ''upstream-cache''"
    unfolding t by (subst split_on_append) simp_all
  then have "hd (split_on (CHR ''/'') (g_prefix g)) = ''upstream-cache''"
    unfolding object_path_elements [OF assms] path_elements_def by (simp only: hd_append2 split_on_nonempty not_False_eq_True)
  then show False using assms(1) unfolding service_ok_def plain_prefix_def by blast
qed

end
