(* ===== verification/ServiceInvariant.thy ===== *)
theory ServiceInvariant
  imports ObjectPaths StoreEffects
begin

text \<open>
  The invariant of database and bucket that the operations of the service keep: every local release
  of the catalog is held in the bucket under its own path with its checksum and size, and the cache of
  upstream artifacts stays apart from the published ones.
\<close>

section \<open>The invariant\<close>

definition held :: "service \<Rightarrow> bucket \<Rightarrow> release \<Rightarrow> bool" where
  "held g bk r =
     (valid_identity g (r_Owner r) (r_Name r) (r_Version r) \<and>
      r_StoragePath r = object_path g (r_Owner r) (r_Name r) (r_Version r) (r_SHA256 r) \<and>
      (case OpenObject (g_backend g) (r_StoragePath r) bk of
         None \<Rightarrow> False
       | Some ob \<Rightarrow> g_sha256 g (ob_Body ob) = r_SHA256 r \<and> int (length (ob_Body ob)) = r_SizeBytes r))"

text \<open>The URI of an artifact stays inside the cache.\<close>

definition safe_uri :: "service \<Rightarrow> string \<Rightarrow> bool" where
  "safe_uri g uri =
     (uri = [] \<or>
      (case artifactRequest g uri of
         Inl _ \<Rightarrow> True
       | Inr (_, p) \<Rightarrow> has_prefix (object_key (g_backend g) p) ''upstream-cache/''))"

definition artifact_ok :: "service \<Rightarrow> bucket \<Rightarrow> release \<Rightarrow> bool" where
  "artifact_ok g bk r = (if r_Source r = ''local'' then held g bk r else safe_uri g (r_UpstreamFileURI r))"

text \<open>Every key of the bucket is the key of some path.\<close>

definition own_keys :: "service \<Rightarrow> bucket \<Rightarrow> bool" where
  "own_keys g bk \<longleftrightarrow> fst ` set bk \<subseteq> range (object_key (g_backend g))"

definition consistent :: "service \<Rightarrow> db \<Rightarrow> bucket \<Rightarrow> bool" where
  "consistent g s bk \<longleftrightarrow>
     db_inv (g_sv g) s \<and>
     own_keys g bk \<and>
     (\<forall>r \<in> catalog s. artifact_ok g bk r) \<and>
     (\<forall>p \<in> pending_paths s. object_key (g_backend g) p = p)"

definition svc_inv :: "service \<Rightarrow> world \<Rightarrow> bool" where
  "svc_inv g w \<longleftrightarrow> consistent g (w_db w) (w_bucket w)"

lemma consistentD:
  assumes "consistent g s bk"
  shows "db_inv (g_sv g) s" "r \<in> catalog s \<Longrightarrow> artifact_ok g bk r"
    "r \<in> catalog s \<Longrightarrow> r_Source r = ''local'' \<Longrightarrow> held g bk r"
    "r \<in> catalog s \<Longrightarrow> r_Source r \<noteq> ''local'' \<Longrightarrow> safe_uri g (r_UpstreamFileURI r)"
    "p \<in> pending_paths s \<Longrightarrow> object_key (g_backend g) p = p"
    "own_keys g bk"
proof -
  have all: "db_inv (g_sv g) s" "own_keys g bk" "\<forall>r \<in> catalog s. artifact_ok g bk r"
      "\<forall>p \<in> pending_paths s. object_key (g_backend g) p = p"
    using assms unfolding consistent_def by blast+
  show "db_inv (g_sv g) s" "own_keys g bk" by (rule all)+
  show ok: "r \<in> catalog s \<Longrightarrow> artifact_ok g bk r" using all(3) by blast
  show "p \<in> pending_paths s \<Longrightarrow> object_key (g_backend g) p = p" using all(4) by blast
  assume r: "r \<in> catalog s"
  show "r_Source r = ''local'' \<Longrightarrow> held g bk r" "r_Source r \<noteq> ''local'' \<Longrightarrow> safe_uri g (r_UpstreamFileURI r)"
    using ok [OF r] by (simp_all only: artifact_ok_def if_True if_False)
qed

lemma own_keys_mono: "own_keys g bk \<Longrightarrow> fst ` set bk1 \<subseteq> insert (object_key (g_backend g) p) (fst ` set bk) \<Longrightarrow> own_keys g bk1"
  unfolding own_keys_def by blast

lemma heldE:
  assumes "held g bk r"
  obtains ob where "valid_identity g (r_Owner r) (r_Name r) (r_Version r)"
    "r_StoragePath r = object_path g (r_Owner r) (r_Name r) (r_Version r) (g_sha256 g (ob_Body ob))"
    "OpenObject (g_backend g) (r_StoragePath r) bk = Some ob" "r_SHA256 r = g_sha256 g (ob_Body ob)"
    "r_SizeBytes r = int (length (ob_Body ob))"
proof (cases "OpenObject (g_backend g) (r_StoragePath r) bk")
  case None
  with assms show ?thesis by (simp add: held_def)
next
  case (Some ob)
  with assms show ?thesis by (intro that [of ob]) (auto simp: held_def)
qed

lemma held_path:
  assumes "service_ok g" "held g bk r"
  shows "object_key b (r_StoragePath r) = r_StoragePath r" "r_StoragePath r \<noteq> []"
    "\<not> has_prefix (r_StoragePath r) ''upstream-cache/''"
proof -
  have "object_key b (r_StoragePath r) = r_StoragePath r \<and> r_StoragePath r \<noteq> [] \<and>
      \<not> has_prefix (r_StoragePath r) ''upstream-cache/''"
    using assms(2)
  proof (rule heldE)
    fix ob
    assume v: "valid_identity g (r_Owner r) (r_Name r) (r_Version r)"
      and p: "r_StoragePath r = object_path g (r_Owner r) (r_Name r) (r_Version r) (g_sha256 g (ob_Body ob))"
    show ?thesis
      unfolding p by (intro conjI object_path_own_key [OF assms(1) v] object_path_not_cached [OF assms(1) v])
  qed
  then show "object_key b (r_StoragePath r) = r_StoragePath r" "r_StoragePath r \<noteq> []"
    "\<not> has_prefix (r_StoragePath r) ''upstream-cache/''"
    by blast+
qed

text \<open>Paths that no local release of the catalog has.\<close>

definition unused :: "db \<Rightarrow> string \<Rightarrow> bool" where
  "unused s path \<longleftrightarrow> (\<forall>r \<in> catalog s. r_Source r = ''local'' \<longrightarrow> r_StoragePath r \<noteq> path)"

section \<open>Changes that keep it\<close>

lemma consistent_removes:
  assumes g: "service_ok g" and c: "consistent g s bk" and t: "db_inv (g_sv g) t" "removes s t"
  shows "consistent g t bk"
proof -
  have "object_key (g_backend g) p = p" if "p \<in> local_storage (catalog s)" for p
    using that consistentD(3) [OF c] held_path(1) [OF g] by (auto simp: local_storage_def)
  then have "\<forall>p \<in> pending_paths t. object_key (g_backend g) p = p"
    using c t(2) unfolding consistent_def removes_def by blast
  moreover have "\<forall>r \<in> catalog t. artifact_ok g bk r"
    using c t(2) unfolding consistent_def removes_def by blast
  ultimately show ?thesis using c t(1) unfolding consistent_def by simp
qed

lemma consistent_visible:
  assumes "consistent g s bk" "db_modules t = db_modules s" "db_releases t = db_releases s" "db_deletions t = db_deletions s"
  shows "consistent g t bk"
  using assms by (simp add: consistent_def db_inv_def catalog_def pending_paths_def)

lemma bucket_keys_set: "fst ` set (map_set k v m) = insert k (fst ` set m)"
  by (induction m) auto

lemma bucket_keys_del: "fst ` set (map_del k m) \<subseteq> fst ` set m"
  by (auto simp: AList.delete_eq)

lemma held_upload: "held g bk r \<Longrightarrow> held g (fst (UploadReaderIfAbsent (g_backend g) now p ct body bk)) r"
  using os.upload_keeps [of "g_backend g" "r_StoragePath r" bk _ p "(now, ct, body)"]
  unfolding held_def by (cases "OpenObject (g_backend g) (r_StoragePath r) bk") auto

lemma consistent_upload:
  assumes "consistent g s bk"
  shows "consistent g s (fst (UploadReaderIfAbsent (g_backend g) now p ct body bk))"
proof -
  have "artifact_ok g bk r \<Longrightarrow> artifact_ok g (fst (UploadReaderIfAbsent (g_backend g) now p ct body bk)) r" for r
    using held_upload by (simp add: artifact_ok_def)
  moreover have "fst ` set (fst (UploadReaderIfAbsent (g_backend g) now p ct body bk)) \<subseteq>
      insert (object_key (g_backend g) p) (fst ` set bk)"
  proof (cases "map_of bk (object_key (g_backend g) p)")
    case None
    then show ?thesis unfolding UploadReaderIfAbsent_def Let_def None option.case fst_conv bucket_keys_set by blast
  next
    case (Some ob)
    then show ?thesis unfolding UploadReaderIfAbsent_def Let_def Some option.case fst_conv by blast
  qed
  then have "own_keys g (fst (UploadReaderIfAbsent (g_backend g) now p ct body bk))"
    by (rule own_keys_mono [OF consistentD(6) [OF assms]])
  ultimately show ?thesis using assms by (simp add: consistent_def)
qed

lemma consistent_delete:
  assumes g: "service_ok g" and c: "consistent g s bk" and u: "unused s (object_key (g_backend g) p)"
  shows "consistent g s (DeleteObject (g_backend g) p bk)"
proof -
  have "artifact_ok g (DeleteObject (g_backend g) p bk) r" if r: "r \<in> catalog s" for r
  proof (cases "r_Source r = ''local''")
    case True
    then have h: "held g bk r" using consistentD(3) [OF c r] by simp
    have "object_key (g_backend g) (r_StoragePath r) \<noteq> object_key (g_backend g) p"
      using u r True held_path(1) [OF g h] by (auto simp: unused_def)
    then have opened: "OpenObject (g_backend g) (r_StoragePath r) (DeleteObject (g_backend g) p bk) =
        OpenObject (g_backend g) (r_StoragePath r) bk"
      by (rule os.remove_keeps)
    from h have "held g (DeleteObject (g_backend g) p bk) r" unfolding held_def opened .
    with True show ?thesis by (simp add: artifact_ok_def)
  next
    case False
    with consistentD(4) [OF c r] show ?thesis by (simp add: artifact_ok_def)
  qed
  moreover have "fst ` set (DeleteObject (g_backend g) p bk) \<subseteq> fst ` set bk"
    unfolding DeleteObject_def by (rule bucket_keys_del)
  then have "own_keys g (DeleteObject (g_backend g) p bk)"
    by (intro own_keys_mono [OF consistentD(6) [OF c]]) blast
  ultimately show ?thesis using c by (simp add: consistent_def)
qed

lemma stored_as_ok: "stored_as r q \<Longrightarrow> artifact_ok g bk q = artifact_ok g bk r"
proof -
  assume "stored_as r q"
  then have q: "q = r\<lparr>r_ID := r_ID q, r_CreatedAt := r_CreatedAt q, r_DownloadURL := [],
           r_Metadata := normalizeReleaseMetadata (r_Metadata r)\<rparr>" by (simp add: stored_as_def)
  have "r_Source q = r_Source r" "r_Owner q = r_Owner r" "r_Name q = r_Name r" "r_Version q = r_Version r"
    "r_StoragePath q = r_StoragePath r" "r_SHA256 q = r_SHA256 r" "r_SizeBytes q = r_SizeBytes r"
    "r_UpstreamFileURI q = r_UpstreamFileURI r"
    by (subst q, simp)+
  then show ?thesis
    unfolding artifact_ok_def held_def by (cases "OpenObject (g_backend g) (r_StoragePath r) bk") simp_all
qed

lemma consistent_put:
  assumes g: "service_ok g" and c: "consistent g s bk" and t: "db_inv (g_sv g) t" "catalog t = put_release q (catalog s)"
    "pending_paths t \<subseteq> pending_paths s \<union> local_storage (catalog s)" and q: "artifact_ok g bk q"
  shows "consistent g t bk"
proof -
  have "object_key (g_backend g) p = p" if "p \<in> local_storage (catalog s)" for p
    using that consistentD(3) [OF c] held_path(1) [OF g] by (auto simp: local_storage_def)
  then have "\<forall>p \<in> pending_paths t. object_key (g_backend g) p = p"
    using c t(3) unfolding consistent_def by blast
  moreover have "\<forall>r \<in> catalog t. artifact_ok g bk r"
    using c q unfolding consistent_def t(2) put_release_def by simp
  ultimately show ?thesis using c t(1) unfolding consistent_def by simp
qed

lemma createRelease_keeps:
  assumes g: "service_ok g" and c: "consistent g s bk" and v: "v_sv v = g_sv g"
    and m: "(r_ModuleID r, r_Owner r, r_Name r) \<in> identities (db_modules s)" and r: "artifact_ok g bk r"
    and run: "createRelease v ctx s r co = ((ctx1, s1), res)"
  shows "consistent g s1 bk" "identities (db_modules s1) = identities (db_modules s)"
    "res = Inr q \<Longrightarrow> q \<in> catalog s1 \<and> stored_as r q \<and> key_of q = key_of r \<and> artifact_ok g bk q"
proof -
  have sv: "semver_package (v_sv v)" "db_inv (v_sv v) s" using g consistentD(1) [OF c] by (simp_all add: v service_ok_def)
  have inv1: "db_inv (g_sv g) s1" using createRelease_inv [OF sv, of ctx r co] run v by simp
  have "consistent g s1 bk \<and> identities (db_modules s1) = identities (db_modules s) \<and>
      (res = Inr q \<longrightarrow> q \<in> catalog s1 \<and> stored_as r q \<and> key_of q = key_of r \<and> artifact_ok g bk q)"
  proof (cases rule: createRelease_effect [OF sv m, where c = ctx and co = co])
    case (1 e)
    with run c show ?thesis by auto
  next
    case (2 c2 s2 q')
    then have s1: "s1 = s2" "res = Inr q'" using run by simp_all
    have "artifact_ok g bk q'" using stored_as_ok [OF 2(3)] r by simp
    moreover have "q' \<in> catalog s1" using 2(2) s1 by (simp add: put_release_def)
    moreover have "consistent g s1 bk"
      using consistent_put [OF g c inv1, of q'] 2 s1 calculation by simp
    ultimately show ?thesis using 2 s1 by auto
  qed
  then show "consistent g s1 bk" "identities (db_modules s1) = identities (db_modules s)"
    "res = Inr q \<Longrightarrow> q \<in> catalog s1 \<and> stored_as r q \<and> key_of q = key_of r \<and> artifact_ok g bk q"
    by blast+
qed

section \<open>Rules for calls\<close>

lemma store_Inr [simp]: "map_sum StoreFault (\<lambda>x. x) r = Inr x \<longleftrightarrow> r = Inr x"
  by (cases r) simp_all

lemma hoare_db_call:
  assumes "\<And>s bk. P s bk \<Longrightarrow> Q (Inl Unavailable) s bk"
    and "\<And>c s bk c1 s1 r. P s bk \<Longrightarrow> f c s = ((c1, s1), r) \<Longrightarrow>
      Q (map_sum StoreFault (\<lambda>x. x) r) s1 bk \<and> Q (Inl Unavailable) s1 bk"
  shows "hoare (\<lambda>w. P (w_db w) (w_bucket w)) (db_call f) (\<lambda>r w. Q r (w_db w) (w_bucket w))"
proof (rule hoareI)
  fix w :: world
  assume P: "P (w_db w) (w_bucket w)"
  show "Q (snd (db_call f w)) (w_db (fst (db_call f w))) (w_bucket (fst (db_call f w)))"
  proof (cases rule: db_call_cases [of f w])
    case unchanged
    with assms(1) [OF P] show ?thesis by simp
  next
    case answered
    with assms(2) [OF P answered(1)] show ?thesis by simp
  next
    case lost
    with assms(2) [OF P lost(1)] show ?thesis by simp
  qed
qed

lemma hoare_db_write:
  assumes "\<And>s bk. P s bk \<Longrightarrow> Q (Inl Unavailable) s bk"
    and "\<And>s bk s1 r. P s bk \<Longrightarrow> f s = (s1, r) \<Longrightarrow>
      Q (map_sum StoreFault (\<lambda>x. x) r) s1 bk \<and> Q (Inl Unavailable) s1 bk"
  shows "hoare (\<lambda>w. P (w_db w) (w_bucket w)) (db_write f) (\<lambda>r w. Q r (w_db w) (w_bucket w))"
  unfolding db_write_def by (rule hoare_db_call) (use assms in \<open>auto split: prod.splits\<close>)

lemma hoare_db_read:
  assumes "\<And>s bk. P s bk \<Longrightarrow> Q (Inl Unavailable) s bk \<and> Q (map_sum StoreFault (\<lambda>x. x) (f s)) s bk"
  shows "hoare (\<lambda>w. P (w_db w) (w_bucket w)) (db_read f) (\<lambda>r w. Q r (w_db w) (w_bucket w))"
  unfolding db_read_def by (rule hoare_db_call) (use assms in auto)

lemma hoare_bucket_call:
  assumes "\<And>s bk. P s bk \<Longrightarrow> Q (Inl Unavailable) s bk"
    and "\<And>s bk bk1 r. P s bk \<Longrightarrow> f bk = (bk1, r) \<Longrightarrow> Q r s bk1 \<and> Q (Inl Unavailable) s bk1"
  shows "hoare (\<lambda>w. P (w_db w) (w_bucket w)) (bucket_call f) (\<lambda>r w. Q r (w_db w) (w_bucket w))"
proof (rule hoareI)
  fix w :: world
  assume P: "P (w_db w) (w_bucket w)"
  show "Q (snd (bucket_call f w)) (w_db (fst (bucket_call f w))) (w_bucket (fst (bucket_call f w)))"
  proof (cases rule: bucket_call_cases [of f w])
    case unchanged
    with assms(1) [OF P] show ?thesis by simp
  next
    case answered
    with assms(2) [OF P answered(1)] show ?thesis by simp
  next
    case lost
    with assms(2) [OF P lost(1)] show ?thesis by simp
  qed
qed

lemma hoare_bucket_read:
  assumes "\<And>s bk. P s bk \<Longrightarrow> Q (Inl Unavailable) s bk \<and> Q (Inr (f bk)) s bk"
  shows "hoare (\<lambda>w. P (w_db w) (w_bucket w)) (bucket_read f) (\<lambda>r w. Q r (w_db w) (w_bucket w))"
  unfolding bucket_read_def by (rule hoare_bucket_call) (use assms in auto)

lemma hoare_io:
  assumes "\<And>s bk. P s bk \<Longrightarrow> Q (Inl Unavailable) s bk \<and> Q (Inr ()) s bk"
  shows "hoare (\<lambda>w. P (w_db w) (w_bucket w)) io_call (\<lambda>r w. Q r (w_db w) (w_bucket w))"
proof (rule hoareI)
  fix w :: world
  assume "P (w_db w) (w_bucket w)"
  then show "Q (snd (io_call w)) (w_db (fst (io_call w))) (w_bucket (fst (io_call w)))"
    using assms by (simp add: io_call_def case_prod_unfold)
qed

lemma hoare_ctx:
  assumes "\<And>s bk. P s bk \<Longrightarrow> Q (Inr ()) s bk"
  shows "hoare (\<lambda>w. P (w_db w) (w_bucket w)) (svc_ctx f) (\<lambda>r w. Q r (w_db w) (w_bucket w))"
  using assms by (simp add: hoare_def svc_ctx_def)

lemma hoare_keeps: "keeps (svc_inv g) m \<Longrightarrow> hoare (svc_inv g) m (\<lambda>_. svc_inv g)"
  by (simp add: keeps_hoare)

lemma svc_inv_eq: "svc_inv g = (\<lambda>w. consistent g (w_db w) (w_bucket w))"
  by (rule ext) (simp add: svc_inv_def)

lemma keeps_db_call:
  assumes "\<And>c s bk. consistent g s bk \<Longrightarrow> consistent g (snd (fst (f c s))) bk"
  shows "keeps (svc_inv g) (db_call f)"
  unfolding keeps_hoare svc_inv_eq by (rule hoare_db_call) (use assms in \<open>auto, metis fst_conv snd_conv\<close>)

lemma keeps_db_write:
  assumes "\<And>s bk. consistent g s bk \<Longrightarrow> consistent g (fst (f s)) bk"
  shows "keeps (svc_inv g) (db_write f)"
  unfolding db_write_def by (rule keeps_db_call) (use assms in \<open>auto simp: case_prod_unfold\<close>)

lemma keeps_delete:
  assumes "service_ok g" and "\<And>s bk. consistent g s bk \<Longrightarrow> unused s (object_key (g_backend g) p)"
  shows "keeps (svc_inv g) (delete_object g p)"
  unfolding keeps_hoare svc_inv_eq delete_object_def
  by (rule hoare_bucket_call) (use assms consistent_delete in auto)

lemma keeps_ctx [svc_keeps]: "keeps (svc_inv g) (svc_ctx f)"
  by (simp add: keeps_def svc_ctx_def svc_inv_def)

section \<open>The artifact cache keeps it\<close>

interpretation si: service_invariant "svc_inv g" "g_backend g" for g
proof
  fix w w' :: world assume "w_db w' = w_db w" "w_bucket w' = w_bucket w"
  then show "svc_inv g w' = svc_inv g w" by (simp add: svc_inv_def)
next
  fix w :: world and ls assume "svc_inv g w"
  then show "svc_inv g (w\<lparr>w_db := (w_db w)\<lparr>db_leases := ls\<rparr>\<rparr>)"
    unfolding svc_inv_def by (auto intro: consistent_visible)
next
  fix w :: world and now p c body assume "svc_inv g w"
  then show "svc_inv g (w\<lparr>w_bucket := fst (UploadReaderIfAbsent (g_backend g) now p c body (w_bucket w))\<rparr>)"
    unfolding svc_inv_def by (simp add: consistent_upload)
qed

lemmas svc_inv_calls [svc_keeps] = keeps_io [OF si.visible] keeps_read [OF si.visible]

lemma safe_uri_unused:
  assumes g: "service_ok g" and safe: "safe_uri g uri" "uri \<noteq> []" and req: "artifactRequest g uri = Inr (r, p)" and c: "consistent g s bk"
  shows "unused s (object_key (g_backend g) p)"
  unfolding unused_def
proof (intro ballI impI)
  fix q
  assume "q \<in> catalog s" "r_Source q = ''local''"
  then have "\<not> has_prefix (r_StoragePath q) ''upstream-cache/''" using consistentD(3) [OF c] held_path(3) [OF g] by blast
  with safe req show "r_StoragePath q \<noteq> object_key (g_backend g) p" by (auto simp: safe_uri_def)
qed

lemma integrity_keeps [svc_keeps]:
  assumes "service_ok g" "safe_uri g uri" "uri \<noteq> []"
  shows "keeps (svc_inv g) (EnsureArtifactIntegrity g q net uri sha sz)"
  using si.keeps_integrity [OF refl, of g uri q net sha sz] keeps_delete [OF assms(1)] safe_uri_unused [OF assms] by blast

text \<open>An object nobody references may go, whether it was named by a path or listed.\<close>

lemma unreferenced_unused: "\<not> IsArtifactReferenced s p \<Longrightarrow> unused s p"
  using catalog_referenced by (auto simp: unused_def)

lemma listed_unused:
  assumes g: "service_ok g" and c: "consistent g s bk" and p: "p \<in> range (object_key (g_backend g))" "\<not> IsArtifactReferenced s p"
  shows "unused s (object_key (g_backend g) p)"
proof -
  have "unused s []"
    unfolding unused_def using consistentD(3) [OF c] held_path(2) [OF g] by blast
  moreover obtain q where "p = object_key (g_backend g) q" using p(1) by blast
  ultimately show ?thesis using object_key_again [of "g_backend g" q] unreferenced_unused [OF p(2)] by auto
qed

end
