(* ===== verification/PublishKeeps.thy ===== *)
theory PublishKeeps
  imports ServiceInvariant
begin

text \<open>
  Publishing and deleting keep the invariant, whatever calls fail: an object is given up only when no
  release of the catalog has its path.
\<close>

section \<open>Publishing\<close>

text \<open>A local release whose path is the one of the upload is the release that is looked up.\<close>

lemma absent_unused:
  assumes g: "service_ok g" and c: "consistent g s bk" and v: "valid_identity g owner name version"
    and found: "\<And>e. e \<in> catalog s \<Longrightarrow> key_of e = (owner, name, version) \<Longrightarrow>
      \<not> (r_Source e = ''local'' \<and> r_SHA256 e = g_sha256 g body \<and>
         r_StoragePath e = object_path g owner name version (g_sha256 g body))"
  shows "unused s (object_path g owner name version (g_sha256 g body))"
  unfolding unused_def
proof (intro ballI impI notI)
  fix r
  assume r: "r \<in> catalog s" "r_Source r = ''local''"
    and p: "r_StoragePath r = object_path g owner name version (g_sha256 g body)"
  have "held g bk r" by (rule consistentD(3) [OF c r])
  then show False
  proof (rule heldE)
    fix ob
    assume h: "valid_identity g (r_Owner r) (r_Name r) (r_Version r)"
      "r_StoragePath r = object_path g (r_Owner r) (r_Name r) (r_Version r) (g_sha256 g (ob_Body ob))"
      "r_SHA256 r = g_sha256 g (ob_Body ob)"
    have eq: "object_path g (r_Owner r) (r_Name r) (r_Version r) (g_sha256 g (ob_Body ob)) =
        object_path g owner name version (g_sha256 g body)"
      using h(2) p by simp
    from object_path_inject [OF g h(1) v eq] have "key_of r = (owner, name, version)" "r_SHA256 r = g_sha256 g body"
      using h(3) by (simp_all add: key_of_def)
    with found [OF r(1)] r(2) p show False by simp
  qed
qed

lemma keeps_verifyExisting [svc_keeps]: "keeps (svc_inv g) (verifyExistingArtifact g' p sha sz)"
  unfolding verifyExistingArtifact_def by (auto split: option.split intro!: svc_keeps)

text \<open>Giving up an object that no release has.\<close>

lemma compensate_keeps:
  assumes g: "service_ok g"
  shows "hoare (\<lambda>w. consistent g (w_db w) (w_bucket w) \<and> unused (w_db w) (object_key (g_backend g) p))
    (compensatePublishFailure g owner name p e :: 'a svc) (\<lambda>_. svc_inv g)"
proof -
  have del: "hoare (\<lambda>w. consistent g (w_db w) (w_bucket w) \<and> unused (w_db w) (object_key (g_backend g) p))
      (delete_object g p) (\<lambda>_. svc_inv g)"
    unfolding delete_object_def svc_inv_eq
    by (rule hoare_bucket_call) (use consistent_delete [OF g] in auto)
  have "keeps (svc_inv g) (svc_try (db_write (\<lambda>s. DeleteModuleIfEmpty s owner name)) (\<lambda>_. svc_error e :: 'a svc))"
    by (intro svc_keeps keeps_db_write)
      (use consistent_removes [OF g] DeleteModuleIfEmpty_removes DeleteModuleIfEmpty_inv consistentD(1) in blast)
  then show ?thesis
    unfolding compensatePublishFailure_def keeps_hoare by (intro hoare_try [OF del])
qed

lemma record_pending_keeps [svc_keeps]:
  assumes g: "service_ok g"
  shows "keeps (svc_inv g) (record_pending g q)"
proof (rule keepsI)
  fix w
  assume w: "svc_inv g w"
  show "svc_inv g (fst (record_pending g q w))"
  proof (cases "PendingMutationAudit (w_ctx w)")
    case None
    with w show ?thesis by (simp add: record_pending_def svc_return_def)
  next
    case (Some event)
    have "keeps (svc_inv g) (svc_then
            (db_write (\<lambda>s. case recordSQLiteAuditEvent (request_env g q) s event of
                Inl e \<Rightarrow> (s, Inl e) | Inr s1 \<Rightarrow> (s1, Inr ())))
            (\<lambda>_. svc_ctx MarkMutationAuditRecorded))"
    proof (intro svc_keeps keeps_db_write)
      fix s bk
      assume c: "consistent g s bk"
      show "consistent g (fst (case recordSQLiteAuditEvent (request_env g q) s event of
          Inl e \<Rightarrow> (s, Inl e) | Inr s1 \<Rightarrow> (s1, Inr ()))) bk"
      proof (cases "recordSQLiteAuditEvent (request_env g q) s event")
        case (Inr s1)
        with consistent_removes [OF g c] record_audit_removes [OF Inr] consistentD(1) [OF c] show ?thesis by simp
      qed (use c in simp)
    qed
    from keepsD [OF this w] Some show ?thesis by (simp add: record_pending_def)
  qed
qed


text \<open>The object is in the bucket under its path.\<close>

definition stored_object_at :: "service \<Rightarrow> bucket \<Rightarrow> string \<Rightarrow> string \<Rightarrow> int \<Rightarrow> bool" where
  "stored_object_at g bk path shaHex sz =
     (case OpenObject (g_backend g) path bk of
        None \<Rightarrow> False | Some ob \<Rightarrow> g_sha256 g (ob_Body ob) = shaHex \<and> int (length (ob_Body ob)) = sz)"

lemma publish_upload_keeps:
  assumes g: "service_ok g" and sha: "shaHex = g_sha256 g body" and sz: "pi_SizeBytes input = int (length body)"
  shows "hoare (\<lambda>w. consistent g (w_db w) (w_bucket w) \<and> unused (w_db w) path)
    (publish_upload g q input body shaHex path)
    (\<lambda>r w. consistent g (w_db w) (w_bucket w) \<and> unused (w_db w) path \<and>
       (r = Inr () \<longrightarrow> stored_object_at g (w_bucket w) path shaHex (pi_SizeBytes input)))"
proof -
  let ?I = "\<lambda>s bk. consistent g s bk \<and> unused s path"
  let ?at = "\<lambda>bk. stored_object_at g bk path shaHex (pi_SizeBytes input)"
  have verify: "hoare (\<lambda>w. ?I (w_db w) (w_bucket w)) (verifyExistingArtifact g path shaHex (pi_SizeBytes input))
      (\<lambda>r w. ?I (w_db w) (w_bucket w) \<and> (r = Inr () \<longrightarrow> ?at (w_bucket w)))"
    unfolding verifyExistingArtifact_def
  proof (rule hoare_then [where R = "\<lambda>r w. ?I (w_db w) (w_bucket w) \<and>
        (\<forall>x. r = Inr x \<longrightarrow> OpenObject (g_backend g) path (w_bucket w) = x)"])
    show "hoare (\<lambda>w. ?I (w_db w) (w_bucket w)) (bucket_read (OpenObject (g_backend g) path))
        (\<lambda>r w. ?I (w_db w) (w_bucket w) \<and> (\<forall>x. r = Inr x \<longrightarrow> OpenObject (g_backend g) path (w_bucket w) = x))"
      by (rule hoare_bucket_read) simp
    fix x
    show "hoare (\<lambda>w. ?I (w_db w) (w_bucket w) \<and>
          (\<forall>y. Inr x = Inr y \<longrightarrow> OpenObject (g_backend g) path (w_bucket w) = y))
        (case x of None \<Rightarrow> svc_error ObjectNotFound
         | Some ob \<Rightarrow> svc_check (int (length (ob_Body ob)) = pi_SizeBytes input \<and> g_sha256 g (ob_Body ob) = shaHex)
             IntegrityMismatch)
        (\<lambda>r w. ?I (w_db w) (w_bucket w) \<and> (r = Inr () \<longrightarrow> ?at (w_bucket w)))"
      by (cases x) (auto simp: stored_object_at_def intro!: hoare_error hoare_check)
  qed simp
  let ?up = "\<lambda>bk. case UploadReaderIfAbsent (g_backend g) (q_now q) path (pi_ContentType input) body bk of
           (bk1, created) \<Rightarrow> (bk1, Inr created)"
  have upload: "hoare (\<lambda>w. ?I (w_db w) (w_bucket w)) (bucket_call ?up)
      (\<lambda>r w. ?I (w_db w) (w_bucket w) \<and> (r = Inr True \<longrightarrow> ?at (w_bucket w)))"
  proof (rule hoare_bucket_call)
    fix s bk bk1 and r :: "bool outcome"
    assume i: "?I s bk" and up: "?up bk = (bk1, r)"
    obtain created where u: "UploadReaderIfAbsent (g_backend g) (q_now q) path (pi_ContentType input) body bk = (bk1, created)"
        "r = Inr created"
      using up by (auto split: prod.splits)
    have "?I s bk1" using i consistent_upload [of g s bk "q_now q" path "pi_ContentType input" body] u(1) by simp
    moreover have "created \<longrightarrow> ?at bk1"
      using os.upload_stored [of "g_backend g" path "(q_now q, pi_ContentType input, body)" bk bk1 created] u(1) sha sz
      by (simp add: stored_object_at_def)
    ultimately show "(?I s bk1 \<and> (r = Inr True \<longrightarrow> ?at bk1)) \<and> (?I s bk1 \<and> (Inl Unavailable = Inr True \<longrightarrow> ?at bk1))"
      using u(2) by simp
  qed simp
  show ?thesis
    unfolding publish_upload_def
  proof (rule hoare_then [where R = "\<lambda>_ w. ?I (w_db w) (w_bucket w)"], rule hoare_io)
    fix u :: unit
    show "hoare (\<lambda>w. ?I (w_db w) (w_bucket w))
        (svc_then (bucket_call ?up) (\<lambda>created. if created then svc_return ()
           else verifyExistingArtifact g path shaHex (pi_SizeBytes input)))
        (\<lambda>r w. consistent g (w_db w) (w_bucket w) \<and> unused (w_db w) path \<and> (r = Inr () \<longrightarrow> ?at (w_bucket w)))"
    proof (rule hoare_then [OF upload])
      fix created
      show "hoare (\<lambda>w. ?I (w_db w) (w_bucket w) \<and> (Inr created = Inr True \<longrightarrow> ?at (w_bucket w)))
          (if created then svc_return () else verifyExistingArtifact g path shaHex (pi_SizeBytes input))
          (\<lambda>r w. consistent g (w_db w) (w_bucket w) \<and> unused (w_db w) path \<and> (r = Inr () \<longrightarrow> ?at (w_bucket w)))"
        using verify by (cases created) (auto intro: hoare_return elim: hoare_weaken)
    qed simp
  qed simp_all
qed


text \<open>A publication that reaches the store, and the path of its artifact.\<close>

definition publishable :: "service \<Rightarrow> publish_input \<Rightarrow> string \<Rightarrow> bool" where
  "publishable g input body \<longleftrightarrow>
     service_ok g \<and> valid_identity g (pi_Owner input) (pi_Name input) (pi_Version input) \<and>
     pi_SizeBytes input = int (length body)"

definition artifact_path :: "service \<Rightarrow> publish_input \<Rightarrow> string \<Rightarrow> string" where
  "artifact_path g input body =
     object_path g (pi_Owner input) (pi_Name input) (pi_Version input) (g_sha256 g body)"

definition same_artifact :: "service \<Rightarrow> publish_input \<Rightarrow> string \<Rightarrow> release \<Rightarrow> bool" where
  "same_artifact g input body e =
     (r_Source e = ''local'' \<and> r_SHA256 e = g_sha256 g body \<and> r_StoragePath e = artifact_path g input body)"

definition find_release :: "publish_input \<Rightarrow> db \<Rightarrow> release result" where
  "find_release input s = GetRelease s (pi_Owner input) (pi_Name input) (pi_Version input)"

lemma find_release_eq:
  "find_release input = (\<lambda>s. GetRelease s (pi_Owner input) (pi_Name input) (pi_Version input))"
  by (rule ext) (simp add: find_release_def)

lemma publishableD:
  assumes "publishable g input body"
  shows "service_ok g" "valid_identity g (pi_Owner input) (pi_Name input) (pi_Version input)"
    "pi_SizeBytes input = int (length body)"
    "object_key (g_backend g) (artifact_path g input body) = artifact_path g input body"
  using assms object_path_own_key unfolding publishable_def artifact_path_def by blast+

lemma publish_compensate:
  assumes "publishable g input body"
  shows "hoare (\<lambda>w. consistent g (w_db w) (w_bucket w) \<and> unused (w_db w) (artifact_path g input body))
    (compensatePublishFailure g owner name (artifact_path g input body) e :: 'a svc) (\<lambda>_. svc_inv g)"
  using compensate_keeps [OF publishableD(1) [OF assms], where p = "artifact_path g input body"]
  unfolding publishableD(4) [OF assms] .

lemma publish_new_ok:
  assumes "publishable g input body"
    and "stored_object_at g bk (artifact_path g input body) (g_sha256 g body) (pi_SizeBytes input)"
  shows "artifact_ok g bk (NewRelease uuid moduleID input md5Hex (g_sha256 g body) (artifact_path g input body))"
  using assms(2) publishableD(2) [OF assms(1)]
  by (cases "OpenObject (g_backend g) (artifact_path g input body) bk")
    (simp_all add: artifact_ok_def held_def NewRelease_def stored_object_at_def, simp add: artifact_path_def)

text \<open>The lookup decides whether the object may go.\<close>

lemma found_catalog:
  "consistent g s bk \<Longrightarrow> find_release input s = Inr e \<longleftrightarrow>
     e \<in> catalog s \<and> key_of e = (pi_Owner input, pi_Name input, pi_Version input)"
  unfolding find_release_def by (rule GetRelease_catalog(1) [OF consistentD(1)])

lemma not_found_unused:
  assumes p: "publishable g input body" and c: "consistent g s bk" and r: "find_release input s = Inl e"
  shows "unused s (artifact_path g input body)"
proof -
  have "\<forall>q \<in> catalog s. key_of q \<noteq> (pi_Owner input, pi_Name input, pi_Version input)"
    using r unfolding find_release_def GetRelease_catalog(2) [OF consistentD(1) [OF c]] by blast
  then show ?thesis
    unfolding artifact_path_def by (intro absent_unused [OF publishableD(1) [OF p] c publishableD(2) [OF p]]) blast
qed

lemma other_unused:
  assumes p: "publishable g input body" and c: "consistent g s bk" and r: "find_release input s = Inr e"
    and ne: "\<not> same_artifact g input body e"
  shows "unused s (artifact_path g input body)"
  unfolding artifact_path_def
proof (rule absent_unused [OF publishableD(1) [OF p] c publishableD(2) [OF p]])
  fix e'
  assume "e' \<in> catalog s" "key_of e' = (pi_Owner input, pi_Name input, pi_Version input)"
  then have "e' = e" using catalog_unique [OF consistentD(1) [OF c]] r unfolding found_catalog [OF c] by metis
  then show "\<not> (r_Source e' = ''local'' \<and> r_SHA256 e' = g_sha256 g body \<and>
      r_StoragePath e' = object_path g (pi_Owner input) (pi_Name input) (pi_Version input) (g_sha256 g body))"
    using ne unfolding same_artifact_def artifact_path_def by blast
qed

definition looked_up :: "service \<Rightarrow> publish_input \<Rightarrow> string \<Rightarrow> release outcome \<Rightarrow> db \<Rightarrow> bucket \<Rightarrow> bool" where
  "looked_up g input body r s bk \<longleftrightarrow>
     consistent g s bk \<and>
     (case r of
        Inl e \<Rightarrow> is_not_found e \<longrightarrow> unused s (artifact_path g input body)
      | Inr e \<Rightarrow> e \<in> catalog s \<and> (same_artifact g input body e \<or> unused s (artifact_path g input body)))"

lemma looked_upD: "looked_up g input body r s bk \<Longrightarrow> consistent g s bk"
  by (simp add: looked_up_def)

lemma publish_lookup:
  assumes p: "publishable g input body"
  shows "hoare (svc_inv g) (db_read (find_release input)) (\<lambda>r w. looked_up g input body r (w_db w) (w_bucket w))"
  unfolding svc_inv_eq
proof (rule hoare_db_read)
  fix s bk
  assume c: "consistent g s bk"
  have "looked_up g input body (map_sum StoreFault (\<lambda>x. x) (find_release input s)) s bk"
  proof (cases "find_release input s")
    case (Inl e)
    then show ?thesis using c not_found_unused [OF p c Inl] by (simp add: looked_up_def)
  next
    case (Inr e)
    have "e \<in> catalog s" using Inr unfolding found_catalog [OF c] by blast
    then show ?thesis using c other_unused [OF p c Inr] by (simp add: looked_up_def Inr) blast
  qed
  then show "looked_up g input body (Inl Unavailable) s bk \<and>
      looked_up g input body (map_sum StoreFault (\<lambda>x. x) (find_release input s)) s bk"
    using c by (simp add: looked_up_def)
qed

lemma publish_commit_keeps:
  assumes p: "publishable g input body" and m: "m_Owner mdl = pi_Owner input" "m_Name mdl = pi_Name input"
  shows "hoare (\<lambda>w. consistent g (w_db w) (w_bucket w) \<and>
      stored_object_at g (w_bucket w) (artifact_path g input body) (g_sha256 g body) (pi_SizeBytes input) \<and>
      (m_ID mdl, pi_Owner input, pi_Name input) \<in> identities (db_modules (w_db w)))
    (publish_commit g q input md5Hex (g_sha256 g body) (artifact_path g input body) mdl) (\<lambda>_. svc_inv g)"
  unfolding publish_commit_def Let_def
proof (rule hoare_try [where R = "\<lambda>_. svc_inv g"])
  let ?new = "NewRelease (q_release_uuid q) (m_ID mdl) input md5Hex (g_sha256 g body) (artifact_path g input body)"
  show "hoare (\<lambda>w. consistent g (w_db w) (w_bucket w) \<and>
      stored_object_at g (w_bucket w) (artifact_path g input body) (g_sha256 g body) (pi_SizeBytes input) \<and>
      (m_ID mdl, pi_Owner input, pi_Name input) \<in> identities (db_modules (w_db w)))
    (db_call (\<lambda>c s. if pi_Replace input then CreateRelease (request_env g q) c s ?new
        else CreateReleaseIfAbsent (request_env g q) c s ?new)) (\<lambda>_. svc_inv g)"
    unfolding svc_inv_eq CreateRelease_def CreateReleaseIfAbsent_def
  proof (rule hoare_db_call)
    fix c s bk c1 s1 and r :: "release result"
    assume pre: "consistent g s bk \<and>
        stored_object_at g bk (artifact_path g input body) (g_sha256 g body) (pi_SizeBytes input) \<and>
        (m_ID mdl, pi_Owner input, pi_Name input) \<in> identities (db_modules s)"
      and run: "(if pi_Replace input then createRelease (request_env g q) c s ?new False
          else createRelease (request_env g q) c s ?new True) = ((c1, s1), r)"
    have "createRelease (request_env g q) c s ?new (\<not> pi_Replace input) = ((c1, s1), r)" 
      using run by (cases "pi_Replace input") simp_all
    moreover have "artifact_ok g bk ?new" using pre by (intro publish_new_ok [OF p]) blast
    moreover have "(r_ModuleID ?new, r_Owner ?new, r_Name ?new) \<in> identities (db_modules s)"
      using pre by (simp add: NewRelease_def)
    moreover have "v_sv (request_env g q) = g_sv g" by (simp add: request_env_def)
    ultimately have "consistent g s1 bk" using createRelease_keeps(1) [OF publishableD(1) [OF p]] pre by blast
    then show "consistent g s1 bk \<and> consistent g s1 bk" by simp
  qed simp
  fix r :: "release outcome"
  show "hoare (svc_inv g)
      (case r of
         Inl e \<Rightarrow>
           svc_try (db_read (\<lambda>s. GetRelease s (pi_Owner input) (pi_Name input) (pi_Version input)))
            (\<lambda>r2. case r2 of
              Inl e2 \<Rightarrow> if \<not> is_not_found e2 then svc_error e
                else compensatePublishFailure g (pi_Owner input) (pi_Name input) (artifact_path g input body) e
            | Inr committed \<Rightarrow>
                if r_Source committed = ''local'' \<and> r_SHA256 committed = g_sha256 g body \<and>
                   r_StoragePath committed = artifact_path g input body
                then svc_return (with_url g committed)
                else compensatePublishFailure g (pi_Owner input) (pi_Name input) (artifact_path g input body) e)
       | Inr release \<Rightarrow> svc_return (with_url g release))
      (\<lambda>_. svc_inv g)"
  proof (cases r)
    case (Inr release)
    then show ?thesis by (simp add: hoare_return)
  next
    case (Inl e)
    have "hoare (svc_inv g)
           (svc_try (db_read (find_release input))
            (\<lambda>r2. case r2 of
              Inl e2 \<Rightarrow> if \<not> is_not_found e2 then svc_error e
                else compensatePublishFailure g (pi_Owner input) (pi_Name input) (artifact_path g input body) e
            | Inr committed \<Rightarrow>
                if same_artifact g input body committed then svc_return (with_url g committed)
                else compensatePublishFailure g (pi_Owner input) (pi_Name input) (artifact_path g input body) e))
        (\<lambda>_. svc_inv g)"
    proof (rule hoare_try [OF publish_lookup [OF p]])
      fix r2
      show "hoare (\<lambda>w. looked_up g input body r2 (w_db w) (w_bucket w))
          (case r2 of
              Inl e2 \<Rightarrow> if \<not> is_not_found e2 then svc_error e
                else compensatePublishFailure g (pi_Owner input) (pi_Name input) (artifact_path g input body) e
            | Inr committed \<Rightarrow>
                if same_artifact g input body committed then svc_return (with_url g committed)
                else compensatePublishFailure g (pi_Owner input) (pi_Name input) (artifact_path g input body) e)
          (\<lambda>_. svc_inv g)"
        by (cases r2)
          (auto simp: looked_up_def svc_inv_def intro!: hoare_error hoare_return hoare_weaken [OF publish_compensate [OF p]])
    qed
    then show ?thesis unfolding Inl sum.case same_artifact_def find_release_eq .
  qed
qed

lemma publish_new_keeps:
  assumes p: "publishable g input body"
  shows "hoare (\<lambda>w. consistent g (w_db w) (w_bucket w) \<and> unused (w_db w) (artifact_path g input body))
    (publish_new g q input body md5Hex (g_sha256 g body) (artifact_path g input body)) (\<lambda>_. svc_inv g)"
  unfolding publish_new_def
proof (rule hoare_then [OF publish_upload_keeps [OF publishableD(1) [OF p] refl publishableD(3) [OF p]]])
  let ?I = "\<lambda>s bk. consistent g s bk \<and> unused s (artifact_path g input body)"
  let ?at = "\<lambda>bk. stored_object_at g bk (artifact_path g input body) (g_sha256 g body) (pi_SizeBytes input)"
  fix x :: unit
  show "hoare (\<lambda>w. consistent g (w_db w) (w_bucket w) \<and> unused (w_db w) (artifact_path g input body) \<and>
        (Inr x = Inr () \<longrightarrow> ?at (w_bucket w)))
      (svc_try (db_write (\<lambda>s. UpsertModule (request_env g q) s (pi_Owner input) (pi_Name input)))
        (\<lambda>r. case r of
           Inl e \<Rightarrow> compensatePublishFailure g (pi_Owner input) (pi_Name input) (artifact_path g input body) e
         | Inr mdl \<Rightarrow> publish_commit g q input md5Hex (g_sha256 g body) (artifact_path g input body) mdl))
      (\<lambda>_. svc_inv g)"
  proof (rule hoare_try [where R = "\<lambda>r w. ?I (w_db w) (w_bucket w) \<and> ?at (w_bucket w) \<and>
        (\<forall>m. r = Inr m \<longrightarrow> m_Owner m = pi_Owner input \<and> m_Name m = pi_Name input \<and>
           (m_ID m, pi_Owner input, pi_Name input) \<in> identities (db_modules (w_db w)))"])
    show "hoare (\<lambda>w. consistent g (w_db w) (w_bucket w) \<and> unused (w_db w) (artifact_path g input body) \<and>
          (Inr x = Inr () \<longrightarrow> ?at (w_bucket w)))
        (db_write (\<lambda>s. UpsertModule (request_env g q) s (pi_Owner input) (pi_Name input)))
        (\<lambda>r w. ?I (w_db w) (w_bucket w) \<and> ?at (w_bucket w) \<and>
          (\<forall>m. r = Inr m \<longrightarrow> m_Owner m = pi_Owner input \<and> m_Name m = pi_Name input \<and>
             (m_ID m, pi_Owner input, pi_Name input) \<in> identities (db_modules (w_db w))))"
    proof (rule hoare_db_write)
      fix s bk s1 and r :: "domain_module result"
      assume pre: "consistent g s bk \<and> unused s (artifact_path g input body) \<and> (Inr x = Inr () \<longrightarrow> ?at bk)"
        and run: "UpsertModule (request_env g q) s (pi_Owner input) (pi_Name input) = (s1, r)"
      note inv = consistentD(1) [of g s bk]
      have "db_inv (g_sv g) s1"
        using UpsertModule_inv [OF inv, of "request_env g q" "pi_Owner input" "pi_Name input"] pre run by simp
      then have c1: "consistent g s1 bk"
        using consistent_removes [OF publishableD(1) [OF p]] pre
          UpsertModule_removes [OF inv, of "request_env g q" "pi_Owner input" "pi_Name input"] run by fastforce
      have "unused s1 (artifact_path g input body)"
        using UpsertModule_effect(1) [OF inv, of "request_env g q" "pi_Owner input" "pi_Name input"] pre run
        by (simp add: unused_def)
      moreover have "\<forall>m. r = Inr m \<longrightarrow> m_Owner m = pi_Owner input \<and> m_Name m = pi_Name input \<and>
             (m_ID m, pi_Owner input, pi_Name input) \<in> identities (db_modules s1)"
        using UpsertModule_effect(5) [OF inv, of "request_env g q" "pi_Owner input" "pi_Name input"] pre run by simp
      ultimately show "(?I s1 bk \<and> ?at bk \<and> (\<forall>m. map_sum StoreFault (\<lambda>x. x) r = Inr m \<longrightarrow>
            m_Owner m = pi_Owner input \<and> m_Name m = pi_Name input \<and>
            (m_ID m, pi_Owner input, pi_Name input) \<in> identities (db_modules s1))) \<and>
          (?I s1 bk \<and> ?at bk \<and> (\<forall>m. Inl Unavailable = Inr m \<longrightarrow>
            m_Owner m = pi_Owner input \<and> m_Name m = pi_Name input \<and>
            (m_ID m, pi_Owner input, pi_Name input) \<in> identities (db_modules s1)))"
        using c1 pre by (cases r) simp_all
    qed simp
    fix r :: "domain_module outcome"
    show "hoare (\<lambda>w. ?I (w_db w) (w_bucket w) \<and> ?at (w_bucket w) \<and>
          (\<forall>m. r = Inr m \<longrightarrow> m_Owner m = pi_Owner input \<and> m_Name m = pi_Name input \<and>
             (m_ID m, pi_Owner input, pi_Name input) \<in> identities (db_modules (w_db w))))
        (case r of
           Inl e \<Rightarrow> compensatePublishFailure g (pi_Owner input) (pi_Name input) (artifact_path g input body) e
         | Inr mdl \<Rightarrow> publish_commit g q input md5Hex (g_sha256 g body) (artifact_path g input body) mdl)
        (\<lambda>_. svc_inv g)"
    proof (cases r)
      case (Inl e)
      then show ?thesis by (auto intro: hoare_weaken [OF publish_compensate [OF p]])
    next
      case (Inr mdl)
      show ?thesis
      proof (cases "m_Owner mdl = pi_Owner input \<and> m_Name mdl = pi_Name input")
        case True
        then have "hoare (\<lambda>w. consistent g (w_db w) (w_bucket w) \<and> ?at (w_bucket w) \<and>
            (m_ID mdl, pi_Owner input, pi_Name input) \<in> identities (db_modules (w_db w)))
          (publish_commit g q input md5Hex (g_sha256 g body) (artifact_path g input body) mdl) (\<lambda>_. svc_inv g)"
          by (intro publish_commit_keeps [OF p]) blast+
        then show ?thesis unfolding Inr sum.case by (rule hoare_weaken) auto
      next
        case False
        then show ?thesis by (auto simp: Inr hoare_def)
      qed
    qed
  qed
qed (simp add: svc_inv_def)

lemma publish_locked_keeps:
  assumes p: "publishable g input body"
  shows "keeps (svc_inv g) (publish_locked g q input body md5Hex (g_sha256 g body) (artifact_path g input body))"
proof -
  let ?new = "publish_new g q input body md5Hex (g_sha256 g body) (artifact_path g input body)"
  let ?k = "\<lambda>r. case r of
         Inr existing \<Rightarrow>
           if r_Source existing = ''local'' \<and> r_SHA256 existing = g_sha256 g body then
             svc_then (verifyExistingArtifact g (r_StoragePath existing) (r_SHA256 existing) (r_SizeBytes existing)) (\<lambda>_.
             svc_then (record_pending g q) (\<lambda>_.
               svc_return (with_url g existing)))
           else if \<not> pi_Replace input then svc_error Conflict
           else ?new
       | Inl e \<Rightarrow> if \<not> is_not_found e then svc_error e else ?new"
  have "hoare (svc_inv g) (svc_try (db_read (find_release input)) ?k) (\<lambda>_. svc_inv g)"
  proof (rule hoare_try [OF publish_lookup [OF p]])
    fix r
    have new: "hoare (\<lambda>w. looked_up g input body r (w_db w) (w_bucket w)) ?new (\<lambda>_. svc_inv g)"
      if "\<And>w :: world. looked_up g input body r (w_db w) (w_bucket w) \<Longrightarrow> unused (w_db w) (artifact_path g input body)"
    proof (rule hoare_weaken [OF publish_new_keeps [OF p]])
      fix w :: world
      assume "looked_up g input body r (w_db w) (w_bucket w)"
      then show "consistent g (w_db w) (w_bucket w) \<and> unused (w_db w) (artifact_path g input body)"
        using that looked_upD by blast
    qed
    have weak: "hoare (\<lambda>w. looked_up g input body r (w_db w) (w_bucket w)) m (\<lambda>_. svc_inv g)"
      if "keeps (svc_inv g) m" for m :: "release svc"
      using that unfolding keeps_hoare
      by (rule hoare_weaken) (auto simp: looked_up_def svc_inv_def)
    show "hoare (\<lambda>w. looked_up g input body r (w_db w) (w_bucket w)) (?k r) (\<lambda>_. svc_inv g)"
    proof (cases r)
      case (Inl e)
      have "is_not_found e \<Longrightarrow> hoare (\<lambda>w. looked_up g input body r (w_db w) (w_bucket w)) ?new (\<lambda>_. svc_inv g)"
        by (rule new) (simp add: looked_up_def Inl)
      then show ?thesis using weak [OF keeps_simple(2)] by (simp add: Inl)
    next
      case (Inr existing)
      show ?thesis
      proof (cases "r_Source existing = ''local'' \<and> r_SHA256 existing = g_sha256 g body")
        case True
        have "keeps (svc_inv g) (svc_then (verifyExistingArtifact g (r_StoragePath existing) (r_SHA256 existing) (r_SizeBytes existing))
            (\<lambda>_. svc_then (record_pending g q) (\<lambda>_. svc_return (with_url g existing))))"
          by (intro svc_keeps publishableD(1) [OF p])
        then show ?thesis using weak True by (simp add: Inr)
      next
        case False
        then have "hoare (\<lambda>w. looked_up g input body r (w_db w) (w_bucket w)) ?new (\<lambda>_. svc_inv g)"
          by (intro new) (auto simp: looked_up_def Inr same_artifact_def)
        then show ?thesis unfolding Inr sum.case if_not_P [OF False]
          using weak [OF keeps_simple(2), of Conflict] by (simp add: Inr)
      qed
    qed
  qed
  then show ?thesis unfolding keeps_hoare publish_locked_def find_release_eq .
qed

lemma publish_checked_keeps:
  assumes g: "service_ok g" and v: "ValidModuleVersion (g_sv g) (pi_Version input)"
  shows "keeps (svc_inv g) (publish_checked g q input authorize)"
proof -
  have locked: "keeps (svc_inv g) (publish_locked g q inp body md5Hex (g_sha256 g body)
      (object_path g owner name version (g_sha256 g body)))"
    if "owner = pi_Owner inp" "name = pi_Name inp" "version = pi_Version inp"
      "ValidModuleOwner owner" "ValidModuleName name" "pi_SizeBytes inp = int (length body)" "version = pi_Version input"
    for inp body md5Hex owner name version
    using publish_locked_keeps [of g inp body q md5Hex] g v that
    by (simp add: publishable_def valid_identity_def artifact_path_def)
  show ?thesis
    unfolding publish_checked_def Let_def
    by (auto split: option.split intro!: svc_keeps locked)
qed

lemma adopted_version: "adopt_archive_info g input info = Inr input1 \<Longrightarrow> ValidModuleVersion (g_sv g) (pi_Version input1)"
  by (auto simp: adopt_archive_info_def split: if_splits)

lemma keeps_then_Inr:
  assumes "keeps I m" "\<And>w x. snd (m w) = Inr x \<Longrightarrow> keeps I (f x)"
  shows "keeps I (svc_then m f)"
proof (rule keepsI)
  fix w
  assume w: "I w"
  show "I (fst (svc_then m f w))"
  proof (cases "snd (m w)")
    case (Inl e)
    then show ?thesis using keepsD [OF assms(1) w] by (simp add: svc_then_def svc_try_def case_prod_unfold svc_error_def)
  next
    case (Inr x)
    then show ?thesis
      using keepsD [OF assms(2) [OF Inr] keepsD [OF assms(1) w]] by (simp add: svc_then_def svc_try_def case_prod_unfold)
  qed
qed

lemma svc_then_Inr: "snd (svc_then m f w) = Inr y \<Longrightarrow> \<exists>x w1. snd (m w) = Inr x \<and> snd (f x w1) = Inr y"
  by (auto simp: svc_then_def svc_try_def case_prod_unfold svc_error_def split: sum.splits)

lemma normalized_version: "snd (normalizePublishInput g input w) = Inr input1 \<Longrightarrow> ValidModuleVersion (g_sv g) (pi_Version input1)"
  unfolding normalizePublishInput_def Let_def
  by (auto simp: svc_error_def svc_lift_def svc_return_def split: option.splits if_splits sum.splits
      dest!: svc_then_Inr dest: adopted_version)

lemma keeps_publish [svc_keeps]:
  assumes "service_ok g"
  shows "keeps (svc_inv g) (Publish g q input)" "keeps (svc_inv g) (PublishAuthorized g q input authorize)"
proof -
  have norm: "keeps (svc_inv g) (normalizePublishInput g input)"
    unfolding normalizePublishInput_def Let_def
    by (auto split: option.split sum.split intro!: svc_keeps)
  have "keeps (svc_inv g) (publish g q input a)" for a
    unfolding publish_def using normalized_version
    by (intro keeps_then_Inr norm publish_checked_keeps [OF assms]) blast
  then show "keeps (svc_inv g) (Publish g q input)" "keeps (svc_inv g) (PublishAuthorized g q input authorize)"
    by (simp_all add: Publish_def PublishAuthorized_def)
qed

section \<open>Deleting\<close>

lemma keeps_removing:
  assumes g: "service_ok g" and "\<And>c s. db_inv (g_sv g) s \<Longrightarrow> db_inv (g_sv g) (snd (fst (f c s))) \<and> removes s (snd (fst (f c s)))"
  shows "keeps (svc_inv g) (db_call f)"
proof (rule keeps_db_call)
  fix c s bk
  assume "consistent g s bk"
  with assms(2) [OF consistentD(1)] show "consistent g (snd (fst (f c s))) bk"
    using consistent_removes [OF g] by blast
qed

lemma keeps_removing_write:
  assumes g: "service_ok g" and "\<And>s. db_inv (g_sv g) s \<Longrightarrow> db_inv (g_sv g) (fst (f s)) \<and> removes s (fst (f s))"
  shows "keeps (svc_inv g) (db_write f)"
proof (rule keeps_db_write)
  fix s bk
  assume "consistent g s bk"
  with assms(2) [OF consistentD(1)] show "consistent g (fst (f s)) bk"
    using consistent_removes [OF g] by blast
qed

lemma keeps_deletes [svc_keeps]:
  assumes g: "service_ok g"
  shows "keeps (svc_inv g) (svc_DeleteModule g q owner name)"
    "keeps (svc_inv g) (DeleteModuleIfAllowed g q owner name since)"
    "keeps (svc_inv g) (svc_DeleteRelease g q owner name version)"
    "keeps (svc_inv g) (DeleteReleaseIfAllowed g q owner name version since)"
proof -
  have m: "keeps (svc_inv g) (deleteModuleLocked g q owner name)" for owner name
    unfolding deleteModuleLocked_def by (rule keeps_removing [OF g]) (simp add: DeleteModule_removes DeleteModule_inv)
  have r: "keeps (svc_inv g) (deleteReleaseLocked g q owner name version)" for owner name version
    unfolding deleteReleaseLocked_def
    using g DeleteRelease_inv [of "request_env g q"]
    by (intro keeps_removing [OF g]) (simp add: DeleteRelease_removes request_env_def service_ok_def)
  have a: "keeps (svc_inv g) (isReleaseActive owner name version since)" for owner name version since
    unfolding isReleaseActive_def by (rule svc_inv_calls)
  have ra: "keeps (svc_inv g) (reject_active owner name since versions)" for owner name since versions
    by (induction versions) (auto intro!: svc_keeps a)
  show "keeps (svc_inv g) (svc_DeleteModule g q owner name)"
    unfolding svc_DeleteModule_def by (intro svc_keeps m)
  show "keeps (svc_inv g) (svc_DeleteRelease g q owner name version)"
    unfolding svc_DeleteRelease_def by (intro svc_keeps r)
  show "keeps (svc_inv g) (DeleteModuleIfAllowed g q owner name since)"
    unfolding DeleteModuleIfAllowed_def by (intro svc_keeps m ra)
  show "keeps (svc_inv g) (DeleteReleaseIfAllowed g q owner name version since)"
    unfolding DeleteReleaseIfAllowed_def by (intro svc_keeps r a)
qed

section \<open>The outbox worker\<close>

text \<open>The paths of the outbox are their own keys.\<close>

lemma ListArtifactDeletions_pending:
  "d \<in> set (ListArtifactDeletions v s limit) \<Longrightarrow> d_StoragePath d \<in> pending_paths s"
  by (auto simp: ListArtifactDeletions_def pending_paths_def Let_def dest!: in_set_takeD split: if_splits)

lemma processArtifactDeletion_keeps:
  assumes g: "service_ok g" and key: "object_key (g_backend g) (d_StoragePath d) = d_StoragePath d"
  shows "keeps (svc_inv g) (processArtifactDeletion g d)"
proof -
  let ?p = "d_StoragePath d"
  let ?complete = "\<lambda>referenced. svc_then (db_write (\<lambda>s. (CompleteArtifactDeletion s ?p, Inr ()))) (\<lambda>_. svc_return referenced)"
  have complete: "keeps (svc_inv g) (?complete referenced)" for referenced
    by (intro svc_keeps keeps_removing_write [OF g]) (simp add: queue_removes deletions_inv)
  have "hoare (svc_inv g) (svc_then (db_read (\<lambda>s. Inr (IsArtifactReferenced s ?p))) (\<lambda>referenced.
      svc_then (if referenced then svc_return () else delete_object g ?p) (\<lambda>_. ?complete referenced))) (\<lambda>_. svc_inv g)"
  proof (rule hoare_then [where R = "\<lambda>r w. consistent g (w_db w) (w_bucket w) \<and> (r = Inr False \<longrightarrow> unused (w_db w) ?p)"])
    show "hoare (svc_inv g) (db_read (\<lambda>s. Inr (IsArtifactReferenced s ?p)))
        (\<lambda>r w. consistent g (w_db w) (w_bucket w) \<and> (r = Inr False \<longrightarrow> unused (w_db w) ?p))"
      unfolding svc_inv_eq by (rule hoare_db_read) (auto intro: unreferenced_unused)
    fix referenced
    have del: "hoare (\<lambda>w. consistent g (w_db w) (w_bucket w) \<and> unused (w_db w) ?p) (delete_object g ?p) (\<lambda>_. svc_inv g)"
      unfolding delete_object_def svc_inv_eq
      by (rule hoare_bucket_call) (use consistent_delete [OF g, where p = ?p] key in auto)
    show "hoare (\<lambda>w. consistent g (w_db w) (w_bucket w) \<and> (Inr referenced = Inr False \<longrightarrow> unused (w_db w) ?p))
        (svc_then (if referenced then svc_return () else delete_object g ?p) (\<lambda>_. ?complete referenced)) (\<lambda>_. svc_inv g)"
    proof (rule hoare_then [where R = "\<lambda>_. svc_inv g"])
      show "hoare (\<lambda>w. consistent g (w_db w) (w_bucket w) \<and> (Inr referenced = Inr False \<longrightarrow> unused (w_db w) ?p))
          (if referenced then svc_return () else delete_object g ?p) (\<lambda>_. svc_inv g)"
        using del by (cases referenced) (auto intro!: hoare_return simp: svc_inv_def elim!: hoare_weaken)
      show "hoare (svc_inv g) (?complete referenced) (\<lambda>_. svc_inv g)" for x :: unit
        using complete unfolding keeps_hoare .
    qed
  qed (simp add: svc_inv_def)
  note rest = this [folded keeps_hoare]
  show ?thesis unfolding processArtifactDeletion_def by (rule keeps_then [OF svc_inv_calls(1) rest])
qed

lemma process_all_keeps:
  assumes g: "service_ok g" and "\<forall>d \<in> set ds. object_key (g_backend g) (d_StoragePath d) = d_StoragePath d"
  shows "keeps (svc_inv g) (process_all g q acc ds)"
  using assms(2)
proof (induction ds arbitrary: acc)
  case Nil
  then show ?case by (simp add: svc_keeps)
next
  case (Cons d ds)
  obtain res errs where acc: "acc = (res, errs)" by fastforce
  have ih: "keeps (svc_inv g) (process_all g q acc' ds)" for acc' using Cons by simp
  have one: "keeps (svc_inv g) (processArtifactDeletion g d)"
    using Cons.prems by (intro processArtifactDeletion_keeps [OF g]) simp
  have later: "keeps (svc_inv g) (db_write (\<lambda>s. (DeferArtifactDeletion s p t, Inr ())))" for p t
    by (rule keeps_removing_write [OF g]) (simp add: queue_removes deletions_inv)
  show ?case
    unfolding acc process_all.simps by (auto split: sum.split intro!: svc_keeps one later ih)
qed

lemma keeps_ProcessArtifactDeletions [svc_keeps]:
  assumes g: "service_ok g"
  shows "keeps (svc_inv g) (ProcessArtifactDeletions g q limit)"
proof -
  let ?list = "db_read (\<lambda>s. Inr (ListArtifactDeletions (request_env g q) s limit))"
  have "hoare (svc_inv g) (svc_then ?list (\<lambda>deletions.
        svc_then (process_all g q
            (\<lparr>dl_Attempted = length deletions, dl_Deleted = 0, dl_Canceled = 0, dl_Failed = 0, dl_Pending = 0\<rparr>, [])
            deletions) (\<lambda>(res, errs).
        svc_try (db_read (\<lambda>s. Inr (CountArtifactDeletions s))) (\<lambda>r.
          case r of
            Inl e \<Rightarrow> svc_return (res, errs @ [e])
          | Inr pending \<Rightarrow> svc_return (res\<lparr>dl_Pending := pending\<rparr>, errs))))) (\<lambda>_. svc_inv g)"
  proof (rule hoare_then [where R = "\<lambda>r w. consistent g (w_db w) (w_bucket w) \<and>
        (\<forall>ds. r = Inr ds \<longrightarrow> (\<forall>d \<in> set ds. object_key (g_backend g) (d_StoragePath d) = d_StoragePath d))"])
    show "hoare (svc_inv g) ?list (\<lambda>r w. consistent g (w_db w) (w_bucket w) \<and>
        (\<forall>ds. r = Inr ds \<longrightarrow> (\<forall>d \<in> set ds. object_key (g_backend g) (d_StoragePath d) = d_StoragePath d)))"
      unfolding svc_inv_eq
      by (rule hoare_db_read) (auto dest: ListArtifactDeletions_pending consistentD(5))
    fix ds
    show "hoare (\<lambda>w. consistent g (w_db w) (w_bucket w) \<and>
        (\<forall>ds'. Inr ds = Inr ds' \<longrightarrow> (\<forall>d \<in> set ds'. object_key (g_backend g) (d_StoragePath d) = d_StoragePath d)))
      (svc_then (process_all g q
            (\<lparr>dl_Attempted = length ds, dl_Deleted = 0, dl_Canceled = 0, dl_Failed = 0, dl_Pending = 0\<rparr>, []) ds)
        (\<lambda>(res, errs).
        svc_try (db_read (\<lambda>s. Inr (CountArtifactDeletions s))) (\<lambda>r.
          case r of
            Inl e \<Rightarrow> svc_return (res, errs @ [e])
          | Inr pending \<Rightarrow> svc_return (res\<lparr>dl_Pending := pending\<rparr>, errs)))) (\<lambda>_. svc_inv g)"
    proof (cases "\<forall>d \<in> set ds. object_key (g_backend g) (d_StoragePath d) = d_StoragePath d")
      case True
      have "keeps (svc_inv g) (svc_then (process_all g q
            (\<lparr>dl_Attempted = length ds, dl_Deleted = 0, dl_Canceled = 0, dl_Failed = 0, dl_Pending = 0\<rparr>, []) ds)
        (\<lambda>(res, errs).
        svc_try (db_read (\<lambda>s. Inr (CountArtifactDeletions s))) (\<lambda>r.
          case r of
            Inl e \<Rightarrow> svc_return (res, errs @ [e])
          | Inr pending \<Rightarrow> svc_return (res\<lparr>dl_Pending := pending\<rparr>, errs))))"
        by (auto split: prod.split sum.split intro!: svc_keeps process_all_keeps [OF g True])
      then show ?thesis unfolding keeps_hoare by (rule hoare_weaken) (simp_all add: svc_inv_def)
    next
      case False
      then show ?thesis by (auto simp: hoare_def)
    qed
  qed (simp add: svc_inv_def)
  then show ?thesis
    unfolding ProcessArtifactDeletions_def keeps_hoare [symmetric] by (intro keeps_if keeps_simple)
qed

end
