(* ===== verification/UpstreamKeeps.thy ===== *)
theory UpstreamKeeps
  imports PublishKeeps
begin

text \<open>
  The operations on upstream releases and the jobs keep the invariant, as long as the URIs the upstream
  announces and the slugs that are asked for stay inside the cache.
\<close>

section \<open>Safe answers\<close>

definition safe_net :: "service \<Rightarrow> request \<Rightarrow> bool" where
  "safe_net g q \<longleftrightarrow>
     (\<forall>net slug u. q_net q = Some net \<longrightarrow> FetchRelease g net slug = Inr u \<longrightarrow> safe_uri g (up_FileURI u))"

definition safe_slug :: "service \<Rightarrow> string \<Rightarrow> bool" where
  "safe_slug g slug = safe_uri g (''/v3/files/'' @ slug @ ''.tar.gz'')"

definition safe_release :: "service \<Rightarrow> release \<Rightarrow> bool" where
  "safe_release g r \<longleftrightarrow> r_Source r \<noteq> ''local'' \<longrightarrow> safe_uri g (r_UpstreamFileURI r)"

definition safe_result :: "service \<Rightarrow> release outcome \<Rightarrow> bool" where
  "safe_result g r \<longleftrightarrow> (\<forall>x. r = Inr x \<longrightarrow> safe_release g x)"

lemma safe_result_simps [simp]: "safe_result g (Inl e)" "safe_result g (Inr x) = safe_release g x"
  by (simp_all add: safe_result_def)

lemma catalog_identity: "q \<in> catalog s \<Longrightarrow> (r_ModuleID q, r_Owner q, r_Name q) \<in> identities (db_modules s)"
  by (auto simp: in_catalog identities_def image_iff)

lemma artifact_ok_safe: "artifact_ok g bk r \<Longrightarrow> safe_release g r"
  by (simp add: artifact_ok_def safe_release_def split: if_splits)

lemma upstream_ok: "artifact_ok g bk (upstreamDomainRelease m u) = safe_uri g (up_FileURI u)"
  by (simp add: artifact_ok_def upstreamDomainRelease_def)

lemma upsert_keeps:
  assumes g: "service_ok g"
  shows "hoare (svc_inv g) (db_write (\<lambda>s. UpsertModule (request_env g q) s owner name))
    (\<lambda>r w. consistent g (w_db w) (w_bucket w) \<and> (\<forall>m. r = Inr m \<longrightarrow> m_Owner m = owner \<and> m_Name m = name \<and>
       (m_ID m, m_Owner m, m_Name m) \<in> identities (db_modules (w_db w))))"
  unfolding svc_inv_eq
proof (rule hoare_db_write)
  fix s bk s1 and r :: "domain_module result"
  assume c: "consistent g s bk" and run: "UpsertModule (request_env g q) s owner name = (s1, r)"
  note inv = consistentD(1) [OF c]
  have "consistent g s1 bk"
    using consistent_removes [OF g c, of s1] UpsertModule_inv [OF inv, of "request_env g q" owner name]
      UpsertModule_removes [OF inv, of "request_env g q" owner name] run by simp
  moreover have "\<forall>m. r = Inr m \<longrightarrow> m_Owner m = owner \<and> m_Name m = name \<and> (m_ID m, m_Owner m, m_Name m) \<in> identities (db_modules s1)"
    using UpsertModule_effect(5) [OF inv, of "request_env g q" owner name] run by simp
  ultimately show "(consistent g s1 bk \<and> (\<forall>m. map_sum StoreFault (\<lambda>x. x) r = Inr m \<longrightarrow> m_Owner m = owner \<and> m_Name m = name \<and>
       (m_ID m, m_Owner m, m_Name m) \<in> identities (db_modules s1))) \<and>
     (consistent g s1 bk \<and> (\<forall>m. Inl Unavailable = Inr m \<longrightarrow> m_Owner m = owner \<and> m_Name m = name \<and>
       (m_ID m, m_Owner m, m_Name m) \<in> identities (db_modules s1)))"
    by (cases r) auto
qed simp

text \<open>A lookup answers with a release of the catalog.\<close>

lemma lookup_keeps:
  "hoare (svc_inv g) (db_read (\<lambda>s. GetRelease s owner name version))
    (\<lambda>r w. consistent g (w_db w) (w_bucket w) \<and>
       (\<forall>x. r = Inr x \<longrightarrow> x \<in> catalog (w_db w) \<and> key_of x = (owner, name, version)))"
  unfolding svc_inv_eq
proof (rule hoare_db_read)
  fix s bk
  assume c: "consistent g s bk"
  then show "(consistent g s bk \<and> (\<forall>x. Inl Unavailable = Inr x \<longrightarrow> x \<in> catalog s \<and> key_of x = (owner, name, version))) \<and>
      consistent g s bk \<and> (\<forall>x. map_sum StoreFault (\<lambda>x. x) (GetRelease s owner name version) = Inr x \<longrightarrow>
        x \<in> catalog s \<and> key_of x = (owner, name, version))"
    using GetRelease_catalog(1) [OF consistentD(1) [OF c], of owner name version]
    by (cases "GetRelease s owner name version") auto
qed

lemma lookup_safe:
  "hoare (svc_inv g) (db_read (\<lambda>s. GetRelease s owner name version)) (\<lambda>r w. svc_inv g w \<and> safe_result g r)"
proof (rule hoare_weaken [OF lookup_keeps])
  fix r :: "release outcome" and w :: world
  assume "consistent g (w_db w) (w_bucket w) \<and>
      (\<forall>x. r = Inr x \<longrightarrow> x \<in> catalog (w_db w) \<and> key_of x = (owner, name, version))"
  then show "svc_inv g w \<and> safe_result g r"
    using consistentD(2) artifact_ok_safe unfolding svc_inv_def safe_result_def by blast
qed

section \<open>Restoring\<close>

lemma keeps_lift_any: "keeps I (svc_lift r)"
  by (auto simp: svc_lift_def split: sum.split intro: svc_keeps)

lemma svc_lift_hoare: "hoare I (svc_lift r) (\<lambda>r' w. I w \<and> r' = r)"
  by (cases r) (simp_all add: svc_lift_def hoare_def svc_error_def svc_return_def)

lemma fetch_keeps:
  assumes g: "service_ok g" and net: "safe_net g q" "q_net q = Some net" and slug: "safe_slug g slug"
  shows "hoare (svc_inv g) (fetch_for_restore g q net slug version)
    (\<lambda>r w. svc_inv g w \<and> (\<forall>u. r = Inr u \<longrightarrow> safe_uri g (up_FileURI u)))"
  unfolding fetch_for_restore_def
proof (rule hoare_try [OF svc_lift_hoare])
  fix r
  let ?Q = "\<lambda>r w. svc_inv g w \<and> (\<forall>u. r = Inr u \<longrightarrow> safe_uri g (up_FileURI u))"
  let ?uri = "''/v3/files/'' @ slug @ ''.tar.gz''"
  let ?u = "no_upstream_release\<lparr>up_Slug := slug, up_Version := version, up_FileURI := ?uri, up_FileName := slug @ ''.tar.gz''\<rparr>"
  have artifact: "hoare (svc_inv g) (svc_try (EnsureArtifact g q net ?uri) (\<lambda>r2. case r2 of
        Inl e2 \<Rightarrow> if e2 = UpstreamNotFound then svc_error NotFound else svc_error (HydrationFailed (RestoreFailed e2))
      | Inr _ \<Rightarrow> svc_return ?u)) ?Q"
  proof (rule hoare_try)
    show "hoare (svc_inv g) (EnsureArtifact g q net ?uri) (\<lambda>_. svc_inv g)"
      unfolding keeps_hoare [symmetric] by (rule si.keeps_EnsureArtifact [OF refl])
    fix r2 :: "unit outcome"
    show "hoare (svc_inv g) (case r2 of
        Inl e2 \<Rightarrow> if e2 = UpstreamNotFound then svc_error NotFound else svc_error (HydrationFailed (RestoreFailed e2))
      | Inr _ \<Rightarrow> svc_return ?u) ?Q"
      using slug by (cases r2) (auto simp: safe_slug_def intro!: hoare_error hoare_return)
  qed
  show "hoare (\<lambda>w. svc_inv g w \<and> r = FetchRelease g net slug)
      (case r of
         Inr u \<Rightarrow> svc_return u
       | Inl e \<Rightarrow>
           if e \<noteq> UpstreamNotFound then svc_error (HydrationFailed (RestoreFailed e))
           else
             let fileName = slug @ ''.tar.gz''; fileURI = ''/v3/files/'' @ fileName in
             svc_try (EnsureArtifact g q net fileURI) (\<lambda>r2.
               case r2 of
                 Inl e2 \<Rightarrow>
                   if e2 = UpstreamNotFound then svc_error NotFound
                   else svc_error (HydrationFailed (RestoreFailed e2))
               | Inr _ \<Rightarrow>
                   svc_return (no_upstream_release\<lparr>up_Slug := slug, up_Version := version, up_FileURI := fileURI,
                                                   up_FileName := fileName\<rparr>))) ?Q"
  proof (cases r)
    case (Inl e)
    have "hoare (svc_inv g) (svc_error (HydrationFailed (RestoreFailed e))) ?Q" by (rule hoare_error) simp
    with artifact have "hoare (svc_inv g) (if e \<noteq> UpstreamNotFound then svc_error (HydrationFailed (RestoreFailed e))
        else svc_try (EnsureArtifact g q net ?uri) (\<lambda>r2. case r2 of
          Inl e2 \<Rightarrow> if e2 = UpstreamNotFound then svc_error NotFound else svc_error (HydrationFailed (RestoreFailed e2))
        | Inr _ \<Rightarrow> svc_return ?u)) ?Q"
      by (cases "e = UpstreamNotFound") (simp_all only: simp_thms if_True if_False)
    then show ?thesis unfolding Inl sum.case Let_def by (rule hoare_weaken) blast+
  next
    case (Inr u)
    then show ?thesis using net unfolding safe_net_def by (auto intro: hoare_return)
  qed
qed

lemma create_upstream_keeps:
  assumes g: "service_ok g" and u: "safe_uri g (up_FileURI u)"
  shows "hoare (\<lambda>w. consistent g (w_db w) (w_bucket w) \<and> (m_ID m, m_Owner m, m_Name m) \<in> identities (db_modules (w_db w)))
    (db_call (\<lambda>c s. CreateReleaseIfAbsent (request_env g q) c s (upstreamDomainRelease m u)))
    (\<lambda>r w. (consistent g (w_db w) (w_bucket w) \<and> (m_ID m, m_Owner m, m_Name m) \<in> identities (db_modules (w_db w))) \<and>
       safe_result g r)"
  unfolding CreateReleaseIfAbsent_def
proof (rule hoare_db_call)
  fix c s bk c1 s1 and r :: "release result"
  assume pre: "consistent g s bk \<and> (m_ID m, m_Owner m, m_Name m) \<in> identities (db_modules s)"
    and run: "createRelease (request_env g q) c s (upstreamDomainRelease m u) True = ((c1, s1), r)"
  have ids: "(r_ModuleID (upstreamDomainRelease m u), r_Owner (upstreamDomainRelease m u), r_Name (upstreamDomainRelease m u))
      \<in> identities (db_modules s)"
    using pre by (simp add: upstreamDomainRelease_def)
  have v: "v_sv (request_env g q) = g_sv g" by (simp add: request_env_def)
  have ok: "artifact_ok g bk (upstreamDomainRelease m u)" using u by (simp add: upstream_ok)
  note k = createRelease_keeps [OF g conjunct1 [OF pre] v ids ok run]
  have "safe_result g (map_sum StoreFault (\<lambda>x. x) r)"
    using k(3) artifact_ok_safe by (cases r) auto
  then show "((consistent g s1 bk \<and> (m_ID m, m_Owner m, m_Name m) \<in> identities (db_modules s1)) \<and>
        safe_result g (map_sum StoreFault (\<lambda>x. x) r)) \<and>
      ((consistent g s1 bk \<and> (m_ID m, m_Owner m, m_Name m) \<in> identities (db_modules s1)) \<and> safe_result g (Inl Unavailable))"
    using k(1,2) pre by simp
qed simp

lemma restore_keeps:
  assumes g: "service_ok g" and net: "safe_net g q" "q_net q = Some net"
    and slug: "safe_slug g (owner @ ''-'' @ name @ ''-'' @ version)"
  shows "hoare (svc_inv g) (restoreUpstreamRelease g q net owner name version) (\<lambda>r w. svc_inv g w \<and> safe_result g r)"
  unfolding restoreUpstreamRelease_def Let_def
proof (rule hoare_then [OF fetch_keeps [OF g net slug]])
  let ?Q = "\<lambda>r w. svc_inv g w \<and> safe_result g r"
  let ?slug = "owner @ ''-'' @ name @ ''-'' @ version"
  fix u0 :: upstream_release
  define u1 :: upstream_release where "u1 = (if up_Version u0 = [] then u0\<lparr>up_Version := version\<rparr> else u0)"
  define u :: upstream_release where "u = (if up_Slug u1 = [] then u1\<lparr>up_Slug := ?slug\<rparr> else u1)"
  have uri: "up_FileURI u = up_FileURI u0" by (simp add: u_def u1_def)
  let ?save = "\<lambda>m. svc_try (db_call (\<lambda>c s. CreateReleaseIfAbsent (request_env g q) c s (upstreamDomainRelease m u))) (\<lambda>r.
      case r of Inl e \<Rightarrow> if e = Conflict then db_read (\<lambda>s. GetRelease s owner name version) else svc_error e
      | Inr saved \<Rightarrow> svc_return saved)"
  have "hoare (svc_inv g) (svc_then io_call (\<lambda>_.
      svc_then (db_write (\<lambda>s. UpsertModule (request_env g q) s owner name)) (\<lambda>m.
      svc_then (?save m) (\<lambda>saved. svc_return (saved\<lparr>r_DownloadURL := r_UpstreamFileURI saved\<rparr>))))) ?Q"
    if safe: "safe_uri g (up_FileURI u)"
  proof (rule hoare_then [where R = "\<lambda>_. svc_inv g"])
    show "hoare (svc_inv g) io_call (\<lambda>_. svc_inv g)" by (rule hoare_keeps) (rule svc_inv_calls)
    fix x :: unit
    show "hoare (svc_inv g) (svc_then (db_write (\<lambda>s. UpsertModule (request_env g q) s owner name)) (\<lambda>m.
        svc_then (?save m) (\<lambda>saved. svc_return (saved\<lparr>r_DownloadURL := r_UpstreamFileURI saved\<rparr>)))) ?Q"
    proof (rule hoare_then [OF upsert_keeps [OF g]])
      fix m :: domain_module
      let ?P = "\<lambda>w. consistent g (w_db w) (w_bucket w) \<and> (m_ID m, m_Owner m, m_Name m) \<in> identities (db_modules (w_db w))"
      have save: "hoare ?P (?save m) ?Q"
      proof (rule hoare_try [OF create_upstream_keeps [OF g safe]])
        fix r :: "release outcome"
        show "hoare (\<lambda>w. ?P w \<and> safe_result g r)
            (case r of Inl e \<Rightarrow> if e = Conflict then db_read (\<lambda>s. GetRelease s owner name version) else svc_error e
             | Inr saved \<Rightarrow> svc_return saved) ?Q"
        proof (cases r)
          case (Inl e)
          have "hoare (\<lambda>w. ?P w \<and> safe_result g r) (db_read (\<lambda>s. GetRelease s owner name version)) ?Q"
            by (rule hoare_weaken [OF lookup_safe]) (auto simp: svc_inv_def)
          moreover have "hoare (\<lambda>w. ?P w \<and> safe_result g r) (svc_error e :: release svc) ?Q"
            by (rule hoare_error) (auto simp: svc_inv_def)
          ultimately show ?thesis by (simp add: Inl)
        next
          case (Inr saved)
          have "hoare (\<lambda>w. ?P w \<and> safe_result g r) (svc_return saved) ?Q"
            by (rule hoare_return) (simp add: svc_inv_def Inr)
          then show ?thesis by (simp add: Inr)
        qed
      qed
      have "hoare ?P (svc_then (?save m) (\<lambda>saved. svc_return (saved\<lparr>r_DownloadURL := r_UpstreamFileURI saved\<rparr>))) ?Q"
        by (rule hoare_then [OF save]) (auto intro!: hoare_return simp: safe_release_def)
      then show "hoare (\<lambda>w. consistent g (w_db w) (w_bucket w) \<and> (\<forall>m'. Inr m = Inr m' \<longrightarrow> m_Owner m' = owner \<and>
            m_Name m' = name \<and> (m_ID m', m_Owner m', m_Name m') \<in> identities (db_modules (w_db w))))
          (svc_then (?save m) (\<lambda>saved. svc_return (saved\<lparr>r_DownloadURL := r_UpstreamFileURI saved\<rparr>))) ?Q"
        by (rule hoare_weaken) auto
    qed (simp add: svc_inv_def)
  qed simp
  moreover have "hoare (svc_inv g) (svc_error NotFound :: release svc) ?Q" by (rule hoare_error) simp
  ultimately have "hoare (\<lambda>w. svc_inv g w \<and> (\<forall>u. Inr u0 = Inr u \<longrightarrow> safe_uri g (up_FileURI u)))
      (if up_Version u1 \<noteq> version then svc_error NotFound
       else svc_then io_call (\<lambda>_.
         svc_then (db_write (\<lambda>s. UpsertModule (request_env g q) s owner name)) (\<lambda>m.
         svc_then (?save m) (\<lambda>saved. svc_return (saved\<lparr>r_DownloadURL := r_UpstreamFileURI saved\<rparr>))))) ?Q"
    using uri by (cases "safe_uri g (up_FileURI u)") (auto elim!: hoare_weaken simp: hoare_def)
  then show "hoare (\<lambda>w. svc_inv g w \<and> (\<forall>u. Inr u0 = Inr u \<longrightarrow> safe_uri g (up_FileURI u)))
      (if up_Version (if up_Version u0 = [] then u0\<lparr>up_Version := version\<rparr> else u0) \<noteq> version then svc_error NotFound
       else svc_then io_call (\<lambda>_.
         svc_then (db_write (\<lambda>s. UpsertModule (request_env g q) s owner name)) (\<lambda>m.
         svc_then (svc_try (db_call (\<lambda>c s. CreateReleaseIfAbsent (request_env g q) c s
             (upstreamDomainRelease m
               (if up_Slug (if up_Version u0 = [] then u0\<lparr>up_Version := version\<rparr> else u0) = []
                then (if up_Version u0 = [] then u0\<lparr>up_Version := version\<rparr> else u0)\<lparr>up_Slug := ?slug\<rparr>
                else (if up_Version u0 = [] then u0\<lparr>up_Version := version\<rparr> else u0))))) (\<lambda>r.
      case r of Inl e \<Rightarrow> if e = Conflict then db_read (\<lambda>s. GetRelease s owner name version) else svc_error e
      | Inr saved \<Rightarrow> svc_return saved)) (\<lambda>saved. svc_return (saved\<lparr>r_DownloadURL := r_UpstreamFileURI saved\<rparr>))))) ?Q"
    unfolding u_def u1_def .
qed simp

section \<open>Completing\<close>

lemma hydrated_ok:
  assumes "artifact_ok g bk r" "r_Source r \<noteq> ''local''" "safe_uri g (up_FileURI u)"
  shows "artifact_ok g bk (hydrated r u)"
  using assms by (simp add: artifact_ok_def hydrated_def fallbackString_def)

lemma hydrate_keeps:
  assumes g: "service_ok g" and net: "safe_net g q" "q_net q = Some net" and up: "r_Source snapshot \<noteq> ''local''"
  shows "hoare (svc_inv g) (hydrateUpstreamRelease g q net snapshot) (\<lambda>r w. svc_inv g w \<and> safe_result g r)"
  unfolding hydrateUpstreamRelease_def Let_def
proof (rule hoare_try [OF svc_lift_hoare])
  let ?Q = "\<lambda>r w. svc_inv g w \<and> safe_result g r"
  let ?slug = "fallbackString (r_UpstreamSlug snapshot) (r_Owner snapshot @ ''-'' @ r_Name snapshot @ ''-'' @ r_Version snapshot)"
  let ?get = "db_read (\<lambda>s. GetRelease s (r_Owner snapshot) (r_Name snapshot) (r_Version snapshot))"
  let ?put = "\<lambda>u release. svc_try (db_call (\<lambda>c s. CreateRelease (request_env g q) c s (hydrated release u))) (\<lambda>r2.
      case r2 of Inr saved \<Rightarrow> svc_return saved | Inl e \<Rightarrow> svc_return (hydrated release u))"
  fix r :: "upstream_release outcome"
  have store: "hoare (svc_inv g) (svc_then io_call (\<lambda>_. svc_then ?get (\<lambda>release.
      if \<not> sameReleaseArtifact snapshot release \<or> r_UpstreamFileURI release \<noteq> [] then svc_return release
      else ?put u release))) ?Q"
    if safe: "safe_uri g (up_FileURI u)" for u
  proof (rule hoare_then [where R = "\<lambda>_. svc_inv g"])
    show "hoare (svc_inv g) io_call (\<lambda>_. svc_inv g)" by (rule hoare_keeps) (rule svc_inv_calls)
    fix x :: unit
    show "hoare (svc_inv g) (svc_then ?get (\<lambda>release.
        if \<not> sameReleaseArtifact snapshot release \<or> r_UpstreamFileURI release \<noteq> [] then svc_return release
        else ?put u release)) ?Q"
    proof (rule hoare_then [OF lookup_keeps])
      fix release :: release
      let ?P = "\<lambda>w. consistent g (w_db w) (w_bucket w) \<and> release \<in> catalog (w_db w)"
      have plain: "hoare ?P (svc_return release) ?Q"
        by (rule hoare_return) (auto simp: svc_inv_def intro: artifact_ok_safe consistentD(2))
      have saving: "hoare ?P (?put u release) ?Q" if src: "r_Source release \<noteq> ''local''"
      proof (rule hoare_try [where R = "\<lambda>r w. svc_inv g w \<and> safe_result g r \<and> safe_release g (hydrated release u)"])
        show "hoare ?P (db_call (\<lambda>c s. CreateRelease (request_env g q) c s (hydrated release u)))
            (\<lambda>r w. svc_inv g w \<and> safe_result g r \<and> safe_release g (hydrated release u))"
          unfolding svc_inv_eq CreateRelease_def
        proof (rule hoare_db_call)
          fix c s bk
          assume pre: "consistent g s bk \<and> release \<in> catalog s"
          have ok: "artifact_ok g bk (hydrated release u)"
            using pre consistentD(2) hydrated_ok [OF _ src safe] by blast
          then have safe': "safe_release g (hydrated release u)" by (rule artifact_ok_safe)
          with pre show "consistent g s bk \<and> safe_result g (Inl Unavailable) \<and> safe_release g (hydrated release u)"
            by simp
          fix c1 s1 and r :: "release result"
          assume run: "createRelease (request_env g q) c s (hydrated release u) False = ((c1, s1), r)"
          have ids: "(r_ModuleID (hydrated release u), r_Owner (hydrated release u), r_Name (hydrated release u))
              \<in> identities (db_modules s)"
            using catalog_identity pre by (simp add: hydrated_def)
          have v: "v_sv (request_env g q) = g_sv g" by (simp add: request_env_def)
          note k = createRelease_keeps [OF g conjunct1 [OF pre] v ids ok run]
          have "safe_result g (map_sum StoreFault (\<lambda>x. x) r)"
            using k(3) artifact_ok_safe by (cases r) auto
          then show "(consistent g s1 bk \<and> safe_result g (map_sum StoreFault (\<lambda>x. x) r) \<and> safe_release g (hydrated release u)) \<and>
              consistent g s1 bk \<and> safe_result g (Inl Unavailable) \<and> safe_release g (hydrated release u)"
            using k(1) safe' by simp
        qed
        fix r2 :: "release outcome"
        show "hoare (\<lambda>w. svc_inv g w \<and> safe_result g r2 \<and> safe_release g (hydrated release u))
            (case r2 of Inr saved \<Rightarrow> svc_return saved | Inl e \<Rightarrow> svc_return (hydrated release u)) ?Q"
          by (cases r2) (auto intro!: hoare_return)
      qed
      have "hoare ?P (if \<not> sameReleaseArtifact snapshot release \<or> r_UpstreamFileURI release \<noteq> [] then svc_return release
          else ?put u release) ?Q"
        using plain saving up by (auto simp: sameReleaseArtifact_def)
      then show "hoare (\<lambda>w. consistent g (w_db w) (w_bucket w) \<and> (\<forall>x. Inr release = Inr x \<longrightarrow> x \<in> catalog (w_db w) \<and>
            key_of x = (r_Owner snapshot, r_Name snapshot, r_Version snapshot)))
          (if \<not> sameReleaseArtifact snapshot release \<or> r_UpstreamFileURI release \<noteq> [] then svc_return release
           else ?put u release) ?Q"
        by (rule hoare_weaken) auto
    qed (simp add: svc_inv_def)
  qed simp
  show "hoare (\<lambda>w. svc_inv g w \<and> r = FetchRelease g net ?slug)
      (case r of
         Inl e \<Rightarrow> svc_error (HydrationFailed e)
       | Inr u \<Rightarrow> svc_then io_call (\<lambda>_. svc_then ?get (\<lambda>release.
          if \<not> sameReleaseArtifact snapshot release \<or> r_UpstreamFileURI release \<noteq> [] then svc_return release
          else ?put u release))) ?Q"
  proof (cases r)
    case (Inl e)
    have "hoare (\<lambda>w. svc_inv g w \<and> r = FetchRelease g net ?slug) (svc_error (HydrationFailed e) :: release svc) ?Q"
      by (rule hoare_error) simp
    then show ?thesis by (simp add: Inl)
  next
    case (Inr u)
    show ?thesis
    proof (cases "r = FetchRelease g net ?slug")
      case True
      then have "safe_uri g (up_FileURI u)" using net Inr unfolding safe_net_def by metis
      from store [OF this] show ?thesis unfolding Inr sum.case by (rule hoare_weaken) auto
    next
      case False
      then show ?thesis by (simp add: hoare_def)
    qed
  qed
qed

lemma complete_keeps:
  assumes g: "service_ok g" and net: "safe_net g q"
  shows "hoare (\<lambda>w. svc_inv g w \<and> safe_release g release0) (complete_release g q release0) (\<lambda>r w. svc_inv g w \<and> safe_result g r)"
proof -
  let ?Q = "\<lambda>r w. svc_inv g w \<and> safe_result g r" and ?P = "\<lambda>w. svc_inv g w \<and> safe_release g release0"
  have same: "hoare ?P (svc_return release0) ?Q" by (rule hoare_return) simp
  have hyd: "hoare ?P (hydrateUpstreamRelease g q n release0) ?Q" if "q_net q = Some n" "r_Source release0 = ''upstream''" for n
    using hydrate_keeps [OF g net that(1), of release0] that(2) by (auto elim: hoare_weaken)
  have last: "hoare (\<lambda>w. svc_inv g w \<and> safe_result g (Inr release)) (svc_return
          (if r_Source release = ''upstream'' then release\<lparr>r_DownloadURL := r_UpstreamFileURI release\<rparr>
           else with_url g release)) ?Q" for release
    by (rule hoare_return) (simp add: safe_release_def with_url_def)
  show ?thesis
    unfolding complete_release_def
  proof (rule hoare_then [where R = ?Q, OF _ last])
    show "hoare ?P (case q_net q of
          Some net \<Rightarrow>
            if r_Source release0 = ''upstream'' \<and> r_UpstreamFileURI release0 = []
            then hydrateUpstreamRelease g q net release0 else svc_return release0
        | None \<Rightarrow> svc_return release0) ?Q"
      using same hyd by (cases "q_net q") auto
  qed simp
qed

lemma GetRelease_keeps:
  assumes g: "service_ok g" and net: "safe_net g q" and slug: "safe_slug g (owner @ ''-'' @ name @ ''-'' @ version)"
  shows "hoare (svc_inv g) (svc_GetRelease g q owner name version) (\<lambda>r w. svc_inv g w \<and> safe_result g r)"
  unfolding svc_GetRelease_def
proof (rule hoare_then [where R = "\<lambda>r w. svc_inv g w \<and> safe_result g r"])
  let ?Q = "\<lambda>r w. svc_inv g w \<and> safe_result g r"
  show "hoare (svc_inv g) (svc_try (db_read (\<lambda>s. GetRelease s owner name version)) (\<lambda>r.
          case r of
            Inr release \<Rightarrow> svc_return release
          | Inl e \<Rightarrow>
              (case q_net q of
                 Some net \<Rightarrow>
                   if \<not> is_not_found e then svc_error e else restoreUpstreamRelease g q net owner name version
               | None \<Rightarrow> svc_error e))) ?Q"
  proof (rule hoare_try [OF lookup_safe])
    fix r :: "release outcome"
    have err: "hoare (\<lambda>w. svc_inv g w \<and> safe_result g r) (svc_error e :: release svc) ?Q" for e by (rule hoare_error) simp
    have rest: "hoare (\<lambda>w. svc_inv g w \<and> safe_result g r) (restoreUpstreamRelease g q n owner name version) ?Q"
      if "q_net q = Some n" for n
      using restore_keeps [OF g net that slug] by (auto elim: hoare_weaken)
    show "hoare (\<lambda>w. svc_inv g w \<and> safe_result g r)
        (case r of
            Inr release \<Rightarrow> svc_return release
          | Inl e \<Rightarrow>
              (case q_net q of
                 Some net \<Rightarrow>
                   if \<not> is_not_found e then svc_error e else restoreUpstreamRelease g q net owner name version
               | None \<Rightarrow> svc_error e)) ?Q"
    proof (cases r)
      case (Inl e)
      then show ?thesis using err rest by (cases "q_net q") auto
    next
      case (Inr release)
      then show ?thesis by (auto intro: hoare_return)
    qed
  qed
  fix x
  show "hoare (\<lambda>w. svc_inv g w \<and> safe_result g (Inr x)) (complete_release g q x) ?Q"
    using complete_keeps [OF g net, of x] by simp
qed simp

end
