(* ===== verification/JobKeeps.thy ===== *)
theory JobKeeps
  imports UpstreamKeeps
begin

text \<open>
  The remaining operations keep the invariant: releases by slug, checksums and archives, indexing, and
  the jobs that delete what is referenced by nothing.
\<close>

section \<open>Releases by slug\<close>

lemma hoare_any_error: "hoare (\<lambda>w. svc_inv g w \<and> X w) (svc_error e :: release svc) (\<lambda>r w. svc_inv g w \<and> safe_result g r)"
  by (rule hoare_error) simp

lemma restored_slug: "trim_prefix slug prefix \<noteq> slug \<Longrightarrow> prefix @ trim_prefix slug prefix = slug"
  using has_prefixE [of slug prefix] by (auto simp: trim_prefix_def split: if_splits)

definition slug_ok :: "service \<Rightarrow> string \<Rightarrow> db \<Rightarrow> bool" where
  "slug_ok g slug s =
     (safe_slug g slug \<and>
      (case GetReleaseBySlug s slug of
         Inl _ \<Rightarrow> True
       | Inr r \<Rightarrow> safe_slug g (r_Owner r @ ''-'' @ r_Name r @ ''-'' @ r_Version r)))"

lemma GetReleaseBySlug_keeps:
  assumes g: "service_ok g" and net: "safe_net g q" and slug: "safe_slug g slug"
  shows "hoare (\<lambda>w. consistent g (w_db w) (w_bucket w) \<and> slug_ok g slug (w_db w)) (svc_GetReleaseBySlug g q slug)
    (\<lambda>r w. svc_inv g w \<and> safe_result g r)"
  unfolding svc_GetReleaseBySlug_def
proof (rule hoare_try [where R = "\<lambda>r w. svc_inv g w \<and> (\<forall>x. r = Inr x \<longrightarrow> safe_slug g (r_Owner x @ ''-'' @ r_Name x @ ''-'' @ r_Version x))"])
  let ?Q = "\<lambda>r w. svc_inv g w \<and> safe_result g r"
  show "hoare (\<lambda>w. consistent g (w_db w) (w_bucket w) \<and> slug_ok g slug (w_db w)) (db_read (\<lambda>s. GetReleaseBySlug s slug))
      (\<lambda>r w. svc_inv g w \<and> (\<forall>x. r = Inr x \<longrightarrow> safe_slug g (r_Owner x @ ''-'' @ r_Name x @ ''-'' @ r_Version x)))"
    unfolding svc_inv_eq
  proof (rule hoare_db_read)
    fix s bk
    assume "consistent g s bk \<and> slug_ok g slug s"
    then show "(consistent g s bk \<and> (\<forall>x. Inl Unavailable = Inr x \<longrightarrow> safe_slug g (r_Owner x @ ''-'' @ r_Name x @ ''-'' @ r_Version x))) \<and>
        consistent g s bk \<and> (\<forall>x. map_sum StoreFault (\<lambda>x. x) (GetReleaseBySlug s slug) = Inr x \<longrightarrow>
          safe_slug g (r_Owner x @ ''-'' @ r_Name x @ ''-'' @ r_Version x))"
      by (cases "GetReleaseBySlug s slug") (auto simp: slug_ok_def)
  qed
  fix r :: "release outcome"
  let ?P = "\<lambda>w. svc_inv g w \<and> (\<forall>x. r = Inr x \<longrightarrow> safe_slug g (r_Owner x @ ''-'' @ r_Name x @ ''-'' @ r_Version x))"
  let ?restore = "\<lambda>net m. let prefix = m_Owner m @ ''-'' @ m_Name m @ ''-''; version = trim_prefix slug prefix in
      if version = [] \<or> version = slug then svc_error NotFound
      else restoreUpstreamRelease g q net (m_Owner m) (m_Name m) version"
  have restore: "hoare (svc_inv g) (?restore n m) ?Q" if n: "q_net q = Some n" for n m
  proof -
    let ?prefix = "m_Owner m @ ''-'' @ m_Name m @ ''-''"
    have "hoare (svc_inv g) (restoreUpstreamRelease g q n (m_Owner m) (m_Name m) (trim_prefix slug ?prefix)) ?Q"
      if "trim_prefix slug ?prefix \<noteq> slug"
      using restore_keeps [OF g net n, of "m_Owner m" "m_Name m" "trim_prefix slug ?prefix"] slug restored_slug [OF that] by simp
    then show ?thesis unfolding Let_def by (auto intro: hoare_error)
  qed
  show "hoare ?P (case r of
         Inr release \<Rightarrow> svc_GetRelease g q (r_Owner release) (r_Name release) (r_Version release)
       | Inl e \<Rightarrow>
           (case q_net q of
              Some net \<Rightarrow>
                if \<not> is_not_found e then svc_error e
                else svc_then (db_read (\<lambda>s. GetModuleForReleaseSlug s slug)) (?restore net)
            | None \<Rightarrow> svc_error e)) ?Q"
  proof (cases r)
    case (Inl e)
    have looked: "hoare ?P (svc_then (db_read (\<lambda>s. GetModuleForReleaseSlug s slug)) (?restore n)) ?Q" if "q_net q = Some n" for n
    proof (rule hoare_then [where R = "\<lambda>_. svc_inv g"])
      have "hoare (svc_inv g) (db_read (\<lambda>s. GetModuleForReleaseSlug s slug)) (\<lambda>_. svc_inv g)"
        by (rule hoare_keeps) (rule svc_inv_calls)
      then show "hoare ?P (db_read (\<lambda>s. GetModuleForReleaseSlug s slug)) (\<lambda>_. svc_inv g)" by (rule hoare_weaken) auto
      show "hoare (svc_inv g) (?restore n m) ?Q" for m by (rule restore [OF that])
    qed simp
    show ?thesis
    proof (cases "q_net q")
      case None
      then show ?thesis using hoare_any_error [of g "\<lambda>_. True" e] by (simp add: Inl)
    next
      case (Some n)
      then show ?thesis using hoare_any_error [of g "\<lambda>_. True" e] looked [OF Some] by (cases "is_not_found e") (simp_all add: Inl)
    qed
  next
    case (Inr release)
    show ?thesis
    proof (cases "safe_slug g (r_Owner release @ ''-'' @ r_Name release @ ''-'' @ r_Version release)")
      case True
      show ?thesis unfolding Inr sum.case by (rule hoare_weaken [OF GetRelease_keeps [OF g net True]]) auto
    next
      case False
      then show ?thesis by (simp add: Inr hoare_def)
    qed
  qed
qed

section \<open>Checksums\<close>

lemma keeps_open_archive: "keeps (svc_inv g) (openReleaseArchive g r)"
  unfolding openReleaseArchive_def Let_def by (auto split: option.split intro!: svc_keeps)

lemma consistent_checksums:
  assumes g: "service_ok g" and c: "consistent g s bk" and q: "q \<in> catalog s" "key_of q = (owner, name, version)"
    and opened: "r_StoragePath q \<noteq> [] \<Longrightarrow> path = r_StoragePath q" "OpenObject (g_backend g) path bk = Some ob"
  shows "consistent g (fst (UpdateReleaseChecksums s owner name version md5
      (g_sha256 g (ob_Body ob)) path (int (length (ob_Body ob))))) bk"
proof -
  let ?t = "fst (UpdateReleaseChecksums s owner name version md5 (g_sha256 g (ob_Body ob)) path (int (length (ob_Body ob))))"
  note inv = consistentD(1) [OF c]
  have inv1: "db_inv (g_sv g) ?t" by (rule UpdateReleaseChecksums_inv [OF inv])
  note eff = UpdateReleaseChecksums_effect [OF inv, of owner name version md5 "g_sha256 g (ob_Body ob)" path "int (length (ob_Body ob))"]
  show ?thesis
  proof (cases "?t = s")
    case True
    with c show ?thesis by simp
  next
    case False
    then obtain q' where q': "q' \<in> catalog s" "key_of q' = (owner, name, version)"
        "catalog ?t = put_release (q'\<lparr>r_MD5 := md5, r_SHA256 := g_sha256 g (ob_Body ob), r_StoragePath := path,
           r_SizeBytes := int (length (ob_Body ob))\<rparr>) (catalog s)"
      using eff(1) by blast
    have "q' = q" by (rule catalog_unique [OF inv q'(1) q(1)]) (simp add: q'(2) q(2))
    let ?q = "q\<lparr>r_MD5 := md5, r_SHA256 := g_sha256 g (ob_Body ob), r_StoragePath := path,
           r_SizeBytes := int (length (ob_Body ob))\<rparr>"
    have "artifact_ok g bk ?q"
    proof (cases "r_Source q = ''local''")
      case True
      then have "held g bk q" using consistentD(3) [OF c q(1)] by simp
      then show ?thesis
      proof (rule heldE)
        fix ob'
        assume h: "valid_identity g (r_Owner q) (r_Name q) (r_Version q)"
          "r_StoragePath q = object_path g (r_Owner q) (r_Name q) (r_Version q) (g_sha256 g (ob_Body ob'))"
          "OpenObject (g_backend g) (r_StoragePath q) bk = Some ob'"
        have p: "path = r_StoragePath q" using opened(1) held_path(2) [OF g \<open>held g bk q\<close>] by simp
        then have "ob' = ob" using opened(2) h(3) by simp
        then show ?thesis using h p True opened(2) unfolding artifact_ok_def held_def by simp
      qed
    next
      case False
      then show ?thesis using consistentD(4) [OF c q(1)] by (simp add: artifact_ok_def)
    qed
    then show ?thesis using q'(3) eff(2) unfolding \<open>q' = q\<close> by (intro consistent_put [OF g c inv1]) auto
  qed
qed

lemma checksums_keeps:
  assumes g: "service_ok g"
  shows "keeps (svc_inv g) (calculateReleaseChecksums g q snapshot)"
  unfolding calculateReleaseChecksums_def Let_def keeps_hoare
proof (rule hoare_then)
  let ?p = "releaseArchivePath snapshot"
  show "hoare (svc_inv g) (openReleaseArchive g snapshot) (\<lambda>r w. consistent g (w_db w) (w_bucket w) \<and>
      (\<forall>ob. r = Inr ob \<longrightarrow> OpenObject (g_backend g) ?p (w_bucket w) = Some ob))"
  proof (cases "?p = []")
    case True
    then show ?thesis by (simp add: openReleaseArchive_def Let_def svc_inv_eq hoare_error)
  next
    case False
    have "hoare (svc_inv g) (svc_then (bucket_read (OpenObject (g_backend g) ?p)) (\<lambda>opened.
        case opened of None \<Rightarrow> svc_error NotFound | Some ob \<Rightarrow> svc_return ob)) (\<lambda>r w. consistent g (w_db w) (w_bucket w) \<and>
      (\<forall>ob. r = Inr ob \<longrightarrow> OpenObject (g_backend g) ?p (w_bucket w) = Some ob))"
    proof (rule hoare_then [where R = "\<lambda>r w. consistent g (w_db w) (w_bucket w) \<and>
        (\<forall>x. r = Inr x \<longrightarrow> OpenObject (g_backend g) ?p (w_bucket w) = x)"])
      show "hoare (svc_inv g) (bucket_read (OpenObject (g_backend g) ?p)) (\<lambda>r w. consistent g (w_db w) (w_bucket w) \<and>
          (\<forall>x. r = Inr x \<longrightarrow> OpenObject (g_backend g) ?p (w_bucket w) = x))"
        unfolding svc_inv_eq by (rule hoare_bucket_read) simp
      show "hoare (\<lambda>w. consistent g (w_db w) (w_bucket w) \<and> (\<forall>y. Inr x = Inr y \<longrightarrow> OpenObject (g_backend g) ?p (w_bucket w) = y))
          (case x of None \<Rightarrow> svc_error NotFound | Some ob \<Rightarrow> svc_return ob)
          (\<lambda>r w. consistent g (w_db w) (w_bucket w) \<and> (\<forall>ob. r = Inr ob \<longrightarrow> OpenObject (g_backend g) ?p (w_bucket w) = Some ob))" for x
        by (cases x) (auto intro!: hoare_error hoare_return)
    qed simp
    then show ?thesis using False by (simp add: openReleaseArchive_def Let_def)
  qed
  fix ob :: stored_object
  let ?release = "snapshot\<lparr>r_MD5 := g_md5 g (ob_Body ob), r_SHA256 := g_sha256 g (ob_Body ob),
             r_SizeBytes := int (length (ob_Body ob)), r_StoragePath := ?p\<rparr>"
  let ?O = "\<lambda>w. consistent g (w_db w) (w_bucket w) \<and> OpenObject (g_backend g) ?p (w_bucket w) = Some ob"
  let ?get = "db_read (\<lambda>s. GetRelease s (r_Owner ?release) (r_Name ?release) (r_Version ?release))"
  let ?update = "\<lambda>current. if \<not> sameReleaseArtifact snapshot current then svc_return current
              else
                svc_then (db_write (\<lambda>s. UpdateReleaseChecksums s (r_Owner ?release) (r_Name ?release) (r_Version ?release)
                    (r_MD5 ?release) (r_SHA256 ?release) (r_StoragePath ?release) (r_SizeBytes ?release))) (\<lambda>_.
                  svc_return ?release)"
  have update: "hoare (\<lambda>w. ?O w \<and> current \<in> catalog (w_db w) \<and> key_of current = (r_Owner snapshot, r_Name snapshot, r_Version snapshot))
      (?update current) (\<lambda>_. svc_inv g)" for current
  proof (cases "sameReleaseArtifact snapshot current")
    case False
    then show ?thesis by (auto simp: svc_inv_def intro: hoare_return)
  next
    case True
    then have path: "r_StoragePath current \<noteq> [] \<Longrightarrow> ?p = r_StoragePath current"
      by (simp add: sameReleaseArtifact_def releaseArchivePath_def)
    have "hoare (\<lambda>w. ?O w \<and> current \<in> catalog (w_db w) \<and> key_of current = (r_Owner snapshot, r_Name snapshot, r_Version snapshot))
        (db_write (\<lambda>s. UpdateReleaseChecksums s (r_Owner ?release) (r_Name ?release) (r_Version ?release)
                    (r_MD5 ?release) (r_SHA256 ?release) (r_StoragePath ?release) (r_SizeBytes ?release))) (\<lambda>_. svc_inv g)"
      unfolding svc_inv_eq
    proof (rule hoare_db_write)
      fix s bk s1 and r :: "unit result"
      assume pre: "(consistent g s bk \<and> OpenObject (g_backend g) ?p bk = Some ob) \<and> current \<in> catalog s \<and>
          key_of current = (r_Owner snapshot, r_Name snapshot, r_Version snapshot)"
        and run: "UpdateReleaseChecksums s (r_Owner ?release) (r_Name ?release) (r_Version ?release)
                    (r_MD5 ?release) (r_SHA256 ?release) (r_StoragePath ?release) (r_SizeBytes ?release) = (s1, r)"
      then show "consistent g s1 bk \<and> consistent g s1 bk"
        using consistent_checksums [OF g _ _ _ path, of s bk "r_Owner snapshot" "r_Name snapshot" "r_Version snapshot" ob "g_md5 g (ob_Body ob)"]
        by simp
    qed simp
    then have "hoare (\<lambda>w. ?O w \<and> current \<in> catalog (w_db w) \<and> key_of current = (r_Owner snapshot, r_Name snapshot, r_Version snapshot))
        (svc_then (db_write (\<lambda>s. UpdateReleaseChecksums s (r_Owner ?release) (r_Name ?release) (r_Version ?release)
                    (r_MD5 ?release) (r_SHA256 ?release) (r_StoragePath ?release) (r_SizeBytes ?release))) (\<lambda>_.
                  svc_return ?release)) (\<lambda>_. svc_inv g)"
      by (rule hoare_then) (auto intro: hoare_return)
    then show ?thesis using True by simp
  qed
  have got: "hoare ?O ?get (\<lambda>r w. ?O w \<and> (\<forall>x. r = Inr x \<longrightarrow> x \<in> catalog (w_db w) \<and>
      key_of x = (r_Owner snapshot, r_Name snapshot, r_Version snapshot)))"
  proof (rule hoare_db_read)
    fix s bk
    assume "consistent g s bk \<and> OpenObject (g_backend g) ?p bk = Some ob"
    then show "((consistent g s bk \<and> OpenObject (g_backend g) ?p bk = Some ob) \<and> (\<forall>x. Inl Unavailable = Inr x \<longrightarrow> x \<in> catalog s \<and>
          key_of x = (r_Owner snapshot, r_Name snapshot, r_Version snapshot))) \<and>
        (consistent g s bk \<and> OpenObject (g_backend g) ?p bk = Some ob) \<and>
        (\<forall>x. map_sum StoreFault (\<lambda>x. x) (GetRelease s (r_Owner ?release) (r_Name ?release) (r_Version ?release)) = Inr x \<longrightarrow>
          x \<in> catalog s \<and> key_of x = (r_Owner snapshot, r_Name snapshot, r_Version snapshot))"
      using GetRelease_catalog(1) [OF consistentD(1), of g s bk] by simp
  qed
  have rest: "hoare ?O (svc_then io_call (\<lambda>_. svc_then ?get ?update)) (\<lambda>_. svc_inv g)"
  proof (rule hoare_then [where R = "\<lambda>_. ?O"], rule hoare_io)
    show "hoare ?O (svc_then ?get ?update) (\<lambda>_. svc_inv g)" for x :: unit
    proof (rule hoare_then [OF got])
      show "hoare (\<lambda>w. ?O w \<and> (\<forall>x. Inr current = Inr x \<longrightarrow> x \<in> catalog (w_db w) \<and>
          key_of x = (r_Owner snapshot, r_Name snapshot, r_Version snapshot))) (?update current) (\<lambda>_. svc_inv g)" for current
        by (rule hoare_weaken [OF update]) auto
    qed (simp add: svc_inv_def)
  qed (simp_all add: svc_inv_def)
  show "hoare (\<lambda>w. consistent g (w_db w) (w_bucket w) \<and> (\<forall>x. Inr ob = Inr x \<longrightarrow> OpenObject (g_backend g) ?p (w_bucket w) = Some x))
     (if r_Source ?release = ''upstream'' \<and>
             ((r_SHA256 snapshot \<noteq> [] \<and> \<not> g_equal_fold g (r_SHA256 snapshot) (r_SHA256 ?release)) \<or>
              (0 < r_SizeBytes snapshot \<and> r_SizeBytes snapshot \<noteq> r_SizeBytes ?release))
      then svc_error (HydrationFailed IntegrityMismatch)
      else svc_then io_call (\<lambda>_. svc_then ?get ?update)) (\<lambda>_. svc_inv g)"
  proof -
    have "hoare ?O (svc_error (HydrationFailed IntegrityMismatch) :: release svc) (\<lambda>_. svc_inv g)"
      by (rule hoare_error) (simp add: svc_inv_def)
    with rest have "hoare ?O (if X then svc_error (HydrationFailed IntegrityMismatch)
        else svc_then io_call (\<lambda>_. svc_then ?get ?update)) (\<lambda>_. svc_inv g)" for X
      by (cases X) simp_all
    then show ?thesis by (rule hoare_weaken) auto
  qed
qed (simp add: svc_inv_def)

lemma ensure_rounds_keeps:
  assumes g: "service_ok g" and uri: "safe_uri g (r_UpstreamFileURI release)" "r_UpstreamFileURI release \<noteq> []"
  shows "keeps (svc_inv g) (ensure_rounds n g q net release)"
proof (induction n)
  case 0
  then show ?case by (simp add: svc_keeps)
next
  case (Suc n)
  have lease: "keeps (svc_inv g) (WithCachedArtifactLease g q p (calculateReleaseChecksums g q release))" for p
    unfolding WithCachedArtifactLease_def by (rule si.keeps_with_lease [OF checksums_keeps [OF g]])
  have artifact: "keeps (svc_inv g) (if r_SHA256 release \<noteq> [] \<and> 0 < r_SizeBytes release
      then EnsureArtifactIntegrity g q net (r_UpstreamFileURI release) (r_SHA256 release) (r_SizeBytes release)
      else EnsureArtifact g q net (r_UpstreamFileURI release))"
    using integrity_keeps [OF g uri] si.keeps_EnsureArtifact [OF refl] by simp
  show ?case
    unfolding ensure_rounds.simps
  proof (rule keeps_try [OF artifact])
    fix r :: "unit outcome"
    show "keeps (svc_inv g) (case r of Inl e \<Rightarrow> svc_error (HydrationFailed e)
        | Inr _ \<Rightarrow>
            svc_try (WithCachedArtifactLease g q (releaseArchivePath release) (calculateReleaseChecksums g q release)) (\<lambda>r2.
              case r2 of
                Inl e \<Rightarrow> if is_not_found e then ensure_rounds n g q net release else svc_error e
              | Inr verified \<Rightarrow> svc_return verified))"
      by (cases r) (auto split: sum.split intro!: keeps_try [OF lease] keeps_simple Suc)
  qed
qed

lemma EnsureReleaseChecksums_keeps:
  assumes g: "service_ok g" and r: "safe_release g release"
  shows "keeps (svc_inv g) (EnsureReleaseChecksums g q release)"
proof -
  have up: "keeps (svc_inv g) (ensure_upstream g q x)"
    if "r_UpstreamFileURI x = r_UpstreamFileURI release" "r_Source release = ''upstream''" for x
    using r that unfolding ensure_upstream_def
    by (auto split: option.split intro!: keeps_simple ensure_rounds_keeps [OF g] simp: safe_release_def)
  show ?thesis
    unfolding EnsureReleaseChecksums_def
    by (auto split: sum.split intro!: keeps_try si.keeps_bucket_read keeps_simple up checksums_keeps [OF g])
qed

lemma keeps_safe_then:
  assumes "hoare P m (\<lambda>r w. svc_inv g w \<and> safe_result g r)" "\<And>x. safe_release g x \<Longrightarrow> keeps (svc_inv g) (f x)"
  shows "hoare P (svc_then m f) (\<lambda>_. svc_inv g)"
proof (rule hoare_then [OF assms(1)])
  fix x
  show "hoare (\<lambda>w. svc_inv g w \<and> safe_result g (Inr x)) (f x) (\<lambda>_. svc_inv g)"
    using assms(2) [of x] unfolding keeps_hoare by (cases "safe_release g x") (simp_all add: hoare_def)
qed simp

lemma release_reads_keep:
  assumes g: "service_ok g" and net: "safe_net g q" and slug: "safe_slug g (owner @ ''-'' @ name @ ''-'' @ version)"
  shows "keeps (svc_inv g) (svc_GetRelease g q owner name version)"
    "keeps (svc_inv g) (OpenReleaseArchive g q owner name version)"
    "keeps (svc_inv g) (ReadReleaseFile g q owner name version file)"
    "keeps (svc_inv g) (svc_then (svc_GetRelease g q owner name version) (EnsureReleaseChecksums g q))"
proof -
  note got = GetRelease_keeps [OF g net slug]
  show "keeps (svc_inv g) (svc_GetRelease g q owner name version)"
    unfolding keeps_hoare by (rule hoare_weaken [OF got]) auto
  show "keeps (svc_inv g) (OpenReleaseArchive g q owner name version)"
    unfolding OpenReleaseArchive_def keeps_hoare by (rule keeps_safe_then [OF got keeps_open_archive])
  show "keeps (svc_inv g) (svc_then (svc_GetRelease g q owner name version) (EnsureReleaseChecksums g q))"
    unfolding keeps_hoare by (rule keeps_safe_then [OF got EnsureReleaseChecksums_keeps [OF g]])
  show "keeps (svc_inv g) (ReadReleaseFile g q owner name version file)"
    unfolding ReadReleaseFile_def keeps_hoare
  proof (rule keeps_safe_then [OF got])
    fix x
    assume x: "safe_release g x"
    have last: "keeps (svc_inv g) (case extractArchiveFile (g_untar g (ob_Body ob)) file of
         Inl FileNotFound \<Rightarrow> svc_error NotFound
       | Inl e \<Rightarrow> svc_error (Failed ''read archive'')
       | Inr body \<Rightarrow> svc_return body)" for ob :: stored_object
      by (auto split: sum.split archive_error.split intro: keeps_simple)
    show "keeps (svc_inv g) (svc_then (if r_Source x = ''upstream'' then EnsureReleaseChecksums g q x else svc_return x)
        (\<lambda>release. svc_then (openReleaseArchive g release) (\<lambda>ob.
           case extractArchiveFile (g_untar g (ob_Body ob)) file of
         Inl FileNotFound \<Rightarrow> svc_error NotFound
       | Inl e \<Rightarrow> svc_error (Failed ''read archive'')
       | Inr body \<Rightarrow> svc_return body)))"
      by (intro keeps_then keeps_if EnsureReleaseChecksums_keeps [OF g x] keeps_simple keeps_open_archive last)
  qed
qed

section \<open>Indexing\<close>

lemma safe_uri_Nil [simp]: "safe_uri g []"
  by (simp add: safe_uri_def)

lemma index_keeps:
  assumes g: "service_ok g"
  shows "keeps (svc_inv g) (IndexUpstreamModule g q u)"
proof -
  let ?I = "\<lambda>m w. consistent g (w_db w) (w_bucket w) \<and> (m_ID m, m_Owner m, m_Name m) \<in> identities (db_modules (w_db w))"
  have version: "keeps (?I m) (index_version g q m ref)" for m :: domain_module and ref
  proof -
    let ?u = "no_upstream_release\<lparr>
             up_Slug := fallbackString (rf_Slug ref) (m_Owner m @ ''-'' @ m_Name m @ ''-'' @ rf_Version ref),
             up_Version := rf_Version ref\<rparr>"
    have "hoare (?I m) (createUpstreamReleaseIfAbsent g q (upstreamDomainRelease m ?u)) (\<lambda>_. ?I m)"
      unfolding createUpstreamReleaseIfAbsent_def
    proof (rule hoare_try [OF create_upstream_keeps [OF g]])
      show "safe_uri g (up_FileURI ?u)" by (simp add: no_upstream_release_def)
      fix r :: "release outcome"
      show "hoare (\<lambda>w. ?I m w \<and> safe_result g r)
          (case r of Inl e \<Rightarrow> if e = Conflict then svc_return () else svc_error e | Inr _ \<Rightarrow> svc_return ()) (\<lambda>_. ?I m)"
        by (cases r) (auto intro!: hoare_return hoare_error)
    qed
    then have create: "keeps (?I m) (createUpstreamReleaseIfAbsent g q (upstreamDomainRelease m ?u))"
      unfolding keeps_hoare .
    have read: "keeps (?I m) (isDeletedUpstreamRelease owner name v)" for owner name v
      unfolding isDeletedUpstreamRelease_def keeps_hoare by (rule hoare_db_read) simp
    show ?thesis
      unfolding index_version_def by (intro keeps_then read keeps_if keeps_simple create)
  qed
  have refs: "keeps (?I m) (index_refs g q m slug rs)" for m :: domain_module and slug rs
    by (induction rs) (auto simp: Let_def intro!: keeps_simple keeps_then version)
  show ?thesis
    unfolding IndexUpstreamModule_def Let_def keeps_hoare
  proof -
    let ?cur = "if rf_Version (um_CurrentRelease u) = [] then ReleaseVersionFromSlug (um_Slug u) (rf_Slug (um_CurrentRelease u))
        else rf_Version (um_CurrentRelease u)"
    let ?tail = "\<lambda>m. svc_then (index_refs g q m (um_Slug u) (um_Releases u)) (\<lambda>_.
               if ?cur = [] then svc_return ()
               else svc_then (index_version g q m ((um_CurrentRelease u)\<lparr>rf_Version := ?cur\<rparr>)) (\<lambda>_. svc_return ()))"
    have tail: "keeps (?I m) (?tail m)" for m
      by (intro keeps_then refs keeps_if keeps_simple version)
    have "hoare (svc_inv g) (svc_then io_call (\<lambda>_.
        svc_then (db_write (\<lambda>s. UpsertModule (request_env g q) s (um_Owner u) (um_Name u))) ?tail)) (\<lambda>_. svc_inv g)"
    proof (rule hoare_then [where R = "\<lambda>_. svc_inv g"])
      show "hoare (svc_inv g) io_call (\<lambda>_. svc_inv g)" by (rule hoare_keeps) (rule svc_inv_calls)
      fix x :: unit
      show "hoare (svc_inv g) (svc_then (db_write (\<lambda>s. UpsertModule (request_env g q) s (um_Owner u) (um_Name u))) ?tail)
          (\<lambda>_. svc_inv g)"
      proof (rule hoare_then [OF upsert_keeps [OF g]])
        fix m
        show "hoare (\<lambda>w. consistent g (w_db w) (w_bucket w) \<and> (\<forall>m'. Inr m = Inr m' \<longrightarrow> m_Owner m' = um_Owner u \<and>
            m_Name m' = um_Name u \<and> (m_ID m', m_Owner m', m_Name m') \<in> identities (db_modules (w_db w)))) (?tail m) (\<lambda>_. svc_inv g)"
          by (rule hoare_weaken [OF tail [unfolded keeps_hoare]]) (auto simp: svc_inv_def)
      qed (simp add: svc_inv_def)
    qed simp
    then show "hoare (svc_inv g)
        (if \<not> ValidModuleOwner (um_Owner u) then svc_error (Failed ''invalid upstream module owner'')
         else if \<not> ValidModuleName (um_Name u) then svc_error (Failed ''invalid upstream module name'')
         else svc_then io_call (\<lambda>_.
           svc_then (db_write (\<lambda>s. UpsertModule (request_env g q) s (um_Owner u) (um_Name u))) ?tail)) (\<lambda>_. svc_inv g)"
      by (auto intro: hoare_error)
  qed
qed

lemma sync_keeps:
  assumes g: "service_ok g"
  shows "keeps (svc_inv g) (SyncUpstreamModule g q owner name)"
  unfolding SyncUpstreamModule_def
  by (auto split: option.split intro!: keeps_simple keeps_then si.keeps_lift index_keeps [OF g])

lemma refresh_keeps:
  assumes g: "service_ok g"
  shows "keeps (svc_inv g) (RefreshCachedUpstreamModules g q limit)"
proof -
  have mark: "keeps (svc_inv g) (db_write (\<lambda>s. MarkUpstreamModuleRefreshAttempt s owner name at))" for owner name at
    by (rule keeps_removing_write [OF g]) (simp add: MarkUpstream_removes MarkUpstream_inv)
  have all: "keeps (svc_inv g) (refresh_modules g q errs ms)" for errs ms
    by (induction ms arbitrary: errs) (auto intro!: keeps_simple keeps_try sync_keeps [OF g] mark)
  show ?thesis
    unfolding RefreshCachedUpstreamModules_def
    by (auto split: list.split intro!: keeps_simple keeps_then svc_inv_calls all)
qed

section \<open>Jobs\<close>

lemma listed_key:
  assumes "consistent g s bk" "x \<in> set (ListObjectMetadata b prefix bk)"
  shows "lo_Path x \<in> range (object_key (g_backend g))"
proof -
  have "lo_Path x \<in> fst ` set bk" using assms(2) by (force simp: ListObjectMetadata_def)
  then show ?thesis using consistentD(6) [OF assms(1)] unfolding own_keys_def by blast
qed

text \<open>A listed object is deleted only while nothing references it.\<close>

lemma delete_unreferenced_keeps:
  assumes g: "service_ok g" and p: "p \<in> range (object_key (g_backend g))"
    and kept: "keeps (svc_inv g) kept" "keeps (svc_inv g) other" and gone: "\<And>x. keeps (svc_inv g) (gone x)"
  shows "keeps (svc_inv g) (svc_then (db_read (\<lambda>s. Inr (IsArtifactReferenced s p))) (\<lambda>referenced.
     if referenced then kept else if b then other else svc_then (delete_object g p) gone))"
  unfolding keeps_hoare
proof (rule hoare_then [where R = "\<lambda>r w. consistent g (w_db w) (w_bucket w) \<and>
      (r = Inr False \<longrightarrow> unused (w_db w) (object_key (g_backend g) p))"])
  let ?U = "\<lambda>w. consistent g (w_db w) (w_bucket w) \<and> unused (w_db w) (object_key (g_backend g) p)"
  show "hoare (svc_inv g) (db_read (\<lambda>s. Inr (IsArtifactReferenced s p)))
      (\<lambda>r w. consistent g (w_db w) (w_bucket w) \<and> (r = Inr False \<longrightarrow> unused (w_db w) (object_key (g_backend g) p)))"
    unfolding svc_inv_eq by (rule hoare_db_read) (use listed_unused [OF g _ p] in auto)
  fix referenced
  have del: "hoare ?U (delete_object g p) (\<lambda>_. svc_inv g)"
    unfolding delete_object_def svc_inv_eq
    by (rule hoare_bucket_call) (use consistent_delete [OF g] in auto)
  have deleted: "hoare ?U (svc_then (delete_object g p) gone) (\<lambda>_. svc_inv g)"
    by (rule hoare_then [OF del]) (use gone in \<open>auto simp: keeps_hoare\<close>)
  have "hoare ?U other (\<lambda>_. svc_inv g)"
    by (rule hoare_weaken [OF kept(2) [unfolded keeps_hoare]]) (simp_all add: svc_inv_def)
  moreover have "hoare (\<lambda>w. consistent g (w_db w) (w_bucket w)) kept (\<lambda>_. svc_inv g)"
    using kept(1) by (simp add: keeps_hoare svc_inv_eq)
  ultimately show "hoare (\<lambda>w. consistent g (w_db w) (w_bucket w) \<and> (Inr referenced = Inr False \<longrightarrow> unused (w_db w) (object_key (g_backend g) p)))
      (if referenced then kept else if b then other else svc_then (delete_object g p) gone) (\<lambda>_. svc_inv g)"
    using deleted by (cases referenced; cases b) simp_all
qed (simp add: svc_inv_def)

lemma repair_keeps:
  assumes g: "service_ok g" and p: "p \<in> range (object_key (g_backend g))"
  shows "keeps (svc_inv g) (repairOrphanArtifact g prefix p ob startedAt)"
proof (cases "reconciliationObjectIdentity prefix p")
  case None
  then show ?thesis by (simp add: repairOrphanArtifact_def keeps_simple)
next
  case (Some on)
  obtain owner name where on: "on = (owner, name)" by fastforce
  show ?thesis
    unfolding repairOrphanArtifact_def Some on option.case prod.case
  proof (rule keeps_then [OF svc_inv_calls(1)])
    show "keeps (svc_inv g) (svc_then (db_read (\<lambda>s. Inr (IsArtifactReferenced s p))) (\<lambda>referenced.
        if referenced then svc_return (False, True)
        else if lo_UpdatedAt ob = zero_time \<or> \<not> lo_UpdatedAt ob < startedAt then svc_return (False, False)
        else svc_then (delete_object g p) (\<lambda>_. svc_return (True, False))))" for x :: unit
      by (rule delete_unreferenced_keeps [OF g p]) (rule keeps_simple)+
  qed
qed

lemma repair_orphans_keeps:
  assumes g: "service_ok g" and "\<forall>ob \<in> set obs. lo_Path ob \<in> range (object_key (g_backend g))"
  shows "keeps (svc_inv g) (repair_orphans g prefix startedAt acc obs)"
  using assms(2)
proof (induction obs arbitrary: acc)
  case Nil
  then show ?case by (simp add: keeps_simple)
next
  case (Cons ob obs)
  obtain remaining deleted where acc: "acc = (remaining, deleted)" by fastforce
  have one: "keeps (svc_inv g) (repairOrphanArtifact g prefix (lo_Path ob) ob startedAt)"
    using Cons.prems by (intro repair_keeps [OF g]) simp
  have ih: "keeps (svc_inv g) (repair_orphans g prefix startedAt acc' obs)" for acc' using Cons by simp
  show ?case unfolding acc repair_orphans.simps by (rule keeps_then [OF one]) (simp add: ih split: prod.split)
qed

lemma check_artifacts_keeps: "keeps (svc_inv g) (check_artifacts g acc rs)"
proof (induction rs arbitrary: acc)
  case Nil
  then show ?case by (simp add: keeps_simple)
next
  case (Cons r rs)
  obtain missing corrupt where acc: "acc = (missing, corrupt)" by fastforce
  have one: "keeps (svc_inv g) (check_artifact g r)"
    unfolding check_artifact_def by (intro keeps_then si.keeps_bucket_read keeps_simple)
  show ?case unfolding acc check_artifacts.simps by (rule keeps_then [OF one]) (simp add: Cons)
qed

text \<open>What is listed stays a list of keys.\<close>

lemma list_hoare:
  "hoare (svc_inv g) (bucket_read (ListObjectMetadata (g_backend g) prefix))
    (\<lambda>r w. svc_inv g w \<and> (\<forall>obs. r = Inr obs \<longrightarrow> (\<forall>ob \<in> set obs. lo_Path ob \<in> range (object_key (g_backend g)))))"
  unfolding svc_inv_eq by (rule hoare_bucket_read) (auto dest: listed_key)

lemma hoare_listed:
  assumes "\<And>obs. \<forall>ob \<in> set obs. lo_Path ob \<in> range (object_key (g_backend g)) \<Longrightarrow> keeps (svc_inv g) (f obs)"
  shows "hoare (\<lambda>w. svc_inv g w \<and> (\<forall>obs'. Inr obs = (Inr obs' :: listed_object list outcome) \<longrightarrow>
      (\<forall>ob \<in> set obs'. lo_Path ob \<in> range (object_key (g_backend g))))) (f obs) (\<lambda>_. svc_inv g)"
  using assms [of obs] unfolding keeps_hoare
  by (cases "\<forall>ob \<in> set obs. lo_Path ob \<in> range (object_key (g_backend g))") (auto simp: hoare_def)

lemma reconcile_keeps:
  assumes g: "service_ok g"
  shows "keeps (svc_inv g) (ReconcileArtifacts g q repair)"
  unfolding ReconcileArtifacts_def
proof (rule keeps_then)
  show "keeps (svc_inv g) (db_read (\<lambda>s. Inr (ListArtifactReleases s)))" by (rule svc_inv_calls)
  fix releases
  let ?f = "\<lambda>objects. svc_then (check_artifacts g ([], []) releases) (\<lambda>(missing, corrupt).
       let orphans = filter (\<lambda>ob. lo_Path ob \<notin> ar_StoragePath ` set releases) objects;
           report = \<lparr>rn_Checked = length releases, rn_MissingObjects = sort missing, rn_CorruptObjects = sort corrupt,
             rn_OrphanObjects = sort (map lo_Path orphans), rn_DeletedOrphans = []\<rparr>
       in if \<not> repair then svc_return report
          else svc_then (repair_orphans g (reconcile_prefix g) (q_now q) ([], []) (sort_key lo_Path orphans))
            (\<lambda>(remaining, deleted).
              svc_return (report\<lparr>rn_OrphanObjects := remaining, rn_DeletedOrphans := deleted\<rparr>)))"
  have "keeps (svc_inv g) (?f objects)" if "\<forall>ob \<in> set objects. lo_Path ob \<in> range (object_key (g_backend g))" for objects
  proof (rule keeps_then [OF check_artifacts_keeps])
    fix mc :: "string list \<times> string list"
    let ?orphans = "filter (\<lambda>ob. lo_Path ob \<notin> ar_StoragePath ` set releases) objects"
    have "keeps (svc_inv g) (repair_orphans g (reconcile_prefix g) (q_now q) ([], []) (sort_key lo_Path ?orphans))"
      using that by (intro repair_orphans_keeps [OF g]) simp
    then show "keeps (svc_inv g) (case mc of (missing, corrupt) \<Rightarrow>
       let orphans = filter (\<lambda>ob. lo_Path ob \<notin> ar_StoragePath ` set releases) objects;
           report = \<lparr>rn_Checked = length releases, rn_MissingObjects = sort missing, rn_CorruptObjects = sort corrupt,
             rn_OrphanObjects = sort (map lo_Path orphans), rn_DeletedOrphans = []\<rparr>
       in if \<not> repair then svc_return report
          else svc_then (repair_orphans g (reconcile_prefix g) (q_now q) ([], []) (sort_key lo_Path orphans))
            (\<lambda>(remaining, deleted).
              svc_return (report\<lparr>rn_OrphanObjects := remaining, rn_DeletedOrphans := deleted\<rparr>)))"
      unfolding Let_def by (cases mc) (auto split: prod.split intro!: keeps_simple keeps_then)
  qed
  then show "keeps (svc_inv g) (svc_then (bucket_read (ListObjectMetadata (g_backend g) (reconcile_prefix g))) ?f)"
    unfolding keeps_hoare by (intro hoare_then [OF list_hoare] hoare_listed) (auto simp: keeps_hoare)
qed

lemma prune_keeps:
  assumes g: "service_ok g"
  shows "keeps (svc_inv g) (PruneUpstreamArtifactCache g q cutoff)"
proof -
  have one: "keeps (svc_inv g) (prune_object g p)" if "p \<in> range (object_key (g_backend g))" for p
  proof -
    have "keeps (svc_inv g) (svc_then (db_read (\<lambda>s. Inr (IsArtifactReferenced s p))) (\<lambda>referenced.
        if referenced then svc_return False else if False then svc_return False
        else svc_then (delete_object g p) (\<lambda>_. svc_return True)))"
      by (rule delete_unreferenced_keeps [OF g that]) (rule keeps_simple)+
    then show ?thesis unfolding prune_object_def if_False .
  qed
  have lease: "keeps (svc_inv g) (case q_net q of
             Some _ \<Rightarrow> WithCachedArtifactLease g q p (prune_object g p) | None \<Rightarrow> prune_object g p)"
    if "p \<in> range (object_key (g_backend g))" for p
    using one [OF that] by (auto simp: WithCachedArtifactLease_def split: option.split intro: si.keeps_with_lease)
  have all: "keeps (svc_inv g) (prune_all g q cutoff acc obs)"
    if "\<forall>ob \<in> set obs. lo_Path ob \<in> range (object_key (g_backend g))" for acc obs
    using that
  proof (induction obs arbitrary: acc)
    case Nil
    then show ?case by (simp add: keeps_simple)
  next
    case (Cons ob obs)
    obtain res errs where acc: "acc = (res, errs)" by fastforce
    have l: "keeps (svc_inv g) (case q_net q of
             Some _ \<Rightarrow> WithCachedArtifactLease g q (lo_Path ob) (prune_object g (lo_Path ob)) | None \<Rightarrow> prune_object g (lo_Path ob))"
      using Cons.prems by (intro lease) simp
    have ih: "keeps (svc_inv g) (prune_all g q cutoff acc' obs)" for acc' using Cons by simp
    show ?case
      unfolding acc prune_all.simps Let_def
      by (intro keeps_if keeps_try [OF l] ih) (auto split: sum.split intro: ih)
  qed
  show ?thesis
    unfolding PruneUpstreamArtifactCache_def keeps_hoare
  proof (rule hoare_try [OF list_hoare])
    fix r :: "listed_object list outcome"
    let ?zero = "\<lparr>pr_Scanned = 0, pr_Deleted = 0, pr_Failed = 0\<rparr>"
    show "hoare (\<lambda>w. svc_inv g w \<and> (\<forall>obs. r = Inr obs \<longrightarrow> (\<forall>ob \<in> set obs. lo_Path ob \<in> range (object_key (g_backend g)))))
        (case r of Inl e \<Rightarrow> svc_return (?zero, [e]) | Inr objects \<Rightarrow> prune_all g q cutoff (?zero, []) objects) (\<lambda>_. svc_inv g)"
    proof (cases r)
      case (Inl e)
      then show ?thesis by (auto intro: hoare_return)
    next
      case (Inr obs)
      then show ?thesis using hoare_listed [where f = "prune_all g q cutoff (?zero, [])", OF all] by simp
    qed
  qed
qed

section \<open>Readiness\<close>

lemma probe_keeps:
  assumes g: "service_ok g"
  shows "keeps (svc_inv g) (probe_storage g q)"
  unfolding probe_storage_def keeps_hoare
proof (rule hoare_then)
  let ?p = "probe_path g q"
  let ?up = "\<lambda>bk. case UploadReaderIfAbsent (g_backend g) (q_now q) ?p ''application/octet-stream'' ''ready'' bk of
           (bk1, created) \<Rightarrow> (bk1, Inr created)"
  let ?U = "\<lambda>w. consistent g (w_db w) (w_bucket w) \<and> unused (w_db w) (object_key (g_backend g) ?p)"
  show "hoare (svc_inv g) (bucket_call ?up) (\<lambda>r w. consistent g (w_db w) (w_bucket w) \<and>
      (r = Inr True \<longrightarrow> unused (w_db w) (object_key (g_backend g) ?p)))"
    unfolding svc_inv_eq
  proof (rule hoare_bucket_call)
    fix s bk bk1 and r :: "bool outcome"
    assume c: "consistent g s bk" and up: "?up bk = (bk1, r)"
    obtain created where u: "UploadReaderIfAbsent (g_backend g) (q_now q) ?p ''application/octet-stream'' ''ready'' bk = (bk1, created)"
        "r = Inr created"
      using up by (auto split: prod.splits)
    have "unused s (object_key (g_backend g) ?p)" if created
    proof -
      have none: "OpenObject (g_backend g) ?p bk = None"
        using os.upload_reports [of "g_backend g" ?p "(q_now q, ''application/octet-stream'', ''ready'')" bk] u(1) that by simp
      show ?thesis
        unfolding unused_def
      proof (intro ballI impI notI)
        fix x
        assume x: "x \<in> catalog s" "r_Source x = ''local''" "r_StoragePath x = object_key (g_backend g) ?p"
        have h: "held g bk x" by (rule consistentD(3) [OF c x(1,2)])
        have "object_key (g_backend g) (r_StoragePath x) = object_key (g_backend g) ?p"
          using held_path(1) [OF g h] x(3) by simp
        then have "OpenObject (g_backend g) (r_StoragePath x) bk = None" using none os.same_key by metis
        with h show False by (simp add: held_def)
      qed
    qed
    then show "(consistent g s bk1 \<and> (r = Inr True \<longrightarrow> unused s (object_key (g_backend g) ?p))) \<and>
        consistent g s bk1 \<and> (Inl Unavailable = Inr True \<longrightarrow> unused s (object_key (g_backend g) ?p))"
      using consistent_upload [OF c, of "q_now q" ?p "''application/octet-stream''" "''ready''"] u by simp
  qed simp
  fix created
  have open_p: "hoare ?U (bucket_read (OpenObject (g_backend g) ?p)) (\<lambda>_. ?U)" by (rule hoare_bucket_read) simp
  have del: "hoare ?U (delete_object g ?p) (\<lambda>_. svc_inv g)"
    unfolding delete_object_def svc_inv_eq by (rule hoare_bucket_call) (use consistent_delete [OF g] in auto)
  have "hoare ?U (svc_try (bucket_read (OpenObject (g_backend g) ?p)) (\<lambda>opened.
         svc_try (delete_object g ?p) (\<lambda>removed.
           case opened of
             Inl e \<Rightarrow> svc_error e
           | Inr None \<Rightarrow> svc_error ObjectNotFound
           | Inr (Some _) \<Rightarrow> svc_lift removed))) (\<lambda>_. svc_inv g)"
  proof (rule hoare_try [OF open_p])
    fix opened :: "stored_object option outcome"
    show "hoare ?U (svc_try (delete_object g ?p) (\<lambda>removed.
           case opened of
             Inl e \<Rightarrow> svc_error e
           | Inr None \<Rightarrow> svc_error ObjectNotFound
           | Inr (Some _) \<Rightarrow> svc_lift removed)) (\<lambda>_. svc_inv g)"
      by (rule hoare_try [OF del])
        (auto simp: keeps_hoare [symmetric] split: sum.split option.split intro: keeps_simple si.keeps_lift)
  qed
  then show "hoare (\<lambda>w. consistent g (w_db w) (w_bucket w) \<and> (Inr created = Inr True \<longrightarrow> unused (w_db w) (object_key (g_backend g) ?p)))
      (if \<not> created then svc_error (Failed ''artifact storage readiness probe path already exists'')
       else svc_try (bucket_read (OpenObject (g_backend g) ?p)) (\<lambda>opened.
         svc_try (delete_object g ?p) (\<lambda>removed.
           case opened of
             Inl e \<Rightarrow> svc_error e
           | Inr None \<Rightarrow> svc_error ObjectNotFound
           | Inr (Some _) \<Rightarrow> svc_lift removed))) (\<lambda>_. svc_inv g)"
    by (cases created) (auto simp: svc_inv_def intro: hoare_error)
qed (simp add: svc_inv_def)

lemma ready_keeps:
  assumes g: "service_ok g"
  shows "keeps (svc_inv g) (Ready g q checkedAt)"
  unfolding Ready_def
  by (auto split: option.split intro!: keeps_then [OF svc_inv_calls(1)] keeps_then [OF probe_keeps [OF g]] keeps_simple)

end
