(* ===== verification/ServiceRun.thy ===== *)
theory ServiceRun
  imports JobKeeps
begin

text \<open>
  Histories of the module service: requests and jobs one after the other, each with the faults of its
  calls and the answers of the upstream, on one database and one bucket.
\<close>

section \<open>Operations\<close>

datatype service_op =
    SPublish publish_input
  | SPublishAuthorized publish_input "string \<Rightarrow> service_error option"
  | SDeleteModule string string
  | SDeleteModuleIfAllowed string string time
  | SDeleteRelease string string string
  | SDeleteReleaseIfAllowed string string string time
  | SProcessDeletions int
  | SGetRelease string string string
  | SGetReleaseBySlug string
  | SEnsureChecksums string string string
  | SOpenArchive string string string
  | SReadFile string string string string
  | SIndex upstream_module
  | SSync string string
  | SRefresh int
  | SReconcile bool
  | SPrune time
  | SReady "time option"

record service_step =
  ss_Op :: service_op
  ss_Request :: request
  ss_Audit :: audit_ctx
  ss_Faults :: "fault list"

text \<open>What remains of an operation, its answer aside.\<close>

definition effect :: "'a svc \<Rightarrow> world \<Rightarrow> world" where
  "effect m w = fst (m w)"

fun service_effect :: "service \<Rightarrow> request \<Rightarrow> service_op \<Rightarrow> world \<Rightarrow> world" where
  "service_effect g q (SPublish input) = effect (Publish g q input)"
| "service_effect g q (SPublishAuthorized input authorize) = effect (PublishAuthorized g q input authorize)"
| "service_effect g q (SDeleteModule owner name) = effect (svc_DeleteModule g q owner name)"
| "service_effect g q (SDeleteModuleIfAllowed owner name since) = effect (DeleteModuleIfAllowed g q owner name since)"
| "service_effect g q (SDeleteRelease owner name version) = effect (svc_DeleteRelease g q owner name version)"
| "service_effect g q (SDeleteReleaseIfAllowed owner name version since) =
     effect (DeleteReleaseIfAllowed g q owner name version since)"
| "service_effect g q (SProcessDeletions limit) = effect (ProcessArtifactDeletions g q limit)"
| "service_effect g q (SGetRelease owner name version) = effect (svc_GetRelease g q owner name version)"
| "service_effect g q (SGetReleaseBySlug slug) = effect (svc_GetReleaseBySlug g q slug)"
| "service_effect g q (SEnsureChecksums owner name version) =
     effect (svc_then (svc_GetRelease g q owner name version) (EnsureReleaseChecksums g q))"
| "service_effect g q (SOpenArchive owner name version) = effect (OpenReleaseArchive g q owner name version)"
| "service_effect g q (SReadFile owner name version path) = effect (ReadReleaseFile g q owner name version path)"
| "service_effect g q (SIndex u) = effect (IndexUpstreamModule g q u)"
| "service_effect g q (SSync owner name) = effect (SyncUpstreamModule g q owner name)"
| "service_effect g q (SRefresh limit) = effect (RefreshCachedUpstreamModules g q limit)"
| "service_effect g q (SReconcile repair) = effect (ReconcileArtifacts g q repair)"
| "service_effect g q (SPrune cutoff) = effect (PruneUpstreamArtifactCache g q cutoff)"
| "service_effect g q (SReady checkedAt) = effect (Ready g q checkedAt)"

definition service_exec :: "service \<Rightarrow> service_step \<Rightarrow> db \<times> bucket \<Rightarrow> db \<times> bucket" where
  "service_exec g x sb =
     (case service_effect g (ss_Request x) (ss_Op x)
        \<lparr>w_db = fst sb, w_bucket = snd sb, w_ctx = ss_Audit x, w_faults = ss_Faults x\<rparr> of
        w \<Rightarrow> (w_db w, w_bucket w))"

text \<open>
  An operation is safe where the file URIs of the upstream and the identity that is asked for name
  artifacts inside the cache.
\<close>

fun safe_op :: "service \<Rightarrow> request \<Rightarrow> db \<Rightarrow> service_op \<Rightarrow> bool" where
  "safe_op g q s (SGetRelease owner name version) =
     (safe_net g q \<and> safe_slug g (owner @ ''-'' @ name @ ''-'' @ version))"
| "safe_op g q s (SGetReleaseBySlug slug) = (safe_net g q \<and> slug_ok g slug s)"
| "safe_op g q s (SEnsureChecksums owner name version) =
     (safe_net g q \<and> safe_slug g (owner @ ''-'' @ name @ ''-'' @ version))"
| "safe_op g q s (SOpenArchive owner name version) =
     (safe_net g q \<and> safe_slug g (owner @ ''-'' @ name @ ''-'' @ version))"
| "safe_op g q s (SReadFile owner name version path) =
     (safe_net g q \<and> safe_slug g (owner @ ''-'' @ name @ ''-'' @ version))"
| "safe_op g q s _ = True"

text \<open>Reachable states of database and bucket.\<close>

inductive reaches :: "service \<Rightarrow> db \<times> bucket \<Rightarrow> bool" for g where
  reaches_empty: "reaches g (empty_db, [])"
| reaches_step: "reaches g (s, bk) \<Longrightarrow> safe_op g (ss_Request x) s (ss_Op x) \<Longrightarrow> reaches g (service_exec g x (s, bk))"

section \<open>Every operation keeps the invariant\<close>

lemma effect_keeps: "keeps I m \<Longrightarrow> I w \<Longrightarrow> I (effect m w)"
  by (simp add: effect_def keeps_def)

lemma effect_hoare: "hoare P m (\<lambda>r w. I w \<and> X r) \<Longrightarrow> P w \<Longrightarrow> I (effect m w)"
  by (auto simp: effect_def hoare_def)

lemma service_effect_keeps:
  assumes g: "service_ok g" and w: "svc_inv g w" and safe: "safe_op g q (w_db w) x"
  shows "svc_inv g (service_effect g q x w)"
proof (cases x)
  case (SGetReleaseBySlug slug)
  then have "safe_net g q" "slug_ok g slug (w_db w)" "safe_slug g slug" using safe by (simp_all add: slug_ok_def)
  then show ?thesis
    unfolding SGetReleaseBySlug service_effect.simps using w
    by (intro effect_hoare [OF GetReleaseBySlug_keeps [OF g]]) (simp_all add: svc_inv_def)
next
  case (SGetRelease owner name version)
  with safe show ?thesis using release_reads_keep(1) [OF g] w by (simp add: effect_keeps)
next
  case (SEnsureChecksums owner name version)
  with safe show ?thesis using release_reads_keep(4) [OF g] w by (simp add: effect_keeps)
next
  case (SOpenArchive owner name version)
  with safe show ?thesis using release_reads_keep(2) [OF g] w by (simp add: effect_keeps)
next
  case (SReadFile owner name version path)
  with safe show ?thesis using release_reads_keep(3) [OF g] w by (simp add: effect_keeps)
qed (use w in \<open>auto intro!: effect_keeps keeps_publish [OF g] keeps_deletes [OF g]
    keeps_ProcessArtifactDeletions [OF g] index_keeps [OF g] sync_keeps [OF g] refresh_keeps [OF g]
    reconcile_keeps [OF g] prune_keeps [OF g] ready_keeps [OF g]\<close>)

lemma service_exec_keeps:
  assumes "service_ok g" "consistent g s bk" "safe_op g (ss_Request x) s (ss_Op x)"
  shows "consistent g (fst (service_exec g x (s, bk))) (snd (service_exec g x (s, bk)))"
  using service_effect_keeps [OF assms(1), of "\<lparr>w_db = s, w_bucket = bk, w_ctx = ss_Audit x, w_faults = ss_Faults x\<rparr>"]
    assms(2,3) by (simp add: svc_inv_def service_exec_def)

lemma consistent_empty: "consistent g empty_db []"
proof -
  have "catalog empty_db = {}" "pending_paths empty_db = {}"
    by (simp_all add: catalog_def catalog_of_def pending_paths_def empty_db_def)
  then show ?thesis by (simp add: consistent_def db_inv_empty own_keys_def)
qed

lemma reaches_consistent:
  assumes "service_ok g" "reaches g sb"
  shows "consistent g (fst sb) (snd sb)"
  using assms(2)
  by induction (simp_all add: consistent_empty service_exec_keeps [OF assms(1)] del: prod.collapse)

end
