(* ===== verification/PublishResults.thy ===== *)
theory PublishResults
  imports ServiceRun
begin

text \<open>
  What a publication answers, and that it leaves every other release and, without the replace flag,
  every stored release as it is. The facts hold for every call by itself, so failing calls change
  nothing of them.
\<close>

section \<open>Answers\<close>

text \<open>An answer names a release of the catalog that carries the uploaded content.\<close>

definition published :: "service \<Rightarrow> publish_input \<Rightarrow> string \<Rightarrow> release outcome \<Rightarrow> world \<Rightarrow> bool" where
  "published g input body r w \<longleftrightarrow>
     (\<forall>x. r = Inr x \<longrightarrow>
       (\<exists>e \<in> catalog (w_db w). x = with_url g e \<and> key_of e = (pi_Owner input, pi_Name input, pi_Version input) \<and>
          r_Source e = ''local'' \<and> r_SHA256 e = g_sha256 g body))"

lemma published_error [simp]: "published g input body (Inl e) w"
  by (simp add: published_def)

text \<open>The precondition of the database, and what its releases have to be.\<close>

definition db_state :: "service \<Rightarrow> (release set \<Rightarrow> bool) \<Rightarrow> db \<Rightarrow> bool" where
  "db_state g C s \<longleftrightarrow> db_inv (g_sv g) s \<and> C (catalog s)"

abbreviation db_ok :: "service \<Rightarrow> (release set \<Rightarrow> bool) \<Rightarrow> world \<Rightarrow> bool" where
  "db_ok g C w \<equiv> db_state g C (w_db w)"

lemma db_stateD: "db_state g C s \<Longrightarrow> db_inv (g_sv g) s" "db_state g C s \<Longrightarrow> C (catalog s)"
  by (simp_all add: db_state_def)

lemma db_ok_keeps_read:
  "keeps (db_ok g C) (db_read f)" "keeps (db_ok g C) (bucket_call h)" "keeps (db_ok g C) io_call"
  "keeps (db_ok g C) (svc_ctx a)" "keeps (db_ok g C) (bucket_read b)"
  by (simp_all add: keeps_def svc_ctx_def bucket_read_def)

lemma db_ok_keeps_write:
  assumes "\<And>s. db_state g C s \<Longrightarrow> db_state g C (fst (f s))"
  shows "keeps (db_ok g C) (db_write f)"
  unfolding keeps_hoare
  by (rule hoare_weaken [OF hoare_db_write [where P = "\<lambda>s _. db_state g C s" and Q = "\<lambda>_ s _. db_state g C s"]])
    (use assms in fastforce)+

lemma db_ok_deletes_empty:
  "keeps (db_ok g C) (db_write (\<lambda>s. DeleteModuleIfEmpty s owner name))"
  by (rule db_ok_keeps_write)
    (auto simp: db_state_def DeleteModuleIfEmpty_def delete_empty_inv delete_empty_removes(1))

lemma db_ok_compensate: "keeps (db_ok g C) (compensatePublishFailure g' owner name p e :: 'a svc)"
  unfolding compensatePublishFailure_def delete_object_def
  by (intro keeps_try db_ok_keeps_read db_ok_deletes_empty keeps_simple)

lemma compensate_error: "snd (compensatePublishFailure g owner name p e w) = Inl e"
  by (simp add: compensatePublishFailure_def svc_try_def svc_error_def case_prod_unfold)

lemma db_ok_record: "keeps (db_ok g C) (record_pending g' q)"
proof (rule keepsI)
  fix w
  assume w: "db_ok g C w"
  show "db_ok g C (fst (record_pending g' q w))"
  proof (cases "PendingMutationAudit (w_ctx w)")
    case None
    with w show ?thesis by (simp add: record_pending_def svc_return_def)
  next
    case (Some event)
    have "keeps (db_ok g C) (svc_then
            (db_write (\<lambda>s. case recordSQLiteAuditEvent (request_env g' q) s event of
                Inl e \<Rightarrow> (s, Inl e) | Inr s1 \<Rightarrow> (s1, Inr ())))
            (\<lambda>_. svc_ctx MarkMutationAuditRecorded))"
      by (intro keeps_then db_ok_keeps_write db_ok_keeps_read)
        (auto simp: db_state_def recordSQLiteAuditEvent_def Let_def catalog_def db_inv_audit split: sum.splits if_splits)
    from keepsD [OF this w] Some show ?thesis by (simp add: record_pending_def)
  qed
qed

text \<open>Writing the release of a publication into a module that exists.\<close>

lemma hoare_state_db:
  assumes "\<And>s. P s \<Longrightarrow> Q (Inl Unavailable) s"
    and "\<And>c s c1 s1 r. P s \<Longrightarrow> f c s = ((c1, s1), r) \<Longrightarrow> Q (map_sum StoreFault (\<lambda>x. x) r) s1 \<and> Q (Inl Unavailable) s1"
  shows "hoare (\<lambda>w. P (w_db w)) (db_call f) (\<lambda>r w. Q r (w_db w))"
  by (rule hoare_db_call [where P = "\<lambda>s _. P s" and Q = "\<lambda>r s _. Q r s"]) (use assms in auto)

definition written :: "service \<Rightarrow> publish_input \<Rightarrow> string \<Rightarrow> release \<Rightarrow> bool" where
  "written g input body e \<longleftrightarrow>
     key_of e = (pi_Owner input, pi_Name input, pi_Version input) \<and> r_Source e = ''local'' \<and> r_SHA256 e = g_sha256 g body"

lemma stored_as_written:
  assumes "stored_as (NewRelease u i input md5 (g_sha256 g body) p) e"
    "key_of e = key_of (NewRelease u i input md5 (g_sha256 g body) p)"
  shows "written g input body e"
proof -
  let ?n = "NewRelease u i input md5 (g_sha256 g body) p"
  have e: "e = ?n\<lparr>r_ID := r_ID e, r_CreatedAt := r_CreatedAt e, r_DownloadURL := [],
           r_Metadata := normalizeReleaseMetadata (r_Metadata ?n)\<rparr>"
    using assms(1) by (simp add: stored_as_def)
  have "r_Source e = r_Source ?n" "r_SHA256 e = r_SHA256 ?n" by (subst e, simp)+
  then show ?thesis using assms(2) by (simp add: written_def NewRelease_def key_of_def)
qed

lemma published_iff:
  "published g input body (Inr x) w \<longleftrightarrow> (\<exists>e \<in> catalog (w_db w). x = with_url g e \<and> written g input body e)"
  by (auto simp: published_def written_def)

lemma commit_publishes:
  assumes g: "service_ok g"
    and C: "\<And>s e. db_state g C s \<Longrightarrow> written g input body e \<Longrightarrow>
        (\<not> pi_Replace input \<Longrightarrow> \<forall>p \<in> catalog s. key_of p \<noteq> key_of e) \<Longrightarrow> C (put_release e (catalog s))"
    and m: "m_Owner mdl = pi_Owner input" "m_Name mdl = pi_Name input"
  shows "hoare (\<lambda>w. db_ok g C w \<and> (m_ID mdl, pi_Owner input, pi_Name input) \<in> identities (db_modules (w_db w)))
    (publish_commit g q input md5Hex (g_sha256 g body) p mdl) (\<lambda>r w. db_ok g C w \<and> published g input body r w)"
  unfolding publish_commit_def Let_def
proof (rule hoare_try [where R = "\<lambda>r w. db_ok g C w \<and> (\<forall>e. r = Inr e \<longrightarrow> e \<in> catalog (w_db w) \<and> written g input body e)"])
  let ?new = "NewRelease (q_release_uuid q) (m_ID mdl) input md5Hex (g_sha256 g body) p"
  show "hoare (\<lambda>w. db_ok g C w \<and> (m_ID mdl, pi_Owner input, pi_Name input) \<in> identities (db_modules (w_db w)))
    (db_call (\<lambda>c s. if pi_Replace input then CreateRelease (request_env g q) c s ?new
        else CreateReleaseIfAbsent (request_env g q) c s ?new))
    (\<lambda>r w. db_ok g C w \<and> (\<forall>e. r = Inr e \<longrightarrow> e \<in> catalog (w_db w) \<and> written g input body e))"
    unfolding CreateRelease_def CreateReleaseIfAbsent_def
  proof (rule hoare_state_db)
    fix c s c1 s1 and r :: "release result"
    assume pre: "db_state g C s \<and> (m_ID mdl, pi_Owner input, pi_Name input) \<in> identities (db_modules s)"
      and run: "(if pi_Replace input then createRelease (request_env g q) c s ?new False
          else createRelease (request_env g q) c s ?new True) = ((c1, s1), r)"
    have run: "createRelease (request_env g q) c s ?new (\<not> pi_Replace input) = ((c1, s1), r)"
      using run by (cases "pi_Replace input") simp_all
    have sv: "semver_package (v_sv (request_env g q))" "db_inv (v_sv (request_env g q)) s"
      using g pre by (simp_all add: request_env_def service_ok_def db_state_def)
    have ids: "(r_ModuleID ?new, r_Owner ?new, r_Name ?new) \<in> identities (db_modules s)"
      using pre by (simp add: NewRelease_def)
    have inv1: "db_inv (g_sv g) s1" using createRelease_inv [OF sv, of c ?new "\<not> pi_Replace input"] run
      by (simp add: request_env_def)
    have "db_state g C s1 \<and> (\<forall>e. r = Inr e \<longrightarrow> e \<in> catalog s1 \<and> written g input body e)"
    proof (cases rule: createRelease_effect [OF sv ids, where c = c and co = "\<not> pi_Replace input"])
      case (1 e)
      with run pre show ?thesis by auto
    next
      case (2 c2 s2 e)
      then have s1: "s1 = s2" "r = Inr e" using run by simp_all
      have e: "written g input body e" using 2(3,4) by (rule stored_as_written)
      have "C (catalog s1)"
        unfolding s1 2(2) by (rule C) (use pre 2(4,7) e in auto)
      then show ?thesis using inv1 e 2(2) s1 by (simp add: db_state_def put_release_def)
    qed
    then show "(db_state g C s1 \<and> (\<forall>e. map_sum StoreFault (\<lambda>x. x) r = Inr e \<longrightarrow> e \<in> catalog s1 \<and> written g input body e)) \<and>
        db_state g C s1 \<and> (\<forall>e. Inl Unavailable = Inr e \<longrightarrow> e \<in> catalog s1 \<and> written g input body e)"
      by simp
  qed simp
  fix r :: "release outcome"
  let ?Q = "\<lambda>r w. db_ok g C w \<and> published g input body r w"
  let ?comp = "\<lambda>e. compensatePublishFailure g (pi_Owner input) (pi_Name input) p e :: release svc"
  have comp: "hoare (db_ok g C) (?comp e) ?Q" for e
    by (rule hoareI) (simp add: keepsD [OF db_ok_compensate] compensate_error)
  show "hoare (\<lambda>w. db_ok g C w \<and> (\<forall>e. r = Inr e \<longrightarrow> e \<in> catalog (w_db w) \<and> written g input body e))
      (case r of
         Inl e \<Rightarrow>
           svc_try (db_read (\<lambda>s. GetRelease s (pi_Owner input) (pi_Name input) (pi_Version input)))
            (\<lambda>r2. case r2 of
              Inl e2 \<Rightarrow> if \<not> is_not_found e2 then svc_error e else ?comp e
            | Inr committed \<Rightarrow>
                if r_Source committed = ''local'' \<and> r_SHA256 committed = g_sha256 g body \<and> r_StoragePath committed = p
                then svc_return (with_url g committed) else ?comp e)
       | Inr release \<Rightarrow> svc_return (with_url g release)) ?Q"
  proof (cases r)
    case (Inr release)
    then show ?thesis by (auto intro!: hoare_return simp: published_iff)
  next
    case (Inl e)
    have "hoare (db_ok g C) (svc_try (db_read (\<lambda>s. GetRelease s (pi_Owner input) (pi_Name input) (pi_Version input)))
            (\<lambda>r2. case r2 of
              Inl e2 \<Rightarrow> if \<not> is_not_found e2 then svc_error e else ?comp e
            | Inr committed \<Rightarrow>
                if r_Source committed = ''local'' \<and> r_SHA256 committed = g_sha256 g body \<and> r_StoragePath committed = p
                then svc_return (with_url g committed) else ?comp e)) ?Q"
    proof (rule hoare_try [where R = "\<lambda>r w. db_ok g C w \<and> (\<forall>e. r = Inr e \<longrightarrow>
          e \<in> catalog (w_db w) \<and> key_of e = (pi_Owner input, pi_Name input, pi_Version input))"])
      show "hoare (db_ok g C) (db_read (\<lambda>s. GetRelease s (pi_Owner input) (pi_Name input) (pi_Version input)))
          (\<lambda>r w. db_ok g C w \<and> (\<forall>e. r = Inr e \<longrightarrow> e \<in> catalog (w_db w) \<and>
            key_of e = (pi_Owner input, pi_Name input, pi_Version input)))"
        by (rule hoareI) (use GetRelease_catalog(1) db_stateD(1) db_read_Inr in fastforce)
      fix r2 :: "release outcome"
      show "hoare (\<lambda>w. db_ok g C w \<and> (\<forall>e. r2 = Inr e \<longrightarrow>
            e \<in> catalog (w_db w) \<and> key_of e = (pi_Owner input, pi_Name input, pi_Version input)))
          (case r2 of
              Inl e2 \<Rightarrow> if \<not> is_not_found e2 then svc_error e else ?comp e
            | Inr committed \<Rightarrow>
                if r_Source committed = ''local'' \<and> r_SHA256 committed = g_sha256 g body \<and> r_StoragePath committed = p
                then svc_return (with_url g committed) else ?comp e) ?Q"
        by (cases r2) (auto intro!: hoare_return hoare_error hoare_weaken [OF comp] simp: published_iff written_def)
    qed
    then show ?thesis unfolding Inl sum.case by (rule hoare_weaken) blast+
  qed
qed

text \<open>The conditions under which a set of releases may grow by a publication.\<close>

definition accepts :: "service \<Rightarrow> publish_input \<Rightarrow> string \<Rightarrow> (release set \<Rightarrow> bool) \<Rightarrow> bool" where
  "accepts g input body C \<longleftrightarrow>
     (\<forall>s e. db_state g C s \<longrightarrow> written g input body e \<longrightarrow>
        (\<not> pi_Replace input \<longrightarrow> (\<forall>p \<in> catalog s. key_of p \<noteq> key_of e)) \<longrightarrow> C (put_release e (catalog s)))"

lemma new_publishes:
  assumes g: "service_ok g" and C: "accepts g input body C"
  shows "hoare (db_ok g C) (publish_new g q input body md5Hex (g_sha256 g body) p)
    (\<lambda>r w. db_ok g C w \<and> published g input body r w)"
proof -
  let ?Q = "\<lambda>r w. db_ok g C w \<and> published g input body r w"
  have up: "hoare (db_ok g C) (publish_upload g q input body (g_sha256 g body) p) (\<lambda>_. db_ok g C)"
    unfolding publish_upload_def verifyExistingArtifact_def keeps_hoare [symmetric]
    by (intro keeps_then keeps_if keeps_simple db_ok_keeps_read) (auto split: option.split intro: keeps_simple)
  show ?thesis
    unfolding publish_new_def
  proof (rule hoare_then [OF up])
    fix u :: unit
    let ?comp = "\<lambda>e. compensatePublishFailure g (pi_Owner input) (pi_Name input) p e :: release svc"
    show "hoare (db_ok g C) (svc_try (db_write (\<lambda>s. UpsertModule (request_env g q) s (pi_Owner input) (pi_Name input))) (\<lambda>r.
       case r of Inl e \<Rightarrow> ?comp e | Inr mdl \<Rightarrow> publish_commit g q input md5Hex (g_sha256 g body) p mdl)) ?Q"
    proof (rule hoare_try [where R = "\<lambda>r w. db_ok g C w \<and> (\<forall>m. r = Inr m \<longrightarrow> m_Owner m = pi_Owner input \<and>
          m_Name m = pi_Name input \<and> (m_ID m, pi_Owner input, pi_Name input) \<in> identities (db_modules (w_db w)))"])
      show "hoare (db_ok g C) (db_write (\<lambda>s. UpsertModule (request_env g q) s (pi_Owner input) (pi_Name input)))
          (\<lambda>r w. db_ok g C w \<and> (\<forall>m. r = Inr m \<longrightarrow> m_Owner m = pi_Owner input \<and>
            m_Name m = pi_Name input \<and> (m_ID m, pi_Owner input, pi_Name input) \<in> identities (db_modules (w_db w))))"
        unfolding db_write_def
      proof (rule hoare_state_db)
        fix c s c1 s1 and r :: "domain_module result"
        assume s: "db_state g C s"
          and "(case UpsertModule (request_env g q) s (pi_Owner input) (pi_Name input) of (s1, r) \<Rightarrow> ((c, s1), r)) = ((c1, s1), r)"
        then have run: "UpsertModule (request_env g q) s (pi_Owner input) (pi_Name input) = (s1, r)"
          by (auto split: prod.splits)
        note inv = db_stateD(1) [OF s]
        have "db_state g C s1"
          using s UpsertModule_inv [OF inv, of "request_env g q" "pi_Owner input" "pi_Name input"]
            UpsertModule_effect(1) [OF inv, of "request_env g q" "pi_Owner input" "pi_Name input"] run
          by (simp add: db_state_def)
        moreover have "\<forall>m. r = Inr m \<longrightarrow> m_Owner m = pi_Owner input \<and>
            m_Name m = pi_Name input \<and> (m_ID m, pi_Owner input, pi_Name input) \<in> identities (db_modules s1)"
          using UpsertModule_effect(5) [OF inv, of "request_env g q" "pi_Owner input" "pi_Name input"] run by simp
        ultimately show "(db_state g C s1 \<and> (\<forall>m. map_sum StoreFault (\<lambda>x. x) r = Inr m \<longrightarrow> m_Owner m = pi_Owner input \<and>
            m_Name m = pi_Name input \<and> (m_ID m, pi_Owner input, pi_Name input) \<in> identities (db_modules s1))) \<and>
          db_state g C s1 \<and> (\<forall>m. Inl Unavailable = Inr m \<longrightarrow> m_Owner m = pi_Owner input \<and>
            m_Name m = pi_Name input \<and> (m_ID m, pi_Owner input, pi_Name input) \<in> identities (db_modules s1))"
          by (cases r) auto
      qed simp
      fix r :: "domain_module outcome"
      show "hoare (\<lambda>w. db_ok g C w \<and> (\<forall>m. r = Inr m \<longrightarrow> m_Owner m = pi_Owner input \<and>
            m_Name m = pi_Name input \<and> (m_ID m, pi_Owner input, pi_Name input) \<in> identities (db_modules (w_db w))))
          (case r of Inl e \<Rightarrow> ?comp e | Inr mdl \<Rightarrow> publish_commit g q input md5Hex (g_sha256 g body) p mdl) ?Q"
      proof (cases r)
        case (Inl e)
        have "hoare (db_ok g C) (?comp e) ?Q"
          by (rule hoareI) (simp add: keepsD [OF db_ok_compensate] compensate_error)
        then show ?thesis by (simp add: Inl hoare_def)
      next
        case (Inr mdl)
        show ?thesis
        proof (cases "m_Owner mdl = pi_Owner input \<and> m_Name mdl = pi_Name input")
          case True
          have "hoare (\<lambda>w. db_ok g C w \<and> (m_ID mdl, pi_Owner input, pi_Name input) \<in> identities (db_modules (w_db w)))
              (publish_commit g q input md5Hex (g_sha256 g body) p mdl) ?Q"
            by (rule commit_publishes [OF g]) (use C True in \<open>auto simp: accepts_def\<close>)
          then show ?thesis unfolding Inr sum.case by (rule hoare_weaken) auto
        next
          case False
          then show ?thesis by (auto simp: Inr hoare_def)
        qed
      qed
    qed
  qed simp
qed

lemma locked_publishes:
  assumes g: "service_ok g" and C: "accepts g input body C"
  shows "hoare (db_ok g C) (publish_locked g q input body md5Hex (g_sha256 g body) p)
    (\<lambda>r w. db_ok g C w \<and> published g input body r w)"
  unfolding publish_locked_def
proof (rule hoare_try [where R = "\<lambda>r w. db_ok g C w \<and> (\<forall>e. r = Inr e \<longrightarrow>
      e \<in> catalog (w_db w) \<and> key_of e = (pi_Owner input, pi_Name input, pi_Version input))"])
  let ?Q = "\<lambda>r w. db_ok g C w \<and> published g input body r w"
  let ?new = "publish_new g q input body md5Hex (g_sha256 g body) p"
  show "hoare (db_ok g C) (db_read (\<lambda>s. GetRelease s (pi_Owner input) (pi_Name input) (pi_Version input)))
      (\<lambda>r w. db_ok g C w \<and> (\<forall>e. r = Inr e \<longrightarrow> e \<in> catalog (w_db w) \<and>
        key_of e = (pi_Owner input, pi_Name input, pi_Version input)))"
    by (rule hoareI) (use GetRelease_catalog(1) db_stateD(1) db_read_Inr in fastforce)
  fix r :: "release outcome"
  let ?P = "\<lambda>w. db_ok g C w \<and> (\<forall>e. r = Inr e \<longrightarrow>
      e \<in> catalog (w_db w) \<and> key_of e = (pi_Owner input, pi_Name input, pi_Version input))"
  let ?same = "\<lambda>existing. svc_then (verifyExistingArtifact g (r_StoragePath existing) (r_SHA256 existing) (r_SizeBytes existing)) (\<lambda>_.
             svc_then (record_pending g q) (\<lambda>_. svc_return (with_url g existing)))"
  have new: "hoare ?P ?new ?Q" by (rule hoare_weaken [OF new_publishes [OF g C]]) auto
  have err: "hoare ?P (svc_error e) ?Q" for e by (rule hoare_error) simp
  have same: "hoare ?P (?same existing) ?Q"
    if r: "r = Inr existing" and ok: "r_Source existing = ''local''" "r_SHA256 existing = g_sha256 g body" for existing
  proof -
    let ?C = "\<lambda>c. C c \<and> existing \<in> c \<and> key_of existing = (pi_Owner input, pi_Name input, pi_Version input)"
    have "hoare (db_ok g ?C) (verifyExistingArtifact g (r_StoragePath existing) (r_SHA256 existing) (r_SizeBytes existing))
        (\<lambda>_. db_ok g ?C)"
      unfolding verifyExistingArtifact_def keeps_hoare [symmetric]
      by (intro keeps_then db_ok_keeps_read) (auto split: option.split intro: keeps_simple)
    moreover have "hoare (db_ok g ?C) (record_pending g q) (\<lambda>_. db_ok g ?C)"
      using db_ok_record by (simp add: keeps_hoare)
    ultimately have "hoare (db_ok g ?C) (?same existing) (\<lambda>r' w. db_ok g ?C w \<and> (\<forall>x. r' = Inr x \<longrightarrow> x = with_url g existing))"
      by (intro hoare_then [where R = "\<lambda>_. db_ok g ?C"] hoare_return) auto
    then show ?thesis
      by (rule hoare_weaken)
        (use r ok in \<open>auto simp: db_state_def published_def\<close>)
  qed
  show "hoare ?P
      (case r of
         Inr existing \<Rightarrow>
           if r_Source existing = ''local'' \<and> r_SHA256 existing = g_sha256 g body then ?same existing
           else if \<not> pi_Replace input then svc_error Conflict else ?new
       | Inl e \<Rightarrow> if \<not> is_not_found e then svc_error e else ?new) ?Q"
    using new err same by (cases r) auto
qed

text \<open>From the checks on.\<close>

lemma published_cong:
  "published g (input\<lparr>pi_FileName := f\<rparr>) body r w = published g input body r w"
  "published g (input\<lparr>pi_SizeBytes := n\<rparr>) body r w = published g input body r w"
  "accepts g (input\<lparr>pi_FileName := f\<rparr>) body C = accepts g input body C"
  "accepts g (input\<lparr>pi_SizeBytes := n\<rparr>) body C = accepts g input body C"
  by (simp_all add: published_def accepts_def written_def)

lemma checked_publishes:
  assumes g: "service_ok g" and C: "accepts g input (the (pi_File input)) C"
  shows "hoare (db_ok g C) (publish_checked g q input authorize)
    (\<lambda>r w. db_ok g C w \<and> published g input (the (pi_File input)) r w)"
proof (cases "pi_File input")
  case None
  then show ?thesis unfolding publish_checked_def by (auto intro: hoare_error)
next
  case (Some body)
  let ?Q = "\<lambda>r w. db_ok g C w \<and> published g input body r w"
  let ?i = "input\<lparr>pi_FileName := releaseArchiveFileName (pi_Owner input) (pi_Name input) (pi_Version input),
      pi_SizeBytes := int (length body)\<rparr>"
  have acc: "accepts g ?i body C" using C by (simp add: Some published_cong)
  have locked: "hoare (db_ok g C) (publish_locked g q ?i body (g_md5 g body) (g_sha256 g body) p) ?Q" for p
    using locked_publishes [OF g acc, of q "g_md5 g body" p] by (simp add: published_cong)
  have rest: "hoare (db_ok g C) (svc_then io_call (\<lambda>_. svc_then (svc_ctx h) (\<lambda>_. svc_then io_call (\<lambda>_.
      publish_locked g q ?i body (g_md5 g body) (g_sha256 g body) p)))) ?Q" for h p
    by (intro hoare_then [where R = "\<lambda>_. db_ok g C"] locked db_ok_keeps_read [unfolded keeps_hoare]) simp_all
  have err: "hoare (db_ok g C) (svc_error e) ?Q" for e by (rule hoare_error) simp
  show ?thesis
    unfolding publish_checked_def Some option.case option.sel Let_def
    using rest err by (simp split: option.split)
qed

text \<open>The content that is uploaded, and the input once the archive was read.\<close>

definition upload_content :: "publish_input \<Rightarrow> string" where
  "upload_content input = (case pi_File input of Some body \<Rightarrow> body | None \<Rightarrow> pi_FileBytes input)"

definition named_by_archive :: "service \<Rightarrow> publish_input \<Rightarrow> publish_input \<Rightarrow> bool" where
  "named_by_archive g input input1 \<longleftrightarrow>
     pi_File input1 = Some (upload_content input) \<and> pi_Replace input1 = pi_Replace input \<and>
     (\<exists>info. inspectModuleArchive (g_lower g) (g_decode_metadata g) (g_untar g (upload_content input)) = Inr info \<and>
        pi_Owner input1 = in_Owner info \<and> pi_Name input1 = in_Name info \<and> pi_Version input1 = in_Version info)"

lemma adopt_named:
  assumes "adopt_archive_info g input info = Inr input1"
  shows "pi_File input1 = pi_File input" "pi_Replace input1 = pi_Replace input"
    "pi_Owner input1 = in_Owner info" "pi_Name input1 = in_Name info" "pi_Version input1 = in_Version info"
  using assms by (auto simp: adopt_archive_info_def split: if_splits)

lemma normalized_named:
  assumes "snd (normalizePublishInput g input w) = Inr input1"
  shows "named_by_archive g input input1"
  using assms unfolding normalizePublishInput_def Let_def named_by_archive_def
  by (auto simp: svc_error_def svc_lift_def svc_return_def upload_content_def
      split: option.splits if_splits sum.splits dest!: svc_then_Inr dest: adopt_named)

lemma publish_publishes:
  assumes g: "service_ok g"
    and C: "\<And>input1. named_by_archive g input input1 \<Longrightarrow> accepts g input1 (upload_content input) C"
  shows "hoare (db_ok g C) (publish g q input authorize)
    (\<lambda>r w. db_ok g C w \<and> (\<forall>x. r = Inr x \<longrightarrow>
       (\<exists>input1. named_by_archive g input input1 \<and> published g input1 (upload_content input) r w)))"
  unfolding publish_def
proof (rule hoare_then [where R = "\<lambda>r w. db_ok g C w \<and> (\<forall>x. r = Inr x \<longrightarrow> named_by_archive g input x)"])
  have "keeps (db_ok g C) (normalizePublishInput g input)"
    unfolding normalizePublishInput_def Let_def
    by (auto split: option.split sum.split intro!: keeps_then keeps_simple db_ok_keeps_read keeps_lift_any)
  then show "hoare (db_ok g C) (normalizePublishInput g input)
      (\<lambda>r w. db_ok g C w \<and> (\<forall>x. r = Inr x \<longrightarrow> named_by_archive g input x))"
    by (auto intro!: hoareI dest: keepsD normalized_named)
  fix input1
  let ?Q = "\<lambda>r w. db_ok g C w \<and> (\<forall>x. r = Inr x \<longrightarrow>
       (\<exists>input1. named_by_archive g input input1 \<and> published g input1 (upload_content input) r w))"
  show "hoare (\<lambda>w. db_ok g C w \<and> (\<forall>x. Inr input1 = Inr x \<longrightarrow> named_by_archive g input x))
      (publish_checked g q input1 authorize) ?Q"
  proof (cases "named_by_archive g input input1")
    case True
    then have body: "the (pi_File input1) = upload_content input" by (simp add: named_by_archive_def)
    show ?thesis
      by (rule hoare_weaken [OF checked_publishes [OF g, of input1 C]]) (use C [OF True] True in \<open>auto simp: body\<close>)
  next
    case False
    then show ?thesis by (simp add: hoare_def)
  qed
qed simp

end
