(* ===== verification/ServiceProperties.thy ===== *)
theory ServiceProperties
  imports PublishResults
begin

text \<open>
  What the clients of the module service can rely on, whatever calls failed before.
\<close>

section \<open>An example service\<close>

text \<open>A checksum that keeps the text apart from its slashes, and an upstream that does not answer.\<close>

definition example_sha :: "string \<Rightarrow> string" where
  "example_sha x = map (\<lambda>c. if c = CHR ''/'' then CHR ''-'' else c) x"

definition example_service :: "backend \<Rightarrow> string \<Rightarrow> service" where
  "example_service b prefix =
     \<lparr>g_sv = documented_semver, g_backend = b, g_prefix = prefix, g_sha256 = example_sha, g_md5 = example_sha,
      g_lower = ascii_to_lower, g_equal_fold = (\<lambda>a b. ascii_to_lower a = ascii_to_lower b),
      g_untar = (\<lambda>_. Some example_archive), g_decode_metadata = example_decode, g_decode_release = (\<lambda>_. None),
      g_unmarshal = (\<lambda>_. None), g_url_path = Some, g_public_url = (\<lambda>p. ''https://cdn/'' @ p),
      g_artifactPrefix = ''upstream-cache'', g_maxBodyBytes = 1000, g_maxArtifactBytes = 1000,
      g_artifactLeaseTTL = 60\<rparr>"

definition example_request :: "time \<Rightarrow> string \<Rightarrow> request" where
  "example_request now n =
     \<lparr>q_now = now, q_uuid = ''m'' @ n, q_release_uuid = ''r'' @ n, q_audit_uuid = ''a'' @ n,
      q_lease_holder = ''h'' @ n, q_probe = n, q_net = None, q_sent = None\<rparr>"

definition example_upload :: publish_input where
  "example_upload =
     \<lparr>pi_Owner = [], pi_Name = [], pi_Version = [], pi_Replace = False, pi_Description = [], pi_Readme = [],
      pi_FileName = ''upload.tar.gz'', pi_ContentType = ''application/gzip'', pi_FileBytes = [],
      pi_File = Some ''bytes'', pi_SizeBytes = 0, pi_Metadata = []\<rparr>"

definition example_step :: "service_op \<Rightarrow> time \<Rightarrow> string \<Rightarrow> service_step" where
  "example_step x now n = \<lparr>ss_Op = x, ss_Request = example_request now n, ss_Audit = None, ss_Faults = []\<rparr>"

definition example_state :: "db \<times> bucket" where
  "example_state =
     service_exec (example_service S3 ''modules'')
       (example_step (SPublish example_upload) 7 ''1'') (empty_db, [])"

lemma example_service_ok: "service_ok (example_service b ''modules'')"
proof -
  have "plain_prefix (example_service S3 ''modules'')" "plain_prefix (example_service GCS ''modules'')" by code_simp+
  then have "plain_prefix (example_service b ''modules'')" by (cases b) simp_all
  then show ?thesis
    by (auto simp: service_ok_def example_service_def documented_semver_ok example_sha_def)
qed

lemma example_reached: "reaches (example_service S3 ''modules'') example_state"
  unfolding example_state_def by (rule reaches_step [OF reaches_empty]) (simp add: example_step_def)

section \<open>Published artifacts\<close>

text \<open>
  A history of the service from the empty database and bucket. It is confined when every step that may
  contact the upstream does so for an artifact inside the cache: the file URI of each release the
  upstream describes, and the file name made from the identity or slug that is asked for, have a path
  below \<open>upstream-cache/\<close> once \<open>..\<close> is resolved. The code does not check this.
\<close>

definition service_history :: "service \<Rightarrow> service_step list \<Rightarrow> db \<times> bucket" where
  "service_history g xs = fold (service_exec g) xs (empty_db, [])"

definition confined :: "service \<Rightarrow> service_step list \<Rightarrow> bool" where
  "confined g xs \<longleftrightarrow>
     (\<forall>n < length xs. safe_op g (ss_Request (xs ! n)) (fst (service_history g (take n xs))) (ss_Op (xs ! n)))"

lemma confined_reaches: "confined g xs \<Longrightarrow> reaches g (service_history g xs)"
proof (induction xs rule: rev_induct)
  case Nil
  then show ?case by (simp add: service_history_def reaches_empty)
next
  case (snoc x xs)
  have "confined g xs" unfolding confined_def
  proof (intro allI impI)
    fix n
    assume "n < length xs"
    then show "safe_op g (ss_Request (xs ! n)) (fst (service_history g (take n xs))) (ss_Op (xs ! n))"
      using snoc.prems unfolding confined_def by (auto dest: spec [of _ n] simp: nth_append)
  qed
  moreover have "safe_op g (ss_Request x) (fst (service_history g xs)) (ss_Op x)"
    using snoc.prems unfolding confined_def by (auto dest: spec [of _ "length xs"])
  ultimately have "reaches g (service_exec g x (fst (service_history g xs), snd (service_history g xs)))"
    by (intro reaches_step) (use snoc.IH in simp_all)
  then show ?case by (simp add: service_history_def)
qed

text \<open>
  C1: Whatever requests and jobs ran before, with whatever failing calls and crashes, every local
  release the catalog answers with can be opened, provided the upstream and the clients named no
  artifact outside the cache: its artifact is in the bucket under the path of its identity and
  checksum, and the stored bytes have the recorded checksum and size. The outbox worker, the orphan
  repair, the cache pruning and the compensation of failed uploads delete no artifact that is still
  referenced. The proviso is needed, see \<open>upstream_uri_deletes_artifact\<close> below.
\<close>

theorem published_artifact_held:
  assumes "service_ok g" "confined g steps" "service_history g steps = (s, bk)"
    and "GetRelease s owner name version = Inr r" "r_Source r = ''local''"
  shows "\<exists>ob. OpenObject (g_backend g) (r_StoragePath r) bk = Some ob \<and>
    r_StoragePath r = object_path g owner name version (g_sha256 g (ob_Body ob)) \<and>
    r_SHA256 r = g_sha256 g (ob_Body ob) \<and> r_SizeBytes r = int (length (ob_Body ob))"
proof -
  have c: "consistent g s bk" using reaches_consistent [OF assms(1) confined_reaches [OF assms(2)]] assms(3) by simp
  then have r: "r \<in> catalog s" "key_of r = (owner, name, version)"
    using GetRelease_catalog(1) [OF consistentD(1)] assms(4) by blast+
  from consistentD(3) [OF c r(1) assms(5)] show ?thesis
    by (rule heldE) (use r(2) in \<open>auto simp: key_of_def\<close>)
qed

theorem published_artifact_held_witness:
  "\<exists>r ob. GetRelease (fst example_state) ''acme'' ''web'' ''1.0.0'' = Inr r \<and>
     OpenObject S3 (r_StoragePath r) (snd example_state) = Some ob \<and> r_SHA256 r = ''bytes'' \<and>
     r_SizeBytes r = int (length (ob_Body ob))"
proof -
  let ?r = "GetRelease (fst example_state) ''acme'' ''web'' ''1.0.0''"
  let ?xs = "[example_step (SPublish example_upload) 7 ''1'']"
  have "map_sum (\<lambda>_. ()) (\<lambda>r. (r_Source r, r_SHA256 r)) ?r = Inr (''local'', ''bytes'')" by code_simp
  then obtain r where r: "?r = Inr r" "r_Source r = ''local''" "r_SHA256 r = ''bytes''" by (cases ?r) auto
  have s: "confined (example_service S3 ''modules'') ?xs" by (simp add: confined_def example_step_def)
  have h: "service_history (example_service S3 ''modules'') ?xs = (fst example_state, snd example_state)"
    by (simp add: service_history_def example_state_def)
  have b: "g_backend (example_service S3 ''modules'') = S3" by (simp add: example_service_def)
  from published_artifact_held [OF example_service_ok s h r(1,2)] show ?thesis using r b by metis
qed

text \<open>
  A defect of the cache of upstream artifacts: the path of a file URI is joined to the prefix of the
  cache without a check that it stays below it. An upstream that describes a release with the URI
  \<open>/v3/files/../../../modules/...\<close> names the artifact of a published release; a request for the
  checksums of the upstream's release finds it unequal to the checksum the upstream told, and deletes it.
  The catalog still has the published release, and its download fails from then on.
\<close>

definition traversing_service :: service where
  "traversing_service = (example_service S3 ''modules'')\<lparr>g_decode_release := (\<lambda>_. Some (no_upstream_release
     \<lparr>up_Version := ''1.0.0'', up_FileSize := 3, up_FileMD5 := ''md5'', up_FileSHA256 := ''sha'',
      up_FileURI := ''/v3/files/../../../'' @ object_path (example_service S3 ''modules'') ''acme'' ''web'' ''1.0.0'' ''bytes''\<rparr>))\<rparr>"

definition traversing_net :: "string \<Rightarrow> http_response option" where
  "traversing_net p =
     Some \<lparr>hr_Status = (if has_prefix p ''/v3/releases/'' then 200 else 404), hr_ContentType = [], hr_ContentLength = 2,
       hr_Body = ''{}'', hr_Broken = False\<rparr>"

definition traversing_step :: service_step where
  "traversing_step = \<lparr>ss_Op = SEnsureChecksums ''other'' ''lib'' ''1.0.0'',
     ss_Request = (example_request 9 ''2'')\<lparr>q_net := Some traversing_net\<rparr>, ss_Audit = None, ss_Faults = []\<rparr>"

text \<open>Whether a release is local, and whether its artifact can be opened.\<close>

definition local_artifact :: "db \<times> bucket \<Rightarrow> bool \<times> bool" where
  "local_artifact sb =
     (case GetRelease (fst sb) ''acme'' ''web'' ''1.0.0'' of
        Inl _ \<Rightarrow> (False, False)
      | Inr r \<Rightarrow> (r_Source r = ''local'', OpenObject S3 (r_StoragePath r) (snd sb) \<noteq> None))"

theorem upstream_uri_deletes_artifact:
  "local_artifact (service_history traversing_service [example_step (SPublish example_upload) 7 ''1'']) = (True, True) \<and>
   local_artifact (service_history traversing_service [example_step (SPublish example_upload) 7 ''1'', traversing_step]) = (True, False)"
  by (rule conjI; code_simp)

section \<open>Publishing\<close>

text \<open>
  C6: An upload that is answered with a release is published: the archive passed the inspection, the
  catalog has a local release with the identity the archive declares and the checksum of the uploaded
  bytes, the answer is that release with its download URL, and the bucket holds an object with that
  checksum and the recorded size under its path. This holds on every path through the handler: the
  first upload, a repeated one, a replacement, an object that was already stored, and a commit whose
  answer was lost.
\<close>

theorem publish_answers:
  assumes "service_ok g" "reaches g (w_db w, w_bucket w)" "publish g q input authorize w = (w1, Inr x)"
  shows "\<exists>info e ob.
    inspectModuleArchive (g_lower g) (g_decode_metadata g) (g_untar g (upload_content input)) = Inr info \<and>
    GetRelease (w_db w1) (in_Owner info) (in_Name info) (in_Version info) = Inr e \<and>
    r_Source e = ''local'' \<and> r_SHA256 e = g_sha256 g (upload_content input) \<and> x = with_url g e \<and>
    OpenObject (g_backend g) (r_StoragePath e) (w_bucket w1) = Some ob \<and>
    g_sha256 g (ob_Body ob) = r_SHA256 e \<and> int (length (ob_Body ob)) = r_SizeBytes e"
proof -
  have c: "svc_inv g w" using reaches_consistent [OF assms(1,2)] by (simp add: svc_inv_def)
  have kept: "svc_inv g (fst (publish g q input authorize w))"
    using keeps_publish [OF assms(1), of q input] c
    by (cases authorize) (simp_all add: Publish_def PublishAuthorized_def keeps_def)
  have "db_ok g (\<lambda>_. True) w" using consistentD(1) c by (simp add: db_state_def svc_inv_def)
  from hoareD [OF publish_publishes [OF assms(1)] this, of input q authorize] assms(3)
  obtain input1 where n: "named_by_archive g input input1"
      and p: "published g input1 (upload_content input) (Inr x) w1" and inv: "db_inv (g_sv g) (w_db w1)"
    by (auto simp: accepts_def db_state_def)
  from p obtain e where e: "e \<in> catalog (w_db w1)" "x = with_url g e" "r_Source e = ''local''"
      "r_SHA256 e = g_sha256 g (upload_content input)" "key_of e = (pi_Owner input1, pi_Name input1, pi_Version input1)"
    by (auto simp: published_def)
  from n e(5) obtain info where info: "key_of e = (in_Owner info, in_Name info, in_Version info)"
      "inspectModuleArchive (g_lower g) (g_decode_metadata g) (g_untar g (upload_content input)) = Inr info"
    unfolding named_by_archive_def by auto
  have got: "GetRelease (w_db w1) (in_Owner info) (in_Name info) (in_Version info) = Inr e"
    unfolding GetRelease_catalog(1) [OF inv] using e(1) info(1) by blast
  have "held g (w_bucket w1) e" using consistentD(3) kept assms(3) e(1,3) by (simp add: svc_inv_def)
  then obtain ob where "OpenObject (g_backend g) (r_StoragePath e) (w_bucket w1) = Some ob"
      "r_SHA256 e = g_sha256 g (ob_Body ob)" "r_SizeBytes e = int (length (ob_Body ob))"
    by (rule heldE)
  with e info(2) got show ?thesis by metis
qed

definition example_world :: "db \<times> bucket \<Rightarrow> fault list \<Rightarrow> world" where
  "example_world sb faults = \<lparr>w_db = fst sb, w_bucket = snd sb, w_ctx = None, w_faults = faults\<rparr>"

definition example_publish :: "world \<times> release outcome" where
  "example_publish =
     publish (example_service S3 ''modules'') (example_request 7 ''1'') example_upload None (example_world (empty_db, []) [])"

theorem publish_answers_witness:
  "\<exists>e ob. GetRelease (w_db (fst example_publish)) ''acme'' ''web'' ''1.0.0'' = Inr e \<and> r_SHA256 e = ''bytes'' \<and>
     OpenObject S3 (r_StoragePath e) (w_bucket (fst example_publish)) = Some ob \<and>
     int (length (ob_Body ob)) = r_SizeBytes e"
proof -
  have "\<not> isl (snd example_publish)" by code_simp
  then obtain x where x: "example_publish = (fst example_publish, Inr x)" by (cases "snd example_publish") (auto simp: prod_eq_iff)
  let ?g = "example_service S3 ''modules''"
  have r: "reaches ?g (w_db (example_world (empty_db, []) []), w_bucket (example_world (empty_db, []) []))"
    by (simp add: example_world_def reaches_empty)
  have "map_sum (\<lambda>_. ()) (\<lambda>i. (in_Owner i, in_Name i, in_Version i))
      (inspectModuleArchive (g_lower ?g) (g_decode_metadata ?g) (g_untar ?g (upload_content example_upload))) =
      Inr (''acme'', ''web'', ''1.0.0'')" by code_simp
  moreover have "g_sha256 ?g (upload_content example_upload) = ''bytes''" "g_backend ?g = S3" by code_simp+
  ultimately show ?thesis
    using publish_answers [OF example_service_ok r x [unfolded example_publish_def]]
    unfolding example_publish_def [symmetric] by (auto simp del: reaches.simps)
qed

text \<open>
  C9: A publication without the replace flag never changes a stored release, whatever else is wrong
  with it and whichever of its calls fail: every release that the catalog had before is answered
  unchanged afterwards. With the flag only the release of the declared identity changes.
\<close>

theorem publish_never_overwrites:
  assumes "service_ok g" "reaches g (w_db w, w_bucket w)" "GetRelease (w_db w) owner name version = Inr e"
    and "\<not> pi_Replace input \<or>
      (\<forall>info. inspectModuleArchive (g_lower g) (g_decode_metadata g) (g_untar g (upload_content input)) = Inr info \<longrightarrow>
        (in_Owner info, in_Name info, in_Version info) \<noteq> (owner, name, version))"
  shows "GetRelease (w_db (fst (publish g q input authorize w))) owner name version = Inr e"
proof -
  have inv: "db_inv (g_sv g) (w_db w)" using reaches_consistent [OF assms(1,2)] consistentD(1) by simp
  then have e: "e \<in> catalog (w_db w)" "key_of e = (owner, name, version)"
    using GetRelease_catalog(1) assms(3) by blast+
  have w: "db_ok g (\<lambda>c. e \<in> c) w" using inv e(1) by (simp add: db_state_def)
  have acc: "accepts g input1 (upload_content input) (\<lambda>c. e \<in> c)" if "named_by_archive g input input1" for input1
  proof -
    have "key_of e \<noteq> key_of e'"
      if "db_state g (\<lambda>c. e \<in> c) s" "written g input1 (upload_content input) e'"
        "\<not> pi_Replace input1 \<longrightarrow> (\<forall>p \<in> catalog s. key_of p \<noteq> key_of e')" for s e'
      using that \<open>named_by_archive g input input1\<close> assms(4) e(2)
      unfolding named_by_archive_def written_def db_state_def by metis
    then show ?thesis unfolding accepts_def put_release_def by (auto dest: db_stateD(2))
  qed
  from hoareD [OF publish_publishes [OF assms(1) acc] w]
  have "db_state g (\<lambda>c. e \<in> c) (w_db (fst (publish g q input authorize w)))" by blast
  then show ?thesis using GetRelease_catalog(1) e(2) by (auto simp: db_state_def)
qed

text \<open>The same identity with other bytes, while the answer of the commit is lost.\<close>

definition other_upload :: publish_input where
  "other_upload = example_upload\<lparr>pi_File := Some ''other''\<rparr>"

theorem publish_never_overwrites_witness:
  "\<exists>e. GetRelease (w_db (fst (publish (example_service S3 ''modules'') (example_request 8 ''2'') other_upload None
      (example_world example_state [])))) ''acme'' ''web'' ''1.0.0'' = Inr e \<and> r_SHA256 e = ''bytes''"
proof -
  let ?w = "example_world example_state []"
  have "map_sum (\<lambda>_. ()) r_SHA256 (GetRelease (w_db ?w) ''acme'' ''web'' ''1.0.0'') = Inr ''bytes''" by code_simp
  then obtain e where e: "GetRelease (w_db ?w) ''acme'' ''web'' ''1.0.0'' = Inr e" "r_SHA256 e = ''bytes''"
    by (cases "GetRelease (w_db ?w) ''acme'' ''web'' ''1.0.0''") auto
  have r: "reaches (example_service S3 ''modules'') (w_db ?w, w_bucket ?w)"
    using example_reached by (simp add: example_world_def)
  have "\<not> pi_Replace other_upload" by (simp add: other_upload_def example_upload_def)
  with publish_never_overwrites [OF example_service_ok r e(1)] e(2) show ?thesis by blast
qed

end
