(* ===== verification/DeletionProperties.thy ===== *)
theory DeletionProperties
  imports ServiceProperties
begin

text \<open>
  Deletions: what the guarded operations refuse to delete, and that a release an operator deleted is
  not brought back by indexing the upstream.
\<close>

section \<open>Guarded deletions\<close>

lemma fst_svc_then: "fst (svc_then m f w) = (case snd (m w) of Inl e \<Rightarrow> fst (m w) | Inr x \<Rightarrow> fst (f x (fst (m w))))"
  by (simp add: svc_then_def svc_try_def case_prod_unfold svc_error_def split: sum.split)

lemma snd_svc_then: "snd (svc_then m f w) = (case snd (m w) of Inl e \<Rightarrow> Inl e | Inr x \<Rightarrow> snd (f x (fst (m w))))"
  by (simp add: svc_then_def svc_try_def case_prod_unfold svc_error_def split: sum.split)

lemma svc_simple_simps [simp]: "fst (svc_error e w) = w" "snd (svc_error e w) = Inl e" "fst (svc_return x w) = w" "snd (svc_return x w) = Inr x"
  by (simp_all add: svc_error_def svc_return_def)

lemma active_read:
  "snd (isReleaseActive owner name version since w) = Inr a \<Longrightarrow> a = IsReleaseActive (w_db w) owner name version since"
  "w_db (fst (isReleaseActive owner name version since w)) = w_db w"
  unfolding isReleaseActive_def by (auto dest: db_read_Inr)

lemma reject_active_state: "w_db (fst (reject_active owner name since vs w)) = w_db w"
  by (induction vs arbitrary: w) (auto simp: fst_svc_then active_read(2) split: sum.split)

lemma reject_active_none:
  "snd (reject_active owner name since vs w) = Inr x \<Longrightarrow> v \<in> set vs \<Longrightarrow> \<not> IsReleaseActive (w_db w) owner name v since"
proof (induction vs arbitrary: w)
  case (Cons u vs)
  then have na: "snd (isReleaseActive owner name u since w) = Inr False"
      "snd (reject_active owner name since vs (fst (isReleaseActive owner name u since w))) = Inr x"
    by (auto simp: snd_svc_then split: sum.splits if_splits)
  show ?case
    using Cons.IH [OF na(2)] Cons.prems(2) active_read [of owner name u since w] na(1) by auto
qed simp

text \<open>What an operation does that ends in a check: nothing at all, or the last step in the same database.\<close>

definition same_db :: "world \<Rightarrow> 'a svc \<Rightarrow> bool" where
  "same_db w m \<longleftrightarrow> w_db (fst (m w)) = w_db w \<and> (\<forall>x. snd (m w) \<noteq> Inr x)"

lemma same_db_then:
  assumes "w_db (fst (m w)) = w_db w" "\<And>x w1. snd (m w) = Inr x \<Longrightarrow> w1 = fst (m w) \<Longrightarrow> same_db w1 (f x)"
  shows "same_db w (svc_then m f)"
  using assms by (cases "snd (m w)") (simp_all add: same_db_def fst_svc_then snd_svc_then)

lemma same_db_error: "same_db w (svc_error e)"
  by (simp add: same_db_def)

text \<open>
  C30: The guarded deletion of the management interface deletes no protected release. Whatever call
  fails, the database is left as it is, and no success is reported, when the release is the latest of
  its module or was downloaded since the given instant.
\<close>

theorem protected_release_kept:
  assumes "GetModule (w_db w) owner name = Inr m"
    and "m_LatestVersion m = version \<or> IsReleaseActive (w_db w) owner name version since"
  shows "w_db (fst (DeleteReleaseIfAllowed g q owner name version since w)) = w_db w \<and>
    \<not> (\<exists>x. snd (DeleteReleaseIfAllowed g q owner name version since w) = Inr x)"
proof -
  have "same_db w (DeleteReleaseIfAllowed g q owner name version since)"
    unfolding DeleteReleaseIfAllowed_def
  proof (rule same_db_then)
    fix w1 :: world and u :: unit
    assume "w1 = fst (io_call w)"
    then have w1: "w_db w1 = w_db w" by simp
    show "same_db w1 (svc_then (db_read (\<lambda>s. GetModule s owner name)) (\<lambda>mdl.
       if m_LatestVersion mdl = version then svc_error (ProtectedDelete ''latest release cannot be deleted'')
       else
         svc_then (isReleaseActive owner name version since) (\<lambda>active.
           if active then svc_error (ProtectedDelete ''active release cannot be deleted'')
           else deleteReleaseLocked g q owner name version)))"
    proof (rule same_db_then)
      fix mdl w2
      assume "snd (db_read (\<lambda>s. GetModule s owner name) w1) = Inr mdl" and w2: "w2 = fst (db_read (\<lambda>s. GetModule s owner name) w1)"
      then have mdl: "mdl = m" using assms(1) w1 by (auto dest: db_read_Inr)
      have "same_db w2 (svc_then (isReleaseActive owner name version since) (\<lambda>active.
           if active then svc_error (ProtectedDelete ''active release cannot be deleted'')
           else deleteReleaseLocked g q owner name version))" if "m_LatestVersion m \<noteq> version"
        by (rule same_db_then) (use assms(2) that w1 w2 in \<open>auto intro: same_db_error simp: active_read(2) dest: active_read(1)\<close>)
      then show "same_db w2 (if m_LatestVersion mdl = version then svc_error (ProtectedDelete ''latest release cannot be deleted'')
       else
         svc_then (isReleaseActive owner name version since) (\<lambda>active.
           if active then svc_error (ProtectedDelete ''active release cannot be deleted'')
           else deleteReleaseLocked g q owner name version))"
        by (auto simp: mdl intro: same_db_error)
    qed simp
  qed simp
  then show ?thesis by (simp add: same_db_def)
qed

theorem protected_release_kept_witness:
  "w_db (fst (DeleteReleaseIfAllowed (example_service S3 ''modules'') (example_request 9 ''3'') ''acme'' ''web'' ''1.0.0'' 8
     (example_world example_state [Answered, Answered, Lost]))) = fst example_state"
proof -
  let ?w = "example_world example_state [Answered, Answered, Lost]"
  have "map_sum (\<lambda>_. ()) m_LatestVersion (GetModule (w_db ?w) ''acme'' ''web'') = Inr ''1.0.0''" by code_simp
  then obtain m where m: "GetModule (w_db ?w) ''acme'' ''web'' = Inr m" "m_LatestVersion m = ''1.0.0''"
    by (cases "GetModule (w_db ?w) ''acme'' ''web''") auto
  from protected_release_kept [OF m(1) disjI1 [OF m(2)]] show ?thesis by (simp add: example_world_def)
qed

text \<open>
  The guarded deletion of a module deletes nothing when one of the versions it lists was
  downloaded since the given instant, whatever call fails.
\<close>

theorem active_module_kept:
  assumes "mv \<in> set (ListReleases (g_sv g) (w_db w) owner name)"
    and "IsReleaseActive (w_db w) owner name (mv_Version mv) since"
  shows "w_db (fst (DeleteModuleIfAllowed g q owner name since w)) = w_db w \<and>
    \<not> (\<exists>x. snd (DeleteModuleIfAllowed g q owner name since w) = Inr x)"
proof -
  have "same_db w (DeleteModuleIfAllowed g q owner name since)"
    unfolding DeleteModuleIfAllowed_def
  proof (rule same_db_then)
    fix w1 :: world and u :: unit
    assume "w1 = fst (io_call w)"
    then have w1: "w_db w1 = w_db w" by simp
    show "same_db w1 (svc_then (db_read (\<lambda>s. Inr (ListReleases (g_sv g) s owner name))) (\<lambda>versions.
     svc_then (reject_active owner name since (map mv_Version versions)) (\<lambda>_. deleteModuleLocked g q owner name)))"
    proof (rule same_db_then)
      fix versions w2
      assume "snd (db_read (\<lambda>s. Inr (ListReleases (g_sv g) s owner name)) w1) = Inr versions"
        and w2: "w2 = fst (db_read (\<lambda>s. Inr (ListReleases (g_sv g) s owner name)) w1)"
      then have v: "versions = ListReleases (g_sv g) (w_db w) owner name" using w1 by (auto dest: db_read_Inr)
      show "same_db w2 (svc_then (reject_active owner name since (map mv_Version versions)) (\<lambda>_. deleteModuleLocked g q owner name))"
        by (rule same_db_then)
          (use reject_active_none [of owner name since "map mv_Version versions" w2 _ "mv_Version mv"] assms v w1 w2
           in \<open>auto simp: reject_active_state\<close>)
    qed simp
  qed simp
  then show ?thesis by (simp add: same_db_def)
qed

definition used_state :: db where
  "used_state = MarkReleaseUsed (request_env (example_service S3 ''modules'') (example_request 9 ''3'')) (fst example_state)
     ''acme'' ''web'' ''1.0.0''"

theorem active_module_kept_witness:
  "w_db (fst (DeleteModuleIfAllowed (example_service S3 ''modules'') (example_request 9 ''3'') ''acme'' ''web'' 0
     (example_world (used_state, []) []))) = used_state"
proof -
  let ?g = "example_service S3 ''modules''"
  let ?w = "example_world (used_state, []) []"
  have "map mv_Version (ListReleases (g_sv ?g) (w_db ?w) ''acme'' ''web'') = [''1.0.0'']"
    "IsReleaseActive (w_db ?w) ''acme'' ''web'' ''1.0.0'' 0" by code_simp+
  then obtain mv where mv: "mv \<in> set (ListReleases (g_sv ?g) (w_db ?w) ''acme'' ''web'')"
      "IsReleaseActive (w_db ?w) ''acme'' ''web'' (mv_Version mv) 0"
    by (cases "ListReleases (g_sv ?g) (w_db ?w) ''acme'' ''web''") auto
  from active_module_kept [OF mv] show ?thesis by (simp add: example_world_def)
qed

section \<open>Deleted upstream releases\<close>

text \<open>A version that was deleted and is not in the catalog.\<close>

definition suppressed :: "service \<Rightarrow> string \<times> string \<times> string \<Rightarrow> db \<Rightarrow> bool" where
  "suppressed g k s \<longleftrightarrow>
     db_inv (g_sv g) s \<and> (case k of (owner, name, version) \<Rightarrow> IsReleaseDeleted s owner name version ''upstream'') \<and>
     (\<forall>e \<in> catalog s. key_of e \<noteq> k)"

definition suppressed_in :: "service \<Rightarrow> string \<times> string \<times> string \<Rightarrow> domain_module \<Rightarrow> db \<Rightarrow> bool" where
  "suppressed_in g k m s \<longleftrightarrow> suppressed g k s \<and> (m_ID m, m_Owner m, m_Name m) \<in> identities (db_modules s)"

lemma IsReleaseDeleted_cong: "db_tombstones t = db_tombstones s \<Longrightarrow> IsReleaseDeleted t = IsReleaseDeleted s"
  by (intro ext) (simp add: IsReleaseDeleted_def)

lemma UpsertModule_tombstones: "db_tombstones (fst (UpsertModule v s owner name)) = db_tombstones s"
  by (simp add: UpsertModule_def Let_def split: option.split)

lemma createRelease_tombstones: "db_tombstones (snd (fst (createRelease v c s r co))) = db_tombstones s"
proof (cases rule: createRelease_cases [of v c s r co])
  case (finished tx n current c1 s1)
  have "db_tombstones tx = db_tombstones s"
    using finished(1) by (auto simp: insert_release_row_def Let_def split: if_splits option.splits)
  then have "db_tombstones (create_outbox v s r co tx) = db_tombstones s"
    by (simp add: create_outbox_def Let_def split: prod.split)
  then show ?thesis
    using commit_cases [OF finished(4)] finished(5) by (auto simp: updateLatestVersion_def)
qed simp

lemma index_version_suppressed:
  assumes g: "service_ok g"
  shows "hoare (\<lambda>w. suppressed_in g k m (w_db w)) (index_version g q m ref) (\<lambda>_ w. suppressed_in g k m (w_db w))"
  unfolding index_version_def
proof (rule hoare_then [where R = "\<lambda>r w. suppressed_in g k m (w_db w) \<and>
      (r = Inr False \<longrightarrow> (m_Owner m, m_Name m, rf_Version ref) \<noteq> k)"])
  show "hoare (\<lambda>w. suppressed_in g k m (w_db w)) (isDeletedUpstreamRelease (m_Owner m) (m_Name m) (rf_Version ref))
      (\<lambda>r w. suppressed_in g k m (w_db w) \<and> (r = Inr False \<longrightarrow> (m_Owner m, m_Name m, rf_Version ref) \<noteq> k))"
    unfolding isDeletedUpstreamRelease_def
    by (rule hoareI) (auto simp: suppressed_in_def suppressed_def dest: db_read_Inr)
  fix deleted
  let ?r = "upstreamDomainRelease m (no_upstream_release\<lparr>
             up_Slug := fallbackString (rf_Slug ref) (m_Owner m @ ''-'' @ m_Name m @ ''-'' @ rf_Version ref),
             up_Version := rf_Version ref\<rparr>)"
  have key: "key_of ?r = (m_Owner m, m_Name m, rf_Version ref)" "r_ModuleID ?r = m_ID m"
      "r_Owner ?r = m_Owner m" "r_Name ?r = m_Name m"
    by (simp_all add: upstreamDomainRelease_def key_of_def)
  have create: "hoare (\<lambda>w. suppressed_in g k m (w_db w)) (db_call (\<lambda>c s. CreateReleaseIfAbsent (request_env g q) c s ?r))
      (\<lambda>_ w. suppressed_in g k m (w_db w))" if "(m_Owner m, m_Name m, rf_Version ref) \<noteq> k"
    unfolding CreateReleaseIfAbsent_def
  proof (rule hoare_state_db [where Q = "\<lambda>_ s. suppressed_in g k m s"])
    fix c s c1 s1 and r :: "release result"
    assume s: "suppressed_in g k m s" and run: "createRelease (request_env g q) c s ?r True = ((c1, s1), r)"
    have sv: "semver_package (v_sv (request_env g q))" "db_inv (v_sv (request_env g q)) s"
      using g s by (simp_all add: request_env_def service_ok_def suppressed_in_def suppressed_def)
    have ids: "(r_ModuleID ?r, r_Owner ?r, r_Name ?r) \<in> identities (db_modules s)"
      using s unfolding key suppressed_in_def by simp
    have inv1: "db_inv (g_sv g) s1" using createRelease_inv [OF sv, of c ?r True] run by (simp add: request_env_def)
    have dels: "IsReleaseDeleted s1 = IsReleaseDeleted s"
      by (rule IsReleaseDeleted_cong) (use createRelease_tombstones [of "request_env g q" c s ?r True] run in simp)
    have "suppressed_in g k m s1"
    proof (cases rule: createRelease_effect [OF sv ids, where c = c and co = True])
      case (1 e)
      with run s show ?thesis by simp
    next
      case (2 c2 s2 e)
      then have "s1 = s2" using run by simp
      then show ?thesis
        using 2 s inv1 dels that key(1) by (auto simp: suppressed_in_def suppressed_def put_release_def)
    qed
    then show "suppressed_in g k m s1 \<and> suppressed_in g k m s1" by simp
  qed
  have rest: "hoare (\<lambda>w. suppressed_in g k m (w_db w))
      (svc_then (createUpstreamReleaseIfAbsent g q ?r) (\<lambda>_. svc_return True)) (\<lambda>_ w. suppressed_in g k m (w_db w))"
    if "(m_Owner m, m_Name m, rf_Version ref) \<noteq> k"
    unfolding createUpstreamReleaseIfAbsent_def keeps_hoare [symmetric]
    by (intro keeps_then keeps_try create [OF that, folded keeps_hoare]) (auto split: sum.split intro: keeps_simple)
  show "hoare (\<lambda>w. suppressed_in g k m (w_db w) \<and> (Inr deleted = Inr False \<longrightarrow> (m_Owner m, m_Name m, rf_Version ref) \<noteq> k))
      (if deleted then svc_return False
       else svc_then (createUpstreamReleaseIfAbsent g q ?r) (\<lambda>_. svc_return True)) (\<lambda>_ w. suppressed_in g k m (w_db w))"
  proof (cases deleted)
    case True
    then show ?thesis by (auto intro: hoare_return)
  next
    case False
    show ?thesis
    proof (cases "(m_Owner m, m_Name m, rf_Version ref) = k")
      case True
      with False show ?thesis by (simp add: hoare_def)
    next
      case ne: False
      with False rest [OF ne] show ?thesis by simp
    qed
  qed
qed simp

lemma index_suppressed:
  assumes g: "service_ok g"
  shows "keeps (\<lambda>w. suppressed g k (w_db w)) (IndexUpstreamModule g q u)"
proof -
  have version: "keeps (\<lambda>w. suppressed_in g k m (w_db w)) (index_version g q m ref)" for m ref
    unfolding keeps_hoare by (rule index_version_suppressed [OF g])
  have refs: "keeps (\<lambda>w. suppressed_in g k m (w_db w)) (index_refs g q m slug rs)" for m slug rs
    by (induction rs) (auto simp: Let_def intro!: keeps_simple keeps_then version)
  let ?cur = "if rf_Version (um_CurrentRelease u) = [] then ReleaseVersionFromSlug (um_Slug u) (rf_Slug (um_CurrentRelease u))
        else rf_Version (um_CurrentRelease u)"
  let ?tail = "\<lambda>m. svc_then (index_refs g q m (um_Slug u) (um_Releases u)) (\<lambda>_.
               if ?cur = [] then svc_return ()
               else svc_then (index_version g q m ((um_CurrentRelease u)\<lparr>rf_Version := ?cur\<rparr>)) (\<lambda>_. svc_return ()))"
  have tail: "keeps (\<lambda>w. suppressed_in g k m (w_db w)) (?tail m)" for m
    by (intro keeps_then refs keeps_if keeps_simple version)
  have io: "keeps (\<lambda>w. suppressed g k (w_db w)) io_call" by (simp add: keeps_def)
  have up: "hoare (\<lambda>w. suppressed g k (w_db w)) (db_write (\<lambda>s. UpsertModule (request_env g q) s (um_Owner u) (um_Name u)))
      (\<lambda>r w. suppressed g k (w_db w) \<and> (\<forall>m. r = Inr m \<longrightarrow> suppressed_in g k m (w_db w)))"
    unfolding db_write_def
  proof (rule hoare_state_db)
    fix c s c1 s1 and r :: "domain_module result"
    assume s: "suppressed g k s"
      and "(case UpsertModule (request_env g q) s (um_Owner u) (um_Name u) of (s1, r) \<Rightarrow> ((c, s1), r)) = ((c1, s1), r)"
    then have run: "UpsertModule (request_env g q) s (um_Owner u) (um_Name u) = (s1, r)" by (auto split: prod.splits)
    have inv: "db_inv (g_sv g) s" using s by (simp add: suppressed_def)
    have "IsReleaseDeleted s1 = IsReleaseDeleted s"
      by (rule IsReleaseDeleted_cong) (use UpsertModule_tombstones [of "request_env g q" s "um_Owner u" "um_Name u"] run in simp)
    then have s1: "suppressed g k s1"
      using s UpsertModule_inv [OF inv, of "request_env g q" "um_Owner u" "um_Name u"]
        UpsertModule_effect(1) [OF inv, of "request_env g q" "um_Owner u" "um_Name u"] run
      by (simp add: suppressed_def)
    then have "\<forall>m. r = Inr m \<longrightarrow> suppressed_in g k m s1"
      using UpsertModule_effect(5) [OF inv, of "request_env g q" "um_Owner u" "um_Name u"] run
      by (simp add: suppressed_in_def)
    with s1 show "(suppressed g k s1 \<and> (\<forall>m. map_sum StoreFault (\<lambda>x. x) r = Inr m \<longrightarrow> suppressed_in g k m s1)) \<and>
        suppressed g k s1 \<and> (\<forall>m. Inl Unavailable = Inr m \<longrightarrow> suppressed_in g k m s1)"
      by (cases r) auto
  qed simp
  have "hoare (\<lambda>w. suppressed g k (w_db w)) (svc_then io_call (\<lambda>_.
      svc_then (db_write (\<lambda>s. UpsertModule (request_env g q) s (um_Owner u) (um_Name u))) ?tail)) (\<lambda>_ w. suppressed g k (w_db w))"
  proof (rule hoare_then [where R = "\<lambda>_ w. suppressed g k (w_db w)"])
    show "hoare (\<lambda>w. suppressed g k (w_db w)) (svc_then (db_write (\<lambda>s. UpsertModule (request_env g q) s (um_Owner u) (um_Name u))) ?tail)
        (\<lambda>_ w. suppressed g k (w_db w))" for x :: unit
    proof (rule hoare_then [OF up])
      fix m
      show "hoare (\<lambda>w. suppressed g k (w_db w) \<and> (\<forall>m'. Inr m = Inr m' \<longrightarrow> suppressed_in g k m' (w_db w))) (?tail m)
          (\<lambda>_ w. suppressed g k (w_db w))"
        by (rule hoare_weaken [OF tail [unfolded keeps_hoare]]) (auto simp: suppressed_in_def)
    qed simp
  qed (use io in \<open>simp_all add: keeps_hoare\<close>)
  then show ?thesis
    unfolding IndexUpstreamModule_def Let_def keeps_hoare by (auto intro: hoare_error)
qed

text \<open>
  C10: A release of the upstream that was deleted stays deleted: while its tombstone is kept, neither
  indexing what the upstream announces, nor the synchronization of a module, nor the refresh of the
  least recently refreshed modules brings it back, whatever the upstream answers and whichever calls
  fail.
\<close>

theorem indexing_respects_tombstones:
  assumes "service_ok g" "reaches g (w_db w, w_bucket w)"
    and "IsReleaseDeleted (w_db w) owner name version ''upstream''"
    and "GetRelease (w_db w) owner name version = Inl ErrNotFound"
    and "x \<in> {SIndex u, SSync owner' name', SRefresh limit}"
  shows "GetRelease (w_db (service_effect g q x w)) owner name version = Inl ErrNotFound"
proof -
  let ?k = "(owner, name, version)"
  let ?S = "\<lambda>w. suppressed g ?k (w_db w)"
  have inv: "db_inv (g_sv g) (w_db w)" using reaches_consistent [OF assms(1,2)] consistentD(1) by simp
  then have s: "?S w" using assms(3,4) GetRelease_catalog(2) [OF inv] by (simp add: suppressed_def)
  note index = index_suppressed [OF assms(1), of ?k q]
  have sync: "keeps ?S (SyncUpstreamModule g q o' n')" for o' n'
    unfolding SyncUpstreamModule_def
    by (auto split: option.split intro!: keeps_simple keeps_then keeps_lift_any index)
  have mark: "keeps ?S (db_write (\<lambda>s. MarkUpstreamModuleRefreshAttempt s o' n' at))" for o' n' at
  proof -
    have "suppressed g ?k (fst (MarkUpstreamModuleRefreshAttempt s o' n' at))" if s: "suppressed g ?k s" for s
    proof -
      let ?t = "fst (MarkUpstreamModuleRefreshAttempt s o' n' at)"
      have "catalog ?t = catalog s" "db_tombstones ?t = db_tombstones s"
        by (simp_all add: MarkUpstreamModuleRefreshAttempt_def catalog_def identities_refresh)
      then have "catalog ?t = catalog s" "IsReleaseDeleted ?t = IsReleaseDeleted s"
        using IsReleaseDeleted_cong by blast+
      then show ?thesis using s MarkUpstream_inv [of "g_sv g" s] by (simp add: suppressed_def)
    qed
    then show ?thesis
      unfolding db_write_def by (intro keeps_db) (auto simp: case_prod_unfold)
  qed
  have all: "keeps ?S (refresh_modules g q errs ms)" for errs ms
    by (induction ms arbitrary: errs) (auto intro!: keeps_simple keeps_try sync mark)
  have read: "keeps ?S (db_read f)" for f :: "db \<Rightarrow> domain_module list result" by (simp add: keeps_def)
  have refresh: "keeps ?S (RefreshCachedUpstreamModules g q limit)"
    unfolding RefreshCachedUpstreamModules_def
    by (auto split: list.split intro!: keeps_simple keeps_then read all)
  have "?S (service_effect g q x w)"
    using assms(5) s index [of u] sync [of owner' name'] refresh by (auto simp: effect_def keeps_def)
  then have "db_inv (g_sv g) (w_db (service_effect g q x w))" "\<forall>e \<in> catalog (w_db (service_effect g q x w)). key_of e \<noteq> ?k"
    by (simp_all add: suppressed_def)
  then show ?thesis using GetRelease_catalog(2) by simp
qed

text \<open>A module of the upstream is indexed, one of its releases deleted, and the module indexed again.\<close>

definition announced :: upstream_module where
  "announced =
     \<lparr>um_Slug = ''acme-db'', um_Owner = ''acme'', um_Name = ''db'',
      um_CurrentRelease = \<lparr>rf_Slug = ''acme-db-2.0.0'', rf_Version = ''2.0.0''\<rparr>,
      um_Releases = [\<lparr>rf_Slug = ''acme-db-1.0.0'', rf_Version = []\<rparr>]\<rparr>"

definition deleted_state :: "db \<times> bucket" where
  "deleted_state =
     service_exec (example_service S3 ''modules'') (example_step (SDeleteRelease ''acme'' ''db'' ''1.0.0'') 8 ''2'')
       (service_exec (example_service S3 ''modules'') (example_step (SIndex announced) 7 ''1'') (empty_db, []))"

theorem indexing_respects_tombstones_witness:
  "GetRelease (w_db (service_effect (example_service S3 ''modules'') (example_request 9 ''3'') (SIndex announced)
     (example_world deleted_state []))) ''acme'' ''db'' ''1.0.0'' = Inl ErrNotFound"
proof -
  let ?g = "example_service S3 ''modules''"
  let ?w = "example_world deleted_state []"
  let ?s1 = "service_exec ?g (example_step (SIndex announced) 7 ''1'') (empty_db, [])"
  have "reaches ?g ?s1" by (rule reaches_step [OF reaches_empty]) (simp add: example_step_def)
  then have "reaches ?g (fst ?s1, snd ?s1)" by simp
  then have "reaches ?g deleted_state"
    unfolding deleted_state_def by (subst (2) prod.collapse [symmetric]) (rule reaches_step, assumption, simp add: example_step_def)
  then have r: "reaches ?g (w_db ?w, w_bucket ?w)" by (simp add: example_world_def)
  have d: "IsReleaseDeleted (w_db ?w) ''acme'' ''db'' ''1.0.0'' ''upstream''" by code_simp
  have "(case GetRelease (w_db ?w) ''acme'' ''db'' ''1.0.0'' of Inl e \<Rightarrow> e = ErrNotFound | Inr _ \<Rightarrow> False)" by code_simp
  then have n: "GetRelease (w_db ?w) ''acme'' ''db'' ''1.0.0'' = Inl ErrNotFound" by (simp split: sum.splits)
  from indexing_respects_tombstones [OF example_service_ok r d n, of "SIndex announced" announced] show ?thesis by simp
qed

end
