(* ===== verification/ResponseCache.thy ===== *)
theory ResponseCache
  imports HttpUtil
begin

text \<open>
  The cache of upstream JSON responses (\<open>internal/proxy/cache.go\<close>). Every operation runs under the
  mutex of the cache; \<open>Set\<close> releases it before it evicts, and both halves are one step here. Go
  leaves the order of a map and of equal sort keys open; the model takes the order of the list.
\<close>

section \<open>State and operations\<close>

record cache_entry =
  ce_StatusCode :: int
  ce_Header :: header
  ce_Body :: string
  ce_StoredAt :: time
  ce_ExpiresAt :: time
  ce_StaleUntil :: time

record response_cache =
  rc_entries :: "(string, cache_entry) gomap"
  rc_maxEntries :: int
  rc_maxBytes :: int
  rc_bytes :: int

definition defaultMaxCacheEntries :: int where "defaultMaxCacheEntries = 1000"
definition defaultMaxCacheBytes :: int where "defaultMaxCacheBytes = 16 * 2 ^ 20"

definition NewResponseCache :: response_cache where
  "NewResponseCache =
     \<lparr>rc_entries = [], rc_maxEntries = defaultMaxCacheEntries, rc_maxBytes = defaultMaxCacheBytes, rc_bytes = 0\<rparr>"

definition cacheRetentionDeadline :: "cache_entry \<Rightarrow> time" where
  "cacheRetentionDeadline e = (if ce_ExpiresAt e < ce_StaleUntil e then ce_StaleUntil e else ce_ExpiresAt e)"

definition overLimitLocked :: "response_cache \<Rightarrow> bool" where
  "overLimitLocked c =
     ((0 < rc_maxEntries c \<and> rc_maxEntries c < int (length (rc_entries c))) \<or>
      (0 < rc_maxBytes c \<and> rc_maxBytes c < rc_bytes c))"

text \<open>\<open>delete(c.entries, key)\<close> with the bytes of an entry that is there.\<close>

definition rc_remove :: "string \<Rightarrow> response_cache \<Rightarrow> response_cache" where
  "rc_remove key c =
     (case map_of (rc_entries c) key of
        None \<Rightarrow> c
      | Some e \<Rightarrow> c\<lparr>rc_entries := map_del key (rc_entries c), rc_bytes := rc_bytes c - int (length (ce_Body e))\<rparr>)"

definition deleteExpired :: "string \<Rightarrow> time \<Rightarrow> response_cache \<Rightarrow> response_cache" where
  "deleteExpired key now c =
     (case map_of (rc_entries c) key of
        None \<Rightarrow> c
      | Some e \<Rightarrow> if cacheRetentionDeadline e < now then rc_remove key c else c)"

definition rc_Get :: "string \<Rightarrow> time \<Rightarrow> response_cache \<Rightarrow> response_cache \<times> cache_entry option" where
  "rc_Get key now c =
     (case map_of (rc_entries c) key of
        None \<Rightarrow> (c, None)
      | Some e \<Rightarrow> if ce_ExpiresAt e < now then (deleteExpired key now c, None) else (c, Some e))"

definition rc_GetStale :: "string \<Rightarrow> time \<Rightarrow> time \<Rightarrow> response_cache \<Rightarrow> response_cache \<times> cache_entry option" where
  "rc_GetStale key now maxStaleAge c =
     (if maxStaleAge \<le> 0 then (deleteExpired key now c, None)
      else case map_of (rc_entries c) key of
        None \<Rightarrow> (c, None)
      | Some e \<Rightarrow> if ce_ExpiresAt e + maxStaleAge < now then (rc_remove key c, None) else (c, Some e))"

fun evict_until :: "string list \<Rightarrow> response_cache \<Rightarrow> response_cache" where
  "evict_until [] c = c"
| "evict_until (key # keys) c = (if overLimitLocked c then evict_until keys (rc_remove key c) else c)"

definition rc_evict :: "time \<Rightarrow> response_cache \<Rightarrow> response_cache" where
  "rc_evict now c =
     (let c1 = fold (\<lambda>(k, e) d. if cacheRetentionDeadline e < now then rc_remove k d else d) (rc_entries c) c
      in if \<not> overLimitLocked c1 then c1
         else evict_until (map fst (sort_key (\<lambda>(k, e). cacheRetentionDeadline e) (rc_entries c1))) c1)"

definition rc_Set :: "string \<Rightarrow> cache_entry \<Rightarrow> time \<Rightarrow> response_cache \<Rightarrow> response_cache" where
  "rc_Set key entry now c =
     (if 0 < rc_maxBytes c \<and> rc_maxBytes c < int (length (ce_Body entry)) then rc_remove key c
      else
        let old = (case map_of (rc_entries c) key of None \<Rightarrow> 0 | Some e \<Rightarrow> int (length (ce_Body e)));
            c1 = c\<lparr>rc_entries := map_set key entry (rc_entries c),
                   rc_bytes := rc_bytes c - old + int (length (ce_Body entry))\<rparr>
        in if overLimitLocked c1 then rc_evict now c1 else c1)"

section \<open>Accounting\<close>

text \<open>The byte counter is the size of the stored bodies.\<close>

definition stored_bytes :: "(string, cache_entry) gomap \<Rightarrow> int" where
  "stored_bytes m = (\<Sum>(k, e) \<leftarrow> m. int (length (ce_Body e)))"

definition cache_inv :: "response_cache \<Rightarrow> bool" where
  "cache_inv c \<longleftrightarrow> wf_map (rc_entries c) \<and> rc_bytes c = stored_bytes (rc_entries c)"

lemma stored_bytes_simps [simp]:
  "stored_bytes [] = 0" "stored_bytes ((k, e) # m) = int (length (ce_Body e)) + stored_bytes m"
  by (simp_all add: stored_bytes_def)

lemma stored_bytes_nonneg: "0 \<le> stored_bytes m"
  by (induction m) auto

lemma delete_absent: "k \<notin> fst ` set m \<Longrightarrow> map_del k m = m"
  by (rule delete_id)

lemma stored_bytes_del:
  "wf_map m \<Longrightarrow> map_of m k = Some e \<Longrightarrow> stored_bytes (map_del k m) = stored_bytes m - int (length (ce_Body e))"
proof (induction m)
  case (Cons x m)
  obtain k' e' where x: "x = (k', e')" by fastforce
  show ?case
  proof (cases "k' = k")
    case True
    then have "k \<notin> fst ` set m" using Cons.prems(1) x by simp
    with True Cons.prems x show ?thesis by (simp add: delete_absent)
  next
    case False
    with Cons x show ?thesis by simp
  qed
qed simp

lemma stored_bytes_set:
  "wf_map m \<Longrightarrow> stored_bytes (map_set k v m) =
     stored_bytes m - (case map_of m k of None \<Rightarrow> 0 | Some e \<Rightarrow> int (length (ce_Body e))) + int (length (ce_Body v))"
proof (induction m)
  case (Cons x m)
  obtain k' e' where x: "x = (k', e')" by fastforce
  from Cons x show ?case by (cases "k' = k") (auto split: option.splits)
qed simp

text \<open>What an operation may do to the map: keep an entry or drop it.\<close>

definition shrinks :: "response_cache \<Rightarrow> response_cache \<Rightarrow> bool" where
  "shrinks c d \<longleftrightarrow>
     map_of (rc_entries d) \<subseteq>\<^sub>m map_of (rc_entries c) \<and> rc_maxEntries d = rc_maxEntries c \<and> rc_maxBytes d = rc_maxBytes c \<and>
     (cache_inv c \<longrightarrow> cache_inv d \<and> length (rc_entries d) \<le> length (rc_entries c))"

lemma shrinks_refl [simp]: "shrinks c c"
  by (simp add: shrinks_def)

lemma shrinks_trans: "shrinks a b \<Longrightarrow> shrinks b c \<Longrightarrow> shrinks a c"
  unfolding shrinks_def by (metis map_le_trans order_trans)

lemma rc_remove_shrinks: "shrinks c (rc_remove key c)"
proof (cases "map_of (rc_entries c) key")
  case None
  then show ?thesis by (simp add: rc_remove_def)
next
  case (Some e)
  then show ?thesis
    using stored_bytes_del [of "rc_entries c" key e] length_map_del [of "rc_entries c" key]
    by (auto simp: rc_remove_def shrinks_def cache_inv_def map_le_def split: if_splits)
qed

lemma deleteExpired_shrinks: "shrinks c (deleteExpired key now c)"
  by (simp add: deleteExpired_def rc_remove_shrinks split: option.split)

lemma Get_shrinks: "shrinks c (fst (rc_Get key now c))"
  by (simp add: rc_Get_def deleteExpired_shrinks split: option.split)

lemma GetStale_shrinks: "shrinks c (fst (rc_GetStale key now age c))"
  by (simp add: rc_GetStale_def deleteExpired_shrinks rc_remove_shrinks split: option.split)

lemma evict_until_shrinks: "shrinks c (evict_until keys c)"
  by (induction keys arbitrary: c) (auto intro: shrinks_trans rc_remove_shrinks)

lemma evict_fold_shrinks:
  "shrinks c (fold (\<lambda>(k, e) d. if cacheRetentionDeadline e < now then rc_remove k d else d) es c)"
proof (induction es arbitrary: c)
  case (Cons x es)
  obtain k e where x: "x = (k, e)" by fastforce
  have "shrinks c (if cacheRetentionDeadline e < now then rc_remove k c else c)" by (simp add: rc_remove_shrinks)
  from shrinks_trans [OF this Cons] show ?case by (simp add: x)
qed simp

lemma evict_shrinks: "shrinks c (rc_evict now c)"
  unfolding rc_evict_def Let_def
  by (auto intro: evict_fold_shrinks shrinks_trans [OF evict_fold_shrinks evict_until_shrinks])

section \<open>Limits\<close>

lemma within_limits_empty: "cache_inv c \<Longrightarrow> rc_entries c = [] \<Longrightarrow> \<not> overLimitLocked c"
  by (simp add: overLimitLocked_def cache_inv_def)

text \<open>Removing the keys of all entries ends below the limits.\<close>

lemma rc_remove_keys: "fst ` set (rc_entries (rc_remove key c)) = fst ` set (rc_entries c) - {key}"
proof (cases "map_of (rc_entries c) key")
  case None
  then have "key \<notin> fst ` set (rc_entries c)" by (simp add: map_of_eq_None_iff)
  then show ?thesis by (simp add: rc_remove_def None)
next
  case (Some e)
  have "fst ` set (map_del key m) = fst ` set m - {key}" for m :: "(string, cache_entry) gomap"
    by (induction m) auto
  with Some show ?thesis by (simp add: rc_remove_def)
qed

lemma evict_until_within:
  "cache_inv c \<Longrightarrow> fst ` set (rc_entries c) \<subseteq> set keys \<Longrightarrow> \<not> overLimitLocked (evict_until keys c)"
proof (induction keys arbitrary: c)
  case Nil
  then show ?case by (simp add: within_limits_empty)
next
  case (Cons key keys)
  have "cache_inv (rc_remove key c)" using rc_remove_shrinks [of c key] Cons.prems(1) by (simp add: shrinks_def)
  moreover have "fst ` set (rc_entries (rc_remove key c)) \<subseteq> set keys" using Cons.prems(2) by (auto simp: rc_remove_keys)
  ultimately show ?case using Cons.IH by simp
qed

lemma evict_within:
  assumes "cache_inv c"
  shows "\<not> overLimitLocked (rc_evict now c)"
proof -
  let ?c1 = "fold (\<lambda>(k, e) d. if cacheRetentionDeadline e < now then rc_remove k d else d) (rc_entries c) c"
  have "cache_inv ?c1" using evict_fold_shrinks assms by (simp add: shrinks_def)
  then have "\<not> overLimitLocked (evict_until (map fst (sort_key (\<lambda>(k, e). cacheRetentionDeadline e) (rc_entries ?c1))) ?c1)"
    by (rule evict_until_within) simp
  then show ?thesis by (simp add: rc_evict_def Let_def)
qed

lemma Set_inv:
  assumes "cache_inv c"
  shows "cache_inv (rc_Set key entry now c)" "\<not> overLimitLocked c \<Longrightarrow> \<not> overLimitLocked (rc_Set key entry now c)"
    "rc_maxEntries (rc_Set key entry now c) = rc_maxEntries c" "rc_maxBytes (rc_Set key entry now c) = rc_maxBytes c"
proof -
  let ?c1 = "c\<lparr>rc_entries := map_set key entry (rc_entries c),
      rc_bytes := rc_bytes c - (case map_of (rc_entries c) key of None \<Rightarrow> 0 | Some e \<Rightarrow> int (length (ce_Body e))) +
        int (length (ce_Body entry))\<rparr>"
  have c1: "cache_inv ?c1" using assms stored_bytes_set [of "rc_entries c" key entry] by (simp add: cache_inv_def)
  note ev = evict_shrinks [of ?c1 now] and rem = rc_remove_shrinks [of c key]
  show "cache_inv (rc_Set key entry now c)" "rc_maxEntries (rc_Set key entry now c) = rc_maxEntries c"
    "rc_maxBytes (rc_Set key entry now c) = rc_maxBytes c"
    using c1 ev rem assms by (simp_all add: rc_Set_def Let_def shrinks_def)
  assume lim: "\<not> overLimitLocked c"
  have "\<not> overLimitLocked (rc_remove key c)"
  proof -
    have "cache_inv (rc_remove key c)" "length (rc_entries (rc_remove key c)) \<le> length (rc_entries c)"
        "rc_maxEntries (rc_remove key c) = rc_maxEntries c" "rc_maxBytes (rc_remove key c) = rc_maxBytes c"
      using rem assms by (simp_all add: shrinks_def)
    moreover have "rc_bytes (rc_remove key c) \<le> rc_bytes c" by (simp add: rc_remove_def split: option.split)
    ultimately show ?thesis using lim by (auto simp: overLimitLocked_def)
  qed
  then show "\<not> overLimitLocked (rc_Set key entry now c)"
    using evict_within [OF c1, of now] by (simp add: rc_Set_def Let_def)
qed

section \<open>Histories\<close>

datatype cache_op =
    CGet string time
  | CGetStale string time time
  | CSet string cache_entry time

fun cache_step :: "cache_op \<Rightarrow> response_cache \<Rightarrow> response_cache" where
  "cache_step (CGet key now) c = fst (rc_Get key now c)"
| "cache_step (CGetStale key now maxStaleAge) c = fst (rc_GetStale key now maxStaleAge c)"
| "cache_step (CSet key entry now) c = rc_Set key entry now c"

definition cache_run :: "cache_op list \<Rightarrow> response_cache" where
  "cache_run ops = fold cache_step ops NewResponseCache"

text \<open>The abstract cache: the last entry that was set for a key.\<close>

fun last_set :: "cache_op list \<Rightarrow> string \<Rightarrow> cache_entry option" where
  "last_set [] k = None"
| "last_set (CSet key entry now # ops) k =
     (case last_set ops k of Some e \<Rightarrow> Some e | None \<Rightarrow> if k = key then Some entry else None)"
| "last_set (_ # ops) k = last_set ops k"

lemma last_set_snoc:
  "last_set (ops @ [x]) k = (case x of CSet key entry now \<Rightarrow> if k = key then Some entry else last_set ops k | _ \<Rightarrow> last_set ops k)"
  by (induction ops k rule: last_set.induct) (cases x; simp split: option.split)+

lemma Set_map:
  "map_of (rc_entries (rc_Set key entry now c)) \<subseteq>\<^sub>m (map_of (rc_entries c))(key \<mapsto> entry)"
proof (cases "0 < rc_maxBytes c \<and> rc_maxBytes c < int (length (ce_Body entry))")
  case True
  then show ?thesis by (auto simp: rc_Set_def rc_remove_def map_le_def split: option.split)
next
  case False
  let ?c1 = "c\<lparr>rc_entries := map_set key entry (rc_entries c),
      rc_bytes := rc_bytes c - (case map_of (rc_entries c) key of None \<Rightarrow> 0 | Some e \<Rightarrow> int (length (ce_Body e))) +
        int (length (ce_Body entry))\<rparr>"
  have "map_of (rc_entries (rc_evict now ?c1)) \<subseteq>\<^sub>m (map_of (rc_entries c))(key \<mapsto> entry)"
    using evict_shrinks [of ?c1 now] by (simp add: shrinks_def)
  then show ?thesis unfolding rc_Set_def if_not_P [OF False] Let_def by simp
qed

lemma cache_run_snoc: "cache_run (ops @ [x]) = cache_step x (cache_run ops)"
  by (simp add: cache_run_def)

lemma cache_run_ok:
  "cache_inv (cache_run ops) \<and> \<not> overLimitLocked (cache_run ops) \<and>
   rc_maxEntries (cache_run ops) = defaultMaxCacheEntries \<and> rc_maxBytes (cache_run ops) = defaultMaxCacheBytes \<and>
   map_of (rc_entries (cache_run ops)) \<subseteq>\<^sub>m last_set ops"
proof (induction ops rule: rev_induct)
  case Nil
  then show ?case
    by (simp add: cache_run_def NewResponseCache_def cache_inv_def overLimitLocked_def map_le_def
        defaultMaxCacheBytes_def defaultMaxCacheEntries_def)
next
  case (snoc x ops)
  let ?c = "cache_run ops"
  have less: ?case if s: "shrinks ?c (cache_run (ops @ [x]))" and l: "last_set (ops @ [x]) = last_set ops"
    and b: "rc_bytes (cache_run (ops @ [x])) \<le> rc_bytes ?c"
  proof -
    have inv: "cache_inv (cache_run (ops @ [x]))" and len: "length (rc_entries (cache_run (ops @ [x]))) \<le> length (rc_entries ?c)"
      using s snoc by (simp_all add: shrinks_def)
    with inv len snoc s l b show ?thesis
      by (auto simp: shrinks_def overLimitLocked_def intro: map_le_trans)
  qed
  show ?case
  proof (cases x)
    case (CSet key entry now)
    have "map_of (rc_entries (cache_run (ops @ [x]))) \<subseteq>\<^sub>m last_set (ops @ [x])"
    proof -
      have "(map_of (rc_entries ?c))(key \<mapsto> entry) \<subseteq>\<^sub>m last_set (ops @ [x])"
        using snoc by (auto simp: CSet last_set_snoc map_le_def)
      then show ?thesis using map_le_trans [OF Set_map] by (simp add: CSet cache_run_snoc)
    qed
    with snoc Set_inv show ?thesis by (simp add: CSet cache_run_snoc)
  next
    case (CGet key now)
    show ?thesis
      by (rule less) (simp_all add: CGet cache_run_snoc Get_shrinks last_set_snoc fun_eq_iff,
        simp add: rc_Get_def deleteExpired_def rc_remove_def split: option.split)
  next
    case (CGetStale key now age)
    show ?thesis
      by (rule less) (simp_all add: CGetStale cache_run_snoc GetStale_shrinks last_set_snoc fun_eq_iff,
        simp add: rc_GetStale_def deleteExpired_def rc_remove_def split: option.split)
  qed
qed

text \<open>
  C31: The response cache is a bounded, honest cache. After every history of its operations it holds at
  most 1000 entries and 16 MiB of bodies, its byte counter is exact, \<open>Get\<close> answers only with the
  entry last stored for the key and only until it expires, and \<open>GetStale\<close> only with that entry and
  only for the given time longer.
\<close>

theorem response_cache_bounded:
  "int (length (rc_entries (cache_run ops))) \<le> 1000 \<and>
   stored_bytes (rc_entries (cache_run ops)) \<le> 16 * 2 ^ 20 \<and>
   rc_bytes (cache_run ops) = stored_bytes (rc_entries (cache_run ops)) \<and>
   (snd (rc_Get key now (cache_run ops)) = Some e \<longrightarrow> last_set ops key = Some e \<and> now \<le> ce_ExpiresAt e) \<and>
   (snd (rc_GetStale key now maxStaleAge (cache_run ops)) = Some e \<longrightarrow>
      last_set ops key = Some e \<and> now \<le> ce_ExpiresAt e + maxStaleAge)"
proof -
  note ok = cache_run_ok [of ops]
  have lim: "int (length (rc_entries (cache_run ops))) \<le> defaultMaxCacheEntries" "rc_bytes (cache_run ops) \<le> defaultMaxCacheBytes"
    using ok by (auto simp: overLimitLocked_def defaultMaxCacheBytes_def defaultMaxCacheEntries_def)
  have entry: "last_set ops key = Some e" if "map_of (rc_entries (cache_run ops)) key = Some e"
    using ok that by (force simp: map_le_def)
  show ?thesis
    using ok lim entry
    by (auto simp: cache_inv_def defaultMaxCacheBytes_def defaultMaxCacheEntries_def rc_Get_def rc_GetStale_def
        split: option.splits if_splits)
qed

definition example_entry :: cache_entry where
  "example_entry =
     \<lparr>ce_StatusCode = 200, ce_Header = [], ce_Body = ''{}'', ce_StoredAt = 1, ce_ExpiresAt = 11, ce_StaleUntil = 21\<rparr>"

theorem response_cache_bounded_witness:
  "snd (rc_Get ''GET /a'' 9 (cache_run [CSet ''GET /a'' example_entry 1])) = Some example_entry \<and>
   last_set [CSet ''GET /a'' example_entry 1] ''GET /a'' = Some example_entry"
proof -
  have "snd (rc_Get ''GET /a'' 9 (cache_run [CSet ''GET /a'' example_entry 1])) = Some example_entry" by code_simp
  with response_cache_bounded [of "[CSet ''GET /a'' example_entry 1]" "''GET /a''" 9 example_entry] show ?thesis by blast
qed

end
