(* ===== verification/ProxyHandler.thy ===== *)
theory ProxyHandler
  imports ResponseCache ArtifactCache
begin

text \<open>
  The HTTP handler of the proxy (\<open>internal/proxy/forge_proxy.go\<close>): JSON answers of the upstream pass
  through the response cache, artifacts through the bucket. The upstream is a function of the
  request it receives. Metrics and logging are left out; the observer of module answers is part of
  the result.
\<close>

section \<open>Requests and replies\<close>

record upstream_reply =
  ur_Status :: int
  ur_Header :: header
  ur_Body :: string
  ur_Broken :: bool
  ur_ContentLength :: int

text \<open>Method, path, query and header of a request to the upstream; no answer is an error of the client.\<close>

type_synonym upstream = "string \<Rightarrow> string \<Rightarrow> string \<Rightarrow> header \<Rightarrow> upstream_reply option"

text \<open>What the handler writes.\<close>

record reply =
  rp_Status :: int
  rp_Header :: header
  rp_Body :: string

text \<open>
  The configuration of the proxy. \<open>px_uri\<close> is \<open>URL.RequestURI\<close>, \<open>px_format\<close> and \<open>px_parse\<close> are the
  formats of HTTP dates, \<open>px_gunzip\<close> is the \<open>gzip\<close> reader and \<open>px_etag\<close> the entity tag the storage
  service gives an object.
\<close>

record proxy_config =
  px_upstream_path :: string
  px_cacheTTL :: time
  px_maxStaleAge :: time
  px_artifacts :: bool
  px_observed :: bool
  px_uri :: "http_request \<Rightarrow> string"
  px_format :: "time \<Rightarrow> string"
  px_parse :: "string \<Rightarrow> time option"
  px_gunzip :: "string \<Rightarrow> string option"
  px_etag :: "stored_object \<Rightarrow> string"

definition maxErrorBodyBytes :: int where "maxErrorBodyBytes = 64 * 2 ^ 10"

section \<open>Headers\<close>

definition token_char :: "char \<Rightarrow> bool" where
  "token_char c = (is_upper c \<or> is_lower c \<or> is_digit c \<or> c \<in> set ''!#$%&*+-.^_|~'' \<or> c = CHR 0x27 \<or> c = CHR 0x60)"

definition upper_char :: "char \<Rightarrow> char" where
  "upper_char c = (if is_lower c then char_of (of_char c - 32 :: nat) else c)"

fun canonical_from :: "bool \<Rightarrow> string \<Rightarrow> string" where
  "canonical_from up [] = []"
| "canonical_from up (c # s) = (if up then upper_char c else lower_char c) # canonical_from (c = CHR ''-'') s"

text \<open>\<open>http.CanonicalHeaderKey\<close>.\<close>

definition canonical_key :: "string \<Rightarrow> string" where
  "canonical_key s = (if \<forall>c \<in> set s. token_char c then canonical_from True s else s)"

definition shouldForwardUpstreamHeader :: "(string \<Rightarrow> string) \<Rightarrow> string \<Rightarrow> bool" where
  "shouldForwardUpstreamHeader lower key =
     (lower key \<in> {''accept'', ''accept-encoding'', ''accept-language'', ''cache-control'', ''if-modified-since'',
        ''if-none-match'', ''range'', ''user-agent''})"

definition isHopByHopHeader :: "(string \<Rightarrow> string) \<Rightarrow> string \<Rightarrow> bool" where
  "isHopByHopHeader lower key =
     (lower key \<in> {''connection'', ''proxy-connection'', ''keep-alive'', ''proxy-authenticate'', ''proxy-authorization'',
        ''te'', ''trailer'', ''trailers'', ''transfer-encoding'', ''upgrade''})"

definition add_all :: "string \<Rightarrow> string list \<Rightarrow> header \<Rightarrow> header" where
  "add_all key values h = fold (header_Add key) values h"

definition copyRequestHeaders :: "(string \<Rightarrow> string) \<Rightarrow> header \<Rightarrow> header \<Rightarrow> header" where
  "copyRequestHeaders lower dst src =
     fold (\<lambda>(key, values) h. if \<not> shouldForwardUpstreamHeader lower key then h else add_all key values h) src dst"

definition connectionHeaderNames :: "header \<Rightarrow> string set" where
  "connectionHeaderNames h =
     set (filter (\<lambda>n. n \<noteq> []) (map (\<lambda>n. canonical_key (trim_space n))
        (concat (map (split_on (CHR '','')) (header_Values h ''Connection'')))))"

definition end_to_end :: "(string \<Rightarrow> string) \<Rightarrow> header \<Rightarrow> string \<Rightarrow> bool" where
  "end_to_end lower src key = (\<not> (isHopByHopHeader lower key \<or> canonical_key key \<in> connectionHeaderNames src))"

definition copyEndToEndHeaders :: "(string \<Rightarrow> string) \<Rightarrow> header \<Rightarrow> header \<Rightarrow> header" where
  "copyEndToEndHeaders lower dst src =
     fold (\<lambda>(key, values) h. if \<not> end_to_end lower src key then h else add_all key values h) src dst"

definition cloneHeader :: "(string \<Rightarrow> string) \<Rightarrow> header \<Rightarrow> header" where
  "cloneHeader lower h = filter (\<lambda>(key, values). end_to_end lower h key) h"

section \<open>Requests to the upstream\<close>

definition upstream_headers :: "service \<Rightarrow> http_request \<Rightarrow> header" where
  "upstream_headers g req =
     (let h = copyRequestHeaders (g_lower g) [] (rq_Header req);
          h1 = (if \<not> has_prefix (rq_Path req) ''/v3/files/'' then header_Set ''Accept-Encoding'' ''identity'' h else h)
      in header_Set ''X-Forwarded-Proto'' (ForwardedScheme (g_equal_fold g) (Some req))
           (header_Set ''X-Forwarded-Host'' (rq_Host req) h1))"

definition upstreamRequest ::
    "service \<Rightarrow> proxy_config \<Rightarrow> upstream \<Rightarrow> http_request \<Rightarrow> string \<Rightarrow> upstream_reply option" where
  "upstreamRequest g px up req meth =
     up meth (SingleJoiningSlash (px_upstream_path px) (rq_Path req)) (rq_RawQuery req) (upstream_headers g req)"

section \<open>Answers\<close>

text \<open>\<open>http.Error\<close>.\<close>

definition http_Error :: "header \<Rightarrow> string \<Rightarrow> int \<Rightarrow> reply" where
  "http_Error h message status =
     \<lparr>rp_Status = status,
      rp_Header = header_Set ''X-Content-Type-Options'' ''nosniff''
        (header_Set ''Content-Type'' ''text/plain; charset=utf-8'' (header_Del ''Content-Length'' h)),
      rp_Body = message @ [CHR 0x0A]\<rparr>"

definition writeProxyError :: "header \<Rightarrow> int \<Rightarrow> string \<Rightarrow> reply" where
  "writeProxyError h status message =
     http_Error h (if 500 \<le> status then ''upstream service is unavailable'' else message) status"

definition writeUpstreamStatusError :: "header \<Rightarrow> int \<Rightarrow> reply" where
  "writeUpstreamStatusError h status =
     writeProxyError h status (if status = 404 then ''upstream resource not found'' else ''upstream request failed'')"

definition cachedResponseAge :: "proxy_config \<Rightarrow> cache_entry \<Rightarrow> time \<Rightarrow> int" where
  "cachedResponseAge px entry now =
     (let storedAt = (if now < ce_StoredAt entry then now else ce_StoredAt entry);
          v = header_Get (ce_Header entry) ''Age'';
          age = (if v = [] then 0 else case ParseInt (trim_space v) of
                   Some parsed \<Rightarrow> (if 0 < parsed then parsed else 0) | None \<Rightarrow> 0);
          d = header_Get (ce_Header entry) ''Date'';
          age1 = (if d = [] then age else case px_parse px d of
                   None \<Rightarrow> age | Some date \<Rightarrow> max age (max 0 (storedAt - date) div second))
      in age1 + max 0 (now - storedAt) div second)"

definition writeCachedResponse :: "service \<Rightarrow> proxy_config \<Rightarrow> cache_entry \<Rightarrow> string \<Rightarrow> bool \<Rightarrow> time \<Rightarrow> reply" where
  "writeCachedResponse g px entry cacheHeader isHead now =
     \<lparr>rp_Status = ce_StatusCode entry,
      rp_Header = header_Set ''X-Forge-Cache'' cacheHeader
        (header_Set ''Age'' (FormatInt (cachedResponseAge px entry now))
          (header_Set ''Date'' (px_format px now) (copyEndToEndHeaders (g_lower g) [] (ce_Header entry)))),
      rp_Body = (if isHead then [] else ce_Body entry)\<rparr>"

definition relayUpstreamResponse :: "service \<Rightarrow> upstream_reply \<Rightarrow> string \<Rightarrow> string \<Rightarrow> string \<Rightarrow> bool \<Rightarrow> reply" where
  "relayUpstreamResponse g resp body cacheHeader cacheStatus isHead =
     \<lparr>rp_Status = ur_Status resp,
      rp_Header = header_Set cacheHeader cacheStatus (copyEndToEndHeaders (g_lower g) [] (ur_Header resp)),
      rp_Body = (if isHead then [] else body)\<rparr>"

section \<open>JSON\<close>

text \<open>\<open>strings.Contains\<close>.\<close>

definition contains :: "string \<Rightarrow> string \<Rightarrow> bool" where
  "contains s t = (\<exists>i \<in> set [0 ..< Suc (length s)]. has_prefix (drop i s) t)"

definition shouldCache :: "service \<Rightarrow> proxy_config \<Rightarrow> http_request \<Rightarrow> upstream_reply \<Rightarrow> string \<Rightarrow> bool" where
  "shouldCache g px req resp body =
     (0 < px_cacheTTL px \<and> \<not> has_prefix (SingleJoiningSlash (px_upstream_path px) (rq_Path req)) ''/v3/files/'' \<and>
      200 \<le> ur_Status resp \<and> ur_Status resp < 300 \<and> int (length body) \<le> g_maxBodyBytes g \<and>
      (let contentType = header_Get (ur_Header resp) ''Content-Type'' in
       contains contentType ''application/json'' \<or> contains contentType ''text/json''))"

definition isGzipEncoded :: "service \<Rightarrow> header \<Rightarrow> string \<Rightarrow> bool" where
  "isGzipEncoded g h body =
     (g_equal_fold g (header_Get h ''Content-Encoding'') ''gzip'' \<or>
      (2 \<le> length body \<and> take 2 body = [CHR 0x1F, CHR 0x8B]))"

definition observerJSONBody :: "service \<Rightarrow> proxy_config \<Rightarrow> header \<Rightarrow> string \<Rightarrow> string option" where
  "observerJSONBody g px h body =
     (if \<not> isGzipEncoded g h body then Some body
      else case px_gunzip px body of
        None \<Rightarrow> None
      | Some plain \<Rightarrow> (case readBoundedBody plain False (g_maxBodyBytes g) of Inl _ \<Rightarrow> None | Inr b \<Rightarrow> Some b))"

text \<open>The module the observer is told of, and whether the answer is fresh.\<close>

definition observeModuleResponse ::
    "service \<Rightarrow> proxy_config \<Rightarrow> string \<Rightarrow> int \<Rightarrow> header \<Rightarrow> string \<Rightarrow> bool \<Rightarrow> (upstream_module \<times> bool) option" where
  "observeModuleResponse g px requestPath statusCode h body fresh =
     (if \<not> px_observed px \<or> statusCode < 200 \<or> 300 \<le> statusCode then None
      else if \<not> has_prefix requestPath ''/v3/modules/'' then None
      else if length (filter (\<lambda>c. c = CHR ''/'') (trim_char (CHR ''/'') requestPath)) \<noteq> 2 then None
      else case observerJSONBody g px h body of
        None \<Rightarrow> None
      | Some moduleBody \<Rightarrow>
          (case parseUpstreamModule g moduleBody of Inl _ \<Rightarrow> None | Inr m \<Rightarrow> Some (m, fresh)))"

type_synonym answer = "reply \<times> (upstream_module \<times> bool) option"

definition cache_key :: "proxy_config \<Rightarrow> http_request \<Rightarrow> string" where
  "cache_key px req = rq_Method req @ '' '' @ px_uri px req"

definition cached_answer :: "service \<Rightarrow> proxy_config \<Rightarrow> http_request \<Rightarrow> cache_entry \<Rightarrow> string \<Rightarrow> time \<Rightarrow> answer" where
  "cached_answer g px req entry cacheHeader now =
     (writeCachedResponse g px entry cacheHeader (rq_Method req = ''HEAD'') now,
      observeModuleResponse g px (rq_Path req) (ce_StatusCode entry) (ce_Header entry) (ce_Body entry) False)"

text \<open>\<open>serveStaleJSONFallback\<close>, or the error.\<close>

definition stale_or :: "service \<Rightarrow> proxy_config \<Rightarrow> http_request \<Rightarrow> cache_entry option \<Rightarrow> time \<Rightarrow> reply \<Rightarrow> answer" where
  "stale_or g px req stale now failure =
     (case stale of Some entry \<Rightarrow> cached_answer g px req entry ''STALE'' now | None \<Rightarrow> (failure, None))"

definition new_entry :: "service \<Rightarrow> proxy_config \<Rightarrow> upstream_reply \<Rightarrow> string \<Rightarrow> time \<Rightarrow> cache_entry" where
  "new_entry g px resp body storedAt =
     \<lparr>ce_StatusCode = ur_Status resp, ce_Header = cloneHeader (g_lower g) (ur_Header resp), ce_Body = body,
      ce_StoredAt = storedAt, ce_ExpiresAt = storedAt + px_cacheTTL px,
      ce_StaleUntil = storedAt + (px_cacheTTL px + px_maxStaleAge px)\<rparr>"

text \<open>The instants of the reads of the clock: on arrival, and when the answer of the upstream is there.\<close>

definition handle_json ::
    "service \<Rightarrow> proxy_config \<Rightarrow> upstream \<Rightarrow> time \<Rightarrow> time \<Rightarrow> http_request \<Rightarrow> response_cache \<Rightarrow> response_cache \<times> answer" where
  "handle_json g px up now answered req c =
     (let key = cache_key px req; isHead = (rq_Method req = ''HEAD'') in
      case rc_Get key now c of
        (c1, Some entry) \<Rightarrow> (c1, cached_answer g px req entry ''HIT'' now)
      | (c1, None) \<Rightarrow>
          (case rc_GetStale key now (px_maxStaleAge px) c1 of
             (c2, stale) \<Rightarrow>
               (case upstreamRequest g px up req (rq_Method req) of
                  None \<Rightarrow> (c2, stale_or g px req stale answered (writeProxyError [] 502 ''upstream request''))
                | Some resp \<Rightarrow>
                    (case readBoundedBody (ur_Body resp) (ur_Broken resp) (g_maxBodyBytes g) of
                       Inl _ \<Rightarrow> (c2, stale_or g px req stale answered (writeProxyError [] 502 ''response body''))
                     | Inr body \<Rightarrow>
                         if ur_Status resp < 200 \<or> 300 \<le> ur_Status resp
                         then (c2, stale_or g px req stale answered (writeUpstreamStatusError [] (ur_Status resp)))
                         else
                           (if shouldCache g px req resp body
                            then rc_Set key (new_entry g px resp body answered) answered c2 else c2,
                            relayUpstreamResponse g resp body ''X-Forge-Cache'' ''MISS'' isHead,
                            observeModuleResponse g px (rq_Path req) (ur_Status resp) (ur_Header resp) body True)))))"

section \<open>Artifacts\<close>

definition normalizeETag :: "string \<Rightarrow> string" where
  "normalizeETag etag0 =
     (let etag = trim_space etag0 in
      if etag = [] \<or> has_prefix etag [CHR 0x22] \<or> has_prefix etag (''W/'' @ [CHR 0x22]) then etag
      else CHR 0x22 # etag @ [CHR 0x22])"

text \<open>\<open>prepareArtifactResponse\<close>: the headers and how to go on, or the whole reply.\<close>

definition prepareArtifactResponse ::
    "http_request \<Rightarrow> int \<Rightarrow> string \<Rightarrow> string \<Rightarrow> reply + header \<times> byte_range_response" where
  "prepareArtifactResponse req objectSize etag contentType =
     (case PrepareByteRangeResponse [] (rq_Header req) objectSize etag contentType of
        (h, Inl message) \<Rightarrow> Inl (writeProxyError h 416 message)
      | (h, Inr response) \<Rightarrow>
          if bp_NotModified response then Inl \<lparr>rp_Status = bp_Status response, rp_Header = h, rp_Body = []\<rparr>
          else Inr (h, response))"

text \<open>An error of a call becomes the reply the handler writes for it.\<close>

definition or_reply :: "'a svc \<Rightarrow> reply \<Rightarrow> ('a \<Rightarrow> reply svc) \<Rightarrow> reply svc" where
  "or_reply m failure f = svc_try m (\<lambda>r. case r of Inl e \<Rightarrow> svc_return failure | Inr x \<Rightarrow> f x)"

definition bad_gateway :: "header \<Rightarrow> reply" where
  "bad_gateway h = writeProxyError h 502 ''upstream''"

definition object_content :: "service \<Rightarrow> string \<Rightarrow> byte_range_response \<Rightarrow> (bucket \<Rightarrow> string option)" where
  "object_content g objectPath response =
     (if bp_Partial response
      then OpenRange (g_backend g) objectPath (br_Start (bp_Range response)) (br_Length (bp_Range response))
      else (\<lambda>bk. map_option ob_Body (OpenObject (g_backend g) objectPath bk)))"

definition serveStoredArtifact ::
    "service \<Rightarrow> proxy_config \<Rightarrow> request \<Rightarrow> http_request \<Rightarrow> string \<Rightarrow> stored_object \<Rightarrow> string \<Rightarrow> reply svc" where
  "serveStoredArtifact g px q req objectPath attrs cacheStatus =
     (case prepareArtifactResponse req (int (length (ob_Body attrs))) (normalizeETag (px_etag px attrs)) (ob_ContentType attrs) of
        Inl whole \<Rightarrow> svc_return whole
      | Inr (h0, response) \<Rightarrow>
          let h = header_Set ''X-Forge-Artifact-Cache'' cacheStatus h0;
              failed = bad_gateway (ClearByteRangeResponseHeaders h)
          in if rq_Method req = ''HEAD'' then svc_return \<lparr>rp_Status = bp_Status response, rp_Header = h, rp_Body = []\<rparr>
             else or_reply (bucket_read (object_content g objectPath response)) failed (\<lambda>content.
               svc_return (case content of None \<Rightarrow> failed
                 | Some body \<Rightarrow> \<lparr>rp_Status = bp_Status response, rp_Header = h, rp_Body = copied q body\<rparr>)))"

definition readLimitedBody :: "upstream_reply \<Rightarrow> int \<Rightarrow> string option" where
  "readLimitedBody resp maxBytes =
     (if maxBytes \<le> 0 \<or> maxBytes < ur_ContentLength resp then None
      else case readBoundedBody (ur_Body resp) (ur_Broken resp) maxBytes of
        Inl _ \<Rightarrow> None
      | Inr body \<Rightarrow>
          if 0 \<le> ur_ContentLength resp \<and> int (length body) \<noteq> ur_ContentLength resp then None else Some body)"

text \<open>\<open>readOrRelayArtifactUpstream\<close> and the relay of its caller; an error page is cut.\<close>

definition bypass_artifact :: "service \<Rightarrow> proxy_config \<Rightarrow> upstream \<Rightarrow> http_request \<Rightarrow> reply" where
  "bypass_artifact g px up req =
     (let isHead = (rq_Method req = ''HEAD'');
          relay = (\<lambda>resp body. relayUpstreamResponse g resp body ''X-Forge-Artifact-Cache'' ''BYPASS'' isHead)
      in case upstreamRequest g px up req (rq_Method req) of
           None \<Rightarrow> bad_gateway []
         | Some resp \<Rightarrow>
             if ur_Status resp < 200 \<or> 300 \<le> ur_Status resp
             then relay resp (if maxErrorBodyBytes < int (length (ur_Body resp)) then take (nat maxErrorBodyBytes) (ur_Body resp)
                   else if ur_Broken resp then [] else ur_Body resp)
             else if isHead then relay resp []
             else (case readLimitedBody resp (g_maxArtifactBytes g) of
                     None \<Rightarrow> bad_gateway [] | Some body \<Rightarrow> relay resp body))"

text \<open>The upstream as the loader of an artifact sees it: the whole file is asked for.\<close>

definition artifact_net :: "service \<Rightarrow> proxy_config \<Rightarrow> upstream \<Rightarrow> http_request \<Rightarrow> string \<Rightarrow> http_response option" where
  "artifact_net g px up req requestPath =
     map_option (\<lambda>r. \<lparr>hr_Status = ur_Status r, hr_ContentType = header_Get (ur_Header r) ''Content-Type'',
         hr_ContentLength = ur_ContentLength r, hr_Body = ur_Body r, hr_Broken = ur_Broken r\<rparr>)
       (upstreamRequest g px up
          (req\<lparr>rq_Path := requestPath, rq_Header := header_Del ''If-Range'' (header_Del ''Range'' (rq_Header req))\<rparr>) ''GET'')"

definition handleArtifactRequest ::
    "service \<Rightarrow> proxy_config \<Rightarrow> upstream \<Rightarrow> request \<Rightarrow> http_request \<Rightarrow> reply svc" where
  "handleArtifactRequest g px up q req =
     (if \<not> px_artifacts px then svc_return (bypass_artifact g px up req)
      else
        let objectPath = cachedArtifactPath g (rq_Path req);
            stat = bucket_read (OpenObject (g_backend g) objectPath)
        in or_reply stat (bad_gateway []) (\<lambda>found.
             case found of
               Some attrs \<Rightarrow> serveStoredArtifact g px q req objectPath attrs ''HIT''
             | None \<Rightarrow>
                 if rq_Method req = ''HEAD'' then
                   svc_return (case upstreamRequest g px up req ''HEAD'' of
                       None \<Rightarrow> bad_gateway []
                     | Some resp \<Rightarrow> relayUpstreamResponse g resp [] ''X-Forge-Artifact-Cache'' ''MISS'' True)
                 else
                   or_reply (loadArtifact g q (artifact_net g px up req) (rq_Path req) objectPath) (bad_gateway []) (\<lambda>loaded.
                     if al_statusCode loaded < 200 \<or> 300 \<le> al_statusCode loaded
                     then svc_return (writeUpstreamStatusError (header_Set ''X-Forge-Artifact-Cache'' ''MISS'' [])
                            (al_statusCode loaded))
                     else
                       or_reply stat (bad_gateway []) (\<lambda>again.
                         case again of
                           None \<Rightarrow> svc_return (bad_gateway [])
                         | Some attrs \<Rightarrow>
                             serveStoredArtifact g px q req objectPath attrs (if al_cacheHit loaded then ''HIT'' else ''MISS'')))))"

text \<open>\<open>handle\<close>: the response cache and the state of the service side by side.\<close>

definition proxy_handle ::
    "service \<Rightarrow> proxy_config \<Rightarrow> upstream \<Rightarrow> request \<Rightarrow> time \<Rightarrow> http_request \<Rightarrow> response_cache \<times> world \<Rightarrow>
       (response_cache \<times> world) \<times> answer" where
  "proxy_handle g px up q answered req cw =
     (case cw of (c, w) \<Rightarrow>
        if rq_Method req \<noteq> ''GET'' \<and> rq_Method req \<noteq> ''HEAD''
        then (cw, writeProxyError [] 405 ''method not allowed'', None)
        else if has_prefix (rq_Path req) ''/v3/files/'' then
          (case handleArtifactRequest g px up q req w of
             (w1, r) \<Rightarrow> ((c, w1), (case r of Inr rep \<Rightarrow> rep | Inl _ \<Rightarrow> bad_gateway []), None))
        else (case handle_json g px up (q_now q) answered req c of (c1, a) \<Rightarrow> ((c1, w), a)))"

end
