(* ===== verification/ProxyProperties.thy ===== *)
theory ProxyProperties
  imports ProxyHandler ServiceProperties
begin

text \<open>
  What the proxy sends to the upstream and answers to its clients.
\<close>

section \<open>Headers\<close>

lemma header_Values_Add:
  "header_Values (header_Add k v h) key = (if key = k then header_Values h k @ [v] else header_Values h key)"
  by (simp add: header_Add_def header_Values_def)

lemma header_Values_Set: "header_Values (header_Set k v h) key = (if key = k then [v] else header_Values h key)"
  by (simp add: header_Set_def header_Values_def)

lemma header_Values_Nil [simp]: "header_Values [] key = []"
  by (simp add: header_Values_def)

lemma header_Values_Cons: "header_Values ((k, vs) # h) key = (if key = k then vs else header_Values h key)"
  by (simp add: header_Values_def)

lemma header_Values_add_all:
  "header_Values (add_all k vs h) key = (if key = k then header_Values h k @ vs else header_Values h key)"
  unfolding add_all_def by (induction vs arbitrary: h) (auto simp: header_Values_Add)

lemma header_Values_copy:
  "wf_map src \<Longrightarrow> header_Values (fold (\<lambda>(k, vs) h. if \<not> P k then h else add_all k vs h) src dst) key =
     header_Values dst key @ (if P key then header_Values src key else [])"
proof (induction src arbitrary: dst)
  case (Cons x src)
  obtain k vs where x: "x = (k, vs)" by fastforce
  have none: "header_Values src k = []"
    using Cons.prems x by (simp add: header_Values_def map_of_eq_None_iff [THEN iffD2] split: option.split)
  show ?case
    using Cons none x by (simp add: header_Values_add_all header_Values_Cons)
qed simp

definition client_request :: "string \<Rightarrow> header \<Rightarrow> http_request" where
  "client_request p h =
     \<lparr>rq_Method = ''GET'', rq_Path = p, rq_RawQuery = [], rq_Host = ''forge'', rq_RemoteAddr = ''10.0.0.9:1'',
      rq_TLS = False, rq_Header = h\<rparr>"

section \<open>JSON answers\<close>

text \<open>A request to the proxy: the upstream as it is then, and the two instants.\<close>

record proxied =
  pd_Upstream :: upstream
  pd_Now :: time
  pd_Answered :: time
  pd_Request :: http_request

definition proxied_step :: "service \<Rightarrow> proxy_config \<Rightarrow> proxied \<Rightarrow> response_cache \<Rightarrow> response_cache \<times> answer" where
  "proxied_step g px x = handle_json g px (pd_Upstream x) (pd_Now x) (pd_Answered x) (pd_Request x)"

definition proxied_run :: "service \<Rightarrow> proxy_config \<Rightarrow> proxied list \<Rightarrow> response_cache" where
  "proxied_run g px xs = fold (\<lambda>x c. fst (proxied_step g px x c)) xs NewResponseCache"

text \<open>What the upstream answered to a request: a complete body with a status of success, or nothing usable.\<close>

definition upstream_answer :: "service \<Rightarrow> proxy_config \<Rightarrow> proxied \<Rightarrow> upstream_reply option" where
  "upstream_answer g px x =
     (case upstreamRequest g px (pd_Upstream x) (pd_Request x) (rq_Method (pd_Request x)) of
        None \<Rightarrow> None
      | Some resp \<Rightarrow>
          if readBoundedBody (ur_Body resp) (ur_Broken resp) (g_maxBodyBytes g) = Inr (ur_Body resp) \<and>
             200 \<le> ur_Status resp \<and> ur_Status resp < 300 then Some resp else None)"

lemma readBounded_Inr: "readBoundedBody b broken n = Inr body \<Longrightarrow> body = b"
  by (auto simp: readBoundedBody_def split: if_splits)

text \<open>An entry of the cache comes from an answer of the upstream.\<close>

definition stored_from :: "service \<Rightarrow> proxy_config \<Rightarrow> proxied list \<Rightarrow> string \<Rightarrow> cache_entry \<Rightarrow> bool" where
  "stored_from g px xs key e \<longleftrightarrow>
     (\<exists>x \<in> set xs. \<exists>resp. cache_key px (pd_Request x) = key \<and> upstream_answer g px x = Some resp \<and>
        shouldCache g px (pd_Request x) resp (ur_Body resp) \<and> e = new_entry g px resp (ur_Body resp) (pd_Answered x))"

lemma stored_from_mono: "stored_from g px xs key e \<Longrightarrow> stored_from g px (xs @ [x]) key e"
  unfolding stored_from_def by auto

lemma proxied_step_cases:
  obtains (kept) "shrinks c (fst (proxied_step g px x c))"
  | (stored) c2 resp where "shrinks c c2" "upstream_answer g px x = Some resp" "shouldCache g px (pd_Request x) resp (ur_Body resp)"
      "fst (proxied_step g px x c) =
        rc_Set (cache_key px (pd_Request x)) (new_entry g px resp (ur_Body resp) (pd_Answered x)) (pd_Answered x) c2"
proof -
  let ?key = "cache_key px (pd_Request x)"
  obtain c1 hit where g1: "rc_Get ?key (pd_Now x) c = (c1, hit)" by fastforce
  obtain c2 stale where g2: "rc_GetStale ?key (pd_Now x) (px_maxStaleAge px) c1 = (c2, stale)" by fastforce
  have s1: "shrinks c c1" using Get_shrinks [of c ?key "pd_Now x"] g1 by simp
  have s2: "shrinks c c2" using shrinks_trans [OF s1] GetStale_shrinks [of c1 ?key "pd_Now x" "px_maxStaleAge px"] g2 by simp
  show ?thesis
  proof (cases hit)
    case (Some e)
    then show ?thesis using s1 by (intro kept) (simp add: proxied_step_def handle_json_def Let_def g1)
  next
    case None
    note step = proxied_step_def handle_json_def Let_def g1 g2 None
    show ?thesis
    proof (cases "upstreamRequest g px (pd_Upstream x) (pd_Request x) (rq_Method (pd_Request x))")
      case none: None
      then show ?thesis using s2 by (intro kept) (simp add: step)
    next
      case (Some resp)
      show ?thesis
      proof (cases "upstream_answer g px x")
        case a: None
        have "\<not> (\<exists>body. readBoundedBody (ur_Body resp) (ur_Broken resp) (g_maxBodyBytes g) = Inr body \<and>
            200 \<le> ur_Status resp \<and> ur_Status resp < 300)"
          using a Some readBounded_Inr by (fastforce simp: upstream_answer_def split: if_splits)
        then show ?thesis using s2 Some by (intro kept) (auto simp: step not_less not_le split: sum.split)
      next
        case a: (Some r)
        then have r: "r = resp" "readBoundedBody (ur_Body resp) (ur_Broken resp) (g_maxBodyBytes g) = Inr (ur_Body resp)"
            "200 \<le> ur_Status resp" "ur_Status resp < 300"
          using Some by (auto simp: upstream_answer_def split: if_splits)
        show ?thesis
        proof (cases "shouldCache g px (pd_Request x) resp (ur_Body resp)")
          case True
          then show ?thesis using a r Some s2 by (intro stored [OF s2, of resp]) (simp_all add: step)
        next
          case False
          then show ?thesis using r Some s2 by (intro kept) (simp add: step)
        qed
      qed
    qed
  qed
qed

lemma proxied_run_stored:
  "map_of (rc_entries (proxied_run g px xs)) key = Some e \<Longrightarrow> stored_from g px xs key e"
proof (induction xs arbitrary: key e rule: rev_induct)
  case Nil
  then show ?case by (simp add: proxied_run_def NewResponseCache_def)
next
  case (snoc x xs)
  have run: "proxied_run g px (xs @ [x]) = fst (proxied_step g px x (proxied_run g px xs))"
    by (simp add: proxied_run_def)
  show ?case
  proof (cases rule: proxied_step_cases [of "proxied_run g px xs" g px x])
    case kept
    then have "map_of (rc_entries (proxied_run g px xs)) key = Some e"
      using snoc.prems by (force simp: shrinks_def map_le_def run)
    then show ?thesis using snoc.IH stored_from_mono by blast
  next
    case (stored c2 resp)
    have "((map_of (rc_entries c2)) (cache_key px (pd_Request x) \<mapsto> new_entry g px resp (ur_Body resp) (pd_Answered x))) key = Some e"
      using snoc.prems Set_map [of "cache_key px (pd_Request x)" "new_entry g px resp (ur_Body resp) (pd_Answered x)" "pd_Answered x" c2]
      unfolding run stored(4) map_le_def by (metis domI)
    then show ?thesis
    proof (cases "key = cache_key px (pd_Request x)")
      case True
      with stored(2,3) \<open>((map_of _)(_ \<mapsto> _)) key = _\<close> show ?thesis by (auto simp: stored_from_def)
    next
      case False
      with \<open>((map_of _)(_ \<mapsto> _)) key = _\<close> have "map_of (rc_entries c2) key = Some e" by simp
      then have "map_of (rc_entries (proxied_run g px xs)) key = Some e"
        using stored(1) by (force simp: shrinks_def map_le_def)
      then show ?thesis using snoc.IH stored_from_mono by blast
    qed
  qed
qed

text \<open>An answer repeats what the upstream said to a request.\<close>

definition repeats :: "http_request \<Rightarrow> reply \<Rightarrow> upstream_reply \<Rightarrow> string \<Rightarrow> bool" where
  "repeats req a resp label \<longleftrightarrow>
     rp_Status a = ur_Status resp \<and> rp_Body a = (if rq_Method req = ''HEAD'' then [] else ur_Body resp) \<and>
     header_Get (rp_Header a) ''X-Forge-Cache'' = label"

lemma repeats_label: "repeats req a resp label \<Longrightarrow> header_Get (rp_Header a) ''X-Forge-Cache'' = label"
  by (simp add: repeats_def)

lemma cached_repeats:
  assumes "stored_from g px xs (cache_key px req) e"
  shows "\<exists>y \<in> set xs. \<exists>resp. cache_key px (pd_Request y) = cache_key px req \<and> upstream_answer g px y = Some resp \<and>
    repeats req (fst (cached_answer g px req e label now)) resp label \<and> ce_ExpiresAt e = pd_Answered y + px_cacheTTL px"
  using assms by (auto simp: stored_from_def repeats_def cached_answer_def writeCachedResponse_def new_entry_def)

text \<open>
  C33: The proxy answers JSON honestly. After any history of requests, a successful answer is one of
  three: what the upstream says to this very request, marked MISS; what it said to an earlier
  request with the same method and URI, at most the configured time ago, marked HIT; or, only when
  the upstream now gives no usable answer, what it said then at most the stale time longer ago,
  marked STALE. HEAD gets no body.
\<close>

theorem json_answers_honest:
  assumes "proxied_step g px x (proxied_run g px xs) = (c, a, observed)" "200 \<le> rp_Status a" "rp_Status a < 300"
  shows "(\<exists>resp. upstream_answer g px x = Some resp \<and> repeats (pd_Request x) a resp ''MISS'') \<or>
    (\<exists>y \<in> set xs. \<exists>resp. cache_key px (pd_Request y) = cache_key px (pd_Request x) \<and>
       upstream_answer g px y = Some resp \<and>
       ((repeats (pd_Request x) a resp ''HIT'' \<and> pd_Now x \<le> pd_Answered y + px_cacheTTL px) \<or>
        (repeats (pd_Request x) a resp ''STALE'' \<and> pd_Now x \<le> pd_Answered y + px_cacheTTL px + px_maxStaleAge px \<and>
         upstream_answer g px x = None)))"
proof -
  let ?req = "pd_Request x" and ?c = "proxied_run g px xs"
  let ?key = "cache_key px ?req"
  obtain c1 hit where g1: "rc_Get ?key (pd_Now x) ?c = (c1, hit)" by fastforce
  obtain c2 stale where g2: "rc_GetStale ?key (pd_Now x) (px_maxStaleAge px) c1 = (c2, stale)" by fastforce
  have sub: "map_of (rc_entries c1) \<subseteq>\<^sub>m map_of (rc_entries ?c)"
    using Get_shrinks [of ?c ?key "pd_Now x"] g1 by (simp add: shrinks_def)
  note step = proxied_step_def handle_json_def Let_def g1 g2
  show ?thesis
  proof (cases hit)
    case (Some e)
    then have e: "map_of (rc_entries ?c) ?key = Some e" "pd_Now x \<le> ce_ExpiresAt e"
      using g1 by (auto simp: rc_Get_def split: option.splits if_splits)
    have "a = fst (cached_answer g px ?req e ''HIT'' (pd_Now x))" using assms(1) Some by (simp add: step)
    then show ?thesis using cached_repeats [OF proxied_run_stored [OF e(1)], of "''HIT''" "pd_Now x"] e(2) by auto
  next
    case None
    show ?thesis
    proof (cases "upstream_answer g px x")
      case a: None
      have "\<exists>err. handle_json g px (pd_Upstream x) (pd_Now x) (pd_Answered x) ?req ?c = (c2, stale_or g px ?req stale (pd_Answered x) err) \<and>
          (rp_Status err < 200 \<or> 300 \<le> rp_Status err)"
      proof (cases "upstreamRequest g px (pd_Upstream x) ?req (rq_Method ?req)")
        case none: None
        show ?thesis
          by (rule exI [of _ "writeProxyError [] 502 ''upstream request''"]) (simp add: step None none writeProxyError_def http_Error_def)
      next
        case (Some resp)
        show ?thesis
        proof (cases "readBoundedBody (ur_Body resp) (ur_Broken resp) (g_maxBodyBytes g)")
          case (Inl b)
          show ?thesis
            by (rule exI [of _ "writeProxyError [] 502 ''response body''"]) (simp add: step None Some Inl writeProxyError_def http_Error_def)
        next
          case (Inr body)
          then have st: "ur_Status resp < 200 \<or> 300 \<le> ur_Status resp"
            using a Some readBounded_Inr [OF Inr] by (auto simp: upstream_answer_def split: if_splits)
          show ?thesis
            by (rule exI [of _ "writeUpstreamStatusError [] (ur_Status resp)"])
              (use st in \<open>simp add: step None Some Inr writeUpstreamStatusError_def writeProxyError_def http_Error_def\<close>)
        qed
      qed
      then obtain err where err: "a = fst (stale_or g px ?req stale (pd_Answered x) err)" "rp_Status err < 200 \<or> 300 \<le> rp_Status err"
        using assms(1) unfolding proxied_step_def by (metis fst_conv snd_conv)
      then obtain e where st: "stale = Some e" using assms(2,3) by (cases stale) (auto simp: stale_or_def)
      then have "map_of (rc_entries c1) ?key = Some e" "pd_Now x \<le> ce_ExpiresAt e + px_maxStaleAge px"
        using g2 by (auto simp: rc_GetStale_def split: option.splits if_splits)
      moreover from this have "map_of (rc_entries ?c) ?key = Some e" using sub by (force simp: map_le_def)
      moreover have "a = fst (cached_answer g px ?req e ''STALE'' (pd_Answered x))" using err(1) st by (simp add: stale_or_def)
      ultimately show ?thesis
        using cached_repeats [OF proxied_run_stored, of g px xs ?req e "''STALE''" "pd_Answered x"] a by auto
    next
      case (Some resp)
      then have "a = relayUpstreamResponse g resp (ur_Body resp) ''X-Forge-Cache'' ''MISS'' (rq_Method ?req = ''HEAD'')"
        using assms(1) None by (auto simp: step upstream_answer_def split: option.splits if_splits)
      then show ?thesis using Some by (auto simp: repeats_def relayUpstreamResponse_def)
    qed
  qed
qed

text \<open>An upstream that cuts its JSON to the range it is asked for.\<close>

definition json_upstream :: upstream where
  "json_upstream meth p query h =
     Some (if header_Get h ''Range'' = [] then
         \<lparr>ur_Status = 200, ur_Header = [(''Content-Type'', [''application/json''])], ur_Body = ''{1}'', ur_Broken = False, ur_ContentLength = 3\<rparr>
       else
         \<lparr>ur_Status = 206, ur_Header = [(''Content-Type'', [''application/json'']), (''Content-Range'', [''bytes 0-0/3''])],
           ur_Body = ''{'', ur_Broken = False, ur_ContentLength = 1\<rparr>)"

definition example_proxy :: proxy_config where
  "example_proxy =
     \<lparr>px_upstream_path = [], px_cacheTTL = 100, px_maxStaleAge = 50, px_artifacts = True, px_observed = False,
      px_uri = rq_Path, px_format = (\<lambda>_. []), px_parse = (\<lambda>_. None), px_gunzip = (\<lambda>_. None), px_etag = (\<lambda>_. ''e'')\<rparr>"

definition example_proxied :: "upstream \<Rightarrow> time \<Rightarrow> header \<Rightarrow> proxied" where
  "example_proxied up now h =
     \<lparr>pd_Upstream = up, pd_Now = now, pd_Answered = now, pd_Request = client_request ''/v3/releases/a'' h\<rparr>"

theorem json_answers_honest_witness:
  "\<exists>a resp. snd (proxied_step (example_service S3 ''modules'') example_proxy (example_proxied (\<lambda>_ _ _ _. None) 120 [])
       (proxied_run (example_service S3 ''modules'') example_proxy [example_proxied json_upstream 10 []])) = (a, None) \<and>
     repeats (client_request ''/v3/releases/a'' []) a resp ''STALE'' \<and> (120::int) \<le> 10 + 100 + 50"
proof -
  let ?g = "example_service S3 ''modules''" and ?xs = "[example_proxied json_upstream 10 []]"
  let ?x = "example_proxied (\<lambda>_ _ _ _. None) 120 []"
  let ?r = "proxied_step ?g example_proxy ?x (proxied_run ?g example_proxy ?xs)"
  have r: "(rp_Status (fst (snd ?r)), header_Get (rp_Header (fst (snd ?r))) ''X-Forge-Cache'', snd (snd ?r)) = (200, ''STALE'', None)"
    by code_simp
  obtain c a where s: "?r = (c, a, None)" and st: "200 \<le> rp_Status a" "rp_Status a < 300"
      "header_Get (rp_Header a) ''X-Forge-Cache'' = ''STALE''"
    using r by (cases ?r) auto
  have q: "pd_Request ?x = client_request ''/v3/releases/a'' []" by (simp add: example_proxied_def)
  have "\<exists>resp. repeats (client_request ''/v3/releases/a'' []) a resp ''STALE''"
    using json_answers_honest [OF s st(1,2)] repeats_label st(3) unfolding q by fastforce
  then show ?thesis unfolding s by simp
qed

text \<open>
  A defect of the response cache: the proxy forwards the \<open>Range\<close> header of a JSON request and
  stores the partial answer under method and URI. Whoever asks for the same URI while the entry is
  fresh gets the fragment with status 206, though the request has no range and the upstream would
  answer it in full.
\<close>

theorem partial_json_is_cached:
  "let g = example_service S3 ''modules'';
       ranged = example_proxied json_upstream 10 [(''Range'', [''bytes=0-0''])];
       plain = example_proxied json_upstream 20 [];
       a = fst (snd (proxied_step g example_proxy plain (proxied_run g example_proxy [ranged])))
   in rp_Status a = 206 \<and> rp_Body a = ''{'' \<and> header_Get (rp_Header a) ''X-Forge-Cache'' = ''HIT'' \<and>
      map_option (\<lambda>r. (ur_Status r, ur_Body r)) (upstream_answer g example_proxy plain) = Some (200, ''{1}'')"
  by code_simp

section \<open>Headers of answers\<close>

text \<open>
  What concerns one connection only and must stay behind: the fixed headers, and those a value of the
  \<open>Connection\<close> header names.
\<close>

definition of_connection :: "(string \<Rightarrow> string) \<Rightarrow> header \<Rightarrow> string \<Rightarrow> bool" where
  "of_connection lower h key \<longleftrightarrow>
     lower key \<in> {''connection'', ''proxy-connection'', ''keep-alive'', ''proxy-authenticate'', ''proxy-authorization'',
        ''te'', ''trailer'', ''trailers'', ''transfer-encoding'', ''upgrade''} \<or>
     (\<exists>line \<in> set (header_Values h ''Connection''). \<exists>n \<in> set (split_on (CHR '','') line).
        canonical_key (trim_space n) \<noteq> [] \<and> canonical_key (trim_space n) = canonical_key key)"

text \<open>The values a header of an upstream answer may have in an answer of the proxy.\<close>

definition passed_on :: "(string \<Rightarrow> string) \<Rightarrow> header \<Rightarrow> string \<Rightarrow> string list" where
  "passed_on lower h key = (if of_connection lower h key then [] else header_Values h key)"

lemma end_to_end_of_connection: "end_to_end lower h key \<longleftrightarrow> \<not> of_connection lower h key"
proof -
  have "canonical_key key \<in> connectionHeaderNames h \<longleftrightarrow>
      (\<exists>line \<in> set (header_Values h ''Connection''). \<exists>n \<in> set (split_on (CHR '','') line).
        canonical_key (trim_space n) \<noteq> [] \<and> canonical_key (trim_space n) = canonical_key key)" (is "_ \<longleftrightarrow> ?named")
  proof
    assume "canonical_key key \<in> connectionHeaderNames h"
    then show ?named unfolding connectionHeaderNames_def by fastforce
  next
    assume ?named
    then obtain line n where n: "line \<in> set (header_Values h ''Connection'')" "n \<in> set (split_on (CHR '','') line)"
        "canonical_key (trim_space n) \<noteq> []" "canonical_key key = canonical_key (trim_space n)" by metis
    show "canonical_key key \<in> connectionHeaderNames h"
      unfolding connectionHeaderNames_def set_filter set_map set_concat n(4) using n(1-3) by blast
  qed
  then show ?thesis by (simp add: end_to_end_def of_connection_def isHopByHopHeader_def)
qed

lemma copied_headers:
  "wf_map h \<Longrightarrow> header_Values (copyEndToEndHeaders lower [] h) key = passed_on lower h key"
  using header_Values_copy [of h "end_to_end lower h" "[]" key]
  by (simp add: copyEndToEndHeaders_def passed_on_def end_to_end_of_connection)

lemma cloned_headers: "header_Values (cloneHeader lower h) key = passed_on lower h key"
proof -
  have "map_of (filter (\<lambda>(key, values). P key) m) key = (if P key then map_of m key else None)" for P and m :: header
    by (induction m) auto
  then show ?thesis by (simp add: header_Values_def cloneHeader_def passed_on_def end_to_end_of_connection)
qed

lemma cloned_wf: "wf_map h \<Longrightarrow> wf_map (cloneHeader lower h)"
  by (simp add: cloneHeader_def distinct_map_filter)

lemma cached_headers:
  assumes "wf_map h"
  shows "header_Values (copyEndToEndHeaders lower [] (cloneHeader lower h)) key = passed_on lower h key"
proof -
  have "of_connection lower (cloneHeader lower h) key \<Longrightarrow> of_connection lower h key"
    unfolding of_connection_def cloned_headers passed_on_def by (auto split: if_splits)
  then show ?thesis
    unfolding copied_headers [OF cloned_wf [OF assms]] passed_on_def [of lower "cloneHeader lower h"] cloned_headers
    by (auto simp: passed_on_def)
qed

lemma relayed_headers:
  "wf_map (ur_Header resp) \<Longrightarrow> key \<noteq> label \<Longrightarrow>
   header_Values (rp_Header (relayUpstreamResponse g resp body label status isHead)) key = passed_on (g_lower g) (ur_Header resp) key"
  by (simp add: relayUpstreamResponse_def header_Values_Set copied_headers)

lemma repeated_headers:
  assumes "wf_map (ur_Header resp)" "key \<notin> {''X-Forge-Cache'', ''Age'', ''Date''}"
  shows "header_Values (rp_Header (fst (cached_answer g px req (new_entry g px resp body t) label now))) key =
    passed_on (g_lower g) (ur_Header resp) key"
  using assms by (simp add: cached_answer_def writeCachedResponse_def new_entry_def header_Values_Set cached_headers)

text \<open>Where the header of a JSON answer comes from: an answer of the upstream, or an error text of the proxy.\<close>

definition header_from :: "service \<Rightarrow> upstream_reply \<Rightarrow> reply \<Rightarrow> bool" where
  "header_from g resp a \<longleftrightarrow>
     (\<forall>key. key \<notin> {''X-Forge-Cache'', ''Age'', ''Date''} \<longrightarrow>
        header_Values (rp_Header a) key = passed_on (g_lower g) (ur_Header resp) key)"

definition header_of_error :: "reply \<Rightarrow> bool" where
  "header_of_error a \<longleftrightarrow>
     (\<forall>key. key \<notin> {''Content-Type'', ''X-Content-Type-Options''} \<longrightarrow> header_Values (rp_Header a) key = [])"

lemma error_header: "header_of_error (writeProxyError [] status message)" "header_of_error (writeUpstreamStatusError [] status)"
  by (auto simp: header_of_error_def writeUpstreamStatusError_def writeProxyError_def http_Error_def header_Values_Set header_Del_def)

lemma json_header_origin:
  assumes "proxied_step g px x (proxied_run g px xs) = (c, a, observed)"
    and "\<forall>y \<in> set (x # xs). \<forall>resp. upstream_answer g px y = Some resp \<longrightarrow> wf_map (ur_Header resp)"
  shows "(\<exists>y \<in> set (x # xs). \<exists>r. cache_key px (pd_Request y) = cache_key px (pd_Request x) \<and>
    upstream_answer g px y = Some r \<and> header_from g r a) \<or> header_of_error a"
proof -
  let ?req = "pd_Request x" and ?c = "proxied_run g px xs"
  let ?key = "cache_key px ?req"
  obtain c1 hit where g1: "rc_Get ?key (pd_Now x) ?c = (c1, hit)" by fastforce
  obtain c2 stale where g2: "rc_GetStale ?key (pd_Now x) (px_maxStaleAge px) c1 = (c2, stale)" by fastforce
  have sub: "map_of (rc_entries c1) \<subseteq>\<^sub>m map_of (rc_entries ?c)"
    using Get_shrinks [of ?c ?key "pd_Now x"] g1 by (simp add: shrinks_def)
  note step = proxied_step_def handle_json_def Let_def g1 g2
  have cached: "\<exists>y \<in> set xs. \<exists>r. cache_key px (pd_Request y) = ?key \<and> upstream_answer g px y = Some r \<and>
      header_from g r (fst (cached_answer g px ?req e label now))"
    if "map_of (rc_entries ?c) ?key = Some e" for e label now
    using proxied_run_stored [OF that] assms(2) repeated_headers unfolding stored_from_def header_from_def by fastforce
  show ?thesis
  proof (cases hit)
    case (Some e)
    then have "map_of (rc_entries ?c) ?key = Some e" using g1 by (auto simp: rc_Get_def split: option.splits if_splits)
    then show ?thesis using cached [of e "''HIT''" "pd_Now x"] assms(1) Some by (auto simp: step)
  next
    case None
    have or_stale: ?thesis if "a = fst (stale_or g px ?req stale (pd_Answered x) err)" "header_of_error err" for err
    proof (cases stale)
      case None
      then show ?thesis using that by (simp add: stale_or_def)
    next
      case (Some e)
      then have "map_of (rc_entries ?c) ?key = Some e"
        using g2 sub by (force simp: rc_GetStale_def map_le_def split: option.splits if_splits)
      then show ?thesis using cached [of e "''STALE''" "pd_Answered x"] that(1) Some by (auto simp: stale_or_def)
    qed
    show ?thesis
    proof (cases "upstreamRequest g px (pd_Upstream x) ?req (rq_Method ?req)")
      case none: None
      then show ?thesis using assms(1) None error_header(1) by (intro or_stale [of "writeProxyError [] 502 ''upstream request''"]) (auto simp: step)
    next
      case (Some resp)
      show ?thesis
      proof (cases "upstream_answer g px x")
        case a: None
        show ?thesis
        proof (cases "readBoundedBody (ur_Body resp) (ur_Broken resp) (g_maxBodyBytes g)")
          case (Inl b)
          then show ?thesis using assms(1) None Some error_header(1)
            by (intro or_stale [of "writeProxyError [] 502 ''response body''"]) (auto simp: step)
        next
          case (Inr body)
          then show ?thesis using assms(1) a None Some error_header(2) readBounded_Inr [OF Inr]
            by (intro or_stale [of "writeUpstreamStatusError [] (ur_Status resp)"])
              (auto simp: step upstream_answer_def split: if_splits)
        qed
      next
        case r: (Some r)
        then have "a = relayUpstreamResponse g r (ur_Body r) ''X-Forge-Cache'' ''MISS'' (rq_Method ?req = ''HEAD'')"
          using assms(1) None by (auto simp: step upstream_answer_def split: option.splits if_splits)
        then have "header_from g r a" using relayed_headers assms(2) r by (auto simp: header_from_def)
        then show ?thesis using r by auto
      qed
    qed
  qed
qed

text \<open>
  C32: The proxy filters headers in both directions. Of the headers of a client only the eight listed
  ones reach the upstream, with their values; so neither credentials nor cookies do. The upstream gets
  the host and scheme of the request in forwarding headers of the proxy's own, and for JSON the
  identity encoding. In the other direction, after any history of requests a JSON answer carries
  the headers of one answer of the upstream to a request with the same method and URI, each with its
  values, less the ten headers of the connection and those a \<open>Connection\<close> header of that answer names;
  or it is an error text of the proxy without any header of the upstream. Only the three headers the
  proxy sets itself are apart. The same holds for every answer it relays for an artifact.
\<close>

theorem proxy_filters_headers:
  assumes "wf_map (rq_Header req)"
    and "\<forall>y \<in> set (x # xs). \<forall>resp. upstream_answer g px y = Some resp \<longrightarrow> wf_map (ur_Header resp)"
    and "proxied_step g px x (proxied_run g px xs) = (c, a, observed)"
    and "wf_map (ur_Header resp)" "key \<noteq> ''X-Forge-Artifact-Cache''"
  shows "header_Values (upstream_headers g req) key =
      (if key = ''X-Forwarded-Proto'' then [ForwardedScheme (g_equal_fold g) (Some req)]
       else if key = ''X-Forwarded-Host'' then [rq_Host req]
       else if key = ''Accept-Encoding'' \<and> \<not> has_prefix (rq_Path req) ''/v3/files/'' then [''identity'']
       else if g_lower g key \<in> {''accept'', ''accept-encoding'', ''accept-language'', ''cache-control'', ''if-modified-since'',
          ''if-none-match'', ''range'', ''user-agent''} then header_Values (rq_Header req) key else []) \<and>
    ((\<exists>y \<in> set (x # xs). \<exists>r. cache_key px (pd_Request y) = cache_key px (pd_Request x) \<and>
        upstream_answer g px y = Some r \<and> header_from g r a) \<or> header_of_error a) \<and>
    header_Values (rp_Header (relayUpstreamResponse g resp body ''X-Forge-Artifact-Cache'' status isHead)) key =
      passed_on (g_lower g) (ur_Header resp) key"
proof -
  have up: "header_Values (copyRequestHeaders (g_lower g) [] (rq_Header req)) key =
      (if shouldForwardUpstreamHeader (g_lower g) key then header_Values (rq_Header req) key else [])"
    using header_Values_copy [OF assms(1), of "shouldForwardUpstreamHeader (g_lower g)" "[]" key] by (simp add: copyRequestHeaders_def)
  have "header_Values (upstream_headers g req) key =
      (if key = ''X-Forwarded-Proto'' then [ForwardedScheme (g_equal_fold g) (Some req)]
       else if key = ''X-Forwarded-Host'' then [rq_Host req]
       else if key = ''Accept-Encoding'' \<and> \<not> has_prefix (rq_Path req) ''/v3/files/'' then [''identity'']
       else if g_lower g key \<in> {''accept'', ''accept-encoding'', ''accept-language'', ''cache-control'', ''if-modified-since'',
          ''if-none-match'', ''range'', ''user-agent''} then header_Values (rq_Header req) key else [])"
    using up by (auto simp: upstream_headers_def Let_def header_Values_Set shouldForwardUpstreamHeader_def)
  moreover have "(\<exists>y \<in> set (x # xs). \<exists>r. cache_key px (pd_Request y) = cache_key px (pd_Request x) \<and>
      upstream_answer g px y = Some r \<and> header_from g r a) \<or> header_of_error a"
    using json_header_origin [OF assms(3)] assms(2) by blast
  ultimately show ?thesis using relayed_headers [OF assms(4,5)] by blast
qed

theorem proxy_filters_headers_witness:
  "let g = example_service S3 ''modules'';
       req = client_request ''/v3/modules/a'' [(''Authorization'', [''Bearer x'']), (''Range'', [''bytes=0-1''])];
       resp = \<lparr>ur_Status = 200, ur_Header = [(''Connection'', [''x-trace'']), (''X-Trace'', [''1''])], ur_Body = [], ur_Broken = False,
         ur_ContentLength = 0\<rparr>
   in header_Values (upstream_headers g req) ''Authorization'' = [] \<and>
      header_Values (rp_Header (relayUpstreamResponse g resp [] ''X-Forge-Artifact-Cache'' ''BYPASS'' False)) ''X-Trace'' = [] \<and>
      (\<exists>r. upstream_answer g example_proxy (example_proxied json_upstream 10 []) = Some r \<and>
         header_from g r (fst (snd (proxied_step g example_proxy (example_proxied (\<lambda>_ _ _ _. None) 120 [])
           (proxied_run g example_proxy [example_proxied json_upstream 10 []])))))"
proof -
  let ?g = "example_service S3 ''modules''" and ?xs = "[example_proxied json_upstream 10 []]"
  let ?x = "example_proxied (\<lambda>_ _ _ _. None) 120 []"
  let ?req = "client_request ''/v3/modules/a'' [(''Authorization'', [''Bearer x'']), (''Range'', [''bytes=0-1''])]"
  let ?resp = "\<lparr>ur_Status = 200, ur_Header = [(''Connection'', [''x-trace'']), (''X-Trace'', [''1''])], ur_Body = [], ur_Broken = False,
    ur_ContentLength = 0\<rparr>"
  let ?a = "fst (snd (proxied_step ?g example_proxy ?x (proxied_run ?g example_proxy ?xs)))"
  have ans: "upstream_answer ?g example_proxy (example_proxied json_upstream n []) = json_upstream [] [] [] []" for n
    by (simp add: upstream_answer_def upstreamRequest_def upstream_headers_def) code_simp
  have none: "upstream_answer ?g example_proxy ?x = None"
    by (simp add: upstream_answer_def upstreamRequest_def example_proxied_def)
  have w: "wf_map (rq_Header ?req)" "wf_map (ur_Header ?resp)" by (simp_all add: client_request_def)
  have wf: "\<forall>y \<in> set (?x # ?xs). \<forall>resp. upstream_answer ?g example_proxy y = Some resp \<longrightarrow> wf_map (ur_Header resp)"
    by (auto simp: ans none json_upstream_def)
  obtain c a observed where run: "proxied_step ?g example_proxy ?x (proxied_run ?g example_proxy ?xs) = (c, a, observed)"
    by (metis prod.exhaust)
  have "\<not> header_of_error a"
  proof -
    have "(rp_Status ?a, header_Get (rp_Header ?a) ''X-Forge-Cache'') = (200, ''STALE'')" by code_simp
    then have "header_Values (rp_Header a) ''X-Forge-Cache'' \<noteq> []"
      unfolding run fst_conv snd_conv by (cases "map_of (rp_Header a) ''X-Forge-Cache''") (simp_all add: header_Get_def header_Values_def list.case_eq_if split: if_splits)
    then show ?thesis unfolding header_of_error_def by fastforce
  qed
  then have hit: "\<exists>r. upstream_answer ?g example_proxy (example_proxied json_upstream 10 []) = Some r \<and> header_from ?g r a"
    using proxy_filters_headers [OF w(1) wf run w(2), of "''Authorization''"] by (auto simp: ans none)
  have l: "ascii_to_lower ''Authorization'' = ''authorization''" "g_lower ?g = ascii_to_lower"
      "of_connection ascii_to_lower (ur_Header ?resp) ''X-Trace''"
    by (code_simp, simp add: example_service_def, code_simp)
  show ?thesis
    using proxy_filters_headers [OF w(1) wf run w(2), of "''Authorization''"]
      proxy_filters_headers [OF w(1) wf run w(2), of "''X-Trace''" "[]" "''BYPASS''" False] hit l
    by (simp add: Let_def run passed_on_def)
qed

section \<open>Cached artifacts\<close>

text \<open>The bytes at given positions.\<close>

definition bytes_at :: "string \<Rightarrow> int set \<Rightarrow> string" where
  "bytes_at body A = map (\<lambda>i. body ! nat i) (sorted_list_of_set A)"

lemma range_bytes:
  assumes "0 \<le> a" "0 < n" "a + n \<le> int (length body)"
  shows "take (nat n) (drop (nat a) body) = bytes_at body {a ..< a + n}"
proof -
  have "{a ..< a + n} = set [a .. a + n - 1]" by auto
  then have l: "sorted_list_of_set {a ..< a + n} = [a .. a + n - 1]"
    by (simp only: sorted_list_of_set.idem_if_sorted_distinct sorted_upto distinct_upto)
  show ?thesis
    unfolding bytes_at_def l by (rule nth_equalityI) (use assms in \<open>auto simp: nat_add_distrib\<close>)
qed

text \<open>What a client is told of a range.\<close>

definition asked_range :: "header \<Rightarrow> range_spec \<Rightarrow> bool" where
  "asked_range h spec \<longleftrightarrow>
     (\<exists>startText endText.
        cut (CHR ''-'') (trim_space (trim_prefix (trim_space (header_Get h ''Range'')) ''bytes='')) = (startText, endText, True) \<and>
        range_text startText endText = Some spec)"

lemma ParseSingleByteRange_Nil: "ParseSingleByteRange [] n = Inr (no_range, False)"
proof -
  have "trim_space [] = []" by code_simp
  then show ?thesis by (simp add: ParseSingleByteRange_def)
qed

lemma prepared_range:
  assumes "prepareArtifactResponse req n etag ct = Inr (h, r)"
  shows "(bp_Partial r \<and> bp_Status r = 206 \<and>
      (\<exists>spec. asked_range (rq_Header req) spec \<and> range_positions (bp_Range r) = selected spec n) \<and>
      0 \<le> br_Start (bp_Range r) \<and> 0 < br_Length (bp_Range r) \<and> br_Start (bp_Range r) + br_Length (bp_Range r) \<le> n) \<or>
    (\<not> bp_Partial r \<and> bp_Status r = 200)"
proof -
  let ?raw = "if IfRangeMatches (header_Get (rq_Header req) ''If-Range'') etag then header_Get (rq_Header req) ''Range'' else []"
  obtain p where parsed: "ParseSingleByteRange ?raw n = Inr (bp_Range r, p)" and r: "bp_Partial r = p"
      "bp_Status r = (if p then 206 else 200)"
    using assms by (auto simp: prepareArtifactResponse_def PrepareByteRangeResponse_def Let_def split: prod.splits sum.splits if_splits)
  show ?thesis
  proof (cases p)
    case True
    then have raw: "?raw = header_Get (rq_Header req) ''Range''"
      using parsed ParseSingleByteRange_Nil by (auto split: if_splits)
    have "ParseSingleByteRange (header_Get (rq_Header req) ''Range'') n = Inr (bp_Range r, True)"
      using parsed True unfolding raw by simp
    from range_accepted [OF this] show ?thesis
      using r True unfolding asked_range_def by auto
  next
    case False
    with r show ?thesis by simp
  qed
qed

lemma prepared_length:
  "prepareArtifactResponse req n etag ct = Inr (h, r) \<Longrightarrow>
   header_Get h ''Content-Length'' = FormatInt (if bp_Partial r then br_Length (bp_Range r) else n)"
  by (auto simp: prepareArtifactResponse_def PrepareByteRangeResponse_def Let_def split: prod.splits sum.splits if_splits)

text \<open>
  What of some bytes arrives: all of them, or, when the stream breaks, the beginning. The answer always
  announces the length of the whole, so what is missing shows.
\<close>

definition transmits :: "request \<Rightarrow> header \<Rightarrow> string \<Rightarrow> string \<Rightarrow> bool" where
  "transmits q h whole content \<longleftrightarrow>
     (\<exists>lost. whole = content @ lost \<and> (q_sent q = None \<longrightarrow> lost = [])) \<and>
     header_Get h ''Content-Length'' = FormatInt (int (length whole))"

lemma copied_transmits:
  "header_Get h ''Content-Length'' = FormatInt (int (length whole)) \<Longrightarrow> transmits q h whole (copied q whole)"
proof (cases "q_sent q")
  case (Some n)
  then have "whole = copied q whole @ drop n whole" by (simp add: copied_def)
  then show ?thesis if "header_Get h ''Content-Length'' = FormatInt (int (length whole))"
    using that Some unfolding transmits_def by (metis option.distinct(1))
qed (simp add: transmits_def copied_def)

lemma bucket_read_cases:
  "snd (bucket_read f w) = Inl Unavailable \<or> snd (bucket_read f w) = Inr (f (w_bucket w))"
  by (cases rule: bucket_call_cases [where f = "\<lambda>bk. (bk, Inr (f bk))" and w = w]) (simp_all add: bucket_read_def)

lemma bucket_read_bucket [simp]: "w_bucket (fst (bucket_read f w)) = w_bucket w"
  by (cases rule: bucket_call_cases [where f = "\<lambda>bk. (bk, Inr (f bk))" and w = w]) (simp_all add: bucket_read_def)

text \<open>The answers a client may get for an object.\<close>

definition serves :: "request \<Rightarrow> http_request \<Rightarrow> string \<Rightarrow> reply \<Rightarrow> bool" where
  "serves q req body a \<longleftrightarrow>
     (rp_Status a = 200 \<and> transmits q (rp_Header a) body (rp_Body a)) \<or>
     (rp_Status a = 206 \<and> (\<exists>spec. asked_range (rq_Header req) spec \<and> selected spec (int (length body)) \<noteq> {} \<and>
        transmits q (rp_Header a) (bytes_at body (selected spec (int (length body)))) (rp_Body a))) \<or>
     (rp_Status a = 304 \<and> rp_Body a = []) \<or> rp_Status a = 416 \<or> rp_Status a = 502"

lemma bad_gateway_status [simp]: "rp_Status (bad_gateway h) = 502"
  by (simp add: bad_gateway_def writeProxyError_def http_Error_def)

lemma serve_stored:
  assumes "OpenObject (g_backend g) path (w_bucket w) = Some ob" "rq_Method req \<noteq> ''HEAD''"
    and "serveStoredArtifact g px q req path ob label w = (w1, Inr a)"
  shows "serves q req (ob_Body ob) a \<and> w_bucket w1 = w_bucket w"
proof (cases "prepareArtifactResponse req (int (length (ob_Body ob))) (normalizeETag (px_etag px ob)) (ob_ContentType ob)")
  case (Inl whole)
  then have "rp_Status whole = 416 \<or> (rp_Status whole = 304 \<and> rp_Body whole = [])"
    by (auto simp: prepareArtifactResponse_def PrepareByteRangeResponse_def Let_def writeProxyError_def http_Error_def
        split: prod.splits sum.splits if_splits)
  then show ?thesis using assms(3) Inl by (auto simp: serveStoredArtifact_def svc_return_def serves_def)
next
  case (Inr hr)
  obtain h r where hr: "hr = (h, r)" by fastforce
  let ?h = "header_Set ''X-Forge-Artifact-Cache'' label h"
  let ?read = "bucket_read (object_content g path r)"
  have run: "(w1, Inr a) = or_reply ?read (bad_gateway (ClearByteRangeResponseHeaders ?h)) (\<lambda>content.
      svc_return (case content of None \<Rightarrow> bad_gateway (ClearByteRangeResponseHeaders ?h)
        | Some body \<Rightarrow> \<lparr>rp_Status = bp_Status r, rp_Header = ?h, rp_Body = copied q body\<rparr>)) w"
    using assms(2,3) Inr by (simp add: serveStoredArtifact_def Let_def hr)
  have w1: "w_bucket w1 = w_bucket w"
    using arg_cong [OF run, of "\<lambda>x. w_bucket (fst x)"]
    by (simp add: or_reply_def svc_try_def case_prod_unfold svc_return_def split: sum.splits)
  show ?thesis
  proof (cases "snd (?read w)")
    case (Inl e)
    then have "a = bad_gateway (ClearByteRangeResponseHeaders ?h)"
      using arg_cong [OF run, of snd] by (simp add: or_reply_def svc_try_def case_prod_unfold svc_return_def)
    then show ?thesis using w1 by (simp add: serves_def)
  next
    case read: (Inr content)
    have content: "content = object_content g path r (w_bucket w)" using bucket_read_cases [of "object_content g path r" w] read by simp
    then obtain body where body: "content = Some body" "body = (if bp_Partial r
        then take (nat (br_Length (bp_Range r))) (drop (nat (br_Start (bp_Range r))) (ob_Body ob)) else ob_Body ob)"
      using assms(1) prepared_range [OF Inr [unfolded hr]]
      by (cases "bp_Partial r") (auto simp: object_content_def OpenRange_def Let_def)
    have a: "a = \<lparr>rp_Status = bp_Status r, rp_Header = ?h, rp_Body = copied q body\<rparr>"
      using arg_cong [OF run, of snd] read body(1) by (simp add: or_reply_def svc_try_def case_prod_unfold svc_return_def)
    show ?thesis
    proof (cases "bp_Partial r")
      case True
      then obtain spec where spec: "asked_range (rq_Header req) spec" "range_positions (bp_Range r) = selected spec (int (length (ob_Body ob)))"
          and b: "0 \<le> br_Start (bp_Range r)" "0 < br_Length (bp_Range r)"
            "br_Start (bp_Range r) + br_Length (bp_Range r) \<le> int (length (ob_Body ob))" "bp_Status r = 206"
        using prepared_range [OF Inr [unfolded hr]] by blast
      let ?part = "bytes_at (ob_Body ob) (selected spec (int (length (ob_Body ob))))"
      have part: "body = ?part"
        using range_bytes [OF b(1-3)] body(2) True spec(2) by (simp add: range_positions_def)
      moreover have "int (length ?part) = br_Length (bp_Range r)" using body(2) True b(1-3) by (simp add: part [symmetric])
      then have "transmits q ?h ?part (copied q ?part)"
        using prepared_length [OF Inr [unfolded hr]] True by (intro copied_transmits) simp
      moreover have "selected spec (int (length (ob_Body ob))) \<noteq> {}" using spec(2) b(2) by (auto simp: range_positions_def)
      ultimately show ?thesis using a spec(1) b(4) w1 unfolding serves_def by auto
    next
      case False
      then have "transmits q ?h body (copied q body)"
        using prepared_length [OF Inr [unfolded hr]] body(2) by (intro copied_transmits) simp
      then show ?thesis using False prepared_range [OF Inr [unfolded hr]] a body(2) w1 by (simp add: serves_def)
    qed
  qed
qed

text \<open>
  C34: A cached artifact is served exactly. A GET for a file in the cache never contacts the upstream
  and changes no object; it is answered with the whole file and status 200, with exactly the bytes
  its \<open>Range\<close> header selects and status 206, with status 304 and no body, or with an error. When the
  stream breaks after the status is sent, the client has the first of those bytes and an announced
  length that shows that some are missing.
\<close>

theorem cached_artifact_served:
  assumes "px_artifacts px" "rq_Method req = ''GET''"
    and "OpenObject (g_backend g) (cachedArtifactPath g (rq_Path req)) (w_bucket w) = Some ob"
    and "handleArtifactRequest g px up q req w = (w1, Inr a)"
  shows "serves q req (ob_Body ob) a \<and> w_bucket w1 = w_bucket w \<and> handleArtifactRequest g px other q req w = (w1, Inr a)"
proof -
  let ?p = "cachedArtifactPath g (rq_Path req)"
  let ?stat = "bucket_read (OpenObject (g_backend g) ?p)"
  have run: "handleArtifactRequest g px u q req w =
      (case snd (?stat w) of Inl e \<Rightarrow> (fst (?stat w), Inr (bad_gateway []))
       | Inr found \<Rightarrow> serveStoredArtifact g px q req ?p ob ''HIT'' (fst (?stat w)))" for u
    using assms(1,3) bucket_read_cases [of "OpenObject (g_backend g) ?p" w]
    by (auto simp: handleArtifactRequest_def or_reply_def svc_try_def case_prod_unfold svc_return_def Let_def)
  have "serves q req (ob_Body ob) a \<and> w_bucket w1 = w_bucket w"
  proof (cases "snd (?stat w)")
    case (Inl e)
    then show ?thesis using assms(4) by (auto simp: run serves_def)
  next
    case (Inr found)
    then have "serveStoredArtifact g px q req ?p ob ''HIT'' (fst (?stat w)) = (w1, Inr a)" using assms(4) by (simp add: run)
    from serve_stored [OF _ _ this] show ?thesis using assms(2,3) by simp
  qed
  then show ?thesis using assms(4) by (simp add: run)
qed

definition cached_world :: world where
  "cached_world = example_world (empty_db,
     [(''upstream-cache/v3/files/a.tar.gz'', \<lparr>ob_Body = ''content'', ob_ContentType = ''application/gzip'', ob_UpdatedAt = 1\<rparr>)]) []"

theorem cached_artifact_served_witness:
  "\<exists>w1 a. handleArtifactRequest (example_service S3 ''modules'') example_proxy (\<lambda>_ _ _ _. None) (example_request 9 ''3'')
     (client_request ''/v3/files/a.tar.gz'' [(''Range'', [''bytes=1-3''])]) cached_world = (w1, Inr a) \<and>
     serves (example_request 9 ''3'') (client_request ''/v3/files/a.tar.gz'' [(''Range'', [''bytes=1-3''])]) ''content'' a \<and> rp_Body a = ''ont''"
proof -
  let ?g = "example_service S3 ''modules''" and ?req = "client_request ''/v3/files/a.tar.gz'' [(''Range'', [''bytes=1-3''])]"
  let ?h = "handleArtifactRequest ?g example_proxy (\<lambda>_ _ _ _. None) (example_request 9 ''3'') ?req cached_world"
  have "map_sum (\<lambda>_. ()) rp_Body (snd ?h) = Inr ''ont''" by code_simp
  then obtain w1 a where r: "?h = (w1, Inr a)" and b: "rp_Body a = ''ont''"
    by (cases "snd ?h") (auto simp: prod_eq_iff intro!: that [of "fst ?h"])
  have "map_option ob_Body (OpenObject (g_backend ?g) (cachedArtifactPath ?g (rq_Path ?req)) (w_bucket cached_world)) = Some ''content''"
    by code_simp
  then obtain ob where ob: "OpenObject (g_backend ?g) (cachedArtifactPath ?g (rq_Path ?req)) (w_bucket cached_world) = Some ob"
      "ob_Body ob = ''content''" by blast
  have p: "px_artifacts example_proxy" "rq_Method ?req = ''GET''" by (simp_all add: example_proxy_def client_request_def)
  from cached_artifact_served [OF p ob(1) r, of "\<lambda>_ _ _ _. None"] r b ob(2) show ?thesis by auto
qed

section \<open>Copying an artifact ends\<close>

text \<open>
  \<open>io.Copy\<close> as the loop it is: it calls the reader until the reader answers an error or
  \<open>io.EOF\<close>. The number of calls is bounded by the fuel, and running out of it is \<open>None\<close>.
\<close>

fun copy_reads :: "nat \<Rightarrow> int \<Rightarrow> int \<Rightarrow> bool \<Rightarrow> nat \<Rightarrow> int \<Rightarrow> string \<Rightarrow> string \<Rightarrow> string outcome option" where
  "copy_reads 0 contentLength maxBytes broken n readBytes rest done = None"
| "copy_reads (Suc calls) contentLength maxBytes broken n readBytes rest done =
     (case artifactUploadReader_Read contentLength maxBytes broken n readBytes rest of
        (got, Some (Some e), left) \<Rightarrow> Some (Inl e)
      | (got, Some None, left) \<Rightarrow> Some (Inr (done @ got))
      | (got, None, left) \<Rightarrow>
          copy_reads calls contentLength maxBytes broken n (readBytes + int (length got)) left (done @ got))"

lemma copy_reads_upload_all:
  assumes "0 < n" "length rest < calls"
  shows "copy_reads calls cl mb br n rb rest done = Some (map_sum (\<lambda>e. e) (\<lambda>more. done @ more) (upload_all cl mb br n rb rest))"
  using assms
proof (induction calls arbitrary: rb rest "done")
  case (Suc calls)
  obtain got e left where r: "artifactUploadReader_Read cl mb br n rb rest = (got, e, left)" by (metis prod.exhaust)
  show ?case
  proof (cases e)
    case None
    then have p: "rest = got @ left" "got \<noteq> []" using Read_progress [of cl mb br n rb rest got left] r Suc.prems by auto
    have "length left < calls" using p Suc.prems by (cases got) auto
    then have "copy_reads calls cl mb br n (rb + int (length got)) left (done @ got) =
        Some (map_sum (\<lambda>e. e) (\<lambda>more. (done @ got) @ more) (upload_all cl mb br n (rb + int (length got)) left))"
      by (rule Suc.IH [OF Suc.prems(1)])
    then show ?thesis
      using None r Suc.prems by (subst upload_all.simps) (simp add: sum.map_comp o_def sum.map_ident split: sum.split)
  next
    case (Some e')
    then show ?thesis using r Suc.prems by (subst upload_all.simps) (simp split: option.split)
  qed
qed simp

text \<open>
  C35: Copying an artifact from the upstream ends. With a buffer of any positive size the copy loop
  calls the reader at most once more than the body has bytes, whatever length the upstream announces
  and even if the connection breaks, and then has the outcome fixed by the body alone: a body longer
  than announced (or than the maximum) or shorter than announced is an error, and a body of the right
  length arrives unchanged.
\<close>

theorem artifact_copy_ends:
  assumes "0 < n" and "0 \<le> maxBytes"
  shows "copy_reads (Suc (length body)) contentLength maxBytes broken n 0 body [] =
      Some (upload_outcome contentLength maxBytes broken 0 body)"
  using copy_reads_upload_all [OF assms(1), of body "Suc (length body)" contentLength maxBytes broken 0 "[]"]
    upload_all_outcome [OF assms(1), of 0 contentLength maxBytes broken body] assms(2)
  by (simp add: sum.map_ident)

theorem artifact_copy_ends_witness:
  "copy_reads 7 6 100 False 4 0 ''abcdef'' [] = Some (Inr ''abcdef'') \<and>
   copy_reads 7 9 100 False 4 0 ''abcdef'' [] = Some (Inl (UpstreamInvalid ''length''))"
  using artifact_copy_ends [of 4 100 "''abcdef''" 6 False] artifact_copy_ends [of 4 100 "''abcdef''" 9 False]
  by (simp add: upload_outcome_def eval_nat_numeral)

end
