(* ===== verification/Outbound.thy ===== *)
theory Outbound
  imports Identity "HOL-Library.Word"
begin

text \<open>
  Where the proxy connects to (\<open>internal/proxy/outbound.go\<close>): the checks of the upstream URL, of
  redirects and of every resolved address before a connection is opened. Addresses are words; their
  text form and the resolver are parameters.
\<close>

unbundle bit_operations_syntax

section \<open>Addresses\<close>

text \<open>\<open>netip.Addr\<close>.\<close>

datatype addr = V4 "32 word" | V6 "128 word"

definition v4_prefix :: "32 word \<Rightarrow> nat \<Rightarrow> 32 word \<Rightarrow> bool" where
  "v4_prefix network bits a = (drop_bit (32 - bits) a = drop_bit (32 - bits) network)"

definition v6_prefix :: "128 word \<Rightarrow> nat \<Rightarrow> 128 word \<Rightarrow> bool" where
  "v6_prefix network bits a = (drop_bit (128 - bits) a = drop_bit (128 - bits) network)"

text \<open>\<open>Unmap\<close>: an IPv4 address in IPv6 form is the IPv4 address.\<close>

definition addr_Unmap :: "addr \<Rightarrow> addr" where
  "addr_Unmap a = (case a of V6 w \<Rightarrow> (if v6_prefix 0xFFFF00000000 96 w then V4 (ucast w) else a) | V4 _ \<Rightarrow> a)"

fun addr_IsUnspecified :: "addr \<Rightarrow> bool" where
  "addr_IsUnspecified (V4 a) = (a = 0)"
| "addr_IsUnspecified (V6 a) = (a = 0)"

fun addr_IsLoopback :: "addr \<Rightarrow> bool" where
  "addr_IsLoopback (V4 a) = v4_prefix 0x7F000000 8 a"
| "addr_IsLoopback (V6 a) = (a = 1)"

fun addr_IsPrivate :: "addr \<Rightarrow> bool" where
  "addr_IsPrivate (V4 a) = (v4_prefix 0x0A000000 8 a \<or> v4_prefix 0xAC100000 12 a \<or> v4_prefix 0xC0A80000 16 a)"
| "addr_IsPrivate (V6 a) = v6_prefix 0xFC000000000000000000000000000000 7 a"

fun addr_IsLinkLocalUnicast :: "addr \<Rightarrow> bool" where
  "addr_IsLinkLocalUnicast (V4 a) = v4_prefix 0xA9FE0000 16 a"
| "addr_IsLinkLocalUnicast (V6 a) = v6_prefix 0xFE800000000000000000000000000000 10 a"

text \<open>For IPv6 the scope in the low bits of the second byte.\<close>

fun addr_IsLinkLocalMulticast :: "addr \<Rightarrow> bool" where
  "addr_IsLinkLocalMulticast (V4 a) = v4_prefix 0xE0000000 24 a"
| "addr_IsLinkLocalMulticast (V6 a) = (drop_bit 112 a AND 0xFF0F = 0xFF02)"

fun addr_IsMulticast :: "addr \<Rightarrow> bool" where
  "addr_IsMulticast (V4 a) = v4_prefix 0xE0000000 4 a"
| "addr_IsMulticast (V6 a) = v6_prefix 0xFF000000000000000000000000000000 8 a"

definition prohibitedUpstreamPrefixes :: "(32 word \<times> nat) list" where
  "prohibitedUpstreamPrefixes = [(0x64400000, 10), (0xC0000200, 24), (0xC6336400, 24), (0xCB007100, 24)]"

definition prohibitedUpstreamAddress :: "addr \<Rightarrow> bool" where
  "prohibitedUpstreamAddress address0 =
     (let address = addr_Unmap address0 in
      addr_IsUnspecified address \<or> addr_IsLoopback address \<or> addr_IsPrivate address \<or> addr_IsLinkLocalUnicast address \<or>
      addr_IsLinkLocalMulticast address \<or> addr_IsMulticast address \<or>
      (case address of
         V4 a \<Rightarrow> \<exists>(network, bits) \<in> set prohibitedUpstreamPrefixes. v4_prefix network bits a
       | V6 _ \<Rightarrow> False))"

section \<open>URLs\<close>

record upstream_url =
  uu_Scheme :: string
  uu_User :: bool
  uu_Hostname :: string

definition maxUpstreamRedirects :: nat where "maxUpstreamRedirects = 10"

datatype outbound_error =
    UrlRequired | UnsupportedScheme | UserInformation | HostRequired | Prohibited
  | ResolveFailed | NoAddresses | AddressInvalid | DialFailed | RedirectLimit

definition validateUpstreamURL :: "upstream_url option \<Rightarrow> outbound_error option" where
  "validateUpstreamURL u =
     (case u of
        None \<Rightarrow> Some UrlRequired
      | Some upstream \<Rightarrow>
          if uu_Scheme upstream \<noteq> ''http'' \<and> uu_Scheme upstream \<noteq> ''https'' then Some UnsupportedScheme
          else if uu_User upstream then Some UserInformation
          else if uu_Hostname upstream = [] then Some HostRequired
          else None)"

definition validateLiteralUpstreamHost ::
    "(string \<Rightarrow> addr option) \<Rightarrow> (string \<Rightarrow> string \<Rightarrow> bool) \<Rightarrow> upstream_url \<Rightarrow> bool \<Rightarrow> outbound_error option" where
  "validateLiteralUpstreamHost parse_addr equal_fold upstream allowPrivateNetworks =
     (if (case parse_addr (uu_Hostname upstream) of
            Some address \<Rightarrow> \<not> allowPrivateNetworks \<and> prohibitedUpstreamAddress address | None \<Rightarrow> False)
      then Some Prohibited
      else if equal_fold (trim_suffix (uu_Hostname upstream) ''.'') ''localhost'' \<and> \<not> allowPrivateNetworks
      then Some Prohibited
      else None)"

text \<open>The resolver answers with addresses or fails.\<close>

record outbound_policy =
  op_allowPrivateNetworks :: bool
  op_resolver :: "string \<Rightarrow> addr list option"

definition check_addresses :: "outbound_policy \<Rightarrow> string \<Rightarrow> outbound_error + addr list" where
  "check_addresses p host =
     (case op_resolver p host of
        None \<Rightarrow> Inl ResolveFailed
      | Some addresses \<Rightarrow>
          if addresses = [] then Inl NoAddresses
          else if \<exists>address \<in> set addresses. \<not> op_allowPrivateNetworks p \<and> prohibitedUpstreamAddress address
          then Inl Prohibited
          else Inr addresses)"

definition policy_validateURL ::
    "(string \<Rightarrow> string) \<Rightarrow> (string \<Rightarrow> addr option) \<Rightarrow> outbound_policy \<Rightarrow> upstream_url option \<Rightarrow> outbound_error option" where
  "policy_validateURL lower parse_addr p target =
     (case (validateUpstreamURL target, target) of
        (Some e, _) \<Rightarrow> Some e
      | (None, None) \<Rightarrow> Some UrlRequired
      | (None, Some t) \<Rightarrow>
          let host = trim_suffix (lower (uu_Hostname t)) ''.'' in
          if host = ''localhost'' \<and> \<not> op_allowPrivateNetworks p then Some Prohibited
          else case parse_addr host of
            Some address \<Rightarrow>
              if \<not> op_allowPrivateNetworks p \<and> prohibitedUpstreamAddress address then Some Prohibited else None
          | None \<Rightarrow> (case check_addresses p host of Inl e \<Rightarrow> Some e | Inr _ \<Rightarrow> None))"

definition CheckRedirect ::
    "(string \<Rightarrow> string) \<Rightarrow> (string \<Rightarrow> addr option) \<Rightarrow> outbound_policy \<Rightarrow> nat \<Rightarrow> upstream_url option \<Rightarrow> outbound_error option" where
  "CheckRedirect lower parse_addr p via target =
     (if maxUpstreamRedirects \<le> via then Some RedirectLimit else policy_validateURL lower parse_addr p target)"

section \<open>Connections\<close>

text \<open>The addresses are tried in order; the result lists those a connection was attempted to.\<close>

fun dial_addresses :: "(addr \<Rightarrow> string \<Rightarrow> 'c option) \<Rightarrow> string \<Rightarrow> addr list \<Rightarrow> addr list \<times> 'c option" where
  "dial_addresses dialer port [] = ([], None)"
| "dial_addresses dialer port (a # as) =
     (case dialer a port of
        Some c \<Rightarrow> ([a], Some c)
      | None \<Rightarrow> (case dial_addresses dialer port as of (tried, c) \<Rightarrow> (a # tried, c)))"

definition dialContext ::
    "(string \<Rightarrow> (string \<times> string) option) \<Rightarrow> outbound_policy \<Rightarrow> (addr \<Rightarrow> string \<Rightarrow> 'c option) \<Rightarrow> string \<Rightarrow>
       addr list \<times> (outbound_error + 'c)" where
  "dialContext split_host_port p dialer address =
     (case split_host_port address of
        None \<Rightarrow> ([], Inl AddressInvalid)
      | Some (host, port) \<Rightarrow>
          (case check_addresses p host of
             Inl e \<Rightarrow> ([], Inl e)
           | Inr addresses \<Rightarrow>
               (case dial_addresses dialer port addresses of
                  (tried, Some c) \<Rightarrow> (tried, Inr c)
                | (tried, None) \<Rightarrow> (tried, Inl DialFailed))))"

section \<open>Correctness\<close>

lemma v4_prefix_iff:
  "v4_prefix network bits a \<longleftrightarrow> unat a div 2 ^ (32 - bits) = unat network div 2 ^ (32 - bits)"
  unfolding v4_prefix_def by (simp only: word_unat_eq_iff unat_drop_bit_eq) (simp add: drop_bit_eq_div)

text \<open>The prohibited IPv4 addresses as ranges.\<close>

definition prohibited_v4_ranges :: "(nat \<times> nat) list" where
  "prohibited_v4_ranges =
     [(0, 0), (0x0A000000, 0x0AFFFFFF), (0x64400000, 0x647FFFFF), (0x7F000000, 0x7FFFFFFF), (0xA9FE0000, 0xA9FEFFFF),
      (0xAC100000, 0xAC1FFFFF), (0xC0000200, 0xC00002FF), (0xC0A80000, 0xC0A8FFFF), (0xC6336400, 0xC63364FF),
      (0xCB007100, 0xCB0071FF), (0xE0000000, 0xEFFFFFFF)]"

lemma div_eq_range: "0 < d \<Longrightarrow> (n div d = k) = (k * d \<le> n \<and> n \<le> k * d + (d - 1))" for n :: nat
proof
  assume d: "0 < d" and k: "n div d = k"
  have n: "n = k * d + n mod d" using div_mult_mod_eq [of n d] k by simp
  have "n mod d \<le> d - 1" using mod_less_divisor [OF d, of n] by linarith
  with n show "k * d \<le> n \<and> n \<le> k * d + (d - 1)" by linarith
next
  assume d: "0 < d" and "k * d \<le> n \<and> n \<le> k * d + (d - 1)"
  then have "d * k \<le> n" "n < d + d * k" by (simp_all add: mult.commute, linarith)
  then have "d * k \<le> n" "n < d * Suc k" by simp_all
  then show "n div d = k" by (rule div_nat_eqI)
qed

lemma v4_prefix_range:
  assumes "bits \<le> 32" "unat network = k * 2 ^ (32 - bits)"
  shows "v4_prefix network bits a \<longleftrightarrow> k * 2 ^ (32 - bits) \<le> unat a \<and> unat a \<le> k * 2 ^ (32 - bits) + (2 ^ (32 - bits) - 1)"
  unfolding v4_prefix_iff assms(2) by (simp add: div_eq_range)

lemma v4_ranges:
  "v4_prefix 0x7F000000 8 a \<longleftrightarrow> 0x7F000000 \<le> unat a \<and> unat a \<le> 0x7FFFFFFF"
  "v4_prefix 0x0A000000 8 a \<longleftrightarrow> 0x0A000000 \<le> unat a \<and> unat a \<le> 0x0AFFFFFF"
  "v4_prefix 0xAC100000 12 a \<longleftrightarrow> 0xAC100000 \<le> unat a \<and> unat a \<le> 0xAC1FFFFF"
  "v4_prefix 0xC0A80000 16 a \<longleftrightarrow> 0xC0A80000 \<le> unat a \<and> unat a \<le> 0xC0A8FFFF"
  "v4_prefix 0xA9FE0000 16 a \<longleftrightarrow> 0xA9FE0000 \<le> unat a \<and> unat a \<le> 0xA9FEFFFF"
  "v4_prefix 0xE0000000 24 a \<longleftrightarrow> 0xE0000000 \<le> unat a \<and> unat a \<le> 0xE00000FF"
  "v4_prefix 0xE0000000 4 a \<longleftrightarrow> 0xE0000000 \<le> unat a \<and> unat a \<le> 0xEFFFFFFF"
  "v4_prefix 0x64400000 10 a \<longleftrightarrow> 0x64400000 \<le> unat a \<and> unat a \<le> 0x647FFFFF"
  "v4_prefix 0xC0000200 24 a \<longleftrightarrow> 0xC0000200 \<le> unat a \<and> unat a \<le> 0xC00002FF"
  "v4_prefix 0xC6336400 24 a \<longleftrightarrow> 0xC6336400 \<le> unat a \<and> unat a \<le> 0xC63364FF"
  "v4_prefix 0xCB007100 24 a \<longleftrightarrow> 0xCB007100 \<le> unat a \<and> unat a \<le> 0xCB0071FF"
  using v4_prefix_range [of 8 "0x7F000000" "0x7F" a] v4_prefix_range [of 8 "0x0A000000" "0x0A" a]
    v4_prefix_range [of 12 "0xAC100000" "0xAC1" a] v4_prefix_range [of 16 "0xC0A80000" "0xC0A8" a]
    v4_prefix_range [of 16 "0xA9FE0000" "0xA9FE" a] v4_prefix_range [of 24 "0xE0000000" "0xE00000" a]
    v4_prefix_range [of 4 "0xE0000000" "0xE" a] v4_prefix_range [of 10 "0x64400000" "0x191" a]
    v4_prefix_range [of 24 "0xC0000200" "0xC00002" a] v4_prefix_range [of 24 "0xC6336400" "0xC63364" a]
    v4_prefix_range [of 24 "0xCB007100" "0xCB0071" a]
  by simp_all

lemma prohibited_v4:
  "prohibitedUpstreamAddress (V4 a) \<longleftrightarrow> (\<exists>(lo, hi) \<in> set prohibited_v4_ranges. lo \<le> unat a \<and> unat a \<le> hi)"
proof -
  have sub: "(0xE0000000 \<le> n \<and> n \<le> 0xE00000FF \<or> 0xE0000000 \<le> n \<and> n \<le> 0xEFFFFFFF \<or> R) =
      (0xE0000000 \<le> n \<and> n \<le> 0xEFFFFFFF \<or> R)" for n :: nat and R
    by auto
  show ?thesis
    unfolding prohibitedUpstreamAddress_def Let_def addr_Unmap_def prohibitedUpstreamPrefixes_def prohibited_v4_ranges_def
    by (simp add: v4_ranges unat_eq_0 sub) blast
qed

lemma prohibited_mapped:
  "prohibitedUpstreamAddress (V6 (0xFFFF00000000 OR ucast a)) = prohibitedUpstreamAddress (V4 a)"
proof -
  have "v6_prefix 0xFFFF00000000 96 (0xFFFF00000000 OR ucast a)" for a :: "32 word"
    unfolding v6_prefix_def by (rule bit_word_eqI) (auto simp: bit_simps dest: bit_imp_le_length)
  moreover have "ucast (0xFFFF00000000 OR ucast a :: 128 word) = a" for a :: "32 word"
  proof -
    have "\<not> bit (push_bit 32 0xFFFF :: 128 word) n" if "n < 32" for n
      using that by (simp only: bit_push_bit_iff) simp
    moreover have "(push_bit 32 0xFFFF :: 128 word) = 0xFFFF00000000" by simp
    ultimately have "\<not> bit (0xFFFF00000000 :: 128 word) n" if "n < 32" for n using that by simp
    then show ?thesis by (intro bit_word_eqI) (auto simp: bit_ucast_iff bit_or_iff)
  qed
  ultimately show ?thesis by (simp add: prohibitedUpstreamAddress_def addr_Unmap_def)
qed

lemma dial_addresses_tried: "dial_addresses dialer port as = (tried, c) \<Longrightarrow> set tried \<subseteq> set as"
  by (induction as arbitrary: tried c) (auto split: option.splits prod.splits)

text \<open>
  C36: The proxy opens no connection to a prohibited address. Unless private networks are allowed,
  every address a connection is attempted to was resolved for the host of this very connection and
  all addresses resolved with it are permitted; so no record of a name may point inside. An IPv4
  address is prohibited exactly when it lies in one of eleven ranges, and an IPv4 address in IPv6 form
  is treated as the IPv4 address.
\<close>

theorem no_prohibited_connection:
  assumes "dialContext split_host_port p dialer address = (tried, r)" "\<not> op_allowPrivateNetworks p" "x \<in> set tried"
  shows "\<exists>host port addresses. split_host_port address = Some (host, port) \<and> op_resolver p host = Some addresses \<and>
      x \<in> set addresses \<and> (\<forall>y \<in> set addresses. \<not> prohibitedUpstreamAddress y) \<and>
      (\<forall>w. V4 w \<in> set addresses \<or> V6 (0xFFFF00000000 OR ucast w) \<in> set addresses \<longrightarrow>
        \<not> (\<exists>(lo, hi) \<in> set prohibited_v4_ranges. lo \<le> unat w \<and> unat w \<le> hi))"
proof -
  obtain host port addresses where hp: "split_host_port address = Some (host, port)"
      "check_addresses p host = Inr addresses" "set tried \<subseteq> set addresses"
    using assms(1,3) by (auto simp: dialContext_def split: option.splits prod.splits sum.splits dest: dial_addresses_tried)
  then have a: "op_resolver p host = Some addresses" "\<forall>y \<in> set addresses. \<not> prohibitedUpstreamAddress y"
    using assms(2) by (auto simp: check_addresses_def split: option.splits if_splits)
  have "\<not> (\<exists>(lo, hi) \<in> set prohibited_v4_ranges. lo \<le> unat w \<and> unat w \<le> hi)"
    if "V4 w \<in> set addresses \<or> V6 (0xFFFF00000000 OR ucast w) \<in> set addresses" for w
    using that a(2) prohibited_mapped unfolding prohibited_v4 [symmetric] by blast
  with hp a assms(3) show ?thesis by blast
qed

definition example_policy :: outbound_policy where
  "example_policy = \<lparr>op_allowPrivateNetworks = False, op_resolver = (\<lambda>h. if h = ''forge'' then Some [V4 0x5DB8D822] else Some [V4 0x5DB8D822, V4 0xA9FEA9FE])\<rparr>"

theorem no_prohibited_connection_witness:
  "fst (dialContext (\<lambda>a. Some (a, ''443'')) example_policy (\<lambda>a port. Some ()) ''forge'') = [V4 0x5DB8D822] \<and>
   fst (dialContext (\<lambda>a. Some (a, ''443'')) example_policy (\<lambda>a port. Some ()) ''rebound'') = [] \<and>
   \<not> prohibitedUpstreamAddress (V4 0x5DB8D822)"
proof -
  have ok: "\<not> prohibitedUpstreamAddress (V4 0x5DB8D822)" "prohibitedUpstreamAddress (V4 0xA9FEA9FE)"
    by (simp_all add: prohibited_v4 prohibited_v4_ranges_def)
  have f: "dialContext (\<lambda>a. Some (a, ''443'')) example_policy (\<lambda>a port. Some ()) ''forge'' = ([V4 0x5DB8D822], Inr ())"
    using ok by (simp add: dialContext_def check_addresses_def example_policy_def)
  have r: "fst (dialContext (\<lambda>a. Some (a, ''443'')) example_policy (\<lambda>a port. Some ()) ''rebound'') = []"
    using ok by (simp add: dialContext_def check_addresses_def example_policy_def)
  have "\<not> op_allowPrivateNetworks example_policy" by (simp add: example_policy_def)
  from no_prohibited_connection [OF f this, of "V4 0x5DB8D822"] f r show ?thesis by auto
qed

end
