(* ===== verification/RequestBoundary.thy ===== *)
theory RequestBoundary
  imports HttpUtil Outbound
begin

text \<open>
  The boundary of the HTTP server (\<open>internal/httpapi/request_boundary.go\<close>, the client address of
  \<open>rate_limiter.go\<close>, \<open>publish_source.go\<close> and \<open>request_id.go\<close>): which forwarded headers are believed,
  which hosts are served and which address a request is counted under. \<open>net/netip\<close> and \<open>net/url\<close>
  parse the texts and are parameters; addresses and prefixes are modelled on words, an IPv6 address
  with its zone.
\<close>

section \<open>Addresses and prefixes\<close>

type_synonym zoned = "addr \<times> string"
type_synonym ip_prefix = "addr \<times> nat"

definition zoned_Unmap :: "zoned \<Rightarrow> zoned" where
  "zoned_Unmap z = (case addr_Unmap (fst z) of V4 a \<Rightarrow> (V4 a, []) | V6 _ \<Rightarrow> z)"

text \<open>\<open>Prefix.Contains\<close>: families do not mix and an address with a zone is in no prefix.\<close>

definition prefix_Contains :: "ip_prefix \<Rightarrow> zoned \<Rightarrow> bool" where
  "prefix_Contains p z =
     (snd z = [] \<and>
      (case (fst p, fst z) of
         (V4 n, V4 a) \<Rightarrow> v4_prefix n (snd p) a
       | (V6 n, V6 a) \<Rightarrow> v6_prefix n (snd p) a
       | _ \<Rightarrow> False))"

text \<open>What a parsed authority says: user information, the host with its port and without it.\<close>

record authority =
  au_User :: bool
  au_Host :: string
  au_Hostname :: string

record net_env =
  ne_ParseAddr :: "string \<Rightarrow> zoned option"
  ne_ParseAddrPort :: "string \<Rightarrow> zoned option"
  ne_String :: "zoned \<Rightarrow> string"
  ne_ParseURL :: "string \<Rightarrow> authority option"
  ne_lower :: "string \<Rightarrow> string"
  ne_equal_fold :: "string \<Rightarrow> string \<Rightarrow> bool"

record boundary =
  bd_trustForwardedHeaders :: bool
  bd_trustedProxyCIDRs :: "ip_prefix list"
  bd_publishAllowedCIDRs :: "ip_prefix list"
  bd_allowedPublicHosts :: "string list"

definition parseRequestAddress :: "net_env \<Rightarrow> string \<Rightarrow> zoned option" where
  "parseRequestAddress e raw =
     (case ne_ParseAddr e raw of
        Some a \<Rightarrow> Some (zoned_Unmap a)
      | None \<Rightarrow> map_option zoned_Unmap (ne_ParseAddrPort e raw))"

definition addressInPrefixes :: "zoned \<Rightarrow> ip_prefix list \<Rightarrow> bool" where
  "addressInPrefixes a prefixes = list_ex (\<lambda>p. prefix_Contains p a) prefixes"

section \<open>The client address\<close>

text \<open>The parts of \<open>X-Forwarded-For\<close>, \<open>None\<close> when one of them is no address.\<close>

fun parse_all :: "net_env \<Rightarrow> string list \<Rightarrow> zoned list option" where
  "parse_all e [] = Some []"
| "parse_all e (raw # rest) =
     (case parseRequestAddress e (trim_space raw) of
        None \<Rightarrow> None
      | Some a \<Rightarrow> map_option (\<lambda>as. a # as) (parse_all e rest))"

definition clientAddress :: "net_env \<Rightarrow> http_request \<Rightarrow> ip_prefix list \<Rightarrow> string" where
  "clientAddress e req trusted =
     (case parseRequestAddress e (rq_RemoteAddr req) of
        None \<Rightarrow> ''unknown''
      | Some remote \<Rightarrow>
          if \<not> addressInPrefixes remote trusted then ne_String e remote
          else
            let forwarded = split_on (CHR '','') (header_Get (rq_Header req) ''X-Forwarded-For'') in
            if length forwarded = 1 \<and> trim_space (hd forwarded) = [] then ne_String e remote
            else case parse_all e forwarded of
                   None \<Rightarrow> ne_String e remote
                 | Some as \<Rightarrow>
                     (case find (\<lambda>a. \<not> addressInPrefixes a trusted) (rev as) of
                        Some a \<Rightarrow> ne_String e a
                      | None \<Rightarrow> ne_String e (hd as)))"

text \<open>The publishing source of a request, without the audit of a refusal.\<close>

definition publish_source_allowed :: "net_env \<Rightarrow> boundary \<Rightarrow> http_request \<Rightarrow> bool" where
  "publish_source_allowed e b req =
     (bd_publishAllowedCIDRs b = [] \<or>
      (case parseRequestAddress e (clientAddress e req (bd_trustedProxyCIDRs b)) of
         None \<Rightarrow> False
       | Some a \<Rightarrow> addressInPrefixes a (bd_publishAllowedCIDRs b)))"

section \<open>Forwarded headers\<close>

definition forwardedHeaderNames :: "string list" where
  "forwardedHeaderNames =
     [''Forwarded'', ''X-Forwarded-For'', ''X-Forwarded-Host'', ''X-Forwarded-Port'', ''X-Forwarded-Prefix'',
      ''X-Forwarded-Proto'', ''X-Forwarded-Server'']"

definition forwardedHeadersTrusted :: "net_env \<Rightarrow> boundary \<Rightarrow> http_request \<Rightarrow> bool" where
  "forwardedHeadersTrusted e b req =
     (bd_trustForwardedHeaders b \<and>
      (case parseRequestAddress e (rq_RemoteAddr req) of
         None \<Rightarrow> False
       | Some remote \<Rightarrow> addressInPrefixes remote (bd_trustedProxyCIDRs b)))"

definition stripForwardedHeaders :: "http_request \<Rightarrow> http_request" where
  "stripForwardedHeaders req = req\<lparr>rq_Header := fold header_Del forwardedHeaderNames (rq_Header req)\<rparr>"

text \<open>\<open>strings.ContainsAny\<close> with the characters no authority may have.\<close>

definition validAuthority :: "net_env \<Rightarrow> string \<Rightarrow> bool" where
  "validAuthority e authority0 =
     (let authority = trim_space authority0 in
      if authority = [] \<or> list_ex (\<lambda>c. c \<in> set ('' '' @ [CHR 0x5C] @ ''/@'' @ [CHR 0x0D, CHR 0x0A, CHR 0x09])) authority
      then False
      else case ne_ParseURL e (''//'' @ authority) of
             None \<Rightarrow> False
           | Some u \<Rightarrow> \<not> au_User u \<and> au_Host u = authority \<and> au_Hostname u \<noteq> [])"

definition authorityAllowed :: "net_env \<Rightarrow> string \<Rightarrow> string list \<Rightarrow> bool" where
  "authorityAllowed e authority allowed =
     (case ne_ParseURL e (''//'' @ authority) of
        None \<Rightarrow> False
      | Some u \<Rightarrow>
          list_ex (\<lambda>candidate0.
            let candidate = trim_space candidate0 in
            ne_equal_fold e authority candidate \<or>
            (CHR '':'' \<notin> set candidate \<and> ne_equal_fold e (au_Hostname u) candidate)) allowed)"

text \<open>The parameters of the first element of \<open>Forwarded\<close>.\<close>

fun forwarded_values :: "net_env \<Rightarrow> (string, string) gomap \<Rightarrow> string list \<Rightarrow> string + (string, string) gomap" where
  "forwarded_values e values [] = Inr values"
| "forwarded_values e values (part # parts) =
     (case cut (CHR ''='') (trim_space part) of
        (name0, value0, ok) \<Rightarrow>
          let name = ne_lower e (trim_space name0); value = trim_char (CHR 0x22) (trim_space value0) in
          if \<not> ok \<or> name = [] \<or> value = [] then Inl ''invalid Forwarded header''
          else if map_of values name \<noteq> None then Inl ''duplicate Forwarded parameter''
          else forwarded_values e (map_set name value values) parts)"

definition validatedStandardForwarded :: "net_env \<Rightarrow> string \<Rightarrow> string + (string \<times> string)" where
  "validatedStandardForwarded e raw =
     (if trim_space raw = [] then Inr ([], [])
      else if FirstHeaderValue raw = [] then Inl ''invalid Forwarded header''
      else case forwarded_values e [] (split_on (CHR '';'') (FirstHeaderValue raw)) of
             Inl err \<Rightarrow> Inl err
           | Inr values \<Rightarrow>
               let value = (\<lambda>k. case map_of values k of Some v \<Rightarrow> v | None \<Rightarrow> []);
                   host = value ''host''; proto = ne_lower e (value ''proto'')
               in if host \<noteq> [] \<and> \<not> validAuthority e host then Inl ''invalid Forwarded host parameter''
                  else if proto \<noteq> [] \<and> proto \<noteq> ''http'' \<and> proto \<noteq> ''https'' then Inl ''invalid Forwarded proto parameter''
                  else Inr (host, proto))"

definition validateForwardedHeaders :: "net_env \<Rightarrow> http_request \<Rightarrow> string option" where
  "validateForwardedHeaders e req =
     (case validatedStandardForwarded e (header_Get (rq_Header req) ''Forwarded'') of
        Inl err \<Rightarrow> Some err
      | Inr (forwardedHost, forwardedProto) \<Rightarrow>
          let xHost = FirstHeaderValue (header_Get (rq_Header req) ''X-Forwarded-Host'');
              xProto = ne_lower e (FirstHeaderValue (header_Get (rq_Header req) ''X-Forwarded-Proto''));
              raw = trim_space (header_Get (rq_Header req) ''X-Forwarded-For'')
          in if xHost \<noteq> [] \<and> \<not> validAuthority e xHost then Some ''invalid X-Forwarded-Host header''
             else if xProto \<noteq> [] \<and> xProto \<noteq> ''http'' \<and> xProto \<noteq> ''https'' then Some ''invalid X-Forwarded-Proto header''
             else if xHost \<noteq> [] \<and> forwardedHost \<noteq> [] \<and> \<not> ne_equal_fold e xHost forwardedHost
             then Some ''conflicting forwarded host headers''
             else if xProto \<noteq> [] \<and> forwardedProto \<noteq> [] \<and> xProto \<noteq> forwardedProto
             then Some ''conflicting forwarded proto headers''
             else if raw \<noteq> [] \<and> parse_all e (split_on (CHR '','') raw) = None then Some ''invalid X-Forwarded-For header''
             else None)"

definition effectiveRequestHost :: "net_env \<Rightarrow> http_request \<Rightarrow> string" where
  "effectiveRequestHost e req =
     (let xHost = FirstHeaderValue (header_Get (rq_Header req) ''X-Forwarded-Host'');
          host = ForwardedParam (ne_equal_fold e) (header_Get (rq_Header req) ''Forwarded'') ''host''
      in if xHost \<noteq> [] then xHost else if host \<noteq> [] then host else rq_Host req)"

text \<open>The request handed on, or the status and message of the refusal.\<close>

definition externalRequestBoundary :: "net_env \<Rightarrow> boundary \<Rightarrow> http_request \<Rightarrow> (int \<times> string) + http_request" where
  "externalRequestBoundary e b req0 =
     (let trusted = forwardedHeadersTrusted e b req0;
          req = (if trusted then req0 else stripForwardedHeaders req0)
      in case (if trusted then validateForwardedHeaders e req else None) of
           Some err \<Rightarrow> Inl (400, err)
         | None \<Rightarrow>
             if \<not> validAuthority e (effectiveRequestHost e req) then Inl (400, ''invalid request host'')
             else if bd_allowedPublicHosts b \<noteq> [] \<and>
                     \<not> authorityAllowed e (effectiveRequestHost e req) (bd_allowedPublicHosts b)
             then Inl (421, ''request host is not allowed'')
             else Inr req)"

section \<open>Request identifiers\<close>

definition request_id_char :: "char \<Rightarrow> bool" where
  "request_id_char c =
     (is_lower c \<or> is_upper c \<or> is_digit c \<or> c = CHR ''-'' \<or> c = CHR ''_'' \<or> c = CHR ''.'')"

definition normalizeRequestID :: "string \<Rightarrow> string" where
  "normalizeRequestID raw0 =
     (let raw = trim_space raw0 in
      if length raw < 8 \<or> 64 < length raw then []
      else if list_all request_id_char raw then raw else [])"

text \<open>\<open>fresh\<close> is the identifier \<open>newRequestID\<close> draws.\<close>

definition requestID :: "net_env \<Rightarrow> boundary \<Rightarrow> string \<Rightarrow> http_request \<Rightarrow> http_request \<times> string" where
  "requestID e b fresh req =
     (let given = (if forwardedHeadersTrusted e b req
                   then normalizeRequestID (header_Get (rq_Header req) ''X-Request-ID'') else []);
          i = (if given = [] then fresh else given)
      in (req\<lparr>rq_Header := header_Set ''X-Request-ID'' i (rq_Header req)\<rparr>, i))"

section \<open>The client address cannot be chosen\<close>

lemma parse_all_append:
  "parse_all e (xs @ ys) =
     (case parse_all e xs of None \<Rightarrow> None | Some as \<Rightarrow> map_option (\<lambda>bs. as @ bs) (parse_all e ys))"
proof (induction xs)
  case Nil
  show ?case by (cases "parse_all e ys") simp_all
next
  case (Cons raw xs)
  then show ?case
    by (cases "parseRequestAddress e (trim_space raw)"; cases "parse_all e xs"; cases "parse_all e ys") simp_all
qed

lemma parse_all_members:
  "parse_all e raws = Some as \<Longrightarrow> a \<in> set as \<Longrightarrow> \<exists>raw \<in> set raws. parseRequestAddress e (trim_space raw) = Some a"
  by (induction raws arbitrary: as) (auto split: option.splits)

lemma parse_all_Some:
  "(\<And>raw. raw \<in> set raws \<Longrightarrow> parseRequestAddress e (trim_space raw) \<noteq> None) \<Longrightarrow> \<exists>as. parse_all e raws = Some as"
  by (induction raws) (auto split: option.splits)

lemma find_after: "(\<And>b. b \<in> set bs \<Longrightarrow> \<not> P b) \<Longrightarrow> find P (bs @ xs) = find P xs"
  by (induction bs) auto

lemma find_rev_last:
  "(\<And>b. b \<in> set bs \<Longrightarrow> \<not> P b) \<Longrightarrow> P a \<Longrightarrow> find P (rev (as @ a # bs)) = Some a"
  using find_after [of "rev bs" P "a # rev as"] by simp

text \<open>
  C37: A client cannot choose the address it is limited, audited and let in by, where the trusted
  proxies extend the one \<open>X-Forwarded-For\<close> line of the request, each by the address it saw. If all
  that the client wrote before parses, the address of the request is the one the first of these
  proxies saw. If some of it is no address, the request counts for the last proxy, whose connection
  it came by. A client that connects directly is known by the address of its connection, whatever the
  header says.
\<close>

theorem client_address_not_chosen:
  assumes "parseRequestAddress e (rq_RemoteAddr req) = Some remote"
    and "addressInPrefixes remote trusted \<Longrightarrow>
      header_Values (rq_Header req) ''X-Forwarded-For'' = [line] \<and>
      split_on (CHR '','') line = chosen @ seen # proxies \<and>
      trim_space seen \<noteq> [] \<and> parseRequestAddress e (trim_space seen) = Some client \<and>
      \<not> addressInPrefixes client trusted \<and>
      (\<forall>p \<in> set proxies. \<exists>a. parseRequestAddress e (trim_space p) = Some a \<and> addressInPrefixes a trusted)"
  shows "clientAddress e req trusted =
    (if addressInPrefixes remote trusted \<and> (\<forall>raw \<in> set chosen. parseRequestAddress e (trim_space raw) \<noteq> None)
     then ne_String e client else ne_String e remote)"
proof (cases "addressInPrefixes remote trusted")
  case True
  have "header_Get (rq_Header req) ''X-Forwarded-For'' = line"
    using assms(2) [OF True] by (auto simp: header_Get_def header_Values_def split: option.splits)
  with assms(2) [OF True] have h: "split_on (CHR '','') (header_Get (rq_Header req) ''X-Forwarded-For'') = chosen @ seen # proxies \<and>
      trim_space seen \<noteq> [] \<and> parseRequestAddress e (trim_space seen) = Some client \<and>
      \<not> addressInPrefixes client trusted \<and>
      (\<forall>p \<in> set proxies. \<exists>a. parseRequestAddress e (trim_space p) = Some a \<and> addressInPrefixes a trusted)"
    by blast
  from h obtain bs where bs: "parse_all e proxies = Some bs" using parse_all_Some [of proxies e] by force
  have trusted_bs: "addressInPrefixes b trusted" if "b \<in> set bs" for b
    using parse_all_members [OF bs that] h by force
  have more: "\<not> (length (chosen @ seen # proxies) = 1 \<and> trim_space (hd (chosen @ seen # proxies)) = [])"
    using h by (cases chosen) auto
  show ?thesis
  proof (cases "\<forall>raw \<in> set chosen. parseRequestAddress e (trim_space raw) \<noteq> None")
    case all: True
    then obtain as where as: "parse_all e chosen = Some as" using parse_all_Some [of chosen e] by blast
    have "parse_all e (chosen @ seen # proxies) = Some (as @ client # bs)"
      using h as bs by (simp add: parse_all_append)
    moreover have "find (\<lambda>a. \<not> addressInPrefixes a trusted) (rev (as @ client # bs)) = Some client"
      using trusted_bs h by (intro find_rev_last) auto
    ultimately show ?thesis
      using assms(1) True all h more unfolding clientAddress_def Let_def
      by (auto simp del: rev_append parse_all.simps append.simps length_append set_append)
  next
    case False
    have "parse_all e chosen = None"
    proof (rule ccontr)
      assume "parse_all e chosen \<noteq> None"
      then obtain as where "parse_all e chosen = Some as" by blast
      then have "\<forall>raw \<in> set chosen. parseRequestAddress e (trim_space raw) \<noteq> None"
        by (induction chosen arbitrary: as) (auto split: option.splits)
      with False show False by blast
    qed
    then show ?thesis
      using assms(1) True False h more unfolding clientAddress_def Let_def by (auto simp: parse_all_append)
  qed
next
  case False
  then show ?thesis using assms(1) by (simp add: clientAddress_def)
qed

text \<open>An example that reads the last byte of an address.\<close>

definition example_net :: net_env where
  "example_net =
     \<lparr>ne_ParseAddr = (\<lambda>s. if s \<noteq> [] \<and> list_all is_digit s
         then Some (V4 (0x0A000000 + word_of_nat (digits_val s)), []) else None),
      ne_ParseAddrPort = (\<lambda>_. None),
      ne_String = (\<lambda>z. case fst z of V4 a \<Rightarrow> decimal (unat (a AND 0xFF)) | V6 _ \<Rightarrow> ''v6''),
      ne_ParseURL = (\<lambda>s. Some \<lparr>au_User = False, au_Host = drop 2 s, au_Hostname = drop 2 s\<rparr>),
      ne_lower = ascii_to_lower,
      ne_equal_fold = (\<lambda>a b. ascii_to_lower a = ascii_to_lower b)\<rparr>"

definition example_boundary :: boundary where
  "example_boundary =
     \<lparr>bd_trustForwardedHeaders = True, bd_trustedProxyCIDRs = [(V4 0x0A000001, 32), (V4 0x0A000002, 32)],
      bd_publishAllowedCIDRs = [], bd_allowedPublicHosts = [''forge'']\<rparr>"

definition example_forwarded :: "string \<Rightarrow> http_request" where
  "example_forwarded value =
     \<lparr>rq_Method = ''GET'', rq_Path = ''/'', rq_RawQuery = [], rq_Host = ''inner'', rq_RemoteAddr = ''1'', rq_TLS = False,
      rq_Header = [(''X-Forwarded-For'', [value]), (''X-Forwarded-Host'', [''forge'']),
        (''X-Forwarded-Proto'', [''https''])]\<rparr>"

theorem client_address_not_chosen_witness:
  "clientAddress example_net (example_forwarded ''9, 7 ,2'') (bd_trustedProxyCIDRs example_boundary) = ''7''"
proof -
  let ?e = "example_net" and ?t = "bd_trustedProxyCIDRs example_boundary" and ?r = "example_forwarded ''9, 7 ,2''"
  have remote: "parseRequestAddress ?e (rq_RemoteAddr ?r) = Some (V4 0x0A000001, [])" by code_simp
  have seen: "header_Values (rq_Header ?r) ''X-Forwarded-For'' = [''9, 7 ,2'']" "split_on (CHR '','') ''9, 7 ,2'' = [''9''] @ '' 7 '' # [''2'']"
    "trim_space '' 7 '' \<noteq> []" "parseRequestAddress ?e (trim_space '' 7 '') = Some (V4 0x0A000007, [])"
    "\<not> addressInPrefixes (V4 0x0A000007, []) ?t"
    by code_simp+
  have proxies: "parseRequestAddress ?e (trim_space ''2'') = Some (V4 0x0A000002, [])"
    "addressInPrefixes (V4 0x0A000002, []) ?t" "parseRequestAddress ?e (trim_space ''9'') \<noteq> None"
    "addressInPrefixes (V4 0x0A000001, []) ?t" "ne_String ?e (V4 0x0A000007, []) = ''7''"
    by code_simp+
  from client_address_not_chosen [OF remote, of ?t "''9, 7 ,2''" "[''9'']" "'' 7 ''" "[''2'']" "(V4 0x0A000007, [])"] seen proxies
  show ?thesis by simp
qed

text \<open>
  A proxy that appends a line of its own instead of extending the one it got is not covered: only the
  first line is read, so the address the client wrote there is believed.
\<close>

lemma first_line_believed:
  "clientAddress example_net ((example_forwarded [])\<lparr>rq_Header := [(''X-Forwarded-For'', [''9'', ''7''])]\<rparr>)
     (bd_trustedProxyCIDRs example_boundary) = ''9''"
  by code_simp

section \<open>Served hosts\<close>

text \<open>
  The documented behaviour of \<open>strings.ToLower\<close> and \<open>strings.EqualFold\<close> the check of the scheme
  relies on: the letters of \<open>proto\<close> have no other case variants than the ASCII ones.
\<close>

definition folding_ok :: "net_env \<Rightarrow> bool" where
  "folding_ok e \<longleftrightarrow>
     (\<forall>s. ne_lower e s = [] \<longrightarrow> s = []) \<and> ne_lower e ''http'' = ''http'' \<and> ne_lower e ''https'' = ''https'' \<and>
     (\<forall>name. ne_equal_fold e name ''proto'' \<longrightarrow> ne_lower e (trim_space name) = ''proto'')"

lemma find_found: "find P xs = Some r \<Longrightarrow> r \<in> set xs \<and> P r"
  by (metis find_Some_iff nth_mem)

lemma leading_space_rune: "leading_space s \<noteq> 0 \<Longrightarrow> take (leading_space s) s \<in> set space_runes"
  by (cases "find (\<lambda>r. has_prefix s r) space_runes")
    (auto simp: leading_space_def has_prefix_def dest!: find_found)

lemma trailing_space_rune: "trailing_space s \<noteq> 0 \<Longrightarrow> drop (length s - trailing_space s) s \<in> set space_runes"
  by (cases "find (\<lambda>r. has_suffix s r) space_runes")
    (auto simp: trailing_space_def has_suffix_def dest!: find_found)

lemma trim_left_graphic: "c \<in> set s \<Longrightarrow> graphic c \<Longrightarrow> c \<in> set (trim_left s)"
proof (induction s rule: trim_left.induct)
  case (1 s)
  show ?case
  proof (cases "leading_space s = 0 \<or> s = []")
    case False
    then have "c \<notin> set (take (leading_space s) s)" using graphic_not_space [OF "1.prems"(2)] leading_space_rune by blast
    then have "c \<in> set (drop (leading_space s) s)" using "1.prems"(1) by (metis Un_iff append_take_drop_id set_append)
    with 1 False show ?thesis by (simp add: trim_left.simps [of s])
  qed (use 1 in \<open>simp add: trim_left.simps [of s]\<close>)
qed

lemma trim_right_graphic: "c \<in> set s \<Longrightarrow> graphic c \<Longrightarrow> c \<in> set (trim_right s)"
proof (induction s rule: trim_right.induct)
  case (1 s)
  show ?case
  proof (cases "trailing_space s = 0 \<or> s = []")
    case False
    then have "c \<notin> set (drop (length s - trailing_space s) s)"
      using graphic_not_space [OF "1.prems"(2)] trailing_space_rune by blast
    then have "c \<in> set (take (length s - trailing_space s) s)"
      using "1.prems"(1) by (metis Un_iff append_take_drop_id set_append)
    with 1 False show ?thesis by (simp add: trim_right.simps [of s])
  qed (use 1 in \<open>simp add: trim_right.simps [of s]\<close>)
qed

lemma trim_space_blank: "trim_space s = [] \<Longrightarrow> graphic c \<Longrightarrow> c \<notin> set s"
  using trim_right_graphic [OF trim_left_graphic] by (fastforce simp: trim_space_def)

lemma FirstHeaderValue_blank: "trim_space raw = [] \<Longrightarrow> FirstHeaderValue raw = []"
proof -
  assume r: "trim_space raw = []"
  have "CHR '','' \<notin> set raw" by (rule trim_space_blank [OF r]) (simp add: graphic_def)
  then show "FirstHeaderValue raw = []" using r by (simp add: FirstHeaderValue_def split_on_notin)
qed

lemma forwarded_values_extends:
  "forwarded_values e values parts = Inr values' \<Longrightarrow> map_of values k = Some v \<Longrightarrow> map_of values' k = Some v"
proof (induction parts arbitrary: "values")
  case (Cons part parts)
  obtain name val b where c: "cut (CHR ''='') (trim_space part) = (name, val, b)" by (metis prod.exhaust)
  let ?n = "ne_lower e (trim_space name)"
  from Cons.prems have n: "map_of values ?n = None" and rest: "forwarded_values e
      (map_set ?n (trim_char (CHR 0x22) (trim_space val)) values) parts = Inr values'"
    by (auto simp: c Let_def split: if_splits)
  show ?case using Cons.prems(2) n by (intro Cons.IH [OF rest]) auto
qed simp

text \<open>The parameter the helper finds later is one that was checked.\<close>

lemma forwarded_parts_checked:
  assumes ok: "folding_ok e"
  shows "forwarded_values e values parts = Inr values' \<Longrightarrow>
    forwarded_parts (ne_equal_fold e) ''proto'' parts = [] \<or>
    map_of values' ''proto'' = Some (forwarded_parts (ne_equal_fold e) ''proto'' parts)"
proof (induction parts arbitrary: "values")
  case (Cons part parts)
  obtain name val b where c: "cut (CHR ''='') (trim_space part) = (name, val, b)" by (metis prod.exhaust)
  let ?v = "trim_char (CHR 0x22) (trim_space val)" and ?n = "ne_lower e (trim_space name)"
  have b: "b" and rest: "forwarded_values e (map_set ?n ?v values) parts = Inr values'"
    using Cons.prems by (auto simp: c Let_def split: if_splits)
  show ?case
  proof (cases "ne_equal_fold e name ''proto''")
    case True
    then have "?n = ''proto''" using ok by (simp add: folding_ok_def)
    then have "map_of values' ''proto'' = Some ?v" using forwarded_values_extends [OF rest] by simp
    then show ?thesis using True b by (simp add: c)
  next
    case False
    then show ?thesis using Cons.IH [OF rest] by (simp add: c)
  qed
qed simp

lemma ForwardedParam_checked:
  assumes ok: "folding_ok e" and v: "validatedStandardForwarded e raw = Inr (host, proto)"
  defines "p \<equiv> ForwardedParam (ne_equal_fold e) raw ''proto''"
  shows "p = [] \<or> ne_lower e p \<in> {''http'', ''https''}"
proof (cases "trim_space raw = []")
  case True
  then show ?thesis by (simp add: p_def ForwardedParam_def FirstHeaderValue_blank)
next
  case False
  then obtain vs where vs: "forwarded_values e [] (split_on (CHR '';'') (FirstHeaderValue raw)) = Inr vs"
      and proto: "proto = ne_lower e (case map_of vs ''proto'' of Some v \<Rightarrow> v | None \<Rightarrow> [])"
      and ok2: "proto = [] \<or> proto = ''http'' \<or> proto = ''https''"
    using v by (auto simp: validatedStandardForwarded_def Let_def split: if_splits sum.splits)
  show ?thesis
  proof (cases "p = []")
    case False
    then have "map_of vs ''proto'' = Some p"
      using forwarded_parts_checked [OF ok vs] by (auto simp: p_def ForwardedParam_def)
    then have "proto = ne_lower e p" using proto by simp
    moreover have "proto \<noteq> []" using ok False calculation by (auto simp: folding_ok_def)
    ultimately show ?thesis using ok2 by auto
  qed simp
qed

lemma fold_header_Del:
  "header_Get (fold header_Del ns h) n = (if n \<in> set ns then [] else header_Get h n)"
  by (induction ns arbitrary: h) auto

lemma strip_header [simp]:
  "header_Get (rq_Header (stripForwardedHeaders req)) n =
     (if n \<in> set forwardedHeaderNames then [] else header_Get (rq_Header req) n)"
  by (simp add: stripForwardedHeaders_def fold_header_Del)

lemma ForwardedParam_Nil [simp]: "ForwardedParam equal_fold [] k = []"
  by (simp add: ForwardedParam_def FirstHeaderValue_def)

lemma FirstHeaderValue_Nil [simp]: "FirstHeaderValue [] = []"
  by (simp add: FirstHeaderValue_def)

lemma scheme_of_validated:
  assumes "folding_ok e" "validateForwardedHeaders e req = None"
  shows "ne_lower e (ForwardedScheme (ne_equal_fold e) (Some req)) \<in> {''http'', ''https''}"
proof -
  let ?x = "FirstHeaderValue (header_Get (rq_Header req) ''X-Forwarded-Proto'')"
  obtain host proto where v: "validatedStandardForwarded e (header_Get (rq_Header req) ''Forwarded'') = Inr (host, proto)"
    using assms(2) by (auto simp: validateForwardedHeaders_def split: sum.splits)
  have "ne_lower e ?x = [] \<or> ne_lower e ?x \<in> {''http'', ''https''}"
    using assms(2) v by (auto simp: validateForwardedHeaders_def Let_def split: if_splits)
  then have "?x = [] \<or> ne_lower e ?x \<in> {''http'', ''https''}" using assms(1) by (auto simp: folding_ok_def)
  with ForwardedParam_checked [OF assms(1) v] show ?thesis
    using assms(1) by (auto simp: ForwardedScheme_def Let_def folding_ok_def)
qed

text \<open>
  C38: Every URL the server writes about itself is on a host it serves. For a request the boundary
  lets through, the base of external URLs is \<open>http\<close> or \<open>https\<close> and the effective host, that host is
  well formed and, when hosts are configured, one of them. Unless the connection comes from a trusted
  proxy the request carries no forwarded header, so both are those of the connection.
\<close>

theorem served_host_allowed:
  assumes "externalRequestBoundary e b req = Inr req'" and "folding_ok e"
  defines "host \<equiv> effectiveRequestHost e req'" and "scheme \<equiv> ForwardedScheme (ne_equal_fold e) (Some req')"
  shows "validAuthority e host \<and> (bd_allowedPublicHosts b = [] \<or> authorityAllowed e host (bd_allowedPublicHosts b)) \<and>
    ExternalBaseURL (ne_equal_fold e) parse (Some req') fallback = scheme @ ''://'' @ host \<and>
    ne_lower e scheme \<in> {''http'', ''https''} \<and>
    (if forwardedHeadersTrusted e b req then req' = req
     else host = rq_Host req \<and> scheme = (if rq_TLS req then ''https'' else ''http'') \<and>
       (\<forall>name \<in> set forwardedHeaderNames. header_Get (rq_Header req') name = []))"
proof -
  have host: "validAuthority e host" "bd_allowedPublicHosts b = [] \<or> authorityAllowed e host (bd_allowedPublicHosts b)"
    using assms(1) by (auto simp: externalRequestBoundary_def Let_def host_def split: option.splits if_splits)
  have "host \<noteq> []" using host(1) by (auto simp: validAuthority_def)
  then have url: "ExternalBaseURL (ne_equal_fold e) parse (Some req') fallback = scheme @ ''://'' @ host"
    by (auto simp: ExternalBaseURL_def Let_def host_def scheme_def effectiveRequestHost_def split: if_splits)
  show ?thesis
  proof (cases "forwardedHeadersTrusted e b req")
    case True
    then have "req' = req" "validateForwardedHeaders e req = None"
      using assms(1) by (auto simp: externalRequestBoundary_def Let_def split: option.splits if_splits)
    then show ?thesis using host url scheme_of_validated [OF assms(2)] True by (simp add: scheme_def)
  next
    case False
    then have req': "req' = stripForwardedHeaders req"
      using assms(1) by (auto simp: externalRequestBoundary_def Let_def split: option.splits if_splits)
    have "host = rq_Host req" "scheme = (if rq_TLS req then ''https'' else ''http'')"
      by (simp_all add: host_def scheme_def req' effectiveRequestHost_def ForwardedScheme_def forwardedHeaderNames_def)
        (simp_all add: stripForwardedHeaders_def)
    then show ?thesis using host url False assms(2) by (auto simp: req' folding_ok_def)
  qed
qed

lemma example_folding_ok: "folding_ok example_net"
proof -
  have "ascii_to_lower name = ''proto'' \<Longrightarrow> ascii_to_lower (trim_space name) = ''proto''" for name
  proof -
    assume l: "ascii_to_lower name = ''proto''"
    have "graphic c" if "c \<in> set name" for c
    proof (rule ccontr)
      assume "\<not> graphic c"
      then have "lower_char c = c" by (auto simp: lower_char_def is_upper_def graphic_def less_eq_char_def)
      moreover have "lower_char c \<in> set ''proto''" using that l by (metis ascii_to_lower_def image_eqI list.set_map)
      ultimately show False using \<open>\<not> graphic c\<close> by (auto simp: graphic_def)
    qed
    then show ?thesis using l by (simp add: trim_space_graphic)
  qed
  then show ?thesis
    by (auto simp: folding_ok_def example_net_def) (simp_all add: ascii_to_lower_def lower_char_def is_upper_def)
qed

theorem served_host_allowed_witness:
  "\<exists>req'. externalRequestBoundary example_net example_boundary (example_forwarded ''7,2'') = Inr req' \<and>
     ExternalBaseURL (ne_equal_fold example_net) (\<lambda>_. None) (Some req') [] = ''https://forge''"
proof -
  let ?r = "example_forwarded ''7,2''"
  have t: "forwardedHeadersTrusted example_net example_boundary ?r"
    "map_sum (\<lambda>_. ()) (\<lambda>_. ()) (externalRequestBoundary example_net example_boundary ?r) = Inr ()"
    "effectiveRequestHost example_net ?r = ''forge''"
    "ForwardedScheme (ne_equal_fold example_net) (Some ?r) = ''https''"
    by code_simp+
  then obtain req' where r: "externalRequestBoundary example_net example_boundary ?r = Inr req'"
    by (cases "externalRequestBoundary example_net example_boundary ?r") auto
  have same: "req' = ?r" using served_host_allowed [OF r example_folding_ok, of "\<lambda>_. None" "[]"] t(1) by simp
  have "ExternalBaseURL (ne_equal_fold example_net) (\<lambda>_. None) (Some req') [] =
      ForwardedScheme (ne_equal_fold example_net) (Some req') @ ''://'' @ effectiveRequestHost example_net req'"
    using served_host_allowed [OF r example_folding_ok, of "\<lambda>_. None" "[]"] by blast
  then show ?thesis using r t(3,4) by (simp add: same)
qed

end
