(* ===== verification/Responses.thy ===== *)
theory Responses
  imports Reconcile RequestBoundary
begin

text \<open>
  The answers of the API (\<open>internal/httpapi/router_response.go\<close>, \<open>router_v3.go\<close> and the response
  types of \<open>router_api.go\<close>): the status and the code of an error, what its text may tell, the JSON
  documents of modules and releases, and the pagination of the Forge API. A document is the value
  that is encoded; \<open>encoding/json\<close> and \<open>net/url\<close> are outside the model.
\<close>

section \<open>Errors\<close>

datatype http_error = Plain string | Service service_error

text \<open>\<open>errors.Is\<close> on a service error: the wrappers of the upstream keep the error they wrap.\<close>

fun unwrapped :: "service_error \<Rightarrow> service_error" where
  "unwrapped (HydrationFailed e) = unwrapped e"
| "unwrapped (RestoreFailed e) = unwrapped e"
| "unwrapped e = e"

fun is_validation :: "http_error \<Rightarrow> bool" where
  "is_validation (Service e) = (case unwrapped e of Invalid _ \<Rightarrow> True | _ \<Rightarrow> False)"
| "is_validation (Plain _) = False"

fun is_missing :: "http_error \<Rightarrow> bool" where
  "is_missing (Service e) = (is_not_found e \<or> unwrapped e = ObjectNotFound)"
| "is_missing (Plain _) = False"

fun is_conflict :: "http_error \<Rightarrow> bool" where
  "is_conflict (Service e) = (unwrapped e = Conflict)"
| "is_conflict (Plain _) = False"

fun is_protected :: "http_error \<Rightarrow> bool" where
  "is_protected (Service e) = (case unwrapped e of ProtectedDelete _ \<Rightarrow> True | _ \<Rightarrow> False)"
| "is_protected (Plain _) = False"

fun is_hydration :: "http_error \<Rightarrow> bool" where
  "is_hydration (Service e) = (case e of HydrationFailed _ \<Rightarrow> True | RestoreFailed _ \<Rightarrow> True | _ \<Rightarrow> False)"
| "is_hydration (Plain _) = False"

definition serviceErrorStatus :: "http_error \<Rightarrow> int" where
  "serviceErrorStatus err =
     (if is_validation err then 400
      else if is_missing err then 404
      else if is_conflict err \<or> is_protected err then 409
      else if is_hydration err then 502
      else 500)"

definition errorCode :: "int \<Rightarrow> http_error \<Rightarrow> string" where
  "errorCode status err =
     (if is_protected err then ''protected_resource''
      else if is_conflict err then ''conflict''
      else if status = 401 then ''unauthorized''
      else if status = 403 then ''forbidden''
      else if status = 404 then ''not_found''
      else if status = 409 then ''conflict''
      else if status = 429 then ''rate_limited''
      else if status = 502 then ''upstream_unavailable''
      else if status = 503 then ''storage_unavailable''
      else if status = 500 then ''internal_error''
      else ''validation_error'')"

text \<open>The text of an error is \<open>err.Error()\<close>; of a service error it is given by the parameter \<open>text\<close>.\<close>

fun error_text :: "(service_error \<Rightarrow> string) \<Rightarrow> http_error \<Rightarrow> string" where
  "error_text text (Plain s) = s"
| "error_text text (Service e) = text e"

definition safeErrorMessage :: "(service_error \<Rightarrow> string) \<Rightarrow> int \<Rightarrow> http_error \<Rightarrow> string" where
  "safeErrorMessage text status err =
     (if status < 500 then error_text text err
      else if status = 502 then ''upstream service is unavailable''
      else if status = 503 then ''service is unavailable''
      else ''internal server error'')"

section \<open>Documents\<close>

abbreviation JInt :: "int \<Rightarrow> json" where "JInt n \<equiv> JNumber (FormatInt n)"

datatype api_answer =
    Document int json
  | Stream int header string
  | Redirect string
  | Page string
  | ArchiveFile string

definition writeError :: "(service_error \<Rightarrow> string) \<Rightarrow> string \<Rightarrow> int \<Rightarrow> http_error \<Rightarrow> api_answer" where
  "writeError text request_id status err =
     Document status (JObject
       [(''error'', JString (safeErrorMessage text status err)), (''code'', JString (errorCode status err)),
        (''request_id'', JString request_id)])"

fun answer_status :: "api_answer \<Rightarrow> int" where
  "answer_status (Document status _) = status"
| "answer_status (Stream status _ _) = status"
| "answer_status (Redirect _) = 302"
| "answer_status (Page _) = 200"
| "answer_status (ArchiveFile _) = 200"

definition releaseETag :: "release \<Rightarrow> string" where
  "releaseETag r =
     (if trim_space (r_SHA256 r) = [] then []
      else [CHR 0x22] @ trim_space (r_SHA256 r) @ [CHR 0x22])"

text \<open>\<open>escape\<close> is \<open>url.PathEscape\<close>; fields with \<open>omitempty\<close> are left out when empty.\<close>

definition optional :: "string \<Rightarrow> string \<Rightarrow> (string \<times> json) list" where
  "optional key v = (if v = [] then [] else [(key, JString v)])"

definition newReleaseAPIResponse :: "(string \<Rightarrow> string) \<Rightarrow> (time \<Rightarrow> string) \<Rightarrow> (string \<Rightarrow> json) \<Rightarrow> release \<Rightarrow> json" where
  "newReleaseAPIResponse escape format decode r =
     JObject
       ([(''id'', JString (r_ID r)), (''module_id'', JString (r_ModuleID r)), (''owner'', JString (r_Owner r)),
         (''name'', JString (r_Name r))] @ optional ''source'' (r_Source r) @
        [(''version'', JString (r_Version r))] @ optional ''description'' (r_Description r) @
        optional ''readme'' (r_Readme r) @
        [(''file_name'', JString (r_FileName r)), (''content_type'', JString (r_ContentType r)),
         (''size_bytes'', JInt (r_SizeBytes r)), (''md5'', JString (r_MD5 r)), (''sha256'', JString (r_SHA256 r)),
         (''download_url'', JString (''/api/v1/modules/'' @ escape (r_Owner r) @ ''/'' @ escape (r_Name r) @
            ''/versions/'' @ escape (r_Version r) @ ''/download''))] @
        (case decode (r_Metadata r) of JObject [] \<Rightarrow> [] | JNull \<Rightarrow> [] | m \<Rightarrow> [(''metadata'', m)]) @
        [(''created_at'', JString (format (r_CreatedAt r)))])"

section \<open>The Forge API\<close>

definition v3OwnerResponse :: "string \<Rightarrow> json" where
  "v3OwnerResponse owner =
     JObject [(''uri'', JString (''/v3/users/'' @ owner)), (''slug'', JString owner), (''username'', JString owner)]"

definition releaseV3FileName :: "release \<Rightarrow> string" where
  "releaseV3FileName r = releaseSlug (r_Owner r) (r_Name r) (r_Version r) @ ''.tar.gz''"

definition releaseV3FileURI :: "string \<Rightarrow> release \<Rightarrow> string" where
  "releaseV3FileURI base r = base @ ''/v3/files/'' @ releaseV3FileName r"

fun json_strings :: "json list \<Rightarrow> json list" where
  "json_strings [] = []"
| "json_strings (JString s # xs) = JString s # json_strings xs"
| "json_strings (_ # xs) = json_strings xs"

definition v3MetadataStrings :: "json \<Rightarrow> string \<Rightarrow> json" where
  "v3MetadataStrings metadata key =
     (case metadata of
        JObject members \<Rightarrow>
          (case map_of members key of Some (JArray vs) \<Rightarrow> JArray (json_strings vs) | _ \<Rightarrow> JArray [])
      | _ \<Rightarrow> JArray [])"

definition checksum_fields :: "release \<Rightarrow> (string \<times> json) list" where
  "checksum_fields r = optional ''file_md5'' (r_MD5 r) @ optional ''file_sha256'' (r_SHA256 r)"

definition v3ReleaseResponse :: "(string \<Rightarrow> json) \<Rightarrow> string \<Rightarrow> release \<Rightarrow> json" where
  "v3ReleaseResponse decode base r =
     (let slug = releaseSlug (r_Owner r) (r_Name r) (r_Version r); mslug = moduleSlug (r_Owner r) (r_Name r) in
      JObject
       ([(''uri'', JString (''/v3/releases/'' @ slug)), (''slug'', JString slug),
         (''module'', JObject [(''uri'', JString (''/v3/modules/'' @ mslug)), (''slug'', JString mslug),
            (''name'', JString (r_Name r)), (''owner'', v3OwnerResponse (r_Owner r))]),
         (''version'', JString (r_Version r)), (''metadata'', decode (r_Metadata r)),
         (''tags'', v3MetadataStrings (decode (r_Metadata r)) ''tags''),
         (''file_uri'', JString (releaseV3FileURI base r)), (''file_name'', JString (releaseV3FileName r)),
         (''file_size'', JInt (r_SizeBytes r))] @ checksum_fields r))"

definition release_ref :: "string \<Rightarrow> string \<Rightarrow> string \<Rightarrow> json" where
  "release_ref owner name version =
     JObject [(''slug'', JString (releaseSlug owner name version)), (''version'', JString version)]"

section \<open>Pagination\<close>

text \<open>\<open>query\<close> is \<open>req.URL.Query().Get\<close>; \<open>strconv.Atoi\<close> has 64 bits. The page or the message.\<close>

definition v3PaginationValue :: "(string \<Rightarrow> string) \<Rightarrow> string \<Rightarrow> int \<Rightarrow> int \<Rightarrow> int \<Rightarrow> string + int" where
  "v3PaginationValue query name fallback minimum maximum =
     (let raw = query name in
      if raw = [] then Inr fallback
      else case ParseInt raw of
             None \<Rightarrow> Inl (''invalid '' @ name)
           | Some v \<Rightarrow> if v < minimum \<or> maximum < v then Inl (''invalid '' @ name) else Inr v)"

definition v3Pagination :: "(string \<Rightarrow> string) \<Rightarrow> string + (int \<times> int)" where
  "v3Pagination query =
     (case v3PaginationValue query ''limit'' 20 1 MaxModulePageSize of
        Inl e \<Rightarrow> Inl e
      | Inr limit \<Rightarrow>
          (case v3PaginationValue query ''offset'' 0 0 MaxModulePageOffset of
             Inl e \<Rightarrow> Inl e
           | Inr offset \<Rightarrow> Inr (limit, offset)))"

text \<open>The offsets of the links of a page, before they are written as URLs; \<open>/\<close> of Go truncates.\<close>

record v3_page =
  vp_Limit :: int
  vp_Offset :: int
  vp_Total :: int
  vp_First :: int
  vp_Last :: int
  vp_Previous :: "int option"
  vp_Next :: "int option"

definition v3_links :: "int \<Rightarrow> int \<Rightarrow> int \<Rightarrow> v3_page" where
  "v3_links limit offset matches =
     \<lparr>vp_Limit = limit, vp_Offset = offset, vp_Total = matches, vp_First = 0,
      vp_Last = (if 0 < matches then (matches - 1) div limit * limit else 0),
      vp_Previous = (if 0 < offset then Some (max 0 (offset - limit)) else None),
      vp_Next = (if offset + limit < matches then Some (offset + limit) else None)\<rparr>"

text \<open>\<open>encode\<close> writes the query with its \<open>limit\<close> and \<open>offset\<close> set, after the base and the path.\<close>

definition v3PaginationResponse :: "(int \<Rightarrow> int \<Rightarrow> string) \<Rightarrow> string \<Rightarrow> int \<Rightarrow> int \<Rightarrow> int \<Rightarrow> json" where
  "v3PaginationResponse encode base_path limit offset matches =
     (let l = v3_links limit offset matches;
          pageURL = (\<lambda>target. JString (base_path @ ''?'' @ encode limit target));
          link = (\<lambda>t. case t of None \<Rightarrow> JNull | Some target \<Rightarrow> pageURL target)
      in JObject
        [(''limit'', JInt limit), (''offset'', JInt offset), (''total'', JInt matches),
         (''first'', pageURL (vp_First l)), (''current'', pageURL offset), (''last'', pageURL (vp_Last l)),
         (''previous'', link (vp_Previous l)), (''next'', link (vp_Next l))])"

section \<open>Sizes of uploads\<close>

text \<open>The limits on the bodies of uploads, in 64 bits: \<open>/\<close> is on numbers that are not negative.\<close>

definition encodedV3UploadLimit :: "64 word \<Rightarrow> 64 word" where
  "encodedV3UploadLimit maxBytes =
     (let jsonOverheadLimit = 2 ^ 20; maxInt = 2 ^ 63 - 1 :: 64 word in
      if (maxInt - jsonOverheadLimit) div 4 * 3 - 2 <s maxBytes then maxInt
      else (maxBytes + 2) div 3 * 4 + jsonOverheadLimit)"

definition multipart_limit :: "64 word \<Rightarrow> 64 word" where
  "multipart_limit maxBytes =
     (let multipartOverheadLimit = 2 ^ 20; maxInt = 2 ^ 63 - 1 :: 64 word in
      if maxBytes \<le>s maxInt - multipartOverheadLimit then maxBytes + multipartOverheadLimit else maxInt)"

end
