(* ===== verification/ReleaseConsumers.thy ===== *)
theory ReleaseConsumers
  imports SqliteQueries Identity
begin

text \<open>
  Which clients read which releases (the SQLite part of \<open>internal/store/release_consumers.go\<close>). A row
  of the table is a client with one version of one module; the listings show the version a client
  read last. The column \<open>c_LatestVersion\<close> of a stored row is not used, the listings fill it in from
  the module. \<open>julianday\<close> and the fixed-width layout of the instants both compare them.
\<close>

section \<open>Operations\<close>

definition consumer_key :: "release_consumer \<Rightarrow> string \<times> string \<times> string \<times> string \<times> string \<times> string" where
  "consumer_key c = (c_ConsumerTeam c, c_ConsumerName c, c_ConsumerRole c, c_Owner c, c_Name c, c_Version c)"

lemma consumer_key_update [simp]:
  "consumer_key (c\<lparr>c_FirstSeenAt := a, c_LastSeenAt := b, c_Observations := n\<rparr>) = consumer_key c"
  by (simp add: consumer_key_def)

definition RecordReleaseConsumer :: "db \<Rightarrow> consumer_observation \<Rightarrow> db" where
  "RecordReleaseConsumer s ob =
     s\<lparr>db_consumers := insert_or_update consumer_key
        (\<lambda>c. c\<lparr>c_FirstSeenAt := min (c_FirstSeenAt c) (o_ObservedAt ob),
               c_LastSeenAt := max (c_LastSeenAt c) (o_ObservedAt ob),
               c_Observations := c_Observations c + 1\<rparr>)
        \<lparr>c_ConsumerTeam = o_ConsumerTeam ob, c_ConsumerName = o_ConsumerName ob, c_ConsumerRole = o_ConsumerRole ob,
         c_Owner = o_Owner ob, c_Name = o_Name ob, c_Version = o_Version ob, c_LatestVersion = [],
         c_FirstSeenAt = o_ObservedAt ob, c_LastSeenAt = o_ObservedAt ob, c_Observations = 1\<rparr>
        (db_consumers s)\<rparr>"

definition PurgeReleaseConsumers :: "db \<Rightarrow> time \<Rightarrow> db \<times> nat" where
  "PurgeReleaseConsumers s before =
     (s\<lparr>db_consumers := delete_where (\<lambda>c. c_LastSeenAt c < before) (db_consumers s)\<rparr>,
      length (filter (\<lambda>c. c_LastSeenAt c < before) (db_consumers s)))"

text \<open>\<open>coalesce(m.latest_version, '')\<close> of the joined module.\<close>

definition consumed_latest :: "db \<Rightarrow> release_consumer \<Rightarrow> string" where
  "consumed_latest s c =
     (case module_of s (c_Owner c) (c_Name c) of
        None \<Rightarrow> []
      | Some m \<Rightarrow> (case mr_latest_version m of None \<Rightarrow> [] | Some v \<Rightarrow> v))"

definition same_client :: "release_consumer \<Rightarrow> release_consumer \<Rightarrow> bool" where
  "same_client c d =
     ((c_ConsumerTeam c, c_ConsumerName c, c_ConsumerRole c, c_Owner c, c_Name c) =
      (c_ConsumerTeam d, c_ConsumerName d, c_ConsumerRole d, c_Owner d, c_Name d))"

text \<open>The order within a partition of \<open>row_number()\<close>.\<close>

definition observed_before :: "db \<Rightarrow> release_consumer \<Rightarrow> release_consumer \<Rightarrow> bool" where
  "observed_before s c d =
     (if c_LastSeenAt c \<noteq> c_LastSeenAt d then c_LastSeenAt d < c_LastSeenAt c
      else if (c_Version c = consumed_latest s c) \<noteq> (c_Version d = consumed_latest s d)
      then c_Version c = consumed_latest s c
      else c_Version d < c_Version c)"

definition currentReleaseConsumers :: "db \<Rightarrow> release_consumer list" where
  "currentReleaseConsumers s =
     map (\<lambda>c. c\<lparr>c_LatestVersion := consumed_latest s c\<rparr>)
       (filter (\<lambda>c. \<not> list_ex (\<lambda>d. same_client c d \<and> observed_before s d c) (db_consumers s)) (db_consumers s))"

definition consumer_order :: "release_consumer \<Rightarrow> release_consumer \<Rightarrow> bool" where
  "consumer_order c d =
     (if c_LastSeenAt c \<noteq> c_LastSeenAt d then c_LastSeenAt d < c_LastSeenAt c
      else (c_ConsumerTeam c, c_ConsumerName c, c_ConsumerRole c, c_Owner c, c_Name c, c_Version c) <
           (c_ConsumerTeam d, c_ConsumerName d, c_ConsumerRole d, c_Owner d, c_Name d, c_Version d))"

text \<open>The callers pass a positive limit.\<close>

definition ListReleaseConsumers :: "db \<Rightarrow> time \<Rightarrow> nat \<Rightarrow> release_consumer list \<times> nat" where
  "ListReleaseConsumers s since limit =
     (let rows = filter (\<lambda>c. since \<le> c_LastSeenAt c) (currentReleaseConsumers s) in
      (page limit 0 (sort_stable consumer_order rows), length rows))"

text \<open>\<open>instr\<close> of SQLite; its \<open>lower\<close> folds ASCII.\<close>

definition sql_instr :: "string \<Rightarrow> string \<Rightarrow> nat" where
  "sql_instr s t =
     (case find (\<lambda>i. has_prefix (drop i s) t) [0 ..< Suc (length s)] of None \<Rightarrow> 0 | Some i \<Rightarrow> Suc i)"

definition legacy_consumer :: "string \<Rightarrow> string \<Rightarrow> release_consumer \<Rightarrow> bool" where
  "legacy_consumer team search c =
     (c_LatestVersion c \<noteq> [] \<and> c_Version c \<noteq> c_LatestVersion c \<and> (team = [] \<or> c_ConsumerTeam c = team) \<and>
      (search = [] \<or>
       0 < sql_instr (ascii_to_lower (c_ConsumerTeam c @ '' '' @ c_ConsumerName c @ '' '' @ c_ConsumerRole c @ '' '' @
          c_Owner c @ '' '' @ c_Name c @ '' '' @ c_Version c @ '' '' @ c_LatestVersion c)) (ascii_to_lower search)))"

definition ListLegacyReleaseConsumers :: "db \<Rightarrow> string \<Rightarrow> string \<Rightarrow> nat \<Rightarrow> nat \<Rightarrow> release_consumer list \<times> nat" where
  "ListLegacyReleaseConsumers s team search limit offset =
     (let rows = filter (legacy_consumer team search) (currentReleaseConsumers s) in
      (page limit offset (sort_stable consumer_order rows), length rows))"

section \<open>What a run of observations leaves\<close>

definition consumers_ok :: "db \<Rightarrow> bool" where
  "consumers_ok s \<longleftrightarrow> distinct (map consumer_key (db_consumers s))"

lemma map_key_insert:
  "(\<And>x. key (upd x) = key x) \<Longrightarrow>
    map key (insert_or_update key upd r rs) = (if key r \<in> key ` set rs then map key rs else map key rs @ [key r])"
  by (auto simp: insert_or_update_def)

lemma consumers_ok_record: "consumers_ok s \<Longrightarrow> consumers_ok (RecordReleaseConsumer s ob)"
  by (simp add: consumers_ok_def RecordReleaseConsumer_def map_key_insert consumer_key_def image_def)

definition observe :: "consumer_observation list \<Rightarrow> db" where
  "observe obs = fold (\<lambda>ob s. RecordReleaseConsumer s ob) obs empty_db"

definition observed_key :: "consumer_observation \<Rightarrow> string \<times> string \<times> string \<times> string \<times> string \<times> string" where
  "observed_key ob =
     (o_ConsumerTeam ob, o_ConsumerName ob, o_ConsumerRole ob, o_Owner ob, o_Name ob, o_Version ob)"

lemma observe_ok: "consumers_ok (observe obs)"
proof -
  have "consumers_ok s \<Longrightarrow> consumers_ok (fold (\<lambda>ob s. RecordReleaseConsumer s ob) obs s)" for s
    by (induction obs arbitrary: s) (auto simp: consumers_ok_record)
  then show ?thesis by (simp add: observe_def consumers_ok_def empty_db_def)
qed

text \<open>The rows count and date the observations of their key.\<close>

definition own_observations :: "consumer_observation list \<Rightarrow> release_consumer \<Rightarrow> consumer_observation list" where
  "own_observations obs c = filter (\<lambda>ob. observed_key ob = consumer_key c) obs"

definition row_summarizes :: "consumer_observation list \<Rightarrow> release_consumer \<Rightarrow> bool" where
  "row_summarizes obs c \<longleftrightarrow> c_Observations c = int (length (own_observations obs c)) \<and>
     c_FirstSeenAt c = Min (o_ObservedAt ` set (own_observations obs c)) \<and>
     c_LastSeenAt c = Max (o_ObservedAt ` set (own_observations obs c))"

definition summarizes :: "consumer_observation list \<Rightarrow> db \<Rightarrow> bool" where
  "summarizes obs s \<longleftrightarrow> consumer_key ` set (db_consumers s) = observed_key ` set obs \<and>
     (\<forall>c \<in> set (db_consumers s). row_summarizes obs c)"

lemma observe_summarizes: "summarizes obs (observe obs)"
proof (induction obs rule: rev_induct)
  case Nil
  show ?case by (simp add: summarizes_def observe_def empty_db_def)
next
  case (snoc ob obs)
  let ?s = "observe obs"
  have step: "observe (obs @ [ob]) = RecordReleaseConsumer ?s ob" by (simp add: observe_def)
  have d: "distinct (map consumer_key (db_consumers ?s))" using observe_ok by (simp add: consumers_ok_def)
  let ?r = "\<lparr>c_ConsumerTeam = o_ConsumerTeam ob, c_ConsumerName = o_ConsumerName ob, c_ConsumerRole = o_ConsumerRole ob,
      c_Owner = o_Owner ob, c_Name = o_Name ob, c_Version = o_Version ob, c_LatestVersion = [],
      c_FirstSeenAt = o_ObservedAt ob, c_LastSeenAt = o_ObservedAt ob, c_Observations = 1\<rparr>"
  let ?upd = "\<lambda>c. c\<lparr>c_FirstSeenAt := min (c_FirstSeenAt c) (o_ObservedAt ob),
      c_LastSeenAt := max (c_LastSeenAt c) (o_ObservedAt ob), c_Observations := c_Observations c + 1\<rparr>"
  have rk: "consumer_key ?r = observed_key ob" by (simp add: consumer_key_def observed_key_def)
  have rows: "db_consumers (observe (obs @ [ob])) = insert_or_update consumer_key ?upd ?r (db_consumers ?s)"
    unfolding step by (simp add: RecordReleaseConsumer_def)
  have keys: "consumer_key ` set (db_consumers ?s) = observed_key ` set obs"
    and row: "\<And>c. c \<in> set (db_consumers ?s) \<Longrightarrow> row_summarizes obs c"
    using snoc.IH by (auto simp: summarizes_def)
  show ?case
  proof (cases "observed_key ob \<in> observed_key ` set obs")
    case True
    then have eq: "db_consumers (observe (obs @ [ob])) =
        map (\<lambda>x. if consumer_key x = observed_key ob then ?upd x else x) (db_consumers ?s)"
      unfolding rows insert_or_update_def by (simp add: rk keys)
    have "row_summarizes (obs @ [ob]) (if consumer_key x = observed_key ob then ?upd x else x)"
      if x: "x \<in> set (db_consumers ?s)" for x
    proof -
      have ne: "o_ObservedAt ` {y \<in> set obs. observed_key y = consumer_key x} \<noteq> {}"
        using x keys by (force simp: image_iff)
      show ?thesis
        using row [OF x] Min_insert [OF _ ne, of "o_ObservedAt ob"] Max_insert [OF _ ne, of "o_ObservedAt ob"]
        by (auto simp: row_summarizes_def own_observations_def min.commute max.commute)
    qed
    then have row': "\<forall>x \<in> set (db_consumers ?s). row_summarizes (obs @ [ob])
        (if consumer_key x = observed_key ob then ?upd x else x)" by blast
    have kf: "consumer_key (if consumer_key x = observed_key ob then ?upd x else x) = consumer_key x" for x by simp
    have "consumer_key ` set (db_consumers (observe (obs @ [ob]))) = observed_key ` set obs"
      unfolding eq set_map image_image kf keys ..
    then show ?thesis
      unfolding summarizes_def using True row' by (auto simp: eq)
  next
    case False
    then have eq: "db_consumers (observe (obs @ [ob])) = db_consumers ?s @ [?r]"
      unfolding rows insert_or_update_def by (simp add: rk keys)
    have "own_observations obs ?r = []" unfolding own_observations_def rk filter_empty_conv using False by (metis imageI)
    then have new: "row_summarizes (obs @ [ob]) ?r"
      by (simp add: row_summarizes_def own_observations_def rk)
    have "row_summarizes (obs @ [ob]) x" if x: "x \<in> set (db_consumers ?s)" for x
    proof -
      have "consumer_key x \<noteq> observed_key ob" using x False keys by (metis imageI)
      then show ?thesis using row [OF x] by (simp add: row_summarizes_def own_observations_def)
    qed
    then show ?thesis unfolding summarizes_def eq using new keys by (auto simp: rk)
  qed
qed

definition client :: "release_consumer \<Rightarrow> string \<times> string \<times> string \<times> string \<times> string" where
  "client c = (c_ConsumerTeam c, c_ConsumerName c, c_ConsumerRole c, c_Owner c, c_Name c)"

definition observed_client :: "consumer_observation \<Rightarrow> string \<times> string \<times> string \<times> string \<times> string" where
  "observed_client ob = (o_ConsumerTeam ob, o_ConsumerName ob, o_ConsumerRole ob, o_Owner ob, o_Name ob)"

text \<open>The order of a partition as the order of a key.\<close>

definition observation_rank :: "db \<Rightarrow> release_consumer \<Rightarrow> time \<times> nat \<times> string" where
  "observation_rank s c = (c_LastSeenAt c, if c_Version c = consumed_latest s c then 1 else 0, c_Version c)"

lemma observed_before_rank: "observed_before s c d \<longleftrightarrow> observation_rank s d < observation_rank s c"
  by (auto simp: observed_before_def observation_rank_def)

lemma same_client_client: "same_client c d \<longleftrightarrow> client c = client d"
  by (simp add: same_client_def client_def)

lemma observation_rank_inj:
  "client c = client d \<Longrightarrow> observation_rank s c = observation_rank s d \<Longrightarrow> consumer_key c = consumer_key d"
  by (simp add: client_def observation_rank_def consumer_key_def)

lemma one_member: "set xs = {c} \<Longrightarrow> distinct xs \<Longrightarrow> xs = [c]"
  by (cases xs; cases "tl xs") auto

lemma one_current:
  assumes "consumers_ok s" "d \<in> set (db_consumers s)"
  shows "\<exists>c. c \<in> set (db_consumers s) \<and> client c = client d \<and>
    (\<forall>e \<in> set (db_consumers s). client e = client d \<longrightarrow> observation_rank s e \<le> observation_rank s c) \<and>
    filter (\<lambda>e. client e = client d \<and> \<not> list_ex (\<lambda>e'. same_client e e' \<and> observed_before s e' e) (db_consumers s))
      (db_consumers s) = [c]"
proof -
  let ?rows = "db_consumers s"
  let ?G = "{e \<in> set ?rows. client e = client d}"
  have "finite (observation_rank s ` ?G)" "observation_rank s ` ?G \<noteq> {}" using assms(2) by auto
  then have "Max (observation_rank s ` ?G) \<in> observation_rank s ` ?G" by (rule Max_in)
  then obtain c where "c \<in> ?G" and m: "Max (observation_rank s ` ?G) = observation_rank s c" by blast
  then have c: "c \<in> ?G" "\<And>e. e \<in> ?G \<Longrightarrow> observation_rank s e \<le> observation_rank s c"
    by (simp_all flip: m)
  let ?P = "\<lambda>e. client e = client d \<and> \<not> list_ex (\<lambda>e'. same_client e e' \<and> observed_before s e' e) ?rows"
  have inj: "inj_on consumer_key (set ?rows)" and dist: "distinct ?rows"
    using assms(1) by (auto simp: consumers_ok_def distinct_map)
  have only: "e = c" if e: "e \<in> set ?rows" "?P e" for e
  proof -
    have "observation_rank s e = observation_rank s c"
    proof (rule antisym)
      show "observation_rank s e \<le> observation_rank s c" using e c(2) by simp
      show "observation_rank s c \<le> observation_rank s e"
        using e c(1) by (auto simp: list_ex_iff same_client_client observed_before_rank not_less)
    qed
    then have "consumer_key e = consumer_key c" using e c(1) by (intro observation_rank_inj) auto
    with inj e c(1) show "e = c" by (auto dest: inj_onD)
  qed
  have "?P c" using c by (auto simp: list_ex_iff same_client_client observed_before_rank not_less)
  have "set (filter ?P ?rows) = {c}"
  proof (intro equalityI subsetI)
    fix e assume "e \<in> set (filter ?P ?rows)"
    then show "e \<in> {c}" using only by simp
  next
    fix e assume "e \<in> {c}"
    then show "e \<in> set (filter ?P ?rows)" using \<open>?P c\<close> c(1) by simp
  qed
  moreover have "distinct (filter ?P ?rows)" using dist by simp
  ultimately have "filter ?P ?rows = [c]"
    by (rule one_member)
  with c show ?thesis by auto
qed

text \<open>
  The listings tell which version every client uses. After any sequence of reads each client and
  module that was ever read is listed exactly once, with the version it read last, the number of its
  reads of that version and the instants of the first and the last of them.
\<close>

theorem consumers_listed_once:
  assumes "ob \<in> set obs"
  shows "\<exists>c. filter (\<lambda>c. client c = observed_client ob) (currentReleaseConsumers (observe obs)) = [c] \<and>
    row_summarizes obs c \<and>
    (\<forall>ob' \<in> set obs. observed_client ob' = observed_client ob \<longrightarrow> o_ObservedAt ob' \<le> c_LastSeenAt c)"
proof -
  let ?s = "observe obs"
  have keys: "consumer_key ` set (db_consumers ?s) = observed_key ` set obs"
    and row: "\<And>c. c \<in> set (db_consumers ?s) \<Longrightarrow> row_summarizes obs c"
    using observe_summarizes [of obs] by (auto simp: summarizes_def)
  have of_key: "\<exists>d \<in> set (db_consumers ?s). consumer_key d = observed_key ob'" if "ob' \<in> set obs" for ob'
  proof -
    have "observed_key ob' \<in> consumer_key ` set (db_consumers ?s)" using that by (simp add: keys)
    then show ?thesis by auto
  qed
  have cl: "consumer_key d = observed_key ob' \<Longrightarrow> client d = observed_client ob'" for d ob'
    by (simp add: consumer_key_def observed_key_def client_def observed_client_def)
  obtain d where d: "d \<in> set (db_consumers ?s)" "client d = observed_client ob" using of_key [OF assms] cl by blast
  obtain c where c: "c \<in> set (db_consumers ?s)" "client c = client d"
      "\<And>e. e \<in> set (db_consumers ?s) \<Longrightarrow> client e = client d \<Longrightarrow> observation_rank ?s e \<le> observation_rank ?s c"
      "filter (\<lambda>e. client e = client d \<and>
         \<not> list_ex (\<lambda>e'. same_client e e' \<and> observed_before ?s e' e) (db_consumers ?s)) (db_consumers ?s) = [c]"
    using one_current [OF observe_ok d(1)] by blast
  let ?shown = "\<lambda>c. c\<lparr>c_LatestVersion := consumed_latest ?s c\<rparr>"
  have cs: "client (?shown e) = client e" for e by (simp add: client_def)
  have "filter (\<lambda>c. client c = observed_client ob) (currentReleaseConsumers ?s) = [?shown c]"
    using c(4) by (simp add: currentReleaseConsumers_def filter_map o_def cs d(2) conj_commute)
  moreover have "row_summarizes obs (?shown c)"
    using row [OF c(1)] by (simp add: row_summarizes_def own_observations_def consumer_key_def)
  moreover have "o_ObservedAt ob' \<le> c_LastSeenAt (?shown c)"
    if ob': "ob' \<in> set obs" "observed_client ob' = observed_client ob" for ob'
  proof -
    obtain e where e: "e \<in> set (db_consumers ?s)" "consumer_key e = observed_key ob'" using of_key ob'(1) by blast
    have "c_LastSeenAt e \<le> c_LastSeenAt c"
      using c(3) [OF e(1)] cl [OF e(2)] ob'(2) d(2) by (auto simp: observation_rank_def)
    moreover have "ob' \<in> set (own_observations obs e)" using ob' e by (simp add: own_observations_def)
    then have "o_ObservedAt ob' \<le> c_LastSeenAt e" using row [OF e(1)] by (simp add: row_summarizes_def)
    ultimately show ?thesis by simp
  qed
  ultimately show ?thesis by blast
qed

definition example_observations :: "consumer_observation list" where
  "example_observations =
     map (\<lambda>(v, t). \<lparr>o_ConsumerTeam = ''ci'', o_ConsumerName = ''deploy'', o_ConsumerRole = ''read'',
         o_Owner = ''acme'', o_Name = ''web'', o_Version = v, o_ObservedAt = t\<rparr>)
       [(''1.0.0'', 5), (''2.0.0'', 7), (''1.0.0'', 9)]"

theorem consumers_listed_once_witness:
  "\<exists>c. currentReleaseConsumers (observe example_observations) = [c] \<and> c_Version c = ''1.0.0'' \<and>
     c_Observations c = 2 \<and> c_FirstSeenAt c = 5 \<and> c_LastSeenAt c = 9"
proof -
  let ?ob = "hd example_observations"
  have "?ob \<in> set example_observations" by (simp add: example_observations_def)
  from consumers_listed_once [OF this] obtain c
    where c: "filter (\<lambda>c. client c = observed_client ?ob) (currentReleaseConsumers (observe example_observations)) = [c]"
    by blast
  have "map (\<lambda>c. (client c = observed_client ?ob, c_Version c, c_Observations c, c_FirstSeenAt c, c_LastSeenAt c))
      (currentReleaseConsumers (observe example_observations)) = [(True, ''1.0.0'', 2, 5, 9)]"
    by code_simp
  with c show ?thesis by (auto split: if_splits)
qed

end
