(* ===== verification/ApiState.thy ===== *)
theory ApiState
  imports Responses Authz RateLimiter ReleaseConsumers ProxyHandler
begin

text \<open>
  The state of the HTTP API and what its handlers share: early answers, calls of the service, the
  guards of \<open>router_authz.go\<close>, \<open>rate_limiter.go\<close> and \<open>publish_source.go\<close>, the records of use and the
  audit trail of \<open>router_audit.go\<close>. A request is handled at one instant; \<open>hx_outage\<close> says that the
  calls of the access control fail, the calls of the service fail as the fault list of the world says.
\<close>

section \<open>State and requests\<close>

record api_state =
  h_authz :: authz
  h_limiter :: rate_limiter
  h_usage :: expiry_set
  h_consumers :: expiry_set
  h_principal :: "principal option"
  h_cache :: response_cache
  h_world :: world

text \<open>The session of the browser as the audit reads it: name, email and subject.\<close>

type_synonym browser = "string \<times> string \<times> string"

text \<open>
  What the multipart and the JSON reader make of a body: an error, which may be that of the size
  limit, or the form; for the Forge API the decoded file and the outcome of decoding a second object,
  \<open>None\<close> at the end of the body. The readers are given the limit on the body.
\<close>

datatype upload_error = TooLarge string | BadUpload string

record upload_form =
  uf_Fields :: "string list"
  uf_Space :: string
  uf_File :: "(string \<times> string \<times> string) option"

record api_request =
  hx_service :: service
  hx_request :: request
  hx_net :: net_env
  hx_boundary :: boundary
  hx_http :: http_request
  hx_request_id :: string
  hx_busy :: bool
  hx_outage :: bool
  hx_form :: "string \<Rightarrow> string"
  hx_query :: "string \<Rightarrow> string"
  hx_digest :: "string \<Rightarrow> string"
  hx_session :: "browser option"
  hx_audit_uuid :: string
  hx_text :: "service_error \<Rightarrow> string"
  hx_activeReleaseTTL :: time
  hx_moduleUploadMax :: "64 word"
  hx_multipart :: "64 word option \<Rightarrow> upload_error + upload_form"
  hx_v3_body :: "64 word option \<Rightarrow> upload_error + (string \<times> (upload_error + unit) option)"
  hx_escape :: "string \<Rightarrow> string"
  hx_format :: "time \<Rightarrow> string"
  hx_decode :: "string \<Rightarrow> json"
  hx_encode_query :: "int \<Rightarrow> int \<Rightarrow> string"
  hx_proxy :: "(proxy_config \<times> upstream) option"
  hx_answered :: time

type_synonym 'a handler = "api_state \<Rightarrow> api_state \<times> (api_answer + 'a)"

definition h_return :: "'a \<Rightarrow> 'a handler" where
  "h_return x h = (h, Inr x)"

definition h_answer :: "api_answer \<Rightarrow> 'a handler" where
  "h_answer a h = (h, Inl a)"

definition h_then :: "'a handler \<Rightarrow> ('a \<Rightarrow> 'b handler) \<Rightarrow> 'b handler" where
  "h_then m f h = (case m h of (h1, Inl a) \<Rightarrow> (h1, Inl a) | (h1, Inr x) \<Rightarrow> f x h1)"

text \<open>A call of the service; its error is a value.\<close>

definition h_call :: "'a svc \<Rightarrow> 'a outcome handler" where
  "h_call m h = (case m (h_world h) of (w, r) \<Rightarrow> (h\<lparr>h_world := w\<rparr>, Inr r))"

definition h_fail :: "api_request \<Rightarrow> int \<Rightarrow> http_error \<Rightarrow> 'a handler" where
  "h_fail e status err = h_answer (writeError (hx_text e) (hx_request_id e) status err)"

definition writeServiceError :: "api_request \<Rightarrow> http_error \<Rightarrow> 'a handler" where
  "writeServiceError e err = h_fail e (serviceErrorStatus err) err"

text \<open>The answer of the authorizer has only a message.\<close>

definition writeAuthError :: "nat \<times> string \<Rightarrow> 'a handler" where
  "writeAuthError r = h_answer (Document (int (fst r)) (JObject [(''error'', JString (snd r))]))"

definition hx_now :: "api_request \<Rightarrow> time" where
  "hx_now e = q_now (hx_request e)"

definition hx_header :: "api_request \<Rightarrow> string \<Rightarrow> string" where
  "hx_header e name = header_Get (rq_Header (hx_http e)) name"

section \<open>Rate limits\<close>

definition rateLimitKey :: "api_request \<Rightarrow> string \<Rightarrow> string" where
  "rateLimitKey e scope = scope @ '':'' @ clientAddress (hx_net e) (hx_http e) (bd_trustedProxyCIDRs (hx_boundary e))"

text \<open>The in-process limiter: whether the request may go on.\<close>

definition local_limit :: "api_request \<Rightarrow> string \<Rightarrow> int \<Rightarrow> time \<Rightarrow> bool handler" where
  "local_limit e scope limit window h =
     (case rl_Allow (h_limiter h) (rateLimitKey e scope) limit window (hx_now e) of
        (l, ok) \<Rightarrow> (h\<lparr>h_limiter := l\<rparr>, Inr ok))"

definition rateLimited :: "api_request \<Rightarrow> string \<Rightarrow> int \<Rightarrow> time \<Rightarrow> string \<Rightarrow> unit handler" where
  "rateLimited e scope limit window message =
     h_then (local_limit e scope limit window) (\<lambda>ok.
       if ok then h_return () else h_fail e 429 (Plain message))"

definition allowSharedRateLimit :: "api_request \<Rightarrow> string \<Rightarrow> int \<Rightarrow> time \<Rightarrow> bool outcome handler" where
  "allowSharedRateLimit e scope limit window =
     h_call (db_write (\<lambda>s. ConsumeRateLimit s (scope @ '':'' @ hx_digest e (rateLimitKey e scope)) limit window (hx_now e)))"

definition requireSharedRateLimit :: "api_request \<Rightarrow> string \<Rightarrow> int \<Rightarrow> time \<Rightarrow> string \<Rightarrow> unit handler" where
  "requireSharedRateLimit e scope limit window message =
     h_then (allowSharedRateLimit e scope limit window) (\<lambda>r. case r of
       Inl _ \<Rightarrow> h_fail e 503 (Plain ''rate limit service is unavailable'')
     | Inr allowed \<Rightarrow> if allowed then h_return () else h_fail e 429 (Plain message))"

section \<open>Access\<close>

text \<open>The steps of the access control work on the snapshot and the database.\<close>

definition h_access :: "(authz \<times> db \<Rightarrow> (authz \<times> db) \<times> 'a) \<Rightarrow> 'a handler" where
  "h_access f h =
     (case f (h_authz h, w_db (h_world h)) of
        ((r, s), x) \<Rightarrow> (h\<lparr>h_authz := r, h_world := (h_world h)\<lparr>w_db := s\<rparr>\<rparr>, Inr x))"

definition set_principal :: "principal option \<Rightarrow> unit handler" where
  "set_principal p h = (h\<lparr>h_principal := p\<rparr>, Inr ())"

text \<open>\<open>currentAuthorizer\<close> with the two answers that follow it in every handler.\<close>

definition require_authorizer :: "api_request \<Rightarrow> authorizer handler" where
  "require_authorizer e =
     h_then (h_access (\<lambda>(r, s). case currentAuthorizer (ne_lower (hx_net e)) (hx_busy e) s (hx_outage e) (hx_now e) r of
         (r1, x) \<Rightarrow> ((r1, s), x))) (\<lambda>x. case x of
       Inl err \<Rightarrow> h_fail e 503 (Plain err)
     | Inr None \<Rightarrow> h_fail e 503 (Plain ''authorizer is not configured'')
     | Inr (Some a) \<Rightarrow> h_return a)"

definition require_active :: "api_request \<Rightarrow> principal \<Rightarrow> unit handler" where
  "require_active e p =
     h_then (h_access (\<lambda>(r, s). ((r, s), requireActiveAccessToken s (hx_outage e) (hx_now e) p))) (\<lambda>x. case x of
       None \<Rightarrow> h_return ()
     | Some (status, message) \<Rightarrow> h_fail e (int status) (Plain message))"

definition record_token :: "api_request \<Rightarrow> principal \<Rightarrow> unit handler" where
  "record_token e p = h_access (\<lambda>rs. (recordAccessTokenUsed (hx_outage e) (hx_now e) p rs, ()))"

text \<open>An authenticated request carries its principal from then on.\<close>

definition authenticated :: "api_request \<Rightarrow> authorizer \<Rightarrow> guard \<Rightarrow> principal handler" where
  "authenticated e a g =
     h_then (set_principal (AuthenticateRequest (Some a) (hx_header e ''Authorization''))) (\<lambda>_.
       case g of Inl rejection \<Rightarrow> writeAuthError rejection | Inr p \<Rightarrow> h_return p)"

definition requireRead :: "api_request \<Rightarrow> unit handler" where
  "requireRead e =
     h_then (h_access (requireReadAccess (ne_lower (hx_net e)) (hx_busy e) (hx_outage e) (hx_now e)
         (hx_header e ''Authorization''))) (\<lambda>x. case x of
       Inl rejection \<Rightarrow>
         if snd rejection \<in> {''access control is not configured'', ''read access token required''}
         then writeAuthError rejection
         else h_fail e (int (fst rejection)) (Plain (snd rejection))
     | Inr p \<Rightarrow> set_principal p)"

definition requireDeleteAccess :: "api_request \<Rightarrow> string \<Rightarrow> principal handler" where
  "requireDeleteAccess e owner =
     h_then (require_authorizer e) (\<lambda>a.
     h_then (authenticated e a (RequireDelete (Some a) (hx_header e ''Authorization'') owner)) (\<lambda>p.
     h_then (require_active e p) (\<lambda>_.
     h_then (record_token e p) (\<lambda>_. h_return p))))"

section \<open>Audit\<close>

definition auditOIDCActor :: "string \<Rightarrow> string \<Rightarrow> string \<Rightarrow> string" where
  "auditOIDCActor name0 email0 subject =
     (let name = trim_space name0; email = trim_space email0 in
      if name \<noteq> [] \<and> email \<noteq> [] then name @ '' <'' @ email @ ''>''
      else if email \<noteq> [] then email
      else if name \<noteq> [] then name
      else ''subject:'' @ trim_space subject)"

text \<open>Later values of a key replace earlier ones.\<close>

definition auditAttributes :: "(string \<times> string) list \<Rightarrow> (string, string) gomap" where
  "auditAttributes attrs =
     fold (\<lambda>(k, v) m. if trim_space k = [] then m else map_set k (trim_space v) m) attrs []"

definition newAuditEvent ::
    "api_request \<Rightarrow> principal \<Rightarrow> string \<Rightarrow> string \<Rightarrow> string \<Rightarrow> (string \<times> string) list \<Rightarrow> audit_event" where
  "newAuditEvent e p action result reason attrs =
     (let (method, actor, identity) =
        (if p_TokenID p \<noteq> []
         then (''token'', ''token:'' @ (if p_TokenName p \<noteq> [] then p_TokenName p else p_TokenID p),
               [(''actor_token_id'', p_TokenID p)])
         else case hx_session e of
                Some (name, email, sub) \<Rightarrow> (''oidc'', auditOIDCActor name email sub, [(''oidc_subject'', sub)])
              | None \<Rightarrow> (''anonymous'', ''anonymous'', []));
          (method1, actor1) =
        (if actor = ''anonymous'' \<and> p_Team p \<noteq> [] then (''token'', ''team:'' @ p_Team p) else (method, actor))
      in \<lparr>a_ID = [], a_OccurredAt = hx_now e, a_RequestID = hx_request_id e, a_Actor = actor1, a_AuthMethod = method1,
          a_Action = action, a_Result = result, a_Reason = reason,
          a_SourceIP = clientAddress (hx_net e) (hx_http e) (bd_trustedProxyCIDRs (hx_boundary e)),
          a_Attributes = auditAttributes (identity @ attrs)\<rparr>)"

text \<open>The reason of a failure, from the class of its error and from its text.\<close>

definition mentions :: "string \<Rightarrow> string \<Rightarrow> bool" where
  "mentions s t = list_ex (\<lambda>i. has_prefix (drop i s) t) [0 ..< Suc (length s)]"

definition auditReason :: "api_request \<Rightarrow> http_error \<Rightarrow> string" where
  "auditReason e err =
     (let message = ne_lower (hx_net e) (error_text (hx_text e) err) in
      if mentions message ''too many'' then ''rate_limited''
      else if errorCode 500 err \<noteq> ''internal_error'' then errorCode 500 err
      else if mentions message ''required'' \<or> mentions message ''invalid'' \<or> mentions message ''parse'' then ''validation_error''
      else if mentions message ''not allowed'' \<or> mentions message ''admin access'' then ''forbidden''
      else if mentions message ''not found'' then ''not_found''
      else if mentions message ''active'' \<or> mentions message ''latest'' \<or> mentions message ''conflict''
      then ''protected_resource''
      else ''internal_error'')"

text \<open>
  A success that the mutation has written with its own transaction is not written again. An error of
  the journal is logged only.
\<close>

definition audit :: "api_request \<Rightarrow> principal \<Rightarrow> string \<Rightarrow> string \<Rightarrow> string \<Rightarrow> (string \<times> string) list \<Rightarrow> unit handler" where
  "audit e p action result reason attrs h =
     (if result = ''success'' \<and> MutationAuditRecorded (w_ctx (h_world h)) then (h, Inr ())
      else h_then (h_call (db_write (\<lambda>s.
          case recordSQLiteAuditEvent ((request_env (hx_service e) (hx_request e))\<lparr>v_audit_uuid := hx_audit_uuid e\<rparr>) s
                 (newAuditEvent e p action result reason attrs) of
            Inl err \<Rightarrow> (s, Inl err)
          | Inr s1 \<Rightarrow> (s1, Inr ())))) (\<lambda>_. h_return ()) h)"

definition prepareMutationAudit :: "api_request \<Rightarrow> principal \<Rightarrow> string \<Rightarrow> (string \<times> string) list \<Rightarrow> unit handler" where
  "prepareMutationAudit e p action attrs h =
     (h\<lparr>h_world := (h_world h)\<lparr>w_ctx := ContextWithMutationAudit (request_env (hx_service e) (hx_request e))
          (newAuditEvent e p action ''success'' ''none'' attrs)\<rparr>\<rparr>, Inr ())"

definition delete_action :: "string \<Rightarrow> bool \<Rightarrow> string" where
  "delete_action version force =
     (if force then ''force_'' else []) @ (if version = [] then ''delete_module'' else ''delete_release'')"

definition prepareDeleteMutationAudit ::
    "api_request \<Rightarrow> principal \<Rightarrow> string \<Rightarrow> string \<Rightarrow> string \<Rightarrow> string \<Rightarrow> bool \<Rightarrow> string handler" where
  "prepareDeleteMutationAudit e p owner name version justification force =
     h_then (prepareMutationAudit e p (delete_action version force)
         ([(''space'', owner), (''module'', owner @ ''/'' @ name), (''justification'', justification)] @
          (if version = [] then [] else [(''release'', version)])))
       (\<lambda>_. h_return (delete_action version force))"

text \<open>\<open>requirePublishSource\<close>.\<close>

definition requirePublishSource :: "api_request \<Rightarrow> principal \<Rightarrow> unit handler" where
  "requirePublishSource e p =
     (if publish_source_allowed (hx_net e) (hx_boundary e) (hx_http e) then h_return ()
      else h_then (audit e p ''publish_module'' ''failure'' ''publish_source_forbidden'' []) (\<lambda>_.
        h_fail e 403 (Plain ''client IP is not allowed to publish'')))"

section \<open>Records of use\<close>

definition nul :: char where "nul = CHR 0x00"

text \<open>A throttled write: recorded in the set first and forgotten when it fails.\<close>

definition markReleaseUsed :: "api_request \<Rightarrow> string \<Rightarrow> string \<Rightarrow> string \<Rightarrow> unit handler" where
  "markReleaseUsed e owner name version h =
     (let key = owner @ nul # name @ nul # version in
      case es_Record (h_usage h) key (hx_now e) of
        (u, recorded) \<Rightarrow>
          if \<not> recorded then (h\<lparr>h_usage := u\<rparr>, Inr ())
          else h_then (h_call (db_write (\<lambda>s. (MarkReleaseUsed (request_env (hx_service e) (hx_request e)) s owner name version,
                 Inr ())))) (\<lambda>r h1. (case r of Inl _ \<Rightarrow> h1\<lparr>h_usage := es_Forget (h_usage h1) key\<rparr> | Inr _ \<Rightarrow> h1, Inr ()))
               (h\<lparr>h_usage := u\<rparr>))"

definition markReleaseConsumerUsed :: "api_request \<Rightarrow> string \<Rightarrow> string \<Rightarrow> string \<Rightarrow> unit handler" where
  "markReleaseConsumerUsed e owner name version h =
     (case h_principal h of
        None \<Rightarrow> (h, Inr ())
      | Some p \<Rightarrow>
          let team = trim_space (p_Team p); token = trim_space (p_TokenName p); role = trim_space (p_TokenRole p);
              key = team @ nul # token @ nul # role @ nul # owner @ nul # name @ nul # version
          in if p_TokenID p = [] \<or> team = [] \<or> token = [] \<or> (role \<noteq> ''read'' \<and> role \<noteq> ''publish'') then (h, Inr ())
             else case es_Record (h_consumers h) key (hx_now e) of
               (u, recorded) \<Rightarrow>
                 if \<not> recorded then (h\<lparr>h_consumers := u\<rparr>, Inr ())
                 else h_then (h_call (db_write (\<lambda>s. (RecordReleaseConsumer s
                        \<lparr>o_ConsumerTeam = team, o_ConsumerName = token, o_ConsumerRole = role, o_Owner = owner,
                         o_Name = name, o_Version = version, o_ObservedAt = hx_now e\<rparr>, Inr ()))))
                      (\<lambda>r h1. (case r of Inl _ \<Rightarrow> h1\<lparr>h_consumers := es_Forget (h_consumers h1) key\<rparr> | Inr _ \<Rightarrow> h1, Inr ()))
                      (h\<lparr>h_consumers := u\<rparr>))"

end
