(* ===== verification/ApiHandlers.thy ===== *)
theory ApiHandlers
  imports ApiState
begin

text \<open>
  The handlers of the API (\<open>internal/httpapi/router_api.go\<close>) and of the local part of the Forge API
  (\<open>router_v3.go\<close>), with the archive answer of \<open>router_response.go\<close>. Each is the sequence of guards,
  calls and early answers of the source; timeouts of single calls and metrics are left out. Headers
  of error answers are not kept.
\<close>

section \<open>Answering\<close>

definition respond :: "api_answer handler \<Rightarrow> api_state \<Rightarrow> api_state \<times> api_answer" where
  "respond m h = (case m h of (h1, Inl a) \<Rightarrow> (h1, a) | (h1, Inr a) \<Rightarrow> (h1, a))"

definition h_document :: "int \<Rightarrow> json \<Rightarrow> api_answer handler" where
  "h_document status payload = h_return (Document status payload)"

text \<open>\<open>if err != nil { fail; return }\<close> after a call of the service.\<close>

definition h_try :: "'a svc \<Rightarrow> (service_error \<Rightarrow> 'b handler) \<Rightarrow> ('a \<Rightarrow> 'b handler) \<Rightarrow> 'b handler" where
  "h_try m failed f = h_then (h_call m) (\<lambda>r. case r of Inl err \<Rightarrow> failed err | Inr x \<Rightarrow> f x)"

definition not_found_or_internal :: "api_request \<Rightarrow> service_error \<Rightarrow> 'a handler" where
  "not_found_or_internal e err = h_fail e (if is_not_found err then 404 else 500) (Service err)"

definition internal_error :: "api_request \<Rightarrow> service_error \<Rightarrow> 'a handler" where
  "internal_error e err = h_fail e 500 (Service err)"

definition module_json :: "api_request \<Rightarrow> domain_module \<Rightarrow> json" where
  "module_json e m =
     JObject ([(''id'', JString (m_ID m)), (''owner'', JString (m_Owner m)), (''name'', JString (m_Name m))] @
       optional ''latest_version'' (m_LatestVersion m) @
       [(''created_at'', JString (hx_format e (m_CreatedAt m))), (''updated_at'', JString (hx_format e (m_UpdatedAt m)))])"

definition release_json :: "api_request \<Rightarrow> release \<Rightarrow> json" where
  "release_json e r = newReleaseAPIResponse (hx_escape e) (hx_format e) (hx_decode e) r"

section \<open>Archives\<close>

definition StatReleaseArchive :: "service \<Rightarrow> release \<Rightarrow> (int \<times> string) svc" where
  "StatReleaseArchive g r =
     (let archivePath = releaseArchivePath r in
      if archivePath = [] then svc_error NotFound
      else svc_then (bucket_read (OpenObject (g_backend g) archivePath)) (\<lambda>found.
        case found of
          None \<Rightarrow> svc_error NotFound
        | Some ob \<Rightarrow> svc_return (int (length (ob_Body ob)), ob_ContentType ob)))"

definition archive_content :: "service \<Rightarrow> request \<Rightarrow> release \<Rightarrow> byte_range_response \<Rightarrow> string svc" where
  "archive_content g q release response =
     (if bp_Partial response
      then OpenReleaseArchiveRange g release (br_Start (bp_Range response)) (br_Length (bp_Range response))
      else svc_then (OpenReleaseArchive g q (r_Owner release) (r_Name release) (r_Version release))
             (\<lambda>ob. svc_return (ob_Body ob)))"

definition writeReleaseArchive :: "api_request \<Rightarrow> release \<Rightarrow> api_answer handler" where
  "writeReleaseArchive e release0 =
     (let g = hx_service e; q = hx_request e; failed = (\<lambda>err. writeServiceError e (Service err)) in
      h_try (EnsureReleaseChecksums g q release0) failed (\<lambda>release.
      h_try (StatReleaseArchive g release) failed (\<lambda>(size, contentType).
        case PrepareByteRangeResponse [] (rq_Header (hx_http e)) size (releaseETag release) contentType of
          (header, Inl message) \<Rightarrow> h_fail e 416 (Plain message)
        | (header, Inr response) \<Rightarrow>
            if bp_NotModified response \<or> rq_Method (hx_http e) = ''HEAD''
            then h_return (Stream (bp_Status response) header [])
            else
              h_try (archive_content g q release response) failed (\<lambda>body.
              h_return (Stream (bp_Status response) header (copied q body))))))"

section \<open>Reading\<close>

definition listModules :: "api_request \<Rightarrow> api_answer handler" where
  "listModules e =
     h_then (requireRead e) (\<lambda>_.
       case v3Pagination (hx_query e) of
         Inl message \<Rightarrow> h_fail e 400 (Plain message)
       | Inr (limit, offset) \<Rightarrow>
           h_try (db_read (\<lambda>s. ListModulesPage (g_lower (hx_service e)) s limit offset)) (internal_error e) (\<lambda>(mods, n).
             h_document 200 (JObject [(''items'', JArray (map (module_json e) mods)), (''limit'', JInt limit),
               (''offset'', JInt offset), (''total'', JInt (int n))])))"

definition writeStoreResponse :: "api_request \<Rightarrow> ('a \<Rightarrow> json) \<Rightarrow> 'a svc \<Rightarrow> api_answer handler" where
  "writeStoreResponse e encode m = h_try m (not_found_or_internal e) (\<lambda>x. h_document 200 (encode x))"

definition getModule :: "api_request \<Rightarrow> string \<Rightarrow> string \<Rightarrow> api_answer handler" where
  "getModule e owner name =
     h_then (requireRead e) (\<lambda>_. writeStoreResponse e (module_json e) (db_read (\<lambda>s. GetModule s owner name)))"

definition getRelease :: "api_request \<Rightarrow> string \<Rightarrow> string \<Rightarrow> string \<Rightarrow> api_answer handler" where
  "getRelease e owner name version =
     h_then (requireRead e) (\<lambda>_.
       h_try (svc_GetRelease (hx_service e) (hx_request e) owner name version) (not_found_or_internal e) (\<lambda>r.
         h_document 200 (release_json e r)))"

definition serveDownload :: "api_request \<Rightarrow> string \<Rightarrow> string \<Rightarrow> string \<Rightarrow> api_answer handler" where
  "serveDownload e owner name version =
     h_then (requireRead e) (\<lambda>_.
       h_try (svc_GetRelease (hx_service e) (hx_request e) owner name version) (not_found_or_internal e) (\<lambda>r.
       h_then (markReleaseUsed e owner name version) (\<lambda>_.
         if r_Source r = ''upstream'' then h_return (Redirect (''/v3/files/'' @ releaseV3FileName r))
         else
           h_then (if rq_Method (hx_http e) = ''GET'' then markReleaseConsumerUsed e owner name version else h_return ())
             (\<lambda>_. writeReleaseArchive e r))))"

definition validModuleFilePath :: "string \<Rightarrow> bool" where
  "validModuleFilePath filePath =
     (let trimmed = trim_prefix filePath ''/''; cleanPath = path_Clean trimmed in
      trimmed \<noteq> [] \<and> nul \<notin> set trimmed \<and> \<not> mentions trimmed ''//'' \<and>
      cleanPath \<noteq> ''.'' \<and> cleanPath \<noteq> ''..'' \<and> \<not> has_prefix cleanPath ''../'' \<and> cleanPath = trimmed)"

definition serveModuleFile :: "api_request \<Rightarrow> string \<Rightarrow> string \<Rightarrow> string \<Rightarrow> string \<Rightarrow> api_answer handler" where
  "serveModuleFile e owner name version filePath =
     h_try (ReadReleaseFile (hx_service e) (hx_request e) owner name version filePath)
       (\<lambda>err. if is_not_found err then h_fail e 404 (Service err) else writeServiceError e (Service err))
       (\<lambda>body. h_return (ArchiveFile body))"

section \<open>Deleting\<close>

text \<open>\<open>unicode.IsControl\<close> on the bytes of a text: the ASCII controls and the two bytes of U+0080 to U+009F.\<close>

fun has_control :: "string \<Rightarrow> bool" where
  "has_control [] = False"
| "has_control (c # s) =
     (c < CHR 0x20 \<or> c = CHR 0x7F \<or>
      (c = CHR 0xC2 \<and> (case s of [] \<Rightarrow> False | d # _ \<Rightarrow> CHR 0x80 \<le> d \<and> d \<le> CHR 0x9F)) \<or> has_control s)"

definition forceDeleteParameters :: "api_request \<Rightarrow> string \<Rightarrow> bool \<times> string \<times> string option" where
  "forceDeleteParameters e expectedConfirmation =
     (let given = (\<lambda>field header. let v = trim_space (hx_form e field) in
            if v = [] then trim_space (hx_header e header) else v);
          is_true = (\<lambda>v. ne_equal_fold (hx_net e) (trim_space v) ''true'');
          force = (is_true (hx_form e ''force'') \<or> is_true (hx_header e ''X-Puppet-Forge-Force-Delete''));
          justification = given ''reason'' ''X-Puppet-Forge-Delete-Reason''
      in if \<not> force then (False, [], None)
         else if justification = [] then (True, [], Some ''force delete reason is required'')
         else if 500 < length justification then (True, [], Some ''force delete reason must not exceed 500 characters'')
         else if has_control justification then (True, [], Some ''force delete reason contains invalid control characters'')
         else if given ''confirmation'' ''X-Puppet-Forge-Delete-Confirmation'' \<noteq> expectedConfirmation
         then (True, [], Some ''invalid force delete confirmation'')
         else (True, justification, None))"

definition writeDeleteErrorResponse :: "api_request \<Rightarrow> service_error \<Rightarrow> 'a handler" where
  "writeDeleteErrorResponse e err =
     h_fail e (if is_not_found err then 404 else if is_protected (Service err) then 409 else 500) (Service err)"

text \<open>What follows the checks: the mutation under its audit event.\<close>

definition delete_audited ::
    "api_request \<Rightarrow> principal \<Rightarrow> string \<Rightarrow> string \<Rightarrow> string \<Rightarrow> bool \<Rightarrow> string \<Rightarrow> unit svc \<Rightarrow> api_answer handler" where
  "delete_audited e p owner name version force justification m =
     (let attrs = [(''space'', owner), (''module'', owner @ ''/'' @ name)] @
            (if version = [] then [] else [(''release'', version)]) @ [(''justification'', justification)]
      in h_then (prepareDeleteMutationAudit e p owner name version justification force) (\<lambda>action.
         h_try m
           (\<lambda>err. h_then (audit e p action ''failure'' (auditReason e (Service err)) attrs)
             (\<lambda>_. writeDeleteErrorResponse e err))
           (\<lambda>_. h_then (audit e p action ''success'' ''none'' attrs) (\<lambda>_.
              h_document 200 (JObject ([(''status'', JString ''deleted''), (''owner'', JString owner), (''name'', JString name)] @
                (if version = [] then [] else [(''version'', JString version)])))))))"

definition deleteModule :: "api_request \<Rightarrow> string \<Rightarrow> string \<Rightarrow> api_answer handler" where
  "deleteModule e owner name =
     h_then (requireDeleteAccess e owner) (\<lambda>p.
       let attrs = [(''space'', owner), (''module'', owner @ ''/'' @ name)]; g = hx_service e; q = hx_request e in
       case forceDeleteParameters e (owner @ ''/'' @ name) of
         (force, justification, Some message) \<Rightarrow>
           h_then (audit e p ''force_delete_module'' ''failure'' (auditReason e (Plain message)) attrs) (\<lambda>_.
             h_fail e 400 (Plain message))
       | (force, justification, None) \<Rightarrow>
           if force \<and> \<not> p_CanAdmin p
           then h_then (audit e p ''force_delete_module'' ''failure'' ''forbidden'' attrs) (\<lambda>_.
             h_fail e 403 (Plain ''global admin access required for force delete''))
           else delete_audited e p owner name [] force justification
             (if force then svc_DeleteModule g q owner name
              else DeleteModuleIfAllowed g q owner name (hx_now e - hx_activeReleaseTTL e)))"

definition deleteRelease :: "api_request \<Rightarrow> string \<Rightarrow> string \<Rightarrow> string \<Rightarrow> api_answer handler" where
  "deleteRelease e owner name version =
     h_then (requireDeleteAccess e owner) (\<lambda>p.
       let attrs = [(''space'', owner), (''module'', owner @ ''/'' @ name), (''release'', version)];
           g = hx_service e; q = hx_request e in
       case forceDeleteParameters e (owner @ ''/'' @ name @ ''@'' @ version) of
         (force, justification, Some message) \<Rightarrow>
           h_then (audit e p ''force_delete_release'' ''failure'' (auditReason e (Plain message)) attrs) (\<lambda>_.
             h_fail e 400 (Plain message))
       | (force, justification, None) \<Rightarrow>
           delete_audited e p owner name version force justification
             (if force then svc_DeleteRelease g q owner name version
              else DeleteReleaseIfAllowed g q owner name version (hx_now e - hx_activeReleaseTTL e)))"

section \<open>Publishing\<close>

definition upload_limit :: "(64 word \<Rightarrow> 64 word) \<Rightarrow> api_request \<Rightarrow> 64 word option" where
  "upload_limit f e = (if 0 <s hx_moduleUploadMax e then Some (f (hx_moduleUploadMax e)) else None)"

definition over_limit :: "api_request \<Rightarrow> string \<Rightarrow> bool" where
  "over_limit e file = (0 <s hx_moduleUploadMax e \<and> sint (hx_moduleUploadMax e) < int (length file))"

definition upload_too_large :: "api_request \<Rightarrow> upload_error" where
  "upload_too_large e =
     TooLarge (''uploaded module exceeds maximum size of '' @ FormatInt (sint (hx_moduleUploadMax e)) @ '' bytes'')"

definition no_input :: publish_input where
  "no_input =
     \<lparr>pi_Owner = [], pi_Name = [], pi_Version = [], pi_Replace = False, pi_Description = [], pi_Readme = [],
      pi_FileName = [], pi_ContentType = [], pi_FileBytes = [], pi_File = None, pi_SizeBytes = 0, pi_Metadata = []\<rparr>"

definition readPublishInput :: "api_request \<Rightarrow> upload_error + publish_input" where
  "readPublishInput e =
     (case hx_multipart e (upload_limit multipart_limit e) of
        Inl err \<Rightarrow> Inl err
      | Inr form \<Rightarrow>
          (case find (\<lambda>f. f \<in> set (uf_Fields form))
                  [''owner'', ''name'', ''version'', ''summary'', ''description'', ''metadata''] of
             Some field \<Rightarrow> Inl (BadUpload (''manual field '' @ [CHR 0x22] @ field @ [CHR 0x22] @ '' is not allowed; use space and file only''))
           | None \<Rightarrow>
               (case uf_File form of
                  None \<Rightarrow> Inl (BadUpload ''artifact file is required'')
                | Some (fileName, contentType, file) \<Rightarrow>
                    if over_limit e file then Inl (upload_too_large e)
                    else Inr (no_input\<lparr>pi_Owner := trim_space (uf_Space form), pi_FileName := fileName,
                      pi_ContentType := (if contentType = [] then ''application/gzip'' else contentType),
                      pi_File := Some file, pi_SizeBytes := int (length file)\<rparr>))))"

definition readV3PublishInput :: "api_request \<Rightarrow> upload_error + publish_input" where
  "readV3PublishInput e =
     (case hx_v3_body e (upload_limit encodedV3UploadLimit e) of
        Inl err \<Rightarrow> Inl err
      | Inr (file, Some (Inl err)) \<Rightarrow> Inl err
      | Inr (file, Some (Inr _)) \<Rightarrow> Inl (BadUpload ''forge release payload must contain one JSON object'')
      | Inr (file, None) \<Rightarrow>
          if file = [] then Inl (BadUpload ''artifact file is required'')
          else if over_limit e file then Inl (upload_too_large e)
          else Inr (no_input\<lparr>pi_FileName := ''module.tar.gz'', pi_ContentType := ''application/gzip'',
            pi_File := Some file, pi_SizeBytes := int (length file)\<rparr>))"

definition publish_forbidden :: service_error where
  "publish_forbidden = Failed ''token is not allowed to publish to this space''"

definition authorize_space :: "authorizer \<Rightarrow> principal \<Rightarrow> string \<Rightarrow> service_error option" where
  "authorize_space a p space = (if Enabled (Some a) \<and> \<not> CanPublishOwner p space then Some publish_forbidden else None)"

text \<open>
  The space the audit of a failure names: the one the authorization was asked for, which is the owner
  of the normalized input, and the requested one when it was never asked.
\<close>

definition requested_space :: "service \<Rightarrow> publish_input \<Rightarrow> world \<Rightarrow> string" where
  "requested_space g input w =
     (case snd (normalizePublishInput g input w) of
        Inl _ \<Rightarrow> pi_Owner input
      | Inr i \<Rightarrow>
          if ValidModuleOwner (pi_Owner i) \<and> ValidModuleName (pi_Name i) \<and> pi_Version i \<noteq> [] \<and>
             pi_File i \<noteq> None \<and> pi_FileName i \<noteq> []
          then pi_Owner i else pi_Owner input)"

definition publish_input_of ::
    "api_request \<Rightarrow> authorizer \<Rightarrow> principal \<Rightarrow> publish_input \<Rightarrow> api_answer handler" where
  "publish_input_of e a p input =
     (let g = hx_service e; q = hx_request e in
      h_then (prepareMutationAudit e p ''publish_module'' []) (\<lambda>_ h.
        let space = requested_space g input (h_world h) in
        h_try (PublishAuthorized g q input (authorize_space a p))
          (\<lambda>err.
            if err = publish_forbidden
            then h_then (audit e p ''publish_module'' ''failure'' ''forbidden'' [(''space'', space)]) (\<lambda>_.
              h_fail e 403 (Service err))
            else h_then (audit e p ''publish_module'' ''failure'' (auditReason e (Service err)) [(''space'', space)]) (\<lambda>_.
              writeServiceError e (Service err)))
          (\<lambda>r. h_then (audit e p ''publish_module'' ''success'' ''none''
              [(''space'', r_Owner r), (''module'', r_Owner r @ ''/'' @ r_Name r), (''release'', r_Version r),
               (''sha256'', r_SHA256 r)]) (\<lambda>_.
              h_document 201 (release_json e r))) h))"

text \<open>A refusal of the guards is audited without a principal, after it has been answered.\<close>

definition or_audit :: "api_request \<Rightarrow> 'a handler \<Rightarrow> 'a handler" where
  "or_audit e m h =
     (case m h of
        (h1, Inl a) \<Rightarrow> (fst (audit e no_principal ''publish_module'' ''failure'' ''unauthorized'' [] h1), Inl a)
      | (h1, Inr x) \<Rightarrow> (h1, Inr x))"

text \<open>The guards and the body of a publication that the rate limit has let through.\<close>

definition publish_body ::
    "(api_request \<Rightarrow> upload_error + publish_input) \<Rightarrow> api_request \<Rightarrow> authorizer \<Rightarrow> principal \<Rightarrow> api_answer handler" where
  "publish_body readInput e a p =
     (case readInput e of
        Inl err \<Rightarrow>
          let message = Plain (case err of TooLarge s \<Rightarrow> s | BadUpload s \<Rightarrow> s) in
          h_then (audit e p ''publish_module'' ''failure'' (auditReason e message) []) (\<lambda>_.
            h_fail e (case err of TooLarge _ \<Rightarrow> 413 | BadUpload _ \<Rightarrow> 400) message)
      | Inr input \<Rightarrow> publish_input_of e a p input)"

definition publish_access :: "api_request \<Rightarrow> authorizer \<Rightarrow> principal handler" where
  "publish_access e a =
     or_audit e (h_then (authenticated e a (RequirePublishAny (Some a) (hx_header e ''Authorization''))) (\<lambda>p.
       h_then (require_active e p) (\<lambda>_. h_return p)))"

definition publish_guarded :: "(api_request \<Rightarrow> upload_error + publish_input) \<Rightarrow> api_request \<Rightarrow> api_answer handler" where
  "publish_guarded readInput e =
     h_then (require_authorizer e) (\<lambda>a.
     h_then (publish_access e a) (\<lambda>p.
     h_then (record_token e p) (\<lambda>_.
     h_then (requirePublishSource e p) (\<lambda>_. publish_body readInput e a p))))"

definition publishModuleWithReader :: "(api_request \<Rightarrow> upload_error + publish_input) \<Rightarrow> api_request \<Rightarrow> api_answer handler" where
  "publishModuleWithReader readInput e =
     h_then (allowSharedRateLimit e ''publish'' 60 minute) (\<lambda>allowed.
       case allowed of
         Inl _ \<Rightarrow> h_then (audit e no_principal ''publish_module'' ''failure'' ''rate_limit_unavailable'' []) (\<lambda>_.
           h_fail e 503 (Plain ''publish rate limit service is unavailable''))
       | Inr False \<Rightarrow> h_then (audit e no_principal ''publish_module'' ''failure'' ''rate_limited'' []) (\<lambda>_.
           h_fail e 429 (Plain ''too many publish attempts''))
       | Inr True \<Rightarrow> publish_guarded readInput e)"

definition publishModule :: "api_request \<Rightarrow> api_answer handler" where
  "publishModule = publishModuleWithReader readPublishInput"

definition publishV3Release :: "api_request \<Rightarrow> api_answer handler" where
  "publishV3Release = publishModuleWithReader readV3PublishInput"

definition publishSpaces :: "api_request \<Rightarrow> api_answer handler" where
  "publishSpaces e =
     (if rq_Method (hx_http e) \<noteq> ''GET'' then h_fail e 405 (Plain ''method not allowed'')
      else
        h_then (require_authorizer e) (\<lambda>a.
        h_then (authenticated e a (RequirePublishAny (Some a) (hx_header e ''Authorization''))) (\<lambda>p.
        h_then (require_active e p) (\<lambda>_.
        h_then (record_token e p) (\<lambda>_.
          h_document 200 (JObject [(''spaces'', JArray (map JString (sorted_list_of_set (p_PublishOwners p))))]))))))"

section \<open>Routes\<close>

definition modulesCollection :: "api_request \<Rightarrow> api_answer handler" where
  "modulesCollection e =
     (if rq_Method (hx_http e) = ''GET'' then
        h_then (rateLimited e ''module-search'' 600 minute ''too many module search requests'') (\<lambda>_. listModules e)
      else if rq_Method (hx_http e) = ''POST'' then publishModule e
      else h_fail e 405 (Plain ''method not allowed''))"

definition api_parts :: "string \<Rightarrow> string \<Rightarrow> string list" where
  "api_parts prefix p = split_on (CHR ''/'') (trim_char (CHR ''/'') (trim_prefix p prefix))"

definition moduleItem :: "api_request \<Rightarrow> api_answer handler" where
  "moduleItem e =
     (let method = rq_Method (hx_http e) in
      case api_parts ''/api/v1/modules/'' (rq_Path (hx_http e)) of
        [owner, name] \<Rightarrow>
          if method = ''GET'' then getModule e owner name
          else if method = ''DELETE'' then deleteModule e owner name
          else h_fail e 404 (Plain ''route not found'')
      | [owner, name, versions, version] \<Rightarrow>
          if versions = ''versions'' \<and> method = ''GET'' then getRelease e owner name version
          else if versions = ''versions'' \<and> method = ''DELETE'' then deleteRelease e owner name version
          else h_fail e 404 (Plain ''route not found'')
      | [owner, name, versions, version, download] \<Rightarrow>
          if versions = ''versions'' \<and> download = ''download'' \<and> (method = ''GET'' \<or> method = ''HEAD'') then
            h_then (rateLimited e ''module-download'' 1200 minute ''too many module download requests'') (\<lambda>_.
              serveDownload e owner name version)
          else h_fail e 404 (Plain ''route not found'')
      | _ \<Rightarrow> h_fail e 404 (Plain ''route not found''))"

end
