(* ===== verification/ForgeApi.thy ===== *)
theory ForgeApi
  imports ApiHandlers
begin

text \<open>
  The Forge API under \<open>/v3/\<close> (\<open>internal/httpapi/router_v3.go\<close>): listings, modules, releases and
  files of the local catalog, and the upstream proxy for everything else. A handler that does not
  serve a request locally answers \<open>None\<close>.
\<close>

section \<open>Finding\<close>

text \<open>\<open>findModuleBySlug\<close>, \<open>findReleaseBySlug\<close>, \<open>findReleaseByFileName\<close>: absence is no error.\<close>

definition findModuleBySlug :: "string \<Rightarrow> (domain_module option) svc" where
  "findModuleBySlug slug =
     svc_try (db_read (\<lambda>s. GetModuleBySlug s slug)) (\<lambda>r. case r of
       Inr m \<Rightarrow> svc_return (Some m)
     | Inl err \<Rightarrow> if is_not_found err then svc_return None else svc_error err)"

definition findReleaseBySlug :: "api_request \<Rightarrow> string \<Rightarrow> (release option) svc" where
  "findReleaseBySlug e slug =
     svc_try (svc_GetReleaseBySlug (hx_service e) (hx_request e) slug) (\<lambda>r. case r of
       Inr x \<Rightarrow> svc_return (Some x)
     | Inl err \<Rightarrow>
         if is_not_found err then svc_return None
         else (case err of HydrationFailed _ \<Rightarrow> svc_return None | _ \<Rightarrow> svc_error err))"

definition findReleaseByFileName :: "api_request \<Rightarrow> string \<Rightarrow> (release option) svc" where
  "findReleaseByFileName e filename =
     (if has_suffix filename ''.tar.gz'' then findReleaseBySlug e (trim_suffix filename ''.tar.gz'') else svc_return None)"

section \<open>Documents\<close>

text \<open>The external base of the request.\<close>

definition v3_base :: "api_request \<Rightarrow> string" where
  "v3_base e = ExternalBaseURL (ne_equal_fold (hx_net e)) (\<lambda>_. None) (Some (hx_http e)) []"

definition writeV3Collection :: "api_request \<Rightarrow> json list \<Rightarrow> int \<Rightarrow> int \<Rightarrow> nat \<Rightarrow> api_answer handler" where
  "writeV3Collection e results limit offset matches =
     h_document 200 (JObject
       [(''pagination'', v3PaginationResponse (hx_encode_query e) (v3_base e @ rq_Path (hx_http e)) limit offset (int matches)),
        (''results'', JArray results)])"

text \<open>The releases of several modules, grouped by module.\<close>

definition releases_of_module :: "release_summary list \<Rightarrow> domain_module \<Rightarrow> release_summary list" where
  "releases_of_module rs m = filter (\<lambda>r. s_Owner r = m_Owner m \<and> s_Name r = m_Name m) rs"

definition v3_module_json :: "domain_module \<Rightarrow> release_summary list \<Rightarrow> json \<Rightarrow> json" where
  "v3_module_json m versions current =
     (let mslug = moduleSlug (m_Owner m) (m_Name m) in
      JObject [(''uri'', JString (''/v3/modules/'' @ mslug)), (''slug'', JString mslug), (''name'', JString (m_Name m)),
        (''owner'', v3OwnerResponse (m_Owner m)), (''current_release'', current),
        (''releases'', JArray (map (\<lambda>r. release_ref (m_Owner m) (m_Name m) (s_Version r)) versions))])"

fun v3_module_results :: "api_request \<Rightarrow> release_summary list \<Rightarrow> domain_module list \<Rightarrow> (json list) handler" where
  "v3_module_results e rs [] = h_return []"
| "v3_module_results e rs (m # ms) =
     h_then
       (if m_LatestVersion m = [] then h_return JNull
        else h_try (db_read (\<lambda>s. GetRelease s (m_Owner m) (m_Name m) (m_LatestVersion m)))
               (\<lambda>err. writeServiceError e (Service err))
               (\<lambda>r. h_return (v3ReleaseResponse (hx_decode e) (v3_base e) r)))
       (\<lambda>current. h_then (v3_module_results e rs ms) (\<lambda>rest.
          h_return (v3_module_json m (releases_of_module rs m) current # rest)))"

definition serveLocalV3Modules :: "api_request \<Rightarrow> api_answer handler" where
  "serveLocalV3Modules e =
     (case v3Pagination (hx_query e) of
        Inl message \<Rightarrow> h_fail e 400 (Plain message)
      | Inr (limit, offset) \<Rightarrow>
          h_try (db_read (\<lambda>s. ListModulesPageFiltered (g_lower (hx_service e)) s [] (hx_query e ''query'') limit offset))
            (internal_error e) (\<lambda>(mods, n).
          h_try (db_read (\<lambda>s. Inr (ListReleasesForModules (g_sv (hx_service e)) s mods))) (internal_error e) (\<lambda>rs.
          h_then (v3_module_results e rs mods) (\<lambda>results. writeV3Collection e results limit offset n))))"

definition slashes_to_dashes :: "string \<Rightarrow> string" where
  "slashes_to_dashes s = map (\<lambda>c. if c = CHR ''/'' then CHR ''-'' else c) s"

definition serveLocalV3Releases :: "api_request \<Rightarrow> api_answer handler" where
  "serveLocalV3Releases e =
     (case v3Pagination (hx_query e) of
        Inl message \<Rightarrow> h_fail e 400 (Plain message)
      | Inr (limit, offset) \<Rightarrow>
          h_try (db_read (\<lambda>s. ListReleasesPageFiltered s (slashes_to_dashes (trim_space (hx_query e ''module'')))
              (trim_space (hx_query e ''version'')) limit offset)) (internal_error e) (\<lambda>(rs, n).
            writeV3Collection e (map (v3ReleaseResponse (hx_decode e) (v3_base e)) rs) limit offset n))"

definition serveLocalV3Module :: "api_request \<Rightarrow> string \<Rightarrow> (api_answer option) handler" where
  "serveLocalV3Module e slug =
     h_try (findModuleBySlug slug) (internal_error e) (\<lambda>found. case found of
       None \<Rightarrow> h_return None
     | Some m \<Rightarrow>
         h_try (db_read (\<lambda>s. Inr (ListReleases (g_sv (hx_service e)) s (m_Owner m) (m_Name m)))) (internal_error e) (\<lambda>versions.
           h_return (Some (Document 200 (JObject
             [(''slug'', JString slug), (''owner'', JString (m_Owner m)), (''name'', JString (m_Name m)),
              (''current_release'', if m_LatestVersion m = [] then JNull
                 else release_ref (m_Owner m) (m_Name m) (m_LatestVersion m)),
              (''releases'', JArray (map (\<lambda>v. release_ref (m_Owner m) (m_Name m) (mv_Version v)) versions))])))))"

definition v3_release_document :: "api_request \<Rightarrow> release \<Rightarrow> json" where
  "v3_release_document e r =
     JObject
       ([(''slug'', JString (releaseSlug (r_Owner r) (r_Name r) (r_Version r))), (''version'', JString (r_Version r)),
         (''file_uri'', JString (releaseV3FileURI (v3_base e) r)), (''file_name'', JString (releaseV3FileName r)),
         (''file_size'', JInt (r_SizeBytes r)), (''readme'', JString (r_Readme r)),
         (''description'', JString (r_Description r)), (''metadata'', hx_decode e (r_Metadata r))] @ checksum_fields r)"

text \<open>A release without complete checksums is left to the upstream when it comes from there.\<close>

definition serveLocalV3Release :: "api_request \<Rightarrow> string \<Rightarrow> (api_answer option) handler" where
  "serveLocalV3Release e slug =
     h_try (findReleaseBySlug e slug) (\<lambda>err. writeServiceError e (Service err)) (\<lambda>found. case found of
       None \<Rightarrow> h_return None
     | Some r \<Rightarrow>
         h_then (markReleaseUsed e (r_Owner r) (r_Name r) (r_Version r)) (\<lambda>_.
           h_try (EnsureReleaseChecksums (hx_service e) (hx_request e) r)
             (\<lambda>err. if r_Source r = ''upstream'' then h_return None else not_found_or_internal e err)
             (\<lambda>verified. h_return (Some (Document 200 (v3_release_document e verified))))))"

definition needs_upstream :: "release \<Rightarrow> bool" where
  "needs_upstream r =
     (r_Source r = ''upstream'' \<and> (r_MD5 r = [] \<or> r_SHA256 r = [] \<or> r_SizeBytes r \<le> 0 \<or> r_StoragePath r = []))"

definition serveLocalV3File :: "api_request \<Rightarrow> string \<Rightarrow> (api_answer option) handler" where
  "serveLocalV3File e filename =
     h_try (findReleaseByFileName e filename) (internal_error e) (\<lambda>found. case found of
       None \<Rightarrow> h_return None
     | Some r \<Rightarrow>
         h_then (markReleaseUsed e (r_Owner r) (r_Name r) (r_Version r)) (\<lambda>_.
         h_then (if rq_Method (hx_http e) = ''GET''
                 then markReleaseConsumerUsed e (r_Owner r) (r_Name r) (r_Version r) else h_return ()) (\<lambda>_.
           if needs_upstream r then h_return None
           else h_then (writeReleaseArchive e r) (\<lambda>a. h_return (Some a)))))"

section \<open>Routes\<close>

definition method_not_allowed :: "api_request \<Rightarrow> 'a handler" where
  "method_not_allowed e = h_fail e 405 (Plain ''method not allowed'')"

definition serveLocalV3Response :: "api_request \<Rightarrow> (api_answer option) handler" where
  "serveLocalV3Response e =
     (let method = rq_Method (hx_http e); local = (\<lambda>m. h_then m (\<lambda>a. h_return (Some a))) in
      case api_parts ''/v3/'' (rq_Path (hx_http e)) of
        [kind] \<Rightarrow>
          if kind = ''modules'' \<and> method = ''GET'' then local (serveLocalV3Modules e)
          else if kind = ''releases'' \<and> method = ''GET'' then local (serveLocalV3Releases e)
          else h_return None
      | [kind, name] \<Rightarrow>
          if kind = ''modules'' then
            if method \<noteq> ''GET'' then method_not_allowed e else serveLocalV3Module e name
          else if kind = ''releases'' then
            if method \<noteq> ''GET'' then method_not_allowed e else serveLocalV3Release e name
          else if kind = ''files'' then
            if method \<noteq> ''GET'' \<and> method \<noteq> ''HEAD'' then method_not_allowed e else serveLocalV3File e name
          else h_return None
      | _ \<Rightarrow> h_return None)"

definition serve_proxy :: "api_request \<Rightarrow> proxy_config \<times> upstream \<Rightarrow> api_answer handler" where
  "serve_proxy e pu h =
     (case proxy_handle (hx_service e) (fst pu) (snd pu) (hx_request e) (hx_answered e) (hx_http e) (h_cache h, h_world h) of
        ((c, w), (reply, _)) \<Rightarrow>
          (h\<lparr>h_cache := c, h_world := w\<rparr>, Inr (Stream (rp_Status reply) (rp_Header reply) (rp_Body reply))))"

definition v3Handler :: "api_request \<Rightarrow> api_answer handler" where
  "v3Handler e =
     h_then (serveLocalV3Response e) (\<lambda>local. case local of
       Some a \<Rightarrow> h_return a
     | None \<Rightarrow> (case hx_proxy e of
           None \<Rightarrow> h_fail e 404 (Plain ''route not found'')
         | Some pu \<Rightarrow> serve_proxy e pu))"

text \<open>The route of \<open>/v3/\<close> with its guards: read access, then the limit of the reader's address.\<close>

definition v3_route :: "api_request \<Rightarrow> api_answer handler" where
  "v3_route e =
     h_then (requireRead e) (\<lambda>_.
     h_then (rateLimited e ''v3-read'' 1200 minute ''too many requests'') (\<lambda>_. v3Handler e))"

text \<open>The routes of both APIs by path and method, as the multiplexer of \<open>NewRouter\<close> chooses them.\<close>

definition api_route :: "api_request \<Rightarrow> api_answer handler" where
  "api_route e =
     (let p = rq_Path (hx_http e) in
      if p = ''/api/v1/modules'' then modulesCollection e
      else if has_prefix p ''/api/v1/modules/'' then moduleItem e
      else if p = ''/api/v1/manage/publish-spaces'' then publishSpaces e
      else if p = ''/v3/releases'' \<and> rq_Method (hx_http e) = ''POST'' then publishV3Release e
      else if has_prefix p ''/v3/'' then v3_route e
      else h_fail e 404 (Plain ''route not found''))"

end
