(* ===== verification/PublishScope.thy ===== *)
theory PublishScope
  imports DeletionProperties
begin

text \<open>
  What a publication and a deletion leave alone: the modules, releases, tombstones, pending deletions
  and objects of every other space.
\<close>

section \<open>Spaces\<close>

text \<open>The catalogs agree on every release that is not of the owner.\<close>

definition only_of :: "string \<Rightarrow> release set \<Rightarrow> release set \<Rightarrow> bool" where
  "only_of owner c0 c \<longleftrightarrow> {r \<in> c. r_Owner r \<noteq> owner} = {r \<in> c0. r_Owner r \<noteq> owner}"

lemma only_of_refl [simp]: "only_of owner c c"
  by (simp add: only_of_def)

lemma only_of_trans: "only_of owner c d \<Longrightarrow> only_of owner d e \<Longrightarrow> only_of owner c e"
  by (simp add: only_of_def)

lemma only_of_drops [simp]:
  "only_of owner c (drop_module owner name c)" "only_of owner c (drop_release (owner, name, version) c)"
  by (auto simp: only_of_def drop_module_def drop_release_def key_of_def)

lemma only_of_put: "r_Owner e = owner \<Longrightarrow> only_of owner c (put_release e c)"
  by (auto simp: only_of_def put_release_def key_of_def)

text \<open>The paths of the artifacts a space may publish, and those its local releases have.\<close>

definition space_paths :: "service \<Rightarrow> string \<Rightarrow> string set" where
  "space_paths g owner =
     {object_path g owner name version (g_sha256 g x) | name version x. valid_identity g owner name version}"

definition owner_paths :: "string \<Rightarrow> db \<Rightarrow> string set" where
  "owner_paths owner s = r_StoragePath ` {r \<in> catalog s. r_Owner r = owner \<and> r_Source r = ''local''}"

lemma space_paths_disjoint:
  "service_ok g \<Longrightarrow> path \<in> space_paths g owner \<Longrightarrow> path \<in> space_paths g owner' \<Longrightarrow> owner = owner'"
  unfolding space_paths_def using object_path_inject by (smt (verit) mem_Collect_eq)

text \<open>
  From one database to another only rows of the owner changed; of the outbox only rows of the given
  paths did, and its local releases have such paths.
\<close>

definition db_frame :: "string \<Rightarrow> string set \<Rightarrow> db \<Rightarrow> db \<Rightarrow> bool" where
  "db_frame owner P s t \<longleftrightarrow>
     only_of owner (catalog s) (catalog t) \<and>
     filter (\<lambda>m. mr_owner m \<noteq> owner) (db_modules t) = filter (\<lambda>m. mr_owner m \<noteq> owner) (db_modules s) \<and>
     filter (\<lambda>x. tr_owner x \<noteq> owner) (db_tombstones t) = filter (\<lambda>x. tr_owner x \<noteq> owner) (db_tombstones s) \<and>
     filter (\<lambda>d. dr_storage_path d \<notin> P) (db_deletions t) = filter (\<lambda>d. dr_storage_path d \<notin> P) (db_deletions s) \<and>
     owner_paths owner t \<subseteq> P"

definition only_space :: "service \<Rightarrow> string \<Rightarrow> db \<times> bucket \<Rightarrow> db \<times> bucket \<Rightarrow> bool" where
  "only_space g owner before after \<longleftrightarrow>
     db_frame owner (space_paths g owner \<union> owner_paths owner (fst before)) (fst before) (fst after) \<and>
     (\<forall>key. key \<notin> space_paths g owner \<longrightarrow> map_of (snd after) key = map_of (snd before) key)"

lemma db_frame_refl: "owner_paths owner s \<subseteq> P \<Longrightarrow> db_frame owner P s s"
  by (simp add: db_frame_def)

lemma db_frame_trans: "db_frame owner P s t \<Longrightarrow> db_frame owner P t u \<Longrightarrow> db_frame owner P s u"
  unfolding db_frame_def using only_of_trans by metis

lemma only_space_refl [simp]: "only_space g owner sb sb"
  by (simp add: only_space_def db_frame_refl)

lemma only_space_releases: "only_space g owner (s, bk) (t, bk') \<Longrightarrow> only_of owner (catalog s) (catalog t)"
  by (simp add: only_space_def db_frame_def)

lemma db_frame_audit: "db_frame owner P s (t\<lparr>db_audit := a\<rparr>) = db_frame owner P s t"
  by (simp add: db_frame_def owner_paths_def catalog_def)

lemma db_frame_commit: "commitSQLiteMutation v c t = Inr (c1, t1) \<Longrightarrow> db_frame owner P s t1 = db_frame owner P s t"
  by (drule commit_cases) (auto simp: db_frame_audit)

section \<open>Rows\<close>

lemma filter_update_other: "\<forall>x \<in> set xs. p x \<longrightarrow> \<not> Q x \<and> \<not> Q (f x) \<Longrightarrow> filter Q (update_where p f xs) = filter Q xs"
  by (induction xs) (auto simp: update_where_def)

lemma filter_delete_other: "\<forall>x \<in> set xs. p x \<longrightarrow> \<not> Q x \<Longrightarrow> filter Q (delete_where p xs) = filter Q xs"
  by (induction xs) (auto simp: delete_where_def)

lemma filter_queue:
  "path \<in> P \<Longrightarrow> filter (\<lambda>d. dr_storage_path d \<notin> P) (db_deletions (queue_deletion v s path owner name)) =
     filter (\<lambda>d. dr_storage_path d \<notin> P) (db_deletions s)"
  by (simp add: queue_deletion_def insert_or_ignore_def)

lemma filter_queue_all:
  "set paths \<subseteq> P \<Longrightarrow> filter (\<lambda>d. dr_storage_path d \<notin> P) (db_deletions (fold (\<lambda>path t. queue_deletion v t path owner name) paths s)) =
     filter (\<lambda>d. dr_storage_path d \<notin> P) (db_deletions s)"
  by (induction paths arbitrary: s) (simp_all add: filter_queue)

lemma queue_all_simps:
  "db_modules (fold (\<lambda>path t. queue_deletion v t path owner name) paths s) = db_modules s"
  "db_tombstones (fold (\<lambda>path t. queue_deletion v t path owner name) paths s) = db_tombstones s"
  by (induction paths arbitrary: s) simp_all

lemma local_path_of:
  assumes "m \<in> set (db_modules s)" "r \<in> set (db_releases s)" "rr_module_id r = mr_id m" "rr_source r = ''local''"
  shows "rr_storage_path r \<in> owner_paths (mr_owner m) s"
proof -
  have "scan_as (mr_owner m) (mr_name m) r \<in> catalog s" unfolding in_catalog using assms by blast
  then show ?thesis unfolding owner_paths_def using assms(4) by force
qed

section \<open>Operations of the store\<close>

lemma upsert_frame:
  assumes inv: "db_inv sv s" and P: "owner_paths owner s \<subseteq> P"
  shows "db_frame owner P s (fst (UpsertModule v s owner name))"
proof -
  let ?t = "fst (UpsertModule v s owner name)"
  have cat: "catalog ?t = catalog s" by (rule UpsertModule_effect(1) [OF inv])
  have "filter (\<lambda>m. mr_owner m \<noteq> owner) (db_modules ?t) = filter (\<lambda>m. mr_owner m \<noteq> owner) (db_modules s)"
    by (auto simp: UpsertModule_def Let_def filter_update_other split: option.split)
  moreover have "db_tombstones ?t = db_tombstones s" "db_deletions ?t = db_deletions s"
    by (auto simp: UpsertModule_def Let_def split: option.split)
  ultimately show ?thesis using P by (simp add: db_frame_def cat owner_paths_def)
qed

lemma empty_module_frame:
  assumes inv: "modules_inv (db_modules s)" and P: "owner_paths owner s \<subseteq> P"
  shows "db_frame owner P s (delete_empty_module owner name s)"
proof -
  let ?t = "delete_empty_module owner name s"
  have "filter (\<lambda>m. mr_owner m \<noteq> owner) (db_modules ?t) = filter (\<lambda>m. mr_owner m \<noteq> owner) (db_modules s)"
    unfolding delete_empty_module_def delete_modules_def by (simp add: filter_delete_other)
  moreover have "db_tombstones ?t = db_tombstones s" "db_deletions ?t = db_deletions s"
    by (simp_all add: delete_empty_module_def delete_modules_def)
  ultimately show ?thesis using P by (simp add: db_frame_def catalog_delete_empty [OF inv] owner_paths_def)
qed

lemma create_frame:
  assumes sv: "semver_package (v_sv v)" and inv: "db_inv (v_sv v) s"
    and m: "(r_ModuleID r, owner, r_Name r) \<in> identities (db_modules s)" "r_Owner r = owner"
    and P: "owner_paths owner s \<subseteq> P" "r_Source r = ''local'' \<Longrightarrow> r_StoragePath r \<in> P"
    and run: "createRelease v c s r co = ((c1, s1), x)"
  shows "db_frame owner P s s1"
proof (cases rule: createRelease_cases [of v c s r co])
  case (failed e)
  then show ?thesis using run db_frame_refl [OF P(1)] by simp
next
  case (finished tx n current c2 s2)
  have s2: "s1 = s2" using run finished(5) by simp
  obtain y where y: "y \<in> set (db_modules s)" "mr_id y = r_ModuleID r" "mr_owner y = owner" "mr_name y = r_Name r"
    using m(1) by (auto simp: identities_def)
  note mods = db_invD(1) [OF inv]
  note ins = insert_release_row_ok [OF inv finished(1,2)] and rows = insert_release_rows [OF finished(1,2)]
  let ?t = "updateLatestVersion v (create_outbox v s r co tx) (r_ModuleID r) (latestVersionWithCandidate (v_sv v) current (r_Version r))"
  have tomb: "db_tombstones tx = db_tombstones s"
    using finished(1) by (auto simp: insert_release_row_def Let_def split: if_splits option.splits)
  have modules: "filter (\<lambda>m. mr_owner m \<noteq> owner) (db_modules ?t) = filter (\<lambda>m. mr_owner m \<noteq> owner) (db_modules s)"
  proof -
    have "db_modules (create_outbox v s r co tx) = db_modules s"
      using ins(2) by (simp add: create_outbox_def Let_def split: prod.split)
    moreover have "mr_owner x = owner" if "x \<in> set (db_modules s)" "mr_id x = r_ModuleID r" for x
      using modules_invD(1) [OF mods that(1) y(1)] that(2) y(2,3) by simp
    ultimately show ?thesis by (auto simp: updateLatestVersion_def intro!: filter_update_other)
  qed
  have previous: "rr_storage_path x \<in> P" if "release_of s (r_ModuleID r) (r_Version r) = Some x" "rr_source x = ''local''" for x
    using release_of_Some [OF that(1)] local_path_of [OF y(1), of x] that(2) y(2,3) P(1) by auto
  have deletions: "filter (\<lambda>d. dr_storage_path d \<notin> P) (db_deletions ?t) = filter (\<lambda>d. dr_storage_path d \<notin> P) (db_deletions s)"
    using rows(4) previous P(2)
    by (auto simp: updateLatestVersion_def create_outbox_def Let_def filter_queue filter_delete_other split: prod.split option.splits if_splits)
  have tombs: "db_tombstones ?t = db_tombstones s"
    using tomb by (simp add: updateLatestVersion_def create_outbox_def Let_def split: prod.split)
  have ids: "(r_ModuleID r, r_Owner r, r_Name r) \<in> identities (db_modules s)" using m by simp
  have cat: "only_of owner (catalog s) (catalog s2) \<and> owner_paths owner s2 \<subseteq> P"
  proof (cases rule: createRelease_effect [OF sv inv ids, where c = c and co = co])
    case (1 e)
    then show ?thesis using finished(5) P(1) by simp
  next
    case (2 c3 s3 q)
    have s3: "s3 = s2" using finished(5) 2(1) by simp
    have q: "r_Owner q = owner" using 2(4) m(2) by (simp add: key_of_def)
    have fields: "r_Source q = r_Source r \<and> r_StoragePath q = r_StoragePath r"
      using 2(3) unfolding stored_as_def by (metis release.select_convs(5,14) release.update_convs(1,17,18,19) release.surjective)
    show ?thesis
      using only_of_put [OF q] fields P unfolding 2(2) [unfolded s3] owner_paths_def by (auto simp: put_release_def)
  qed
  obtain a where a: "s2 = ?t\<lparr>db_audit := a\<rparr>" using commit_cases [OF finished(4)] by blast
  show ?thesis
    unfolding s2 db_frame_def using cat modules deletions tombs by (simp add: a)
qed

lemma delete_module_frame:
  assumes inv: "db_inv sv s" and P: "owner_paths owner s \<subseteq> P" and run: "DeleteModule v c s owner name = ((c1, s1), x)"
  shows "db_frame owner P s s1"
proof (cases x)
  case (Inl e)
  then have "s1 = s" using run by (auto simp: DeleteModule_def rolled_back_def Let_def split: if_splits sum.splits)
  then show ?thesis by (simp add: db_frame_refl P)
next
  case (Inr u)
  have cat: "catalog s1 = drop_module owner name (catalog s)" using DeleteModule_catalog [OF inv] run Inr by simp
  then have local: "owner_paths owner s1 \<subseteq> P" using P by (auto simp: owner_paths_def drop_module_def)
  let ?tx = "delete_module_tx v s owner name"
  have com: "commitSQLiteMutation v c
      (?tx\<lparr>db_tombstones := delete_where (\<lambda>t. tr_owner t = owner \<and> tr_name t = name) (db_tombstones ?tx),
           db_usage := delete_where (\<lambda>u. ur_owner u = owner \<and> ur_name u = name) (db_usage ?tx)\<rparr>) = Inr (c1, s1)"
    using run Inr by (auto simp: DeleteModule_def Let_def rolled_back_def split: if_splits sum.splits)
  obtain a where a: "s1 = (?tx\<lparr>db_tombstones := delete_where (\<lambda>t. tr_owner t = owner \<and> tr_name t = name) (db_tombstones ?tx),
           db_usage := delete_where (\<lambda>u. ur_owner u = owner \<and> ur_name u = name) (db_usage ?tx)\<rparr>)\<lparr>db_audit := a\<rparr>"
    using commit_cases [OF com] by blast
  have queued: "set (map (\<lambda>(m, r). rr_storage_path r) (filter (\<lambda>(m, r). mr_owner m = owner \<and> mr_name m = name \<and>
      rr_source r = ''local'' \<and> rr_storage_path r \<noteq> []) (joined s))) \<subseteq> P"
    using P local_path_of [of _ s] by (fastforce simp: set_joined)
  have rest: "filter (\<lambda>m. mr_owner m \<noteq> owner) (db_modules ?tx) = filter (\<lambda>m. mr_owner m \<noteq> owner) (db_modules s)"
      "db_tombstones ?tx = db_tombstones s"
      "filter (\<lambda>d. dr_storage_path d \<notin> P) (db_deletions ?tx) = filter (\<lambda>d. dr_storage_path d \<notin> P) (db_deletions s)"
    using filter_queue_all [OF queued]
    by (simp_all add: delete_module_tx_def Let_def delete_modules_def filter_delete_other queue_all_simps)
  show ?thesis unfolding db_frame_def using cat local rest by (simp add: a filter_delete_other)
qed

lemma delete_release_frame:
  assumes inv: "db_inv sv s" and P: "owner_paths owner s \<subseteq> P" and run: "DeleteRelease v c s owner name version = ((c1, s1), x)"
  shows "db_frame owner P s s1"
proof (cases x)
  case (Inl e)
  then have "s1 = s" using run by (auto simp: DeleteRelease_def rolled_back_def split: option.splits prod.splits sum.splits)
  then show ?thesis by (simp add: db_frame_refl P)
next
  case (Inr u)
  have cat: "catalog s1 = drop_release (owner, name, version) (catalog s)"
    using DeleteRelease_catalog(1) [OF inv] run Inr by simp
  then have local: "owner_paths owner s1 \<subseteq> P" using P by (auto simp: owner_paths_def drop_release_def)
  obtain m r where f: "find (\<lambda>(m, r). mr_owner m = owner \<and> mr_name m = name \<and> rr_version r = version) (joined s) = Some (m, r)"
    and com: "commitSQLiteMutation v c (delete_release_tx v s m r owner name version) = Inr (c1, s1)"
    using run Inr by (auto simp: DeleteRelease_def rolled_back_def split: option.splits sum.splits)
  have mr: "m \<in> set (db_modules s)" "mr_owner m = owner" "(m, r) \<in> set (joined s)"
    using find_SomeD [OF f] by (auto simp: set_joined)
  have path: "rr_source r = ''local'' \<Longrightarrow> rr_storage_path r \<in> P"
    using local_path_of [OF mr(1), of r] mr(2,3) P by (auto simp: set_joined)
  have own: "mr_owner y = owner" if "y \<in> set (db_modules s)" "mr_id y = mr_id m" for y
    using modules_invD(1) [OF db_invD(1) [OF inv] that(1) mr(1)] that(2) mr(2) by simp
  let ?t = "delete_release_tx v s m r owner name version"
  have rest: "filter (\<lambda>m. mr_owner m \<noteq> owner) (db_modules ?t) = filter (\<lambda>m. mr_owner m \<noteq> owner) (db_modules s)"
      "filter (\<lambda>x. tr_owner x \<noteq> owner) (db_tombstones ?t) = filter (\<lambda>x. tr_owner x \<noteq> owner) (db_tombstones s)"
      "filter (\<lambda>d. dr_storage_path d \<notin> P) (db_deletions ?t) = filter (\<lambda>d. dr_storage_path d \<notin> P) (db_deletions s)"
  proof -
    have tomb: "filter (\<lambda>x. tr_owner x \<noteq> owner) (insert_or_update (\<lambda>t. (tr_owner t, tr_name t, tr_version t, tr_source t))
        (\<lambda>t. t\<lparr>tr_deleted_at := d\<rparr>) (\<lparr>tr_owner = owner, tr_name = name, tr_version = version, tr_source = src, tr_deleted_at = d'\<rparr>) ts) =
        filter (\<lambda>x. tr_owner x \<noteq> owner) ts" for d d' src ts
    proof -
      have "filter (\<lambda>x. tr_owner x \<noteq> owner) (map (\<lambda>x. if (tr_owner x, tr_name x, tr_version x, tr_source x) = (owner, name, version, src)
          then x\<lparr>tr_deleted_at := d\<rparr> else x) ts) = filter (\<lambda>x. tr_owner x \<noteq> owner) ts"
        by (induction ts) auto
      then show ?thesis by (simp add: insert_or_update_def)
    qed
    show "filter (\<lambda>m. mr_owner m \<noteq> owner) (db_modules ?t) = filter (\<lambda>m. mr_owner m \<noteq> owner) (db_modules s)"
      using own by (simp add: delete_release_tx_def Let_def delete_empty_module_def delete_modules_def updateLatestVersion_def
          filter_delete_other filter_update_other)
    show "filter (\<lambda>x. tr_owner x \<noteq> owner) (db_tombstones ?t) = filter (\<lambda>x. tr_owner x \<noteq> owner) (db_tombstones s)"
      by (simp add: delete_release_tx_def Let_def delete_empty_module_def delete_modules_def updateLatestVersion_def tomb)
    show "filter (\<lambda>d. dr_storage_path d \<notin> P) (db_deletions ?t) = filter (\<lambda>d. dr_storage_path d \<notin> P) (db_deletions s)"
      using path by (simp add: delete_release_tx_def Let_def delete_empty_module_def delete_modules_def updateLatestVersion_def filter_queue)
  qed
  show ?thesis unfolding db_frame_commit [OF com] 
    unfolding db_frame_def using cat local rest commit_cases [OF com] by (auto simp: owner_paths_def catalog_def)
qed

section \<open>Calls of the service\<close>

definition in_space :: "service \<Rightarrow> string \<Rightarrow> db \<times> bucket \<Rightarrow> world \<Rightarrow> bool" where
  "in_space g owner sb w \<longleftrightarrow> db_inv (g_sv g) (w_db w) \<and> only_space g owner sb (w_db w, w_bucket w)"

abbreviation allowed_paths :: "service \<Rightarrow> string \<Rightarrow> db \<times> bucket \<Rightarrow> string set" where
  "allowed_paths g owner sb \<equiv> space_paths g owner \<union> owner_paths owner (fst sb)"

lemma in_spaceI:
  assumes "in_space g owner sb w" "db_inv (g_sv g) s1" "db_frame owner (allowed_paths g owner sb) (w_db w) s1"
    and "w_db w1 = s1" "w_bucket w1 = w_bucket w"
  shows "in_space g owner sb w1"
  using assms db_frame_trans by (auto simp: in_space_def only_space_def)

lemma in_space_paths: "in_space g owner sb w \<Longrightarrow> owner_paths owner (w_db w) \<subseteq> allowed_paths g owner sb"
  by (simp add: in_space_def only_space_def db_frame_def)

lemma in_space_visible: "w_db w' = w_db w \<Longrightarrow> w_bucket w' = w_bucket w \<Longrightarrow> in_space g owner sb w' = in_space g owner sb w"
  by (simp add: in_space_def)

lemma space_db:
  assumes "\<And>w c c1 s1 r. in_space g owner sb w \<Longrightarrow> f c (w_db w) = ((c1, s1), r) \<Longrightarrow>
      db_inv (g_sv g) s1 \<and> db_frame owner (allowed_paths g owner sb) (w_db w) s1"
  shows "keeps (in_space g owner sb) (db_call f)"
proof (rule keeps_db [OF in_space_visible])
  fix w c
  assume w: "in_space g owner sb w"
  obtain c1 s1 r where run: "f c (w_db w) = ((c1, s1), r)" by (metis prod.exhaust)
  then show "in_space g owner sb (w\<lparr>w_db := snd (fst (f c (w_db w)))\<rparr>)"
    using in_spaceI [OF w, of s1 "w\<lparr>w_db := s1\<rparr>"] assms [OF w run] by simp
qed

lemma space_write:
  assumes "\<And>w. in_space g owner sb w \<Longrightarrow>
      db_inv (g_sv g) (fst (f (w_db w))) \<and> db_frame owner (allowed_paths g owner sb) (w_db w) (fst (f (w_db w)))"
  shows "keeps (in_space g owner sb) (db_write f)"
  unfolding db_write_def using assms by (intro space_db) (auto simp: case_prod_unfold)

lemma space_bucket:
  assumes "\<And>bk key. key \<notin> space_paths g owner \<Longrightarrow> map_of (fst (f bk)) key = map_of bk key"
  shows "keeps (in_space g owner sb) (bucket_call f)"
  by (rule keeps_bucket [OF in_space_visible]) (use assms in \<open>auto simp: in_space_def only_space_def\<close>)

lemma space_reads:
  "keeps (in_space g owner sb) (db_read f)" "keeps (in_space g owner sb) io_call" "keeps (in_space g owner sb) (svc_ctx a)"
  "keeps (in_space g owner sb) (bucket_read b)"
proof -
  show "keeps (in_space g owner sb) (bucket_read b)" unfolding bucket_read_def by (rule space_bucket) simp
qed (simp_all add: keeps_def svc_ctx_def in_space_def)

lemma space_object:
  assumes "service_ok g" "path \<in> space_paths g owner"
  shows "keeps (in_space g owner sb) (delete_object g path)"
    and "keeps (in_space g owner sb) (bucket_call (\<lambda>bk. case UploadReaderIfAbsent (g_backend g) now path ct body bk of
           (bk1, created) \<Rightarrow> (bk1, Inr created)))"
proof -
  have key: "object_key (g_backend g) path = path"
    using assms object_path_own_key unfolding space_paths_def by blast
  show "keeps (in_space g owner sb) (delete_object g path)"
    unfolding delete_object_def DeleteObject_def key using assms(2) by (intro space_bucket) auto
  show "keeps (in_space g owner sb) (bucket_call (\<lambda>bk. case UploadReaderIfAbsent (g_backend g) now path ct body bk of
           (bk1, created) \<Rightarrow> (bk1, Inr created)))"
    unfolding UploadReaderIfAbsent_def key using assms(2) by (intro space_bucket) (auto simp: Let_def split: option.split)
qed

lemma space_compensate:
  assumes "service_ok g" "path \<in> space_paths g owner"
  shows "keeps (in_space g owner sb) (compensatePublishFailure g owner name path e :: 'a svc)"
  unfolding compensatePublishFailure_def
proof (intro keeps_try space_object(1) [OF assms] space_write keeps_simple conjI)
  fix w assume w: "in_space g owner sb w"
  then have inv: "db_inv (g_sv g) (w_db w)" by (simp add: in_space_def)
  show "db_inv (g_sv g) (fst (DeleteModuleIfEmpty (w_db w) owner name))"
    using delete_empty_inv [OF inv] by (simp add: DeleteModuleIfEmpty_def)
  show "db_frame owner (allowed_paths g owner sb) (w_db w) (fst (DeleteModuleIfEmpty (w_db w) owner name))"
    using empty_module_frame [OF db_invD(1) [OF inv] in_space_paths [OF w]] by (simp add: DeleteModuleIfEmpty_def)
qed

lemma space_record: "keeps (in_space g owner sb) (record_pending g' q)"
proof -
  have recorded: "keeps (in_space g owner sb) (db_write (\<lambda>s. case recordSQLiteAuditEvent v s event of Inl e \<Rightarrow> (s, Inl e) | Inr s1 \<Rightarrow> (s1, Inr ())))"
    for v event
  proof (rule space_write)
    fix w assume w: "in_space g owner sb w"
    then have inv: "db_inv (g_sv g) (w_db w)" by (simp add: in_space_def)
    have same: "db_frame owner (allowed_paths g owner sb) (w_db w) (w_db w)" by (rule db_frame_refl [OF in_space_paths [OF w]])
    have "\<exists>a. s1 = s\<lparr>db_audit := a\<rparr>" if "recordSQLiteAuditEvent v s event = Inr s1" for s s1
      using that by (intro exI [of _ "db_audit s1"]) (auto simp: recordSQLiteAuditEvent_def Let_def split: if_splits)
    then show "db_inv (g_sv g) (fst (case recordSQLiteAuditEvent v (w_db w) event of Inl e \<Rightarrow> (w_db w, Inl e) | Inr s1 \<Rightarrow> (s1, Inr ()))) \<and>
        db_frame owner (allowed_paths g owner sb) (w_db w)
          (fst (case recordSQLiteAuditEvent v (w_db w) event of Inl e \<Rightarrow> (w_db w, Inl e) | Inr s1 \<Rightarrow> (s1, Inr ())))"
      using inv same by (fastforce simp: db_inv_audit db_frame_audit split: sum.split)
  qed
  show ?thesis
  proof (rule keepsI)
    fix w assume w: "in_space g owner sb w"
    have "keeps (in_space g owner sb) (svc_then (db_write (\<lambda>s. case recordSQLiteAuditEvent v s event of Inl e \<Rightarrow> (s, Inl e) | Inr s1 \<Rightarrow> (s1, Inr ())))
        (\<lambda>_. svc_ctx MarkMutationAuditRecorded))" for v event
      by (intro keeps_then recorded space_reads)
    from keepsD [OF this w] w show "in_space g owner sb (fst (record_pending g' q w))"
      by (simp add: record_pending_def svc_return_def split: option.split)
  qed
qed

section \<open>Publications\<close>

lemma commit_in_space:
  assumes g: "service_ok g" and path: "path \<in> space_paths g (pi_Owner input)"
  shows "hoare (\<lambda>w. in_space g (pi_Owner input) sb w \<and> (m_ID mdl, pi_Owner input, pi_Name input) \<in> identities (db_modules (w_db w)))
    (publish_commit g q input md5Hex sha path mdl) (\<lambda>_. in_space g (pi_Owner input) sb)"
proof -
  let ?own = "pi_Owner input" let ?I = "in_space g ?own sb"
  let ?new = "NewRelease (q_release_uuid q) (m_ID mdl) input md5Hex sha path"
  let ?P = "\<lambda>w. ?I w \<and> (m_ID mdl, ?own, pi_Name input) \<in> identities (db_modules (w_db w))"
  have sv: "v_sv (request_env g q) = g_sv g" "semver_package (g_sv g)" using g by (simp_all add: request_env_def service_ok_def)
  have call: "hoare ?P (db_call (\<lambda>c s. createRelease (request_env g q) c s ?new co)) (\<lambda>_. ?I)" for co
  proof (rule hoareI)
    fix w assume w: "?P w"
    let ?call = "db_call (\<lambda>c s. createRelease (request_env g q) c s ?new co)"
    have inv: "db_inv (v_sv (request_env g q)) (w_db w)" using w by (simp add: in_space_def sv(1))
    have step: "?I w1" if run: "createRelease (request_env g q) c (w_db w) ?new co = ((c1, s1), r)"
      and w1: "w_db w1 = s1" "w_bucket w1 = w_bucket w" for c c1 s1 r w1
    proof (rule in_spaceI [OF _ _ _ w1])
      show "?I w" using w by simp
      show "db_inv (g_sv g) s1"
        using createRelease_inv [of "request_env g q" "w_db w" c ?new co] inv sv run by simp
      show "db_frame ?own (allowed_paths g ?own sb) (w_db w) s1"
        by (rule create_frame [OF _ inv _ _ in_space_paths _ run]) (use w path sv in \<open>auto simp: NewRelease_def\<close>)
    qed
    show "?I (fst (?call w))"
      by (cases rule: db_call_cases [of "\<lambda>c s. createRelease (request_env g q) c s ?new co" w])
        (use w step in \<open>auto simp: in_space_def\<close>)
  qed
  have comp: "keeps ?I (compensatePublishFailure g ?own (pi_Name input) path e :: release svc)" for e
    by (rule space_compensate [OF g path])
  show ?thesis
    unfolding publish_commit_def Let_def CreateRelease_def CreateReleaseIfAbsent_def
  proof (rule hoare_try [where R = "\<lambda>_. ?I"])
    show "hoare ?P (db_call (\<lambda>c s. if pi_Replace input then createRelease (request_env g q) c s ?new False
        else createRelease (request_env g q) c s ?new True)) (\<lambda>_. ?I)"
      using call by (cases "pi_Replace input") simp_all
  qed (auto simp: keeps_hoare [symmetric] intro!: keeps_simple keeps_try space_reads comp split: sum.split)
qed

lemma new_in_space:
  assumes g: "service_ok g" and path: "path \<in> space_paths g (pi_Owner input)"
  shows "keeps (in_space g (pi_Owner input) sb) (publish_new g q input body md5Hex sha path)"
proof -
  let ?own = "pi_Owner input" let ?I = "in_space g ?own sb"
  have up: "keeps ?I (publish_upload g q input body sha path)"
    unfolding publish_upload_def verifyExistingArtifact_def
    by (intro keeps_then space_reads space_object(2) [OF g path] keeps_if keeps_simple) (auto split: option.split intro: keeps_simple)
  have upsert: "hoare ?I (db_write (\<lambda>s. UpsertModule (request_env g q) s ?own (pi_Name input)))
      (\<lambda>r w. ?I w \<and> (\<forall>m. r = Inr m \<longrightarrow> (m_ID m, ?own, pi_Name input) \<in> identities (db_modules (w_db w))))"
  proof (rule hoareI)
    fix w assume w: "?I w"
    let ?f = "\<lambda>s. UpsertModule (request_env g q) s ?own (pi_Name input)"
    have inv: "db_inv (g_sv g) (w_db w)" using w by (simp add: in_space_def)
    have "keeps ?I (db_write ?f)"
    proof (rule space_write, intro conjI)
      fix w assume w: "?I w"
      then have inv: "db_inv (g_sv g) (w_db w)" by (simp add: in_space_def)
      show "db_inv (g_sv g) (fst (?f (w_db w)))" by (rule UpsertModule_inv [OF inv])
      show "db_frame ?own (allowed_paths g ?own sb) (w_db w) (fst (?f (w_db w)))"
        by (rule upsert_frame [OF inv in_space_paths [OF w]])
    qed
    then have kept: "?I (fst (db_write ?f w))" using w by (rule keepsD)
    have id: "(m_ID m, ?own, pi_Name input) \<in> identities (db_modules (w_db (fst (db_write ?f w))))"
      if "snd (db_write ?f w) = Inr m" for m
    proof -
      obtain s1 r where f: "?f (w_db w) = (s1, r)" by fastforce
      have "r = Inr m \<and> w_db (fst (db_write ?f w)) = s1"
        using that unfolding db_write_def
        by (cases rule: db_call_cases [of "\<lambda>c s. case ?f s of (s1, r) \<Rightarrow> ((c, s1), r)" w]) (auto simp: f)
      then show ?thesis using UpsertModule_effect(5) [OF inv, of "request_env g q" ?own "pi_Name input" m] f by simp
    qed
    show "?I (fst (db_write ?f w)) \<and>
        (\<forall>m. snd (db_write ?f w) = Inr m \<longrightarrow> (m_ID m, ?own, pi_Name input) \<in> identities (db_modules (w_db (fst (db_write ?f w)))))"
      using kept id by blast
  qed
  show ?thesis
    unfolding publish_new_def
  proof (rule keeps_then [OF up], unfold keeps_hoare, rule hoare_try [OF upsert])
    fix r :: "domain_module outcome"
    show "hoare (\<lambda>w. ?I w \<and> (\<forall>m. r = Inr m \<longrightarrow> (m_ID m, ?own, pi_Name input) \<in> identities (db_modules (w_db w))))
        (case r of Inl e \<Rightarrow> compensatePublishFailure g ?own (pi_Name input) path e
         | Inr mdl \<Rightarrow> publish_commit g q input md5Hex sha path mdl) (\<lambda>_. ?I)"
    proof (cases r)
      case (Inl e)
      show ?thesis
        unfolding Inl using hoare_weaken [OF space_compensate [OF g path, of sb "pi_Name input" e, unfolded keeps_hoare]] by simp
    next
      case (Inr mdl)
      show ?thesis unfolding Inr using hoare_weaken [OF commit_in_space [OF g path, of sb mdl q md5Hex sha]] by simp
    qed
  qed
qed

lemma checked_in_space:
  assumes g: "service_ok g" and v: "ValidModuleVersion (g_sv g) (pi_Version input)"
  shows "keeps (in_space g (pi_Owner input) sb) (publish_checked g q input authorize)"
proof -
  have locked: "keeps (in_space g (pi_Owner inp) sb) (publish_locked g q inp body md5Hex sha path)"
    if "path \<in> space_paths g (pi_Owner inp)" for inp body md5Hex sha path
    unfolding publish_locked_def verifyExistingArtifact_def
    by (auto split: sum.split option.split intro!: keeps_try keeps_then keeps_simple space_reads space_record new_in_space [OF g that])
  have path: "object_path g owner name (pi_Version input) (g_sha256 g body) \<in> space_paths g owner"
    if "ValidModuleOwner owner" "ValidModuleName name" for owner name body
    using v that unfolding space_paths_def valid_identity_def by blast
  show ?thesis
    unfolding publish_checked_def Let_def
    using locked [of _ "input\<lparr>pi_FileName := f, pi_SizeBytes := n\<rparr>" for f n] path
    by (auto split: option.split intro!: keeps_then keeps_simple space_reads)
qed

section \<open>Deletions\<close>

text \<open>Deleting touches only the space, and no object.\<close>

definition deletes_of :: "service \<Rightarrow> string \<Rightarrow> unit svc \<Rightarrow> bool" where
  "deletes_of g owner m \<longleftrightarrow> (\<forall>w. db_inv (g_sv g) (w_db w) \<longrightarrow>
     only_space g owner (w_db w, w_bucket w) (w_db (fst (m w)), w_bucket (fst (m w))) \<and> w_bucket (fst (m w)) = w_bucket w)"

lemma deletes_call:
  assumes "\<And>c s c1 s1 r P. db_inv (g_sv g) s \<Longrightarrow> owner_paths owner s \<subseteq> P \<Longrightarrow> f c s = ((c1, s1), r) \<Longrightarrow> db_frame owner P s s1"
  shows "deletes_of g owner (db_call f)"
  unfolding deletes_of_def
proof (intro allI impI)
  fix w :: world
  assume inv: "db_inv (g_sv g) (w_db w)"
  have P: "owner_paths owner (w_db w) \<subseteq> space_paths g owner \<union> owner_paths owner (w_db w)" by blast
  have "db_frame owner (space_paths g owner \<union> owner_paths owner (w_db w)) (w_db w) (w_db (fst (db_call f w)))"
    by (cases rule: db_call_cases [of f w]) (use assms [OF inv P] db_frame_refl [OF P] in auto)
  then show "only_space g owner (w_db w, w_bucket w) (w_db (fst (db_call f w)), w_bucket (fst (db_call f w))) \<and>
      w_bucket (fst (db_call f w)) = w_bucket w"
    by (simp add: only_space_def)
qed

lemma deletes_locked:
  "deletes_of g owner (deleteModuleLocked g q owner name)"
  "deletes_of g owner (deleteReleaseLocked g q owner name version)"
  unfolding deleteModuleLocked_def deleteReleaseLocked_def
  by (rule deletes_call, erule (2) delete_module_frame delete_release_frame)+

lemma deletes_error: "deletes_of g owner (svc_error err)"
  by (simp add: deletes_of_def)

lemma deletes_then:
  assumes "\<And>w. w_db (fst (m w)) = w_db w \<and> w_bucket (fst (m w)) = w_bucket w" "\<And>x. deletes_of g owner (f x)"
  shows "deletes_of g owner (svc_then m f)"
  unfolding deletes_of_def
proof (intro allI impI)
  fix w :: world
  assume inv: "db_inv (g_sv g) (w_db w)"
  show "only_space g owner (w_db w, w_bucket w) (w_db (fst (svc_then m f w)), w_bucket (fst (svc_then m f w))) \<and>
      w_bucket (fst (svc_then m f w)) = w_bucket w"
  proof (cases "snd (m w)")
    case (Inr x)
    have "db_inv (g_sv g) (w_db (fst (m w)))" using inv assms(1) by simp
    with assms(2) [of x] show ?thesis
      using Inr assms(1) [of w] inv unfolding deletes_of_def by (metis fst_svc_then sum.simps(6))
  qed (simp add: fst_svc_then assms(1))
qed

lemma reject_active_world:
  "w_db (fst (reject_active owner name since vs w)) = w_db w \<and> w_bucket (fst (reject_active owner name since vs w)) = w_bucket w"
  by (induction vs arbitrary: w) (auto simp: fst_svc_then isReleaseActive_def split: sum.split)

lemma delete_operations:
  "deletes_of g owner (svc_DeleteModule g q owner name)"
  "deletes_of g owner (DeleteModuleIfAllowed g q owner name since)"
  "deletes_of g owner (svc_DeleteRelease g q owner name version)"
  "deletes_of g owner (DeleteReleaseIfAllowed g q owner name version since)"
  unfolding svc_DeleteModule_def DeleteModuleIfAllowed_def svc_DeleteRelease_def DeleteReleaseIfAllowed_def
  by (auto simp: isReleaseActive_def reject_active_world intro!: deletes_then deletes_locked deletes_error)

lemma deletes_if: "deletes_of g owner m \<Longrightarrow> deletes_of g owner n \<Longrightarrow> deletes_of g owner (if b then m else n)"
  by simp

end
