(* ===== verification/ApiProperties.thy ===== *)
theory ApiProperties
  imports ForgeApi ProxyProperties PublishScope
begin

text \<open>
  Who may change what through the API, and what a download contains. The guards, records of use and
  audit entries of a handler leave the catalog, the outbox and the bucket alone; what remains is the
  one mutation of the handler, behind its guards.
\<close>

section \<open>Steps that leave the content alone\<close>

text \<open>What a token is apart from its last use.\<close>

definition token_state :: "token_row \<Rightarrow> string \<times> time option \<times> time option" where
  "token_state k = (kr_token_id k, kr_revoked_at k, kr_expires_at k)"

definition same_content :: "db \<Rightarrow> db \<Rightarrow> bool" where
  "same_content s t \<longleftrightarrow> db_modules t = db_modules s \<and> db_releases t = db_releases s \<and> db_deletions t = db_deletions s \<and>
     db_tombstones t = db_tombstones s \<and> map token_state (db_tokens t) = map token_state (db_tokens s)"

definition token_active :: "db \<Rightarrow> string \<Rightarrow> time \<Rightarrow> bool" where
  "token_active s i now \<longleftrightarrow>
     (\<exists>k \<in> set (db_tokens s). kr_token_id k = i \<and> kr_revoked_at k = None \<and>
        (case kr_expires_at k of None \<Rightarrow> True | Some t \<Rightarrow> now < t))"

lemma same_content_refl [simp]: "same_content s s"
  by (simp add: same_content_def)

lemma same_content_trans: "same_content s t \<Longrightarrow> same_content t u \<Longrightarrow> same_content s u"
  by (simp add: same_content_def)

lemma same_content_catalog: "same_content s t \<Longrightarrow> catalog t = catalog s"
  by (simp add: same_content_def catalog_def)

lemma same_content_inv: "same_content s t \<Longrightarrow> db_inv sv t = db_inv sv s"
  by (simp add: same_content_def db_inv_def)

lemma token_active_states:
  "token_active s i now \<longleftrightarrow>
     (\<exists>x \<in> set (map token_state (db_tokens s)). fst x = i \<and> fst (snd x) = None \<and>
        (case snd (snd x) of None \<Rightarrow> True | Some t \<Rightarrow> now < t))"
  by (auto simp: token_active_def token_state_def)

lemma same_content_tokens: "same_content s t \<Longrightarrow> token_active t i now = token_active s i now"
  unfolding token_active_states by (simp add: same_content_def)

lemma content_writes [simp]:
  "same_content s (fst (ConsumeRateLimit s key limit window now))"
  "same_content s (fst (MarkAccessTokenUsed s i now))"
  "same_content s (MarkReleaseUsed v s owner name version)"
  "same_content s (RecordReleaseConsumer s ob)"
  "recordSQLiteAuditEvent v s event = Inr s1 \<Longrightarrow> same_content s s1"
proof -
  show "same_content s (fst (MarkAccessTokenUsed s i now))"
    by (auto simp: MarkAccessTokenUsed_def same_content_def update_where_def token_state_def o_def)
qed (auto simp: same_content_def ConsumeRateLimit_def MarkReleaseUsed_def RecordReleaseConsumer_def
    recordSQLiteAuditEvent_def Let_def split: if_splits)

section \<open>Triples of handlers\<close>

definition triple :: "(api_state \<Rightarrow> bool) \<Rightarrow> 'a handler \<Rightarrow> ('a \<Rightarrow> api_state \<Rightarrow> bool) \<Rightarrow> (api_state \<Rightarrow> bool) \<Rightarrow> bool" where
  "triple P m Q E \<longleftrightarrow> (\<forall>h. P h \<longrightarrow> (case m h of (h1, Inl _) \<Rightarrow> E h1 | (h1, Inr x) \<Rightarrow> Q x h1))"

lemma triple_then:
  "triple P m R E \<Longrightarrow> (\<And>x. triple (R x) (f x) Q E) \<Longrightarrow> triple P (h_then m f) Q E"
  unfolding triple_def h_then_def by (fastforce split: prod.splits sum.splits)

lemma triple_weaken:
  "triple P' m Q' E' \<Longrightarrow> (\<And>h. P h \<Longrightarrow> P' h) \<Longrightarrow> (\<And>x h. Q' x h \<Longrightarrow> Q x h) \<Longrightarrow> (\<And>h. E' h \<Longrightarrow> E h) \<Longrightarrow> triple P m Q E"
  unfolding triple_def by (fastforce split: prod.splits sum.splits)

lemma triple_respond: "triple P m (\<lambda>_. E) E \<Longrightarrow> P h \<Longrightarrow> respond m h = (h1, a) \<Longrightarrow> E h1"
  by (auto simp: triple_def respond_def split: prod.splits sum.splits)

lemma triple_return: "(\<And>h. P h \<Longrightarrow> Q x h) \<Longrightarrow> triple P (h_return x) Q E"
  by (simp add: triple_def h_return_def)

lemma triple_fail: "(\<And>h. P h \<Longrightarrow> E h) \<Longrightarrow> triple P (h_fail e st err) Q E"
  by (simp add: triple_def h_fail_def h_answer_def)

lemma triple_answer: "(\<And>h. P h \<Longrightarrow> E h) \<Longrightarrow> triple P (h_answer a) Q E"
  by (simp add: triple_def h_answer_def)

lemma triple_if: "(b \<Longrightarrow> triple P m Q E) \<Longrightarrow> (\<not> b \<Longrightarrow> triple P n Q E) \<Longrightarrow> triple P (if b then m else n) Q E"
  by simp

lemma option_triple:
  "(\<And>x. triple P (f x) Q E) \<Longrightarrow> triple P n Q E \<Longrightarrow> triple P (case y of None \<Rightarrow> n | Some x \<Rightarrow> f x) Q E"
  by (cases y) simp_all

lemma triple_at: "(\<And>x. triple P (f x) Q E) \<Longrightarrow> triple P (\<lambda>h. f (g h) h) Q E"
  by (simp add: triple_def)

text \<open>Steps after which the content and the authorizer are the same.\<close>

definition calm_step :: "api_state \<Rightarrow> api_state \<Rightarrow> bool" where
  "calm_step h h1 \<longleftrightarrow> same_content (w_db (h_world h)) (w_db (h_world h1)) \<and>
     w_bucket (h_world h1) = w_bucket (h_world h) \<and> rt_authorizer (h_authz h1) = rt_authorizer (h_authz h)"

definition calm :: "'a handler \<Rightarrow> bool" where
  "calm m \<longleftrightarrow> (\<forall>h. calm_step h (fst (m h)))"

definition stable :: "(api_state \<Rightarrow> bool) \<Rightarrow> bool" where
  "stable F \<longleftrightarrow> (\<forall>h h1. F h \<longrightarrow> calm_step h h1 \<longrightarrow> F h1)"

named_theorems calm_intros

lemma calm_step_refl [simp]: "calm_step h h"
  by (simp add: calm_step_def)

lemma calm_step_trans: "calm_step h h1 \<Longrightarrow> calm_step h1 h2 \<Longrightarrow> calm_step h h2"
  using same_content_trans by (auto simp: calm_step_def)

lemma calm_triple: "calm m \<Longrightarrow> stable F \<Longrightarrow> triple F m (\<lambda>_. F) F"
  unfolding calm_def stable_def triple_def by (fastforce split: prod.splits sum.splits)

lemma calm_simple [calm_intros]: "calm (h_return x)" "calm (h_answer a)" "calm (h_fail e st err)"
  "calm (writeServiceError e err)" "calm (writeAuthError r)"
  by (simp_all add: calm_def h_return_def h_answer_def h_fail_def writeServiceError_def writeAuthError_def)

lemma calm_then [calm_intros]:
  assumes "calm m" "\<And>x. calm (f x)"
  shows "calm (h_then m f)"
  unfolding calm_def
proof
  fix h
  obtain h1 r where m: "m h = (h1, r)" by fastforce
  then have s: "calm_step h h1" using assms(1) by (metis calm_def fst_conv)
  show "calm_step h (fst (h_then m f h))"
  proof (cases r)
    case (Inr x)
    then show ?thesis using s assms(2) m calm_step_trans by (auto simp: h_then_def calm_def)
  qed (use s m in \<open>simp add: h_then_def\<close>)
qed

lemma calm_if [calm_intros]: "calm m \<Longrightarrow> calm n \<Longrightarrow> calm (if b then m else n)"
  by simp

lemma calm_set_principal [calm_intros]: "calm (set_principal p)"
  by (simp add: calm_def set_principal_def calm_step_def)

lemma calm_limit [calm_intros]: "calm (local_limit e scope limit window)"
  by (simp add: calm_def local_limit_def calm_step_def split: prod.split)

lemma calm_write [calm_intros]:
  assumes "\<And>s. same_content s (fst (f s))"
  shows "calm (h_call (db_write f))"
  unfolding calm_def
proof
  fix h :: api_state
  let ?w = "h_world h"
  have "same_content (w_db ?w) (w_db (fst (db_write f ?w)))"
    by (cases rule: db_call_cases [where f = "\<lambda>c s. case f s of (s1, r) \<Rightarrow> ((c, s1), r)" and w = ?w])
      (use assms [of "w_db ?w"] in \<open>auto simp: db_write_def split: prod.splits\<close>)
  moreover have "w_bucket (fst (db_write f ?w)) = w_bucket ?w" by (simp add: db_write_def)
  ultimately show "calm_step h (fst (h_call (db_write f) h))"
    by (simp add: calm_step_def h_call_def case_prod_unfold)
qed

lemma calm_read [calm_intros]: "calm (h_call (db_read f))"
  by (simp add: calm_def calm_step_def h_call_def case_prod_unfold)

lemma calm_audit [calm_intros]: "calm (audit e p action result reason attrs)"
proof -
  have "calm (h_then (h_call (db_write (\<lambda>s.
      case recordSQLiteAuditEvent v s event of Inl err \<Rightarrow> (s, Inl err) | Inr s1 \<Rightarrow> (s1, Inr ())))) (\<lambda>_. h_return ()))" for v event
    by (intro calm_intros) (auto split: sum.split)
  then show ?thesis unfolding calm_def audit_def by auto
qed

lemma calm_prepare [calm_intros]: "calm (prepareMutationAudit e p action attrs)"
  by (simp add: calm_def prepareMutationAudit_def calm_step_def)

lemma calm_access:
  assumes "\<And>r s. same_content s (snd (fst (f (r, s)))) \<and> rt_authorizer (fst (fst (f (r, s)))) = rt_authorizer r"
  shows "calm (h_access f)"
  using assms unfolding calm_def h_access_def calm_step_def by (auto split: prod.splits) (metis fst_conv snd_conv)+

lemma record_used_content: "same_content s (snd (recordAccessTokenUsed outage now p (r, s)))"
proof -
  have "same_content s t" if "MarkAccessTokenUsed s i now = (t, x)" for t x i
    using content_writes(2) [of s i now] that by simp
  then show ?thesis by (auto simp: recordAccessTokenUsed_def split: prod.splits sum.splits if_splits)
qed

lemma calm_record_token [calm_intros]: "calm (record_token e p)"
  unfolding record_token_def by (rule calm_access) (simp add: record_used_content record_keeps(1))

lemma calm_require_active [calm_intros]: "calm (require_active e p)"
  unfolding require_active_def by (intro calm_intros calm_access) (auto intro!: calm_intros split: option.split)

lemma calm_mark [calm_intros]: "calm (markReleaseUsed e owner name version)"
  "calm (markReleaseConsumerUsed e owner name version)"
proof -
  have forget: "calm (\<lambda>h1. (case r of Inl _ \<Rightarrow> h1\<lparr>h_usage := es_Forget (h_usage h1) key\<rparr> | Inr _ \<Rightarrow> h1, Inr ()))"
    "calm (\<lambda>h1. (case r of Inl _ \<Rightarrow> h1\<lparr>h_consumers := es_Forget (h_consumers h1) key\<rparr> | Inr _ \<Rightarrow> h1, Inr ()))"
    for r :: "service_error + unit" and key
    by (auto simp: calm_def calm_step_def split: sum.split)
  have first: "calm m \<Longrightarrow> calm_step h h0 \<Longrightarrow> calm_step h (fst (m h0))" for m :: "unit handler" and h h0
    using calm_step_trans by (auto simp: calm_def)
  show "calm (markReleaseUsed e owner name version)"
    unfolding calm_def markReleaseUsed_def Let_def
    by (auto split: prod.split intro!: first calm_then calm_write forget) (simp_all add: calm_step_def)
  show "calm (markReleaseConsumerUsed e owner name version)"
    unfolding calm_def markReleaseConsumerUsed_def Let_def
    by (auto split: prod.split option.split intro!: first calm_then calm_write forget) (simp_all add: calm_step_def)
qed

section \<open>The guards\<close>

definition unchanged :: "api_state \<Rightarrow> api_state \<Rightarrow> bool" where
  "unchanged h0 h \<longleftrightarrow> same_content (w_db (h_world h0)) (w_db (h_world h)) \<and> w_bucket (h_world h) = w_bucket (h_world h0)"

text \<open>
  The token of the request belongs to \<open>p\<close> in the snapshot the request was checked against, and when
  it is a stored token the store holds it unrevoked and unexpired.
\<close>

definition token_granted :: "api_request \<Rightarrow> db \<Rightarrow> api_state \<Rightarrow> principal \<Rightarrow> bool" where
  "token_granted e s h p \<longleftrightarrow>
     (\<exists>a. rt_authorizer (h_authz h) = Some a \<and> AuthenticateRequest (Some a) (hx_header e ''Authorization'') = Some p) \<and>
     (p_TokenID p \<noteq> [] \<longrightarrow> \<not> hx_outage e \<and> token_active s (p_TokenID p) (hx_now e))"

lemma unchanged_refl [simp]: "unchanged h h"
  by (simp add: unchanged_def)

lemma stable_unchanged [simp]: "stable (unchanged h0)"
  using same_content_trans by (auto simp: stable_def unchanged_def calm_step_def)

lemma stable_granted [simp]: "stable (\<lambda>h. token_granted e s h p)"
  by (simp add: stable_def token_granted_def calm_step_def)

lemma stable_conj: "stable F \<Longrightarrow> stable G \<Longrightarrow> stable (\<lambda>h. F h \<and> G h)"
  by (simp add: stable_def) blast

lemma stable_const: "stable (\<lambda>_. b)"
  by (simp add: stable_def)

lemma triple_authorizer:
  "triple (unchanged h0) (require_authorizer e)
     (\<lambda>a h. unchanged h0 h \<and> rt_authorizer (h_authz h) = Some a) (unchanged h0)"
  unfolding require_authorizer_def
proof (rule triple_then)
  let ?f = "\<lambda>(r, s). case currentAuthorizer (ne_lower (hx_net e)) (hx_busy e) s (hx_outage e) (hx_now e) r of
      (r1, x) \<Rightarrow> ((r1, s), x)"
  show "triple (unchanged h0) (h_access ?f)
      (\<lambda>x h. unchanged h0 h \<and> (\<forall>y. x = Inr y \<longrightarrow> rt_authorizer (h_authz h) = y)) (unchanged h0)"
    by (auto simp: triple_def h_access_def unchanged_def currentAuthorizer_def Let_def split: prod.splits if_splits)
  fix x :: "string + authorizer option"
  show "triple (\<lambda>h. unchanged h0 h \<and> (\<forall>y. x = Inr y \<longrightarrow> rt_authorizer (h_authz h) = y))
      (case x of Inl err \<Rightarrow> h_fail e 503 (Plain err)
       | Inr None \<Rightarrow> h_fail e 503 (Plain ''authorizer is not configured'')
       | Inr (Some a) \<Rightarrow> h_return a)
      (\<lambda>a h. unchanged h0 h \<and> rt_authorizer (h_authz h) = Some a) (unchanged h0)"
    by (auto intro!: triple_fail triple_return split: sum.split option.split)
qed

lemma triple_authenticated:
  assumes "\<And>p. g = Inr p \<Longrightarrow> AuthenticateRequest (Some a) (hx_header e ''Authorization'') = Some p \<and> R p"
  shows "triple (\<lambda>h. unchanged h0 h \<and> rt_authorizer (h_authz h) = Some a) (authenticated e a g)
    (\<lambda>p h. unchanged h0 h \<and> rt_authorizer (h_authz h) = Some a \<and>
       AuthenticateRequest (Some a) (hx_header e ''Authorization'') = Some p \<and> R p) (unchanged h0)"
  unfolding authenticated_def
proof (rule triple_then)
  let ?P = "\<lambda>h. unchanged h0 h \<and> rt_authorizer (h_authz h) = Some a"
  show "triple ?P (set_principal (AuthenticateRequest (Some a) (hx_header e ''Authorization''))) (\<lambda>_. ?P) (unchanged h0)"
    by (simp add: triple_def set_principal_def unchanged_def)
  show "triple ?P (case g of Inl rejection \<Rightarrow> writeAuthError rejection | Inr p \<Rightarrow> h_return p)
      (\<lambda>p h. unchanged h0 h \<and> rt_authorizer (h_authz h) = Some a \<and>
        AuthenticateRequest (Some a) (hx_header e ''Authorization'') = Some p \<and> R p) (unchanged h0)" for x :: unit
    using assms by (auto simp: writeAuthError_def intro!: triple_answer triple_return split: sum.split)
qed

lemma triple_active:
  "triple (\<lambda>h. unchanged h0 h \<and> rt_authorizer (h_authz h) = Some a \<and>
      AuthenticateRequest (Some a) (hx_header e ''Authorization'') = Some p \<and> R)
    (require_active e p) (\<lambda>_ h. unchanged h0 h \<and> token_granted e (w_db (h_world h0)) h p \<and> R) (unchanged h0)"
  unfolding require_active_def
proof (rule triple_then)
  let ?P = "\<lambda>h. unchanged h0 h \<and> rt_authorizer (h_authz h) = Some a \<and>
      AuthenticateRequest (Some a) (hx_header e ''Authorization'') = Some p \<and> R"
  show "triple ?P (h_access (\<lambda>(r, s). ((r, s), requireActiveAccessToken s (hx_outage e) (hx_now e) p)))
      (\<lambda>x h. ?P h \<and> x = requireActiveAccessToken (w_db (h_world h)) (hx_outage e) (hx_now e) p) (unchanged h0)"
    by (simp add: triple_def h_access_def unchanged_def)
  fix x
  have "token_granted e (w_db (h_world h0)) h p"
    if "?P h" "requireActiveAccessToken (w_db (h_world h)) (hx_outage e) (hx_now e) p = None" for h
    using that requireActive_None [OF that(2)] same_content_tokens
    by (auto simp: token_granted_def unchanged_def IsAccessTokenActive_def token_active_def split: if_splits)
  then show "triple (\<lambda>h. ?P h \<and> x = requireActiveAccessToken (w_db (h_world h)) (hx_outage e) (hx_now e) p)
      (case x of None \<Rightarrow> h_return () | Some (status, message) \<Rightarrow> h_fail e (int status) (Plain message))
      (\<lambda>_ h. unchanged h0 h \<and> token_granted e (w_db (h_world h0)) h p \<and> R) (unchanged h0)"
    by (auto intro!: triple_fail triple_return split: option.split)
qed

lemma triple_calm:
  assumes "calm m" "stable F"
  shows "triple (\<lambda>h. unchanged h0 h \<and> F h) m (\<lambda>_ h. unchanged h0 h \<and> F h) (unchanged h0)"
  by (rule triple_weaken [OF calm_triple [OF assms(1) stable_conj [OF stable_unchanged assms(2)]]]) auto

lemma triple_delete_access:
  "triple (unchanged h0) (requireDeleteAccess e owner)
     (\<lambda>p h. unchanged h0 h \<and> token_granted e (w_db (h_world h0)) h p \<and> (p_CanAdmin p \<or> CanDeleteOwner p owner)) (unchanged h0)"
  unfolding requireDeleteAccess_def
proof (intro triple_then)
  show "triple (unchanged h0) (require_authorizer e)
      (\<lambda>a h. unchanged h0 h \<and> rt_authorizer (h_authz h) = Some a) (unchanged h0)"
    by (rule triple_authorizer)
  fix a
  show "triple (\<lambda>h. unchanged h0 h \<and> rt_authorizer (h_authz h) = Some a)
      (authenticated e a (RequireDelete (Some a) (hx_header e ''Authorization'') owner))
      (\<lambda>p h. unchanged h0 h \<and> rt_authorizer (h_authz h) = Some a \<and>
        AuthenticateRequest (Some a) (hx_header e ''Authorization'') = Some p \<and> (p_CanAdmin p \<or> CanDeleteOwner p owner))
      (unchanged h0)"
    by (rule triple_authenticated) (auto simp: RequireDelete_def split: if_splits option.splits)
  fix p
  let ?R = "p_CanAdmin p \<or> CanDeleteOwner p owner"
  show "triple (\<lambda>h. unchanged h0 h \<and> rt_authorizer (h_authz h) = Some a \<and>
        AuthenticateRequest (Some a) (hx_header e ''Authorization'') = Some p \<and> ?R)
      (require_active e p) (\<lambda>_ h. unchanged h0 h \<and> token_granted e (w_db (h_world h0)) h p \<and> ?R) (unchanged h0)"
    by (rule triple_active)
  show "triple (\<lambda>h. unchanged h0 h \<and> token_granted e (w_db (h_world h0)) h p \<and> ?R) (record_token e p)
      (\<lambda>_ h. unchanged h0 h \<and> token_granted e (w_db (h_world h0)) h p \<and> ?R) (unchanged h0)"
    by (rule triple_calm) (intro calm_intros stable_conj stable_granted stable_const)+
  show "triple (\<lambda>h. unchanged h0 h \<and> token_granted e (w_db (h_world h0)) h p \<and> ?R) (h_return p)
      (\<lambda>p h. unchanged h0 h \<and> token_granted e (w_db (h_world h0)) h p \<and> (p_CanAdmin p \<or> CanDeleteOwner p owner)) (unchanged h0)"
    by (rule triple_return)
qed

lemma triple_requireRead: "triple (unchanged h0) (requireRead e) (\<lambda>_. unchanged h0) (unchanged h0)"
  unfolding requireRead_def
proof (rule triple_then)
  have r: "same_content s (snd (fst (requireReadAccess lower busy outage now hdr (r0, s))))" for lower busy outage now hdr r0 s
    using record_used_content
    by (auto simp: requireReadAccess_def attachOptionalReadPrincipal_def split: prod.splits sum.splits option.splits)
  show "triple (unchanged h0) (h_access (requireReadAccess (ne_lower (hx_net e)) (hx_busy e) (hx_outage e) (hx_now e)
      (hx_header e ''Authorization''))) (\<lambda>_. unchanged h0) (unchanged h0)"
    unfolding triple_def h_access_def case_prod_unfold
    by (simp add: unchanged_def same_content_trans [OF _ r])
  show "triple (unchanged h0) (case x of
       Inl rejection \<Rightarrow>
         if snd rejection \<in> {''access control is not configured'', ''read access token required''}
         then writeAuthError rejection
         else h_fail e (int (fst rejection)) (Plain (snd rejection))
     | Inr p \<Rightarrow> set_principal p) (\<lambda>_. unchanged h0) (unchanged h0)" for x
    by (rule calm_triple) (auto intro!: calm_intros split: sum.split)
qed

section \<open>The mutations\<close>

text \<open>What a space may change does not depend on the rest of the database.\<close>

lemma only_space_content:
  assumes "same_content s s'" "same_content t t'"
  shows "only_space g owner (s, bk) (t, bk') = only_space g owner (s', bk) (t', bk')"
  using assms same_content_catalog [OF assms(1)] same_content_catalog [OF assms(2)]
  by (simp add: only_space_def db_frame_def owner_paths_def same_content_def)

lemma normalize_state:
  "w_db (fst (normalizePublishInput g input w)) = w_db w \<and> w_bucket (fst (normalizePublishInput g input w)) = w_bucket w"
proof -
  let ?I = "\<lambda>w' :: world. w_db w' = w_db w \<and> w_bucket w' = w_bucket w"
  have "keeps ?I io_call" by (rule keeps_io) simp
  then have "keeps ?I (normalizePublishInput g input)"
    unfolding normalizePublishInput_def Let_def
    by (auto split: option.split sum.split intro!: keeps_then keeps_simple keeps_lift_any)
  then show ?thesis by (rule keepsD) simp
qed

text \<open>Nothing happens, or an authorized space changes.\<close>

lemma publish_authorized_scope:
  fixes q :: request and input :: publish_input
  assumes g: "service_ok g" and auth: "\<And>space. authorize space = None \<Longrightarrow> ok space"
    and inv: "db_inv (g_sv g) (w_db w)"
  defines "w2 \<equiv> fst (PublishAuthorized g q input authorize w)"
  shows "(w_db w2 = w_db w \<and> w_bucket w2 = w_bucket w) \<or>
    (\<exists>owner. ok owner \<and> only_space g owner (w_db w, w_bucket w) (w_db w2, w_bucket w2))"
proof -
  let ?n = "normalizePublishInput g input" and ?w1 = "fst (normalizePublishInput g input w)"
  note n = normalize_state [of g input w]
  have all: "PublishAuthorized g q input authorize w = svc_then ?n (\<lambda>i. publish_checked g q i (Some authorize)) w"
    by (simp add: PublishAuthorized_def publish_def)
  show ?thesis
  proof (cases "snd (?n w)")
    case (Inl err)
    then show ?thesis using n unfolding w2_def all by (simp add: fst_svc_then)
  next
    case (Inr i)
    then have result: "w2 = fst (publish_checked g q i (Some authorize) ?w1)"
      unfolding w2_def all by (simp add: fst_svc_then)
    show ?thesis
    proof (cases "authorize (pi_Owner i)")
      case (Some err)
      then have "fst (publish_checked g q i (Some authorize) ?w1) = ?w1"
        by (auto simp: publish_checked_def Let_def split: option.split)
      then show ?thesis using n result by simp
    next
      case None
      have "in_space g (pi_Owner i) (w_db w, w_bucket w) ?w1" using n inv by (simp add: in_space_def)
      from keepsD [OF checked_in_space [OF g normalized_version [OF Inr]] this]
      have "only_space g (pi_Owner i) (w_db w, w_bucket w) (w_db w2, w_bucket w2)" unfolding result by (simp add: in_space_def)
      with auth [OF None] show ?thesis by blast
    qed
  qed
qed

section \<open>Changes are authorized\<close>

definition permitted :: "api_request \<Rightarrow> principal \<Rightarrow> string \<Rightarrow> bool" where
  "permitted e p owner \<longleftrightarrow>
     (rq_Method (hx_http e) = ''DELETE'' \<and> (p_CanAdmin p \<or> CanDeleteOwner p owner)) \<or>
     (rq_Method (hx_http e) = ''POST'' \<and> CanPublishOwner p owner \<and>
        publish_source_allowed (hx_net e) (hx_boundary e) (hx_http e))"

definition authorized_result :: "api_request \<Rightarrow> api_state \<Rightarrow> api_state \<Rightarrow> bool" where
  "authorized_result e h0 h \<longleftrightarrow> unchanged h0 h \<or>
     (\<exists>p owner. token_granted e (w_db (h_world h0)) h p \<and> permitted e p owner \<and>
        only_space (hx_service e) owner (w_db (h_world h0), w_bucket (h_world h0)) (w_db (h_world h), w_bucket (h_world h)))"

lemma stable_authorized [simp]: "stable (authorized_result e h0)"
  unfolding stable_def
proof (intro allI impI)
  fix h h1
  assume h: "authorized_result e h0 h" "calm_step h h1"
  have "only_space g owner sb (w_db (h_world h1), w_bucket (h_world h1)) = only_space g owner sb (w_db (h_world h), w_bucket (h_world h))"
    for g owner sb
    using only_space_content [OF same_content_refl, of "w_db (h_world h)" "w_db (h_world h1)" g owner "fst sb" "snd sb"] h(2)
    by (simp add: calm_step_def)
  moreover have "token_granted e s h p \<Longrightarrow> token_granted e s h1 p" for s p
    using h(2) by (simp add: token_granted_def calm_step_def)
  moreover have "unchanged h0 h \<Longrightarrow> unchanged h0 h1"
    using stable_unchanged [of h0] h(2) by (auto simp: stable_def)
  ultimately show "authorized_result e h0 h1" using h(1) unfolding authorized_result_def by metis
qed

lemma authorized_unchanged: "unchanged h0 h \<Longrightarrow> authorized_result e h0 h"
  by (simp add: authorized_result_def)

lemma triple_quiet:
  "calm m \<Longrightarrow> triple (unchanged h0) m (\<lambda>_. authorized_result e h0) (authorized_result e h0)"
  by (rule triple_weaken [OF calm_triple [OF _ stable_unchanged]]) (auto intro: authorized_unchanged)

lemma triple_quiet_at:
  "calm m \<Longrightarrow> triple (\<lambda>h. unchanged h0 h \<and> F h) m (\<lambda>_. authorized_result e h0) (authorized_result e h0)"
  by (rule triple_weaken [OF triple_quiet]) auto

lemma triple_stay: "triple P m Q (unchanged h0) \<Longrightarrow> triple P m Q (authorized_result e h0)"
  by (erule triple_weaken) (auto intro: authorized_unchanged)

lemma triple_settled:
  "calm m \<Longrightarrow> triple (authorized_result e h0) m (\<lambda>_. authorized_result e h0) (authorized_result e h0)"
  by (rule calm_triple) simp_all

lemma triple_delete_call:
  assumes "db_inv (g_sv (hx_service e)) (w_db (h_world h0))" "deletes_of (hx_service e) owner m" "permitted e p owner"
  shows "triple (\<lambda>h. unchanged h0 h \<and> token_granted e (w_db (h_world h0)) h p) (h_call m)
    (\<lambda>_. authorized_result e h0) (authorized_result e h0)"
  unfolding triple_def
proof (intro allI impI)
  fix h
  assume h: "unchanged h0 h \<and> token_granted e (w_db (h_world h0)) h p"
  let ?w = "h_world h" and ?s = "w_db (h_world h0)" and ?b = "w_bucket (h_world h0)"
  let ?space = "\<lambda>sb. only_space (hx_service e) owner sb (w_db (fst (m ?w)), w_bucket (fst (m ?w)))"
  have same: "same_content ?s (w_db ?w)" "w_bucket ?w = ?b" using h by (simp_all add: unchanged_def)
  have "db_inv (g_sv (hx_service e)) (w_db ?w)" using assms(1) same_content_inv [OF same(1)] by simp
  then have "?space (w_db ?w, w_bucket ?w)" using assms(2) unfolding deletes_of_def by blast
  then have "?space (w_db ?w, ?b)" by (simp only: same(2))
  then have "?space (?s, ?b)" using only_space_content [OF same(1) same_content_refl] by blast
  moreover have "token_granted e ?s (h\<lparr>h_world := fst (m ?w)\<rparr>) p" using h by (simp add: token_granted_def)
  ultimately have "authorized_result e h0 (h\<lparr>h_world := fst (m ?w)\<rparr>)"
    using assms(3) by (auto simp: authorized_result_def)
  then show "case h_call m h of (h1, Inl _) \<Rightarrow> authorized_result e h0 h1 | (h1, Inr x) \<Rightarrow> authorized_result e h0 h1"
    by (simp add: h_call_def case_prod_unfold)
qed

lemma triple_delete_audited:
  assumes "db_inv (g_sv (hx_service e)) (w_db (h_world h0))" "deletes_of (hx_service e) owner m" "permitted e p owner"
  shows "triple (\<lambda>h. unchanged h0 h \<and> token_granted e (w_db (h_world h0)) h p)
    (delete_audited e p owner name version force justification m)
    (\<lambda>_. authorized_result e h0) (authorized_result e h0)"
  unfolding delete_audited_def Let_def
proof (rule triple_then)
  let ?P = "\<lambda>h. unchanged h0 h \<and> token_granted e (w_db (h_world h0)) h p"
  have calm: "calm (prepareDeleteMutationAudit e p owner name version justification force)"
    unfolding prepareDeleteMutationAudit_def by (intro calm_intros)
  show "triple ?P (prepareDeleteMutationAudit e p owner name version justification force) (\<lambda>_. ?P) (authorized_result e h0)"
    by (rule triple_weaken [OF triple_calm [OF calm stable_granted]]) (auto intro: authorized_unchanged)
  fix action :: string
  let ?attrs = "[(''space'', owner), (''module'', owner @ ''/'' @ name)] @
      (if version = [] then [] else [(''release'', version)]) @ [(''justification'', justification)]"
  show "triple ?P (h_try m
      (\<lambda>err. h_then (audit e p action ''failure'' (auditReason e (Service err)) ?attrs) (\<lambda>_. writeDeleteErrorResponse e err))
      (\<lambda>_. h_then (audit e p action ''success'' ''none'' ?attrs) (\<lambda>_.
         h_document 200 (JObject ([(''status'', JString ''deleted''), (''owner'', JString owner), (''name'', JString name)] @
           (if version = [] then [] else [(''version'', JString version)]))))))
      (\<lambda>_. authorized_result e h0) (authorized_result e h0)"
    unfolding h_try_def
    by (rule triple_then [OF triple_delete_call [OF assms]], rule triple_settled)
      (auto simp: writeDeleteErrorResponse_def h_document_def intro!: calm_intros split: sum.split)
qed

lemma triple_deletes:
  assumes inv: "db_inv (g_sv (hx_service e)) (w_db (h_world h0))" and del: "rq_Method (hx_http e) = ''DELETE''"
  shows "triple (unchanged h0) (deleteModule e owner name) (\<lambda>_. authorized_result e h0) (authorized_result e h0)"
    and "triple (unchanged h0) (deleteRelease e owner name version) (\<lambda>_. authorized_result e h0) (authorized_result e h0)"
proof -
  let ?P = "\<lambda>p h. unchanged h0 h \<and> token_granted e (w_db (h_world h0)) h p \<and> (p_CanAdmin p \<or> CanDeleteOwner p owner)"
  have guard: "triple (unchanged h0) (requireDeleteAccess e owner) ?P (authorized_result e h0)"
    by (rule triple_weaken [OF triple_delete_access]) (auto intro: authorized_unchanged)
  have refuse: "calm m \<Longrightarrow> triple (?P p) m (\<lambda>_. authorized_result e h0) (authorized_result e h0)"
    for p and m :: "api_answer handler"
    by (rule triple_weaken [OF triple_quiet]) auto
  have do: "triple (?P p) (delete_audited e p owner name v force justification m)
      (\<lambda>_. authorized_result e h0) (authorized_result e h0)"
    if "deletes_of (hx_service e) owner m" for p v force justification m
  proof (cases "p_CanAdmin p \<or> CanDeleteOwner p owner")
    case True
    then have "permitted e p owner" using del by (simp add: permitted_def)
    from triple_delete_audited [OF inv that this] show ?thesis by (rule triple_weaken) auto
  qed (simp add: triple_def)
  show "triple (unchanged h0) (deleteModule e owner name) (\<lambda>_. authorized_result e h0) (authorized_result e h0)"
    unfolding deleteModule_def Let_def
    by (rule triple_then [OF guard], unfold case_prod_unfold, rule option_triple)
      ((rule triple_if | rule do | rule deletes_if | rule delete_operations | rule refuse | rule calm_intros)+)
  show "triple (unchanged h0) (deleteRelease e owner name version) (\<lambda>_. authorized_result e h0) (authorized_result e h0)"
    unfolding deleteRelease_def Let_def
    by (rule triple_then [OF guard], unfold case_prod_unfold, rule option_triple)
      ((rule triple_if | rule do | rule deletes_if | rule delete_operations | rule refuse | rule calm_intros)+)
qed

lemma Enabled_Publish:
  "RequirePublishAny (Some a) hdr = Inr p \<Longrightarrow> AuthenticateRequest (Some a) hdr = Some p \<and> Enabled (Some a)"
  by (auto simp: RequirePublishAny_def split: if_splits option.splits)

lemma triple_publish_call:
  assumes inv: "db_inv (g_sv (hx_service e)) (w_db (h_world h0))" and g: "service_ok (hx_service e)"
    and post: "rq_Method (hx_http e) = ''POST''" "publish_source_allowed (hx_net e) (hx_boundary e) (hx_http e)"
    and enabled: "Enabled (Some a)"
  shows "triple (\<lambda>h. unchanged h0 h \<and> token_granted e (w_db (h_world h0)) h p)
    (h_call (PublishAuthorized (hx_service e) q input (authorize_space a p)))
    (\<lambda>_. authorized_result e h0) (authorized_result e h0)"
  unfolding triple_def
proof (intro allI impI)
  fix h
  assume h: "unchanged h0 h \<and> token_granted e (w_db (h_world h0)) h p"
  let ?w = "h_world h" and ?s = "w_db (h_world h0)" and ?b = "w_bucket (h_world h0)"
  let ?m = "PublishAuthorized (hx_service e) q input (authorize_space a p)"
  have same: "same_content ?s (w_db ?w)" "w_bucket ?w = ?b" using h by (simp_all add: unchanged_def)
  have inv': "db_inv (g_sv (hx_service e)) (w_db ?w)" using inv same_content_inv [OF same(1)] by blast
  let ?h1 = "h\<lparr>h_world := fst (?m ?w)\<rparr>"
  let ?space = "\<lambda>owner sb. only_space (hx_service e) owner sb (w_db (fst (?m ?w)), w_bucket (fst (?m ?w)))"
  have "(w_db (fst (?m ?w)) = w_db ?w \<and> w_bucket (fst (?m ?w)) = w_bucket ?w) \<or>
      (\<exists>owner. CanPublishOwner p owner \<and> ?space owner (w_db ?w, w_bucket ?w))"
    by (rule publish_authorized_scope [OF g _ inv']) (use enabled in \<open>auto simp: authorize_space_def split: if_splits\<close>)
  then have "authorized_result e h0 ?h1"
  proof
    assume "w_db (fst (?m ?w)) = w_db ?w \<and> w_bucket (fst (?m ?w)) = w_bucket ?w"
    then show ?thesis using h by (simp add: authorized_result_def unchanged_def)
  next
    assume "\<exists>owner. CanPublishOwner p owner \<and> ?space owner (w_db ?w, w_bucket ?w)"
    then obtain owner where o: "CanPublishOwner p owner" "?space owner (w_db ?w, ?b)" unfolding same(2) by blast
    have "?space owner (?s, ?b)" using o(2) only_space_content [OF same(1) same_content_refl] by blast
    moreover have "token_granted e ?s ?h1 p" using h by (simp add: token_granted_def)
    moreover have "permitted e p owner" using o(1) post by (simp add: permitted_def)
    ultimately show ?thesis unfolding authorized_result_def by auto
  qed
  then show "case h_call ?m h of (h1, Inl _) \<Rightarrow> authorized_result e h0 h1 | (h1, Inr x) \<Rightarrow> authorized_result e h0 h1"
    by (simp add: h_call_def case_prod_unfold)
qed

lemma triple_input:
  assumes inv: "db_inv (g_sv (hx_service e)) (w_db (h_world h0))" and g: "service_ok (hx_service e)"
    and post: "rq_Method (hx_http e) = ''POST''" "publish_source_allowed (hx_net e) (hx_boundary e) (hx_http e)"
    and enabled: "Enabled (Some a)"
  shows "triple (\<lambda>h. unchanged h0 h \<and> token_granted e (w_db (h_world h0)) h p) (publish_input_of e a p input)
    (\<lambda>_. authorized_result e h0) (authorized_result e h0)"
  unfolding publish_input_of_def Let_def
proof (rule triple_then)
  let ?P = "\<lambda>h. unchanged h0 h \<and> token_granted e (w_db (h_world h0)) h p"
  show "triple ?P (prepareMutationAudit e p ''publish_module'' []) (\<lambda>_. ?P) (authorized_result e h0)"
    by (rule triple_weaken [OF calm_triple [OF calm_prepare stable_conj [OF stable_unchanged stable_granted]]])
      (auto intro: authorized_unchanged)
  let ?m = "\<lambda>space. h_try (PublishAuthorized (hx_service e) (hx_request e) input (authorize_space a p))
      (\<lambda>err. if err = publish_forbidden
        then h_then (audit e p ''publish_module'' ''failure'' ''forbidden'' [(''space'', space)])
          (\<lambda>_. h_fail e 403 (Service err))
        else h_then (audit e p ''publish_module'' ''failure'' (auditReason e (Service err)) [(''space'', space)])
          (\<lambda>_. writeServiceError e (Service err)))
      (\<lambda>r. h_then (audit e p ''publish_module'' ''success'' ''none''
          [(''space'', r_Owner r), (''module'', r_Owner r @ ''/'' @ r_Name r), (''release'', r_Version r),
           (''sha256'', r_SHA256 r)]) (\<lambda>_. h_document 201 (release_json e r)))"
  have "triple ?P (?m space) (\<lambda>_. authorized_result e h0) (authorized_result e h0)" for space
    unfolding h_try_def
    by (rule triple_then [OF triple_publish_call [OF inv g post enabled]], rule triple_settled)
      (auto simp: h_document_def intro!: calm_intros split: sum.split)
  then show "triple ?P (\<lambda>h. ?m (requested_space (hx_service e) input (h_world h)) h)
      (\<lambda>_. authorized_result e h0) (authorized_result e h0)"
    by (rule triple_at)
qed

text \<open>A refusal of the guards is audited; nothing else happens.\<close>

lemma triple_or_audit:
  assumes "triple P m Q E" "stable E"
  shows "triple P (or_audit e m) Q E"
  unfolding triple_def
proof (intro allI impI)
  fix h
  assume "P h"
  then have m: "case m h of (h1, Inl _) \<Rightarrow> E h1 | (h1, Inr x) \<Rightarrow> Q x h1" using assms(1) by (simp add: triple_def)
  have "E h1 \<Longrightarrow> E (fst (audit e no_principal ''publish_module'' ''failure'' ''unauthorized'' [] h1))" for h1
    using assms(2) calm_audit by (auto simp: stable_def calm_def)
  with m show "case or_audit e m h of (h1, Inl _) \<Rightarrow> E h1 | (h1, Inr x) \<Rightarrow> Q x h1"
    unfolding or_audit_def by (auto split: prod.splits sum.splits)
qed

lemma triple_publish_access:
  "triple (\<lambda>h. unchanged h0 h \<and> rt_authorizer (h_authz h) = Some a)
     (publish_access e a)
     (\<lambda>p h. unchanged h0 h \<and> token_granted e (w_db (h_world h0)) h p \<and> Enabled (Some a)) (unchanged h0)"
  unfolding publish_access_def
proof (rule triple_or_audit [OF _ stable_unchanged], intro triple_then)
  show "triple (\<lambda>h. unchanged h0 h \<and> rt_authorizer (h_authz h) = Some a)
      (authenticated e a (RequirePublishAny (Some a) (hx_header e ''Authorization'')))
      (\<lambda>p h. unchanged h0 h \<and> rt_authorizer (h_authz h) = Some a \<and>
        AuthenticateRequest (Some a) (hx_header e ''Authorization'') = Some p \<and> Enabled (Some a)) (unchanged h0)"
    by (rule triple_authenticated) (rule Enabled_Publish)
  fix p
  show "triple (\<lambda>h. unchanged h0 h \<and> rt_authorizer (h_authz h) = Some a \<and>
        AuthenticateRequest (Some a) (hx_header e ''Authorization'') = Some p \<and> Enabled (Some a))
      (require_active e p)
      (\<lambda>_ h. unchanged h0 h \<and> token_granted e (w_db (h_world h0)) h p \<and> Enabled (Some a)) (unchanged h0)"
    by (rule triple_active)
  show "triple (\<lambda>h. unchanged h0 h \<and> token_granted e (w_db (h_world h0)) h p \<and> Enabled (Some a)) (h_return p)
      (\<lambda>p h. unchanged h0 h \<and> token_granted e (w_db (h_world h0)) h p \<and> Enabled (Some a)) (unchanged h0)"
    by (rule triple_return)
qed

lemma triple_publish_source:
  "triple (\<lambda>h. unchanged h0 h \<and> token_granted e s h p \<and> R) (requirePublishSource e p)
     (\<lambda>_ h. unchanged h0 h \<and> token_granted e s h p \<and> R \<and>
        publish_source_allowed (hx_net e) (hx_boundary e) (hx_http e)) (unchanged h0)"
proof (cases "publish_source_allowed (hx_net e) (hx_boundary e) (hx_http e)")
  case True
  then show ?thesis unfolding requirePublishSource_def by (auto intro!: triple_return)
next
  case False
  have "calm (requirePublishSource e p)" unfolding requirePublishSource_def by (intro calm_intros)
  moreover have "\<exists>a. snd (requirePublishSource e p h) = Inl a" for h
    using False by (auto simp: requirePublishSource_def h_then_def h_fail_def h_answer_def split: prod.split sum.split)
  ultimately show ?thesis
    using stable_unchanged [of h0] unfolding triple_def stable_def calm_def
    by (metis (no_types, lifting) case_prod_conv fst_conv old.sum.simps(5) snd_conv surj_pair)
qed

lemma triple_guarded:
  assumes inv: "db_inv (g_sv (hx_service e)) (w_db (h_world h0))" and g: "service_ok (hx_service e)"
    and post: "rq_Method (hx_http e) = ''POST''"
  shows "triple (unchanged h0) (publish_guarded readInput e) (\<lambda>_. authorized_result e h0) (authorized_result e h0)"
  unfolding publish_guarded_def
proof (rule triple_then [OF triple_stay [OF triple_authorizer]],
    rule triple_then [OF triple_stay [OF triple_publish_access]],
    rule triple_then [OF triple_stay], rule triple_calm [OF calm_record_token],
    (rule stable_conj stable_granted stable_const)+, rule triple_then [OF triple_stay [OF triple_publish_source]])
  fix a p x y
  show "triple (\<lambda>h. unchanged h0 h \<and> token_granted e (w_db (h_world h0)) h p \<and> Enabled (Some a) \<and>
        publish_source_allowed (hx_net e) (hx_boundary e) (hx_http e))
      (publish_body readInput e a p) (\<lambda>_. authorized_result e h0) (authorized_result e h0)"
  proof (cases "Enabled (Some a) \<and> publish_source_allowed (hx_net e) (hx_boundary e) (hx_http e)")
    case True
    have "triple (\<lambda>h. unchanged h0 h \<and> token_granted e (w_db (h_world h0)) h p) (publish_body readInput e a p)
        (\<lambda>_. authorized_result e h0) (authorized_result e h0)"
    proof (cases "readInput e")
      case (Inr input)
      then show ?thesis using triple_input [OF inv g post, of a p input] True by (simp add: publish_body_def)
    qed (auto simp: publish_body_def Let_def intro!: triple_quiet_at calm_intros)
    then show ?thesis by (rule triple_weaken) auto
  qed (auto simp: triple_def)
qed

lemma triple_publish:
  assumes "db_inv (g_sv (hx_service e)) (w_db (h_world h0))" "service_ok (hx_service e)"
    "rq_Method (hx_http e) = ''POST''"
  shows "triple (unchanged h0) (publishModuleWithReader readInput e) (\<lambda>_. authorized_result e h0) (authorized_result e h0)"
  unfolding publishModuleWithReader_def
proof (rule triple_then [where R = "\<lambda>_. unchanged h0"])
  show "triple (unchanged h0) (allowSharedRateLimit e ''publish'' 60 minute) (\<lambda>_. unchanged h0) (authorized_result e h0)"
    unfolding allowSharedRateLimit_def by (rule triple_stay, rule calm_triple [OF calm_write stable_unchanged]) simp
qed (auto split: sum.split bool.split intro!: triple_quiet calm_intros triple_guarded [OF assms])

section \<open>Routes\<close>

lemma triple_proxy:
  assumes "rq_Method (hx_http e) \<notin> {''GET'', ''HEAD''}"
  shows "triple (unchanged h0) (serve_proxy e pu) (\<lambda>_. authorized_result e h0) (authorized_result e h0)"
  using assms by (auto simp: triple_def serve_proxy_def proxy_handle_def unchanged_def authorized_result_def split: prod.splits)

lemma triple_v3:
  assumes m: "rq_Method (hx_http e) \<notin> {''GET'', ''HEAD''}"
  shows "triple (unchanged h0) (v3_route e) (\<lambda>_. authorized_result e h0) (authorized_result e h0)"
  unfolding v3_route_def v3Handler_def
proof (rule triple_then [OF triple_stay [OF triple_requireRead]],
    rule triple_then [OF triple_stay [OF calm_triple [OF _ stable_unchanged]]])
  show "calm (rateLimited e ''v3-read'' 1200 minute ''too many requests'')"
    unfolding rateLimited_def by (intro calm_intros)
  have local: "calm (serveLocalV3Response e)"
    using m unfolding serveLocalV3Response_def Let_def method_not_allowed_def
    by (auto split: list.split intro!: calm_intros)
  fix x y :: unit
  show "triple (unchanged h0) (h_then (serveLocalV3Response e) (\<lambda>local. case local of
       Some a \<Rightarrow> h_return a
     | None \<Rightarrow> (case hx_proxy e of
           None \<Rightarrow> h_fail e 404 (Plain ''route not found'')
         | Some pu \<Rightarrow> serve_proxy e pu))) (\<lambda>_. authorized_result e h0) (authorized_result e h0)"
    by (rule triple_then [OF triple_stay [OF calm_triple [OF local stable_unchanged]]])
      (auto split: option.split intro!: triple_proxy [OF m] triple_quiet calm_intros)
qed

lemma triple_route:
  assumes inv: "db_inv (g_sv (hx_service e)) (w_db (h_world h0))" "service_ok (hx_service e)"
    and m: "rq_Method (hx_http e) \<notin> {''GET'', ''HEAD''}"
  shows "triple (unchanged h0) (api_route e) (\<lambda>_. authorized_result e h0) (authorized_result e h0)"
proof -
  have item: "triple (unchanged h0) (moduleItem e) (\<lambda>_. authorized_result e h0) (authorized_result e h0)"
    using m unfolding moduleItem_def Let_def
    by (auto split: list.split intro!: triple_deletes [OF inv(1)] triple_quiet [OF calm_simple(3)])
  show ?thesis
    using m unfolding api_route_def Let_def modulesCollection_def publishModule_def publishV3Release_def publishSpaces_def
    by (auto intro!: item triple_v3 [OF m] triple_publish [OF inv] triple_quiet [OF calm_simple(3)])
qed

section \<open>An example API\<close>

text \<open>
  A store with the team \<open>ops\<close>, whose publish token \<open>secret\<close> may publish to the space \<open>acme\<close>, and a
  request with that token.
\<close>

definition example_token :: token_row where
  "example_token =
     \<lparr>kr_token_id = ''1'', kr_team = ''ops'', kr_token_type = ''publish'', kr_token_prefix = ''p'',
      kr_token_hash = ''#secret'', kr_description = [], kr_created_at = 0, kr_expires_at = Some 100,
      kr_revoked_at = None, kr_last_used_at = None\<rparr>"

definition example_api_state :: "db \<times> bucket \<Rightarrow> api_state" where
  "example_api_state sb =
     \<lparr>h_authz = example_authz, h_limiter = newRateLimiter, h_usage = NewExpirySet 10 minute,
      h_consumers = NewExpirySet 10 minute, h_principal = None, h_cache = NewResponseCache,
      h_world = example_world ((fst sb)\<lparr>db_teams := [''ops''], db_tokens := [example_token],
        db_owners := [(''ops'', ''acme'')]\<rparr>, snd sb) []\<rparr>"

definition example_http :: "string \<Rightarrow> string \<Rightarrow> header \<Rightarrow> http_request" where
  "example_http method path h =
     \<lparr>rq_Method = method, rq_Path = path, rq_RawQuery = [], rq_Host = ''forge'', rq_RemoteAddr = ''7'', rq_TLS = False,
      rq_Header = (''Authorization'', [''Bearer secret'']) # h\<rparr>"

definition example_form :: upload_form where
  "example_form =
     \<lparr>uf_Fields = [], uf_Space = ''acme'', uf_File = Some (''upload.tar.gz'', ''application/gzip'', ''bytes'')\<rparr>"

definition example_api :: "http_request \<Rightarrow> api_request" where
  "example_api r =
     \<lparr>hx_service = example_service S3 ''modules'', hx_request = example_request 50 ''2'', hx_net = example_net,
      hx_boundary = example_boundary, hx_http = r, hx_request_id = ''id'', hx_busy = False, hx_outage = False,
      hx_form = (\<lambda>_. []), hx_query = (\<lambda>_. []), hx_digest = (\<lambda>s. s), hx_session = None, hx_audit_uuid = ''a2'',
      hx_text = (\<lambda>_. ''failed''), hx_activeReleaseTTL = 10, hx_moduleUploadMax = 1000,
      hx_multipart = (\<lambda>_. Inr example_form), hx_v3_body = (\<lambda>_. Inr (''bytes'', None)), hx_escape = (\<lambda>s. s),
      hx_format = (\<lambda>_. []), hx_decode = (\<lambda>_. JNull), hx_encode_query = (\<lambda>_ _. []), hx_proxy = None,
      hx_answered = 50\<rparr>"

definition example_publication :: "api_state \<times> api_answer" where
  "example_publication =
     respond (api_route (example_api (example_http ''POST'' ''/api/v1/modules'' []))) (example_api_state (empty_db, []))"

section \<open>Changes are authorized\<close>

text \<open>
  C2: No request other than a read changes what the forge holds unless its token allows it. Whatever
  path, body and header a request has, and whatever calls fail, after it either the modules, the
  releases, the tombstones, the outbox of deletions and the bucket are what they were, or its token
  belongs to a principal of the snapshot the request was checked against, a stored token is neither
  revoked nor expired in the store, the request is a deletion by an administrator or in a space the
  principal may delete in, or a publication from an allowed address to a space it may publish to, and
  that one space is all that changed (\<open>only_space\<close>): the modules, releases and tombstones of every
  other space are the same rows as before, the outbox changed only on paths of artifacts of the space
  (those it may publish, which no two spaces share by \<open>space_paths_disjoint\<close>, and those its local
  releases had), and every object of the bucket other than those is untouched.
\<close>

theorem api_change_authorized:
  assumes "service_ok (hx_service e)" "db_inv (g_sv (hx_service e)) (w_db (h_world h))"
    "rq_Method (hx_http e) \<notin> {''GET'', ''HEAD''}" "respond (api_route e) h = (h1, a)"
  shows "(db_modules (w_db (h_world h1)) = db_modules (w_db (h_world h)) \<and>
      db_releases (w_db (h_world h1)) = db_releases (w_db (h_world h)) \<and>
      db_tombstones (w_db (h_world h1)) = db_tombstones (w_db (h_world h)) \<and>
      db_deletions (w_db (h_world h1)) = db_deletions (w_db (h_world h)) \<and> w_bucket (h_world h1) = w_bucket (h_world h)) \<or>
    (\<exists>p owner. token_granted e (w_db (h_world h)) h1 p \<and> permitted e p owner \<and>
      only_space (hx_service e) owner (w_db (h_world h), w_bucket (h_world h)) (w_db (h_world h1), w_bucket (h_world h1)))"
proof -
  have "authorized_result e h h1"
    by (rule triple_respond [OF triple_route [OF assms(2,1,3)] unchanged_refl assms(4)])
  then show ?thesis
    unfolding authorized_result_def unchanged_def same_content_def by metis
qed

theorem api_change_authorized_witness:
  "map rr_sha256 (db_releases (w_db (h_world (fst example_publication)))) = [''bytes''] \<and>
   (\<exists>p owner. token_granted (example_api (example_http ''POST'' ''/api/v1/modules'' []))
      (w_db (h_world (example_api_state (empty_db, [])))) (fst example_publication) p \<and> CanPublishOwner p owner \<and>
      (\<forall>m \<in> set (db_modules (w_db (h_world (fst example_publication)))). mr_owner m = owner))"
proof -
  let ?e = "example_api (example_http ''POST'' ''/api/v1/modules'' [])" and ?h = "example_api_state (empty_db, [])"
  have stored: "map rr_sha256 (db_releases (w_db (h_world (fst example_publication)))) = [''bytes'']" by code_simp
  have g: "hx_service ?e = example_service S3 ''modules''" by (simp add: example_api_def)
  have ok: "service_ok (hx_service ?e)" unfolding g by (rule example_service_ok)
  have empty: "w_db (h_world ?h) = empty_db\<lparr>db_teams := [''ops''], db_tokens := [example_token], db_owners := [(''ops'', ''acme'')]\<rparr>"
    by (simp add: example_api_state_def example_world_def)
  have inv: "db_inv (g_sv (hx_service ?e)) (w_db (h_world ?h))"
    unfolding empty using db_inv_empty [of "g_sv (hx_service ?e)"] by (simp add: db_inv_def)
  have post: "rq_Method (hx_http ?e) = ''POST''" by (simp add: example_api_def example_http_def)
  have "db_releases (w_db (h_world ?h)) = []" unfolding empty by (simp add: empty_db_def)
  moreover have "db_releases (w_db (h_world (fst example_publication))) \<noteq> []" using stored by auto
  ultimately obtain p owner where p: "token_granted ?e (w_db (h_world ?h)) (fst example_publication) p" "permitted ?e p owner"
      "only_space (hx_service ?e) owner (w_db (h_world ?h), w_bucket (h_world ?h))
        (w_db (h_world (fst example_publication)), w_bucket (h_world (fst example_publication)))"
    using api_change_authorized [OF ok inv, of "fst example_publication" "snd example_publication"] post
    by (auto simp: example_publication_def)
  have "filter (\<lambda>m. mr_owner m \<noteq> owner) (db_modules (w_db (h_world (fst example_publication)))) = []"
    using p(3) unfolding empty by (simp add: only_space_def db_frame_def empty_db_def)
  with p stored post show ?thesis by (auto simp: permitted_def filter_empty_conv)
qed

end
