(* ===== verification/DownloadProperties.thy ===== *)
theory DownloadProperties
  imports ApiProperties
begin

text \<open>
  What a client that downloads a published release gets: the bytes that were published, or the part of
  them it asked for, or an error that is not an archive.
\<close>

section \<open>Handlers that answer with documents only\<close>

text \<open>The early answers of a handler are no archives.\<close>

definition no_archive :: "'a handler \<Rightarrow> bool" where
  "no_archive m \<longleftrightarrow> (\<forall>h st hd body. snd (m h) \<noteq> Inl (Stream st hd body))"

named_theorems archive_intros

lemma no_archive_simple [archive_intros]:
  "no_archive (h_return x)" "no_archive (h_fail e st err)" "no_archive (writeServiceError e err)"
  "no_archive (writeAuthError r)" "no_archive (h_call m)" "no_archive (h_access f)" "no_archive (set_principal a)"
  "no_archive (audit e p action result reason attrs)" "no_archive (not_found_or_internal e serr)"
  by (auto simp: no_archive_def h_return_def h_fail_def h_answer_def writeServiceError_def writeAuthError_def h_call_def
      h_access_def set_principal_def not_found_or_internal_def writeError_def audit_def h_then_def
      split: prod.splits)

lemma no_archive_then [archive_intros]:
  assumes "no_archive m" "\<And>x. no_archive (f x)"
  shows "no_archive (h_then m f)"
  unfolding no_archive_def
proof (intro allI)
  fix h st hd body
  show "snd (h_then m f h) \<noteq> Inl (Stream st hd body)"
    using assms unfolding no_archive_def h_then_def by (cases "m h"; cases "snd (m h)") (auto, metis snd_conv)
qed

lemma no_archive_try [archive_intros]:
  "(\<And>err. no_archive (failed err)) \<Longrightarrow> (\<And>x. no_archive (f x)) \<Longrightarrow> no_archive (h_try m failed f)"
  unfolding h_try_def by (rule no_archive_then) (auto intro: archive_intros split: sum.split)

lemma no_archive_marks [archive_intros]:
  "no_archive (markReleaseUsed e owner name version)" "no_archive (markReleaseConsumerUsed e owner name version)"
  by (auto simp: no_archive_def markReleaseUsed_def markReleaseConsumerUsed_def h_then_def h_call_def Let_def
      split: prod.splits sum.splits option.splits)

lemma no_archive_read [archive_intros]: "no_archive (requireRead e)"
  unfolding requireRead_def by (rule no_archive_then) (auto intro: archive_intros split: sum.split)

lemma no_archive_archive [archive_intros]: "no_archive (writeReleaseArchive e r)"
  unfolding writeReleaseArchive_def Let_def
  by (auto intro!: archive_intros split: prod.split sum.split)


section \<open>A release that stays\<close>







section \<open>The archive of a release\<close>







section \<open>Downloads\<close>







end
