(* ===== verification/ForgeListing.thy ===== *)
theory ForgeListing
  imports ForgeApi StoreProperties
begin

text \<open>
  The listings of the Forge API as a client walks them, and the limits on the bodies of uploads.
\<close>

section \<open>Following the links\<close>

text \<open>The offsets of the pages a client sees that starts at \<open>offset\<close> and follows \<open>next\<close>.\<close>

function followed :: "int \<Rightarrow> int \<Rightarrow> int \<Rightarrow> int list" where
  "followed limit matches offset =
     offset # (if limit \<le> 0 then [] else
       case vp_Next (v3_links limit offset matches) of None \<Rightarrow> [] | Some target \<Rightarrow> followed limit matches target)"
  by pat_completeness auto
termination
  by (relation "measure (\<lambda>(limit, matches, offset). nat (matches - offset))") (auto simp: v3_links_def split: if_splits)

declare followed.simps [simp del]

lemma followed_step:
  "1 \<le> limit \<Longrightarrow> followed limit matches offset =
     (if offset + limit < matches then offset # followed limit matches (offset + limit) else [offset])"
  by (subst followed.simps) (simp add: v3_links_def)

lemma followed_induct:
  assumes "1 \<le> limit"
    and "\<And>offset. (offset + limit < matches \<Longrightarrow> P (offset + limit)) \<Longrightarrow> P (offset :: int)"
  shows "P offset"
proof (induction "nat (matches - offset)" arbitrary: offset rule: less_induct)
  case less
  show ?case by (rule assms(2), rule less) (use assms(1) in auto)
qed

lemma followed_pages:
  assumes "1 \<le> limit" "0 \<le> offset"
  shows "concat (map (\<lambda>t. page (nat limit) (nat t) xs) (followed limit (int (length xs)) offset)) = drop (nat offset) xs"
  using assms(2)
proof (induction offset rule: followed_induct [OF assms(1), where matches = "int (length xs)"])
  case (1 offset)
  have n: "nat (offset + limit) = nat offset + nat limit" using 1 assms(1) by (simp add: nat_add_distrib)
  show ?case
  proof (cases "offset + limit < int (length xs)")
    case True
    then have "concat (map (\<lambda>t. page (nat limit) (nat t) xs) (followed limit (int (length xs)) (offset + limit))) =
        drop (nat limit) (drop (nat offset) xs)"
      using 1 assms(1) by (simp only: n drop_drop) (simp add: add.commute)
    moreover have "followed limit (int (length xs)) offset = offset # followed limit (int (length xs)) (offset + limit)"
      using True assms(1) by (subst followed_step) simp_all
    ultimately show ?thesis by (simp only: list.map concat.simps page_def append_take_drop_id)
  next
    case False
    then have "length xs \<le> nat offset + nat limit" using n by linarith
    then show ?thesis using False assms(1) by (simp add: followed_step page_def)
  qed
qed

lemma followed_offsets:
  assumes "1 \<le> limit" "t \<in> set (followed limit matches offset)"
  shows "offset \<le> t \<and> (t = offset \<or> t < matches)"
  using assms(2)
proof (induction offset rule: followed_induct [OF assms(1), where matches = matches])
  case (1 offset)
  then show ?case using assms(1) by (fastforce simp: followed_step split: if_splits)
qed

lemma followed_last:
  assumes "1 \<le> limit" "0 \<le> k" "k * limit < matches"
  shows "last (followed limit matches (k * limit)) = vp_Last (v3_links limit 0 matches)"
proof -
  have "\<forall>k. offset = k * limit \<and> 0 \<le> k \<and> offset < matches \<longrightarrow>
      last (followed limit matches offset) = (matches - 1) div limit * limit" for offset
  proof (induction offset rule: followed_induct [OF assms(1), where matches = matches])
    case (1 offset)
    show ?case
    proof (intro allI impI)
      fix k
      assume k: "offset = k * limit \<and> 0 \<le> k \<and> offset < matches"
      show "last (followed limit matches offset) = (matches - 1) div limit * limit"
      proof (cases "offset + limit < matches")
        case True
        then have "offset + limit = (k + 1) * limit \<and> 0 \<le> k + 1" using k by (simp add: algebra_simps)
        with 1 True have "last (followed limit matches (offset + limit)) = (matches - 1) div limit * limit" by blast
        moreover have "followed limit matches (offset + limit) \<noteq> []" by (subst followed.simps) simp
        ultimately show ?thesis using True assms(1) by (simp add: followed_step [of limit matches offset])
      next
        case False
        then have "(matches - 1) div limit = k"
          using k assms(1) by (intro int_div_pos_eq [of _ _ _ "matches - 1 - offset"]) (auto simp: mult.commute)
        with False k assms(1) show ?thesis by (simp add: followed_step)
      qed
    qed
  qed
  moreover have "0 < matches" using assms by (smt (verit) mult_nonneg_nonneg)
  ultimately show ?thesis using assms by (simp add: v3_links_def)
qed

text \<open>
  C39: The links of a listing of the Forge API lead through it, as long as at most 100000 releases
  match (\<open>MaxModulePageOffset\<close>). A client that starts at the first page of such a listing, with a page
  size the router accepts, and follows \<open>next\<close> until there is none asks for pages the store accepts, gets
  every release that matches exactly once and in listing order, is told the same total on every page,
  and stops at the page the \<open>last\<close> link named. With more matches the links name an offset the router
  refuses (\<open>v3_link_refused\<close>).
\<close>

theorem v3_links_cover:
  assumes "1 \<le> limit" "limit \<le> MaxModulePageSize" "0 < n" "int n \<le> MaxModulePageOffset"
    "n = length (filtered_releases s module version)"
  shows "\<exists>pages. map (ListReleasesPageFiltered s module version limit) (followed limit (int n) 0) = map (\<lambda>p. Inr (p, n)) pages \<and>
    concat pages = map (\<lambda>(m, r). scanRelease m r) (releases_in_order (filtered_releases s module version)) \<and>
    last (followed limit (int n) 0) = vp_Last (v3_links limit 0 (int n))"
proof -
  let ?all = "releases_in_order (filtered_releases s module version)"
  let ?pages = "map (\<lambda>t. map (\<lambda>(m, r). scanRelease m r) (page (nat limit) (nat t) ?all)) (followed limit (int n) 0)"
  have len: "length ?all = n" using assms(5) by (simp add: releases_in_order_def)
  have "validateModulePagination limit t = Inr ()" if "t \<in> set (followed limit (int n) 0)" for t
    using followed_offsets [OF assms(1) that] assms(1-4) by (auto simp: validateModulePagination_def)
  then have "map (ListReleasesPageFiltered s module version limit) (followed limit (int n) 0) = map (\<lambda>p. Inr (p, n)) ?pages"
    using assms(5) by (simp add: ListReleasesPageFiltered_def)
  moreover have "concat ?pages = map (\<lambda>(m, r). scanRelease m r) ?all"
    using arg_cong [OF followed_pages [OF assms(1), of 0 ?all], of "map (\<lambda>(m, r). scanRelease m r)"]
    by (simp add: len map_concat o_def)
  moreover have "last (followed limit (int n) 0) = vp_Last (v3_links limit 0 (int n))"
    using followed_last [OF assms(1), of 0 "int n"] assms(3) by simp
  ultimately show ?thesis by blast
qed

theorem v3_links_cover_witness:
  "\<exists>pages. map (ListReleasesPageFiltered example_db [] [] 1) (followed 1 2 0) = map (\<lambda>p. Inr (p, 2)) pages \<and>
     length (concat pages) = 2 \<and> vp_Last (v3_links 1 0 2) = 1"
proof -
  let ?n = "length (filtered_releases example_db [] [])"
  have n: "?n = 2" by code_simp
  then have "length (releases_in_order (filtered_releases example_db [] [])) = 2" by (simp add: releases_in_order_def)
  moreover obtain pages where "map (ListReleasesPageFiltered example_db [] [] 1) (followed 1 (int ?n) 0) = map (\<lambda>p. Inr (p, ?n)) pages"
      "concat pages = map (\<lambda>(m, r). scanRelease m r) (releases_in_order (filtered_releases example_db [] []))"
      "last (followed 1 (int ?n) 0) = vp_Last (v3_links 1 0 (int ?n))"
    using v3_links_cover [of 1 ?n example_db "[]" "[]", unfolded MaxModulePageSize_def MaxModulePageOffset_def n]
    unfolding n by fastforce
  moreover have "vp_Last (v3_links 1 0 2) = 1" by (simp add: v3_links_def)
  ultimately show ?thesis unfolding n by (intro exI [of _ pages]) simp
qed

text \<open>A listing with more entries than the greatest offset has links that are refused.\<close>

lemma v3_link_refused:
  "vp_Next (v3_links 20 MaxModulePageOffset (MaxModulePageOffset + 21)) = Some (MaxModulePageOffset + 20)"
  "query ''offset'' \<noteq> [] \<Longrightarrow> ParseInt (query ''offset'') = Some (MaxModulePageOffset + 20) \<Longrightarrow>
     v3PaginationValue query ''offset'' 0 0 MaxModulePageOffset = Inl ''invalid offset''"
  by (simp_all add: v3_links_def v3PaginationValue_def)

section \<open>Limits on uploads\<close>

lemma nonneg_sint:
  fixes m :: "64 word"
  shows "uint m < 2 ^ 63 \<Longrightarrow> sint m = uint m"
  unfolding sint_uint by (rule signed_take_bit_int_eq_self, rule order_trans [OF _ uint_ge_0]) simp_all

lemma nonneg_uint:
  fixes m :: "64 word"
  assumes "0 \<le> sint m"
  shows "uint m = sint m"
proof -
  have "sint m < 2 ^ 63" using sint_lt [of m] by simp
  then show ?thesis using assms by (simp add: uint_sint take_bit_int_eq_self)
qed

text \<open>The number of base64 characters of \<open>n\<close> bytes.\<close>

definition base64_length :: "int \<Rightarrow> int" where
  "base64_length n = (n + 2) div 3 * 4"

lemma small_word: "(2 ^ 20 :: 64 word) = 1048576" "(2 ^ 63 - 1 :: 64 word) = 9223372036854775807"
  by simp_all

lemma multipart_limit_int:
  assumes "0 < sint m"
  shows "sint (multipart_limit m) = min (sint m + 1048576) 9223372036854775807"
proof -
  have u: "uint m = sint m" using nonneg_uint assms by simp
  have b: "(9223372036854775807 - 1048576 :: 64 word) = 9223372036853727231" by simp
  have s: "sint (9223372036853727231 :: 64 word) = 9223372036853727231" "sint (9223372036854775807 :: 64 word) = 9223372036854775807"
    by (simp_all add: nonneg_sint)
  show ?thesis
  proof (cases "sint m \<le> 9223372036853727231")
    case True
    then have "uint (m + 1048576) = sint m + 1048576" using u assms by (simp add: uint_plus_if')
    with True show ?thesis
      by (simp add: multipart_limit_def small_word b word_sle_eq s nonneg_sint)
  next
    case False
    then show ?thesis by (simp add: multipart_limit_def small_word b word_sle_eq s)
  qed
qed

lemma encoded_limit_int:
  assumes "0 < sint m"
  shows "sint (encodedV3UploadLimit m) =
    (if 6917529027640295419 < sint m then 9223372036854775807 else base64_length (sint m) + 1048576)"
proof -
  have u: "uint m = sint m" using nonneg_uint assms by simp
  have b: "(9223372036854775807 - 1048576 :: 64 word) div 4 * 3 - 2 = 6917529027640295419" by simp
  have s: "sint (6917529027640295419 :: 64 word) = 6917529027640295419" "sint (9223372036854775807 :: 64 word) = 9223372036854775807"
    by (simp_all add: nonneg_sint)
  show ?thesis
  proof (cases "6917529027640295419 < sint m")
    case True
    then show ?thesis by (simp add: encodedV3UploadLimit_def small_word b word_sless_alt s)
  next
    case False
    have "uint (m + 2) = sint m + 2" using False u assms by (simp add: uint_plus_if')
    then have d: "uint ((m + 2) div 3) = (sint m + 2) div 3" by (simp add: uint_div)
    moreover have x: "(sint m + 2) div 3 \<le> 2305843009213431807" "0 \<le> (sint m + 2) div 3" using False assms by simp_all
    ultimately have e: "uint ((m + 2) div 3 * 4) = (sint m + 2) div 3 * 4" by (simp add: uint_mult_lem [THEN iffD1])
    then have "uint ((m + 2) div 3 * 4 + 1048576) = (sint m + 2) div 3 * 4 + 1048576" using x by (simp add: uint_plus_if')
    then have "sint ((m + 2) div 3 * 4 + 1048576) = base64_length (sint m) + 1048576"
      using x by (simp add: nonneg_sint base64_length_def)
    with False show ?thesis by (simp add: encodedV3UploadLimit_def small_word b word_sless_alt s)
  qed
qed

text \<open>
  The limits on the bodies of uploads never wrap around and never cut an upload that is allowed.
  For every positive limit on the size of a module, the limit on a multipart body is that size and
  one MiB, or the greatest 64-bit number; the limit on a JSON body is positive and holds the base64
  text of every file of an allowed size with a MiB for the rest, whenever such a body has a 64-bit
  length at all.
\<close>

theorem upload_limits_fit:
  assumes "0 < sint m"
  shows "sint (multipart_limit m) = min (sint m + 1048576) 9223372036854775807 \<and> 0 < sint (encodedV3UploadLimit m) \<and>
    (0 \<le> n \<and> n \<le> sint m \<and> base64_length n + 1048576 \<le> 9223372036854775807 \<longrightarrow>
      base64_length n + 1048576 \<le> sint (encodedV3UploadLimit m))"
proof -
  have mono: "n \<le> k \<Longrightarrow> base64_length n \<le> base64_length k" for k
    unfolding base64_length_def by (intro mult_right_mono zdiv_mono1) auto
  have "0 \<le> base64_length (sint m)" using assms by (simp add: base64_length_def)
  then show ?thesis
    using mono [of "sint m"] by (simp add: multipart_limit_int [OF assms] encoded_limit_int [OF assms])
qed

theorem upload_limits_fit_witness:
  "sint (multipart_limit 9223372036854775807) = 9223372036854775807 \<and> base64_length 10 + 1048576 \<le> sint (encodedV3UploadLimit 10)"
proof -
  have p: "0 < sint (9223372036854775807 :: 64 word)" "0 < sint (10 :: 64 word)" "sint (10 :: 64 word) = 10"
    "sint (9223372036854775807 :: 64 word) = 9223372036854775807"
    by (simp_all add: nonneg_sint)
  from upload_limits_fit [OF p(1)] upload_limits_fit [OF p(2), of 10] show ?thesis
    by (simp add: p base64_length_def)
qed

end
