(* ===== verification/WebTypes.thy ===== *)
theory WebTypes
  imports HttpUtil
begin

text \<open>
  What the browser-facing part of the program (\<open>internal/webauth\<close> and \<open>router_manage_*.go\<close>) works
  with before it touches the store: cookies, URLs, the target of a redirect, the scopes of a login.
  Signing and encryption of cookies, random strings, the OIDC provider and \<open>net/url\<close> parsing are
  parameters; percent decoding is modelled.
\<close>

section \<open>Joining\<close>

text \<open>\<open>strings.Join\<close> with the separator first.\<close>

definition joined_by :: "string \<Rightarrow> string list \<Rightarrow> string" where
  "joined_by separator xs = (case xs of [] \<Rightarrow> [] | x # rest \<Rightarrow> x @ concat (map (\<lambda>y. separator @ y) rest))"

section \<open>Percent decoding\<close>

definition hex_value :: "char \<Rightarrow> nat option" where
  "hex_value c =
     (if CHR ''0'' \<le> c \<and> c \<le> CHR ''9'' then Some (of_char c - 48)
      else if CHR ''a'' \<le> c \<and> c \<le> CHR ''f'' then Some (of_char c - 87)
      else if CHR ''A'' \<le> c \<and> c \<le> CHR ''F'' then Some (of_char c - 55)
      else None)"

text \<open>\<open>url.PathUnescape\<close>; \<open>None\<close> is the error of an incomplete or malformed escape.\<close>

fun PathUnescape :: "string \<Rightarrow> string option" where
  "PathUnescape [] = Some []"
| "PathUnescape (c # s) =
     (if c \<noteq> CHR ''%'' then map_option (Cons c) (PathUnescape s)
      else case s of
        a # b # t \<Rightarrow>
          (case (hex_value a, hex_value b) of
             (Some x, Some y) \<Rightarrow> map_option (Cons (char_of (16 * x + y))) (PathUnescape t)
           | _ \<Rightarrow> None)
      | _ \<Rightarrow> None)"

lemma PathUnescape_plain: "c \<noteq> CHR ''%'' \<Longrightarrow> PathUnescape (c # s) = map_option (Cons c) (PathUnescape s)"
  by simp

lemma PathUnescape_escape:
  assumes "PathUnescape (CHR ''%'' # s) = Some t"
  obtains a b r x u where "s = a # b # r" "PathUnescape r = Some u" "t = x # u"
proof -
  obtain a r0 where a: "s = a # r0" using assms by (cases s) auto
  obtain b r where b: "r0 = b # r" using assms a by (cases r0) auto
  obtain x y where h: "hex_value a = Some x" "hex_value b = Some y"
    using assms a b by (cases "hex_value a"; cases "hex_value b") auto
  have "map_option (Cons (char_of (16 * x + y))) (PathUnescape r) = Some t" using assms a b h by simp
  then obtain u where "PathUnescape r = Some u" "t = char_of (16 * x + y) # u" by (cases "PathUnescape r") auto
  then show thesis using a b that by blast
qed

declare PathUnescape.simps(2) [simp del]

lemma PathUnescape_shorter: "PathUnescape s = Some t \<Longrightarrow> length t \<le> length s \<and> (length t = length s \<longrightarrow> t = s)"
proof (induction "length s" arbitrary: s t rule: less_induct)
  case less
  show ?case
  proof (cases s)
    case (Cons c r)
    show ?thesis
    proof (cases "c = CHR ''%''")
      case True
      then have "PathUnescape (CHR ''%'' # r) = Some t" using less.prems Cons by simp
      then obtain a b r' x u where u: "r = a # b # r'" "PathUnescape r' = Some u" "t = x # u"
        by (rule PathUnescape_escape)
      have "length u \<le> length r'" using less.hyps [OF _ u(2)] Cons u(1) by simp
      then show ?thesis using Cons u(1,3) by simp
    next
      case False
      then obtain u where u: "PathUnescape r = Some u" "t = c # u"
        using less.prems Cons by (auto simp: PathUnescape_plain)
      show ?thesis using less.hyps [OF _ u(1)] Cons u(2) by simp
    qed
  qed (use less.prems in simp)
qed

lemma PathUnescape_decreases: "PathUnescape s = Some t \<Longrightarrow> t \<noteq> s \<Longrightarrow> length t < length s"
  using PathUnescape_shorter [of s t] by (auto simp: le_less)

section \<open>The target of a redirect\<close>

text \<open>The loop of \<open>safeRedirectPath\<close>: decode until nothing changes.\<close>

function decode_fully :: "string \<Rightarrow> string option" where
  "decode_fully candidate =
     (case PathUnescape candidate of
        None \<Rightarrow> None
      | Some decoded \<Rightarrow> if decoded = candidate then Some candidate else decode_fully decoded)"
  by pat_completeness auto
termination
  by (relation "measure length") (auto dest: PathUnescape_decreases)

declare decode_fully.simps [simp del]

definition is_control :: "char \<Rightarrow> bool" where
  "is_control c = (c < CHR '' '' \<or> c = CHR 0x7F)"

definition safeRedirectPath :: "string \<Rightarrow> string" where
  "safeRedirectPath target =
     (if \<not> has_prefix target ''/'' \<or> has_prefix target ''//'' then ''/''
      else case decode_fully target of
        None \<Rightarrow> ''/''
      | Some candidate \<Rightarrow>
          if CHR 0x5C \<in> set candidate \<or> has_prefix candidate ''//'' then ''/''
          else if list_ex is_control candidate then ''/''
          else candidate)"

lemma PathUnescape_slash: "PathUnescape (CHR ''/'' # s) = Some t \<Longrightarrow> \<exists>u. t = CHR ''/'' # u"
  by (auto simp: PathUnescape_plain)

lemma decode_fully_slash:
  "decode_fully s = Some t \<Longrightarrow> has_prefix s ''/'' \<Longrightarrow> has_prefix t ''/''"
proof (induction s rule: decode_fully.induct)
  case (1 s)
  obtain d where d: "PathUnescape s = Some d" "decode_fully s = (if d = s then Some s else decode_fully d)"
    using 1(2) by (subst (asm) decode_fully.simps) (auto split: option.splits simp: decode_fully.simps [of s])
  obtain r where "s = CHR ''/'' # r" using has_prefixE [OF 1(3)] by auto
  then obtain u where "d = CHR ''/'' # u" using PathUnescape_slash [of r d] d(1) by blast
  then have "has_prefix d ''/''" by (simp add: has_prefix_def)
  then show ?case using 1(1) [OF d(1)] 1(2,3) d(2) by (cases "d = s") auto
qed

lemma decode_fully_fixed: "decode_fully s = Some t \<Longrightarrow> PathUnescape t = Some t"
proof (induction s rule: decode_fully.induct)
  case (1 s)
  then show ?case by (subst (asm) (2) decode_fully.simps) (auto split: option.splits if_splits)
qed

text \<open>
  C40: Where a login leads back to is a path of this site. Whatever a link names as the target of the
  login, the redirect that follows starts with a single slash and holds no second slash or backslash
  after it, no backslash and no control character anywhere, and no escape that a later decoding could
  turn into one: decoding it again changes nothing.
\<close>

theorem redirect_stays_local:
  "\<exists>rest. safeRedirectPath target = CHR ''/'' # rest \<and> \<not> has_prefix rest ''/'' \<and>
     CHR 0x5C \<notin> set (safeRedirectPath target) \<and> (\<forall>c \<in> set (safeRedirectPath target). \<not> is_control c) \<and>
     PathUnescape (safeRedirectPath target) = Some (safeRedirectPath target)"
proof (cases "safeRedirectPath target = ''/''")
  case True
  then show ?thesis by (simp add: has_prefix_def is_control_def less_char_def PathUnescape_plain)
next
  case False
  then obtain candidate where c: "has_prefix target ''/''" "decode_fully target = Some candidate"
      "safeRedirectPath target = candidate" "CHR 0x5C \<notin> set candidate" "\<not> has_prefix candidate ''//''"
      "\<not> list_ex is_control candidate"
    unfolding safeRedirectPath_def by (auto split: if_splits option.splits)
  obtain rest where rest: "candidate = CHR ''/'' # rest"
    using has_prefixE [OF decode_fully_slash [OF c(2,1)]] by auto
  have "\<not> has_prefix rest ''/''" using c(5) rest by (auto simp: has_prefix_def)
  then show ?thesis using c rest decode_fully_fixed [OF c(2)] by (auto simp: list_ex_iff)
qed

text \<open>An escaped target is decoded once and kept; one that hides a second slash is refused.\<close>

theorem redirect_stays_local_witness:
  "safeRedirectPath ''/manage%2Fteams'' = ''/manage/teams'' \<and> CHR 0x5C \<notin> set ''/manage/teams'' \<and>
   PathUnescape ''/manage/teams'' = Some ''/manage/teams'' \<and> safeRedirectPath ''/%2Fevil.example'' = ''/''"
proof -
  have "safeRedirectPath ''/manage%2Fteams'' = ''/manage/teams''" "safeRedirectPath ''/%2Fevil.example'' = ''/''"
    by code_simp+
  then show ?thesis using redirect_stays_local [of "''/manage%2Fteams''"] by auto
qed

section \<open>URLs and cookies\<close>

text \<open>The parts of a parsed URL the program reads.\<close>

record web_url =
  wu_Scheme :: string
  wu_Host :: string
  wu_User :: bool
  wu_Path :: string

definition IsAbs :: "web_url \<Rightarrow> bool" where "IsAbs u = (wu_Scheme u \<noteq> [])"

text \<open>\<open>http.Cookie\<close>; all cookies of the program are \<open>HttpOnly\<close>, and strict or lax.\<close>

record set_cookie =
  ck_Name :: string
  ck_Value :: string
  ck_Path :: string
  ck_Strict :: bool
  ck_Secure :: bool
  ck_MaxAge :: int

text \<open>The cookies of a request; a name may occur twice and the first one counts.\<close>

type_synonym cookies = "(string \<times> string) list"

section \<open>Configuration of the login\<close>

record id_claims =
  ic_Sub :: string
  ic_Email :: string
  ic_EmailVerified :: bool
  ic_Name :: string
  ic_Groups :: "string list"

text \<open>
  \<open>OIDCAuth\<close>. The cookie codec, the two keyed hashes and the OAuth2 client are functions:
  \<open>wa_authCodeURL\<close> takes the redirect URL, the state, the nonce and the PKCE verifier; \<open>wa_exchange\<close>
  the redirect URL, the code and the verifier, and gives the answer's ID token if there is one;
  \<open>wa_verify\<close> gives the nonce of a valid ID token and its claims if they decode.
\<close>

record web_auth =
  wa_clientID :: string
  wa_redirectURL :: string
  wa_logoutURL :: string
  wa_publicBaseURL :: string
  wa_hashState :: "string \<Rightarrow> string"
  wa_hashSessionID :: "string \<Rightarrow> string"
  wa_encode :: "(string \<times> string) list \<Rightarrow> string option"
  wa_decode :: "string \<Rightarrow> (string \<times> string) list option"
  wa_authCodeURL :: "string \<Rightarrow> string \<Rightarrow> string \<Rightarrow> string \<Rightarrow> string"
  wa_exchange :: "string \<Rightarrow> string \<Rightarrow> string \<Rightarrow> (string option) option"
  wa_verify :: "string \<Rightarrow> (string \<times> id_claims option) option"

text \<open>\<open>parse\<close> is \<open>url.Parse\<close>.\<close>

definition LogoutOrigin :: "(string \<Rightarrow> web_url option) \<Rightarrow> web_auth option \<Rightarrow> string" where
  "LogoutOrigin parse a =
     (case a of
        None \<Rightarrow> []
      | Some w \<Rightarrow>
          (case parse (wa_logoutURL w) of
             None \<Rightarrow> []
           | Some u \<Rightarrow>
               if wu_User u \<or> wu_Host u = [] then []
               else if wu_Scheme u = ''http'' \<or> wu_Scheme u = ''https'' then wu_Scheme u @ ''://'' @ wu_Host u
               else []))"

definition add_scope :: "string \<Rightarrow> string list \<Rightarrow> string list" where
  "add_scope scope0 normalized =
     (let scope = trim_space scope0 in
      if scope = [] \<or> scope \<in> set normalized then normalized else normalized @ [scope])"

definition normalizeScopes :: "string list \<Rightarrow> string list" where
  "normalizeScopes scopes =
     fold add_scope (if scopes = [] then [''openid'', ''profile'', ''email''] else scopes) [''openid'']"

lemma add_scopes: "distinct ys \<Longrightarrow> ys \<noteq> [] \<Longrightarrow> hd ys = x \<Longrightarrow>
  distinct (fold add_scope scopes ys) \<and> fold add_scope scopes ys \<noteq> [] \<and> hd (fold add_scope scopes ys) = x"
  by (induction scopes arbitrary: ys) (auto simp: add_scope_def Let_def)

lemma normalizeScopes_openid: "distinct (normalizeScopes scopes) \<and> hd (normalizeScopes scopes) = ''openid''"
  using add_scopes [of "[''openid'']" "''openid''"] by (simp add: normalizeScopes_def)

end
