(* ===== verification/PageTypes.thy ===== *)
theory PageTypes
  imports WebTypes StoreTypes
begin

text \<open>
  What the listing pages show: a pagination (\<open>paginationData\<close> of \<open>router_templates.go\<close>) and the rows
  of one list. A time is kept as it is; the texts the page makes of it are left out.
\<close>

section \<open>Query values\<close>

text \<open>\<open>url.Values\<close>: the keys with their values in the order they came.\<close>

type_synonym url_values = "(string \<times> string list) list"

definition values_of :: "url_values \<Rightarrow> string \<Rightarrow> string list" where
  "values_of vs key = (case map_of vs key of None \<Rightarrow> [] | Some xs \<Rightarrow> xs)"

text \<open>\<open>Values.Encode\<close>: by key, escaped, joined by ampersands. A key without values is left out.\<close>

definition Encode :: "(string \<Rightarrow> string) \<Rightarrow> url_values \<Rightarrow> string" where
  "Encode escape vs =
     (let pairs = concat (map (\<lambda>(k, xs). map (\<lambda>x. escape k @ ''='' @ escape x) xs) (sort_key fst vs)) in
      case pairs of [] \<Rightarrow> [] | x # rest \<Rightarrow> x @ concat (map (\<lambda>y. ''&'' @ y) rest))"

section \<open>Paginations\<close>

record pagination =
  pg_Page :: nat
  pg_Total :: nat
  pg_TotalPages :: nat
  pg_PageSize :: nat
  pg_HasPrev :: bool
  pg_HasNext :: bool
  pg_PrevURL :: string
  pg_NextURL :: string
  pg_SizeAction :: string
  pg_SizeParam :: string
  pg_SizePageParam :: string
  pg_SizeAnchor :: string
  pg_SizeTarget :: string
  pg_SizeStorageKey :: string
  pg_SizeCookieName :: string
  pg_SizeOptions :: "(nat \<times> bool) list"
  pg_SizeParams :: "(string \<times> string) list"

section \<open>Rows\<close>

record team_summary =
  ts_Team :: string
  ts_Spaces :: "string list"
  ts_ModuleCount :: nat
  ts_ReadTokens :: nat
  ts_PublishTokens :: nat
  ts_PublishGroups :: nat
  ts_TeamAdminUsers :: nat
  ts_TeamAdminGroups :: nat

record space_assignment =
  sp_Team :: string
  sp_TeamURL :: string
  sp_Space :: string
  sp_ModulesURL :: string
  sp_ModuleCount :: nat
  sp_Primary :: bool
  sp_Upstream :: bool

text \<open>A space of the overview: its name, its modules, the link to them.\<close>

type_synonym space_summary = "string \<times> nat \<times> string"

text \<open>A team of the overview: its name, its modules, the links to its pages.\<close>

type_synonym overview_team = "string \<times> nat \<times> string \<times> string"

record manage_audit_row =
  jr_OccurredAt :: time
  jr_Actor :: string
  jr_AuthMethod :: string
  jr_Action :: string
  jr_Result :: string
  jr_Reason :: string
  jr_Target :: string
  jr_Details :: string
  jr_Justification :: string
  jr_TargetTokenID :: string
  jr_ActorTokenID :: string
  jr_OIDCSubject :: string
  jr_RequestID :: string
  jr_SourceIP :: string

record legacy_consumer_row =
  lc_ConsumerTeam :: string
  lc_ConsumerName :: string
  lc_ConsumerRole :: string
  lc_Module :: string
  lc_ModuleURL :: string
  lc_Version :: string
  lc_Latest :: string
  lc_FirstSeen :: time
  lc_LastSeen :: time
  lc_Observations :: int

record token_form_row =
  tr_ID :: string
  tr_Kind :: string
  tr_Prefix :: string
  tr_Description :: string
  tr_Status :: string
  tr_CreatedAt :: time
  tr_ExpiresAt :: "time option"
  tr_Revoked :: bool
  tr_Active :: bool
  tr_sortAt :: time

record manage_module_row =
  mx_Module :: domain_module
  mx_ReleaseCount :: nat
  mx_CanDelete :: bool
  mx_CanForceDeleteModule :: bool
  mx_CanForceDeleteRelease :: bool
  mx_CardID :: string
  mx_CardURL :: string
  mx_ForceDeleteURL :: string
  mx_Next :: string

datatype page_rows =
    TeamRows "team_summary list"
  | SpaceRows "space_assignment list"
  | SpaceSummaries "space_summary list"
  | OverviewTeams "overview_team list"
  | AuditRows "manage_audit_row list"
  | LegacyRows "legacy_consumer_row list"
  | TokenRows "token_form_row list"
  | ModuleRows "manage_module_row list"
  | Modules "domain_module list"

end
