(* ===== verification/WebState.thy ===== *)
theory WebState
  imports ApiHandlers PageTypes
begin

text \<open>
  The state and the answers of the browser-facing handlers: the API state with the cookies set so
  far and the random strings still to be drawn. A step is a step of the API or one of its own; the
  journal entries of \<open>router_audit.go\<close> find the session of the browser themselves.
\<close>

section \<open>Requests and state\<close>

text \<open>
  \<open>wx_parse\<close> and \<open>wx_parse_request_uri\<close> are the parsers of \<open>net/url\<close>, \<open>wx_with_query\<close> gives a URL
  with some of its query values set, \<open>wx_post\<close> is \<open>PostFormValue\<close> and \<open>wx_form_ok\<close> says that the form
  parses. \<open>wx_quote\<close> is the verb \<open>%q\<close>, \<open>wx_auth_text\<close> the text of an error of the authorizer, \<open>wx_uuids\<close>
  are the identifiers a transaction of the store draws. \<open>wx_values\<close> are the query values, of which
  \<open>hx_query\<close> gives the first for a key; \<open>wx_json\<close> is the JSON text of the attributes of a journal entry.
\<close>

record web_request =
  wx_api :: api_request
  wx_parse :: "string \<Rightarrow> web_url option"
  wx_parse_request_uri :: "string \<Rightarrow> web_url option"
  wx_with_query :: "string \<Rightarrow> (string \<times> string) list \<Rightarrow> string"
  wx_query_escape :: "string \<Rightarrow> string"
  wx_path_escape :: "string \<Rightarrow> string"
  wx_post :: "string \<Rightarrow> string"
  wx_form_ok :: bool
  wx_cookies :: cookies
  wx_auth :: "web_auth option"
  wx_manage_hash :: "string \<Rightarrow> string"
  wx_publicBaseURL :: string
  wx_quote :: "string \<Rightarrow> string"
  wx_auth_text :: "auth_error \<Rightarrow> string"
  wx_uuids :: "nat \<Rightarrow> string"
  wx_values :: url_values
  wx_json :: "(string \<times> string) list \<Rightarrow> string"

text \<open>The next random string is the head of \<open>wb_random\<close>; \<open>None\<close> or no element is a failure.\<close>

record web_state =
  wb_api :: api_state
  wb_cookies :: "set_cookie list"
  wb_random :: "string option list"

text \<open>
  An HTML page is its name, its status and the texts put into it. A listing page has the canonical URL
  of its header, when one was set, and its lists, each with its pagination. \<open>SeeOther\<close> is status 303.
\<close>

datatype web_answer =
    Api api_answer
  | Located string
  | SeeOther string
  | PlainText int string
  | Html string int "(string \<times> string) list"
  | Listed "string option" string "(page_rows \<times> pagination) list" "(string \<times> string) list"
  | NoContent "(string \<times> string) list"

type_synonym 'a web = "web_state \<Rightarrow> web_state \<times> (web_answer + 'a)"

definition w_return :: "'a \<Rightarrow> 'a web" where
  "w_return x b = (b, Inr x)"

definition w_answer :: "web_answer \<Rightarrow> 'a web" where
  "w_answer a b = (b, Inl a)"

definition w_then :: "'a web \<Rightarrow> ('a \<Rightarrow> 'b web) \<Rightarrow> 'b web" where
  "w_then m f b = (case m b of (b1, Inl a) \<Rightarrow> (b1, Inl a) | (b1, Inr x) \<Rightarrow> f x b1)"

text \<open>A step of the API; an answer it gives is the answer.\<close>

definition w_api :: "'a handler \<Rightarrow> 'a web" where
  "w_api m b = (case m (wb_api b) of (h, r) \<Rightarrow> (b\<lparr>wb_api := h\<rparr>, map_sum Api (\<lambda>x. x) r))"

definition w_call :: "'a svc \<Rightarrow> 'a outcome web" where
  "w_call m = w_api (h_call m)"

definition w_fail :: "web_request \<Rightarrow> int \<Rightarrow> http_error \<Rightarrow> 'a web" where
  "w_fail e status err = w_api (h_fail (wx_api e) status err)"

definition web_respond :: "web_answer web \<Rightarrow> web_state \<Rightarrow> web_state \<times> web_answer" where
  "web_respond m b = (case m b of (b1, Inl a) \<Rightarrow> (b1, a) | (b1, Inr a) \<Rightarrow> (b1, a))"

definition wx_now :: "web_request \<Rightarrow> time" where
  "wx_now e = hx_now (wx_api e)"

definition wx_http :: "web_request \<Rightarrow> http_request" where
  "wx_http e = hx_http (wx_api e)"

section \<open>Cookies and random strings\<close>

definition request_cookie :: "web_request \<Rightarrow> string \<Rightarrow> string option" where
  "request_cookie e name = map_of (wx_cookies e) name"

definition add_cookie :: "set_cookie \<Rightarrow> unit web" where
  "add_cookie c b = (b\<lparr>wb_cookies := wb_cookies b @ [c]\<rparr>, Inr ())"

text \<open>\<open>randomString\<close> and \<open>randomBase64URL\<close> with the size the program always asks for.\<close>

definition random_string :: "string option web" where
  "random_string b =
     (case wb_random b of [] \<Rightarrow> (b, Inr None) | r # rest \<Rightarrow> (b\<lparr>wb_random := rest\<rparr>, Inr r))"

section \<open>URLs of the request\<close>

definition external_base :: "web_request \<Rightarrow> string \<Rightarrow> string" where
  "external_base e fallback =
     ExternalBaseURL (ne_equal_fold (hx_net (wx_api e))) (\<lambda>s. map_option (\<lambda>u. (wu_Scheme u, wu_Host u)) (wx_parse e s))
       (Some (wx_http e)) fallback"

definition requestIsHTTPS :: "web_request \<Rightarrow> string \<Rightarrow> bool" where
  "requestIsHTTPS e fallback =
     (case wx_parse e (external_base e fallback) of
        None \<Rightarrow> False
      | Some u \<Rightarrow> ne_equal_fold (hx_net (wx_api e)) (wu_Scheme u) ''https'')"

definition forwarded_https :: "web_request \<Rightarrow> bool" where
  "forwarded_https e = (ForwardedScheme (ne_equal_fold (hx_net (wx_api e))) (Some (wx_http e)) = ''https'')"

section \<open>The session of the browser\<close>

record web_session =
  ws_Email :: string
  ws_EmailVerified :: bool
  ws_Name :: string
  ws_Sub :: string
  ws_Groups :: "string list"
  ws_CSRFSecret :: string

definition AuthorizationEmail :: "web_session \<Rightarrow> string" where
  "AuthorizationEmail s = (if ws_EmailVerified s then ws_Email s else [])"

definition sessionCookie :: string where "sessionCookie = ''puppet_forge_web''"
definition stateCookie :: string where "stateCookie = ''puppet_forge_state''"

text \<open>\<open>OIDCAuth.Session\<close>; the read refreshes when the session was last seen.\<close>

definition web_Session :: "web_request \<Rightarrow> web_session option web" where
  "web_Session e =
     (case wx_auth e of
        None \<Rightarrow> w_return None
      | Some a \<Rightarrow>
          (case request_cookie e sessionCookie of
             None \<Rightarrow> w_return None
           | Some cookie \<Rightarrow>
               w_then (w_call (db_write (\<lambda>s. GetOIDCSession s (wa_hashSessionID a cookie) (wx_now e)))) (\<lambda>r. case r of
                 Inl _ \<Rightarrow> w_return None
               | Inr p \<Rightarrow> w_return (Some \<lparr>ws_Email = e_Email p, ws_EmailVerified = e_EmailVerified p, ws_Name = e_Name p,
                   ws_Sub = e_Subject p, ws_Groups = e_Groups p, ws_CSRFSecret = e_CSRFSecret p\<rparr>))))"

section \<open>The journal\<close>

definition with_session :: "web_request \<Rightarrow> web_session option \<Rightarrow> api_request" where
  "with_session e session =
     (wx_api e)\<lparr>hx_session := map_option (\<lambda>s. (ws_Name s, ws_Email s, ws_Sub s)) session\<rparr>"

text \<open>The session \<open>newAuditEvent\<close> names: the given one, or that of the browser for a request without token.\<close>

definition audit_session :: "web_request \<Rightarrow> principal \<Rightarrow> web_session option \<Rightarrow> web_session option web" where
  "audit_session e p session =
     (if p_TokenID p \<noteq> [] then w_return None
      else if session = None then web_Session e
      else w_return session)"

definition auditWithOIDCSession ::
    "web_request \<Rightarrow> principal \<Rightarrow> web_session option \<Rightarrow> string \<Rightarrow> string \<Rightarrow> string \<Rightarrow> (string \<times> string) list \<Rightarrow> unit web" where
  "auditWithOIDCSession e p session action result reason attrs b =
     (if result = ''success'' \<and> MutationAuditRecorded (w_ctx (h_world (wb_api b))) then (b, Inr ())
      else w_then (audit_session e p session) (\<lambda>s.
        w_api (audit (with_session e s) p action result reason attrs)) b)"

definition web_audit :: "web_request \<Rightarrow> principal \<Rightarrow> string \<Rightarrow> string \<Rightarrow> string \<Rightarrow> (string \<times> string) list \<Rightarrow> unit web" where
  "web_audit e p action result reason attrs = auditWithOIDCSession e p None action result reason attrs"

definition web_prepare_audit :: "web_request \<Rightarrow> principal \<Rightarrow> string \<Rightarrow> (string \<times> string) list \<Rightarrow> unit web" where
  "web_prepare_audit e p action attrs =
     w_then (audit_session e p None) (\<lambda>s. w_api (prepareMutationAudit (with_session e s) p action attrs))"

end
