(* ===== verification/WebLogin.thy ===== *)
theory WebLogin
  imports WebState
begin

text \<open>
  Login with an OIDC provider (\<open>internal/webauth/oidc.go\<close>): the state a login leaves in the store and
  in a cookie, the callback that turns it into a session, and the way out. Logging is left out.
\<close>

definition hour :: time where "hour = 60 * minute"

definition oidcStateTTL :: time where "oidcStateTTL = 5 * minute"
definition oidcSessionTTL :: time where "oidcSessionTTL = 8 * hour"

section \<open>Cookies\<close>

definition web_cookie :: "web_request \<Rightarrow> web_auth \<Rightarrow> string \<Rightarrow> string \<Rightarrow> int \<Rightarrow> set_cookie" where
  "web_cookie e a name v age =
     \<lparr>ck_Name = name, ck_Value = v, ck_Path = ''/'', ck_Strict = False,
      ck_Secure = requestIsHTTPS e (wa_publicBaseURL a), ck_MaxAge = age\<rparr>"

definition setStateCookie :: "web_request \<Rightarrow> web_auth \<Rightarrow> string \<Rightarrow> string \<Rightarrow> bool web" where
  "setStateCookie e a state target =
     (case wa_encode a [(''state'', state), (''next'', target)] of
        None \<Rightarrow> w_return False
      | Some encoded \<Rightarrow> w_then (add_cookie (web_cookie e a stateCookie encoded 300)) (\<lambda>_. w_return True))"

definition setSessionCookie :: "web_request \<Rightarrow> web_auth \<Rightarrow> string \<Rightarrow> unit web" where
  "setSessionCookie e a sessionID = add_cookie (web_cookie e a sessionCookie sessionID (oidcSessionTTL div second))"

definition clearCookie :: "web_request \<Rightarrow> web_auth \<Rightarrow> string \<Rightarrow> unit web" where
  "clearCookie e a name = add_cookie (web_cookie e a name [] (- 1))"

definition failState :: "web_request \<Rightarrow> web_auth \<Rightarrow> string \<Rightarrow> 'a web" where
  "failState e a message =
     w_then (clearCookie e a stateCookie) (\<lambda>_.
       w_answer (Located (''/manage/login?error='' @ wx_query_escape e message)))"

section \<open>Starting a login\<close>

definition oauth2_redirect :: "web_request \<Rightarrow> web_auth \<Rightarrow> string" where
  "oauth2_redirect e a =
     (if wa_redirectURL a \<noteq> [] then wa_redirectURL a
      else let baseURL = external_base e (wa_publicBaseURL a) in
           if baseURL \<noteq> [] then baseURL @ ''/auth/callback'' else [])"

definition draw :: "string \<Rightarrow> string web" where
  "draw message = w_then random_string (\<lambda>r. case r of
     None \<Rightarrow> w_answer (PlainText 500 message)
   | Some s \<Rightarrow> w_return s)"

definition Login :: "web_request \<Rightarrow> web_auth \<Rightarrow> web_answer web" where
  "Login e a =
     (let target = hx_query (wx_api e) ''next'' in
      w_then (draw ''failed to start OIDC login'') (\<lambda>state.
      w_then (draw ''failed to start OIDC login'') (\<lambda>nonce.
      w_then (draw ''failed to start OIDC login'') (\<lambda>pkceVerifier.
      w_then (w_call (db_write (\<lambda>s. CreateOIDCState s
        \<lparr>t_StateHash = wa_hashState a state, t_Nonce = nonce, t_PKCEVerifier = pkceVerifier,
         t_NextPath = safeRedirectPath target, t_CreatedAt = wx_now e, t_ExpiresAt = wx_now e + oidcStateTTL\<rparr>))) (\<lambda>r.
        case r of
          Inl _ \<Rightarrow> w_answer (PlainText 500 ''failed to persist OIDC state'')
        | Inr _ \<Rightarrow>
            w_then (setStateCookie e a state target) (\<lambda>ok.
              if ok then w_return (Located (wa_authCodeURL a (oauth2_redirect e a) state nonce pkceVerifier))
              else w_answer (PlainText 500 ''failed to start OIDC login'')))))))"

section \<open>The callback\<close>

text \<open>The first part accepts the state: the cookie, the query and the store agree on it.\<close>

definition accept_state :: "web_request \<Rightarrow> web_auth \<Rightarrow> oidc_state web" where
  "accept_state e a =
     (case request_cookie e stateCookie of
        None \<Rightarrow> failState e a ''OIDC session expired. Start login again.''
      | Some v \<Rightarrow>
          (case wa_decode a v of
             None \<Rightarrow> failState e a ''OIDC session cookie is invalid. Start login again.''
           | Some payload \<Rightarrow>
               let callbackState = hx_query (wx_api e) ''state'' in
               if callbackState \<noteq> (case map_of payload ''state'' of None \<Rightarrow> [] | Some s \<Rightarrow> s)
               then failState e a ''OIDC state mismatch. Start login again.''
               else
                 w_then (w_call (db_write (\<lambda>s. ConsumeOIDCState s (wa_hashState a callbackState) (wx_now e)))) (\<lambda>r.
                   case r of
                     Inl _ \<Rightarrow> failState e a ''OIDC session expired or was already used. Start login again.''
                   | Inr state \<Rightarrow> w_then (clearCookie e a stateCookie) (\<lambda>_. w_return state))))"

text \<open>The second part exchanges the code and verifies the ID token against the nonce of the state.\<close>

definition verified_claims :: "web_request \<Rightarrow> web_auth \<Rightarrow> oidc_state \<Rightarrow> id_claims web" where
  "verified_claims e a state =
     (case wa_exchange a (oauth2_redirect e a) (hx_query (wx_api e) ''code'') (t_PKCEVerifier state) of
        None \<Rightarrow> w_answer (PlainText 502 ''oidc exchange failed'')
      | Some None \<Rightarrow> w_answer (PlainText 502 ''missing id_token'')
      | Some (Some rawIDToken) \<Rightarrow>
          (case wa_verify a rawIDToken of
             None \<Rightarrow> w_answer (PlainText 401 ''invalid id_token'')
           | Some (nonce, claims) \<Rightarrow>
               if nonce \<noteq> t_Nonce state then w_answer (PlainText 401 ''invalid id_token nonce'')
               else case claims of
                      None \<Rightarrow> w_answer (PlainText 401 ''invalid claims'')
                    | Some c \<Rightarrow> w_return c))"

definition claims_session :: "id_claims \<Rightarrow> web_session" where
  "claims_session c =
     \<lparr>ws_Email = ic_Email c, ws_EmailVerified = ic_EmailVerified c, ws_Name = ic_Name c, ws_Sub = ic_Sub c,
      ws_Groups = ic_Groups c, ws_CSRFSecret = []\<rparr>"

definition createSession :: "web_request \<Rightarrow> web_auth \<Rightarrow> web_session \<Rightarrow> string option web" where
  "createSession e a session =
     w_then random_string (\<lambda>r. case r of None \<Rightarrow> w_return None | Some sessionID \<Rightarrow>
     w_then random_string (\<lambda>r. case r of None \<Rightarrow> w_return None | Some csrfSecret \<Rightarrow>
     w_then (w_call (db_write (\<lambda>s. CreateOIDCSession s
       \<lparr>e_SessionHash = wa_hashSessionID a sessionID, e_Subject = ws_Sub session, e_Email = ws_Email session,
        e_EmailVerified = ws_EmailVerified session, e_Name = ws_Name session, e_Groups = ws_Groups session,
        e_CSRFSecret = csrfSecret, e_CreatedAt = wx_now e, e_ExpiresAt = wx_now e + oidcSessionTTL,
        e_LastSeenAt = wx_now e, e_RevokedAt = None\<rparr>))) (\<lambda>r. case r of
          Inl _ \<Rightarrow> w_return None
        | Inr _ \<Rightarrow> w_return (Some sessionID))))"

definition Callback :: "web_request \<Rightarrow> web_auth \<Rightarrow> (web_session \<times> web_answer) web" where
  "Callback e a =
     w_then (accept_state e a) (\<lambda>state.
     w_then (verified_claims e a state) (\<lambda>claims.
     let session = claims_session claims in
     w_then (createSession e a session) (\<lambda>r. case r of
       None \<Rightarrow> w_answer (PlainText 500 ''failed to persist session'')
     | Some sessionID \<Rightarrow>
         w_then (setSessionCookie e a sessionID) (\<lambda>_. w_return (session, Located (t_NextPath state))))))"

section \<open>Leaving\<close>

definition clearSession :: "web_request \<Rightarrow> web_auth \<Rightarrow> unit web" where
  "clearSession e a =
     w_then (case request_cookie e sessionCookie of
               None \<Rightarrow> w_return ()
             | Some cookie \<Rightarrow>
                 w_then (w_call (db_write (\<lambda>s. (RevokeOIDCSession s (wa_hashSessionID a cookie) (wx_now e), Inr ())))) (\<lambda>_.
                   w_return ())) (\<lambda>_.
     w_then (clearCookie e a sessionCookie) (\<lambda>_. clearCookie e a stateCookie))"

definition absoluteURL :: "web_request \<Rightarrow> web_auth \<Rightarrow> string \<Rightarrow> string" where
  "absoluteURL e a path =
     (if (case wx_parse e path of Some u \<Rightarrow> IsAbs u | None \<Rightarrow> False) then path
      else let baseURL = external_base e (wa_publicBaseURL a) in
           if baseURL = [] then []
           else baseURL @ (if has_prefix path ''/'' then path else ''/'' @ path))"

definition providerLogoutURL :: "web_request \<Rightarrow> web_auth \<Rightarrow> string \<Rightarrow> string" where
  "providerLogoutURL e a target =
     (case wx_parse e (wa_logoutURL a) of
        None \<Rightarrow> target
      | Some _ \<Rightarrow>
          let postLogout = absoluteURL e a target in
          wx_with_query e (wa_logoutURL a)
            ((if wa_clientID a \<noteq> [] then [(''client_id'', wa_clientID a)] else []) @
             (if postLogout \<noteq> [] then [(''post_logout_redirect_uri'', postLogout)] else [])))"

definition Logout :: "web_request \<Rightarrow> web_auth \<Rightarrow> string \<Rightarrow> web_answer web" where
  "Logout e a target0 =
     w_then (clearSession e a) (\<lambda>_.
       let target = (if target0 = [] then ''/'' else target0) in
       w_return (Located (if wa_logoutURL a \<noteq> [] then providerLogoutURL e a target else target)))"

section \<open>The pages of the login\<close>

text \<open>The other handlers run behind \<open>Require\<close>.\<close>

definition Require :: "web_request \<Rightarrow> web_auth \<Rightarrow> string \<Rightarrow> web_answer web \<Rightarrow> web_answer web" where
  "Require e a uri handler =
     w_then (web_Session e) (\<lambda>s. case s of
       Some _ \<Rightarrow> handler
     | None \<Rightarrow> w_return (Located (''/auth/login?next='' @ wx_query_escape e uri)))"

end
