(* ===== verification/ManageAuth.thy ===== *)
theory ManageAuth
  imports WebLogin
begin

text \<open>
  Who manages the forge from a browser (\<open>internal/httpapi/router_manage_auth.go\<close>,
  \<open>manage_sessions.go\<close> and the login entries of \<open>router_audit.go\<close>): the login with a token and with
  OIDC, the session behind a cookie, the principal of a request and the check of its CSRF secret.
  Logging is left out.
\<close>

definition manageTokenCookie :: string where "manageTokenCookie = ''puppet_forge_manage_token''"
definition manageCSRFCookie :: string where "manageCSRFCookie = ''puppet_forge_manage_csrf''"
definition manageSessionTTL :: time where "manageSessionTTL = 8 * hour"

section \<open>Sessions of a token\<close>

definition session_Create :: "web_request \<Rightarrow> string \<Rightarrow> string \<Rightarrow> time \<Rightarrow> (string \<times> string) option web" where
  "session_Create e credentialHash credentialID ttl =
     (if credentialHash = [] then w_return None
      else w_then random_string (\<lambda>r. case r of None \<Rightarrow> w_return None | Some sessionID \<Rightarrow>
        w_then random_string (\<lambda>r. case r of None \<Rightarrow> w_return None | Some csrfSecret \<Rightarrow>
        w_then (w_call (db_write (\<lambda>s. CreateManageSession s
          \<lparr>n_SessionHash = wx_manage_hash e sessionID, n_CredentialHash = credentialHash, n_CredentialID = credentialID,
           n_AuthMethod = ''token'', n_CSRFSecret = csrfSecret, n_CreatedAt = wx_now e, n_ExpiresAt = wx_now e + ttl,
           n_LastSeenAt = wx_now e, n_RevokedAt = None\<rparr>))) (\<lambda>r. case r of
             Inl _ \<Rightarrow> w_return None
           | Inr _ \<Rightarrow> w_return (Some (sessionID, csrfSecret))))))"

definition session_Session :: "web_request \<Rightarrow> string \<Rightarrow> manage_session option web" where
  "session_Session e sessionID =
     (if sessionID = [] then w_return None
      else w_then (w_call (db_write (\<lambda>s. GetManageSession s (wx_manage_hash e sessionID) (wx_now e)))) (\<lambda>r. case r of
        Inl _ \<Rightarrow> w_return None
      | Inr n \<Rightarrow> w_return (Some n)))"

definition session_Delete :: "web_request \<Rightarrow> string \<Rightarrow> unit web" where
  "session_Delete e sessionID =
     (if sessionID = [] then w_return ()
      else w_then (w_call (db_write (\<lambda>s. (RevokeManageSession s (wx_manage_hash e sessionID) (wx_now e), Inr ())))) (\<lambda>_.
        w_return ()))"

section \<open>Cookies\<close>

definition manage_cookie :: "web_request \<Rightarrow> string \<Rightarrow> string \<Rightarrow> int \<Rightarrow> set_cookie" where
  "manage_cookie e name v age =
     \<lparr>ck_Name = name, ck_Value = v, ck_Path = ''/manage'', ck_Strict = True, ck_Secure = forwarded_https e,
      ck_MaxAge = age\<rparr>"

definition clearManageTokenCookie :: "web_request \<Rightarrow> unit web" where
  "clearManageTokenCookie e = add_cookie (manage_cookie e manageTokenCookie [] (- 1))"

definition setManageCSRFTokenCookie :: "web_request \<Rightarrow> string \<Rightarrow> unit web" where
  "setManageCSRFTokenCookie e token = add_cookie (manage_cookie e manageCSRFCookie token (8 * hour div second))"

definition clearManageCSRFToken :: "web_request \<Rightarrow> unit web" where
  "clearManageCSRFToken e = add_cookie (manage_cookie e manageCSRFCookie [] (- 1))"

section \<open>The principal of a request\<close>

text \<open>\<open>refreshManageAuthorizer\<close> followed by the snapshot it leaves.\<close>

definition manage_authorizer :: "web_request \<Rightarrow> (string + authorizer option) web" where
  "manage_authorizer e =
     w_api (h_access (\<lambda>(r, s).
       case refreshManageAuthorizer (ne_lower (hx_net (wx_api e))) (hx_busy (wx_api e)) s (hx_outage (wx_api e)) (wx_now e) r of
         (r1, Some err) \<Rightarrow> ((r1, s), Inl err)
       | (r1, None) \<Rightarrow> ((r1, s), Inr (rt_authorizer r1))))"

definition web_record_token :: "web_request \<Rightarrow> principal \<Rightarrow> unit web" where
  "web_record_token e p = w_api (record_token (wx_api e) p)"

text \<open>What the session of a token makes of the request: a decision, or \<open>None\<close> when the search goes on.\<close>

definition token_principal :: "web_request \<Rightarrow> authorizer option \<Rightarrow> principal option option web" where
  "token_principal e a =
     (case request_cookie e manageTokenCookie of
        None \<Rightarrow> w_return None
      | Some cookie \<Rightarrow>
          w_then (session_Session e cookie) (\<lambda>session. case session of
            None \<Rightarrow> w_return None
          | Some n \<Rightarrow>
              if n_AuthMethod n \<noteq> ''token'' then w_return None
              else (case AuthenticateTokenDigest a (n_CredentialHash n) of
                      None \<Rightarrow> w_return None
                    | Some p \<Rightarrow>
                        if \<not> (p_CanPublish p \<or> p_CanManageTeam p \<or> p_CanAdmin p) then w_return None
                        else if n_CredentialID n \<noteq> [] \<and> n_CredentialID n \<noteq> p_TokenID p then w_return (Some None)
                        else w_then (web_record_token e p) (\<lambda>_. w_return (Some (Some p))))))"

definition auth_env_of :: "web_request \<Rightarrow> auth_env" where
  "auth_env_of e = \<lparr>ae_lower = ne_lower (hx_net (wx_api e)), ae_now = wx_now e\<rparr>"

definition oidc_principal :: "web_request \<Rightarrow> authorizer option \<Rightarrow> principal option web" where
  "oidc_principal e a =
     w_then (web_Session e) (\<lambda>session. case session of
       None \<Rightarrow> w_return None
     | Some s \<Rightarrow> w_return (AuthenticateOIDC (auth_env_of e) a (AuthorizationEmail s) (ws_Sub s) (ws_Groups s)))"

definition managePrincipal :: "web_request \<Rightarrow> (string + principal option) web" where
  "managePrincipal e =
     w_then (manage_authorizer e) (\<lambda>x. case x of
       Inl err \<Rightarrow> w_return (Inl err)
     | Inr a \<Rightarrow>
         if \<not> Enabled a then w_return (Inr None)
         else w_then (token_principal e a) (\<lambda>decided. case decided of
           Some p \<Rightarrow> w_return (Inr p)
         | None \<Rightarrow> w_then (oidc_principal e a) (\<lambda>p. w_return (Inr p))))"

definition requireManage :: "web_request \<Rightarrow> principal web" where
  "requireManage e =
     w_then (managePrincipal e) (\<lambda>x. case x of
       Inl _ \<Rightarrow> w_fail e 503 (Plain ''access configuration is temporarily unavailable'')
     | Inr (Some p) \<Rightarrow> w_return p
     | Inr None \<Rightarrow>
         if wx_auth e = None then w_answer (Located ''/manage/login'')
         else w_then (web_Session e) (\<lambda>session.
           if session = None then w_answer (Located ''/manage/login'')
           else w_answer (Located (''/manage/login?error='' @ wx_query_escape e ''OIDC account is not allowed to manage modules''))))"

section \<open>The CSRF secret\<close>

text \<open>Whether the headers say that the request comes from a page of this site, or why not.\<close>

definition checkManageRequestSourceForCSRF :: "web_request \<Rightarrow> string option" where
  "checkManageRequestSourceForCSRF e =
     (let net = hx_net (wx_api e); lower = ne_lower net; same = ne_equal_fold net; header = hx_header (wx_api e);
          fetchSite = lower (trim_space (header ''Sec-Fetch-Site''));
          origin = trim_space (header ''Origin'');
          source = (if origin = [] then trim_space (header ''Referer'') else origin)
      in if fetchSite = ''cross-site'' then Some ''fetch_site_cross_site''
         else if source = [] \<or> same source ''null'' then None
         else case wx_parse e source of
           None \<Rightarrow> Some ''source_origin_invalid''
         | Some sourceURL \<Rightarrow>
             if wu_Scheme sourceURL = [] \<or> wu_Host sourceURL = [] then Some ''source_origin_invalid''
             else
               let sourceScheme = lower (wu_Scheme sourceURL) in
               if sourceScheme \<noteq> ''http'' \<and> sourceScheme \<noteq> ''https'' then Some ''source_scheme_invalid''
               else if fetchSite = ''same-origin'' then None
               else case wx_parse e (external_base e (wx_publicBaseURL e)) of
                 None \<Rightarrow> Some ''expected_origin_invalid''
               | Some expectedURL \<Rightarrow>
                   if wu_Scheme expectedURL = [] \<or> wu_Host expectedURL = [] then Some ''expected_origin_invalid''
                   else
                     let expectedScheme = lower (wu_Scheme expectedURL) in
                     if sourceScheme = ''http'' \<and> expectedScheme = ''https'' then Some ''source_scheme_downgrade''
                     else if \<not> same (wu_Host sourceURL) (wu_Host expectedURL) then
                       (if authorityAllowed net (wu_Host sourceURL) (bd_allowedPublicHosts (hx_boundary (wx_api e)))
                        then None else Some ''source_host_mismatch'')
                     else if sourceScheme = expectedScheme then None
                     else if sourceScheme = ''https'' \<and> expectedScheme = ''http'' then None
                     else Some ''source_origin_mismatch'')"

definition bad_csrf :: "web_request \<Rightarrow> 'a web" where
  "bad_csrf e = w_fail e 403 (Plain ''invalid csrf token'')"

definition requireManageCSRF :: "web_request \<Rightarrow> unit web" where
  "requireManageCSRF e =
     (if checkManageRequestSourceForCSRF e \<noteq> None then w_fail e 403 (Plain ''cross-origin request rejected'')
      else case request_cookie e manageCSRFCookie of
        None \<Rightarrow> bad_csrf e
      | Some cookie \<Rightarrow>
          let token = wx_post e ''csrf_token'' in
          if cookie = [] \<or> token = [] \<or> cookie \<noteq> token then bad_csrf e
          else (case request_cookie e manageTokenCookie of
            Some sessionID \<Rightarrow>
              w_then (session_Session e sessionID) (\<lambda>session. case session of
                None \<Rightarrow> bad_csrf e
              | Some n \<Rightarrow> if n_CSRFSecret n = token then w_return () else bad_csrf e)
          | None \<Rightarrow>
              if wx_auth e = None then w_return ()
              else w_then (web_Session e) (\<lambda>session. case session of
                None \<Rightarrow> bad_csrf e
              | Some s \<Rightarrow> if ws_CSRFSecret s = token then w_return () else bad_csrf e)))"

text \<open>The token that goes into a form, or \<open>None\<close> when none can be drawn.\<close>

definition ensureManageCSRFToken :: "web_request \<Rightarrow> string option web" where
  "ensureManageCSRFToken e =
     (let give = (\<lambda>secret. w_then (setManageCSRFTokenCookie e secret) (\<lambda>_. w_return (Some secret)));
          fresh = (case request_cookie e manageCSRFCookie of
             Some c \<Rightarrow> if c \<noteq> [] then w_return (Some c)
                       else w_then random_string (\<lambda>r. case r of None \<Rightarrow> w_return None | Some t \<Rightarrow> give t)
           | None \<Rightarrow> w_then random_string (\<lambda>r. case r of None \<Rightarrow> w_return None | Some t \<Rightarrow> give t));
          from_oidc = w_then (web_Session e) (\<lambda>session. case session of
             Some s \<Rightarrow> if ws_CSRFSecret s \<noteq> [] then give (ws_CSRFSecret s) else fresh
           | None \<Rightarrow> fresh)
      in case request_cookie e manageTokenCookie of
           None \<Rightarrow> from_oidc
         | Some cookie \<Rightarrow>
             w_then (session_Session e cookie) (\<lambda>session. case session of
               Some n \<Rightarrow> give (n_CSRFSecret n)
             | None \<Rightarrow> from_oidc))"

section \<open>The pages\<close>

definition audited_team ::
    "web_request \<Rightarrow> web_session \<Rightarrow> string list \<Rightarrow> team_config \<Rightarrow> auth_error + string list" where
  "audited_team e session teams cfg =
     (if IsGlobalAdminConfig cfg then Inr teams
      else sum_bind (NewAuthorizer (auth_env_of e) [cfg]) (\<lambda>a.
        case AuthenticateOIDC (auth_env_of e) (Some a) (AuthorizationEmail session) (ws_Sub session) (ws_Groups session) of
          None \<Rightarrow> Inr teams
        | Some p \<Rightarrow> Inr (if p_CanPublish p \<or> p_CanManageTeam p then teams @ [tc_Team cfg] else teams)))"

definition oidcAuditTeams :: "web_request \<Rightarrow> team_config list \<Rightarrow> web_session \<Rightarrow> auth_error + string list" where
  "oidcAuditTeams e configs session =
     sum_bind (fold_sum (audited_team e session) [] configs) (\<lambda>teams. Inr (sort teams))"

definition auditOIDCLogin :: "web_request \<Rightarrow> web_session \<Rightarrow> unit web" where
  "auditOIDCLogin e session =
     w_then (w_call (db_read (\<lambda>s. Inr (LoadTeamConfigs s)))) (\<lambda>r.
       let teams = (case r of
             Inl _ \<Rightarrow> []
           | Inr configs \<Rightarrow> (case oidcAuditTeams e configs session of Inl _ \<Rightarrow> [] | Inr ts \<Rightarrow> ts))
       in auditWithOIDCSession e no_principal (Some session) ''oidc_login'' ''success'' ''none''
            [(''actor_teams'', joined_by '','' teams)])"

definition loginPage :: "web_request \<Rightarrow> web_answer web" where
  "loginPage e =
     (case wx_auth e of
        None \<Rightarrow> w_return (Located ''/'')
      | Some a \<Rightarrow>
          w_then (w_api (requireSharedRateLimit (wx_api e) ''auth-login'' 60 minute ''too many login attempts'')) (\<lambda>_.
          w_then (clearManageTokenCookie e) (\<lambda>_.
          w_then (clearManageCSRFToken e) (\<lambda>_. Login e a))))"

definition callbackPage :: "web_request \<Rightarrow> web_answer web" where
  "callbackPage e =
     (case wx_auth e of
        None \<Rightarrow> w_return (Located ''/'')
      | Some a \<Rightarrow>
          w_then (w_api (requireSharedRateLimit (wx_api e) ''auth-callback'' 60 minute ''too many login callback attempts'')) (\<lambda>_.
          w_then (Callback e a) (\<lambda>(session, answer).
          w_then (auditOIDCLogin e session) (\<lambda>_. w_return answer))))"

definition logoutPage :: "web_request \<Rightarrow> web_answer web" where
  "logoutPage e =
     (case wx_auth e of
        None \<Rightarrow> w_return (Located ''/'')
      | Some a \<Rightarrow>
          w_then (web_audit e no_principal ''oidc_logout'' ''success'' ''none'' []) (\<lambda>_. Logout e a ''/''))"

definition renderManageLoginStatus :: "web_request \<Rightarrow> string \<Rightarrow> int \<Rightarrow> 'a web" where
  "renderManageLoginStatus e message status =
     w_answer (Html ''login'' status [(''error'', message), (''oidc'', if wx_auth e = None then ''false'' else ''true'')])"

definition clear_oidc :: "web_request \<Rightarrow> unit web" where
  "clear_oidc e = (case wx_auth e of None \<Rightarrow> w_return () | Some a \<Rightarrow> clearSession e a)"

text \<open>The login with a token, from the token on.\<close>

definition token_login :: "web_request \<Rightarrow> string \<Rightarrow> web_answer web" where
  "token_login e token =
     w_then (manage_authorizer e) (\<lambda>x. case x of
       Inl _ \<Rightarrow> renderManageLoginStatus e ''access configuration is temporarily unavailable'' 200
     | Inr a \<Rightarrow>
         (case AuthenticateToken a token of
            None \<Rightarrow>
              w_then (web_audit e no_principal ''token_login'' ''failure'' ''unauthorized'' []) (\<lambda>_.
                renderManageLoginStatus e ''publish or admin token required'' 200)
          | Some p \<Rightarrow>
              if \<not> p_CanPublish p \<and> \<not> p_CanAdmin p then
                w_then (web_audit e p ''token_login'' ''failure'' ''unauthorized'' []) (\<lambda>_.
                  renderManageLoginStatus e ''publish or admin token required'' 200)
              else
                w_then (web_record_token e p) (\<lambda>_ b.
                  let hasher = rt_tokenHasher (h_authz (wb_api b)) in
                  if hasher = None then w_fail e 503 (Plain ''access token hashing is not configured'') b
                  else
                    w_then (clear_oidc e) (\<lambda>_.
                    w_then (session_Create e (Digest hasher token) (p_TokenID p) manageSessionTTL) (\<lambda>r. case r of
                      None \<Rightarrow> w_fail e 500 (Plain ''failed to create manage session'')
                    | Some (sessionID, csrfSecret) \<Rightarrow>
                        w_then (add_cookie (manage_cookie e manageTokenCookie sessionID (manageSessionTTL div second))) (\<lambda>_.
                        w_then (setManageCSRFTokenCookie e csrfSecret) (\<lambda>_.
                        w_then (web_audit e p ''token_login'' ''success'' ''none'' [(''team'', p_Team p)]) (\<lambda>_.
                          w_return (Located ''/manage'')))))) b)))"

definition manageLoginPage :: "web_request \<Rightarrow> web_answer web" where
  "manageLoginPage e =
     (if rq_Method (wx_http e) = ''GET''
      then renderManageLoginStatus e (hx_query (wx_api e) ''error'') 200
      else if rq_Method (wx_http e) = ''POST'' then
        w_then (w_api (allowSharedRateLimit (wx_api e) ''manage-login'' 20 minute)) (\<lambda>r. case r of
          Inl _ \<Rightarrow> renderManageLoginStatus e ''login rate limit service is unavailable'' 503
        | Inr allowed \<Rightarrow>
            if \<not> allowed then renderManageLoginStatus e ''too many login attempts'' 200
            else token_login e (trim_space (hx_form (wx_api e) ''token'')))
      else w_fail e 405 (Plain ''method not allowed''))"

definition manageLogoutPage :: "web_request \<Rightarrow> web_answer web" where
  "manageLogoutPage e =
     (if rq_Method (wx_http e) \<noteq> ''POST'' then w_fail e 405 (Plain ''method not allowed'')
      else
        w_then (requireManageCSRF e) (\<lambda>_.
        w_then (managePrincipal e) (\<lambda>x.
        let p = (case x of Inr (Some p) \<Rightarrow> p | _ \<Rightarrow> no_principal) in
        w_then (web_Session e) (\<lambda>session.
        w_then (case request_cookie e manageTokenCookie of None \<Rightarrow> w_return () | Some cookie \<Rightarrow> session_Delete e cookie) (\<lambda>_.
        w_then (clearManageTokenCookie e) (\<lambda>_.
        w_then (clearManageCSRFToken e) (\<lambda>_.
        w_then (web_audit e p ''manage_logout'' ''success'' ''none'' [(''team'', p_Team p)]) (\<lambda>_.
          case wx_auth e of
            None \<Rightarrow> w_return (Located ''/manage/login'')
          | Some a \<Rightarrow>
              if session \<noteq> None then Logout e a ''/manage/login''
              else w_then (clearSession e a) (\<lambda>_. w_return (Located ''/manage/login''))))))))))"

end
