(* ===== verification/ManageForms.thy ===== *)
theory ManageForms
  imports ManageAuth
begin

text \<open>
  The forms that change the access configuration (\<open>internal/httpapi/router_manage_access.go\<close>,
  \<open>router_manage_spaces.go\<close>, \<open>router_manage_tokens.go\<close>) as functions from the stored configurations
  and the fields of the form to the configurations to store, and the summary of a change for the
  journal. The slices of the source that are changed in place are returned changed.
\<close>

section \<open>Fields and errors\<close>

definition form_value :: "web_request \<Rightarrow> string \<Rightarrow> string" where
  "form_value e field = hx_form (wx_api e) field"

definition form_text :: "web_request \<Rightarrow> string \<Rightarrow> string" where
  "form_text e field = trim_space (form_value e field)"

text \<open>An error of the form, of the authorizer made from it, or of the store.\<close>

datatype form_error =
    FormError string
  | AccessError auth_error
  | BackendError service_error

fun form_http_error :: "web_request \<Rightarrow> form_error \<Rightarrow> http_error" where
  "form_http_error e (FormError message) = Plain message"
| "form_http_error e (AccessError err) = Plain (wx_auth_text e err)"
| "form_http_error e (BackendError err) = Service err"

definition manageFormErrorStatus :: "form_error \<Rightarrow> int" where
  "manageFormErrorStatus err = (case err of BackendError _ \<Rightarrow> 500 | _ \<Rightarrow> 400)"

definition manageErrorMessage :: "web_request \<Rightarrow> int \<Rightarrow> http_error \<Rightarrow> string" where
  "manageErrorMessage e status err =
     (let message = safeErrorMessage (hx_text (wx_api e)) status err; request_id = hx_request_id (wx_api e) in
      if 500 \<le> status \<and> request_id \<noteq> [] then message @ '' (request_id: '' @ request_id @ '')'' else message)"

definition firstNonEmpty :: "string list \<Rightarrow> string" where
  "firstNonEmpty values = (case find (\<lambda>v. v \<noteq> []) values of None \<Rightarrow> [] | Some v \<Rightarrow> v)"

definition splitLineValues :: "string \<Rightarrow> string list" where
  "splitLineValues raw = cleaned (split_on (CHR 0x0A) raw)"

definition joinLineValues :: "string list \<Rightarrow> string" where
  "joinLineValues xs = joined_by [CHR 0x0A] xs"

section \<open>Configurations\<close>

definition findAccessConfig :: "team_config list \<Rightarrow> string \<Rightarrow> team_config option" where
  "findAccessConfig configs team = find (\<lambda>cfg. tc_Team cfg = team) configs"

definition hasNoAccessConfig :: "team_config \<Rightarrow> bool" where
  "hasNoAccessConfig cfg =
     (tc_ReadTokens cfg = [] \<and> tc_PublishTokens cfg = [] \<and> tc_ReadTokenRecords cfg = [] \<and>
      tc_PublishTokenRecords cfg = [] \<and> tc_PublishOwners cfg = [] \<and> tc_OIDCGroups cfg = [] \<and>
      tc_OIDCTeamAdminEmails cfg = [] \<and> tc_OIDCTeamAdminGroups cfg = [] \<and> tc_OIDCEmails cfg = [] \<and>
      tc_OIDCSubjects cfg = [] \<and> tc_OIDCDomains cfg = [])"

definition isEmptyAccessConfig :: "team_config \<Rightarrow> bool" where
  "isEmptyAccessConfig cfg =
     (hasNoAccessConfig cfg \<and> tc_AdminTokens cfg = [] \<and> tc_OIDCAdminGroups cfg = [] \<and>
      tc_OIDCAdminEmails cfg = [] \<and> tc_OIDCAdminSubjects cfg = [])"

definition add_owner :: "string \<Rightarrow> string list \<Rightarrow> string list" where
  "add_owner owner0 owners =
     (let owner = trim_space owner0 in if owner = [] \<or> owner \<in> set owners then owners else owners @ [owner])"

definition publishOwnersFromExtra :: "string \<Rightarrow> string list \<Rightarrow> string list" where
  "publishOwnersFromExtra team extraOwners = fold add_owner (trim_space team # extraOwners) []"

definition extraPublishOwnersForForm :: "string \<Rightarrow> string list \<Rightarrow> string list" where
  "extraPublishOwnersForForm team owners =
     filter (\<lambda>owner. owner \<noteq> [] \<and> owner \<noteq> trim_space team) (map trim_space owners)"

definition canManageAccessTeam :: "principal \<Rightarrow> string \<Rightarrow> bool" where
  "canManageAccessTeam p team =
     (if p_CanAdmin p then True
      else if \<not> p_CanManageTeam p then False
      else team \<in> p_ManagedTeams p \<or> p_Team p = team)"

section \<open>Teams\<close>

definition accessTeamConfigFromForm :: "web_request \<Rightarrow> team_config" where
  "accessTeamConfigFromForm e =
     (let team = form_text e ''team'' in
      empty_config\<lparr>tc_Team := team, tc_PublishOwners := publishOwnersFromExtra team [],
        tc_OIDCGroups := splitLineValues (form_value e ''oidc_groups''),
        tc_OIDCTeamAdminEmails := splitLineValues (form_value e ''oidc_team_admin_emails''),
        tc_OIDCTeamAdminGroups := splitLineValues (form_value e ''oidc_team_admin_groups'')\<rparr>)"

text \<open>What a form of a team administrator may not change is taken from the stored configuration.\<close>

definition keep_restricted :: "team_config \<Rightarrow> team_config \<Rightarrow> team_config" where
  "keep_restricted existing cfg =
     cfg\<lparr>tc_OIDCEmails := tc_OIDCEmails existing, tc_OIDCSubjects := tc_OIDCSubjects existing,
         tc_OIDCDomains := tc_OIDCDomains existing, tc_OIDCAdminEmails := tc_OIDCAdminEmails existing,
         tc_OIDCAdminSubjects := tc_OIDCAdminSubjects existing, tc_OIDCAdminGroups := tc_OIDCAdminGroups existing\<rparr>"

definition keep_owners :: "team_config \<Rightarrow> team_config \<Rightarrow> team_config" where
  "keep_owners existing cfg =
     cfg\<lparr>tc_PublishOwners := publishOwnersFromExtra (tc_Team cfg)
           (extraPublishOwnersForForm (tc_Team existing) (tc_PublishOwners existing))\<rparr>"

definition keep_tokens :: "team_config \<Rightarrow> team_config \<Rightarrow> team_config" where
  "keep_tokens existing cfg =
     cfg\<lparr>tc_ReadTokenRecords := tc_ReadTokenRecords existing, tc_PublishTokenRecords := tc_PublishTokenRecords existing\<rparr>"

definition accessConfigsWithUpsertedTeam ::
    "web_request \<Rightarrow> principal \<Rightarrow> team_config list \<Rightarrow> form_error + (team_config list \<times> string)" where
  "accessConfigsWithUpsertedTeam e p configs =
     (let originalTeam = form_text e ''original_team'';
          cfg = accessTeamConfigFromForm e;
          existing = findAccessConfig configs originalTeam
      in if \<not> wx_form_ok e then Inl (FormError ''parse access form'')
         else if tc_Team cfg = [] then Inl (FormError ''team is required'')
         else if \<not> ValidModuleOwner (tc_Team cfg) then Inl (FormError ''team must contain only ASCII letters and digits'')
         else case find (\<lambda>c. tc_Team c \<noteq> originalTeam \<and> ne_equal_fold (hx_net (wx_api e)) (tc_Team c) (tc_Team cfg)) configs of
           Some other \<Rightarrow> Inl (FormError (''team '' @ wx_quote e (tc_Team other) @ '' already exists''))
         | None \<Rightarrow>
             if \<not> p_CanAdmin p \<and> \<not> p_CanManageTeam p then Inl (FormError ''team admin access required'')
             else if \<not> p_CanAdmin p \<and> (\<not> canManageAccessTeam p originalTeam \<or> \<not> canManageAccessTeam p (tc_Team cfg))
             then Inl (FormError ''team admins can edit only their own team'')
             else if \<not> p_CanAdmin p \<and> existing = None
             then Inl (FormError (''team '' @ wx_quote e originalTeam @ '' was not found''))
             else
               let cfg1 = (case existing of
                     None \<Rightarrow> cfg
                   | Some x \<Rightarrow> keep_tokens x ((if p_CanAdmin p then (\<lambda>c. c) else keep_restricted x) (keep_owners x cfg)))
               in Inr (filter (\<lambda>c. tc_Team c \<noteq> originalTeam \<and> tc_Team c \<noteq> tc_Team cfg) configs @ [cfg1],
                       ''team access saved''))"

definition accessConfigsWithoutTeam ::
    "web_request \<Rightarrow> team_config list \<Rightarrow> form_error + (team_config list \<times> string)" where
  "accessConfigsWithoutTeam e configs =
     (let team = form_text e ''team''; kept = filter (\<lambda>c. tc_Team c \<noteq> team) configs in
      if team = [] then Inl (FormError ''team is required'')
      else if length kept = length configs then Inl (FormError (''team '' @ wx_quote e team @ '' was not found''))
      else Inr (kept, ''team access deleted''))"

definition without_admins :: "team_config \<Rightarrow> team_config" where
  "without_admins cfg = cfg\<lparr>tc_OIDCAdminGroups := [], tc_OIDCAdminEmails := [], tc_OIDCAdminSubjects := []\<rparr>"

definition accessConfigsWithGlobalAdmins ::
    "web_request \<Rightarrow> team_config list \<Rightarrow> form_error + (team_config list \<times> string)" where
  "accessConfigsWithGlobalAdmins e configs =
     (if \<not> wx_form_ok e then Inl (FormError ''parse admin access form'')
      else
        let adminCfg = empty_config\<lparr>tc_Team := GlobalAdminTeam,
              tc_OIDCAdminGroups := splitLineValues (form_value e ''oidc_admin_groups''),
              tc_OIDCAdminEmails := splitLineValues (form_value e ''oidc_admin_emails''),
              tc_OIDCAdminSubjects := splitLineValues (form_value e ''oidc_admin_subjects'')\<rparr>
        in Inr (filter (\<lambda>c. \<not> isEmptyAccessConfig c) (map without_admins configs) @
                (if isEmptyAccessConfig adminCfg then [] else [adminCfg]), ''global admin access saved''))"

definition accessConfigsFromForm ::
    "web_request \<Rightarrow> principal \<Rightarrow> team_config list \<Rightarrow> form_error + (team_config list \<times> string)" where
  "accessConfigsFromForm e p configs =
     (let action = form_value e ''action'' in
      if action = ''save_global_admins'' then
        (if p_CanAdmin p then accessConfigsWithGlobalAdmins e configs
         else Inl (FormError ''global admin access required''))
      else if action = ''save_team'' then accessConfigsWithUpsertedTeam e p configs
      else if action = ''delete_team'' then
        (if p_CanAdmin p then accessConfigsWithoutTeam e configs
         else Inl (FormError ''global admin access required''))
      else Inl (FormError ''unknown access form action''))"

section \<open>Publish spaces\<close>

definition update_config :: "string \<Rightarrow> (team_config \<Rightarrow> team_config) \<Rightarrow> team_config list \<Rightarrow> team_config list" where
  "update_config team f configs =
     (case dropWhile (\<lambda>c. tc_Team c \<noteq> team) configs of
        [] \<Rightarrow> configs
      | c # rest \<Rightarrow> takeWhile (\<lambda>c. tc_Team c \<noteq> team) configs @ f c # rest)"

text \<open>\<open>publishSpaceConfigsFromForm\<close> in the order of its checks: the fields, the team, the change.\<close>

definition publish_space_field_error :: "web_request \<Rightarrow> string option" where
  "publish_space_field_error e =
     (let space = form_text e ''space'' in
      if \<not> wx_form_ok e then Some ''parse publish space form''
      else if form_text e ''team'' = [] then Some ''team is required''
      else if \<not> ValidModuleOwner space then Some ''publish space must contain only ASCII letters and digits''
      else if 128 < length space then Some ''publish space must not exceed 128 characters''
      else None)"

definition publish_space_team :: "web_request \<Rightarrow> team_config list \<Rightarrow> form_error + team_config" where
  "publish_space_team e configs =
     (let team = form_text e ''team''; space = form_text e ''space'' in
      case findAccessConfig configs team of
        None \<Rightarrow> Inl (FormError (''team '' @ wx_quote e team @ '' was not found''))
      | Some cfg \<Rightarrow>
          if IsGlobalAdminConfig cfg then Inl (FormError (''team '' @ wx_quote e team @ '' was not found''))
          else if space = tc_Team cfg then Inl (FormError ''the primary team space is managed automatically'')
          else if findAccessConfig configs space \<noteq> None
          then Inl (FormError (''publish space '' @ wx_quote e space @ '' is the primary space of another team''))
          else Inr cfg)"

definition set_extras :: "string \<Rightarrow> string list \<Rightarrow> team_config list \<Rightarrow> team_config list" where
  "set_extras team extras =
     update_config team (\<lambda>c. c\<lparr>tc_PublishOwners := publishOwnersFromExtra (tc_Team c) extras\<rparr>)"

definition assign_space :: "team_config list \<Rightarrow> team_config \<Rightarrow> string \<Rightarrow> team_config list" where
  "assign_space configs cfg space =
     (let extras = extraPublishOwnersForForm (tc_Team cfg) (tc_PublishOwners cfg) in
      set_extras (tc_Team cfg) (sort (if space \<in> set extras then extras else extras @ [space])) configs)"

definition unassign_space ::
    "web_request \<Rightarrow> team_config list \<Rightarrow> team_config \<Rightarrow> string \<Rightarrow> form_error + team_config list" where
  "unassign_space e configs cfg space =
     (let extras = extraPublishOwnersForForm (tc_Team cfg) (tc_PublishOwners cfg) in
      if space \<notin> set extras
      then Inl (FormError (''publish space '' @ wx_quote e space @ '' is not assigned to team '' @ wx_quote e (form_text e ''team'')))
      else Inr (set_extras (tc_Team cfg) (filter (\<lambda>x. x \<noteq> space) extras) configs))"

section \<open>Access tokens\<close>

definition set_record ::
    "string \<Rightarrow> (access_token \<Rightarrow> access_token) \<Rightarrow> team_config \<Rightarrow> team_config" where
  "set_record tokenID f cfg =
     (let upd = (\<lambda>ts. case dropWhile (\<lambda>t. at_ID t \<noteq> tokenID) ts of
            [] \<Rightarrow> ts | t # rest \<Rightarrow> takeWhile (\<lambda>t. at_ID t \<noteq> tokenID) ts @ f t # rest)
      in if find (\<lambda>t. at_ID t = tokenID) (tc_ReadTokenRecords cfg) \<noteq> None
         then cfg\<lparr>tc_ReadTokenRecords := upd (tc_ReadTokenRecords cfg)\<rparr>
         else cfg\<lparr>tc_PublishTokenRecords := upd (tc_PublishTokenRecords cfg)\<rparr>)"

text \<open>The record that \<open>set_record\<close> changes, with its kind.\<close>

definition accessTokenRecordByID :: "team_config \<Rightarrow> string \<Rightarrow> (string \<times> access_token) option" where
  "accessTokenRecordByID cfg tokenID0 =
     (let tokenID = trim_space tokenID0 in
      case find (\<lambda>t. at_ID t = tokenID) (tc_ReadTokenRecords cfg) of
        Some t \<Rightarrow> Some (''read'', t)
      | None \<Rightarrow> map_option (Pair ''publish'') (find (\<lambda>t. at_ID t = tokenID) (tc_PublishTokenRecords cfg)))"

definition activeTokenNameExists :: "web_request \<Rightarrow> team_config \<Rightarrow> string \<Rightarrow> string \<Rightarrow> bool" where
  "activeTokenNameExists e cfg kind name =
     list_ex (\<lambda>t. ne_equal_fold (hx_net (wx_api e)) (trim_space (at_Description t)) name \<and> at_RevokedAt t = None \<and>
                  (case at_ExpiresAt t of None \<Rightarrow> True | Some x \<Rightarrow> wx_now e < x))
       (if kind = ''read'' then tc_ReadTokenRecords cfg
        else if kind = ''publish'' then tc_PublishTokenRecords cfg else [])"

text \<open>Inner \<open>None\<close> is a token that does not expire, outer \<open>None\<close> the error.\<close>

definition tokenExpiry :: "string \<Rightarrow> time \<Rightarrow> time option option" where
  "tokenExpiry raw0 now =
     (let raw = trim_space raw0 in
      if raw = [] \<or> raw = ''0'' then Some None
      else case ParseInt raw of
        None \<Rightarrow> None
      | Some days \<Rightarrow> if days < 1 \<or> 3650 < days then None else Some (Some (now + days * (24 * hour))))"

text \<open>\<open>GenerateAccessToken\<close> from its three random texts: the prefix, the secret and the identifier.\<close>

definition GenerateAccessToken ::
    "(string \<Rightarrow> string) \<Rightarrow> string \<Rightarrow> time \<Rightarrow> string \<Rightarrow> string \<Rightarrow> string \<Rightarrow> (string \<times> access_token) option" where
  "GenerateAccessToken lower kind0 now prefix0 secret token_id =
     (let kind = trim_space (lower kind0); prefix = lower prefix0 in
      if kind \<noteq> ''read'' \<and> kind \<noteq> ''publish'' then None
      else Some (''pf_'' @ kind @ ''_'' @ prefix @ ''_'' @ secret,
        zero_token\<lparr>at_ID := token_id, at_Prefix := ''pf_'' @ kind @ ''_'' @ prefix, at_CreatedAt := now\<rparr>))"

section \<open>The summary of a change\<close>

definition appendValueChanges :: "string list \<Rightarrow> string \<Rightarrow> string list \<Rightarrow> string list \<Rightarrow> string list" where
  "appendValueChanges changes label before after =
     (let listed = joined_by '', '';
          added = sorted_list_of_set (set after - set before);
          removed = sorted_list_of_set (set before - set after)
      in changes @
         (if added = [] then [] else [label @ '' added ['' @ listed added @ '']'']) @
         (if removed = [] then [] else [label @ '' removed ['' @ listed removed @ '']'']))"

definition globalAdminValues :: "(team_config \<Rightarrow> string list) \<Rightarrow> team_config list \<Rightarrow> string list" where
  "globalAdminValues field configs = concat (map field configs)"

definition globalAccessChangeSummary :: "team_config list \<Rightarrow> team_config list \<Rightarrow> string" where
  "globalAccessChangeSummary before after =
     (let change = (\<lambda>label field changes. appendValueChanges changes label (globalAdminValues field before) (globalAdminValues field after));
          changes = change ''admin subjects'' tc_OIDCAdminSubjects
            (change ''admin emails'' tc_OIDCAdminEmails (change ''admin groups'' tc_OIDCAdminGroups []))
      in if changes = [] then ''no effective access changes'' else joined_by ''; '' changes)"

definition accessConfigChangeSummary :: "team_config list \<Rightarrow> team_config list \<Rightarrow> string \<Rightarrow> string" where
  "accessConfigChangeSummary before after team =
     (if team = [] then globalAccessChangeSummary before after
      else
        let afterConfig = findAccessConfig after team;
            (beforeConfig, renamed) =
              (case findAccessConfig before team of
                 Some c \<Rightarrow> (Some c, [])
               | None \<Rightarrow>
                   (case find (\<lambda>c. findAccessConfig after (tc_Team c) = None \<and> \<not> IsGlobalAdminConfig c) before of
                      None \<Rightarrow> (None, [])
                    | Some c \<Rightarrow> (Some c, ''team renamed '' @ tc_Team c @ '' -> '' @ team)));
            stateChange = (if beforeConfig = None then ''team created''
                           else if afterConfig = None then ''team removed'' else renamed);
            field = (\<lambda>f c. case c of None \<Rightarrow> [] | Some x \<Rightarrow> f x);
            change = (\<lambda>label f changes. appendValueChanges changes label (field f beforeConfig) (field f afterConfig));
            changes = change ''team admin groups'' tc_OIDCTeamAdminGroups
              (change ''team admin emails'' tc_OIDCTeamAdminEmails
              (change ''publish groups'' tc_OIDCGroups (if stateChange = [] then [] else [stateChange])))
        in if beforeConfig = None \<and> afterConfig = None then ''team '' @ team @ '' removed''
           else if changes = [] then ''no effective access changes'' else joined_by ''; '' changes)"

end
