(* ===== verification/ManageHandlers.thy ===== *)
theory ManageHandlers
  imports ManageForms
begin

text \<open>
  The handlers behind the management pages that change the access configuration
  (\<open>router_manage_access.go\<close>, \<open>router_manage_tokens.go\<close>, \<open>router_manage_spaces.go\<close>): who may, the
  CSRF secret, the lock, the form, the store, the journal. A page is the answer with the texts it
  shows; navigation and templates are left out.
\<close>

section \<open>Where a form leads back to\<close>

definition manageReturnPath :: "web_request \<Rightarrow> string \<Rightarrow> string" where
  "manageReturnPath e fallback =
     (let target = form_text e ''next'' in
      if target = ''/manage/modules'' \<or> target = ''/manage/teams'' \<or> has_prefix target ''/manage/teams/'' \<or>
         target = ''/manage/admin/access''
      then (case wx_parse_request_uri e target of
              None \<Rightarrow> fallback
            | Some u \<Rightarrow> if \<not> IsAbs u \<and> wu_Host u = [] \<and> \<not> has_prefix target ''//'' then target else fallback)
      else fallback)"

definition manageErrorReturnPath :: "web_request \<Rightarrow> string \<Rightarrow> string" where
  "manageErrorReturnPath e fallback =
     (let target = form_text e ''error_next'' in
      case wx_parse_request_uri e target of
        None \<Rightarrow> manageReturnPath e fallback
      | Some u \<Rightarrow>
          if \<not> IsAbs u \<and> wu_Host u = [] \<and> has_prefix (wu_Path u) ''/manage/modules/'' \<and>
             has_suffix (wu_Path u) ''/force-delete''
          then target else manageReturnPath e fallback)"

definition with_parameter :: "web_request \<Rightarrow> string \<Rightarrow> string \<Rightarrow> string \<Rightarrow> string" where
  "with_parameter e target key message =
     target @ (if CHR ''?'' \<in> set target then ''&'' else ''?'') @ wx_query_escape e key @ ''='' @ wx_query_escape e message"

definition redirectManageResult :: "web_request \<Rightarrow> string \<Rightarrow> string \<Rightarrow> string \<Rightarrow> 'a web" where
  "redirectManageResult e fallback key message =
     w_answer (Located (with_parameter e (manageReturnPath e fallback) key message))"

section \<open>Saving\<close>

definition load_configs :: "team_config list outcome web" where
  "load_configs = w_call (db_read (\<lambda>s. Inr (LoadTeamConfigs s)))"

definition web_env :: "web_request \<Rightarrow> env" where
  "web_env e = request_env (hx_service (wx_api e)) (hx_request (wx_api e))"

definition set_authorizer :: "web_request \<Rightarrow> authorizer \<Rightarrow> unit web" where
  "set_authorizer e a = w_api (\<lambda>h. (h\<lparr>h_authz := setAuthorizer (h_authz h) a (wx_now e)\<rparr>, Inr ()))"

definition saveAccessConfigs :: "web_request \<Rightarrow> team_config list \<Rightarrow> (form_error + unit) web" where
  "saveAccessConfigs e configs b =
     (let r = h_authz (wb_api b); hasher = rt_tokenHasher r;
          all = AccessConfigsWithRuntimeAdmin configs (rt_adminToken r)
      in if configs = [] then (b, Inr (Inl (FormError ''access config must contain at least one team'')))
         else case (if hasher \<noteq> None then NewAuthorizerWithTokenHasher (auth_env_of e) all hasher
                    else NewAuthorizer (auth_env_of e) all) of
           Inl err \<Rightarrow> (b, Inr (Inl (AccessError err)))
         | Inr a \<Rightarrow>
             if \<not> Enabled (Some a)
             then (b, Inr (Inl (FormError ''access config must contain at least one access credential'')))
             else w_then (w_call (db_call (\<lambda>c s.
                    ReplaceTeamConfigs (web_env e) (auth_env_of e) (wx_uuids e) hasher c s configs))) (\<lambda>x. case x of
                      Inl err \<Rightarrow> w_return (Inl (BackendError err))
                    | Inr _ \<Rightarrow> w_then (set_authorizer e a) (\<lambda>_. w_return (Inr ()))) b)"

text \<open>The lock of the access configuration, held until the handler returns.\<close>

definition lock_access_config :: "web_request \<Rightarrow> unit web" where
  "lock_access_config e =
     w_then (w_call io_call) (\<lambda>r. case r of Inl err \<Rightarrow> w_fail e 500 (Service err) | Inr _ \<Rightarrow> w_return ())"

definition manage_method_not_allowed :: "web_request \<Rightarrow> 'a web" where
  "manage_method_not_allowed e = w_fail e 405 (Plain ''method not allowed'')"

definition admin_required :: "web_request \<Rightarrow> string \<Rightarrow> 'a web" where
  "admin_required e message = w_fail e 403 (Plain message)"

section \<open>Pages\<close>

text \<open>A page with a form needs the CSRF token first.\<close>

definition form_page :: "web_request \<Rightarrow> string \<Rightarrow> int \<Rightarrow> (string \<times> string) list \<Rightarrow> 'a web" where
  "form_page e name status texts =
     w_then (ensureManageCSRFToken e) (\<lambda>r. case r of
       None \<Rightarrow> w_fail e 500 (Plain ''failed to generate CSRF token'')
     | Some csrfToken \<Rightarrow> w_answer (Html name status (texts @ [(''csrf_token'', csrfToken)])))"

definition renderManageAccess :: "web_request \<Rightarrow> string \<Rightarrow> 'a web" where
  "renderManageAccess e message0 =
     w_then load_configs (\<lambda>r.
       let configs = (case r of Inl _ \<Rightarrow> [] | Inr cs \<Rightarrow> cs);
           message = (case r of Inl err \<Rightarrow> if message0 = [] then manageErrorMessage e 500 (Service err) else message0
                      | Inr _ \<Rightarrow> message0)
       in form_page e ''access'' 200
            [(''admin_groups'', joinLineValues (globalAdminValues tc_OIDCAdminGroups configs)),
             (''admin_emails'', joinLineValues (globalAdminValues tc_OIDCAdminEmails configs)),
             (''admin_subjects'', joinLineValues (globalAdminValues tc_OIDCAdminSubjects configs)),
             (''message'', hx_query (wx_api e) ''message''), (''error'', message)])"

definition renderManageAccessAddPage :: "web_request \<Rightarrow> string \<Rightarrow> int \<Rightarrow> 'a web" where
  "renderManageAccessAddPage e message status = form_page e ''add-team'' status [(''error'', message)]"

section \<open>Teams and global administrators\<close>

definition accessMutationAudit :: "web_request \<Rightarrow> string \<times> (string \<times> string) list" where
  "accessMutationAudit e =
     (let action = form_text e ''action''; team = form_text e ''team''; originalTeam = form_text e ''original_team'' in
      if action = ''save_global_admins'' then (''change_global_access'', [])
      else if action = ''delete_team'' then (''delete_team'', [(''team'', firstNonEmpty [team, originalTeam])])
      else if action = ''save_team'' then
        (if originalTeam \<noteq> [] \<and> team \<noteq> [] \<and> originalTeam \<noteq> team
         then (''rename_team'', [(''team'', originalTeam), (''new_team'', team)])
         else (''update_team'', [(''team'', firstNonEmpty [team, originalTeam])]))
      else (''change_access_config'', [(''config_action'', action), (''team'', firstNonEmpty [team, originalTeam])]))"

definition actionTeam :: "web_request \<Rightarrow> string" where
  "actionTeam e = firstNonEmpty [form_text e ''team'', form_text e ''original_team'']"

text \<open>Loading and changing, the part of the forms that all three share.\<close>

definition configs_changed ::
    "(team_config list \<Rightarrow> form_error + (team_config list \<times> string)) \<Rightarrow> (form_error + (team_config list \<times> string)) web" where
  "configs_changed f =
     w_then load_configs (\<lambda>r. w_return (case r of Inl err \<Rightarrow> Inl (BackendError err) | Inr configs \<Rightarrow> f configs))"

definition failed_audit :: "web_request \<Rightarrow> principal \<Rightarrow> string \<Rightarrow> http_error \<Rightarrow> (string \<times> string) list \<Rightarrow> unit web" where
  "failed_audit e p action err attrs = web_audit e p action ''failure'' (auditReason (wx_api e) err) attrs"

text \<open>
  What a failed form answers: the page it came from when it names one, or the page again. A refusal for
  lack of rights never loads the configurations; the order of the two loads is kept.
\<close>

definition access_failed :: "web_request \<Rightarrow> principal \<Rightarrow> string \<Rightarrow> (string \<times> string) list \<Rightarrow> form_error \<Rightarrow> 'a web" where
  "access_failed e p action attrs err =
     w_then (failed_audit e p action (form_http_error e err) attrs) (\<lambda>_.
       let message = manageErrorMessage e (manageFormErrorStatus err) (form_http_error e err);
           target = manageReturnPath e []
       in if target \<noteq> [] then redirectManageResult e target ''error'' message
          else renderManageAccess e message)"

definition form_loads :: "web_request \<Rightarrow> principal \<Rightarrow> bool" where
  "form_loads e p =
     (let action = form_value e ''action'' in
      action = ''save_team'' \<or> (p_CanAdmin p \<and> (action = ''save_global_admins'' \<or> action = ''delete_team'')))"

definition access_change :: "web_request \<Rightarrow> principal \<Rightarrow> web_answer web" where
  "access_change e p =
     w_then (lock_access_config e) (\<lambda>_.
     let (action, attrs) = accessMutationAudit e in
     w_then load_configs (\<lambda>before. case before of
       Inl err \<Rightarrow> w_then (failed_audit e p action (Service err) attrs) (\<lambda>_. w_fail e 500 (Service err))
     | Inr beforeConfigs \<Rightarrow>
         w_then (if form_loads e p then configs_changed (accessConfigsFromForm e p)
                 else w_return (accessConfigsFromForm e p [])) (\<lambda>r. case r of
           Inl err \<Rightarrow> access_failed e p action attrs err
         | Inr (configs, message) \<Rightarrow>
             let attrs1 = attrs @ [(''changes'', accessConfigChangeSummary beforeConfigs configs (actionTeam e))] in
             w_then (web_prepare_audit e p action attrs1) (\<lambda>_.
             w_then (saveAccessConfigs e configs) (\<lambda>r. case r of
               Inl err \<Rightarrow> access_failed e p action attrs1 err
             | Inr _ \<Rightarrow>
                 w_then (web_audit e p action ''success'' ''none'' attrs1) (\<lambda>_.
                   redirectManageResult e ''/manage/admin/access'' ''message'' message))))))"

definition manageAccessPage :: "web_request \<Rightarrow> web_answer web" where
  "manageAccessPage e =
     w_then (requireManage e) (\<lambda>p.
       if rq_Method (wx_http e) = ''GET'' then
         (if rq_Path (wx_http e) = ''/manage/access'' then w_return (Located ''/manage/admin/access'')
          else if \<not> p_CanAdmin p then admin_required e ''global admin access required''
          else renderManageAccess e [])
       else if rq_Method (wx_http e) = ''POST'' then
         (if \<not> p_CanAdmin p \<and> \<not> p_CanManageTeam p then admin_required e ''team admin access required''
          else w_then (requireManageCSRF e) (\<lambda>_. access_change e p))
       else manage_method_not_allowed e)"

definition add_team :: "web_request \<Rightarrow> principal \<Rightarrow> web_answer web" where
  "add_team e p =
     (let failed = (\<lambda>err. w_then (failed_audit e p ''create_team'' (form_http_error e err) []) (\<lambda>_.
            renderManageAccessAddPage e (manageErrorMessage e (manageFormErrorStatus err) (form_http_error e err))
              (manageFormErrorStatus err)))
      in if form_value e ''action'' \<noteq> ''save_team'' then
           w_then (failed_audit e p ''create_team'' (Plain ''unknown add-team form action'') []) (\<lambda>_.
             renderManageAccessAddPage e ''unknown add-team form action'' 400)
         else
           w_then (lock_access_config e) (\<lambda>_.
           w_then load_configs (\<lambda>before. case before of
             Inl err \<Rightarrow> w_then (failed_audit e p ''create_team'' (Service err) []) (\<lambda>_. w_fail e 500 (Service err))
           | Inr beforeConfigs \<Rightarrow>
               w_then (configs_changed (accessConfigsWithUpsertedTeam e p)) (\<lambda>r. case r of
                 Inl err \<Rightarrow> failed err
               | Inr (configs, message) \<Rightarrow>
                   let team = form_text e ''team'';
                       attrs = [(''team'', team), (''changes'', accessConfigChangeSummary beforeConfigs configs team)]
                   in w_then (web_prepare_audit e p ''create_team'' attrs) (\<lambda>_.
                      w_then (saveAccessConfigs e configs) (\<lambda>r. case r of
                        Inl err \<Rightarrow> failed err
                      | Inr _ \<Rightarrow>
                          w_then (web_audit e p ''create_team'' ''success'' ''none'' attrs) (\<lambda>_.
                            redirectManageResult e (''/manage/teams/'' @ wx_path_escape e team @ ''/access'') ''message'' message)))))))"

definition manageAccessAddPage :: "web_request \<Rightarrow> web_answer web" where
  "manageAccessAddPage e =
     w_then (requireManage e) (\<lambda>p.
       if \<not> p_CanAdmin p then admin_required e ''admin access required''
       else if rq_Method (wx_http e) = ''POST'' then w_then (requireManageCSRF e) (\<lambda>_. add_team e p)
       else if rq_Method (wx_http e) \<noteq> ''GET'' then manage_method_not_allowed e
       else if rq_Path (wx_http e) = ''/manage/access/add'' then w_return (Located ''/manage/teams/new'')
       else renderManageAccessAddPage e (hx_query (wx_api e) ''error'') 200)"

section \<open>Publish spaces\<close>

definition publishSpaceConfigsFromForm :: "web_request \<Rightarrow> (form_error + (team_config list \<times> string)) web" where
  "publishSpaceConfigsFromForm e =
     (let space = form_text e ''space''; action = form_text e ''action'' in
      case publish_space_field_error e of
        Some message \<Rightarrow> w_return (Inl (FormError message))
      | None \<Rightarrow>
          w_then load_configs (\<lambda>r. case r of
            Inl err \<Rightarrow> w_return (Inl (BackendError err))
          | Inr configs \<Rightarrow>
              (case publish_space_team e configs of
                 Inl err \<Rightarrow> w_return (Inl err)
               | Inr cfg \<Rightarrow>
                   if action = ''assign'' then
                     w_then (w_call (db_read (\<lambda>s. Inr (CountUpstreamModulesByOwner s)))) (\<lambda>r. w_return (case r of
                       Inl err \<Rightarrow> Inl (BackendError err)
                     | Inr spaces \<Rightarrow>
                         if map_of spaces space \<noteq> None
                         then Inl (FormError (''publish space '' @ wx_quote e space @ '' belongs to Official Forge and is read only''))
                         else Inr (assign_space configs cfg space, ''publish space assigned'')))
                   else if action = ''unassign'' then
                     w_return (map_sum (\<lambda>x. x) (\<lambda>cs. (cs, ''publish space unassigned'')) (unassign_space e configs cfg space))
                   else w_return (Inl (FormError ''unknown publish space action'')))))"

definition space_change :: "web_request \<Rightarrow> principal \<Rightarrow> web_answer web" where
  "space_change e p =
     (let attrs = [(''assignment_action'', form_value e ''action''), (''team'', form_value e ''team''),
                   (''space'', form_value e ''space'')];
          action = ''change_publish_spaces'';
          failed = (\<lambda>err. w_then (failed_audit e p action (form_http_error e err) attrs) (\<lambda>_.
            redirectManageResult e ''/manage/admin/spaces'' ''error''
              (manageErrorMessage e (manageFormErrorStatus err) (form_http_error e err))))
      in w_then (lock_access_config e) (\<lambda>_.
         w_then (publishSpaceConfigsFromForm e) (\<lambda>r. case r of
           Inl err \<Rightarrow> failed err
         | Inr (configs, message) \<Rightarrow>
             w_then (web_prepare_audit e p action attrs) (\<lambda>_.
             w_then (saveAccessConfigs e configs) (\<lambda>r. case r of
               Inl err \<Rightarrow> failed err
             | Inr _ \<Rightarrow>
                 w_then (web_audit e p action ''success'' ''none'' attrs) (\<lambda>_.
                   redirectManageResult e ''/manage/admin/spaces'' ''message'' message))))))"

section \<open>Access tokens\<close>

definition draw_token :: "web_request \<Rightarrow> string \<Rightarrow> (string \<times> access_token) web" where
  "draw_token e kind =
     (let failed = w_fail e 400 (Plain ''generate access token'') in
      w_then random_string (\<lambda>prefix. w_then random_string (\<lambda>secret. w_then random_string (\<lambda>token_id.
        case (prefix, secret, token_id) of
          (Some x, Some y, Some z) \<Rightarrow>
            (case GenerateAccessToken (ne_lower (hx_net (wx_api e))) kind (wx_now e) x y z of
               None \<Rightarrow> w_fail e 400 (Plain ''access token type must be read or publish'')
             | Some t \<Rightarrow> w_return t)
        | _ \<Rightarrow> failed))))"

text \<open>The configuration with the new record, and the rotated one revoked.\<close>

definition add_record :: "string \<Rightarrow> access_token \<Rightarrow> team_config \<Rightarrow> team_config" where
  "add_record kind t cfg =
     (if kind = ''read'' then cfg\<lparr>tc_ReadTokenRecords := tc_ReadTokenRecords cfg @ [t]\<rparr>
      else cfg\<lparr>tc_PublishTokenRecords := tc_PublishTokenRecords cfg @ [t]\<rparr>)"

definition revoke_record :: "web_request \<Rightarrow> access_token \<Rightarrow> team_config \<Rightarrow> team_config" where
  "revoke_record e t = set_record (at_ID t) (\<lambda>x. x\<lparr>at_RevokedAt := Some (wx_now e)\<rparr>)"

definition token_saved ::
    "web_request \<Rightarrow> principal \<Rightarrow> string \<Rightarrow> (string \<times> string) list \<Rightarrow> team_config list \<Rightarrow> 'a web \<Rightarrow> 'a web" where
  "token_saved e p action attrs configs answer =
     w_then (web_prepare_audit e p action attrs) (\<lambda>_.
     w_then (saveAccessConfigs e configs) (\<lambda>r. case r of
       Inl err \<Rightarrow> w_then (failed_audit e p action (form_http_error e err) attrs) (\<lambda>_. w_fail e 500 (form_http_error e err))
     | Inr _ \<Rightarrow> w_then (web_audit e p action ''success'' ''none'' attrs) (\<lambda>_. answer)))"

text \<open>The new record from the drawn one: its name, its expiry, its digest.\<close>

definition token_record ::
    "web_request \<Rightarrow> token_hasher \<Rightarrow> access_token option \<Rightarrow> string \<Rightarrow> string \<times> access_token \<Rightarrow> (int \<times> string) + access_token" where
  "token_record e hasher rotated name = (\<lambda>(raw, t).
     let digest = (\<lambda>expires. map_sum (Pair 500) (\<lambda>x. x)
           (RecordToken hasher raw (t\<lparr>at_Description := name, at_ExpiresAt := expires\<rparr>)))
     in case rotated of
          Some old \<Rightarrow> digest (at_ExpiresAt old)
        | None \<Rightarrow>
            (case tokenExpiry (form_value e ''expires_days'') (wx_now e) of
               None \<Rightarrow> Inl (400, ''token expiry must be between 1 and 3650 days'')
             | Some expires \<Rightarrow> digest expires))"

definition createAccessToken ::
    "web_request \<Rightarrow> principal \<Rightarrow> team_config list \<Rightarrow> team_config \<Rightarrow> string \<Rightarrow> access_token option \<Rightarrow> string \<Rightarrow> web_answer web" where
  "createAccessToken e p configs cfg kind0 rotated target b =
     (let hasher = rt_tokenHasher (h_authz (wb_api b));
          kind = ne_lower (hx_net (wx_api e)) (trim_space kind0);
          name = (case rotated of Some old \<Rightarrow> at_Description old | None \<Rightarrow> form_text e ''name'')
      in if kind \<noteq> ''read'' \<and> kind \<noteq> ''publish'' then w_fail e 400 (Plain ''access token role must be read or publish'') b
         else if rotated = None \<and> name = [] then w_fail e 400 (Plain ''token name is required'') b
         else if 200 < length name then w_fail e 400 (Plain ''token name must not exceed 200 characters'') b
         else if rotated = None \<and> activeTokenNameExists e cfg kind name
         then w_fail e 409 (Plain ''an active token with this name and role already exists'') b
         else w_then (draw_token e kind) (\<lambda>drawn.
           case token_record e hasher rotated name drawn of
             Inl (status, message) \<Rightarrow> w_fail e status (Plain message)
           | Inr record \<Rightarrow>
               let change = (\<lambda>c. add_record kind record (case rotated of None \<Rightarrow> c | Some old \<Rightarrow> revoke_record e old c));
                   attrs = [(''team'', tc_Team cfg), (''token_role'', kind), (''token_name'', name),
                            (''token_prefix'', at_Prefix record), (''token_id'', at_ID record)] @
                     (case rotated of None \<Rightarrow> [] | Some old \<Rightarrow> [(''replaces_token_id'', at_ID old)]);
                   action = (if rotated = None then ''create_access_token'' else ''rotate_access_token'')
               in token_saved e p action attrs (update_config (tc_Team cfg) change configs)
                    (form_page e ''token-created'' 200
                       [(''token'', fst drawn), (''name'', name), (''prefix'', at_Prefix record), (''team'', tc_Team cfg),
                        (''kind'', kind), (''next'', target)])) b)"

definition token_action :: "web_request \<Rightarrow> principal \<Rightarrow> team_config list \<Rightarrow> team_config \<Rightarrow> string \<Rightarrow> web_answer web" where
  "token_action e p configs cfg target =
     (let action = form_value e ''action'';
          found = (case accessTokenRecordByID cfg (form_value e ''token_id'') of
             None \<Rightarrow> None | Some (kind, t) \<Rightarrow> if at_RevokedAt t \<noteq> None then None else Some (kind, t))
      in if action = ''create'' then createAccessToken e p configs cfg (form_text e ''role'') None target
         else if action = ''rotate'' then
           (case found of
              None \<Rightarrow> w_fail e 404 (Plain ''access token not found'')
            | Some (kind, t) \<Rightarrow> createAccessToken e p configs cfg kind (Some t) target)
         else if action = ''revoke'' then
           (case found of
              None \<Rightarrow> w_fail e 404 (Plain ''access token not found'')
            | Some (kind, t) \<Rightarrow>
                token_saved e p ''revoke_access_token''
                  [(''team'', form_text e ''team''), (''token_role'', kind), (''token_name'', at_Description t),
                   (''token_prefix'', at_Prefix t), (''token_id'', at_ID t)]
                  (update_config (tc_Team cfg) (revoke_record e t) configs)
                  (redirectManageResult e target ''message'' ''access token revoked''))
         else w_fail e 400 (Plain ''unknown token action''))"

definition team_tokens :: "web_request \<Rightarrow> principal \<Rightarrow> web_answer web" where
  "team_tokens e p =
     (let team = form_text e ''team'' in
      if team = [] \<or> (\<not> p_CanAdmin p \<and> \<not> canManageAccessTeam p team)
      then admin_required e ''team admin access required''
      else
        let target = manageReturnPath e (''/manage/teams/'' @ team @ ''/tokens'') in
        w_then load_configs (\<lambda>r. case r of
          Inl err \<Rightarrow> redirectManageResult e target ''error'' (manageErrorMessage e 500 (Service err))
        | Inr configs \<Rightarrow>
            (case findAccessConfig configs team of
               None \<Rightarrow> w_fail e 404 (Plain ''team not found'')
             | Some cfg \<Rightarrow>
                 if IsGlobalAdminConfig cfg then w_fail e 404 (Plain ''team not found'')
                 else token_action e p configs cfg target)))"

definition manageAccessTokenPage :: "web_request \<Rightarrow> web_answer web" where
  "manageAccessTokenPage e =
     (if rq_Method (wx_http e) \<noteq> ''POST'' then manage_method_not_allowed e
      else
        w_then (requireManage e) (\<lambda>p.
        w_then (requireManageCSRF e) (\<lambda>_ b.
          if rt_tokenHasher (h_authz (wb_api b)) = None
          then w_fail e 503 (Plain ''access token hashing is not configured'') b
          else w_then (lock_access_config e) (\<lambda>_. team_tokens e p) b)))"

end
