(* ===== verification/ManageModules.thy ===== *)
theory ManageModules
  imports ManageHandlers
begin

text \<open>
  The module pages of the management (\<open>internal/httpapi/router_manage_modules.go\<close>): publishing,
  importing and deleting from the browser, and the card of a module with its force-delete page. The
  timeouts of the reads are left out.
\<close>

section \<open>Answers of a mutation\<close>

definition isAsyncManageMutation :: "web_request \<Rightarrow> bool" where
  "isAsyncManageMutation e = (hx_header (wx_api e) ''X-Puppet-Forge-Async-Mutation'' = ''true'')"

definition redirectManageError :: "web_request \<Rightarrow> int \<Rightarrow> http_error \<Rightarrow> 'a web" where
  "redirectManageError e status err =
     (let target = manageErrorReturnPath e ''/manage/modules'' in
      w_answer (Located (target @ (if CHR ''?'' \<in> set target then ''&'' else ''?'') @ ''error='' @
        wx_query_escape e (manageErrorMessage e status err))))"

definition respondManageMutationHTTPError :: "web_request \<Rightarrow> int \<Rightarrow> http_error \<Rightarrow> 'a web" where
  "respondManageMutationHTTPError e status err =
     (if isAsyncManageMutation e then w_fail e status err else redirectManageError e status err)"

definition respondManageMutationError :: "web_request \<Rightarrow> http_error \<Rightarrow> 'a web" where
  "respondManageMutationError e err = respondManageMutationHTTPError e 400 err"

definition respondManageMutationServiceError :: "web_request \<Rightarrow> http_error \<Rightarrow> 'a web" where
  "respondManageMutationServiceError e err = respondManageMutationHTTPError e (serviceErrorStatus err) err"

definition respondManageMutationSuccess :: "web_request \<Rightarrow> string \<Rightarrow> string \<Rightarrow> string \<Rightarrow> 'a web" where
  "respondManageMutationSuccess e message refreshTarget removeTarget =
     (if isAsyncManageMutation e then
        w_answer (NoContent
          ((if refreshTarget \<noteq> [] then [(''X-Puppet-Forge-Refresh'', refreshTarget)] else []) @
           (if removeTarget \<noteq> [] then [(''X-Puppet-Forge-Remove'', removeTarget)] else []) @
           [(''X-Puppet-Forge-Message'', message)]))
      else redirectManageResult e ''/manage/modules'' ''message'' message)"

definition manageModuleListTarget :: string where "manageModuleListTarget = ''manage-module-list''"

definition manageModuleCardID :: "string \<Rightarrow> string \<Rightarrow> string" where
  "manageModuleCardID owner name = ''item-'' @ owner @ ''-'' @ name"

definition web_publish_source :: "web_request \<Rightarrow> principal \<Rightarrow> unit web" where
  "web_publish_source e p =
     (if publish_source_allowed (hx_net (wx_api e)) (hx_boundary (wx_api e)) (wx_http e) then w_return ()
      else w_then (web_audit e p ''publish_module'' ''failure'' ''publish_source_forbidden'' []) (\<lambda>_.
        w_fail e 403 (Plain ''client IP is not allowed to publish'')))"

section \<open>Publishing\<close>

definition replace_forbidden :: service_error where
  "replace_forbidden = Failed ''team administrator access is required to replace a release''"

definition manage_authorize :: "principal \<Rightarrow> bool \<Rightarrow> string \<Rightarrow> service_error option" where
  "manage_authorize p replacing space =
     (if \<not> CanPublishOwner p space then Some publish_forbidden
      else if replacing \<and> \<not> CanDeleteOwner p space then Some replace_forbidden
      else None)"

definition manage_publish :: "web_request \<Rightarrow> principal \<Rightarrow> publish_input \<Rightarrow> web_answer web" where
  "manage_publish e p input0 =
     (let g = hx_service (wx_api e); q = hx_request (wx_api e);
          input = input0\<lparr>pi_Replace := (form_value e ''replace'' = ''true'')\<rparr>;
          action = (if pi_Replace input then ''replace_module_release'' else ''publish_module'');
          message = (if pi_Replace input then ''module release replaced'' else ''module published'')
      in w_then (web_prepare_audit e p action []) (\<lambda>_ b.
        let space = requested_space g input (h_world (wb_api b)) in
        w_then (w_call (PublishAuthorized g q input (manage_authorize p (pi_Replace input)))) (\<lambda>r. case r of
          Inl err \<Rightarrow>
            if err = publish_forbidden \<or> err = replace_forbidden
            then w_then (web_audit e p action ''failure'' ''forbidden'' [(''space'', space)]) (\<lambda>_.
              respondManageMutationHTTPError e 403 (Service err))
            else w_then (failed_audit e p action (Service err) [(''space'', space)]) (\<lambda>_.
              respondManageMutationServiceError e (Service err))
        | Inr release \<Rightarrow>
            w_then (web_audit e p action ''success'' ''none''
                [(''space'', r_Owner release), (''module'', r_Owner release @ ''/'' @ r_Name release),
                 (''release'', r_Version release), (''sha256'', r_SHA256 release)]) (\<lambda>_.
              respondManageMutationSuccess e message manageModuleListTarget [])) b))"

definition manageModules :: "web_request \<Rightarrow> web_answer web" where
  "manageModules e =
     (if rq_Path (wx_http e) \<noteq> ''/manage/modules'' then w_fail e 404 (Plain ''route not found'')
      else if rq_Method (wx_http e) \<noteq> ''POST'' then manage_method_not_allowed e
      else
        w_then (requireManage e) (\<lambda>p.
        w_then (web_publish_source e p) (\<lambda>_.
        w_then (requireManageCSRF e) (\<lambda>_.
        w_then (w_api (allowSharedRateLimit (wx_api e) ''manage-publish'' 60 minute)) (\<lambda>allowed. case allowed of
          Inl _ \<Rightarrow> respondManageMutationHTTPError e 503 (Plain ''publish rate limit service is unavailable'')
        | Inr ok \<Rightarrow>
            if \<not> ok then respondManageMutationHTTPError e 429 (Plain ''too many publish attempts'')
            else (case readPublishInput (wx_api e) of
                    Inl err \<Rightarrow>
                      let message = Plain (case err of TooLarge s \<Rightarrow> s | BadUpload s \<Rightarrow> s) in
                      w_then (failed_audit e p ''publish_module'' message []) (\<lambda>_.
                        case err of TooLarge _ \<Rightarrow> w_fail e 413 message | BadUpload _ \<Rightarrow> respondManageMutationError e message)
                  | Inr input \<Rightarrow> manage_publish e p input))))))"

section \<open>Importing\<close>

definition parseUpstreamModuleFormValue :: "string \<Rightarrow> string + (string \<times> string)" where
  "parseUpstreamModuleFormValue raw0 =
     (let raw = trim_char (CHR ''/'') (trim_space raw0);
          shape = ''upstream module must be owner/name or owner-name'';
          check = (\<lambda>owner0 name0. let owner = trim_space owner0; name = trim_space name0 in
            if owner = [] \<or> name = [] \<or> CHR ''/'' \<in> set owner \<or> CHR ''/'' \<in> set name then Inl shape
            else Inr (owner, name))
      in if raw = [] then Inl ''upstream module is required''
         else if CHR ''/'' \<in> set raw then
           (case split_on (CHR ''/'') raw of [owner, name] \<Rightarrow> check owner name | _ \<Rightarrow> Inl shape)
         else (case cut (CHR ''-'') raw of (owner, name, _) \<Rightarrow> check owner name))"

definition manageUpstreamModule :: "web_request \<Rightarrow> web_answer web" where
  "manageUpstreamModule e =
     (if rq_Path (wx_http e) \<noteq> ''/manage/upstream'' then w_fail e 404 (Plain ''route not found'')
      else if rq_Method (wx_http e) \<noteq> ''POST'' then manage_method_not_allowed e
      else
        w_then (requireManage e) (\<lambda>p.
        w_then (requireManageCSRF e) (\<lambda>_.
          if \<not> p_CanAdmin p then respondManageMutationHTTPError e 403 (Plain ''global admin access required'')
          else (case parseUpstreamModuleFormValue (form_value e ''module'') of
            Inl message \<Rightarrow> respondManageMutationServiceError e (Plain message)
          | Inr (owner, name) \<Rightarrow>
              let attrs = [(''module'', owner @ ''/'' @ name)]; action = ''import_upstream_module'' in
              w_then (w_call (SyncUpstreamModule (hx_service (wx_api e)) (hx_request (wx_api e)) owner name)) (\<lambda>r. case r of
                Inl err \<Rightarrow> w_then (failed_audit e p action (Service err) attrs) (\<lambda>_.
                  respondManageMutationServiceError e (Service err))
              | Inr _ \<Rightarrow> w_then (web_audit e p action ''success'' ''none'' attrs) (\<lambda>_.
                  respondManageMutationSuccess e ''upstream module added'' manageModuleListTarget [])))))) "

section \<open>Deleting\<close>

definition web_prepare_delete ::
    "web_request \<Rightarrow> principal \<Rightarrow> string \<Rightarrow> string \<Rightarrow> string \<Rightarrow> string \<Rightarrow> bool \<Rightarrow> string web" where
  "web_prepare_delete e p owner name version justification force =
     w_then (audit_session e p None) (\<lambda>s.
       w_api (prepareDeleteMutationAudit (with_session e s) p owner name version justification force))"

text \<open>The mutation under its audit event; \<open>answered\<close> answers its success.\<close>

definition manage_delete ::
    "web_request \<Rightarrow> principal \<Rightarrow> string \<Rightarrow> string \<Rightarrow> string \<Rightarrow> bool \<Rightarrow> string \<Rightarrow> unit svc \<Rightarrow> web_answer web \<Rightarrow> web_answer web" where
  "manage_delete e p owner name version force justification m answered =
     (let attrs = [(''space'', owner), (''module'', owner @ ''/'' @ name)] @
            (if version = [] then [] else [(''release'', version)]) @ [(''justification'', justification)]
      in w_then (web_prepare_delete e p owner name version justification force) (\<lambda>action.
         w_then (w_call m) (\<lambda>r. case r of
           Inl err \<Rightarrow> w_then (failed_audit e p action (Service err) attrs) (\<lambda>_.
             respondManageMutationServiceError e (Service err))
         | Inr _ \<Rightarrow> w_then (web_audit e p action ''success'' ''none'' attrs) (\<lambda>_. answered))))"

definition manage_delete_module :: "web_request \<Rightarrow> principal \<Rightarrow> string \<Rightarrow> string \<Rightarrow> web_answer web" where
  "manage_delete_module e p owner name =
     (let g = hx_service (wx_api e); q = hx_request (wx_api e); action = ''force_delete_module'';
          attrs = [(''space'', owner), (''module'', owner @ ''/'' @ name)]
      in if \<not> CanDeleteOwner p owner
         then respondManageMutationHTTPError e 403 (Plain ''admin or team admin access required'')
         else case forceDeleteParameters (wx_api e) (owner @ ''/'' @ name) of
           (force, justification, Some message) \<Rightarrow>
             w_then (failed_audit e p action (Plain message) attrs) (\<lambda>_. respondManageMutationError e (Plain message))
         | (force, justification, None) \<Rightarrow>
             if force \<and> \<not> p_CanAdmin p
             then w_then (web_audit e p action ''failure'' ''forbidden'' attrs) (\<lambda>_.
               respondManageMutationHTTPError e 403 (Plain ''global admin access required for force delete''))
             else manage_delete e p owner name [] force justification
               (if force then svc_DeleteModule g q owner name
                else DeleteModuleIfAllowed g q owner name (wx_now e - hx_activeReleaseTTL (wx_api e)))
               (respondManageMutationSuccess e ''module deleted'' [] (manageModuleCardID owner name)))"

definition release_deleted :: "web_request \<Rightarrow> string \<Rightarrow> string \<Rightarrow> web_answer web" where
  "release_deleted e owner name =
     w_then (w_call (db_read (\<lambda>s. GetModule s owner name))) (\<lambda>r.
       let gone = (case r of Inl err \<Rightarrow> is_not_found err | Inr _ \<Rightarrow> False); card = manageModuleCardID owner name
       in respondManageMutationSuccess e ''version deleted'' (if gone then [] else card) (if gone then card else []))"

definition manage_delete_release :: "web_request \<Rightarrow> principal \<Rightarrow> string \<Rightarrow> string \<Rightarrow> string \<Rightarrow> web_answer web" where
  "manage_delete_release e p owner name version =
     (let g = hx_service (wx_api e); q = hx_request (wx_api e);
          attrs = [(''space'', owner), (''module'', owner @ ''/'' @ name), (''release'', version)]
      in if \<not> CanDeleteOwner p owner
         then respondManageMutationHTTPError e 403 (Plain ''admin or team admin access required'')
         else case forceDeleteParameters (wx_api e) (owner @ ''/'' @ name @ ''@'' @ version) of
           (force, justification, Some message) \<Rightarrow>
             w_then (failed_audit e p ''force_delete_release'' (Plain message) attrs) (\<lambda>_.
               respondManageMutationError e (Plain message))
         | (force, justification, None) \<Rightarrow>
             manage_delete e p owner name version force justification
               (if force then svc_DeleteRelease g q owner name version
                else DeleteReleaseIfAllowed g q owner name version (wx_now e - hx_activeReleaseTTL (wx_api e)))
               (release_deleted e owner name))"

section \<open>The card of a module\<close>

record version_row =
  vr_Version :: string
  vr_Active :: bool
  vr_Latest :: bool

definition loadManageModuleCard :: "web_request \<Rightarrow> string \<Rightarrow> string \<Rightarrow> (domain_module \<times> version_row list) svc" where
  "loadManageModuleCard e owner name =
     (let g = hx_service (wx_api e) in
      svc_then (db_read (\<lambda>s. GetModule s owner name)) (\<lambda>m.
      svc_then (db_read (\<lambda>s. Inr (ListReleases (g_sv g) s owner name))) (\<lambda>versions.
      svc_then (db_read (\<lambda>s. Inr (ListActiveReleasesForModules s (wx_now e - hx_activeReleaseTTL (wx_api e)) [m]))) (\<lambda>active.
        svc_return (m, map (\<lambda>v. \<lparr>vr_Version = mv_Version v, vr_Active = list_ex (\<lambda>r. s_Version r = mv_Version v) active,
          vr_Latest = (mv_Version v = m_LatestVersion m)\<rparr>) versions)))))"

definition version_text :: "version_row \<Rightarrow> string \<times> string" where
  "version_text v = (''version'', vr_Version v @ (if vr_Active v then '' active'' else []) @ (if vr_Latest v then '' latest'' else []))"

definition manageForceDeleteURL :: "web_request \<Rightarrow> string \<Rightarrow> string \<Rightarrow> string \<Rightarrow> string \<Rightarrow> string" where
  "manageForceDeleteURL e owner name version target =
     ''/manage/modules/'' @ wx_path_escape e owner @ ''/'' @ wx_path_escape e name @
     (if version = [] then ''/force-delete'' else ''/versions/'' @ wx_path_escape e version @ ''/force-delete'') @
     (if target \<noteq> [] then ''?next='' @ wx_query_escape e target else [])"

definition canViewManageSpace :: "principal \<Rightarrow> string \<Rightarrow> bool" where
  "canViewManageSpace p owner = (p_CanAdmin p \<or> CanPublishOwner p owner \<or> owner \<in> p_PublishOwners p)"

definition manageModuleCardURL :: "web_request \<Rightarrow> string \<Rightarrow> string \<Rightarrow> string" where
  "manageModuleCardURL e owner name =
     ''/manage/modules/'' @ wx_path_escape e owner @ ''/'' @ wx_path_escape e name @ ''/card''"

text \<open>\<open>configureManageModuleRows\<close> leads a card back to the page it is on.\<close>

definition card_url :: "web_request \<Rightarrow> string \<Rightarrow> string \<Rightarrow> string" where
  "card_url e target url =
     url @ (if target \<noteq> [] \<and> target \<noteq> ''/manage/modules'' then ''?next='' @ wx_query_escape e target else [])"

definition flag_text :: "bool \<Rightarrow> string" where
  "flag_text b = (if b then ''true'' else ''false'')"

definition module_card :: "web_request \<Rightarrow> principal \<Rightarrow> string \<Rightarrow> string \<Rightarrow> web_answer web" where
  "module_card e p owner name =
     (if \<not> canViewManageSpace p owner then admin_required e ''module space access required''
      else w_then (w_call (loadManageModuleCard e owner name)) (\<lambda>r. case r of
        Inl err \<Rightarrow> w_api (writeServiceError (wx_api e) (Service err))
      | Inr (m, versions) \<Rightarrow>
          let target = manageReturnPath e ''/manage/modules''; canDelete = flag_text (CanDeleteOwner p owner);
              force = (\<lambda>version. manageForceDeleteURL e (m_Owner m) (m_Name m) version target)
          in form_page e ''module-card'' 200
            ([(''module'', m_Owner m @ ''/'' @ m_Name m), (''release_count'', FormatInt (int (length versions))),
              (''can_delete'', canDelete), (''can_force_delete_module'', flag_text (p_CanAdmin p)),
              (''can_force_delete_release'', canDelete), (''card_id'', manageModuleCardID owner name),
              (''card_url'', card_url e target (manageModuleCardURL e owner name)), (''next'', target),
              (''force_delete'', force [])] @
             map version_text versions @ map (\<lambda>v. (''force_delete_release'', force (vr_Version v))) versions)))"

definition renderManageForceDelete :: "web_request \<Rightarrow> principal \<Rightarrow> string \<Rightarrow> string \<Rightarrow> string option \<Rightarrow> web_answer web" where
  "renderManageForceDelete e p owner name version =
     (if version = None \<and> \<not> p_CanAdmin p then admin_required e ''global admin access required for force delete''
      else if version \<noteq> None \<and> \<not> CanDeleteOwner p owner then admin_required e ''admin or team admin access required''
      else w_then (w_call (loadManageModuleCard e owner name)) (\<lambda>r. case r of
        Inl err \<Rightarrow> w_api (writeServiceError (wx_api e) (Service err))
      | Inr (m, versions) \<Rightarrow>
          let target = manageReturnPath e ''/manage/modules'';
              base = ''/manage/modules/'' @ wx_path_escape e owner @ ''/'' @ wx_path_escape e name;
              form = (\<lambda>kind resource latest action v flags.
                form_page e ''force-delete'' 200
                  ([(''kind'', kind), (''resource'', resource), (''latest'', latest), (''action'', action), (''next'', target),
                    (''error_next'', manageForceDeleteURL e owner name v target),
                    (''error'', hx_query (wx_api e) ''error'')] @ flags))
          in case version of
               None \<Rightarrow> form ''module'' (owner @ ''/'' @ name) (m_LatestVersion m) (base @ ''/delete'') [] []
             | Some v \<Rightarrow>
                 (case find (\<lambda>r. vr_Version r = v) versions of
                    None \<Rightarrow> w_api (writeServiceError (wx_api e) (Service NotFound))
                  | Some r \<Rightarrow>
                      form ''release'' (owner @ ''/'' @ name @ ''@'' @ v) []
                        (base @ ''/versions/'' @ wx_path_escape e v @ ''/delete'') v [version_text r])))"

definition manage_module_get :: "web_request \<Rightarrow> principal \<Rightarrow> string list \<Rightarrow> web_answer web" where
  "manage_module_get e p parts =
     (case parts of
        [owner, name, what] \<Rightarrow>
          if what = ''force-delete'' then renderManageForceDelete e p owner name None
          else if what = ''card'' then module_card e p owner name
          else manage_method_not_allowed e
      | [owner, name, versions, version, what] \<Rightarrow>
          if versions = ''versions'' \<and> what = ''force-delete'' then renderManageForceDelete e p owner name (Some version)
          else manage_method_not_allowed e
      | _ \<Rightarrow> manage_method_not_allowed e)"

definition manage_module_post :: "web_request \<Rightarrow> principal \<Rightarrow> string list \<Rightarrow> web_answer web" where
  "manage_module_post e p parts =
     (case parts of
        [owner, name, what] \<Rightarrow>
          if what = ''delete'' then manage_delete_module e p owner name
          else w_fail e 404 (Plain ''route not found'')
      | [owner, name, versions, version, what] \<Rightarrow>
          if versions = ''versions'' \<and> what = ''delete'' then manage_delete_release e p owner name version
          else w_fail e 404 (Plain ''route not found'')
      | _ \<Rightarrow> w_fail e 404 (Plain ''route not found''))"

definition manageModuleAction :: "web_request \<Rightarrow> web_answer web" where
  "manageModuleAction e =
     (let parts = api_parts ''/manage/modules/'' (rq_Path (wx_http e)) in
      w_then (requireManage e) (\<lambda>p.
        if rq_Method (wx_http e) = ''GET'' then manage_module_get e p parts
        else if rq_Method (wx_http e) \<noteq> ''POST'' then manage_method_not_allowed e
        else w_then (requireManageCSRF e) (\<lambda>_. manage_module_post e p parts)))"

end
