(* ===== verification/WebCalculus.thy ===== *)
theory WebCalculus
  imports ManageModules ApiProperties
begin

text \<open>
  A calculus for the steps of the browser-facing handlers: triples over the
  API state, and steps that keep a view of the database.
\<close>

section \<open>Triples\<close>

definition wtriple :: "(api_state \<Rightarrow> bool) \<Rightarrow> 'a web \<Rightarrow> ('a \<Rightarrow> api_state \<Rightarrow> bool) \<Rightarrow> (api_state \<Rightarrow> bool) \<Rightarrow> bool" where
  "wtriple P m Q E \<longleftrightarrow>
     (\<forall>b. P (wb_api b) \<longrightarrow> (case m b of (b1, Inl _) \<Rightarrow> E (wb_api b1) | (b1, Inr x) \<Rightarrow> Q x (wb_api b1)))"

lemma wtriple_then:
  "wtriple P m R E \<Longrightarrow> (\<And>x. wtriple (R x) (f x) Q E) \<Longrightarrow> wtriple P (w_then m f) Q E"
  unfolding wtriple_def w_then_def by (fastforce split: prod.splits sum.splits)

lemma wtriple_weaken:
  "wtriple P' m Q' E' \<Longrightarrow> (\<And>h. P h \<Longrightarrow> P' h) \<Longrightarrow> (\<And>x h. Q' x h \<Longrightarrow> Q x h) \<Longrightarrow> (\<And>h. E' h \<Longrightarrow> E h) \<Longrightarrow> wtriple P m Q E"
  unfolding wtriple_def by (fastforce split: prod.splits sum.splits)

lemma wtriple_return: "(\<And>h. P h \<Longrightarrow> Q x h) \<Longrightarrow> wtriple P (w_return x) Q E"
  by (simp add: wtriple_def w_return_def)

lemma wtriple_answer: "(\<And>h. P h \<Longrightarrow> E h) \<Longrightarrow> wtriple P (w_answer a) Q E"
  by (simp add: wtriple_def w_answer_def)

lemma wtriple_cookie: "(\<And>h. P h \<Longrightarrow> Q () h) \<Longrightarrow> wtriple P (add_cookie c) Q E"
  by (simp add: wtriple_def add_cookie_def)

lemma wtriple_cookie_return: "(\<And>h. P h \<Longrightarrow> Q x h) \<Longrightarrow> wtriple P (w_then (add_cookie c) (\<lambda>_. w_return x)) Q E"
  by (rule wtriple_then [OF wtriple_cookie [where Q = "\<lambda>_. P"] wtriple_return])

lemma wtriple_random: "(\<And>x h. P h \<Longrightarrow> Q x h) \<Longrightarrow> wtriple P random_string Q E"
  by (auto simp: wtriple_def random_string_def split: list.splits)

lemma wtriple_api: "triple P m Q E \<Longrightarrow> wtriple P (w_api m) Q E"
  unfolding wtriple_def triple_def w_api_def by (fastforce split: prod.splits sum.splits)

lemma wtriple_fail: "(\<And>h. P h \<Longrightarrow> E h) \<Longrightarrow> wtriple P (w_fail e st err) Q E"
  unfolding w_fail_def by (intro wtriple_api triple_fail)

lemma wtriple_if: "(c \<Longrightarrow> wtriple P m Q E) \<Longrightarrow> (\<not> c \<Longrightarrow> wtriple P n Q E) \<Longrightarrow> wtriple P (if c then m else n) Q E"
  by simp

lemma wtriple_option:
  "(y = None \<Longrightarrow> wtriple P n Q E) \<Longrightarrow> (\<And>x. y = Some x \<Longrightarrow> wtriple P (f x) Q E) \<Longrightarrow>
     wtriple P (case y of None \<Rightarrow> n | Some x \<Rightarrow> f x) Q E"
  by (cases y) simp_all

lemma wtriple_sum:
  "(\<And>x. y = Inl x \<Longrightarrow> wtriple P (f x) Q E) \<Longrightarrow> (\<And>x. y = Inr x \<Longrightarrow> wtriple P (g x) Q E) \<Longrightarrow>
     wtriple P (case y of Inl x \<Rightarrow> f x | Inr x \<Rightarrow> g x) Q E"
  by (cases y) simp_all

lemma wtriple_at: "(\<And>x. wtriple P (f x) Q E) \<Longrightarrow> wtriple P (\<lambda>b. f (g b) b) Q E"
  by (simp add: wtriple_def)

lemma wtriple_respond: "wtriple P m (\<lambda>_. E) E \<Longrightarrow> P (wb_api b) \<Longrightarrow> web_respond m b = (b1, a) \<Longrightarrow> E (wb_api b1)"
  unfolding wtriple_def web_respond_def by (fastforce split: prod.splits sum.splits)

section \<open>Views of the database\<close>

definition hdb :: "api_state \<Rightarrow> db" where "hdb h = w_db (h_world h)"

text \<open>A step keeps a view when it never changes it, nor the bucket.\<close>

definition h_keeps :: "(db \<Rightarrow> 'v) \<Rightarrow> 'a handler \<Rightarrow> bool" where
  "h_keeps V m \<longleftrightarrow> (\<forall>h. V (hdb (fst (m h))) = V (hdb h) \<and> w_bucket (h_world (fst (m h))) = w_bucket (h_world h))"

definition w_keeps :: "(db \<Rightarrow> 'v) \<Rightarrow> 'a web \<Rightarrow> bool" where
  "w_keeps V m \<longleftrightarrow> (\<forall>b. V (hdb (wb_api (fst (m b)))) = V (hdb (wb_api b)) \<and>
     w_bucket (h_world (wb_api (fst (m b)))) = w_bucket (h_world (wb_api b)))"

named_theorems view_intros

lemma h_keeps_simple [view_intros]: "h_keeps V (h_return x)" "h_keeps V (h_answer a)" "h_keeps V (h_fail e st err)"
  "h_keeps V (writeServiceError e err)" "h_keeps V (prepareMutationAudit e p action attrs)"
  by (simp_all add: h_keeps_def h_return_def h_answer_def h_fail_def writeServiceError_def prepareMutationAudit_def hdb_def)

lemma h_keeps_then [view_intros]: "h_keeps V m \<Longrightarrow> (\<And>x. h_keeps V (f x)) \<Longrightarrow> h_keeps V (h_then m f)"
  unfolding h_keeps_def h_then_def by (auto split: prod.splits sum.splits) (metis fst_conv)+

lemma h_keeps_if [view_intros]: "h_keeps V m \<Longrightarrow> h_keeps V n \<Longrightarrow> h_keeps V (if c then m else n)"
  by simp

lemma h_keeps_read [view_intros]: "h_keeps V (h_call (db_read f))"
  by (simp add: h_keeps_def h_call_def hdb_def case_prod_unfold)

lemma h_keeps_write:
  assumes "\<And>s. V (fst (f s)) = V s"
  shows "h_keeps V (h_call (db_write f))"
  unfolding h_keeps_def
proof
  fix h :: api_state
  have "w_bucket (fst (db_write f (h_world h))) = w_bucket (h_world h)" by (simp add: db_write_def)
  then show "V (hdb (fst (h_call (db_write f) h))) = V (hdb h) \<and>
      w_bucket (h_world (fst (h_call (db_write f) h))) = w_bucket (h_world h)"
    by (cases rule: db_call_cases [where f = "\<lambda>c s. case f s of (s1, r) \<Rightarrow> ((c, s1), r)" and w = "h_world h"])
      (use assms [of "w_db (h_world h)"] in \<open>auto simp: db_write_def h_call_def hdb_def case_prod_unfold\<close>)
qed

lemma h_keeps_access:
  assumes "\<And>r s. V (snd (fst (f (r, s)))) = V s"
  shows "h_keeps V (h_access f)"
  using assms unfolding h_keeps_def h_access_def hdb_def by (auto split: prod.splits) (metis fst_conv snd_conv)

text \<open>The journal, the rate limits and the times of use are in no view of interest.\<close>

definition token_core :: "token_row \<Rightarrow> token_row" where
  "token_core k = k\<lparr>kr_last_used_at := None\<rparr>"

definition same_plain :: "db \<Rightarrow> db \<Rightarrow> bool" where
  "same_plain s t \<longleftrightarrow> same_content s t \<and> db_teams t = db_teams s \<and> db_owners t = db_owners s \<and> db_oidc t = db_oidc s \<and>
     db_sessions t = db_sessions s \<and> db_states t = db_states s \<and> db_manage t = db_manage s \<and>
     map token_core (db_tokens t) = map token_core (db_tokens s)"

definition plain_view :: "(db \<Rightarrow> 'v) \<Rightarrow> bool" where
  "plain_view V \<longleftrightarrow> (\<forall>s t. same_plain s t \<longrightarrow> V t = V s)"

lemma plain_viewD: "plain_view V \<Longrightarrow> same_plain s t \<Longrightarrow> V t = V s"
  by (simp add: plain_view_def)

lemma same_plain_refl [simp]: "same_plain s s"
  by (simp add: same_plain_def)

lemma plain_writes:
  "same_plain s (fst (ConsumeRateLimit s key limit window now))"
  "same_plain s (fst (MarkAccessTokenUsed s i now))"
  "recordSQLiteAuditEvent v s event = Inr s1 \<Longrightarrow> same_plain s s1"
proof -
  show "same_plain s (fst (ConsumeRateLimit s key limit window now))"
    using content_writes(1) [of s key limit window now] by (simp add: same_plain_def ConsumeRateLimit_def Let_def)
  show "same_plain s (fst (MarkAccessTokenUsed s i now))"
    using content_writes(2) [of s i now]
    by (simp add: same_plain_def MarkAccessTokenUsed_def update_where_def token_core_def comp_def)
  assume r: "recordSQLiteAuditEvent v s event = Inr s1"
  then have "db_teams s1 = db_teams s \<and> db_owners s1 = db_owners s \<and> db_oidc s1 = db_oidc s \<and>
      db_sessions s1 = db_sessions s \<and> db_states s1 = db_states s \<and> db_manage s1 = db_manage s \<and> db_tokens s1 = db_tokens s"
    by (auto simp: recordSQLiteAuditEvent_def Let_def split: if_splits)
  then show "same_plain s s1" using content_writes(5) [OF r] by (simp add: same_plain_def)
qed

lemma record_used_plain: "same_plain s (snd (recordAccessTokenUsed outage now p (r, s)))"
proof -
  have "same_plain s t" if "MarkAccessTokenUsed s i now = (t, x)" for t x i
    using plain_writes(2) [of s i now] that by simp
  then show ?thesis by (auto simp: recordAccessTokenUsed_def split: prod.splits sum.splits if_splits)
qed

lemma h_keeps_audit [view_intros]:
  assumes "plain_view V"
  shows "h_keeps V (audit e p action result reason attrs)"
proof -
  have "V (fst (case recordSQLiteAuditEvent v s event of Inl err \<Rightarrow> (s, Inl err) | Inr s1 \<Rightarrow> (s1, Inr ()))) = V s" for v event s
    by (cases "recordSQLiteAuditEvent v s event") (simp_all add: plain_viewD [OF assms plain_writes(3)])
  then have "h_keeps V (h_then (h_call (db_write (\<lambda>s.
      case recordSQLiteAuditEvent v s event of Inl err \<Rightarrow> (s, Inl err) | Inr s1 \<Rightarrow> (s1, Inr ())))) (\<lambda>_. h_return ()))" for v event
    by (intro view_intros h_keeps_write)
  then show ?thesis unfolding h_keeps_def audit_def by simp
qed

lemma h_keeps_record [view_intros]: "plain_view V \<Longrightarrow> h_keeps V (record_token e p)"
  unfolding record_token_def by (rule h_keeps_access) (simp add: plain_viewD [OF _ record_used_plain])

lemma h_keeps_limits [view_intros]:
  assumes "plain_view V"
  shows "h_keeps V (allowSharedRateLimit e scope limit window)" "h_keeps V (requireSharedRateLimit e scope limit window message)"
proof -
  show allow: "h_keeps V (allowSharedRateLimit e scope limit window)"
    unfolding allowSharedRateLimit_def by (rule h_keeps_write) (rule plain_viewD [OF assms plain_writes(1)])
  show "h_keeps V (requireSharedRateLimit e scope limit window message)"
    unfolding requireSharedRateLimit_def
    by (rule h_keeps_then [OF allow]) (auto intro: view_intros split: sum.split)
qed

lemma w_keeps_simple [view_intros]: "w_keeps V (w_return x)" "w_keeps V (w_answer a)" "w_keeps V (add_cookie c)"
  "w_keeps V random_string" "w_keeps V (w_fail e st err)"
  by (auto simp: w_keeps_def w_return_def w_answer_def add_cookie_def random_string_def w_fail_def w_api_def h_fail_def
      h_answer_def split: list.split)

lemma w_keeps_then [view_intros]: "w_keeps V m \<Longrightarrow> (\<And>x. w_keeps V (f x)) \<Longrightarrow> w_keeps V (w_then m f)"
  unfolding w_keeps_def w_then_def by (auto split: prod.splits sum.splits) (metis fst_conv)+

lemma w_keeps_if [view_intros]: "w_keeps V m \<Longrightarrow> w_keeps V n \<Longrightarrow> w_keeps V (if c then m else n)"
  by simp

lemma w_keeps_at: "(\<And>x. w_keeps V (f x)) \<Longrightarrow> w_keeps V (\<lambda>b. f (g b) b)"
  by (simp add: w_keeps_def)

lemma w_keeps_api [view_intros]: "h_keeps V m \<Longrightarrow> w_keeps V (w_api m)"
  unfolding w_keeps_def h_keeps_def w_api_def by (simp add: case_prod_unfold)

lemma w_keeps_read [view_intros]: "w_keeps V (w_call (db_read f))"
  unfolding w_call_def by (intro view_intros)

lemma w_keeps_write: "(\<And>s. V (fst (f s)) = V s) \<Longrightarrow> w_keeps V (w_call (db_write f))"
  unfolding w_call_def by (intro w_keeps_api h_keeps_write)

lemma w_keeps_triple:
  "w_keeps V m \<Longrightarrow> (\<And>h h1. V (hdb h1) = V (hdb h) \<Longrightarrow> w_bucket (h_world h1) = w_bucket (h_world h) \<Longrightarrow> P h \<Longrightarrow> P h1) \<Longrightarrow>
     wtriple P m (\<lambda>_. P) P"
  unfolding wtriple_def w_keeps_def by (fastforce split: prod.splits sum.splits)

text \<open>A write whose outcome decides what holds afterwards.\<close>

lemma wtriple_write:
  assumes "\<And>h. P h \<Longrightarrow> Q (Inl Unavailable) h"
    and "\<And>h h1. P h \<Longrightarrow> hdb h1 = fst (f (hdb h)) \<Longrightarrow> w_bucket (h_world h1) = w_bucket (h_world h) \<Longrightarrow> h_authz h1 = h_authz h \<Longrightarrow>
        Q (map_sum StoreFault (\<lambda>x. x) (snd (f (hdb h)))) h1 \<and> Q (Inl Unavailable) h1"
    and "\<And>h h1. P h \<Longrightarrow> hdb h1 = hdb h \<Longrightarrow> w_bucket (h_world h1) = w_bucket (h_world h) \<Longrightarrow> h_authz h1 = h_authz h \<Longrightarrow> P h1"
  shows "wtriple P (w_call (db_write f)) Q E"
  unfolding wtriple_def
proof (intro allI impI)
  fix b :: web_state assume p: "P (wb_api b)"
  let ?w = "h_world (wb_api b)" and ?h = "wb_api b"
  let ?h1 = "?h\<lparr>h_world := fst (db_write f ?w)\<rparr>"
  have run: "w_call (db_write f) b = (b\<lparr>wb_api := ?h1\<rparr>, Inr (snd (db_write f ?w)))"
    by (simp add: w_call_def w_api_def h_call_def case_prod_unfold)
  have frame: "w_bucket (h_world ?h1) = w_bucket (h_world ?h)" "h_authz ?h1 = h_authz ?h" by (simp_all add: db_write_def)
  show "case w_call (db_write f) b of (b1, Inl _) \<Rightarrow> E (wb_api b1) | (b1, Inr x) \<Rightarrow> Q x (wb_api b1)"
    unfolding run
  proof (cases rule: db_call_cases [where f = "\<lambda>c s. case f s of (s1, r) \<Rightarrow> ((c, s1), r)" and w = ?w])
    case unchanged
    then have "P ?h1" using assms(3) [OF p _ frame] by (simp add: hdb_def db_write_def)
    then show "case (b\<lparr>wb_api := ?h1\<rparr>, Inr (snd (db_write f ?w))) of (b1, Inl _) \<Rightarrow> E (wb_api b1) | (b1, Inr x) \<Rightarrow> Q x (wb_api b1)"
      using unchanged(2) assms(1) by (simp add: db_write_def)
  next
    case (answered c s r)
    then have "hdb ?h1 = fst (f (hdb ?h))" "snd (db_write f ?w) = map_sum StoreFault (\<lambda>x. x) (snd (f (hdb ?h)))"
      by (auto simp: hdb_def db_write_def split: prod.splits)
    then show "case (b\<lparr>wb_api := ?h1\<rparr>, Inr (snd (db_write f ?w))) of (b1, Inl _) \<Rightarrow> E (wb_api b1) | (b1, Inr x) \<Rightarrow> Q x (wb_api b1)"
      using assms(2) [OF p _ frame] by simp
  next
    case (lost c s r)
    then have "hdb ?h1 = fst (f (hdb ?h))" "snd (db_write f ?w) = Inl Unavailable"
      by (auto simp: hdb_def db_write_def split: prod.splits)
    then show "case (b\<lparr>wb_api := ?h1\<rparr>, Inr (snd (db_write f ?w))) of (b1, Inl _) \<Rightarrow> E (wb_api b1) | (b1, Inr x) \<Rightarrow> Q x (wb_api b1)"
      using assms(2) [OF p _ frame] by simp
  qed
qed

end
