(* ===== verification/ManageGuards.thy ===== *)
theory ManageGuards
  imports WebCalculus
begin

text \<open>
  What the guards of the management prove: the principal of a request comes from a live session and
  the access configuration of this moment, and the form comes from a page of this site that knew the
  secret of the session. The guards change nothing but the times of use.
\<close>

section \<open>The part of the database that matters\<close>

definition seen_manage :: "manage_session \<Rightarrow> manage_session" where "seen_manage n = n\<lparr>n_LastSeenAt := 0\<rparr>"

definition seen_session :: "oidc_session \<Rightarrow> oidc_session" where "seen_session x = x\<lparr>e_LastSeenAt := 0\<rparr>"

definition manage_view :: "db \<Rightarrow> (module_row list \<times> release_row list \<times> deletion_row list \<times> tombstone_row list) \<times>
    (string list \<times> (string \<times> string) list \<times> (string \<times> string \<times> string) list \<times> token_row list) \<times>
    manage_session list \<times> oidc_session list" where
  "manage_view s =
     ((db_modules s, db_releases s, db_deletions s, db_tombstones s),
      (db_teams s, db_owners s, db_oidc s, map token_core (db_tokens s)),
      map seen_manage (db_manage s), map seen_session (db_sessions s))"

lemma plain_manage_view: "plain_view manage_view"
  by (simp add: plain_view_def same_plain_def same_content_def manage_view_def)

definition at_view :: "db \<Rightarrow> bucket \<Rightarrow> api_state \<Rightarrow> bool" where
  "at_view s bk h \<longleftrightarrow> manage_view (hdb h) = manage_view s \<and> w_bucket (h_world h) = bk"

lemma at_view_keeps: "w_keeps manage_view m \<Longrightarrow> wtriple (at_view s bk) m (\<lambda>_. at_view s bk) (at_view s bk)"
  by (erule w_keeps_triple) (simp add: at_view_def)

section \<open>Sessions\<close>

definition live_manage :: "db \<Rightarrow> string \<Rightarrow> time \<Rightarrow> manage_session \<Rightarrow> bool" where
  "live_manage s hash now n \<longleftrightarrow>
     seen_manage n \<in> seen_manage ` set (db_manage s) \<and> n_SessionHash n = hash \<and> n_RevokedAt n = None \<and> now < n_ExpiresAt n"

definition live_oidc :: "db \<Rightarrow> string \<Rightarrow> time \<Rightarrow> oidc_session \<Rightarrow> bool" where
  "live_oidc s hash now x \<longleftrightarrow>
     seen_session x \<in> seen_session ` set (db_sessions s) \<and> e_SessionHash x = hash \<and> e_RevokedAt x = None \<and> now < e_ExpiresAt x"

lemma GetManageSession_view: "manage_view (fst (GetManageSession s hash now)) = manage_view s"
  by (auto simp: GetManageSession_def manage_view_def update_where_def seen_manage_def split: option.split)

lemma GetOIDCSession_view: "manage_view (fst (GetOIDCSession s hash now)) = manage_view s"
  by (auto simp: GetOIDCSession_def manage_view_def update_where_def seen_session_def split: option.split)

lemma manage_viewD:
  assumes "manage_view t = manage_view s"
  shows "map seen_manage (db_manage t) = map seen_manage (db_manage s)"
    and "map seen_session (db_sessions t) = map seen_session (db_sessions s)"
  using assms by (simp_all add: manage_view_def)

lemma view_manage: "manage_view t = manage_view s \<Longrightarrow> seen_manage ` set (db_manage t) = seen_manage ` set (db_manage s)"
  by (drule manage_viewD(1), drule arg_cong [of _ _ set]) simp

lemma view_sessions: "manage_view t = manage_view s \<Longrightarrow> seen_session ` set (db_sessions t) = seen_session ` set (db_sessions s)"
  by (drule manage_viewD(2), drule arg_cong [of _ _ set]) simp

lemma GetManageSession_live:
  assumes "snd (GetManageSession t hash now) = Inr n" "manage_view t = manage_view s"
  shows "live_manage s hash now n"
  using assms(1) view_manage [OF assms(2)]
  by (auto simp: GetManageSession_def live_manage_def find_Some_iff split: option.splits)

lemma GetOIDCSession_live:
  assumes "snd (GetOIDCSession t hash now) = Inr x" "manage_view t = manage_view s"
  shows "live_oidc s hash now x"
  using assms(1) view_sessions [OF assms(2)]
  by (auto simp: GetOIDCSession_def live_oidc_def find_Some_iff split: option.splits)

text \<open>A read of a session keeps the view, and what it finds is live.\<close>

lemma read_session:
  assumes "\<And>s. manage_view (fst (f s)) = manage_view s"
    and "\<And>t x. snd (f t) = Inr x \<Longrightarrow> manage_view t = manage_view s \<Longrightarrow> L x"
  shows "wtriple (at_view s bk) (w_call (db_write f)) (\<lambda>r h. at_view s bk h \<and> (\<forall>x. r = Inr x \<longrightarrow> L x)) (at_view s bk)"
proof (rule wtriple_write)
  fix h h1 :: api_state
  assume "at_view s bk h" "hdb h1 = fst (f (hdb h))" "w_bucket (h_world h1) = w_bucket (h_world h)"
  then show "(at_view s bk h1 \<and> (\<forall>x. map_sum StoreFault (\<lambda>x. x) (snd (f (hdb h))) = Inr x \<longrightarrow> L x)) \<and>
      (at_view s bk h1 \<and> (\<forall>x. Inl Unavailable = Inr x \<longrightarrow> L x))"
    using assms(1) assms(2) [of "hdb h"] by (cases "snd (f (hdb h))") (auto simp: at_view_def)
qed (auto simp: at_view_def)

lemma session_Session_triple:
  "wtriple (at_view s bk) (session_Session e c)
     (\<lambda>r h. at_view s bk h \<and> (\<forall>n. r = Some n \<longrightarrow> live_manage s (wx_manage_hash e c) (wx_now e) n)) (at_view s bk)"
  unfolding session_Session_def
proof (intro wtriple_if wtriple_return)
  show "wtriple (at_view s bk) (w_then (w_call (db_write (\<lambda>s. GetManageSession s (wx_manage_hash e c) (wx_now e)))) (\<lambda>r.
      case r of Inl _ \<Rightarrow> w_return None | Inr n \<Rightarrow> w_return (Some n)))
      (\<lambda>r h. at_view s bk h \<and> (\<forall>n. r = Some n \<longrightarrow> live_manage s (wx_manage_hash e c) (wx_now e) n)) (at_view s bk)"
    by (rule wtriple_then [OF read_session [where L = "live_manage s (wx_manage_hash e c) (wx_now e)"]])
      (auto simp: GetManageSession_view intro: GetManageSession_live intro!: wtriple_sum wtriple_return)
qed simp

text \<open>The session as the handlers see it.\<close>

definition session_live :: "web_request \<Rightarrow> db \<Rightarrow> web_session \<Rightarrow> bool" where
  "session_live e s ws \<longleftrightarrow>
     (\<exists>a c x. wx_auth e = Some a \<and> request_cookie e sessionCookie = Some c \<and>
        live_oidc s (wa_hashSessionID a c) (wx_now e) x \<and>
        ws = \<lparr>ws_Email = e_Email x, ws_EmailVerified = e_EmailVerified x, ws_Name = e_Name x, ws_Sub = e_Subject x,
              ws_Groups = e_Groups x, ws_CSRFSecret = e_CSRFSecret x\<rparr>)"

lemma web_Session_triple:
  "wtriple (at_view s bk) (web_Session e)
     (\<lambda>r h. at_view s bk h \<and> (\<forall>ws. r = Some ws \<longrightarrow> session_live e s ws)) (at_view s bk)"
  unfolding web_Session_def
proof (intro wtriple_option wtriple_return)
  fix a c assume ac: "wx_auth e = Some a" "request_cookie e sessionCookie = Some c"
  let ?L = "live_oidc s (wa_hashSessionID a c) (wx_now e)"
  have read: "wtriple (at_view s bk) (w_call (db_write (\<lambda>s. GetOIDCSession s (wa_hashSessionID a c) (wx_now e))))
      (\<lambda>r h. at_view s bk h \<and> (\<forall>x. r = Inr x \<longrightarrow> ?L x)) (at_view s bk)"
    by (rule read_session) (auto simp: GetOIDCSession_view intro: GetOIDCSession_live)
  show "wtriple (at_view s bk) (w_then (w_call (db_write (\<lambda>s. GetOIDCSession s (wa_hashSessionID a c) (wx_now e)))) (\<lambda>r.
      case r of Inl _ \<Rightarrow> w_return None
      | Inr p \<Rightarrow> w_return (Some \<lparr>ws_Email = e_Email p, ws_EmailVerified = e_EmailVerified p, ws_Name = e_Name p,
          ws_Sub = e_Subject p, ws_Groups = e_Groups p, ws_CSRFSecret = e_CSRFSecret p\<rparr>)))
      (\<lambda>r h. at_view s bk h \<and> (\<forall>ws. r = Some ws \<longrightarrow> session_live e s ws)) (at_view s bk)"
    by (rule wtriple_then [OF read], rule wtriple_sum)
      (rule wtriple_return, simp, rule wtriple_return, use ac in \<open>auto simp: session_live_def\<close>)
qed auto

lemma session_keeps [view_intros]: "w_keeps manage_view (web_Session e)" "w_keeps manage_view (session_Session e c)"
proof -
  show "w_keeps manage_view (web_Session e)"
    unfolding web_Session_def
    by (auto intro!: view_intros w_keeps_write GetOIDCSession_view split: option.split sum.split)
  show "w_keeps manage_view (session_Session e c)"
    unfolding session_Session_def
    by (auto intro!: view_intros w_keeps_write GetManageSession_view split: option.split sum.split)
qed

lemma w_keeps_option [view_intros]:
  "w_keeps V n \<Longrightarrow> (\<And>x. w_keeps V (f x)) \<Longrightarrow> w_keeps V (case y of None \<Rightarrow> n | Some x \<Rightarrow> f x)"
  by (cases y) simp_all

lemma w_keeps_sum [view_intros]:
  "(\<And>x. w_keeps V (f x)) \<Longrightarrow> (\<And>x. w_keeps V (g x)) \<Longrightarrow> w_keeps V (case y of Inl x \<Rightarrow> f x | Inr x \<Rightarrow> g x)"
  by (cases y) simp_all

section \<open>The principal\<close>

definition manage_authz :: "web_request \<Rightarrow> authz \<Rightarrow> db \<Rightarrow> authorizer option \<Rightarrow> bool" where
  "manage_authz e r s a \<longleftrightarrow>
     (if rt_refreshAccessConfig r
      then \<not> hx_outage (wx_api e) \<and>
        (\<exists>z. a = Some z \<and>
          (let configs = AccessConfigsWithRuntimeAdmin (LoadTeamConfigs s) (rt_adminToken r) in
           if rt_tokenHasher r \<noteq> None then NewAuthorizerWithTokenHasher (auth_env_of e) configs (rt_tokenHasher r)
           else NewAuthorizer (auth_env_of e) configs) = Inr z)
      else a = rt_authorizer r)"

definition token_grant :: "web_request \<Rightarrow> db \<Rightarrow> authorizer option \<Rightarrow> principal \<Rightarrow> bool" where
  "token_grant e s a p \<longleftrightarrow>
     (\<exists>c n. request_cookie e manageTokenCookie = Some c \<and> live_manage s (wx_manage_hash e c) (wx_now e) n \<and>
        n_AuthMethod n = ''token'' \<and> AuthenticateTokenDigest a (n_CredentialHash n) = Some p \<and>
        (p_CanPublish p \<or> p_CanManageTeam p \<or> p_CanAdmin p) \<and> (n_CredentialID n = [] \<or> n_CredentialID n = p_TokenID p))"

definition oidc_grant :: "web_request \<Rightarrow> db \<Rightarrow> authorizer option \<Rightarrow> principal \<Rightarrow> bool" where
  "oidc_grant e s a p \<longleftrightarrow>
     (\<exists>ws. session_live e s ws \<and>
        AuthenticateOIDC (auth_env_of e) a (AuthorizationEmail ws) (ws_Sub ws) (ws_Groups ws) = Some p)"

definition manage_granted :: "web_request \<Rightarrow> authz \<Rightarrow> db \<Rightarrow> principal \<Rightarrow> bool" where
  "manage_granted e r s p \<longleftrightarrow> (\<exists>a. manage_authz e r s a \<and> (token_grant e s a p \<or> oidc_grant e s a p))"

text \<open>The start of a request: the database, the bucket and the snapshot.\<close>

definition started :: "db \<Rightarrow> bucket \<Rightarrow> authz \<Rightarrow> api_state \<Rightarrow> bool" where
  "started s bk r h \<longleftrightarrow> hdb h = s \<and> w_bucket (h_world h) = bk \<and> h_authz h = r"

lemma started_view: "started s bk r h \<Longrightarrow> at_view s bk h"
  by (simp add: started_def at_view_def)

lemma manage_authorizer_triple:
  "wtriple (started s bk r) (manage_authorizer e)
     (\<lambda>x h. at_view s bk h \<and> (\<forall>a. x = Inr a \<longrightarrow> manage_authz e r s a)) (at_view s bk)"
  unfolding manage_authorizer_def
  by (rule wtriple_api)
    (auto simp: triple_def h_access_def started_def at_view_def hdb_def refreshManageAuthorizer_def refreshAuthorizer_def
      manage_authz_def setAuthorizer_def auth_env_of_def wx_now_def Let_def split: prod.splits sum.splits option.splits if_splits)

lemma carry: "(R \<Longrightarrow> wtriple P m Q E) \<Longrightarrow> wtriple (\<lambda>h. P h \<and> R) m Q E"
  by (cases R) (simp_all add: wtriple_def)

lemma token_principal_triple:
  "wtriple (at_view s bk) (token_principal e a)
     (\<lambda>d h. at_view s bk h \<and> (\<forall>p. d = Some (Some p) \<longrightarrow> token_grant e s a p)) (at_view s bk)"
  unfolding token_principal_def
proof (intro wtriple_option wtriple_return)
  fix c assume c: "request_cookie e manageTokenCookie = Some c"
  have recorded: "wtriple (at_view s bk) (web_record_token e p) (\<lambda>_. at_view s bk) (at_view s bk)" for p
    unfolding web_record_token_def by (intro at_view_keeps view_intros plain_manage_view)
  show "wtriple (at_view s bk) (w_then (session_Session e c) (\<lambda>session. case session of
        None \<Rightarrow> w_return None
      | Some n \<Rightarrow>
          if n_AuthMethod n \<noteq> ''token'' then w_return None
          else (case AuthenticateTokenDigest a (n_CredentialHash n) of
                  None \<Rightarrow> w_return None
                | Some p \<Rightarrow>
                    if \<not> (p_CanPublish p \<or> p_CanManageTeam p \<or> p_CanAdmin p) then w_return None
                    else if n_CredentialID n \<noteq> [] \<and> n_CredentialID n \<noteq> p_TokenID p then w_return (Some None)
                    else w_then (web_record_token e p) (\<lambda>_. w_return (Some (Some p))))))
      (\<lambda>d h. at_view s bk h \<and> (\<forall>p. d = Some (Some p) \<longrightarrow> token_grant e s a p)) (at_view s bk)"
  proof (rule wtriple_then [OF session_Session_triple], rule carry, rule wtriple_option)
    fix n x assume "\<forall>n. x = Some n \<longrightarrow> live_manage s (wx_manage_hash e c) (wx_now e) n" "x = Some n"
    then have live: "live_manage s (wx_manage_hash e c) (wx_now e) n" by simp
    show "wtriple (at_view s bk) (if n_AuthMethod n \<noteq> ''token'' then w_return None
        else (case AuthenticateTokenDigest a (n_CredentialHash n) of
                None \<Rightarrow> w_return None
              | Some p \<Rightarrow>
                  if \<not> (p_CanPublish p \<or> p_CanManageTeam p \<or> p_CanAdmin p) then w_return None
                  else if n_CredentialID n \<noteq> [] \<and> n_CredentialID n \<noteq> p_TokenID p then w_return (Some None)
                  else w_then (web_record_token e p) (\<lambda>_. w_return (Some (Some p)))))
        (\<lambda>d h. at_view s bk h \<and> (\<forall>p. d = Some (Some p) \<longrightarrow> token_grant e s a p)) (at_view s bk)"
      by (intro wtriple_if wtriple_option wtriple_then [OF recorded] wtriple_return)
        (use c live in \<open>auto simp: token_grant_def\<close>)
  qed (rule wtriple_return, simp)
qed simp

lemma oidc_principal_triple:
  "wtriple (at_view s bk) (oidc_principal e a)
     (\<lambda>d h. at_view s bk h \<and> (\<forall>p. d = Some p \<longrightarrow> oidc_grant e s a p)) (at_view s bk)"
  unfolding oidc_principal_def
  by (rule wtriple_then [OF web_Session_triple], rule carry, rule wtriple_option)
    (rule wtriple_return, simp, rule wtriple_return, auto simp: oidc_grant_def)

lemma managePrincipal_triple:
  "wtriple (started s bk r) (managePrincipal e)
     (\<lambda>x h. at_view s bk h \<and> (\<forall>p. x = Inr (Some p) \<longrightarrow> manage_granted e r s p)) (at_view s bk)"
  unfolding managePrincipal_def
proof (rule wtriple_then [OF manage_authorizer_triple], rule carry, rule wtriple_sum)
  fix x a assume "\<forall>a. x = Inr a \<longrightarrow> manage_authz e r s a" "x = Inr a"
  then have a: "manage_authz e r s a" by simp
  show "wtriple (at_view s bk) (if \<not> Enabled a then w_return (Inr None)
      else w_then (token_principal e a) (\<lambda>decided. case decided of
        Some p \<Rightarrow> w_return (Inr p)
      | None \<Rightarrow> w_then (oidc_principal e a) (\<lambda>p. w_return (Inr p))))
      (\<lambda>x h. at_view s bk h \<and> (\<forall>p. x = Inr (Some p) \<longrightarrow> manage_granted e r s p)) (at_view s bk)"
  proof (intro wtriple_if wtriple_return)
    show "wtriple (at_view s bk) (w_then (token_principal e a) (\<lambda>decided. case decided of
        Some p \<Rightarrow> w_return (Inr p)
      | None \<Rightarrow> w_then (oidc_principal e a) (\<lambda>p. w_return (Inr p))))
      (\<lambda>x h. at_view s bk h \<and> (\<forall>p. x = Inr (Some p) \<longrightarrow> manage_granted e r s p)) (at_view s bk)"
      by (rule wtriple_then [OF token_principal_triple], rule carry, rule wtriple_option)
        (rule wtriple_then [OF oidc_principal_triple], rule carry, rule wtriple_return,
          use a in \<open>auto simp: manage_granted_def intro!: wtriple_return\<close>)
  qed simp
qed (rule wtriple_return, simp)

lemma requireManage_triple:
  "wtriple (started s bk r) (requireManage e) (\<lambda>p h. at_view s bk h \<and> manage_granted e r s p) (at_view s bk)"
  unfolding requireManage_def
proof (rule wtriple_then [OF managePrincipal_triple], rule carry, rule wtriple_sum)
  fix x y assume p: "\<forall>p. x = Inr (Some p) \<longrightarrow> manage_granted e r s p" "x = Inr y"
  have page: "wtriple (at_view s bk) (w_then (web_Session e) (\<lambda>session. if session = None then w_answer (Located ''/manage/login'')
      else w_answer (Located (''/manage/login?error='' @ wx_query_escape e ''OIDC account is not allowed to manage modules''))))
      Q (at_view s bk)" for Q :: "principal \<Rightarrow> api_state \<Rightarrow> bool"
    by (rule wtriple_then [OF web_Session_triple]) (auto intro!: wtriple_if wtriple_answer)
  show "wtriple (at_view s bk) (case y of Some p \<Rightarrow> w_return p
      | None \<Rightarrow> if wx_auth e = None then w_answer (Located ''/manage/login'')
        else w_then (web_Session e) (\<lambda>session. if session = None then w_answer (Located ''/manage/login'')
          else w_answer (Located (''/manage/login?error='' @ wx_query_escape e ''OIDC account is not allowed to manage modules''))))
      (\<lambda>p h. at_view s bk h \<and> manage_granted e r s p) (at_view s bk)"
    by (rule wtriple_option, rule wtriple_if) (auto intro!: wtriple_answer wtriple_return page simp: p)
qed (rule wtriple_fail)

section \<open>The CSRF secret\<close>

definition csrf_proved :: "web_request \<Rightarrow> db \<Rightarrow> bool" where
  "csrf_proved e s \<longleftrightarrow>
     checkManageRequestSourceForCSRF e = None \<and>
     (\<exists>token. token \<noteq> [] \<and> request_cookie e manageCSRFCookie = Some token \<and> wx_post e ''csrf_token'' = token \<and>
        (case request_cookie e manageTokenCookie of
           Some c \<Rightarrow> \<exists>n. live_manage s (wx_manage_hash e c) (wx_now e) n \<and> n_CSRFSecret n = token
         | None \<Rightarrow> wx_auth e \<noteq> None \<longrightarrow> (\<exists>ws. session_live e s ws \<and> ws_CSRFSecret ws = token)))"

lemma requireManageCSRF_triple:
  "wtriple (at_view s bk) (requireManageCSRF e) (\<lambda>_ h. at_view s bk h \<and> csrf_proved e s) (at_view s bk)"
  unfolding requireManageCSRF_def bad_csrf_def Let_def
proof (intro wtriple_if wtriple_fail wtriple_option)
  fix token c
  assume g: "\<not> checkManageRequestSourceForCSRF e \<noteq> None" "request_cookie e manageCSRFCookie = Some token"
    "\<not> (token = [] \<or> wx_post e ''csrf_token'' = [] \<or> token \<noteq> wx_post e ''csrf_token'')"
    "request_cookie e manageTokenCookie = Some c"
  show "wtriple (at_view s bk) (w_then (session_Session e c) (\<lambda>session. case session of
        None \<Rightarrow> w_fail e 403 (Plain ''invalid csrf token'')
      | Some n \<Rightarrow> if n_CSRFSecret n = wx_post e ''csrf_token'' then w_return () else w_fail e 403 (Plain ''invalid csrf token'')))
      (\<lambda>_ h. at_view s bk h \<and> csrf_proved e s) (at_view s bk)"
    by (rule wtriple_then [OF session_Session_triple], rule carry, rule wtriple_option, rule wtriple_fail, assumption,
        rule wtriple_if) (rule wtriple_return, use g in \<open>auto simp: csrf_proved_def intro!: wtriple_fail\<close>)
next
  fix token
  assume g: "\<not> checkManageRequestSourceForCSRF e \<noteq> None" "request_cookie e manageCSRFCookie = Some token"
    "\<not> (token = [] \<or> wx_post e ''csrf_token'' = [] \<or> token \<noteq> wx_post e ''csrf_token'')"
    "request_cookie e manageTokenCookie = None" "\<not> wx_auth e = None"
  show "wtriple (at_view s bk) (w_then (web_Session e) (\<lambda>session. case session of
        None \<Rightarrow> w_fail e 403 (Plain ''invalid csrf token'')
      | Some s \<Rightarrow> if ws_CSRFSecret s = wx_post e ''csrf_token'' then w_return () else w_fail e 403 (Plain ''invalid csrf token'')))
      (\<lambda>_ h. at_view s bk h \<and> csrf_proved e s) (at_view s bk)"
    by (rule wtriple_then [OF web_Session_triple], rule carry, rule wtriple_option, rule wtriple_fail, assumption,
        rule wtriple_if) (rule wtriple_return, use g in \<open>auto simp: csrf_proved_def intro!: wtriple_fail\<close>)
qed (auto simp: csrf_proved_def intro!: wtriple_return)

end
