(* ===== verification/AccessChanges.thy ===== *)
theory AccessChanges
  imports ManageGuards AccessRoundtrip
begin

text \<open>
  Who changes the access configuration through the management pages: what the rows of one team are,
  which forms touch them, and that only an administrator of the team or of the forge does.
\<close>

section \<open>The access of one team\<close>

text \<open>Whether the team exists, its spaces, its OIDC mappings and its tokens apart from their last use.\<close>

definition team_access :: "db \<Rightarrow> string \<Rightarrow> bool \<times> string set \<times> (string \<times> string) set \<times> token_row set" where
  "team_access s t =
     (t \<in> set (db_teams s), {x. (t, x) \<in> set (db_owners s)}, {m. (t, m) \<in> set (db_oidc s)},
      {k \<in> set (map token_core (db_tokens s)). kr_team k = t})"

definition oidc_kinds :: "string set" where
  "oidc_kinds = {''email'', ''subject'', ''domain'', ''group'', ''team_admin_email'', ''team_admin_group'',
     ''admin_email'', ''admin_subject'', ''admin_group''}"

definition clean_text :: "string \<Rightarrow> bool" where "clean_text x \<longleftrightarrow> x \<noteq> [] \<and> trim_space x = x"

text \<open>The rows as the store writes them.\<close>

definition access_clean :: "db \<Rightarrow> bool" where
  "access_clean s \<longleftrightarrow>
     (\<forall>r \<in> set (db_owners s). clean_text (snd r)) \<and>
     (\<forall>r \<in> set (db_oidc s). fst (snd r) \<in> oidc_kinds \<and> clean_text (snd (snd r))) \<and>
     (\<forall>k \<in> set (db_tokens s). kr_token_type k = ''read'' \<or> kr_token_type k = ''publish'')"

definition access_ok :: "db \<Rightarrow> bool" where "access_ok s \<longleftrightarrow> access_fk s \<and> access_clean s"

lemma token_core_fields [simp]: "kr_team (token_core k) = kr_team k" "kr_token_type (token_core k) = kr_token_type k"
  by (simp_all add: token_core_def)

lemma access_view:
  assumes "manage_view t = manage_view s"
  shows "db_teams t = db_teams s" "db_owners t = db_owners s" "db_oidc t = db_oidc s"
    "map token_core (db_tokens t) = map token_core (db_tokens s)"
  using assms by (simp_all add: manage_view_def)

lemma team_access_view:
  assumes "manage_view t = manage_view s"
  shows "team_access t = team_access s"
  by (rule ext) (simp only: team_access_def access_view [OF assms])

lemma token_rows:
  assumes "map token_core (db_tokens t) = map token_core (db_tokens s)"
  shows "(\<forall>k \<in> set (db_tokens t). P (kr_team k) (kr_token_type k)) \<longleftrightarrow> (\<forall>k \<in> set (db_tokens s). P (kr_team k) (kr_token_type k))"
proof -
  have core: "(\<forall>k \<in> set (map token_core ks). P (kr_team k) (kr_token_type k)) \<longleftrightarrow>
      (\<forall>k \<in> set ks. P (kr_team k) (kr_token_type k))" for ks
    by simp
  show ?thesis using core [of "db_tokens t"] core [of "db_tokens s"] assms by simp
qed

lemma access_ok_view: "manage_view t = manage_view s \<Longrightarrow> access_ok t = access_ok s"
  using token_rows [of t s "\<lambda>team ty. team \<in> set (db_teams s)"] token_rows [of t s "\<lambda>team ty. ty = ''read'' \<or> ty = ''publish''"]
  by (simp add: access_ok_def access_fk_def access_clean_def access_view [of t s])

section \<open>The configurations that are loaded\<close>

lemma load_team_fields:
  "tc_Team (load_team s t) = t" "no_raw_tokens (load_team s t)"
  "tc_PublishOwners (load_team s t) = map snd (filter (\<lambda>r. fst r = t) (sort (db_owners s)))"
  "tc_ReadTokenRecords (load_team s t) = map token_of_row (filter (\<lambda>k. kr_token_type k = ''read'')
     (filter (\<lambda>k. kr_team k = t) (sort_key (\<lambda>k. (kr_team k, kr_token_type k, kr_token_prefix k)) (db_tokens s))))"
  "tc_PublishTokenRecords (load_team s t) = map token_of_row (filter (\<lambda>k. kr_token_type k = ''publish'')
     (filter (\<lambda>k. kr_team k = t) (sort_key (\<lambda>k. (kr_team k, kr_token_type k, kr_token_prefix k)) (db_tokens s))))"
  unfolding load_team_def fold_oidc fold_owners fold_tokens by (simp_all add: no_raw_tokens_def empty_config_def)

lemma load_team_oidc:
  "accessOIDCMappings (load_team s t) =
     concat (map (\<lambda>kind. map (Pair kind) (cleaned (of_kind kind (filter (\<lambda>r. fst r = t) (sort (db_oidc s))))))
       [''email'', ''subject'', ''domain'', ''group'', ''team_admin_email'', ''team_admin_group'', ''admin_email'',
        ''admin_subject'', ''admin_group''])"
  unfolding load_team_def fold_oidc fold_owners fold_tokens accessOIDCMappings_def
  by (simp add: Let_def cleaned_def empty_config_def comp_def)

lemma cleaned_clean: "\<forall>x \<in> set xs. clean_text x \<Longrightarrow> cleaned xs = xs"
  by (induction xs) (auto simp: cleaned_def clean_text_def)

lemma loaded_owners:
  assumes "access_clean s"
  shows "{x. (t, x) \<in> set (config_owners (load_team s t))} = {x. (t, x) \<in> set (db_owners s)}"
proof -
  have clean: "\<forall>r \<in> set (db_owners s). clean_text (snd r)" using assms by (simp add: access_clean_def)
  have own: "set (tc_PublishOwners (load_team s t)) = {x. (t, x) \<in> set (db_owners s)}"
    unfolding load_team_fields(3) by (auto simp: image_iff)
  then have "\<forall>x \<in> set (tc_PublishOwners (load_team s t)). clean_text x" using clean by auto
  then have "set (config_owners (load_team s t)) = Pair t ` {x. (t, x) \<in> set (db_owners s)}"
    unfolding config_owners_def load_team_fields(1) using own by (simp only: cleaned_clean set_map)
  then show ?thesis by auto
qed

lemma loaded_oidc:
  assumes "access_clean s"
  shows "{m. (t, m) \<in> set (config_oidc (load_team s t))} = {m. (t, m) \<in> set (db_oidc s)}"
proof -
  let ?rows = "filter (\<lambda>r. fst r = t) (sort (db_oidc s))"
  have clean: "\<forall>x \<in> set (of_kind kind ?rows). clean_text x" for kind
    using assms by (auto simp: of_kind_def access_clean_def)
  have kind: "fst (snd r) \<in> oidc_kinds" if "r \<in> set (db_oidc s)" for r using assms that by (simp add: access_clean_def)
  have "(kind, x) \<in> set (accessOIDCMappings (load_team s t)) \<longleftrightarrow> kind \<in> oidc_kinds \<and> x \<in> set (of_kind kind ?rows)" for kind x
    unfolding load_team_oidc cleaned_clean [OF clean] by (auto simp: oidc_kinds_def)
  moreover have "x \<in> set (of_kind kind ?rows) \<longleftrightarrow> (t, kind, x) \<in> set (db_oidc s)" for kind x
    by (force simp: of_kind_def)
  ultimately have "(kind, x) \<in> set (accessOIDCMappings (load_team s t)) \<longleftrightarrow> (t, kind, x) \<in> set (db_oidc s)" for kind x
    using kind [of "(t, kind, x)"] by auto
  then show ?thesis by (auto simp: config_oidc_def load_team_fields(1))
qed

lemma token_row_of_back: "token_row_of (kr_team k) (kr_token_type k) (token_of_row k) = k"
  by (simp add: token_row_of_def token_of_row_def)

lemma loaded_tokens:
  assumes "access_clean s"
  shows "set (config_tokens (load_team s t)) = {k \<in> set (db_tokens s). kr_team k = t}"
proof -
  have r1: "token_row_of t ''read'' (token_of_row k) = k" if "kr_team k = t" "kr_token_type k = ''read''" for k
    using token_row_of_back [of k] that by simp
  have r2: "token_row_of t ''publish'' (token_of_row k) = k" if "kr_team k = t" "kr_token_type k = ''publish''" for k
    using token_row_of_back [of k] that by simp
  have types: "kr_token_type k = ''read'' \<or> kr_token_type k = ''publish''" if "k \<in> set (db_tokens s)" for k
    using assms that by (simp add: access_clean_def)
  have "set (config_tokens (load_team s t)) =
      (\<lambda>k. token_row_of t ''read'' (token_of_row k)) ` {k \<in> set (db_tokens s). kr_team k = t \<and> kr_token_type k = ''read''} \<union>
      (\<lambda>k. token_row_of t ''publish'' (token_of_row k)) ` {k \<in> set (db_tokens s). kr_team k = t \<and> kr_token_type k = ''publish''}"
    by (auto simp: config_tokens_def load_team_fields)
  also have "\<dots> = {k \<in> set (db_tokens s). kr_team k = t \<and> kr_token_type k = ''read''} \<union>
      {k \<in> set (db_tokens s). kr_team k = t \<and> kr_token_type k = ''publish''}"
    using r1 r2 by (auto simp: image_iff) 
  also have "\<dots> = {k \<in> set (db_tokens s). kr_team k = t}" using types by blast
  finally show ?thesis .
qed

section \<open>The rows that are stored\<close>

lemma config_first:
  "(t, x) \<in> set (config_owners c) \<Longrightarrow> tc_Team c = t" "(t, m) \<in> set (config_oidc c) \<Longrightarrow> tc_Team c = t"
  "k \<in> set (config_tokens c) \<Longrightarrow> kr_team k = tc_Team c"
  by (auto simp: config_owners_def config_oidc_def config_tokens_def token_row_of_def)

lemma replaced_team:
  assumes "access_fk s" "\<forall>cfg \<in> set configs. no_raw_tokens cfg"
    and "ReplaceTeamConfigs v av uuids h c s configs = ((c', s'), Inr ())"
  shows "team_access s' t =
    (t \<in> tc_Team ` set configs,
     {x. \<exists>cfg \<in> set configs. tc_Team cfg = t \<and> (t, x) \<in> set (config_owners cfg)},
     {m. \<exists>cfg \<in> set configs. tc_Team cfg = t \<and> (t, m) \<in> set (config_oidc cfg)},
     {k. \<exists>cfg \<in> set configs. tc_Team cfg = t \<and> k \<in> token_core ` set (config_tokens cfg)})"
proof -
  note w = replace_writes [OF assms]
  have first: "(\<exists>cfg \<in> set configs. (t, m) \<in> set (config_oidc cfg)) \<longleftrightarrow>
      (\<exists>cfg \<in> set configs. tc_Team cfg = t \<and> (t, m) \<in> set (config_oidc cfg))" for m
    using config_first(2) by blast
  have "{x. (t, x) \<in> set (db_owners s')} = {x. \<exists>cfg \<in> set configs. tc_Team cfg = t \<and> (t, x) \<in> set (config_owners cfg)}"
    unfolding w(4) using config_first(1) by auto
  moreover have "{m. (t, m) \<in> set (db_oidc s')} = {m. \<exists>cfg \<in> set configs. tc_Team cfg = t \<and> (t, m) \<in> set (config_oidc cfg)}"
    unfolding w(5) using first by (simp add: set_concat)
  moreover have "{k \<in> set (map token_core (db_tokens s')). kr_team k = t} =
      {k. \<exists>cfg \<in> set configs. tc_Team cfg = t \<and> k \<in> token_core ` set (config_tokens cfg)}"
    unfolding w(3) using config_first(3) by auto
  ultimately show ?thesis by (simp add: team_access_def w(2))
qed

lemma mapping_kinds: "m \<in> set (accessOIDCMappings cfg) \<Longrightarrow> fst m \<in> oidc_kinds \<and> clean_text (snd m)"
  by (auto simp: accessOIDCMappings_def Let_def oidc_kinds_def clean_text_def)

lemma replaced_ok:
  assumes "access_fk s" "\<forall>cfg \<in> set configs. no_raw_tokens cfg"
    and "ReplaceTeamConfigs v av uuids h c s configs = ((c', s'), Inr ())"
  shows "access_ok s'"
proof -
  note w = replace_writes [OF assms]
  have fk: "access_fk s'"
    using w by (auto simp: access_fk_def config_tokens_def config_owners_def config_oidc_def token_row_of_def)
  have owners: "\<forall>r \<in> set (db_owners s'). clean_text (snd r)"
    unfolding w(4) by (auto simp: config_owners_def cleaned_def clean_text_def)
  have oidc: "\<forall>r \<in> set (db_oidc s'). fst (snd r) \<in> oidc_kinds \<and> clean_text (snd (snd r))"
    unfolding w(5) using mapping_kinds by (auto simp: config_oidc_def)
  have tokens: "\<forall>k \<in> set (db_tokens s'). kr_token_type k = ''read'' \<or> kr_token_type k = ''publish''"
    unfolding w(3) by (auto simp: config_tokens_def token_row_of_def)
  show ?thesis using fk owners oidc tokens by (simp add: access_ok_def access_clean_def)
qed

text \<open>A team whose configurations are those that were loaded keeps its access.\<close>

definition configs_of :: "team_config list \<Rightarrow> string \<Rightarrow> team_config set" where
  "configs_of configs t = {cfg \<in> set configs. tc_Team cfg = t}"

lemma loaded_configs_of:
  assumes "access_fk s"
  shows "configs_of (LoadTeamConfigs s) t = (if t \<in> set (db_teams s) then {load_team s t} else {})"
  using LoadTeamConfigs_teams [of s] assms by (auto simp: configs_of_def access_fk_def load_team_fields(1))

lemma kept_team:
  assumes ok: "access_ok s" and raw: "\<forall>cfg \<in> set configs. no_raw_tokens cfg"
    and view: "manage_view s1 = manage_view s" "manage_view s2 = manage_view s"
    and stored: "ReplaceTeamConfigs v av uuids h c s1 configs = ((c', s'), Inr ())"
    and kept: "configs_of configs t = configs_of (LoadTeamConfigs s2) t"
  shows "team_access s' t = team_access s t"
proof -
  have fk: "access_fk s1" "access_fk s2" and clean: "access_clean s2"
    using ok access_ok_view [OF view(1)] access_ok_view [OF view(2)] by (simp_all add: access_ok_def)
  have teams: "t \<in> set (db_teams s)" if "(t, x) \<in> set (db_owners s) \<or> (t, m) \<in> set (db_oidc s) \<or>
      (k \<in> set (db_tokens s) \<and> kr_team k = t)" for x m k
    using that ok by (auto simp: access_ok_def access_fk_def)
  have "team_access s' t = team_access s2 t"
  proof (cases "t \<in> set (db_teams s2)")
    case True
    then have c: "configs_of configs t = {load_team s2 t}" using kept loaded_configs_of [OF fk(2)] by simp
    have "(\<exists>cfg \<in> set configs. tc_Team cfg = t \<and> P cfg) \<longleftrightarrow> (\<exists>cfg \<in> configs_of configs t. P cfg)" for P
      by (auto simp: configs_of_def)
    moreover have "t \<in> tc_Team ` set configs" using c by (auto simp: configs_of_def)
    ultimately have "(\<exists>cfg \<in> set configs. tc_Team cfg = t \<and> P cfg) \<longleftrightarrow> P (load_team s2 t)" "t \<in> tc_Team ` set configs" for P
      using c by simp_all
    then have "team_access s' t = (True, {x. (t, x) \<in> set (config_owners (load_team s2 t))},
        {m. (t, m) \<in> set (config_oidc (load_team s2 t))}, token_core ` set (config_tokens (load_team s2 t)))"
      using replaced_team [OF fk(1) raw stored, of t] by simp
    then show ?thesis using True unfolding loaded_owners [OF clean] loaded_oidc [OF clean] loaded_tokens [OF clean]
      by (auto simp: team_access_def)
  next
    case False
    then have "configs_of configs t = {}" using kept loaded_configs_of [OF fk(2)] by simp
    then have "team_access s' t = (False, {}, {}, {})"
      using replaced_team [OF fk(1) raw stored, of t] by (auto simp: configs_of_def)
    moreover have "team_access s2 t = (False, {}, {}, {})"
      using False fk(2) by (auto simp: team_access_def access_fk_def)
    ultimately show ?thesis by simp
  qed
  then show ?thesis using team_access_view [OF view(2)] by simp
qed

section \<open>What the administrator of a team may change\<close>

text \<open>
  A token that is kept, perhaps revoked; a revoked one stays revoked.
\<close>

definition tokens_kept :: "access_token list \<Rightarrow> access_token list \<Rightarrow> bool" where
  "tokens_kept ts ts' \<longleftrightarrow>
     (\<forall>t \<in> set ts. \<exists>t' \<in> set ts'. t'\<lparr>at_RevokedAt := at_RevokedAt t\<rparr> = t \<and>
        (at_RevokedAt t \<noteq> None \<longrightarrow> at_RevokedAt t' \<noteq> None))"

text \<open>
  A configuration that goes on as another: the mappings to users, domains and administrators of the
  forge are the same, the publish spaces are the same up to the one that is named like the team, and
  the tokens are kept. Groups, administrators of the team, new tokens and the name are free.
\<close>

definition takes_over :: "team_config \<Rightarrow> team_config \<Rightarrow> bool" where
  "takes_over c c' \<longleftrightarrow>
     tc_OIDCEmails c' = tc_OIDCEmails c \<and> tc_OIDCSubjects c' = tc_OIDCSubjects c \<and> tc_OIDCDomains c' = tc_OIDCDomains c \<and>
     tc_OIDCAdminEmails c' = tc_OIDCAdminEmails c \<and> tc_OIDCAdminSubjects c' = tc_OIDCAdminSubjects c \<and>
     tc_OIDCAdminGroups c' = tc_OIDCAdminGroups c \<and>
     (tc_Team c' = tc_Team c \<and> tc_PublishOwners c' = tc_PublishOwners c \<or>
      tc_PublishOwners c' = publishOwnersFromExtra (tc_Team c') (extraPublishOwnersForForm (tc_Team c) (tc_PublishOwners c))) \<and>
     tokens_kept (tc_ReadTokenRecords c) (tc_ReadTokenRecords c') \<and>
     tokens_kept (tc_PublishTokenRecords c) (tc_PublishTokenRecords c')"

lemma tokens_kept_refl [simp]: "tokens_kept ts ts"
  unfolding tokens_kept_def
proof
  fix t assume "t \<in> set ts"
  then show "\<exists>t' \<in> set ts. t'\<lparr>at_RevokedAt := at_RevokedAt t\<rparr> = t \<and> (at_RevokedAt t \<noteq> None \<longrightarrow> at_RevokedAt t' \<noteq> None)"
    by (intro bexI [of _ t]) simp_all
qed

lemma tokens_kept_more: "tokens_kept ts ts' \<Longrightarrow> tokens_kept ts (ts' @ added)"
  unfolding tokens_kept_def by fastforce

lemma takes_over_refl [simp]: "takes_over c c"
  by (simp add: takes_over_def)

text \<open>The same of the rows of the store: one team goes on as another.\<close>

definition restricted_kinds :: "string set" where
  "restricted_kinds = {''email'', ''subject'', ''domain'', ''admin_email'', ''admin_subject'', ''admin_group''}"

definition token_goes_on :: "token_row \<Rightarrow> token_row \<Rightarrow> bool" where
  "token_goes_on k k' \<longleftrightarrow>
     k'\<lparr>kr_team := kr_team k, kr_revoked_at := kr_revoked_at k\<rparr> = k \<and> (kr_revoked_at k \<noteq> None \<longrightarrow> kr_revoked_at k' \<noteq> None)"

definition goes_on_as :: "db \<Rightarrow> db \<Rightarrow> string \<Rightarrow> string \<Rightarrow> bool" where
  "goes_on_as s s' team team' \<longleftrightarrow>
     team \<in> set (db_teams s) \<and> team' \<in> set (db_teams s') \<and>
     (\<forall>kind \<in> restricted_kinds. \<forall>x. (team', kind, x) \<in> set (db_oidc s') \<longleftrightarrow> (team, kind, x) \<in> set (db_oidc s)) \<and>
     (team' = team \<and> (\<forall>x. (team', x) \<in> set (db_owners s') \<longleftrightarrow> (team, x) \<in> set (db_owners s)) \<or>
      (\<forall>x. (team', x) \<in> set (db_owners s') \<longleftrightarrow>
         x = trim_space team' \<or> (team, x) \<in> set (db_owners s) \<and> x \<noteq> trim_space team)) \<and>
     (\<forall>k \<in> set (map token_core (db_tokens s)). kr_team k = team \<longrightarrow>
        (\<exists>k' \<in> set (map token_core (db_tokens s')). kr_team k' = team' \<and> token_goes_on k k'))"

text \<open>
  A change of the access of one team that its administrator may make: what the team is then, it goes
  on from a team the principal administers; and a team that is gone goes on as one.
\<close>

definition team_admin_change :: "principal \<Rightarrow> db \<Rightarrow> db \<Rightarrow> string \<Rightarrow> bool" where
  "team_admin_change p s s' team \<longleftrightarrow>
     (if team \<in> set (db_teams s') then \<exists>t. canManageAccessTeam p t \<and> goes_on_as s s' t team
      else \<exists>t. canManageAccessTeam p t \<and> goes_on_as s s' team t)"

lemma goes_on_view:
  assumes "manage_view t = manage_view s" "manage_view t' = manage_view s'"
  shows "goes_on_as t t' = goes_on_as s s'" "team_admin_change p t t' = team_admin_change p s s'"
  by (intro ext, simp only: goes_on_as_def team_admin_change_def access_view [OF assms(1)] access_view [OF assms(2)])+

lemma cleaned_id: "(\<forall>x \<in> set xs. clean_text x) \<Longrightarrow> set (cleaned xs) = set xs"
  by (simp add: cleaned_clean)

lemma fold_add_owner: "set (fold add_owner xs ys) = set ys \<union> {trim_space x | x. x \<in> set xs \<and> trim_space x \<noteq> []}"
  by (induction xs arbitrary: ys) (auto simp: add_owner_def Let_def)

lemma extra_owners:
  assumes "\<forall>x \<in> set owners. clean_text x" "trim_space team' \<noteq> []"
  shows "set (cleaned (publishOwnersFromExtra team' (extraPublishOwnersForForm team owners))) =
    insert (trim_space team') (set owners - {trim_space team})"
proof -
  have extra: "set (extraPublishOwnersForForm team owners) = set owners - {trim_space team}"
    using assms(1) by (force simp: extraPublishOwnersForForm_def clean_text_def)
  have kept: "trim_space x = x \<and> x \<noteq> []" if "x \<in> set owners" for x using assms(1) that by (auto simp: clean_text_def)
  have all: "set (publishOwnersFromExtra team' (extraPublishOwnersForForm team owners)) =
      insert (trim_space team') (set owners - {trim_space team})" (is "?l = ?r")
  proof -
    have "?l = {trim_space x | x. x \<in> insert (trim_space team') (set owners - {trim_space team}) \<and> trim_space x \<noteq> []}"
      unfolding publishOwnersFromExtra_def fold_add_owner using extra by simp
    also have "\<dots> = ?r"
    proof (intro set_eqI iffI)
      fix y assume "y \<in> ?r"
      then have "trim_space y = y" "y \<noteq> []" using kept assms(2) by auto
      then show "y \<in> {trim_space x | x. x \<in> ?r \<and> trim_space x \<noteq> []}" using \<open>y \<in> ?r\<close> by (intro CollectI exI [of _ y]) simp
    next
      fix y assume "y \<in> {trim_space x | x. x \<in> ?r \<and> trim_space x \<noteq> []}"
      then obtain x where x: "y = trim_space x" "x \<in> ?r" by blast
      then have "trim_space x = x" using kept by auto
      with x show "y \<in> ?r" by simp
    qed
    finally show ?thesis .
  qed
  then have "\<forall>x \<in> set (publishOwnersFromExtra team' (extraPublishOwnersForForm team owners)). clean_text x"
    unfolding all using assms by (auto simp: clean_text_def)
  from cleaned_id [OF this] all show ?thesis by simp
qed

lemma fold_sum_steps: "fold_sum f a xs = Inr b \<Longrightarrow> x \<in> set xs \<Longrightarrow> \<exists>a' b'. f a' x = Inr b'"
proof (induction xs arbitrary: a)
  case (Cons y xs)
  then show ?case by (cases "f a y") auto
qed simp

lemma stored_team_named:
  assumes "access_fk s" "ReplaceTeamConfigs v av uuids h c s configs = ((c', s'), Inr ())" "cfg \<in> set configs"
    "\<forall>cfg \<in> set configs. no_raw_tokens cfg"
  shows "trim_space (tc_Team cfg) \<noteq> []"
proof -
  obtain n1 tx where p: "fold_sum (persist_config (v_now v) uuids h) (0, clearTeams s) configs = Inr (n1, tx)"
    using assms(2)
    by (auto simp: ReplaceTeamConfigs_def replaceAccessConfig_def persistTeamConfigs_def rolled_back_def split: sum.splits)
  from fold_sum_steps [OF p assms(3)] show ?thesis by (auto simp: persist_config_def split: prod.splits if_splits)
qed

lemma restricted_mappings:
  assumes "takes_over c c'" "kind \<in> restricted_kinds"
  shows "(kind, x) \<in> set (accessOIDCMappings c') \<longleftrightarrow> (kind, x) \<in> set (accessOIDCMappings c)"
proof -
  have one: "(kind, x) \<in> set (map (\<lambda>x. (k, trim_space x)) (filter (\<lambda>x. trim_space x \<noteq> []) vs)) \<longleftrightarrow>
      kind = k \<and> x \<in> set (cleaned vs)" for k vs
    by (auto simp: cleaned_def)
  show ?thesis
    unfolding accessOIDCMappings_def Let_def set_append Un_iff one using assms
    by (auto simp: takes_over_def restricted_kinds_def)
qed

lemma tokens_go_on:
  assumes "takes_over c c'" "k \<in> set (config_tokens c)"
  shows "\<exists>k' \<in> set (config_tokens c'). kr_team k' = tc_Team c' \<and> token_goes_on (token_core k) (token_core k')"
proof -
  have row: "token_goes_on (token_core (token_row_of (tc_Team c) kind t)) (token_core (token_row_of (tc_Team c') kind t'))"
    if "t'\<lparr>at_RevokedAt := at_RevokedAt t\<rparr> = t" "at_RevokedAt t \<noteq> None \<longrightarrow> at_RevokedAt t' \<noteq> None" for kind t t'
    using that by (cases t; cases t') (auto simp: token_goes_on_def token_core_def token_row_of_def)
  from assms(2) consider (read) t where "t \<in> set (tc_ReadTokenRecords c)" "k = token_row_of (tc_Team c) ''read'' t"
    | (publish) t where "t \<in> set (tc_PublishTokenRecords c)" "k = token_row_of (tc_Team c) ''publish'' t"
    by (auto simp: config_tokens_def)
  then show ?thesis
  proof cases
    case read
    then obtain t' where "t' \<in> set (tc_ReadTokenRecords c')" "t'\<lparr>at_RevokedAt := at_RevokedAt t\<rparr> = t"
        "at_RevokedAt t \<noteq> None \<longrightarrow> at_RevokedAt t' \<noteq> None"
      using assms(1) unfolding takes_over_def tokens_kept_def by blast
    with row read(2) show ?thesis
      by (intro bexI [of _ "token_row_of (tc_Team c') ''read'' t'"]) (auto simp: config_tokens_def token_row_of_def)
  next
    case publish
    then obtain t' where "t' \<in> set (tc_PublishTokenRecords c')" "t'\<lparr>at_RevokedAt := at_RevokedAt t\<rparr> = t"
        "at_RevokedAt t \<noteq> None \<longrightarrow> at_RevokedAt t' \<noteq> None"
      using assms(1) unfolding takes_over_def tokens_kept_def by blast
    with row publish(2) show ?thesis
      by (intro bexI [of _ "token_row_of (tc_Team c') ''publish'' t'"]) (auto simp: config_tokens_def token_row_of_def)
  qed
qed

lemma stored_goes_on:
  assumes ok: "access_ok s2" and fk: "access_fk s1" and raw: "\<forall>cfg \<in> set configs. no_raw_tokens cfg"
    and stored: "ReplaceTeamConfigs v av uuids h c s1 configs = ((c', s'), Inr ())"
    and team: "t \<in> set (db_teams s2)" and over: "takes_over (load_team s2 t) cfg" "cfg \<in> set configs"
  shows "goes_on_as s2 s' t (tc_Team cfg)"
proof -
  note w = replace_writes [OF fk raw stored]
  have clean: "access_clean s2" using ok by (simp add: access_ok_def)
  have one: "x = cfg" if "x \<in> set configs" "tc_Team x = tc_Team cfg" for x
    using w(1) over(2) that by (auto simp: distinct_map inj_on_def)
  have mine: "(\<exists>x \<in> set configs. P x) \<longleftrightarrow> P cfg" if "\<And>x. P x \<Longrightarrow> tc_Team x = tc_Team cfg" for P
    using one over(2) that by blast
  have owners: "(tc_Team cfg, x) \<in> set (db_owners s') \<longleftrightarrow> x \<in> set (cleaned (tc_PublishOwners cfg))" for x
  proof -
    have "(tc_Team cfg, x) \<in> set (db_owners s') \<longleftrightarrow> (\<exists>y \<in> set configs. (tc_Team cfg, x) \<in> set (config_owners y))"
      unfolding w(4) by auto
    also have "\<dots> \<longleftrightarrow> (tc_Team cfg, x) \<in> set (config_owners cfg)" by (rule mine) (rule config_first(1))
    finally show ?thesis by (auto simp: config_owners_def)
  qed
  have oidc: "(tc_Team cfg, m) \<in> set (db_oidc s') \<longleftrightarrow> m \<in> set (accessOIDCMappings cfg)" for m
  proof -
    have "(tc_Team cfg, m) \<in> set (db_oidc s') \<longleftrightarrow> (\<exists>y \<in> set configs. (tc_Team cfg, m) \<in> set (config_oidc y))"
      unfolding w(5) by auto
    also have "\<dots> \<longleftrightarrow> (tc_Team cfg, m) \<in> set (config_oidc cfg)" by (rule mine) (rule config_first(2))
    finally show ?thesis by (auto simp: config_oidc_def)
  qed
  have old: "set (tc_PublishOwners (load_team s2 t)) = {x. (t, x) \<in> set (db_owners s2)}"
    unfolding load_team_fields(3) by (auto simp: image_iff)
  then have old_clean: "\<forall>x \<in> set (tc_PublishOwners (load_team s2 t)). clean_text x"
    using clean by (auto simp: access_clean_def)
  have old_oidc: "(t, m) \<in> set (db_oidc s2) \<longleftrightarrow> m \<in> set (accessOIDCMappings (load_team s2 t))" for m
    using loaded_oidc [OF clean, of t] by (auto simp: config_oidc_def load_team_fields(1))
  have named: "trim_space (tc_Team cfg) \<noteq> []" using stored over(2) raw by (rule stored_team_named [OF fk])
  have o: "tc_Team cfg = t \<and> (\<forall>x. (tc_Team cfg, x) \<in> set (db_owners s') \<longleftrightarrow> (t, x) \<in> set (db_owners s2)) \<or>
      (\<forall>x. (tc_Team cfg, x) \<in> set (db_owners s') \<longleftrightarrow> x = trim_space (tc_Team cfg) \<or> (t, x) \<in> set (db_owners s2) \<and> x \<noteq> trim_space t)"
  proof -
    from over(1) consider (same) "tc_Team cfg = t" "tc_PublishOwners cfg = tc_PublishOwners (load_team s2 t)"
      | (form) "tc_PublishOwners cfg = publishOwnersFromExtra (tc_Team cfg)
          (extraPublishOwnersForForm t (tc_PublishOwners (load_team s2 t)))"
      unfolding takes_over_def load_team_fields(1) by blast
    then show ?thesis
    proof cases
      case same
      then show ?thesis using old unfolding owners by (simp add: cleaned_id [OF old_clean])
    next
      case form
      show ?thesis using old unfolding owners form extra_owners [OF old_clean named] by auto
    qed
  qed
  have k: "\<exists>k' \<in> set (map token_core (db_tokens s')). kr_team k' = tc_Team cfg \<and> token_goes_on k k'"
    if "k \<in> set (map token_core (db_tokens s2))" "kr_team k = t" for k
  proof -
    from that(1) have "k \<in> token_core ` set (db_tokens s2)" by simp
    then obtain k0 where k0: "k0 \<in> set (db_tokens s2)" "k = token_core k0" by (rule imageE) simp
    have "k0 \<in> set (config_tokens (load_team s2 t))" using loaded_tokens [OF clean, of t] that(2) k0 by simp
    from tokens_go_on [OF over(1) this] obtain k' where k': "k' \<in> set (config_tokens cfg)" "kr_team k' = tc_Team cfg"
        "token_goes_on k (token_core k')" unfolding k0(2) by blast
    then have "k' \<in> set (db_tokens s')" unfolding w(3) using over(2) by auto
    with k' show ?thesis by auto
  qed
  have "tc_Team cfg \<in> set (db_teams s')" using w(2) over(2) by simp
  with team o k show ?thesis
    unfolding goes_on_as_def oidc old_oidc using restricted_mappings [OF over(1)] by blast
qed

end
