(* ===== verification/AccessAuthorized.thy ===== *)
theory AccessAuthorized
  imports AccessChanges
begin

text \<open>
  The forms of the access pages change only the teams the principal administers, and so do the
  handlers that run them.
\<close>

section \<open>Forms\<close>

text \<open>
  What somebody who is no administrator of the forge may make of the configurations: each is kept or
  goes on from one of a team that is administered, and none is lost.
\<close>

definition carried :: "principal \<Rightarrow> team_config list \<Rightarrow> team_config list \<Rightarrow> bool" where
  "carried p before after \<longleftrightarrow>
     (\<forall>c' \<in> set after. c' \<in> set before \<or>
        (\<exists>c \<in> set before. canManageAccessTeam p (tc_Team c) \<and> canManageAccessTeam p (tc_Team c') \<and> takes_over c c')) \<and>
     (\<forall>t \<in> tc_Team ` set before. t \<in> tc_Team ` set after \<or>
        (\<exists>c \<in> set before. \<exists>c' \<in> set after. tc_Team c = t \<and> canManageAccessTeam p t \<and> canManageAccessTeam p (tc_Team c') \<and>
           takes_over c c'))"

text \<open>Every configuration is without raw tokens, and foreign teams keep theirs.\<close>

definition keeps_foreign :: "principal \<Rightarrow> team_config list \<Rightarrow> team_config list \<Rightarrow> bool" where
  "keeps_foreign p before after \<longleftrightarrow>
     (\<forall>cfg \<in> set after. no_raw_tokens cfg) \<and>
     (\<forall>t. \<not> canManageAccessTeam p t \<longrightarrow> configs_of after t = configs_of before t) \<and>
     (p_CanAdmin p \<or> carried p before after)"

lemma admin_manages: "p_CanAdmin p \<Longrightarrow> canManageAccessTeam p t"
  by (simp add: canManageAccessTeam_def)

lemma update_config_nil [simp]: "update_config team f [] = []"
  by (simp add: update_config_def)

lemma update_config_Cons [simp]:
  "update_config team f (c # cs) = (if tc_Team c = team then f c # cs else c # update_config team f cs)"
  by (cases "dropWhile (\<lambda>c. tc_Team c \<noteq> team) cs") (auto simp: update_config_def simp del: dropWhile_eq_Nil_conv)

lemma update_config_members: "c \<in> set (update_config team f configs) \<Longrightarrow> c \<in> set configs \<or> (\<exists>x \<in> set configs. tc_Team x = team \<and> c = f x)"
  by (induction configs) (auto split: if_splits)

lemma update_config_others:
  "(\<And>c. tc_Team (f c) = tc_Team c) \<Longrightarrow> t \<noteq> team \<Longrightarrow> configs_of (update_config team f configs) t = configs_of configs t"
  by (induction configs) (auto simp: configs_of_def)

lemma update_permitted:
  assumes "\<And>c. tc_Team (f c) = tc_Team c" "\<And>c. no_raw_tokens c \<Longrightarrow> no_raw_tokens (f c)"
    and "\<forall>cfg \<in> set configs. no_raw_tokens cfg" "canManageAccessTeam p team"
    and "p_CanAdmin p \<or> (\<forall>c. takes_over c (f c))"
  shows "keeps_foreign p configs (update_config team f configs)"
  unfolding keeps_foreign_def
proof (intro conjI ballI allI impI)
  have teams: "tc_Team ` set (update_config team f configs) = tc_Team ` set configs"
    by (induction configs) (auto simp: assms(1))
  have "carried p configs (update_config team f configs)" if over: "\<forall>c. takes_over c (f c)"
    unfolding carried_def
  proof (intro conjI ballI)
    fix c' assume "c' \<in> set (update_config team f configs)"
    then show "c' \<in> set configs \<or>
        (\<exists>c \<in> set configs. canManageAccessTeam p (tc_Team c) \<and> canManageAccessTeam p (tc_Team c') \<and> takes_over c c')"
      using update_config_members [of c' team f configs] assms(1,4) over by metis
  next
    fix t assume "t \<in> tc_Team ` set configs"
    then show "t \<in> tc_Team ` set (update_config team f configs) \<or> (\<exists>c \<in> set configs. \<exists>c' \<in> set (update_config team f configs).
        tc_Team c = t \<and> canManageAccessTeam p t \<and> canManageAccessTeam p (tc_Team c') \<and> takes_over c c')"
      unfolding teams by simp
  qed
  with assms(5) show "p_CanAdmin p \<or> carried p configs (update_config team f configs)" by blast
next
  fix cfg assume "cfg \<in> set (update_config team f configs)"
  then show "no_raw_tokens cfg" using update_config_members assms(2,3) by blast
next
  fix t assume "\<not> canManageAccessTeam p t"
  then have "t \<noteq> team" using assms(4) by auto
  then show "configs_of (update_config team f configs) t = configs_of configs t" by (rule update_config_others [OF assms(1)])
qed

lemma upsert_permitted:
  assumes "accessConfigsWithUpsertedTeam e p configs = Inr (after, message)" "\<forall>cfg \<in> set configs. no_raw_tokens cfg"
  shows "keeps_foreign p configs after"
proof -
  let ?orig = "form_text e ''original_team''" and ?cfg = "accessTeamConfigFromForm e"
  obtain cfg1 where after: "after = filter (\<lambda>c. tc_Team c \<noteq> ?orig \<and> tc_Team c \<noteq> tc_Team ?cfg) configs @ [cfg1]"
      and own: "p_CanAdmin p \<or> (canManageAccessTeam p ?orig \<and> canManageAccessTeam p (tc_Team ?cfg))"
      and cfg1: "cfg1 = ?cfg \<or> (\<exists>x. cfg1 = keep_tokens x (keep_owners x ?cfg) \<or>
        cfg1 = keep_tokens x (keep_restricted x (keep_owners x ?cfg)))"
      and plain: "p_CanAdmin p \<or> (\<exists>x. findAccessConfig configs ?orig = Some x \<and>
        cfg1 = keep_tokens x (keep_restricted x (keep_owners x ?cfg)))"
    using assms(1)
    by (auto simp: accessConfigsWithUpsertedTeam_def Let_def split: if_splits option.splits)
  have cfg: "tc_Team cfg1 = tc_Team ?cfg" "no_raw_tokens cfg1"
    using cfg1 by (auto simp: keep_tokens_def keep_owners_def keep_restricted_def no_raw_tokens_def
        accessTeamConfigFromForm_def Let_def empty_config_def)
  have "p_CanAdmin p \<or> carried p configs after"
  proof (cases "p_CanAdmin p")
    case False
    then obtain x where x: "findAccessConfig configs ?orig = Some x" "cfg1 = keep_tokens x (keep_restricted x (keep_owners x ?cfg))"
      using plain by blast
    then have found: "x \<in> set configs" "tc_Team x = ?orig" by (auto simp: findAccessConfig_def find_Some_iff)
    have over: "takes_over x cfg1"
      unfolding x(2) by (simp add: takes_over_def keep_tokens_def keep_restricted_def keep_owners_def)
    have own': "canManageAccessTeam p (tc_Team x)" "canManageAccessTeam p (tc_Team cfg1)" using own False found(2) cfg(1) by simp_all
    show ?thesis unfolding carried_def
    proof (rule disjI2, intro conjI ballI)
      fix c' assume "c' \<in> set after"
      then show "c' \<in> set configs \<or>
          (\<exists>c \<in> set configs. canManageAccessTeam p (tc_Team c) \<and> canManageAccessTeam p (tc_Team c') \<and> takes_over c c')"
        using found(1) over own' unfolding after by auto
    next
      fix t assume "t \<in> tc_Team ` set configs"
      then obtain c where "c \<in> set configs" "tc_Team c = t" by blast
      then have "t \<in> tc_Team ` set after \<or> t = tc_Team x" using cfg(1) found(2) unfolding after by fastforce
      then show "t \<in> tc_Team ` set after \<or> (\<exists>c \<in> set configs. \<exists>c' \<in> set after. tc_Team c = t \<and>
          canManageAccessTeam p t \<and> canManageAccessTeam p (tc_Team c') \<and> takes_over c c')"
        using found(1) over own' unfolding after by auto
    qed
  qed simp
  moreover have "t \<noteq> ?orig \<and> t \<noteq> tc_Team ?cfg" if "\<not> canManageAccessTeam p t" for t
    using that own admin_manages by blast
  ultimately show ?thesis unfolding keeps_foreign_def after configs_of_def using assms(2) cfg by fastforce
qed

lemma admin_permitted:
  "p_CanAdmin p \<Longrightarrow> \<forall>cfg \<in> set after. no_raw_tokens cfg \<Longrightarrow> keeps_foreign p configs after"
  by (simp add: keeps_foreign_def admin_manages)

lemma form_permitted:
  assumes "accessConfigsFromForm e p configs = Inr (after, message)" "\<forall>cfg \<in> set configs. no_raw_tokens cfg"
  shows "keeps_foreign p configs after"
proof -
  consider (admins) "p_CanAdmin p" "accessConfigsWithGlobalAdmins e configs = Inr (after, message)"
    | (team) "accessConfigsWithUpsertedTeam e p configs = Inr (after, message)"
    | (delete) "p_CanAdmin p" "accessConfigsWithoutTeam e configs = Inr (after, message)"
    using assms(1) by (auto simp: accessConfigsFromForm_def Let_def split: if_splits)
  then show ?thesis
  proof cases
    case admins
    have "\<forall>cfg \<in> set after. no_raw_tokens cfg"
      using admins(2) assms(2)
      by (auto simp: accessConfigsWithGlobalAdmins_def Let_def without_admins_def no_raw_tokens_def empty_config_def split: if_splits)
    then show ?thesis by (rule admin_permitted [OF admins(1)])
  next
    case team
    then show ?thesis by (rule upsert_permitted [OF _ assms(2)])
  next
    case delete
    have "\<forall>cfg \<in> set after. no_raw_tokens cfg"
      using delete(2) assms(2) by (auto simp: accessConfigsWithoutTeam_def Let_def split: if_splits)
    then show ?thesis by (rule admin_permitted [OF delete(1)])
  qed
qed

lemma set_extras_permitted:
  assumes "p_CanAdmin p" "\<forall>cfg \<in> set configs. no_raw_tokens cfg"
  shows "keeps_foreign p configs (set_extras team extras configs)"
  unfolding set_extras_def
  by (rule update_permitted) (use assms in \<open>auto simp: no_raw_tokens_def admin_manages\<close>)

lemma space_permitted:
  assumes "p_CanAdmin p" "\<forall>cfg \<in> set configs. no_raw_tokens cfg"
  shows "keeps_foreign p configs (assign_space configs cfg space)"
    and "unassign_space e configs cfg space = Inr after \<Longrightarrow> keeps_foreign p configs after"
  using set_extras_permitted [OF assms] by (auto simp: assign_space_def unassign_space_def Let_def split: if_splits)

lemma kept_add: "takes_over c x \<Longrightarrow> takes_over c (add_record kind t x)"
  by (simp add: takes_over_def add_record_def tokens_kept_more)

lemma kept_revoke: "takes_over c (revoke_record e t c)"
proof -
  have "tokens_kept ts (case dropWhile (\<lambda>x. at_ID x \<noteq> i) ts of [] \<Rightarrow> ts
      | x # rest \<Rightarrow> takeWhile (\<lambda>x. at_ID x \<noteq> i) ts @ x\<lparr>at_RevokedAt := Some n\<rparr> # rest)" for ts i n
  proof (cases "dropWhile (\<lambda>x. at_ID x \<noteq> i) ts")
    case (Cons x rest)
    then have ts: "ts = takeWhile (\<lambda>x. at_ID x \<noteq> i) ts @ x # rest" by (metis takeWhile_dropWhile_id)
    show ?thesis unfolding tokens_kept_def Cons list.case
    proof
      fix y assume "y \<in> set ts"
      then have "y = x \<or> y \<in> set (takeWhile (\<lambda>x. at_ID x \<noteq> i) ts @ rest)" by (subst (asm) ts) auto
      then show "\<exists>t' \<in> set (takeWhile (\<lambda>x. at_ID x \<noteq> i) ts @ x\<lparr>at_RevokedAt := Some n\<rparr> # rest).
          t'\<lparr>at_RevokedAt := at_RevokedAt y\<rparr> = y \<and> (at_RevokedAt y \<noteq> None \<longrightarrow> at_RevokedAt t' \<noteq> None)"
      proof
        assume "y = x"
        then show ?thesis by (intro bexI [of _ "x\<lparr>at_RevokedAt := Some n\<rparr>"]) simp_all
      next
        assume "y \<in> set (takeWhile (\<lambda>x. at_ID x \<noteq> i) ts @ rest)"
        then show ?thesis by (intro bexI [of _ y]) auto
      qed
    qed
  next
    case Nil
    show ?thesis unfolding Nil by simp
  qed
  then show ?thesis by (simp add: takes_over_def revoke_record_def set_record_def Let_def)
qed

lemma token_changes:
  "tc_Team (add_record kind t c) = tc_Team c" "no_raw_tokens c \<Longrightarrow> no_raw_tokens (add_record kind t c)"
  "tc_Team (revoke_record e t c) = tc_Team c" "no_raw_tokens c \<Longrightarrow> no_raw_tokens (revoke_record e t c)"
  by (simp_all add: add_record_def revoke_record_def set_record_def Let_def no_raw_tokens_def)

section \<open>Saving\<close>

text \<open>Only teams the principal administers have another access than before.\<close>

definition changed_by :: "principal \<Rightarrow> db \<Rightarrow> db \<Rightarrow> string \<Rightarrow> bool" where
  "changed_by p s s' t \<longleftrightarrow> canManageAccessTeam p t \<and> (p_CanAdmin p \<or> team_admin_change p s s' t)"

definition access_by :: "principal \<Rightarrow> db \<Rightarrow> api_state \<Rightarrow> bool" where
  "access_by p s h \<longleftrightarrow> access_ok (hdb h) \<and> (\<forall>t. team_access (hdb h) t \<noteq> team_access s t \<longrightarrow> changed_by p s (hdb h) t)"

lemma access_by_view:
  assumes "manage_view (hdb h1) = manage_view (hdb h)" "access_by p s h"
  shows "access_by p s h1"
  using assms(2) team_access_view [OF assms(1)] access_ok_view [OF assms(1)] goes_on_view(2) [OF refl assms(1)]
  by (simp add: access_by_def changed_by_def)

lemma at_view_access:
  assumes "access_ok s" "at_view s bk h"
  shows "access_by p s h"
  using assms team_access_view [of "hdb h" s] access_ok_view [of "hdb h" s] by (simp add: at_view_def access_by_def)

lemma replaced_by:
  assumes ok: "access_ok s" and view: "manage_view s1 = manage_view s" "manage_view s2 = manage_view s"
    and stored: "ReplaceTeamConfigs v av uuids h c s1 configs = ((c', s'), Inr ())"
    and keeps_foreign: "keeps_foreign p (LoadTeamConfigs s2) configs"
  shows "access_ok s' \<and> (\<forall>t. team_access s' t \<noteq> team_access s t \<longrightarrow> changed_by p s s' t)"
proof (intro conjI allI impI)
  have raw: "\<forall>cfg \<in> set configs. no_raw_tokens cfg" using keeps_foreign by (simp add: keeps_foreign_def)
  have fk: "access_fk s1" using ok access_ok_view [OF view(1)] by (simp add: access_ok_def)
  have ok2: "access_ok s2" using ok access_ok_view [OF view(2)] by simp
  then have load: "set (LoadTeamConfigs s2) = load_team s2 ` set (db_teams s2)"
    using LoadTeamConfigs_teams [of s2] by (auto simp: access_ok_def access_fk_def)
  show "access_ok s'" by (rule replaced_ok [OF fk raw stored])
  note w = replace_writes [OF fk raw stored]
  fix t assume changed: "team_access s' t \<noteq> team_access s t"
  note kept = kept_team [OF ok raw view stored]
  have mine: "canManageAccessTeam p t" using kept keeps_foreign changed unfolding keeps_foreign_def by blast
  have "team_admin_change p s2 s' t" if carried: "carried p (LoadTeamConfigs s2) configs"
  proof (cases "t \<in> set (db_teams s')")
    case True
    then obtain cfg where cfg: "cfg \<in> set configs" "tc_Team cfg = t" using w(2) by auto
    have "cfg \<notin> set (LoadTeamConfigs s2)"
    proof
      assume "cfg \<in> set (LoadTeamConfigs s2)"
      then have c: "cfg = load_team s2 t" "t \<in> set (db_teams s2)" using cfg(2) load by (auto simp: load_team_fields(1))
      have "configs_of configs t = {cfg}" using cfg w(1) by (auto simp: configs_of_def distinct_map inj_on_def)
      then have "configs_of configs t = configs_of (LoadTeamConfigs s2) t"
        using loaded_configs_of [of s2 t] ok2 c by (simp add: access_ok_def)
      with kept changed show False by blast
    qed
    then obtain c0 where c0: "c0 \<in> set (LoadTeamConfigs s2)" "canManageAccessTeam p (tc_Team c0)" "takes_over c0 cfg"
      using carried cfg(1) unfolding carried_def by blast
    then obtain t0 where t0: "c0 = load_team s2 t0" "t0 \<in> set (db_teams s2)" using load by blast
    have "goes_on_as s2 s' t0 t"
      using stored_goes_on [OF ok2 fk raw stored t0(2) c0(3) [unfolded t0(1)] cfg(1)] cfg(2) by simp
    then show ?thesis using True c0(2) t0(1) by (auto simp: team_admin_change_def load_team_fields(1))
  next
    case False
    have "t \<in> set (db_teams s2)"
    proof (rule ccontr)
      assume n: "t \<notin> set (db_teams s2)"
      then have "configs_of configs t = configs_of (LoadTeamConfigs s2) t"
        using False w(2) load by (auto simp: configs_of_def load_team_fields(1))
      with kept changed show False by blast
    qed
    then have "t \<in> tc_Team ` set (LoadTeamConfigs s2)" unfolding load by (force simp: load_team_fields(1))
    moreover have "t \<notin> tc_Team ` set configs" using False w(2) by simp
    ultimately obtain c0 cfg where c: "c0 \<in> set (LoadTeamConfigs s2)" "cfg \<in> set configs" "tc_Team c0 = t"
        "canManageAccessTeam p (tc_Team cfg)" "takes_over c0 cfg"
      using carried unfolding carried_def by blast
    have c0: "c0 = load_team s2 t" using c(1,3) load by (auto simp: load_team_fields(1))
    have "goes_on_as s2 s' t (tc_Team cfg)"
      by (rule stored_goes_on [OF ok2 fk raw stored \<open>t \<in> set (db_teams s2)\<close> c(5) [unfolded c0] c(2)])
    then show ?thesis using False c(4) by (auto simp: team_admin_change_def)
  qed
  then show "changed_by p s s' t"
    using mine keeps_foreign goes_on_view(2) [OF view(2) refl, of p s'] by (auto simp: changed_by_def keeps_foreign_def)
qed

lemma ReplaceTeamConfigs_failed:
  "ReplaceTeamConfigs v av uuids h c s configs = ((c', s'), Inl err) \<Longrightarrow> s' = s"
  by (auto simp: ReplaceTeamConfigs_def replaceAccessConfig_def rolled_back_def split: sum.splits)


lemma wtriple_db:
  assumes "\<And>h h1 r. P h \<Longrightarrow> hdb h1 = hdb h \<or> (\<exists>c c1 x. f c (hdb h) = ((c1, hdb h1), x)) \<Longrightarrow>
      w_bucket (h_world h1) = w_bucket (h_world h) \<Longrightarrow> Q r h1"
  shows "wtriple P (w_call (db_call f)) Q E"
  unfolding wtriple_def
proof (intro allI impI)
  fix b :: web_state assume p: "P (wb_api b)"
  let ?w = "h_world (wb_api b)" and ?h = "wb_api b"
  let ?h1 = "?h\<lparr>h_world := fst (db_call f ?w)\<rparr>"
  have run: "w_call (db_call f) b = (b\<lparr>wb_api := ?h1\<rparr>, Inr (snd (db_call f ?w)))"
    by (simp add: w_call_def w_api_def h_call_def case_prod_unfold)
  have "hdb ?h1 = hdb ?h \<or> (\<exists>c c1 x. f c (hdb ?h) = ((c1, hdb ?h1), x))"
    by (cases rule: db_call_cases [where f = f and w = ?w]) (auto simp: hdb_def)
  moreover have "w_bucket (h_world ?h1) = w_bucket (h_world ?h)" by simp
  ultimately have "Q (snd (db_call f ?w)) ?h1" by (rule assms [OF p])
  then show "case w_call (db_call f) b of (b1, Inl _) \<Rightarrow> E (wb_api b1) | (b1, Inr x) \<Rightarrow> Q x (wb_api b1)"
    unfolding run by simp
qed

text \<open>What the handlers load, and what they may store.\<close>

definition loaded :: "db \<Rightarrow> team_config list \<Rightarrow> bool" where
  "loaded s configs \<longleftrightarrow> (\<exists>t. manage_view t = manage_view s \<and> configs = LoadTeamConfigs t)"

definition may_save :: "principal \<Rightarrow> db \<Rightarrow> team_config list \<Rightarrow> bool" where
  "may_save p s configs \<longleftrightarrow> (\<exists>before. loaded s before \<and> keeps_foreign p before configs)"

lemma loaded_raw: "access_ok s \<Longrightarrow> loaded s configs \<Longrightarrow> \<forall>cfg \<in> set configs. no_raw_tokens cfg"
proof -
  assume ok: "access_ok s" and "loaded s configs"
  then obtain t where t: "manage_view t = manage_view s" "configs = LoadTeamConfigs t" by (auto simp: loaded_def)
  then have "distinct (db_teams t)" using ok access_ok_view [OF t(1)] by (simp add: access_ok_def access_fk_def)
  then show ?thesis using LoadTeamConfigs_teams t(2) load_team_fields(2) by simp
qed

lemma load_configs_triple:
  "wtriple (at_view s bk) load_configs (\<lambda>r h. at_view s bk h \<and> (\<forall>cs. r = Inr cs \<longrightarrow> loaded s cs)) E"
  unfolding load_configs_def wtriple_def
proof (intro allI impI)
  fix b :: web_state assume v: "at_view s bk (wb_api b)"
  let ?f = "\<lambda>s. Inr (LoadTeamConfigs s)" and ?w = "h_world (wb_api b)" and ?h = "wb_api b"
  let ?h1 = "?h\<lparr>h_world := fst (db_read ?f ?w)\<rparr>"
  have run: "w_call (db_read ?f) b = (b\<lparr>wb_api := ?h1\<rparr>, Inr (snd (db_read ?f ?w)))"
    by (simp add: w_call_def w_api_def h_call_def case_prod_unfold)
  have "w_bucket (h_world ?h1) = w_bucket (h_world ?h)" by (simp add: db_read_def)
  moreover have "hdb ?h1 = hdb ?h" "\<And>cs. snd (db_read ?f ?w) = Inr cs \<Longrightarrow> cs = LoadTeamConfigs (hdb ?h)"
    unfolding db_read_def
    by (cases rule: db_call_cases [where f = "\<lambda>c s. ((c, s), ?f s)" and w = ?w]; auto simp: hdb_def)+
  ultimately show "case w_call (db_read ?f) b of (b1, Inl _) \<Rightarrow> E (wb_api b1)
      | (b1, Inr x) \<Rightarrow> at_view s bk (wb_api b1) \<and> (\<forall>cs. x = Inr cs \<longrightarrow> loaded s cs)"
    using v unfolding run by (auto simp: at_view_def loaded_def)
qed

lemma replace_triple:
  assumes "access_ok s" "may_save p s configs"
  shows "wtriple (at_view s bk) (w_call (db_call (\<lambda>c s. ReplaceTeamConfigs v av uuids hasher c s configs)))
    (\<lambda>_. access_by p s) E"
proof (rule wtriple_db)
  fix h h1 :: api_state
  assume v: "at_view s bk h" and step: "hdb h1 = hdb h \<or> (\<exists>c c1 x. ReplaceTeamConfigs v av uuids hasher c (hdb h) configs = ((c1, hdb h1), x))"
    and "w_bucket (h_world h1) = w_bucket (h_world h)"
  from assms(2) obtain t where t: "manage_view t = manage_view s" "keeps_foreign p (LoadTeamConfigs t) configs"
    by (auto simp: may_save_def loaded_def)
  have view: "manage_view (hdb h) = manage_view s" using v by (simp add: at_view_def)
  from step show "access_by p s h1"
  proof (elim disjE exE)
    assume "hdb h1 = hdb h"
    then show ?thesis using at_view_access [OF assms(1) v] by (simp add: access_by_def)
  next
    fix c c1 x assume r: "ReplaceTeamConfigs v av uuids hasher c (hdb h) configs = ((c1, hdb h1), x)"
    show ?thesis
    proof (cases x)
      case (Inl err)
      then have "hdb h1 = hdb h" using r ReplaceTeamConfigs_failed by blast
      then show ?thesis using at_view_access [OF assms(1) v] by (simp add: access_by_def)
    next
      case (Inr u)
      then show ?thesis using replaced_by [OF assms(1) view t(1) _ t(2)] r by (auto simp: access_by_def)
    qed
  qed
qed

lemma access_by_keeps: "w_keeps manage_view m \<Longrightarrow> wtriple (access_by p s) m (\<lambda>_. access_by p s) (access_by p s)"
  by (erule w_keeps_triple) (erule access_by_view)

lemma set_authorizer_keeps [view_intros]: "w_keeps V (set_authorizer e a)"
  unfolding set_authorizer_def by (rule w_keeps_api) (simp add: h_keeps_def hdb_def)

lemma save_triple:
  assumes "access_ok s" "may_save p s configs"
  shows "wtriple (at_view s bk) (saveAccessConfigs e configs) (\<lambda>_. access_by p s) (access_by p s)"
proof -
  have stay: "wtriple (at_view s bk) (w_return x) (\<lambda>_. access_by p s) (access_by p s)" for x :: "form_error + unit"
    by (rule wtriple_return) (rule at_view_access [OF assms(1)])
  have store: "wtriple (at_view s bk) (w_then (w_call (db_call (\<lambda>c s.
        ReplaceTeamConfigs (web_env e) (auth_env_of e) (wx_uuids e) hasher c s configs))) (\<lambda>x. case x of
          Inl err \<Rightarrow> w_return (Inl (BackendError err))
        | Inr _ \<Rightarrow> w_then (set_authorizer e a) (\<lambda>_. w_return (Inr ())))) (\<lambda>_. access_by p s) (access_by p s)" for hasher a
    by (rule wtriple_then [OF replace_triple [OF assms]], rule wtriple_sum)
      (rule wtriple_return, assumption, intro access_by_keeps view_intros)
  let ?save = "\<lambda>r. if configs = [] then w_return (Inl (FormError ''access config must contain at least one team''))
        else case (if rt_tokenHasher r \<noteq> None
                   then NewAuthorizerWithTokenHasher (auth_env_of e) (AccessConfigsWithRuntimeAdmin configs (rt_adminToken r)) (rt_tokenHasher r)
                   else NewAuthorizer (auth_env_of e) (AccessConfigsWithRuntimeAdmin configs (rt_adminToken r))) of
          Inl err \<Rightarrow> w_return (Inl (AccessError err))
        | Inr a \<Rightarrow> if \<not> Enabled (Some a) then w_return (Inl (FormError ''access config must contain at least one access credential''))
            else w_then (w_call (db_call (\<lambda>c s.
              ReplaceTeamConfigs (web_env e) (auth_env_of e) (wx_uuids e) (rt_tokenHasher r) c s configs))) (\<lambda>x. case x of
                Inl err \<Rightarrow> w_return (Inl (BackendError err))
              | Inr _ \<Rightarrow> w_then (set_authorizer e a) (\<lambda>_. w_return (Inr ())))"
  have "wtriple (at_view s bk) (?save r) (\<lambda>_. access_by p s) (access_by p s)" for r
    by (intro wtriple_if wtriple_sum stay store)
  then have "wtriple (at_view s bk) (\<lambda>b. ?save (h_authz (wb_api b)) b) (\<lambda>_. access_by p s) (access_by p s)"
    by (rule wtriple_at)
  moreover have "saveAccessConfigs e configs = (\<lambda>b. ?save (h_authz (wb_api b)) b)"
    by (rule ext) (simp add: saveAccessConfigs_def Let_def w_return_def split: sum.split)
  ultimately show ?thesis by simp
qed

end
