(* ===== verification/AccessHandlers.thy ===== *)
theory AccessHandlers
  imports AccessAuthorized
begin

text \<open>The handlers of the access pages, from the forms and the guards.\<close>

section \<open>Steps beside the change\<close>

lemma io_keeps [view_intros]: "w_keeps V (w_call io_call)"
  by (simp add: w_keeps_def w_call_def w_api_def h_call_def io_call_def hdb_def case_prod_unfold)

lemma audit_session_keeps [view_intros]: "w_keeps manage_view (audit_session e p session)"
  unfolding audit_session_def by (intro view_intros)

lemma web_audit_keeps [view_intros]:
  "w_keeps manage_view (auditWithOIDCSession e p session action result reason attrs)"
  "w_keeps manage_view (web_audit e p action result reason attrs)"
  "w_keeps manage_view (failed_audit e p action err attrs)"
  "w_keeps manage_view (web_prepare_audit e p action attrs)"
proof -
  show a: "w_keeps manage_view (auditWithOIDCSession e p session action result reason attrs)" for session result reason
  proof -
    let ?f = "\<lambda>c. if c then w_return () else w_then (audit_session e p session) (\<lambda>s.
        w_api (audit (with_session e s) p action result reason attrs))"
    have "w_keeps manage_view (?f c)" for c by (intro view_intros plain_manage_view)
    then have "w_keeps manage_view (\<lambda>b. ?f (result = ''success'' \<and> MutationAuditRecorded (w_ctx (h_world (wb_api b)))) b)"
      by (rule w_keeps_at)
    moreover have "auditWithOIDCSession e p session action result reason attrs =
        (\<lambda>b. ?f (result = ''success'' \<and> MutationAuditRecorded (w_ctx (h_world (wb_api b)))) b)"
      by (rule ext) (simp add: auditWithOIDCSession_def w_return_def)
    ultimately show ?thesis by simp
  qed
  show "w_keeps manage_view (web_audit e p action result reason attrs)"
    "w_keeps manage_view (failed_audit e p action err attrs)"
    unfolding failed_audit_def web_audit_def by (rule a)+
  show "w_keeps manage_view (web_prepare_audit e p action attrs)"
    unfolding web_prepare_audit_def by (intro view_intros)
qed

lemma csrf_keeps [view_intros]: "w_keeps manage_view (ensureManageCSRFToken e)"
  unfolding ensureManageCSRFToken_def Let_def setManageCSRFTokenCookie_def
  by (intro view_intros)

lemma page_keeps [view_intros]:
  "w_keeps manage_view (form_page e name status texts)" "w_keeps manage_view load_configs"
  "w_keeps manage_view (renderManageAccess e message)" "w_keeps manage_view (renderManageAccessAddPage e message status)"
  "w_keeps manage_view (redirectManageResult e fallback key message)" "w_keeps manage_view (lock_access_config e)"
  "w_keeps manage_view (manage_method_not_allowed e)" "w_keeps manage_view (admin_required e message)"
  "w_keeps manage_view (access_failed e p action attrs err)"
proof -
  show p: "w_keeps manage_view (form_page e name status texts)" for name status texts
    unfolding form_page_def by (intro view_intros)
  show l: "w_keeps manage_view load_configs" unfolding load_configs_def by (intro view_intros)
  show r: "w_keeps manage_view (renderManageAccess e message)" for message
    unfolding renderManageAccess_def Let_def by (intro view_intros l p)
  show "w_keeps manage_view (renderManageAccessAddPage e message status)"
    unfolding renderManageAccessAddPage_def by (rule p)
  show d: "w_keeps manage_view (redirectManageResult e fallback key message)" for fallback key message
    unfolding redirectManageResult_def by (intro view_intros)
  show "w_keeps manage_view (lock_access_config e)" unfolding lock_access_config_def by (intro view_intros)
  show "w_keeps manage_view (manage_method_not_allowed e)" "w_keeps manage_view (admin_required e message)"
    unfolding manage_method_not_allowed_def admin_required_def by (intro view_intros)+
  show "w_keeps manage_view (access_failed e p action attrs err)"
    unfolding access_failed_def Let_def by (intro view_intros r d)
qed

section \<open>Each change\<close>

text \<open>What every branch of a change ends in.\<close>

lemma change_ends:
  assumes "access_ok s" "w_keeps manage_view m"
  shows "wtriple (at_view s bk) m (\<lambda>_. access_by p s) (access_by p s)"
  by (rule wtriple_weaken [OF at_view_keeps [OF assms(2)]]) (auto intro: at_view_access [OF assms(1)])

lemma saved_then:
  assumes "access_ok s" "may_save p s configs" "\<And>r. w_keeps manage_view (f r)"
  shows "wtriple (at_view s bk) (w_then (web_prepare_audit e p action attrs) (\<lambda>_. w_then (saveAccessConfigs e configs) f))
    (\<lambda>_. access_by p s) (access_by p s)"
proof (rule wtriple_then)
  show "wtriple (at_view s bk) (web_prepare_audit e p action attrs) (\<lambda>_. at_view s bk) (access_by p s)"
    by (rule wtriple_weaken [OF at_view_keeps [OF web_audit_keeps(4)]]) (auto intro: at_view_access [OF assms(1)])
  show "wtriple (at_view s bk) (w_then (saveAccessConfigs e configs) f) (\<lambda>_. access_by p s) (access_by p s)"
    by (rule wtriple_then [OF save_triple [OF assms(1,2)]]) (rule access_by_keeps [OF assms(3)])
qed


lemma permitted_saves: "loaded s before \<Longrightarrow> keeps_foreign p before configs \<Longrightarrow> may_save p s configs"
  by (auto simp: may_save_def)

text \<open>What a form computes may be stored.\<close>

definition computed :: "principal \<Rightarrow> db \<Rightarrow> form_error + (team_config list \<times> string) \<Rightarrow> bool" where
  "computed p s r \<longleftrightarrow> (\<forall>configs message. r = Inr (configs, message) \<longrightarrow> may_save p s configs)"

lemma configs_changed_triple:
  assumes "\<And>before configs message. loaded s before \<Longrightarrow> f before = Inr (configs, message) \<Longrightarrow> keeps_foreign p before configs"
  shows "wtriple (at_view s bk) (configs_changed f) (\<lambda>r h. at_view s bk h \<and> computed p s r) (at_view s bk)"
  unfolding configs_changed_def computed_def
  by (rule wtriple_then [OF load_configs_triple])
    (auto intro!: wtriple_return intro: permitted_saves assms split: sum.split)

lemma locked_then:
  assumes "access_ok s" "wtriple (at_view s bk) m (\<lambda>_. access_by p s) (access_by p s)"
  shows "wtriple (at_view s bk) (w_then (lock_access_config e) (\<lambda>_. m)) (\<lambda>_. access_by p s) (access_by p s)"
  by (rule wtriple_then [OF wtriple_weaken [OF at_view_keeps [OF page_keeps(6)]]], assumption, assumption)
    (auto intro: at_view_access [OF assms(1)] assms(2))

text \<open>A form that is computed and then stored.\<close>

lemma stored_change:
  assumes "access_ok s"
    and "wtriple (at_view s bk) m (\<lambda>r h. at_view s bk h \<and> computed p s r) (at_view s bk)"
    and "\<And>err. w_keeps manage_view (failed err)"
    and "\<And>configs message r. w_keeps manage_view (finish configs message r)"
  shows "wtriple (at_view s bk) (w_then m (\<lambda>r. case r of
       Inl err \<Rightarrow> failed err
     | Inr (configs, message) \<Rightarrow> w_then (web_prepare_audit e p action (attrs configs)) (\<lambda>_.
         w_then (saveAccessConfigs e configs) (finish configs message))))
    (\<lambda>_. access_by p s) (access_by p s)"
proof (rule wtriple_then)
  show "wtriple (at_view s bk) m (\<lambda>r h. at_view s bk h \<and> computed p s r) (access_by p s)"
    by (rule wtriple_weaken [OF assms(2)]) (auto intro: at_view_access [OF assms(1)])
  fix r :: "form_error + (team_config list \<times> string)"
  show "wtriple (\<lambda>h. at_view s bk h \<and> computed p s r)
    (case r of Inl err \<Rightarrow> failed err
     | Inr (configs, message) \<Rightarrow> w_then (web_prepare_audit e p action (attrs configs)) (\<lambda>_.
         w_then (saveAccessConfigs e configs) (finish configs message)))
    (\<lambda>_. access_by p s) (access_by p s)"
  proof (rule carry, rule wtriple_sum)
    show "wtriple (at_view s bk) (failed err) (\<lambda>_. access_by p s) (access_by p s)" for err
      by (rule change_ends [OF assms(1,3)])
    fix y assume y: "computed p s r" "r = Inr y"
    obtain configs message where "y = (configs, message)" by (cases y)
    with y show "wtriple (at_view s bk) (case y of (configs, message) \<Rightarrow> w_then (web_prepare_audit e p action (attrs configs)) (\<lambda>_.
        w_then (saveAccessConfigs e configs) (finish configs message))) (\<lambda>_. access_by p s) (access_by p s)"
      by (auto intro!: saved_then [OF assms(1)] assms(4) simp: computed_def)
  qed
qed

lemma form_computed:
  assumes "access_ok s"
  shows "wtriple (at_view s bk) (if form_loads e p then configs_changed (accessConfigsFromForm e p)
      else w_return (accessConfigsFromForm e p [])) (\<lambda>r h. at_view s bk h \<and> computed p s r) (at_view s bk)"
proof (rule wtriple_if)
  show "wtriple (at_view s bk) (configs_changed (accessConfigsFromForm e p)) (\<lambda>r h. at_view s bk h \<and> computed p s r) (at_view s bk)"
    by (rule configs_changed_triple) (rule form_permitted [OF _ loaded_raw [OF assms]])
  assume "\<not> form_loads e p"
  then have "computed p s (accessConfigsFromForm e p [])"
    by (auto simp: computed_def form_loads_def accessConfigsFromForm_def Let_def split: if_splits)
  then show "wtriple (at_view s bk) (w_return (accessConfigsFromForm e p []))
      (\<lambda>r h. at_view s bk h \<and> computed p s r) (at_view s bk)"
    by (simp add: wtriple_return)
qed

lemma loads_then:
  assumes "access_ok s" "\<And>r. wtriple (at_view s bk) (f r) (\<lambda>_. access_by p s) (access_by p s)"
  shows "wtriple (at_view s bk) (w_then load_configs f) (\<lambda>_. access_by p s) (access_by p s)"
  by (rule wtriple_then [OF wtriple_weaken [OF at_view_keeps [OF page_keeps(2)]]], assumption, assumption)
    (auto intro: at_view_access [OF assms(1)] assms(2))

lemma access_change_triple:
  assumes "access_ok s"
  shows "wtriple (at_view s bk) (access_change e p) (\<lambda>_. access_by p s) (access_by p s)"
  unfolding access_change_def case_prod_unfold Let_def
proof (rule locked_then [OF assms], rule loads_then [OF assms], rule wtriple_sum)
  show "wtriple (at_view s bk) (w_then (failed_audit e p action (Service err) attrs) (\<lambda>_. w_fail e 500 (Service err)))
      (\<lambda>_. access_by p s) (access_by p s)" for err action attrs
    by (rule change_ends [OF assms]) (intro view_intros)
qed (rule stored_change [unfolded case_prod_unfold, OF assms form_computed [OF assms]]; intro view_intros)

lemma add_team_triple:
  assumes "access_ok s"
  shows "wtriple (at_view s bk) (add_team e p) (\<lambda>_. access_by p s) (access_by p s)"
  unfolding add_team_def case_prod_unfold Let_def
proof (rule wtriple_if)
  show "wtriple (at_view s bk) (w_then (failed_audit e p ''create_team'' (Plain ''unknown add-team form action'') []) (\<lambda>_.
      renderManageAccessAddPage e ''unknown add-team form action'' 400)) (\<lambda>_. access_by p s) (access_by p s)"
    by (rule change_ends [OF assms]) (intro view_intros)
next
  have form: "wtriple (at_view s bk) (configs_changed (accessConfigsWithUpsertedTeam e p))
      (\<lambda>r h. at_view s bk h \<and> computed p s r) (at_view s bk)"
    by (rule configs_changed_triple) (rule upsert_permitted [OF _ loaded_raw [OF assms]])
  show "wtriple (at_view s bk) (w_then (lock_access_config e) (\<lambda>_.
      w_then load_configs (\<lambda>before. case before of
        Inl err \<Rightarrow> w_then (failed_audit e p ''create_team'' (Service err) []) (\<lambda>_. w_fail e 500 (Service err))
      | Inr beforeConfigs \<Rightarrow>
          w_then (configs_changed (accessConfigsWithUpsertedTeam e p)) (\<lambda>r. case r of
            Inl err \<Rightarrow> w_then (failed_audit e p ''create_team'' (form_http_error e err) []) (\<lambda>_.
              renderManageAccessAddPage e (manageErrorMessage e (manageFormErrorStatus err) (form_http_error e err))
                (manageFormErrorStatus err))
          | Inr u \<Rightarrow>
              w_then (web_prepare_audit e p ''create_team'' [(''team'', form_text e ''team''),
                (''changes'', accessConfigChangeSummary beforeConfigs (fst u) (form_text e ''team''))]) (\<lambda>_.
              w_then (saveAccessConfigs e (fst u)) (\<lambda>r. case r of
                Inl err \<Rightarrow> w_then (failed_audit e p ''create_team'' (form_http_error e err) []) (\<lambda>_.
                  renderManageAccessAddPage e (manageErrorMessage e (manageFormErrorStatus err) (form_http_error e err))
                    (manageFormErrorStatus err))
              | Inr _ \<Rightarrow>
                  w_then (web_audit e p ''create_team'' ''success'' ''none'' [(''team'', form_text e ''team''),
                    (''changes'', accessConfigChangeSummary beforeConfigs (fst u) (form_text e ''team''))]) (\<lambda>_.
                    redirectManageResult e (''/manage/teams/'' @ wx_path_escape e (form_text e ''team'') @ ''/access'')
                      ''message'' (snd u))))))))
      (\<lambda>_. access_by p s) (access_by p s)"
  proof (rule locked_then [OF assms], rule loads_then [OF assms], rule wtriple_sum)
    show "wtriple (at_view s bk) (w_then (failed_audit e p ''create_team'' (Service err) []) (\<lambda>_. w_fail e 500 (Service err)))
        (\<lambda>_. access_by p s) (access_by p s)" for err
      by (rule change_ends [OF assms]) (intro view_intros)
  qed (rule stored_change [unfolded case_prod_unfold, OF assms form]; intro view_intros)
qed

section \<open>Spaces\<close>

lemma spaces_computed:
  assumes "access_ok s" "p_CanAdmin p"
  shows "wtriple (at_view s bk) (publishSpaceConfigsFromForm e) (\<lambda>r h. at_view s bk h \<and> computed p s r) (at_view s bk)"
proof -
  note raw = loaded_raw [OF assms(1)]
  have none: "computed p s (Inl err)" for err by (simp add: computed_def)
  have assigned: "computed p s (case r of Inl err \<Rightarrow> Inl (BackendError err)
      | Inr spaces \<Rightarrow> if map_of spaces space \<noteq> None then Inl (FormError message)
          else Inr (assign_space configs cfg space, ''publish space assigned''))" if "loaded s configs"
    for r :: "service_error + (string, nat) gomap" and message configs cfg space
    using permitted_saves [OF that space_permitted(1) [OF assms(2) raw [OF that]]]
    by (simp add: computed_def split: sum.split)
  have unassigned: "computed p s (map_sum (\<lambda>x. x) (\<lambda>cs. (cs, ''publish space unassigned'')) (unassign_space e configs cfg space))"
    if "loaded s configs" for configs cfg space
    using permitted_saves [OF that space_permitted(2) [OF assms(2) raw [OF that]]]
    by (cases "unassign_space e configs cfg space") (auto simp: computed_def)
  have counted: "wtriple (at_view s bk) (w_call (db_read f)) (\<lambda>_. at_view s bk) (at_view s bk)" for f :: "db \<Rightarrow> (string, nat) gomap result"
    by (intro at_view_keeps view_intros)
  show ?thesis
    unfolding publishSpaceConfigsFromForm_def Let_def
    by (rule wtriple_option, rule wtriple_then [OF load_configs_triple], rule carry, rule wtriple_sum, rule wtriple_return, simp add: none,
        rule wtriple_sum, rule wtriple_return, simp add: none, intro wtriple_if wtriple_then [OF counted])
      (auto intro!: wtriple_return simp: none assigned unassigned)
qed

lemma space_change_triple:
  assumes "access_ok s" "p_CanAdmin p"
  shows "wtriple (at_view s bk) (space_change e p) (\<lambda>_. access_by p s) (access_by p s)"
  unfolding space_change_def case_prod_unfold Let_def
  by (rule locked_then [OF assms(1)])
    (rule stored_change [unfolded case_prod_unfold, OF assms(1) spaces_computed [OF assms]]; intro view_intros)

section \<open>Access tokens\<close>

lemma draw_keeps [view_intros]: "w_keeps V (draw_token e kind)"
  unfolding draw_token_def Let_def by (intro view_intros) (auto intro!: view_intros split: option.split)

lemma token_saved_triple:
  assumes "access_ok s" "may_save p s configs" "w_keeps manage_view answer"
  shows "wtriple (at_view s bk) (token_saved e p action attrs configs answer) (\<lambda>_. access_by p s) (access_by p s)"
  unfolding token_saved_def by (rule saved_then [OF assms(1,2)]) (intro view_intros assms(3))

lemma changed_saves:
  assumes "access_ok s" "loaded s configs" "canManageAccessTeam p team"
    and "\<And>c. tc_Team (f c) = tc_Team c" "\<And>c. no_raw_tokens c \<Longrightarrow> no_raw_tokens (f c)" "\<forall>c. takes_over c (f c)"
  shows "may_save p s (update_config team f configs)"
  by (rule permitted_saves [OF assms(2) update_permitted [OF assms(4,5) loaded_raw [OF assms(1,2)] assms(3) disjI2 [OF assms(6)]]])

lemma if_applied: "(if c then f else g) x = (if c then f x else g x)"
  by simp

lemma create_token_triple:
  assumes "access_ok s" "loaded s configs" "canManageAccessTeam p (tc_Team cfg)"
  shows "wtriple (at_view s bk) (createAccessToken e p configs cfg kind rotated target) (\<lambda>_. access_by p s) (access_by p s)"
proof -
  let ?change = "\<lambda>kind t c. add_record kind t (case rotated of None \<Rightarrow> c | Some old \<Rightarrow> revoke_record e old c)"
  have saves: "may_save p s (update_config (tc_Team cfg) (?change kind t) configs)" for kind t
    by (rule changed_saves [OF assms]) (auto simp: token_changes kept_add kept_revoke split: option.split)
  have stop: "wtriple (at_view s bk) (w_fail e status err) (\<lambda>_. access_by p s) (access_by p s)" for status err
    by (intro change_ends [OF assms(1)] view_intros)
  have drawn: "wtriple (at_view s bk) (draw_token e kind) (\<lambda>_. at_view s bk) (access_by p s)" for kind
    by (rule wtriple_weaken [OF at_view_keeps [OF draw_keeps]]) (auto intro: at_view_access [OF assms(1)])
  have tail: "wtriple (at_view s bk) (w_then (draw_token e k) (\<lambda>drawn. case token_record e hasher rotated n drawn of
        Inl (status, message) \<Rightarrow> w_fail e status (Plain message)
      | Inr t \<Rightarrow> token_saved e p action (attrs t) (update_config (tc_Team cfg) (?change k t) configs)
          (form_page e ''token-created'' 200 (texts drawn t)))) (\<lambda>_. access_by p s) (access_by p s)"
    for k hasher n action attrs texts
    by (rule wtriple_then [OF drawn]) (auto intro!: stop token_saved_triple [OF assms(1) saves] view_intros split: sum.split)
  let ?kind = "ne_lower (hx_net (wx_api e)) (trim_space kind)"
    and ?name = "case rotated of Some old \<Rightarrow> at_Description old | None \<Rightarrow> form_text e ''name''"
    and ?action = "if rotated = None then ''create_access_token'' else ''rotate_access_token''"
  let ?attrs = "\<lambda>t. [(''team'', tc_Team cfg), (''token_role'', ?kind), (''token_name'', ?name),
      (''token_prefix'', at_Prefix t), (''token_id'', at_ID t)] @ (case rotated of None \<Rightarrow> [] | Some old \<Rightarrow> [(''replaces_token_id'', at_ID old)])"
  let ?texts = "\<lambda>drawn t. [(''token'', fst drawn), (''name'', ?name), (''prefix'', at_Prefix t), (''team'', tc_Team cfg),
      (''kind'', ?kind), (''next'', target)]"
  let ?create = "\<lambda>hasher. if ?kind \<noteq> ''read'' \<and> ?kind \<noteq> ''publish'' then w_fail e 400 (Plain ''access token role must be read or publish'')
    else if rotated = None \<and> ?name = [] then w_fail e 400 (Plain ''token name is required'')
    else if 200 < length ?name then w_fail e 400 (Plain ''token name must not exceed 200 characters'')
    else if rotated = None \<and> activeTokenNameExists e cfg ?kind ?name
    then w_fail e 409 (Plain ''an active token with this name and role already exists'')
    else w_then (draw_token e ?kind) (\<lambda>drawn. case token_record e hasher rotated ?name drawn of
        Inl (status, message) \<Rightarrow> w_fail e status (Plain message)
      | Inr t \<Rightarrow> token_saved e p ?action (?attrs t) (update_config (tc_Team cfg) (?change ?kind t) configs)
          (form_page e ''token-created'' 200 (?texts drawn t)))"
  have "wtriple (at_view s bk) (?create hasher) (\<lambda>_. access_by p s) (access_by p s)" for hasher
    by (rule wtriple_if, rule stop, rule wtriple_if, rule stop, rule wtriple_if, rule stop, rule wtriple_if, rule stop,
        rule tail [of ?kind ?action ?attrs ?texts hasher ?name])
  then have "wtriple (at_view s bk) (\<lambda>b. ?create (rt_tokenHasher (h_authz (wb_api b))) b) (\<lambda>_. access_by p s) (access_by p s)"
    by (rule wtriple_at)
  moreover have "createAccessToken e p configs cfg kind rotated target = (\<lambda>b. ?create (rt_tokenHasher (h_authz (wb_api b))) b)"
    by (rule ext) (simp only: createAccessToken_def Let_def if_applied)
  ultimately show ?thesis by simp
qed

lemma token_action_triple:
  assumes "access_ok s" "loaded s configs" "canManageAccessTeam p (tc_Team cfg)"
  shows "wtriple (at_view s bk) (token_action e p configs cfg target) (\<lambda>_. access_by p s) (access_by p s)"
proof -
  have stop: "wtriple (at_view s bk) (w_fail e status err) (\<lambda>_. access_by p s) (access_by p s)" for status err
    by (intro change_ends [OF assms(1)] view_intros)
  have revoked: "wtriple (at_view s bk) (token_saved e p action attrs (update_config (tc_Team cfg) (revoke_record e t) configs)
      (redirectManageResult e target ''message'' message)) (\<lambda>_. access_by p s) (access_by p s)" for t action attrs message
    by (rule token_saved_triple [OF assms(1) changed_saves [OF assms]]) (auto intro: view_intros simp: token_changes kept_revoke)
  show ?thesis
    unfolding token_action_def Let_def
    by (intro wtriple_if create_token_triple [OF assms] wtriple_option) (auto intro: stop create_token_triple [OF assms] revoked)
qed

lemma team_tokens_triple:
  assumes "access_ok s"
  shows "wtriple (at_view s bk) (team_tokens e p) (\<lambda>_. access_by p s) (access_by p s)"
proof -
  have stop: "wtriple (at_view s bk) m (\<lambda>_. access_by p s) (access_by p s)" if "w_keeps manage_view m" for m :: "web_answer web"
    by (rule change_ends [OF assms that])
  have found: "findAccessConfig configs team = Some cfg \<Longrightarrow> tc_Team cfg = team" for configs team cfg
    by (auto simp: findAccessConfig_def find_Some_iff)
  have may: "canManageAccessTeam p team" if "\<not> (team = [] \<or> (\<not> p_CanAdmin p \<and> \<not> canManageAccessTeam p team))" for team
    using that admin_manages by blast
  have load: "wtriple (at_view s bk) load_configs (\<lambda>r h. at_view s bk h \<and> (\<forall>cs. r = Inr cs \<longrightarrow> loaded s cs)) (access_by p s)"
    by (rule load_configs_triple)
  show ?thesis
    unfolding team_tokens_def Let_def
    by (rule wtriple_if, rule stop, intro view_intros, rule wtriple_then [OF load], rule carry, rule wtriple_sum, rule stop, intro view_intros,
        rule wtriple_option, rule stop, intro view_intros, rule wtriple_if, rule stop, intro view_intros)
      (auto intro!: token_action_triple [OF assms] dest: found simp: may admin_manages)
qed

section \<open>Behind the guards\<close>

lemma requireManage_then:
  assumes "\<And>h. at_view s bk h \<Longrightarrow> F h"
    and "\<And>p. manage_granted e r s p \<Longrightarrow> wtriple (at_view s bk) (f p) (\<lambda>_. F) F"
  shows "wtriple (started s bk r) (w_then (requireManage e) f) (\<lambda>_. F) F"
  by (rule wtriple_then [OF wtriple_weaken [OF requireManage_triple]], assumption, assumption, erule assms(1), rule carry, erule assms(2))

lemma requireManageCSRF_then:
  assumes "\<And>h. at_view s bk h \<Longrightarrow> F h" and "csrf_proved e s \<Longrightarrow> wtriple (at_view s bk) m (\<lambda>_. F) F"
  shows "wtriple (at_view s bk) (w_then (requireManageCSRF e) (\<lambda>_. m)) (\<lambda>_. F) F"
  by (rule wtriple_then [OF wtriple_weaken [OF requireManageCSRF_triple]], assumption, assumption, erule assms(1), rule carry, erule assms(2))

lemma keeps_then_quiet:
  assumes "\<And>h. at_view s bk h \<Longrightarrow> F h" "w_keeps manage_view m"
  shows "wtriple (at_view s bk) m (\<lambda>_. F) F"
  by (rule wtriple_weaken [OF at_view_keeps [OF assms(2)]], assumption, erule assms(1), erule assms(1))

text \<open>What holds of the access configuration after a request of the management.\<close>

definition access_result :: "web_request \<Rightarrow> authz \<Rightarrow> db \<Rightarrow> db \<Rightarrow> bool" where
  "access_result e r s t \<longleftrightarrow> access_ok t \<and>
     (\<forall>team. team_access t team = team_access s team \<or>
        (\<exists>p. manage_granted e r s p \<and> csrf_proved e s \<and> changed_by p s t team))"

abbreviation access_held :: "web_request \<Rightarrow> authz \<Rightarrow> db \<Rightarrow> api_state \<Rightarrow> bool" where
  "access_held e r s h \<equiv> access_result e r s (hdb h)"

lemma at_view_held: "access_ok s \<Longrightarrow> at_view s bk h \<Longrightarrow> access_held e r s h"
  using team_access_view [of "hdb h" s] access_ok_view [of "hdb h" s] by (simp add: access_result_def at_view_def)

lemma access_change_held:
  assumes "wtriple (at_view s bk) m (\<lambda>_. access_by p s) (access_by p s)" "manage_granted e r s p" "csrf_proved e s"
  shows "wtriple (at_view s bk) m (\<lambda>_. access_held e r s) (access_held e r s)"
  by (rule wtriple_weaken [OF assms(1)]) (use assms(2,3) in \<open>auto simp: access_by_def access_result_def\<close>)

lemma access_pages:
  assumes ok: "access_ok s"
  shows "wtriple (started s bk r) (manageAccessPage e) (\<lambda>_. access_held e r s) (access_held e r s)"
    and "wtriple (started s bk r) (manageAccessAddPage e) (\<lambda>_. access_held e r s) (access_held e r s)"
    and "wtriple (started s bk r) (manageAccessTokenPage e) (\<lambda>_. access_held e r s) (access_held e r s)"
proof -
  note held = at_view_held [OF ok]
  have quiet: "wtriple (at_view s bk) m (\<lambda>_. access_held e r s) (access_held e r s)" if "w_keeps manage_view m" for m :: "web_answer web"
    by (rule keeps_then_quiet [OF held that])
  show "wtriple (started s bk r) (manageAccessPage e) (\<lambda>_. access_held e r s) (access_held e r s)"
    unfolding manageAccessPage_def
    by (rule requireManage_then, erule held, intro wtriple_if requireManageCSRF_then)
      ((rule held, assumption) | (rule access_change_held [OF access_change_triple [OF ok]], assumption, assumption) | (rule quiet, intro view_intros))+
  show "wtriple (started s bk r) (manageAccessAddPage e) (\<lambda>_. access_held e r s) (access_held e r s)"
    unfolding manageAccessAddPage_def
    by (rule requireManage_then, erule held, intro wtriple_if requireManageCSRF_then)
      ((rule held, assumption) | (rule access_change_held [OF add_team_triple [OF ok]], assumption, assumption) | (rule quiet, intro view_intros))+
  let ?tokens = "\<lambda>p none. if none then w_fail e 503 (Plain ''access token hashing is not configured'')
      else w_then (lock_access_config e) (\<lambda>_. team_tokens e p)"
  have "wtriple (at_view s bk) (?tokens p none) (\<lambda>_. access_held e r s) (access_held e r s)"
    if "manage_granted e r s p" "csrf_proved e s" for p none
    by (rule wtriple_if, rule quiet, intro view_intros,
        rule access_change_held [OF locked_then [OF ok team_tokens_triple [OF ok]] that])
  then have tokens: "wtriple (at_view s bk) (\<lambda>b. ?tokens p (rt_tokenHasher (h_authz (wb_api b)) = None) b)
      (\<lambda>_. access_held e r s) (access_held e r s)" if "manage_granted e r s p" "csrf_proved e s" for p
    by (rule wtriple_at) (rule that)+
  have step: "(\<lambda>b. if rt_tokenHasher (h_authz (wb_api b)) = None
          then w_fail e 503 (Plain ''access token hashing is not configured'') b
          else w_then (lock_access_config e) (\<lambda>_. team_tokens e p) b) =
      (\<lambda>b. ?tokens p (rt_tokenHasher (h_authz (wb_api b)) = None) b)" for p
    by (rule ext) simp
  show "wtriple (started s bk r) (manageAccessTokenPage e) (\<lambda>_. access_held e r s) (access_held e r s)"
    unfolding manageAccessTokenPage_def step
    by (rule wtriple_if, unfold manage_method_not_allowed_def, rule wtriple_fail, rule held, erule started_view,
        rule requireManage_then, erule held, rule requireManageCSRF_then, erule held, erule tokens)
qed

end
