(* ===== verification/ManageChanges.thy ===== *)
theory ManageChanges
  imports AccessHandlers
begin

text \<open>
  Who changes releases through the module pages of the management: publishing, importing and deleting
  from the browser.
\<close>

section \<open>What is allowed\<close>

definition releases_of :: "string \<Rightarrow> db \<Rightarrow> release set" where
  "releases_of owner s = {r \<in> catalog s. r_Owner r = owner}"

definition may_change :: "web_request \<Rightarrow> principal \<Rightarrow> string \<Rightarrow> bool" where
  "may_change e p owner \<longleftrightarrow>
     p_CanAdmin p \<or> CanDeleteOwner p owner \<or>
     (CanPublishOwner p owner \<and> publish_source_allowed (hx_net (wx_api e)) (hx_boundary (wx_api e)) (wx_http e))"

definition releases_by :: "web_request \<Rightarrow> principal \<Rightarrow> db \<Rightarrow> api_state \<Rightarrow> bool" where
  "releases_by e p s h \<longleftrightarrow> (\<forall>owner. releases_of owner (hdb h) \<noteq> releases_of owner s \<longrightarrow> may_change e p owner)"

lemma view_content: "manage_view t = manage_view s \<Longrightarrow> same_content s t"
proof -
  assume v: "manage_view t = manage_view s"
  have "token_state k = token_state (token_core k)" for k by (simp add: token_state_def token_core_def)
  then have core: "map token_state ks = map token_state (map token_core ks)" for ks by simp
  have "map token_state (db_tokens t) = map token_state (map token_core (db_tokens t))" by (rule core)
  also have "\<dots> = map token_state (map token_core (db_tokens s))" by (simp only: access_view(4) [OF v])
  also have "\<dots> = map token_state (db_tokens s)" by (rule core [symmetric])
  finally show ?thesis using v by (simp add: same_content_def manage_view_def)
qed

lemma releases_view: "manage_view t = manage_view s \<Longrightarrow> releases_of owner t = releases_of owner s"
  by (drule view_content, drule same_content_catalog) (simp add: releases_of_def)

lemma releases_by_keeps: "w_keeps manage_view m \<Longrightarrow> wtriple (releases_by e p s) m (\<lambda>_. releases_by e p s) (releases_by e p s)"
proof (erule w_keeps_triple)
  fix h h1 assume "manage_view (hdb h1) = manage_view (hdb h)" "releases_by e p s h"
  then show "releases_by e p s h1" using releases_view [of "hdb h1" "hdb h"] by (simp add: releases_by_def)
qed

lemma at_view_releases: "at_view s bk h \<Longrightarrow> releases_by e p s h"
  using releases_view [of "hdb h" s] by (simp add: at_view_def releases_by_def)

lemma quiet_ends: "w_keeps manage_view m \<Longrightarrow> wtriple (at_view s bk) m (\<lambda>_. releases_by e p s) (releases_by e p s)"
  by (rule wtriple_weaken [OF at_view_keeps]) (auto intro: at_view_releases)

lemma admin_releases: "p_CanAdmin p \<Longrightarrow> releases_by e p s h"
  by (simp add: releases_by_def may_change_def)

lemma only_of_releases:
  assumes "only_of owner (catalog s) (catalog t)" "may_change e p owner"
  shows "\<forall>owner'. releases_of owner' t \<noteq> releases_of owner' s \<longrightarrow> may_change e p owner'"
proof (intro allI impI)
  fix owner' assume "releases_of owner' t \<noteq> releases_of owner' s"
  moreover have "releases_of owner' t = releases_of owner' s" if "owner' \<noteq> owner"
  proof -
    have rest: "releases_of owner' u = {r. r \<in> {r \<in> catalog u. r_Owner r \<noteq> owner} \<and> r_Owner r = owner'}" for u
      using that by (auto simp: releases_of_def)
    show ?thesis unfolding rest assms(1) [unfolded only_of_def] ..
  qed
  ultimately show "may_change e p owner'" using assms(2) by blast
qed

section \<open>The steps\<close>

text \<open>The one call of a handler that changes releases.\<close>

lemma call_releases:
  assumes "\<And>w. manage_view (w_db w) = manage_view s \<Longrightarrow> db_inv sv (w_db w) \<Longrightarrow>
      (\<forall>owner. releases_of owner (w_db (fst (m w))) \<noteq> releases_of owner (w_db w) \<longrightarrow> may_change e p owner)"
    and "db_inv sv s"
  shows "wtriple (at_view s bk) (w_call m) (\<lambda>_. releases_by e p s) E"
  unfolding wtriple_def
proof (intro allI impI)
  fix b :: web_state assume v: "at_view s bk (wb_api b)"
  let ?w = "h_world (wb_api b)"
  have view: "manage_view (w_db ?w) = manage_view s" using v by (simp add: at_view_def hdb_def)
  have "db_inv sv (w_db ?w)" using same_content_inv [OF view_content [OF view]] assms(2) by simp
  note assms(1) [OF view this]
  then have "releases_by e p s ((wb_api b)\<lparr>h_world := fst (m ?w)\<rparr>)"
    using releases_view [OF view] by (simp add: releases_by_def hdb_def)
  then show "case w_call m b of (b1, Inl _) \<Rightarrow> E (wb_api b1) | (b1, Inr x) \<Rightarrow> releases_by e p s (wb_api b1)"
    by (simp add: w_call_def w_api_def h_call_def case_prod_unfold)
qed

lemma delete_releases:
  assumes "deletes_of g owner m" "db_inv (g_sv g) s" "CanDeleteOwner p owner"
  shows "wtriple (at_view s bk) (w_call m) (\<lambda>_. releases_by e p s) E"
proof (rule call_releases [OF _ assms(2)])
  fix w :: world
  assume "db_inv (g_sv g) (w_db w)"
  then have "only_of owner (catalog (w_db w)) (catalog (w_db (fst (m w))))"
    using assms(1) only_space_releases unfolding deletes_of_def by blast
  then show "\<forall>owner. releases_of owner (w_db (fst (m w))) \<noteq> releases_of owner (w_db w) \<longrightarrow> may_change e p owner"
    by (rule only_of_releases) (simp add: may_change_def assms(3))
qed

lemma publish_releases:
  assumes "service_ok g" "db_inv (g_sv g) s" "publish_source_allowed (hx_net (wx_api e)) (hx_boundary (wx_api e)) (wx_http e)"
  shows "wtriple (at_view s bk) (w_call (PublishAuthorized g q input (manage_authorize p replacing))) (\<lambda>_. releases_by e p s) E"
proof (rule call_releases [OF _ assms(2)])
  fix w :: world
  assume inv: "db_inv (g_sv g) (w_db w)"
  let ?w1 = "fst (PublishAuthorized g q input (manage_authorize p replacing) w)"
  have "(w_db ?w1 = w_db w \<and> w_bucket ?w1 = w_bucket w) \<or>
      (\<exists>owner. CanPublishOwner p owner \<and> only_space g owner (w_db w, w_bucket w) (w_db ?w1, w_bucket ?w1))"
    by (rule publish_authorized_scope [OF assms(1) _ inv]) (auto simp: manage_authorize_def split: if_splits)
  then show "\<forall>owner. releases_of owner (w_db ?w1) \<noteq> releases_of owner (w_db w) \<longrightarrow> may_change e p owner"
  proof (elim disjE exE conjE)
    fix owner assume "CanPublishOwner p owner" "only_space g owner (w_db w, w_bucket w) (w_db ?w1, w_bucket ?w1)"
    then show ?thesis
      using assms(3) by (intro only_of_releases [OF only_space_releases, where owner = owner]) (auto simp: may_change_def)
  qed simp
qed

lemma mutation_keeps [view_intros]:
  "w_keeps V (redirectManageError e status err)" "w_keeps V (respondManageMutationHTTPError e status err)"
  "w_keeps V (respondManageMutationError e err)" "w_keeps V (respondManageMutationServiceError e err)"
  "w_keeps V (redirectManageResult e fallback key message)" "w_keeps V (respondManageMutationSuccess e message t1 t2)"
proof -
  show d: "w_keeps V (redirectManageError e status err)" for status err
    unfolding redirectManageError_def Let_def by (intro view_intros)
  show h: "w_keeps V (respondManageMutationHTTPError e status err)" for status err
    unfolding respondManageMutationHTTPError_def by (intro view_intros d)
  show "w_keeps V (respondManageMutationError e err)" "w_keeps V (respondManageMutationServiceError e err)"
    unfolding respondManageMutationError_def respondManageMutationServiceError_def by (rule h)+
  show r: "w_keeps V (redirectManageResult e fallback key message)" for fallback key message
    unfolding redirectManageResult_def by (intro view_intros)
  show "w_keeps V (respondManageMutationSuccess e message t1 t2)"
    unfolding respondManageMutationSuccess_def by (intro view_intros r)
qed

text \<open>Reads of the service.\<close>

definition s_keeps :: "(db \<Rightarrow> 'v) \<Rightarrow> 'a svc \<Rightarrow> bool" where
  "s_keeps V m \<longleftrightarrow> (\<forall>w. V (w_db (fst (m w))) = V (w_db w) \<and> w_bucket (fst (m w)) = w_bucket w)"

lemma s_keeps_read [view_intros]: "s_keeps V (db_read f)"
  by (simp add: s_keeps_def)

lemma s_keeps_return [view_intros]: "s_keeps V (svc_return x)"
  by (simp add: s_keeps_def svc_return_def)

lemma s_keeps_then [view_intros]:
  assumes "s_keeps V m" "\<And>x. s_keeps V (f x)"
  shows "s_keeps V (svc_then m f)"
  using assms by (auto simp: s_keeps_def fst_svc_then split: sum.split)

lemma w_keeps_svc [view_intros]: "s_keeps V m \<Longrightarrow> w_keeps V (w_call m)"
  by (simp add: s_keeps_def w_keeps_def w_call_def w_api_def h_call_def hdb_def case_prod_unfold)

lemma h_keeps_service_error [view_intros]: "w_keeps V (w_api (writeServiceError e err))"
  by (intro view_intros)

section \<open>The handlers\<close>

lemma audited_mutation:
  assumes "wtriple (at_view s bk) (w_call m) (\<lambda>_. releases_by e p s) (releases_by e p s)"
    and "\<And>err. w_keeps manage_view (failed err)" "\<And>x. w_keeps manage_view (answered x)"
  shows "wtriple (at_view s bk) (w_then (w_call m) (\<lambda>r. case r of Inl err \<Rightarrow> failed err | Inr x \<Rightarrow> answered x))
    (\<lambda>_. releases_by e p s) (releases_by e p s)"
  by (rule wtriple_then [OF assms(1)], rule wtriple_sum) (rule releases_by_keeps [OF assms(2)], rule releases_by_keeps [OF assms(3)])

lemma then_quiet:
  assumes "w_keeps manage_view m" "\<And>x. wtriple (at_view s bk) (f x) (\<lambda>_. releases_by e p s) (releases_by e p s)"
  shows "wtriple (at_view s bk) (w_then m f) (\<lambda>_. releases_by e p s) (releases_by e p s)"
  by (rule wtriple_then [OF wtriple_weaken [OF at_view_keeps [OF assms(1)]]], assumption, assumption)
    (auto intro: at_view_releases assms(2))

lemma prepare_delete_keeps [view_intros]: "w_keeps manage_view (web_prepare_delete e p owner name version justification force)"
  unfolding web_prepare_delete_def prepareDeleteMutationAudit_def Let_def by (intro view_intros)

lemma manage_delete_triple:
  assumes "deletes_of g owner m" "db_inv (g_sv g) s" "CanDeleteOwner p owner" "w_keeps manage_view answered"
  shows "wtriple (at_view s bk) (manage_delete e p owner name version force justification m answered)
    (\<lambda>_. releases_by e p s) (releases_by e p s)"
  unfolding manage_delete_def Let_def
  by (rule then_quiet, intro view_intros, rule audited_mutation [OF delete_releases [OF assms(1-3)]])
    (intro view_intros assms(4))+

lemma delete_pages_triple:
  assumes "db_inv (g_sv (hx_service (wx_api e))) s"
  shows "wtriple (at_view s bk) (manage_delete_module e p owner name) (\<lambda>_. releases_by e p s) (releases_by e p s)"
    and "wtriple (at_view s bk) (manage_delete_release e p owner name version) (\<lambda>_. releases_by e p s) (releases_by e p s)"
proof -
  note ops = deletes_if [OF delete_operations(1) delete_operations(2)] deletes_if [OF delete_operations(3) delete_operations(4)]
  have quiet: "wtriple (at_view s bk) m (\<lambda>_. releases_by e p s) (releases_by e p s)" if "w_keeps manage_view m" for m :: "web_answer web"
    by (rule quiet_ends [OF that])
  have answered: "w_keeps manage_view (release_deleted e owner name)"
    unfolding release_deleted_def Let_def by (intro view_intros)
  obtain force justification r where f: "forceDeleteParameters (wx_api e) (owner @ ''/'' @ name) = (force, justification, r)"
    by (metis prod.exhaust)
  show "wtriple (at_view s bk) (manage_delete_module e p owner name) (\<lambda>_. releases_by e p s) (releases_by e p s)"
    unfolding manage_delete_module_def Let_def f prod.case
    by (rule wtriple_if, rule quiet, intro view_intros, rule wtriple_option, rule wtriple_if, rule quiet, intro view_intros,
        rule manage_delete_triple [OF ops(1) assms], simp, intro view_intros, rule quiet, intro view_intros)
  obtain force justification r where f: "forceDeleteParameters (wx_api e) (owner @ ''/'' @ name @ ''@'' @ version) = (force, justification, r)"
    by (metis prod.exhaust)
  show "wtriple (at_view s bk) (manage_delete_release e p owner name version) (\<lambda>_. releases_by e p s) (releases_by e p s)"
    unfolding manage_delete_release_def Let_def f prod.case
    by (rule wtriple_if, rule quiet, intro view_intros, rule wtriple_option,
        rule manage_delete_triple [OF ops(2) assms], simp, rule answered, rule quiet, intro view_intros)
qed

lemma then_triple:
  assumes "wtriple P m (\<lambda>_. at_view s bk) (at_view s bk)"
    and "\<And>x. wtriple (at_view s bk) (f x) (\<lambda>_. releases_by e p s) (releases_by e p s)"
  shows "wtriple P (w_then m f) (\<lambda>_. releases_by e p s) (releases_by e p s)"
  by (rule wtriple_then [OF wtriple_weaken [OF assms(1)]], assumption, assumption) (auto intro: at_view_releases assms(2))

lemma manage_publish_triple:
  assumes "service_ok (hx_service (wx_api e))" "db_inv (g_sv (hx_service (wx_api e))) s"
    "publish_source_allowed (hx_net (wx_api e)) (hx_boundary (wx_api e)) (wx_http e)"
  shows "wtriple (at_view s bk) (manage_publish e p input) (\<lambda>_. releases_by e p s) (releases_by e p s)"
proof -
  let ?input = "input\<lparr>pi_Replace := (form_value e ''replace'' = ''true'')\<rparr>"
  let ?action = "if pi_Replace ?input then ''replace_module_release'' else ''publish_module''"
  let ?message = "if pi_Replace ?input then ''module release replaced'' else ''module published''"
  let ?publish = "\<lambda>space. w_then (w_call (PublishAuthorized (hx_service (wx_api e)) (hx_request (wx_api e)) ?input
      (manage_authorize p (pi_Replace ?input)))) (\<lambda>r. case r of
        Inl err \<Rightarrow>
          if err = publish_forbidden \<or> err = replace_forbidden
          then w_then (web_audit e p ?action ''failure'' ''forbidden'' [(''space'', space)]) (\<lambda>_.
            respondManageMutationHTTPError e 403 (Service err))
          else w_then (failed_audit e p ?action (Service err) [(''space'', space)]) (\<lambda>_.
            respondManageMutationServiceError e (Service err))
      | Inr release \<Rightarrow>
          w_then (web_audit e p ?action ''success'' ''none''
              [(''space'', r_Owner release), (''module'', r_Owner release @ ''/'' @ r_Name release),
               (''release'', r_Version release), (''sha256'', r_SHA256 release)]) (\<lambda>_.
            respondManageMutationSuccess e ?message manageModuleListTarget []))"
  have "wtriple (at_view s bk) (?publish space) (\<lambda>_. releases_by e p s) (releases_by e p s)" for space
    by (rule audited_mutation [OF publish_releases [OF assms]]) (intro view_intros)+
  then have "wtriple (at_view s bk) (\<lambda>b. ?publish (requested_space (hx_service (wx_api e)) ?input (h_world (wb_api b))) b)
      (\<lambda>_. releases_by e p s) (releases_by e p s)"
    by (rule wtriple_at)
  then show ?thesis unfolding manage_publish_def Let_def by (intro then_quiet view_intros)
qed

lemma card_keeps:
  "w_keeps manage_view (module_card e p owner name)" "w_keeps manage_view (renderManageForceDelete e p owner name version)"
proof -
  have load: "s_keeps manage_view (loadManageModuleCard e owner name)"
    unfolding loadManageModuleCard_def Let_def by (intro view_intros)
  show "w_keeps manage_view (module_card e p owner name)"
    unfolding module_card_def Let_def by (intro view_intros load | simp only: case_prod_unfold)+
  show "w_keeps manage_view (renderManageForceDelete e p owner name version)"
    unfolding renderManageForceDelete_def Let_def by (intro view_intros load | simp only: case_prod_unfold)+
qed

text \<open>What holds of the releases after a request of the management.\<close>

definition release_result :: "web_request \<Rightarrow> authz \<Rightarrow> db \<Rightarrow> db \<Rightarrow> bool" where
  "release_result e r s t \<longleftrightarrow>
     (\<forall>owner. releases_of owner t = releases_of owner s \<or>
        (\<exists>p. manage_granted e r s p \<and> csrf_proved e s \<and> may_change e p owner))"

abbreviation releases_held :: "web_request \<Rightarrow> authz \<Rightarrow> db \<Rightarrow> api_state \<Rightarrow> bool" where
  "releases_held e r s h \<equiv> release_result e r s (hdb h)"

lemma at_view_releases_held: "at_view s bk h \<Longrightarrow> releases_held e r s h"
  using releases_view [of "hdb h" s] by (simp add: release_result_def at_view_def)

lemma releases_change_held:
  assumes "wtriple P m (\<lambda>_. releases_by e p s) (releases_by e p s)" "manage_granted e r s p" "csrf_proved e s"
  shows "wtriple P m (\<lambda>_. releases_held e r s) (releases_held e r s)"
  by (rule wtriple_weaken [OF assms(1)]) (use assms(2,3) in \<open>auto simp: releases_by_def release_result_def\<close>)

lemma quiet_held: "w_keeps manage_view m \<Longrightarrow> wtriple (at_view s bk) m (\<lambda>_. releases_held e r s) (releases_held e r s)"
  by (rule keeps_then_quiet [OF at_view_releases_held])

lemma publish_source_triple:
  assumes "publish_source_allowed (hx_net (wx_api e)) (hx_boundary (wx_api e)) (wx_http e) \<Longrightarrow>
      wtriple (at_view s bk) m (\<lambda>_. releases_held e r s) (releases_held e r s)"
  shows "wtriple (at_view s bk) (w_then (web_publish_source e p) (\<lambda>_. m)) (\<lambda>_. releases_held e r s) (releases_held e r s)"
proof (cases "publish_source_allowed (hx_net (wx_api e)) (hx_boundary (wx_api e)) (wx_http e)")
  case True
  then have "wtriple (at_view s bk) (web_publish_source e p) (\<lambda>_. at_view s bk) (releases_held e r s)"
    unfolding web_publish_source_def by (simp add: wtriple_return)
  then show ?thesis by (rule wtriple_then) (rule assms [OF True])
next
  case False
  have "w_then (web_publish_source e p) (\<lambda>_. m) =
      w_then (web_audit e p ''publish_module'' ''failure'' ''publish_source_forbidden'' []) (\<lambda>_.
        w_fail e 403 (Plain ''client IP is not allowed to publish''))"
    using False by (auto simp: web_publish_source_def w_then_def w_fail_def w_api_def h_fail_def h_answer_def fun_eq_iff
        split: prod.split sum.split)
  then show ?thesis by (simp only:) (rule quiet_held, intro view_intros)
qed

lemma module_pages:
  assumes g: "service_ok (hx_service (wx_api e))" and inv: "db_inv (g_sv (hx_service (wx_api e))) s"
  shows "wtriple (started s bk r) (manageModules e) (\<lambda>_. releases_held e r s) (releases_held e r s)"
    and "wtriple (started s bk r) (manageUpstreamModule e) (\<lambda>_. releases_held e r s) (releases_held e r s)"
    and "wtriple (started s bk r) (manageModuleAction e) (\<lambda>_. releases_held e r s) (releases_held e r s)"
proof -
  have start: "wtriple (started s bk r) m (\<lambda>_. releases_held e r s) (releases_held e r s)" if "w_keeps manage_view m" for m :: "web_answer web"
    by (rule wtriple_weaken [OF quiet_held [OF that]]) (auto intro: started_view)
  have quiet: "wtriple (at_view s bk) m (\<lambda>_. releases_held e r s) (releases_held e r s)" if "w_keeps manage_view m" for m :: "web_answer web"
    by (rule quiet_held [OF that])
  have wrong_method: "w_keeps manage_view (manage_method_not_allowed e)" by (rule page_keeps)
  note held = at_view_releases_held
  have limited: "w_keeps manage_view (w_api (allowSharedRateLimit (wx_api e) ''manage-publish'' 60 minute))"
    by (intro view_intros plain_manage_view)
  show "wtriple (started s bk r) (manageModules e) (\<lambda>_. releases_held e r s) (releases_held e r s)"
    unfolding manageModules_def
  proof (rule wtriple_if, rule start, intro view_intros, rule wtriple_if, rule start, rule wrong_method, rule requireManage_then, erule held,
      rule publish_source_triple, rule requireManageCSRF_then, erule held)
    fix p assume p: "manage_granted e r s p" "csrf_proved e s"
      and source: "publish_source_allowed (hx_net (wx_api e)) (hx_boundary (wx_api e)) (wx_http e)"
    have "wtriple (at_view s bk) (case readPublishInput (wx_api e) of
          Inl err \<Rightarrow> f err | Inr input \<Rightarrow> manage_publish e p input) (\<lambda>_. releases_held e r s) (releases_held e r s)"
      if "\<And>err. w_keeps manage_view (f err)" for f
      by (rule wtriple_sum, rule quiet, rule that, rule releases_change_held [OF manage_publish_triple [OF g inv source] p])
    note publish = this
    show "wtriple (at_view s bk) (w_then (w_api (allowSharedRateLimit (wx_api e) ''manage-publish'' 60 minute)) (\<lambda>allowed. case allowed of
          Inl _ \<Rightarrow> respondManageMutationHTTPError e 503 (Plain ''publish rate limit service is unavailable'')
        | Inr ok \<Rightarrow>
            if \<not> ok then respondManageMutationHTTPError e 429 (Plain ''too many publish attempts'')
            else (case readPublishInput (wx_api e) of
                    Inl err \<Rightarrow>
                      let message = Plain (case err of TooLarge s \<Rightarrow> s | BadUpload s \<Rightarrow> s) in
                      w_then (failed_audit e p ''publish_module'' message []) (\<lambda>_.
                        case err of TooLarge _ \<Rightarrow> w_fail e 413 message | BadUpload _ \<Rightarrow> respondManageMutationError e message)
                  | Inr input \<Rightarrow> manage_publish e p input)))
        (\<lambda>_. releases_held e r s) (releases_held e r s)"
      by (rule wtriple_then [OF wtriple_weaken [OF at_view_keeps [OF limited]]], assumption, assumption, erule held, rule wtriple_sum,
          rule quiet, intro view_intros, rule wtriple_if, rule quiet, intro view_intros, rule publish)
        (auto simp: Let_def intro!: view_intros split: upload_error.split)
  qed
  show "wtriple (started s bk r) (manageUpstreamModule e) (\<lambda>_. releases_held e r s) (releases_held e r s)"
    unfolding manageUpstreamModule_def
  proof (rule wtriple_if, rule start, intro view_intros, rule wtriple_if, rule start, rule wrong_method, rule requireManage_then, erule held,
      rule requireManageCSRF_then, erule held, rule wtriple_if, rule quiet, intro view_intros)
    fix p assume p: "manage_granted e r s p" "csrf_proved e s" "\<not> \<not> p_CanAdmin p"
    then have "releases_held e r s h" for h by (auto simp: release_result_def may_change_def)
    then show "wtriple (at_view s bk) m (\<lambda>_. releases_held e r s) (releases_held e r s)" for m :: "web_answer web"
      by (auto simp: wtriple_def split: prod.split sum.split)
  qed
  show "wtriple (started s bk r) (manageModuleAction e) (\<lambda>_. releases_held e r s) (releases_held e r s)"
    unfolding manageModuleAction_def Let_def
  proof (rule requireManage_then, erule held, rule wtriple_if)
    fix p assume p: "manage_granted e r s p"
    let ?parts = "api_parts ''/manage/modules/'' (rq_Path (wx_http e))"
    show "wtriple (at_view s bk) (manage_module_get e p ?parts) (\<lambda>_. releases_held e r s) (releases_held e r s)"
      unfolding manage_module_get_def
      by (auto split: list.split intro!: quiet card_keeps wrong_method)
    show "wtriple (at_view s bk) (if rq_Method (wx_http e) \<noteq> ''POST'' then manage_method_not_allowed e
        else w_then (requireManageCSRF e) (\<lambda>_. manage_module_post e p ?parts)) (\<lambda>_. releases_held e r s) (releases_held e r s)"
    proof (rule wtriple_if, rule quiet, rule wrong_method, rule requireManageCSRF_then, erule held)
      assume c: "csrf_proved e s"
      show "wtriple (at_view s bk) (manage_module_post e p ?parts) (\<lambda>_. releases_held e r s) (releases_held e r s)"
        unfolding manage_module_post_def
        by (auto split: list.split intro!: quiet view_intros releases_change_held [OF delete_pages_triple(1) [OF inv] p c]
            releases_change_held [OF delete_pages_triple(2) [OF inv] p c])
    qed
  qed
qed

end
