(* ===== verification/Listing.thy ===== *)
theory Listing
  imports ManageForms ReleaseConsumers
begin

text \<open>
  The lists of the management and public pages (\<open>internal/httpapi/router_manage_lists.go\<close>,
  \<open>router_manage_spaces.go\<close>, \<open>router_manage_teams.go\<close>, \<open>router_manage_overview.go\<close>,
  \<open>router_manage_audit.go\<close>, \<open>router_manage_legacy.go\<close>) as functions from configurations, rows and
  query values to the rows and the pagination of one page. A page number that was accepted is a
  natural number.
\<close>

section \<open>Page sizes\<close>

definition allowedPageSizes :: "nat list" where "allowedPageSizes = [10, 20, 50, 100]"

definition manageListPageSize :: nat where "manageListPageSize = 20"
definition maxManageListPage :: int where "maxManageListPage = 100000"
definition maxManageListQueryLength :: nat where "maxManageListQueryLength = 200"

definition pageSizeStorageKey :: "string \<Rightarrow> string \<Rightarrow> string \<Rightarrow> string" where
  "pageSizeStorageKey action parameter target =
     (let scope = trim_char (CHR ''/'') action in
      (if scope = [] then ''public-modules'' else scope) @ '':'' @ parameter @
      (if target \<noteq> [] then '':'' @ target else []))"

definition pageSizeCookieName :: "string \<Rightarrow> string" where
  "pageSizeCookieName storageKey =
     ''puppet_forge_page_size_'' @
     map (\<lambda>c. if c = CHR ''/'' \<or> c = CHR '':'' then CHR ''_'' else c) storageKey"

definition requestedPageSize :: "web_request \<Rightarrow> string \<Rightarrow> string \<Rightarrow> string \<Rightarrow> nat \<Rightarrow> nat" where
  "requestedPageSize e action parameter target fallback =
     (case request_cookie e (pageSizeCookieName (pageSizeStorageKey action parameter target)) of
        None \<Rightarrow> fallback
      | Some raw \<Rightarrow>
          (case ParseInt (trim_space raw) of
             None \<Rightarrow> fallback
           | Some n \<Rightarrow> if n \<in> int ` set allowedPageSizes then nat n else fallback))"

definition isPageSizeParameter :: "string \<Rightarrow> bool" where
  "isPageSizeParameter parameter \<longleftrightarrow>
     parameter \<in> {''per_page'', ''modules_per_page'', ''teams_per_page'', ''spaces_per_page'', ''token_per_page'',
       ''history_per_page''}"

definition configurePageSize ::
    "url_values \<Rightarrow> string \<Rightarrow> string \<Rightarrow> string \<Rightarrow> string \<Rightarrow> string \<Rightarrow> pagination \<Rightarrow> pagination" where
  "configurePageSize current action sizeParameter pageParameter anchor target pg =
     (let key = pageSizeStorageKey action sizeParameter target;
          kept = filter (\<lambda>(k, _). k \<noteq> pageParameter \<and> \<not> isPageSizeParameter k \<and> k \<noteq> ''message'' \<and> k \<noteq> ''error'') current
      in pg\<lparr>pg_SizeAction := action, pg_SizeParam := sizeParameter, pg_SizePageParam := pageParameter,
            pg_SizeAnchor := anchor, pg_SizeTarget := target, pg_SizeStorageKey := key,
            pg_SizeCookieName := pageSizeCookieName key,
            pg_SizeOptions := map (\<lambda>n. (n, n = pg_PageSize pg)) allowedPageSizes,
            pg_SizeParams := pg_SizeParams pg @ concat (map (\<lambda>(k, xs). map (Pair k) xs) (sort_key fst kept))\<rparr>)"

section \<open>Pages\<close>

definition pageItems :: "'a list \<Rightarrow> nat \<Rightarrow> nat \<Rightarrow> 'a list" where
  "pageItems items n0 pageSize =
     (let start = (n0 - 1) * pageSize in
      if length items \<le> start then [] else take (min (start + pageSize) (length items) - start) (drop start items))"

definition total_pages :: "nat \<Rightarrow> nat \<Rightarrow> nat" where
  "total_pages pageSize amount = (amount + pageSize - 1) div pageSize"

definition paginationFor :: "nat \<Rightarrow> nat \<Rightarrow> nat \<Rightarrow> (nat \<Rightarrow> string) \<Rightarrow> pagination" where
  "paginationFor n0 pageSize amount pageURL =
     (let pages = total_pages pageSize amount in
      \<lparr>pg_Page = n0, pg_Total = amount, pg_TotalPages = pages, pg_PageSize = pageSize,
       pg_HasPrev = (1 < n0), pg_HasNext = (n0 < pages),
       pg_PrevURL = (if 1 < n0 then pageURL (n0 - 1) else []),
       pg_NextURL = (if n0 < pages then pageURL (n0 + 1) else []),
       pg_SizeAction = [], pg_SizeParam = [], pg_SizePageParam = [], pg_SizeAnchor = [], pg_SizeTarget = [],
       pg_SizeStorageKey = [], pg_SizeCookieName = [], pg_SizeOptions = [], pg_SizeParams = []\<rparr>)"

definition normalizedListPage :: "nat \<Rightarrow> nat \<Rightarrow> nat \<Rightarrow> nat \<times> bool" where
  "normalizedListPage n0 pageSize amount =
     (let pages = max 1 (total_pages pageSize amount) in (min n0 pages, pages < n0))"

text \<open>A page number of a request; \<open>limit\<close> is the last that is accepted.\<close>

definition page_number :: "string \<Rightarrow> int \<Rightarrow> nat option" where
  "page_number raw limit =
     (if raw = [] then Some 1
      else case ParseInt raw of
        None \<Rightarrow> None
      | Some n \<Rightarrow> if n < 1 \<or> limit < n then None else Some (nat n))"

definition requestedManageList :: "web_request \<Rightarrow> string \<Rightarrow> string + (string \<times> nat \<times> nat)" where
  "requestedManageList e target =
     (let query = trim_space (hx_query (wx_api e) ''q'') in
      if maxManageListQueryLength < length query then Inl ''filter query is too long''
      else case page_number (hx_query (wx_api e) ''page'') maxManageListPage of
        None \<Rightarrow> Inl ''invalid page''
      | Some n \<Rightarrow> Inr (query, n, requestedPageSize e (rq_Path (wx_http e)) ''per_page'' target manageListPageSize))"

definition requestedManagePageWithSize :: "web_request \<Rightarrow> nat \<Rightarrow> nat option" where
  "requestedManagePageWithSize e pageSize =
     page_number (trim_space (hx_query (wx_api e) ''page'')) (MaxModulePageOffset div int pageSize + 1)"

definition manageModulePageSize :: nat where "manageModulePageSize = 50"

definition requestedManageModulePage :: "web_request \<Rightarrow> string \<Rightarrow> string \<Rightarrow> (nat \<times> nat) option" where
  "requestedManageModulePage e action target =
     (let pageSize = requestedPageSize e action ''per_page'' target manageModulePageSize in
      map_option (\<lambda>n. (n, pageSize)) (requestedManagePageWithSize e pageSize))"

definition maxTokenHistoryPage :: int where "maxTokenHistoryPage = 100000"

definition requestedTokenPage :: "web_request \<Rightarrow> string \<Rightarrow> nat option" where
  "requestedTokenPage e parameter = page_number (trim_space (hx_query (wx_api e) parameter)) maxTokenHistoryPage"

definition requestedOverviewPage :: "web_request \<Rightarrow> string \<Rightarrow> nat \<Rightarrow> nat option" where
  "requestedOverviewPage e parameter pageSize =
     page_number (hx_query (wx_api e) parameter) (MaxModulePageOffset div int pageSize + 1)"

section \<open>The URL of a page\<close>

definition set_page :: "string \<Rightarrow> nat \<Rightarrow> url_values \<Rightarrow> url_values" where
  "set_page parameter n vs =
     filter (\<lambda>(k, _). k \<noteq> parameter) vs @ (if 1 < n then [(parameter, [FormatInt (int n)])] else [])"

definition page_url :: "web_request \<Rightarrow> string \<Rightarrow> url_values \<Rightarrow> string \<Rightarrow> string" where
  "page_url e basePath vs anchor =
     (let encoded = Encode (wx_query_escape e) vs in
      basePath @ (if encoded \<noteq> [] then ''?'' @ encoded else []) @ (if anchor \<noteq> [] then ''#'' @ anchor else []))"

text \<open>The values a page carries on: no page sizes and no messages.\<close>

definition carried :: "url_values \<Rightarrow> url_values" where
  "carried current = filter (\<lambda>(k, _). \<not> isPageSizeParameter k \<and> k \<noteq> ''message'' \<and> k \<noteq> ''error'') current"

definition manageListPageURL :: "web_request \<Rightarrow> string \<Rightarrow> string \<Rightarrow> nat \<Rightarrow> string" where
  "manageListPageURL e basePath anchor n = page_url e basePath (set_page ''page'' n (carried (wx_values e))) anchor"

definition managePageURLWithValues :: "web_request \<Rightarrow> string \<Rightarrow> nat \<Rightarrow> string \<Rightarrow> string" where
  "managePageURLWithValues e basePath n anchor = page_url e basePath (set_page ''page'' n (carried (wx_values e))) anchor"

definition manageListPagination :: "web_request \<Rightarrow> string \<Rightarrow> string \<Rightarrow> nat \<Rightarrow> nat \<Rightarrow> nat \<Rightarrow> pagination" where
  "manageListPagination e basePath anchor n0 pageSize amount =
     (let query = trim_space (hx_query (wx_api e) ''q'');
          pageURL = (\<lambda>n. page_url e basePath (set_page ''page'' n (if query \<noteq> [] then [(''q'', [query])] else [])) anchor)
      in configurePageSize (wx_values e) basePath ''per_page'' ''page'' anchor anchor (paginationFor n0 pageSize amount pageURL))"

definition managePaginationForRequest ::
    "web_request \<Rightarrow> string \<Rightarrow> string \<Rightarrow> string \<Rightarrow> nat \<Rightarrow> nat \<Rightarrow> nat \<Rightarrow> pagination" where
  "managePaginationForRequest e basePath anchor target n0 pageSize amount =
     configurePageSize (wx_values e) basePath ''per_page'' ''page'' anchor target
       (paginationFor n0 pageSize amount (\<lambda>n. managePageURLWithValues e basePath n anchor))"

definition tokenPagination ::
    "web_request \<Rightarrow> string \<Rightarrow> string \<Rightarrow> string \<Rightarrow> string \<Rightarrow> nat \<Rightarrow> nat \<Rightarrow> nat \<Rightarrow> pagination" where
  "tokenPagination e basePath pageParameter sizeParameter anchor n0 pageSize amount =
     (let pageURL = (\<lambda>n. page_url e basePath
            (set_page pageParameter n (filter (\<lambda>(k, _). \<not> isPageSizeParameter k) (wx_values e))) anchor)
      in configurePageSize (wx_values e) basePath sizeParameter pageParameter anchor anchor
           (paginationFor n0 pageSize amount pageURL))"

definition tokenPagesURL :: "web_request \<Rightarrow> string \<Rightarrow> nat \<Rightarrow> nat \<Rightarrow> string \<Rightarrow> string" where
  "tokenPagesURL e basePath tokenPage historyPage anchor =
     page_url e basePath (set_page ''history_page'' historyPage (set_page ''token_page'' tokenPage (carried (wx_values e)))) anchor"

definition tokenFilterParams :: "url_values \<Rightarrow> string list \<Rightarrow> (string \<times> string) list" where
  "tokenFilterParams query names = concat (map (\<lambda>name. map (Pair name) (values_of query name)) names)"

definition tokenFilterURL :: "web_request \<Rightarrow> string \<Rightarrow> (string \<times> string) list \<Rightarrow> string \<Rightarrow> string" where
  "tokenFilterURL e basePath params anchor =
     page_url e basePath (map (\<lambda>(k, x). (k, [x])) params) anchor"

definition overviewPageURL :: "web_request \<Rightarrow> string \<Rightarrow> nat \<Rightarrow> string \<Rightarrow> string" where
  "overviewPageURL e parameter n anchor =
     (let kept = filter (\<lambda>(_, xs). xs \<noteq> [[]]) (map (\<lambda>name. (name, [hx_query (wx_api e) name]))
            [''modules_page'', ''teams_page'', ''spaces_page''])
      in page_url e ''/manage'' (set_page parameter n kept) anchor)"

definition overviewPagination ::
    "web_request \<Rightarrow> string \<Rightarrow> string \<Rightarrow> string \<Rightarrow> nat \<Rightarrow> nat \<Rightarrow> nat \<Rightarrow> pagination" where
  "overviewPagination e pageParameter sizeParameter anchor n0 amount pageSize =
     configurePageSize (wx_values e) ''/manage'' sizeParameter pageParameter anchor []
       (paginationFor n0 pageSize amount (\<lambda>n. overviewPageURL e pageParameter n anchor))"

section \<open>Teams and spaces\<close>

definition teamPublishSpaces :: "team_config \<Rightarrow> string list" where
  "teamPublishSpaces cfg = sort (publishOwnersFromExtra (tc_Team cfg) (tc_PublishOwners cfg))"

definition configuredPublishSpaces :: "team_config list \<Rightarrow> string list" where
  "configuredPublishSpaces configs =
     sort (remdups (concat (map teamPublishSpaces (filter (\<lambda>c. \<not> IsGlobalAdminConfig c) configs))))"

definition count_of :: "(string, nat) gomap \<Rightarrow> string \<Rightarrow> nat" where
  "count_of counts key = (case map_of counts key of None \<Rightarrow> 0 | Some n \<Rightarrow> n)"

definition space_modules_url :: "web_request \<Rightarrow> string \<Rightarrow> string" where
  "space_modules_url e space = ''/manage/modules?q='' @ wx_query_escape e (space @ ''/'')"

definition team_url :: "web_request \<Rightarrow> string \<Rightarrow> string" where
  "team_url e team = ''/manage/teams/'' @ wx_path_escape e team"

definition activeTokenCount :: "access_token list \<Rightarrow> time \<Rightarrow> nat" where
  "activeTokenCount tokens now =
     length (filter (\<lambda>t. at_RevokedAt t = None \<and> (case at_ExpiresAt t of None \<Rightarrow> True | Some x \<Rightarrow> now < x)) tokens)"

definition administers :: "principal \<Rightarrow> team_config \<Rightarrow> bool" where
  "administers p cfg \<longleftrightarrow> \<not> IsGlobalAdminConfig cfg \<and> (p_CanAdmin p \<or> canManageAccessTeam p (tc_Team cfg))"

definition manageTeamSummaries ::
    "team_config list \<Rightarrow> (string, nat) gomap \<Rightarrow> principal \<Rightarrow> time \<Rightarrow> team_summary list" where
  "manageTeamSummaries configs counts p now =
     sort_key ts_Team (map (\<lambda>cfg.
       \<lparr>ts_Team = tc_Team cfg, ts_Spaces = teamPublishSpaces cfg,
        ts_ModuleCount = sum_list (map (count_of counts) (remdups (teamPublishSpaces cfg))),
        ts_ReadTokens = length (tc_ReadTokens cfg) + activeTokenCount (tc_ReadTokenRecords cfg) now,
        ts_PublishTokens = length (tc_PublishTokens cfg) + activeTokenCount (tc_PublishTokenRecords cfg) now,
        ts_PublishGroups = length (tc_OIDCGroups cfg), ts_TeamAdminUsers = length (tc_OIDCTeamAdminEmails cfg),
        ts_TeamAdminGroups = length (tc_OIDCTeamAdminGroups cfg)\<rparr>) (filter (administers p) configs))"

definition matches :: "(string \<Rightarrow> string) \<Rightarrow> string \<Rightarrow> string \<Rightarrow> bool" where
  "matches to_lower query text \<longleftrightarrow> to_lower query = [] \<or> contains_sub (to_lower text) (to_lower query)"

definition filterManageTeamSummaries :: "(string \<Rightarrow> string) \<Rightarrow> string \<Rightarrow> team_summary list \<Rightarrow> team_summary list" where
  "filterManageTeamSummaries to_lower query rows =
     filter (\<lambda>r. matches to_lower query (ts_Team r @ '' '' @ joined_by '' '' (ts_Spaces r))) rows"

text \<open>Upstream spaces last, then by team, the primary space first.\<close>

definition assignment_order :: "space_assignment \<Rightarrow> bool \<times> string \<times> bool \<times> string" where
  "assignment_order a = (sp_Upstream a, sp_Team a, \<not> sp_Primary a, sp_Space a)"

definition managePublishSpaceAssignments ::
    "web_request \<Rightarrow> team_config list \<Rightarrow> (string, nat) gomap \<Rightarrow> (string, nat) gomap \<Rightarrow> space_assignment list \<times> string list" where
  "managePublishSpaceAssignments e configs counts upstream =
     (let cfgs = filter (\<lambda>c. \<not> IsGlobalAdminConfig c) configs;
          own = concat (map (\<lambda>cfg. map (\<lambda>space.
            \<lparr>sp_Team = tc_Team cfg, sp_TeamURL = team_url e (tc_Team cfg) @ ''/access'', sp_Space = space,
             sp_ModulesURL = space_modules_url e space, sp_ModuleCount = count_of counts space,
             sp_Primary = (space = tc_Team cfg), sp_Upstream = False\<rparr>) (teamPublishSpaces cfg)) cfgs);
          official = map (\<lambda>(owner, n).
            \<lparr>sp_Team = [], sp_TeamURL = [], sp_Space = owner, sp_ModulesURL = space_modules_url e owner,
             sp_ModuleCount = n, sp_Primary = False, sp_Upstream = True\<rparr>) upstream
      in (sort_key assignment_order (own @ official), sort (map tc_Team cfgs)))"

definition filterManagePublishSpaceAssignments ::
    "(string \<Rightarrow> string) \<Rightarrow> string \<Rightarrow> space_assignment list \<Rightarrow> space_assignment list" where
  "filterManagePublishSpaceAssignments to_lower query rows =
     filter (\<lambda>r. matches to_lower query (sp_Team r @ '' '' @ sp_Space r @ '' '' @
       (if sp_Upstream r then ''upstream'' else if sp_Primary r then ''primary'' else ''extra''))) rows"

section \<open>The overview\<close>

definition manageOverviewTeamOwners :: "team_config list \<Rightarrow> principal \<Rightarrow> string list" where
  "manageOverviewTeamOwners configs p =
     sort (remdups (concat (map teamPublishSpaces (filter (administers p) configs))))"

definition manageableOwners :: "principal \<Rightarrow> string list" where
  "manageableOwners p = sorted_list_of_set (p_PublishOwners p)"

definition manageableTeams :: "principal \<Rightarrow> string list" where
  "manageableTeams p =
     (let teams = sorted_list_of_set (p_ManagedTeams p) in
      if teams = [] \<and> p_Team p \<noteq> [] \<and> \<not> p_CanAdmin p then [p_Team p] else teams)"

definition manageOverviewSpaces ::
    "web_request \<Rightarrow> team_config list \<Rightarrow> (string, nat) gomap \<Rightarrow> principal \<Rightarrow> space_summary list" where
  "manageOverviewSpaces e configs counts p =
     map (\<lambda>space. (space, count_of counts space, space_modules_url e space))
       (sort (remdups ((if p_CanAdmin p then [] else manageableOwners p) @ manageOverviewTeamOwners configs p)))"

definition manageOverviewTeams :: "web_request \<Rightarrow> team_summary list \<Rightarrow> overview_team list" where
  "manageOverviewTeams e summaries =
     map (\<lambda>t. (ts_Team t, ts_ModuleCount t, team_url e (ts_Team t) @ ''/access'', team_url e (ts_Team t) @ ''/modules'')) summaries"

section \<open>The page of a team\<close>

datatype team_section = AccessSection | TokensSection | ModulesSection | LegacySection | AuditSection

definition team_section_of :: "string \<Rightarrow> team_section option" where
  "team_section_of s =
     map_of [(''access'', AccessSection), (''tokens'', TokensSection), (''modules'', ModulesSection),
             (''legacy'', LegacySection), (''audit'', AuditSection)] s"

text \<open>The team, the section and whether the path named it.\<close>

definition parseManageTeamPath :: "string \<Rightarrow> (string \<times> team_section \<times> bool) option" where
  "parseManageTeamPath p =
     (case split_on (CHR ''/'') (trim_char (CHR ''/'') (trim_prefix p ''/manage/teams/'')) of
        [team] \<Rightarrow> if team \<noteq> [] then Some (team, AccessSection, False) else None
      | [team, name] \<Rightarrow> if team = [] then None else map_option (\<lambda>s. (team, s, True)) (team_section_of name)
      | _ \<Rightarrow> None)"

definition token_row_view :: "string \<Rightarrow> time \<Rightarrow> access_token \<Rightarrow> token_form_row" where
  "token_row_view kind now t =
     (let (status, active, changed) =
        (case at_RevokedAt t of
           Some revoked \<Rightarrow> (''Revoked'', False, revoked)
         | None \<Rightarrow>
             (case at_ExpiresAt t of
                Some x \<Rightarrow> if now < x then (''Active'', True, at_CreatedAt t) else (''Expired'', False, x)
              | None \<Rightarrow> (''Active'', True, at_CreatedAt t)))
      in \<lparr>tr_ID = at_ID t, tr_Kind = kind, tr_Prefix = at_Prefix t, tr_Description = at_Description t,
          tr_Status = status, tr_CreatedAt = at_CreatedAt t, tr_ExpiresAt = at_ExpiresAt t,
          tr_Revoked = (at_RevokedAt t \<noteq> None), tr_Active = active, tr_sortAt = changed\<rparr>)"

definition accessTokenFormRows :: "access_token list \<Rightarrow> string \<Rightarrow> time \<Rightarrow> token_form_row list" where
  "accessTokenFormRows tokens kind now = map (token_row_view kind now) tokens"

text \<open>The newest first; the order of rows of one time is that of the configuration.\<close>

definition newest_first :: "token_form_row list \<Rightarrow> token_form_row list" where
  "newest_first rows = sort_key (\<lambda>r. - tr_sortAt r) rows"

definition splitAccessTokenFormRows :: "token_form_row list \<Rightarrow> token_form_row list \<times> token_form_row list" where
  "splitAccessTokenFormRows rows = (newest_first (filter tr_Active rows), filter (\<lambda>r. \<not> tr_Active r) rows)"

text \<open>The tokens of a team as its page lists them: those in use and those that ended.\<close>

definition team_token_rows :: "team_config \<Rightarrow> time \<Rightarrow> token_form_row list \<times> token_form_row list" where
  "team_token_rows cfg now =
     (let (readTokens, readHistory) = splitAccessTokenFormRows (accessTokenFormRows (tc_ReadTokenRecords cfg) ''Read'' now);
          (publishTokens, publishHistory) = splitAccessTokenFormRows (accessTokenFormRows (tc_PublishTokenRecords cfg) ''Publish'' now)
      in (newest_first (readTokens @ publishTokens), newest_first (readHistory @ publishHistory)))"

definition filterTokens :: "(string \<Rightarrow> string) \<Rightarrow> string \<Rightarrow> token_form_row list \<Rightarrow> token_form_row list" where
  "filterTokens to_lower query rows =
     filter (\<lambda>r. matches to_lower (trim_space query)
       (joinLineValues [tr_Kind r, tr_Status r, tr_Prefix r, tr_Description r])) rows"

text \<open>The texts of the access form of a team.\<close>

definition team_badges :: "team_config \<Rightarrow> time \<Rightarrow> string list" where
  "team_badges cfg now =
     (let badge = (\<lambda>label n. if 0 < n then [label @ FormatInt (int n)] else []);
          active = (\<lambda>records. length (filter tr_Active (accessTokenFormRows records [] now)))
      in badge ''Read: '' (active (tc_ReadTokenRecords cfg)) @ badge ''Publish: '' (active (tc_PublishTokenRecords cfg)) @
         badge ''Spaces: '' (length (extraPublishOwnersForForm (tc_Team cfg) (tc_PublishOwners cfg))) @
         badge ''OIDC: '' (length (tc_OIDCGroups cfg) + length (tc_OIDCTeamAdminEmails cfg) + length (tc_OIDCTeamAdminGroups cfg)))"

definition access_form_texts :: "team_config \<Rightarrow> time \<Rightarrow> (string \<times> string) list" where
  "access_form_texts cfg now =
     [(''team'', tc_Team cfg),
      (''extra_spaces'', joinLineValues (extraPublishOwnersForForm (tc_Team cfg) (tc_PublishOwners cfg))),
      (''oidc_groups'', joinLineValues (tc_OIDCGroups cfg)),
      (''oidc_team_admin_emails'', joinLineValues (tc_OIDCTeamAdminEmails cfg)),
      (''oidc_team_admin_groups'', joinLineValues (tc_OIDCTeamAdminGroups cfg)),
      (''badges'', joined_by '' '' (team_badges cfg now))]"

section \<open>The journal\<close>

text \<open>A scope is a team or a space; an entry is in it when it is about it.\<close>

definition audit_attribute :: "audit_event \<Rightarrow> string \<Rightarrow> string option" where
  "audit_attribute a key = map_of (a_Attributes a) key"

definition module_space :: "string \<Rightarrow> string" where
  "module_space module = take (sql_instr module ''/'' - 1) module"

definition in_scope :: "audit_event \<Rightarrow> string \<Rightarrow> bool" where
  "in_scope a scope \<longleftrightarrow>
     audit_attribute a ''team'' = Some scope \<or> audit_attribute a ''new_team'' = Some scope \<or>
     audit_attribute a ''space'' = Some scope \<or> map_option module_space (audit_attribute a ''module'') = Some scope \<or>
     (a_Action a = ''oidc_login'' \<and>
      0 < sql_instr ('','' @ (case audit_attribute a ''actor_teams'' of None \<Rightarrow> [] | Some t \<Rightarrow> t) @ '','') ('','' @ scope @ '',''))"

definition audit_text :: "((string \<times> string) list \<Rightarrow> string) \<Rightarrow> audit_event \<Rightarrow> string" where
  "audit_text json a =
     joined_by '' '' [a_RequestID a, a_Actor a, a_AuthMethod a, a_Action a, a_Result a, a_Reason a, a_SourceIP a, json (a_Attributes a)]"

definition ListAuditEvents ::
    "((string \<times> string) list \<Rightarrow> string) \<Rightarrow> db \<Rightarrow> string list \<Rightarrow> string \<Rightarrow> nat \<Rightarrow> nat \<Rightarrow> audit_event list \<times> nat" where
  "ListAuditEvents json s scopes query limit offset =
     (let rows = filter (\<lambda>a. (scopes = [] \<or> (\<exists>scope \<in> set scopes. in_scope a scope)) \<and>
            (query = [] \<or> 0 < sql_instr (ascii_to_lower (audit_text json a)) (ascii_to_lower query))) (db_audit s)
      in (page limit offset (rev (sort_key (\<lambda>a. (a_OccurredAt a, a_ID a)) rows)), length rows))"

definition auditTarget :: "(string, string) gomap \<Rightarrow> string" where
  "auditTarget attributes =
     (let get = (\<lambda>key. case map_of attributes key of None \<Rightarrow> [] | Some x \<Rightarrow> x);
          module = get ''module''; release = get ''release''; tokenID = get ''token_id'';
          reference = (if get ''token_prefix'' = [] then tokenID else get ''token_prefix'');
          tokenName = get ''token_name''; team = get ''team''; space = get ''space''; newTeam = get ''new_team''
      in if module \<noteq> [] then (if release \<noteq> [] then module @ ''@'' @ release else module)
         else if tokenID \<noteq> [] then
           (if tokenName \<noteq> [] then tokenName @ '' ('' @ get ''token_role'' @ '', '' @ reference @ '')'' else ''token:'' @ reference)
         else if team \<noteq> [] then
           (if space \<noteq> [] then ''team:'' @ team @ '' / space:'' @ space
            else if newTeam \<noteq> [] then ''team:'' @ team @ '' -> '' @ newTeam
            else ''team:'' @ team)
         else if space \<noteq> [] then ''space:'' @ space
         else ''-'')"

definition manageAuditRows :: "audit_event list \<Rightarrow> manage_audit_row list" where
  "manageAuditRows events =
     map (\<lambda>a. let get = (\<lambda>key. case map_of (a_Attributes a) key of None \<Rightarrow> [] | Some x \<Rightarrow> x) in
       \<lparr>jr_OccurredAt = a_OccurredAt a, jr_Actor = a_Actor a, jr_AuthMethod = a_AuthMethod a,
        jr_Action = map (\<lambda>c. if c = CHR ''_'' then CHR '' '' else c) (a_Action a),
        jr_Result = a_Result a, jr_Reason = a_Reason a, jr_Target = auditTarget (a_Attributes a),
        jr_Details = get ''changes'', jr_Justification = get ''justification'', jr_TargetTokenID = get ''token_id'',
        jr_ActorTokenID = get ''actor_token_id'', jr_OIDCSubject = get ''oidc_subject'', jr_RequestID = a_RequestID a,
        jr_SourceIP = a_SourceIP a\<rparr>) events"

section \<open>Legacy usage\<close>

definition manageLegacyConsumerRows :: "web_request \<Rightarrow> release_consumer list \<Rightarrow> legacy_consumer_row list" where
  "manageLegacyConsumerRows e consumers =
     map (\<lambda>c.
       \<lparr>lc_ConsumerTeam = c_ConsumerTeam c, lc_ConsumerName = c_ConsumerName c, lc_ConsumerRole = c_ConsumerRole c,
        lc_Module = c_Owner c @ ''/'' @ c_Name c,
        lc_ModuleURL = ''/modules/'' @ wx_path_escape e (c_Owner c) @ ''/'' @ wx_path_escape e (c_Name c) @
          ''?version='' @ wx_query_escape e (c_Version c),
        lc_Version = c_Version c, lc_Latest = c_LatestVersion c, lc_FirstSeen = c_FirstSeenAt c,
        lc_LastSeen = c_LastSeenAt c, lc_Observations = c_Observations c\<rparr>) consumers"

section \<open>Pages of a list\<close>

text \<open>The pages of a list, in order, are the list; a page after the last is empty.\<close>

lemma pageItems_take: "pageItems items n per = take per (drop ((n - 1) * per) items)"
  by (auto simp: pageItems_def Let_def min_def)

lemma list_pages_concat:
  "concat (map (\<lambda>n. pageItems items n per) [1 ..< Suc k]) = take (k * per) items"
proof (induction k)
  case (Suc k)
  have "concat (map (\<lambda>n. pageItems items n per) [1 ..< Suc (Suc k)]) =
      take (k * per) items @ take per (drop (k * per) items)"
    using Suc by (simp add: pageItems_take)
  then show ?case by (simp add: take_add [symmetric] add.commute)
qed simp

lemma total_pages_enough: "0 < per \<Longrightarrow> amount \<le> total_pages per amount * per"
proof -
  assume per: "0 < per"
  have "amount + per - 1 = (amount + per - 1) div per * per + (amount + per - 1) mod per" by simp
  moreover have "(amount + per - 1) mod per < per" using per by simp
  ultimately show ?thesis unfolding total_pages_def by linarith
qed

lemma pageItems_empty: "0 < per \<Longrightarrow> pageItems items n per = [] \<longleftrightarrow> length items \<le> (n - 1) * per"
  by (auto simp: pageItems_take)

lemma total_pages_least:
  assumes "0 < per"
  shows "n < total_pages per amount \<longleftrightarrow> n * per < amount"
proof
  assume "n < total_pages per amount"
  then have "Suc n * per \<le> amount + per - 1" using assms by (simp add: total_pages_def less_eq_div_iff_mult_less_eq Suc_le_eq [symmetric])
  then show "n * per < amount" using assms by (simp add: algebra_simps)
next
  assume "n * per < amount"
  then have "n * per < total_pages per amount * per" using total_pages_enough [OF assms, of amount] by linarith
  then show "n < total_pages per amount" using assms by simp
qed

text \<open>
  The pages of a list are the list. Over all pages of its pagination every row appears exactly once
  and in its order; a page has a next link exactly when the page after it has rows; and the page a
  request is led to instead of one past the end has rows unless the list has none.
\<close>

theorem list_pages_cover:
  assumes "0 < per" and "0 < n"
  shows "concat (map (\<lambda>k. pageItems items k per)
      [1 ..< Suc (pg_TotalPages (paginationFor n per (length items) url))]) = items \<and>
    (pg_HasNext (paginationFor n per (length items) url) \<longleftrightarrow> pageItems items (n + 1) per \<noteq> []) \<and>
    (items \<noteq> [] \<longrightarrow> pageItems items (fst (normalizedListPage n per (length items))) per \<noteq> [])"
proof (intro conjI impI)
  have fields: "pg_TotalPages (paginationFor n per (length items) url) = total_pages per (length items)"
    "pg_HasNext (paginationFor n per (length items) url) = (n < total_pages per (length items))"
    by (simp_all add: paginationFor_def Let_def)
  show "concat (map (\<lambda>k. pageItems items k per)
      [1 ..< Suc (pg_TotalPages (paginationFor n per (length items) url))]) = items"
    unfolding fields list_pages_concat using total_pages_enough [OF assms(1), of "length items"] by simp
  show "pg_HasNext (paginationFor n per (length items) url) \<longleftrightarrow> pageItems items (n + 1) per \<noteq> []"
    unfolding fields by (simp add: pageItems_empty [OF assms(1)] total_pages_least [OF assms(1)] not_le)
  assume items: "items \<noteq> []"
  let ?k = "fst (normalizedListPage n per (length items))"
  have "?k - 1 < total_pages per (length items)"
    using items assms total_pages_least [OF assms(1), of 0 "length items"] by (auto simp: normalizedListPage_def Let_def)
  then show "pageItems items ?k per \<noteq> []"
    by (simp add: pageItems_empty [OF assms(1)] total_pages_least [OF assms(1)] not_le)
qed

theorem list_pages_cover_witness:
  "concat (map (\<lambda>k. pageItems [1, 2, 3 :: nat] k 2) [1 ..< Suc (pg_TotalPages (paginationFor 1 2 3 (\<lambda>_. [])))]) = [1, 2, 3] \<and>
   pg_HasNext (paginationFor 1 2 3 (\<lambda>_. []))"
proof -
  have three: "length [1, 2, 3 :: nat] = 3" by simp
  have "pageItems [1, 2, 3 :: nat] (1 + 1) 2 \<noteq> []" by code_simp
  moreover have two: "(0 :: nat) < 2" and one: "(0 :: nat) < 1" by simp_all
  note cover = list_pages_cover [OF two one, of "[1, 2, 3 :: nat]" "\<lambda>_. []", unfolded three]
  ultimately show ?thesis
    by (intro conjI) (rule cover [THEN conjunct1], rule iffD2 [OF cover [THEN conjunct2, THEN conjunct1]])
qed

section \<open>What the overview counts\<close>

text \<open>
  The overview counts modules only for the spaces of teams the principal administers, but lists every
  space it may publish to: a publisher sees no modules in any of its spaces.
\<close>

lemma overview_counts_nothing:
  assumes "\<not> p_CanAdmin p" "\<not> p_CanManageTeam p"
  shows "\<forall>row \<in> set (manageOverviewSpaces e configs
      (CountModulesByOwner s (Some (manageOverviewTeamOwners configs p))) p). fst (snd row) = 0"
proof -
  have "manageOverviewTeamOwners configs p = []"
    using assms by (simp add: manageOverviewTeamOwners_def administers_def canManageAccessTeam_def)
  then show ?thesis by (simp add: manageOverviewSpaces_def CountModulesByOwner_def count_of_def)
qed

end
