(* ===== verification/ManagePages.thy ===== *)
theory ManagePages
  imports ManageModules Listing
begin

text \<open>
  The pages that list (\<open>internal/httpapi/router_manage_lists.go\<close>, \<open>router_manage_audit.go\<close>,
  \<open>router_manage_legacy.go\<close>, \<open>router_manage_spaces.go\<close>, \<open>router_manage_teams.go\<close>,
  \<open>router_manage_overview.go\<close>, \<open>router_public.go\<close>) and the module list of \<open>router_manage_modules.go\<close>.
  A page past the last one is answered by a redirect to the last, or, for a fragment that a script
  asked for, by the last page with its URL in a header. Navigation, filter forms and templates are
  left out.
\<close>

section \<open>Steps\<close>

definition handleCanonicalListPage :: "web_request \<Rightarrow> bool \<Rightarrow> string \<Rightarrow> string option web" where
  "handleCanonicalListPage e changed canonicalURL =
     (if \<not> changed then w_return None
      else if trim_space (hx_header (wx_api e) ''X-Puppet-Forge-Fragment'') \<noteq> [] then w_return (Some canonicalURL)
      else w_answer (SeeOther canonicalURL))"

definition with_csrf :: "web_request \<Rightarrow> (string \<Rightarrow> 'a web) \<Rightarrow> 'a web" where
  "with_csrf e f =
     w_then (ensureManageCSRFToken e) (\<lambda>r. case r of
       None \<Rightarrow> w_fail e 500 (Plain ''failed to generate CSRF token'')
     | Some token \<Rightarrow> f token)"

definition w_load :: "web_request \<Rightarrow> 'a svc \<Rightarrow> 'a web" where
  "w_load e m = w_then (w_call m) (\<lambda>r. case r of Inl err \<Rightarrow> w_fail e 500 (Service err) | Inr x \<Rightarrow> w_return x)"

definition loadTeamConfigsAndModuleCounts :: "(team_config list \<times> (string, nat) gomap) svc" where
  "loadTeamConfigsAndModuleCounts =
     svc_then (db_read (\<lambda>s. Inr (LoadTeamConfigs s))) (\<lambda>configs.
     svc_then (db_read (\<lambda>s. Inr (CountModulesByOwner s (Some (configuredPublishSpaces configs))))) (\<lambda>counts.
       svc_return (configs, counts)))"

definition page_messages :: "web_request \<Rightarrow> (string \<times> string) list" where
  "page_messages e = [(''message'', hx_query (wx_api e) ''message''), (''error'', hx_query (wx_api e) ''error'')]"

definition to_lower :: "web_request \<Rightarrow> string \<Rightarrow> string" where
  "to_lower e = ne_lower (hx_net (wx_api e))"

section \<open>The journal and legacy usage\<close>

definition renderManageAudit :: "web_request \<Rightarrow> string list \<Rightarrow> string \<Rightarrow> string \<Rightarrow> web_answer web" where
  "renderManageAudit e scopes basePath title =
     (case requestedManageList e ''audit-list'' of
        Inl message \<Rightarrow> w_fail e 400 (Plain message)
      | Inr (query, n, per) \<Rightarrow>
          w_then (w_load e (db_read (\<lambda>s. Inr (ListAuditEvents (wx_json e) s scopes query per ((n - 1) * per))))) (\<lambda>(events, total).
            let (canonical, changed) = normalizedListPage n per total in
            w_then (handleCanonicalListPage e changed (manageListPageURL e basePath ''audit-list'' canonical)) (\<lambda>header.
            with_csrf e (\<lambda>token.
              w_answer (Listed header ''audit''
                [(AuditRows (manageAuditRows events), manageListPagination e basePath ''audit-list'' canonical per total)]
                [(''title'', title), (''query'', query), (''csrf_token'', token)])))))"

definition manageAuditPage :: "web_request \<Rightarrow> web_answer web" where
  "manageAuditPage e =
     (if rq_Method (wx_http e) \<noteq> ''GET'' then manage_method_not_allowed e
      else w_then (requireManage e) (\<lambda>p.
        if \<not> p_CanAdmin p then admin_required e ''global admin access required''
        else renderManageAudit e [] ''/manage/admin/audit'' ''Audit log''))"

definition renderManageLegacyUsage :: "web_request \<Rightarrow> string \<Rightarrow> string \<Rightarrow> string \<Rightarrow> web_answer web" where
  "renderManageLegacyUsage e team basePath title =
     (case requestedManageList e ''legacy-usage-list'' of
        Inl message \<Rightarrow> w_fail e 400 (Plain message)
      | Inr (query, n, per) \<Rightarrow>
          w_then (w_load e (db_read (\<lambda>s. Inr (ListLegacyReleaseConsumers s team query per ((n - 1) * per))))) (\<lambda>(consumers, total).
            let (canonical, changed) = normalizedListPage n per total in
            w_then (handleCanonicalListPage e changed (manageListPageURL e basePath ''legacy-usage-list'' canonical)) (\<lambda>header.
            with_csrf e (\<lambda>token.
              w_answer (Listed header ''legacy''
                [(LegacyRows (manageLegacyConsumerRows e consumers),
                  manageListPagination e basePath ''legacy-usage-list'' canonical per total)]
                [(''title'', title), (''query'', query), (''csrf_token'', token)])))))"

definition manageLegacyUsagePage :: "web_request \<Rightarrow> web_answer web" where
  "manageLegacyUsagePage e =
     (if rq_Method (wx_http e) \<noteq> ''GET'' then manage_method_not_allowed e
      else w_then (requireManage e) (\<lambda>p.
        if \<not> p_CanAdmin p then admin_required e ''global admin access required''
        else renderManageLegacyUsage e [] ''/manage/admin/legacy'' ''Legacy module usage''))"

section \<open>Publish spaces\<close>

definition renderManagePublishSpaces :: "web_request \<Rightarrow> web_answer web" where
  "renderManagePublishSpaces e =
     (case requestedManageList e ''publish-space-list'' of
        Inl message \<Rightarrow> w_fail e 400 (Plain message)
      | Inr (query, n, per) \<Rightarrow>
          w_then (w_load e loadTeamConfigsAndModuleCounts) (\<lambda>(configs, counts).
          w_then (w_load e (db_read (\<lambda>s. Inr (CountUpstreamModulesByOwner s)))) (\<lambda>upstream.
          with_csrf e (\<lambda>token.
            let (all, teams) = managePublishSpaceAssignments e configs counts upstream;
                assignments = filterManagePublishSpaceAssignments (to_lower e) query all;
                (canonical, changed) = normalizedListPage n per (length assignments)
            in w_then (handleCanonicalListPage e changed (manageListPageURL e ''/manage/admin/spaces'' ''publish-space-list'' canonical)) (\<lambda>header.
                 w_answer (Listed header ''publish-spaces''
                   [(SpaceRows (pageItems assignments canonical per),
                     manageListPagination e ''/manage/admin/spaces'' ''publish-space-list'' canonical per (length assignments))]
                   ([(''teams'', joinLineValues teams), (''query'', query), (''csrf_token'', token)] @ page_messages e)))))))"

definition managePublishSpacesPage :: "web_request \<Rightarrow> web_answer web" where
  "managePublishSpacesPage e =
     w_then (requireManage e) (\<lambda>p.
       if \<not> p_CanAdmin p then admin_required e ''global admin access required''
       else if rq_Method (wx_http e) = ''GET'' then renderManagePublishSpaces e
       else if rq_Method (wx_http e) = ''POST'' then w_then (requireManageCSRF e) (\<lambda>_. space_change e p)
       else manage_method_not_allowed e)"

section \<open>Teams\<close>

definition manageTeamsPage :: "web_request \<Rightarrow> web_answer web" where
  "manageTeamsPage e =
     (if rq_Path (wx_http e) \<noteq> ''/manage/teams'' then w_fail e 404 (Plain ''route not found'')
      else if rq_Method (wx_http e) \<noteq> ''GET'' then manage_method_not_allowed e
      else w_then (requireManage e) (\<lambda>p.
        if \<not> p_CanAdmin p \<and> \<not> p_CanManageTeam p then admin_required e ''team admin access required''
        else case requestedManageList e ''teams-list'' of
          Inl message \<Rightarrow> w_fail e 400 (Plain message)
        | Inr (query, n, per) \<Rightarrow>
            w_then (w_load e loadTeamConfigsAndModuleCounts) (\<lambda>(configs, counts).
              let rows = filterManageTeamSummaries (to_lower e) query (manageTeamSummaries configs counts p (wx_now e));
                  (canonical, changed) = normalizedListPage n per (length rows)
              in w_then (handleCanonicalListPage e changed (manageListPageURL e ''/manage/teams'' ''teams-list'' canonical)) (\<lambda>header.
                 with_csrf e (\<lambda>token.
                   w_answer (Listed header ''teams''
                     [(TeamRows (pageItems rows canonical per),
                       manageListPagination e ''/manage/teams'' ''teams-list'' canonical per (length rows))]
                     ([(''query'', query), (''csrf_token'', token)] @ page_messages e)))))))"

section \<open>Modules\<close>

definition release_count :: "module_release_count list \<Rightarrow> domain_module \<Rightarrow> nat" where
  "release_count counts m =
     (case find (\<lambda>c. mc_Owner c = m_Owner m \<and> mc_Name c = m_Name m) counts of None \<Rightarrow> 0 | Some c \<Rightarrow> mc_Count c)"

definition module_row_view :: "web_request \<Rightarrow> principal \<Rightarrow> module_release_count list \<Rightarrow> domain_module \<Rightarrow> manage_module_row" where
  "module_row_view e p counts m =
     (let canDelete = CanDeleteOwner p (m_Owner m) in
      \<lparr>mx_Module = m, mx_ReleaseCount = release_count counts m, mx_CanDelete = canDelete,
       mx_CanForceDeleteModule = p_CanAdmin p, mx_CanForceDeleteRelease = canDelete,
       mx_CardID = manageModuleCardID (m_Owner m) (m_Name m), mx_CardURL = manageModuleCardURL e (m_Owner m) (m_Name m),
       mx_ForceDeleteURL = [], mx_Next = []\<rparr>)"

text \<open>\<open>None\<close> as owners is every owner for a global administrator and the own spaces otherwise.\<close>

definition module_owners :: "principal \<Rightarrow> string list option \<Rightarrow> string list" where
  "module_owners p allowed =
     (case allowed of
        Some owners \<Rightarrow> sort (remdups owners)
      | None \<Rightarrow> if p_CanAdmin p then [] else manageableOwners p)"

definition loadManageModuleRows ::
    "web_request \<Rightarrow> principal \<Rightarrow> string list option \<Rightarrow> string \<Rightarrow> nat \<Rightarrow> nat \<Rightarrow> (manage_module_row list \<times> nat) svc" where
  "loadManageModuleRows e p allowed query n per =
     svc_then (db_read (\<lambda>s. ListModulesPageFiltered (g_lower (hx_service (wx_api e))) s (module_owners p allowed) query
       (int per) (int ((n - 1) * per)))) (\<lambda>(modules, total).
     svc_then (db_read (\<lambda>s. Inr (CountReleasesForModules s modules))) (\<lambda>counts.
       svc_return (map (module_row_view e p counts) modules, total)))"

definition configureManageModuleRows :: "web_request \<Rightarrow> string \<Rightarrow> manage_module_row list \<Rightarrow> manage_module_row list" where
  "configureManageModuleRows e target rows =
     map (\<lambda>r. r\<lparr>mx_Next := target,
       mx_ForceDeleteURL := manageForceDeleteURL e (m_Owner (mx_Module r)) (m_Name (mx_Module r)) [] target,
       mx_CardURL := card_url e target (mx_CardURL r)\<rparr>) rows"

text \<open>A page of rows; when it was past the last page, the last page is loaded instead.\<close>

definition canonical_rows ::
    "web_request \<Rightarrow> (nat \<Rightarrow> ('r list \<times> nat) svc) \<Rightarrow> nat \<Rightarrow> nat \<Rightarrow> (nat \<Rightarrow> string) \<Rightarrow> (string option \<times> nat \<times> 'r list \<times> nat) web" where
  "canonical_rows e load n per url =
     w_then (w_load e (load n)) (\<lambda>(rows, total).
       let (canonical, changed) = normalizedListPage n per total in
       w_then (handleCanonicalListPage e changed (url canonical)) (\<lambda>header.
         if changed then w_then (w_load e (load canonical)) (\<lambda>(rows, total). w_return (header, canonical, rows, total))
         else w_return (header, n, rows, total)))"

definition manageModulesPage :: "web_request \<Rightarrow> web_answer web" where
  "manageModulesPage e =
     (if rq_Path (wx_http e) \<noteq> ''/manage/modules'' then w_fail e 404 (Plain ''route not found'')
      else if rq_Method (wx_http e) \<noteq> ''GET'' then manage_method_not_allowed e
      else w_then (requireManage e) (\<lambda>p.
        let query = trim_space (hx_query (wx_api e) ''q''); base = ''/manage/modules'' in
        case requestedManageModulePage e base manageModuleListTarget of
          None \<Rightarrow> w_fail e 400 (Plain ''invalid page'')
        | Some (n, per) \<Rightarrow>
            w_then (canonical_rows e (\<lambda>n. loadManageModuleRows e p None query n per) n per
              (\<lambda>n. managePageURLWithValues e base n manageModuleListTarget)) (\<lambda>(header, n, rows, total).
            with_csrf e (\<lambda>token.
              w_answer (Listed header ''modules''
                [(ModuleRows (configureManageModuleRows e base rows),
                  managePaginationForRequest e base manageModuleListTarget manageModuleListTarget n per total)]
                ([(''owners'', joinLineValues (manageableOwners p)), (''teams'', joinLineValues (manageableTeams p)),
                  (''query'', query), (''csrf_token'', token)] @ page_messages e))))))"

definition manageModulesRoot :: "web_request \<Rightarrow> web_answer web" where
  "manageModulesRoot e =
     (if rq_Method (wx_http e) = ''GET'' then manageModulesPage e
      else if rq_Method (wx_http e) = ''POST'' then manageModules e
      else manage_method_not_allowed e)"

section \<open>The overview\<close>

definition manageOverviewModules :: "web_request \<Rightarrow> principal \<Rightarrow> team_config list \<Rightarrow> nat \<Rightarrow> nat \<Rightarrow> (domain_module list \<times> nat) svc" where
  "manageOverviewModules e p configs n per =
     db_read (\<lambda>s. ListModulesPagePrioritized (g_lower (hx_service (wx_api e))) s
       (if p_CanAdmin p then [] else manageableOwners p) (manageOverviewTeamOwners configs p) [] (int per) (int ((n - 1) * per)))"

text \<open>The three pages that were asked for, with their sizes, or the parameter that is no page.\<close>

definition overview_pages :: "web_request \<Rightarrow> string + ((nat \<times> nat) \<times> (nat \<times> nat) \<times> (nat \<times> nat))" where
  "overview_pages e =
     (let modules = requestedPageSize e ''/manage'' ''modules_per_page'' [] 20;
          teams = requestedPageSize e ''/manage'' ''teams_per_page'' [] 10;
          spaces = requestedPageSize e ''/manage'' ''spaces_per_page'' [] 10
      in case requestedOverviewPage e ''modules_page'' modules of
           None \<Rightarrow> Inl ''invalid modules_page''
         | Some m \<Rightarrow>
             (case requestedOverviewPage e ''teams_page'' teams of
                None \<Rightarrow> Inl ''invalid teams_page''
              | Some t \<Rightarrow>
                  (case requestedOverviewPage e ''spaces_page'' spaces of
                     None \<Rightarrow> Inl ''invalid spaces_page''
                   | Some s \<Rightarrow> Inr ((m, modules), (t, teams), (s, spaces)))))"

text \<open>A list that is held whole: its page, and the header of the canonical URL.\<close>

definition held_page ::
    "web_request \<Rightarrow> (nat \<Rightarrow> string) \<Rightarrow> 'r list \<Rightarrow> nat \<Rightarrow> nat \<Rightarrow> (string option \<times> nat) web" where
  "held_page e url rows n per =
     (let (canonical, changed) = normalizedListPage n per (length rows) in
      w_then (handleCanonicalListPage e changed (url canonical)) (\<lambda>header. w_return (header, canonical)))"

definition last_header :: "string option list \<Rightarrow> string option" where
  "last_header headers = (case filter (\<lambda>h. h \<noteq> None) headers of [] \<Rightarrow> None | h # hs \<Rightarrow> last (h # hs))"

definition legacy_total :: "web_request \<Rightarrow> principal \<Rightarrow> nat web" where
  "legacy_total e p =
     (if \<not> p_CanAdmin p then w_return 0
      else w_then (w_load e (db_read (\<lambda>s. Inr (ListLegacyReleaseConsumers s [] [] 1 0)))) (\<lambda>(_, total). w_return total))"

definition manage_overview ::
    "web_request \<Rightarrow> principal \<Rightarrow> nat \<times> nat \<Rightarrow> nat \<times> nat \<Rightarrow> nat \<times> nat \<Rightarrow> team_config list \<Rightarrow> web_answer web" where
  "manage_overview e p = (\<lambda>(m, msize) (t, tsize) (n, ssize) configs.
     w_then (canonical_rows e (\<lambda>m. manageOverviewModules e p configs m msize) m msize
       (\<lambda>m. overviewPageURL e ''modules_page'' m ''modules'')) (\<lambda>(header1, m1, modules, total).
     w_then (w_load e (db_read (\<lambda>s. Inr (CountModulesByOwner s (Some (manageOverviewTeamOwners configs p)))))) (\<lambda>counts.
       let spaces = manageOverviewSpaces e configs counts p;
           teams = (if p_CanAdmin p \<or> p_CanManageTeam p
                    then manageOverviewTeams e (manageTeamSummaries configs counts p (wx_now e)) else [])
       in w_then (held_page e (\<lambda>n. overviewPageURL e ''spaces_page'' n ''spaces'') spaces n ssize) (\<lambda>(header2, n1).
          w_then (held_page e (\<lambda>t. overviewPageURL e ''teams_page'' t ''teams'') teams t tsize) (\<lambda>(header3, t1).
          w_then (legacy_total e p) (\<lambda>legacy.
          with_csrf e (\<lambda>token.
            w_answer (Listed (last_header [header1, header2, header3]) ''overview''
              [(Modules modules, overviewPagination e ''modules_page'' ''modules_per_page'' ''modules'' m1 total msize),
               (SpaceSummaries (pageItems spaces n1 ssize),
                overviewPagination e ''spaces_page'' ''spaces_per_page'' ''spaces'' n1 (length spaces) ssize),
               (OverviewTeams (pageItems teams t1 tsize),
                overviewPagination e ''teams_page'' ''teams_per_page'' ''teams'' t1 (length teams) tsize)]
              [(''legacy_total'', FormatInt (int legacy)), (''csrf_token'', token)])))))))) "

definition managePage :: "web_request \<Rightarrow> web_answer web" where
  "managePage e =
     (if rq_Path (wx_http e) \<noteq> ''/manage'' then w_fail e 404 (Plain ''route not found'')
      else if rq_Method (wx_http e) \<noteq> ''GET'' then manage_method_not_allowed e
      else w_then (requireManage e) (\<lambda>p.
        case overview_pages e of
          Inl message \<Rightarrow> w_fail e 400 (Plain message)
        | Inr (m, t, n) \<Rightarrow>
            w_then (w_load e (db_read (\<lambda>s. Inr (LoadTeamConfigs s)))) (manage_overview e p m t n)))"

section \<open>The page of a team\<close>

definition team_tokens_page :: "web_request \<Rightarrow> team_config \<Rightarrow> string \<Rightarrow> web_answer web" where
  "team_tokens_page e cfg basePath =
     (case (requestedTokenPage e ''token_page'', requestedTokenPage e ''history_page'') of
        (Some n, Some h) \<Rightarrow>
          let per = requestedPageSize e basePath ''token_per_page'' ''active-tokens'' 20;
              hsize = requestedPageSize e basePath ''history_per_page'' ''token-history'' 20;
              (tokens, history) = team_token_rows cfg (wx_now e);
              activeQuery = trim_space (hx_query (wx_api e) ''active_token_query'');
              historyQuery = trim_space (hx_query (wx_api e) ''token_query'');
              active = filterTokens (to_lower e) activeQuery tokens;
              ended = filterTokens (to_lower e) historyQuery history;
              (n1, changed) = normalizedListPage n per (length active);
              (h1, hchanged) = normalizedListPage h hsize (length ended);
              url = tokenPagesURL e basePath n1 h1 (if changed then ''active-tokens'' else ''token-history'')
          in w_then (handleCanonicalListPage e (changed \<or> hchanged) url) (\<lambda>header.
             with_csrf e (\<lambda>token.
               w_answer (Listed header ''team-tokens''
                 [(TokenRows (pageItems active n1 per),
                   tokenPagination e basePath ''token_page'' ''token_per_page'' ''active-tokens'' n1 per (length active)),
                  (TokenRows (pageItems ended h1 hsize),
                   tokenPagination e basePath ''history_page'' ''history_per_page'' ''token-history'' h1 hsize (length ended))]
                 ([(''active_token_query'', activeQuery), (''token_query'', historyQuery),
                   (''active_clear'', tokenFilterURL e basePath (tokenFilterParams (wx_values e)
                      [''q'', ''page'', ''history_page'', ''token_query'']) ''active-tokens''),
                   (''history_clear'', tokenFilterURL e basePath (tokenFilterParams (wx_values e)
                      [''q'', ''page'', ''token_page'', ''active_token_query'']) ''token-history''),
                   (''history_available'', if history \<noteq> [] \<or> historyQuery \<noteq> [] then ''true'' else ''false''),
                   (''csrf_token'', token)] @ access_form_texts cfg (wx_now e) @ page_messages e))))
      | _ \<Rightarrow> w_fail e 400 (Plain ''invalid token history page''))"

definition team_modules_page :: "web_request \<Rightarrow> principal \<Rightarrow> team_config \<Rightarrow> string \<Rightarrow> web_answer web" where
  "team_modules_page e p cfg basePath =
     (let target = ''module-list''; spaces = teamPublishSpaces cfg; query = trim_space (hx_query (wx_api e) ''q'') in
      case requestedManageModulePage e basePath target of
        None \<Rightarrow> w_fail e 400 (Plain ''invalid page'')
      | Some (n, per) \<Rightarrow>
          w_then (canonical_rows e (\<lambda>n. loadManageModuleRows e p (Some spaces) query n per) n per
            (\<lambda>n. managePageURLWithValues e basePath n target)) (\<lambda>(header, n, rows, total).
          with_csrf e (\<lambda>token.
            w_answer (Listed header ''team-modules''
              [(ModuleRows (configureManageModuleRows e basePath rows),
                managePaginationForRequest e basePath target target n per total)]
              ([(''publish_spaces'', joinLineValues (filter (CanPublishOwner p) spaces)), (''query'', query),
                (''csrf_token'', token)] @ access_form_texts cfg (wx_now e) @ page_messages e)))))"

definition team_section_page :: "web_request \<Rightarrow> principal \<Rightarrow> team_config \<Rightarrow> string \<Rightarrow> team_section \<Rightarrow> web_answer web" where
  "team_section_page e p cfg base section =
     (case section of
        LegacySection \<Rightarrow> renderManageLegacyUsage e (tc_Team cfg) (base @ ''/legacy'') (''Legacy usage: '' @ tc_Team cfg)
      | AuditSection \<Rightarrow> renderManageAudit e (teamPublishSpaces cfg) (base @ ''/audit'') (''Audit log: '' @ tc_Team cfg)
      | TokensSection \<Rightarrow> team_tokens_page e cfg (base @ ''/tokens'')
      | ModulesSection \<Rightarrow> team_modules_page e p cfg (base @ ''/modules'')
      | AccessSection \<Rightarrow> with_csrf e (\<lambda>token.
          w_answer (Listed None ''team-access'' [] ((''csrf_token'', token) # access_form_texts cfg (wx_now e) @ page_messages e))))"

definition manageTeamPage :: "web_request \<Rightarrow> web_answer web" where
  "manageTeamPage e =
     (if rq_Method (wx_http e) \<noteq> ''GET'' then manage_method_not_allowed e
      else case parseManageTeamPath (rq_Path (wx_http e)) of
        None \<Rightarrow> w_fail e 404 (Plain ''team not found'')
      | Some (team, section, canonical) \<Rightarrow>
          w_then (requireManage e) (\<lambda>p.
            if \<not> p_CanAdmin p \<and> \<not> canManageAccessTeam p team then admin_required e ''team admin access required''
            else w_then (w_load e (db_read (\<lambda>s. Inr (LoadTeamConfigs s)))) (\<lambda>configs.
              case findAccessConfig configs team of
                None \<Rightarrow> w_fail e 404 (Plain ''team not found'')
              | Some cfg \<Rightarrow>
                  if IsGlobalAdminConfig cfg then w_fail e 404 (Plain ''team not found'')
                  else if \<not> canonical then
                    w_answer (Located (team_url e team @ ''/access'' @
                      (if rq_RawQuery (wx_http e) \<noteq> [] then ''?'' @ rq_RawQuery (wx_http e) else [])))
                  else team_section_page e p cfg (team_url e team) section)))"

section \<open>The public list\<close>

definition publicModulePageSize :: nat where "publicModulePageSize = 20"

definition indexPage :: "web_request \<Rightarrow> web_answer web" where
  "indexPage e =
     (if rq_Path (wx_http e) \<noteq> ''/'' then w_fail e 404 (Plain ''route not found'')
      else if rq_Method (wx_http e) \<noteq> ''GET'' then manage_method_not_allowed e
      else
        let owner = trim_space (hx_query (wx_api e) ''owner''); query = trim_space (hx_query (wx_api e) ''q'');
            per = requestedPageSize e ''/'' ''per_page'' ''module-list'' publicModulePageSize
        in case requestedManagePageWithSize e per of
             None \<Rightarrow> w_fail e 400 (Plain ''invalid page'')
           | Some n \<Rightarrow>
               w_then (canonical_rows e (\<lambda>n. db_read (\<lambda>s. ListModulesPageFiltered (g_lower (hx_service (wx_api e))) s
                   (if owner \<noteq> [] then [owner] else []) query (int per) (int ((n - 1) * per)))) n per
                   (\<lambda>n. managePageURLWithValues e ''/'' n ''module-list'')) (\<lambda>(header, n, modules, total).
                 w_answer (Listed header ''index''
                   [(Modules modules, managePaginationForRequest e ''/'' ''module-list'' ''module-list'' n per total)]
                   [(''owner'', owner), (''query'', query),
                    (''clear'', if owner \<noteq> [] then ''/?owner='' @ wx_query_escape e owner else ''/'')])))"

end
