(* ===== verification/ManageProperties.thy ===== *)
theory ManageProperties
  imports ManageChanges ManagePages
begin

text \<open>
  The management as a whole: its pages only read, apart from the forms, and what a form changes is the
  principal's to change.
\<close>

section \<open>Pages that only read\<close>

lemma canonical_keeps [view_intros]: "w_keeps V (handleCanonicalListPage e changed url)"
  unfolding handleCanonicalListPage_def by (intro view_intros)

lemma with_csrf_keeps [view_intros]: "(\<And>token. w_keeps manage_view (f token)) \<Longrightarrow> w_keeps manage_view (with_csrf e f)"
  unfolding with_csrf_def by (intro view_intros)

lemma w_load_keeps [view_intros]: "s_keeps V m \<Longrightarrow> w_keeps V (w_load e m)"
  unfolding w_load_def by (intro view_intros)

lemma load_keeps [view_intros]:
  "s_keeps V loadTeamConfigsAndModuleCounts" "s_keeps V (loadManageModuleRows e p allowed query n per)"
  "s_keeps V (manageOverviewModules e p configs n per)"
  unfolding loadTeamConfigsAndModuleCounts_def loadManageModuleRows_def manageOverviewModules_def case_prod_unfold
  by (intro view_intros)+

lemma canonical_rows_keeps [view_intros]:
  "(\<And>n. s_keeps V (load n)) \<Longrightarrow> w_keeps V (canonical_rows e load n per url)"
  unfolding canonical_rows_def case_prod_unfold Let_def by (intro view_intros)

lemma held_page_keeps [view_intros]: "w_keeps V (held_page e url rows n per)"
  unfolding held_page_def case_prod_unfold Let_def by (intro view_intros)

lemma render_keeps [view_intros]:
  "w_keeps manage_view (renderManageAudit e scopes base title)"
  "w_keeps manage_view (renderManageLegacyUsage e team base title)"
  "w_keeps manage_view (renderManagePublishSpaces e)"
  "w_keeps manage_view (team_tokens_page e cfg base)"
  "w_keeps manage_view (team_modules_page e p cfg base)"
  "w_keeps manage_view (manage_overview e p m t n configs)"
proof -
  show "w_keeps manage_view (renderManageAudit e scopes base title)"
    unfolding renderManageAudit_def case_prod_unfold Let_def by (intro view_intros)
  show "w_keeps manage_view (renderManageLegacyUsage e team base title)"
    unfolding renderManageLegacyUsage_def case_prod_unfold Let_def by (intro view_intros)
  show "w_keeps manage_view (renderManagePublishSpaces e)"
    unfolding renderManagePublishSpaces_def case_prod_unfold Let_def by (intro view_intros)
  show "w_keeps manage_view (team_tokens_page e cfg base)"
    unfolding team_tokens_page_def case_prod_unfold Let_def by (intro view_intros)
  show "w_keeps manage_view (team_modules_page e p cfg base)"
    unfolding team_modules_page_def case_prod_unfold Let_def by (intro view_intros)
  show "w_keeps manage_view (manage_overview e p m t n configs)"
    unfolding manage_overview_def legacy_total_def case_prod_unfold Let_def by (intro view_intros)
qed

lemma team_section_keeps [view_intros]: "w_keeps manage_view (team_section_page e p cfg base section)"
  unfolding team_section_page_def by (cases "section"; simp only: team_section.case; intro view_intros)

section \<open>The routes\<close>

text \<open>The module pages of the mux of \<open>NewRouter\<close>, and the others below \<open>/manage\<close>; the rest is the public list.\<close>

definition module_route :: "web_request \<Rightarrow> web_answer web" where
  "module_route e =
     (if rq_Path (wx_http e) = ''/manage/upstream'' then manageUpstreamModule e
      else if rq_Path (wx_http e) = ''/manage/modules'' then manageModulesRoot e
      else manageModuleAction e)"

definition access_route :: "web_request \<Rightarrow> web_answer web" where
  "access_route e =
     (let path = rq_Path (wx_http e) in
      if path = ''/manage'' then managePage e
      else if path = ''/manage/access'' \<or> path = ''/manage/admin/access'' then manageAccessPage e
      else if path = ''/manage/access/add'' \<or> path = ''/manage/teams/new'' then manageAccessAddPage e
      else if path = ''/manage/access/token'' then manageAccessTokenPage e
      else if path = ''/manage/admin/spaces'' then managePublishSpacesPage e
      else if path = ''/manage/admin/legacy'' then manageLegacyUsagePage e
      else if path = ''/manage/admin/audit'' then manageAuditPage e
      else if path = ''/manage/teams'' then manageTeamsPage e
      else if has_prefix path ''/manage/teams/'' then manageTeamPage e
      else indexPage e)"

text \<open>A page behind the session that only reads.\<close>

lemma read_page:
  assumes "\<And>h. at_view s bk h \<Longrightarrow> F h" "\<And>p. w_keeps manage_view (f p)"
  shows "wtriple (started s bk r) (w_then (requireManage e) f) (\<lambda>_. F) F"
  by (rule requireManage_then, erule assms(1), rule keeps_then_quiet [OF assms(1)], assumption, rule assms(2))

lemma started_quiet:
  assumes "\<And>h. at_view s bk h \<Longrightarrow> F h" "w_keeps manage_view m"
  shows "wtriple (started s bk r) m (\<lambda>_. F) F"
  by (rule wtriple_weaken [OF keeps_then_quiet [OF assms]]) (auto intro: started_view)

lemma read_pages:
  assumes F: "\<And>h. at_view s bk h \<Longrightarrow> F h"
  shows "wtriple (started s bk r) (managePage e) (\<lambda>_. F) F" "wtriple (started s bk r) (manageLegacyUsagePage e) (\<lambda>_. F) F"
    "wtriple (started s bk r) (manageAuditPage e) (\<lambda>_. F) F" "wtriple (started s bk r) (manageTeamsPage e) (\<lambda>_. F) F"
    "wtriple (started s bk r) (manageTeamPage e) (\<lambda>_. F) F" "wtriple (started s bk r) (indexPage e) (\<lambda>_. F) F"
    "wtriple (started s bk r) (manageModulesPage e) (\<lambda>_. F) F"
proof -
  have q: "wtriple (started s bk r) m (\<lambda>_. F) F" if "w_keeps manage_view m" for m :: "web_answer web"
    by (rule started_quiet [OF _ that]) (rule F)
  have rd: "wtriple (started s bk r) (w_then (requireManage e) f) (\<lambda>_. F) F" if "\<And>p. w_keeps manage_view (f p)" for f :: "principal \<Rightarrow> web_answer web"
    by (rule read_page [OF _ that]) (rule F)
  show "wtriple (started s bk r) (managePage e) (\<lambda>_. F) F"
    unfolding managePage_def case_prod_unfold Let_def
    by (intro wtriple_if) ((rule rd, intro view_intros) | (rule q, intro view_intros))+
  show "wtriple (started s bk r) (manageLegacyUsagePage e) (\<lambda>_. F) F"
    unfolding manageLegacyUsagePage_def
    by (intro wtriple_if) ((rule rd, intro view_intros) | (rule q, intro view_intros))+
  show "wtriple (started s bk r) (manageAuditPage e) (\<lambda>_. F) F"
    unfolding manageAuditPage_def
    by (intro wtriple_if) ((rule rd, intro view_intros) | (rule q, intro view_intros))+
  show "wtriple (started s bk r) (manageTeamsPage e) (\<lambda>_. F) F"
    unfolding manageTeamsPage_def case_prod_unfold Let_def
    by (intro wtriple_if) ((rule rd, intro view_intros) | (rule q, intro view_intros))+
  show "wtriple (started s bk r) (manageTeamPage e) (\<lambda>_. F) F"
    unfolding manageTeamPage_def case_prod_unfold Let_def
    by (intro wtriple_if wtriple_option) ((rule rd, intro view_intros) | (rule q, intro view_intros))+
  show "wtriple (started s bk r) (indexPage e) (\<lambda>_. F) F"
    unfolding indexPage_def case_prod_unfold Let_def
    by (rule q) (intro view_intros)
  show "wtriple (started s bk r) (manageModulesPage e) (\<lambda>_. F) F"
    unfolding manageModulesPage_def case_prod_unfold Let_def
    by (intro wtriple_if) ((rule rd, intro view_intros) | (rule q, intro view_intros))+
qed

section \<open>What a request changes\<close>

lemma access_route_held:
  assumes ok: "access_ok s"
  shows "wtriple (started s bk r) (access_route e) (\<lambda>_. access_held e r s) (access_held e r s)"
proof -
  note held = at_view_held [OF ok]
  have spaces: "wtriple (started s bk r) (managePublishSpacesPage e) (\<lambda>_. access_held e r s) (access_held e r s)"
    unfolding managePublishSpacesPage_def
  proof (rule requireManage_then, erule held)
    fix p assume p: "manage_granted e r s p"
    have quiet: "wtriple (at_view s bk) m (\<lambda>_. access_held e r s) (access_held e r s)" if "w_keeps manage_view m" for m :: "web_answer web"
      by (rule keeps_then_quiet [OF _ that]) (rule held)
    have change: "wtriple (at_view s bk) (w_then (requireManageCSRF e) (\<lambda>_. space_change e p)) (\<lambda>_. access_held e r s) (access_held e r s)"
      if "p_CanAdmin p"
      by (rule requireManageCSRF_then, erule held, rule access_change_held [OF space_change_triple [OF ok that] p])
    show "wtriple (at_view s bk) (if \<not> p_CanAdmin p then admin_required e ''global admin access required''
        else if rq_Method (wx_http e) = ''GET'' then renderManagePublishSpaces e
        else if rq_Method (wx_http e) = ''POST'' then w_then (requireManageCSRF e) (\<lambda>_. space_change e p)
        else manage_method_not_allowed e) (\<lambda>_. access_held e r s) (access_held e r s)"
      by (intro wtriple_if) ((rule change, simp) | (rule quiet, intro view_intros))+
  qed
  show ?thesis
    unfolding access_route_def Let_def
    by (intro wtriple_if access_pages [OF ok] spaces read_pages) (erule held)+
qed

lemma module_route_held:
  assumes "service_ok (hx_service (wx_api e))" "db_inv (g_sv (hx_service (wx_api e))) s"
  shows "wtriple (started s bk r) (module_route e) (\<lambda>_. releases_held e r s) (releases_held e r s)"
proof -
  have wrong_method: "wtriple (started s bk r) (manage_method_not_allowed e) (\<lambda>_. releases_held e r s) (releases_held e r s)"
    by (rule started_quiet, erule at_view_releases_held, rule page_keeps)
  show ?thesis
    unfolding module_route_def manageModulesRoot_def
    by (intro wtriple_if module_pages [OF assms] read_pages wrong_method) (erule at_view_releases_held)
qed

lemma route_result:
  assumes "wtriple (started (hdb (wb_api b)) (w_bucket (h_world (wb_api b))) (h_authz (wb_api b))) m (\<lambda>_ h. R (hdb h)) (\<lambda>h. R (hdb h))"
    and "web_respond m b = (b', answer)"
  shows "R (hdb (wb_api b'))"
  using wtriple_respond [OF assms(1) _ assms(2)] by (simp add: started_def)

end
