(* ===== verification/LoginProperties.thy ===== *)
theory LoginProperties
  imports WebCalculus
begin

text \<open>
  What a login proves: a session of the store comes from a callback that holds the state the login
  left in the browser and in the store, and that state is spent.
\<close>

section \<open>A session is earned\<close>

definition login_view :: "db \<Rightarrow> oidc_session list \<times> state_row list" where
  "login_view s = (db_sessions s, db_states s)"

lemma plain_login_view: "plain_view login_view"
  by (simp add: plain_view_def same_plain_def login_view_def)

definition callback_hash :: "web_request \<Rightarrow> web_auth \<Rightarrow> string" where
  "callback_hash e a = wa_hashState a (hx_query (wx_api e) ''state'')"

text \<open>The browser sent the state it was given, and the store holds it unspent and unexpired.\<close>

definition state_accepted :: "web_request \<Rightarrow> web_auth \<Rightarrow> state_row list \<Rightarrow> oidc_state \<Rightarrow> bool" where
  "state_accepted e a rows state \<longleftrightarrow>
     (\<exists>c payload. request_cookie e stateCookie = Some c \<and> wa_decode a c = Some payload \<and>
        hx_query (wx_api e) ''state'' = (case map_of payload ''state'' of None \<Rightarrow> [] | Some s \<Rightarrow> s)) \<and>
     (\<exists>row \<in> set rows. consumable (callback_hash e a) (wx_now e) row \<and> sr_state row = state)"

definition state_spent :: "web_request \<Rightarrow> web_auth \<Rightarrow> state_row list \<Rightarrow> bool" where
  "state_spent e a rows \<longleftrightarrow> (\<forall>later \<ge> wx_now e. \<not> list_ex (consumable (callback_hash e a) later) rows)"

text \<open>The provider gave an ID token for the code and the verifier of that state, with its nonce.\<close>

definition identity_verified :: "web_request \<Rightarrow> web_auth \<Rightarrow> oidc_state \<Rightarrow> id_claims \<Rightarrow> bool" where
  "identity_verified e a state claims \<longleftrightarrow>
     (\<exists>token. wa_exchange a (oauth2_redirect e a) (hx_query (wx_api e) ''code'') (t_PKCEVerifier state) = Some (Some token) \<and>
        wa_verify a token = Some (t_Nonce state, Some claims))"

definition session_of :: "web_request \<Rightarrow> web_auth \<Rightarrow> id_claims \<Rightarrow> string \<Rightarrow> string \<Rightarrow> oidc_session" where
  "session_of e a claims sessionID secret =
     \<lparr>e_SessionHash = wa_hashSessionID a sessionID, e_Subject = ic_Sub claims, e_Email = ic_Email claims,
      e_EmailVerified = ic_EmailVerified claims, e_Name = ic_Name claims, e_Groups = ic_Groups claims,
      e_CSRFSecret = secret, e_CreatedAt = wx_now e, e_ExpiresAt = wx_now e + oidcSessionTTL, e_LastSeenAt = wx_now e,
      e_RevokedAt = None\<rparr>"

definition session_earned :: "web_request \<Rightarrow> web_auth \<Rightarrow> db \<Rightarrow> db \<Rightarrow> bool" where
  "session_earned e a s0 s \<longleftrightarrow>
     (\<exists>state claims sessionID secret. state_accepted e a (db_states s0) state \<and> identity_verified e a state claims \<and>
        db_sessions s = db_sessions s0 @ [session_of e a claims sessionID secret] \<and> state_spent e a (db_states s))"

lemma ConsumeOIDCState_spends:
  assumes "ConsumeOIDCState s hash now = (s1, Inr state)"
  shows "(\<exists>row \<in> set (db_states s). consumable hash now row \<and> sr_state row = state) \<and>
    (\<forall>later \<ge> now. \<not> list_ex (consumable hash later) (db_states s1))"
proof -
  obtain row where row: "find (consumable hash now) (db_states s) = Some row" "sr_state row = state"
      "s1 = s\<lparr>db_states := update_where (consumable hash now) (\<lambda>r. r\<lparr>sr_consumed_at := Some now\<rparr>) (db_states s)\<rparr>"
    using assms by (auto simp: ConsumeOIDCState_def split: option.splits)
  have found: "row \<in> set (db_states s)" "consumable hash now row" using row(1) by (auto simp: find_Some_iff)
  have spent: "\<not> consumable hash later (if consumable hash now r then r\<lparr>sr_consumed_at := Some now\<rparr> else r)"
    if "now \<le> later" for later r
    using that by (auto simp: consumable_def)
  have "\<not> list_ex (consumable hash later) (update_where (consumable hash now) (\<lambda>r. r\<lparr>sr_consumed_at := Some now\<rparr>) rows)"
    if "now \<le> later" for later rows
    unfolding update_where_def by (induction rows) (simp_all only: list.map list_ex_Nil_iff list_ex_Cons_iff spent [OF that] simp_thms)
  then have "\<not> list_ex (consumable hash later) (db_states s1)" if "now \<le> later" for later
    using that by (simp add: row(3))
  then show ?thesis using found row(2) by blast
qed

lemma ConsumeOIDCState_sessions: "db_sessions (fst (ConsumeOIDCState s hash now)) = db_sessions s"
  by (simp add: ConsumeOIDCState_def split: option.split)

section \<open>The steps of the callback\<close>

definition untouched :: "db \<Rightarrow> api_state \<Rightarrow> bool" where "untouched s0 h \<longleftrightarrow> login_view (hdb h) = login_view s0"

definition no_session :: "db \<Rightarrow> api_state \<Rightarrow> bool" where "no_session s0 h \<longleftrightarrow> db_sessions (hdb h) = db_sessions s0"

definition may_log_in :: "web_request \<Rightarrow> web_auth \<Rightarrow> db \<Rightarrow> oidc_state \<Rightarrow> api_state \<Rightarrow> bool" where
  "may_log_in e a s0 state h \<longleftrightarrow>
     no_session s0 h \<and> state_accepted e a (db_states s0) state \<and> state_spent e a (db_states (hdb h))"

definition logged_in :: "web_request \<Rightarrow> web_auth \<Rightarrow> db \<Rightarrow> api_state \<Rightarrow> bool" where
  "logged_in e a s0 h \<longleftrightarrow> no_session s0 h \<or> session_earned e a s0 (hdb h)"

lemma untouched_no_session: "untouched s0 h \<Longrightarrow> no_session s0 h"
  by (simp add: untouched_def no_session_def login_view_def)

lemma fail_state_triple: "(\<And>h. P h \<Longrightarrow> E h) \<Longrightarrow> wtriple P (failState e a message) Q E"
  unfolding failState_def clearCookie_def by (rule wtriple_then) (rule wtriple_cookie, assumption, rule wtriple_answer)

lemma accept_state_triple: "wtriple (untouched s0) (accept_state e a) (may_log_in e a s0) (no_session s0)"
proof -
  let ?hash = "callback_hash e a" and ?cb = "hx_query (wx_api e) ''state''"
  have consume: "wtriple (untouched s0) (w_then (w_call (db_write (\<lambda>s. ConsumeOIDCState s (wa_hashState a ?cb) (wx_now e)))) (\<lambda>r.
        case r of Inl _ \<Rightarrow> failState e a ''OIDC session expired or was already used. Start login again.''
        | Inr state \<Rightarrow> w_then (clearCookie e a stateCookie) (\<lambda>_. w_return state)))
      (may_log_in e a s0) (no_session s0)"
    if c: "request_cookie e stateCookie = Some c" "wa_decode a c = Some payload"
      "?cb = (case map_of payload ''state'' of None \<Rightarrow> [] | Some s \<Rightarrow> s)" for c payload
  proof (rule wtriple_then)
    show "wtriple (untouched s0) (w_call (db_write (\<lambda>s. ConsumeOIDCState s (wa_hashState a ?cb) (wx_now e))))
        (\<lambda>r h. case r of Inl _ \<Rightarrow> no_session s0 h | Inr state \<Rightarrow> may_log_in e a s0 state h) (no_session s0)"
    proof (rule wtriple_write)
      fix h h1 :: api_state
      assume u: "untouched s0 h" and w: "hdb h1 = fst (ConsumeOIDCState (hdb h) (wa_hashState a ?cb) (wx_now e))"
      have n: "no_session s0 h1"
        using untouched_no_session [OF u] w ConsumeOIDCState_sessions by (simp add: no_session_def)
      have "may_log_in e a s0 state h1"
        if "snd (ConsumeOIDCState (hdb h) (wa_hashState a ?cb) (wx_now e)) = Inr state" for state
      proof -
        have "ConsumeOIDCState (hdb h) ?hash (wx_now e) = (hdb h1, Inr state)"
          using w that by (simp add: prod_eq_iff callback_hash_def)
        note spent = ConsumeOIDCState_spends [OF this]
        have "db_states (hdb h) = db_states s0" using u by (simp add: untouched_def login_view_def)
        then show ?thesis using n spent c by (auto simp: may_log_in_def state_accepted_def state_spent_def)
      qed
      then show "(case map_sum StoreFault (\<lambda>x. x) (snd (ConsumeOIDCState (hdb h) (wa_hashState a ?cb) (wx_now e))) of
            Inl _ \<Rightarrow> no_session s0 h1 | Inr state \<Rightarrow> may_log_in e a s0 state h1) \<and>
          (case Inl Unavailable of Inl _ \<Rightarrow> no_session s0 h1 | Inr state \<Rightarrow> may_log_in e a s0 state h1)"
        using n by (cases "snd (ConsumeOIDCState (hdb h) (wa_hashState a ?cb) (wx_now e))") simp_all
    qed (auto simp: untouched_def no_session_def login_view_def)
    show "wtriple (\<lambda>h. case r of Inl _ \<Rightarrow> no_session s0 h | Inr state \<Rightarrow> may_log_in e a s0 state h)
        (case r of Inl _ \<Rightarrow> failState e a ''OIDC session expired or was already used. Start login again.''
        | Inr state \<Rightarrow> w_then (clearCookie e a stateCookie) (\<lambda>_. w_return state))
        (may_log_in e a s0) (no_session s0)" for r :: "service_error + oidc_state"
      unfolding clearCookie_def
      by (cases r) (simp_all add: fail_state_triple wtriple_cookie_return)
  qed
  show ?thesis
    unfolding accept_state_def Let_def
    by (intro wtriple_option wtriple_if fail_state_triple untouched_no_session consume) simp_all
qed

lemma verified_claims_triple:
  "wtriple (may_log_in e a s0 state) (verified_claims e a state)
     (\<lambda>claims h. may_log_in e a s0 state h \<and> identity_verified e a state claims) (no_session s0)"
  unfolding verified_claims_def
  by (auto intro!: wtriple_answer wtriple_return simp: may_log_in_def identity_verified_def split: option.split if_split prod.split)

lemma CreateOIDCSession_effect:
  "CreateOIDCSession s x = (s1, r) \<Longrightarrow>
     s1 = s\<lparr>db_sessions := db_sessions s @ [x]\<rparr> \<and> r = Inr () \<or> s1 = s \<and> (\<exists>err. r = Inl err)"
  by (auto simp: CreateOIDCSession_def split: if_splits)

lemma create_session_triple:
  "wtriple (\<lambda>h. may_log_in e a s0 state h \<and> identity_verified e a state claims) (createSession e a (claims_session claims))
     (\<lambda>_. logged_in e a s0) (logged_in e a s0)"
proof -
  let ?P = "\<lambda>h. may_log_in e a s0 state h \<and> identity_verified e a state claims"
  have p: "logged_in e a s0 h" if "?P h" for h using that by (simp add: logged_in_def may_log_in_def)
  have stored: "logged_in e a s0 h1"
    if "?P h" "hdb h1 = fst (CreateOIDCSession (hdb h) (session_of e a claims sessionID secret))" for h h1 sessionID secret
  proof -
    note h = that
    let ?x = "session_of e a claims sessionID secret"
    obtain r where "CreateOIDCSession (hdb h) ?x = (hdb h1, r)" using h(2) by (cases "CreateOIDCSession (hdb h) ?x") simp
    from CreateOIDCSession_effect [OF this] consider "hdb h1 = (hdb h)\<lparr>db_sessions := db_sessions (hdb h) @ [?x]\<rparr>" | "hdb h1 = hdb h"
      by blast
    then show ?thesis
    proof cases
      case 1
      then have "db_sessions (hdb h1) = db_sessions s0 @ [?x]" "db_states (hdb h1) = db_states (hdb h)"
        using h(1) by (simp_all add: may_log_in_def no_session_def)
      then have "session_earned e a s0 (hdb h1)" unfolding session_earned_def
        using h(1) by (intro exI conjI) (auto simp: may_log_in_def)
      then show ?thesis by (simp add: logged_in_def)
    qed (use h(1) in \<open>simp add: logged_in_def may_log_in_def no_session_def\<close>)
  qed
  have create: "wtriple ?P (w_call (db_write (\<lambda>s. CreateOIDCSession s (session_of e a claims sessionID secret))))
      (\<lambda>_. logged_in e a s0) (logged_in e a s0)" for sessionID secret
    by (rule wtriple_write) (auto simp: p may_log_in_def no_session_def intro: stored)
  have same: "\<lparr>e_SessionHash = wa_hashSessionID a sessionID, e_Subject = ws_Sub (claims_session claims),
      e_Email = ws_Email (claims_session claims), e_EmailVerified = ws_EmailVerified (claims_session claims),
      e_Name = ws_Name (claims_session claims), e_Groups = ws_Groups (claims_session claims), e_CSRFSecret = secret,
      e_CreatedAt = wx_now e, e_ExpiresAt = wx_now e + oidcSessionTTL, e_LastSeenAt = wx_now e, e_RevokedAt = None\<rparr> =
      session_of e a claims sessionID secret" for sessionID secret
    by (simp add: session_of_def claims_session_def)
  show ?thesis
    unfolding createSession_def same
  proof (rule wtriple_then [OF wtriple_random [where Q = "\<lambda>_. ?P"]])
    show "wtriple ?P (case r of None \<Rightarrow> w_return None | Some sessionID \<Rightarrow>
        w_then random_string (\<lambda>r. case r of None \<Rightarrow> w_return None | Some csrfSecret \<Rightarrow>
        w_then (w_call (db_write (\<lambda>s. CreateOIDCSession s (session_of e a claims sessionID csrfSecret)))) (\<lambda>r.
          case r of Inl _ \<Rightarrow> w_return None | Inr _ \<Rightarrow> w_return (Some sessionID))))
        (\<lambda>_. logged_in e a s0) (logged_in e a s0)" for r
    proof (rule wtriple_option)
      show "wtriple ?P (w_then random_string (\<lambda>r. case r of None \<Rightarrow> w_return None | Some csrfSecret \<Rightarrow>
          w_then (w_call (db_write (\<lambda>s. CreateOIDCSession s (session_of e a claims sessionID csrfSecret)))) (\<lambda>r.
            case r of Inl _ \<Rightarrow> w_return None | Inr _ \<Rightarrow> w_return (Some sessionID))))
          (\<lambda>_. logged_in e a s0) (logged_in e a s0)" for sessionID
        by (rule wtriple_then [OF wtriple_random [where Q = "\<lambda>_. ?P"]], assumption, rule wtriple_option)
          (rule wtriple_return, erule p, rule wtriple_then [OF create], (rule wtriple_sum; rule wtriple_return))
    qed (rule wtriple_return, erule p)
  qed
qed

lemma Callback_triple: "wtriple (untouched s0) (Callback e a) (\<lambda>_. logged_in e a s0) (logged_in e a s0)"
proof -
  have n: "no_session s0 h \<Longrightarrow> logged_in e a s0 h" for h by (simp add: logged_in_def)
  note weak = wtriple_weaken [where E = "logged_in e a s0", OF _ _ _ n]
  show ?thesis
    unfolding Callback_def Let_def setSessionCookie_def
  proof (intro wtriple_then)
    show "wtriple (untouched s0) (accept_state e a) (may_log_in e a s0) (logged_in e a s0)"
      by (rule weak [OF accept_state_triple])
    fix state
    show "wtriple (may_log_in e a s0 state) (verified_claims e a state)
        (\<lambda>claims h. may_log_in e a s0 state h \<and> identity_verified e a state claims) (logged_in e a s0)"
      by (rule weak [OF verified_claims_triple])
    fix claims
    show "wtriple (\<lambda>h. may_log_in e a s0 state h \<and> identity_verified e a state claims)
        (createSession e a (claims_session claims)) (\<lambda>_. logged_in e a s0) (logged_in e a s0)"
      by (rule create_session_triple)
    fix r :: "string option"
    show "wtriple (logged_in e a s0) (case r of None \<Rightarrow> w_answer (PlainText 500 ''failed to persist session'')
        | Some sessionID \<Rightarrow> w_then (add_cookie (web_cookie e a sessionCookie sessionID (oidcSessionTTL div second)))
            (\<lambda>_. w_return (claims_session claims, Located (t_NextPath state)))) (\<lambda>_. logged_in e a s0) (logged_in e a s0)"
      by (cases r) (simp_all add: wtriple_answer wtriple_cookie_return)
  qed
qed

section \<open>The page\<close>

lemma login_keeps: "(\<And>s. db_sessions (fst (f s)) = db_sessions s \<and> db_states (fst (f s)) = db_states s) \<Longrightarrow>
    w_keeps login_view (w_call (db_write f))"
  by (rule w_keeps_write) (simp add: login_view_def)

lemma login_audit_keeps: "w_keeps login_view (auditOIDCLogin e session)"
proof -
  have "w_keeps login_view (auditWithOIDCSession e p (Some s) action result reason attrs)" for p s action result reason attrs
    unfolding w_keeps_def auditWithOIDCSession_def
  proof
    fix b
    have "w_keeps login_view (w_then (audit_session e p (Some s)) (\<lambda>s. w_api (audit (with_session e s) p action result reason attrs)))"
      by (simp only: audit_session_def option.simps if_False) (intro view_intros plain_login_view)
    then show "login_view (hdb (wb_api (fst (if result = ''success'' \<and> MutationAuditRecorded (w_ctx (h_world (wb_api b)))
        then (b, Inr ()) else w_then (audit_session e p (Some s)) (\<lambda>s. w_api (audit (with_session e s) p action result reason attrs)) b)))) =
        login_view (hdb (wb_api b)) \<and>
      w_bucket (h_world (wb_api (fst (if result = ''success'' \<and> MutationAuditRecorded (w_ctx (h_world (wb_api b)))
        then (b, Inr ()) else w_then (audit_session e p (Some s)) (\<lambda>s. w_api (audit (with_session e s) p action result reason attrs)) b)))) =
        w_bucket (h_world (wb_api b))"
      by (simp add: w_keeps_def)
  qed
  then show ?thesis unfolding auditOIDCLogin_def Let_def by (intro view_intros)
qed

text \<open>
  C5: A browser session is earned. Whatever a callback is sent and whatever the store answers, the
  sessions of the store afterwards are those before it or, added to them, one session. It is added only
  when the browser sent the state cookie that encloses the state of the query, the store held that state
  unspent and unexpired, and the provider gave, for the code and the verifier of that state, a valid ID
  token that carries its nonce; the session holds the identity of that token. The state is then spent:
  no callback with it is accepted at this or any later time.
\<close>

theorem login_session_is_earned:
  assumes "wx_auth e = Some a" and "web_respond (callbackPage e) b = (b', answer)"
  shows "db_sessions (hdb (wb_api b')) = db_sessions (hdb (wb_api b)) \<or>
    session_earned e a (hdb (wb_api b)) (hdb (wb_api b'))"
proof -
  let ?s0 = "hdb (wb_api b)"
  have view: "logged_in e a ?s0 h1" if "login_view (hdb h1) = login_view (hdb h)" "logged_in e a ?s0 h" for h h1
    using that by (auto simp: logged_in_def no_session_def session_earned_def login_view_def)
  have "wtriple (untouched ?s0) (callbackPage e) (\<lambda>_. logged_in e a ?s0) (logged_in e a ?s0)"
    unfolding callbackPage_def assms(1) option.case
  proof (intro wtriple_then)
    have "wtriple (untouched ?s0) (w_api (requireSharedRateLimit (wx_api e) ''auth-callback'' 60 minute ''too many login callback attempts''))
        (\<lambda>_. untouched ?s0) (untouched ?s0)"
      by (rule w_keeps_triple [where V = login_view]) (auto intro: view_intros plain_login_view simp: untouched_def)
    then show "wtriple (untouched ?s0) (w_api (requireSharedRateLimit (wx_api e) ''auth-callback'' 60 minute ''too many login callback attempts''))
        (\<lambda>_. untouched ?s0) (logged_in e a ?s0)"
      by (rule wtriple_weaken) (simp_all add: logged_in_def untouched_no_session)
    show "wtriple (untouched ?s0) (Callback e a) (\<lambda>_. logged_in e a ?s0) (logged_in e a ?s0)" by (rule Callback_triple)
    show "wtriple (logged_in e a ?s0) (case x of (session, answer) \<Rightarrow> w_then (auditOIDCLogin e session) (\<lambda>_. w_return answer))
        (\<lambda>_. logged_in e a ?s0) (logged_in e a ?s0)" for x
      by (cases x) (auto intro!: wtriple_then [OF w_keeps_triple [OF login_audit_keeps]] wtriple_return intro: view)
  qed
  from wtriple_respond [OF this _ assms(2)] show ?thesis by (auto simp: untouched_def logged_in_def no_session_def)
qed

definition example_auth :: web_auth where
  "example_auth =
     \<lparr>wa_clientID = ''forge'', wa_redirectURL = ''r'', wa_logoutURL = [], wa_publicBaseURL = [],
      wa_hashState = (\<lambda>s. ''#'' @ s), wa_hashSessionID = (\<lambda>s. ''#'' @ s), wa_encode = (\<lambda>xs. Some (snd (hd xs))),
      wa_decode = (\<lambda>s. Some [(''state'', s)]), wa_authCodeURL = (\<lambda>r state nonce verifier. state),
      wa_exchange = (\<lambda>r code verifier. Some (Some ''token'')),
      wa_verify = (\<lambda>token. Some (''nonce'', Some \<lparr>ic_Sub = ''u'', ic_Email = ''u@x'', ic_EmailVerified = True,
        ic_Name = ''U'', ic_Groups = []\<rparr>))\<rparr>"

definition example_web :: "api_request \<Rightarrow> cookies \<Rightarrow> (string \<Rightarrow> string) \<Rightarrow> web_request" where
  "example_web api cookies post =
     \<lparr>wx_api = api, wx_parse = (\<lambda>_. None), wx_parse_request_uri = (\<lambda>_. None), wx_with_query = (\<lambda>u _. u),
      wx_query_escape = (\<lambda>s. s), wx_path_escape = (\<lambda>s. s), wx_post = post, wx_form_ok = True, wx_cookies = cookies,
      wx_auth = Some example_auth, wx_manage_hash = (\<lambda>s. ''#'' @ s), wx_publicBaseURL = [], wx_quote = (\<lambda>s. s),
      wx_auth_text = (\<lambda>_. []), wx_uuids = (\<lambda>_. ''uuid''),
      wx_values = [], wx_json = (\<lambda>_. [])\<rparr>"

definition example_callback :: web_request where
  "example_callback =
     example_web ((example_api (example_http ''GET'' ''/auth/callback'' []))\<lparr>hx_query := (\<lambda>_. ''s'')\<rparr>)
       [(stateCookie, ''s'')] (\<lambda>_. [])"

definition example_login_state :: web_state where
  "example_login_state =
     \<lparr>wb_api = example_api_state (empty_db\<lparr>db_states :=
        [\<lparr>sr_state = \<lparr>t_StateHash = ''#s'', t_Nonce = ''nonce'', t_PKCEVerifier = ''v'', t_NextPath = ''/'',
           t_CreatedAt = 0, t_ExpiresAt = 1000\<rparr>, sr_consumed_at = None\<rparr>]\<rparr>, []),
      wb_cookies = [], wb_random = [Some ''id'', Some ''secret'']\<rparr>"

definition example_login :: "web_state \<times> web_answer" where
  "example_login = web_respond (callbackPage example_callback) example_login_state"

theorem login_session_is_earned_witness:
  "map e_Subject (db_sessions (hdb (wb_api (fst example_login)))) = [''u''] \<and>
   session_earned example_callback example_auth (hdb (wb_api example_login_state)) (hdb (wb_api (fst example_login)))"
proof -
  have s: "map e_Subject (db_sessions (hdb (wb_api (fst example_login)))) = [''u'']" by code_simp
  have a: "wx_auth example_callback = Some example_auth" by (simp add: example_callback_def example_web_def)
  have empty: "db_sessions (hdb (wb_api example_login_state)) = []" by code_simp
  have "web_respond (callbackPage example_callback) example_login_state = (fst example_login, snd example_login)"
    by (simp add: example_login_def)
  from login_session_is_earned [OF a this] show ?thesis using s empty by auto
qed

end
