(* ===== verification/ManageAuthorized.thy ===== *)
theory ManageAuthorized
  imports ManageProperties LoginProperties
begin

text \<open>
  Two properties of the management: who changes the access configuration, and who changes releases,
  through the pages of the browser.
\<close>

section \<open>Properties\<close>

text \<open>
  C3: Only an administrator changes the access configuration from the browser, and only an
  administrator of the forge all of it. Whatever page below \<open>/manage\<close> is requested, with whatever form,
  cookies and failures of the store, the access of a team afterwards (whether it exists, its spaces,
  its OIDC mappings, its tokens) is what it was, or the request carries a live session with its CSRF
  secret, whose principal administers, by the access configuration of the moment, that team or the
  forge. Who does not administer the forge can only let a team go on that it administers, perhaps under
  another name it administers: its mappings to emails, subjects, domains and administrators of the forge
  stay as they are, its publish spaces too, up to the space with the name of the team, and no token is
  lost, altered or reinstated; so no team appears or disappears otherwise. What is free are the groups,
  the administrators of the team, new tokens and the revocation of tokens. The tables of the
  configuration are as the store writes them.
\<close>

theorem manage_access_authorized:
  assumes "access_ok (hdb (wb_api b))" and "web_respond (access_route e) b = (b', answer)"
  shows "access_ok (hdb (wb_api b')) \<and>
    (\<forall>team. team_access (hdb (wb_api b')) team = team_access (hdb (wb_api b)) team \<or>
      (\<exists>p. manage_granted e (h_authz (wb_api b)) (hdb (wb_api b)) p \<and> csrf_proved e (hdb (wb_api b)) \<and>
        canManageAccessTeam p team \<and>
        (p_CanAdmin p \<or> team_admin_change p (hdb (wb_api b)) (hdb (wb_api b')) team)))"
proof -
  have "access_result e (h_authz (wb_api b)) (hdb (wb_api b)) (hdb (wb_api b'))"
    by (rule route_result [OF access_route_held [OF assms(1)] assms(2)])
  then show ?thesis by (simp add: access_result_def changed_by_def)
qed

definition example_browser :: "oidc_session" where
  "example_browser =
     \<lparr>e_SessionHash = ''#s'', e_Subject = ''u'', e_Email = ''u@x'', e_EmailVerified = True, e_Name = ''U'', e_Groups = [],
      e_CSRFSecret = ''k'', e_CreatedAt = 0, e_ExpiresAt = 1000, e_LastSeenAt = 0, e_RevokedAt = None\<rparr>"

definition example_manager :: web_state where
  "example_manager =
     (let h = example_api_state (empty_db\<lparr>db_oidc := [(''ops'', ''team_admin_email'', ''u@x'')], db_sessions := [example_browser]\<rparr>, [])
      in \<lparr>wb_api = h, wb_cookies = [], wb_random = []\<rparr>)"

definition example_team_form :: "string \<Rightarrow> string" where
  "example_team_form field =
     (if field = ''action'' then ''save_team'' else if field = ''team'' \<or> field = ''original_team'' then ''ops''
      else if field = ''oidc_groups'' then ''devs'' else if field = ''oidc_team_admin_emails'' then ''u@x'' else [])"

definition example_team_change :: web_request where
  "example_team_change =
     example_web ((example_api (example_http ''POST'' ''/manage/access'' []))\<lparr>hx_form := example_team_form\<rparr>)
       [(sessionCookie, ''s''), (manageCSRFCookie, ''k'')] (\<lambda>field. if field = ''csrf_token'' then ''k'' else [])"

definition example_team_saved :: "web_state \<times> web_answer" where
  "example_team_saved = web_respond (access_route example_team_change) example_manager"

theorem manage_access_authorized_witness:
  "(''ops'', ''group'', ''devs'') \<in> set (db_oidc (hdb (wb_api (fst example_team_saved)))) \<and>
   (\<exists>p. manage_granted example_team_change (h_authz (wb_api example_manager)) (hdb (wb_api example_manager)) p \<and>
      canManageAccessTeam p ''ops'' \<and>
      (p_CanAdmin p \<or> team_admin_change p (hdb (wb_api example_manager)) (hdb (wb_api (fst example_team_saved))) ''ops''))"
proof -
  let ?s = "hdb (wb_api example_manager)" and ?t = "hdb (wb_api (fst example_team_saved))"
  have stored: "(''ops'', ''group'', ''devs'') \<in> set (db_oidc ?t)" "(''ops'', ''group'', ''devs'') \<notin> set (db_oidc ?s)"
    by code_simp+
  have ok: "access_ok ?s" by code_simp
  have "team_access ?t ''ops'' \<noteq> team_access ?s ''ops''" using stored by (auto simp: team_access_def)
  moreover have "web_respond (access_route example_team_change) example_manager = (fst example_team_saved, snd example_team_saved)"
    by (simp add: example_team_saved_def)
  ultimately show ?thesis using manage_access_authorized [OF ok] stored(1) by blast
qed

text \<open>
  C4: Only who may publish or delete in a space changes its releases from the browser. Whatever module
  page is requested, with whatever form, upload, cookies and failures, the releases of an owner
  afterwards are what they were, or the request carries a live session, with its CSRF secret, whose
  principal is a global administrator, may delete releases of that owner, or may publish to it and
  calls from an allowed address.
\<close>

theorem manage_release_authorized:
  assumes "service_ok (hx_service (wx_api e))" and "db_inv (g_sv (hx_service (wx_api e))) (hdb (wb_api b))"
    and "web_respond (module_route e) b = (b', answer)"
  shows "\<forall>owner. releases_of owner (hdb (wb_api b')) = releases_of owner (hdb (wb_api b)) \<or>
    (\<exists>p. manage_granted e (h_authz (wb_api b)) (hdb (wb_api b)) p \<and> csrf_proved e (hdb (wb_api b)) \<and>
      may_change e p owner)"
proof -
  have "release_result e (h_authz (wb_api b)) (hdb (wb_api b)) (hdb (wb_api b'))"
    by (rule route_result [OF module_route_held [OF assms(1,2)] assms(3)])
  then show ?thesis by (simp add: release_result_def)
qed

definition example_upload :: web_request where
  "example_upload =
     example_web (example_api (example_http ''POST'' ''/manage/modules'' []))
       [(sessionCookie, ''s''), (manageCSRFCookie, ''k'')] (\<lambda>field. if field = ''csrf_token'' then ''k'' else [])"

definition example_uploaded :: "web_state \<times> web_answer" where
  "example_uploaded = web_respond (module_route example_upload) example_manager"

theorem manage_release_authorized_witness:
  "map (\<lambda>(m, r). (rr_sha256 r, mr_owner m)) (joined (hdb (wb_api (fst example_uploaded)))) = [(''bytes'', ''acme'')] \<and>
   (\<exists>p. manage_granted example_upload (h_authz (wb_api example_manager)) (hdb (wb_api example_manager)) p \<and>
      may_change example_upload p ''acme'')"
proof -
  let ?s = "hdb (wb_api example_manager)" and ?t = "hdb (wb_api (fst example_uploaded))"
  have stored: "map (\<lambda>(m, r). (rr_sha256 r, mr_owner m)) (joined ?t) = [(''bytes'', ''acme'')]" by code_simp
  then obtain m r where mr: "joined ?t = [(m, r)]" "mr_owner m = ''acme''" by auto
  then have "scanRelease m r \<in> releases_of ''acme'' ?t"
    by (simp add: releases_of_def catalog_joined scanRelease_def)
  moreover have "joined ?s = []" by code_simp
  then have "releases_of ''acme'' ?s = {}" by (simp add: releases_of_def catalog_joined)
  ultimately have changed: "releases_of ''acme'' ?t \<noteq> releases_of ''acme'' ?s" by blast
  have g: "hx_service (wx_api example_upload) = example_service S3 ''modules''"
    by (simp add: example_upload_def example_web_def example_api_def)
  have ok: "service_ok (hx_service (wx_api example_upload))" unfolding g by (rule example_service_ok)
  have "db_modules ?s = []" "db_releases ?s = []" "db_deletions ?s = []" "db_tombstones ?s = []" by code_simp+
  then have "db_inv (g_sv (hx_service (wx_api example_upload))) ?s"
    using db_inv_empty [of "g_sv (hx_service (wx_api example_upload))"] by (simp add: db_inv_def empty_db_def)
  from manage_release_authorized [OF ok this, of "fst example_uploaded" "snd example_uploaded"] changed stored
  show ?thesis by (auto simp: example_uploaded_def)
qed

end
