(* ===== verification/Spec2Isabelle.thy ===== *)
theory Spec2Isabelle
  imports Throttle RateLimiter StoreProperties SqliteSessions ModuleLock AccessRoundtrip AuthProperties Authz DeletionProperties ProxyProperties Outbound RequestBoundary DownloadProperties ForgeListing ManageAuthorized
begin

text \<open>
  puppet-forge is a server for Puppet modules: it stores module releases that teams publish, serves
  them to Puppet clients through the Forge API, passes requests for other modules on to an upstream
  Forge and caches the answers, and has pages on which teams publish, delete and administer access.
  This development models the core of its Go code and proves what makes it correct. Names of
  definitions are the names of the code; files are named relative to \<open>internal/\<close>.

  The parts of the program and how they interact.

  A request passes the boundary (\<open>httpapi/request_boundary.go\<close>), which decides whose forwarded headers
  count and which hosts are served, and reaches a handler: the API (\<open>router_api.go\<close>), the Forge API
  (\<open>router_v3.go\<close>), the browser login (\<open>webauth/oidc.go\<close>, \<open>router_manage_auth.go\<close>) or a page of the
  management (\<open>router_manage_*.go\<close>). Handlers ask the authorizer (\<open>auth/auth.go\<close>), whose snapshot of the
  access configuration is refreshed from the store (\<open>router_authz.go\<close>), the rate limiters, and the module
  service (\<open>service/module_service.go\<close>). The service inspects archives, keeps artifacts in a bucket
  (\<open>storage/\<close>) and rows in the store (\<open>store/\<close>), and calls the upstream through the proxy
  (\<open>proxy/forge_proxy.go\<close>). Jobs purge, reconcile and retry. The replicas of a server share the store,
  so sessions, leases and quotas live there.

  The theories, in the order of the layers.

  Prelude holds the vocabulary of the development: instants, errors as sums, Go maps as association
  lists, the functions of \<open>strings\<close> the program calls. GoHeap and GoPath are \<open>container/heap\<close> and
  \<open>path\<close>; FixedWindow and Lifecycle hold the locales of a fixed-window limiter and of a table whose rows
  are created once and ended once.

  Throttle (\<open>throttle/expiry_set.go\<close>) and RateLimiter (\<open>httpapi/rate_limiter.go\<close>) are the two in-process
  tables; both refine an abstract map. Version (\<open>domain/version.go\<close>, \<open>store/version.go\<close>) has the order of
  versions and the order keys the store sorts by, which agree.

  StoreTypes, SqliteModules, SqliteQueries and SqliteShared are the SQLite store (\<open>store/sqlite.go\<close> and
  the files beside it): a table is a list of rows of type \<open>db\<close>, a statement a function on it, a
  transaction the composition of its statements or no change. SqliteInvariant, SqliteStore, SqliteCatalog,
  StoreTables, StoreEffects and StoreProperties prove the invariant and the keys of the tables after every
  history, that the operations refine set operations on the catalog of releases, that a mutation and its
  audit event are one, and which two steps alone give up an artifact without the outbox.
  SqliteSessions proves single use of login states, the lifetime of sessions and the exclusion of leases
  over histories of all replicas. ModuleLock is the per-module lock as a step relation of goroutines.
  ReleaseConsumers has who reads what.

  Identity, Auth and AuthProperties are the authorizer: whom it recognises and with which rights, against
  the configurations. AccessConfig and AccessRoundtrip store and load these configurations. Authz is the
  refresh of the snapshot and the read access of a request.

  Archive reads uploads, Objects is the bucket on S3 and GCS. ServiceState has the state of the service:
  database, bucket, audit context, and a list of faults that says of every call that leaves the process
  whether it is answered, refused, or takes effect unanswered. UpstreamClient, ArtifactCache, Publishing,
  UpstreamReleases and Reconcile are the operations and jobs of the service. ObjectPaths, ServiceInvariant,
  PublishKeeps, UpstreamKeeps, JobKeeps, PublishResults, ServiceRun, ServiceProperties and
  DeletionProperties prove, for every history with every fault, that the artifacts of the catalog are held
  in the bucket, that publications overwrite nothing, and that deletions last. The first of these holds of
  histories that are \<open>confined\<close>: the code does not keep a file URI of the upstream inside the cache, and
  \<open>upstream_uri_deletes_artifact\<close> is what happens then. PublishScope proves what a publication and a
  deletion leave alone: every row, pending deletion and object of another space.

  HttpUtil, Outbound and RequestBoundary are the edges to the network: byte ranges, forwarded headers, the
  addresses the proxy may connect to. ResponseCache, ProxyHandler and ProxyProperties are the proxy.

  Responses, ApiState, ApiHandlers and ForgeApi are the API: a handler is a function of the state that may
  answer early. ApiProperties proves by triples over the handlers that only an authorized token changes
  something, and then one space only; DownloadProperties and ForgeListing prove what downloads and listings
  contain. A stream may break after its status is sent: how far \<open>io.Copy\<close> gets is an argument of the
  request (\<open>q_sent\<close>), and the properties say what the client then has.

  WebTypes, PageTypes, WebState, WebLogin, ManageAuth, ManageForms, ManageHandlers, ManageModules, Listing
  and ManagePages are the login and the pages: the state adds the cookies set and the random strings still
  to be drawn, an answer is a redirect, a page with the texts put into it, or lists with their paginations.
  WebCalculus has triples for these steps; ManageGuards says what the guards prove, AccessChanges,
  AccessAuthorized, AccessHandlers and ManageChanges what the forms change. LoginProperties,
  ManageProperties and ManageAuthorized state that a session is earned by a login and that a page changes
  only what its principal administers, and of a team only what the administrator of a team may change.

  Choices of the model.

  Time is an integer of nanoseconds; the instant of a request is an argument, as the code reads the clock.
  Text is a list of bytes. Machine integers are words where they can wrap (pagination offsets, upload
  limits, addresses) and integers elsewhere, with the bound written out. Go's maps are association lists
  without duplicate keys; where the code iterates over a map the model sorts as the code does afterwards.
  Loops are structural recursion or have a termination proof; the copy of an artifact and the walk along
  next links have fuel, and the properties say that as many steps as there are bytes or pages are enough.
  Operations on one module run under its lock and are one step of the service; what interleaves is proved
  for the lock itself and for the shared tables of the replicas. The clock reads of one JSON request before
  its call to the upstream are one instant; a cacheable answer is judged by the path of the request, not by
  the one a redirect of the upstream led to.

  What is not under \<open>src\<close> is a parameter: hashes and signatures, UUIDs and random strings, JSON and URL
  encoding, Unicode case mapping, tar and gzip reading, HTTP transport, the objects of S3 and GCS, the OIDC
  provider. Assumptions about them are named in the theorems, and the witnesses instantiate them.

  Not modelled: the PostgreSQL store, the migrations and the connection handling of both stores; HTML
  templates, Markdown rendering, static assets, navigation and the texts of times; the wiring of the server
  (\<open>app\<close>, \<open>cmd/server\<close>), its configuration from the environment, metrics, tracing and log lines, which
  are input and output without a rule of their own; the HTML page of a module; deployment files.
\<close>

end
